(* ===== verification/Prelude.thy ===== *)
theory Prelude
  imports Main "HOL-Library.Word" "HOL-Library.Multiset" "HOL-Library.List_Lexorder"
    "HOL-Library.Char_ord"
begin

section \<open>Prelude: the Go values, errors and library functions the components share\<close>

text \<open>
  What every theory of the development uses: the types that stand for Go's machine integers,
  instants and durations, \<^verbatim>\<open>(value, error)\<close> results as a sum type, and the functions of Go's
  standard library that the modelled code calls (\<^verbatim>\<open>sort.Slice\<close>, \<^verbatim>\<open>time\<close>, \<^verbatim>\<open>strings\<close>), with the
  lemmas the component proofs rest on.

  \<^item> An \<^verbatim>\<open>int32\<close> is a \<open>32 word\<close>: arithmetic wraps as Go's does, and every comparison of the source
    is a comparison of \<open>sint\<close> values. An \<^verbatim>\<open>int64\<close> identifier is only ever compared, so it is an \<open>int\<close>.
  \<^item> An instant is the \<open>int\<close> number of nanoseconds since Go's zero \<^verbatim>\<open>time.Time\<close>, so \<^verbatim>\<open>t.IsZero()\<close> is
    \<open>t = 0\<close>, \<^verbatim>\<open>Before\<close> is \<open><\<close>, \<^verbatim>\<open>After\<close> is \<open>>\<close> and \<^verbatim>\<open>Equal\<close> is \<open>=\<close>.
  \<^item> A nil-able pointer is an \<open>option\<close>; a Go string is a \<open>string\<close> (a list of bytes).
\<close>

named_theorems go_simps \<open>unfolding rules of the Go library functions\<close>

type_synonym int32 = "32 word"
type_synonym int64 = int
type_synonym time = int
type_synonym duration = int

subsection \<open>Errors as values\<close>

text \<open>
  The error values that the modelled code returns or inspects: the structured error of
  \<^verbatim>\<open>internal/apperror\<close>, pgx's no-rows sentinel, the sentinel of \<^verbatim>\<open>internal/authz\<close>, and plain
  \<^verbatim>\<open>errors.New\<close> / \<^verbatim>\<open>fmt.Errorf\<close> texts. \<^verbatim>\<open>Details\<close> holds any Go value; the model keeps its rendering.
\<close>

record app_error =
  Code :: string
  Message :: string
  HTTPStatus :: int
  Details :: "string option"

datatype go_error = AppErr app_error | ErrNoRows | ErrForbidden | ErrText string

type_synonym 'a res = "go_error + 'a"

fun bind_res :: "'a res \<Rightarrow> ('a \<Rightarrow> 'b res) \<Rightarrow> 'b res" where
  "bind_res (Inl e) f = Inl e"
| "bind_res (Inr x) f = f x"

fun is_ok :: "'a res \<Rightarrow> bool" where
  "is_ok (Inl e) = False"
| "is_ok (Inr x) = True"

lemma bind_res_Inr [simp]: "bind_res m f = Inr y \<longleftrightarrow> (\<exists>x. m = Inr x \<and> f x = Inr y)"
  by (cases m) auto

lemma bind_res_Inl: "bind_res m f = Inl e \<longleftrightarrow> m = Inl e \<or> (\<exists>x. m = Inr x \<and> f x = Inl e)"
  by (cases m) auto

lemma is_ok_iff: "is_ok r \<longleftrightarrow> (\<exists>x. r = Inr x)"
  by (cases r) auto

lemma bind_res_assoc: "bind_res (bind_res m f) g = bind_res m (\<lambda>x. bind_res (f x) g)"
  by (cases m) auto

subsection \<open>Time\<close>

text \<open>
  \<^verbatim>\<open>Time.Sub\<close> saturates at the range of an \<^verbatim>\<open>int64\<close> duration; Go's integer division truncates towards
  zero. \<^verbatim>\<open>int32(d.Minutes())\<close> truncates the floating-point minutes: for instants at PostgreSQL's
  microsecond resolution the fractional part stays away from 1 by more than the rounding error over
  the whole range of a duration, so the truncation is the integer quotient.
\<close>

definition go_quot :: "int \<Rightarrow> int \<Rightarrow> int" where
  "go_quot a b = sgn a * sgn b * (\<bar>a\<bar> div \<bar>b\<bar>)"

definition time_Sub :: "time \<Rightarrow> time \<Rightarrow> duration" where
  "time_Sub t u = max (- (2 ^ 63)) (min (2 ^ 63 - 1) (t - u))"

abbreviation Second :: duration where "Second \<equiv> 1000000000"
abbreviation Minute :: duration where "Minute \<equiv> 60000000000"
abbreviation Millisecond :: duration where "Millisecond \<equiv> 1000000"

definition int32_minutes :: "duration \<Rightarrow> int32" where
  "int32_minutes d = word_of_int (go_quot d Minute)"

lemma go_quot_nonneg: "0 \<le> a \<Longrightarrow> 0 < b \<Longrightarrow> go_quot a b = a div b"
  by (cases "a = 0") (auto simp: go_quot_def)

lemma time_Sub_in_range: "- (2 ^ 63) \<le> t - u \<Longrightarrow> t - u < 2 ^ 63 \<Longrightarrow> time_Sub t u = t - u"
  by (simp add: time_Sub_def)

subsection \<open>Lists\<close>

text \<open>\<^verbatim>\<open>for i, x := range xs\<close> with the index running from a start value.\<close>

fun map_idx :: "(nat \<Rightarrow> 'a \<Rightarrow> 'b) \<Rightarrow> nat \<Rightarrow> 'a list \<Rightarrow> 'b list" where
  "map_idx f i [] = []"
| "map_idx f i (x # xs) = f i x # map_idx f (Suc i) xs"

lemma length_map_idx [simp]: "length (map_idx f i xs) = length xs"
  by (induction xs arbitrary: i) auto

lemma nth_map_idx [simp]: "k < length xs \<Longrightarrow> map_idx f i xs ! k = f (i + k) (xs ! k)"
  by (induction xs arbitrary: i k) (auto simp: nth_Cons split: nat.split)

lemma map_idx_const [simp]: "map_idx (\<lambda>i. f) k xs = map f xs"
  by (induction xs arbitrary: k) auto

lemma find_by_key: "distinct (map f xs) \<Longrightarrow> x \<in> set xs \<Longrightarrow> List.find (\<lambda>y. f y = f x) xs = Some x"
  by (induction xs) auto

lemma find_Some_set: "List.find P xs = Some x \<Longrightarrow> x \<in> set xs \<and> P x"
  by (induction xs) (auto split: if_splits)

lemma filter_length_mset: "mset xs = mset ys \<Longrightarrow> length (filter P xs) = length (filter P ys)"
  by (metis mset_filter size_mset)

subsection \<open>Sorting: \<^verbatim>\<open>sort.Slice\<close> and \<^verbatim>\<open>sort.SliceStable\<close>\<close>

text \<open>
  A stable insertion sort driven by a \<^verbatim>\<open>less\<close> function. \<^verbatim>\<open>sort.SliceStable\<close> promises exactly this
  result. \<^verbatim>\<open>sort.Slice\<close> promises some sorted permutation; where \<^verbatim>\<open>less\<close> separates any two elements of
  the slice there is only one (\<open>sort_by_unique\<close> below), and every use of \<^verbatim>\<open>sort.Slice\<close> in the modelled
  code breaks ties on a unique identifier.
\<close>

fun insert_by :: "('a \<Rightarrow> 'a \<Rightarrow> bool) \<Rightarrow> 'a \<Rightarrow> 'a list \<Rightarrow> 'a list" where
  "insert_by lt x [] = [x]"
| "insert_by lt x (y # ys) = (if lt y x then y # insert_by lt x ys else x # y # ys)"

fun sort_by :: "('a \<Rightarrow> 'a \<Rightarrow> bool) \<Rightarrow> 'a list \<Rightarrow> 'a list" where
  "sort_by lt [] = []"
| "sort_by lt (x # xs) = insert_by lt x (sort_by lt xs)"

lemma mset_insert_by [simp]: "mset (insert_by lt x xs) = add_mset x (mset xs)"
  by (induction xs) auto

lemma mset_sort_by [simp]: "mset (sort_by lt xs) = mset xs"
  by (induction xs) auto

lemma set_sort_by [simp]: "set (sort_by lt xs) = set xs"
  by (metis mset_sort_by set_mset_mset)

lemma length_sort_by [simp]: "length (sort_by lt xs) = length xs"
  by (metis mset_sort_by size_mset)

lemma distinct_map_sort_by [simp]: "distinct (map f (sort_by lt xs)) = distinct (map f xs)"
  by (metis mset_map mset_sort_by mset_eq_imp_distinct_iff)

text \<open>The contract \<^verbatim>\<open>sort\<close> asks of a \<^verbatim>\<open>less\<close> function: a strict weak order.\<close>

locale strict_weak_order =
  fixes lt :: "'a \<Rightarrow> 'a \<Rightarrow> bool"
  assumes lt_asym: "lt x y \<Longrightarrow> \<not> lt y x"
    and lt_cotrans: "lt x z \<Longrightarrow> lt x y \<or> lt y z"
begin

lemma lt_irrefl [simp]: "\<not> lt x x"
  using lt_asym by blast

lemma lt_trans: "lt x y \<Longrightarrow> lt y z \<Longrightarrow> lt x z"
  using lt_asym lt_cotrans by blast

lemma not_lt_trans: "\<not> lt y x \<Longrightarrow> \<not> lt z y \<Longrightarrow> \<not> lt z x"
  using lt_cotrans by blast

definition ordered :: "'a list \<Rightarrow> bool" where
  "ordered xs = sorted_wrt (\<lambda>x y. \<not> lt y x) xs"

lemma ordered_insert_by: "ordered xs \<Longrightarrow> ordered (insert_by lt x xs)"
proof (induction xs)
  case Nil
  then show ?case by (simp add: ordered_def)
next
  case (Cons y ys)
  have set_ins: "set (insert_by lt x ys) = insert x (set ys)"
    by (metis mset_insert_by set_mset_add_mset_insert set_mset_mset)
  show ?case
  proof (cases "lt y x")
    case True
    with Cons show ?thesis
      by (auto simp: ordered_def set_ins dest: lt_asym)
  next
    case False
    with Cons.prems show ?thesis
      by (auto simp: ordered_def intro: not_lt_trans dest: lt_asym)
        (meson lt_cotrans)
  qed
qed

lemma ordered_sort_by: "ordered (sort_by lt xs)"
  by (induction xs) (auto simp: ordered_insert_by, simp add: ordered_def)

lemma sorted_permutation_unique:
  assumes "ordered xs" and "ordered ys" and "mset xs = mset ys"
    and "\<And>x y. x \<in> set xs \<Longrightarrow> y \<in> set xs \<Longrightarrow> x \<noteq> y \<Longrightarrow> lt x y \<or> lt y x"
  shows "xs = ys"
  using assms
proof (induction xs arbitrary: ys)
  case Nil
  then show ?case by simp
next
  case (Cons x xs)
  then obtain y zs where ys: "ys = y # zs"
    by (cases ys) auto
  have sets: "set (x # xs) = set (y # zs)"
    using Cons.prems(3) ys by (metis mset_eq_setD)
  have "x = y"
  proof (rule ccontr)
    assume "x \<noteq> y"
    then have mem: "x \<in> set zs" "y \<in> set xs"
      using sets by auto
    then have "\<not> lt x y" and "\<not> lt y x"
      using Cons.prems(1,2) ys by (auto simp: ordered_def)
    with Cons.prems(4)[of x y] \<open>x \<noteq> y\<close> mem show False by auto
  qed
  moreover have "xs = zs"
    by (rule Cons.IH) (use Cons.prems ys \<open>x = y\<close> in \<open>auto simp: ordered_def\<close>)
  ultimately show ?case using ys by simp
qed

lemma sort_by_unique:
  assumes "ordered ys" and "mset ys = mset xs"
    and "\<And>x y. x \<in> set xs \<Longrightarrow> y \<in> set xs \<Longrightarrow> x \<noteq> y \<Longrightarrow> lt x y \<or> lt y x"
  shows "sort_by lt xs = ys"
  by (rule sorted_permutation_unique) (use assms in \<open>auto simp: ordered_sort_by\<close>)

lemma sort_by_ordered_id: "ordered xs \<Longrightarrow> sort_by lt xs = xs"
proof (induction xs)
  case Nil
  then show ?case by simp
next
  case (Cons x xs)
  then show ?case by (cases xs) (auto simp: ordered_def)
qed

lemma filter_insert_by_equiv:
  "(\<And>y. P y \<Longrightarrow> P x \<Longrightarrow> \<not> lt y x) \<Longrightarrow> filter P (insert_by lt x xs) = filter P (x # xs)"
  by (induction xs) auto

text \<open>Stability: a set of mutually incomparable elements keeps its order.\<close>

lemma sort_by_stable:
  "(\<And>x y. P x \<Longrightarrow> P y \<Longrightarrow> \<not> lt x y) \<Longrightarrow> filter P (sort_by lt xs) = filter P xs"
proof (induction xs)
  case Nil
  then show ?case by simp
next
  case (Cons x xs)
  have "filter P (insert_by lt x (sort_by lt xs)) = filter P (x # sort_by lt xs)"
    by (rule filter_insert_by_equiv) (use Cons.prems in blast)
  with Cons show ?case by simp
qed

text \<open>Filtering, and mapping by a function that keeps the order, commute with the stable sort.\<close>

lemma insert_by_head: "\<forall>y \<in> set ys. \<not> lt y x \<Longrightarrow> insert_by lt x ys = x # ys"
  by (cases ys) auto

lemma filter_insert_by:
  "ordered ys \<Longrightarrow> filter P (insert_by lt x ys) = (if P x then insert_by lt x (filter P ys) else filter P ys)"
proof (induction ys)
  case Nil
  then show ?case by simp
next
  case (Cons y ys)
  show ?case
  proof (cases "lt y x")
    case True
    with Cons show ?thesis by (auto simp: ordered_def)
  next
    case False
    with Cons.prems have "\<forall>z \<in> set (y # ys). \<not> lt z x"
      using lt_cotrans by (auto simp: ordered_def)
    then have "insert_by lt x (filter P (y # ys)) = x # filter P (y # ys)"
      by (intro insert_by_head) auto
    with False show ?thesis by simp
  qed
qed

lemma sort_by_filter: "sort_by lt (filter P xs) = filter P (sort_by lt xs)"
  by (induction xs) (auto simp: filter_insert_by ordered_sort_by)

lemma insert_by_map:
  "(\<And>x y. lt (f x) (f y) = lt x y) \<Longrightarrow> insert_by lt (f x) (map f ys) = map f (insert_by lt x ys)"
  by (induction ys) auto

lemma sort_by_map: "(\<And>x y. lt (f x) (f y) = lt x y) \<Longrightarrow> sort_by lt (map f xs) = map f (sort_by lt xs)"
  by (induction xs) (auto simp: insert_by_map)

end

text \<open>A lexicographic comparison on a key into a linear order is a strict weak order.\<close>

lemma key_strict_weak_order: "strict_weak_order (\<lambda>x y. (f x :: 'b :: linorder) < f y)"
  by unfold_locales auto

end
