(* ===== verification/Go_Strings.thy ===== *)
theory Go_Strings
  imports Prelude "HOL-Library.Sublist"
begin

section \<open>Go's \<^verbatim>\<open>strings\<close> package, as far as the modelled code uses it\<close>

text \<open>
  Byte-level definitions of \<^verbatim>\<open>strings.TrimSpace\<close>, \<^verbatim>\<open>Fields\<close>, \<^verbatim>\<open>Split\<close>, \<^verbatim>\<open>SplitAfter\<close>, \<^verbatim>\<open>Join\<close>,
  \<^verbatim>\<open>TrimRight\<close>, \<^verbatim>\<open>ToLower\<close> (on ASCII letters) and \<^verbatim>\<open>strconv\<close>'s decimal printing, with their laws.
  White space is Unicode's: the ASCII spaces and the UTF-8 encodings of the others. No space encoding
  starts with a continuation byte, so on valid UTF-8 matching bytes is matching runes.
\<close>

definition space_seqs :: "string list" where
  "space_seqs =
     [[CHR 0x20], [CHR 0x09], [CHR 0x0A], [CHR 0x0B], [CHR 0x0C], [CHR 0x0D],
      [CHR 0xC2, CHR 0x85], [CHR 0xC2, CHR 0xA0],
      [CHR 0xE1, CHR 0x9A, CHR 0x80],
      [CHR 0xE2, CHR 0x80, CHR 0x80], [CHR 0xE2, CHR 0x80, CHR 0x81],
      [CHR 0xE2, CHR 0x80, CHR 0x82], [CHR 0xE2, CHR 0x80, CHR 0x83],
      [CHR 0xE2, CHR 0x80, CHR 0x84], [CHR 0xE2, CHR 0x80, CHR 0x85],
      [CHR 0xE2, CHR 0x80, CHR 0x86], [CHR 0xE2, CHR 0x80, CHR 0x87],
      [CHR 0xE2, CHR 0x80, CHR 0x88], [CHR 0xE2, CHR 0x80, CHR 0x89],
      [CHR 0xE2, CHR 0x80, CHR 0x8A], [CHR 0xE2, CHR 0x80, CHR 0xA8],
      [CHR 0xE2, CHR 0x80, CHR 0xA9], [CHR 0xE2, CHR 0x80, CHR 0xAF],
      [CHR 0xE2, CHR 0x81, CHR 0x9F], [CHR 0xE3, CHR 0x80, CHR 0x80]]"

text \<open>The length of the space rune at the start (at the end) of a string, 0 if there is none.\<close>

definition space_len :: "string \<Rightarrow> nat" where
  "space_len s = (case List.find (\<lambda>w. prefix w s) space_seqs of Some w \<Rightarrow> length w | None \<Rightarrow> 0)"

definition space_len_end :: "string \<Rightarrow> nat" where
  "space_len_end s = (case List.find (\<lambda>w. suffix w s) space_seqs of Some w \<Rightarrow> length w | None \<Rightarrow> 0)"

function trim_space_left :: "string \<Rightarrow> string" where
  "trim_space_left s =
     (if space_len s = 0 \<or> s = [] then s else trim_space_left (drop (space_len s) s))"
  by pat_completeness auto
termination
  by (relation "measure length") auto

function trim_space_right :: "string \<Rightarrow> string" where
  "trim_space_right s =
     (if space_len_end s = 0 \<or> s = [] then s
      else trim_space_right (take (length s - space_len_end s) s))"
  by pat_completeness auto
termination
  by (relation "measure length") auto

declare trim_space_left.simps [simp del] trim_space_right.simps [simp del]

definition TrimSpace :: "string \<Rightarrow> string" where
  "TrimSpace s = trim_space_right (trim_space_left s)"

definition flush_field :: "string \<Rightarrow> string list" where
  "flush_field cur = (if cur = [] then [] else [cur])"

function fields_from :: "string \<Rightarrow> string \<Rightarrow> string list" where
  "fields_from cur [] = flush_field cur"
| "fields_from cur (c # cs) =
     (if space_len (c # cs) = 0 then fields_from (cur @ [c]) cs
      else flush_field cur @ fields_from [] (drop (space_len (c # cs)) (c # cs)))"
  by pat_completeness auto
termination
  by (relation "measure (\<lambda>(cur, s). length s)") auto

definition Fields :: "string \<Rightarrow> string list" where
  "Fields s = fields_from [] s"

text \<open>\<^verbatim>\<open>strings.Split(s, sep)\<close> and \<^verbatim>\<open>strings.SplitAfter(s, sep)\<close> for a one-byte separator.\<close>

fun Split :: "char \<Rightarrow> string \<Rightarrow> string list" where
  "Split sep [] = [[]]"
| "Split sep (c # cs) =
     (if c = sep then [] # Split sep cs
      else (case Split sep cs of [] \<Rightarrow> [[c]] | w # ws \<Rightarrow> (c # w) # ws))"

fun SplitAfter :: "char \<Rightarrow> string \<Rightarrow> string list" where
  "SplitAfter sep [] = [[]]"
| "SplitAfter sep (c # cs) =
     (if c = sep then [c] # SplitAfter sep cs
      else (case SplitAfter sep cs of [] \<Rightarrow> [[c]] | w # ws \<Rightarrow> (c # w) # ws))"

fun Join :: "string list \<Rightarrow> string \<Rightarrow> string" where
  "Join [] sep = []"
| "Join [w] sep = w"
| "Join (w # v # ws) sep = w @ sep @ Join (v # ws) sep"

text \<open>\<^verbatim>\<open>strings.TrimRight(s, cutset)\<close> for a cut set of ASCII bytes.\<close>

definition TrimRight :: "string \<Rightarrow> string \<Rightarrow> string" where
  "TrimRight s cutset = rev (dropWhile (\<lambda>c. c \<in> set cutset) (rev s))"

definition lower_char :: "char \<Rightarrow> char" where
  "lower_char c =
     (if 65 \<le> (of_char c :: nat) \<and> (of_char c :: nat) \<le> 90 then char_of ((of_char c :: nat) + 32) else c)"

definition ToLower :: "string \<Rightarrow> string" where
  "ToLower s = map lower_char s"

text \<open>\<^verbatim>\<open>strconv.FormatInt(i, 10)\<close>, which is also \<^verbatim>\<open>fmt\<close>'s \<^verbatim>\<open>%d\<close>.\<close>

fun show_nat :: "nat \<Rightarrow> string" where
  "show_nat n = (if n < 10 then [char_of (48 + n)] else show_nat (n div 10) @ [char_of (48 + n mod 10)])"

declare show_nat.simps [simp del]

definition FormatInt :: "int \<Rightarrow> string" where
  "FormatInt i = (if i < 0 then CHR ''-'' # show_nat (nat (- i)) else show_nat (nat i))"

text \<open>\<^verbatim>\<open>strconv.ParseInt(s, 10, 64)\<close> on a string of digits with an optional sign.\<close>

fun digits_value :: "nat \<Rightarrow> string \<Rightarrow> nat option" where
  "digits_value acc [] = Some acc"
| "digits_value acc (c # cs) =
     (let d = (of_char c :: nat) in
      if 48 \<le> d \<and> d \<le> 57 then digits_value (acc * 10 + (d - 48)) cs else None)"

definition int64_range :: "int \<Rightarrow> int option" where
  "int64_range i = (if - (2 ^ 63) \<le> i \<and> i < 2 ^ 63 then Some i else None)"

definition ParseInt :: "string \<Rightarrow> int option" where
  "ParseInt s =
     (case s of
        [] \<Rightarrow> None
      | c # cs \<Rightarrow>
          if c = CHR ''-'' then
            (if cs = [] then None else Option.bind (digits_value 0 cs) (\<lambda>n. int64_range (- int n)))
          else if c = CHR ''+'' then
            (if cs = [] then None else Option.bind (digits_value 0 cs) (\<lambda>n. int64_range (int n)))
          else Option.bind (digits_value 0 s) (\<lambda>n. int64_range (int n)))"

subsection \<open>Laws of \<^verbatim>\<open>Split\<close>, \<^verbatim>\<open>Join\<close> and \<^verbatim>\<open>TrimRight\<close>\<close>

lemma Split_not_Nil [simp]: "Split sep s \<noteq> []"
  by (induction s) (auto split: list.split)

lemma SplitAfter_not_Nil [simp]: "SplitAfter sep s \<noteq> []"
  by (induction s) (auto split: list.split)

lemma Join_Cons: "ws \<noteq> [] \<Longrightarrow> Join (w # ws) sep = w @ sep @ Join ws sep"
  by (cases ws) auto

lemma Join_Cons_char: "Join ((c # w) # ws) sep = c # Join (w # ws) sep"
  by (cases ws) auto

lemma Join_Split [simp]: "Join (Split sep s) [sep] = s"
proof (induction s)
  case Nil
  then show ?case by simp
next
  case (Cons c cs)
  then show ?case
    by (cases "Split sep cs") (auto simp: Join_Cons Join_Cons_char)
qed

lemma concat_SplitAfter [simp]: "concat (SplitAfter sep s) = s"
  by (induction s) (auto split: list.split)

lemma Split_no_sep: "w \<in> set (Split sep s) \<Longrightarrow> sep \<notin> set w"
  by (induction s arbitrary: w) (auto split: list.splits if_splits)

lemma Split_single: "sep \<notin> set w \<Longrightarrow> Split sep w = [w]"
  by (induction w) auto

lemma Split_append_sep: "sep \<notin> set w \<Longrightarrow> Split sep (w @ sep # s) = w # Split sep s"
  by (induction w) auto

lemma Split_Join:
  "ws \<noteq> [] \<Longrightarrow> \<forall>w \<in> set ws. sep \<notin> set w \<Longrightarrow> Split sep (Join ws [sep]) = ws"
proof (induction ws)
  case Nil
  then show ?case by simp
next
  case (Cons w ws)
  then show ?case
    by (cases ws) (auto simp: Split_single Split_append_sep)
qed

lemma TrimRight_idem [simp]: "TrimRight (TrimRight s cs) cs = TrimRight s cs"
  by (simp add: TrimRight_def dropWhile_eq_self_iff hd_dropWhile)

lemma TrimRight_prefix: "\<exists>t. s = TrimRight s cs @ t \<and> set t \<subseteq> set cs"
proof -
  have "s = TrimRight s cs @ rev (takeWhile (\<lambda>c. c \<in> set cs) (rev s))"
    unfolding TrimRight_def by (metis rev_append rev_rev_ident takeWhile_dropWhile_id)
  then show ?thesis
    using set_takeWhileD by (metis (mono_tags, lifting) set_rev subsetI)
qed

lemma set_TrimRight: "set (TrimRight s cs) \<subseteq> set s"
  using set_dropWhileD by (fastforce simp: TrimRight_def)

lemma TrimRight_append_cut: "set t \<subseteq> set cs \<Longrightarrow> TrimRight (s @ t) cs = TrimRight s cs"
  by (induction t rule: rev_induct)
    (auto simp: TrimRight_def append_assoc [symmetric] simp del: append_assoc)

subsection \<open>Laws of \<^verbatim>\<open>Fields\<close>\<close>

lemma space_seqs_shape:
  "w \<in> set space_seqs \<Longrightarrow> w = [CHR 0x20] \<or> (w \<noteq> [] \<and> CHR 0x20 \<notin> set w)"
  by (auto simp: space_seqs_def)

lemma space_len_0: "space_len s = 0 \<longleftrightarrow> (\<forall>w \<in> set space_seqs. \<not> prefix w s)"
proof -
  have "\<forall>w \<in> set space_seqs. w \<noteq> []" by (simp add: space_seqs_def)
  then show ?thesis
    unfolding space_len_def
    by (auto split: option.splits dest: find_Some_set simp: find_None_iff)
qed

lemma space_len_append: "space_len (s @ t) = 0 \<Longrightarrow> space_len s = 0"
  by (auto simp: space_len_0)

lemma space_len_blank [simp]: "space_len (CHR 0x20 # s) = 1"
  by (simp add: space_len_def space_seqs_def)

lemma space_len_append_blank:
  assumes "t \<noteq> []" and "space_len t = 0"
  shows "space_len (t @ CHR 0x20 # s) = 0"
  unfolding space_len_0
proof
  fix w
  assume w: "w \<in> set space_seqs"
  from assms(2) w have np: "\<not> prefix w t" by (simp add: space_len_0)
  show "\<not> prefix w (t @ CHR 0x20 # s)"
  proof
    assume "prefix w (t @ CHR 0x20 # s)"
    with np obtain u where u: "w = t @ CHR 0x20 # u"
      by (auto simp: prefix_append prefix_Cons)
    from space_seqs_shape [OF w] u \<open>t \<noteq> []\<close> show False
      by (cases t) auto
  qed
qed

text \<open>A field: a non-empty string in which no space rune starts.\<close>

fun spaceless :: "string \<Rightarrow> bool" where
  "spaceless [] = True"
| "spaceless (c # cs) = (space_len (c # cs) = 0 \<and> spaceless cs)"

definition is_field :: "string \<Rightarrow> bool" where
  "is_field w \<longleftrightarrow> w \<noteq> [] \<and> spaceless w"

lemma fields_from_spaceless_blank:
  "spaceless w \<Longrightarrow> fields_from cur (w @ CHR 0x20 # s) = flush_field (cur @ w) @ Fields s"
proof (induction w arbitrary: cur)
  case Nil
  then show ?case by (simp add: Fields_def)
next
  case (Cons c w)
  then have "space_len ((c # w) @ CHR 0x20 # s) = 0"
    by (intro space_len_append_blank) auto
  with Cons show ?case by simp
qed

lemma fields_from_spaceless: "spaceless w \<Longrightarrow> fields_from cur w = flush_field (cur @ w)"
  by (induction w arbitrary: cur) auto

lemma Fields_Join:
  "\<forall>w \<in> set ws. is_field w \<Longrightarrow> Fields (Join ws [CHR 0x20]) = ws"
proof (induction ws)
  case Nil
  then show ?case by (simp add: Fields_def flush_field_def)
next
  case (Cons w ws)
  then have w: "spaceless w" "w \<noteq> []" by (auto simp: is_field_def)
  show ?case
  proof (cases ws)
    case Nil
    with w show ?thesis
      by (simp add: Fields_def fields_from_spaceless flush_field_def)
  next
    case (Cons v vs)
    have "Fields (Join (w # ws) [CHR 0x20]) = fields_from [] (w @ CHR 0x20 # Join ws [CHR 0x20])"
      by (simp add: Fields_def Cons)
    also have "\<dots> = w # ws"
      using w Cons.IH Cons.prems by (simp add: fields_from_spaceless_blank flush_field_def)
    finally show ?thesis .
  qed
qed

text \<open>
  \<open>pending cur s\<close>: the bytes collected so far start no space rune, given what follows.
\<close>

lemma spaceless_snoc:
  assumes "spaceless cur" and "\<And>t. suffix t cur \<Longrightarrow> t \<noteq> [] \<Longrightarrow> space_len (t @ [c]) = 0"
    and "space_len [c] = 0"
  shows "spaceless (cur @ [c])"
  using assms
proof (induction cur)
  case Nil
  then show ?case by simp
next
  case (Cons d cur)
  have "space_len ((d # cur) @ [c]) = 0"
    by (rule Cons.prems(2)) auto
  moreover have "spaceless (cur @ [c])"
    by (rule Cons.IH) (use Cons.prems in \<open>auto intro: suffix_ConsI\<close>)
  ultimately show ?case by simp
qed

lemma fields_from_are_fields:
  assumes "spaceless cur" and "\<And>t. suffix t cur \<Longrightarrow> t \<noteq> [] \<Longrightarrow> space_len (t @ s) = 0"
  shows "\<forall>w \<in> set (fields_from cur s). is_field w"
  using assms
proof (induction cur s rule: fields_from.induct)
  case (1 cur)
  then show ?case by (simp add: flush_field_def is_field_def)
next
  case (2 cur c cs)
  show ?case
  proof (cases "space_len (c # cs) = 0")
    case True
    have one: "space_len (t @ [c]) = 0" if "suffix t cur" "t \<noteq> []" for t
      using "2.prems"(2) [OF that] space_len_append [of "t @ [c]" cs] by simp
    have c0: "space_len [c] = 0"
      using True space_len_append [of "[c]" cs] by simp
    have "spaceless (cur @ [c])"
      by (rule spaceless_snoc) (use "2.prems"(1) one c0 in auto)
    moreover have "space_len (t @ cs) = 0" if "suffix t (cur @ [c])" "t \<noteq> []" for t
    proof -
      from that obtain t' where t': "t = t' @ [c]" "suffix t' cur"
        by (auto simp: suffix_snoc)
      with "2.prems"(2) [of t'] True show ?thesis by (cases "t' = []") auto
    qed
    ultimately show ?thesis
      using "2.IH"(1) True by simp
  next
    case False
    then have "\<forall>w \<in> set (fields_from [] (drop (space_len (c # cs)) (c # cs))). is_field w"
      by (intro "2.IH"(2)) auto
    with False "2.prems"(1) show ?thesis
      by (auto simp: flush_field_def is_field_def)
  qed
qed

lemma Fields_are_fields: "w \<in> set (Fields s) \<Longrightarrow> is_field w"
  unfolding Fields_def using fields_from_are_fields [of "[]" s] by auto

lemma Fields_Join_Fields [simp]: "Fields (Join (Fields s) [CHR 0x20]) = Fields s"
  by (rule Fields_Join) (auto dest: Fields_are_fields)

lemma Join_Fields_inject:
  "Join (Fields s) [CHR 0x20] = Join (Fields t) [CHR 0x20] \<longleftrightarrow> Fields s = Fields t"
  by (metis Fields_Join_Fields)

subsection \<open>Decimal numbers: printing and parsing are inverse\<close>

lemma digits_value_append:
  "digits_value acc (s @ t) = Option.bind (digits_value acc s) (\<lambda>n. digits_value n t)"
  by (induction s arbitrary: acc) (auto simp: Let_def)

lemma digits_value_digit [simp]: "d < 10 \<Longrightarrow> digits_value acc [char_of (48 + d)] = Some (acc * 10 + d)"
  by (simp add: Let_def of_char_of take_bit_nat_eq_self)

lemma digits_value_show_nat: "digits_value 0 (show_nat n) = Some n"
proof (induction n rule: show_nat.induct)
  case (1 n)
  show ?case
  proof (cases "n < 10")
    case True
    then show ?thesis by (subst show_nat.simps) simp
  next
    case False
    with 1 have "digits_value 0 (show_nat (n div 10)) = Some (n div 10)" by simp
    with False show ?thesis
      by (subst show_nat.simps) (simp add: digits_value_append del: digits_value.simps)
  qed
qed

lemma show_nat_digits: "c \<in> set (show_nat n) \<Longrightarrow> 48 \<le> (of_char c :: nat) \<and> (of_char c :: nat) \<le> 57"
proof (induction n rule: show_nat.induct)
  case (1 n)
  have small: "(of_char (char_of (48 + d) :: char) :: nat) = 48 + d" if "d < 10" for d :: nat
    using that by (simp add: of_char_of take_bit_nat_eq_self)
  show ?case
  proof (cases "n < 10")
    case True
    with 1 small [of n] show ?thesis by (subst (asm) show_nat.simps) auto
  next
    case False
    with "1.prems" have "c \<in> set (show_nat (n div 10)) \<or> c = char_of (48 + n mod 10)"
      using show_nat.simps [of n] by auto
    with False "1.IH" small [of "n mod 10"] show ?thesis by auto
  qed
qed

lemma show_nat_not_Nil [simp]: "show_nat n \<noteq> []"
  by (subst show_nat.simps) simp

lemma ParseInt_FormatInt:
  assumes "- (2 ^ 63) \<le> i" and "i < 2 ^ 63"
  shows "ParseInt (FormatInt i) = Some i"
proof (cases "i < 0")
  case True
  with assms show ?thesis
    by (simp add: ParseInt_def FormatInt_def digits_value_show_nat int64_range_def)
next
  case False
  obtain c cs where s: "show_nat (nat i) = c # cs"
    by (cases "show_nat (nat i)") auto
  then have "48 \<le> (of_char c :: nat)"
    using show_nat_digits [of c "nat i"] by simp
  then have "c \<noteq> CHR ''-''" and "c \<noteq> CHR ''+''" by auto
  with False assms s show ?thesis
    using digits_value_show_nat [of "nat i"]
    by (simp add: ParseInt_def FormatInt_def int64_range_def del: digits_value.simps)
qed

end
