(* ===== verification/Apperror.thy ===== *)
theory Apperror
  imports Go_Strings
begin

section \<open>Structured errors (\<^verbatim>\<open>internal/apperror/error.go\<close>)\<close>

text \<open>
  The constructors of \<^verbatim>\<open>apperror.Error\<close>, one per HTTP status, its rendering and \<^verbatim>\<open>From\<close>. Components
  return these errors through \<open>fail\<close>.
\<close>

definition New :: "string \<Rightarrow> string \<Rightarrow> int \<Rightarrow> app_error" where
  "New code msg httpStatus = \<lparr>Code = code, Message = msg, HTTPStatus = httpStatus, Details = None\<rparr>"

definition WithDetails :: "app_error option \<Rightarrow> string \<Rightarrow> app_error option" where
  "WithDetails e details = map_option (\<lambda>x. x\<lparr>Details := Some details\<rparr>) e"

definition Error :: "app_error option \<Rightarrow> string" where
  "Error e = (case e of None \<Rightarrow> [] | Some x \<Rightarrow> Code x @ '': '' @ Message x)"

definition BadRequest :: "string \<Rightarrow> string \<Rightarrow> app_error" where
  "BadRequest code msg = New code msg 400"

definition Unauthorized :: "string \<Rightarrow> string \<Rightarrow> app_error" where
  "Unauthorized code msg = New code msg 401"

definition Forbidden :: "string \<Rightarrow> string \<Rightarrow> app_error" where
  "Forbidden code msg = New code msg 403"

definition NotFound :: "string \<Rightarrow> string \<Rightarrow> app_error" where
  "NotFound code msg = New code msg 404"

definition Conflict :: "string \<Rightarrow> string \<Rightarrow> app_error" where
  "Conflict code msg = New code msg 409"

definition Unprocessable :: "string \<Rightarrow> string \<Rightarrow> app_error" where
  "Unprocessable code msg = New code msg 422"

definition ServiceUnavailable :: "string \<Rightarrow> app_error" where
  "ServiceUnavailable msg = New ''service_unavailable'' msg 503"

definition TooManyRequests :: "string \<Rightarrow> string \<Rightarrow> app_error" where
  "TooManyRequests code msg = New code msg 429"

definition Internal :: app_error where
  "Internal = New ''internal_error'' ''internal server error'' 500"

definition From :: "go_error \<Rightarrow> app_error option" where
  "From err = (case err of AppErr e \<Rightarrow> Some e | _ \<Rightarrow> None)"

abbreviation fail :: "app_error \<Rightarrow> 'a res" where
  "fail e \<equiv> Inl (AppErr e)"

lemmas apperror_defs = New_def BadRequest_def Unauthorized_def Forbidden_def NotFound_def
  Conflict_def Unprocessable_def ServiceUnavailable_def TooManyRequests_def Internal_def

text \<open>The status of each constructor: what the callers' branches (and the HTTP layer) tell apart.\<close>

lemma HTTPStatus_simps [simp]:
  "HTTPStatus (New c m n) = n"
  "HTTPStatus (BadRequest c m) = 400"
  "HTTPStatus (Unauthorized c m) = 401"
  "HTTPStatus (Forbidden c m) = 403"
  "HTTPStatus (NotFound c m) = 404"
  "HTTPStatus (Conflict c m) = 409"
  by (simp_all add: apperror_defs)

lemma Code_simps [simp]:
  "Code (New c m n) = c"
  "Code (BadRequest c m) = c"
  "Code (Unauthorized c m) = c"
  "Code (Forbidden c m) = c"
  "Code (NotFound c m) = c"
  "Code (Conflict c m) = c"
  by (simp_all add: apperror_defs)

end
