(* ===== verification/Authz.thy ===== *)
theory Authz
  imports Apperror
begin

section \<open>Actors, roles and permissions (\<^verbatim>\<open>internal/auth/actor.go\<close>, \<^verbatim>\<open>internal/authz\<close>)\<close>

text \<open>
  The actor a request carries, the role and permission codes, the permission directory and the
  membership check every gate of the site goes through. Roles and permissions are Go string types,
  so they are \<open>string\<close>s here too.
\<close>

subsection \<open>\<^verbatim>\<open>auth/actor.go\<close>\<close>

type_synonym Role = string
type_synonym Permission = string

abbreviation RoleUser :: Role where "RoleUser \<equiv> ''user''"
abbreviation RoleAuthor :: Role where "RoleAuthor \<equiv> ''author''"
abbreviation RoleReviewer :: Role where "RoleReviewer \<equiv> ''reviewer''"
abbreviation RoleOperator :: Role where "RoleOperator \<equiv> ''operator''"
abbreviation RoleAdmin :: Role where "RoleAdmin \<equiv> ''admin''"
abbreviation RoleRoot :: Role where "RoleRoot \<equiv> ''root''"
abbreviation RoleContestStaff :: Role where "RoleContestStaff \<equiv> ''contest_staff''"
abbreviation RoleContestManager :: Role where "RoleContestManager \<equiv> ''contest_manager''"
abbreviation RoleContestJudge :: Role where "RoleContestJudge \<equiv> ''contest_judge''"

record actor =
  ac_UserID :: int64
  ac_Roles :: "Role list"
  ac_Permissions :: "Permission list"
  ac_Role :: Role
  ac_DeviceID :: string
  ac_RequestID :: string

definition Anonymous :: "string \<Rightarrow> actor" where
  "Anonymous requestID = \<lparr>ac_UserID = 0, ac_Roles = [], ac_Permissions = [], ac_Role = [],
     ac_DeviceID = [], ac_RequestID = requestID\<rparr>"

definition known_roles :: "Role list" where
  "known_roles = [RoleUser, RoleAuthor, RoleReviewer, RoleOperator, RoleAdmin, RoleRoot,
     RoleContestStaff, RoleContestManager, RoleContestJudge]"

definition ParseRole :: "string \<Rightarrow> Role res" where
  "ParseRole value =
     (let role = ToLower (TrimSpace value) in
      if role \<in> set known_roles then Inr role
      else Inl (ErrText (''unknown role '' @ value)))"

definition IsGlobalRole :: "Role \<Rightarrow> bool" where
  "IsGlobalRole role \<longleftrightarrow>
     role \<in> {RoleUser, RoleAuthor, RoleReviewer, RoleOperator, RoleAdmin, RoleRoot}"

definition IsContestRole :: "Role \<Rightarrow> bool" where
  "IsContestRole role \<longleftrightarrow> role \<in> {RoleContestStaff, RoleContestManager, RoleContestJudge}"

definition Authenticated :: "actor \<Rightarrow> bool" where
  "Authenticated a \<longleftrightarrow> ac_UserID a > 0"

definition HasRole :: "actor \<Rightarrow> Role \<Rightarrow> bool" where
  "HasRole a role \<longleftrightarrow> role \<in> set (ac_Roles a) \<or> ac_Role a = role"

subsection \<open>\<^verbatim>\<open>authz/permissions.go\<close>: the permission directory\<close>

abbreviation PermissionAuditRead :: Permission where "PermissionAuditRead \<equiv> ''audit.read''"
abbreviation PermissionProblemCreate :: Permission where "PermissionProblemCreate \<equiv> ''problem.create''"
abbreviation PermissionProblemEditOwn :: Permission where "PermissionProblemEditOwn \<equiv> ''problem.edit_own''"
abbreviation PermissionProblemSubmitReview :: Permission where
  "PermissionProblemSubmitReview \<equiv> ''problem.submit_review''"
abbreviation PermissionProblemReview :: Permission where "PermissionProblemReview \<equiv> ''problem.review''"
abbreviation PermissionProblemPublish :: Permission where "PermissionProblemPublish \<equiv> ''problem.publish''"
abbreviation PermissionProblemManageAll :: Permission where
  "PermissionProblemManageAll \<equiv> ''problem.manage_all''"
abbreviation PermissionSubmissionRejudge :: Permission where
  "PermissionSubmissionRejudge \<equiv> ''submission.rejudge''"
abbreviation PermissionContestCreate :: Permission where "PermissionContestCreate \<equiv> ''contest.create''"
abbreviation PermissionContestRead :: Permission where "PermissionContestRead \<equiv> ''contest.read''"
abbreviation PermissionContestManage :: Permission where "PermissionContestManage \<equiv> ''contest.manage''"
abbreviation PermissionContestJudge :: Permission where "PermissionContestJudge \<equiv> ''contest.judge''"
abbreviation PermissionContestManageAll :: Permission where
  "PermissionContestManageAll \<equiv> ''contest.manage_all''"
abbreviation PermissionJudgeInspect :: Permission where "PermissionJudgeInspect \<equiv> ''judge.inspect''"
abbreviation PermissionUserManage :: Permission where "PermissionUserManage \<equiv> ''user.manage''"
abbreviation PermissionRoleGrant :: Permission where "PermissionRoleGrant \<equiv> ''role.grant''"
abbreviation PermissionRoleRevoke :: Permission where "PermissionRoleRevoke \<equiv> ''role.revoke''"
abbreviation PermissionRolePermissionManage :: Permission where
  "PermissionRolePermissionManage \<equiv> ''role.permission.manage''"
abbreviation PermissionSystemManage :: Permission where "PermissionSystemManage \<equiv> ''system.manage''"

definition fullAccessRoles :: "Role list" where
  "fullAccessRoles = [RoleAdmin, RoleRoot]"

definition IsFullAccessRole :: "Role \<Rightarrow> bool" where
  "IsFullAccessRole role \<longleftrightarrow> (\<exists>full \<in> set fullAccessRoles. role = full)"

definition allPermissions :: "Permission list" where
  "allPermissions =
     [PermissionAuditRead, PermissionContestCreate, PermissionContestJudge, PermissionContestManage,
      PermissionContestManageAll, PermissionContestRead, PermissionJudgeInspect, PermissionProblemCreate,
      PermissionProblemEditOwn, PermissionProblemManageAll, PermissionProblemPublish,
      PermissionProblemReview, PermissionProblemSubmitReview, PermissionRoleGrant,
      PermissionRolePermissionManage, PermissionRoleRevoke, PermissionSubmissionRejudge,
      PermissionSystemManage, PermissionUserManage]"

datatype permission_scope = ScopeGlobal | ScopeContest

record permission_spec =
  ps_Code :: Permission
  ps_Scope :: permission_scope
  ps_Delegable :: bool
  ps_Consumer :: string

text \<open>\<^verbatim>\<open>permissionConsumers\<close>: two values carry a Chinese gloss in the source, left out here.\<close>

definition permissionConsumers :: "(Permission \<times> string) list" where
  "permissionConsumers =
     [(PermissionAuditRead, ''audit.Service.ListEvents''),
      (PermissionContestCreate, ''contest.requireContestCreator''),
      (PermissionContestJudge, ''contest.AuthorizeContestRejudge''),
      (PermissionContestManage, ''contest.canManageContest''),
      (PermissionContestManageAll, ''contest.requireContestCreator/canManageAllContests''),
      (PermissionContestRead, ''contest.ContestReader''),
      (PermissionJudgeInspect, ''submission.SubmissionReader + submission.RunService.GetRun''),
      (PermissionProblemCreate, ''problem.RBACProblemPolicy.CanCreate''),
      (PermissionProblemEditOwn, ''problem.RBACProblemPolicy.CanEdit''),
      (PermissionProblemManageAll, ''problem.RBACProblemPolicy (bypass) + problem.canReadProblem''),
      (PermissionProblemPublish, ''problem.RBACProblemPolicy.CanDecideReview''),
      (PermissionProblemReview,
        ''problem.RBACProblemPolicy.CanViewReviewQueue/CanDecideReview/CanViewReviewEvents''),
      (PermissionProblemSubmitReview, ''problem.RBACProblemPolicy.CanSubmitReview''),
      (PermissionRoleGrant, ''user.Service.GrantRole''),
      (PermissionRolePermissionManage, ''user.RolePermissionService.Matrix/Replace''),
      (PermissionRoleRevoke, ''user.Service.RevokeRole''),
      (PermissionSubmissionRejudge, ''problem.RBACProblemPolicy.CanRejudge + submission.RejudgeService''),
      (PermissionSystemManage, ''submission.LanguageService''),
      (PermissionUserManage, ''user.Service.ListUsers/ListUsersByCursor/UpdateUser'')]"

definition nonDelegablePermissions :: "Permission list" where
  "nonDelegablePermissions =
     [PermissionAuditRead, PermissionRoleGrant, PermissionRolePermissionManage, PermissionRoleRevoke,
      PermissionSystemManage, PermissionUserManage]"

definition contestScopedPermissions :: "Permission list" where
  "contestScopedPermissions = [PermissionContestRead, PermissionContestManage, PermissionContestJudge]"

definition permissionScope :: "Permission \<Rightarrow> permission_scope" where
  "permissionScope code = (if code \<in> set contestScopedPermissions then ScopeContest else ScopeGlobal)"

text \<open>A missing key of a Go map of strings reads as the empty string.\<close>

definition consumer_of :: "Permission \<Rightarrow> string" where
  "consumer_of code = (case map_of permissionConsumers code of None \<Rightarrow> [] | Some s \<Rightarrow> s)"

definition Catalog :: "permission_spec list" where
  "Catalog = map (\<lambda>code. \<lparr>ps_Code = code, ps_Scope = permissionScope code,
     ps_Delegable = (code \<notin> set nonDelegablePermissions), ps_Consumer = consumer_of code\<rparr>) allPermissions"

definition Lookup :: "Permission \<Rightarrow> permission_spec option" where
  "Lookup code = List.find (\<lambda>spec. ps_Code spec = code) Catalog"

definition permissionCombos :: "(string \<times> Permission list) list" where
  "permissionCombos =
     [(''problem.authoring.access'', [PermissionProblemCreate, PermissionProblemReview, PermissionProblemManageAll]),
      (''problem.review.queue'', [PermissionProblemReview, PermissionProblemManageAll]),
      (''problem.review.decide'', [PermissionProblemReview, PermissionProblemPublish, PermissionProblemManageAll])]"

subsection \<open>\<^verbatim>\<open>authz/authorizer.go\<close>\<close>

record subject =
  sj_UserID :: int64
  sj_Permissions :: "Permission list"

definition NewSubject :: "actor \<Rightarrow> subject" where
  "NewSubject a = \<lparr>sj_UserID = ac_UserID a, sj_Permissions = ac_Permissions a\<rparr>"

definition subject_Authenticated :: "subject \<Rightarrow> bool" where
  "subject_Authenticated s \<longleftrightarrow> sj_UserID s > 0"

definition Has :: "subject \<Rightarrow> Permission \<Rightarrow> bool" where
  "Has s permission \<longleftrightarrow> (\<exists>granted \<in> set (sj_Permissions s). granted = permission)"

definition Authorize :: "subject \<Rightarrow> Permission \<Rightarrow> unit res" where
  "Authorize s permission =
     (if \<not> subject_Authenticated s \<or> \<not> Has s permission then Inl ErrForbidden else Inr ())"

subsection \<open>Facts\<close>

text \<open>\<open>can a p\<close>: the gate \<^verbatim>\<open>authz.Authorize(authz.NewSubject(actor), permission) == nil\<close>.\<close>

definition can :: "actor \<Rightarrow> Permission \<Rightarrow> bool" where
  "can a p \<longleftrightarrow> is_ok (Authorize (NewSubject a) p)"

lemma can_iff: "can a p \<longleftrightarrow> Authenticated a \<and> p \<in> set (ac_Permissions a)"
  by (simp add: can_def Authorize_def NewSubject_def subject_Authenticated_def Has_def Authenticated_def)

text \<open>The role lists play no part in authorization: only the resolved permissions count.\<close>

lemma can_ignores_roles: "can (a\<lparr>ac_Roles := rs, ac_Role := r\<rparr>) p = can a p"
  by (simp add: can_iff Authenticated_def)

lemma can_Anonymous [simp]: "\<not> can (Anonymous rid) p"
  by (simp add: can_iff Anonymous_def Authenticated_def)

lemma ParseRole_ok: "ParseRole value = Inr role \<Longrightarrow> IsGlobalRole role \<noteq> IsContestRole role"
  by (auto simp: ParseRole_def Let_def known_roles_def IsGlobalRole_def IsContestRole_def split: if_splits)

lemma Catalog_codes: "map ps_Code Catalog = allPermissions"
  by (simp add: Catalog_def comp_def)

lemma distinct_allPermissions: "distinct allPermissions"
  by (simp add: allPermissions_def)

lemma find_code_map:
  "List.find (\<lambda>spec. ps_Code spec = code) (map (\<lambda>c. \<lparr>ps_Code = c, ps_Scope = f c, ps_Delegable = g c, ps_Consumer = h c\<rparr>) cs)
   = (if code \<in> set cs then Some \<lparr>ps_Code = code, ps_Scope = f code, ps_Delegable = g code, ps_Consumer = h code\<rparr>
      else None)"
  by (induction cs) auto

lemma Lookup_iff:
  "Lookup code = (if code \<in> set allPermissions
     then Some \<lparr>ps_Code = code, ps_Scope = permissionScope code,
                ps_Delegable = (code \<notin> set nonDelegablePermissions), ps_Consumer = consumer_of code\<rparr>
     else None)"
  by (simp add: Lookup_def Catalog_def find_code_map)

lemma consumers_cover: "code \<in> set allPermissions \<Longrightarrow> consumer_of code \<noteq> []"
proof -
  have "list_all (\<lambda>c. consumer_of c \<noteq> []) allPermissions"
    by code_simp
  then show "code \<in> set allPermissions \<Longrightarrow> consumer_of code \<noteq> []"
    by (simp add: list_all_iff)
qed

lemma tables_in_directory:
  "set nonDelegablePermissions \<subseteq> set allPermissions" "set contestScopedPermissions \<subseteq> set allPermissions"
  "list_all (\<lambda>combo. set (snd combo) \<subseteq> set allPermissions) permissionCombos"
  by (simp_all add: nonDelegablePermissions_def contestScopedPermissions_def permissionCombos_def
      allPermissions_def)

text \<open>
  The permission directory is closed and consistent. A code has a directory entry exactly when it
  is one of the known permissions; every entry names a consumer; a permission that only contest roles
  can hold is delegable and no full-access-only permission is contest-scoped.
\<close>

theorem permission_directory_consistent:
  "(Lookup code = None \<longleftrightarrow> code \<notin> set allPermissions)
   \<and> (\<forall>spec. Lookup code = Some spec \<longrightarrow>
        ps_Code spec = code \<and> ps_Consumer spec \<noteq> []
        \<and> (ps_Scope spec = ScopeContest \<longrightarrow> ps_Delegable spec)
        \<and> (ps_Delegable spec \<longleftrightarrow> code \<notin> set nonDelegablePermissions))"
proof -
  have "code \<in> set contestScopedPermissions \<Longrightarrow> code \<notin> set nonDelegablePermissions"
    by (auto simp: contestScopedPermissions_def nonDelegablePermissions_def)
  then show ?thesis
    by (auto simp: Lookup_iff consumers_cover permissionScope_def split: if_splits)
qed

theorem permission_directory_consistent_witness:
  "\<exists>spec. Lookup PermissionContestJudge = Some spec \<and> ps_Delegable spec"
proof -
  obtain spec where "Lookup PermissionContestJudge = Some spec"
    by (simp add: Lookup_iff allPermissions_def)
  moreover have "ps_Scope spec = ScopeContest"
    using calculation by (auto simp: Lookup_iff permissionScope_def contestScopedPermissions_def split: if_splits)
  ultimately show ?thesis
    using permission_directory_consistent [of PermissionContestJudge] by auto
qed

end
