(* ===== verification/Contest.thy ===== *)
theory Contest
  imports Authz
begin

section \<open>Contests: data, access rules and submission policy (\<^verbatim>\<open>internal/contest\<close>)\<close>

text \<open>
  The records of \<^verbatim>\<open>service.go\<close>, the input validation, the access predicates of \<^verbatim>\<open>service.go\<close> and
  \<^verbatim>\<open>reader.go\<close>, and \<^verbatim>\<open>policy.go\<close>: registration, admission of submissions and the visibility of results
  around the freeze. The stores behind \<^verbatim>\<open>ContestReader\<close> are a record of read functions, together with
  the reader's clock; \<^verbatim>\<open>crypto/sha256\<close> is the parameter \<open>sha256hex\<close>.
\<close>

abbreviation VisibilityPublic :: string where "VisibilityPublic \<equiv> ''public''"
abbreviation VisibilityPrivate :: string where "VisibilityPrivate \<equiv> ''private''"
abbreviation ContestDraft :: string where "ContestDraft \<equiv> ''draft''"
abbreviation ContestPublished :: string where "ContestPublished \<equiv> ''published''"
abbreviation ContestRunning :: string where "ContestRunning \<equiv> ''running''"
abbreviation ContestEnded :: string where "ContestEnded \<equiv> ''ended''"
abbreviation ContestArchived :: string where "ContestArchived \<equiv> ''archived''"
abbreviation RegistrationActive :: string where "RegistrationActive \<equiv> ''active''"
abbreviation RegistrationCanceled :: string where "RegistrationCanceled \<equiv> ''canceled''"
abbreviation CellNone :: string where "CellNone \<equiv> ''none''"
abbreviation CellAttempted :: string where "CellAttempted \<equiv> ''attempted''"
abbreviation CellAccepted :: string where "CellAccepted \<equiv> ''accepted''"
abbreviation CellFrozen :: string where "CellFrozen \<equiv> ''frozen''"

type_synonym ScoreboardView = string

abbreviation ScoreboardViewLive :: ScoreboardView where "ScoreboardViewLive \<equiv> ''live''"
abbreviation ScoreboardViewFrozen :: ScoreboardView where "ScoreboardViewFrozen \<equiv> ''frozen''"
abbreviation ScoreboardViewFinal :: ScoreboardView where "ScoreboardViewFinal \<equiv> ''final''"

record contest_problem =
  cb_ContestID :: int64
  cb_ProblemID :: int64
  cb_Alias :: string
  cb_SortOrder :: int32
  cb_Title :: string

record contest_record =
  ct_ID :: int64
  ct_OwnerUserID :: int64
  ct_Title :: string
  ct_Description :: "string option"
  ct_Visibility :: string
  ct_Status :: string
  ct_StartAt :: time
  ct_EndAt :: time
  ct_FreezeAt :: time
  ct_InviteCodeHash :: string
  ct_ScoreRevision :: int64
  ct_Registered :: bool
  ct_CurrentUserRoles :: "Role list"
  ct_Problems :: "contest_problem list"
  ct_CreatedAt :: time
  ct_UpdatedAt :: time

record contest_registration =
  rg_ID :: int64
  rg_ContestID :: int64
  rg_UserID :: int64
  rg_DisplayName :: string
  rg_Email :: string
  rg_Status :: string
  rg_RegisteredAt :: time
  rg_AcceptedCount :: int32
  rg_PenaltyMinutes :: int32

record contest_problem_input =
  bi_ProblemID :: int64
  bi_Alias :: string

record contest_input =
  ci_Title :: string
  ci_Description :: "string option"
  ci_Visibility :: string
  ci_Status :: string
  ci_StartAt :: time
  ci_EndAt :: time
  ci_FreezeAt :: time
  ci_InviteCode :: string
  ci_Problems :: "contest_problem_input list"

record contest_update_input =
  ui_Title :: "string option"
  ui_Description :: "string option"
  ui_Visibility :: "string option"
  ui_Status :: "string option"
  ui_StartAt :: "time option"
  ui_EndAt :: "time option"
  ui_FreezeAt :: "time option"
  ui_InviteCode :: "string option"
  ui_Problems :: "contest_problem_input list option"

record registration_input =
  ri_DisplayName :: string
  ri_Email :: string
  ri_InviteCode :: string

text \<open>\<^verbatim>\<open>submission.ContestSubmissionVisibility\<close> and \<^verbatim>\<open>SubmissionResultVisibility\<close> (\<^verbatim>\<open>submission/service.go\<close>).\<close>

record contest_submission_visibility =
  cv_ID :: int64
  cv_UserID :: int64
  cv_ProblemID :: int64
  cv_ContestID :: int64
  cv_SubmittedAt :: time
  cv_JudgedAt :: "time option"

record submission_result_visibility =
  ShowResult :: bool
  ShowCases :: bool
  ShowAdminDiagnostics :: bool
  Visibility :: string

subsection \<open>Input validation (\<^verbatim>\<open>service.go\<close>)\<close>

definition validVisibility :: "string \<Rightarrow> bool" where
  "validVisibility value \<longleftrightarrow> value = VisibilityPublic \<or> value = VisibilityPrivate"

definition validStatus :: "string \<Rightarrow> bool" where
  "validStatus value \<longleftrightarrow>
     value \<in> {ContestDraft, ContestPublished, ContestRunning, ContestEnded, ContestArchived}"

definition validateContestInput :: "contest_input \<Rightarrow> unit res" where
  "validateContestInput input =
     (if TrimSpace (ci_Title input) = [] then fail (BadRequest ''request.invalid'' ''title is required'')
      else if \<not> validVisibility (ci_Visibility input)
      then fail (BadRequest ''request.invalid'' ''visibility is invalid'')
      else if ci_Visibility input = VisibilityPrivate \<and> TrimSpace (ci_InviteCode input) = []
      then fail (BadRequest ''contest.invite_code_required'' ''invite code is required for private contests'')
      else if \<not> validStatus (ci_Status input)
      then fail (BadRequest ''request.invalid'' ''status is invalid'')
      else if \<not> ci_StartAt input < ci_EndAt input
      then fail (BadRequest ''request.invalid'' ''start_at must be before end_at'')
      else if ci_FreezeAt input < ci_StartAt input \<or> ci_FreezeAt input > ci_EndAt input
      then fail (BadRequest ''request.invalid'' ''freeze_at must be within contest window'')
      else Inr ())"

text \<open>The loop of \<^verbatim>\<open>contestProblems\<close>, with the aliases and problem ids seen so far.\<close>

fun contest_problems_from ::
  "int64 \<Rightarrow> nat \<Rightarrow> string list \<Rightarrow> int64 list \<Rightarrow> contest_problem_input list \<Rightarrow> contest_problem list res" where
  "contest_problems_from contestID i aliases problemIDs [] = Inr []"
| "contest_problems_from contestID i aliases problemIDs (input # inputs) =
     (let alias = TrimSpace (bi_Alias input) in
      if bi_ProblemID input \<le> 0 \<or> alias = []
      then fail (BadRequest ''request.invalid'' ''contest problem requires problem_id and alias'')
      else if alias \<in> set aliases
      then fail (Conflict ''contest.problem_alias_conflict'' ''contest problem alias must be unique'')
      else if bi_ProblemID input \<in> set problemIDs
      then fail (Conflict ''contest.problem_conflict'' ''contest problem must be unique'')
      else bind_res
        (contest_problems_from contestID (Suc i) (alias # aliases) (bi_ProblemID input # problemIDs) inputs)
        (\<lambda>rest. Inr (\<lparr>cb_ContestID = contestID, cb_ProblemID = bi_ProblemID input, cb_Alias = alias,
                     cb_SortOrder = of_nat (i + 1), cb_Title = []\<rparr> # rest)))"

definition contestProblems :: "int64 \<Rightarrow> contest_problem_input list \<Rightarrow> contest_problem list res" where
  "contestProblems contestID inputs = contest_problems_from contestID 0 [] [] inputs"

definition validateContestUpdate :: "contest_record \<Rightarrow> contest_update_input \<Rightarrow> unit res" where
  "validateContestUpdate current input =
     (let inviteCode = (case ui_InviteCode input of None \<Rightarrow> ct_InviteCodeHash current | Some c \<Rightarrow> TrimSpace c);
          nxt = \<lparr>ci_Title = (case ui_Title input of None \<Rightarrow> ct_Title current | Some v \<Rightarrow> v),
                 ci_Description = None,
                 ci_Visibility = (case ui_Visibility input of None \<Rightarrow> ct_Visibility current | Some v \<Rightarrow> v),
                 ci_Status = (case ui_Status input of None \<Rightarrow> ct_Status current | Some v \<Rightarrow> v),
                 ci_StartAt = (case ui_StartAt input of None \<Rightarrow> ct_StartAt current | Some v \<Rightarrow> v),
                 ci_EndAt = (case ui_EndAt input of None \<Rightarrow> ct_EndAt current | Some v \<Rightarrow> v),
                 ci_FreezeAt = (case ui_FreezeAt input of None \<Rightarrow> ct_FreezeAt current | Some v \<Rightarrow> v),
                 ci_InviteCode = inviteCode, ci_Problems = []\<rparr>
      in if ci_Visibility nxt = VisibilityPrivate \<and> TrimSpace inviteCode = []
         then fail (BadRequest ''contest.invite_code_required'' ''invite code is required for private contests'')
         else (case ui_Problems input of
                 None \<Rightarrow> validateContestInput nxt
               | Some ps \<Rightarrow> bind_res (contestProblems (ct_ID current) ps) (\<lambda>_. validateContestInput nxt)))"

definition containsProblem :: "contest_problem list \<Rightarrow> int64 \<Rightarrow> bool" where
  "containsProblem problems problemID \<longleftrightarrow> (\<exists>p \<in> set problems. cb_ProblemID p = problemID)"

definition hashInviteCode :: "(string \<Rightarrow> string) \<Rightarrow> string \<Rightarrow> string" where
  "hashInviteCode sha256hex code = (let c = TrimSpace code in if c = [] then [] else sha256hex c)"

subsection \<open>Access predicates (\<^verbatim>\<open>service.go\<close>)\<close>

definition requireContestCreator :: "actor \<Rightarrow> unit res" where
  "requireContestCreator a =
     (if \<not> Authenticated a then fail (Unauthorized ''auth_required'' ''authentication required'')
      else if can a PermissionContestCreate then Inr ()
      else if can a PermissionContestManageAll then Inr ()
      else fail (Forbidden ''contest.not_allowed'' ''contest management permission required''))"

definition canManageContest :: "actor \<Rightarrow> contest_record \<Rightarrow> bool" where
  "canManageContest a contest \<longleftrightarrow> ac_UserID a = ct_OwnerUserID contest \<or> can a PermissionContestManage"

definition canViewContestResults :: "actor \<Rightarrow> contest_record \<Rightarrow> bool" where
  "canViewContestResults a contest \<longleftrightarrow> canManageContest a contest \<or> can a PermissionContestJudge"

definition requireContestManager :: "actor \<Rightarrow> contest_record \<Rightarrow> unit res" where
  "requireContestManager a contest =
     (if \<not> Authenticated a then fail (Unauthorized ''auth_required'' ''authentication required'')
      else if canManageContest a contest then Inr ()
      else fail (Forbidden ''contest.not_allowed'' ''contest access denied''))"

definition requireContestJudge :: "actor \<Rightarrow> contest_record \<Rightarrow> unit res" where
  "requireContestJudge a contest =
     (if \<not> Authenticated a then fail (Unauthorized ''auth_required'' ''authentication required'')
      else if canManageContest a contest \<or> can a PermissionContestJudge then Inr ()
      else fail (Forbidden ''contest.not_allowed'' ''contest judge permission required''))"

subsection \<open>The contest reader (\<^verbatim>\<open>reader.go\<close>)\<close>

record contest_access =
  acc_Roles :: "Role list"
  acc_Permissions :: "Permission list"

record contest_reader =
  rd_GetContest :: "int64 \<Rightarrow> contest_record res"
  rd_ListContestProblems :: "int64 \<Rightarrow> contest_problem list res"
  rd_ListRegistrations :: "int64 \<Rightarrow> contest_registration list res"
  rd_GetRegistration :: "int64 \<Rightarrow> int64 \<Rightarrow> contest_registration res"
  rd_roles :: "(int64 \<Rightarrow> int64 \<Rightarrow> contest_access res) option"
  rd_now :: time

definition actorHasPermission :: "actor \<Rightarrow> Permission \<Rightarrow> bool" where
  "actorHasPermission a permission \<longleftrightarrow> (\<exists>granted \<in> set (ac_Permissions a). granted = permission)"

fun add_roles :: "actor \<Rightarrow> Role list \<Rightarrow> actor" where
  "add_roles a [] = a"
| "add_roles a (r # rs) =
     add_roles (if HasRole a r then a else a\<lparr>ac_Roles := ac_Roles a @ [r]\<rparr>) rs"

fun add_permissions :: "actor \<Rightarrow> Permission list \<Rightarrow> actor" where
  "add_permissions a [] = a"
| "add_permissions a (p # ps) =
     add_permissions (if actorHasPermission a p then a else a\<lparr>ac_Permissions := ac_Permissions a @ [p]\<rparr>) ps"

definition actorWithContestRoles :: "contest_reader \<Rightarrow> actor \<Rightarrow> int64 \<Rightarrow> actor res" where
  "actorWithContestRoles rd a contestID =
     (case rd_roles rd of
        None \<Rightarrow> Inr a
      | Some listAccess \<Rightarrow>
          if \<not> Authenticated a \<or> contestID \<le> 0 then Inr a
          else bind_res (listAccess contestID (ac_UserID a)) (\<lambda>access.
            Inr (add_permissions (add_roles a (acc_Roles access)) (acc_Permissions access))))"

definition canManageAllContests :: "actor \<Rightarrow> bool" where
  "canManageAllContests a \<longleftrightarrow> can a PermissionContestManageAll"

definition canReadContestAs :: "contest_reader \<Rightarrow> actor \<Rightarrow> contest_record \<Rightarrow> unit res" where
  "canReadContestAs rd a contest =
     (if ct_Visibility contest = VisibilityPublic \<or> canManageAllContests a
         \<or> ac_UserID a = ct_OwnerUserID contest \<or> can a PermissionContestRead then Inr ()
      else if \<not> Authenticated a then fail (Unauthorized ''auth_required'' ''authentication required'')
      else (case rd_GetRegistration rd (ct_ID contest) (ac_UserID a) of
              Inr registration \<Rightarrow>
                if rg_Status registration = RegistrationActive then Inr ()
                else fail (Forbidden ''contest.not_allowed'' ''contest access denied'')
            | Inl _ \<Rightarrow> fail (Forbidden ''contest.not_allowed'' ''contest access denied'')))"

definition canReadContest :: "contest_reader \<Rightarrow> actor \<Rightarrow> contest_record \<Rightarrow> unit res" where
  "canReadContest rd a contest =
     (if ct_Visibility contest = VisibilityPublic \<or> canManageAllContests a
         \<or> ac_UserID a = ct_OwnerUserID contest then Inr ()
      else bind_res (actorWithContestRoles rd a (ct_ID contest)) (\<lambda>scoped.
        canReadContestAs rd scoped contest))"

definition actorRegisteredForContest :: "contest_reader \<Rightarrow> actor \<Rightarrow> int64 \<Rightarrow> bool" where
  "actorRegisteredForContest rd a contestID =
     (Authenticated a \<and>
      (case rd_GetRegistration rd contestID (ac_UserID a) of
         Inl _ \<Rightarrow> False | Inr registration \<Rightarrow> rg_Status registration = RegistrationActive))"

definition currentUserRoles :: "contest_reader \<Rightarrow> actor \<Rightarrow> int64 \<Rightarrow> Role list" where
  "currentUserRoles rd a contestID =
     (case rd_roles rd of
        None \<Rightarrow> []
      | Some listAccess \<Rightarrow>
          if \<not> Authenticated a \<or> contestID \<le> 0 then []
          else (case listAccess contestID (ac_UserID a) of Inl _ \<Rightarrow> [] | Inr access \<Rightarrow> acc_Roles access))"

definition withFrontendContract :: "contest_reader \<Rightarrow> actor \<Rightarrow> contest_record \<Rightarrow> contest_record res" where
  "withFrontendContract rd a rec =
     bind_res (rd_ListContestProblems rd (ct_ID rec)) (\<lambda>problems.
       Inr (rec\<lparr>ct_Problems := problems, ct_Registered := actorRegisteredForContest rd a (ct_ID rec),
                ct_CurrentUserRoles := currentUserRoles rd a (ct_ID rec)\<rparr>))"

definition GetContest :: "contest_reader \<Rightarrow> actor \<Rightarrow> int64 \<Rightarrow> contest_record res" where
  "GetContest rd a cid =
     (if \<not> Authenticated a then fail (Unauthorized ''auth.required'' ''authentication required'')
      else bind_res (rd_GetContest rd cid) (\<lambda>rec.
           bind_res (canReadContest rd a rec) (\<lambda>_.
             withFrontendContract rd a rec)))"

subsection \<open>The contest policy (\<^verbatim>\<open>policy.go\<close>)\<close>

definition AuthorizeContestRejudge :: "contest_reader \<Rightarrow> actor \<Rightarrow> int64 \<Rightarrow> unit res" where
  "AuthorizeContestRejudge rd a cid =
     bind_res (rd_GetContest rd cid) (\<lambda>contest.
     bind_res (actorWithContestRoles rd a (ct_ID contest)) (\<lambda>scoped.
       requireContestJudge scoped contest))"

definition ValidateContestRejudgeTarget :: "contest_reader \<Rightarrow> int64 \<Rightarrow> unit res" where
  "ValidateContestRejudgeTarget rd cid =
     bind_res (rd_GetContest rd cid) (\<lambda>contest.
       if ct_Status contest \<noteq> ContestEnded
       then fail (Conflict ''rejudge.contest_not_ended'' ''contest must be ended before rejudge'')
       else Inr ())"

text \<open>\<^verbatim>\<open>Register\<close>, up to the write of the new row, which the result is passed to.\<close>

definition Register ::
  "(string \<Rightarrow> string) \<Rightarrow> contest_reader \<Rightarrow> (contest_registration \<Rightarrow> contest_registration res)
   \<Rightarrow> actor \<Rightarrow> int64 \<Rightarrow> registration_input \<Rightarrow> contest_registration res" where
  "Register sha256hex rd createRegistration a contestID input =
     (if \<not> Authenticated a then fail (Unauthorized ''auth_required'' ''authentication required'')
      else
        bind_res (rd_GetContest rd contestID) (\<lambda>contest.
        bind_res (actorWithContestRoles rd a (ct_ID contest)) (\<lambda>scoped.
          if ct_Visibility contest = VisibilityPrivate \<and> ct_InviteCodeHash contest = []
          then fail (Forbidden ''contest.invite_code_required'' ''invite code is required'')
          else if ct_Visibility contest = VisibilityPrivate
                  \<and> ct_InviteCodeHash contest \<noteq> hashInviteCode sha256hex (ri_InviteCode input)
          then fail (Forbidden ''contest.invite_code_invalid'' ''invite code is invalid'')
          else (let displayName = TrimSpace (ri_DisplayName input); email = TrimSpace (ri_Email input) in
                if displayName = [] \<or> email = []
                then fail (BadRequest ''request.invalid'' ''display_name and email are required'')
                else createRegistration
                  \<lparr>rg_ID = 0, rg_ContestID = contestID, rg_UserID = ac_UserID scoped,
                   rg_DisplayName = displayName, rg_Email = email, rg_Status = RegistrationActive,
                   rg_RegisteredAt = 0, rg_AcceptedCount = 0, rg_PenaltyMinutes = 0\<rparr>))))"

definition ValidateSubmission :: "contest_reader \<Rightarrow> actor \<Rightarrow> int64 \<Rightarrow> int64 \<Rightarrow> unit res" where
  "ValidateSubmission rd a problemID contestID =
     (if \<not> Authenticated a then fail (Unauthorized ''auth_required'' ''authentication required'')
      else
        bind_res (rd_GetContest rd contestID) (\<lambda>contest.
        bind_res (actorWithContestRoles rd a (ct_ID contest)) (\<lambda>scoped.
          if ct_Status contest \<noteq> ContestPublished \<and> ct_Status contest \<noteq> ContestRunning
          then fail (Forbidden ''contest.not_started'' ''contest is not accepting submissions'')
          else if rd_now rd < ct_StartAt contest
          then fail (Forbidden ''contest.not_started'' ''contest has not started'')
          else if \<not> rd_now rd < ct_EndAt contest
          then fail (Forbidden ''contest.ended'' ''contest has ended'')
          else bind_res (rd_ListContestProblems rd contestID) (\<lambda>problems.
            if \<not> containsProblem problems problemID
            then fail (NotFound ''contest.problem_not_found'' ''problem is not in contest'')
            else if ac_UserID scoped = ct_OwnerUserID contest \<or> can scoped PermissionContestManage
            then Inr ()
            else (case rd_GetRegistration rd contestID (ac_UserID scoped) of
                    Inl _ \<Rightarrow> fail (Forbidden ''contest.registration_required'' ''contest registration required'')
                  | Inr registration \<Rightarrow>
                      if rg_Status registration \<noteq> RegistrationActive
                      then fail (Forbidden ''contest.registration_required'' ''contest registration required'')
                      else Inr ())))))"

definition submissionVisibleInFrozenWindow ::
  "contest_record \<Rightarrow> contest_submission_visibility \<Rightarrow> time \<Rightarrow> bool" where
  "submissionVisibleInFrozenWindow contest sub now =
     (if now < ct_FreezeAt contest \<or> \<not> now < ct_EndAt contest then True
      else (case cv_JudgedAt sub of
              None \<Rightarrow> cv_SubmittedAt sub < ct_FreezeAt contest
            | Some judged \<Rightarrow> cv_SubmittedAt sub < ct_FreezeAt contest \<and> \<not> judged > ct_FreezeAt contest))"

definition submissionResultVisibility ::
  "contest_record \<Rightarrow> actor \<Rightarrow> contest_submission_visibility \<Rightarrow> time \<Rightarrow> submission_result_visibility" where
  "submissionResultVisibility contest a sub now =
     (if canViewContestResults a contest
      then \<lparr>ShowResult = True, ShowCases = True, ShowAdminDiagnostics = True, Visibility = ''visible''\<rparr>
      else if \<not> submissionVisibleInFrozenWindow contest sub now
      then \<lparr>ShowResult = False, ShowCases = False, ShowAdminDiagnostics = False, Visibility = ''frozen''\<rparr>
      else \<lparr>ShowResult = True, ShowCases = True, ShowAdminDiagnostics = False, Visibility = ''visible''\<rparr>)"

definition SubmissionResultVisibility ::
  "contest_reader \<Rightarrow> actor \<Rightarrow> contest_submission_visibility \<Rightarrow> submission_result_visibility res" where
  "SubmissionResultVisibility rd a sub =
     bind_res (rd_GetContest rd (cv_ContestID sub)) (\<lambda>contest.
     bind_res (actorWithContestRoles rd a (cv_ContestID sub)) (\<lambda>scoped.
     bind_res (canReadContestAs rd scoped contest) (\<lambda>_.
       Inr (submissionResultVisibility contest scoped sub (rd_now rd)))))"

text \<open>
  The batch version caches the contest and the scoped actor per contest. The two caches are filled
  together, so they are one map here.
\<close>

fun visibilities_from ::
  "contest_reader \<Rightarrow> actor \<Rightarrow> (int64 \<Rightarrow> (contest_record \<times> actor) option)
   \<Rightarrow> (int64 \<Rightarrow> submission_result_visibility option) \<Rightarrow> contest_submission_visibility list
   \<Rightarrow> (int64 \<Rightarrow> submission_result_visibility option) res" where
  "visibilities_from rd a cache out [] = Inr out"
| "visibilities_from rd a cache out (sub # subs) =
     (case cache (cv_ContestID sub) of
        Some (contest, scoped) \<Rightarrow>
          visibilities_from rd a cache
            (out(cv_ID sub \<mapsto> submissionResultVisibility contest scoped sub (rd_now rd))) subs
      | None \<Rightarrow>
          bind_res (actorWithContestRoles rd a (cv_ContestID sub)) (\<lambda>scoped.
          bind_res (rd_GetContest rd (cv_ContestID sub)) (\<lambda>contest.
          bind_res (canReadContestAs rd scoped contest) (\<lambda>_.
            visibilities_from rd a (cache(cv_ContestID sub \<mapsto> (contest, scoped)))
              (out(cv_ID sub \<mapsto> submissionResultVisibility contest scoped sub (rd_now rd))) subs))))"

definition SubmissionResultVisibilities ::
  "contest_reader \<Rightarrow> actor \<Rightarrow> contest_submission_visibility list
   \<Rightarrow> (int64 \<Rightarrow> submission_result_visibility option) res" where
  "SubmissionResultVisibilities rd a subs = visibilities_from rd a Map.empty Map.empty subs"

definition CanReadSubmissionSource ::
  "contest_reader \<Rightarrow> actor \<Rightarrow> contest_submission_visibility \<Rightarrow> bool res" where
  "CanReadSubmissionSource rd a sub =
     bind_res (rd_GetContest rd (cv_ContestID sub)) (\<lambda>contest.
     bind_res (actorWithContestRoles rd a (cv_ContestID sub)) (\<lambda>scoped.
       (case canReadContestAs rd scoped contest of
          Inl _ \<Rightarrow> Inr False
        | Inr _ \<Rightarrow> Inr (canViewContestResults scoped contest))))"

subsection \<open>A concrete contest\<close>

text \<open>The contest on which the witnesses of the contest properties run.\<close>

definition sample_problem :: contest_problem where
  "sample_problem = \<lparr>cb_ContestID = 7, cb_ProblemID = 10, cb_Alias = ''A'', cb_SortOrder = 1, cb_Title = ''Sum''\<rparr>"

definition sample_contest :: contest_record where
  "sample_contest = \<lparr>ct_ID = 7, ct_OwnerUserID = 1, ct_Title = ''Cup'', ct_Description = None,
     ct_Visibility = VisibilityPublic, ct_Status = ContestPublished, ct_StartAt = 0, ct_EndAt = 300 * Minute,
     ct_FreezeAt = 240 * Minute, ct_InviteCodeHash = [], ct_ScoreRevision = 0, ct_Registered = False,
     ct_CurrentUserRoles = [], ct_Problems = [sample_problem], ct_CreatedAt = 0, ct_UpdatedAt = 0\<rparr>"

definition sample_registration :: "int64 \<Rightarrow> string \<Rightarrow> int32 \<Rightarrow> int32 \<Rightarrow> contest_registration" where
  "sample_registration user nm accepted penalty =
     \<lparr>rg_ID = user, rg_ContestID = 7, rg_UserID = user, rg_DisplayName = nm, rg_Email = [],
      rg_Status = RegistrationActive, rg_RegisteredAt = 0, rg_AcceptedCount = accepted, rg_PenaltyMinutes = penalty\<rparr>"

end
