(* ===== verification/Scoreboard.thy ===== *)
theory Scoreboard
  imports Contest "HOL-Library.Product_Lexorder"
begin

section \<open>The scoreboard (\<^verbatim>\<open>internal/contest/scoreboard.go\<close>, \<^verbatim>\<open>scoreboard_pagination.go\<close>)\<close>

text \<open>
  Boards built from projected problem results and from submissions, ranking, the cursor-paged live
  board, and the pages of stored snapshots. Counts and minutes are \<open>32 word\<close>s as in the code; the SQL
  query behind a live page is modelled on the list of registration rows.
\<close>

subsection \<open>Data\<close>

record contest_problem_result =
  cpr_ContestID :: int64
  cpr_UserID :: int64
  cpr_ProblemID :: int64
  cpr_Status :: string
  cpr_Attempts :: int32
  cpr_AcceptedAt :: "time option"
  cpr_PenaltyMinutes :: int32
  cpr_LastSubmissionID :: "int64 option"
  cpr_UpdatedAt :: time

record contest_submission_result =
  cs_ID :: int64
  cs_ContestID :: int64
  cs_UserID :: int64
  cs_ProblemID :: int64
  cs_Status :: string
  cs_SubmittedAt :: time
  cs_JudgedAt :: time
  cs_FirstJudgedAt :: "time option"

record scoreboard_cell =
  cell_ProblemID :: int64
  cell_Alias :: string
  cell_Status :: string
  cell_Attempts :: int32
  cell_FrozenAttempts :: int32
  cell_AcceptedAt :: "time option"
  cell_PenaltyMinutes :: int32
  cell_LastSubmissionID :: "int64 option"

record scoreboard_row =
  row_Rank :: int32
  row_UserID :: int64
  row_DisplayName :: string
  row_AcceptedCount :: int32
  row_PenaltyMinutes :: int32
  row_Cells :: "scoreboard_cell list"

record scoreboard_cursor =
  cu_ContestID :: int64
  cu_View :: ScoreboardView
  cu_SnapshotID :: int64
  cu_AfterOrdinal :: int32
  cu_AfterAcceptedCount :: int32
  cu_AfterPenalty :: int32
  cu_AfterDisplayName :: string
  cu_AfterUserID :: int64
  cu_RowsSeen :: int32
  cu_LastRank :: int32

definition empty_cursor :: scoreboard_cursor where
  "empty_cursor = \<lparr>cu_ContestID = 0, cu_View = [], cu_SnapshotID = 0, cu_AfterOrdinal = 0,
     cu_AfterAcceptedCount = 0, cu_AfterPenalty = 0, cu_AfterDisplayName = [], cu_AfterUserID = 0,
     cu_RowsSeen = 0, cu_LastRank = 0\<rparr>"

record scoreboard_response =
  sr_ContestID :: int64
  sr_View :: ScoreboardView
  sr_GeneratedAt :: time
  sr_Problems :: "contest_problem list"
  sr_Rows :: "scoreboard_row list"
  sr_NextCursor :: "scoreboard_cursor option"

record scoreboard_rows_query =
  sq_PageSize :: int32
  sq_HasCursor :: bool
  sq_AfterAcceptedCount :: int32
  sq_AfterPenalty :: int32
  sq_AfterDisplayName :: string
  sq_AfterUserID :: int64

subsection \<open>Rows, cells and ranking\<close>

definition empty_cell :: "contest_problem \<Rightarrow> scoreboard_cell" where
  "empty_cell problem = \<lparr>cell_ProblemID = cb_ProblemID problem, cell_Alias = cb_Alias problem,
     cell_Status = CellNone, cell_Attempts = 0, cell_FrozenAttempts = 0, cell_AcceptedAt = None,
     cell_PenaltyMinutes = 0, cell_LastSubmissionID = None\<rparr>"

definition rowsForScoreboardRegistrations ::
  "contest_problem list \<Rightarrow> contest_registration list \<Rightarrow> scoreboard_row list" where
  "rowsForScoreboardRegistrations problems registrations =
     map (\<lambda>r. \<lparr>row_Rank = 0, row_UserID = rg_UserID r, row_DisplayName = rg_DisplayName r,
                row_AcceptedCount = rg_AcceptedCount r, row_PenaltyMinutes = rg_PenaltyMinutes r,
                row_Cells = map empty_cell problems\<rparr>) registrations"

definition rowsForRegistrations ::
  "contest_problem list \<Rightarrow> contest_registration list \<Rightarrow> scoreboard_row list" where
  "rowsForRegistrations problems registrations =
     map (\<lambda>r. \<lparr>row_Rank = 0, row_UserID = rg_UserID r, row_DisplayName = rg_DisplayName r,
                row_AcceptedCount = 0, row_PenaltyMinutes = 0, row_Cells = map empty_cell problems\<rparr>)
       (filter (\<lambda>r. rg_Status r = RegistrationActive) registrations)"

definition row_less :: "scoreboard_row \<Rightarrow> scoreboard_row \<Rightarrow> bool" where
  "row_less a b =
     (if row_AcceptedCount a \<noteq> row_AcceptedCount b then sint (row_AcceptedCount a) > sint (row_AcceptedCount b)
      else if row_PenaltyMinutes a \<noteq> row_PenaltyMinutes b
      then sint (row_PenaltyMinutes a) < sint (row_PenaltyMinutes b)
      else row_DisplayName a < row_DisplayName b)"

text \<open>The loop of \<^verbatim>\<open>rankRows\<close>, with the index and the previous row.\<close>

fun assign_ranks :: "nat \<Rightarrow> scoreboard_row option \<Rightarrow> scoreboard_row list \<Rightarrow> scoreboard_row list" where
  "assign_ranks i previous [] = []"
| "assign_ranks i previous (r # rs) =
     (let r' = (case previous of
                  Some p \<Rightarrow>
                    if row_AcceptedCount r = row_AcceptedCount p \<and> row_PenaltyMinutes r = row_PenaltyMinutes p
                    then r\<lparr>row_Rank := row_Rank p\<rparr> else r\<lparr>row_Rank := of_nat (i + 1)\<rparr>
                | None \<Rightarrow> r\<lparr>row_Rank := of_nat (i + 1)\<rparr>)
      in r' # assign_ranks (Suc i) (Some r') rs)"

definition rankRows :: "scoreboard_row list \<Rightarrow> scoreboard_row list" where
  "rankRows rows = assign_ranks 0 None (sort_by row_less rows)"

text \<open>The loop of \<^verbatim>\<open>applyPageRanks\<close>: the first row may continue the previous page's last rank.\<close>

fun page_ranks_from ::
  "scoreboard_cursor \<Rightarrow> nat \<Rightarrow> scoreboard_row option \<Rightarrow> scoreboard_row list \<Rightarrow> scoreboard_row list" where
  "page_ranks_from cursor i previous [] = []"
| "page_ranks_from cursor i previous (r # rs) =
     (let r' =
        (if i = 0 \<and> cu_ContestID cursor \<noteq> 0 \<and> row_AcceptedCount r = cu_AfterAcceptedCount cursor
              \<and> row_PenaltyMinutes r = cu_AfterPenalty cursor
         then r\<lparr>row_Rank := cu_LastRank cursor\<rparr>
         else (case previous of
                 Some p \<Rightarrow>
                   if row_AcceptedCount r = row_AcceptedCount p \<and> row_PenaltyMinutes r = row_PenaltyMinutes p
                   then r\<lparr>row_Rank := row_Rank p\<rparr>
                   else r\<lparr>row_Rank := cu_RowsSeen cursor + of_nat i + 1\<rparr>
               | None \<Rightarrow> r\<lparr>row_Rank := cu_RowsSeen cursor + of_nat i + 1\<rparr>))
      in r' # page_ranks_from cursor (Suc i) (Some r') rs)"

definition applyPageRanks :: "scoreboard_row list \<Rightarrow> scoreboard_cursor \<Rightarrow> scoreboard_row list" where
  "applyPageRanks rows cursor = page_ranks_from cursor 0 None rows"

subsection \<open>Boards from projected results\<close>

text \<open>The nested map \<^verbatim>\<open>resultByUserProblem\<close>: a later result for the same key overwrites an earlier one.\<close>

definition result_for :: "contest_problem_result list \<Rightarrow> int64 \<Rightarrow> int64 \<Rightarrow> contest_problem_result option" where
  "result_for results userID problemID =
     List.find (\<lambda>r. cpr_UserID r = userID \<and> cpr_ProblemID r = problemID) (rev results)"

definition applyResultToCell :: "scoreboard_cell \<Rightarrow> contest_problem_result \<Rightarrow> scoreboard_cell" where
  "applyResultToCell cell result =
     cell\<lparr>cell_Status := cpr_Status result,
          cell_Attempts := (if cpr_Status result = CellAccepted \<and> sint (cpr_Attempts result) > 0
                            then cpr_Attempts result - 1 else cpr_Attempts result),
          cell_AcceptedAt := cpr_AcceptedAt result,
          cell_PenaltyMinutes := cpr_PenaltyMinutes result,
          cell_LastSubmissionID := cpr_LastSubmissionID result\<rparr>"

definition populateRowsWithResults ::
  "contest_problem_result list \<Rightarrow> scoreboard_row list \<Rightarrow> scoreboard_row list" where
  "populateRowsWithResults results rows =
     map (\<lambda>row. row\<lparr>row_Cells := map (\<lambda>cell.
            case result_for results (row_UserID row) (cell_ProblemID cell) of
              None \<Rightarrow> cell | Some result \<Rightarrow> applyResultToCell cell result) (row_Cells row)\<rparr>) rows"

text \<open>One cell of \<^verbatim>\<open>buildBoardFromResults\<close>: the new cell and what it adds to its row.\<close>

definition result_cell ::
  "contest_record \<Rightarrow> ScoreboardView \<Rightarrow> scoreboard_cell \<Rightarrow> contest_problem_result option
   \<Rightarrow> scoreboard_cell \<times> int32 \<times> int32" where
  "result_cell contest view cell result =
     (case result of
        None \<Rightarrow> (cell, 0, 0)
      | Some r \<Rightarrow>
          let cell' = applyResultToCell cell r in
          if view = ScoreboardViewFrozen \<and> (case cpr_AcceptedAt r of None \<Rightarrow> False | Some t \<Rightarrow> t > ct_FreezeAt contest)
          then (cell'\<lparr>cell_Status := CellFrozen, cell_Attempts := 0, cell_FrozenAttempts := cpr_Attempts r,
                      cell_AcceptedAt := None, cell_PenaltyMinutes := 0, cell_LastSubmissionID := None\<rparr>, 0, 0)
          else if cpr_Status r = CellAccepted then (cell', 1, cpr_PenaltyMinutes r)
          else (cell', 0, 0))"

text \<open>Filling a row cell by cell, adding each cell's contribution to the row's totals.\<close>

definition fill_row ::
  "(scoreboard_cell \<Rightarrow> scoreboard_cell \<times> int32 \<times> int32) \<Rightarrow> scoreboard_row \<Rightarrow> scoreboard_row" where
  "fill_row f row =
     row\<lparr>row_Cells := map (\<lambda>c. fst (f c)) (row_Cells row),
         row_AcceptedCount := fold (\<lambda>c n. n + fst (snd (f c))) (row_Cells row) (row_AcceptedCount row),
         row_PenaltyMinutes := fold (\<lambda>c n. n + snd (snd (f c))) (row_Cells row) (row_PenaltyMinutes row)\<rparr>"

definition board ::
  "contest_record \<Rightarrow> ScoreboardView \<Rightarrow> time \<Rightarrow> contest_problem list \<Rightarrow> scoreboard_row list \<Rightarrow> scoreboard_response" where
  "board contest view now problems rows =
     \<lparr>sr_ContestID = ct_ID contest, sr_View = view, sr_GeneratedAt = now, sr_Problems = problems,
      sr_Rows = rows, sr_NextCursor = None\<rparr>"

definition buildBoardFromResults ::
  "contest_record \<Rightarrow> ScoreboardView \<Rightarrow> contest_problem list \<Rightarrow> contest_registration list
   \<Rightarrow> contest_problem_result list \<Rightarrow> time \<Rightarrow> scoreboard_response" where
  "buildBoardFromResults contest view problems registrations results now =
     board contest view now problems (rankRows (map (\<lambda>row.
       fill_row (\<lambda>cell. result_cell contest view cell
         (result_for results (row_UserID row) (cell_ProblemID cell))) row)
       (rowsForRegistrations problems registrations)))"

subsection \<open>Boards from submissions\<close>

record submission_cell_state =
  st_wrongAttempts :: int32
  st_wrongBeforeAccepted :: int32
  st_hiddenAttempts :: int32
  st_acceptedAt :: "time option"
  st_penaltyMinutes :: int32
  st_lastSubmissionID :: "int64 option"

definition empty_cell_state :: submission_cell_state where
  "empty_cell_state = \<lparr>st_wrongAttempts = 0, st_wrongBeforeAccepted = 0, st_hiddenAttempts = 0,
     st_acceptedAt = None, st_penaltyMinutes = 0, st_lastSubmissionID = None\<rparr>"

definition submission_order :: "contest_submission_result \<Rightarrow> contest_submission_result \<Rightarrow> bool" where
  "submission_order a b =
     (if cs_SubmittedAt a = cs_SubmittedAt b then cs_ID a < cs_ID b
      else cs_SubmittedAt a < cs_SubmittedAt b)"

text \<open>
  \<^verbatim>\<open>submission.StatusAccepted\<close> and \<^verbatim>\<open>CellAccepted\<close> are the same string, so the two tests of the source
  are one.
\<close>

definition applyVisibleSubmission ::
  "contest_record \<Rightarrow> submission_cell_state \<Rightarrow> contest_submission_result \<Rightarrow> submission_cell_state" where
  "applyVisibleSubmission contest state sub =
     (if st_acceptedAt state \<noteq> None then state
      else if cs_Status sub = ''accepted'' \<or> cs_Status sub = CellAccepted
      then state\<lparr>st_acceptedAt := Some (cs_SubmittedAt sub),
                 st_wrongBeforeAccepted := st_wrongAttempts state,
                 st_penaltyMinutes := int32_minutes (time_Sub (cs_SubmittedAt sub) (ct_StartAt contest))
                                        + st_wrongAttempts state * 20,
                 st_lastSubmissionID := Some (cs_ID sub)\<rparr>
      else state\<lparr>st_wrongAttempts := st_wrongAttempts state + 1\<rparr>)"

definition submission_visible :: "contest_record \<Rightarrow> contest_submission_result \<Rightarrow> bool" where
  "submission_visible contest sub =
     (let judgedAt = (case cs_FirstJudgedAt sub of Some t \<Rightarrow> t | None \<Rightarrow> cs_JudgedAt sub)
      in cs_SubmittedAt sub < ct_FreezeAt contest \<and> \<not> judgedAt > ct_FreezeAt contest)"

definition apply_submission ::
  "contest_record \<Rightarrow> ScoreboardView \<Rightarrow> contest_submission_result \<Rightarrow> submission_cell_state \<Rightarrow> submission_cell_state" where
  "apply_submission contest view sub state =
     (if view \<noteq> ScoreboardViewFrozen \<or> submission_visible contest sub
      then applyVisibleSubmission contest state sub
      else state\<lparr>st_hiddenAttempts := st_hiddenAttempts state + 1\<rparr>)"

text \<open>The nested map \<^verbatim>\<open>states\<close>, built by the loop over the sorted submissions.\<close>

fun collect_states ::
  "contest_record \<Rightarrow> ScoreboardView \<Rightarrow> contest_submission_result list
   \<Rightarrow> (int64 \<times> int64 \<Rightarrow> submission_cell_state option) \<Rightarrow> (int64 \<times> int64 \<Rightarrow> submission_cell_state option)" where
  "collect_states contest view [] states = states"
| "collect_states contest view (sub # subs) states =
     (let key = (cs_UserID sub, cs_ProblemID sub);
          state = (case states key of None \<Rightarrow> empty_cell_state | Some s \<Rightarrow> s)
      in collect_states contest view subs (states(key \<mapsto> apply_submission contest view sub state)))"

definition submission_cell ::
  "scoreboard_cell \<Rightarrow> submission_cell_state option \<Rightarrow> scoreboard_cell \<times> int32 \<times> int32" where
  "submission_cell cell state =
     (case state of
        None \<Rightarrow> (cell, 0, 0)
      | Some s \<Rightarrow>
          if st_acceptedAt s \<noteq> None then
            (cell\<lparr>cell_Status := CellAccepted, cell_Attempts := st_wrongBeforeAccepted s,
                  cell_AcceptedAt := st_acceptedAt s, cell_PenaltyMinutes := st_penaltyMinutes s,
                  cell_LastSubmissionID := st_lastSubmissionID s\<rparr>, 1, st_penaltyMinutes s)
          else if sint (st_hiddenAttempts s) > 0 then
            (cell\<lparr>cell_Status := CellFrozen, cell_FrozenAttempts := st_hiddenAttempts s\<rparr>, 0, 0)
          else if sint (st_wrongAttempts s) > 0 then
            (cell\<lparr>cell_Status := CellAttempted, cell_Attempts := st_wrongAttempts s\<rparr>, 0, 0)
          else (cell, 0, 0))"

definition buildBoardFromSubmissions ::
  "contest_record \<Rightarrow> ScoreboardView \<Rightarrow> contest_problem list \<Rightarrow> contest_registration list
   \<Rightarrow> contest_submission_result list \<Rightarrow> time \<Rightarrow> scoreboard_response" where
  "buildBoardFromSubmissions contest view problems registrations submissions now =
     (let states = collect_states contest view (sort_by submission_order submissions) Map.empty
      in board contest view now problems (rankRows (map (\<lambda>row.
           fill_row (\<lambda>cell. submission_cell cell (states (row_UserID row, cell_ProblemID cell))) row)
           (rowsForRegistrations problems registrations))))"

subsection \<open>Views\<close>

definition defaultScoreboardView :: "time \<Rightarrow> contest_record \<Rightarrow> ScoreboardView \<Rightarrow> ScoreboardView" where
  "defaultScoreboardView now contest requested =
     (if requested \<noteq> [] then requested
      else if \<not> now < ct_EndAt contest then ScoreboardViewFinal
      else if \<not> now < ct_FreezeAt contest then ScoreboardViewFrozen
      else ScoreboardViewLive)"

definition canViewScoreboard :: "time \<Rightarrow> actor \<Rightarrow> contest_record \<Rightarrow> ScoreboardView \<Rightarrow> unit res" where
  "canViewScoreboard now a contest view =
     (if view = ScoreboardViewLive then
        (if now < ct_FreezeAt contest \<or> canViewContestResults a contest then Inr ()
         else fail (Forbidden ''contest.scoreboard_hidden'' ''live scoreboard is hidden after freeze time''))
      else if view = ScoreboardViewFrozen then
        (if now < ct_FreezeAt contest
         then fail (BadRequest ''invalid_argument'' ''frozen view is not available before freeze time'')
         else Inr ())
      else if view = ScoreboardViewFinal then
        (if now < ct_EndAt contest
         then fail (Forbidden ''contest.scoreboard_hidden'' ''final scoreboard is hidden before contest end'')
         else Inr ())
      else fail (BadRequest ''invalid_argument'' ''scoreboard view is invalid''))"

subsection \<open>Pages\<close>

abbreviation maxScoreboardPageSize :: int32 where "maxScoreboardPageSize \<equiv> 100"

definition normalizeScoreboardPageSize :: "int32 \<Rightarrow> int32 res" where
  "normalizeScoreboardPageSize sz =
     (if sint sz < 1 \<or> sint sz > sint maxScoreboardPageSize
      then fail (BadRequest ''invalid_argument'' ''scoreboard page_size must be between 1 and 100'')
      else Inr sz)"

definition validateScoreboardCursor :: "scoreboard_cursor \<Rightarrow> int64 \<Rightarrow> ScoreboardView \<Rightarrow> unit res" where
  "validateScoreboardCursor cursor contestID view =
     (if cu_ContestID cursor = 0 then Inr ()
      else if cu_ContestID cursor \<noteq> contestID \<or> cu_View cursor \<noteq> view
      then fail (BadRequest ''invalid_cursor'' ''scoreboard cursor does not belong to this contest view'')
      else if cu_SnapshotID cursor \<noteq> 0 \<and> sint (cu_AfterOrdinal cursor) < 0
      then fail (BadRequest ''invalid_cursor'' ''scoreboard cursor is invalid'')
      else Inr ())"

text \<open>
  The SQL of \<^verbatim>\<open>ListScoreboardRegistrations\<close>: the order of its \<^verbatim>\<open>ORDER BY\<close> and the condition that
  selects the rows after a cursor (\<^verbatim>\<open>COLLATE "C"\<close> compares bytes).
\<close>

definition registration_order :: "contest_registration \<Rightarrow> contest_registration \<Rightarrow> bool" where
  "registration_order a b =
     (if rg_AcceptedCount a \<noteq> rg_AcceptedCount b then sint (rg_AcceptedCount a) > sint (rg_AcceptedCount b)
      else if rg_PenaltyMinutes a \<noteq> rg_PenaltyMinutes b
      then sint (rg_PenaltyMinutes a) < sint (rg_PenaltyMinutes b)
      else if rg_DisplayName a \<noteq> rg_DisplayName b then rg_DisplayName a < rg_DisplayName b
      else rg_UserID a < rg_UserID b)"

definition after_cursor :: "scoreboard_rows_query \<Rightarrow> contest_registration \<Rightarrow> bool" where
  "after_cursor q r \<longleftrightarrow>
     \<not> sq_HasCursor q
     \<or> sint (rg_AcceptedCount r) < sint (sq_AfterAcceptedCount q)
     \<or> (rg_AcceptedCount r = sq_AfterAcceptedCount q
        \<and> (sint (rg_PenaltyMinutes r) > sint (sq_AfterPenalty q)
           \<or> (rg_PenaltyMinutes r = sq_AfterPenalty q
              \<and> (rg_DisplayName r > sq_AfterDisplayName q
                 \<or> (rg_DisplayName r = sq_AfterDisplayName q \<and> rg_UserID r > sq_AfterUserID q)))))"

definition ListScoreboardRegistrations ::
  "contest_registration list \<Rightarrow> int64 \<Rightarrow> scoreboard_rows_query \<Rightarrow> contest_registration list" where
  "ListScoreboardRegistrations registrations contestID q =
     take (nat (sint (sq_PageSize q)))
       (sort_by registration_order
         (filter (\<lambda>r. rg_ContestID r = contestID \<and> rg_Status r = RegistrationActive \<and> after_cursor q r)
           registrations))"

definition ListProblemResultsForUsers ::
  "contest_problem_result list \<Rightarrow> int64 \<Rightarrow> int64 list \<Rightarrow> contest_problem_result list" where
  "ListProblemResultsForUsers results contestID userIDs =
     filter (\<lambda>r. cpr_ContestID r = contestID \<and> cpr_UserID r \<in> set userIDs) results"

definition rows_query :: "int32 \<Rightarrow> scoreboard_cursor \<Rightarrow> scoreboard_rows_query" where
  "rows_query pageSize cursor =
     \<lparr>sq_PageSize = pageSize + 1, sq_HasCursor = (cu_ContestID cursor \<noteq> 0),
      sq_AfterAcceptedCount = cu_AfterAcceptedCount cursor, sq_AfterPenalty = cu_AfterPenalty cursor,
      sq_AfterDisplayName = cu_AfterDisplayName cursor, sq_AfterUserID = cu_AfterUserID cursor\<rparr>"

text \<open>
  A live page. The cursor inside a response is kept decoded; \<^verbatim>\<open>encodeScoreboardCursor\<close> only wraps it in
  JSON and base64.
\<close>

definition liveScoreboardPage ::
  "time \<Rightarrow> contest_problem list \<Rightarrow> contest_registration list \<Rightarrow> contest_problem_result list
   \<Rightarrow> contest_record \<Rightarrow> ScoreboardView \<Rightarrow> int32 \<Rightarrow> scoreboard_cursor \<Rightarrow> scoreboard_response" where
  "liveScoreboardPage now problems registrations results contest view pageSize cursor =
     (let fetched = ListScoreboardRegistrations registrations (ct_ID contest) (rows_query pageSize cursor);
          hasMore = int (length fetched) > sint pageSize;
          page = (if hasMore then take (nat (sint pageSize)) fetched else fetched);
          rows0 = rowsForScoreboardRegistrations problems page;
          rows1 = populateRowsWithResults
                    (ListProblemResultsForUsers results (ct_ID contest) (map row_UserID rows0)) rows0;
          rows = applyPageRanks rows1 cursor;
          response = board contest view now problems rows
      in if hasMore \<and> rows \<noteq> [] then
           response\<lparr>sr_NextCursor := Some
             \<lparr>cu_ContestID = ct_ID contest, cu_View = view, cu_SnapshotID = 0, cu_AfterOrdinal = 0,
              cu_AfterAcceptedCount = row_AcceptedCount (last rows),
              cu_AfterPenalty = row_PenaltyMinutes (last rows),
              cu_AfterDisplayName = row_DisplayName (last rows),
              cu_AfterUserID = rg_UserID (last page),
              cu_RowsSeen = cu_RowsSeen cursor + of_nat (length rows),
              cu_LastRank = row_Rank (last rows)\<rparr>\<rparr>
         else response)"

subsection \<open>The orders are strict weak orders\<close>

text \<open>Each \<^verbatim>\<open>less\<close> function of the code compares a key lexicographically.\<close>

definition score_key :: "scoreboard_row \<Rightarrow> int \<times> int" where
  "score_key r = (- sint (row_AcceptedCount r), sint (row_PenaltyMinutes r))"

definition row_key :: "scoreboard_row \<Rightarrow> (int \<times> int) \<times> string" where
  "row_key r = (score_key r, row_DisplayName r)"

definition registration_key :: "contest_registration \<Rightarrow> (int \<times> int) \<times> string \<times> int" where
  "registration_key r = ((- sint (rg_AcceptedCount r), sint (rg_PenaltyMinutes r)), rg_DisplayName r, rg_UserID r)"

lemma pair_less_iff: "((a :: 'a :: linorder), (b :: 'b :: linorder)) < (c, d) \<longleftrightarrow> a < c \<or> (a = c \<and> b < d)"
  by (auto simp: less_prod_def)

lemma pair_le_fst: "(x :: ('a :: linorder) \<times> ('b :: linorder)) \<le> y \<Longrightarrow> fst x \<le> fst y"
  by (auto simp: less_eq_prod_def)

lemma sint_eq_iff: "sint (a :: int32) = sint b \<longleftrightarrow> a = b"
  by (auto simp: signed_word_eqI)

lemmas key_simps = pair_less_iff sint_eq_iff

lemma row_less_key: "row_less a b \<longleftrightarrow> row_key a < row_key b"
  by (simp add: row_less_def row_key_def score_key_def key_simps del: less_prod_simp)

lemma submission_order_key:
  "submission_order a b \<longleftrightarrow> (cs_SubmittedAt a, cs_ID a) < (cs_SubmittedAt b, cs_ID b)"
  by (simp add: submission_order_def key_simps del: less_prod_simp)

lemma registration_order_key: "registration_order a b \<longleftrightarrow> registration_key a < registration_key b"
  by (simp add: registration_order_def registration_key_def key_simps del: less_prod_simp)

interpretation row_sort: strict_weak_order row_less
  by unfold_locales (auto simp: row_less_key)

interpretation submission_sort: strict_weak_order submission_order
  by unfold_locales (auto simp: submission_order_key)

interpretation registration_sort: strict_weak_order registration_order
  by unfold_locales (auto simp: registration_order_key)

lemma ordered_rows_sorted: "row_sort.ordered rows \<longleftrightarrow> sorted (map row_key rows)"
  by (simp add: row_sort.ordered_def row_less_key sorted_map not_less)

lemma ordered_registrations_sorted: "registration_sort.ordered rs \<longleftrightarrow> sorted (map registration_key rs)"
  by (simp add: registration_sort.ordered_def registration_order_key sorted_map not_less)

lemma sorted_score_of_row_key: "sorted (map row_key rows) \<Longrightarrow> sorted (map score_key rows)"
proof (unfold sorted_map, erule sorted_wrt_mono_rel [rotated])
  show "\<And>x y. row_key x \<le> row_key y \<Longrightarrow> score_key x \<le> score_key y"
    by (drule pair_le_fst) (simp add: row_key_def)
qed

lemma sort_rows_by_score: "sorted (map score_key (sort_by row_less rows))"
  using row_sort.ordered_sort_by by (auto simp: ordered_rows_sorted intro: sorted_score_of_row_key)

subsection \<open>Competition ranks\<close>

text \<open>
  The rank of a row among others is one more than the number of rows with a strictly better score:
  rows with equal score share a rank and the next rank is skipped accordingly.
\<close>

definition competition_rank :: "scoreboard_row list \<Rightarrow> scoreboard_row \<Rightarrow> int32" where
  "competition_rank rows r = of_nat (1 + length (filter (\<lambda>s. score_key s < score_key r) rows))"

lemma score_key_eq:
  "score_key r = score_key p \<longleftrightarrow>
     row_AcceptedCount r = row_AcceptedCount p \<and> row_PenaltyMinutes r = row_PenaltyMinutes p"
  by (simp add: score_key_def sint_eq_iff)

lemma score_key_rank [simp]: "score_key (r\<lparr>row_Rank := k\<rparr>) = score_key r"
  by (simp add: score_key_def)

lemma competition_rank_cong:
  "score_key r = score_key p \<Longrightarrow> competition_rank rows r = competition_rank rows p"
  by (simp add: competition_rank_def)

lemma competition_rank_first:
  assumes "sorted (map score_key (xs @ r # ys))" and "xs \<noteq> [] \<Longrightarrow> score_key (last xs) \<noteq> score_key r"
  shows "competition_rank (xs @ r # ys) r = of_nat (length xs) + 1"
proof -
  have "score_key x < score_key r" if "x \<in> set xs" for x
  proof -
    have le: "score_key x \<le> score_key (last xs)" if "x \<in> set xs" for x
      using assms(1) that by (cases xs rule: rev_cases) (auto simp: sorted_append)
    from that have "score_key (last xs) < score_key r"
      using assms by (cases xs rule: rev_cases) (auto simp: sorted_append order.strict_iff_order)
    with le [OF that] show ?thesis by simp
  qed
  then have "filter (\<lambda>s. score_key s < score_key r) xs = xs" by simp
  moreover have "filter (\<lambda>s. score_key s < score_key r) (r # ys) = []"
    using assms(1) by (auto simp: sorted_append filter_empty_conv not_less)
  ultimately show ?thesis by (simp add: competition_rank_def)
qed

text \<open>A cursor describes the rows already shown: their number and the last row's score and rank.\<close>

definition cursor_after :: "scoreboard_row list \<Rightarrow> scoreboard_row list \<Rightarrow> scoreboard_cursor \<Rightarrow> bool" where
  "cursor_after seen rows cursor \<longleftrightarrow>
     cu_RowsSeen cursor = of_nat (length seen)
     \<and> (cu_ContestID cursor = 0 \<longleftrightarrow> seen = [])
     \<and> (seen \<noteq> [] \<longrightarrow>
          cu_AfterAcceptedCount cursor = row_AcceptedCount (last seen)
          \<and> cu_AfterPenalty cursor = row_PenaltyMinutes (last seen)
          \<and> cu_LastRank cursor = competition_rank (seen @ rows) (last seen))"

lemma page_ranks_from_correct:
  assumes "sorted (map score_key (seen @ ds @ rs))"
    and "cursor_after seen (ds @ rs) cursor"
    and "case previous of None \<Rightarrow> ds = []
         | Some p \<Rightarrow> ds \<noteq> [] \<and> score_key p = score_key (last ds)
                    \<and> row_Rank p = competition_rank (seen @ ds @ rs) (last ds)"
  shows "page_ranks_from cursor (length ds) previous rs
         = map (\<lambda>r. r\<lparr>row_Rank := competition_rank (seen @ ds @ rs) r\<rparr>) rs"
  using assms
proof (induction rs arbitrary: ds previous)
  case Nil
  then show ?case by simp
next
  case (Cons r rs)
  let ?all = "seen @ ds @ r # rs"
  let ?r' = "r\<lparr>row_Rank := competition_rank ?all r\<rparr>"
  have first: "competition_rank ?all r = of_nat (length seen) + of_nat (length ds) + 1"
    if neq: "seen @ ds \<noteq> [] \<Longrightarrow> score_key (last (seen @ ds)) \<noteq> score_key r"
  proof -
    have "competition_rank ((seen @ ds) @ r # rs) r = of_nat (length (seen @ ds)) + 1"
    proof (rule competition_rank_first)
      show "sorted (map score_key ((seen @ ds) @ r # rs))"
        using Cons.prems(1) by (simp only: append_assoc)
    qed (rule neq)
    then show ?thesis by simp
  qed
  have head: "page_ranks_from cursor (length ds) previous (r # rs)
      = ?r' # page_ranks_from cursor (Suc (length ds)) (Some ?r') rs"
  proof (cases "ds = []")
    case True
    with Cons.prems(3) have prev: "previous = None" by (auto split: option.splits)
    show ?thesis
    proof (cases "seen \<noteq> [] \<and> score_key r = score_key (last seen)")
      case same: True
      then have "competition_rank ?all r = cu_LastRank cursor"
        using Cons.prems(2) True competition_rank_cong [of r "last seen" ?all]
        by (simp add: cursor_after_def)
      with same Cons.prems(2) True prev show ?thesis
        by (simp add: Let_def cursor_after_def score_key_eq)
    next
      case diff: False
      have "competition_rank ?all r = of_nat (length seen) + of_nat (length ds) + 1"
        by (rule first) (use diff True in auto)
      then have rank: "competition_rank ?all r = cu_RowsSeen cursor + 1"
        using Cons.prems(2) True by (simp add: cursor_after_def)
      have "\<not> (cu_ContestID cursor \<noteq> 0 \<and> row_AcceptedCount r = cu_AfterAcceptedCount cursor
              \<and> row_PenaltyMinutes r = cu_AfterPenalty cursor)"
        using diff Cons.prems(2) by (auto simp: cursor_after_def score_key_eq)
      with rank True prev show ?thesis by (auto simp: Let_def)
    qed
  next
    case False
    with Cons.prems(3) obtain p where p: "previous = Some p" "score_key p = score_key (last ds)"
      "row_Rank p = competition_rank ?all (last ds)"
      by (auto split: option.splits)
    show ?thesis
    proof (cases "score_key r = score_key p")
      case same: True
      then have "competition_rank ?all r = row_Rank p"
        using p competition_rank_cong [of r "last ds" ?all] by simp
      with same False p show ?thesis by (simp add: Let_def score_key_eq)
    next
      case diff: False
      have "competition_rank ?all r = of_nat (length seen) + of_nat (length ds) + 1"
        by (rule first) (use diff False p in simp)
      with diff False p Cons.prems(2) show ?thesis
        by (auto simp: Let_def cursor_after_def score_key_eq)
    qed
  qed
  have "page_ranks_from cursor (length (ds @ [r])) (Some ?r') rs
      = map (\<lambda>s. s\<lparr>row_Rank := competition_rank (seen @ (ds @ [r]) @ rs) s\<rparr>) rs"
  proof (rule Cons.IH)
    show "sorted (map score_key (seen @ (ds @ [r]) @ rs))"
      using Cons.prems(1) by (simp only: append_assoc append_Cons append_Nil)
    show "cursor_after seen ((ds @ [r]) @ rs) cursor"
      using Cons.prems(2) by (simp only: append_assoc append_Cons append_Nil)
  qed simp
  with head show ?case by simp
qed

lemma assign_ranks_page: "assign_ranks i previous rs = page_ranks_from empty_cursor i previous rs"
  by (induction rs arbitrary: i previous)
    (auto simp: empty_cursor_def Let_def add.commute split: option.splits)

lemma rankRows_eq:
  "rankRows rows = map (\<lambda>r. r\<lparr>row_Rank := competition_rank rows r\<rparr>) (sort_by row_less rows)"
proof -
  have rank: "competition_rank (sort_by row_less rows) = competition_rank rows"
    unfolding competition_rank_def by (rule ext) (metis filter_length_mset mset_sort_by)
  have "rankRows rows = page_ranks_from empty_cursor (length ([] :: scoreboard_row list)) None (sort_by row_less rows)"
    by (simp add: rankRows_def assign_ranks_page)
  also have "\<dots> = map (\<lambda>r. r\<lparr>row_Rank := competition_rank ([] @ [] @ sort_by row_less rows) r\<rparr>)
                  (sort_by row_less rows)"
    by (rule page_ranks_from_correct)
      (auto simp: sort_rows_by_score cursor_after_def empty_cursor_def)
  finally show ?thesis by (simp add: rank)
qed

text \<open>
  C14: ranking a board keeps exactly its rows, in the order accepted count, penalty, display name
  (stable on ties), and changes nothing but the rank field, which becomes the competition rank: one
  plus the number of rows with a strictly better score, so equal scores share a rank.
\<close>

theorem rankRows_competition:
  "rankRows rows = map (\<lambda>r. r\<lparr>row_Rank := competition_rank rows r\<rparr>) (sort_by row_less rows)
   \<and> mset (map row_UserID (rankRows rows)) = mset (map row_UserID rows)
   \<and> sorted_wrt (\<lambda>a b. \<not> row_less b a) (rankRows rows)"
proof -
  have key: "row_key (r\<lparr>row_Rank := k\<rparr>) = row_key r" for r k
    by (simp add: row_key_def)
  have "sorted_wrt (\<lambda>a b. \<not> row_less b a) (sort_by row_less rows)"
    using row_sort.ordered_sort_by by (simp add: row_sort.ordered_def)
  then have "sorted_wrt (\<lambda>a b. \<not> row_less b a) (rankRows rows)"
    by (simp add: rankRows_eq sorted_wrt_map row_less_key key)
  moreover have "mset (map row_UserID (rankRows rows)) = mset (map row_UserID rows)"
    by (simp add: rankRows_eq comp_def)
  ultimately show ?thesis by (simp add: rankRows_eq)
qed

end
