(* ===== verification/Scoreboard_Pages.thy ===== *)
theory Scoreboard_Pages
  imports Scoreboard
begin

section \<open>Paging through the live scoreboard\<close>

text \<open>
  The page query, the cursor it starts from and the ranks a page assigns, against the whole standing
  of the contest: each page is a slice of it, and following the cursors shows all of it.
\<close>

subsection \<open>The whole standing and cursors into it\<close>

text \<open>
  The standing of a contest is the list of its active registrations in the order of the page query,
  each with its cells filled from the projected results. A cursor is at position \<open>k\<close> when it
  describes the first \<open>k\<close> rows of it.
\<close>

definition standing :: "contest_registration list \<Rightarrow> int64 \<Rightarrow> contest_registration list" where
  "standing registrations contestID =
     sort_by registration_order
       (filter (\<lambda>r. rg_ContestID r = contestID \<and> rg_Status r = RegistrationActive) registrations)"

definition standing_rows ::
  "contest_problem list \<Rightarrow> contest_registration list \<Rightarrow> contest_problem_result list \<Rightarrow> int64 \<Rightarrow> scoreboard_row list" where
  "standing_rows problems registrations results contestID =
     populateRowsWithResults (filter (\<lambda>r. cpr_ContestID r = contestID) results)
       (rowsForScoreboardRegistrations problems (standing registrations contestID))"

definition ranked :: "scoreboard_row list \<Rightarrow> scoreboard_row list" where
  "ranked rows = map (\<lambda>r. r\<lparr>row_Rank := competition_rank rows r\<rparr>) rows"

definition cursor_at :: "scoreboard_row list \<Rightarrow> int64 \<Rightarrow> nat \<Rightarrow> scoreboard_cursor \<Rightarrow> bool" where
  "cursor_at rows contestID k c \<longleftrightarrow>
     k \<le> length rows \<and> cu_RowsSeen c = of_nat k
     \<and> (if k = 0 then cu_ContestID c = 0
        else cu_ContestID c = contestID
           \<and> cu_AfterAcceptedCount c = row_AcceptedCount (rows ! (k - 1))
           \<and> cu_AfterPenalty c = row_PenaltyMinutes (rows ! (k - 1))
           \<and> cu_AfterDisplayName c = row_DisplayName (rows ! (k - 1))
           \<and> cu_AfterUserID c = row_UserID (rows ! (k - 1))
           \<and> cu_LastRank c = competition_rank rows (rows ! (k - 1)))"

text \<open>The primary key of \<^verbatim>\<open>contest_registrations\<close>: one registration per contest and user.\<close>

definition registrations_keyed :: "contest_registration list \<Rightarrow> bool" where
  "registrations_keyed registrations = distinct (map (\<lambda>r. (rg_ContestID r, rg_UserID r)) registrations)"

definition page_size_ok :: "int32 \<Rightarrow> bool" where
  "page_size_ok n \<longleftrightarrow> 1 \<le> sint n \<and> sint n \<le> 100"

lemma normalizeScoreboardPageSize_ok:
  "normalizeScoreboardPageSize n = Inr m \<longleftrightarrow> m = n \<and> page_size_ok n"
  by (auto simp: normalizeScoreboardPageSize_def page_size_ok_def)

lemma page_size_succ: "page_size_ok n \<Longrightarrow> nat (sint (n + 1)) = Suc (nat (sint n))"
  by (auto simp: page_size_ok_def sint_word_ariths signed_take_bit_int_eq_self_iff
      nat_add_distrib signed_take_bit_int_eq_self)

lemma take_nth_last: "0 < k \<Longrightarrow> k \<le> length xs \<Longrightarrow> xs ! (k - Suc 0) = last (take k xs)"
  by (subst last_conv_nth) (auto simp: min_absorb2)

lemma filter_after_nth:
  assumes "sorted_wrt (\<lambda>a b. f a < (f b :: 'b :: linorder)) xs" and "0 < k" and "k \<le> length xs"
  shows "filter (\<lambda>x. f (xs ! (k - 1)) < f x) xs = drop k xs"
proof -
  have less: "f (xs ! i) < f (xs ! j)" if "i < j" "j < length xs" for i j
    using assms(1) that by (simp add: sorted_wrt_iff_nth_less)
  have le: "f (xs ! i) \<le> f (xs ! j)" if "i \<le> j" "j < length xs" for i j
    using less [of i j] that by (cases "i = j") auto
  have "filter (\<lambda>x. f (xs ! (k - 1)) < f x) (take k xs) = []"
    unfolding filter_empty_conv
  proof
    fix x assume "x \<in> set (take k xs)"
    then obtain i where "i < k" "x = xs ! i" by (auto simp: in_set_conv_nth)
    then have "f x \<le> f (xs ! (k - 1))" using assms(2,3) by (auto intro!: le)
    then show "\<not> f (xs ! (k - 1)) < f x" by simp
  qed
  moreover have "filter (\<lambda>x. f (xs ! (k - 1)) < f x) (drop k xs) = drop k xs"
    using assms less [of "k - 1"] by (auto simp: filter_id_conv in_set_conv_nth)
  ultimately show ?thesis
    by (metis append_take_drop_id append_Nil filter_append)
qed

lemma standing_distinct_users:
  "registrations_keyed registrations \<Longrightarrow> distinct (map rg_UserID (standing registrations contestID))"
proof (simp add: standing_def registrations_keyed_def, induction registrations)
  case (Cons r rs)
  then show ?case by (auto simp: image_iff)
qed simp

lemma standing_strictly_sorted:
  assumes "registrations_keyed registrations"
  shows "sorted_wrt (\<lambda>a b. registration_key a < registration_key b) (standing registrations contestID)"
proof -
  let ?xs = "standing registrations contestID"
  have "sorted (map registration_key ?xs)"
    using registration_sort.ordered_sort_by by (simp add: standing_def ordered_registrations_sorted)
  moreover have "distinct (map registration_key ?xs)"
    using standing_distinct_users [OF assms]
    by (auto simp: distinct_map registration_key_def inj_on_def)
  ultimately show ?thesis
    by (metis sorted_wrt_map strict_sorted_iff)
qed

lemma after_cursor_key:
  "sq_HasCursor q \<Longrightarrow> after_cursor q r \<longleftrightarrow>
     ((- sint (sq_AfterAcceptedCount q), sint (sq_AfterPenalty q)), sq_AfterDisplayName q, sq_AfterUserID q)
       < registration_key r"
  by (auto simp: after_cursor_def registration_key_def key_simps simp del: less_prod_simp)

subsection \<open>What a row keeps of its registration\<close>

lemma length_rowsFor [simp]: "length (rowsForScoreboardRegistrations ps rs) = length rs"
  by (simp add: rowsForScoreboardRegistrations_def)

lemma length_populate [simp]: "length (populateRowsWithResults res rows) = length rows"
  by (simp add: populateRowsWithResults_def)

lemma length_standing_rows [simp]: "length (standing_rows ps rs res cid) = length (standing rs cid)"
  by (simp add: standing_rows_def)

definition same_registration :: "contest_registration \<Rightarrow> scoreboard_row \<Rightarrow> bool" where
  "same_registration g r \<longleftrightarrow> row_UserID r = rg_UserID g \<and> row_DisplayName r = rg_DisplayName g
     \<and> row_AcceptedCount r = rg_AcceptedCount g \<and> row_PenaltyMinutes r = rg_PenaltyMinutes g"

lemma standing_rows_nth:
  "i < length (standing rs cid) \<Longrightarrow> same_registration (standing rs cid ! i) (standing_rows ps rs res cid ! i)"
  by (simp add: same_registration_def standing_rows_def populateRowsWithResults_def
      rowsForScoreboardRegistrations_def)

lemma standing_rows_sorted: "sorted (map score_key (standing_rows ps rs res cid))"
proof -
  have eq: "map score_key (standing_rows ps rs res cid) = map (fst \<circ> registration_key) (standing rs cid)"
    by (simp add: standing_rows_def populateRowsWithResults_def rowsForScoreboardRegistrations_def
        score_key_def registration_key_def)
  have "sorted (map registration_key (standing rs cid))"
    using registration_sort.ordered_sort_by by (simp add: standing_def ordered_registrations_sorted)
  then show ?thesis
    unfolding eq sorted_map comp_def by (rule sorted_wrt_mono_rel [rotated]) (rule pair_le_fst)
qed

lemma find_filter: "List.find P (filter Q xs) = List.find (\<lambda>x. P x \<and> Q x) xs"
  by (induction xs) auto

text \<open>The results query of a page fetches the results of its own users only, which is all a row uses.\<close>

lemma result_for_page:
  "u \<in> set us \<Longrightarrow>
   result_for (ListProblemResultsForUsers results cid us) u p
   = result_for (filter (\<lambda>r. cpr_ContestID r = cid) results) u p"
  by (auto simp: result_for_def ListProblemResultsForUsers_def rev_filter find_filter intro!: find_cong)

lemma populate_page:
  assumes "set us = row_UserID ` set rows"
  shows "populateRowsWithResults (ListProblemResultsForUsers results cid us) rows
         = populateRowsWithResults (filter (\<lambda>r. cpr_ContestID r = cid) results) rows"
  using assms by (auto simp: populateRowsWithResults_def result_for_page)

lemma ListScoreboardRegistrations_standing:
  "ListScoreboardRegistrations registrations cid q
   = take (nat (sint (sq_PageSize q))) (filter (after_cursor q) (standing registrations cid))"
proof -
  have "filter (\<lambda>r. rg_ContestID r = cid \<and> rg_Status r = RegistrationActive \<and> after_cursor q r) registrations
      = filter (after_cursor q) (filter (\<lambda>r. rg_ContestID r = cid \<and> rg_Status r = RegistrationActive) registrations)"
    by (auto intro: filter_cong)
  then show ?thesis
    unfolding ListScoreboardRegistrations_def standing_def registration_sort.sort_by_filter [symmetric] by simp
qed

lemma after_cursor_standing:
  assumes "registrations_keyed registrations" and "cid \<noteq> 0"
    and "cursor_at (standing_rows ps registrations res cid) cid k c"
  shows "filter (after_cursor (rows_query n c)) (standing registrations cid) = drop k (standing registrations cid)"
proof (cases "k = 0")
  case True
  with assms(3) show ?thesis
    by (auto simp: cursor_at_def rows_query_def after_cursor_def filter_id_conv)
next
  case False
  let ?st = "standing registrations cid"
  let ?g = "?st ! (k - 1)"
  from assms(3) have k: "k \<le> length ?st" by (simp add: cursor_at_def)
  with False have "same_registration ?g (standing_rows ps registrations res cid ! (k - 1))"
    by (intro standing_rows_nth) auto
  with assms(2,3) False have "after_cursor (rows_query n c) r \<longleftrightarrow> registration_key ?g < registration_key r" for r
    by (subst after_cursor_key)
      (auto simp: cursor_at_def rows_query_def same_registration_def registration_key_def)
  then have "filter (after_cursor (rows_query n c)) ?st
      = filter (\<lambda>r. registration_key ?g < registration_key r) ?st"
    by (intro filter_cong) auto
  also have "\<dots> = drop k ?st"
    by (rule filter_after_nth) (use standing_strictly_sorted [OF assms(1)] False k in auto)
  finally show ?thesis .
qed

lemma page_registrations:
  assumes "registrations_keyed registrations" and "cid \<noteq> 0" and "page_size_ok n"
    and "cursor_at (standing_rows ps registrations res cid) cid k c"
  shows "ListScoreboardRegistrations registrations cid (rows_query n c)
         = take (Suc (nat (sint n))) (drop k (standing registrations cid))"
  unfolding ListScoreboardRegistrations_standing after_cursor_standing [OF assms(1,2,4)]
  using page_size_succ [OF assms(3)] by (simp add: rows_query_def)

lemma rows_of_page:
  "populateRowsWithResults res (rowsForScoreboardRegistrations ps (take m (drop k (standing regs cid))))
   = take m (drop k (populateRowsWithResults res (rowsForScoreboardRegistrations ps (standing regs cid))))"
  by (simp add: populateRowsWithResults_def rowsForScoreboardRegistrations_def take_map drop_map)

lemma page_ranks:
  assumes "sorted (map score_key rows)" and "cursor_at rows cid k c" and "cid \<noteq> 0"
  shows "applyPageRanks (take m (drop k rows)) c = take m (drop k (ranked rows))"
proof -
  have "page_ranks_from c (length ([] :: scoreboard_row list)) None (drop k rows)
      = map (\<lambda>r. r\<lparr>row_Rank := competition_rank (take k rows @ [] @ drop k rows) r\<rparr>) (drop k rows)"
  proof (rule page_ranks_from_correct)
    show "cursor_after (take k rows) ([] @ drop k rows) c"
      using assms(2,3) by (auto simp: cursor_after_def cursor_at_def take_nth_last min_absorb2 split: if_splits)
  qed (use assms(1) in auto)
  moreover have "take m (page_ranks_from c i p xs) = page_ranks_from c i p (take m xs)" for i p xs
    by (induction xs arbitrary: i p m) (auto simp: take_Cons' Let_def split: option.splits)
  ultimately show ?thesis
    by (simp add: applyPageRanks_def ranked_def drop_map take_map) (metis take_map)
qed

subsection \<open>One page, and the walk over all pages\<close>

text \<open>The page after position \<open>k\<close>, in terms of the whole standing.\<close>

lemma liveScoreboardPage_rows:
  assumes "registrations_keyed regs" and "ct_ID contest \<noteq> 0" and "page_size_ok n"
    and "cursor_at (standing_rows ps regs res (ct_ID contest)) (ct_ID contest) k c"
  shows "sr_Rows (liveScoreboardPage now ps regs res contest view n c)
         = take (nat (sint n)) (drop k (ranked (standing_rows ps regs res (ct_ID contest))))"
proof -
  let ?st = "standing regs (ct_ID contest)"
  let ?fetched = "take (Suc (nat (sint n))) (drop k ?st)"
  let ?page = "if int (length ?fetched) > sint n then take (nat (sint n)) ?fetched else ?fetched"
  have n: "0 \<le> sint n" using assms(3) by (simp add: page_size_ok_def)
  have page: "?page = take (nat (sint n)) (drop k ?st)"
    using n by (auto simp: min_def)
  have "sr_Rows (liveScoreboardPage now ps regs res contest view n c)
      = applyPageRanks (populateRowsWithResults
          (ListProblemResultsForUsers res (ct_ID contest) (map row_UserID (rowsForScoreboardRegistrations ps ?page)))
          (rowsForScoreboardRegistrations ps ?page)) c"
    by (simp add: liveScoreboardPage_def Let_def page_registrations [OF assms] board_def)
  also have "\<dots> = applyPageRanks (take (nat (sint n)) (drop k (standing_rows ps regs res (ct_ID contest)))) c"
    unfolding page by (subst populate_page) (simp_all add: rows_of_page standing_rows_def)
  also have "\<dots> = take (nat (sint n)) (drop k (ranked (standing_rows ps regs res (ct_ID contest))))"
    by (rule page_ranks [OF standing_rows_sorted assms(4,2)])
  finally show ?thesis .
qed

lemma length_ranked [simp]: "length (ranked rows) = length rows"
  by (simp add: ranked_def)

lemma ranked_nth: "i < length rows \<Longrightarrow> ranked rows ! i = (rows ! i)\<lparr>row_Rank := competition_rank rows (rows ! i)\<rparr>"
  by (simp add: ranked_def)

lemma last_take_drop: "0 < m \<Longrightarrow> k + m \<le> length xs \<Longrightarrow> last (take m (drop k xs)) = xs ! (k + m - 1)"
  by (subst last_conv_nth) (auto simp: min_absorb2)

lemma liveScoreboardPage_NextCursor:
  assumes "fetched = ListScoreboardRegistrations regs (ct_ID contest) (rows_query n c)"
    and "rows = sr_Rows (liveScoreboardPage now ps regs res contest view n c)"
  shows "sr_NextCursor (liveScoreboardPage now ps regs res contest view n c) =
    (if int (length fetched) > sint n \<and> rows \<noteq> [] then Some
             \<lparr>cu_ContestID = ct_ID contest, cu_View = view, cu_SnapshotID = 0, cu_AfterOrdinal = 0,
              cu_AfterAcceptedCount = row_AcceptedCount (last rows),
              cu_AfterPenalty = row_PenaltyMinutes (last rows),
              cu_AfterDisplayName = row_DisplayName (last rows),
              cu_AfterUserID = rg_UserID (last (take (nat (sint n)) fetched)),
              cu_RowsSeen = cu_RowsSeen c + of_nat (length rows),
              cu_LastRank = row_Rank (last rows)\<rparr> else None)"
  unfolding assms liveScoreboardPage_def Let_def board_def by simp

lemma liveScoreboardPage_next:
  assumes "registrations_keyed regs" and "ct_ID contest \<noteq> 0" and "page_size_ok n"
    and "cursor_at (standing_rows ps regs res (ct_ID contest)) (ct_ID contest) k c"
  defines "rows \<equiv> standing_rows ps regs res (ct_ID contest)"
  shows "case sr_NextCursor (liveScoreboardPage now ps regs res contest view n c) of
           None \<Rightarrow> length rows \<le> k + nat (sint n)
         | Some c' \<Rightarrow> k + nat (sint n) < length rows \<and> cursor_at rows (ct_ID contest) (k + nat (sint n)) c'
                       \<and> cu_View c' = view \<and> cu_SnapshotID c' = 0"
proof -
  let ?st = "standing regs (ct_ID contest)"
  let ?page = "liveScoreboardPage now ps regs res contest view n c"
  let ?m = "nat (sint n)"
  have n: "0 < ?m" "int ?m = sint n" using assms(3) by (auto simp: page_size_ok_def)
  have rows: "sr_Rows ?page = take ?m (drop k (ranked rows))"
    unfolding rows_def by (rule liveScoreboardPage_rows [OF assms(1-4)])
  have len: "length rows = length ?st" by (simp add: rows_def)
  show ?thesis
  proof (cases "k + ?m < length rows")
    case False
    then have "length ?st \<le> k + ?m" using len by simp
    then have "sr_NextCursor ?page = None"
      unfolding liveScoreboardPage_NextCursor [OF page_registrations [OF assms(1-4), symmetric] refl]
      using n by (intro if_not_P) auto
    with False show ?thesis by simp
  next
    case True
    let ?i = "k + ?m - 1"
    have i: "?i < length rows" using True n by simp
    have last_row: "last (sr_Rows ?page) = (rows ! ?i)\<lparr>row_Rank := competition_rank rows (rows ! ?i)\<rparr>"
      unfolding rows using True n i by (simp add: last_take_drop ranked_nth)
    have len_rows: "length (sr_Rows ?page) = ?m" unfolding rows using True by simp
    have user: "rg_UserID (?st ! ?i) = row_UserID (rows ! ?i)"
      using standing_rows_nth [of ?i regs "ct_ID contest" ps res] i len
      by (simp add: same_registration_def rows_def)
    have last_page: "last (take ?m (take (Suc ?m) (drop k ?st))) = ?st ! ?i"
      using last_take_drop [of ?m k ?st] True n len by (simp add: min_def)
    have more: "int (length (take (Suc ?m) (drop k ?st))) > sint n" using True n len by simp
    have next_eq: "sr_NextCursor ?page = Some
             \<lparr>cu_ContestID = ct_ID contest, cu_View = view, cu_SnapshotID = 0, cu_AfterOrdinal = 0,
              cu_AfterAcceptedCount = row_AcceptedCount (last (sr_Rows ?page)),
              cu_AfterPenalty = row_PenaltyMinutes (last (sr_Rows ?page)),
              cu_AfterDisplayName = row_DisplayName (last (sr_Rows ?page)),
              cu_AfterUserID = rg_UserID (last (take ?m (take (Suc ?m) (drop k ?st)))),
              cu_RowsSeen = cu_RowsSeen c + of_nat (length (sr_Rows ?page)),
              cu_LastRank = row_Rank (last (sr_Rows ?page))\<rparr>"
      unfolding liveScoreboardPage_NextCursor [OF page_registrations [OF assms(1-4), symmetric] refl]
      using more len_rows n by (intro if_P) auto
    have seen: "cu_RowsSeen c = of_nat k" using assms(4) by (simp add: cursor_at_def)
    show ?thesis
      unfolding next_eq last_row last_page len_rows
      using True n by (simp add: cursor_at_def seen user [simplified])
  qed
qed

text \<open>
  C13: a live page. At a cursor for position \<open>k\<close> of the standing, the page holds exactly the next rows
  of the standing, each with its rank in the whole contest, and the next cursor is again a cursor of
  the standing (at the position after the page), absent exactly when no row is left.
\<close>

theorem liveScoreboardPage_correct:
  assumes "registrations_keyed regs" and "ct_ID contest \<noteq> 0" and "page_size_ok n"
    and "cursor_at (standing_rows ps regs res (ct_ID contest)) (ct_ID contest) k c"
  shows "sr_Rows (liveScoreboardPage now ps regs res contest view n c)
           = take (nat (sint n)) (drop k (ranked (standing_rows ps regs res (ct_ID contest))))
         \<and> (case sr_NextCursor (liveScoreboardPage now ps regs res contest view n c) of
               None \<Rightarrow> length (standing_rows ps regs res (ct_ID contest)) \<le> k + nat (sint n)
             | Some c' \<Rightarrow> k + nat (sint n) < length (standing_rows ps regs res (ct_ID contest))
                 \<and> cursor_at (standing_rows ps regs res (ct_ID contest)) (ct_ID contest) (k + nat (sint n)) c'
                 \<and> validateScoreboardCursor c' (ct_ID contest) view = Inr ())"
proof (cases "sr_NextCursor (liveScoreboardPage now ps regs res contest view n c)")
  case None
  then show ?thesis
    using liveScoreboardPage_rows [OF assms, where now = now and view = view] liveScoreboardPage_next [OF assms, where now = now and view = view]
    by (simp split: if_splits)
next
  case (Some c')
  then show ?thesis
    using liveScoreboardPage_rows [OF assms, where now = now and view = view] liveScoreboardPage_next [OF assms, where now = now and view = view]
    by (simp add: validateScoreboardCursor_def cursor_at_def split: if_splits)
qed

text \<open>A client that follows the next cursors, with a bound on the number of requests.\<close>

fun walk_pages ::
  "nat \<Rightarrow> (scoreboard_cursor \<Rightarrow> scoreboard_response) \<Rightarrow> scoreboard_cursor \<Rightarrow> scoreboard_row list option" where
  "walk_pages 0 page c = None"
| "walk_pages (Suc fuel) page c =
     (case sr_NextCursor (page c) of
        None \<Rightarrow> Some (sr_Rows (page c))
      | Some c' \<Rightarrow> map_option (\<lambda>rows. sr_Rows (page c) @ rows) (walk_pages fuel page c'))"

lemma walk_pages_from:
  assumes "registrations_keyed regs" and "ct_ID contest \<noteq> 0" and "page_size_ok n"
    and "cursor_at (standing_rows ps regs res (ct_ID contest)) (ct_ID contest) k c"
    and "length (standing_rows ps regs res (ct_ID contest)) < k + fuel"
  shows "walk_pages fuel (liveScoreboardPage now ps regs res contest view n) c
         = Some (drop k (ranked (standing_rows ps regs res (ct_ID contest))))"
  using assms(4,5)
proof (induction fuel arbitrary: k c)
  case 0
  then show ?case by (simp add: cursor_at_def)
next
  case (Suc fuel)
  let ?rows = "standing_rows ps regs res (ct_ID contest)"
  note page = liveScoreboardPage_rows [OF assms(1-3) Suc.prems(1), where now = now and view = view]
  note following = liveScoreboardPage_next [OF assms(1-3) Suc.prems(1), where now = now and view = view]
  have pos: "0 < nat (sint n)" using assms(3) by (simp add: page_size_ok_def)
  show ?case
  proof (cases "sr_NextCursor (liveScoreboardPage now ps regs res contest view n c)")
    case None
    with following have "length ?rows \<le> k + nat (sint n)" by simp
    then show ?thesis by (simp only: walk_pages.simps None page option.case) simp
  next
    case (Some c')
    with following have at: "cursor_at ?rows (ct_ID contest) (k + nat (sint n)) c'" by simp
    have "walk_pages fuel (liveScoreboardPage now ps regs res contest view n) c'
        = Some (drop (k + nat (sint n)) (ranked ?rows))"
      by (rule Suc.IH [OF at]) (use Suc.prems(2) pos in simp)
    then show ?thesis
      by (simp only: walk_pages.simps Some page option.case option.map)
        (metis add.commute append_take_drop_id drop_drop)
  qed
qed

text \<open>
  C12: following the next cursors from the start ends after at most one request per participant (plus
  one) and shows the whole standing: every active participant exactly once, with the contest-wide rank.
\<close>

theorem walk_pages_complete:
  assumes "registrations_keyed regs" and "ct_ID contest \<noteq> 0" and "page_size_ok n"
    and "length (standing regs (ct_ID contest)) < fuel"
  shows "walk_pages fuel (liveScoreboardPage now ps regs res contest view n) empty_cursor
           = Some (ranked (standing_rows ps regs res (ct_ID contest)))
         \<and> distinct (map row_UserID (ranked (standing_rows ps regs res (ct_ID contest))))
         \<and> set (map row_UserID (ranked (standing_rows ps regs res (ct_ID contest))))
             = {rg_UserID r | r. r \<in> set regs \<and> rg_ContestID r = ct_ID contest \<and> rg_Status r = RegistrationActive}"
proof -
  have users: "map row_UserID (ranked (standing_rows ps regs res (ct_ID contest)))
      = map rg_UserID (standing regs (ct_ID contest))"
    by (simp add: ranked_def standing_rows_def populateRowsWithResults_def rowsForScoreboardRegistrations_def)
  have "walk_pages fuel (liveScoreboardPage now ps regs res contest view n) empty_cursor
      = Some (drop 0 (ranked (standing_rows ps regs res (ct_ID contest))))"
    by (rule walk_pages_from [OF assms(1-3)]) (use assms(4) in \<open>auto simp: cursor_at_def empty_cursor_def\<close>)
  moreover have "distinct (map rg_UserID (standing regs (ct_ID contest)))"
    by (rule standing_distinct_users [OF assms(1)])
  ultimately show ?thesis unfolding users by (auto simp: standing_def)
qed

subsection \<open>A concrete walk\<close>

definition sample_registrations :: "contest_registration list" where
  "sample_registrations =
     [sample_registration 3 ''cy'' 0 0, sample_registration 2 ''bo'' 1 30, sample_registration 1 ''al'' 1 30]"

definition sample_cursor :: scoreboard_cursor where
  "sample_cursor = empty_cursor\<lparr>cu_ContestID := 7, cu_View := ScoreboardViewLive, cu_AfterAcceptedCount := 1,
     cu_AfterPenalty := 30, cu_AfterDisplayName := ''al'', cu_AfterUserID := 1, cu_RowsSeen := 1, cu_LastRank := 1\<rparr>"

lemma sample_registrations_keyed: "registrations_keyed sample_registrations"
  by code_simp

lemma sample_cursor_at:
  "cursor_at (standing_rows [sample_problem] sample_registrations [] (ct_ID sample_contest)) (ct_ID sample_contest) 1
     sample_cursor"
  by code_simp

theorem liveScoreboardPage_correct_witness:
  "registrations_keyed sample_registrations \<and> page_size_ok 1
   \<and> map row_UserID (sr_Rows (liveScoreboardPage 5 [sample_problem] sample_registrations [] sample_contest
        ScoreboardViewLive 1 sample_cursor)) = [2]
   \<and> map row_Rank (sr_Rows (liveScoreboardPage 5 [sample_problem] sample_registrations [] sample_contest
        ScoreboardViewLive 1 sample_cursor)) = [1]"
proof -
  have ok: "page_size_ok 1" "ct_ID sample_contest \<noteq> 0" by code_simp+
  have "sr_Rows (liveScoreboardPage 5 [sample_problem] sample_registrations [] sample_contest
          ScoreboardViewLive 1 sample_cursor)
      = take (nat (sint (1 :: int32)))
          (drop 1 (ranked (standing_rows [sample_problem] sample_registrations [] (ct_ID sample_contest))))"
    using liveScoreboardPage_correct [OF sample_registrations_keyed ok(2,1) sample_cursor_at,
        where now = 5 and view = ScoreboardViewLive] by (rule conjunct1)
  moreover have "map row_UserID (take (nat (sint (1 :: int32)))
          (drop 1 (ranked (standing_rows [sample_problem] sample_registrations [] (ct_ID sample_contest))))) = [2]"
    by code_simp
  moreover have "map row_Rank (take (nat (sint (1 :: int32)))
          (drop 1 (ranked (standing_rows [sample_problem] sample_registrations [] (ct_ID sample_contest))))) = [1]"
    by code_simp
  ultimately show ?thesis using ok sample_registrations_keyed by simp
qed

theorem walk_pages_complete_witness:
  "walk_pages 4 (liveScoreboardPage 5 [sample_problem] sample_registrations [] sample_contest
      ScoreboardViewLive 1) empty_cursor
     = Some (ranked (standing_rows [sample_problem] sample_registrations [] (ct_ID sample_contest)))
   \<and> map row_Rank (ranked (standing_rows [sample_problem] sample_registrations [] (ct_ID sample_contest))) = [1, 1, 3]"
proof -
  have ok: "page_size_ok 1" "ct_ID sample_contest \<noteq> 0" "length (standing sample_registrations (ct_ID sample_contest)) < 4"
    by code_simp+
  have "map row_Rank (ranked (standing_rows [sample_problem] sample_registrations [] (ct_ID sample_contest))) = [1, 1, 3]"
    by code_simp
  with walk_pages_complete [OF sample_registrations_keyed ok(2,1,3), where now = 5 and view = ScoreboardViewLive
      and ps = "[sample_problem]" and res = "[]"] show ?thesis by blast
qed

end
