(* ===== verification/Transactions.thy ===== *)
theory Transactions
  imports Apperror
begin

section \<open>Transactions (\<^verbatim>\<open>internal/postgres/tx.go\<close>)\<close>

text \<open>
  A transaction body is a function from the store to an error or a value and the new store; its error
  is the rollback. Transactions are atomic steps here: the row locks the code takes first make the
  database run conflicting ones one after the other. The store is a parameter, so that each group of
  tables (judging, problems, users) is a record of its own. The last two sections are the rules the
  repository proofs run on: views a transaction keeps and properties it preserves.
\<close>

subsection \<open>Bodies and how they compose\<close>

type_synonym ('s, 'a) transaction = "'s \<Rightarrow> go_error + ('a \<times> 's)"

definition return_tx :: "'a \<Rightarrow> ('s, 'a) transaction" where
  "return_tx x = (\<lambda>s. Inr (x, s))"

definition fail_tx :: "go_error \<Rightarrow> ('s, 'a) transaction" where
  "fail_tx e = (\<lambda>s. Inl e)"

definition bind_tx :: "('s, 'a) transaction \<Rightarrow> ('a \<Rightarrow> ('s, 'b) transaction) \<Rightarrow> ('s, 'b) transaction" where
  "bind_tx m f = (\<lambda>s. case m s of Inl e \<Rightarrow> Inl e | Inr (x, s') \<Rightarrow> f x s')"

text \<open>
  \<^verbatim>\<open>errors.Is(err, pgx.ErrNoRows)\<close>: the caller goes on with no row. A statement that returns no row
  has changed nothing.
\<close>

definition or_no_rows :: "('s, 'a) transaction \<Rightarrow> ('s, 'a option) transaction" where
  "or_no_rows m = (\<lambda>s. case m s of
     Inl e \<Rightarrow> (if e = ErrNoRows then Inr (None, s) else Inl e)
   | Inr (x, s') \<Rightarrow> Inr (Some x, s'))"

definition get_tx :: "('s \<Rightarrow> 'a) \<Rightarrow> ('s, 'a) transaction" where
  "get_tx f = (\<lambda>s. Inr (f s, s))"

definition when_tx :: "bool \<Rightarrow> ('s, unit) transaction \<Rightarrow> ('s, unit) transaction" where
  "when_tx b m = (if b then m else return_tx ())"

fun mapM_tx :: "('a \<Rightarrow> ('s, 'b) transaction) \<Rightarrow> 'a list \<Rightarrow> ('s, 'b list) transaction" where
  "mapM_tx f [] = return_tx []"
| "mapM_tx f (x # xs) = bind_tx (f x) (\<lambda>y. bind_tx (mapM_tx f xs) (\<lambda>ys. return_tx (y # ys)))"

definition WithTx :: "('s, 'a) transaction \<Rightarrow> 's \<Rightarrow> 'a res \<times> 's" where
  "WithTx m s = (case m s of Inl e \<Rightarrow> (Inl e, s) | Inr (x, s') \<Rightarrow> (Inr x, s'))"

definition map_err :: "(go_error \<Rightarrow> go_error) \<Rightarrow> ('s, 'a) transaction \<Rightarrow> ('s, 'a) transaction" where
  "map_err f m = (\<lambda>s. case m s of Inl e \<Rightarrow> Inl (f e) | Inr r \<Rightarrow> Inr r)"

subsection \<open>Statements on a table\<close>

definition select_row :: "('s \<Rightarrow> 'r list) \<Rightarrow> ('r \<Rightarrow> bool) \<Rightarrow> ('s, 'r) transaction" where
  "select_row tbl P = (\<lambda>s. case List.find P (tbl s) of None \<Rightarrow> Inl ErrNoRows | Some r \<Rightarrow> Inr (r, s))"

definition update_rows :: "('r \<Rightarrow> bool) \<Rightarrow> ('r \<Rightarrow> 'r) \<Rightarrow> 'r list \<Rightarrow> 'r list" where
  "update_rows P f rows = map (\<lambda>r. if P r then f r else r) rows"

text \<open>\<^verbatim>\<open>UPDATE ... WHERE ... RETURNING *\<close> read as \<^verbatim>\<open>:one\<close>: the first updated row, or no row.\<close>

definition update_row ::
  "('s \<Rightarrow> 'r list) \<Rightarrow> ('r list \<Rightarrow> 's \<Rightarrow> 's) \<Rightarrow> ('r \<Rightarrow> bool) \<Rightarrow> ('r \<Rightarrow> 'r) \<Rightarrow> ('s, 'r) transaction" where
  "update_row tbl put P f = (\<lambda>s.
     case List.find P (tbl s) of
       None \<Rightarrow> Inl ErrNoRows
     | Some r \<Rightarrow> Inr (f r, put (update_rows P f (tbl s)) s))"

text \<open>A violated constraint fails the statement; PostgreSQL's code for a duplicate key is 23505.\<close>

definition check_tx :: "bool \<Rightarrow> string \<Rightarrow> ('s, unit) transaction" where
  "check_tx ok nm = (if ok then return_tx () else fail_tx (ErrText (''violates constraint '' @ nm)))"

definition unique_tx :: "bool \<Rightarrow> string \<Rightarrow> ('s, unit) transaction" where
  "unique_tx ok nm = (if ok then return_tx () else fail_tx (ErrText (''23505 '' @ nm)))"

fun unique_violation :: "go_error \<Rightarrow> bool" where
  "unique_violation (ErrText t) \<longleftrightarrow> take 5 t = ''23505''"
| "unique_violation e \<longleftrightarrow> False"

subsection \<open>Reasoning about transactions\<close>

lemma bind_tx_Inr:
  "bind_tx m f s = Inr (y, s'') \<longleftrightarrow> (\<exists>x s'. m s = Inr (x, s') \<and> f x s' = Inr (y, s''))"
  by (auto simp: bind_tx_def split: sum.splits prod.splits)

lemma return_tx_Inr: "return_tx x s = Inr (y, s') \<longleftrightarrow> y = x \<and> s' = s"
  by (auto simp: return_tx_def)

lemma fail_tx_Inr: "fail_tx e s = Inr r \<longleftrightarrow> False"
  by (simp add: fail_tx_def)

lemma get_tx_Inr: "get_tx f s = Inr (y, s') \<longleftrightarrow> y = f s \<and> s' = s"
  by (auto simp: get_tx_def)

lemma check_tx_Inr: "check_tx ok nm s = Inr (u, s') \<longleftrightarrow> ok \<and> s' = s"
  by (auto simp: check_tx_def return_tx_def fail_tx_def)

lemma unique_tx_Inr: "unique_tx ok nm s = Inr (u, s') \<longleftrightarrow> ok \<and> s' = s"
  by (auto simp: unique_tx_def return_tx_def fail_tx_def)

lemma or_no_rows_Inr:
  "or_no_rows m s = Inr (r, s') \<longleftrightarrow>
     (case r of None \<Rightarrow> m s = Inl ErrNoRows \<and> s' = s | Some x \<Rightarrow> m s = Inr (x, s'))"
  by (auto simp: or_no_rows_def split: sum.splits prod.splits option.splits)

lemma select_row_Inr:
  "select_row tbl P s = Inr (r, s') \<longleftrightarrow> List.find P (tbl s) = Some r \<and> s' = s"
  by (auto simp: select_row_def split: option.splits)

lemma update_row_Inr:
  "update_row tbl put P f s = Inr (r', s') \<longleftrightarrow>
     (\<exists>r. List.find P (tbl s) = Some r \<and> r' = f r \<and> s' = put (update_rows P f (tbl s)) s)"
  by (auto simp: update_row_def split: option.splits)

lemma when_tx_Inr: "when_tx b m s = Inr (u, s') \<longleftrightarrow> (if b then m s = Inr (u, s') else s' = s)"
  by (auto simp: when_tx_def return_tx_def)

lemmas tx_simps = bind_tx_Inr return_tx_Inr fail_tx_Inr get_tx_Inr check_tx_Inr unique_tx_Inr or_no_rows_Inr select_row_Inr
  update_row_Inr when_tx_Inr

text \<open>A view of the store that a transaction leaves alone.\<close>

definition keeps :: "('s \<Rightarrow> 'v) \<Rightarrow> ('s, 'a) transaction \<Rightarrow> bool" where
  "keeps view m \<longleftrightarrow> (\<forall>s x s'. m s = Inr (x, s') \<longrightarrow> view s' = view s)"

named_theorems keeps_intros \<open>transactions and the views they keep\<close>

lemma keepsD: "keeps view m \<Longrightarrow> m s = Inr (x, s') \<Longrightarrow> view s' = view s"
  by (simp add: keeps_def)

lemma keeps_bind [keeps_intros]: "keeps view m \<Longrightarrow> (\<And>x. keeps view (f x)) \<Longrightarrow> keeps view (bind_tx m f)"
  unfolding keeps_def bind_tx_Inr by metis

lemma keeps_return [keeps_intros]: "keeps view (return_tx x)"
  by (simp add: keeps_def return_tx_Inr)

lemma keeps_fail [keeps_intros]: "keeps view (fail_tx e)"
  by (simp add: keeps_def fail_tx_Inr)

lemma keeps_get [keeps_intros]: "keeps view (get_tx f)"
  by (simp add: keeps_def get_tx_Inr)

lemma keeps_check [keeps_intros]: "keeps view (check_tx ok nm)"
  by (simp add: keeps_def check_tx_Inr)

lemma keeps_unique [keeps_intros]: "keeps view (unique_tx ok nm)"
  by (simp add: keeps_def unique_tx_Inr)

lemma keeps_select [keeps_intros]: "keeps view (select_row tbl P)"
  by (simp add: keeps_def select_row_Inr)

lemma keeps_or_no_rows [keeps_intros]: "keeps view m \<Longrightarrow> keeps view (or_no_rows m)"
  by (auto simp: keeps_def or_no_rows_Inr split: option.splits)

lemma keeps_map_err [keeps_intros]: "keeps view m \<Longrightarrow> keeps view (map_err f m)"
  by (auto simp: keeps_def map_err_def split: sum.splits)

lemma keeps_when [keeps_intros]: "(b \<Longrightarrow> keeps view m) \<Longrightarrow> keeps view (when_tx b m)"
  by (auto simp: keeps_def when_tx_Inr split: if_splits)

lemma keeps_mapM [keeps_intros]: "(\<And>x. keeps view (f x)) \<Longrightarrow> keeps view (mapM_tx f xs)"
  by (induction xs) (auto intro: keeps_intros)

lemma keeps_if [keeps_intros]: "(b \<Longrightarrow> keeps view m) \<Longrightarrow> (\<not> b \<Longrightarrow> keeps view n) \<Longrightarrow> keeps view (if b then m else n)"
  by simp

lemma keeps_option [keeps_intros]:
  "(v = None \<Longrightarrow> keeps view m) \<Longrightarrow> (\<And>x. v = Some x \<Longrightarrow> keeps view (f x)) \<Longrightarrow>
   keeps view (case v of None \<Rightarrow> m | Some x \<Rightarrow> f x)"
  by (cases v) auto

lemma keeps_update:
  "(\<And>rows s. view (put rows s) = view s) \<Longrightarrow> keeps view (\<lambda>s. update_row tbl put (P s) (f s) s)"
  by (auto simp: keeps_def update_row_Inr)

lemma update_rows_same: "(\<And>r. r \<in> set rows \<Longrightarrow> \<not> P r) \<Longrightarrow> update_rows P f rows = rows"
  by (auto simp: update_rows_def intro: map_idI)

lemma length_update_rows [simp]: "length (update_rows P f rows) = length rows"
  by (simp add: update_rows_def)

lemma map_update_rows:
  "(\<And>r. P r \<Longrightarrow> g (f r) = g r) \<Longrightarrow> map g (update_rows P f rows) = map g rows"
  by (auto simp: update_rows_def)

lemma set_update_rows: "set (update_rows P f rows) = {f r | r. r \<in> set rows \<and> P r} \<union> {r \<in> set rows. \<not> P r}"
  by (auto simp: update_rows_def)

lemma find_None_filter: "List.find P xs = None \<longleftrightarrow> (\<forall>x \<in> set xs. \<not> P x)"
  by (auto simp: find_None_iff)

subsection \<open>Transactions that preserve a property\<close>

definition preserves :: "('s \<Rightarrow> bool) \<Rightarrow> ('s, 'a) transaction \<Rightarrow> bool" where
  "preserves I m \<longleftrightarrow> (\<forall>s x s'. m s = Inr (x, s') \<longrightarrow> I s \<longrightarrow> I s')"

named_theorems preserves_intros \<open>transactions and the invariants they preserve\<close>

lemma preservesD: "preserves I m \<Longrightarrow> m s = Inr (x, s') \<Longrightarrow> I s \<Longrightarrow> I s'"
  by (simp add: preserves_def)

lemma preserves_bind [preserves_intros]:
  "preserves I m \<Longrightarrow> (\<And>x. preserves I (f x)) \<Longrightarrow> preserves I (bind_tx m f)"
  unfolding preserves_def bind_tx_Inr by metis

lemma preserves_return [preserves_intros]: "preserves I (return_tx x)"
  and preserves_fail [preserves_intros]: "preserves I (fail_tx e)"
  and preserves_get [preserves_intros]: "preserves I (get_tx g)"
  and preserves_check [preserves_intros]: "preserves I (check_tx ok nm)"
  and preserves_unique [preserves_intros]: "preserves I (unique_tx ok nm)"
  and preserves_select [preserves_intros]: "preserves I (select_row tbl P)"
  by (simp_all add: preserves_def tx_simps)

lemma preserves_or_no_rows [preserves_intros]: "preserves I m \<Longrightarrow> preserves I (or_no_rows m)"
  by (auto simp: preserves_def or_no_rows_Inr split: option.splits)

lemma preserves_when [preserves_intros]: "(b \<Longrightarrow> preserves I m) \<Longrightarrow> preserves I (when_tx b m)"
  by (auto simp: preserves_def when_tx_Inr split: if_splits)

lemma preserves_mapM [preserves_intros]: "(\<And>x. preserves I (f x)) \<Longrightarrow> preserves I (mapM_tx f xs)"
  by (induction xs) (auto intro: preserves_intros)

lemma preserves_if [preserves_intros]:
  "(b \<Longrightarrow> preserves I m) \<Longrightarrow> (\<not> b \<Longrightarrow> preserves I n) \<Longrightarrow> preserves I (if b then m else n)"
  by simp

lemma preserves_option [preserves_intros]:
  "(v = None \<Longrightarrow> preserves I m) \<Longrightarrow> (\<And>x. v = Some x \<Longrightarrow> preserves I (f x)) \<Longrightarrow>
   preserves I (case v of None \<Rightarrow> m | Some x \<Rightarrow> f x)"
  by (cases v) auto

lemma preserves_WithTx: "preserves I m \<Longrightarrow> I s \<Longrightarrow> I (snd (WithTx m s))"
  by (auto simp: preserves_def WithTx_def split: sum.splits prod.splits)

lemma WithTx_Inl: "WithTx m s = (Inl e, s') \<longleftrightarrow> m s = Inl e \<and> s' = s"
  by (auto simp: WithTx_def split: sum.splits prod.splits)

lemma WithTx_Inr: "WithTx m s = (Inr x, s') \<longleftrightarrow> m s = Inr (x, s')"
  by (auto simp: WithTx_def split: sum.splits prod.splits)

end
