(* ===== verification/Audit_Log.thy ===== *)
theory Audit_Log
  imports Transactions
begin

section \<open>The audit ledger (\<^verbatim>\<open>internal/audit/audit.go\<close>)\<close>

text \<open>
  Administrative actions append an event in the transaction of the change they describe. \<open>Insert\<close>
  takes the ledger of the store it runs in as a parameter, as the code takes an \<^verbatim>\<open>Execer\<close>.
\<close>

definition validActions :: "string list" where
  "validActions = [''user.role.granted'', ''user.role.revoked'', ''user.disabled'', ''user.enabled'', ''user.deleted'',
     ''language.enabled'', ''language.disabled'', ''problem.archived'', ''problem.restored'', ''contest.archived'',
     ''role.permissions.updated'']"

definition validObjectTypes :: "string list" where
  "validObjectTypes = [''user'', ''language'', ''problem'', ''contest'', ''role'']"

record audit_event =
  au_ActorUserID :: int64
  au_Action :: string
  au_ObjectType :: string
  au_ObjectID :: int64
  au_Reason :: string
  au_Metadata :: "(string \<times> string) list"

definition validate_audit_event :: "audit_event \<Rightarrow> unit res" where
  "validate_audit_event e =
     (if au_ActorUserID e < 0 then Inl (ErrText ''audit actor must not be negative'')
      else if au_Action e \<notin> set validActions then Inl (ErrText (''unknown audit action '' @ au_Action e))
      else if au_ObjectType e \<notin> set validObjectTypes then Inl (ErrText (''unknown audit object type '' @ au_ObjectType e))
      else if au_ObjectID e < 0 then Inl (ErrText ''audit object id must not be negative'')
      else if au_ObjectType e = ''role''
      then (if au_ObjectID e \<noteq> 0 then Inl (ErrText ''role audit object id must be zero'') else Inr ())
      else if au_ObjectID e = 0 then Inl (ErrText ''audit object id must be positive'')
      else Inr ())"

text \<open>A row of \<^verbatim>\<open>audit_events\<close>: an absent actor or object is \<^verbatim>\<open>NULL\<close>.\<close>

record audit_row =
  aw_ActorUserID :: "int64 option"
  aw_Action :: string
  aw_ObjectType :: string
  aw_ObjectID :: "int64 option"
  aw_Reason :: string
  aw_Metadata :: "(string \<times> string) list"

definition nullableActorID :: "int64 \<Rightarrow> int64 option" where
  "nullableActorID userID = (if userID \<le> 0 then None else Some userID)"

definition nullableObjectID :: "int64 \<Rightarrow> int64 option" where
  "nullableObjectID objectID = (if objectID \<le> 0 then None else Some objectID)"

definition audit_Insert ::
  "('s \<Rightarrow> audit_row list) \<Rightarrow> (audit_row list \<Rightarrow> 's \<Rightarrow> 's) \<Rightarrow> audit_event \<Rightarrow> ('s, unit) transaction" where
  "audit_Insert ledger put e = (\<lambda>s.
     case validate_audit_event e of
       Inl err \<Rightarrow> Inl err
     | Inr _ \<Rightarrow> Inr ((), put (ledger s @ [\<lparr>aw_ActorUserID = nullableActorID (au_ActorUserID e), aw_Action = au_Action e,
         aw_ObjectType = au_ObjectType e, aw_ObjectID = nullableObjectID (au_ObjectID e), aw_Reason = au_Reason e,
         aw_Metadata = au_Metadata e\<rparr>]) s))"

lemma audit_Insert_Inr:
  "audit_Insert ledger put e s = Inr (u, s') \<longleftrightarrow>
     validate_audit_event e = Inr () \<and> s' = put (ledger s @ [\<lparr>aw_ActorUserID = nullableActorID (au_ActorUserID e),
       aw_Action = au_Action e, aw_ObjectType = au_ObjectType e, aw_ObjectID = nullableObjectID (au_ObjectID e),
       aw_Reason = au_Reason e, aw_Metadata = au_Metadata e\<rparr>]) s"
  by (auto simp: audit_Insert_def split: sum.splits)

end
