(* ===== verification/Testcase_Archive.thy ===== *)
theory Testcase_Archive
  imports Apperror
begin

section \<open>Testcase archives (\<^verbatim>\<open>internal/problem/testcase_archive.go\<close>)\<close>

text \<open>
  The parser that decides what a valid testcase archive is. The uploader, the problem check, the judge
  agent and the in-process judge all go through it. What \<^verbatim>\<open>archive/zip\<close> and \<^verbatim>\<open>crypto/sha256\<close> make of the
  bytes is the input of the model: the members with their headers and the chunks that reading them
  returns, and the digest. Two things the code does not determine are parameters: \<open>lower\<close>, Unicode
  lower-casing (\<^verbatim>\<open>strings.ToLower\<close>), and \<open>iter\<close>, the order in which Go walks a map.
\<close>

subsection \<open>Data\<close>

type_synonym uint64 = "64 word"

record zip_file =
  zf_Name :: string
  zf_IsDir :: bool
  zf_UncompressedSize64 :: uint64
  zf_CompressedSize64 :: uint64
  zf_Open :: "(string list \<times> go_error option) res"

record archive_bytes =
  ab_SHA256 :: "string res"
  ab_Files :: "zip_file list res"

abbreviation codeZipInvalid :: string where "codeZipInvalid \<equiv> ''testcase.zip_invalid''"
abbreviation codeFileNameInvalid :: string where "codeFileNameInvalid \<equiv> ''testcase.file_name_invalid''"
abbreviation codeEntryEmpty :: string where "codeEntryEmpty \<equiv> ''testcase.entry_empty''"
abbreviation codeInputMissing :: string where "codeInputMissing \<equiv> ''testcase.input_missing''"
abbreviation codeOutputMissing :: string where "codeOutputMissing \<equiv> ''testcase.output_missing''"
abbreviation codeCaseDuplicate :: string where "codeCaseDuplicate \<equiv> ''testcase.case_duplicate''"
abbreviation codeArchiveEmpty :: string where "codeArchiveEmpty \<equiv> ''testcase.archive_empty''"
abbreviation codeFileCountExceeded :: string where "codeFileCountExceeded \<equiv> ''testcase.file_count_exceeded''"
abbreviation codeEntryTooLarge :: string where "codeEntryTooLarge \<equiv> ''testcase.entry_too_large''"
abbreviation codeTotalSizeExceeded :: string where "codeTotalSizeExceeded \<equiv> ''testcase.total_size_exceeded''"
abbreviation codeCompressionExceeded :: string where
  "codeCompressionExceeded \<equiv> ''testcase.compression_ratio_exceeded''"
abbreviation codeArchiveTooLarge :: string where "codeArchiveTooLarge \<equiv> ''testcase.archive_too_large''"
abbreviation codeArchiveCorrupted :: string where "codeArchiveCorrupted \<equiv> ''testcase.archive_corrupted''"
abbreviation codeFileIgnored :: string where "codeFileIgnored \<equiv> ''testcase.file_ignored''"
abbreviation codeCaseCountMismatch :: string where "codeCaseCountMismatch \<equiv> ''testcase.case_count_mismatch''"

abbreviation SeverityInfo :: string where "SeverityInfo \<equiv> ''info''"
abbreviation SeverityWarning :: string where "SeverityWarning \<equiv> ''warning''"
abbreviation SeverityError :: string where "SeverityError \<equiv> ''error''"

abbreviation MaxTestcaseArchiveBytes :: int64 where "MaxTestcaseArchiveBytes \<equiv> 134217728"

record finding =
  fi_Severity :: string
  fi_Code :: string
  fi_File :: string
  fi_Message :: string

record archive_case =
  ac_Key :: string
  ac_InputPath :: string
  ac_OutputPath :: string
  ac_InputSize :: int64
  ac_OutputSize :: int64

record problem_testcase =
  tc_ID :: int64
  tc_InputKey :: string
  tc_OutputKey :: string
  tc_TimeLimit :: duration
  tc_MemoryKB :: int64

record archive_options =
  ao_MaxBytes :: int64
  ao_MaxEntryBytes :: uint64
  ao_MaxTotalBytes :: uint64
  ao_MaxFiles :: int
  ao_MaxCompressionRatio :: uint64
  ao_ExpectedSHA256 :: string
  ao_KeepContents :: bool
  ao_TimeLimit :: duration
  ao_MemoryKB :: int64

definition zero_options :: archive_options where
  "zero_options =
     \<lparr>ao_MaxBytes = 0, ao_MaxEntryBytes = 0, ao_MaxTotalBytes = 0, ao_MaxFiles = 0, ao_MaxCompressionRatio = 0,
      ao_ExpectedSHA256 = [], ao_KeepContents = False, ao_TimeLimit = 0, ao_MemoryKB = 0\<rparr>"

definition withDefaults :: "archive_options \<Rightarrow> archive_options" where
  "withDefaults o1 = o1\<lparr>
     ao_MaxBytes := (if ao_MaxBytes o1 \<le> 0 then MaxTestcaseArchiveBytes else ao_MaxBytes o1),
     ao_MaxEntryBytes := (if ao_MaxEntryBytes o1 = 0 then 16777216 else ao_MaxEntryBytes o1),
     ao_MaxTotalBytes := (if ao_MaxTotalBytes o1 = 0 then 134217728 else ao_MaxTotalBytes o1),
     ao_MaxFiles := (if ao_MaxFiles o1 = 0 then 2048 else ao_MaxFiles o1),
     ao_MaxCompressionRatio := (if ao_MaxCompressionRatio o1 = 0 then 200 else ao_MaxCompressionRatio o1)\<rparr>"

definition errorFinding :: "string \<Rightarrow> string \<Rightarrow> string \<Rightarrow> finding" where
  "errorFinding code file message =
     \<lparr>fi_Severity = SeverityError, fi_Code = code, fi_File = file, fi_Message = message\<rparr>"

definition warningFinding :: "string \<Rightarrow> string \<Rightarrow> string \<Rightarrow> finding" where
  "warningFinding code file message =
     \<lparr>fi_Severity = SeverityWarning, fi_Code = code, fi_File = file, fi_Message = message\<rparr>"

fun ArchiveFindingsError :: "finding list \<Rightarrow> unit res" where
  "ArchiveFindingsError [] = Inr ()"
| "ArchiveFindingsError (f # fs) =
     (if fi_Severity f \<noteq> SeverityError then ArchiveFindingsError fs
      else let status = (if fi_Code f = codeArchiveCorrupted then 422
                         else if fi_Code f = codeArchiveTooLarge then 413 else 400)
           in if fi_File f \<noteq> [] then fail (New (fi_Code f) (fi_File f @ '': '' @ fi_Message f) status)
              else fail (New (fi_Code f) (fi_Message f) status))"

definition HasErrorFindings :: "finding list \<Rightarrow> bool" where
  "HasErrorFindings findings \<longleftrightarrow> (\<exists>f \<in> set findings. fi_Severity f = SeverityError)"

subsection \<open>Names\<close>

text \<open>\<^verbatim>\<open>strings.LastIndexByte\<close>: the last position of the byte, or -1.\<close>

definition LastIndexByte :: "string \<Rightarrow> char \<Rightarrow> int" where
  "LastIndexByte s c = (case rev (filter (\<lambda>i. s ! i = c) [0..<length s]) of [] \<Rightarrow> -1 | i # _ \<Rightarrow> int i)"

datatype file_kind = archiveInput | archiveOutput

definition classifyTestcaseFile :: "(string \<Rightarrow> string) \<Rightarrow> string \<Rightarrow> (file_kind \<times> string) option" where
  "classifyTestcaseFile lower name =
     (let index = LastIndexByte name CHR ''/'';
          base = (if index \<ge> 0 then drop (nat (index + 1)) name else name);
          dot = LastIndexByte base CHR ''.''
      in if dot \<le> 0 \<or> dot = int (length base) - 1 then None
         else let stem = take (nat dot) base; extension = lower (drop (nat (dot + 1)) base)
              in if extension = ''in'' then Some (archiveInput, stem)
                 else if extension = ''ans'' \<or> extension = ''out'' then Some (archiveOutput, stem)
                 else None)"

definition normalizeArchivePath :: "string \<Rightarrow> string" where
  "normalizeArchivePath name = map (\<lambda>c. if c = CHR 0x5C then CHR ''/'' else c) name"

definition ignoredArchivePath :: "string \<Rightarrow> bool" where
  "ignoredArchivePath name \<longleftrightarrow>
     (\<exists>segment \<in> set (Split CHR ''/'' name).
        segment \<noteq> [] \<and> (hd segment = CHR ''.'' \<or> segment = ''__MACOSX''))"

definition compressionRatioExceeded :: "uint64 \<Rightarrow> uint64 \<Rightarrow> uint64 \<Rightarrow> bool" where
  "compressionRatioExceeded uncompressed compressed maxRatio \<longleftrightarrow>
     (if maxRatio = 0 \<or> uncompressed = 0 then False
      else if compressed = 0 then True
      else if compressed > (- 1) div maxRatio then False
      else uncompressed > compressed * maxRatio)"

subsection \<open>The natural order of case keys\<close>

record natural_token =
  nt_digit :: bool
  nt_text :: string

definition is_digit :: "char \<Rightarrow> bool" where
  "is_digit c \<longleftrightarrow> CHR ''0'' \<le> c \<and> c \<le> CHR ''9''"

function naturalTokens :: "string \<Rightarrow> natural_token list" where
  "naturalTokens [] = []"
| "naturalTokens (c # cs) =
     \<lparr>nt_digit = is_digit c, nt_text = c # takeWhile (\<lambda>d. is_digit d = is_digit c) cs\<rparr>
     # naturalTokens (dropWhile (\<lambda>d. is_digit d = is_digit c) cs)"
  by pat_completeness auto
termination
  by (relation "measure length") (auto simp: le_imp_less_Suc length_dropWhile_le)

text \<open>\<^verbatim>\<open>strings.Compare\<close>: byte-wise lexicographic.\<close>

definition Compare :: "string \<Rightarrow> string \<Rightarrow> int" where
  "Compare a b = (if a = b then 0 else if a < b then -1 else 1)"

definition compareDigitRuns :: "string \<Rightarrow> string \<Rightarrow> int" where
  "compareDigitRuns a b =
     (let a' = dropWhile (\<lambda>c. c = CHR ''0'') a; b' = dropWhile (\<lambda>c. c = CHR ''0'') b
      in if length a' \<noteq> length b' then (if length a' < length b' then -1 else 1) else Compare a' b')"

definition compareNaturalTokens :: "(string \<Rightarrow> string) \<Rightarrow> natural_token \<Rightarrow> natural_token \<Rightarrow> int" where
  "compareNaturalTokens lower a b =
     (if nt_digit a \<noteq> nt_digit b then (if nt_digit a then -1 else 1)
      else if nt_digit a then
        (let comparison = compareDigitRuns (nt_text a) (nt_text b)
         in if comparison \<noteq> 0 then comparison else Compare (nt_text a) (nt_text b))
      else
        (let comparison = Compare (lower (nt_text a)) (lower (nt_text b))
         in if comparison \<noteq> 0 then comparison else Compare (nt_text a) (nt_text b)))"

fun less_tokens :: "(string \<Rightarrow> string) \<Rightarrow> natural_token list \<Rightarrow> natural_token list \<Rightarrow> bool" where
  "less_tokens lower (x # xs) (y # ys) =
     (let comparison = compareNaturalTokens lower x y
      in if comparison \<noteq> 0 then comparison < 0 else less_tokens lower xs ys)"
| "less_tokens lower xs ys = (length xs < length ys)"

definition naturalLess :: "(string \<Rightarrow> string) \<Rightarrow> string \<Rightarrow> string \<Rightarrow> bool" where
  "naturalLess lower a b = less_tokens lower (naturalTokens a) (naturalTokens b)"

definition sortTestcaseKeys :: "(string \<Rightarrow> string) \<Rightarrow> string list \<Rightarrow> string list" where
  "sortTestcaseKeys lower keys = sort_by (naturalLess lower) keys"

subsection \<open>Reading a member\<close>

datatype read_outcome = ReadOK string uint64 | ReadTooLarge | ReadFailed

text \<open>The loop over the chunks that \<^verbatim>\<open>reader.Read\<close> returns, with the error that ended it (\<^verbatim>\<open>io.EOF\<close> is none).\<close>

fun read_chunks :: "bool \<Rightarrow> uint64 \<Rightarrow> string \<Rightarrow> uint64 \<Rightarrow> string list \<Rightarrow> go_error option \<Rightarrow> read_outcome" where
  "read_chunks keep maxBytes kept sofar [] err =
     (case err of None \<Rightarrow> ReadOK kept sofar | Some _ \<Rightarrow> ReadFailed)"
| "read_chunks keep maxBytes kept sofar (chunk # chunks) err =
     (let sofar' = sofar + of_nat (length chunk)
      in if sofar' > maxBytes then ReadTooLarge
         else read_chunks keep maxBytes (if keep then kept @ chunk else kept) sofar' chunks err)"

definition readArchiveEntry :: "zip_file \<Rightarrow> archive_options \<Rightarrow> uint64 \<Rightarrow> read_outcome" where
  "readArchiveEntry file options maxBytes =
     (case zf_Open file of
        Inl _ \<Rightarrow> ReadFailed
      | Inr (chunks, err) \<Rightarrow> read_chunks (ao_KeepContents options) maxBytes [] 0 chunks err)"

subsection \<open>Parsing\<close>

record archive_entry =
  ae_file :: zip_file
  ae_key :: string
  ae_size :: int64
  ae_content :: string

type_synonym entry_map = "(string \<times> archive_entry) list"

record parse_state =
  px_inputs :: entry_map
  px_outputs :: entry_map
  px_declaredTotal :: uint64
  px_actualTotal :: uint64
  px_fileCount :: int
  px_findings :: "finding list"
  px_warnings :: "finding list"

definition add_finding :: "finding \<Rightarrow> parse_state \<Rightarrow> parse_state" where
  "add_finding f st = st\<lparr>px_findings := px_findings st @ [f]\<rparr>"

definition duplicate_finding :: "archive_entry \<Rightarrow> archive_entry \<Rightarrow> finding" where
  "duplicate_finding entry previous =
     errorFinding codeCaseDuplicate (zf_Name (ae_file entry))
       (zf_Name (ae_file entry) @ '' duplicates '' @ zf_Name (ae_file previous))"

definition recordArchiveEntry :: "file_kind \<Rightarrow> string \<Rightarrow> archive_entry \<Rightarrow> parse_state \<Rightarrow> parse_state" where
  "recordArchiveEntry kind key entry st =
     (case map_of (if kind = archiveOutput then px_outputs st else px_inputs st) key of
        Some previous \<Rightarrow> add_finding (duplicate_finding entry previous) st
      | None \<Rightarrow>
          (if kind = archiveOutput then st\<lparr>px_outputs := px_outputs st @ [(key, entry)]\<rparr>
           else st\<lparr>px_inputs := px_inputs st @ [(key, entry)]\<rparr>))"

definition declared_entry :: "zip_file \<Rightarrow> string \<Rightarrow> archive_entry" where
  "declared_entry file key =
     \<lparr>ae_file = file, ae_key = key, ae_size = sint (zf_UncompressedSize64 file), ae_content = []\<rparr>"

text \<open>A member whose declared sizes are within the budgets is read.\<close>

definition read_member ::
  "archive_options \<Rightarrow> zip_file \<Rightarrow> file_kind \<Rightarrow> string \<Rightarrow> parse_state \<Rightarrow> parse_state" where
  "read_member options file kind key st =
     (case readArchiveEntry file options (ao_MaxEntryBytes options) of
        ReadTooLarge \<Rightarrow>
          add_finding (errorFinding codeEntryTooLarge (zf_Name file) ''testcase archive entry is too large'') st
      | ReadFailed \<Rightarrow>
          add_finding (errorFinding codeZipInvalid (zf_Name file) ''testcase archive entry cannot be read'') st
      | ReadOK content readBytes \<Rightarrow>
          (if readBytes = 0
           then add_finding (errorFinding codeEntryEmpty (zf_Name file) ''testcase file must not be empty'') st
           else if readBytes > ao_MaxTotalBytes options
             \<or> px_actualTotal st > ao_MaxTotalBytes options - readBytes
           then add_finding (errorFinding codeTotalSizeExceeded (zf_Name file)
                  ''testcase archive expands to too much data'') st
           else recordArchiveEntry kind key
                  \<lparr>ae_file = file, ae_key = key, ae_size = sint readBytes, ae_content = content\<rparr>
                  (st\<lparr>px_actualTotal := px_actualTotal st + readBytes\<rparr>)))"

definition parse_member ::
  "archive_options \<Rightarrow> zip_file \<Rightarrow> file_kind \<Rightarrow> string \<Rightarrow> parse_state \<Rightarrow> parse_state" where
  "parse_member options file kind key st =
     (let declared = zf_UncompressedSize64 file in
      if declared > ao_MaxEntryBytes options
      then recordArchiveEntry kind key (declared_entry file key)
             (add_finding (errorFinding codeEntryTooLarge (zf_Name file) ''testcase archive entry is too large'') st)
      else if declared > ao_MaxTotalBytes options \<or> px_declaredTotal st > ao_MaxTotalBytes options - declared
      then recordArchiveEntry kind key (declared_entry file key)
             (add_finding (errorFinding codeTotalSizeExceeded (zf_Name file)
               ''testcase archive expands to too much data'') st)
      else if compressionRatioExceeded declared (zf_CompressedSize64 file) (ao_MaxCompressionRatio options)
      then recordArchiveEntry kind key (declared_entry file key)
             (add_finding (errorFinding codeCompressionExceeded (zf_Name file)
               ''testcase archive compression ratio is too high'') st)
      else read_member options file kind key (st\<lparr>px_declaredTotal := px_declaredTotal st + declared\<rparr>))"

definition parse_file :: "(string \<Rightarrow> string) \<Rightarrow> archive_options \<Rightarrow> zip_file \<Rightarrow> parse_state \<Rightarrow> parse_state" where
  "parse_file lower options file st =
     (if zf_IsDir file then st
      else let st' = st\<lparr>px_fileCount := px_fileCount st + 1\<rparr>; name = normalizeArchivePath (zf_Name file) in
        if px_fileCount st' > ao_MaxFiles options
        then add_finding (errorFinding codeFileCountExceeded (zf_Name file) ''testcase archive has too many files'') st'
        else if ignoredArchivePath name
        then let warning = warningFinding codeFileIgnored (zf_Name file) ''ignored testcase archive member''
             in add_finding warning (st'\<lparr>px_warnings := px_warnings st' @ [warning]\<rparr>)
        else case classifyTestcaseFile lower name of
          None \<Rightarrow> add_finding (errorFinding codeFileNameInvalid (zf_Name file) ''testcase file name is invalid'') st'
        | Some (kind, key) \<Rightarrow> parse_member options file kind key st')"

definition empty_state :: parse_state where
  "empty_state = \<lparr>px_inputs = [], px_outputs = [], px_declaredTotal = 0, px_actualTotal = 0, px_fileCount = 0,
     px_findings = [], px_warnings = []\<rparr>"

definition parse_files :: "(string \<Rightarrow> string) \<Rightarrow> archive_options \<Rightarrow> zip_file list \<Rightarrow> parse_state" where
  "parse_files lower options files = fold (parse_file lower options) files empty_state"

record archive_parse_result =
  pa_cases :: "archive_case list"
  pa_warnings :: "finding list"
  pa_testcases :: "problem_testcase list"
  pa_findings :: "finding list"

definition rejected :: "finding \<Rightarrow> archive_parse_result" where
  "rejected f = \<lparr>pa_cases = [], pa_warnings = [], pa_testcases = [], pa_findings = [f]\<rparr>"

definition output_missing :: "string \<times> archive_entry \<Rightarrow> finding" where
  "output_missing e = errorFinding codeOutputMissing (zf_Name (ae_file (snd e)))
     (zf_Name (ae_file (snd e)) @ '' has no matching '' @ fst e @ ''.ans'')"

definition input_missing :: "string \<times> archive_entry \<Rightarrow> finding" where
  "input_missing e = errorFinding codeInputMissing (zf_Name (ae_file (snd e)))
     (zf_Name (ae_file (snd e)) @ '' has no matching '' @ fst e @ ''.in'')"

definition paired_with :: "entry_map \<Rightarrow> string \<times> archive_entry \<Rightarrow> bool" where
  "paired_with m e \<longleftrightarrow> map_of m (fst e) \<noteq> None"

definition case_of :: "entry_map \<Rightarrow> entry_map \<Rightarrow> string \<Rightarrow> archive_case" where
  "case_of inputs outputs key =
     (let input = the (map_of inputs key); output = the (map_of outputs key)
      in \<lparr>ac_Key = key, ac_InputPath = zf_Name (ae_file input), ac_OutputPath = zf_Name (ae_file output),
          ac_InputSize = ae_size input, ac_OutputSize = ae_size output\<rparr>)"

definition testcase_of :: "archive_options \<Rightarrow> entry_map \<Rightarrow> entry_map \<Rightarrow> nat \<Rightarrow> string \<Rightarrow> problem_testcase" where
  "testcase_of options inputs outputs index key =
     \<lparr>tc_ID = int index + 1, tc_InputKey = ae_content (the (map_of inputs key)),
      tc_OutputKey = ae_content (the (map_of outputs key)), tc_TimeLimit = ao_TimeLimit options,
      tc_MemoryKB = ao_MemoryKB options\<rparr>"

text \<open>After the members: unpaired ones are reported, the keys of the pairs sorted and numbered.\<close>

definition pair_entries ::
  "(string \<Rightarrow> string) \<Rightarrow> (entry_map \<Rightarrow> entry_map) \<Rightarrow> archive_options \<Rightarrow> parse_state \<Rightarrow> archive_parse_result" where
  "pair_entries lower iter options st =
     (let inputs = px_inputs st; outputs = px_outputs st;
          findings = px_findings st @ map output_missing (filter (\<lambda>e. \<not> paired_with outputs e) (iter inputs))
                       @ map input_missing (filter (\<lambda>e. \<not> paired_with inputs e) (iter outputs));
          keys = map fst (filter (paired_with outputs) (iter inputs))
      in if keys = []
         then \<lparr>pa_cases = [], pa_warnings = px_warnings st, pa_testcases = [],
               pa_findings = findings @ [errorFinding codeArchiveEmpty [] ''testcase archive has no input/output pairs'']\<rparr>
         else let sorted_keys = sortTestcaseKeys lower keys
              in \<lparr>pa_cases = map (case_of inputs outputs) sorted_keys, pa_warnings = px_warnings st,
                  pa_testcases = map_idx (testcase_of options inputs outputs) 0 sorted_keys, pa_findings = findings\<rparr>)"

text \<open>
  \<^verbatim>\<open>strings.EqualFold\<close> against a hexadecimal digest: only the ASCII letters fold to \<^verbatim>\<open>a\<close> to \<^verbatim>\<open>f\<close>.
\<close>

definition checksum_finding :: "archive_options \<Rightarrow> archive_bytes \<Rightarrow> finding option" where
  "checksum_finding options r =
     (let expected = TrimSpace (ao_ExpectedSHA256 options) in
      if expected = [] then None
      else case ab_SHA256 r of
        Inl _ \<Rightarrow> Some (errorFinding codeArchiveCorrupted [] ''testcase archive cannot be read'')
      | Inr actual \<Rightarrow>
          (if ToLower expected \<noteq> ToLower actual
           then Some (errorFinding codeArchiveCorrupted [] ''testcase archive checksum does not match'')
           else None))"

definition parseArchive ::
  "(string \<Rightarrow> string) \<Rightarrow> (entry_map \<Rightarrow> entry_map) \<Rightarrow> archive_bytes \<Rightarrow> int64 \<Rightarrow> archive_options \<Rightarrow> archive_parse_result" where
  "parseArchive lower iter r nbytes options0 =
     (let options = withDefaults options0 in
      if nbytes \<le> 0 then rejected (errorFinding codeZipInvalid [] ''testcase archive must be a valid zip file'')
      else if nbytes > ao_MaxBytes options
      then rejected (errorFinding codeArchiveTooLarge [] ''testcase archive is too large'')
      else case checksum_finding options r of
        Some f \<Rightarrow> rejected f
      | None \<Rightarrow>
          (case ab_Files r of
             Inl _ \<Rightarrow> rejected (errorFinding codeZipInvalid [] ''testcase archive must be a valid zip file'')
           | Inr files \<Rightarrow> pair_entries lower iter options (parse_files lower options files)))"

definition ValidateArchive ::
  "(string \<Rightarrow> string) \<Rightarrow> (entry_map \<Rightarrow> entry_map) \<Rightarrow> archive_bytes \<Rightarrow> int64 \<Rightarrow> archive_case list \<times> finding list" where
  "ValidateArchive lower iter r nbytes =
     (let result = parseArchive lower iter r nbytes zero_options in (pa_cases result, pa_findings result))"

definition VerifyArchive ::
  "(string \<Rightarrow> string) \<Rightarrow> (entry_map \<Rightarrow> entry_map) \<Rightarrow> archive_bytes \<Rightarrow> int64 \<Rightarrow> string
   \<Rightarrow> archive_case list \<times> finding list" where
  "VerifyArchive lower iter r nbytes expectedSHA256 =
     (let result = parseArchive lower iter r nbytes (zero_options\<lparr>ao_ExpectedSHA256 := expectedSHA256\<rparr>)
      in (pa_cases result, pa_findings result))"

definition LoadArchive ::
  "(string \<Rightarrow> string) \<Rightarrow> (entry_map \<Rightarrow> entry_map) \<Rightarrow> archive_bytes \<Rightarrow> int64 \<Rightarrow> archive_options
   \<Rightarrow> problem_testcase list \<times> finding list" where
  "LoadArchive lower iter r nbytes options =
     (let result = parseArchive lower iter r nbytes (options\<lparr>ao_KeepContents := True\<rparr>)
      in (pa_testcases result, pa_findings result))"

subsection \<open>The natural order is a total order\<close>

lemma Compare_iff [simp]: "Compare a b = 0 \<longleftrightarrow> a = b" "Compare a b < 0 \<longleftrightarrow> a < b"
  by (auto simp: Compare_def)

definition no_zeros :: "string \<Rightarrow> string" where
  "no_zeros a = dropWhile (\<lambda>c. c = CHR ''0'') a"

lemma compareDigitRuns_iff:
  "compareDigitRuns a b = 0 \<longleftrightarrow> no_zeros a = no_zeros b"
  "compareDigitRuns a b < 0 \<longleftrightarrow>
     length (no_zeros a) < length (no_zeros b) \<or> length (no_zeros a) = length (no_zeros b) \<and> no_zeros a < no_zeros b"
  by (auto simp: compareDigitRuns_def Let_def no_zeros_def)

definition token_rel :: "(string \<Rightarrow> string) \<Rightarrow> (natural_token \<times> natural_token) set" where
  "token_rel lower = {(x, y). compareNaturalTokens lower x y < 0}"

lemma compareNaturalTokens_zero: "compareNaturalTokens lower x y = 0 \<longleftrightarrow> x = y"
  by (auto simp: compareNaturalTokens_def Let_def compareDigitRuns_iff)

lemma token_rel_iff:
  "(x, y) \<in> token_rel lower \<longleftrightarrow>
     (if nt_digit x \<noteq> nt_digit y then nt_digit x
      else if nt_digit x then
        length (no_zeros (nt_text x)) < length (no_zeros (nt_text y))
        \<or> length (no_zeros (nt_text x)) = length (no_zeros (nt_text y))
          \<and> (no_zeros (nt_text x) < no_zeros (nt_text y)
             \<or> no_zeros (nt_text x) = no_zeros (nt_text y) \<and> nt_text x < nt_text y)
      else lower (nt_text x) < lower (nt_text y)
        \<or> lower (nt_text x) = lower (nt_text y) \<and> nt_text x < nt_text y)"
  by (auto simp: token_rel_def compareNaturalTokens_def Let_def compareDigitRuns_iff)

lemma token_rel_trans: "trans (token_rel lower)"
  by (intro transI) (auto simp: token_rel_iff split: if_splits)

lemma token_rel_total: "total (token_rel lower)"
  unfolding total_on_def
proof (intro ballI impI)
  fix x y :: natural_token assume "x \<noteq> y"
  then have "nt_digit x \<noteq> nt_digit y \<or> nt_text x \<noteq> nt_text y" by (cases x; cases y) auto
  then show "(x, y) \<in> token_rel lower \<or> (y, x) \<in> token_rel lower"
    by (auto simp: token_rel_iff linorder_neq_iff)
qed

lemma token_rel_irrefl: "(x, x) \<notin> token_rel lower"
  by (simp add: token_rel_iff)

lemma less_tokens_lexord: "less_tokens lower xs ys \<longleftrightarrow> (xs, ys) \<in> lexord (token_rel lower)"
proof (induction lower xs ys rule: less_tokens.induct)
  case (1 lower x xs y ys)
  then show ?case
    using compareNaturalTokens_zero [of lower x y] by (cases "x = y") (auto simp: Let_def token_rel_def token_rel_irrefl)
qed (auto simp: neq_Nil_conv)

lemma naturalTokens_text: "concat (map nt_text (naturalTokens s)) = s"
  by (induction s rule: naturalTokens.induct) auto

lemma naturalTokens_inject: "naturalTokens a = naturalTokens b \<longleftrightarrow> a = b"
  by (metis naturalTokens_text)

lemma naturalLess_lexord:
  "naturalLess lower a b \<longleftrightarrow> (naturalTokens a, naturalTokens b) \<in> lexord (token_rel lower)"
  by (simp add: naturalLess_def less_tokens_lexord)

lemma naturalLess_irrefl: "\<not> naturalLess lower a a"
  by (simp add: naturalLess_lexord lexord_irreflexive token_rel_irrefl)

lemma naturalLess_trans: "naturalLess lower a b \<Longrightarrow> naturalLess lower b c \<Longrightarrow> naturalLess lower a c"
  unfolding naturalLess_lexord using lexord_trans token_rel_trans by blast

lemma naturalLess_linear: "a \<noteq> b \<Longrightarrow> naturalLess lower a b \<or> naturalLess lower b a"
  unfolding naturalLess_lexord using total_lexord [OF token_rel_total] naturalTokens_inject
  by (metis UNIV_I total_on_def)

interpretation natural: strict_weak_order "naturalLess lower" for lower
  by unfold_locales (metis naturalLess_irrefl naturalLess_trans, metis naturalLess_linear naturalLess_trans)

subsection \<open>Numbered cases are in numeric order\<close>

lemma digits_value_shift: "digits_value acc s = map_option (\<lambda>m. acc * 10 ^ length s + m) (digits_value 0 s)"
proof (induction s arbitrary: acc)
  case Nil
  then show ?case by simp
next
  case (Cons c cs)
  define d where "d = (of_char c :: nat) - 48"
  have "digits_value (acc * 10 + d) cs = map_option (\<lambda>m. acc * 10 ^ length (c # cs) + m) (digits_value d cs)"
    unfolding Cons.IH [of "acc * 10 + d"] Cons.IH [of d] by (cases "digits_value 0 cs") (simp_all add: algebra_simps)
  then show ?case by (simp only: digits_value.simps Let_def d_def add_0 mult_zero_left if_distrib [of "map_option _"] option.map)
qed

lemma digits_value_Cons:
  "digits_value 0 (c # cs) = Some n \<longleftrightarrow>
     48 \<le> (of_char c :: nat) \<and> (of_char c :: nat) \<le> 57
     \<and> (\<exists>m. digits_value 0 cs = Some m \<and> n = (of_char c - 48) * 10 ^ length cs + m)"
  by (auto simp: Let_def digits_value_shift [of "of_char c - 48"])

lemma digits_value_bound: "digits_value 0 s = Some n \<Longrightarrow> n < 10 ^ length s"
proof (induction s arbitrary: n)
  case Nil
  then show ?case by simp
next
  case (Cons c cs)
  then obtain m where m: "(of_char c :: nat) \<le> 57" "n = (of_char c - 48) * 10 ^ length cs + m" "m < 10 ^ length cs"
    unfolding digits_value_Cons by blast
  have "(of_char c - 48) * 10 ^ length cs \<le> (9 :: nat) * 10 ^ length cs" using m(1) by (intro mult_right_mono) auto
  with m(3) have "n < 9 * 10 ^ length cs + 10 ^ length cs" unfolding m(2) by linarith
  then show ?case by simp
qed

lemma less_char_of_char: "c < d \<longleftrightarrow> (of_char c :: nat) < of_char d"
  by (simp add: less_char_def)

lemma digits_less_same_length:
  "digits_value 0 a = Some m \<Longrightarrow> digits_value 0 b = Some n \<Longrightarrow> length a = length b \<Longrightarrow> a < b \<longleftrightarrow> m < n"
proof (induction a arbitrary: b m n)
  case Nil
  then show ?case by simp
next
  case (Cons c cs)
  then obtain d ds where b: "b = d # ds" by (cases b) auto
  from Cons.prems(1) obtain m' where m: "48 \<le> (of_char c :: nat)" "digits_value 0 cs = Some m'"
      "m = (of_char c - 48) * 10 ^ length cs + m'" unfolding digits_value_Cons by blast
  from Cons.prems(2) obtain n' where n: "48 \<le> (of_char d :: nat)" "digits_value 0 ds = Some n'"
      "n = (of_char d - 48) * 10 ^ length cs + n'" using Cons.prems(3) unfolding b digits_value_Cons by auto
  have len: "length cs = length ds" using Cons.prems(3) b by simp
  note bounds = digits_value_bound [OF m(2)] digits_value_bound [OF n(2)]
  have step: "x < y \<Longrightarrow> p < k \<Longrightarrow> x * k + p < y * k + q" for x y p q k :: nat
  proof -
    assume "x < y" "p < k"
    then have "Suc x * k \<le> y * k" by (intro mult_right_mono) auto
    with \<open>p < k\<close> show ?thesis by simp
  qed
  consider "c = d" | "(of_char c :: nat) < of_char d" | "(of_char d :: nat) < of_char c"
    using nat_neq_iff of_char_eq_iff by blast
  then show ?case
  proof cases
    case 1
    with Cons.IH [OF m(2) n(2) len] m n b show ?thesis by simp
  next
    case 2
    then have "of_char c - 48 < (of_char d - 48 :: nat)" using m(1) by simp
    from step [OF this bounds(1)] m(3) n(3) b 2 show ?thesis by (simp add: less_char_of_char)
  next
    case 3
    then have "of_char d - 48 < (of_char c - 48 :: nat)" using n(1) by simp
    from step [OF this, of n' "10 ^ length cs" m'] bounds(2) len have "n < m" unfolding m(3) n(3) by simp
    with b 3 show ?thesis by (auto simp: less_char_of_char)
  qed
qed

lemma digits_value_no_zeros: "digits_value 0 (no_zeros s) = digits_value 0 s"
  by (induction s) (auto simp: no_zeros_def)

lemma no_zeros_length_less:
  assumes "digits_value 0 a = Some m" and "digits_value 0 b = Some n" and "length (no_zeros a) < length (no_zeros b)"
  shows "m < n"
proof -
  from assms(3) obtain c cs where b: "no_zeros b = c # cs" by (cases "no_zeros b") auto
  then have "c \<noteq> CHR ''0''" unfolding no_zeros_def by (metis (mono_tags) hd_dropWhile list.distinct(1) list.sel(1))
  moreover from assms(2) b digits_value_no_zeros have nz: "digits_value 0 (c # cs) = Some n" by metis
  moreover have "(of_char c :: nat) = 48 \<longleftrightarrow> c = CHR ''0''" using of_char_eq_iff [of c "CHR ''0''"] by simp
  ultimately have "of_char c - 48 \<ge> (1 :: nat)" and ge: "n \<ge> (of_char c - 48) * 10 ^ length cs"
    unfolding digits_value_Cons by auto
  then have "(of_char c - 48) * 10 ^ length cs \<ge> (1 :: nat) * 10 ^ length cs" by (intro mult_right_mono) auto
  with ge have "n \<ge> 10 ^ length cs" by linarith
  moreover have "m < 10 ^ length (no_zeros a)"
    using digits_value_bound assms(1) digits_value_no_zeros by metis
  moreover have "(10 :: nat) ^ length (no_zeros a) \<le> 10 ^ length cs" using assms(3) b by (intro power_increasing) auto
  ultimately show ?thesis by linarith
qed

lemma compareDigitRuns_value:
  assumes "digits_value 0 a = Some m" and "digits_value 0 b = Some n"
  shows "compareDigitRuns a b = 0 \<longleftrightarrow> m = n" and "compareDigitRuns a b < 0 \<longleftrightarrow> m < n"
proof -
  have nz: "digits_value 0 (no_zeros a) = Some m" "digits_value 0 (no_zeros b) = Some n"
    using assms by (simp_all add: digits_value_no_zeros)
  consider "length (no_zeros a) < length (no_zeros b)" | "length (no_zeros b) < length (no_zeros a)"
    | "length (no_zeros a) = length (no_zeros b)" by linarith
  then have "(no_zeros a = no_zeros b \<longleftrightarrow> m = n) \<and> (compareDigitRuns a b < 0 \<longleftrightarrow> m < n)"
  proof cases
    case 1
    with no_zeros_length_less [OF assms 1] show ?thesis by (auto simp: compareDigitRuns_iff)
  next
    case 2
    with no_zeros_length_less [OF assms(2,1) 2] show ?thesis by (auto simp: compareDigitRuns_iff)
  next
    case 3
    from digits_less_same_length [OF nz 3] digits_less_same_length [OF nz(2,1) 3 [symmetric]] nz 3
    show ?thesis by (auto simp: compareDigitRuns_iff)
  qed
  then show "compareDigitRuns a b = 0 \<longleftrightarrow> m = n" and "compareDigitRuns a b < 0 \<longleftrightarrow> m < n"
    by (simp_all add: compareDigitRuns_iff)
qed

lemma digits_value_digits: "digits_value 0 s = Some n \<Longrightarrow> \<forall>c \<in> set s. is_digit c"
proof (induction s arbitrary: n)
  case (Cons c cs)
  then show ?case
    using less_eq_char_def [of "CHR ''0''" c] less_eq_char_def [of c "CHR ''9''"]
    unfolding digits_value_Cons by (auto simp: is_digit_def)
qed simp

lemma naturalTokens_digits:
  assumes "digits_value 0 s = Some n" and "s \<noteq> []"
  shows "naturalTokens s = [\<lparr>nt_digit = True, nt_text = s\<rparr>]"
proof (cases s)
  case (Cons c cs)
  with digits_value_digits [OF assms(1)] have "is_digit c" "\<forall>d \<in> set cs. is_digit d" by auto
  then have "takeWhile is_digit cs = cs" "dropWhile is_digit cs = []" by auto
  with Cons \<open>is_digit c\<close> show ?thesis by (simp only: naturalTokens.simps simp_thms)
qed (use assms(2) in simp)

lemma naturalLess_numbers:
  assumes "digits_value 0 a = Some m" and "digits_value 0 b = Some n" and "a \<noteq> []" and "b \<noteq> []"
  shows "naturalLess lower a b \<longleftrightarrow> m < n \<or> m = n \<and> a < b"
proof -
  have "naturalLess lower a b \<longleftrightarrow> compareNaturalTokens lower \<lparr>nt_digit = True, nt_text = a\<rparr> \<lparr>nt_digit = True, nt_text = b\<rparr> < 0"
    unfolding naturalLess_def naturalTokens_digits [OF assms(1,3)] naturalTokens_digits [OF assms(2,4)]
    by (simp add: Let_def)
  then show ?thesis
    using compareDigitRuns_value [OF assms(1,2)] by (auto simp: compareNaturalTokens_def Let_def)
qed

subsection \<open>Reading is bounded\<close>

text \<open>\<^verbatim>\<open>Read\<close> returns no more bytes than the buffer of \<^verbatim>\<open>readArchiveEntry\<close> holds.\<close>

definition buffered_file :: "zip_file \<Rightarrow> bool" where
  "buffered_file f \<longleftrightarrow> (case zf_Open f of Inl _ \<Rightarrow> True | Inr (chunks, err) \<Rightarrow> \<forall>c \<in> set chunks. length c \<le> 32768)"

definition buffered :: "archive_bytes \<Rightarrow> bool" where
  "buffered r \<longleftrightarrow> (case ab_Files r of Inl _ \<Rightarrow> True | Inr files \<Rightarrow> \<forall>f \<in> set files. buffered_file f)"

definition member_bytes :: "zip_file \<Rightarrow> string" where
  "member_bytes f = (case zf_Open f of Inl _ \<Rightarrow> [] | Inr (chunks, err) \<Rightarrow> concat chunks)"

lemma read_chunks_kept:
  "read_chunks keep maxBytes kept sofar chunks err = ReadOK content n \<Longrightarrow>
     content = (if keep then kept @ concat chunks else kept)"
proof (induction chunks arbitrary: kept sofar)
  case (Cons c cs)
  then have "read_chunks keep maxBytes (if keep then kept @ c else kept) (sofar + of_nat (length c)) cs err = ReadOK content n"
    by (simp add: Let_def split: if_splits)
  from Cons.IH [OF this] show ?case by simp
qed (auto split: option.splits)

lemma read_chunks_total:
  assumes "read_chunks keep maxBytes kept sofar chunks err = ReadOK content n"
    and "\<forall>c \<in> set chunks. length c \<le> 32768" and "unat maxBytes + 32768 < 2 ^ 64" and "sofar \<le> maxBytes"
  shows "unat n = unat sofar + length (concat chunks) \<and> n \<le> maxBytes"
  using assms
proof (induction chunks arbitrary: kept sofar)
  case Nil
  then show ?case by (auto split: option.splits)
next
  case (Cons c cs)
  let ?n = "of_nat (length c) :: uint64"
  from Cons.prems(2) have "length c \<le> 32768" by simp
  then have len: "unat ?n = length c" by (simp add: unat_of_nat)
  have "unat sofar \<le> unat maxBytes" using Cons.prems(4) by (simp add: word_le_nat_alt)
  with Cons.prems(3) len \<open>length c \<le> 32768\<close> have "unat sofar + unat ?n < 2 ^ LENGTH(64)" by simp
  then have sum: "unat (sofar + ?n) = unat sofar + length c" using len unat_add_lem by metis
  from Cons.prems(1) have le: "\<not> sofar + ?n > maxBytes"
    and rec: "read_chunks keep maxBytes (if keep then kept @ c else kept) (sofar + ?n) cs err = ReadOK content n"
    by (auto simp: Let_def split: if_splits)
  from Cons.IH [OF rec] Cons.prems le sum show ?case by simp
qed

lemma readArchiveEntry_OK:
  assumes "readArchiveEntry f options maxBytes = ReadOK content n"
  shows "content = (if ao_KeepContents options then member_bytes f else [])"
    and "buffered_file f \<Longrightarrow> unat maxBytes + 32768 < 2 ^ 64 \<Longrightarrow> unat n = length (member_bytes f) \<and> n \<le> maxBytes"
  using assms read_chunks_kept read_chunks_total [where sofar = 0]
  by (fastforce simp: readArchiveEntry_def member_bytes_def buffered_file_def split: sum.splits prod.splits)+

definition content_bytes :: "entry_map \<Rightarrow> nat" where
  "content_bytes m = sum_list (map (\<lambda>e. length (ae_content (snd e))) m)"

lemma content_bytes_simps [simp]:
  "content_bytes [] = 0" "content_bytes (e # m) = length (ae_content (snd e)) + content_bytes m"
  "content_bytes (m @ m') = content_bytes m + content_bytes m'"
  by (simp_all add: content_bytes_def)

text \<open>What the loop over the members keeps: the budgets, and that its maps are maps.\<close>

definition within_budget :: "archive_options \<Rightarrow> parse_state \<Rightarrow> bool" where
  "within_budget options st \<longleftrightarrow>
     content_bytes (px_inputs st) + content_bytes (px_outputs st) \<le> unat (px_actualTotal st)
     \<and> px_actualTotal st \<le> ao_MaxTotalBytes options \<and> px_declaredTotal st \<le> ao_MaxTotalBytes options
     \<and> (\<forall>e \<in> snd ` set (px_inputs st) \<union> snd ` set (px_outputs st). length (ae_content e) \<le> unat (ao_MaxEntryBytes options))
     \<and> distinct (map fst (px_inputs st)) \<and> distinct (map fst (px_outputs st))
     \<and> int (length (px_inputs st) + length (px_outputs st)) \<le> min (px_fileCount st) (max 0 (ao_MaxFiles options))"

lemma add_finding_simps [simp]:
  "px_inputs (add_finding f st) = px_inputs st" "px_outputs (add_finding f st) = px_outputs st"
  "px_actualTotal (add_finding f st) = px_actualTotal st" "px_declaredTotal (add_finding f st) = px_declaredTotal st"
  "px_fileCount (add_finding f st) = px_fileCount st" "px_findings (add_finding f st) = px_findings st @ [f]"
  by (simp_all add: add_finding_def)

lemma within_budget_add_finding [simp]: "within_budget options (add_finding f st) = within_budget options st"
  by (simp add: within_budget_def)

lemma within_budget_record:
  assumes "content_bytes (px_inputs st) + content_bytes (px_outputs st) + length (ae_content e) \<le> unat (px_actualTotal st)"
    and "px_actualTotal st \<le> ao_MaxTotalBytes options" "px_declaredTotal st \<le> ao_MaxTotalBytes options"
    and "\<forall>e \<in> snd ` set (px_inputs st) \<union> snd ` set (px_outputs st). length (ae_content e) \<le> unat (ao_MaxEntryBytes options)"
    and "distinct (map fst (px_inputs st))" "distinct (map fst (px_outputs st))"
    and "int (length (px_inputs st) + length (px_outputs st)) < min (px_fileCount st) (max 0 (ao_MaxFiles options))"
    and "length (ae_content e) \<le> unat (ao_MaxEntryBytes options)"
  shows "within_budget options (recordArchiveEntry kind key e st)"
  using assms
  by (cases kind) (auto simp: recordArchiveEntry_def within_budget_def map_of_eq_None_iff split: option.splits)

lemma budget_add:
  fixes a b c :: uint64
  assumes "b \<le> c" and "\<not> a > c - b"
  shows "a + b \<le> c" and "unat (a + b) = unat a + unat b"
proof -
  have "unat a \<le> unat c - unat b" using assms by (metis linorder_not_less unat_sub word_le_nat_alt)
  moreover have "unat b \<le> unat c" using assms(1) by (simp add: word_le_nat_alt)
  ultimately have le: "unat a + unat b \<le> unat c" by linarith
  moreover have "unat c < 2 ^ LENGTH(64)" by (rule unsigned_less)
  ultimately have "unat a + unat b < 2 ^ LENGTH(64)" by linarith
  then show "unat (a + b) = unat a + unat b" using unat_add_lem by metis
  with le show "a + b \<le> c" by (simp add: word_le_nat_alt)
qed

abbreviation has_room :: "archive_options \<Rightarrow> parse_state \<Rightarrow> bool" where
  "has_room options st \<equiv> int (length (px_inputs st) + length (px_outputs st)) < px_fileCount st
     \<and> px_fileCount st \<le> ao_MaxFiles options"

lemma within_budget_declared:
  "within_budget options st \<Longrightarrow> has_room options st \<Longrightarrow>
   within_budget options (recordArchiveEntry kind key (declared_entry f key) st)"
  by (rule within_budget_record) (auto simp: within_budget_def declared_entry_def)

lemma within_budget_read_member:
  assumes inv: "within_budget options st" and room: "has_room options st"
    and "buffered_file f" and "unat (ao_MaxEntryBytes options) + 32768 < 2 ^ 64"
  shows "within_budget options (read_member options f kind key st)"
proof (cases "readArchiveEntry f options (ao_MaxEntryBytes options)")
  case (ReadOK content n)
  have len: "length content \<le> unat n" "unat n \<le> unat (ao_MaxEntryBytes options)"
    using readArchiveEntry_OK [OF ReadOK] assms(3,4) by (auto simp: word_le_nat_alt)
  show ?thesis
  proof (cases "n > ao_MaxTotalBytes options \<or> px_actualTotal st > ao_MaxTotalBytes options - n")
    case True
    with ReadOK inv show ?thesis by (auto simp: read_member_def)
  next
    case False
    then have n: "n \<le> ao_MaxTotalBytes options" "\<not> px_actualTotal st > ao_MaxTotalBytes options - n" by auto
    have "within_budget options (recordArchiveEntry kind key
        \<lparr>ae_file = f, ae_key = key, ae_size = sint n, ae_content = content\<rparr>
        (st\<lparr>px_actualTotal := px_actualTotal st + n\<rparr>))"
      by (rule within_budget_record) (use inv budget_add [OF n] len room in \<open>auto simp: within_budget_def\<close>)
    with False ReadOK inv show ?thesis by (auto simp: read_member_def)
  qed
qed (use inv in \<open>simp_all add: read_member_def\<close>)

lemma within_budget_member:
  assumes inv: "within_budget options st" and room: "has_room options st"
    and "buffered_file f" and "unat (ao_MaxEntryBytes options) + 32768 < 2 ^ 64"
  shows "within_budget options (parse_member options f kind key st)"
proof -
  let ?d = "zf_UncompressedSize64 f"
  let ?st = "st\<lparr>px_declaredTotal := px_declaredTotal st + ?d\<rparr>"
  have "within_budget options ?st"
    if "\<not> ?d > ao_MaxTotalBytes options" "\<not> px_declaredTotal st > ao_MaxTotalBytes options - ?d"
    using inv budget_add(1) [of ?d "ao_MaxTotalBytes options" "px_declaredTotal st"] that by (simp add: within_budget_def)
  then have "within_budget options (read_member options f kind key ?st)"
    if "\<not> ?d > ao_MaxTotalBytes options" "\<not> px_declaredTotal st > ao_MaxTotalBytes options - ?d"
    using that room assms(3,4) by (intro within_budget_read_member) simp_all
  moreover have "within_budget options (recordArchiveEntry kind key (declared_entry f key) (add_finding g st))" for g
    by (rule within_budget_declared) (use inv room in simp_all)
  ultimately show ?thesis by (simp add: parse_member_def Let_def)
qed

lemma within_budget_parse_file:
  assumes inv: "within_budget options st" and "buffered_file f" and "unat (ao_MaxEntryBytes options) + 32768 < 2 ^ 64"
  shows "within_budget options (parse_file lower options f st)"
proof -
  let ?st = "st\<lparr>px_fileCount := px_fileCount st + 1\<rparr>"
  have counted: "within_budget options ?st" using inv by (auto simp: within_budget_def)
  have warned: "within_budget options (s\<lparr>px_warnings := w\<rparr>) = within_budget options s" for s w
    by (simp add: within_budget_def)
  have "within_budget options (parse_member options f kind key ?st)" if "px_fileCount ?st \<le> ao_MaxFiles options" for kind key
    by (rule within_budget_member [OF counted _ assms(2,3)]) (use that inv in \<open>auto simp: within_budget_def\<close>)
  then show ?thesis using inv counted by (auto simp: parse_file_def Let_def warned split: option.splits)
qed

lemma within_budget_parse_files:
  assumes "\<forall>f \<in> set files. buffered_file f" and "unat (ao_MaxEntryBytes options) + 32768 < 2 ^ 64"
  shows "within_budget options (parse_files lower options files)"
proof -
  have "within_budget options (fold (parse_file lower options) files st)" if "within_budget options st" for st
    using assms(1) that by (induction files arbitrary: st) (auto intro!: within_budget_parse_file [OF _ _ assms(2)])
  moreover have "within_budget options empty_state" by (simp add: empty_state_def within_budget_def)
  ultimately show ?thesis unfolding parse_files_def by blast
qed

subsection \<open>Pairing\<close>

text \<open>Go walks a map in some order; the pairs come out sorted whatever it is.\<close>

definition walks_map :: "(entry_map \<Rightarrow> entry_map) \<Rightarrow> bool" where
  "walks_map iter \<longleftrightarrow> (\<forall>m. mset (iter m) = mset m)"

definition paired_keys :: "parse_state \<Rightarrow> string list" where
  "paired_keys st = map fst (filter (paired_with (px_outputs st)) (px_inputs st))"

lemma mset_filter_iter: "walks_map iter \<Longrightarrow> mset (map g (filter P (iter m))) = mset (map g (filter P m))"
  by (simp add: walks_map_def)

lemma sortTestcaseKeys_mset:
  assumes "mset ks = mset ks'"
  shows "sortTestcaseKeys lower ks = sortTestcaseKeys lower ks'"
  unfolding sortTestcaseKeys_def
  by (rule natural.sort_by_unique) (use assms naturalLess_linear natural.ordered_sort_by in auto)

lemma pair_entries_iter:
  assumes "walks_map iter"
  shows "pa_cases (pair_entries lower iter options st) = map (case_of (px_inputs st) (px_outputs st)) (sortTestcaseKeys lower (paired_keys st))"
    and "pa_testcases (pair_entries lower iter options st) =
      map_idx (testcase_of options (px_inputs st) (px_outputs st)) 0 (sortTestcaseKeys lower (paired_keys st))"
    and "pa_warnings (pair_entries lower iter options st) = px_warnings st"
proof -
  let ?ks = "map fst (filter (paired_with (px_outputs st)) (iter (px_inputs st)))"
  have m: "mset ?ks = mset (paired_keys st)" unfolding paired_keys_def by (rule mset_filter_iter [OF assms])
  then have eq: "sortTestcaseKeys lower ?ks = sortTestcaseKeys lower (paired_keys st)" by (rule sortTestcaseKeys_mset)
  have nil: "?ks = [] \<longleftrightarrow> paired_keys st = []" using m by (metis mset_zero_iff)
  have [simp]: "sortTestcaseKeys lower [] = []" by (simp add: sortTestcaseKeys_def)
  show "pa_cases (pair_entries lower iter options st) = map (case_of (px_inputs st) (px_outputs st)) (sortTestcaseKeys lower (paired_keys st))"
    and "pa_testcases (pair_entries lower iter options st) =
      map_idx (testcase_of options (px_inputs st) (px_outputs st)) 0 (sortTestcaseKeys lower (paired_keys st))"
    and "pa_warnings (pair_entries lower iter options st) = px_warnings st"
    unfolding pair_entries_def Let_def eq using nil by (auto simp del: map_is_Nil_conv filter_empty_conv)
qed

lemma pair_entries_findings:
  assumes "walks_map iter" and "walks_map iter'"
  shows "mset (pa_findings (pair_entries lower iter options st)) = mset (pa_findings (pair_entries lower iter' options st))"
proof -
  let ?ks = "\<lambda>it. map fst (filter (paired_with (px_outputs st)) (it (px_inputs st)))"
  have "mset (?ks iter) = mset (?ks iter')" using assms by (simp only: mset_filter_iter)
  then have nil: "?ks iter = [] \<longleftrightarrow> ?ks iter' = []" by (metis mset_zero_iff)
  have "mset (map g (filter P (iter m))) = mset (map g (filter P (iter' m)))" for g :: "string \<times> archive_entry \<Rightarrow> finding" and P m
    using assms by (simp only: mset_filter_iter)
  then show ?thesis unfolding pair_entries_def Let_def using nil
    by (auto simp del: map_is_Nil_conv filter_empty_conv mset_map mset_filter simp: if_distrib)
qed


subsection \<open>Accepted archives\<close>

definition kept_member :: "zip_file \<Rightarrow> bool" where
  "kept_member f \<longleftrightarrow> \<not> zf_IsDir f \<and> \<not> ignoredArchivePath (normalizeArchivePath (zf_Name f))"

definition member_kind :: "(string \<Rightarrow> string) \<Rightarrow> zip_file \<Rightarrow> (file_kind \<times> string) option" where
  "member_kind lower f = classifyTestcaseFile lower (normalizeArchivePath (zf_Name f))"

text \<open>The members recorded so far, with the kind and key each was recorded under.\<close>

definition recorded :: "parse_state \<Rightarrow> ((file_kind \<times> string) option \<times> zip_file) multiset" where
  "recorded st = mset (map (\<lambda>e. (Some (archiveInput, fst e), ae_file (snd e))) (px_inputs st)
                 @ map (\<lambda>e. (Some (archiveOutput, fst e), ae_file (snd e))) (px_outputs st))"

definition contents_kept :: "archive_options \<Rightarrow> parse_state \<Rightarrow> bool" where
  "contents_kept options st \<longleftrightarrow> (\<forall>e \<in> snd ` set (px_inputs st) \<union> snd ` set (px_outputs st).
     ae_content e = (if ao_KeepContents options then member_bytes (ae_file e) else []))"

abbreviation clean :: "parse_state \<Rightarrow> bool" where
  "clean st \<equiv> \<not> HasErrorFindings (px_findings st)"

lemma HasErrorFindings_simps [simp]:
  "\<not> HasErrorFindings []" "HasErrorFindings (fs @ gs) \<longleftrightarrow> HasErrorFindings fs \<or> HasErrorFindings gs"
  "HasErrorFindings (f # fs) \<longleftrightarrow> fi_Severity f = SeverityError \<or> HasErrorFindings fs"
  by (auto simp: HasErrorFindings_def)

lemma severity_simps [simp]:
  "fi_Severity (errorFinding c f m) = SeverityError" "fi_Severity (warningFinding c f m) = SeverityWarning"
  "fi_Severity (duplicate_finding e p) = SeverityError"
  "fi_Severity (output_missing x) = SeverityError" "fi_Severity (input_missing x) = SeverityError"
  by (simp_all add: errorFinding_def warningFinding_def duplicate_finding_def output_missing_def input_missing_def)

lemma record_clean:
  assumes "clean (recordArchiveEntry kind key e st)"
  shows "clean st \<and> recorded (recordArchiveEntry kind key e st) = recorded st + {#(Some (kind, key), ae_file e)#}
     \<and> (contents_kept options (recordArchiveEntry kind key e st) \<longleftrightarrow> contents_kept options st
          \<and> ae_content e = (if ao_KeepContents options then member_bytes (ae_file e) else []))"
  using assms by (cases kind) (auto simp: recordArchiveEntry_def recorded_def contents_kept_def split: option.splits)

lemma read_member_clean:
  assumes "clean (read_member options f kind key st)"
  shows "clean st \<and> recorded (read_member options f kind key st) = recorded st + {#(Some (kind, key), f)#}
     \<and> (contents_kept options (read_member options f kind key st) \<longleftrightarrow> contents_kept options st)"
proof (cases "readArchiveEntry f options (ao_MaxEntryBytes options)")
  case (ReadOK content n)
  let ?e = "\<lparr>ae_file = f, ae_key = key, ae_size = sint n, ae_content = content\<rparr>"
  let ?st = "st\<lparr>px_actualTotal := px_actualTotal st + n\<rparr>"
  from assms ReadOK have eq: "read_member options f kind key st = recordArchiveEntry kind key ?e ?st"
    by (auto simp: read_member_def split: if_splits)
  have same: "recorded ?st = recorded st" "contents_kept options ?st = contents_kept options st"
    by (simp_all add: recorded_def contents_kept_def)
  from record_clean [OF assms [unfolded eq], of options] same readArchiveEntry_OK(1) [OF ReadOK]
  show ?thesis unfolding eq by simp
qed (use assms in \<open>simp_all add: read_member_def\<close>)

lemma parse_member_clean:
  assumes "clean (parse_member options f kind key st)"
  shows "clean st \<and> recorded (parse_member options f kind key st) = recorded st + {#(Some (kind, key), f)#}
     \<and> (contents_kept options (parse_member options f kind key st) \<longleftrightarrow> contents_kept options st)"
proof -
  let ?st = "st\<lparr>px_declaredTotal := px_declaredTotal st + zf_UncompressedSize64 f\<rparr>"
  have "\<not> clean (recordArchiveEntry kind key (declared_entry f key) (add_finding (errorFinding c n m) st))" for c n m
    using record_clean [of kind key "declared_entry f key" "add_finding (errorFinding c n m) st"] by auto
  with assms have eq: "parse_member options f kind key st = read_member options f kind key ?st"
    by (auto simp: parse_member_def Let_def split: if_splits)
  have "recorded ?st = recorded st" "contents_kept options ?st = contents_kept options st"
    by (simp_all add: recorded_def contents_kept_def)
  with read_member_clean [OF assms [unfolded eq]] show ?thesis unfolding eq by simp
qed

lemma parse_file_clean:
  assumes "clean (parse_file lower options f st)"
  shows "clean st \<and> recorded (parse_file lower options f st) =
       recorded st + (if kept_member f then {#(member_kind lower f, f)#} else {#})
     \<and> (contents_kept options (parse_file lower options f st) \<longleftrightarrow> contents_kept options st)"
proof -
  let ?st = "st\<lparr>px_fileCount := px_fileCount st + 1\<rparr>"
  have same: "recorded (add_finding g s) = recorded s" "contents_kept options (add_finding g s) = contents_kept options s"
    "recorded (s\<lparr>px_warnings := w\<rparr>) = recorded s" "contents_kept options (s\<lparr>px_warnings := w\<rparr>) = contents_kept options s"
    "recorded ?st = recorded st" "contents_kept options ?st = contents_kept options st" for g s w
    by (simp_all add: recorded_def contents_kept_def)
  show ?thesis
  proof (cases "kept_member f")
    case True
    with assms obtain kind key where k: "member_kind lower f = Some (kind, key)"
      and eq: "parse_file lower options f st = parse_member options f kind key ?st"
      by (auto simp: parse_file_def Let_def kept_member_def member_kind_def split: if_splits option.splits)
    from parse_member_clean [OF assms [unfolded eq]] True k show ?thesis unfolding eq same by simp
  next
    case False
    with assms show ?thesis by (auto simp: parse_file_def Let_def kept_member_def same split: if_splits)
  qed
qed

lemma parse_files_clean:
  assumes "clean (parse_files lower options files)"
  shows "recorded (parse_files lower options files) = mset (map (\<lambda>f. (member_kind lower f, f)) (filter kept_member files))
     \<and> contents_kept options (parse_files lower options files)"
proof -
  have "clean st \<and> recorded (fold (parse_file lower options) files st)
        = recorded st + mset (map (\<lambda>f. (member_kind lower f, f)) (filter kept_member files))
      \<and> (contents_kept options (fold (parse_file lower options) files st) \<longleftrightarrow> contents_kept options st)"
    if "clean (fold (parse_file lower options) files st)" for st
    using that
  proof (induction files arbitrary: st)
    case (Cons f fs)
    from Cons.IH [of "parse_file lower options f st"] Cons.prems
    have IH: "clean (parse_file lower options f st)"
      "recorded (fold (parse_file lower options) (f # fs) st) = recorded (parse_file lower options f st)
         + mset (map (\<lambda>f. (member_kind lower f, f)) (filter kept_member fs))"
      "contents_kept options (fold (parse_file lower options) (f # fs) st) \<longleftrightarrow> contents_kept options (parse_file lower options f st)"
      by simp_all
    from parse_file_clean [OF IH(1)] IH(2,3) show ?case by simp
  qed simp
  from this [of empty_state] assms show ?thesis
    by (simp add: parse_files_def recorded_def contents_kept_def empty_state_def)
qed


lemma parse_files_distinct:
  "distinct (map fst (px_inputs (parse_files lower options files)))
   \<and> distinct (map fst (px_outputs (parse_files lower options files)))"
proof -
  define D where "D st \<longleftrightarrow> distinct (map fst (px_inputs st)) \<and> distinct (map fst (px_outputs st))" for st :: parse_state
  have rec: "D st \<Longrightarrow> D (recordArchiveEntry kind key e st)" for kind key e st
    by (cases kind) (auto simp: D_def recordArchiveEntry_def map_of_eq_None_iff split: option.splits)
  have upd: "D (add_finding f st) = D st" "D (st\<lparr>px_actualTotal := n\<rparr>) = D st" "D (st\<lparr>px_declaredTotal := n\<rparr>) = D st"
    "D (st\<lparr>px_fileCount := i\<rparr>) = D st" "D (st\<lparr>px_warnings := w\<rparr>) = D st" for f st n i w by (simp_all add: D_def)
  have "D st \<Longrightarrow> D (read_member options f kind key st)" for f kind key st
    by (simp add: read_member_def upd rec split: read_outcome.splits)
  then have "D st \<Longrightarrow> D (parse_member options f kind key st)" for f kind key st
    by (simp add: parse_member_def Let_def upd rec)
  then have step: "D st \<Longrightarrow> D (parse_file lower options f st)" for f st
    by (simp add: parse_file_def Let_def upd split: option.splits prod.splits)
  have "D st \<Longrightarrow> D (fold (parse_file lower options) fs st)" for fs st
    by (induction fs arbitrary: st) (simp_all add: step)
  moreover have "D empty_state" by (simp add: D_def empty_state_def)
  ultimately show ?thesis unfolding parse_files_def D_def by blast
qed

lemma parseArchive_clean:
  assumes "walks_map iter" and "\<not> HasErrorFindings (pa_findings (parseArchive lower iter r n options))"
  obtains files st where "ab_Files r = Inr files" and "st = parse_files lower (withDefaults options) files"
    and "parseArchive lower iter r n options = pair_entries lower iter (withDefaults options) st" and "clean st"
    and "fst ` set (px_inputs st) = fst ` set (px_outputs st)" and "px_inputs st \<noteq> []"
proof -
  let ?o = "withDefaults options"
  from assms(2) obtain files where files: "ab_Files r = Inr files"
    and eq: "parseArchive lower iter r n options = pair_entries lower iter ?o (parse_files lower ?o files)"
    by (auto simp: parseArchive_def Let_def rejected_def checksum_finding_def split: if_splits option.splits sum.splits)
  define st where "st = parse_files lower ?o files"
  have set_iter: "set (iter m) = set m" for m using assms(1) unfolding walks_map_def by (metis mset_eq_setD)
  have pf: "pa_findings (pair_entries lower iter ?o st) =
      px_findings st @ map output_missing (filter (\<lambda>e. \<not> paired_with (px_outputs st) e) (iter (px_inputs st)))
        @ map input_missing (filter (\<lambda>e. \<not> paired_with (px_inputs st) e) (iter (px_outputs st)))"
      "map fst (filter (paired_with (px_outputs st)) (iter (px_inputs st))) \<noteq> []"
    using assms(2) unfolding eq st_def [symmetric] pair_entries_def Let_def by (simp_all split: if_splits)
  have no: "\<not> HasErrorFindings (map g (filter P m)) \<longleftrightarrow> (\<forall>e \<in> set m. \<not> P e)"
    if "\<And>e. fi_Severity (g e) = SeverityError" for g :: "string \<times> archive_entry \<Rightarrow> finding" and P m
    using that by (auto simp: HasErrorFindings_def)
  have "clean st" and all: "\<forall>e \<in> set (px_inputs st). paired_with (px_outputs st) e"
      "\<forall>e \<in> set (px_outputs st). paired_with (px_inputs st) e"
    using assms(2) unfolding eq st_def [symmetric] pf by (auto simp: no set_iter)
  moreover have "fst ` set (px_inputs st) = fst ` set (px_outputs st)"
    using all by (fastforce simp: paired_with_def map_of_eq_None_iff image_iff)
  moreover have "px_inputs st \<noteq> []" using pf(2) set_iter [of "px_inputs st"] by auto
  ultimately show thesis using that [OF files st_def] eq st_def by simp
qed

lemma map_of_keys: "distinct (map fst m) \<Longrightarrow> map (\<lambda>k. g (the (map_of m k))) (map fst m) = map (g \<circ> snd) m"
  by (auto intro!: map_cong)

lemma sorted_keys:
  assumes "distinct ks"
  shows "sorted_wrt (naturalLess lower) (sortTestcaseKeys lower ks)"
proof -
  let ?s = "sortTestcaseKeys lower ks"
  have "distinct ?s" using assms distinct_map_sort_by [of id "naturalLess lower" ks] by (simp add: sortTestcaseKeys_def)
  moreover have "sorted_wrt (\<lambda>x y. \<not> naturalLess lower y x) ?s"
    using natural.ordered_sort_by unfolding sortTestcaseKeys_def natural.ordered_def by blast
  ultimately show ?thesis
    unfolding sorted_wrt_iff_nth_less distinct_conv_nth by (metis naturalLess_linear nat_neq_iff order_less_trans)
qed

definition reads_member :: "(string \<Rightarrow> string) \<Rightarrow> zip_file list \<Rightarrow> archive_case \<Rightarrow> problem_testcase \<Rightarrow> bool" where
  "reads_member lower files c t \<longleftrightarrow>
     (\<exists>f \<in> set files. zf_Name f = ac_InputPath c \<and> member_kind lower f = Some (archiveInput, ac_Key c)
        \<and> tc_InputKey t = member_bytes f)
     \<and> (\<exists>f \<in> set files. zf_Name f = ac_OutputPath c \<and> member_kind lower f = Some (archiveOutput, ac_Key c)
        \<and> tc_OutputKey t = member_bytes f)"


lemma recorded_entry:
  assumes "clean (parse_files lower options files)" and "ao_KeepContents options"
  shows "e \<in> set (px_inputs (parse_files lower options files)) \<Longrightarrow> ae_file (snd e) \<in> set files
      \<and> member_kind lower (ae_file (snd e)) = Some (archiveInput, fst e) \<and> ae_content (snd e) = member_bytes (ae_file (snd e))"
    and "e \<in> set (px_outputs (parse_files lower options files)) \<Longrightarrow> ae_file (snd e) \<in> set files
      \<and> member_kind lower (ae_file (snd e)) = Some (archiveOutput, fst e) \<and> ae_content (snd e) = member_bytes (ae_file (snd e))"
proof -
  let ?st = "parse_files lower options files"
  note c = parse_files_clean [OF assms(1)]
  have "(k, f) \<in># recorded ?st \<Longrightarrow> f \<in> set files \<and> member_kind lower f = k" for k f
    unfolding conjunct1 [OF c] by auto
  moreover have "e \<in> set (px_inputs ?st) \<Longrightarrow> (Some (archiveInput, fst e), ae_file (snd e)) \<in># recorded ?st"
    "e \<in> set (px_outputs ?st) \<Longrightarrow> (Some (archiveOutput, fst e), ae_file (snd e)) \<in># recorded ?st"
    by (auto simp: recorded_def)
  moreover have "e \<in> set (px_inputs ?st) \<union> set (px_outputs ?st) \<Longrightarrow> ae_content (snd e) = member_bytes (ae_file (snd e))"
    using bspec [OF conjunct2 [OF c, unfolded contents_kept_def], of "snd e"] assms(2) by (auto simp only: if_True Un_iff image_eqI)
  ultimately show "e \<in> set (px_inputs ?st) \<Longrightarrow> ae_file (snd e) \<in> set files
      \<and> member_kind lower (ae_file (snd e)) = Some (archiveInput, fst e) \<and> ae_content (snd e) = member_bytes (ae_file (snd e))"
    "e \<in> set (px_outputs ?st) \<Longrightarrow> ae_file (snd e) \<in> set files
      \<and> member_kind lower (ae_file (snd e)) = Some (archiveOutput, fst e) \<and> ae_content (snd e) = member_bytes (ae_file (snd e))"
    by blast+
qed

lemma paired_state:
  assumes "distinct (map fst (px_inputs st))" and "distinct (map fst (px_outputs st))"
    and "fst ` set (px_inputs st) = fst ` set (px_outputs st)"
  shows "paired_keys st = map fst (px_inputs st)" and "mset (map fst (px_outputs st)) = mset (map fst (px_inputs st))"
proof -
  have "paired_with (px_outputs st) e" if "e \<in> set (px_inputs st)" for e
    using that assms(3) by (auto simp: paired_with_def map_of_eq_None_iff)
  then show "paired_keys st = map fst (px_inputs st)" unfolding paired_keys_def by (simp cong: filter_cong)
  show "mset (map fst (px_outputs st)) = mset (map fst (px_inputs st))"
    using assms by (simp add: set_eq_iff_mset_eq_distinct [symmetric] del: mset_map)
qed

lemma case_paths:
  assumes "distinct (map fst (px_inputs st))" and "distinct (map fst (px_outputs st))"
    and "fst ` set (px_inputs st) = fst ` set (px_outputs st)" and "mset ks = mset (paired_keys st)"
  shows "mset (map ac_InputPath (map (case_of (px_inputs st) (px_outputs st)) ks)
           @ map ac_OutputPath (map (case_of (px_inputs st) (px_outputs st)) ks)) = image_mset (zf_Name \<circ> snd) (recorded st)"
proof -
  let ?i = "px_inputs st" and ?o = "px_outputs st"
  note p = paired_state [OF assms(1-3)]
  have "mset (map (\<lambda>k. zf_Name (ae_file (the (map_of ?i k)))) ks) = mset (map (\<lambda>k. zf_Name (ae_file (the (map_of ?i k)))) (map fst ?i))"
    unfolding mset_map assms(4) p ..
  moreover have "mset (map (\<lambda>k. zf_Name (ae_file (the (map_of ?o k)))) ks) = mset (map (\<lambda>k. zf_Name (ae_file (the (map_of ?o k)))) (map fst ?o))"
    unfolding mset_map assms(4) p(1) p(2) [unfolded mset_map, symmetric] ..
  ultimately show ?thesis
    using map_of_keys [OF assms(1), of "\<lambda>e. zf_Name (ae_file e)"] map_of_keys [OF assms(2), of "\<lambda>e. zf_Name (ae_file e)"]
    by (simp add: case_of_def Let_def comp_def recorded_def image_mset.compositionality del: map_map)
qed

lemma map_idx_ids: "map tc_ID (map_idx (testcase_of options i out) k ks) = map (\<lambda>j. int j + 1) [k..<k + length ks]"
  by (rule nth_equalityI) (simp_all add: testcase_of_def)

text \<open>
  The case order is total and numeric. The comparison of case names is a strict total order, so the
  numbering of the cases of an archive is determined by their names, whatever Unicode's lower-casing
  is; and names that are numbers come in the order of their values, however long they are (\<^verbatim>\<open>2\<close> before
  \<^verbatim>\<open>10\<close>, with the spelling deciding between \<^verbatim>\<open>7\<close> and \<^verbatim>\<open>07\<close>).
\<close>

theorem natural_order_total:
  shows "\<not> naturalLess lower a a \<and> (naturalLess lower a b \<longrightarrow> naturalLess lower b c \<longrightarrow> naturalLess lower a c)
     \<and> (a \<noteq> b \<longrightarrow> naturalLess lower a b \<or> naturalLess lower b a)
     \<and> (a \<noteq> [] \<longrightarrow> b \<noteq> [] \<longrightarrow> digits_value 0 a = Some m \<longrightarrow> digits_value 0 b = Some n \<longrightarrow>
          (naturalLess lower a b \<longleftrightarrow> m < n \<or> m = n \<and> a < b))"
  using naturalLess_irrefl naturalLess_trans naturalLess_linear naturalLess_numbers by blast

text \<open>
  An archive that is accepted is used completely. The parser found no error: then every file of the
  archive that is not metadata is the input or the output of exactly one case, the cases are in strictly
  increasing natural order of their names and numbered from 1, and each case carries the bytes of the
  two members with its name.
\<close>

theorem accepted_archive_complete:
  assumes "walks_map iter" and "parseArchive lower iter r n options = result" and "ao_KeepContents options"
    and "\<not> HasErrorFindings (pa_findings result)"
  shows "\<exists>files. ab_Files r = Inr files \<and> pa_cases result \<noteq> []
     \<and> mset (map ac_InputPath (pa_cases result) @ map ac_OutputPath (pa_cases result))
         = mset (map zf_Name (filter kept_member files))
     \<and> sorted_wrt (naturalLess lower) (map ac_Key (pa_cases result))
     \<and> map tc_ID (pa_testcases result) = map (\<lambda>i. int i + 1) [0..<length (pa_cases result)]
     \<and> list_all2 (reads_member lower files) (pa_cases result) (pa_testcases result)"
proof -
  from parseArchive_clean [OF assms(1), of lower r n options] assms(2,4) obtain files st where
    files: "ab_Files r = Inr files" and st: "st = parse_files lower (withDefaults options) files"
    and eq: "result = pair_entries lower iter (withDefaults options) st" and "clean st"
    and keys: "fst ` set (px_inputs st) = fst ` set (px_outputs st)" and ne: "px_inputs st \<noteq> []" by metis
  let ?ks = "sortTestcaseKeys lower (paired_keys st)"
  note cases = pair_entries_iter [OF assms(1), of lower "withDefaults options" st, folded eq]
  have keep: "ao_KeepContents (withDefaults options)" using assms(3) by (simp add: withDefaults_def)
  have d: "distinct (map fst (px_inputs st))" "distinct (map fst (px_outputs st))" using parse_files_distinct st by auto
  have m: "mset ?ks = mset (paired_keys st)" by (simp add: sortTestcaseKeys_def)
  note p = paired_state [OF d keys]
  have set_ks: "set ?ks = fst ` set (px_inputs st)" "set ?ks = fst ` set (px_outputs st)"
    using mset_eq_setD [OF m] p(1) keys by simp_all
  note rec = recorded_entry [OF \<open>clean st\<close> [unfolded st] keep, folded st]
  have "reads_member lower files (case_of (px_inputs st) (px_outputs st) k)
          (testcase_of (withDefaults options) (px_inputs st) (px_outputs st) i k)" if k: "k \<in> set ?ks" for i k
  proof -
    from k set_ks(1) obtain e where "(k, e) \<in> set (px_inputs st)" by auto
    moreover from k set_ks(2) obtain e' where "(k, e') \<in> set (px_outputs st)" by auto
    ultimately show ?thesis
      using rec(1) [of "(k, e)"] rec(2) [of "(k, e')"] d
      by (auto simp: reads_member_def case_of_def testcase_of_def Let_def)
  qed
  then have "list_all2 (reads_member lower files) (pa_cases result) (pa_testcases result)"
    unfolding cases by (auto simp: list_all2_conv_all_nth)
  moreover have "map ac_Key (pa_cases result) = ?ks" unfolding cases by (simp add: case_of_def Let_def comp_def)
  moreover have "sorted_wrt (naturalLess lower) ?ks" using sorted_keys d(1) p(1) by simp
  moreover have "image_mset (zf_Name \<circ> snd) (recorded st) = mset (map zf_Name (filter kept_member files))"
    using parse_files_clean [OF \<open>clean st\<close> [unfolded st]] by (simp add: st image_mset.compositionality comp_def)
  moreover have "length ?ks \<noteq> 0" using set_ks(1) ne by (cases ?ks) auto
  ultimately show ?thesis
    using files case_paths [OF d keys m] map_idx_ids [of "withDefaults options" _ _ 0 ?ks] unfolding cases by auto
qed


subsection \<open>What the uploader validated, the judge loads\<close>

text \<open>Whether contents are kept changes nothing but the contents.\<close>

definition forget_map :: "entry_map \<Rightarrow> entry_map" where
  "forget_map m = map (\<lambda>e. (fst e, (snd e)\<lparr>ae_content := []\<rparr>)) m"

definition forget :: "parse_state \<Rightarrow> parse_state" where
  "forget st = st\<lparr>px_inputs := forget_map (px_inputs st), px_outputs := forget_map (px_outputs st)\<rparr>"

lemma forget_simps [simp]:
  "px_inputs (forget st) = forget_map (px_inputs st)" "px_outputs (forget st) = forget_map (px_outputs st)"
  "px_findings (forget st) = px_findings st" "px_fileCount (forget st) = px_fileCount st"
  "px_actualTotal (forget st) = px_actualTotal st" "px_declaredTotal (forget st) = px_declaredTotal st"
  "px_warnings (forget st) = px_warnings st"
  "forget (add_finding f st) = add_finding f (forget st)" "forget (st\<lparr>px_actualTotal := n\<rparr>) = (forget st)\<lparr>px_actualTotal := n\<rparr>"
  "forget (st\<lparr>px_declaredTotal := n\<rparr>) = (forget st)\<lparr>px_declaredTotal := n\<rparr>"
  "forget (st\<lparr>px_fileCount := i\<rparr>) = (forget st)\<lparr>px_fileCount := i\<rparr>"
  "forget (st\<lparr>px_warnings := w\<rparr>) = (forget st)\<lparr>px_warnings := w\<rparr>"
  "forget empty_state = empty_state"
  by (simp_all add: forget_def add_finding_def empty_state_def forget_map_def)

lemma map_of_forget [simp]: "map_of (forget_map m) k = map_option (\<lambda>e. e\<lparr>ae_content := []\<rparr>) (map_of m k)"
  by (induction m) (auto simp: forget_map_def)

lemma forget_record:
  "forget (recordArchiveEntry kind key e st) = recordArchiveEntry kind key (e\<lparr>ae_content := []\<rparr>) (forget st)"
proof -
  have put: "forget (st\<lparr>px_inputs := m\<rparr>) = (forget st)\<lparr>px_inputs := forget_map m\<rparr>"
    "forget (st\<lparr>px_outputs := m\<rparr>) = (forget st)\<lparr>px_outputs := forget_map m\<rparr>"
    "forget_map (m @ [(key, e)]) = forget_map m @ [(key, e\<lparr>ae_content := []\<rparr>)]" for m
    by (simp_all add: forget_def forget_map_def)
  have dup: "duplicate_finding (e\<lparr>ae_content := []\<rparr>) (x\<lparr>ae_content := []\<rparr>) = duplicate_finding e x" for x
    by (simp add: duplicate_finding_def)
  show ?thesis by (cases kind) (simp_all add: recordArchiveEntry_def put dup split: option.splits)
qed

text \<open>Two option records that agree on the budgets.\<close>

definition same_budgets :: "archive_options \<Rightarrow> archive_options \<Rightarrow> bool" where
  "same_budgets p q \<longleftrightarrow> ao_MaxEntryBytes p = ao_MaxEntryBytes q \<and> ao_MaxTotalBytes p = ao_MaxTotalBytes q
     \<and> ao_MaxFiles p = ao_MaxFiles q \<and> ao_MaxCompressionRatio p = ao_MaxCompressionRatio q"

lemma read_chunks_forget:
  "read_chunks keep maxBytes kept sofar chunks err =
     (case read_chunks keep' maxBytes kept' sofar chunks err of
        ReadOK c n \<Rightarrow> ReadOK (if keep then kept @ concat chunks else kept) n | ReadTooLarge \<Rightarrow> ReadTooLarge | ReadFailed \<Rightarrow> ReadFailed)"
proof (induction chunks arbitrary: kept kept' sofar)
  case (Cons c cs)
  show ?case using Cons.IH [of "if keep then kept @ c else kept" "sofar + of_nat (length c)" "if keep' then kept' @ c else kept'"]
    by (auto simp: Let_def split: read_outcome.splits)
qed (auto split: option.splits)

lemma readArchiveEntry_forget:
  assumes "\<not> ao_KeepContents q"
  shows "readArchiveEntry f q n = (case readArchiveEntry f p n of
     ReadOK c k \<Rightarrow> ReadOK [] k | ReadTooLarge \<Rightarrow> ReadTooLarge | ReadFailed \<Rightarrow> ReadFailed)"
proof (cases "zf_Open f")
  case (Inr ce)
  obtain chunks err where ce: "ce = (chunks, err)" by (cases ce)
  show ?thesis
    using Inr ce assms read_chunks_forget [of False n "[]" 0 chunks err "ao_KeepContents p" "[]"]
    by (simp add: readArchiveEntry_def split: read_outcome.splits)
qed (simp add: readArchiveEntry_def)

lemma forget_read_member:
  assumes "same_budgets p q" and "\<not> ao_KeepContents q"
  shows "forget (read_member p f kind key st) = read_member q f kind key (forget st)"
  using assms(1) readArchiveEntry_forget [OF assms(2), of f "ao_MaxEntryBytes q" p]
  by (cases "readArchiveEntry f p (ao_MaxEntryBytes q)")
    (simp_all add: read_member_def same_budgets_def forget_record)

lemma forget_parse_file:
  assumes "same_budgets p q" and "\<not> ao_KeepContents q"
  shows "forget (parse_file lower p f st) = parse_file lower q f (forget st)"
proof -
  have "forget (parse_member p f kind key st) = parse_member q f kind key (forget st)" for kind key st
    using assms(1) by (simp add: parse_member_def Let_def forget_read_member [OF assms] forget_record declared_entry_def same_budgets_def)
  then show ?thesis using assms(1) by (simp add: parse_file_def Let_def same_budgets_def split: option.splits prod.splits)
qed

lemma forget_parse_files:
  assumes "same_budgets p q" and "\<not> ao_KeepContents q"
  shows "forget (parse_files lower p files) = parse_files lower q files"
proof -
  have "forget (fold (parse_file lower p) files st) = fold (parse_file lower q) files (forget st)" for st
    by (induction files arbitrary: st) (simp_all add: forget_parse_file [OF assms])
  from this [of empty_state] show ?thesis by (simp add: parse_files_def)
qed

lemma paired_with_forget [simp]: "paired_with (forget_map m) e = paired_with m e"
  by (simp add: paired_with_def)

lemma forget_pairs:
  "pa_findings (pair_entries lower id q (forget st)) = pa_findings (pair_entries lower id p st)"
  "length (pa_cases (pair_entries lower id q (forget st))) = length (pa_testcases (pair_entries lower id p st))"
proof -
  have fil: "map g (filter (\<lambda>e. P (fst e)) (forget_map m)) = map g (filter (\<lambda>e. P (fst e)) m)"
    if "\<And>e. g (fst e, (snd e)\<lparr>ae_content := []\<rparr>) = g e" for g :: "string \<times> archive_entry \<Rightarrow> 'x" and P m
    by (induction m) (auto simp: forget_map_def that)
  have unp: "(\<lambda>e. \<not> paired_with m e) = (\<lambda>e. map_of m (fst e) = None)" "paired_with m = (\<lambda>e. map_of m (fst e) \<noteq> None)" for m
    by (auto simp: paired_with_def)
  show "pa_findings (pair_entries lower id q (forget st)) = pa_findings (pair_entries lower id p st)"
    and "length (pa_cases (pair_entries lower id q (forget st))) = length (pa_testcases (pair_entries lower id p st))"
    unfolding pair_entries_def Let_def forget_simps paired_with_forget unp id_apply
    using fil [of output_missing "\<lambda>k. map_of (px_outputs st) k = None" "px_inputs st"]
      fil [of input_missing "\<lambda>k. map_of (px_inputs st) k = None" "px_outputs st"]
      fil [of fst "\<lambda>k. map_of (px_outputs st) k \<noteq> None" "px_inputs st"]
    by (simp_all add: output_missing_def input_missing_def del: map_is_Nil_conv filter_empty_conv)
qed


lemma walks_id: "walks_map id"
  by (simp add: walks_map_def)

lemma parseArchive_iter:
  assumes "walks_map iter" and "walks_map iter'"
  shows "pa_cases (parseArchive lower iter r n options) = pa_cases (parseArchive lower iter' r n options)"
    and "pa_testcases (parseArchive lower iter r n options) = pa_testcases (parseArchive lower iter' r n options)"
    and "pa_warnings (parseArchive lower iter r n options) = pa_warnings (parseArchive lower iter' r n options)"
    and "mset (pa_findings (parseArchive lower iter r n options)) = mset (pa_findings (parseArchive lower iter' r n options))"
  by (simp_all add: parseArchive_def Let_def pair_entries_iter [OF assms(1)] pair_entries_iter [OF assms(2)]
      pair_entries_findings [OF assms] split: option.splits sum.splits)

lemma HasErrorFindings_mset: "mset fs = mset gs \<Longrightarrow> HasErrorFindings fs = HasErrorFindings gs"
  unfolding HasErrorFindings_def by (metis mset_eq_setD)

lemma parseArchive_forget:
  assumes "same_budgets (withDefaults p) (withDefaults q)" and "\<not> ao_KeepContents q"
    and "ao_MaxBytes (withDefaults p) = ao_MaxBytes (withDefaults q)"
    and "checksum_finding (withDefaults p) r = None" and "checksum_finding (withDefaults q) r = None"
  shows "pa_findings (parseArchive lower id r n q) = pa_findings (parseArchive lower id r n p)"
    and "length (pa_cases (parseArchive lower id r n q)) = length (pa_testcases (parseArchive lower id r n p))"
proof -
  have "\<not> ao_KeepContents (withDefaults q)" using assms(2) by (simp add: withDefaults_def)
  note eq = forget_parse_files [OF assms(1) this, of lower, symmetric]
  show "pa_findings (parseArchive lower id r n q) = pa_findings (parseArchive lower id r n p)"
    and "length (pa_cases (parseArchive lower id r n q)) = length (pa_testcases (parseArchive lower id r n p))"
    using assms(3-5) by (simp_all add: parseArchive_def Let_def rejected_def eq
        forget_pairs [where p = "withDefaults p" and q = "withDefaults q"] split: sum.splits)
qed

text \<open>The budgets that the entry points use: none is overridden.\<close>

definition default_budgets :: "archive_options \<Rightarrow> bool" where
  "default_budgets p \<longleftrightarrow> ao_MaxBytes p = 0 \<and> ao_MaxEntryBytes p = 0 \<and> ao_MaxTotalBytes p = 0 \<and> ao_MaxFiles p = 0
     \<and> ao_MaxCompressionRatio p = 0"

text \<open>
  C28: what the uploader accepted, the judge loads. If an upload passes validation, then loading the
  stored bytes against the recorded digest (in either letter case, with any time and memory limit)
  reports no error, and yields as many testcases as the upload counted cases; Go's map order plays no
  part in either.
\<close>

theorem validated_archive_loads:
  assumes "walks_map iter" and "walks_map iter'" and "default_budgets options"
    and "ab_SHA256 r = Inr digest" and "ToLower (TrimSpace (ao_ExpectedSHA256 options)) = ToLower digest"
    and "ValidateArchive lower iter r n = (cases, findings)" and "\<not> HasErrorFindings findings"
  shows "\<not> HasErrorFindings (snd (LoadArchive lower iter' r n options))
     \<and> length (fst (LoadArchive lower iter' r n options)) = length cases"
proof -
  let ?p = "options\<lparr>ao_KeepContents := True\<rparr>"
  have b: "same_budgets (withDefaults ?p) (withDefaults zero_options)"
      "ao_MaxBytes (withDefaults ?p) = ao_MaxBytes (withDefaults zero_options)" "\<not> ao_KeepContents zero_options"
    using assms(3) by (simp_all add: default_budgets_def same_budgets_def withDefaults_def zero_options_def)
  have c: "checksum_finding (withDefaults ?p) r = None" "checksum_finding (withDefaults zero_options) r = None"
    using assms(4,5) by (simp_all add: checksum_finding_def withDefaults_def zero_options_def Let_def TrimSpace_def
        trim_space_left.simps [of "[]"] trim_space_right.simps [of "[]"])
  note f = parseArchive_forget [OF b(1,3,2) c, of lower n]
  note it = parseArchive_iter [OF assms(1) walks_id, of lower r n zero_options]
    parseArchive_iter [OF assms(2) walks_id, of lower r n ?p]
  have "HasErrorFindings (pa_findings (parseArchive lower iter' r n ?p)) = HasErrorFindings (pa_findings (parseArchive lower iter r n zero_options))"
    using HasErrorFindings_mset [OF it(4)] HasErrorFindings_mset [OF it(8)] f(1) by simp
  moreover have "length (pa_testcases (parseArchive lower iter' r n ?p)) = length (pa_cases (parseArchive lower iter r n zero_options))"
    using it(1,6) f(2) by simp
  ultimately show ?thesis using assms(6,7) by (auto simp: ValidateArchive_def LoadArchive_def Let_def)
qed

lemma sum_keys_le:
  assumes "distinct ks" and "set ks \<subseteq> fst ` set m" and "distinct (map fst m)"
  shows "(\<Sum>k\<leftarrow>ks. (g (the (map_of m k)) :: nat)) \<le> (\<Sum>e\<leftarrow>m. g (snd e))"
proof -
  have "(\<Sum>k\<leftarrow>ks. g (the (map_of m k))) = (\<Sum>k\<in>set ks. g (the (map_of m k)))"
    using assms(1) by (rule sum_list_distinct_conv_sum_set)
  also have "\<dots> \<le> (\<Sum>k\<in>set (map fst m). g (the (map_of m k)))" using assms(2) by (intro sum_mono2) auto
  also have "\<dots> = (\<Sum>k\<leftarrow>map fst m. g (the (map_of m k)))"
    using assms(3) by (simp only: sum_list_distinct_conv_sum_set)
  also have "\<dots> = (\<Sum>e\<leftarrow>m. g (snd e))" unfolding map_of_keys [OF assms(3)] by (simp add: comp_def)
  finally show ?thesis .
qed

lemma paired_keys_bounds:
  assumes inv: "within_budget options st" and ks: "mset ks = mset (paired_keys st)"
  shows "2 * int (length ks) \<le> max 0 (ao_MaxFiles options)"
    and "k \<in> set ks \<Longrightarrow> length (ae_content (the (map_of (px_inputs st) k))) \<le> unat (ao_MaxEntryBytes options)
       \<and> length (ae_content (the (map_of (px_outputs st) k))) \<le> unat (ao_MaxEntryBytes options)"
    and "(\<Sum>k\<leftarrow>ks. length (ae_content (the (map_of (px_inputs st) k))) + length (ae_content (the (map_of (px_outputs st) k))))
       \<le> unat (ao_MaxTotalBytes options)"
proof -
  let ?i = "px_inputs st" and ?o = "px_outputs st"
  have d: "distinct (map fst ?i)" "distinct (map fst ?o)" using inv by (simp_all add: within_budget_def)
  have pk: "distinct (paired_keys st)" unfolding paired_keys_def using d(1) by (simp add: distinct_map_filter)
  then have dk: "distinct ks" using ks by (metis mset_eq_imp_distinct_iff)
  have set_ks: "set ks = set (paired_keys st)" using ks by (rule mset_eq_setD)
  have sub: "set ks \<subseteq> fst ` set ?i" "set ks \<subseteq> fst ` set ?o"
    unfolding set_ks by (auto simp: paired_keys_def paired_with_def map_of_eq_None_iff)
  have "length ks = card (set ks)" using dk by (simp add: distinct_card)
  moreover have "card (set ks) \<le> card (fst ` set ?i)" "card (set ks) \<le> card (fst ` set ?o)"
    using sub by (simp_all add: card_mono)
  moreover have "card (fst ` set ?i) \<le> length ?i" "card (fst ` set ?o) \<le> length ?o"
    by (metis card_length length_map set_map)+
  ultimately show "2 * int (length ks) \<le> max 0 (ao_MaxFiles options)" using inv by (simp add: within_budget_def)
  show "k \<in> set ks \<Longrightarrow> length (ae_content (the (map_of ?i k))) \<le> unat (ao_MaxEntryBytes options)
       \<and> length (ae_content (the (map_of ?o k))) \<le> unat (ao_MaxEntryBytes options)"
    using sub d inv unfolding within_budget_def by (force dest!: subsetD)
  have "(\<Sum>k\<leftarrow>ks. length (ae_content (the (map_of ?i k)))) \<le> content_bytes ?i"
    "(\<Sum>k\<leftarrow>ks. length (ae_content (the (map_of ?o k)))) \<le> content_bytes ?o"
    unfolding content_bytes_def 
    using sum_keys_le [OF dk sub(1) d(1), of "\<lambda>e. length (ae_content e)"] sum_keys_le [OF dk sub(2) d(2), of "\<lambda>e. length (ae_content e)"]
    by simp_all
  then show "(\<Sum>k\<leftarrow>ks. length (ae_content (the (map_of ?i k))) + length (ae_content (the (map_of ?o k)))) \<le> unat (ao_MaxTotalBytes options)"
    using inv by (simp add: within_budget_def sum_list_addf word_le_nat_alt)
qed

lemma map_idx_testcases:
  "map (\<lambda>t. g (tc_InputKey t) (tc_OutputKey t)) (map_idx (testcase_of options i out) k ks)
   = map (\<lambda>key. g (ae_content (the (map_of i key))) (ae_content (the (map_of out key)))) ks"
  by (rule nth_equalityI) (simp_all add: testcase_of_def)

text \<open>
  C29: a loaded archive stays within its budgets. Whatever the archive holds and whether it is accepted or
  not, the testcases that loading returns are at most 1024, each input and output is at most 16 MiB, and
  all of them together at most 128 MiB; the 64-bit sums the parser compares never wrap around.
\<close>

theorem loaded_archive_bounded:
  assumes "walks_map iter" and "buffered r" and "default_budgets options"
    and "LoadArchive lower iter r n options = (testcases, findings)"
  shows "length testcases \<le> 1024
     \<and> (\<forall>t \<in> set testcases. length (tc_InputKey t) \<le> 16777216 \<and> length (tc_OutputKey t) \<le> 16777216)
     \<and> (\<Sum>t\<leftarrow>testcases. length (tc_InputKey t) + length (tc_OutputKey t)) \<le> 134217728"
proof -
  let ?o = "withDefaults (options\<lparr>ao_KeepContents := True\<rparr>)"
  let ?result = "parseArchive lower iter r n (options\<lparr>ao_KeepContents := True\<rparr>)"
  have lim: "ao_MaxEntryBytes ?o = 16777216" "ao_MaxTotalBytes ?o = 134217728" "ao_MaxFiles ?o = 2048"
    using assms(3) by (simp_all add: default_budgets_def withDefaults_def)
  have t: "testcases = pa_testcases ?result" using assms(4) by (simp add: LoadArchive_def Let_def)
  show ?thesis
  proof (cases "testcases = []")
    case False
    then obtain files where files: "ab_Files r = Inr files"
      and eq: "?result = pair_entries lower iter ?o (parse_files lower ?o files)"
      unfolding t by (auto simp: parseArchive_def Let_def rejected_def split: if_splits option.splits sum.splits)
    define st where "st = parse_files lower ?o files"
    define ks where "ks = sortTestcaseKeys lower (paired_keys st)"
    have inv: "within_budget ?o st" unfolding st_def
      by (rule within_budget_parse_files) (use assms(2) files lim in \<open>simp_all add: buffered_def\<close>)
    have t': "testcases = map_idx (testcase_of ?o (px_inputs st) (px_outputs st)) 0 ks"
      unfolding t eq st_def [symmetric] ks_def by (rule pair_entries_iter(2) [OF assms(1)])
    have "mset ks = mset (paired_keys st)" by (simp add: ks_def sortTestcaseKeys_def)
    note b = paired_keys_bounds [OF inv this, unfolded lim]
    have "\<forall>t \<in> set testcases. length (tc_InputKey t) \<le> 16777216 \<and> length (tc_OutputKey t) \<le> 16777216"
      using b(2) [OF nth_mem] unfolding t' by (auto simp: in_set_conv_nth testcase_of_def)
    moreover have "(\<Sum>t\<leftarrow>testcases. length (tc_InputKey t) + length (tc_OutputKey t)) \<le> 134217728"
      unfolding t' map_idx_testcases [where g = "\<lambda>a b. length a + length b"] using b(3) by simp
    moreover have "length testcases \<le> 1024" unfolding t' using b(1) by simp
    ultimately show ?thesis by blast
  qed simp
qed


subsection \<open>A sample archive\<close>

definition sample_file :: "string \<Rightarrow> string \<Rightarrow> zip_file" where
  "sample_file name content = \<lparr>zf_Name = name, zf_IsDir = False, zf_UncompressedSize64 = of_nat (length content),
     zf_CompressedSize64 = of_nat (length content), zf_Open = Inr ([content], None)\<rparr>"

definition sample_archive :: archive_bytes where
  "sample_archive = \<lparr>ab_SHA256 = Inr ''00ff'', ab_Files = Inr
     [sample_file ''10.in'' ''a'', sample_file ''.DS_Store'' ''x'', sample_file ''2.in'' ''b'',
      sample_file ''10.out'' ''c'', sample_file ''2.ans'' ''d'']\<rparr>"

definition sample_options :: archive_options where
  "sample_options = zero_options\<lparr>ao_ExpectedSHA256 := '' 00FF'', ao_KeepContents := True\<rparr>"

lemma sample_clean:
  "\<not> HasErrorFindings (pa_findings (parseArchive ToLower id sample_archive 100 sample_options))"
  "\<not> HasErrorFindings (snd (ValidateArchive ToLower rev sample_archive 100))"
  by code_simp+

lemma walks_rev: "walks_map rev"
  by (simp add: walks_map_def)

theorem natural_order_total_witness:
  "naturalLess ToLower ''case2'' ''case10'' \<and> naturalLess ToLower ''2'' ''10'' \<and> \<not> naturalLess ToLower ''10'' ''2''"
proof -
  have d: "digits_value 0 ''2'' = Some 2" "digits_value 0 ''10'' = Some 10" by code_simp+
  have "naturalLess ToLower ''case2'' ''case10''" by code_simp
  moreover have "naturalLess ToLower ''2'' ''10''"
    using natural_order_total [of ToLower "''2''" "''10''" "[]" 2 10] d by simp
  moreover have "\<not> naturalLess ToLower ''10'' ''2''"
    using natural_order_total [of ToLower "''10''" "''2''" "[]" 10 2] d by simp
  ultimately show ?thesis by blast
qed

theorem accepted_archive_complete_witness:
  "\<exists>files. ab_Files sample_archive = Inr files
     \<and> mset (map ac_InputPath (pa_cases (parseArchive ToLower id sample_archive 100 sample_options))
           @ map ac_OutputPath (pa_cases (parseArchive ToLower id sample_archive 100 sample_options)))
         = mset (map zf_Name (filter kept_member files))"
  using accepted_archive_complete [OF walks_id refl _ sample_clean(1)] by (auto simp: sample_options_def)

theorem validated_archive_loads_witness:
  "length (fst (LoadArchive ToLower id sample_archive 100 sample_options)) = 2"
proof -
  have "length (fst (ValidateArchive ToLower rev sample_archive 100)) = 2" by code_simp
  moreover have "default_budgets sample_options" "ab_SHA256 sample_archive = Inr ''00ff''"
    by (simp_all add: default_budgets_def sample_options_def zero_options_def sample_archive_def)
  moreover have "ToLower (TrimSpace (ao_ExpectedSHA256 sample_options)) = ToLower ''00ff''" by code_simp
  ultimately show ?thesis
    using validated_archive_loads [OF walks_rev walks_id _ _ _ prod.collapse [symmetric] sample_clean(2)] by metis
qed

theorem loaded_archive_bounded_witness:
  "length (fst (LoadArchive ToLower id sample_archive 100 sample_options)) \<le> 1024"
proof -
  have "buffered sample_archive" by (simp add: buffered_def sample_archive_def sample_file_def buffered_file_def)
  moreover have "default_budgets sample_options" by (simp add: default_budgets_def sample_options_def zero_options_def)
  ultimately show ?thesis using loaded_archive_bounded [OF walks_id _ _ prod.collapse [symmetric]] by blast
qed

end
