(* ===== verification/Problem_Store.thy ===== *)
theory Problem_Store
  imports Transactions Audit_Log Testcase_Archive
begin

section \<open>The problem tables (\<^verbatim>\<open>internal/postgres/db/problems.sql.go\<close>, \<^verbatim>\<open>problem_reviews.sql.go\<close>)\<close>

text \<open>
  Problems, their statement and testcase-set versions, tags, check runs with their findings, review
  events and the audit ledger, as lists of rows, and the queries on them with the \<^verbatim>\<open>CHECK\<close> and \<^verbatim>\<open>UNIQUE\<close>
  constraints they can violate. A \<^verbatim>\<open>jsonb\<close> column holds the structure it is marshalled from; the empty
  object \<^verbatim>\<open>{}\<close> of a check summary is the zero summary it unmarshals to. PostgreSQL's \<^verbatim>\<open>ILIKE\<close> and the
  \<^verbatim>\<open>users\<close> table are parameters of the listing queries.
\<close>

subsection \<open>Rows (\<^verbatim>\<open>models.go\<close>)\<close>

record problem_row =
  pb_ID :: int64
  pb_OwnerUserID :: int64
  pb_Title :: string
  pb_Slug :: string
  pb_Difficulty :: string
  pb_Visibility :: string
  pb_Status :: string
  pb_TimeLimitMs :: int32
  pb_MemoryLimitKb :: int32
  pb_CreatedAt :: time
  pb_UpdatedAt :: time
  pb_PublishedAt :: "time option"
  pb_ArchivedFromStatus :: "string option"

record sample_input =
  sp_Input :: string
  sp_Output :: string
  sp_Explanation :: string

record statement_row =
  st_ID :: int64
  st_ProblemID :: int64
  st_Version :: int32
  st_Title :: string
  st_Description :: string
  st_InputDescription :: "string option"
  st_OutputDescription :: "string option"
  st_Samples :: "sample_input list"
  st_Hint :: "string option"
  st_Source :: "string option"
  st_IsCurrent :: bool
  st_CreatedAt :: time

record tag_row =
  tg_ID :: int64
  tg_Name :: string
  tg_Slug :: string

record testcase_set_row =
  ts_ID :: int64
  ts_ProblemID :: int64
  ts_Version :: int32
  ts_StorageKey :: string
  ts_ChecksumSha256 :: string
  ts_SizeBytes :: int64
  ts_CaseCount :: int32
  ts_IsCurrent :: bool
  ts_CreatedBy :: int64
  ts_CreatedAt :: time

record problem_check_summary =
  su_FindingCount :: int
  su_ErrorCount :: int
  su_WarningCount :: int
  su_InfoCount :: int
  su_CaseCount :: int
  su_StorageReadable :: bool
  su_ZipReadable :: bool
  su_Valid :: bool

definition zero_summary :: problem_check_summary where
  "zero_summary = \<lparr>su_FindingCount = 0, su_ErrorCount = 0, su_WarningCount = 0, su_InfoCount = 0, su_CaseCount = 0,
     su_StorageReadable = False, su_ZipReadable = False, su_Valid = False\<rparr>"

record check_run_row =
  cr_ID :: int64
  cr_ProblemID :: int64
  cr_StatementID :: "int64 option"
  cr_TestcaseSetID :: "int64 option"
  cr_RequestedBy :: "int64 option"
  cr_Status :: string
  cr_Summary :: problem_check_summary
  cr_ErrorMessage :: "string option"
  cr_StartedAt :: "time option"
  cr_FinishedAt :: "time option"
  cr_CreatedAt :: time
  cr_UpdatedAt :: time

record check_finding_row =
  cf_ID :: int64
  cf_RunID :: int64
  cf_Severity :: string
  cf_Code :: string
  cf_Message :: string
  cf_CaseIndex :: "int32 option"
  cf_TestcaseKey :: "string option"
  cf_Details :: "(string \<times> string) list"
  cf_CreatedAt :: time

record review_event_row =
  rv_ID :: int64
  rv_ProblemID :: int64
  rv_ActorUserID :: int64
  rv_FromStatus :: string
  rv_ToStatus :: string
  rv_Decision :: string
  rv_Comment :: string
  rv_CreatedAt :: time

record problem_store =
  pt_problems :: "problem_row list"
  pt_statements :: "statement_row list"
  pt_sets :: "testcase_set_row list"
  pt_tags :: "tag_row list"
  pt_tag_links :: "(int64 \<times> int64) list"
  pt_checks :: "check_run_row list"
  pt_findings :: "check_finding_row list"
  pt_events :: "review_event_row list"
  pt_audit :: "audit_row list"
  pq_problems :: int64
  pq_statements :: int64
  pq_sets :: int64
  pq_tags :: int64
  pq_checks :: int64
  pq_findings :: int64
  pq_events :: int64
  pt_now :: time

type_synonym 'a ptx = "(problem_store, 'a) transaction"

abbreviation put_problems where "put_problems rows s \<equiv> s\<lparr>pt_problems := rows\<rparr>"
abbreviation put_checks where "put_checks rows s \<equiv> s\<lparr>pt_checks := rows\<rparr>"
abbreviation put_audit where "put_audit rows s \<equiv> s\<lparr>pt_audit := rows\<rparr>"

abbreviation StatusDraft :: string where "StatusDraft \<equiv> ''draft''"
abbreviation StatusInReview :: string where "StatusInReview \<equiv> ''in_review''"
abbreviation StatusChangesRequested :: string where "StatusChangesRequested \<equiv> ''changes_requested''"
abbreviation StatusPublished :: string where "StatusPublished \<equiv> ''published''"
abbreviation StatusArchived :: string where "StatusArchived \<equiv> ''archived''"
abbreviation VisibilityPublic :: string where "VisibilityPublic \<equiv> ''public''"

subsection \<open>Problems\<close>

definition problem_constraints :: "problem_row \<Rightarrow> bool" where
  "problem_constraints p \<longleftrightarrow>
     pb_Difficulty p \<in> {''easy'', ''medium'', ''hard''} \<and> pb_Visibility p \<in> {''private'', ''public'', ''contest_only''}
     \<and> pb_Status p \<in> {''draft'', ''in_review'', ''changes_requested'', ''published'', ''archived''}
     \<and> sint (pb_TimeLimitMs p) > 0 \<and> sint (pb_MemoryLimitKb p) > 0
     \<and> (case pb_ArchivedFromStatus p of None \<Rightarrow> True
        | Some st \<Rightarrow> st \<in> {''draft'', ''in_review'', ''changes_requested'', ''published''})"

definition q_CreateProblem ::
  "int64 \<Rightarrow> string \<Rightarrow> string \<Rightarrow> string \<Rightarrow> string \<Rightarrow> string \<Rightarrow> int32 \<Rightarrow> int32 \<Rightarrow> problem_row ptx" where
  "q_CreateProblem owner title slug difficulty visibility status timeLimitMs memoryLimitKb = (\<lambda>s.
     let row = \<lparr>pb_ID = pq_problems s, pb_OwnerUserID = owner, pb_Title = title, pb_Slug = slug,
                pb_Difficulty = difficulty, pb_Visibility = visibility, pb_Status = status,
                pb_TimeLimitMs = timeLimitMs, pb_MemoryLimitKb = memoryLimitKb, pb_CreatedAt = pt_now s,
                pb_UpdatedAt = pt_now s, pb_PublishedAt = None, pb_ArchivedFromStatus = None\<rparr>
     in bind_tx (check_tx (problem_constraints row) ''problems_check'') (\<lambda>_.
        bind_tx (unique_tx (\<forall>p \<in> set (pt_problems s). pb_Slug p \<noteq> slug) ''problems_slug_uidx'') (\<lambda>_ s.
          Inr (row, s\<lparr>pt_problems := pt_problems s @ [row], pq_problems := pq_problems s + 1\<rparr>))) s)"

text \<open>
  The two left joins: at most one statement and one testcase set of a problem is current
  (\<^verbatim>\<open>problem_statements_current_uidx\<close>, \<^verbatim>\<open>testcase_sets_current_uidx\<close>); \<^verbatim>\<open>coalesce(..., 0)\<close>.
\<close>

definition current_statement_id :: "problem_store \<Rightarrow> int64 \<Rightarrow> int64" where
  "current_statement_id s pid =
     (case List.find (\<lambda>x. st_ProblemID x = pid \<and> st_IsCurrent x) (pt_statements s) of None \<Rightarrow> 0 | Some x \<Rightarrow> st_ID x)"

definition current_testcase_set_id :: "problem_store \<Rightarrow> int64 \<Rightarrow> int64" where
  "current_testcase_set_id s pid =
     (case List.find (\<lambda>x. ts_ProblemID x = pid \<and> ts_IsCurrent x) (pt_sets s) of None \<Rightarrow> 0 | Some x \<Rightarrow> ts_ID x)"

type_synonym joined_row = "problem_row \<times> int64 \<times> int64"

definition joined :: "problem_store \<Rightarrow> problem_row \<Rightarrow> joined_row" where
  "joined s p = (p, current_statement_id s (pb_ID p), current_testcase_set_id s (pb_ID p))"

definition q_GetProblemByID :: "int64 \<Rightarrow> joined_row ptx" where
  "q_GetProblemByID pid = (\<lambda>s. bind_tx (select_row pt_problems (\<lambda>p. pb_ID p = pid)) (\<lambda>p. return_tx (joined s p)) s)"

definition q_GetProblemBySlug :: "string \<Rightarrow> joined_row ptx" where
  "q_GetProblemBySlug slug = (\<lambda>s. bind_tx (select_row pt_problems (\<lambda>p. pb_Slug p = slug)) (\<lambda>p. return_tx (joined s p)) s)"

definition q_LockProblemForUpdate :: "int64 \<Rightarrow> joined_row ptx" where
  "q_LockProblemForUpdate pid = (\<lambda>s. bind_tx (select_row pt_problems (\<lambda>p. pb_ID p = pid)) (\<lambda>p. return_tx (joined s p)) s)"

record update_problem_params =
  up_Title :: "string option"
  up_Slug :: "string option"
  up_Difficulty :: "string option"
  up_Visibility :: "string option"
  up_Status :: "string option"
  up_TimeLimitMs :: "int32 option"
  up_MemoryLimitKb :: "int32 option"

definition or_old :: "'a option \<Rightarrow> 'a \<Rightarrow> 'a" where
  "or_old v old = (case v of None \<Rightarrow> old | Some x \<Rightarrow> x)"

definition updated_problem :: "update_problem_params \<Rightarrow> time \<Rightarrow> problem_row \<Rightarrow> problem_row" where
  "updated_problem u now p =
     p\<lparr>pb_Title := or_old (up_Title u) (pb_Title p), pb_Slug := or_old (up_Slug u) (pb_Slug p),
       pb_Difficulty := or_old (up_Difficulty u) (pb_Difficulty p),
       pb_Visibility := or_old (up_Visibility u) (pb_Visibility p), pb_Status := or_old (up_Status u) (pb_Status p),
       pb_TimeLimitMs := or_old (up_TimeLimitMs u) (pb_TimeLimitMs p),
       pb_MemoryLimitKb := or_old (up_MemoryLimitKb u) (pb_MemoryLimitKb p),
       pb_PublishedAt := (if up_Status u = Some ''published'' \<and> pb_PublishedAt p = None then Some now else pb_PublishedAt p),
       pb_UpdatedAt := now\<rparr>"

definition q_UpdateProblem :: "int64 \<Rightarrow> update_problem_params \<Rightarrow> problem_row ptx" where
  "q_UpdateProblem pid u = (\<lambda>s.
     bind_tx (check_tx (\<forall>p \<in> set (pt_problems s). pb_ID p = pid \<longrightarrow> problem_constraints (updated_problem u (pt_now s) p))
         ''problems_check'') (\<lambda>_.
     bind_tx (unique_tx (up_Slug u = None \<or> (\<forall>p \<in> set (pt_problems s). pb_ID p = pid \<or> Some (pb_Slug p) \<noteq> up_Slug u))
         ''problems_slug_uidx'') (\<lambda>_.
       update_row pt_problems put_problems (\<lambda>p. pb_ID p = pid) (updated_problem u (pt_now s)))) s)"

definition q_ArchiveProblem :: "int64 \<Rightarrow> problem_row ptx" where
  "q_ArchiveProblem pid = (\<lambda>s.
     update_row pt_problems put_problems (\<lambda>p. pb_ID p = pid)
       (\<lambda>p. p\<lparr>pb_ArchivedFromStatus := (if pb_Status p = ''archived'' then pb_ArchivedFromStatus p else Some (pb_Status p)),
              pb_Status := ''archived'', pb_UpdatedAt := pt_now s\<rparr>) s)"

definition q_RestoreProblem :: "int64 \<Rightarrow> problem_row ptx" where
  "q_RestoreProblem pid = (\<lambda>s.
     update_row pt_problems put_problems (\<lambda>p. pb_ID p = pid \<and> pb_Status p = ''archived'')
       (\<lambda>p. p\<lparr>pb_Status := or_old (pb_ArchivedFromStatus p) ''draft'', pb_ArchivedFromStatus := None,
              pb_UpdatedAt := pt_now s\<rparr>) s)"

subsection \<open>Listings\<close>

text \<open>What the listing queries use of other tables and of PostgreSQL.\<close>

record list_env =
  le_ilike :: "string \<Rightarrow> string \<Rightarrow> bool"
  le_username :: "int64 \<Rightarrow> string option"

record list_problems_params =
  lp_Difficulty :: "string option"
  lp_Status :: "string option"
  lp_Visibility :: "string option"
  lp_Tag :: "string option"
  lp_Keyword :: "string option"
  lp_Owner :: "string option"
  lp_OwnerUserID :: int64
  lp_IncludeAll :: bool
  lp_ViewerUserID :: int64

definition absent_or :: "'a option \<Rightarrow> ('a \<Rightarrow> bool) \<Rightarrow> bool" where
  "absent_or v P = (case v of None \<Rightarrow> True | Some x \<Rightarrow> P x)"

definition has_tag :: "problem_store \<Rightarrow> int64 \<Rightarrow> string \<Rightarrow> bool" where
  "has_tag s pid slug \<longleftrightarrow>
     (\<exists>(p, t) \<in> set (pt_tag_links s). p = pid \<and> (\<exists>g \<in> set (pt_tags s). tg_ID g = t \<and> tg_Slug g = slug))"

definition owner_matches :: "list_env \<Rightarrow> problem_row \<Rightarrow> string \<Rightarrow> bool" where
  "owner_matches env p owner = (case le_username env (pb_OwnerUserID p) of None \<Rightarrow> False | Some u \<Rightarrow> le_ilike env u owner)"

text \<open>The filters that both listings share, all but owner and visibility of the viewer.\<close>

definition problem_filters :: "list_env \<Rightarrow> list_problems_params \<Rightarrow> problem_store \<Rightarrow> problem_row \<Rightarrow> bool" where
  "problem_filters env a s p \<longleftrightarrow>
     absent_or (lp_Difficulty a) (\<lambda>v. pb_Difficulty p = v) \<and> absent_or (lp_Status a) (\<lambda>v. pb_Status p = v)
     \<and> absent_or (lp_Visibility a) (\<lambda>v. pb_Visibility p = v) \<and> absent_or (lp_Tag a) (has_tag s (pb_ID p))
     \<and> absent_or (lp_Keyword a) (\<lambda>k. le_ilike env (pb_Title p) k \<or> le_ilike env (pb_Slug p) k)
     \<and> absent_or (lp_Owner a) (owner_matches env p)"

abbreviation is_public :: "problem_row \<Rightarrow> bool" where
  "is_public p \<equiv> pb_Status p = ''published'' \<and> pb_Visibility p = ''public''"

definition listed :: "list_env \<Rightarrow> list_problems_params \<Rightarrow> problem_store \<Rightarrow> problem_row \<Rightarrow> bool" where
  "listed env a s p \<longleftrightarrow> problem_filters env a s p
     \<and> (lp_OwnerUserID a = 0 \<or> pb_OwnerUserID p = lp_OwnerUserID a)
     \<and> (lp_IncludeAll a \<or> is_public p \<or> lp_ViewerUserID a > 0 \<and> pb_OwnerUserID p = lp_ViewerUserID a)"

definition newest_first :: "problem_row \<Rightarrow> problem_row \<Rightarrow> bool" where
  "newest_first a b \<longleftrightarrow> pb_CreatedAt a > pb_CreatedAt b \<or> pb_CreatedAt a = pb_CreatedAt b \<and> pb_ID a > pb_ID b"

definition q_ListProblems :: "list_env \<Rightarrow> list_problems_params \<Rightarrow> int32 \<Rightarrow> int32 \<Rightarrow> joined_row list ptx" where
  "q_ListProblems env a limit_n offset = (\<lambda>s.
     if sint offset < 0 then Inl (ErrText ''OFFSET must not be negative'')
     else if sint limit_n < 0 then Inl (ErrText ''LIMIT must not be negative'')
     else Inr (map (joined s) (take (nat (sint limit_n)) (drop (nat (sint offset))
            (sort_by newest_first (filter (listed env a s) (pt_problems s))))), s))"

definition q_CountProblems :: "list_env \<Rightarrow> list_problems_params \<Rightarrow> int64 ptx" where
  "q_CountProblems env a = get_tx (\<lambda>s. int (length (filter (listed env a s) (pt_problems s))))"

text \<open>The clauses that \<^verbatim>\<open>buildListProblemsByCursorQuery\<close> puts together (\<^verbatim>\<open>cursor_query_builder.go\<close>).\<close>

definition cursor_visible :: "list_problems_params \<Rightarrow> problem_row \<Rightarrow> bool" where
  "cursor_visible a p \<longleftrightarrow>
     (if lp_IncludeAll a then True
      else if lp_OwnerUserID a > 0 \<and> lp_OwnerUserID a = lp_ViewerUserID a then True
      else if lp_ViewerUserID a > 0 then is_public p \<or> pb_OwnerUserID p = lp_ViewerUserID a
      else is_public p)"

definition cursor_listed :: "list_env \<Rightarrow> list_problems_params \<Rightarrow> problem_store \<Rightarrow> problem_row \<Rightarrow> bool" where
  "cursor_listed env a s p \<longleftrightarrow> problem_filters env a s p
     \<and> (lp_OwnerUserID a > 0 \<longrightarrow> pb_OwnerUserID p = lp_OwnerUserID a) \<and> cursor_visible a p"

definition q_ListProblemsByCursor ::
  "list_env \<Rightarrow> list_problems_params \<Rightarrow> time \<Rightarrow> int64 \<Rightarrow> int32 \<Rightarrow> joined_row list ptx" where
  "q_ListProblemsByCursor env a beforeCreatedAt beforeID limit_n = (\<lambda>s.
     if sint limit_n < 0 then Inl (ErrText ''LIMIT must not be negative'')
     else Inr (map (joined s) (take (nat (sint limit_n)) (sort_by newest_first
            (filter (\<lambda>p. cursor_listed env a s p
                 \<and> (pb_CreatedAt p < beforeCreatedAt \<or> pb_CreatedAt p = beforeCreatedAt \<and> pb_ID p < beforeID))
              (pt_problems s)))), s))"

subsection \<open>Statements and testcase sets\<close>

text \<open>\<^verbatim>\<open>coalesce(max(version), 0)::integer + 1\<close>: the addition fails at the end of the range.\<close>

definition next_version :: "int32 list \<Rightarrow> go_error + int32" where
  "next_version versions =
     (let m = foldr max (map sint versions) 0
      in if m + 1 \<ge> 2 ^ 31 then Inl (ErrText ''integer out of range'') else Inr (word_of_int (m + 1)))"

definition q_NextProblemStatementVersion :: "int64 \<Rightarrow> int32 ptx" where
  "q_NextProblemStatementVersion pid = (\<lambda>s.
     case next_version (map st_Version (filter (\<lambda>x. st_ProblemID x = pid) (pt_statements s))) of
       Inl e \<Rightarrow> Inl e | Inr v \<Rightarrow> Inr (v, s))"

definition q_ClearCurrentProblemStatement :: "int64 \<Rightarrow> unit ptx" where
  "q_ClearCurrentProblemStatement pid = (\<lambda>s. Inr ((), s\<lparr>pt_statements :=
     update_rows (\<lambda>x. st_ProblemID x = pid \<and> st_IsCurrent x) (\<lambda>x. x\<lparr>st_IsCurrent := False\<rparr>) (pt_statements s)\<rparr>))"

definition q_CreateProblemStatement :: "statement_row \<Rightarrow> statement_row ptx" where
  "q_CreateProblemStatement params = (\<lambda>s.
     let row = params\<lparr>st_ID := pq_statements s, st_CreatedAt := pt_now s\<rparr>
     in bind_tx (check_tx (sint (st_Version row) > 0) ''problem_statements_check'') (\<lambda>_.
        bind_tx (unique_tx (\<forall>x \<in> set (pt_statements s). st_ProblemID x = st_ProblemID row \<longrightarrow>
              st_Version x \<noteq> st_Version row \<and> \<not> (st_IsCurrent x \<and> st_IsCurrent row))
            ''problem_statements_uidx'') (\<lambda>_ s.
          Inr (row, s\<lparr>pt_statements := pt_statements s @ [row], pq_statements := pq_statements s + 1\<rparr>))) s)"

definition q_GetCurrentProblemStatement :: "int64 \<Rightarrow> statement_row ptx" where
  "q_GetCurrentProblemStatement pid = select_row pt_statements (\<lambda>x. st_ProblemID x = pid \<and> st_IsCurrent x)"

definition q_NextTestcaseSetVersion :: "int64 \<Rightarrow> int32 ptx" where
  "q_NextTestcaseSetVersion pid = (\<lambda>s.
     case next_version (map ts_Version (filter (\<lambda>x. ts_ProblemID x = pid) (pt_sets s))) of
       Inl e \<Rightarrow> Inl e | Inr v \<Rightarrow> Inr (v, s))"

definition q_ClearCurrentTestcaseSet :: "int64 \<Rightarrow> unit ptx" where
  "q_ClearCurrentTestcaseSet pid = (\<lambda>s. Inr ((), s\<lparr>pt_sets :=
     update_rows (\<lambda>x. ts_ProblemID x = pid \<and> ts_IsCurrent x) (\<lambda>x. x\<lparr>ts_IsCurrent := False\<rparr>) (pt_sets s)\<rparr>))"

definition q_CreateTestcaseSet :: "testcase_set_row \<Rightarrow> testcase_set_row ptx" where
  "q_CreateTestcaseSet params = (\<lambda>s.
     let row = params\<lparr>ts_ID := pq_sets s, ts_CreatedAt := pt_now s\<rparr>
     in bind_tx (check_tx (sint (ts_Version row) > 0 \<and> ts_SizeBytes row \<ge> 0 \<and> sint (ts_CaseCount row) > 0)
            ''testcase_sets_check'') (\<lambda>_.
        bind_tx (unique_tx (\<forall>x \<in> set (pt_sets s). ts_ProblemID x = ts_ProblemID row \<longrightarrow>
              ts_Version x \<noteq> ts_Version row \<and> \<not> (ts_IsCurrent x \<and> ts_IsCurrent row))
            ''testcase_sets_uidx'') (\<lambda>_ s.
          Inr (row, s\<lparr>pt_sets := pt_sets s @ [row], pq_sets := pq_sets s + 1\<rparr>))) s)"

definition q_GetCurrentTestcaseSet :: "int64 \<Rightarrow> testcase_set_row ptx" where
  "q_GetCurrentTestcaseSet pid = select_row pt_sets (\<lambda>x. ts_ProblemID x = pid \<and> ts_IsCurrent x)"

text \<open>From \<^verbatim>\<open>submissions.sql.go\<close>: the set a submission was made against.\<close>

definition q_GetReadyTestcaseSetByID :: "int64 \<Rightarrow> int64 \<Rightarrow> testcase_set_row ptx" where
  "q_GetReadyTestcaseSetByID setID pid = select_row pt_sets (\<lambda>x. ts_ID x = setID \<and> ts_ProblemID x = pid)"

subsection \<open>Tags\<close>

definition q_ClearProblemTags :: "int64 \<Rightarrow> unit ptx" where
  "q_ClearProblemTags pid = (\<lambda>s. Inr ((), s\<lparr>pt_tag_links := filter (\<lambda>l. fst l \<noteq> pid) (pt_tag_links s)\<rparr>))"

definition q_CreateProblemTag :: "string \<Rightarrow> string \<Rightarrow> tag_row ptx" where
  "q_CreateProblemTag name slug = (\<lambda>s.
     case List.find (\<lambda>g. tg_Slug g = slug) (pt_tags s) of
       None \<Rightarrow> (let row = \<lparr>tg_ID = pq_tags s, tg_Name = name, tg_Slug = slug\<rparr>
                in Inr (row, s\<lparr>pt_tags := pt_tags s @ [row], pq_tags := pq_tags s + 1\<rparr>))
     | Some g \<Rightarrow> Inr (g\<lparr>tg_Name := name\<rparr>,
         s\<lparr>pt_tags := update_rows (\<lambda>g. tg_Slug g = slug) (\<lambda>g. g\<lparr>tg_Name := name\<rparr>) (pt_tags s)\<rparr>))"

definition q_LinkProblemTag :: "int64 \<Rightarrow> int64 \<Rightarrow> unit ptx" where
  "q_LinkProblemTag pid tagID = (\<lambda>s. Inr ((), s\<lparr>pt_tag_links :=
     (if (pid, tagID) \<in> set (pt_tag_links s) then pt_tag_links s else pt_tag_links s @ [(pid, tagID)])\<rparr>))"

definition problem_tags :: "problem_store \<Rightarrow> int64 \<Rightarrow> tag_row list" where
  "problem_tags s pid = sort_by (\<lambda>a b. tg_Name a < tg_Name b)
     (filter (\<lambda>g. (pid, tg_ID g) \<in> set (pt_tag_links s)) (pt_tags s))"

definition q_ListProblemTags :: "int64 \<Rightarrow> tag_row list ptx" where
  "q_ListProblemTags pid = get_tx (\<lambda>s. problem_tags s pid)"

definition q_ListProblemTagsByProblemIDs :: "int64 list \<Rightarrow> (int64 \<times> tag_row) list ptx" where
  "q_ListProblemTagsByProblemIDs pids = get_tx (\<lambda>s.
     concat (map (\<lambda>pid. map (Pair pid) (problem_tags s pid)) (sort_by (\<lambda>a b. a < b) (remdups pids))))"

subsection \<open>Check runs\<close>

definition check_status :: "string \<Rightarrow> bool" where
  "check_status st \<longleftrightarrow> st \<in> {''queued'', ''running'', ''completed'', ''failed'', ''canceled''}"

definition q_CreateProblemCheckRun ::
  "int64 \<Rightarrow> int64 option \<Rightarrow> int64 option \<Rightarrow> int64 option \<Rightarrow> string \<Rightarrow> problem_check_summary \<Rightarrow> check_run_row ptx" where
  "q_CreateProblemCheckRun pid statementID setID requestedBy status summary =
     bind_tx (check_tx (check_status status) ''problem_check_runs_check'') (\<lambda>_ s.
       let row = \<lparr>cr_ID = pq_checks s, cr_ProblemID = pid, cr_StatementID = statementID, cr_TestcaseSetID = setID,
                  cr_RequestedBy = requestedBy, cr_Status = status, cr_Summary = summary, cr_ErrorMessage = None,
                  cr_StartedAt = None, cr_FinishedAt = None, cr_CreatedAt = pt_now s, cr_UpdatedAt = pt_now s\<rparr>
       in Inr (row, s\<lparr>pt_checks := pt_checks s @ [row], pq_checks := pq_checks s + 1\<rparr>))"

definition q_GetProblemCheckRunByID :: "int64 \<Rightarrow> check_run_row ptx" where
  "q_GetProblemCheckRunByID cid = select_row pt_checks (\<lambda>r. cr_ID r = cid)"

text \<open>\<^verbatim>\<open>ORDER BY finished_at DESC NULLS LAST, id DESC\<close>\<close>

definition latest_check_first :: "check_run_row \<Rightarrow> check_run_row \<Rightarrow> bool" where
  "latest_check_first a b \<longleftrightarrow>
     (case (cr_FinishedAt a, cr_FinishedAt b) of
        (Some t, Some u) \<Rightarrow> t > u \<or> t = u \<and> cr_ID a > cr_ID b
      | (Some t, None) \<Rightarrow> True
      | (None, Some u) \<Rightarrow> False
      | (None, None) \<Rightarrow> cr_ID a > cr_ID b)"

text \<open>A \<^verbatim>\<open>NULL\<close> parameter equals no column.\<close>

definition q_GetLatestCompletedProblemCheckRun :: "int64 \<Rightarrow> int64 option \<Rightarrow> int64 option \<Rightarrow> check_run_row ptx" where
  "q_GetLatestCompletedProblemCheckRun pid statementID setID = (\<lambda>s.
     case sort_by latest_check_first (filter (\<lambda>r. cr_ProblemID r = pid
            \<and> statementID \<noteq> None \<and> cr_StatementID r = statementID
            \<and> setID \<noteq> None \<and> cr_TestcaseSetID r = setID \<and> cr_Status r = ''completed'') (pt_checks s)) of
       [] \<Rightarrow> Inl ErrNoRows | r # _ \<Rightarrow> Inr (r, s))"

definition q_CompleteProblemCheckRun :: "int64 \<Rightarrow> problem_check_summary \<Rightarrow> time option \<Rightarrow> check_run_row ptx" where
  "q_CompleteProblemCheckRun cid summary finishedAt = (\<lambda>s.
     update_row pt_checks put_checks (\<lambda>r. cr_ID r = cid \<and> cr_Status r \<in> {''queued'', ''running''})
       (\<lambda>r. r\<lparr>cr_Status := ''completed'', cr_Summary := summary, cr_ErrorMessage := None,
              cr_FinishedAt := Some (or_old finishedAt (or_old (cr_FinishedAt r) (pt_now s))), cr_UpdatedAt := pt_now s\<rparr>) s)"

definition q_FailProblemCheckRun :: "int64 \<Rightarrow> problem_check_summary \<Rightarrow> string \<Rightarrow> time option \<Rightarrow> check_run_row ptx" where
  "q_FailProblemCheckRun cid summary errorMessage finishedAt = (\<lambda>s.
     update_row pt_checks put_checks (\<lambda>r. cr_ID r = cid \<and> cr_Status r \<in> {''queued'', ''running''})
       (\<lambda>r. r\<lparr>cr_Status := ''failed'', cr_Summary := summary, cr_ErrorMessage := Some errorMessage,
              cr_FinishedAt := Some (or_old finishedAt (or_old (cr_FinishedAt r) (pt_now s))), cr_UpdatedAt := pt_now s\<rparr>) s)"

definition finding_row_ok :: "check_finding_row \<Rightarrow> bool" where
  "finding_row_ok f \<longleftrightarrow> cf_Severity f \<in> {''info'', ''warning'', ''error''}
     \<and> (case cf_CaseIndex f of None \<Rightarrow> True | Some i \<Rightarrow> sint i > 0)"

definition q_CreateProblemCheckFindings :: "check_finding_row list \<Rightarrow> check_finding_row list ptx" where
  "q_CreateProblemCheckFindings params = (\<lambda>s.
     let rows = map_idx (\<lambda>i f. f\<lparr>cf_ID := pq_findings s + int i, cf_CreatedAt := pt_now s\<rparr>) 0 params
     in bind_tx (check_tx (\<forall>f \<in> set rows. finding_row_ok f) ''problem_check_findings_check'') (\<lambda>_ s.
          Inr (rows, s\<lparr>pt_findings := pt_findings s @ rows, pq_findings := pq_findings s + int (length rows)\<rparr>)) s)"

definition q_ListProblemCheckFindingsByRunID :: "int64 \<Rightarrow> check_finding_row list ptx" where
  "q_ListProblemCheckFindingsByRunID cid = get_tx (\<lambda>s.
     sort_by (\<lambda>a b. cf_ID a < cf_ID b) (filter (\<lambda>f. cf_RunID f = cid) (pt_findings s)))"

subsection \<open>Reviews (\<^verbatim>\<open>problem_reviews.sql.go\<close>)\<close>

definition q_CreateProblemReviewEvent :: "review_event_row \<Rightarrow> review_event_row ptx" where
  "q_CreateProblemReviewEvent params =
     bind_tx (check_tx (rv_Decision params \<in> {''submit'', ''approve'', ''request_changes''})
         ''problem_review_events_check'') (\<lambda>_ s.
       let row = params\<lparr>rv_ID := pq_events s, rv_CreatedAt := pt_now s\<rparr>
       in Inr (row, s\<lparr>pt_events := pt_events s @ [row], pq_events := pq_events s + 1\<rparr>))"

definition q_ListProblemReviewEvents :: "int64 \<Rightarrow> review_event_row list ptx" where
  "q_ListProblemReviewEvents pid = get_tx (\<lambda>s.
     sort_by (\<lambda>a b. rv_CreatedAt a > rv_CreatedAt b \<or> rv_CreatedAt a = rv_CreatedAt b \<and> rv_ID a > rv_ID b)
       (filter (\<lambda>e. rv_ProblemID e = pid) (pt_events s)))"

definition oldest_update_first :: "problem_row \<Rightarrow> problem_row \<Rightarrow> bool" where
  "oldest_update_first a b \<longleftrightarrow> pb_UpdatedAt a < pb_UpdatedAt b \<or> pb_UpdatedAt a = pb_UpdatedAt b \<and> pb_ID a < pb_ID b"

definition q_ListProblemsForReview :: "int32 \<Rightarrow> int32 \<Rightarrow> problem_row list ptx" where
  "q_ListProblemsForReview limit_n offset = (\<lambda>s.
     if sint offset < 0 then Inl (ErrText ''OFFSET must not be negative'')
     else if sint limit_n < 0 then Inl (ErrText ''LIMIT must not be negative'')
     else Inr (take (nat (sint limit_n)) (drop (nat (sint offset))
       (sort_by oldest_update_first (filter (\<lambda>p. pb_Status p = ''in_review'') (pt_problems s)))), s))"

definition q_CountProblemsForReview :: "int64 ptx" where
  "q_CountProblemsForReview = get_tx (\<lambda>s. int (length (filter (\<lambda>p. pb_Status p = ''in_review'') (pt_problems s))))"

end
