(* ===== verification/Problem_Repository.thy ===== *)
theory Problem_Repository
  imports Problem_Store
begin

section \<open>The problem repository (\<^verbatim>\<open>internal/problem/repository.go\<close>)\<close>

text \<open>
  The records the services work with, their conversion from rows, and the repository operations. The
  pool and the transaction variant of an operation run the same query, so each is one definition: a
  transaction body that the services compose, or run alone.
\<close>

subsection \<open>Records (\<^verbatim>\<open>service.go\<close>)\<close>

record problem_record =
  pd_ID :: int64
  pd_OwnerUserID :: int64
  pd_Title :: string
  pd_Slug :: string
  pd_Difficulty :: string
  pd_Visibility :: string
  pd_Status :: string
  pd_TimeLimitMS :: int32
  pd_MemoryLimitKB :: int32
  pd_CurrentStatementID :: int64
  pd_CurrentTestcaseSetID :: int64
  pd_SubmissionCount :: int64
  pd_AcceptedCount :: int64
  pd_CreatedAt :: time
  pd_UpdatedAt :: time
  pd_PublishedAt :: time

record statement =
  sm_ID :: int64
  sm_ProblemID :: int64
  sm_Version :: int32
  sm_Title :: string
  sm_Description :: string
  sm_InputDescription :: string
  sm_OutputDescription :: string
  sm_Samples :: "sample_input list"
  sm_Hint :: string
  sm_Source :: string
  sm_IsCurrent :: bool
  sm_CreatedAt :: time

record problem_check_run =
  ck_ID :: int64
  ck_ProblemID :: int64
  ck_StatementID :: int64
  ck_TestcaseSetID :: int64
  ck_RequestedBy :: int64
  ck_Status :: string
  ck_Summary :: problem_check_summary
  ck_ErrorMessage :: string
  ck_StartedAt :: time
  ck_FinishedAt :: time
  ck_CreatedAt :: time
  ck_UpdatedAt :: time

record problem_check_finding =
  pf_ID :: int64
  pf_RunID :: int64
  pf_Severity :: string
  pf_Code :: string
  pf_Message :: string
  pf_CaseIndex :: int32
  pf_TestcaseKey :: string
  pf_Details :: "(string \<times> string) list"
  pf_CreatedAt :: time

record create_problem_input =
  ci_Title :: string
  ci_Slug :: string
  ci_Difficulty :: string
  ci_Visibility :: string
  ci_TimeLimitMS :: int32
  ci_MemoryLimitKB :: int32
  ci_Tags :: "string list"

record update_problem_input =
  ui_Title :: "string option"
  ui_Difficulty :: "string option"
  ui_Visibility :: "string option"
  ui_Status :: "string option"
  ui_TimeLimitMS :: "int32 option"
  ui_MemoryLimitKB :: "int32 option"
  ui_Tags :: "string list option"

record create_statement_input =
  cs_Title :: string
  cs_Description :: string
  cs_InputDescription :: string
  cs_OutputDescription :: string
  cs_Samples :: "sample_input list"
  cs_Hint :: string
  cs_Source :: string
  cs_MakeCurrent :: bool

record tag_input =
  ti_Name :: string
  ti_Slug :: string

record problem_cursor =
  pc_CreatedAt :: time
  pc_ID :: int64

record list_problems_filter =
  lf_Difficulty :: string
  lf_Status :: string
  lf_Visibility :: string
  lf_Tag :: string
  lf_Keyword :: string
  lf_Owner :: string
  lf_Page :: int32
  lf_PageSize :: int32
  lf_Limit :: int32
  lf_Offset :: int32
  lf_ViewerUserID :: int64
  lf_OwnerUserID :: int64
  lf_IncludeAll :: bool
  lf_Mine :: bool
  lf_Cursor :: "problem_cursor option"

record problem_review_event =
  re_ProblemID :: int64
  re_ActorUserID :: int64
  re_FromStatus :: string
  re_ToStatus :: string
  re_Decision :: string
  re_Comment :: string

subsection \<open>Conversions\<close>

definition textArg :: "string \<Rightarrow> string option" where
  "textArg value = (let trimmed = TrimSpace value in if trimmed \<noteq> [] then Some trimmed else None)"

definition textValue :: "string \<Rightarrow> string option" where
  "textValue value = (let trimmed = TrimSpace value in if trimmed \<noteq> [] then Some trimmed else None)"

definition textPtr :: "string option \<Rightarrow> string option" where
  "textPtr value = (case value of None \<Rightarrow> None | Some v \<Rightarrow> textValue v)"

definition textFromDB :: "string option \<Rightarrow> string" where
  "textFromDB value = (case value of None \<Rightarrow> [] | Some v \<Rightarrow> v)"

definition int8Value :: "int64 \<Rightarrow> int64 option" where
  "int8Value value = (if value \<le> 0 then None else Some value)"

definition int8FromDB :: "int64 option \<Rightarrow> int64" where
  "int8FromDB value = (case value of None \<Rightarrow> 0 | Some v \<Rightarrow> v)"

definition int4FromDB :: "int32 option \<Rightarrow> int32" where
  "int4FromDB value = (case value of None \<Rightarrow> 0 | Some v \<Rightarrow> v)"

definition timeArg :: "time \<Rightarrow> time option" where
  "timeArg value = (if value = 0 then None else Some value)"

definition timeFromDB :: "time option \<Rightarrow> time" where
  "timeFromDB value = (case value of None \<Rightarrow> 0 | Some t \<Rightarrow> t)"

definition problem_mapDBErr :: "go_error \<Rightarrow> go_error" where
  "problem_mapDBErr err =
     (if err = ErrNoRows then AppErr (NotFound ''problem.not_found'' ''problem not found'')
      else if unique_violation err then AppErr (Conflict ''problem.slug_conflict'' ''problem slug already exists'')
      else err)"

definition problemFromDB :: "problem_row \<Rightarrow> problem_record" where
  "problemFromDB p =
     \<lparr>pd_ID = pb_ID p, pd_OwnerUserID = pb_OwnerUserID p, pd_Title = pb_Title p, pd_Slug = pb_Slug p,
      pd_Difficulty = pb_Difficulty p, pd_Visibility = pb_Visibility p, pd_Status = pb_Status p,
      pd_TimeLimitMS = pb_TimeLimitMs p, pd_MemoryLimitKB = pb_MemoryLimitKb p, pd_CurrentStatementID = 0,
      pd_CurrentTestcaseSetID = 0, pd_SubmissionCount = 0, pd_AcceptedCount = 0, pd_CreatedAt = pb_CreatedAt p,
      pd_UpdatedAt = pb_UpdatedAt p, pd_PublishedAt = timeFromDB (pb_PublishedAt p)\<rparr>"

definition problemFromGetRow :: "joined_row \<Rightarrow> problem_record" where
  "problemFromGetRow r = (case r of (p, statementID, setID) \<Rightarrow>
     (problemFromDB p)\<lparr>pd_CurrentStatementID := statementID, pd_CurrentTestcaseSetID := setID\<rparr>)"

definition problemFromLockRow :: "joined_row \<Rightarrow> problem_record" where
  "problemFromLockRow r = (case r of (p, statementID, setID) \<Rightarrow>
     (problemFromDB p)\<lparr>pd_CurrentStatementID := statementID, pd_CurrentTestcaseSetID := setID\<rparr>)"

definition problemFromListRow :: "joined_row \<Rightarrow> problem_record" where
  "problemFromListRow r = (case r of (p, statementID, setID) \<Rightarrow>
     (problemFromDB p)\<lparr>pd_CurrentStatementID := statementID, pd_CurrentTestcaseSetID := setID\<rparr>)"

definition problemFromListCursorRow :: "joined_row \<Rightarrow> problem_record" where
  "problemFromListCursorRow r = (case r of (p, statementID, setID) \<Rightarrow>
     (problemFromDB p)\<lparr>pd_CurrentStatementID := statementID, pd_CurrentTestcaseSetID := setID\<rparr>)"

definition statementFromDB :: "statement_row \<Rightarrow> statement" where
  "statementFromDB x =
     \<lparr>sm_ID = st_ID x, sm_ProblemID = st_ProblemID x, sm_Version = st_Version x, sm_Title = st_Title x,
      sm_Description = st_Description x, sm_InputDescription = textFromDB (st_InputDescription x),
      sm_OutputDescription = textFromDB (st_OutputDescription x), sm_Samples = st_Samples x,
      sm_Hint = textFromDB (st_Hint x), sm_Source = textFromDB (st_Source x), sm_IsCurrent = st_IsCurrent x,
      sm_CreatedAt = st_CreatedAt x\<rparr>"

definition problemCheckRunFromDB :: "check_run_row \<Rightarrow> problem_check_run" where
  "problemCheckRunFromDB r =
     \<lparr>ck_ID = cr_ID r, ck_ProblemID = cr_ProblemID r, ck_StatementID = int8FromDB (cr_StatementID r),
      ck_TestcaseSetID = int8FromDB (cr_TestcaseSetID r), ck_RequestedBy = int8FromDB (cr_RequestedBy r),
      ck_Status = cr_Status r, ck_Summary = cr_Summary r, ck_ErrorMessage = textFromDB (cr_ErrorMessage r),
      ck_StartedAt = timeFromDB (cr_StartedAt r), ck_FinishedAt = timeFromDB (cr_FinishedAt r),
      ck_CreatedAt = cr_CreatedAt r, ck_UpdatedAt = cr_UpdatedAt r\<rparr>"

definition problemCheckFindingFromDB :: "check_finding_row \<Rightarrow> problem_check_finding" where
  "problemCheckFindingFromDB f =
     \<lparr>pf_ID = cf_ID f, pf_RunID = cf_RunID f, pf_Severity = cf_Severity f, pf_Code = cf_Code f,
      pf_Message = cf_Message f, pf_CaseIndex = int4FromDB (cf_CaseIndex f),
      pf_TestcaseKey = textFromDB (cf_TestcaseKey f), pf_Details = cf_Details f, pf_CreatedAt = cf_CreatedAt f\<rparr>"

subsection \<open>Operations\<close>

definition run_query :: "('r \<Rightarrow> 'a) \<Rightarrow> 'r ptx \<Rightarrow> 'a ptx" where
  "run_query f q = map_err problem_mapDBErr (bind_tx q (\<lambda>r. return_tx (f r)))"

definition repo_CreateProblem :: "int64 \<Rightarrow> create_problem_input \<Rightarrow> problem_record ptx" where
  "repo_CreateProblem ownerUserID input = run_query problemFromDB
     (q_CreateProblem ownerUserID (ci_Title input) (ci_Slug input) (ci_Difficulty input) (ci_Visibility input)
        StatusDraft (ci_TimeLimitMS input) (ci_MemoryLimitKB input))"

definition repo_GetProblem :: "int64 \<Rightarrow> problem_record ptx" where
  "repo_GetProblem pid = run_query problemFromGetRow (q_GetProblemByID pid)"

definition repo_LockProblemForUpdate :: "int64 \<Rightarrow> problem_record ptx" where
  "repo_LockProblemForUpdate pid = run_query problemFromLockRow (q_LockProblemForUpdate pid)"

definition filter_params :: "list_problems_filter \<Rightarrow> list_problems_params" where
  "filter_params f =
     \<lparr>lp_Difficulty = textArg (lf_Difficulty f), lp_Status = textArg (lf_Status f),
      lp_Visibility = textArg (lf_Visibility f), lp_Tag = textArg (lf_Tag f), lp_Keyword = textArg (lf_Keyword f),
      lp_Owner = textArg (lf_Owner f), lp_OwnerUserID = lf_OwnerUserID f, lp_IncludeAll = lf_IncludeAll f,
      lp_ViewerUserID = lf_ViewerUserID f\<rparr>"

definition repo_ListProblems :: "list_env \<Rightarrow> list_problems_filter \<Rightarrow> problem_record list ptx" where
  "repo_ListProblems env f = run_query (map problemFromListRow)
     (q_ListProblems env (filter_params f) (lf_Limit f) (lf_Offset f))"

definition repo_CountProblems :: "list_env \<Rightarrow> list_problems_filter \<Rightarrow> int64 ptx" where
  "repo_CountProblems env f = run_query id (q_CountProblems env (filter_params f))"

text \<open>The default cursor: the last nanosecond of year 9999 and the largest identifier.\<close>

abbreviation far_future :: time where "far_future \<equiv> 315537897599999999999"

definition first_cursor :: problem_cursor where
  "first_cursor = \<lparr>pc_CreatedAt = far_future, pc_ID = 2 ^ 63 - 1\<rparr>"

definition repo_ListProblemsByCursor :: "list_env \<Rightarrow> list_problems_filter \<Rightarrow> problem_record list ptx" where
  "repo_ListProblemsByCursor env f =
     (let cursor = (case lf_Cursor f of None \<Rightarrow> first_cursor | Some c \<Rightarrow> c)
      in run_query (map problemFromListCursorRow)
           (q_ListProblemsByCursor env (filter_params f) (pc_CreatedAt cursor) (pc_ID cursor) (lf_Limit f)))"

definition repo_updateProblem :: "int64 \<Rightarrow> update_problem_input \<Rightarrow> problem_record ptx" where
  "repo_updateProblem pid input = run_query problemFromDB
     (q_UpdateProblem pid
        \<lparr>up_Title = textPtr (ui_Title input), up_Slug = None, up_Difficulty = textPtr (ui_Difficulty input),
         up_Visibility = textPtr (ui_Visibility input), up_Status = textPtr (ui_Status input),
         up_TimeLimitMs = ui_TimeLimitMS input, up_MemoryLimitKb = ui_MemoryLimitKB input\<rparr>)"

definition repo_SetProblemStatus :: "int64 \<Rightarrow> string \<Rightarrow> problem_record ptx" where
  "repo_SetProblemStatus pid status = repo_updateProblem pid
     \<lparr>ui_Title = None, ui_Difficulty = None, ui_Visibility = None, ui_Status = Some status, ui_TimeLimitMS = None,
      ui_MemoryLimitKB = None, ui_Tags = None\<rparr>"

definition repo_ArchiveProblem :: "int64 \<Rightarrow> problem_record ptx" where
  "repo_ArchiveProblem pid = run_query problemFromDB (q_ArchiveProblem pid)"

definition repo_RestoreProblem :: "int64 \<Rightarrow> problem_record ptx" where
  "repo_RestoreProblem pid = run_query problemFromDB (q_RestoreProblem pid)"

definition repo_NextProblemStatementVersion :: "int64 \<Rightarrow> int32 ptx" where
  "repo_NextProblemStatementVersion pid = run_query id (q_NextProblemStatementVersion pid)"

definition repo_ClearCurrentProblemStatement :: "int64 \<Rightarrow> unit ptx" where
  "repo_ClearCurrentProblemStatement pid = run_query id (q_ClearCurrentProblemStatement pid)"

definition createProblemStatement :: "int64 \<Rightarrow> int32 \<Rightarrow> create_statement_input \<Rightarrow> statement ptx" where
  "createProblemStatement pid version input = run_query statementFromDB
     (q_CreateProblemStatement
        \<lparr>st_ID = 0, st_ProblemID = pid, st_Version = version, st_Title = cs_Title input,
         st_Description = cs_Description input, st_InputDescription = textValue (cs_InputDescription input),
         st_OutputDescription = textValue (cs_OutputDescription input), st_Samples = cs_Samples input,
         st_Hint = textValue (cs_Hint input), st_Source = textValue (cs_Source input),
         st_IsCurrent = cs_MakeCurrent input, st_CreatedAt = 0\<rparr>)"

definition repo_GetCurrentProblemStatement :: "int64 \<Rightarrow> statement ptx" where
  "repo_GetCurrentProblemStatement pid = run_query statementFromDB (q_GetCurrentProblemStatement pid)"

fun link_tags :: "int64 \<Rightarrow> tag_input list \<Rightarrow> tag_row list ptx" where
  "link_tags pid [] = return_tx []"
| "link_tags pid (input # inputs) =
     bind_tx (run_query id (q_CreateProblemTag (ti_Name input) (ti_Slug input))) (\<lambda>tag.
     bind_tx (run_query id (q_LinkProblemTag pid (tg_ID tag))) (\<lambda>_.
     bind_tx (link_tags pid inputs) (\<lambda>tags. return_tx (tag # tags))))"

definition replaceProblemTags :: "int64 \<Rightarrow> tag_input list \<Rightarrow> tag_row list ptx" where
  "replaceProblemTags pid inputs =
     bind_tx (run_query id (q_ClearProblemTags pid)) (\<lambda>_. link_tags pid inputs)"

definition listProblemTags :: "int64 \<Rightarrow> tag_row list ptx" where
  "listProblemTags pid = run_query id (q_ListProblemTags pid)"

definition repo_NextTestcaseSetVersion :: "int64 \<Rightarrow> int32 ptx" where
  "repo_NextTestcaseSetVersion pid = run_query id (q_NextTestcaseSetVersion pid)"

definition repo_ClearCurrentTestcaseSet :: "int64 \<Rightarrow> unit ptx" where
  "repo_ClearCurrentTestcaseSet pid = run_query id (q_ClearCurrentTestcaseSet pid)"

definition createTestcaseSet ::
  "int64 \<Rightarrow> int32 \<Rightarrow> string \<Rightarrow> string \<Rightarrow> int64 \<Rightarrow> int32 \<Rightarrow> int64 \<Rightarrow> testcase_set_row ptx" where
  "createTestcaseSet pid version storageKey checksum sizeBytes caseCount createdBy = run_query id
     (q_CreateTestcaseSet
        \<lparr>ts_ID = 0, ts_ProblemID = pid, ts_Version = version, ts_StorageKey = storageKey, ts_ChecksumSha256 = checksum,
         ts_SizeBytes = sizeBytes, ts_CaseCount = caseCount, ts_IsCurrent = True, ts_CreatedBy = createdBy,
         ts_CreatedAt = 0\<rparr>)"

definition repo_GetCurrentTestcaseSet :: "int64 \<Rightarrow> testcase_set_row ptx" where
  "repo_GetCurrentTestcaseSet pid = run_query id (q_GetCurrentTestcaseSet pid)"

definition createProblemCheckRun ::
  "int64 \<Rightarrow> int64 \<Rightarrow> int64 \<Rightarrow> int64 \<Rightarrow> string \<Rightarrow> problem_check_summary \<Rightarrow> problem_check_run ptx" where
  "createProblemCheckRun pid statementID setID requestedBy status0 summary =
     (let status = (if status0 = [] then ''queued'' else status0)
      in run_query problemCheckRunFromDB
           (q_CreateProblemCheckRun pid (int8Value statementID) (int8Value setID) (int8Value requestedBy) status summary))"

definition repo_GetProblemCheckRun :: "int64 \<Rightarrow> problem_check_run ptx" where
  "repo_GetProblemCheckRun cid = run_query problemCheckRunFromDB (q_GetProblemCheckRunByID cid)"

definition repo_GetLatestCompletedProblemCheckRun :: "int64 \<Rightarrow> int64 \<Rightarrow> int64 \<Rightarrow> problem_check_run ptx" where
  "repo_GetLatestCompletedProblemCheckRun pid statementID setID = run_query problemCheckRunFromDB
     (q_GetLatestCompletedProblemCheckRun pid (int8Value statementID) (int8Value setID))"

definition completeProblemCheckRun :: "int64 \<Rightarrow> problem_check_summary \<Rightarrow> time \<Rightarrow> problem_check_run ptx" where
  "completeProblemCheckRun cid summary finishedAt = run_query problemCheckRunFromDB
     (q_CompleteProblemCheckRun cid summary (timeArg finishedAt))"

record finding_input =
  fn_RunID :: int64
  fn_Severity :: string
  fn_Code :: string
  fn_Message :: string
  fn_CaseIndex :: int32
  fn_TestcaseKey :: string
  fn_Details :: "(string \<times> string) list"

definition toProblemCheckFindingJSON :: "finding_input \<Rightarrow> check_finding_row" where
  "toProblemCheckFindingJSON i =
     \<lparr>cf_ID = 0, cf_RunID = fn_RunID i, cf_Severity = fn_Severity i, cf_Code = fn_Code i, cf_Message = fn_Message i,
      cf_CaseIndex = (if sint (fn_CaseIndex i) > 0 then Some (fn_CaseIndex i) else None),
      cf_TestcaseKey = (if fn_TestcaseKey i \<noteq> [] then Some (fn_TestcaseKey i) else None),
      cf_Details = fn_Details i, cf_CreatedAt = 0\<rparr>"

definition createProblemCheckFindings :: "finding_input list \<Rightarrow> problem_check_finding list ptx" where
  "createProblemCheckFindings inputs =
     (if inputs = [] then return_tx []
      else run_query (\<lambda>rows. sort_by (\<lambda>a b. pf_ID a < pf_ID b) (map problemCheckFindingFromDB rows))
             (q_CreateProblemCheckFindings (map toProblemCheckFindingJSON inputs)))"

definition listProblemCheckFindings :: "int64 \<Rightarrow> problem_check_finding list ptx" where
  "listProblemCheckFindings cid = run_query (map problemCheckFindingFromDB) (q_ListProblemCheckFindingsByRunID cid)"

definition repo_CreateProblemReviewEvent :: "problem_review_event \<Rightarrow> review_event_row ptx" where
  "repo_CreateProblemReviewEvent event = run_query id
     (q_CreateProblemReviewEvent
        \<lparr>rv_ID = 0, rv_ProblemID = re_ProblemID event, rv_ActorUserID = re_ActorUserID event,
         rv_FromStatus = re_FromStatus event, rv_ToStatus = re_ToStatus event, rv_Decision = re_Decision event,
         rv_Comment = re_Comment event, rv_CreatedAt = 0\<rparr>)"

definition repo_ListProblemsForReview :: "int32 \<Rightarrow> int32 \<Rightarrow> (problem_record list \<times> int64) ptx" where
  "repo_ListProblemsForReview page0 pageSize =
     (let limit_n = (if sint pageSize \<le> 0 then 20 else pageSize);
          page = (if sint page0 \<le> 0 then 1 else page0);
          offset = (page - 1) * limit_n
      in bind_tx (run_query (map problemFromDB) (q_ListProblemsForReview limit_n offset)) (\<lambda>items.
         bind_tx (run_query id q_CountProblemsForReview) (\<lambda>n. return_tx (items, n))))"

definition repo_ListProblemReviewEvents :: "int64 \<Rightarrow> review_event_row list ptx" where
  "repo_ListProblemReviewEvents pid = run_query id (q_ListProblemReviewEvents pid)"

definition repo_RecordAudit :: "audit_event \<Rightarrow> unit ptx" where
  "repo_RecordAudit e = audit_Insert pt_audit put_audit e"

subsection \<open>Reasoning\<close>

lemma map_err_Inr: "map_err f m s = Inr r \<longleftrightarrow> m s = Inr r"
  by (auto simp: map_err_def split: sum.splits)

lemma run_query_Inr: "run_query f q s = Inr (y, s') \<longleftrightarrow> (\<exists>r. q s = Inr (r, s') \<and> y = f r)"
  by (auto simp: run_query_def map_err_Inr tx_simps)

lemma preserves_run_query [preserves_intros]: "preserves I q \<Longrightarrow> preserves I (run_query f q)"
  by (auto simp: preserves_def run_query_Inr)

lemma keeps_run_query [keeps_intros]: "keeps view q \<Longrightarrow> keeps view (run_query f q)"
  by (auto simp: keeps_def run_query_Inr)

end
