(* ===== verification/Problem_Service.thy ===== *)
theory Problem_Service
  imports Problem_Repository Authz
begin

section \<open>Problem authoring, checks and review (\<^verbatim>\<open>internal/problem\<close>)\<close>

text \<open>
  The services that change problems: who may (\<^verbatim>\<open>rbac_policy.go\<close>), what is a valid input (\<^verbatim>\<open>service.go\<close>),
  when a problem may be published (\<^verbatim>\<open>problem_readiness.go\<close>), and the authoring, check and review
  operations (\<^verbatim>\<open>problem_authoring.go\<close>, \<^verbatim>\<open>problem_check_service.go\<close>, \<^verbatim>\<open>review.go\<close>). Randomness and
  object storage are parameters; the refresh of the statistics cache is not modelled.
\<close>

subsection \<open>Policy (\<^verbatim>\<open>rbac_policy.go\<close>)\<close>

definition problemForbidden :: "string \<Rightarrow> 'a res" where
  "problemForbidden message = fail (Forbidden ''problem.forbidden'' message)"

definition hasProblemPermission :: "actor \<Rightarrow> Permission \<Rightarrow> bool" where
  "hasProblemPermission a p \<longleftrightarrow> Authorize (NewSubject a) p = Inr ()"

definition requireProblemPermission :: "actor \<Rightarrow> Permission \<Rightarrow> unit res" where
  "requireProblemPermission a p =
     (case Authorize (NewSubject a) p of
        Inl _ \<Rightarrow> problemForbidden ''required problem permission is missing''
      | Inr _ \<Rightarrow> Inr ())"

definition CanCreate :: "actor \<Rightarrow> unit res" where
  "CanCreate a = requireProblemPermission a PermissionProblemCreate"

definition combo :: "string \<Rightarrow> Permission list" where
  "combo name = (case map_of permissionCombos name of None \<Rightarrow> [] | Some ps \<Rightarrow> ps)"

definition CanAccessAuthoring :: "actor \<Rightarrow> unit res" where
  "CanAccessAuthoring a =
     (if \<exists>p \<in> set (combo ''problem.authoring.access''). hasProblemPermission a p then Inr ()
      else problemForbidden ''required problem permission is missing'')"

definition CanEdit :: "actor \<Rightarrow> problem_record \<Rightarrow> unit res" where
  "CanEdit a p =
     (if hasProblemPermission a PermissionProblemManageAll then Inr ()
      else if ac_UserID a \<noteq> pd_OwnerUserID p
      then problemForbidden ''problem owner or problem.manage_all permission required''
      else requireProblemPermission a PermissionProblemEditOwn)"

definition CanRejudge :: "actor \<Rightarrow> unit res" where
  "CanRejudge a = requireProblemPermission a PermissionSubmissionRejudge"

definition CanSubmitReview :: "actor \<Rightarrow> problem_record \<Rightarrow> unit res" where
  "CanSubmitReview a p =
     (if hasProblemPermission a PermissionProblemManageAll then Inr ()
      else if ac_UserID a \<noteq> pd_OwnerUserID p
      then problemForbidden ''problem owner or problem.manage_all permission required''
      else requireProblemPermission a PermissionProblemSubmitReview)"

definition CanDecideReview :: "actor \<Rightarrow> problem_record \<Rightarrow> unit res" where
  "CanDecideReview a p =
     (if hasProblemPermission a PermissionProblemManageAll then Inr ()
      else if ac_UserID a = pd_OwnerUserID p
      then fail (Forbidden ''problem.self_review_forbidden'' ''problem authors cannot review their own problems'')
      else bind_res (requireProblemPermission a PermissionProblemReview) (\<lambda>_.
             requireProblemPermission a PermissionProblemPublish))"

definition CanViewReviewQueue :: "actor \<Rightarrow> unit res" where
  "CanViewReviewQueue a =
     (if \<exists>p \<in> set (combo ''problem.review.queue''). hasProblemPermission a p then Inr ()
      else problemForbidden ''required problem permission is missing'')"

definition CanViewReviewEvents :: "actor \<Rightarrow> problem_record \<Rightarrow> unit res" where
  "CanViewReviewEvents a p =
     (if hasProblemPermission a PermissionProblemManageAll \<or> hasProblemPermission a PermissionProblemReview then Inr ()
      else if ac_UserID a = pd_OwnerUserID p then requireProblemPermission a PermissionProblemEditOwn
      else problemForbidden ''problem owner, reviewer, or problem.manage_all permission required'')"

definition CanRestore :: "actor \<Rightarrow> unit res" where
  "CanRestore a = requireProblemPermission a PermissionProblemManageAll"

definition canWriteProblem :: "actor \<Rightarrow> problem_record \<Rightarrow> unit res" where
  "canWriteProblem a p = CanEdit a p"

definition canReadProblem :: "actor \<Rightarrow> problem_record \<Rightarrow> unit res" where
  "canReadProblem a p =
     (if pd_Status p = StatusPublished \<and> pd_Visibility p = VisibilityPublic then Inr ()
      else if hasProblemPermission a PermissionProblemManageAll \<or> Authenticated a \<and> ac_UserID a = pd_OwnerUserID p
      then Inr ()
      else fail (NotFound ''problem.not_found'' ''problem not found''))"

subsection \<open>Validation (\<^verbatim>\<open>service.go\<close>)\<close>

definition validDifficulty :: "string \<Rightarrow> bool" where
  "validDifficulty value \<longleftrightarrow> value \<in> {''easy'', ''medium'', ''hard''}"

definition validVisibility :: "string \<Rightarrow> bool" where
  "validVisibility value \<longleftrightarrow> value \<in> {''private'', ''public'', ''contest_only''}"

definition applyProblemDefaults :: "create_problem_input \<Rightarrow> create_problem_input" where
  "applyProblemDefaults i =
     i\<lparr>ci_Difficulty := (if TrimSpace (ci_Difficulty i) = [] then ''medium'' else ci_Difficulty i),
       ci_Visibility := (if TrimSpace (ci_Visibility i) = [] then ''private'' else ci_Visibility i),
       ci_TimeLimitMS := (if ci_TimeLimitMS i = 0 then 1000 else ci_TimeLimitMS i),
       ci_MemoryLimitKB := (if ci_MemoryLimitKB i = 0 then 262144 else ci_MemoryLimitKB i)\<rparr>"

definition validateCreateProblem :: "create_problem_input \<Rightarrow> unit res" where
  "validateCreateProblem i =
     (if TrimSpace (ci_Title i) = [] then fail (BadRequest ''problem.title_required'' ''title is required'')
      else if \<not> validDifficulty (ci_Difficulty i)
      then fail (BadRequest ''problem.difficulty_invalid'' ''difficulty is invalid'')
      else if \<not> validVisibility (ci_Visibility i)
      then fail (BadRequest ''problem.visibility_invalid'' ''visibility is invalid'')
      else if sint (ci_TimeLimitMS i) \<le> 0
      then fail (BadRequest ''problem.time_limit_invalid'' ''time_limit_ms must be positive'')
      else if sint (ci_MemoryLimitKB i) \<le> 0
      then fail (BadRequest ''problem.memory_limit_invalid'' ''memory_limit_kb must be positive'')
      else Inr ())"

definition validateUpdateProblem :: "update_problem_input \<Rightarrow> unit res" where
  "validateUpdateProblem i =
     (if \<not> absent_or (ui_Difficulty i) validDifficulty
      then fail (BadRequest ''problem.difficulty_invalid'' ''difficulty is invalid'')
      else if \<not> absent_or (ui_Visibility i) validVisibility
      then fail (BadRequest ''problem.visibility_invalid'' ''visibility is invalid'')
      else if \<not> absent_or (ui_TimeLimitMS i) (\<lambda>v. sint v > 0)
      then fail (BadRequest ''problem.time_limit_invalid'' ''time_limit_ms must be positive'')
      else if \<not> absent_or (ui_MemoryLimitKB i) (\<lambda>v. sint v > 0)
      then fail (BadRequest ''problem.memory_limit_invalid'' ''memory_limit_kb must be positive'')
      else Inr ())"

abbreviation maxSampleFieldBytes :: nat where "maxSampleFieldBytes \<equiv> 65536"

fun validateSamples :: "sample_input list \<Rightarrow> unit res" where
  "validateSamples [] = Inr ()"
| "validateSamples (x # xs) =
     (if TrimSpace (sp_Input x) = [] \<or> TrimSpace (sp_Output x) = []
      then fail (BadRequest ''statement.sample_invalid'' ''sample input and output are required'')
      else if \<exists>field \<in> set [sp_Input x, sp_Output x, sp_Explanation x]. length field > maxSampleFieldBytes
      then fail (BadRequest ''statement.sample_too_large'' ''sample field must not exceed 64 KiB'')
      else validateSamples xs)"

definition validateStatement :: "create_statement_input \<Rightarrow> unit res" where
  "validateStatement i =
     (if TrimSpace (cs_Description i) = []
      then fail (BadRequest ''statement.description_required'' ''description is required'')
      else validateSamples (cs_Samples i))"

definition slug_char :: "char \<Rightarrow> bool" where
  "slug_char c \<longleftrightarrow> (CHR ''a'' \<le> c \<and> c \<le> CHR ''z'') \<or> is_digit c"

text \<open>\<^verbatim>\<open>^[a-z0-9]+(?:[-_][a-z0-9]+)*$\<close> as the automaton that matches it; the state says whether a run is open.\<close>

fun slug_match :: "bool \<Rightarrow> string \<Rightarrow> bool" where
  "slug_match open_run [] = open_run"
| "slug_match open_run (c # cs) =
     (if slug_char c then slug_match True cs
      else (c = CHR ''-'' \<or> c = CHR ''_'') \<and> open_run \<and> slug_match False cs)"

definition validSlug :: "string \<Rightarrow> bool" where
  "validSlug slug = slug_match False (TrimSpace slug)"

fun validate_tags_from :: "string set \<Rightarrow> tag_input list \<Rightarrow> unit res" where
  "validate_tags_from seen [] = Inr ()"
| "validate_tags_from seen (t # ts) =
     (if TrimSpace (ti_Name t) = [] then fail (BadRequest ''tag.name_required'' ''tag name is required'')
      else if \<not> validSlug (ti_Slug t) then fail (BadRequest ''tag.slug_invalid'' ''tag slug is invalid'')
      else if ti_Slug t \<in> seen then fail (BadRequest ''tag.duplicate'' ''duplicate tag slug'')
      else validate_tags_from (insert (ti_Slug t) seen) ts)"

definition validateTags :: "tag_input list \<Rightarrow> unit res" where
  "validateTags tags = validate_tags_from {} tags"

text \<open>
  The loop of \<^verbatim>\<open>slugifyTag\<close> over the runes of the lower-cased name. Every byte of a rune outside ASCII
  fails the test its rune fails, and dashes do not repeat, so walking the bytes gives the same slug.
\<close>

fun slugify_from :: "string \<Rightarrow> bool \<Rightarrow> string \<Rightarrow> string" where
  "slugify_from built lastDash [] = built"
| "slugify_from built lastDash (c # cs) =
     (if slug_char c then slugify_from (built @ [c]) False cs
      else if \<not> lastDash \<and> built \<noteq> [] then slugify_from (built @ ''-'') True cs
      else slugify_from built lastDash cs)"

definition trim_dashes :: "string \<Rightarrow> string" where
  "trim_dashes s = TrimRight (dropWhile (\<lambda>c. c = CHR ''-'') s) ''-''"

definition slugifyTag :: "(string \<Rightarrow> string) \<Rightarrow> string \<Rightarrow> string" where
  "slugifyTag lower name = trim_dashes (slugify_from [] False (lower (TrimSpace name)))"

fun tag_inputs :: "(string \<Rightarrow> string) \<Rightarrow> string list \<Rightarrow> tag_input list res" where
  "tag_inputs lower [] = Inr []"
| "tag_inputs lower (name # names) =
     (let trimmed = TrimSpace name in
      if trimmed = [] then fail (BadRequest ''tag.name_required'' ''tag name is required'')
      else bind_res (tag_inputs lower names) (\<lambda>tags.
             Inr (\<lparr>ti_Name = trimmed, ti_Slug = slugifyTag lower trimmed\<rparr> # tags)))"

definition tagInputsFromNames :: "(string \<Rightarrow> string) \<Rightarrow> string list \<Rightarrow> tag_input list res" where
  "tagInputsFromNames lower names =
     bind_res (tag_inputs lower names) (\<lambda>tags. bind_res (validateTags tags) (\<lambda>_. Inr tags))"

text \<open>\<open>random\<close>: what \<^verbatim>\<open>crand.Read\<close> returned, in hexadecimal.\<close>

definition generateProblemSlug :: "(string \<Rightarrow> string) \<Rightarrow> string \<Rightarrow> string res \<Rightarrow> string res" where
  "generateProblemSlug lower title random =
     (let base0 = slugifyTag lower title; base = (if base0 = [] then ''problem'' else base0)
      in case random of
           Inl e \<Rightarrow> Inl (ErrText ''generate problem slug'')
         | Inr h \<Rightarrow> Inr (base @ ''-'' @ h))"

definition isProblemSlugConflict :: "go_error \<Rightarrow> bool" where
  "isProblemSlugConflict err = (case From err of None \<Rightarrow> False | Some e \<Rightarrow> Code e = ''problem.slug_conflict'')"

definition testcaseArchiveKey :: "int64 \<Rightarrow> string res \<Rightarrow> string res" where
  "testcaseArchiveKey pid random =
     (case random of
        Inl e \<Rightarrow> Inl (ErrText ''generate testcase object key'')
      | Inr h \<Rightarrow> Inr (''problems/'' @ FormatInt pid @ ''/testcases/'' @ h @ ''.zip''))"

subsection \<open>Readiness (\<^verbatim>\<open>problem_readiness.go\<close>)\<close>

record authoring_blocker =
  bl_Code :: string
  bl_Message :: string
  bl_Step :: string

record authoring_readiness =
  rd_statement :: "statement option"
  rd_testcaseSet :: "testcase_set_row option"
  rd_latestCheck :: "(problem_check_run \<times> problem_check_finding list) option"
  rd_blockers :: "authoring_blocker list"

definition isNotFoundError :: "go_error \<Rightarrow> bool" where
  "isNotFoundError err = (case From err of None \<Rightarrow> False | Some e \<Rightarrow> HTTPStatus e = 404)"

definition or_not_found :: "'a ptx \<Rightarrow> 'a option ptx" where
  "or_not_found m = (\<lambda>s. case m s of
     Inl e \<Rightarrow> (if isNotFoundError e then Inr (None, s) else Inl e)
   | Inr (x, s') \<Rightarrow> Inr (Some x, s'))"

definition statement_blocker :: authoring_blocker where
  "statement_blocker = \<lparr>bl_Code = ''problem.statement_required'',
     bl_Message = ''current statement is required before publishing'', bl_Step = ''statement''\<rparr>"

definition testcase_blocker :: authoring_blocker where
  "testcase_blocker = \<lparr>bl_Code = ''problem.testcase_required'',
     bl_Message = ''current testcase set is required before publishing'', bl_Step = ''testcase''\<rparr>"

definition check_blocker :: authoring_blocker where
  "check_blocker = \<lparr>bl_Code = ''problem.check_required'',
     bl_Message = ''run a problem check for the current testcase set before publishing'', bl_Step = ''check''\<rparr>"

definition check_failed_blocker :: authoring_blocker where
  "check_failed_blocker = \<lparr>bl_Code = ''problem.check_failed'',
     bl_Message = ''the current testcase set has validation errors'', bl_Step = ''check''\<rparr>"

definition loadProblemAuthoringReadiness :: "int64 \<Rightarrow> authoring_readiness ptx" where
  "loadProblemAuthoringReadiness pid =
     bind_tx (or_not_found (repo_GetCurrentProblemStatement pid)) (\<lambda>statement.
     let blockers = (if statement = None then [statement_blocker] else []) in
     bind_tx (or_not_found (repo_GetCurrentTestcaseSet pid)) (\<lambda>tset.
       case tset of
         None \<Rightarrow> return_tx \<lparr>rd_statement = statement, rd_testcaseSet = None, rd_latestCheck = None,
                   rd_blockers = blockers @ [testcase_blocker]\<rparr>
       | Some x \<Rightarrow>
           (case statement of
              None \<Rightarrow> return_tx \<lparr>rd_statement = None, rd_testcaseSet = tset, rd_latestCheck = None, rd_blockers = blockers\<rparr>
            | Some sm \<Rightarrow>
                bind_tx (or_not_found (repo_GetLatestCompletedProblemCheckRun pid (sm_ID sm) (ts_ID x))) (\<lambda>check.
                  case check of
                    None \<Rightarrow> return_tx \<lparr>rd_statement = statement, rd_testcaseSet = tset, rd_latestCheck = None,
                              rd_blockers = blockers @ [check_blocker]\<rparr>
                  | Some r \<Rightarrow>
                      bind_tx (listProblemCheckFindings (ck_ID r)) (\<lambda>findings.
                        return_tx \<lparr>rd_statement = statement, rd_testcaseSet = tset, rd_latestCheck = Some (r, findings),
                          rd_blockers = blockers @ (if su_Valid (ck_Summary r) then [] else [check_failed_blocker])\<rparr>)))))"

definition ensurePublishable :: "int64 \<Rightarrow> unit ptx" where
  "ensurePublishable pid =
     bind_tx (loadProblemAuthoringReadiness pid) (\<lambda>readiness.
       case rd_blockers readiness of
         [] \<Rightarrow> return_tx ()
       | b # _ \<Rightarrow> fail_tx (AppErr (Unprocessable (bl_Code b) (bl_Message b))))"

definition demotePublishedProblem :: "problem_record \<Rightarrow> unit ptx" where
  "demotePublishedProblem p =
     (if pd_Status p \<noteq> StatusPublished then return_tx ()
      else bind_tx (repo_SetProblemStatus (pd_ID p) StatusDraft) (\<lambda>_. return_tx ()))"

subsection \<open>Authoring (\<^verbatim>\<open>problem_authoring.go\<close>)\<close>

text \<open>A guard inside a transaction: its error rolls back.\<close>

definition guard_tx :: "'a res \<Rightarrow> 'a ptx" where
  "guard_tx r = (case r of Inl e \<Rightarrow> fail_tx e | Inr x \<Rightarrow> return_tx x)"

definition createProblemOnce :: "actor \<Rightarrow> create_problem_input \<Rightarrow> tag_input list \<Rightarrow> problem_record ptx" where
  "createProblemOnce a input tagInputs =
     bind_tx (repo_CreateProblem (ac_UserID a) input) (\<lambda>created.
     bind_tx (when_tx (tagInputs \<noteq> [])
       (bind_tx (replaceProblemTags (pd_ID created) tagInputs) (\<lambda>_. return_tx ()))) (\<lambda>_. return_tx created))"

text \<open>The loop of \<^verbatim>\<open>CreateProblem\<close>: \<open>random i\<close> is what the i-th attempt draws.\<close>

fun create_attempts ::
  "nat \<Rightarrow> (string \<Rightarrow> string) \<Rightarrow> (nat \<Rightarrow> string res) \<Rightarrow> actor \<Rightarrow> create_problem_input \<Rightarrow> tag_input list
   \<Rightarrow> problem_store \<Rightarrow> problem_record res \<times> problem_store" where
  "create_attempts 0 lower random a input tagInputs s =
     (fail (Conflict ''problem.slug_conflict'' ''problem slug already exists''), s)"
| "create_attempts (Suc left) lower random a input tagInputs s =
     (case generateProblemSlug lower (ci_Title input) (random left) of
        Inl e \<Rightarrow> (Inl e, s)
      | Inr slug \<Rightarrow>
          (case WithTx (createProblemOnce a (input\<lparr>ci_Slug := slug\<rparr>) tagInputs) s of
             (Inr created, s') \<Rightarrow> (Inr created, s')
           | (Inl e, s') \<Rightarrow> (if \<not> isProblemSlugConflict e then (Inl e, s')
                            else create_attempts left lower random a input tagInputs s')))"

abbreviation problemSlugAttempts :: nat where "problemSlugAttempts \<equiv> 3"

definition CreateProblem ::
  "(string \<Rightarrow> string) \<Rightarrow> (nat \<Rightarrow> string res) \<Rightarrow> actor \<Rightarrow> create_problem_input \<Rightarrow> problem_store
   \<Rightarrow> problem_record res \<times> problem_store" where
  "CreateProblem lower random a input0 s =
     (case CanCreate a of
        Inl e \<Rightarrow> (Inl e, s)
      | Inr _ \<Rightarrow>
          (let input = applyProblemDefaults input0 in
           case bind_res (validateCreateProblem input) (\<lambda>_. tagInputsFromNames lower (ci_Tags input)) of
             Inl e \<Rightarrow> (Inl e, s)
           | Inr tagInputs \<Rightarrow> create_attempts problemSlugAttempts lower random a input tagInputs s))"

definition update_problem_tx ::
  "(string \<Rightarrow> string) \<Rightarrow> actor \<Rightarrow> int64 \<Rightarrow> update_problem_input \<Rightarrow> problem_record ptx" where
  "update_problem_tx lower a pid input =
     bind_tx (repo_LockProblemForUpdate pid) (\<lambda>current.
     bind_tx (guard_tx (canWriteProblem a current)) (\<lambda>_.
     bind_tx (guard_tx (validateUpdateProblem input)) (\<lambda>_.
     bind_tx (guard_tx (tagInputsFromNames lower (or_old (ui_Tags input) []))) (\<lambda>tagInputs.
     bind_tx (repo_updateProblem pid input) (\<lambda>updated.
     bind_tx (when_tx (ui_Tags input \<noteq> None)
       (bind_tx (replaceProblemTags pid tagInputs) (\<lambda>_. return_tx ()))) (\<lambda>_. return_tx updated))))))"

definition UpdateProblem ::
  "(string \<Rightarrow> string) \<Rightarrow> actor \<Rightarrow> int64 \<Rightarrow> update_problem_input \<Rightarrow> problem_store \<Rightarrow> problem_record res \<times> problem_store" where
  "UpdateProblem lower a pid input s =
     (if ui_Status input \<noteq> None
      then (fail (Conflict ''problem.status_managed_by_review'' ''problem status changes must use the review workflow''), s)
      else WithTx (update_problem_tx lower a pid input) s)"

definition archive_problem_tx :: "actor \<Rightarrow> int64 \<Rightarrow> problem_record ptx" where
  "archive_problem_tx a pid =
     bind_tx (repo_LockProblemForUpdate pid) (\<lambda>current.
     bind_tx (guard_tx (canWriteProblem a current)) (\<lambda>_.
     bind_tx (repo_ArchiveProblem pid) (\<lambda>archived.
     bind_tx (repo_RecordAudit \<lparr>au_ActorUserID = ac_UserID a, au_Action = ''problem.archived'', au_ObjectType = ''problem'',
         au_ObjectID = pid, au_Reason = [], au_Metadata = [(''previous_status'', pd_Status current)]\<rparr>) (\<lambda>_.
       return_tx archived))))"

definition ArchiveProblem :: "actor \<Rightarrow> int64 \<Rightarrow> problem_store \<Rightarrow> problem_record res \<times> problem_store" where
  "ArchiveProblem a pid s = WithTx (archive_problem_tx a pid) s"

definition restore_problem_tx :: "actor \<Rightarrow> int64 \<Rightarrow> problem_record ptx" where
  "restore_problem_tx a pid =
     bind_tx (repo_LockProblemForUpdate pid) (\<lambda>current.
     bind_tx (guard_tx (if pd_Status current \<noteq> StatusArchived
         then fail (Conflict ''problem.not_archived'' ''problem is not archived'') else Inr ())) (\<lambda>_.
     bind_tx (repo_RestoreProblem pid) (\<lambda>restored.
     bind_tx (repo_RecordAudit \<lparr>au_ActorUserID = ac_UserID a, au_Action = ''problem.restored'', au_ObjectType = ''problem'',
         au_ObjectID = pid, au_Reason = [], au_Metadata = []\<rparr>) (\<lambda>_.
       return_tx restored))))"

definition RestoreProblem :: "actor \<Rightarrow> int64 \<Rightarrow> problem_store \<Rightarrow> problem_record res \<times> problem_store" where
  "RestoreProblem a pid s =
     (case CanRestore a of Inl e \<Rightarrow> (Inl e, s) | Inr _ \<Rightarrow> WithTx (restore_problem_tx a pid) s)"

definition create_statement_tx :: "actor \<Rightarrow> int64 \<Rightarrow> create_statement_input \<Rightarrow> statement ptx" where
  "create_statement_tx a pid input =
     bind_tx (repo_LockProblemForUpdate pid) (\<lambda>p.
     bind_tx (guard_tx (canWriteProblem a p)) (\<lambda>_.
     bind_tx (repo_NextProblemStatementVersion pid) (\<lambda>version.
     bind_tx (when_tx (cs_MakeCurrent input) (repo_ClearCurrentProblemStatement pid)) (\<lambda>_.
     bind_tx (createProblemStatement pid version (input\<lparr>cs_Title := pd_Title p\<rparr>)) (\<lambda>statement.
     bind_tx (demotePublishedProblem p) (\<lambda>_. return_tx statement))))))"

definition CreateStatement ::
  "actor \<Rightarrow> int64 \<Rightarrow> create_statement_input \<Rightarrow> problem_store \<Rightarrow> statement res \<times> problem_store" where
  "CreateStatement a pid input0 s =
     (let input = input0\<lparr>cs_MakeCurrent := True\<rparr> in
      case validateStatement input of
        Inl e \<Rightarrow> (Inl e, s)
      | Inr _ \<Rightarrow> WithTx (create_statement_tx a pid input) s)"

definition assign_tags_tx :: "actor \<Rightarrow> int64 \<Rightarrow> tag_input list \<Rightarrow> tag_row list ptx" where
  "assign_tags_tx a pid tags =
     bind_tx (repo_LockProblemForUpdate pid) (\<lambda>p.
     bind_tx (guard_tx (canWriteProblem a p)) (\<lambda>_. replaceProblemTags pid tags))"

definition AssignTags :: "actor \<Rightarrow> int64 \<Rightarrow> tag_input list \<Rightarrow> problem_store \<Rightarrow> tag_row list res \<times> problem_store" where
  "AssignTags a pid tags s =
     (case validateTags tags of Inl e \<Rightarrow> (Inl e, s) | Inr _ \<Rightarrow> WithTx (assign_tags_tx a pid tags) s)"

text \<open>
  Object storage. \<^verbatim>\<open>Put\<close> returns the digest of the bytes it has read through the \<^verbatim>\<open>TeeReader\<close>; \<^verbatim>\<open>Get\<close> returns
  a body with its length and the error that reading it would end with.
\<close>

record object_body =
  ob_Bytes :: archive_bytes
  ob_Size :: int64
  ob_Error :: "go_error option"

record 'o archives =
  ar_Put :: "string \<Rightarrow> archive_bytes \<Rightarrow> int64 \<Rightarrow> 'o \<Rightarrow> string res \<times> 'o"
  ar_Delete :: "string \<Rightarrow> 'o \<Rightarrow> 'o"
  ar_Get :: "string \<Rightarrow> 'o \<Rightarrow> object_body res"

definition readAllAndClose :: "object_body \<Rightarrow> int64 \<Rightarrow> (archive_bytes \<times> int64) res" where
  "readAllAndClose body maxBytes =
     (case ob_Error body of
        Some e \<Rightarrow> Inl e
      | None \<Rightarrow>
          (if maxBytes > 0 \<and> ob_Size body > maxBytes
           then fail (New codeArchiveTooLarge ''testcase archive is too large'' 413)
           else Inr (ob_Bytes body, ob_Size body)))"

record archive_parser =
  pp_lower :: "string \<Rightarrow> string"
  pp_iter :: "entry_map \<Rightarrow> entry_map"

definition upload_tx ::
  "actor \<Rightarrow> int64 \<Rightarrow> string \<Rightarrow> string \<Rightarrow> int64 \<Rightarrow> int32 \<Rightarrow> testcase_set_row ptx" where
  "upload_tx a pid key checksum nbytes caseCount =
     bind_tx (repo_LockProblemForUpdate pid) (\<lambda>p.
     bind_tx (guard_tx (canWriteProblem a p)) (\<lambda>_.
     bind_tx (repo_NextTestcaseSetVersion pid) (\<lambda>version.
     bind_tx (repo_ClearCurrentTestcaseSet pid) (\<lambda>_.
     bind_tx (createTestcaseSet pid version key checksum nbytes caseCount (ac_UserID a)) (\<lambda>created.
     bind_tx (demotePublishedProblem p) (\<lambda>_. return_tx created))))))"

definition UploadTestcaseArchive ::
  "archive_parser \<Rightarrow> 'o archives option \<Rightarrow> string res \<Rightarrow> actor \<Rightarrow> int64 \<Rightarrow> archive_bytes option \<Rightarrow> int64
   \<Rightarrow> problem_store \<times> 'o \<Rightarrow> testcase_set_row res \<times> finding list \<times> problem_store \<times> 'o" where
  "UploadTestcaseArchive parser archives random a pid source nbytes so =
     (case archives of
        None \<Rightarrow> (fail (ServiceUnavailable ''object storage unavailable''), [], so)
      | Some ar \<Rightarrow>
     (case (source, nbytes > 0) of
        (Some src, True) \<Rightarrow>
          (let (cases, findings) = ValidateArchive (pp_lower parser) (pp_iter parser) src nbytes in
           if HasErrorFindings findings
           then (fail ((Unprocessable ''testcase.archive_invalid'' ''testcase archive is invalid'')
                         \<lparr>Details := Some ''findings''\<rparr>), findings, so)
           else case fst (WithTx (bind_tx (repo_GetProblem pid) (\<lambda>current. guard_tx (canWriteProblem a current))) (fst so)) of
             Inl e \<Rightarrow> (Inl e, findings, so)
           | Inr _ \<Rightarrow>
          (case testcaseArchiveKey pid random of
             Inl e \<Rightarrow> (Inl e, findings, so)
           | Inr key \<Rightarrow>
          (case ar_Put ar key src nbytes (snd so) of
             (Inl e, o1) \<Rightarrow> (Inl e, findings, (fst so, o1))
           | (Inr checksum, o1) \<Rightarrow>
          (case WithTx (upload_tx a pid key checksum nbytes (word_of_int (int (length cases)))) (fst so) of
             (Inl e, s') \<Rightarrow> (Inl e, findings, (s', ar_Delete ar key o1))
           | (Inr created, s') \<Rightarrow> (Inr created, findings, (s', o1))))))
      | _ \<Rightarrow> (fail (BadRequest codeZipInvalid ''testcase archive must be a valid zip file''), [], so)))"

subsection \<open>Checks (\<^verbatim>\<open>problem_check_service.go\<close>)\<close>

definition count_severity :: "string \<Rightarrow> finding_input list \<Rightarrow> int" where
  "count_severity sev findings = int (length (filter (\<lambda>f. fn_Severity f = sev) findings))"

definition problemCheckSummary :: "int \<Rightarrow> bool \<Rightarrow> bool \<Rightarrow> finding_input list \<Rightarrow> problem_check_summary" where
  "problemCheckSummary caseCount storageReadable zipReadable findings =
     \<lparr>su_FindingCount = int (length findings), su_ErrorCount = count_severity SeverityError findings,
      su_WarningCount = count_severity SeverityWarning findings, su_InfoCount = count_severity SeverityInfo findings,
      su_CaseCount = caseCount, su_StorageReadable = storageReadable, su_ZipReadable = zipReadable,
      su_Valid = (count_severity SeverityError findings = 0)\<rparr>"

definition check_draft :: "string \<Rightarrow> string \<Rightarrow> string \<Rightarrow> string \<Rightarrow> (string \<times> string) list \<Rightarrow> finding_input" where
  "check_draft sev code message key details =
     \<lparr>fn_RunID = 0, fn_Severity = sev, fn_Code = code, fn_Message = message, fn_CaseIndex = 0, fn_TestcaseKey = key,
      fn_Details = details\<rparr>"

definition storageUnreadableFinding :: "string \<Rightarrow> string \<Rightarrow> finding_input" where
  "storageUnreadableFinding storageKey message =
     check_draft SeverityError ''testcase.storage_unreadable'' message []
       (if storageKey \<noteq> [] then [(''storage_key'', storageKey)] else [])"

definition archiveErrorFinding :: "go_error \<Rightarrow> string \<Rightarrow> finding_input" where
  "archiveErrorFinding err storageKey =
     (case From err of
        Some e \<Rightarrow> check_draft SeverityError (Code e) (Message e) [] [(''storage_key'', storageKey)]
      | None \<Rightarrow> storageUnreadableFinding storageKey ''testcase archive cannot be read from storage'')"

definition archiveUnreadable :: "finding list \<Rightarrow> bool" where
  "archiveUnreadable findings \<longleftrightarrow> (\<exists>f \<in> set findings. fi_Code f = codeZipInvalid \<or> fi_Code f = codeArchiveCorrupted)"

record check_outcome =
  oc_findings :: "finding_input list"
  oc_storageReadable :: bool
  oc_zipReadable :: bool
  oc_caseCount :: nat

text \<open>The \<^verbatim>\<open>switch\<close> of \<^verbatim>\<open>RunProblemCheck\<close>: what checking the stored archive found.\<close>

definition check_archive :: "archive_parser \<Rightarrow> 'o archives option \<Rightarrow> 'o \<Rightarrow> testcase_set_row \<Rightarrow> check_outcome" where
  "check_archive parser archives ob tset =
     (let unread = (\<lambda>f storage. \<lparr>oc_findings = [f], oc_storageReadable = storage, oc_zipReadable = False, oc_caseCount = 0\<rparr>);
          key = ts_StorageKey tset in
      case archives of
        None \<Rightarrow> unread (storageUnreadableFinding key ''testcase object storage is unavailable'') False
      | Some ar \<Rightarrow>
          (if TrimSpace key = [] then unread (storageUnreadableFinding [] ''testcase archive storage key is missing'') False
           else case ar_Get ar key ob of
             Inl e \<Rightarrow> unread (storageUnreadableFinding key ''testcase archive cannot be read from storage'') False
           | Inr body \<Rightarrow>
               (case readAllAndClose body MaxTestcaseArchiveBytes of
                  Inl e \<Rightarrow> unread (archiveErrorFinding e key) True
                | Inr (data, n) \<Rightarrow>
                    (let (cases, archiveFindings) = VerifyArchive (pp_lower parser) (pp_iter parser) data n (ts_ChecksumSha256 tset);
                         drafts = map (\<lambda>f. check_draft (fi_Severity f) (fi_Code f) (fi_Message f) (fi_File f)
                                             [(''storage_key'', key)]) archiveFindings;
                         zipReadable = (\<not> archiveUnreadable archiveFindings);
                         mismatch = (zipReadable \<and> word_of_int (int (length cases)) \<noteq> ts_CaseCount tset)
                     in \<lparr>oc_findings = drafts @ (if mismatch
                            then [check_draft SeverityError codeCaseCountMismatch
                                    ''case count does not match the stored testcase set'' []
                                    [(''expected_case_count'', FormatInt (sint (ts_CaseCount tset))),
                                     (''actual_case_count'', FormatInt (int (length cases)))]]
                            else []),
                         oc_storageReadable = True, oc_zipReadable = zipReadable, oc_caseCount = length cases\<rparr>))))"

definition store_check ::
  "actor \<Rightarrow> int64 \<Rightarrow> int64 \<Rightarrow> int64 \<Rightarrow> check_outcome \<Rightarrow> time \<Rightarrow> (problem_check_run \<times> problem_check_finding list) ptx" where
  "store_check a pid statementID setID oc now =
     bind_tx (createProblemCheckRun pid statementID setID (ac_UserID a) ''running'' zero_summary) (\<lambda>run.
     bind_tx (createProblemCheckFindings (map (\<lambda>f. f\<lparr>fn_RunID := ck_ID run\<rparr>) (oc_findings oc))) (\<lambda>persisted.
     bind_tx (completeProblemCheckRun (ck_ID run)
        (problemCheckSummary (int (oc_caseCount oc)) (oc_storageReadable oc) (oc_zipReadable oc) (oc_findings oc)) now)
       (\<lambda>finished. return_tx (finished, persisted))))"

definition RunProblemCheck ::
  "archive_parser \<Rightarrow> 'o archives option \<Rightarrow> 'o \<Rightarrow> time \<Rightarrow> actor \<Rightarrow> int64 \<Rightarrow> problem_store
   \<Rightarrow> (problem_check_run \<times> problem_check_finding list) res \<times> problem_store" where
  "RunProblemCheck parser archives ob now a pid s =
     (case fst (WithTx (bind_tx (repo_GetProblem pid) (\<lambda>p.
                        bind_tx (guard_tx (canWriteProblem a p)) (\<lambda>_.
                        bind_tx (repo_GetCurrentProblemStatement pid) (\<lambda>sm.
                        bind_tx (repo_GetCurrentTestcaseSet pid) (\<lambda>tset. return_tx (sm, tset)))))) s) of
        Inl e \<Rightarrow> (Inl e, s)
      | Inr (sm, tset) \<Rightarrow>
          WithTx (store_check a pid (sm_ID sm) (ts_ID tset) (check_archive parser archives ob tset) now) s)"

definition problemCheckNotFoundErr :: "go_error \<Rightarrow> go_error" where
  "problemCheckNotFoundErr err =
     (if isNotFoundError err then AppErr (NotFound ''problem_check.not_found'' ''problem check not found'') else err)"

definition GetProblemCheck ::
  "actor \<Rightarrow> int64 \<Rightarrow> int64 \<Rightarrow> problem_store \<Rightarrow> (problem_check_run \<times> problem_check_finding list) res" where
  "GetProblemCheck a pid checkID s = fst (WithTx
     (bind_tx (repo_GetProblem pid) (\<lambda>p.
      bind_tx (guard_tx (canWriteProblem a p)) (\<lambda>_.
      bind_tx (map_err problemCheckNotFoundErr (repo_GetProblemCheckRun checkID)) (\<lambda>run.
        if ck_ProblemID run \<noteq> pid
        then fail_tx (AppErr (NotFound ''problem_check.not_found'' ''problem check not found''))
        else bind_tx (listProblemCheckFindings checkID) (\<lambda>findings. return_tx (run, findings)))))) s)"

subsection \<open>Review (\<^verbatim>\<open>review.go\<close>)\<close>

definition transition_tx :: "actor \<Rightarrow> int64 \<Rightarrow> string \<Rightarrow> string \<Rightarrow> string \<Rightarrow> string \<Rightarrow> problem_record ptx" where
  "transition_tx a pid fromStatus toStatus decision comment =
     bind_tx (repo_LockProblemForUpdate pid) (\<lambda>current.
       if pd_Status current \<noteq> fromStatus
       then fail_tx (AppErr (Conflict ''problem.review_invalid_state''
              ''problem state changed before the review action completed''))
       else bind_tx (repo_SetProblemStatus pid toStatus) (\<lambda>updated.
            bind_tx (repo_CreateProblemReviewEvent
              \<lparr>re_ProblemID = pid, re_ActorUserID = ac_UserID a, re_FromStatus = pd_Status current, re_ToStatus = toStatus,
               re_Decision = decision, re_Comment = comment\<rparr>) (\<lambda>_. return_tx updated)))"

definition transition ::
  "actor \<Rightarrow> int64 \<Rightarrow> string \<Rightarrow> string \<Rightarrow> string \<Rightarrow> string \<Rightarrow> problem_store \<Rightarrow> problem_record res \<times> problem_store" where
  "transition a pid fromStatus toStatus decision comment s =
     WithTx (transition_tx a pid fromStatus toStatus decision comment) s"

text \<open>
  \<^verbatim>\<open>Submit\<close> and \<^verbatim>\<open>Decide\<close> read and check outside any transaction; the transition that follows is a
  transaction of its own. \<open>others\<close> is what other requests do to the tables in between: the checks see the
  state \<open>s\<close>, the transition runs on \<open>others s\<close> and checks the status again, and nothing else.
\<close>

definition Submit ::
  "(problem_store \<Rightarrow> problem_store) \<Rightarrow> actor \<Rightarrow> int64 \<Rightarrow> problem_store \<Rightarrow> problem_record res \<times> problem_store" where
  "Submit others a pid s =
     (case fst (WithTx (bind_tx (repo_GetProblem pid) (\<lambda>p.
                        bind_tx (guard_tx (CanSubmitReview a p)) (\<lambda>_. return_tx p))) s) of
        Inl e \<Rightarrow> (Inl e, others s)
      | Inr p \<Rightarrow>
          (if pd_Status p \<noteq> StatusDraft \<and> pd_Status p \<noteq> StatusChangesRequested
           then (fail (Conflict ''problem.review_invalid_state''
                  ''only draft or changes-requested problems can be submitted for review''), others s)
           else transition a pid (pd_Status p) StatusInReview ''submit'' [] (others s)))"

text \<open>
  \<^verbatim>\<open>Decide\<close> in its two halves: the reads and checks, which return the status to move to, and the
  transition.
\<close>

definition decide_checks :: "actor \<Rightarrow> int64 \<Rightarrow> string \<Rightarrow> string \<Rightarrow> problem_store \<Rightarrow> (string \<times> string) res" where
  "decide_checks a pid decision comment s =
     (if decision \<noteq> ''approve'' \<and> decision \<noteq> ''request_changes''
      then fail (BadRequest ''problem.review_decision_invalid'' ''decision must be approve or request_changes'')
      else if decision = ''request_changes'' \<and> comment = []
      then fail (BadRequest ''problem.review_comment_required'' ''comment is required when requesting changes'')
      else fst (WithTx
        (bind_tx (repo_GetProblem pid) (\<lambda>p.
         bind_tx (guard_tx (CanDecideReview a p)) (\<lambda>_.
           if pd_Status p \<noteq> StatusInReview
           then fail_tx (AppErr (Conflict ''problem.review_invalid_state'' ''only problems in review can be decided''))
           else if decision = ''approve''
           then bind_tx (ensurePublishable pid) (\<lambda>_. return_tx (pd_Status p, StatusPublished))
           else return_tx (pd_Status p, StatusChangesRequested)))) s))"

definition Decide ::
  "(problem_store \<Rightarrow> problem_store) \<Rightarrow> actor \<Rightarrow> int64 \<Rightarrow> string \<Rightarrow> string \<Rightarrow> problem_store
   \<Rightarrow> problem_record res \<times> problem_store" where
  "Decide others a pid decision0 comment0 s =
     (let decision = TrimSpace decision0; comment = TrimSpace comment0 in
      case decide_checks a pid decision comment s of
        Inl e \<Rightarrow> (Inl e, others s)
      | Inr (fromStatus, toStatus) \<Rightarrow> transition a pid fromStatus toStatus decision comment (others s))"

definition ReviewEvents :: "actor \<Rightarrow> int64 \<Rightarrow> problem_store \<Rightarrow> review_event_row list res" where
  "ReviewEvents a pid s = fst (WithTx
     (bind_tx (repo_GetProblem pid) (\<lambda>p.
      bind_tx (guard_tx (CanViewReviewEvents a p)) (\<lambda>_. repo_ListProblemReviewEvents pid))) s)"


record review_queue_filter =
  rq_Page :: int32
  rq_PageSize :: int32

definition ReviewQueue ::
  "actor \<Rightarrow> review_queue_filter \<Rightarrow> problem_store \<Rightarrow> (problem_record list \<times> int64 \<times> int32 \<times> int32) res" where
  "ReviewQueue a f s =
     (let page = (if sint (rq_Page f) \<le> 0 then 1 else rq_Page f);
          pageSize = (if sint (rq_PageSize f) \<le> 0 \<or> sint (rq_PageSize f) > 100 then 20 else rq_PageSize f)
      in bind_res (CanViewReviewQueue a) (\<lambda>_.
         bind_res (fst (WithTx (repo_ListProblemsForReview page pageSize) s)) (\<lambda>(items, n). Inr (items, n, page, pageSize))))"

end
