(* ===== verification/Problem_Lifecycle.thy ===== *)
theory Problem_Lifecycle
  imports Problem_Service
begin

section \<open>What publishing a problem guarantees\<close>

text \<open>
  The authoring, check and review operations as steps on the problem tables, and the invariant that
  reviewers rely on: a published problem has a current statement and a current testcase set, and a
  problem check of exactly these two found no error. Two paths of the code get past it: restoring a
  problem whose content changed while it was archived, and approving one whose content changes between
  the check and the transaction of the decision. The problems these happen to are a parameter \<open>X\<close> of the
  invariant and of the steps, and the invariant says nothing of them.
\<close>

subsection \<open>Views of the tables\<close>

definition statuses :: "problem_store \<Rightarrow> (int64 \<times> string) list" where
  "statuses s = map (\<lambda>p. (pb_ID p, pb_Status p)) (pt_problems s)"

definition shape :: "problem_store \<Rightarrow>
    (int64 \<times> string) list \<times> int64 \<times> statement_row list \<times> testcase_set_row list \<times> check_run_row list" where
  "shape s = (statuses s, pq_problems s, pt_statements s, pt_sets s, pt_checks s)"

definition content_checked :: "problem_store \<Rightarrow> int64 \<Rightarrow> bool" where
  "content_checked s pid \<longleftrightarrow>
     (\<exists>x \<in> set (pt_statements s). \<exists>y \<in> set (pt_sets s). \<exists>r \<in> set (pt_checks s).
        st_ProblemID x = pid \<and> st_IsCurrent x \<and> ts_ProblemID y = pid \<and> ts_IsCurrent y
        \<and> cr_ProblemID r = pid \<and> cr_StatementID r = Some (st_ID x) \<and> cr_TestcaseSetID r = Some (ts_ID y)
        \<and> cr_Status r = ''completed'' \<and> su_Valid (cr_Summary r))"

definition published_checked :: "int64 set \<Rightarrow> problem_store \<Rightarrow> bool" where
  "published_checked X s \<longleftrightarrow>
     distinct (map fst (statuses s)) \<and> (\<forall>k \<in> fst ` set (statuses s). k < pq_problems s)
     \<and> (\<forall>pid. (pid, StatusPublished) \<in> set (statuses s) \<longrightarrow> pid \<notin> X \<longrightarrow> content_checked s pid)"

lemma published_checked_mono: "published_checked X s \<Longrightarrow> X \<subseteq> Y \<Longrightarrow> published_checked Y s"
  unfolding published_checked_def by blast

text \<open>Without the content: the identifiers are distinct and below the next one.\<close>

lemma published_checked_UNIV:
  "published_checked UNIV s \<longleftrightarrow>
     distinct (map pb_ID (pt_problems s)) \<and> (\<forall>p \<in> set (pt_problems s). pb_ID p < pq_problems s)"
  by (simp add: published_checked_def statuses_def comp_def)

lemma content_checked_shape: "shape s' = shape s \<Longrightarrow> content_checked s' pid = content_checked s pid"
  by (simp add: shape_def content_checked_def)

lemma published_checked_shape: "shape s' = shape s \<Longrightarrow> published_checked X s' = published_checked X s"
  using content_checked_shape [of s' s] by (simp add: shape_def published_checked_def)

lemma preserves_shape: "keeps shape m \<Longrightarrow> preserves (published_checked X) m"
  unfolding keeps_def preserves_def by (metis published_checked_shape)

subsection \<open>What the queries keep\<close>

lemma shape_updates [simp]:
  "shape (s\<lparr>pt_tags := a\<rparr>) = shape s" "shape (s\<lparr>pt_tag_links := b\<rparr>) = shape s" "shape (s\<lparr>pt_findings := c\<rparr>) = shape s"
  "shape (s\<lparr>pt_events := d\<rparr>) = shape s" "shape (s\<lparr>pt_audit := e\<rparr>) = shape s" "shape (s\<lparr>pq_tags := i\<rparr>) = shape s"
  "shape (s\<lparr>pq_findings := i\<rparr>) = shape s" "shape (s\<lparr>pq_events := i\<rparr>) = shape s" "shape (s\<lparr>pt_now := t\<rparr>) = shape s"
  "shape (s\<lparr>pq_statements := i\<rparr>) = shape s" "shape (s\<lparr>pq_sets := i\<rparr>) = shape s" "shape (s\<lparr>pq_checks := i\<rparr>) = shape s"
  by (simp_all add: shape_def statuses_def)

lemma keeps_shape_queries [keeps_intros]:
  "keeps shape (q_ClearProblemTags pid)" "keeps shape (q_CreateProblemTag name slug)" "keeps shape (q_LinkProblemTag pid t)"
  "keeps shape (q_CreateProblemCheckFindings fs)" "keeps shape (q_CreateProblemReviewEvent ev)"
  "keeps shape (audit_Insert pt_audit put_audit e)"
  by (auto simp: keeps_def q_ClearProblemTags_def q_CreateProblemTag_def q_LinkProblemTag_def q_CreateProblemCheckFindings_def
      q_CreateProblemReviewEvent_def audit_Insert_Inr tx_simps Let_def split: option.splits)

lemma reads_queries [keeps_intros]:
  "keeps view (q_GetProblemByID pid)" "keeps view (q_LockProblemForUpdate pid)" "keeps view (q_GetCurrentProblemStatement pid)"
  "keeps view (q_GetCurrentTestcaseSet pid)" "keeps view (q_GetLatestCompletedProblemCheckRun pid a b)"
  "keeps view (q_ListProblemCheckFindingsByRunID cid)" "keeps view (q_NextProblemStatementVersion pid)"
  "keeps view (q_NextTestcaseSetVersion pid)" "keeps view (guard_tx r)"
  by (auto simp: keeps_def q_GetProblemByID_def q_LockProblemForUpdate_def q_GetCurrentProblemStatement_def
      q_GetCurrentTestcaseSet_def q_GetLatestCompletedProblemCheckRun_def q_ListProblemCheckFindingsByRunID_def
      q_NextProblemStatementVersion_def q_NextTestcaseSetVersion_def guard_tx_def tx_simps split: list.splits sum.splits)

lemma statuses_update:
  assumes "\<And>p. P p \<Longrightarrow> pb_ID (f p) = pb_ID p \<and> pb_Status (f p) = g (pb_Status p)"
    and "\<And>p. P p \<longleftrightarrow> Q (pb_ID p) (pb_Status p)"
  shows "statuses (s\<lparr>pt_problems := update_rows P f (pt_problems s)\<rparr>) =
     map (\<lambda>(i, st). if Q i st then (i, g st) else (i, st)) (statuses s)"
  using assms by (auto simp: statuses_def update_rows_def)

lemma keeps_shape_update [keeps_intros]:
  assumes "up_Status u = None"
  shows "keeps shape (q_UpdateProblem pid u)"
  unfolding keeps_def
proof (intro allI impI)
  fix s x s' assume "q_UpdateProblem pid u s = Inr (x, s')"
  then have s': "s' = s\<lparr>pt_problems := update_rows (\<lambda>p. pb_ID p = pid) (updated_problem u (pt_now s)) (pt_problems s)\<rparr>"
    by (auto simp: q_UpdateProblem_def tx_simps)
  have "statuses s' = statuses s" unfolding s' using assms
    by (auto simp: statuses_def update_rows_def updated_problem_def or_old_def)
  then show "shape s' = shape s" by (simp add: shape_def s')
qed

lemma keeps_shape_link_tags [keeps_intros]: "keeps shape (link_tags pid inputs)"
  by (induction inputs) (auto intro!: keeps_intros)

lemma keeps_shape_tags [keeps_intros]: "keeps shape (replaceProblemTags pid inputs)"
  unfolding replaceProblemTags_def by (intro keeps_intros)

lemmas repo_reads = repo_GetProblem_def repo_LockProblemForUpdate_def repo_GetCurrentProblemStatement_def
  repo_GetCurrentTestcaseSet_def repo_GetLatestCompletedProblemCheckRun_def listProblemCheckFindings_def
  repo_NextProblemStatementVersion_def repo_NextTestcaseSetVersion_def

subsection \<open>Status changes\<close>

text \<open>A status change of one problem, as the status updates of the queries are.\<close>

definition set_status :: "int64 \<Rightarrow> (string \<Rightarrow> string) \<Rightarrow> (int64 \<times> string) list \<Rightarrow> (int64 \<times> string) list" where
  "set_status pid g rows = map (\<lambda>(i, st). if i = pid then (i, g st) else (i, st)) rows"

lemma fst_set_status [simp]: "map fst (set_status pid g rows) = map fst rows"
  by (auto simp: set_status_def)

lemma set_status_mem: "(i, st) \<in> set (set_status pid g rows) \<longleftrightarrow>
    (if i = pid then \<exists>old. (i, old) \<in> set rows \<and> st = g old else (i, st) \<in> set rows)"
  by (force simp: set_status_def split: if_splits)

lemma repo_SetProblemStatus_effect:
  assumes "repo_SetProblemStatus pid st s = Inr (x, s')" and "TrimSpace st = st" and "st \<noteq> []"
  shows "statuses s' = set_status pid (\<lambda>_. st) (statuses s) \<and> pq_problems s' = pq_problems s
     \<and> pt_statements s' = pt_statements s \<and> pt_sets s' = pt_sets s \<and> pt_checks s' = pt_checks s"
proof -
  from assms(1) obtain u where s': "s' = s\<lparr>pt_problems := update_rows (\<lambda>p. pb_ID p = pid) (updated_problem u (pt_now s)) (pt_problems s)\<rparr>"
    and u: "up_Status u = Some st"
    using assms(2,3) unfolding repo_SetProblemStatus_def repo_updateProblem_def run_query_Inr q_UpdateProblem_def
    by (auto simp: tx_simps textPtr_def textValue_def Let_def)
  have "statuses s' = set_status pid (\<lambda>_. st) (statuses s)"
    unfolding s' set_status_def using u by (auto simp: statuses_def update_rows_def updated_problem_def or_old_def)
  then show ?thesis by (simp add: s')
qed

lemma status_words [simp]:
  "TrimSpace StatusDraft = StatusDraft" "TrimSpace StatusInReview = StatusInReview"
  "TrimSpace StatusChangesRequested = StatusChangesRequested" "TrimSpace StatusPublished = StatusPublished"
  by code_simp+

lemma content_checked_tables:
  "pt_statements s' = pt_statements s \<Longrightarrow> pt_sets s' = pt_sets s \<Longrightarrow> pt_checks s' = pt_checks s \<Longrightarrow>
   content_checked s' pid = content_checked s pid"
  by (simp add: content_checked_def)

lemma published_checked_set_status:
  assumes "published_checked X s" and "statuses s' = set_status pid g (statuses s)" and "pq_problems s' = pq_problems s"
    and "pt_statements s' = pt_statements s" "pt_sets s' = pt_sets s" "pt_checks s' = pt_checks s"
    and "\<And>old. (pid, old) \<in> set (statuses s) \<Longrightarrow> g old = StatusPublished \<Longrightarrow> content_checked s pid"
  shows "published_checked (X - {pid}) s'"
  unfolding published_checked_def
proof (intro conjI ballI allI impI)
  have dom: "map fst (statuses s') = map fst (statuses s)" using assms(2) by simp
  show "distinct (map fst (statuses s'))" unfolding dom using assms(1) by (simp add: published_checked_def)
  have "fst ` set (statuses s') = fst ` set (statuses s)" using dom by (metis list.set_map)
  then show "k < pq_problems s'" if "k \<in> fst ` set (statuses s')" for k
    using that assms(1,3) by (auto simp: published_checked_def)
  show "content_checked s' i" if "(i, StatusPublished) \<in> set (statuses s')" "i \<notin> X - {pid}" for i
  proof (cases "i = pid")
    case True
    with that assms(2,7) content_checked_tables [OF assms(4-6)] show ?thesis by (auto simp: set_status_mem)
  next
    case False
    with that assms(1,2) content_checked_tables [OF assms(4-6)] show ?thesis
      by (auto simp: set_status_mem published_checked_def)
  qed
qed

text \<open>A problem of \<open>X\<close> may get any status.\<close>

lemma published_checked_exempt:
  assumes "published_checked X s" and "statuses s' = set_status pid g (statuses s)" and "pq_problems s' = pq_problems s"
    and "pt_statements s' = pt_statements s" "pt_sets s' = pt_sets s" "pt_checks s' = pt_checks s" and "pid \<in> X"
  shows "published_checked X s'"
proof -
  have "map fst (statuses s') = map fst (statuses s)" using assms(2) by simp
  moreover from this have "fst ` set (statuses s') = fst ` set (statuses s)" by (metis list.set_map)
  moreover have "(i, StatusPublished) \<in> set (statuses s)" if "(i, StatusPublished) \<in> set (statuses s')" "i \<notin> X" for i
    using that assms(2,7) by (auto simp: set_status_mem split: if_splits)
  ultimately show ?thesis
    using assms(1,3) content_checked_tables [OF assms(4-6)] unfolding published_checked_def by auto
qed

lemma locked_status:
  assumes "repo_LockProblemForUpdate pid s = Inr (p, s')"
  shows "s' = s" and "pd_ID p = pid" and "(pid, pd_Status p) \<in> set (statuses s)"
  using assms find_Some_set
  by (fastforce simp: repo_LockProblemForUpdate_def run_query_Inr q_LockProblemForUpdate_def tx_simps joined_def
      problemFromLockRow_def problemFromDB_def statuses_def)+

lemma status_unique: "published_checked X s \<Longrightarrow> (i, a) \<in> set (statuses s) \<Longrightarrow> (i, b) \<in> set (statuses s) \<Longrightarrow> a = b"
  unfolding published_checked_def by (meson eq_key_imp_eq_value)


subsection \<open>The operations\<close>

lemma find_current_statement:
  "repo_GetCurrentProblemStatement pid s = Inr (x, s') \<Longrightarrow> s' = s \<and>
     (\<exists>row \<in> set (pt_statements s). st_ProblemID row = pid \<and> st_IsCurrent row \<and> sm_ID x = st_ID row)"
  by (auto simp: repo_GetCurrentProblemStatement_def run_query_Inr q_GetCurrentProblemStatement_def tx_simps
      statementFromDB_def dest!: find_Some_set)

lemma find_current_set:
  "repo_GetCurrentTestcaseSet pid s = Inr (x, s') \<Longrightarrow> s' = s \<and>
     x \<in> set (pt_sets s) \<and> ts_ProblemID x = pid \<and> ts_IsCurrent x"
  by (auto simp: repo_GetCurrentTestcaseSet_def run_query_Inr q_GetCurrentTestcaseSet_def tx_simps dest!: find_Some_set)

lemma first_row: "(case xs of [] \<Rightarrow> Inl e | r # _ \<Rightarrow> Inr (r, s)) = Inr (x, s') \<Longrightarrow> \<exists>rs. xs = x # rs \<and> s' = s"
  by (cases xs) auto

lemma find_latest_check:
  assumes "repo_GetLatestCompletedProblemCheckRun pid a b s = Inr (x, s')"
  shows "s' = s \<and> (\<exists>r \<in> set (pt_checks s). cr_ProblemID r = pid \<and> cr_StatementID r = Some a
     \<and> cr_TestcaseSetID r = Some b \<and> cr_Status r = ''completed'' \<and> ck_Summary x = cr_Summary r
     \<and> ck_StatementID x = a \<and> ck_TestcaseSetID x = b)"
proof -
  let ?f = "filter (\<lambda>r. cr_ProblemID r = pid \<and> int8Value a \<noteq> None \<and> cr_StatementID r = int8Value a
      \<and> int8Value b \<noteq> None \<and> cr_TestcaseSetID r = int8Value b \<and> cr_Status r = ''completed'') (pt_checks s)"
  from assms obtain r where q: "q_GetLatestCompletedProblemCheckRun pid (int8Value a) (int8Value b) s = Inr (r, s')"
    and x: "x = problemCheckRunFromDB r"
    unfolding repo_GetLatestCompletedProblemCheckRun_def run_query_Inr by blast
  from first_row [OF q [unfolded q_GetLatestCompletedProblemCheckRun_def]]
  obtain rs where rows: "sort_by latest_check_first ?f = r # rs" and s': "s' = s" by (elim exE conjE)
  have "r \<in> set (sort_by latest_check_first ?f)" unfolding rows by (rule list.set_intros(1))
  then have "r \<in> set ?f" unfolding set_sort_by .
  then have mem: "r \<in> set (pt_checks s)" and props: "cr_ProblemID r = pid" "cr_Status r = ''completed''"
      "int8Value a \<noteq> None" "int8Value b \<noteq> None" "cr_StatementID r = int8Value a" "cr_TestcaseSetID r = int8Value b"
    by simp_all
  have ids: "cr_StatementID r = Some a" "cr_TestcaseSetID r = Some b"
    using props(3-6) unfolding int8Value_def by (simp_all split: if_splits)
  have "ck_Summary x = cr_Summary r" "ck_StatementID x = a" "ck_TestcaseSetID x = b"
    by (simp_all add: x problemCheckRunFromDB_def ids int8FromDB_def)
  with s' mem props(1,2) ids show ?thesis by blast
qed

lemma or_not_found_Inr:
  "or_not_found m s = Inr (v, s') \<longleftrightarrow>
     (case v of None \<Rightarrow> (\<exists>e. m s = Inl e \<and> isNotFoundError e) \<and> s' = s | Some x \<Rightarrow> m s = Inr (x, s'))"
  by (auto simp: or_not_found_def split: sum.splits option.splits prod.splits)

text \<open>A problem that may be published has been checked.\<close>

lemma ensurePublishable_checked:
  assumes "ensurePublishable pid s = Inr (u, s')"
  shows "s' = s \<and> content_checked s pid"
proof -
  from assms obtain rd s0 where load: "loadProblemAuthoringReadiness pid s = Inr (rd, s0)"
    and none: "(case rd_blockers rd of [] \<Rightarrow> return_tx ()
       | b # _ \<Rightarrow> fail_tx (AppErr (Unprocessable (bl_Code b) (bl_Message b)))) s0 = Inr (u, s')"
    unfolding ensurePublishable_def bind_tx_Inr by blast
  from none load have rd: "loadProblemAuthoringReadiness pid s = Inr (rd, s')" "rd_blockers rd = []"
    by (cases "rd_blockers rd"; simp add: tx_simps)+
  from rd(1) obtain v s1 w s2 where v: "or_not_found (repo_GetCurrentProblemStatement pid) s = Inr (v, s1)"
    and w: "or_not_found (repo_GetCurrentTestcaseSet pid) s1 = Inr (w, s2)"
    by (auto simp: loadProblemAuthoringReadiness_def tx_simps Let_def)
  from rd v w obtain x y where x: "v = Some x" and y: "w = Some y"
    by (cases v; cases w) (auto simp: loadProblemAuthoringReadiness_def tx_simps Let_def)
  from v x find_current_statement [of pid s x s1] have sx: "s1 = s" "repo_GetCurrentProblemStatement pid s = Inr (x, s)"
    by (auto simp: or_not_found_Inr)
  from w y sx(1) find_current_set [of pid s y s2] have sy: "s2 = s" "repo_GetCurrentTestcaseSet pid s = Inr (y, s)"
    by (auto simp: or_not_found_Inr)
  from rd v w x y sx sy obtain c s3 where c: "or_not_found (repo_GetLatestCompletedProblemCheckRun pid (sm_ID x) (ts_ID y)) s = Inr (c, s3)"
    by (auto simp: loadProblemAuthoringReadiness_def tx_simps Let_def)
  with rd v w x y sx sy obtain r where r: "c = Some r" and valid: "su_Valid (ck_Summary r)" and "s' = s3"
    by (cases c) (auto simp: loadProblemAuthoringReadiness_def listProblemCheckFindings_def run_query_Inr
        q_ListProblemCheckFindingsByRunID_def tx_simps Let_def split: if_splits)
  from c r have "repo_GetLatestCompletedProblemCheckRun pid (sm_ID x) (ts_ID y) s = Inr (r, s3)" by (simp add: or_not_found_Inr)
  from find_latest_check [OF this] find_current_statement [OF sx(2)] find_current_set [OF sy(2)] valid \<open>s' = s3\<close>
  show ?thesis unfolding content_checked_def by metis
qed

lemma create_preserves: "preserves (published_checked X) (repo_CreateProblem owner input)"
  unfolding preserves_def
proof (intro allI impI)
  fix s x s' assume "repo_CreateProblem owner input s = Inr (x, s')" and inv: "published_checked X s"
  then obtain r where r: "q_CreateProblem owner (ci_Title input) (ci_Slug input) (ci_Difficulty input) (ci_Visibility input)
      StatusDraft (ci_TimeLimitMS input) (ci_MemoryLimitKB input) s = Inr (r, s')"
    unfolding repo_CreateProblem_def run_query_Inr by blast
  then have row: "pb_ID r = pq_problems s" "pb_Status r = StatusDraft"
    and s': "s' = s\<lparr>pt_problems := pt_problems s @ [r], pq_problems := pq_problems s + 1\<rparr>"
    by (auto simp: q_CreateProblem_def tx_simps Let_def)
  have st: "statuses s' = statuses s @ [(pq_problems s, StatusDraft)]" using row by (simp add: s' statuses_def)
  have pq: "pq_problems s' = pq_problems s + 1" by (simp add: s')
  have "content_checked s' i = content_checked s i" for i by (simp add: s' content_checked_def)
  with inv show "published_checked X s'" unfolding published_checked_def st pq by (fastforce simp: image_iff)
qed

lemma demote_checked:
  assumes "demotePublishedProblem p s = Inr (u, s')" and "published_checked (insert (pd_ID p) X) s"
    and "(pd_ID p, pd_Status p) \<in> set (statuses s)"
  shows "published_checked X s'"
proof (cases "pd_Status p = StatusPublished")
  case True
  with assms(1) obtain x where x: "repo_SetProblemStatus (pd_ID p) StatusDraft s = Inr (x, s')"
    by (auto simp: demotePublishedProblem_def tx_simps)
  from published_checked_set_status [OF assms(2), of s' "pd_ID p" "\<lambda>_. StatusDraft"] repo_SetProblemStatus_effect [OF x]
  have "published_checked (insert (pd_ID p) X - {pd_ID p}) s'" by simp
  then show ?thesis by (rule published_checked_mono) auto
next
  case False
  with assms(1) have "s' = s" by (simp add: demotePublishedProblem_def tx_simps)
  moreover have "(pd_ID p, StatusPublished) \<notin> set (statuses s)"
    using False status_unique [OF assms(2,3)] by blast
  ultimately show ?thesis using assms(2) unfolding published_checked_def by auto
qed

text \<open>New content: other problems keep theirs, and this one is demoted if it was published.\<close>

lemma published_checked_other:
  assumes "published_checked X s" and "statuses s' = statuses s" "pq_problems s' = pq_problems s"
    and "\<And>i. i \<noteq> pid \<Longrightarrow> content_checked s i \<Longrightarrow> content_checked s' i"
  shows "published_checked (insert pid X) s'"
  using assms unfolding published_checked_def by auto

lemma content_other_statement:
  assumes "content_checked s i" and "i \<noteq> pid" and "pt_sets s' = pt_sets s" "pt_checks s' = pt_checks s"
    and "pt_statements s' = update_rows (\<lambda>x. st_ProblemID x = pid \<and> st_IsCurrent x) (\<lambda>x. x\<lparr>st_IsCurrent := False\<rparr>) (pt_statements s) @ [row]"
  shows "content_checked s' i"
proof -
  have "x \<in> set (pt_statements s')" if "x \<in> set (pt_statements s)" "st_ProblemID x = i" for x
    using that assms(2,5) by (auto simp: set_update_rows)
  with assms(1,3,4) show ?thesis unfolding content_checked_def by metis
qed

lemma content_other_set:
  assumes "content_checked s i" and "i \<noteq> pid" and "pt_statements s' = pt_statements s" "pt_checks s' = pt_checks s"
    and "pt_sets s' = update_rows (\<lambda>x. ts_ProblemID x = pid \<and> ts_IsCurrent x) (\<lambda>x. x\<lparr>ts_IsCurrent := False\<rparr>) (pt_sets s) @ [row]"
  shows "content_checked s' i"
proof -
  have "x \<in> set (pt_sets s')" if "x \<in> set (pt_sets s)" "ts_ProblemID x = i" for x
    using that assms(2,5) by (auto simp: set_update_rows)
  with assms(1,3,4) show ?thesis unfolding content_checked_def by metis
qed

lemma guard_tx_Inr: "guard_tx r s = Inr (x, s') \<Longrightarrow> r = Inr x \<and> s' = s"
  by (auto simp: guard_tx_def tx_simps split: sum.splits)

lemma next_statement_Inr: "repo_NextProblemStatementVersion pid s = Inr (v, s') \<Longrightarrow> s' = s"
  by (auto simp: repo_NextProblemStatementVersion_def run_query_Inr q_NextProblemStatementVersion_def tx_simps
      split: sum.splits)

lemma next_set_Inr: "repo_NextTestcaseSetVersion pid s = Inr (v, s') \<Longrightarrow> s' = s"
  by (auto simp: repo_NextTestcaseSetVersion_def run_query_Inr q_NextTestcaseSetVersion_def tx_simps
      split: sum.splits)

lemma create_statement_parts:
  assumes "create_statement_tx a pid input s = Inr (x, s')" and "cs_MakeCurrent input"
  obtains p s1 row where "repo_LockProblemForUpdate pid s = Inr (p, s)" and "demotePublishedProblem p s1 = Inr ((), s')"
    and "pt_statements s1 = update_rows (\<lambda>x. st_ProblemID x = pid \<and> st_IsCurrent x)
      (\<lambda>x. x\<lparr>st_IsCurrent := False\<rparr>) (pt_statements s) @ [row]"
    and "statuses s1 = statuses s" "pq_problems s1 = pq_problems s" "pt_sets s1 = pt_sets s" "pt_checks s1 = pt_checks s"
proof -
  from assms(1) obtain p sp u sg v sv where p0: "repo_LockProblemForUpdate pid s = Inr (p, sp)"
    and g: "guard_tx (canWriteProblem a p) sp = Inr (u, sg)" and v: "repo_NextProblemStatementVersion pid sg = Inr (v, sv)"
    and rest: "bind_tx (when_tx (cs_MakeCurrent input) (repo_ClearCurrentProblemStatement pid)) (\<lambda>_.
        bind_tx (createProblemStatement pid v (input\<lparr>cs_Title := pd_Title p\<rparr>)) (\<lambda>statement.
        bind_tx (demotePublishedProblem p) (\<lambda>_. return_tx statement))) sv = Inr (x, s')"
    unfolding create_statement_tx_def bind_tx_Inr by blast
  have p: "repo_LockProblemForUpdate pid s = Inr (p, s)" using p0 locked_status(1) by blast
  have "sv = s" using locked_status(1) [OF p0] guard_tx_Inr [OF g] next_statement_Inr [OF v] by simp
  with rest assms(2) obtain s1 where
      s1: "bind_tx (repo_ClearCurrentProblemStatement pid) (\<lambda>_. createProblemStatement pid v (input\<lparr>cs_Title := pd_Title p\<rparr>)) s = Inr (x, s1)"
    and d: "demotePublishedProblem p s1 = Inr ((), s')"
    by (auto simp: tx_simps)
  from s1 obtain row where row: "pt_statements s1 = update_rows (\<lambda>x. st_ProblemID x = pid \<and> st_IsCurrent x)
      (\<lambda>x. x\<lparr>st_IsCurrent := False\<rparr>) (pt_statements s) @ [row]"
    and same: "statuses s1 = statuses s" "pq_problems s1 = pq_problems s" "pt_sets s1 = pt_sets s" "pt_checks s1 = pt_checks s"
    by (auto simp: repo_ClearCurrentProblemStatement_def createProblemStatement_def run_query_Inr q_ClearCurrentProblemStatement_def
        q_CreateProblemStatement_def tx_simps Let_def statuses_def)
  from p d row same show ?thesis by (rule that)
qed

lemma create_statement_checked:
  assumes "create_statement_tx a pid input s = Inr (x, s')" and "cs_MakeCurrent input" and inv: "published_checked X s"
  shows "published_checked X s'"
proof (rule create_statement_parts [OF assms(1,2)])
  fix p s1 row
  assume p: "repo_LockProblemForUpdate pid s = Inr (p, s)" and d: "demotePublishedProblem p s1 = Inr ((), s')"
    and row: "pt_statements s1 = update_rows (\<lambda>x. st_ProblemID x = pid \<and> st_IsCurrent x)
      (\<lambda>x. x\<lparr>st_IsCurrent := False\<rparr>) (pt_statements s) @ [row]"
    and same: "statuses s1 = statuses s" "pq_problems s1 = pq_problems s" "pt_sets s1 = pt_sets s" "pt_checks s1 = pt_checks s"
  have "published_checked (insert pid X) s1"
    using inv same(1,2) content_other_statement [OF _ _ same(3,4) row] by (rule published_checked_other)
  with demote_checked [OF d] locked_status [OF p] same(1) show ?thesis by simp
qed

lemma upload_parts:
  assumes "upload_tx a pid key checksum n c s = Inr (x, s')"
  obtains p s1 where "repo_LockProblemForUpdate pid s = Inr (p, s)" and "demotePublishedProblem p s1 = Inr ((), s')"
    and "pt_sets s1 = update_rows (\<lambda>x. ts_ProblemID x = pid \<and> ts_IsCurrent x)
      (\<lambda>x. x\<lparr>ts_IsCurrent := False\<rparr>) (pt_sets s) @ [x]"
    and "statuses s1 = statuses s" "pq_problems s1 = pq_problems s" "pt_statements s1 = pt_statements s" "pt_checks s1 = pt_checks s"
    and "ts_ProblemID x = pid \<and> ts_IsCurrent x \<and> ts_StorageKey x = key \<and> ts_ChecksumSha256 x = checksum \<and> ts_CaseCount x = c"
proof -
  from assms(1) obtain p sp u sg v sv where p0: "repo_LockProblemForUpdate pid s = Inr (p, sp)"
    and g: "guard_tx (canWriteProblem a p) sp = Inr (u, sg)" and v: "repo_NextTestcaseSetVersion pid sg = Inr (v, sv)"
    and rest: "bind_tx (repo_ClearCurrentTestcaseSet pid) (\<lambda>_.
        bind_tx (createTestcaseSet pid v key checksum n c (ac_UserID a)) (\<lambda>created.
        bind_tx (demotePublishedProblem p) (\<lambda>_. return_tx created))) sv = Inr (x, s')"
    unfolding upload_tx_def bind_tx_Inr by blast
  have p: "repo_LockProblemForUpdate pid s = Inr (p, s)" using p0 locked_status(1) by blast
  have "sv = s" using locked_status(1) [OF p0] guard_tx_Inr [OF g] next_set_Inr [OF v] by simp
  with rest obtain s1 where
      s1: "bind_tx (repo_ClearCurrentTestcaseSet pid) (\<lambda>_. createTestcaseSet pid v key checksum n c (ac_UserID a)) s = Inr (x, s1)"
    and d: "demotePublishedProblem p s1 = Inr ((), s')"
    by (auto simp: tx_simps)
  from s1 have row: "pt_sets s1 = update_rows (\<lambda>x. ts_ProblemID x = pid \<and> ts_IsCurrent x)
      (\<lambda>x. x\<lparr>ts_IsCurrent := False\<rparr>) (pt_sets s) @ [x]"
    and same: "statuses s1 = statuses s" "pq_problems s1 = pq_problems s" "pt_statements s1 = pt_statements s" "pt_checks s1 = pt_checks s"
    and x: "ts_ProblemID x = pid \<and> ts_IsCurrent x \<and> ts_StorageKey x = key \<and> ts_ChecksumSha256 x = checksum \<and> ts_CaseCount x = c"
    by (auto simp: repo_ClearCurrentTestcaseSet_def createTestcaseSet_def run_query_Inr q_ClearCurrentTestcaseSet_def
        q_CreateTestcaseSet_def tx_simps Let_def statuses_def)
  from p d row same x show ?thesis by (rule that)
qed

lemma upload_checked:
  assumes "upload_tx a pid key checksum n c s = Inr (x, s')" and inv: "published_checked X s"
  shows "published_checked X s'"
proof (rule upload_parts [OF assms(1)])
  fix p s1
  assume p: "repo_LockProblemForUpdate pid s = Inr (p, s)" and d: "demotePublishedProblem p s1 = Inr ((), s')"
    and row: "pt_sets s1 = update_rows (\<lambda>x. ts_ProblemID x = pid \<and> ts_IsCurrent x)
      (\<lambda>x. x\<lparr>ts_IsCurrent := False\<rparr>) (pt_sets s) @ [x]"
    and same: "statuses s1 = statuses s" "pq_problems s1 = pq_problems s" "pt_statements s1 = pt_statements s" "pt_checks s1 = pt_checks s"
  have "published_checked (insert pid X) s1"
    using inv same(1,2) content_other_set [OF _ _ same(3,4) row] by (rule published_checked_other)
  with demote_checked [OF d] locked_status [OF p] same(1) show ?thesis by simp
qed


text \<open>Archiving and restoring: one status moves; restoring may publish what was published before.\<close>

lemma archive_effect:
  assumes "repo_ArchiveProblem pid s = Inr (x, s')"
  shows "statuses s' = set_status pid (\<lambda>_. StatusArchived) (statuses s) \<and> pq_problems s' = pq_problems s
     \<and> pt_statements s' = pt_statements s \<and> pt_sets s' = pt_sets s \<and> pt_checks s' = pt_checks s"
  using assms unfolding repo_ArchiveProblem_def run_query_Inr q_ArchiveProblem_def
  by (auto simp: tx_simps statuses_def set_status_def update_rows_def)

lemma restore_effect:
  assumes "repo_RestoreProblem pid s = Inr (x, s')"
  shows "pq_problems s' = pq_problems s \<and> pt_statements s' = pt_statements s \<and> pt_sets s' = pt_sets s \<and> pt_checks s' = pt_checks s"
    and "pt_problems s' = update_rows (\<lambda>p. pb_ID p = pid \<and> pb_Status p = StatusArchived)
       (\<lambda>p. p\<lparr>pb_Status := or_old (pb_ArchivedFromStatus p) StatusDraft, pb_ArchivedFromStatus := None,
              pb_UpdatedAt := pt_now s\<rparr>) (pt_problems s)"
  using assms unfolding repo_RestoreProblem_def run_query_Inr q_RestoreProblem_def by (auto simp: tx_simps)

definition restorable :: "int64 \<Rightarrow> problem_store \<Rightarrow> bool" where
  "restorable pid s \<longleftrightarrow>
     (\<forall>p \<in> set (pt_problems s). pb_ID p = pid \<longrightarrow> pb_ArchivedFromStatus p = Some StatusPublished \<longrightarrow> content_checked s pid)"

lemma audit_effect: "repo_RecordAudit e s = Inr (u, s') \<Longrightarrow> shape s' = shape s"
  unfolding repo_RecordAudit_def by (rule keepsD [OF keeps_shape_queries(6)])

lemma archive_tx_effect:
  assumes "archive_problem_tx a pid s = Inr (x, s')"
  shows "statuses s' = set_status pid (\<lambda>_. StatusArchived) (statuses s) \<and> pq_problems s' = pq_problems s
     \<and> pt_statements s' = pt_statements s \<and> pt_sets s' = pt_sets s \<and> pt_checks s' = pt_checks s"
proof -
  from assms(1) obtain p s0 u s1 y s2 where p: "repo_LockProblemForUpdate pid s = Inr (p, s0)"
    and g: "guard_tx (canWriteProblem a p) s0 = Inr (u, s1)" and ar: "repo_ArchiveProblem pid s1 = Inr (y, s2)"
    and au: "shape s' = shape s2"
    unfolding archive_problem_tx_def bind_tx_Inr return_tx_Inr using audit_effect by blast
  from locked_status(1) [OF p] guard_tx_Inr [OF g] archive_effect [OF ar] au show ?thesis by (simp add: shape_def)
qed

lemma archive_checked:
  assumes "archive_problem_tx a pid s = Inr (x, s')" and inv: "published_checked X s"
  shows "published_checked X s'"
  using archive_tx_effect [OF assms(1)] published_checked_set_status [OF inv, of s' pid "\<lambda>_. StatusArchived"]
    published_checked_mono [of "X - {pid}" s' X] by auto

lemma restored_checked:
  assumes "repo_RestoreProblem pid s = Inr (x, s')" and inv: "published_checked X s" and "restorable pid s \<or> pid \<in> X"
  shows "published_checked X s'"
proof -
  note same = restore_effect(1) [OF assms(1)] and rows = restore_effect(2) [OF assms(1)]
  have ids: "map fst (statuses s') = map fst (statuses s)"
    by (simp add: statuses_def rows update_rows_def comp_def)
  have "content_checked s i" if "(i, StatusPublished) \<in> set (statuses s')" and X: "i \<notin> X" for i
  proof -
    from that(1) obtain p where p: "p \<in> set (pt_problems s)" "pb_ID p = i"
      "pb_Status p = StatusPublished \<or> i = pid \<and> or_old (pb_ArchivedFromStatus p) StatusDraft = StatusPublished"
      by (auto simp: statuses_def rows update_rows_def split: if_splits)
    then show ?thesis
    proof (cases "pb_Status p = StatusPublished")
      case True
      with p inv X show ?thesis by (force simp: published_checked_def statuses_def)
    next
      case False
      with p assms(3) X show ?thesis by (auto simp: restorable_def or_old_def split: option.splits)
    qed
  qed
  moreover have "content_checked s' i = content_checked s i" for i using same by (simp add: content_checked_def)
  moreover have "fst ` set (statuses s') = fst ` set (statuses s)" using ids by (metis list.set_map)
  ultimately show ?thesis using inv same ids unfolding published_checked_def by auto
qed

lemma restore_parts:
  assumes "restore_problem_tx a pid s = Inr (x, s')"
  shows "\<exists>y s1. repo_RestoreProblem pid s = Inr (y, s1) \<and> shape s' = shape s1"
proof -
  from assms obtain p s0 u s1 y s2 where p: "repo_LockProblemForUpdate pid s = Inr (p, s0)"
    and g: "guard_tx (if pd_Status p \<noteq> StatusArchived
         then fail (Conflict ''problem.not_archived'' ''problem is not archived'') else Inr ()) s0 = Inr (u, s1)"
    and re: "repo_RestoreProblem pid s1 = Inr (y, s2)" and au: "shape s' = shape s2"
    unfolding restore_problem_tx_def bind_tx_Inr return_tx_Inr using audit_effect by blast
  from locked_status(1) [OF p] guard_tx_Inr [OF g] re au show ?thesis by auto
qed

lemma restore_checked:
  assumes "restore_problem_tx a pid s = Inr (x, s')" and "published_checked X s" and "restorable pid s \<or> pid \<in> X"
  shows "published_checked X s'"
  using restore_parts [OF assms(1)] restored_checked [OF _ assms(2,3)] published_checked_shape by metis


text \<open>Updates of the other columns, tags and creation.\<close>

lemma keeps_shape_lock [keeps_intros]: "keeps shape (repo_LockProblemForUpdate pid)"
  unfolding repo_LockProblemForUpdate_def by (intro keeps_intros)

lemma keeps_shape_repo_update [keeps_intros]: "ui_Status input = None \<Longrightarrow> keeps shape (repo_updateProblem pid input)"
  unfolding repo_updateProblem_def by (intro keeps_intros) (simp add: textPtr_def)

lemma keeps_shape_update_tx: "ui_Status input = None \<Longrightarrow> keeps shape (update_problem_tx lower a pid input)"
  unfolding update_problem_tx_def by (intro keeps_intros)

lemma keeps_shape_assign: "keeps shape (assign_tags_tx a pid tags)"
  unfolding assign_tags_tx_def by (intro keeps_intros)

lemma preserves_create_once: "preserves (published_checked X) (createProblemOnce a input tags)"
  unfolding createProblemOnce_def
  by (intro preserves_intros create_preserves preserves_shape keeps_intros)

lemma create_attempts_checked:
  "published_checked X s \<Longrightarrow> published_checked X (snd (create_attempts n lower random a input tags s))"
proof (induction n arbitrary: s)
  case (Suc n)
  have "published_checked X s'" if "WithTx (createProblemOnce a i tags) s = (r, s')" for i r s'
    using preserves_WithTx [OF preserves_create_once Suc.prems] that by (metis snd_conv)
  with Suc show ?case by (auto split: sum.splits prod.splits)
qed simp

text \<open>A finished check adds to the checks; the completed ones stay.\<close>

lemma content_checked_more:
  assumes "content_checked s i" and "pt_statements s' = pt_statements s" "pt_sets s' = pt_sets s"
    and "\<And>r. r \<in> set (pt_checks s) \<Longrightarrow> cr_Status r = ''completed'' \<Longrightarrow> r \<in> set (pt_checks s')"
  shows "content_checked s' i"
  using assms unfolding content_checked_def by metis

lemma check_run_effect:
  assumes "createProblemCheckRun pid sid tid by_user status summary s = Inr (r, s')"
  shows "statuses s' = statuses s \<and> pq_problems s' = pq_problems s \<and> pt_statements s' = pt_statements s
     \<and> pt_sets s' = pt_sets s \<and> set (pt_checks s) \<subseteq> set (pt_checks s')"
  using assms by (auto simp: createProblemCheckRun_def run_query_Inr q_CreateProblemCheckRun_def tx_simps Let_def statuses_def)

lemma complete_run_effect:
  assumes "completeProblemCheckRun cid summary t s = Inr (r, s')"
  shows "statuses s' = statuses s \<and> pq_problems s' = pq_problems s \<and> pt_statements s' = pt_statements s
     \<and> pt_sets s' = pt_sets s \<and> (\<forall>r \<in> set (pt_checks s). cr_Status r = ''completed'' \<longrightarrow> r \<in> set (pt_checks s'))"
  using assms
  by (auto simp: completeProblemCheckRun_def run_query_Inr q_CompleteProblemCheckRun_def tx_simps statuses_def set_update_rows)

lemma keeps_shape_findings: "keeps shape (createProblemCheckFindings fs)"
  unfolding createProblemCheckFindings_def by (intro keeps_intros)

lemmas check_findings_effect = keepsD [OF keeps_shape_findings]

lemma store_check_statuses:
  assumes "store_check a pid sid tid oc now s = Inr (x, s')"
  shows "statuses s' = statuses s"
proof -
  from assms(1) obtain r s1 f s2 g where "createProblemCheckRun pid sid tid (ac_UserID a) ''running'' zero_summary s = Inr (r, s1)"
    and "createProblemCheckFindings (map (\<lambda>f. f\<lparr>fn_RunID := ck_ID r\<rparr>) (oc_findings oc)) s1 = Inr (f, s2)"
    and "completeProblemCheckRun (ck_ID r) (problemCheckSummary (int (oc_caseCount oc)) (oc_storageReadable oc)
        (oc_zipReadable oc) (oc_findings oc)) now s2 = Inr (g, s')"
    unfolding store_check_def bind_tx_Inr return_tx_Inr by blast
  from check_run_effect [OF this(1)] check_findings_effect [OF this(2)] complete_run_effect [OF this(3)]
  show ?thesis by (simp add: shape_def)
qed

lemma store_check_checked:
  assumes "store_check a pid sid tid oc now s = Inr (x, s')" and inv: "published_checked X s"
  shows "published_checked X s'"
proof -
  from assms(1) obtain r s1 f s2 g where r: "createProblemCheckRun pid sid tid (ac_UserID a) ''running'' zero_summary s = Inr (r, s1)"
    and f: "createProblemCheckFindings (map (\<lambda>f. f\<lparr>fn_RunID := ck_ID r\<rparr>) (oc_findings oc)) s1 = Inr (f, s2)"
    and g: "completeProblemCheckRun (ck_ID r) (problemCheckSummary (int (oc_caseCount oc)) (oc_storageReadable oc)
        (oc_zipReadable oc) (oc_findings oc)) now s2 = Inr (g, s')"
    unfolding store_check_def bind_tx_Inr return_tx_Inr by blast
  note e = check_run_effect [OF r] check_findings_effect [OF f] complete_run_effect [OF g]
  have "content_checked s' i" if "content_checked s i" for i
    using content_checked_more [OF that, of s'] e by (auto simp: shape_def)
  with inv e show ?thesis by (auto simp: published_checked_def shape_def)
qed

text \<open>A review transition sets the status of one problem.\<close>

lemma transition_effect:
  assumes "transition_tx a pid old new decision comment s = Inr (x, s')" and "TrimSpace new = new" "new \<noteq> []"
  shows "statuses s' = set_status pid (\<lambda>_. new) (statuses s) \<and> pq_problems s' = pq_problems s
     \<and> pt_statements s' = pt_statements s \<and> pt_sets s' = pt_sets s \<and> pt_checks s' = pt_checks s
     \<and> (pid, old) \<in> set (statuses s)"
proof -
  from assms(1) obtain p s0 u s1 ev y where p: "repo_LockProblemForUpdate pid s = Inr (p, s0)" "pd_Status p = old"
    and u: "repo_SetProblemStatus pid new s0 = Inr (u, s1)" and ev: "repo_CreateProblemReviewEvent ev s1 = Inr (y, s')"
    unfolding transition_tx_def bind_tx_Inr by (auto simp: tx_simps split: if_splits)
  have "shape s' = shape s1" using ev unfolding repo_CreateProblemReviewEvent_def by (rule keepsD [rotated]) (intro keeps_intros)
  with repo_SetProblemStatus_effect [OF u assms(2,3)] locked_status [OF p(1)] p(2) show ?thesis by (simp add: shape_def)
qed

lemma fst_WithTx_Inr: "fst (WithTx m s) = Inr x \<longleftrightarrow> (\<exists>s'. m s = Inr (x, s'))"
  by (auto simp: WithTx_def split: sum.splits prod.splits)

lemma got_problem:
  assumes "repo_GetProblem pid s = Inr (p, s')"
  shows "s' = s \<and> (\<exists>q \<in> set (pt_problems s). pb_ID q = pid \<and> pb_Status q = pd_Status p \<and> pb_OwnerUserID q = pd_OwnerUserID p)"
  using assms unfolding repo_GetProblem_def run_query_Inr q_GetProblemByID_def
  by (auto simp: tx_simps joined_def problemFromGetRow_def problemFromDB_def dest!: find_Some_set)

lemma transition_event:
  assumes "transition_tx a pid old new decision comment s = Inr (p, s')" and "TrimSpace new = new" "new \<noteq> []"
  shows "pd_Status p = new" and "\<exists>ev. pt_events s' = pt_events s @ [ev] \<and> rv_ProblemID ev = pid \<and> rv_ActorUserID ev = ac_UserID a
     \<and> rv_FromStatus ev = old \<and> rv_ToStatus ev = new \<and> rv_Decision ev = decision \<and> rv_Comment ev = comment"
proof -
  from assms(1) obtain q s0 s1 y where q: "repo_LockProblemForUpdate pid s = Inr (q, s0)" "pd_Status q = old"
    and u: "repo_SetProblemStatus pid new s0 = Inr (p, s1)" and ev: "repo_CreateProblemReviewEvent
              \<lparr>re_ProblemID = pid, re_ActorUserID = ac_UserID a, re_FromStatus = pd_Status q, re_ToStatus = new,
               re_Decision = decision, re_Comment = comment\<rparr> s1 = Inr (y, s')"
    unfolding transition_tx_def bind_tx_Inr by (auto simp: tx_simps split: if_splits)
  have "pt_events s1 = pt_events s0" using u
    by (auto simp: repo_SetProblemStatus_def repo_updateProblem_def run_query_Inr q_UpdateProblem_def tx_simps)
  moreover have "s0 = s" by (rule locked_status(1) [OF q(1)])
  ultimately show "\<exists>ev. pt_events s' = pt_events s @ [ev] \<and> rv_ProblemID ev = pid \<and> rv_ActorUserID ev = ac_UserID a
     \<and> rv_FromStatus ev = old \<and> rv_ToStatus ev = new \<and> rv_Decision ev = decision \<and> rv_Comment ev = comment"
    using ev q(2)
    by (auto simp: repo_CreateProblemReviewEvent_def run_query_Inr q_CreateProblemReviewEvent_def tx_simps Let_def)
  show "pd_Status p = new" using u assms(2,3)
    by (auto simp: repo_SetProblemStatus_def repo_updateProblem_def run_query_Inr q_UpdateProblem_def tx_simps textPtr_def
        textValue_def Let_def problemFromDB_def updated_problem_def or_old_def)
qed

lemma decide_checks_Inr:
  assumes "decide_checks a pid decision comment s = Inr (old, new)"
  shows "old = StatusInReview \<and> (new = StatusPublished \<and> decision = ''approve'' \<and> content_checked s pid
       \<or> new = StatusChangesRequested)"
    and "\<exists>p. CanDecideReview a p = Inr () \<and> (\<exists>q \<in> set (pt_problems s). pb_ID q = pid \<and> pb_Status q = StatusInReview
       \<and> pd_OwnerUserID p = pb_OwnerUserID q)"
proof -
  let ?m = "bind_tx (repo_GetProblem pid) (\<lambda>p.
         bind_tx (guard_tx (CanDecideReview a p)) (\<lambda>_.
           if pd_Status p \<noteq> StatusInReview
           then fail_tx (AppErr (Conflict ''problem.review_invalid_state'' ''only problems in review can be decided''))
           else if decision = ''approve''
           then bind_tx (ensurePublishable pid) (\<lambda>_. return_tx (pd_Status p, StatusPublished))
           else return_tx (pd_Status p, StatusChangesRequested)))"
  from assms have "fst (WithTx ?m s) = Inr (old, new)" unfolding decide_checks_def by (simp split: if_splits)
  then obtain s' where "?m s = Inr ((old, new), s')" unfolding fst_WithTx_Inr by blast
  then obtain p s1 u s2 where p: "repo_GetProblem pid s = Inr (p, s1)" "guard_tx (CanDecideReview a p) s1 = Inr (u, s2)"
    and rest: "pd_Status p = StatusInReview" "old = StatusInReview"
      "new = StatusPublished \<and> decision = ''approve'' \<and> (\<exists>v. ensurePublishable pid s2 = Inr (v, s')) \<or> new = StatusChangesRequested"
    unfolding bind_tx_Inr by (auto simp: tx_simps split: if_splits)
  note row = got_problem [OF p(1)]
  with guard_tx_Inr [OF p(2)] have "s2 = s" by simp
  with rest ensurePublishable_checked [of pid s]
  show "old = StatusInReview \<and> (new = StatusPublished \<and> decision = ''approve'' \<and> content_checked s pid
       \<or> new = StatusChangesRequested)" by blast
  from row obtain q where "q \<in> set (pt_problems s)" "pb_ID q = pid" "pb_Status q = pd_Status p"
    "pd_OwnerUserID p = pb_OwnerUserID q" by auto
  moreover have "CanDecideReview a p = Inr ()" using guard_tx_Inr [OF p(2)] by simp
  ultimately show "\<exists>p. CanDecideReview a p = Inr () \<and> (\<exists>q \<in> set (pt_problems s). pb_ID q = pid \<and> pb_Status q = StatusInReview
       \<and> pd_OwnerUserID p = pb_OwnerUserID q)" using rest(1) by (intro exI [of _ p] conjI bexI [of _ q]) simp_all
qed

subsection \<open>The status machine\<close>

text \<open>
  The moves the review workflow allows, beside archiving and restoring: an author submits, a reviewer
  publishes or sends back, and an edit takes a published problem back to draft.
\<close>

definition status_move :: "string \<Rightarrow> string \<Rightarrow> bool" where
  "status_move old new \<longleftrightarrow>
     (old, new) \<in> {(StatusDraft, StatusInReview), (StatusChangesRequested, StatusInReview), (StatusInReview, StatusPublished),
        (StatusInReview, StatusChangesRequested), (StatusPublished, StatusDraft)}
     \<or> new = StatusArchived \<or> old = StatusArchived"

definition moves_ok :: "problem_store \<Rightarrow> problem_store \<Rightarrow> bool" where
  "moves_ok s s' \<longleftrightarrow> (\<forall>i old new. (i, old) \<in> set (statuses s) \<longrightarrow> (i, new) \<in> set (statuses s') \<longrightarrow>
     old = new \<or> status_move old new)"

lemma moves_same: "published_checked X s \<Longrightarrow> statuses s' = statuses s \<Longrightarrow> moves_ok s s'"
  unfolding moves_ok_def by (metis status_unique)

lemma moves_set:
  assumes "published_checked X s" and "statuses s' = set_status pid (\<lambda>_. new) (statuses s)"
    and "\<And>old. (pid, old) \<in> set (statuses s) \<Longrightarrow> old = new \<or> status_move old new"
  shows "moves_ok s s'"
  using assms status_unique [OF assms(1)] unfolding moves_ok_def by (auto simp: set_status_mem split: if_splits)

lemma demote_moves:
  assumes "published_checked X s" and "demotePublishedProblem p s1 = Inr (u, s')" and "statuses s1 = statuses s"
    and "(pd_ID p, pd_Status p) \<in> set (statuses s)"
  shows "moves_ok s s'"
proof (cases "pd_Status p = StatusPublished")
  case True
  with assms(2) obtain x where "repo_SetProblemStatus (pd_ID p) StatusDraft s1 = Inr (x, s')"
    by (auto simp: demotePublishedProblem_def tx_simps)
  with repo_SetProblemStatus_effect have "statuses s' = set_status (pd_ID p) (\<lambda>_. StatusDraft) (statuses s)"
    using assms(3) by fastforce
  from moves_set [OF assms(1) this] status_unique [OF assms(1,4)] True show ?thesis by (auto simp: status_move_def)
next
  case False
  with assms(2,3) have "statuses s' = statuses s" by (simp add: demotePublishedProblem_def tx_simps)
  with assms(1) show ?thesis by (rule moves_same)
qed

lemma create_problem_effect:
  "repo_CreateProblem owner input s = Inr (x, s') \<Longrightarrow> statuses s' = statuses s @ [(pq_problems s, StatusDraft)]"
  by (auto simp: repo_CreateProblem_def run_query_Inr q_CreateProblem_def tx_simps Let_def statuses_def)

lemma create_once_effect:
  assumes "createProblemOnce a input tags s = Inr (x, s')"
  shows "statuses s' = statuses s @ [(pq_problems s, StatusDraft)]"
proof -
  from assms obtain s1 u where c: "repo_CreateProblem (ac_UserID a) input s = Inr (x, s1)"
    and t: "when_tx (tags \<noteq> []) (bind_tx (replaceProblemTags (pd_ID x) tags) (\<lambda>_. return_tx ())) s1 = Inr (u, s')"
    unfolding createProblemOnce_def bind_tx_Inr return_tx_Inr by blast
  have "keeps shape (when_tx (tags \<noteq> []) (bind_tx (replaceProblemTags (pd_ID x) tags) (\<lambda>_. return_tx ())))"
    by (intro keeps_intros)
  from keepsD [OF this t] create_problem_effect [OF c] show ?thesis by (simp add: shape_def)
qed

lemma moves_append:
  assumes "published_checked X s" and "statuses s' = statuses s @ [(pq_problems s, st)]"
  shows "moves_ok s s'"
proof -
  have "i \<noteq> pq_problems s" if "(i, old) \<in> set (statuses s)" for i old
    using assms(1) that by (force simp: published_checked_def)
  with assms(2) status_unique [OF assms(1)] show ?thesis by (auto simp: moves_ok_def)
qed

lemma create_moves: "published_checked X s \<Longrightarrow> moves_ok s (snd (create_attempts n lower random a input tags s))"
proof (induction n)
  case (Suc n)
  have "moves_ok s s'" if "createProblemOnce a i tags s = Inr (r, s')" for i r s'
    using moves_append [OF Suc.prems create_once_effect [OF that]] .
  with Suc moves_same [of X s s] show ?case by (auto simp: WithTx_Inl WithTx_Inr split: sum.splits prod.splits)
qed (simp add: moves_same)

lemma restore_moves:
  assumes "restore_problem_tx a pid s = Inr (x, s')" and inv: "published_checked X s"
  shows "moves_ok s s'"
proof -
  obtain y s2 where re: "repo_RestoreProblem pid s = Inr (y, s2)" and au: "shape s' = shape s2"
    using restore_parts [OF assms(1)] by blast
  note rows = restore_effect(2) [OF re]
  have "old = new \<or> old = StatusArchived" if "(i, old) \<in> set (statuses s)" "(i, new) \<in> set (statuses s2)" for i old new
  proof -
    from that(2) obtain q where q: "q \<in> set (pt_problems s)" "pb_ID q = i" "pb_Status q = new \<or> pb_Status q = StatusArchived"
      by (auto simp: statuses_def rows update_rows_def split: if_splits)
    then have "(i, pb_Status q) \<in> set (statuses s)" by (auto simp: statuses_def)
    with status_unique [OF inv that(1)] q(3) show ?thesis by auto
  qed
  with au show ?thesis by (auto simp: moves_ok_def status_move_def shape_def)
qed

lemma transition_moves:
  assumes "published_checked X s" and "transition_tx a pid old new decision comment s = Inr (x, s')"
    and "TrimSpace new = new" "new \<noteq> []" and "status_move old new"
  shows "moves_ok s s'"
  using transition_effect [OF assms(2-4)] assms(5) moves_set [OF assms(1), of s' pid new] status_unique [OF assms(1)] by blast

lemma archive_moves:
  assumes "published_checked X s" and "archive_problem_tx a pid s = Inr (x, s')"
  shows "moves_ok s s'"
  using moves_set [OF assms(1), of s' pid StatusArchived] archive_tx_effect [OF assms(2)] by (simp add: status_move_def)

subsection \<open>Requests as steps\<close>

text \<open>
  A request runs one service operation on the tables and the object storage, one request after the other,
  except that others may run between the checks of a submission or decision and its transition: \<open>s0\<close> is the
  state the checks saw, \<open>s\<close> what it has become when the transition starts. Two operations need a condition on
  the problems outside \<open>X\<close>: restoring, which publishes whatever was archived from the published status, and
  approving, where content that was checked must still be checked when the transition starts.
\<close>

inductive problem_step ::
  "'o archives option \<Rightarrow> int64 set \<Rightarrow> problem_store \<times> 'o \<Rightarrow> problem_store \<times> 'o \<Rightarrow> bool" for ar X where
  create: "CreateProblem lower random a input s = (r, s') \<Longrightarrow> problem_step ar X (s, ob) (s', ob)"
| update: "UpdateProblem lower a pid ui s = (r, s') \<Longrightarrow> problem_step ar X (s, ob) (s', ob)"
| archive: "ArchiveProblem a pid s = (r, s') \<Longrightarrow> problem_step ar X (s, ob) (s', ob)"
| restore: "RestoreProblem a pid s = (r, s') \<Longrightarrow> restorable pid s \<or> pid \<in> X \<Longrightarrow> problem_step ar X (s, ob) (s', ob)"
| statement: "CreateStatement a pid cs s = (r, s') \<Longrightarrow> problem_step ar X (s, ob) (s', ob)"
| tags: "AssignTags a pid tags s = (r, s') \<Longrightarrow> problem_step ar X (s, ob) (s', ob)"
| upload: "UploadTestcaseArchive parser ar random a pid src n (s, ob) = (r, fs, s', ob')
    \<Longrightarrow> problem_step ar X (s, ob) (s', ob')"
| check: "RunProblemCheck parser ar ob now a pid s = (r, s') \<Longrightarrow> problem_step ar X (s, ob) (s', ob)"
| submit: "Submit others a pid s0 = (r, s') \<Longrightarrow> others s0 = s \<Longrightarrow> problem_step ar X (s, ob) (s', ob)"
| decide: "Decide others a pid decision comment s0 = (r, s') \<Longrightarrow> others s0 = s \<Longrightarrow>
    (TrimSpace decision = ''approve'' \<longrightarrow> content_checked s0 pid \<longrightarrow> content_checked s pid \<or> pid \<in> X)
    \<Longrightarrow> problem_step ar X (s, ob) (s', ob)"
| clock: "problem_step ar X (s, ob) (s\<lparr>pt_now := t\<rparr>, ob)"

lemma WithTx_cases: "WithTx m s = (r, s') \<Longrightarrow> s' = s \<or> (\<exists>x. m s = Inr (x, s'))"
  by (auto simp: WithTx_def split: sum.splits prod.splits)

lemma upload_effect:
  assumes "UploadTestcaseArchive parser ar random a pid src n (s, ob) = (r, fs, s', ob')"
  shows "s' = s \<or> (\<exists>key sum k x. upload_tx a pid key sum n k s = Inr (x, s'))"
  using assms unfolding UploadTestcaseArchive_def
  by (auto simp: WithTx_def Let_def split: option.splits sum.splits prod.splits if_splits bool.splits)

lemma check_effect:
  assumes "RunProblemCheck parser ar ob now a pid s = (r, s')"
  shows "s' = s \<or> (\<exists>sid tid oc x. store_check a pid sid tid oc now s = Inr (x, s'))"
  using assms unfolding RunProblemCheck_def by (auto dest!: WithTx_cases split: sum.splits prod.splits)

text \<open>What one request keeps, and the moves it makes.\<close>

definition step_ok :: "int64 set \<Rightarrow> problem_store \<Rightarrow> problem_store \<Rightarrow> bool" where
  "step_ok X s s' \<longleftrightarrow> published_checked X s' \<and> moves_ok s s'"

lemma step_ok_refl: "published_checked X s \<Longrightarrow> step_ok X s s"
  by (simp add: step_ok_def moves_same)

lemma step_ok_shape: "published_checked X s \<Longrightarrow> shape s' = shape s \<Longrightarrow> step_ok X s s'"
  using published_checked_shape [of s' s] moves_same [of X s s'] by (simp add: step_ok_def shape_def)

lemma step_ok_tx:
  assumes "WithTx m s = (r, s')" and "published_checked X s" and "\<And>x. m s = Inr (x, s') \<Longrightarrow> step_ok X s s'"
  shows "step_ok X s s'"
  using WithTx_cases [OF assms(1)] step_ok_refl [OF assms(2)] assms(3) by blast

lemma step_ok_statement:
  assumes "create_statement_tx a pid input s = Inr (x, s')" and "cs_MakeCurrent input" and inv: "published_checked X s"
  shows "step_ok X s s'"
proof (rule create_statement_parts [OF assms(1,2)])
  fix p s1
  assume p: "repo_LockProblemForUpdate pid s = Inr (p, s)" and d: "demotePublishedProblem p s1 = Inr ((), s')"
    and "statuses s1 = statuses s"
  with demote_moves [OF inv d] locked_status [OF p] create_statement_checked [OF assms] show ?thesis by (simp add: step_ok_def)
qed

lemma step_ok_archive:
  "archive_problem_tx a pid s = Inr (x, s') \<Longrightarrow> published_checked X s \<Longrightarrow> step_ok X s s'"
  using archive_checked archive_moves unfolding step_ok_def by blast

lemma step_ok_restore:
  "restore_problem_tx a pid s = Inr (x, s') \<Longrightarrow> published_checked X s \<Longrightarrow> restorable pid s \<or> pid \<in> X \<Longrightarrow> step_ok X s s'"
  using restore_checked restore_moves unfolding step_ok_def by blast

lemma step_ok_upload:
  assumes "upload_tx a pid key checksum n c s = Inr (x, s')" and inv: "published_checked X s"
  shows "step_ok X s s'"
proof (rule upload_parts [OF assms(1)])
  fix p s1
  assume p: "repo_LockProblemForUpdate pid s = Inr (p, s)" and d: "demotePublishedProblem p s1 = Inr ((), s')"
    and "statuses s1 = statuses s"
  with demote_moves [OF inv d] locked_status [OF p] upload_checked [OF assms] show ?thesis by (simp add: step_ok_def)
qed

lemma step_ok_check:
  assumes "store_check a pid sid tid oc now s = Inr (x, s')" and inv: "published_checked X s"
  shows "step_ok X s s'"
  using store_check_checked [OF assms] store_check_statuses [OF assms(1)] moves_same [OF inv] unfolding step_ok_def by blast

lemma step_ok_transition:
  assumes "transition_tx a pid old new decision comment s = Inr (x, s')" and "new \<in> {StatusInReview, StatusPublished, StatusChangesRequested}"
    and "status_move old new" and "new = StatusPublished \<Longrightarrow> content_checked s pid \<or> pid \<in> X" and inv: "published_checked X s"
  shows "step_ok X s s'"
proof -
  have new: "TrimSpace new = new" "new \<noteq> []" using assms(2) by auto
  have "published_checked X s'"
  proof (cases "pid \<in> X")
    case True
    with transition_effect [OF assms(1) new] published_checked_exempt [OF inv, of s' pid "\<lambda>_. new"] show ?thesis by auto
  next
    case False
    with transition_effect [OF assms(1) new] published_checked_set_status [OF inv, of s' pid "\<lambda>_. new"] assms(4)
      published_checked_mono [of "X - {pid}" s' X] show ?thesis by auto
  qed
  with transition_moves [OF inv assms(1) new assms(3)] show ?thesis by (simp add: step_ok_def)
qed

lemma step_ok_Submit:
  assumes "Submit others a pid s0 = (r, s')" and "others s0 = s" and inv: "published_checked X s"
  shows "step_ok X s s'"
proof -
  consider "s' = s" | old x where "transition_tx a pid old StatusInReview ''submit'' [] s = Inr (x, s')"
      "old = StatusDraft \<or> old = StatusChangesRequested"
    using assms(1,2) unfolding Submit_def transition_def WithTx_def
    by (auto split: sum.splits prod.splits if_splits)
  then show ?thesis
  proof cases
    case 2
    from step_ok_transition [OF 2(1)] 2(2) inv show ?thesis by (auto simp: status_move_def)
  qed (use inv in \<open>simp add: step_ok_refl\<close>)
qed

lemma step_ok_Decide:
  assumes "Decide others a pid decision comment s0 = (r, s')" and "others s0 = s"
    and kept: "TrimSpace decision = ''approve'' \<longrightarrow> content_checked s0 pid \<longrightarrow> content_checked s pid \<or> pid \<in> X"
    and inv: "published_checked X s"
  shows "step_ok X s s'"
proof (cases "decide_checks a pid (TrimSpace decision) (TrimSpace comment) s0")
  case (Inr v)
  obtain old new where v: "v = (old, new)" by (cases v)
  note dc = decide_checks_Inr(1) [OF Inr [unfolded v]]
  have "WithTx (transition_tx a pid old new (TrimSpace decision) (TrimSpace comment)) s = (r, s')"
    using assms(1,2) Inr v unfolding Decide_def transition_def by simp
  then show ?thesis using inv
  proof (rule step_ok_tx)
    fix x assume "transition_tx a pid old new (TrimSpace decision) (TrimSpace comment) s = Inr (x, s')"
    from step_ok_transition [OF this] dc kept inv show "step_ok X s s'" by (auto simp: status_move_def)
  qed
qed (use assms in \<open>simp add: Decide_def Let_def step_ok_refl\<close>)

lemma problem_step_ok: "problem_step ar X so so' \<Longrightarrow> published_checked X (fst so) \<Longrightarrow> step_ok X (fst so) (fst so')"
proof (induction rule: problem_step.induct)
  case (create lower random a input s r s')
  then show ?case using create_attempts_checked [of X s] create_moves [of X s] step_ok_refl [of X s] unfolding CreateProblem_def step_ok_def
    by (auto simp: Let_def split: sum.splits) (metis snd_conv)+
next
  case (update lower a pid ui s r s')
  then show ?case
    using step_ok_tx [of "update_problem_tx lower a pid ui"] step_ok_shape keepsD [OF keeps_shape_update_tx] step_ok_refl
    unfolding UpdateProblem_def by (auto split: if_splits)
next
  case (archive a pid s r s')
  then show ?case using step_ok_tx [of "archive_problem_tx a pid"] step_ok_archive
    unfolding ArchiveProblem_def by auto
next
  case (restore a pid s r s')
  have "step_ok X s s'" if "WithTx (restore_problem_tx a pid) s = (r, s')"
    using that restore.prems [unfolded fst_conv] by (rule step_ok_tx) (use restore step_ok_restore in auto)
  with restore show ?case using step_ok_refl unfolding RestoreProblem_def by (auto split: sum.splits)
next
  case (statement a pid cs s r s')
  then show ?case
    using step_ok_tx [of "create_statement_tx a pid (cs\<lparr>cs_MakeCurrent := True\<rparr>)"] step_ok_statement step_ok_refl
    unfolding CreateStatement_def by (auto simp: Let_def split: sum.splits)
next
  case (tags a pid tags s r s')
  then show ?case
    using step_ok_tx [of "assign_tags_tx a pid tags"] step_ok_shape keepsD [OF keeps_shape_assign] step_ok_refl
    unfolding AssignTags_def by (auto split: sum.splits)
next
  case (upload parser random a pid src n s ob r fs s' ob')
  from upload_effect [OF upload.hyps] show ?case
    by (elim disjE exE) (use upload.prems step_ok_refl step_ok_upload in auto)
next
  case (check parser ob now a pid s r s')
  from check_effect [OF check.hyps] show ?case
    by (elim disjE exE) (use check.prems step_ok_refl step_ok_check in auto)
next
  case (clock s ob t)
  then show ?case using step_ok_shape [of X s "s\<lparr>pt_now := t\<rparr>"] by simp
qed (auto dest: step_ok_Submit step_ok_Decide)


subsection \<open>Example states\<close>

definition sample_problem_row :: "string \<Rightarrow> problem_row" where
  "sample_problem_row status = \<lparr>pb_ID = 7, pb_OwnerUserID = 1, pb_Title = ''A+B'', pb_Slug = ''a-b'', pb_Difficulty = ''easy'',
     pb_Visibility = ''public'', pb_Status = status, pb_TimeLimitMs = 1000, pb_MemoryLimitKb = 262144, pb_CreatedAt = 10,
     pb_UpdatedAt = 10, pb_PublishedAt = None, pb_ArchivedFromStatus = None\<rparr>"

definition sample_problem_store :: "string \<Rightarrow> problem_store" where
  "sample_problem_store status = \<lparr>pt_problems = [sample_problem_row status],
     pt_statements = [\<lparr>st_ID = 3, st_ProblemID = 7, st_Version = 1, st_Title = ''A+B'', st_Description = ''add'',
        st_InputDescription = None, st_OutputDescription = None, st_Samples = [], st_Hint = None, st_Source = None,
        st_IsCurrent = True, st_CreatedAt = 11\<rparr>],
     pt_sets = [\<lparr>ts_ID = 4, ts_ProblemID = 7, ts_Version = 1, ts_StorageKey = ''k'', ts_ChecksumSha256 = ''c'', ts_SizeBytes = 9,
        ts_CaseCount = 1, ts_IsCurrent = True, ts_CreatedBy = 1, ts_CreatedAt = 12\<rparr>],
     pt_tags = [], pt_tag_links = [],
     pt_checks = [\<lparr>cr_ID = 5, cr_ProblemID = 7, cr_StatementID = Some 3, cr_TestcaseSetID = Some 4, cr_RequestedBy = Some 1,
        cr_Status = ''completed'', cr_Summary = zero_summary\<lparr>su_Valid := True\<rparr>, cr_ErrorMessage = None, cr_StartedAt = None,
        cr_FinishedAt = Some 13, cr_CreatedAt = 13, cr_UpdatedAt = 13\<rparr>],
     pt_findings = [], pt_events = [], pt_audit = [], pq_problems = 8, pq_statements = 4, pq_sets = 5, pq_tags = 1,
     pq_checks = 6, pq_findings = 1, pq_events = 1, pt_now = 20\<rparr>"

definition sample_reviewer :: actor where
  "sample_reviewer = \<lparr>ac_UserID = 2, ac_Roles = [''reviewer''], ac_Permissions = [''problem.review'', ''problem.publish''],
     ac_Role = [], ac_DeviceID = [], ac_RequestID = []\<rparr>"

definition sample_author :: actor where
  "sample_author = \<lparr>ac_UserID = 1, ac_Roles = [''author''],
     ac_Permissions = [''problem.edit_own'', ''problem.submit_review''], ac_Role = [], ac_DeviceID = [], ac_RequestID = []\<rparr>"

definition sample_admin :: actor where
  "sample_admin = \<lparr>ac_UserID = 9, ac_Roles = [''admin''], ac_Permissions = [''problem.manage_all''],
     ac_Role = [], ac_DeviceID = [], ac_RequestID = []\<rparr>"

definition sample_statement :: create_statement_input where
  "sample_statement = \<lparr>cs_Title = [], cs_Description = ''subtract'', cs_InputDescription = [], cs_OutputDescription = [],
     cs_Samples = [], cs_Hint = [], cs_Source = [], cs_MakeCurrent = True\<rparr>"

lemma sample_published_checked: "published_checked {} (sample_problem_store status)"
  by (simp add: published_checked_def sample_problem_store_def sample_problem_row_def statuses_def content_checked_def)

definition decided :: problem_store where
  "decided = snd (Decide id sample_reviewer 7 ''approve'' [] (sample_problem_store StatusInReview))"

lemma decided_published: "map pb_Status (pt_problems decided) = [StatusPublished]" "map pb_ID (pt_problems decided) = [7]"
  by code_simp+

subsection \<open>Properties\<close>

text \<open>
  C24: Every published problem outside \<open>X\<close> has been checked as it stands: it has a current statement, a
  current testcase set, and a completed check of exactly these two that found no error. From tables where
  this holds, with problem identifiers that are distinct and below the next one, it is kept by every request: creating, editing, archiving, restoring, new statements, tags, uploads, checks,
  submissions for review and decisions, in any order. Requests run one after the other, except that
  others may run between the checks and the transition of a submission or a decision. \<open>X\<close> is any set
  that contains the problems that were restored to published after their content had changed while they
  were archived, and those that were approved although their content changed between the check and the
  transition: of them nothing is claimed, and the code does publish them unchecked (the two theorems at the end).
\<close>

theorem published_problems_checked:
  assumes "(problem_step ar X)\<^sup>*\<^sup>* (s, ob) (s', ob')" and "published_checked X s"
    and "p \<in> set (pt_problems s')" and "pb_Status p = StatusPublished" and "pb_ID p \<notin> X"
  shows "content_checked s' (pb_ID p)"
proof -
  have "published_checked X (fst (s', ob'))" using assms(1)
    by (induction rule: rtranclp_induct) (use assms(2) in \<open>simp, simp add: step_ok_def problem_step_ok [unfolded step_ok_def]\<close>)
  with assms(3-5) show ?thesis by (force simp: published_checked_def statuses_def)
qed

lemma decided_step: "problem_step None X (sample_problem_store StatusInReview, ()) (decided, ())"
  unfolding decided_def by (rule problem_step.decide [where others = id]) (rule surjective_pairing, simp_all)

theorem published_problems_checked_witness:
  "hd (pt_problems decided) \<in> set (pt_problems decided) \<and> pb_Status (hd (pt_problems decided)) = StatusPublished
   \<and> content_checked decided 7"
proof -
  obtain p where p: "pt_problems decided = [p]" "pb_Status p = StatusPublished" "pb_ID p = 7"
    using decided_published by (cases "pt_problems decided") auto
  from published_problems_checked [OF r_into_rtranclp [of "problem_step None {}", OF decided_step] sample_published_checked, of p] p
  show ?thesis by simp
qed

text \<open>
  C26: A request changes the status of a problem only along the review workflow: draft or changes
  requested to in review, in review to published or changes requested, published to draft; and to or
  from archived. So a problem is published only from review, or by restoring it. This holds in any state
  whose problem identifiers are distinct and below the next one, whatever has been checked: restoring is
  unconditional here, and anything may run between the checks and the transition of a submission or a
  decision, the step being from the state in which the transition starts. Requests otherwise run one after the other.
\<close>

theorem problem_status_moves:
  assumes "problem_step ar UNIV (s, ob) (s', ob')"
    and "distinct (map pb_ID (pt_problems s))" and "\<forall>q \<in> set (pt_problems s). pb_ID q < pq_problems s"
    and "p \<in> set (pt_problems s)" and "p' \<in> set (pt_problems s')" and "pb_ID p' = pb_ID p"
  shows "pb_Status p' = pb_Status p \<or> status_move (pb_Status p) (pb_Status p')"
proof -
  have "moves_ok s s'" using problem_step_ok [OF assms(1)] assms(2,3) by (simp add: step_ok_def published_checked_UNIV)
  moreover have "(pb_ID p, pb_Status p) \<in> set (statuses s)" "(pb_ID p, pb_Status p') \<in> set (statuses s')"
    using assms(4-6) by (auto simp: statuses_def intro: image_eqI [where x = p'])
  ultimately show ?thesis unfolding moves_ok_def by metis
qed

theorem problem_status_moves_witness: "\<exists>p' \<in> set (pt_problems decided). status_move StatusInReview (pb_Status p')"
proof -
  obtain p' where p': "pt_problems decided = [p']" "pb_Status p' = StatusPublished" "pb_ID p' = 7"
    using decided_published by (cases "pt_problems decided") auto
  have row: "pt_problems (sample_problem_store StatusInReview) = [sample_problem_row StatusInReview]"
    "pq_problems (sample_problem_store StatusInReview) = 8" "pb_ID (sample_problem_row StatusInReview) = 7"
    by (simp_all add: sample_problem_store_def sample_problem_row_def)
  then have "sample_problem_row StatusInReview \<in> set (pt_problems (sample_problem_store StatusInReview))" by simp
  from problem_status_moves [OF decided_step _ _ this, of p'] p' row show ?thesis by (simp add: sample_problem_row_def)
qed

text \<open>
  C25: A decision publishes a problem only on a second pair of eyes: at the checks the problem was in
  review, its content had been checked, and the one who approves is not its owner and may review and
  publish, or manages all problems. The decision is recorded as a review event with the actor and the
  comment. Whatever other requests do between the checks and the transition, the problem is still in
  review when the transition starts.
\<close>

theorem approval_needs_reviewer:
  assumes "Decide others a pid decision comment s = (Inr p, s')" and "pd_Status p = StatusPublished"
  shows "\<exists>q \<in> set (pt_problems s). pb_ID q = pid \<and> pb_Status q = StatusInReview \<and> content_checked s pid
     \<and> (hasProblemPermission a PermissionProblemManageAll
        \<or> ac_UserID a \<noteq> pb_OwnerUserID q \<and> hasProblemPermission a PermissionProblemReview
          \<and> hasProblemPermission a PermissionProblemPublish)
     \<and> (\<exists>ev. pt_events s' = pt_events (others s) @ [ev] \<and> rv_ProblemID ev = pid \<and> rv_ActorUserID ev = ac_UserID a
          \<and> rv_FromStatus ev = StatusInReview \<and> rv_ToStatus ev = StatusPublished \<and> rv_Comment ev = TrimSpace comment)
     \<and> (\<exists>q' \<in> set (pt_problems (others s)). pb_ID q' = pid \<and> pb_Status q' = StatusInReview)"
proof -
  obtain old new where c: "decide_checks a pid (TrimSpace decision) (TrimSpace comment) s = Inr (old, new)"
    using assms(1) unfolding Decide_def by (auto simp: Let_def split: sum.splits)
  note dc = decide_checks_Inr [OF c]
  have t: "transition_tx a pid old new (TrimSpace decision) (TrimSpace comment) (others s) = Inr (p, s')"
    using assms(1) c by (simp add: Decide_def transition_def WithTx_Inr)
  have words: "TrimSpace new = new" "new \<noteq> []" using dc(1) by auto
  note te = transition_event [OF t words]
  from te(1) assms(2) have new: "new = StatusPublished" by simp
  have "(pid, StatusInReview) \<in> set (statuses (others s))" using transition_effect [OF t words] dc(1) by simp
  then have still: "\<exists>q' \<in> set (pt_problems (others s)). pb_ID q' = pid \<and> pb_Status q' = StatusInReview"
    by (auto simp: statuses_def)
  from dc(2) obtain r q where r: "CanDecideReview a r = Inr ()" and q: "q \<in> set (pt_problems s)" "pb_ID q = pid"
    "pb_Status q = StatusInReview" "pd_OwnerUserID r = pb_OwnerUserID q" by blast
  have "hasProblemPermission a PermissionProblemManageAll \<or> ac_UserID a \<noteq> pb_OwnerUserID q
      \<and> hasProblemPermission a PermissionProblemReview \<and> hasProblemPermission a PermissionProblemPublish"
    using r q(4) by (auto simp: CanDecideReview_def requireProblemPermission_def hasProblemPermission_def problemForbidden_def split: if_splits sum.splits)
  with q dc(1) new te(2) still show ?thesis by auto
qed

theorem approval_needs_reviewer_witness:
  "\<exists>p. fst (Decide id sample_reviewer 7 ''approve'' [] (sample_problem_store StatusInReview)) = Inr p
     \<and> pd_Status p = StatusPublished \<and> content_checked (sample_problem_store StatusInReview) 7"
proof -
  have "case fst (Decide id sample_reviewer 7 ''approve'' [] (sample_problem_store StatusInReview)) of
      Inl e \<Rightarrow> False | Inr p \<Rightarrow> pd_Status p = StatusPublished" by code_simp
  then obtain p where p: "fst (Decide id sample_reviewer 7 ''approve'' [] (sample_problem_store StatusInReview)) = Inr p"
    "pd_Status p = StatusPublished" by (auto split: sum.splits)
  then have "Decide id sample_reviewer 7 ''approve'' [] (sample_problem_store StatusInReview) = (Inr p, decided)"
    by (simp add: decided_def prod_eq_iff)
  from approval_needs_reviewer [OF this p(2)] p show ?thesis by auto
qed

definition edited_archive :: problem_store where
  "edited_archive = snd (CreateStatement sample_author 7 sample_statement
     (snd (ArchiveProblem sample_author 7 (sample_problem_store StatusPublished))))"

text \<open>
  Restoring can publish content nobody checked. From a state in which every published problem is
  checked, the author archives the problem and gives it a new statement; an administrator restores it,
  and it is published with the new statement although no check covers it: \<^verbatim>\<open>demotePublishedProblem\<close>
  looks at the status, which is archived at that moment, and \<^verbatim>\<open>RestoreProblem\<close> does not check readiness.
\<close>

theorem restore_publishes_unchecked:
  "published_checked {} (sample_problem_store StatusPublished)
   \<and> (case RestoreProblem sample_admin 7 edited_archive of
        (Inl e, s') \<Rightarrow> False
      | (Inr p, s') \<Rightarrow> map pb_Status (pt_problems s') = [StatusPublished] \<and> \<not> content_checked s' 7)"
proof
  show "published_checked {} (sample_problem_store StatusPublished)" by (rule sample_published_checked)
  show "case RestoreProblem sample_admin 7 edited_archive of
        (Inl e, s') \<Rightarrow> False
      | (Inr p, s') \<Rightarrow> map pb_Status (pt_problems s') = [StatusPublished] \<and> \<not> content_checked s' 7" by code_simp
qed

text \<open>
  A decision and an edit can race. \<^verbatim>\<open>Decide\<close> checks readiness before its transaction, and the
  transaction checks only the status. A statement the author saves between the two leaves the status in
  review, so the transition publishes it although no check covers it.
\<close>

theorem decision_races_with_edit:
  "content_checked (sample_problem_store StatusInReview) 7
   \<and> (case Decide (\<lambda>s. snd (CreateStatement sample_author 7 sample_statement s)) sample_reviewer 7 ''approve'' []
             (sample_problem_store StatusInReview) of
        (Inl e, s') \<Rightarrow> False
      | (Inr p, s') \<Rightarrow> map pb_Status (pt_problems s') = [StatusPublished] \<and> \<not> content_checked s' 7)"
  by code_simp

end
