(* ===== verification/Problem_Checks.thy ===== *)
theory Problem_Checks
  imports Problem_Lifecycle
begin

section \<open>Uploads, checks and slugs\<close>

text \<open>
  How the authoring operations fit together: a testcase archive that the upload accepted passes the
  problem check that reads it back from object storage, and the slugs the service generates are the ones
  its validation accepts.
\<close>

subsection \<open>An accepted upload passes its check\<close>

text \<open>What the services rely on of object storage: what was put is what is got, and the digest is that of the bytes.\<close>

definition faithful_storage :: "'o archives \<Rightarrow> bool" where
  "faithful_storage ar \<longleftrightarrow> (\<forall>key src n ob digest ob'. ar_Put ar key src n ob = (Inr digest, ob') \<longrightarrow>
     ab_SHA256 src = Inr digest \<and> TrimSpace digest = digest
     \<and> ar_Get ar key ob' = Inr \<lparr>ob_Bytes = src, ob_Size = n, ob_Error = None\<rparr>)"

lemma TrimSpace_Nil: "TrimSpace [] = []"
  by code_simp

text \<open>A string that neither starts nor ends like a space is its own trimmed form.\<close>

lemma TrimSpace_solid:
  assumes "s \<noteq> []" and "hd s \<notin> hd ` set space_seqs" and "last s \<notin> last ` set space_seqs"
  shows "TrimSpace s = s"
proof -
  have ne: "w \<noteq> []" if "w \<in> set space_seqs" for w using that by (auto simp: space_seqs_def)
  have "\<not> prefix w s" if "w \<in> set space_seqs" for w
    using ne [OF that] assms(2) that by (auto simp: prefix_def)
  then have "space_len s = 0" by (auto simp: space_len_def dest!: find_Some_set split: option.splits)
  moreover have "\<not> suffix w s" if "w \<in> set space_seqs" for w
    using ne [OF that] assms(3) that by (auto simp: suffix_def)
  then have "space_len_end s = 0" by (auto simp: space_len_end_def dest!: find_Some_set split: option.splits)
  ultimately show ?thesis by (simp add: TrimSpace_def trim_space_left.simps [of s] trim_space_right.simps [of s])
qed

lemma ValidateArchive_Verify:
  assumes "walks_map iter" and "walks_map iter'" and "ab_SHA256 r = Inr digest" and "TrimSpace digest = digest"
  shows "HasErrorFindings (snd (VerifyArchive lower iter' r n digest)) = HasErrorFindings (snd (ValidateArchive lower iter r n))"
    and "length (fst (VerifyArchive lower iter' r n digest)) = length (fst (ValidateArchive lower iter r n))"
proof -
  let ?p = "zero_options\<lparr>ao_KeepContents := True\<rparr>" and ?q = "zero_options\<lparr>ao_ExpectedSHA256 := digest\<rparr>"
  have sb: "same_budgets (withDefaults ?p) (withDefaults zero_options)" "same_budgets (withDefaults ?p) (withDefaults ?q)"
    "\<not> ao_KeepContents zero_options" "\<not> ao_KeepContents ?q"
    "ao_MaxBytes (withDefaults ?p) = ao_MaxBytes (withDefaults zero_options)"
    "ao_MaxBytes (withDefaults ?p) = ao_MaxBytes (withDefaults ?q)"
    by (simp_all add: same_budgets_def withDefaults_def zero_options_def)
  have none: "checksum_finding (withDefaults ?p) r = None" "checksum_finding (withDefaults zero_options) r = None"
    "checksum_finding (withDefaults ?q) r = None"
    using assms(3,4) by (simp_all add: checksum_finding_def withDefaults_def zero_options_def Let_def TrimSpace_Nil)
  note a = parseArchive_forget [OF sb(1,3,5) none(1,2), of lower n]
    and b = parseArchive_forget [OF sb(2,4,6) none(1,3), of lower n]
  note it = parseArchive_iter [OF assms(1) walks_id, of lower r n zero_options]
    and it' = parseArchive_iter [OF assms(2) walks_id, of lower r n ?q]
  show "HasErrorFindings (snd (VerifyArchive lower iter' r n digest)) = HasErrorFindings (snd (ValidateArchive lower iter r n))"
    using HasErrorFindings_mset [OF it(4)] HasErrorFindings_mset [OF it'(4)] a(1) b(1)
    by (simp add: VerifyArchive_def ValidateArchive_def Let_def)
  show "length (fst (VerifyArchive lower iter' r n digest)) = length (fst (ValidateArchive lower iter r n))"
    using it(1) it'(1) a(2) b(2) by (simp add: VerifyArchive_def ValidateArchive_def Let_def)
qed

lemma validated_size: "\<not> HasErrorFindings (snd (ValidateArchive lower iter r n)) \<Longrightarrow> 0 < n \<and> n \<le> MaxTestcaseArchiveBytes"
  by (auto simp: ValidateArchive_def parseArchive_def Let_def rejected_def HasErrorFindings_def errorFinding_def
      withDefaults_def zero_options_def split: if_splits)

lemma check_archive_valid:
  assumes "faithful_storage ar" and "walks_map (pp_iter parser)" and "walks_map (pp_iter parser')"
    and "pp_lower parser' = pp_lower parser"
    and put: "ar_Put ar (ts_StorageKey tset) src n ob = (Inr (ts_ChecksumSha256 tset), ob')"
    and "TrimSpace (ts_StorageKey tset) \<noteq> []"
    and ok: "\<not> HasErrorFindings (snd (ValidateArchive (pp_lower parser) (pp_iter parser) src n))"
    and "ts_CaseCount tset = word_of_int (int (length (fst (ValidateArchive (pp_lower parser) (pp_iter parser) src n))))"
  shows "\<forall>f \<in> set (oc_findings (check_archive parser' (Some ar) ob' tset)). fn_Severity f \<noteq> SeverityError"
    and "oc_caseCount (check_archive parser' (Some ar) ob' tset) = length (fst (ValidateArchive (pp_lower parser) (pp_iter parser) src n))"
proof -
  let ?d = "ts_ChecksumSha256 tset"
  have st: "ab_SHA256 src = Inr ?d" "TrimSpace ?d = ?d"
    "ar_Get ar (ts_StorageKey tset) ob' = Inr \<lparr>ob_Bytes = src, ob_Size = n, ob_Error = None\<rparr>"
    using assms(1) put unfolding faithful_storage_def by blast+
  note vv = ValidateArchive_Verify [OF assms(2,3) st(1,2), of "pp_lower parser" n]
  obtain cs fs where v: "VerifyArchive (pp_lower parser) (pp_iter parser') src n ?d = (cs, fs)" by fastforce
  have c: "\<not> HasErrorFindings fs" "length cs = length (fst (ValidateArchive (pp_lower parser) (pp_iter parser) src n))"
    using vv ok v by simp_all
  have "readAllAndClose \<lparr>ob_Bytes = src, ob_Size = n, ob_Error = None\<rparr> MaxTestcaseArchiveBytes = Inr (src, n)"
    using validated_size [OF ok] by (simp add: readAllAndClose_def)
  with st(3) v c assms(4,6,8)
  show "\<forall>f \<in> set (oc_findings (check_archive parser' (Some ar) ob' tset)). fn_Severity f \<noteq> SeverityError"
    and "oc_caseCount (check_archive parser' (Some ar) ob' tset) = length (fst (ValidateArchive (pp_lower parser) (pp_iter parser) src n))"
    by (auto simp: check_archive_def Let_def HasErrorFindings_def check_draft_def)
qed


lemma uploaded_current:
  assumes "upload_tx a pid key digest n c s = Inr (x, s')"
  shows "repo_GetCurrentTestcaseSet pid s' = Inr (x, s')"
    and "ts_StorageKey x = key \<and> ts_ChecksumSha256 x = digest \<and> ts_CaseCount x = c"
proof -
  obtain p s1 where d: "demotePublishedProblem p s1 = Inr ((), s')"
    and sets: "pt_sets s1 = update_rows (\<lambda>x. ts_ProblemID x = pid \<and> ts_IsCurrent x) (\<lambda>x. x\<lparr>ts_IsCurrent := False\<rparr>) (pt_sets s) @ [x]"
    and x: "ts_ProblemID x = pid \<and> ts_IsCurrent x \<and> ts_StorageKey x = key \<and> ts_ChecksumSha256 x = digest \<and> ts_CaseCount x = c"
    using upload_parts [OF assms] by blast
  have "pt_sets s' = pt_sets s1"
  proof (cases "pd_Status p = StatusPublished")
    case True
    with d obtain y where "repo_SetProblemStatus (pd_ID p) StatusDraft s1 = Inr (y, s')"
      by (auto simp: demotePublishedProblem_def tx_simps)
    from repo_SetProblemStatus_effect [OF this] show ?thesis by simp
  qed (use d in \<open>simp add: demotePublishedProblem_def tx_simps\<close>)
  moreover have "List.find (\<lambda>x. ts_ProblemID x = pid \<and> ts_IsCurrent x)
      (update_rows (\<lambda>x. ts_ProblemID x = pid \<and> ts_IsCurrent x) (\<lambda>x. x\<lparr>ts_IsCurrent := False\<rparr>) rows @ [x]) = Some x" for rows
    using x by (induction rows) (auto simp: update_rows_def)
  ultimately show "repo_GetCurrentTestcaseSet pid s' = Inr (x, s')"
    by (simp add: repo_GetCurrentTestcaseSet_def run_query_Inr q_GetCurrentTestcaseSet_def tx_simps sets)
  show "ts_StorageKey x = key \<and> ts_ChecksumSha256 x = digest \<and> ts_CaseCount x = c" using x by simp
qed

lemma stored_check_summary:
  assumes "store_check a pid sid tid oc now s = Inr ((run, fs), s')"
  shows "ck_Summary run = problemCheckSummary (int (oc_caseCount oc)) (oc_storageReadable oc) (oc_zipReadable oc) (oc_findings oc)
     \<and> ck_Status run = ''completed''"
  using assms unfolding store_check_def
  by (auto simp: tx_simps completeProblemCheckRun_def run_query_Inr q_CompleteProblemCheckRun_def problemCheckRunFromDB_def)

lemma upload_Inr:
  assumes "UploadTestcaseArchive parser (Some ar) random a pid (Some src) n (s, ob) = (Inr row, fs, s', ob')"
  obtains key digest where "ar_Put ar key src n ob = (Inr digest, ob')" and "testcaseArchiveKey pid random = Inr key"
    and "\<not> HasErrorFindings (snd (ValidateArchive (pp_lower parser) (pp_iter parser) src n))"
    and "upload_tx a pid key digest n (word_of_int (int (length (fst (ValidateArchive (pp_lower parser) (pp_iter parser) src n))))) s
       = Inr (row, s')"
  using assms unfolding UploadTestcaseArchive_def
  by (auto simp: Let_def WithTx_Inr WithTx_Inl split: option.splits sum.splits prod.splits if_splits bool.splits)

lemma archive_key_nonempty: "testcaseArchiveKey pid random = Inr key \<Longrightarrow> TrimSpace key \<noteq> []"
  by (auto simp: testcaseArchiveKey_def TrimSpace_solid space_seqs_def split: sum.splits)

text \<open>
  C27: a testcase archive that the upload accepted passes the problem check. If the upload succeeded and
  object storage returns what was put, a check run after it, by anyone who may edit the problem, reads
  the stored archive and finds no error: the digest matches, the archive parses, and the number of
  cases is the recorded one. So the check cannot block publishing on account of the testcases.
\<close>

theorem upload_then_check_valid:
  assumes "faithful_storage ar" and "walks_map (pp_iter parser)" and "walks_map (pp_iter parser')"
    and "pp_lower parser' = pp_lower parser"
    and up: "UploadTestcaseArchive parser (Some ar) random a pid (Some src) n (s, ob) = (Inr row, fs, s', ob')"
    and run: "RunProblemCheck parser' (Some ar) ob' now b pid s' = (Inr (run, findings), s'')"
  shows "ck_Status run = ''completed'' \<and> su_Valid (ck_Summary run) \<and> su_ErrorCount (ck_Summary run) = 0
     \<and> su_CaseCount (ck_Summary run) = int (length (fst (ValidateArchive (pp_lower parser) (pp_iter parser) src n)))"
proof -
  obtain key digest where put: "ar_Put ar key src n ob = (Inr digest, ob')" and key: "testcaseArchiveKey pid random = Inr key"
    and ok: "\<not> HasErrorFindings (snd (ValidateArchive (pp_lower parser) (pp_iter parser) src n))"
    and tx: "upload_tx a pid key digest n (word_of_int (int (length (fst (ValidateArchive (pp_lower parser) (pp_iter parser) src n))))) s
       = Inr (row, s')"
    using up by (rule upload_Inr)
  note cur = uploaded_current [OF tx]
  obtain p s1 u s2 sm s3 tset s4 where "repo_GetProblem pid s' = Inr (p, s1)" "guard_tx (canWriteProblem b p) s1 = Inr (u, s2)"
    "repo_GetCurrentProblemStatement pid s2 = Inr (sm, s3)" and tset: "repo_GetCurrentTestcaseSet pid s3 = Inr (tset, s4)"
    and "store_check b pid (sm_ID sm) (ts_ID tset) (check_archive parser' (Some ar) ob' tset) now s' = Inr ((run, findings), s'')"
    using run unfolding RunProblemCheck_def by (auto simp: WithTx_Inr fst_WithTx_Inr tx_simps split: sum.splits)
  moreover from this have "s3 = s'" using got_problem guard_tx_Inr find_current_statement by metis
  ultimately have "store_check b pid (sm_ID sm) (ts_ID row) (check_archive parser' (Some ar) ob' row) now s' = Inr ((run, findings), s'')"
    using cur(1) by simp
  note sum = stored_check_summary [OF this]
  note ca = check_archive_valid [OF assms(1-4), of row src n ob ob']
  have "count_severity SeverityError (oc_findings (check_archive parser' (Some ar) ob' row)) = 0"
    using ca(1) put cur(2) archive_key_nonempty [OF key] ok by (simp add: count_severity_def filter_empty_conv)
  with sum ca(2) put cur(2) archive_key_nonempty [OF key] ok show ?thesis by (simp add: problemCheckSummary_def)
qed


text \<open>A storage in memory, and a problem whose owner uploads an archive and checks it.\<close>

definition memory_storage :: "(string \<times> object_body) list archives" where
  "memory_storage =
     \<lparr>ar_Put = (\<lambda>key src n ob. case ab_SHA256 src of
          Inl e \<Rightarrow> (Inl e, ob)
        | Inr d \<Rightarrow> (if TrimSpace d = d then (Inr d, (key, \<lparr>ob_Bytes = src, ob_Size = n, ob_Error = None\<rparr>) # ob)
                    else (Inl (ErrText ''digest''), ob))),
      ar_Delete = (\<lambda>key ob. filter (\<lambda>e. fst e \<noteq> key) ob),
      ar_Get = (\<lambda>key ob. case map_of ob key of None \<Rightarrow> Inl (ErrText ''not found'') | Some b \<Rightarrow> Inr b)\<rparr>"

lemma memory_storage_faithful: "faithful_storage memory_storage"
  by (auto simp: faithful_storage_def memory_storage_def split: sum.splits if_splits)

definition rev_parser :: archive_parser where
  "rev_parser = \<lparr>pp_lower = ToLower, pp_iter = rev\<rparr>"

definition id_parser :: archive_parser where
  "id_parser = \<lparr>pp_lower = ToLower, pp_iter = id\<rparr>"

definition one_case_archive :: archive_bytes where
  "one_case_archive = \<lparr>ab_SHA256 = Inr ''00ff'', ab_Files = Inr [sample_file ''1.in'' ''a'', sample_file ''1.ans'' ''b'']\<rparr>"

abbreviation sample_key :: string where "sample_key \<equiv> ''problems/7/testcases/ab.zip''"

definition uploaded :: problem_store where
  "uploaded = snd (WithTx (upload_tx sample_author 7 sample_key ''00ff'' 9 1) (sample_problem_store StatusDraft))"

definition sample_objects :: "(string \<times> object_body) list" where
  "sample_objects = [(sample_key, \<lparr>ob_Bytes = one_case_archive, ob_Size = 9, ob_Error = None\<rparr>)]"

definition sample_check where
  "sample_check = RunProblemCheck id_parser (Some memory_storage) sample_objects 30 sample_author 7 uploaded"

lemma sample_upload:
  "\<exists>row fs. UploadTestcaseArchive rev_parser (Some memory_storage) (Inr ''ab'') sample_author 7 (Some one_case_archive) 9
      (sample_problem_store StatusDraft, []) = (Inr row, fs, uploaded, sample_objects)"
proof -
  have v: "\<not> HasErrorFindings (snd (ValidateArchive ToLower rev one_case_archive 9))"
    "length (fst (ValidateArchive ToLower rev one_case_archive 9)) = 1" by code_simp+
  have k: "testcaseArchiveKey 7 (Inr ''ab'') = Inr sample_key" by code_simp
  have "case fst (WithTx (upload_tx sample_author 7 sample_key ''00ff'' 9 1) (sample_problem_store StatusDraft)) of
      Inl e \<Rightarrow> False | Inr row \<Rightarrow> True" by code_simp
  then obtain row where t: "WithTx (upload_tx sample_author 7 sample_key ''00ff'' 9 1) (sample_problem_store StatusDraft) = (Inr row, uploaded)"
    unfolding uploaded_def by (metis (no_types, lifting) old.sum.exhaust old.sum.simps(5) prod.collapse)
  have g: "fst (WithTx (bind_tx (repo_GetProblem 7) (\<lambda>current. guard_tx (canWriteProblem sample_author current)))
      (sample_problem_store StatusDraft)) = Inr ()" by code_simp
  have p: "ar_Put memory_storage sample_key one_case_archive 9 [] = (Inr ''00ff'', sample_objects)" by code_simp
  show ?thesis using v k t g p by (auto simp: UploadTestcaseArchive_def rev_parser_def Let_def split: prod.splits)
qed

definition clean_outcome :: check_outcome where
  "clean_outcome = \<lparr>oc_findings = [], oc_storageReadable = True, oc_zipReadable = True, oc_caseCount = 1\<rparr>"

lemma sample_check_runs: "\<exists>run findings. fst sample_check = Inr (run, findings)"
proof -
  let ?read = "fst (WithTx (bind_tx (repo_GetProblem 7) (\<lambda>p. bind_tx (guard_tx (canWriteProblem sample_author p)) (\<lambda>_.
      bind_tx (repo_GetCurrentProblemStatement 7) (\<lambda>sm.
      bind_tx (repo_GetCurrentTestcaseSet 7) (\<lambda>tset. return_tx (sm, tset)))))) uploaded)"
  have "case ?read of Inl e \<Rightarrow> False
      | Inr (sm, tset) \<Rightarrow> check_archive id_parser (Some memory_storage) sample_objects tset = clean_outcome" by code_simp
  then obtain sm tset where r: "?read = Inr (sm, tset)"
    "check_archive id_parser (Some memory_storage) sample_objects tset = clean_outcome" by (auto split: sum.splits)
  have "case ?read of Inl e \<Rightarrow> False
      | Inr (sm, tset) \<Rightarrow> (case fst (WithTx (store_check sample_author 7 (sm_ID sm) (ts_ID tset) clean_outcome 30) uploaded) of
          Inl e \<Rightarrow> False | Inr v \<Rightarrow> True)" by code_simp
  with r show ?thesis by (auto simp: sample_check_def RunProblemCheck_def split: sum.splits)
qed

theorem upload_then_check_valid_witness:
  "\<exists>run findings. fst sample_check = Inr (run, findings) \<and> su_Valid (ck_Summary run) \<and> su_CaseCount (ck_Summary run) = 1"
proof -
  obtain row fs where up: "UploadTestcaseArchive rev_parser (Some memory_storage) (Inr ''ab'') sample_author 7 (Some one_case_archive) 9
      (sample_problem_store StatusDraft, []) = (Inr row, fs, uploaded, sample_objects)" using sample_upload by blast
  obtain run findings where ch: "fst sample_check = Inr (run, findings)" using sample_check_runs by blast
  then have rc: "RunProblemCheck id_parser (Some memory_storage) sample_objects 30 sample_author 7 uploaded
      = (Inr (run, findings), snd sample_check)" by (simp add: sample_check_def prod_eq_iff)
  have "length (fst (ValidateArchive (pp_lower rev_parser) (pp_iter rev_parser) one_case_archive 9)) = 1" by code_simp
  with upload_then_check_valid [OF memory_storage_faithful _ _ _ up rc] ch show ?thesis
    by (simp add: rev_parser_def id_parser_def walks_rev walks_id)
qed

subsection \<open>Slugs\<close>

text \<open>The automaton of \<^verbatim>\<open>slugPattern\<close>, run over a prefix: the state it reaches, if it does not reject.\<close>

fun slug_scan :: "bool \<Rightarrow> string \<Rightarrow> bool option" where
  "slug_scan open_run [] = Some open_run"
| "slug_scan open_run (c # cs) =
     (if slug_char c then slug_scan True cs
      else if (c = CHR ''-'' \<or> c = CHR ''_'') \<and> open_run then slug_scan False cs else None)"

lemma slug_match_scan: "slug_match b cs \<longleftrightarrow> slug_scan b cs = Some True"
  by (induction b cs rule: slug_match.induct) auto

lemma slug_scan_append: "slug_scan b (xs @ ys) = (case slug_scan b xs of None \<Rightarrow> None | Some c \<Rightarrow> slug_scan c ys)"
  by (induction b xs rule: slug_scan.induct) auto

lemma slug_scan_chars: "\<forall>c \<in> set cs. slug_char c \<Longrightarrow> cs \<noteq> [] \<Longrightarrow> slug_scan b cs = Some True"
  by (induction cs arbitrary: b) (auto, metis slug_scan.simps(1))

lemma slug_last: "slug_scan b cs = Some True \<Longrightarrow> cs \<noteq> [] \<Longrightarrow> slug_char (last cs)"
  by (induction b cs rule: slug_scan.induct) (auto split: if_splits)

lemma slug_hd: "slug_scan False cs = Some b \<Longrightarrow> cs \<noteq> [] \<Longrightarrow> slug_char (hd cs)"
  by (cases cs) (auto split: if_splits)

lemma slug_char_ascii: "slug_char c \<Longrightarrow> of_char c \<ge> (48 :: nat) \<and> of_char c \<le> (122 :: nat)"
  by (auto simp: slug_char_def is_digit_def less_eq_char_def)

lemma slug_not_space: "slug_char c \<Longrightarrow> c \<notin> hd ` set space_seqs \<and> c \<notin> last ` set space_seqs"
  using slug_char_ascii [of c] by (auto simp: space_seqs_def)

lemma validSlug_scan: "slug_scan False cs = Some True \<Longrightarrow> validSlug cs"
  using TrimSpace_solid [of cs] slug_not_space slug_hd [of cs True] slug_last [of False cs]
  by (cases "cs = []") (auto simp: validSlug_def slug_match_scan)

text \<open>What the loop has built: a slug, or a slug and one dash.\<close>

lemma slugify_from_shape:
  assumes "if lastDash then \<exists>b. built = b @ ''-'' \<and> slug_scan False b = Some True
           else built = [] \<or> slug_scan False built = Some True"
  shows "slugify_from built lastDash cs = [] \<or> slug_scan False (slugify_from built lastDash cs) = Some True
     \<or> (\<exists>b. slugify_from built lastDash cs = b @ ''-'' \<and> slug_scan False b = Some True)"
  using assms
proof (induction built lastDash cs rule: slugify_from.induct)
  case (2 built lastDash c cs)
  have ext: "slug_scan False (built @ [c]) = Some True" if "slug_char c"
    using 2(4) that by (auto simp: slug_scan_append split: if_splits)
  show ?case
  proof (cases "slug_char c")
    case True
    then show ?thesis using 2(1) ext by simp
  next
    case False
    then show ?thesis using 2(2,3,4) by (cases "\<not> lastDash \<and> built \<noteq> []") auto
  qed
qed (auto split: if_splits)

lemma trim_dashes_slug:
  assumes "slug_scan False b = Some True" and "b \<noteq> []"
  shows "trim_dashes b = b" and "trim_dashes (b @ ''-'') = b"
proof -
  have dash: "c \<noteq> CHR ''-''" if "slug_char c" for c using slug_char_ascii [OF that] by auto
  obtain c cs where b: "b = c # cs" "c \<noteq> CHR ''-''" using assms(2) dash [OF slug_hd [OF assms]] by (cases b) auto
  obtain ds d where e: "b = ds @ [d]" "d \<noteq> CHR ''-''"
    using assms(2) dash [OF slug_last [OF assms]] by (cases b rule: rev_cases) auto
  have "dropWhile (\<lambda>c. c = CHR ''-'') (b @ xs) = b @ xs" for xs using b by simp
  from this [of "[]"] this [of "''-''"] show "trim_dashes b = b" "trim_dashes (b @ ''-'') = b"
    using e by (simp_all add: trim_dashes_def TrimRight_def)
qed

lemma slugifyTag_valid: "slugifyTag lower name = [] \<or> slug_scan False (slugifyTag lower name) = Some True"
proof -
  let ?t = "slugify_from [] False (lower (TrimSpace name))"
  consider "?t = []" | "slug_scan False ?t = Some True" "?t \<noteq> []" | b where "?t = b @ ''-''" "slug_scan False b = Some True" "b \<noteq> []"
    using slugify_from_shape [of False "[]" "lower (TrimSpace name)"] by fastforce
  then show ?thesis
  proof cases
    case 1
    then show ?thesis by (simp add: slugifyTag_def trim_dashes_def TrimRight_def)
  qed (simp_all add: slugifyTag_def trim_dashes_slug)
qed

lemma tag_inputs_mem: "tag_inputs lower names = Inr tags \<Longrightarrow> t \<in> set tags \<Longrightarrow> ti_Slug t \<in> range (slugifyTag lower)"
  by (induction names arbitrary: tags) (auto simp: Let_def split: if_splits sum.splits)

text \<open>
  C32: the slugs the service makes are the slugs its pattern accepts. Whatever the title (and however
  the language lower-cases it), the generated problem slug matches \<^verbatim>\<open>^[a-z0-9]+(?:[-_][a-z0-9]+)*$\<close>, given
  that the random suffix is hexadecimal; and a tag name yields a valid slug or none at all, which
  \<^verbatim>\<open>validateTags\<close> then rejects.
\<close>

theorem generated_slugs_valid:
  assumes "h \<noteq> []" and "\<forall>c \<in> set h. slug_char c"
  shows "(\<exists>slug. generateProblemSlug lower title (Inr h) = Inr slug \<and> validSlug slug)
     \<and> (tag_inputs lower names = Inr tags \<longrightarrow> t \<in> set tags \<longrightarrow> ti_Slug t = [] \<or> validSlug (ti_Slug t))"
proof -
  let ?b = "if slugifyTag lower title = [] then ''problem'' else slugifyTag lower title"
  have "slug_scan False ''problem'' = Some True" by code_simp
  with slugifyTag_valid [of lower title] have "slug_scan False ?b = Some True" by auto
  with slug_scan_chars [OF assms(2,1)] have "slug_scan False (?b @ ''-'' @ h) = Some True"
    by (simp add: slug_scan_append slug_char_def is_digit_def less_eq_char_def)
  from validSlug_scan [OF this] have "\<exists>slug. generateProblemSlug lower title (Inr h) = Inr slug \<and> validSlug slug"
    by (simp add: generateProblemSlug_def Let_def)
  moreover have "ti_Slug t = [] \<or> validSlug (ti_Slug t)" if "tag_inputs lower names = Inr tags" "t \<in> set tags"
    using tag_inputs_mem [OF that] slugifyTag_valid validSlug_scan by fastforce
  ultimately show ?thesis by blast
qed

theorem generated_slugs_valid_witness:
  "\<exists>slug. generateProblemSlug ToLower '' A + B!'' (Inr ''0af3'') = Inr slug \<and> validSlug slug"
proof -
  have "\<forall>c \<in> set ''0af3''. slug_char c" by code_simp
  from generated_slugs_valid [OF _ this, of ToLower "'' A + B!''"] show ?thesis by simp
qed

end
