(* ===== verification/Scoreboard_Rules.thy ===== *)
theory Scoreboard_Rules
  imports Scoreboard
begin

section \<open>What the boards show\<close>

text \<open>
  The cells of a board against the ICPC rule, what the frozen board reveals, and which views are on
  offer when.
\<close>

subsection \<open>The cell of one participant and problem\<close>

text \<open>The submissions of one user for one problem, in the order the board reads them.\<close>

definition own_submissions ::
  "int64 \<Rightarrow> int64 \<Rightarrow> contest_submission_result list \<Rightarrow> contest_submission_result list" where
  "own_submissions userID problemID subs =
     filter (\<lambda>s. cs_UserID s = userID \<and> cs_ProblemID s = problemID) (sort_by submission_order subs)"

lemma collect_states_lookup:
  "collect_states ct view subs states (u, p) =
     (let own = filter (\<lambda>s. cs_UserID s = u \<and> cs_ProblemID s = p) subs in
      if own = [] then states (u, p)
      else Some (fold (apply_submission ct view) own
             (case states (u, p) of None \<Rightarrow> empty_cell_state | Some s \<Rightarrow> s)))"
proof (induction subs arbitrary: states)
  case Nil
  then show ?case by simp
next
  case (Cons s subs)
  show ?case
  proof (cases "cs_UserID s = u \<and> cs_ProblemID s = p")
    case True
    then show ?thesis using Cons.IH by (simp add: Let_def)
  next
    case False
    then have "(u, p) \<noteq> (cs_UserID s, cs_ProblemID s)" by auto
    with False show ?thesis using Cons.IH by (simp only: collect_states.simps Let_def) auto
  qed
qed

definition is_accepted :: "contest_submission_result \<Rightarrow> bool" where
  "is_accepted s \<longleftrightarrow> cs_Status s = ''accepted''"

text \<open>
  The ICPC rule for a list of judged submissions in order: the first accepted one counts, with its
  minutes since the start plus twenty per earlier rejected one; later ones are ignored.
\<close>

definition icpc_state :: "contest_record \<Rightarrow> contest_submission_result list \<Rightarrow> submission_cell_state" where
  "icpc_state ct subs =
     (let wrong = of_nat (length (takeWhile (\<lambda>s. \<not> is_accepted s) subs)) in
      case List.find is_accepted subs of
        None \<Rightarrow> empty_cell_state\<lparr>st_wrongAttempts := wrong\<rparr>
      | Some s \<Rightarrow> \<lparr>st_wrongAttempts = wrong, st_wrongBeforeAccepted = wrong, st_hiddenAttempts = 0,
                   st_acceptedAt = Some (cs_SubmittedAt s),
                   st_penaltyMinutes = int32_minutes (time_Sub (cs_SubmittedAt s) (ct_StartAt ct)) + wrong * 20,
                   st_lastSubmissionID = Some (cs_ID s)\<rparr>)"

lemma fold_after_accepted:
  "st_acceptedAt st \<noteq> None \<Longrightarrow> fold (\<lambda>s st. applyVisibleSubmission ct st s) subs st = st"
  by (induction subs) (auto simp: applyVisibleSubmission_def)

lemma fold_visible_from:
  "fold (\<lambda>s st. applyVisibleSubmission ct st s) subs (empty_cell_state\<lparr>st_wrongAttempts := w\<rparr>) =
     (let wrong = w + of_nat (length (takeWhile (\<lambda>s. \<not> is_accepted s) subs)) in
      case List.find is_accepted subs of
        None \<Rightarrow> empty_cell_state\<lparr>st_wrongAttempts := wrong\<rparr>
      | Some s \<Rightarrow> \<lparr>st_wrongAttempts = wrong, st_wrongBeforeAccepted = wrong, st_hiddenAttempts = 0,
                   st_acceptedAt = Some (cs_SubmittedAt s),
                   st_penaltyMinutes = int32_minutes (time_Sub (cs_SubmittedAt s) (ct_StartAt ct)) + wrong * 20,
                   st_lastSubmissionID = Some (cs_ID s)\<rparr>)"
proof (induction subs arbitrary: w)
  case Nil
  then show ?case by simp
next
  case (Cons s subs)
  show ?case
  proof (cases "is_accepted s")
    case True
    then have "applyVisibleSubmission ct (empty_cell_state\<lparr>st_wrongAttempts := w\<rparr>) s =
        \<lparr>st_wrongAttempts = w, st_wrongBeforeAccepted = w, st_hiddenAttempts = 0,
         st_acceptedAt = Some (cs_SubmittedAt s),
         st_penaltyMinutes = int32_minutes (time_Sub (cs_SubmittedAt s) (ct_StartAt ct)) + w * 20,
         st_lastSubmissionID = Some (cs_ID s)\<rparr>"
      by (simp add: applyVisibleSubmission_def is_accepted_def empty_cell_state_def)
    then show ?thesis using True by (simp add: fold_after_accepted)
  next
    case False
    then have "applyVisibleSubmission ct (empty_cell_state\<lparr>st_wrongAttempts := w\<rparr>) s
        = empty_cell_state\<lparr>st_wrongAttempts := w + 1\<rparr>"
      by (simp add: applyVisibleSubmission_def is_accepted_def empty_cell_state_def)
    then show ?thesis using False Cons.IH [of "w + 1"] by (simp add: Let_def ac_simps)
  qed
qed

lemma fold_visible: "fold (\<lambda>s st. applyVisibleSubmission ct st s) subs empty_cell_state = icpc_state ct subs"
  using fold_visible_from [of ct subs 0] by (simp add: icpc_state_def Let_def empty_cell_state_def)

lemma fold_apply_live:
  "view \<noteq> ScoreboardViewFrozen \<Longrightarrow> fold (apply_submission ct view) subs st = fold (\<lambda>s st. applyVisibleSubmission ct st s) subs st"
  by (induction subs arbitrary: st) (auto simp: apply_submission_def)

text \<open>
  On the live and final boards, the state behind the cell of a user and a problem is the ICPC rule
  applied to that user's submissions for that problem in order of submission, whatever the order in
  which the store lists them and whatever other submissions there are.
\<close>

theorem board_cell_icpc:
  assumes "view \<noteq> ScoreboardViewFrozen"
  shows "collect_states ct view (sort_by submission_order subs) Map.empty (u, p) =
           (if own_submissions u p subs = [] then None else Some (icpc_state ct (own_submissions u p subs)))"
  using assms
  by (simp add: collect_states_lookup Let_def own_submissions_def fold_apply_live fold_visible)

definition sample_submission :: "int64 \<Rightarrow> string \<Rightarrow> time \<Rightarrow> contest_submission_result" where
  "sample_submission sid status at =
     \<lparr>cs_ID = sid, cs_ContestID = 7, cs_UserID = 1, cs_ProblemID = 10, cs_Status = status, cs_SubmittedAt = at,
      cs_JudgedAt = at, cs_FirstJudgedAt = None\<rparr>"

theorem board_cell_icpc_witness:
  "collect_states sample_contest ScoreboardViewLive (sort_by submission_order
       [sample_submission 2 ''accepted'' (30 * Minute), sample_submission 1 ''wrong_answer'' (10 * Minute)]) Map.empty (1, 10)
     = Some \<lparr>st_wrongAttempts = 1, st_wrongBeforeAccepted = 1, st_hiddenAttempts = 0,
             st_acceptedAt = Some (30 * Minute), st_penaltyMinutes = 50, st_lastSubmissionID = Some 2\<rparr>"
proof -
  have "ScoreboardViewLive \<noteq> ScoreboardViewFrozen" by simp
  note board_cell_icpc [OF this, of sample_contest "[sample_submission 2 ''accepted'' (30 * Minute),
      sample_submission 1 ''wrong_answer'' (10 * Minute)]" 1 10]
  also have "own_submissions 1 10 [sample_submission 2 ''accepted'' (30 * Minute),
      sample_submission 1 ''wrong_answer'' (10 * Minute)]
      = [sample_submission 1 ''wrong_answer'' (10 * Minute), sample_submission 2 ''accepted'' (30 * Minute)]"
    by (simp add: own_submissions_def submission_order_def sample_submission_def)
  also have "icpc_state sample_contest
      [sample_submission 1 ''wrong_answer'' (10 * Minute), sample_submission 2 ''accepted'' (30 * Minute)]
      = \<lparr>st_wrongAttempts = 1, st_wrongBeforeAccepted = 1, st_hiddenAttempts = 0,
             st_acceptedAt = Some (30 * Minute), st_penaltyMinutes = 50, st_lastSubmissionID = Some 2\<rparr>"
    by code_simp
  finally show ?thesis by simp
qed

subsection \<open>The freeze\<close>

text \<open>
  The frozen board splits a participant's submissions: the visible ones count as usual, the others
  are only counted.
\<close>

lemma fold_apply_frozen_hidden:
  "fold (apply_submission ct ScoreboardViewFrozen) subs (st\<lparr>st_hiddenAttempts := h\<rparr>) =
     (fold (\<lambda>s st. applyVisibleSubmission ct st s) (filter (submission_visible ct) subs) st)
       \<lparr>st_hiddenAttempts := h + of_nat (length (filter (\<lambda>s. \<not> submission_visible ct s) subs))\<rparr>"
proof (induction subs arbitrary: st h)
  case Nil
  then show ?case by simp
next
  case (Cons s subs)
  have "applyVisibleSubmission ct (st\<lparr>st_hiddenAttempts := h\<rparr>) s
      = (applyVisibleSubmission ct st s)\<lparr>st_hiddenAttempts := h\<rparr>"
    by (simp add: applyVisibleSubmission_def)
  with Cons [where h = h] Cons [where h = "h + 1"] show ?case
    by (simp add: apply_submission_def ac_simps)
qed

lemma fold_apply_frozen:
  "fold (apply_submission ct ScoreboardViewFrozen) subs empty_cell_state =
     (icpc_state ct (filter (submission_visible ct) subs))
       \<lparr>st_hiddenAttempts := of_nat (length (filter (\<lambda>s. \<not> submission_visible ct s) subs))\<rparr>"
  using fold_apply_frozen_hidden [where ct = ct and subs = subs and st = empty_cell_state and h = 0]
  by (simp add: fold_visible) (simp add: empty_cell_state_def)

text \<open>
  The frozen board shows the ICPC state of the submissions made before the freeze and judged by
  then, and of the others only their number.
\<close>

theorem board_cell_frozen:
  "collect_states ct ScoreboardViewFrozen (sort_by submission_order subs) Map.empty (u, p) =
     (if own_submissions u p subs = [] then None
      else Some ((icpc_state ct (filter (submission_visible ct) (own_submissions u p subs)))
        \<lparr>st_hiddenAttempts := of_nat (length (filter (\<lambda>s. \<not> submission_visible ct s) (own_submissions u p subs)))\<rparr>))"
  by (simp add: collect_states_lookup Let_def own_submissions_def fold_apply_frozen)

text \<open>
  C15: the frozen board leaks no verdict. Replacing the verdicts of the submissions hidden by the freeze
  by any others leaves the whole board unchanged: every row, cell, count and rank.
\<close>

theorem frozen_board_hides_verdicts:
  "buildBoardFromSubmissions ct ScoreboardViewFrozen problems regs
     (map (\<lambda>s. if submission_visible ct s then s else s\<lparr>cs_Status := verdict s\<rparr>) subs) now
   = buildBoardFromSubmissions ct ScoreboardViewFrozen problems regs subs now"
proof -
  let ?f = "\<lambda>s. if submission_visible ct s then s else s\<lparr>cs_Status := verdict s\<rparr>"
  have vis [simp]: "submission_visible ct (s\<lparr>cs_Status := v\<rparr>) = submission_visible ct s" for s v
    by (cases "cs_FirstJudgedAt s") (simp_all add: submission_visible_def)
  have sorted: "sort_by submission_order (map ?f subs) = map ?f (sort_by submission_order subs)"
    by (rule submission_sort.sort_by_map) (simp add: submission_order_def)
  have "collect_states ct ScoreboardViewFrozen (map ?f xs) st = collect_states ct ScoreboardViewFrozen xs st" for xs st
  proof (induction xs arbitrary: st)
    case (Cons x xs)
    have "apply_submission ct ScoreboardViewFrozen (?f x) s = apply_submission ct ScoreboardViewFrozen x s" for s
      by (simp add: apply_submission_def)
    moreover have "cs_UserID (?f x) = cs_UserID x" "cs_ProblemID (?f x) = cs_ProblemID x" by simp_all
    ultimately show ?case using Cons by (simp only: list.map collect_states.simps Let_def)
  qed simp
  then show ?thesis unfolding buildBoardFromSubmissions_def sorted by simp
qed

subsection \<open>Views\<close>

text \<open>
  The view chosen when none is requested is always one the viewer may see, and without the
  privilege to see results it is the only one of the live and final views on offer: after the freeze
  and before the end neither is granted.
\<close>

theorem default_view_allowed:
  assumes "ct_FreezeAt ct \<le> ct_EndAt ct"
  shows "canViewScoreboard now a ct (defaultScoreboardView now ct []) = Inr ()
         \<and> (\<not> canViewContestResults a ct \<and> ct_FreezeAt ct \<le> now \<and> now < ct_EndAt ct \<longrightarrow>
              canViewScoreboard now a ct ScoreboardViewLive \<noteq> Inr ()
              \<and> canViewScoreboard now a ct ScoreboardViewFinal \<noteq> Inr ()
              \<and> defaultScoreboardView now ct [] = ScoreboardViewFrozen)"
  using assms by (auto simp: canViewScoreboard_def defaultScoreboardView_def)

theorem default_view_allowed_witness:
  "canViewScoreboard (250 * Minute) (Anonymous ''r'') sample_contest
       (defaultScoreboardView (250 * Minute) sample_contest []) = Inr ()
   \<and> defaultScoreboardView (250 * Minute) sample_contest [] = ScoreboardViewFrozen"
proof -
  have "ct_FreezeAt sample_contest \<le> ct_EndAt sample_contest" by (simp add: sample_contest_def)
  moreover have "\<not> canViewContestResults (Anonymous ''r'') sample_contest" by code_simp
  moreover have "ct_FreezeAt sample_contest \<le> 250 * Minute \<and> 250 * Minute < ct_EndAt sample_contest"
    by (simp add: sample_contest_def)
  ultimately show ?thesis
    using default_view_allowed [of sample_contest "250 * Minute" "Anonymous ''r''"] by blast
qed

end
