(* ===== verification/Contest_Projection.thy ===== *)
theory Contest_Projection
  imports Scoreboard_Rules
begin

section \<open>The contest projection (\<^verbatim>\<open>internal/submission/contest_projection_repository.go\<close>)\<close>

text \<open>
  The result of a user on a problem, recomputed from the judged submissions each time one of them is
  judged, and its agreement with the board built from the submissions.
\<close>

subsection \<open>Data\<close>

record contest_projection_submission =
  ps_ID :: int64
  ps_Status :: string
  ps_SubmittedAt :: time
  ps_AttemptID :: "int64 option"

record contest_problem_projection =
  pj_Status :: string
  pj_Attempts :: int32
  pj_AcceptedAt :: "time option"
  pj_PenaltyMinutes :: int32
  pj_LastSubmissionID :: "int64 option"
  pj_BestSubmissionID :: "int64 option"
  pj_BestAttemptID :: "int64 option"
  pj_LastAttemptID :: "int64 option"

definition empty_projection :: contest_problem_projection where
  "empty_projection = \<lparr>pj_Status = ''none'', pj_Attempts = 0, pj_AcceptedAt = None, pj_PenaltyMinutes = 0,
     pj_LastSubmissionID = None, pj_BestSubmissionID = None, pj_BestAttemptID = None, pj_LastAttemptID = None\<rparr>"

subsection \<open>The projection\<close>

definition projection_order :: "contest_projection_submission \<Rightarrow> contest_projection_submission \<Rightarrow> bool" where
  "projection_order a b =
     (if ps_SubmittedAt a = ps_SubmittedAt b then ps_ID a < ps_ID b
      else ps_SubmittedAt a < ps_SubmittedAt b)"

text \<open>The loop over the ordered submissions; it stops at the first accepted one.\<close>

fun project ::
  "time \<Rightarrow> contest_problem_projection \<Rightarrow> contest_projection_submission list \<Rightarrow> contest_problem_projection" where
  "project contestStart projection [] = projection"
| "project contestStart projection (s # ss) =
     (let p = projection\<lparr>pj_Status := ''attempted'', pj_Attempts := pj_Attempts projection + 1,
                          pj_LastSubmissionID := Some (ps_ID s), pj_LastAttemptID := ps_AttemptID s\<rparr>
      in if ps_Status s \<noteq> ''accepted'' then project contestStart p ss
         else p\<lparr>pj_Status := ''accepted'', pj_AcceptedAt := Some (ps_SubmittedAt s),
                pj_PenaltyMinutes := int32_minutes (time_Sub (ps_SubmittedAt s) contestStart)
                                       + (pj_Attempts p - 1) * 20,
                pj_BestSubmissionID := Some (ps_ID s), pj_BestAttemptID := ps_AttemptID s\<rparr>)"

definition buildContestProblemProjection ::
  "time \<Rightarrow> contest_projection_submission list \<Rightarrow> contest_problem_projection" where
  "buildContestProblemProjection contestStart submissions =
     project contestStart empty_projection (sort_by projection_order submissions)"

lemma projection_order_key:
  "projection_order a b \<longleftrightarrow> (ps_SubmittedAt a, ps_ID a) < (ps_SubmittedAt b, ps_ID b)"
  by (simp add: projection_order_def key_simps del: less_prod_simp)

interpretation projection_sort: strict_weak_order projection_order
  by unfold_locales (auto simp: projection_order_key)

text \<open>
  The projection does not depend on the order in which the store lists the submissions: their
  identifiers break every tie.
\<close>

lemma buildContestProblemProjection_order:
  assumes "mset xs = mset ys" and "distinct (map ps_ID xs)"
  shows "buildContestProblemProjection t xs = buildContestProblemProjection t ys"
proof -
  have "sort_by projection_order ys = sort_by projection_order xs"
  proof (rule projection_sort.sort_by_unique)
    show "projection_sort.ordered (sort_by projection_order xs)" by (rule projection_sort.ordered_sort_by)
    show "projection_order x y \<or> projection_order y x" if "x \<in> set ys" "y \<in> set ys" "x \<noteq> y" for x y
    proof -
      have "x \<in> set xs" "y \<in> set xs" using that assms(1) by (metis set_mset_mset)+
      with assms(2) that(3) have "ps_ID x \<noteq> ps_ID y" by (auto simp: distinct_map inj_on_def)
      then show ?thesis by (auto simp: projection_order_def)
    qed
  qed (use assms(1) in simp)
  then show ?thesis by (simp add: buildContestProblemProjection_def)
qed

subsection \<open>The projection agrees with the board built from submissions\<close>

text \<open>The projection reads fewer columns of a submission than the board does.\<close>

definition projected :: "(int64 \<Rightarrow> int64 option) \<Rightarrow> contest_submission_result \<Rightarrow> contest_projection_submission" where
  "projected attempt_of s =
     \<lparr>ps_ID = cs_ID s, ps_Status = cs_Status s, ps_SubmittedAt = cs_SubmittedAt s, ps_AttemptID = attempt_of (cs_ID s)\<rparr>"

text \<open>The row stored for a user and a problem.\<close>

definition projection_result ::
  "int64 \<Rightarrow> int64 \<Rightarrow> int64 \<Rightarrow> time \<Rightarrow> contest_problem_projection \<Rightarrow> contest_problem_result" where
  "projection_result contestID userID problemID now p =
     \<lparr>cpr_ContestID = contestID, cpr_UserID = userID, cpr_ProblemID = problemID, cpr_Status = pj_Status p,
      cpr_Attempts = pj_Attempts p, cpr_AcceptedAt = pj_AcceptedAt p, cpr_PenaltyMinutes = pj_PenaltyMinutes p,
      cpr_LastSubmissionID = pj_LastSubmissionID p, cpr_UpdatedAt = now\<rparr>"

lemma project_from:
  "project t p0 (map (projected att) subs) =
     (case List.find is_accepted subs of
        None \<Rightarrow> if subs = [] then p0
                else p0\<lparr>pj_Status := ''attempted'', pj_Attempts := pj_Attempts p0 + of_nat (length subs),
                        pj_LastSubmissionID := Some (cs_ID (last subs)),
                        pj_LastAttemptID := att (cs_ID (last subs))\<rparr>
      | Some s \<Rightarrow>
          p0\<lparr>pj_Status := ''accepted'',
             pj_Attempts := pj_Attempts p0 + of_nat (length (takeWhile (\<lambda>s. \<not> is_accepted s) subs)) + 1,
             pj_AcceptedAt := Some (cs_SubmittedAt s),
             pj_PenaltyMinutes := int32_minutes (time_Sub (cs_SubmittedAt s) t)
               + (pj_Attempts p0 + of_nat (length (takeWhile (\<lambda>s. \<not> is_accepted s) subs))) * 20,
             pj_LastSubmissionID := Some (cs_ID s), pj_LastAttemptID := att (cs_ID s),
             pj_BestSubmissionID := Some (cs_ID s), pj_BestAttemptID := att (cs_ID s)\<rparr>)"
  by (induction subs arbitrary: p0)
    (auto simp: projected_def is_accepted_def Let_def ac_simps split: option.splits)

lemma sort_projected:
  "sort_by projection_order (map (projected att) subs) = map (projected att) (sort_by submission_order subs)"
proof (induction subs)
  case (Cons s subs)
  have "insert_by projection_order (projected att s) (map (projected att) ys)
      = map (projected att) (insert_by submission_order s ys)" for ys
    by (induction ys) (auto simp: projection_order_def submission_order_def projected_def)
  with Cons show ?case by simp
qed simp

lemma small_count:
  "n < 2 ^ 31 \<Longrightarrow> 0 < n \<Longrightarrow> sint (of_nat n :: int32) > 0"
  by (simp add: sint_uint unsigned_of_nat take_bit_nat_eq_self signed_take_bit_int_eq_self)

text \<open>
  The one field the boards differ in: the last submission of a cell that is not accepted. The
  submission of an accepted cell is kept.
\<close>

definition forget_last :: "scoreboard_cell \<Rightarrow> scoreboard_cell" where
  "forget_last c = (if cell_Status c = CellAccepted then c else c\<lparr>cell_LastSubmissionID := None\<rparr>)"

lemma icpc_cell_projected:
  assumes "length own < 2 ^ 31" and "own \<noteq> []" and "view \<noteq> ScoreboardViewFrozen"
    and r: "r = projection_result cid u p now (project (ct_StartAt ct) empty_projection (map (projected att) own))"
  shows "map_prod forget_last (\<lambda>x. x) (submission_cell (empty_cell pb) (Some (icpc_state ct own)))
         = map_prod forget_last (\<lambda>x. x) (result_cell ct view (empty_cell pb) (Some r))"
proof -
  let ?wrong = "takeWhile (\<lambda>s. \<not> is_accepted s) own"
  have len: "length ?wrong < 2 ^ 31" using assms(1) length_takeWhile_le le_less_trans by blast
  show ?thesis
  proof (cases "List.find is_accepted own")
    case None
    then have "takeWhile (\<lambda>s. \<not> is_accepted s) own = own" by (auto simp: find_None_iff)
    then have "length ?wrong = length own" by (rule arg_cong)
    with None assms small_count [of "length own"] show ?thesis
      by (simp add: r project_from icpc_state_def submission_cell_def result_cell_def projection_result_def
          applyResultToCell_def empty_cell_def empty_cell_state_def empty_projection_def forget_last_def Let_def)
  next
    case (Some s)
    then have "length ?wrong \<noteq> length own"
      by (metis find_None_iff option.distinct(1) takeWhile_eq_all_conv takeWhile_eq_take take_all le_refl)
    then have "Suc (length ?wrong) < 2 ^ 31"
      using assms(1) length_takeWhile_le [of "\<lambda>s. \<not> is_accepted s" own] by linarith
    then have "sint (of_nat (length ?wrong) + 1 :: int32) > 0"
      using small_count [of "Suc (length ?wrong)"] by (simp add: add.commute)
    with Some assms(3) show ?thesis
      by (simp add: r project_from icpc_state_def submission_cell_def result_cell_def projection_result_def
          applyResultToCell_def empty_cell_def empty_cell_state_def empty_projection_def forget_last_def Let_def)
  qed
qed

definition forget_last_row :: "scoreboard_row \<Rightarrow> scoreboard_row" where
  "forget_last_row row = row\<lparr>row_Cells := map forget_last (row_Cells row)\<rparr>"

text \<open>
  The table of projected results is up to date when it holds, for every user and problem with a judged
  submission in the contest, the projection of those submissions, and nothing else.
\<close>

definition results_projected ::
  "contest_record \<Rightarrow> (int64 \<Rightarrow> int64 option) \<Rightarrow> time \<Rightarrow> contest_submission_result list
   \<Rightarrow> contest_problem_result list \<Rightarrow> bool" where
  "results_projected ct att at subs results \<longleftrightarrow>
     (\<forall>u p. let own = filter (\<lambda>s. cs_UserID s = u \<and> cs_ProblemID s = p) subs in
        result_for results u p =
          (if own = [] then None
           else Some (projection_result (ct_ID ct) u p at
                       (buildContestProblemProjection (ct_StartAt ct) (map (projected att) own)))))"

lemma own_submissions_filter:
  "own_submissions u p subs = sort_by submission_order (filter (\<lambda>s. cs_UserID s = u \<and> cs_ProblemID s = p) subs)"
  by (simp add: own_submissions_def submission_sort.sort_by_filter)

lemma fill_row_cong:
  assumes "\<And>c. c \<in> set (row_Cells row) \<Longrightarrow>
             map_prod forget_last (\<lambda>x. x) (f c) = map_prod forget_last (\<lambda>x. x) (g c)"
  shows "forget_last_row (fill_row f row) = forget_last_row (fill_row g row)"
proof -
  have "forget_last (fst (f c)) = forget_last (fst (g c)) \<and> snd (f c) = snd (g c)" if "c \<in> set (row_Cells row)" for c
    using assms [OF that] by (cases "f c"; cases "g c") simp
  then show ?thesis by (simp add: forget_last_row_def fill_row_def cong: fold_cong)
qed

lemma rankRows_forget: "map forget_last_row (rankRows rows) = rankRows (map forget_last_row rows)"
proof -
  have less: "row_less (forget_last_row a) (forget_last_row b) = row_less a b" for a b
    by (simp add: row_less_def forget_last_row_def)
  have rank: "competition_rank (map forget_last_row rows) (forget_last_row r) = competition_rank rows r" for r
    by (simp add: competition_rank_def filter_map comp_def score_key_def forget_last_row_def)
  have upd: "forget_last_row (r\<lparr>row_Rank := k\<rparr>) = (forget_last_row r)\<lparr>row_Rank := k\<rparr>" for r k
    by (simp add: forget_last_row_def)
  show ?thesis
    by (simp add: rankRows_eq row_sort.sort_by_map less rank upd comp_def)
qed

lemma projected_cell:
  assumes "results_projected ct att at subs results" and "length subs < 2 ^ 31" and "view \<noteq> ScoreboardViewFrozen"
  shows "map_prod forget_last (\<lambda>x. x) (result_cell ct view (empty_cell pb) (result_for results u (cb_ProblemID pb)))
         = map_prod forget_last (\<lambda>x. x) (submission_cell (empty_cell pb)
             (collect_states ct view (sort_by submission_order subs) Map.empty (u, cb_ProblemID pb)))"
proof -
  let ?p = "cb_ProblemID pb"
  let ?own = "filter (\<lambda>s. cs_UserID s = u \<and> cs_ProblemID s = ?p) subs"
  have state: "collect_states ct view (sort_by submission_order subs) Map.empty (u, ?p)
      = (if ?own = [] then None else Some (icpc_state ct (sort_by submission_order ?own)))"
    using assms(3) by (simp add: collect_states_lookup Let_def fold_apply_live fold_visible
        submission_sort.sort_by_filter [symmetric]) (metis length_0_conv length_sort_by)
  have result: "result_for results u ?p =
      (if ?own = [] then None else Some (projection_result (ct_ID ct) u ?p at
         (project (ct_StartAt ct) empty_projection (map (projected att) (sort_by submission_order ?own)))))"
    using assms(1) unfolding results_projected_def Let_def
    by (simp add: buildContestProblemProjection_def sort_projected)
  show ?thesis
  proof (cases "?own = []")
    case True
    then show ?thesis by (simp only: state result if_True) (simp add: submission_cell_def result_cell_def)
  next
    case False
    have len: "length (sort_by submission_order ?own) < 2 ^ 31"
      unfolding length_sort_by using assms(2) length_filter_le le_less_trans by blast
    have ne: "sort_by submission_order ?own \<noteq> []"
      using False by (metis length_0_conv length_sort_by)
    show ?thesis
      unfolding state result if_not_P [OF False]
      by (rule icpc_cell_projected [OF len ne assms(3) refl, symmetric])
  qed
qed


lemma sample_results_projected:
  "results_projected sample_contest (\<lambda>i. None) 0 [sample_submission 2 ''accepted'' (30 * Minute)]
     [projection_result 7 1 10 0 (buildContestProblemProjection 0
        [projected (\<lambda>i. None) (sample_submission 2 ''accepted'' (30 * Minute))])]"
  by (auto simp: results_projected_def result_for_def sample_submission_def sample_contest_def
      projection_result_def Let_def)


end
