(* ===== verification/Judge_Events.thy ===== *)
theory Judge_Events
  imports Apperror
begin

section \<open>Verdicts, results and the wire events (\<^verbatim>\<open>internal/judge\<close>, \<^verbatim>\<open>internal/judge/events\<close>)\<close>

text \<open>
  The verdict strings, the result of judging (\<^verbatim>\<open>judge.Result\<close>), the four event types that travel on the
  Redis streams with their \<^verbatim>\<open>Validate\<close> methods, and the normalisation of verdicts and results. A verdict
  is a Go string type, so any string can arrive and the unknown ones are an error branch.
\<close>

subsection \<open>\<^verbatim>\<open>judge.go\<close>\<close>

type_synonym Verdict = string

abbreviation EngineSOJAgent :: string where "EngineSOJAgent \<equiv> ''soj-agent''"

abbreviation VerdictAccepted :: Verdict where "VerdictAccepted \<equiv> ''accepted''"
abbreviation VerdictWrongAnswer :: Verdict where "VerdictWrongAnswer \<equiv> ''wrong_answer''"
abbreviation VerdictTimeLimitExceeded :: Verdict where "VerdictTimeLimitExceeded \<equiv> ''time_limit_exceeded''"
abbreviation VerdictMemoryLimitExceeded :: Verdict where
  "VerdictMemoryLimitExceeded \<equiv> ''memory_limit_exceeded''"
abbreviation VerdictTimeLimit :: Verdict where "VerdictTimeLimit \<equiv> ''time_limit''"
abbreviation VerdictMemoryLimit :: Verdict where "VerdictMemoryLimit \<equiv> ''memory_limit''"
abbreviation VerdictOutputLimit :: Verdict where "VerdictOutputLimit \<equiv> ''output_limit''"
abbreviation VerdictRuntimeError :: Verdict where "VerdictRuntimeError \<equiv> ''runtime_error''"
abbreviation VerdictCompileError :: Verdict where "VerdictCompileError \<equiv> ''compile_error''"
abbreviation VerdictSystemError :: Verdict where "VerdictSystemError \<equiv> ''system_error''"
abbreviation VerdictCanceled :: Verdict where "VerdictCanceled \<equiv> ''canceled''"

record judge_case_result =
  jc_Index :: int
  jc_GroupName :: string
  jc_TestcaseKey :: string
  jc_Verdict :: Verdict
  jc_Score :: int32
  jc_TimeMS :: int
  jc_MemoryKB :: int
  jc_ExitCode :: "int32 option"
  jc_Signal :: string
  jc_CheckerMessage :: string
  jc_OutputDiffSummary :: string

record judge_manifest =
  jm_JudgeCoreVersion :: string
  jm_JudgeAgentID :: string
  jm_LanguageRuntime :: string
  jm_SandboxBackend :: string
  jm_SandboxProfile :: string
  jm_TestcaseSetHash :: string
  jm_CheckerHash :: string
  jm_ValidatorHash :: string
  jm_TraceID :: string
  jm_Raw :: "(string \<times> string) list"

record judge_result =
  jr_Verdict :: Verdict
  jr_TimeMS :: int
  jr_MemoryKB :: int
  jr_Stdout :: string
  jr_Stderr :: string
  jr_CompileOutput :: string
  jr_ErrorMessage :: string
  jr_Cases :: "judge_case_result list"
  jr_Manifest :: judge_manifest
  jr_JudgedAt :: time

text \<open>Go's zero values: a composite literal that names some fields leaves the others zero.\<close>

definition empty_manifest :: judge_manifest where
  "empty_manifest = \<lparr>jm_JudgeCoreVersion = [], jm_JudgeAgentID = [], jm_LanguageRuntime = [],
     jm_SandboxBackend = [], jm_SandboxProfile = [], jm_TestcaseSetHash = [], jm_CheckerHash = [],
     jm_ValidatorHash = [], jm_TraceID = [], jm_Raw = []\<rparr>"

definition empty_result :: judge_result where
  "empty_result = \<lparr>jr_Verdict = [], jr_TimeMS = 0, jr_MemoryKB = 0, jr_Stdout = [], jr_Stderr = [],
     jr_CompileOutput = [], jr_ErrorMessage = [], jr_Cases = [], jr_Manifest = empty_manifest, jr_JudgedAt = 0\<rparr>"

record run_request =
  rr_LanguageSlug :: string
  rr_Source :: string
  rr_Stdin :: string
  rr_Timeout :: duration
  rr_MemoryKB :: int64

definition validate_run_request :: "run_request \<Rightarrow> unit res" where
  "validate_run_request r =
     (if rr_LanguageSlug r = [] then Inl (ErrText ''language is required'')
      else if rr_Source r = [] then Inl (ErrText ''source is required'')
      else Inr ())"

subsection \<open>\<^verbatim>\<open>events.go\<close>: the events\<close>

abbreviation RequestEventType :: string where "RequestEventType \<equiv> ''judge.request.v2''"
abbreviation ProgressEventType :: string where "ProgressEventType \<equiv> ''judge.progress.v1''"
abbreviation ResultEventType :: string where "ResultEventType \<equiv> ''judge.result.v1''"
abbreviation DeadLetterEventType :: string where "DeadLetterEventType \<equiv> ''judge.dead_letter.v1''"
abbreviation PriorityFormal :: string where "PriorityFormal \<equiv> ''formal''"
abbreviation PriorityScratch :: string where "PriorityScratch \<equiv> ''scratch''"

record artifact_ref =
  ar_ID :: int64
  ar_StorageKey :: string
  ar_ContentHash :: string

record testcase_set_ref =
  tr_ID :: int64
  tr_ChecksumSHA256 :: string
  tr_StorageKey :: string
  tr_CaseCount :: int32
  tr_TimeLimitMS :: int64
  tr_MemoryKB :: int64

definition empty_testcase_set_ref :: testcase_set_ref where
  "empty_testcase_set_ref = \<lparr>tr_ID = 0, tr_ChecksumSHA256 = [], tr_StorageKey = [], tr_CaseCount = 0,
     tr_TimeLimitMS = 0, tr_MemoryKB = 0\<rparr>"

record trace_context =
  Traceparent :: string
  Tracestate :: string

definition trace_Empty :: "trace_context \<Rightarrow> bool" where
  "trace_Empty c \<longleftrightarrow> Traceparent c = [] \<and> Tracestate c = []"

record request_event =
  re_ProtocolVersion :: string
  re_EventID :: string
  re_AttemptID :: string
  re_TraceID :: string
  re_TraceContext :: trace_context
  re_SubmissionID :: int64
  re_RunID :: int64
  re_LanguageSlug :: string
  re_SourceArtifact :: artifact_ref
  re_TestcaseSet :: testcase_set_ref
  re_Stdin :: string
  re_TimeoutMS :: int64
  re_MemoryKB :: int64
  re_Priority :: string
  re_CreatedAt :: time

definition validate_request_event :: "request_event \<Rightarrow> unit res" where
  "validate_request_event e =
     (if re_ProtocolVersion e \<noteq> [] \<and> re_ProtocolVersion e \<noteq> RequestEventType
      then Inl (ErrText (''protocol_version must be '' @ RequestEventType))
      else if re_EventID e = [] then Inl (ErrText ''event_id is required'')
      else if re_AttemptID e = [] then Inl (ErrText ''attempt_id is required'')
      else if re_TraceID e = [] then Inl (ErrText ''trace_id is required'')
      else if re_SubmissionID e = 0 \<and> re_RunID e = 0
      then Inl (ErrText ''submission_id or run_id is required'')
      else if re_LanguageSlug e = [] then Inl (ErrText ''language_slug is required'')
      else if ar_ID (re_SourceArtifact e) = 0 then Inl (ErrText ''source_artifact.id is required'')
      else if ar_StorageKey (re_SourceArtifact e) = []
      then Inl (ErrText ''source_artifact.storage_key is required'')
      else if ar_ContentHash (re_SourceArtifact e) = []
      then Inl (ErrText ''source_artifact.content_hash is required'')
      else if re_SubmissionID e \<noteq> 0 then
        (if tr_ID (re_TestcaseSet e) = 0 then Inl (ErrText ''testcase_set.id is required'')
         else if tr_ChecksumSHA256 (re_TestcaseSet e) = []
         then Inl (ErrText ''testcase_set.checksum_sha256 is required'')
         else if tr_StorageKey (re_TestcaseSet e) = []
         then Inl (ErrText ''testcase_set.storage_key is required'')
         else if sint (tr_CaseCount (re_TestcaseSet e)) \<le> 0
         then Inl (ErrText ''testcase_set.case_count must be positive'')
         else Inr ())
      else Inr ())"

definition validateResponseIdentity :: "string \<Rightarrow> string \<Rightarrow> string \<Rightarrow> string \<Rightarrow> unit res" where
  "validateResponseIdentity eventID requestEventID attemptID traceID =
     (if eventID = [] then Inl (ErrText ''event_id is required'')
      else if requestEventID = [] then Inl (ErrText ''request_event_id is required'')
      else if attemptID = [] then Inl (ErrText ''attempt_id is required'')
      else if traceID = [] then Inl (ErrText ''trace_id is required'')
      else Inr ())"

record progress_event =
  pe_ProtocolVersion :: string
  pe_EventID :: string
  pe_RequestEventID :: string
  pe_AttemptID :: string
  pe_TraceID :: string
  pe_TraceContext :: trace_context
  pe_Phase :: string
  pe_CreatedAt :: time

definition validate_progress_event :: "progress_event \<Rightarrow> unit res" where
  "validate_progress_event e =
     (if pe_ProtocolVersion e \<noteq> [] \<and> pe_ProtocolVersion e \<noteq> ProgressEventType
      then Inl (ErrText (''protocol_version must be '' @ ProgressEventType))
      else validateResponseIdentity (pe_EventID e) (pe_RequestEventID e) (pe_AttemptID e) (pe_TraceID e))"

record result_event =
  ve_ProtocolVersion :: string
  ve_EventID :: string
  ve_RequestEventID :: string
  ve_AttemptID :: string
  ve_TraceID :: string
  ve_TraceContext :: trace_context
  ve_Status :: Verdict
  ve_Result :: judge_result
  ve_ErrorClass :: string
  ve_Retryable :: bool
  ve_SafeMessage :: string
  ve_InternalMessage :: string
  ve_JudgedAt :: time

text \<open>\<^verbatim>\<open>%q\<close> of a string without characters that need an escape.\<close>

definition quoted :: "string \<Rightarrow> string" where
  "quoted s = CHR 0x22 # s @ [CHR 0x22]"

definition NormalizeVerdict :: "Verdict \<Rightarrow> Verdict res" where
  "NormalizeVerdict verdict =
     (if verdict \<in> {VerdictAccepted, VerdictWrongAnswer, VerdictCompileError, VerdictRuntimeError,
                    VerdictTimeLimit, VerdictMemoryLimit, VerdictOutputLimit, VerdictSystemError,
                    VerdictCanceled}
      then Inr verdict
      else if verdict = VerdictTimeLimitExceeded then Inr VerdictTimeLimit
      else if verdict = VerdictMemoryLimitExceeded then Inr VerdictMemoryLimit
      else Inl (ErrText (''unknown verdict '' @ quoted verdict)))"

text \<open>\<^verbatim>\<open>fmt.Errorf("prefix: %w", err)\<close> on the text errors of this package.\<close>

fun wrap_err :: "string \<Rightarrow> go_error \<Rightarrow> go_error" where
  "wrap_err p (ErrText t) = ErrText (p @ t)"
| "wrap_err p e = e"

definition validate_result_event :: "result_event \<Rightarrow> unit res" where
  "validate_result_event e =
     (if ve_ProtocolVersion e \<noteq> [] \<and> ve_ProtocolVersion e \<noteq> ResultEventType
      then Inl (ErrText (''protocol_version must be '' @ ResultEventType))
      else bind_res
        (validateResponseIdentity (ve_EventID e) (ve_RequestEventID e) (ve_AttemptID e) (ve_TraceID e))
        (\<lambda>_. case NormalizeVerdict (ve_Status e) of
               Inl err \<Rightarrow> Inl (wrap_err ''status: '' err)
             | Inr _ \<Rightarrow> Inr ()))"

record dead_letter_event =
  de_ProtocolVersion :: string
  de_EventID :: string
  de_RequestEventID :: string
  de_AttemptID :: string
  de_TraceID :: string
  de_TraceContext :: trace_context
  de_ErrorClass :: string
  de_SafeMessage :: string
  de_InternalMessage :: string
  de_CreatedAt :: time

definition validate_dead_letter_event :: "dead_letter_event \<Rightarrow> unit res" where
  "validate_dead_letter_event e =
     (if de_ProtocolVersion e \<noteq> [] \<and> de_ProtocolVersion e \<noteq> DeadLetterEventType
      then Inl (ErrText (''protocol_version must be '' @ DeadLetterEventType))
      else bind_res
        (validateResponseIdentity (de_EventID e) (de_RequestEventID e) (de_AttemptID e) (de_TraceID e))
        (\<lambda>_. if de_ErrorClass e = [] then Inl (ErrText ''error_class is required'')
             else if de_SafeMessage e = [] then Inl (ErrText ''safe_message is required'')
             else Inr ()))"

text \<open>The loop of \<^verbatim>\<open>NormalizeResult\<close> over the cases, stopping at the first unknown verdict.\<close>

fun normalize_cases :: "judge_case_result list \<Rightarrow> judge_case_result list res" where
  "normalize_cases [] = Inr []"
| "normalize_cases (c # cs) =
     (case NormalizeVerdict (jc_Verdict c) of
        Inl err \<Rightarrow> Inl (wrap_err (''case '' @ FormatInt (jc_Index c) @ '': '') err)
      | Inr v \<Rightarrow> bind_res (normalize_cases cs) (\<lambda>rest. Inr (c\<lparr>jc_Verdict := v\<rparr> # rest)))"

definition NormalizeResult :: "judge_result \<Rightarrow> judge_result res" where
  "NormalizeResult result =
     bind_res (NormalizeVerdict (jr_Verdict result)) (\<lambda>verdict.
     bind_res (normalize_cases (jr_Cases result)) (\<lambda>cases.
       Inr (result\<lparr>jr_Verdict := verdict, jr_Cases := cases\<rparr>)))"

subsection \<open>Facts about normalisation\<close>

definition canonical_verdict :: "Verdict \<Rightarrow> bool" where
  "canonical_verdict v \<longleftrightarrow>
     v \<in> {VerdictAccepted, VerdictWrongAnswer, VerdictCompileError, VerdictRuntimeError,
          VerdictTimeLimit, VerdictMemoryLimit, VerdictOutputLimit, VerdictSystemError, VerdictCanceled}"

definition canonical_result :: "judge_result \<Rightarrow> bool" where
  "canonical_result r \<longleftrightarrow>
     canonical_verdict (jr_Verdict r) \<and> (\<forall>c \<in> set (jr_Cases r). canonical_verdict (jc_Verdict c))"

lemma NormalizeVerdict_canonical: "NormalizeVerdict v = Inr w \<Longrightarrow> canonical_verdict w"
  by (auto simp: NormalizeVerdict_def canonical_verdict_def split: if_splits)

lemma NormalizeVerdict_id: "canonical_verdict v \<Longrightarrow> NormalizeVerdict v = Inr v"
  by (simp add: NormalizeVerdict_def canonical_verdict_def)

lemma NormalizeVerdict_accepted: "NormalizeVerdict v = Inr w \<Longrightarrow> w = VerdictAccepted \<longleftrightarrow> v = VerdictAccepted"
  by (auto simp: NormalizeVerdict_def split: if_splits)

lemma normalize_cases_canonical:
  "normalize_cases cs = Inr ds \<Longrightarrow> \<forall>d \<in> set ds. canonical_verdict (jc_Verdict d)"
proof (induction cs arbitrary: ds)
  case Nil
  then show ?case by simp
next
  case (Cons c cs)
  then obtain v rest where v: "NormalizeVerdict (jc_Verdict c) = Inr v"
    and rest: "normalize_cases cs = Inr rest" and ds: "ds = c\<lparr>jc_Verdict := v\<rparr> # rest"
    by (auto split: sum.splits)
  from NormalizeVerdict_canonical [OF v] Cons.IH [OF rest] ds show ?case by simp
qed

lemma normalize_cases_id:
  "\<forall>c \<in> set cs. canonical_verdict (jc_Verdict c) \<Longrightarrow> normalize_cases cs = Inr cs"
  by (induction cs) (auto simp: NormalizeVerdict_id)

lemma normalize_cases_frame:
  "normalize_cases cs = Inr ds \<Longrightarrow>
     map (\<lambda>c. c\<lparr>jc_Verdict := []\<rparr>) ds = map (\<lambda>c. c\<lparr>jc_Verdict := []\<rparr>) cs"
  by (induction cs arbitrary: ds) (auto split: sum.splits)

lemma NormalizeResult_canonical: "NormalizeResult r = Inr s \<Longrightarrow> canonical_result s"
  by (auto simp: NormalizeResult_def canonical_result_def
      dest: NormalizeVerdict_canonical normalize_cases_canonical)

lemma NormalizeResult_id: "canonical_result r \<Longrightarrow> NormalizeResult r = Inr r"
  by (simp add: NormalizeResult_def canonical_result_def NormalizeVerdict_id normalize_cases_id)

text \<open>
  Normalising a result yields one of the nine stored verdicts everywhere, changes nothing but
  verdict spellings, keeps accepted results accepted and others not, and is idempotent.
\<close>

theorem NormalizeResult_roundtrip:
  assumes "NormalizeResult r = Inr s"
  shows "canonical_result s \<and> NormalizeResult s = Inr s
     \<and> (jr_Verdict s = VerdictAccepted \<longleftrightarrow> jr_Verdict r = VerdictAccepted)
     \<and> s\<lparr>jr_Verdict := [], jr_Cases := []\<rparr> = r\<lparr>jr_Verdict := [], jr_Cases := []\<rparr>
     \<and> map (\<lambda>c. c\<lparr>jc_Verdict := []\<rparr>) (jr_Cases s) = map (\<lambda>c. c\<lparr>jc_Verdict := []\<rparr>) (jr_Cases r)"
proof -
  from assms obtain v cs where v: "NormalizeVerdict (jr_Verdict r) = Inr v"
    and cs: "normalize_cases (jr_Cases r) = Inr cs" and s: "s = r\<lparr>jr_Verdict := v, jr_Cases := cs\<rparr>"
    by (auto simp: NormalizeResult_def)
  have can: "canonical_result s" by (rule NormalizeResult_canonical [OF assms])
  with NormalizeVerdict_accepted [OF v] normalize_cases_frame [OF cs] s NormalizeResult_id [OF can]
  show ?thesis by simp
qed

theorem NormalizeResult_roundtrip_witness:
  "\<exists>s. NormalizeResult (empty_result\<lparr>jr_Verdict := VerdictTimeLimitExceeded\<rparr>) = Inr s
     \<and> jr_Verdict s = VerdictTimeLimit \<and> NormalizeResult s = Inr s"
proof -
  have n: "NormalizeResult (empty_result\<lparr>jr_Verdict := VerdictTimeLimitExceeded\<rparr>)
      = Inr (empty_result\<lparr>jr_Verdict := VerdictTimeLimit\<rparr>)"
    by (simp add: NormalizeResult_def NormalizeVerdict_def empty_result_def)
  with NormalizeResult_roundtrip [OF n] show ?thesis by simp
qed

end
