(* ===== verification/Database.thy ===== *)
theory Database
  imports Transactions Contest_Projection Judge_Events
begin

section \<open>The database: tables and queries\<close>

text \<open>
  The PostgreSQL tables behind judging, as lists of rows, and the queries the repositories run on them
  (\<^verbatim>\<open>internal/postgres/db/submissions.sql.go\<close>, \<^verbatim>\<open>contests.sql.go\<close>), each with its \<^verbatim>\<open>WHERE\<close> guard, its \<^verbatim>\<open>SET\<close>
  list and the \<^verbatim>\<open>CHECK\<close> and \<^verbatim>\<open>UNIQUE\<close> constraints it can violate. A nullable column is an \<open>option\<close>, which
  is also what the \<^verbatim>\<open>Valid\<close> flag of a \<^verbatim>\<open>pgtype\<close> value and the nil-able pointer of a repository record are,
  so one HOL record stands for the row and for the record made from it.

  Foreign keys are not modelled, since the identifiers written come from rows read before.
\<close>

subsection \<open>Rows (\<^verbatim>\<open>models.go\<close>)\<close>

type_synonym json_object = "(string \<times> string) list"

record submission_row =
  su_ID :: int64
  su_UserID :: int64
  su_ProblemID :: int64
  su_ContestID :: "int64 option"
  su_LanguageID :: int64
  su_TestcaseSetID :: int64
  su_Status :: string
  su_SourceArtifactID :: "int64 option"
  su_TimeMs :: "int32 option"
  su_MemoryKb :: "int32 option"
  su_Score :: int32
  su_ErrorMessage :: "string option"
  su_SubmittedAt :: time
  su_JudgedAt :: "time option"
  su_FirstJudgedAt :: "time option"
  su_UpdatedAt :: time

record judge_task_row =
  ta_ID :: int64
  ta_SubmissionID :: "int64 option"
  ta_RunID :: "int64 option"
  ta_StreamID :: "string option"
  ta_Status :: string
  ta_Attempts :: int32
  ta_NextRunAt :: time
  ta_LastError :: "string option"
  ta_CreatedAt :: time
  ta_UpdatedAt :: time

record judge_attempt_row =
  at_ID :: int64
  at_SubmissionID :: "int64 option"
  at_RunID :: "int64 option"
  at_TaskID :: "int64 option"
  at_RejudgeBatchID :: "int64 option"
  at_AttemptNo :: int32
  at_ProtocolVersion :: string
  at_JudgeCoreVersion :: string
  at_JudgeEngine :: string
  at_JudgeAgentID :: "string option"
  at_LanguageID :: int64
  at_LanguageRuntime :: "string option"
  at_SandboxBackend :: "string option"
  at_SandboxProfile :: "string option"
  at_TestcaseSetID :: "int64 option"
  at_TestcaseSetHash :: "string option"
  at_CheckerHash :: "string option"
  at_ValidatorHash :: "string option"
  at_Status :: string
  at_Verdict :: "string option"
  at_Score :: int32
  at_TimeMs :: "int32 option"
  at_MemoryKb :: "int32 option"
  at_FirstFailedCaseIndex :: "int32 option"
  at_FirstFailedGroup :: "string option"
  at_CompileOutputSummary :: "string option"
  at_StderrSummary :: "string option"
  at_CheckerMessage :: "string option"
  at_ErrorClass :: "string option"
  at_ErrorMessage :: "string option"
  at_Manifest :: json_object
  at_Metrics :: json_object
  at_TraceID :: "string option"
  at_StartedAt :: "time option"
  at_FinishedAt :: "time option"
  at_CreatedAt :: time
  at_UpdatedAt :: time

record case_result_row =
  cx_ID :: int64
  cx_AttemptID :: int64
  cx_CaseIndex :: int32
  cx_GroupName :: "string option"
  cx_TestcaseKey :: "string option"
  cx_Status :: string
  cx_Score :: int32
  cx_TimeMs :: "int32 option"
  cx_MemoryKb :: "int32 option"
  cx_ExitCode :: "int32 option"
  cx_Signal :: "string option"
  cx_CheckerMessage :: "string option"
  cx_OutputDiffSummary :: "string option"
  cx_CreatedAt :: time

text \<open>The JSON of \<^verbatim>\<open>safe_summary\<close> is kept as the structure it is marshalled from.\<close>

record safe_judge_summary =
  ss_Verdict :: string
  ss_TimeMS :: int
  ss_MemoryKB :: int
  ss_CompileOutputSummary :: string
  ss_StderrSummary :: string
  ss_FirstFailedCaseIndex :: "int32 option"
  ss_FirstFailedGroup :: string
  ss_CheckerMessage :: string
  ss_ErrorClass :: string
  ss_ErrorMessage :: string

record submission_result_row =
  sv_SubmissionID :: int64
  sv_AttemptID :: int64
  sv_Status :: string
  sv_Score :: int32
  sv_TimeMs :: "int32 option"
  sv_MemoryKb :: "int32 option"
  sv_FirstFailedCaseIndex :: "int32 option"
  sv_FirstFailedGroup :: "string option"
  sv_ErrorClass :: "string option"
  sv_SafeSummary :: safe_judge_summary
  sv_CreatedAt :: time
  sv_UpdatedAt :: time

record run_row =
  ru_ID :: int64
  ru_UserID :: int64
  ru_ProblemID :: "int64 option"
  ru_LanguageID :: int64
  ru_Status :: string
  ru_SourceArtifactID :: "int64 option"
  ru_Stdin :: "string option"
  ru_Stdout :: "string option"
  ru_Stderr :: "string option"
  ru_CompileOutput :: "string option"
  ru_TimeMs :: "int32 option"
  ru_MemoryKb :: "int32 option"
  ru_ErrorMessage :: "string option"
  ru_CreatedAt :: time
  ru_FinishedAt :: "time option"
  ru_UpdatedAt :: time

record rejudge_batch_row =
  ba_ID :: int64
  ba_ProblemID :: "int64 option"
  ba_ContestID :: "int64 option"
  ba_RequestedBy :: int64
  ba_Status :: string
  ba_Reason :: string
  ba_TotalCount :: int32
  ba_CompletedCount :: int32
  ba_FailedCount :: int32
  ba_CanceledCount :: int32
  ba_ErrorMessage :: "string option"
  ba_StartedAt :: "time option"
  ba_FinishedAt :: "time option"
  ba_CreatedAt :: time
  ba_UpdatedAt :: time

record rejudge_item_row =
  it_ID :: int64
  it_BatchID :: int64
  it_SubmissionID :: int64
  it_TaskID :: int64
  it_AttemptID :: "int64 option"
  it_Status :: string
  it_ErrorMessage :: "string option"
  it_StartedAt :: "time option"
  it_FinishedAt :: "time option"
  it_CreatedAt :: time
  it_UpdatedAt :: time

text \<open>A row of \<^verbatim>\<open>contest_problem_results\<close>: what the scoreboard reads, and three columns it does not.\<close>

record problem_result_row =
  pr_Result :: contest_problem_result
  pr_BestSubmissionID :: "int64 option"
  pr_BestAttemptID :: "int64 option"
  pr_LastAttemptID :: "int64 option"

text \<open>
  The store: the tables, their identity sequences, the database's \<^verbatim>\<open>now()\<close> and the process's
  \<^verbatim>\<open>time.Now()\<close> of the current transaction.
\<close>

record store =
  db_submissions :: "submission_row list"
  db_tasks :: "judge_task_row list"
  db_attempts :: "judge_attempt_row list"
  db_case_results :: "case_result_row list"
  db_submission_results :: "submission_result_row list"
  db_runs :: "run_row list"
  db_batches :: "rejudge_batch_row list"
  db_items :: "rejudge_item_row list"
  db_contests :: "contest_record list"
  db_contest_problems :: "contest_problem list"
  db_registrations :: "contest_registration list"
  db_problem_results :: "problem_result_row list"
  db_users :: "int64 list"
  seq_submissions :: int64
  seq_tasks :: int64
  seq_attempts :: int64
  seq_case_results :: int64
  seq_runs :: int64
  seq_batches :: int64
  seq_items :: int64
  db_now :: time
  go_now :: time

subsection \<open>Putting tables back\<close>

type_synonym 'a tx = "(store, 'a) transaction"

abbreviation put_submissions where "put_submissions rows s \<equiv> s\<lparr>db_submissions := rows\<rparr>"
abbreviation put_tasks where "put_tasks rows s \<equiv> s\<lparr>db_tasks := rows\<rparr>"
abbreviation put_attempts where "put_attempts rows s \<equiv> s\<lparr>db_attempts := rows\<rparr>"
abbreviation put_runs where "put_runs rows s \<equiv> s\<lparr>db_runs := rows\<rparr>"
abbreviation put_batches where "put_batches rows s \<equiv> s\<lparr>db_batches := rows\<rparr>"
abbreviation put_items where "put_items rows s \<equiv> s\<lparr>db_items := rows\<rparr>"
abbreviation put_registrations where "put_registrations rows s \<equiv> s\<lparr>db_registrations := rows\<rparr>"
abbreviation put_contests where "put_contests rows s \<equiv> s\<lparr>db_contests := rows\<rparr>"

subsection \<open>Statuses (\<^verbatim>\<open>internal/submission/service.go\<close>)\<close>

abbreviation StatusQueued :: string where "StatusQueued \<equiv> ''queued''"
abbreviation StatusRunning :: string where "StatusRunning \<equiv> ''running''"
abbreviation StatusSystemErr :: string where "StatusSystemErr \<equiv> ''system_error''"

definition terminalStatus :: "string \<Rightarrow> bool" where
  "terminalStatus status \<longleftrightarrow>
     status \<in> {''accepted'', ''wrong_answer'', ''compile_error'', ''runtime_error'', ''time_limit'',
               ''memory_limit'', ''output_limit'', ''system_error'', ''canceled''}"

definition dbStatus :: "Verdict \<Rightarrow> string" where
  "dbStatus verdict =
     (if verdict = VerdictAccepted then ''accepted''
      else if verdict = VerdictWrongAnswer then ''wrong_answer''
      else if verdict = VerdictCompileError then ''compile_error''
      else if verdict = VerdictRuntimeError then ''runtime_error''
      else if verdict = VerdictTimeLimitExceeded \<or> verdict = VerdictTimeLimit then ''time_limit''
      else if verdict = VerdictMemoryLimitExceeded \<or> verdict = VerdictMemoryLimit then ''memory_limit''
      else if verdict = VerdictOutputLimit then ''output_limit''
      else if verdict = VerdictSystemError then ''system_error''
      else if verdict = VerdictCanceled then ''canceled''
      else StatusSystemErr)"

text \<open>The \<^verbatim>\<open>CHECK\<close> on \<^verbatim>\<open>submissions.status\<close> and \<^verbatim>\<open>runs.status\<close>, on attempts, and on case rows.\<close>

definition subject_status :: "string \<Rightarrow> bool" where
  "subject_status st \<longleftrightarrow> st = ''queued'' \<or> st = ''running'' \<or> terminalStatus st"

definition attempt_status :: "string \<Rightarrow> bool" where
  "attempt_status st \<longleftrightarrow> st \<in> {''created'', ''compiling'', ''running'', ''checking''} \<or> terminalStatus st"

definition case_status :: "string \<Rightarrow> bool" where
  "case_status st \<longleftrightarrow>
     st \<in> {''accepted'', ''wrong_answer'', ''runtime_error'', ''time_limit'', ''memory_limit'',
           ''output_limit'', ''skipped'', ''system_error''}"

definition nonneg4 :: "int32 option \<Rightarrow> bool" where
  "nonneg4 v = (case v of None \<Rightarrow> True | Some x \<Rightarrow> sint x \<ge> 0)"

definition coalesce :: "'a option \<Rightarrow> 'a \<Rightarrow> 'a" where
  "coalesce v d = (case v of None \<Rightarrow> d | Some x \<Rightarrow> x)"

subsection \<open>Submissions\<close>

definition q_GetSubmissionByID :: "int64 \<Rightarrow> submission_row tx" where
  "q_GetSubmissionByID sid = select_row db_submissions (\<lambda>r. su_ID r = sid)"

definition q_LockSubmissionByID :: "int64 \<Rightarrow> submission_row tx" where
  "q_LockSubmissionByID sid = select_row db_submissions (\<lambda>r. su_ID r = sid)"

definition q_CreateSubmission ::
  "int64 \<Rightarrow> int64 \<Rightarrow> int64 option \<Rightarrow> int64 \<Rightarrow> int64 \<Rightarrow> string \<Rightarrow> int64 option \<Rightarrow> submission_row tx" where
  "q_CreateSubmission userID problemID contestID languageID testcaseSetID status artifactID =
     bind_tx (check_tx (subject_status status) ''submissions_status_check'') (\<lambda>_ s.
       let row = \<lparr>su_ID = seq_submissions s, su_UserID = userID, su_ProblemID = problemID, su_ContestID = contestID,
                  su_LanguageID = languageID, su_TestcaseSetID = testcaseSetID, su_Status = status,
                  su_SourceArtifactID = artifactID, su_TimeMs = None, su_MemoryKb = None, su_Score = 0,
                  su_ErrorMessage = None, su_SubmittedAt = db_now s, su_JudgedAt = None,
                  su_FirstJudgedAt = None, su_UpdatedAt = db_now s\<rparr>
       in Inr (row, s\<lparr>db_submissions := db_submissions s @ [row], seq_submissions := seq_submissions s + 1\<rparr>))"

definition judged_now :: "string \<Rightarrow> time option \<Rightarrow> time \<Rightarrow> time option \<Rightarrow> time option" where
  "judged_now status judgedAt now old =
     (if old = None \<and> terminalStatus status then Some (coalesce judgedAt now) else old)"

definition q_UpdateSubmissionStatus ::
  "int64 \<Rightarrow> string \<Rightarrow> int32 option \<Rightarrow> int32 option \<Rightarrow> string option \<Rightarrow> time option \<Rightarrow> submission_row tx" where
  "q_UpdateSubmissionStatus sid status timeMs memoryKb errorMessage judgedAt =
     bind_tx (check_tx (subject_status status \<and> nonneg4 timeMs \<and> nonneg4 memoryKb) ''submissions_check'') (\<lambda>_ s.
       update_row db_submissions put_submissions (\<lambda>r. su_ID r = sid \<and> \<not> terminalStatus (su_Status r))
         (\<lambda>r. r\<lparr>su_Status := status, su_TimeMs := timeMs, su_MemoryKb := memoryKb, su_ErrorMessage := errorMessage,
                su_JudgedAt := judged_now status judgedAt (db_now s) (su_JudgedAt r),
                su_FirstJudgedAt := judged_now status judgedAt (db_now s) (su_FirstJudgedAt r),
                su_UpdatedAt := db_now s\<rparr>) s)"

definition q_MarkSubmissionRunning :: "int64 \<Rightarrow> submission_row tx" where
  "q_MarkSubmissionRunning sid = (\<lambda>s.
     update_row db_submissions put_submissions (\<lambda>r. su_ID r = sid \<and> su_Status r = ''queued'')
       (\<lambda>r. r\<lparr>su_Status := ''running'', su_UpdatedAt := db_now s\<rparr>) s)"

definition q_MarkSubmissionQueued :: "int64 \<Rightarrow> string option \<Rightarrow> submission_row tx" where
  "q_MarkSubmissionQueued sid errorMessage = (\<lambda>s.
     update_row db_submissions put_submissions (\<lambda>r. su_ID r = sid \<and> \<not> terminalStatus (su_Status r))
       (\<lambda>r. r\<lparr>su_Status := ''queued'', su_ErrorMessage := errorMessage, su_UpdatedAt := db_now s\<rparr>) s)"

definition q_MarkSubmissionSystemError :: "int64 \<Rightarrow> string option \<Rightarrow> submission_row tx" where
  "q_MarkSubmissionSystemError sid errorMessage = (\<lambda>s.
     update_row db_submissions put_submissions (\<lambda>r. su_ID r = sid \<and> \<not> terminalStatus (su_Status r))
       (\<lambda>r. r\<lparr>su_Status := ''system_error'', su_ErrorMessage := errorMessage,
              su_JudgedAt := Some (coalesce (su_JudgedAt r) (db_now s)),
              su_FirstJudgedAt := Some (coalesce (su_FirstJudgedAt r) (db_now s)),
              su_UpdatedAt := db_now s\<rparr>) s)"

definition q_PrepareSubmissionForRejudge :: "int64 \<Rightarrow> submission_row tx" where
  "q_PrepareSubmissionForRejudge sid = (\<lambda>s.
     update_row db_submissions put_submissions (\<lambda>r. su_ID r = sid \<and> terminalStatus (su_Status r))
       (\<lambda>r. r\<lparr>su_Status := ''queued'', su_TimeMs := None, su_MemoryKb := None, su_Score := 0,
              su_ErrorMessage := None, su_JudgedAt := None, su_UpdatedAt := db_now s\<rparr>) s)"

text \<open>\<^verbatim>\<open>UPDATE ... FROM submission_results\<close>: \<^verbatim>\<open>submission_id\<close> is the primary key there, so the join is a lookup.\<close>

definition q_RestoreSubmissionAfterCanceledRejudge :: "int64 \<Rightarrow> submission_row tx" where
  "q_RestoreSubmissionAfterCanceledRejudge sid = (\<lambda>s.
     case List.find (\<lambda>v. sv_SubmissionID v = sid) (db_submission_results s) of
       None \<Rightarrow> Inl ErrNoRows
     | Some v \<Rightarrow>
         update_row db_submissions put_submissions (\<lambda>r. su_ID r = sid \<and> su_Status r = ''queued'')
           (\<lambda>r. r\<lparr>su_Status := sv_Status v, su_TimeMs := sv_TimeMs v, su_MemoryKb := sv_MemoryKb v,
                  su_Score := sv_Score v, su_ErrorMessage := None,
                  su_JudgedAt := Some (coalesce (su_JudgedAt r) (sv_UpdatedAt v)), su_UpdatedAt := db_now s\<rparr>) s)"

definition q_GetSubmissionResultBySubmissionID :: "int64 \<Rightarrow> submission_result_row tx" where
  "q_GetSubmissionResultBySubmissionID sid = select_row db_submission_results (\<lambda>r. sv_SubmissionID r = sid)"

definition upsert_submission_result ::
  "time \<Rightarrow> submission_result_row \<Rightarrow> submission_result_row list \<Rightarrow> submission_result_row \<times> submission_result_row list" where
  "upsert_submission_result now row rows =
     (case List.find (\<lambda>v. sv_SubmissionID v = sv_SubmissionID row) rows of
        None \<Rightarrow> (row, rows @ [row])
      | Some old \<Rightarrow>
          (let f = (\<lambda>v. v\<lparr>sv_AttemptID := sv_AttemptID row, sv_Status := sv_Status row, sv_TimeMs := sv_TimeMs row,
                 sv_MemoryKb := sv_MemoryKb row, sv_FirstFailedCaseIndex := sv_FirstFailedCaseIndex row,
                 sv_FirstFailedGroup := sv_FirstFailedGroup row, sv_ErrorClass := sv_ErrorClass row,
                 sv_SafeSummary := sv_SafeSummary row, sv_UpdatedAt := now\<rparr>)
           in (f old, update_rows (\<lambda>v. sv_SubmissionID v = sv_SubmissionID row) f rows)))"

definition q_UpsertSubmissionResult ::
  "int64 \<Rightarrow> int64 \<Rightarrow> string \<Rightarrow> int32 option \<Rightarrow> int32 option \<Rightarrow> int32 option \<Rightarrow> string option \<Rightarrow> string option
   \<Rightarrow> safe_judge_summary \<Rightarrow> submission_result_row tx" where
  "q_UpsertSubmissionResult sid attemptID status timeMs memoryKb firstIndex firstGroup errorClass summary =
     bind_tx (check_tx (terminalStatus status \<and> nonneg4 timeMs \<and> nonneg4 memoryKb) ''submission_results_check'') (\<lambda>_ s.
       let row = \<lparr>sv_SubmissionID = sid, sv_AttemptID = attemptID, sv_Status = status, sv_Score = 0,
                  sv_TimeMs = timeMs, sv_MemoryKb = memoryKb, sv_FirstFailedCaseIndex = firstIndex,
                  sv_FirstFailedGroup = firstGroup, sv_ErrorClass = errorClass, sv_SafeSummary = summary,
                  sv_CreatedAt = db_now s, sv_UpdatedAt = db_now s\<rparr>;
           r = upsert_submission_result (db_now s) row (db_submission_results s)
       in Inr (fst r, s\<lparr>db_submission_results := snd r\<rparr>))"

subsection \<open>Judge tasks\<close>

abbreviation task_in_flight :: "string \<Rightarrow> bool" where
  "task_in_flight st \<equiv> st \<in> {''dispatching'', ''dispatched'', ''running''}"

definition q_GetJudgeTaskByID :: "int64 \<Rightarrow> judge_task_row tx" where
  "q_GetJudgeTaskByID tid = select_row db_tasks (\<lambda>r. ta_ID r = tid)"

definition q_LockJudgeTaskByID :: "int64 \<Rightarrow> judge_task_row tx" where
  "q_LockJudgeTaskByID tid = select_row db_tasks (\<lambda>r. ta_ID r = tid)"

definition q_GetJudgeTaskBySubmissionID :: "int64 option \<Rightarrow> judge_task_row tx" where
  "q_GetJudgeTaskBySubmissionID sid = select_row db_tasks (\<lambda>r. sid \<noteq> None \<and> ta_SubmissionID r = sid)"

definition q_CreateJudgeTask ::
  "int64 option \<Rightarrow> int64 option \<Rightarrow> string \<Rightarrow> time \<Rightarrow> judge_task_row tx" where
  "q_CreateJudgeTask submissionID runID status nextRunAt = (\<lambda>s.
     bind_tx (check_tx (status \<in> {''pending'', ''dispatching'', ''dispatched'', ''running'', ''done'', ''dead''}
         \<and> (submissionID = None) \<noteq> (runID = None)) ''judge_tasks_check'') (\<lambda>_.
     bind_tx (unique_tx (\<forall>t \<in> set (db_tasks s).
           (submissionID = None \<or> ta_SubmissionID t \<noteq> submissionID) \<and> (runID = None \<or> ta_RunID t \<noteq> runID))
         ''judge_tasks_subject_uidx'') (\<lambda>_ s.
       let row = \<lparr>ta_ID = seq_tasks s, ta_SubmissionID = submissionID, ta_RunID = runID, ta_StreamID = None,
                  ta_Status = status, ta_Attempts = 0, ta_NextRunAt = nextRunAt, ta_LastError = None,
                  ta_CreatedAt = db_now s, ta_UpdatedAt = db_now s\<rparr>
       in Inr (row, s\<lparr>db_tasks := db_tasks s @ [row], seq_tasks := seq_tasks s + 1\<rparr>))) s)"

definition task_order :: "judge_task_row \<Rightarrow> judge_task_row \<Rightarrow> bool" where
  "task_order a b = (if ta_NextRunAt a = ta_NextRunAt b then ta_ID a < ta_ID b else ta_NextRunAt a < ta_NextRunAt b)"

text \<open>
  The two claim queries: the due pending tasks of one kind, oldest first, up to the limit, are moved to
  \<^verbatim>\<open>dispatching\<close>. \<^verbatim>\<open>UPDATE ... RETURNING\<close> lists them in table order.
\<close>

definition claim_tasks :: "(judge_task_row \<Rightarrow> bool) \<Rightarrow> int32 \<Rightarrow> judge_task_row list tx" where
  "claim_tasks kind limit_n = (\<lambda>s.
     let due = filter (\<lambda>t. ta_Status t = ''pending'' \<and> ta_NextRunAt t \<le> db_now s \<and> kind t) (db_tasks s);
         claimed = set (map ta_ID (take (nat (sint limit_n)) (sort_by task_order due)));
         P = (\<lambda>t. ta_ID t \<in> claimed \<and> ta_Status t = ''pending'');
         f = (\<lambda>t. t\<lparr>ta_Status := ''dispatching'', ta_UpdatedAt := db_now s\<rparr>)
     in Inr (map f (filter P (db_tasks s)), s\<lparr>db_tasks := update_rows P f (db_tasks s)\<rparr>))"

definition q_ClaimPendingJudgeTasks :: "int32 \<Rightarrow> judge_task_row list tx" where
  "q_ClaimPendingJudgeTasks limit_n = claim_tasks (\<lambda>t. ta_SubmissionID t \<noteq> None) limit_n"

definition q_ClaimPendingRunTasks :: "int32 \<Rightarrow> judge_task_row list tx" where
  "q_ClaimPendingRunTasks limit_n = claim_tasks (\<lambda>t. ta_RunID t \<noteq> None) limit_n"

definition q_UpdateJudgeTaskDispatching :: "int64 \<Rightarrow> judge_task_row tx" where
  "q_UpdateJudgeTaskDispatching tid = (\<lambda>s.
     update_row db_tasks put_tasks (\<lambda>t. ta_ID t = tid \<and> ta_Status t = ''pending'')
       (\<lambda>t. t\<lparr>ta_Status := ''dispatching'', ta_UpdatedAt := db_now s\<rparr>) s)"

definition q_MarkJudgeTaskDispatched :: "int64 \<Rightarrow> string option \<Rightarrow> judge_task_row tx" where
  "q_MarkJudgeTaskDispatched tid streamID = (\<lambda>s.
     update_row db_tasks put_tasks (\<lambda>t. ta_ID t = tid \<and> ta_Status t \<in> {''dispatching'', ''running'', ''done''})
       (\<lambda>t. t\<lparr>ta_Status := (if ta_Status t = ''dispatching'' then ''dispatched'' else ta_Status t),
              ta_StreamID := streamID, ta_UpdatedAt := db_now s\<rparr>) s)"

definition q_MarkJudgeTaskDone :: "int64 \<Rightarrow> judge_task_row tx" where
  "q_MarkJudgeTaskDone tid = (\<lambda>s.
     update_row db_tasks put_tasks (\<lambda>t. ta_ID t = tid \<and> task_in_flight (ta_Status t))
       (\<lambda>t. t\<lparr>ta_Status := ''done'', ta_UpdatedAt := db_now s\<rparr>) s)"

definition q_MarkJudgeTaskRunning :: "int64 \<Rightarrow> judge_task_row tx" where
  "q_MarkJudgeTaskRunning tid = (\<lambda>s.
     update_row db_tasks put_tasks (\<lambda>t. ta_ID t = tid \<and> task_in_flight (ta_Status t))
       (\<lambda>t. t\<lparr>ta_Status := ''running'', ta_UpdatedAt := db_now s\<rparr>) s)"

definition q_MarkJudgeTaskDead :: "int64 \<Rightarrow> string option \<Rightarrow> judge_task_row tx" where
  "q_MarkJudgeTaskDead tid lastError = (\<lambda>s.
     update_row db_tasks put_tasks (\<lambda>t. ta_ID t = tid \<and> task_in_flight (ta_Status t))
       (\<lambda>t. t\<lparr>ta_Status := ''dead'', ta_LastError := lastError, ta_UpdatedAt := db_now s\<rparr>) s)"

definition q_RetryJudgeTask :: "int64 \<Rightarrow> time \<Rightarrow> string option \<Rightarrow> judge_task_row tx" where
  "q_RetryJudgeTask tid nextRunAt lastError = (\<lambda>s.
     update_row db_tasks put_tasks (\<lambda>t. ta_ID t = tid \<and> task_in_flight (ta_Status t))
       (\<lambda>t. t\<lparr>ta_Status := ''pending'', ta_Attempts := ta_Attempts t + 1, ta_NextRunAt := nextRunAt,
              ta_LastError := lastError, ta_UpdatedAt := db_now s\<rparr>) s)"

text \<open>
  The data-modifying \<^verbatim>\<open>WITH\<close> of \<^verbatim>\<open>RecoverDeadJudgeTask\<close>: both parts see the tables as they were before
  the statement.
\<close>

definition q_RecoverDeadJudgeTask :: "int64 \<Rightarrow> time \<Rightarrow> string option \<Rightarrow> judge_task_row tx" where
  "q_RecoverDeadJudgeTask tid nextRunAt lastError = (\<lambda>s.
     let P = (\<lambda>t. ta_ID t = tid \<and> ta_Status t = ''dead''
               \<and> (\<exists>r \<in> set (db_submissions s). Some (su_ID r) = ta_SubmissionID t \<and> su_Status r = ''system_error''));
         f = (\<lambda>t. t\<lparr>ta_Status := ''pending'', ta_Attempts := 0, ta_NextRunAt := nextRunAt,
                    ta_LastError := lastError, ta_UpdatedAt := db_now s\<rparr>);
         recovered = map ta_SubmissionID (filter P (db_tasks s))
     in bind_tx (update_row db_tasks put_tasks P f) (\<lambda>task s'.
          Inr (task, s'\<lparr>db_submissions := update_rows (\<lambda>r. Some (su_ID r) \<in> set recovered)
            (\<lambda>r. r\<lparr>su_Status := ''queued'', su_ErrorMessage := lastError, su_JudgedAt := None,
                   su_UpdatedAt := db_now s\<rparr>) (db_submissions s')\<rparr>)) s)"

definition q_ResetStaleJudgeTasks :: "time \<Rightarrow> string option \<Rightarrow> judge_task_row list tx" where
  "q_ResetStaleJudgeTasks staleBefore lastError = (\<lambda>s.
     let P = (\<lambda>t. ta_Status t \<in> {''dispatching'', ''running''} \<and> ta_UpdatedAt t < staleBefore
               \<and> (\<exists>r \<in> set (db_submissions s). Some (su_ID r) = ta_SubmissionID t \<and> \<not> terminalStatus (su_Status r)));
         f = (\<lambda>t. t\<lparr>ta_Status := ''pending'', ta_NextRunAt := db_now s, ta_LastError := lastError,
                    ta_UpdatedAt := db_now s\<rparr>);
         reset = map ta_SubmissionID (filter P (db_tasks s))
     in Inr (sort_by (\<lambda>a b. ta_ID a < ta_ID b) (map f (filter P (db_tasks s))),
             s\<lparr>db_tasks := update_rows P f (db_tasks s),
               db_submissions := update_rows (\<lambda>r. Some (su_ID r) \<in> set reset \<and> su_Status r = ''running'')
                 (\<lambda>r. r\<lparr>su_Status := ''queued'', su_ErrorMessage := lastError, su_UpdatedAt := db_now s\<rparr>)
                 (db_submissions s)\<rparr>))"

definition q_PrepareJudgeTaskForRejudge :: "int64 \<Rightarrow> int64 \<Rightarrow> time \<Rightarrow> judge_task_row tx" where
  "q_PrepareJudgeTaskForRejudge tid sid nextRunAt = (\<lambda>s.
     update_row db_tasks put_tasks
       (\<lambda>t. ta_ID t = tid \<and> ta_SubmissionID t = Some sid \<and> ta_Status t \<in> {''done'', ''dead''})
       (\<lambda>t. t\<lparr>ta_Status := ''pending'', ta_StreamID := None, ta_Attempts := 0, ta_NextRunAt := nextRunAt,
              ta_LastError := None, ta_UpdatedAt := db_now s\<rparr>) s)"

definition q_CancelPendingJudgeTaskForRejudge :: "int64 \<Rightarrow> string option \<Rightarrow> judge_task_row tx" where
  "q_CancelPendingJudgeTaskForRejudge tid lastError = (\<lambda>s.
     update_row db_tasks put_tasks (\<lambda>t. ta_ID t = tid \<and> ta_Status t = ''pending'')
       (\<lambda>t. t\<lparr>ta_Status := ''done'', ta_StreamID := None, ta_LastError := lastError, ta_UpdatedAt := db_now s\<rparr>) s)"

subsection \<open>Judge attempts and case results\<close>

definition q_GetJudgeAttemptByID :: "int64 \<Rightarrow> judge_attempt_row tx" where
  "q_GetJudgeAttemptByID aid = select_row db_attempts (\<lambda>r. at_ID r = aid)"

definition q_LockJudgeAttemptByID :: "int64 \<Rightarrow> judge_attempt_row tx" where
  "q_LockJudgeAttemptByID aid = select_row db_attempts (\<lambda>r. at_ID r = aid)"

definition attempt_order :: "judge_attempt_row \<Rightarrow> judge_attempt_row \<Rightarrow> bool" where
  "attempt_order a b =
     (if at_AttemptNo a = at_AttemptNo b then at_ID a > at_ID b else sint (at_AttemptNo a) > sint (at_AttemptNo b))"

definition latest_attempt :: "(judge_attempt_row \<Rightarrow> bool) \<Rightarrow> judge_attempt_row tx" where
  "latest_attempt P = (\<lambda>s. case sort_by attempt_order (filter P (db_attempts s)) of
     [] \<Rightarrow> Inl ErrNoRows | r # _ \<Rightarrow> Inr (r, s))"

definition q_GetLatestJudgeAttemptBySubmissionID :: "int64 option \<Rightarrow> judge_attempt_row tx" where
  "q_GetLatestJudgeAttemptBySubmissionID sid = latest_attempt (\<lambda>r. sid \<noteq> None \<and> at_SubmissionID r = sid)"

definition q_GetLatestJudgeAttemptByRunID :: "int64 option \<Rightarrow> judge_attempt_row tx" where
  "q_GetLatestJudgeAttemptByRunID rid = latest_attempt (\<lambda>r. rid \<noteq> None \<and> at_RunID r = rid)"

text \<open>
  The insert takes the whole row as its parameters; the identity, the score default and the two
  timestamps are the database's.
\<close>

definition attempt_constraints :: "judge_attempt_row \<Rightarrow> judge_attempt_row list \<Rightarrow> bool" where
  "attempt_constraints p rows \<longleftrightarrow>
     (at_SubmissionID p = None) \<noteq> (at_RunID p = None) \<and> sint (at_AttemptNo p) > 0
     \<and> attempt_status (at_Status p)
     \<and> (case at_Verdict p of None \<Rightarrow> True | Some v \<Rightarrow> terminalStatus v)
     \<and> nonneg4 (at_TimeMs p) \<and> nonneg4 (at_MemoryKb p)
     \<and> (\<forall>r \<in> set rows.
          (at_SubmissionID p \<noteq> None \<longrightarrow> at_SubmissionID r = at_SubmissionID p \<longrightarrow> at_AttemptNo r \<noteq> at_AttemptNo p)
          \<and> (at_RunID p \<noteq> None \<longrightarrow> at_RunID r = at_RunID p \<longrightarrow> at_AttemptNo r \<noteq> at_AttemptNo p))"

definition q_CreateJudgeAttempt :: "judge_attempt_row \<Rightarrow> judge_attempt_row tx" where
  "q_CreateJudgeAttempt params = (\<lambda>s.
     bind_tx (check_tx (attempt_constraints params (db_attempts s)) ''judge_attempts_check'') (\<lambda>_ s.
       let row = params\<lparr>at_ID := seq_attempts s, at_Score := 0, at_CreatedAt := db_now s, at_UpdatedAt := db_now s\<rparr>
       in Inr (row, s\<lparr>db_attempts := db_attempts s @ [row], seq_attempts := seq_attempts s + 1\<rparr>)) s)"

record finish_attempt_params =
  fp_Status :: string
  fp_Verdict :: "string option"
  fp_TimeMs :: "int32 option"
  fp_MemoryKb :: "int32 option"
  fp_FirstFailedCaseIndex :: "int32 option"
  fp_FirstFailedGroup :: "string option"
  fp_CompileOutputSummary :: "string option"
  fp_StderrSummary :: "string option"
  fp_CheckerMessage :: "string option"
  fp_ErrorClass :: "string option"
  fp_ErrorMessage :: "string option"
  fp_Manifest :: json_object
  fp_Metrics :: json_object
  fp_TraceID :: "string option"
  fp_FinishedAt :: "time option"

definition finish_attempt :: "time \<Rightarrow> finish_attempt_params \<Rightarrow> judge_attempt_row \<Rightarrow> judge_attempt_row" where
  "finish_attempt now p r =
     r\<lparr>at_Status := fp_Status p, at_Verdict := fp_Verdict p, at_TimeMs := fp_TimeMs p, at_MemoryKb := fp_MemoryKb p,
       at_FirstFailedCaseIndex := fp_FirstFailedCaseIndex p, at_FirstFailedGroup := fp_FirstFailedGroup p,
       at_CompileOutputSummary := fp_CompileOutputSummary p, at_StderrSummary := fp_StderrSummary p,
       at_CheckerMessage := fp_CheckerMessage p, at_ErrorClass := fp_ErrorClass p,
       at_ErrorMessage := fp_ErrorMessage p, at_Manifest := fp_Manifest p, at_Metrics := fp_Metrics p,
       at_TraceID := fp_TraceID p,
       at_FinishedAt := Some (coalesce (fp_FinishedAt p) (coalesce (at_FinishedAt r) now)),
       at_UpdatedAt := now\<rparr>"

definition q_MarkJudgeAttemptFinished :: "int64 \<Rightarrow> finish_attempt_params \<Rightarrow> judge_attempt_row tx" where
  "q_MarkJudgeAttemptFinished aid p =
     bind_tx (check_tx (attempt_status (fp_Status p)
         \<and> (case fp_Verdict p of None \<Rightarrow> True | Some v \<Rightarrow> terminalStatus v)
         \<and> nonneg4 (fp_TimeMs p) \<and> nonneg4 (fp_MemoryKb p)) ''judge_attempts_check'') (\<lambda>_ s.
       update_row db_attempts put_attempts (\<lambda>r. at_ID r = aid) (finish_attempt (db_now s) p) s)"

definition q_CreateJudgeCaseResult :: "case_result_row \<Rightarrow> case_result_row tx" where
  "q_CreateJudgeCaseResult params = (\<lambda>s.
     bind_tx (check_tx (sint (cx_CaseIndex params) > 0 \<and> case_status (cx_Status params) \<and> sint (cx_Score params) \<ge> 0
         \<and> nonneg4 (cx_TimeMs params) \<and> nonneg4 (cx_MemoryKb params)
         \<and> (\<forall>r \<in> set (db_case_results s). \<not> (cx_AttemptID r = cx_AttemptID params \<and> cx_CaseIndex r = cx_CaseIndex params)))
         ''judge_case_results_check'') (\<lambda>_ s.
       let row = params\<lparr>cx_ID := seq_case_results s, cx_CreatedAt := db_now s\<rparr>
       in Inr (row, s\<lparr>db_case_results := db_case_results s @ [row], seq_case_results := seq_case_results s + 1\<rparr>)) s)"

subsection \<open>Runs\<close>

definition q_GetRunByID :: "int64 \<Rightarrow> run_row tx" where
  "q_GetRunByID rid = select_row db_runs (\<lambda>r. ru_ID r = rid)"

definition q_LockRunByID :: "int64 \<Rightarrow> run_row tx" where
  "q_LockRunByID rid = select_row db_runs (\<lambda>r. ru_ID r = rid)"

definition q_CreateRun ::
  "int64 \<Rightarrow> int64 option \<Rightarrow> int64 \<Rightarrow> string \<Rightarrow> int64 option \<Rightarrow> string option \<Rightarrow> run_row tx" where
  "q_CreateRun userID problemID languageID status artifactID stdin =
     bind_tx (check_tx (subject_status status) ''runs_status_check'') (\<lambda>_ s.
       let row = \<lparr>ru_ID = seq_runs s, ru_UserID = userID, ru_ProblemID = problemID, ru_LanguageID = languageID,
                  ru_Status = status, ru_SourceArtifactID = artifactID, ru_Stdin = stdin, ru_Stdout = None,
                  ru_Stderr = None, ru_CompileOutput = None, ru_TimeMs = None, ru_MemoryKb = None,
                  ru_ErrorMessage = None, ru_CreatedAt = db_now s, ru_FinishedAt = None, ru_UpdatedAt = db_now s\<rparr>
       in Inr (row, s\<lparr>db_runs := db_runs s @ [row], seq_runs := seq_runs s + 1\<rparr>))"

definition q_UpdateRunStatus ::
  "int64 \<Rightarrow> string \<Rightarrow> string option \<Rightarrow> string option \<Rightarrow> string option \<Rightarrow> int32 option \<Rightarrow> int32 option
   \<Rightarrow> string option \<Rightarrow> run_row tx" where
  "q_UpdateRunStatus rid status stdout stderr compileOutput timeMs memoryKb errorMessage =
     bind_tx (check_tx (subject_status status \<and> nonneg4 timeMs \<and> nonneg4 memoryKb) ''runs_check'') (\<lambda>_ s.
       update_row db_runs put_runs (\<lambda>r. ru_ID r = rid \<and> \<not> terminalStatus (ru_Status r))
         (\<lambda>r. r\<lparr>ru_Status := status, ru_Stdout := stdout, ru_Stderr := stderr, ru_CompileOutput := compileOutput,
                ru_TimeMs := timeMs, ru_MemoryKb := memoryKb, ru_ErrorMessage := errorMessage,
                ru_FinishedAt := judged_now status None (db_now s) (ru_FinishedAt r), ru_UpdatedAt := db_now s\<rparr>) s)"

definition q_MarkRunRunning :: "int64 \<Rightarrow> run_row tx" where
  "q_MarkRunRunning rid = (\<lambda>s.
     update_row db_runs put_runs (\<lambda>r. ru_ID r = rid \<and> ru_Status r = ''queued'')
       (\<lambda>r. r\<lparr>ru_Status := ''running'', ru_UpdatedAt := db_now s\<rparr>) s)"

definition active_run :: "run_row \<Rightarrow> bool" where
  "active_run r \<longleftrightarrow> ru_Status r = ''queued'' \<or> ru_Status r = ''running''"

definition q_CountActiveRunsByUser :: "int64 \<Rightarrow> int64 tx" where
  "q_CountActiveRunsByUser userID =
     get_tx (\<lambda>s. int (length (filter (\<lambda>r. ru_UserID r = userID \<and> active_run r) (db_runs s))))"

definition q_LockUserForRunAdmission :: "int64 \<Rightarrow> int64 tx" where
  "q_LockUserForRunAdmission userID = select_row db_users (\<lambda>u. u = userID)"

definition q_MarkStaleRunsSystemError :: "time \<Rightarrow> string option \<Rightarrow> run_row list tx" where
  "q_MarkStaleRunsSystemError staleBefore errorMessage = (\<lambda>s.
     let P = (\<lambda>r. active_run r \<and> ru_UpdatedAt r < staleBefore);
         f = (\<lambda>r. r\<lparr>ru_Status := ''system_error'', ru_ErrorMessage := errorMessage,
                    ru_FinishedAt := Some (coalesce (ru_FinishedAt r) (db_now s)), ru_UpdatedAt := db_now s\<rparr>)
     in Inr (map f (filter P (db_runs s)), s\<lparr>db_runs := update_rows P f (db_runs s)\<rparr>))"

subsection \<open>Rejudge batches\<close>

definition q_GetRejudgeBatchByID :: "int64 \<Rightarrow> rejudge_batch_row tx" where
  "q_GetRejudgeBatchByID bid = select_row db_batches (\<lambda>b. ba_ID b = bid)"

definition q_GetQueuedRejudgeBatchItemByTaskID :: "int64 \<Rightarrow> rejudge_item_row tx" where
  "q_GetQueuedRejudgeBatchItemByTaskID tid = select_row db_items (\<lambda>i. it_TaskID i = tid \<and> it_Status i = ''queued'')"

definition q_CreateRejudgeBatch ::
  "int64 option \<Rightarrow> int64 option \<Rightarrow> int64 \<Rightarrow> string \<Rightarrow> string \<Rightarrow> int32 \<Rightarrow> rejudge_batch_row tx" where
  "q_CreateRejudgeBatch problemID contestID requestedBy status reason totalCount =
     bind_tx (check_tx (status \<in> {''queued'', ''running'', ''completed'', ''failed'', ''canceled''}
         \<and> sint totalCount \<ge> 0) ''rejudge_batches_check'') (\<lambda>_ s.
       let row = \<lparr>ba_ID = seq_batches s, ba_ProblemID = problemID, ba_ContestID = contestID,
                  ba_RequestedBy = requestedBy, ba_Status = status, ba_Reason = reason, ba_TotalCount = totalCount,
                  ba_CompletedCount = 0, ba_FailedCount = 0, ba_CanceledCount = 0, ba_ErrorMessage = None,
                  ba_StartedAt = None, ba_FinishedAt = None, ba_CreatedAt = db_now s, ba_UpdatedAt = db_now s\<rparr>
       in Inr (row, s\<lparr>db_batches := db_batches s @ [row], seq_batches := seq_batches s + 1\<rparr>))"

abbreviation item_active :: "string \<Rightarrow> bool" where
  "item_active st \<equiv> st \<in> {''queued'', ''running''}"

definition q_CreateRejudgeBatchItem :: "int64 \<Rightarrow> int64 \<Rightarrow> int64 \<Rightarrow> rejudge_item_row tx" where
  "q_CreateRejudgeBatchItem batchID sid tid = (\<lambda>s.
     bind_tx (unique_tx (\<forall>i \<in> set (db_items s).
           \<not> (it_SubmissionID i = sid \<and> (it_BatchID i = batchID \<or> item_active (it_Status i))))
         ''rejudge_batch_items_uidx'') (\<lambda>_ s.
       let row = \<lparr>it_ID = seq_items s, it_BatchID = batchID, it_SubmissionID = sid, it_TaskID = tid,
                  it_AttemptID = None, it_Status = ''queued'', it_ErrorMessage = None, it_StartedAt = None,
                  it_FinishedAt = None, it_CreatedAt = db_now s, it_UpdatedAt = db_now s\<rparr>
       in Inr (row, s\<lparr>db_items := db_items s @ [row], seq_items := seq_items s + 1\<rparr>)) s)"

definition q_StartRejudgeBatchItem :: "int64 \<Rightarrow> int64 \<Rightarrow> rejudge_item_row tx" where
  "q_StartRejudgeBatchItem attemptID itemID = (\<lambda>s.
     let P = (\<lambda>i. it_ID i = itemID \<and> it_Status i = ''queued'' \<and> it_AttemptID i = None) in
     bind_tx (unique_tx (\<not> (\<exists>i \<in> set (db_items s). P i) \<or> (\<forall>i \<in> set (db_items s). it_AttemptID i \<noteq> Some attemptID))
         ''rejudge_batch_items_attempt_id_uidx'') (\<lambda>_.
       update_row db_items put_items P
         (\<lambda>i. i\<lparr>it_Status := ''running'', it_AttemptID := Some attemptID,
                it_StartedAt := Some (coalesce (it_StartedAt i) (db_now s)), it_UpdatedAt := db_now s\<rparr>)) s)"

definition q_FinishRejudgeBatchItem :: "string \<Rightarrow> string option \<Rightarrow> int64 \<Rightarrow> rejudge_item_row tx" where
  "q_FinishRejudgeBatchItem status errorMessage attemptID = (\<lambda>s.
     update_row db_items put_items (\<lambda>i. it_AttemptID i = Some attemptID \<and> it_Status i = ''running'')
       (\<lambda>i. i\<lparr>it_Status := status, it_ErrorMessage := errorMessage,
              it_FinishedAt := Some (coalesce (it_FinishedAt i) (db_now s)), it_UpdatedAt := db_now s\<rparr>) s)"

definition q_FailActiveRejudgeBatchItemByTaskID :: "string option \<Rightarrow> int64 \<Rightarrow> rejudge_item_row tx" where
  "q_FailActiveRejudgeBatchItemByTaskID errorMessage tid = (\<lambda>s.
     update_row db_items put_items (\<lambda>i. it_TaskID i = tid \<and> item_active (it_Status i))
       (\<lambda>i. i\<lparr>it_Status := ''failed'', it_ErrorMessage := errorMessage,
              it_FinishedAt := Some (coalesce (it_FinishedAt i) (db_now s)), it_UpdatedAt := db_now s\<rparr>) s)"

definition q_CancelQueuedRejudgeBatchItems :: "int64 \<Rightarrow> string option \<Rightarrow> rejudge_item_row list tx" where
  "q_CancelQueuedRejudgeBatchItems batchID errorMessage = (\<lambda>s.
     let P = (\<lambda>i. it_BatchID i = batchID \<and> it_Status i = ''queued'');
         f = (\<lambda>i. i\<lparr>it_Status := ''canceled'', it_ErrorMessage := errorMessage,
                    it_FinishedAt := Some (coalesce (it_FinishedAt i) (db_now s)), it_UpdatedAt := db_now s\<rparr>)
     in Inr (map f (filter P (db_items s)), s\<lparr>db_items := update_rows P f (db_items s)\<rparr>))"

definition count_items :: "(string \<Rightarrow> bool) \<Rightarrow> int64 \<Rightarrow> rejudge_item_row list \<Rightarrow> int32" where
  "count_items P bid items = of_nat (length (filter (\<lambda>i. it_BatchID i = bid \<and> P (it_Status i)) items))"

definition q_RefreshRejudgeBatchProgress :: "int64 \<Rightarrow> rejudge_batch_row tx" where
  "q_RefreshRejudgeBatchProgress bid = (\<lambda>s.
     let completed = count_items (\<lambda>st. st = ''completed'') bid (db_items s);
         failed = count_items (\<lambda>st. st = ''failed'') bid (db_items s);
         canceled = count_items (\<lambda>st. st = ''canceled'') bid (db_items s);
         active = count_items (\<lambda>st. item_active st) bid (db_items s)
     in update_row db_batches put_batches
          (\<lambda>b. ba_ID b = bid \<and> ba_Status b \<in> {''queued'', ''running'', ''canceled''})
          (\<lambda>b. b\<lparr>ba_Status := (if ba_Status b = ''canceled'' then ''canceled''
                               else if active = 0 \<and> sint failed > 0 then ''failed''
                               else if active = 0 then ''completed'' else ''running''),
                 ba_CompletedCount := completed, ba_FailedCount := failed, ba_CanceledCount := canceled,
                 ba_StartedAt := Some (coalesce (ba_StartedAt b) (db_now s)),
                 ba_FinishedAt := (if active = 0 then Some (coalesce (ba_FinishedAt b) (db_now s)) else ba_FinishedAt b),
                 ba_UpdatedAt := db_now s\<rparr>) s)"

subsection \<open>Contests\<close>

definition q_GetContestByID :: "int64 \<Rightarrow> contest_record tx" where
  "q_GetContestByID cid = select_row db_contests (\<lambda>c. ct_ID c = cid)"

definition q_ListContestProblems :: "int64 \<Rightarrow> contest_problem list tx" where
  "q_ListContestProblems cid = get_tx (\<lambda>s.
     sort_by (\<lambda>a b. sint (cb_SortOrder a) < sint (cb_SortOrder b))
       (filter (\<lambda>p. cb_ContestID p = cid) (db_contest_problems s)))"

definition q_LockContestRegistration :: "int64 \<Rightarrow> int64 \<Rightarrow> contest_registration tx" where
  "q_LockContestRegistration cid userID =
     select_row db_registrations (\<lambda>r. rg_ContestID r = cid \<and> rg_UserID r = userID)"

definition result_key :: "problem_result_row \<Rightarrow> int64 \<times> int64 \<times> int64" where
  "result_key r = (cpr_ContestID (pr_Result r), cpr_UserID (pr_Result r), cpr_ProblemID (pr_Result r))"

definition q_EnsureContestProblemResultProjection :: "int64 \<Rightarrow> int64 \<Rightarrow> int64 \<Rightarrow> unit tx" where
  "q_EnsureContestProblemResultProjection cid userID problemID = (\<lambda>s.
     if \<exists>r \<in> set (db_problem_results s). result_key r = (cid, userID, problemID) then Inr ((), s)
     else Inr ((), s\<lparr>db_problem_results := db_problem_results s @
       [\<lparr>pr_Result = \<lparr>cpr_ContestID = cid, cpr_UserID = userID, cpr_ProblemID = problemID, cpr_Status = ''none'',
          cpr_Attempts = 0, cpr_AcceptedAt = None, cpr_PenaltyMinutes = 0, cpr_LastSubmissionID = None,
          cpr_UpdatedAt = db_now s\<rparr>,
         pr_BestSubmissionID = None, pr_BestAttemptID = None, pr_LastAttemptID = None\<rparr>]\<rparr>))"

definition q_LockContestProblemResultProjection :: "int64 \<Rightarrow> int64 \<Rightarrow> int64 \<Rightarrow> problem_result_row tx" where
  "q_LockContestProblemResultProjection cid userID problemID =
     select_row db_problem_results (\<lambda>r. result_key r = (cid, userID, problemID))"

definition q_ListContestProblemSubmissionsForProjection ::
  "int64 \<Rightarrow> int64 \<Rightarrow> int64 \<Rightarrow> contest_projection_submission list tx" where
  "q_ListContestProblemSubmissionsForProjection cid userID problemID = get_tx (\<lambda>s.
     sort_by projection_order
       (map (\<lambda>r. \<lparr>ps_ID = su_ID r, ps_Status = su_Status r, ps_SubmittedAt = su_SubmittedAt r,
                  ps_AttemptID = map_option sv_AttemptID
                    (List.find (\<lambda>v. sv_SubmissionID v = su_ID r) (db_submission_results s))\<rparr>)
         (filter (\<lambda>r. su_ContestID r = Some cid \<and> su_UserID r = userID \<and> su_ProblemID r = problemID
                     \<and> terminalStatus (su_Status r)) (db_submissions s))))"

definition q_UpsertContestProblemResult :: "problem_result_row \<Rightarrow> problem_result_row tx" where
  "q_UpsertContestProblemResult row =
     bind_tx (check_tx (cpr_Status (pr_Result row) \<in> {''none'', ''attempted'', ''accepted'', ''frozen''}
         \<and> sint (cpr_Attempts (pr_Result row)) \<ge> 0 \<and> sint (cpr_PenaltyMinutes (pr_Result row)) \<ge> 0)
         ''contest_problem_results_check'') (\<lambda>_ s.
       let row' = row\<lparr>pr_Result := (pr_Result row)\<lparr>cpr_UpdatedAt := db_now s\<rparr>\<rparr>
       in Inr (row', s\<lparr>db_problem_results :=
            (if \<exists>r \<in> set (db_problem_results s). result_key r = result_key row
             then update_rows (\<lambda>r. result_key r = result_key row) (\<lambda>r. row') (db_problem_results s)
             else db_problem_results s @ [row'])\<rparr>))"

definition q_ListContestProblemResultsForUsers :: "int64 \<Rightarrow> int64 list \<Rightarrow> contest_problem_result list tx" where
  "q_ListContestProblemResultsForUsers cid userIDs = get_tx (\<lambda>s.
     sort_by (\<lambda>a b. if cpr_UserID a = cpr_UserID b then cpr_ProblemID a < cpr_ProblemID b else cpr_UserID a < cpr_UserID b)
       (map pr_Result (filter (\<lambda>r. cpr_ContestID (pr_Result r) = cid \<and> cpr_UserID (pr_Result r) \<in> set userIDs)
         (db_problem_results s))))"

definition q_UpdateContestRegistrationScore :: "int32 \<Rightarrow> int32 \<Rightarrow> int64 \<Rightarrow> int64 \<Rightarrow> contest_registration tx" where
  "q_UpdateContestRegistrationScore acceptedCount penaltyMinutes cid userID =
     bind_tx (check_tx (sint acceptedCount \<ge> 0 \<and> sint penaltyMinutes \<ge> 0) ''contest_registrations_check'') (\<lambda>_.
       update_row db_registrations put_registrations (\<lambda>r. rg_ContestID r = cid \<and> rg_UserID r = userID)
         (\<lambda>r. r\<lparr>rg_AcceptedCount := acceptedCount, rg_PenaltyMinutes := penaltyMinutes\<rparr>))"

definition q_IncrementContestScoreRevision :: "int64 \<Rightarrow> int64 tx" where
  "q_IncrementContestScoreRevision cid = (\<lambda>s.
     bind_tx (update_row db_contests put_contests (\<lambda>c. ct_ID c = cid)
         (\<lambda>c. c\<lparr>ct_ScoreRevision := ct_ScoreRevision c + 1, ct_UpdatedAt := db_now s\<rparr>))
       (\<lambda>c. return_tx (ct_ScoreRevision c)) s)"

lemma terminal_dbStatus [simp]: "terminalStatus (dbStatus v)"
  by (simp add: dbStatus_def terminalStatus_def)

end
