(* ===== verification/Judge_Repository.thy ===== *)
theory Judge_Repository
  imports Database
begin

section \<open>Persisting judge results (\<^verbatim>\<open>judge_repository.go\<close>, \<^verbatim>\<open>submission_repository.go\<close>)\<close>

text \<open>
  Creating attempts, persisting their results with everything that depends on them (the submission or
  run, the case rows, the task, the contest projection, the rejudge item) in one transaction, and the
  submission transitions. Metrics and structured logs are not modelled; the text of a \<^verbatim>\<open>strconv\<close> error is
  left out of the error that wraps it.
\<close>

subsection \<open>Parameters (\<^verbatim>\<open>repository.go\<close>)\<close>

definition text_param :: "string \<Rightarrow> string option" where
  "text_param value = (if value \<noteq> [] then Some value else None)"

definition int4 :: "int \<Rightarrow> int32 option" where
  "int4 value = (if value \<le> 0 then None else Some (word_of_int value))"

definition validInt8 :: "int64 \<Rightarrow> int64 option" where
  "validInt8 value = (if value > 0 then Some value else None)"

definition judgedAtParam :: "time \<Rightarrow> time option" where
  "judgedAtParam value = (if value = 0 then None else Some value)"

fun mapNotFound :: "string \<Rightarrow> string \<Rightarrow> go_error \<Rightarrow> go_error" where
  "mapNotFound code message ErrNoRows = AppErr (NotFound code message)"
| "mapNotFound code message e = e"

subsection \<open>Summaries\<close>

definition truncateSummary :: "string \<Rightarrow> string" where
  "truncateSummary value = (if length value \<le> 4096 then value else take 4096 value)"

definition judgeSummary :: "judge_result \<Rightarrow> safe_judge_summary" where
  "judgeSummary result =
     (let s0 = \<lparr>ss_Verdict = jr_Verdict result, ss_TimeMS = jr_TimeMS result, ss_MemoryKB = jr_MemoryKB result,
                ss_CompileOutputSummary = truncateSummary (jr_CompileOutput result),
                ss_StderrSummary = truncateSummary (jr_Stderr result), ss_FirstFailedCaseIndex = None,
                ss_FirstFailedGroup = [], ss_CheckerMessage = [],
                ss_ErrorClass = (if jr_Verdict result = VerdictCompileError then ''compile_error''
                                 else if jr_Verdict result = VerdictSystemError then ''system_error'' else []),
                ss_ErrorMessage = jr_ErrorMessage result\<rparr>;
          s1 = (case List.find (\<lambda>c. jc_Verdict c \<noteq> VerdictAccepted) (jr_Cases result) of
                  None \<Rightarrow> s0
                | Some c \<Rightarrow> s0\<lparr>ss_FirstFailedCaseIndex := Some (word_of_int (jc_Index c)),
                      ss_FirstFailedGroup := jc_GroupName c, ss_CheckerMessage := jc_CheckerMessage c,
                      ss_ErrorMessage := (if ss_ErrorMessage s0 = [] then jc_OutputDiffSummary c else ss_ErrorMessage s0)\<rparr>)
      in if ss_CheckerMessage s1 = [] then
           (case List.find (\<lambda>c. jc_CheckerMessage c \<noteq> []) (jr_Cases result) of
              None \<Rightarrow> s1 | Some c \<Rightarrow> s1\<lparr>ss_CheckerMessage := jc_CheckerMessage c\<rparr>)
         else s1)"

definition setIfNotEmpty :: "string \<Rightarrow> string \<Rightarrow> json_object \<Rightarrow> json_object" where
  "setIfNotEmpty key value values =
     (if value \<noteq> [] then (key, value) # filter (\<lambda>kv. fst kv \<noteq> key) values else values)"

definition defaultJudgeCoreVersion :: "judge_manifest \<Rightarrow> string" where
  "defaultJudgeCoreVersion m = (if jm_JudgeCoreVersion m \<noteq> [] then jm_JudgeCoreVersion m else RequestEventType)"

definition judgeManifestJSON :: "judge_manifest \<Rightarrow> json_object" where
  "judgeManifestJSON m =
     (setIfNotEmpty ''trace_id'' (jm_TraceID m)
     (setIfNotEmpty ''validator_hash'' (jm_ValidatorHash m)
     (setIfNotEmpty ''checker_hash'' (jm_CheckerHash m)
     (setIfNotEmpty ''testcase_set_hash'' (jm_TestcaseSetHash m)
     (setIfNotEmpty ''sandbox_profile'' (jm_SandboxProfile m)
     (setIfNotEmpty ''sandbox_backend'' (jm_SandboxBackend m)
     (setIfNotEmpty ''language_runtime'' (jm_LanguageRuntime m)
     (setIfNotEmpty ''judge_agent_id'' (jm_JudgeAgentID m)
     (setIfNotEmpty ''judge_core_version'' (defaultJudgeCoreVersion m) (jm_Raw m))))))))))"

subsection \<open>The contest projection in the store\<close>

record projection_lock =
  lk_contestStart :: time
  lk_contestID :: int64
  lk_userID :: int64
  lk_enabled :: bool

definition no_lock :: projection_lock where
  "no_lock = \<lparr>lk_contestStart = 0, lk_contestID = 0, lk_userID = 0, lk_enabled = False\<rparr>"

definition lockContestProblemProjection :: "submission_row \<Rightarrow> projection_lock tx" where
  "lockContestProblemProjection sub =
     (case su_ContestID sub of
        None \<Rightarrow> return_tx no_lock
      | Some cid \<Rightarrow>
          bind_tx (q_GetContestByID cid) (\<lambda>contest.
          bind_tx (q_ListContestProblems cid) (\<lambda>problems.
            if List.find (\<lambda>p. cb_ProblemID p = su_ProblemID sub) problems = None then return_tx no_lock
            else bind_tx (or_no_rows (q_LockContestRegistration cid (su_UserID sub))) (\<lambda>registration.
              case registration of
                None \<Rightarrow> return_tx no_lock
              | Some _ \<Rightarrow>
                  bind_tx (q_EnsureContestProblemResultProjection cid (su_UserID sub) (su_ProblemID sub)) (\<lambda>_.
                  bind_tx (q_LockContestProblemResultProjection cid (su_UserID sub) (su_ProblemID sub)) (\<lambda>_.
                    return_tx \<lparr>lk_contestStart = ct_StartAt contest, lk_contestID = cid,
                               lk_userID = su_UserID sub, lk_enabled = True\<rparr>))))))"

definition accepted_totals :: "contest_problem_result list \<Rightarrow> int32 \<times> int32" where
  "accepted_totals results =
     fold (\<lambda>r (n, p). if cpr_Status r \<noteq> ''accepted'' then (n, p) else (n + 1, p + cpr_PenaltyMinutes r)) results (0, 0)"

definition rebuildContestProblemResult :: "submission_row \<Rightarrow> projection_lock \<Rightarrow> unit tx" where
  "rebuildContestProblemResult sub lock =
     (if \<not> lk_enabled lock then return_tx ()
      else case su_ContestID sub of
        None \<Rightarrow> return_tx ()
      | Some cid \<Rightarrow>
          bind_tx (q_ListContestProblemSubmissionsForProjection cid (su_UserID sub) (su_ProblemID sub)) (\<lambda>items.
          let p = buildContestProblemProjection (lk_contestStart lock) items in
          bind_tx (q_UpsertContestProblemResult
            \<lparr>pr_Result = projection_result cid (su_UserID sub) (su_ProblemID sub) 0 p,
             pr_BestSubmissionID = pj_BestSubmissionID p, pr_BestAttemptID = pj_BestAttemptID p,
             pr_LastAttemptID = pj_LastAttemptID p\<rparr>) (\<lambda>_.
          bind_tx (q_ListContestProblemResultsForUsers (lk_contestID lock) [lk_userID lock]) (\<lambda>results.
          bind_tx (q_UpdateContestRegistrationScore (fst (accepted_totals results)) (snd (accepted_totals results))
                     (lk_contestID lock) (lk_userID lock)) (\<lambda>_.
          bind_tx (q_IncrementContestScoreRevision (lk_contestID lock)) (\<lambda>_. return_tx ()))))))"

subsection \<open>Attempts\<close>

record ensure_attempt_input =
  ea_AttemptID :: string
  ea_SubmissionID :: "int64 option"
  ea_RunID :: "int64 option"
  ea_TaskID :: int64
  ea_LanguageID :: int64
  ea_TestcaseSetID :: int64
  ea_TestcaseSetHash :: string
  ea_ProtocolVersion :: string
  ea_JudgeEngine :: string
  ea_TraceID :: string
  ea_StartedAt :: time

definition latestAttemptForSubject :: "ensure_attempt_input \<Rightarrow> judge_attempt_row tx" where
  "latestAttemptForSubject input =
     (case ea_SubmissionID input of
        Some sid \<Rightarrow> q_GetLatestJudgeAttemptBySubmissionID (validInt8 sid)
      | None \<Rightarrow>
          (case ea_RunID input of
             Some rid \<Rightarrow> q_GetLatestJudgeAttemptByRunID (validInt8 rid)
           | None \<Rightarrow> fail_tx (ErrText ''ensure judge attempt requires a submission or a run'')))"

definition attempt_by_key :: "string \<Rightarrow> judge_attempt_row option tx" where
  "attempt_by_key key =
     (if key = [] then return_tx None
      else case ParseInt key of
        None \<Rightarrow> return_tx None
      | Some aid \<Rightarrow> or_no_rows (q_GetJudgeAttemptByID aid))"

definition new_attempt :: "ensure_attempt_input \<Rightarrow> int32 \<Rightarrow> int64 option \<Rightarrow> time \<Rightarrow> judge_attempt_row" where
  "new_attempt input attemptNo batchID startedAt =
     \<lparr>at_ID = 0, at_SubmissionID = ea_SubmissionID input, at_RunID = ea_RunID input,
      at_TaskID = (if ea_TaskID input > 0 then Some (ea_TaskID input) else None),
      at_RejudgeBatchID = batchID, at_AttemptNo = attemptNo, at_ProtocolVersion = ea_ProtocolVersion input,
      at_JudgeCoreVersion = ea_ProtocolVersion input, at_JudgeEngine = ea_JudgeEngine input,
      at_JudgeAgentID = None, at_LanguageID = ea_LanguageID input, at_LanguageRuntime = None,
      at_SandboxBackend = None, at_SandboxProfile = None,
      at_TestcaseSetID = (if ea_TestcaseSetID input > 0 then Some (ea_TestcaseSetID input) else None),
      at_TestcaseSetHash = text_param (ea_TestcaseSetHash input), at_CheckerHash = None, at_ValidatorHash = None,
      at_Status = ''created'', at_Verdict = None, at_Score = 0, at_TimeMs = None, at_MemoryKb = None,
      at_FirstFailedCaseIndex = None, at_FirstFailedGroup = None, at_CompileOutputSummary = None,
      at_StderrSummary = None, at_CheckerMessage = None, at_ErrorClass = None, at_ErrorMessage = None,
      at_Manifest = [(''trace_id'', ea_TraceID input), (''testcase_set_hash'', ea_TestcaseSetHash input)],
      at_Metrics = [], at_TraceID = text_param (ea_TraceID input), at_StartedAt = Some startedAt,
      at_FinishedAt = None, at_CreatedAt = 0, at_UpdatedAt = 0\<rparr>"

definition create_attempt ::
  "ensure_attempt_input \<Rightarrow> int32 \<Rightarrow> rejudge_item_row option \<Rightarrow> judge_attempt_row tx" where
  "create_attempt input attemptNo item = (\<lambda>s.
     bind_tx (q_CreateJudgeAttempt (new_attempt input attemptNo (map_option it_BatchID item)
                (if ea_StartedAt input = 0 then go_now s else ea_StartedAt input))) (\<lambda>row.
       case item of
         None \<Rightarrow> return_tx row
       | Some it \<Rightarrow>
           bind_tx (q_StartRejudgeBatchItem (at_ID row) (it_ID it)) (\<lambda>_.
           bind_tx (q_RefreshRejudgeBatchProgress (it_BatchID it)) (\<lambda>_. return_tx row))) s)"

definition ensureJudgeAttempt :: "ensure_attempt_input \<Rightarrow> judge_attempt_row tx" where
  "ensureJudgeAttempt input =
     bind_tx (attempt_by_key (ea_AttemptID input)) (\<lambda>known.
       case known of
         Some row \<Rightarrow> return_tx row
       | None \<Rightarrow>
           bind_tx (or_no_rows (q_GetQueuedRejudgeBatchItemByTaskID (ea_TaskID input))) (\<lambda>item.
             if ea_LanguageID input = 0
             then fail_tx (ErrText ''language_id is required to create a judge attempt'')
             else bind_tx (or_no_rows (latestAttemptForSubject input)) (\<lambda>latest.
               case latest of
                 Some l \<Rightarrow>
                   if at_TaskID l = Some (ea_TaskID input) \<and> \<not> terminalStatus (at_Status l)
                   then (case item of
                           None \<Rightarrow> return_tx l
                         | Some it \<Rightarrow> bind_tx (or_no_rows (q_StartRejudgeBatchItem (at_ID l) (it_ID it))) (\<lambda>_. return_tx l))
                   else create_attempt input (at_AttemptNo l + 1) item
               | None \<Rightarrow> create_attempt input 1 item)))"

definition EnsureJudgeAttempt :: "ensure_attempt_input \<Rightarrow> store \<Rightarrow> judge_attempt_row res \<times> store" where
  "EnsureJudgeAttempt input s = WithTx (ensureJudgeAttempt input) s"

subsection \<open>Completing an attempt\<close>

record complete_attempt_input =
  ca_EventID :: string
  ca_RequestEventID :: string
  ca_AttemptKey :: string
  ca_TraceID :: string
  ca_Status :: Verdict
  ca_Result :: judge_result

definition case_row :: "int64 \<Rightarrow> int \<Rightarrow> judge_case_result \<Rightarrow> case_result_row" where
  "case_row attemptID index item =
     \<lparr>cx_ID = 0, cx_AttemptID = attemptID, cx_CaseIndex = word_of_int index,
      cx_GroupName = text_param (jc_GroupName item), cx_TestcaseKey = text_param (jc_TestcaseKey item),
      cx_Status = dbStatus (jc_Verdict item), cx_Score = jc_Score item, cx_TimeMs = int4 (jc_TimeMS item),
      cx_MemoryKb = int4 (jc_MemoryKB item), cx_ExitCode = jc_ExitCode item, cx_Signal = text_param (jc_Signal item),
      cx_CheckerMessage = text_param (jc_CheckerMessage item),
      cx_OutputDiffSummary = text_param (jc_OutputDiffSummary item), cx_CreatedAt = 0\<rparr>"

definition finish_params :: "complete_attempt_input \<Rightarrow> string \<Rightarrow> time \<Rightarrow> finish_attempt_params" where
  "finish_params input status finishedAt =
     (let result = ca_Result input; summary = judgeSummary result in
      \<lparr>fp_Status = status, fp_Verdict = text_param status, fp_TimeMs = int4 (jr_TimeMS result),
       fp_MemoryKb = int4 (jr_MemoryKB result), fp_FirstFailedCaseIndex = ss_FirstFailedCaseIndex summary,
       fp_FirstFailedGroup = text_param (ss_FirstFailedGroup summary),
       fp_CompileOutputSummary = text_param (ss_CompileOutputSummary summary),
       fp_StderrSummary = text_param (ss_StderrSummary summary),
       fp_CheckerMessage = text_param (ss_CheckerMessage summary), fp_ErrorClass = text_param (ss_ErrorClass summary),
       fp_ErrorMessage = text_param (jr_ErrorMessage result), fp_Manifest = judgeManifestJSON (jr_Manifest result),
       fp_Metrics = [], fp_TraceID = text_param (ca_TraceID input), fp_FinishedAt = Some finishedAt\<rparr>)"

definition finishJudgeAttempt :: "judge_attempt_row \<Rightarrow> complete_attempt_input \<Rightarrow> string \<Rightarrow> judge_attempt_row tx" where
  "finishJudgeAttempt attempt input status = (\<lambda>s.
     let judgedAt = jr_JudgedAt (ca_Result input);
         finishedAt = (if judgedAt = 0 then go_now s else judgedAt)
     in bind_tx (q_MarkJudgeAttemptFinished (at_ID attempt) (finish_params input status finishedAt)) (\<lambda>finished.
        bind_tx (mapM_tx q_CreateJudgeCaseResult
          (map_idx (\<lambda>i item. case_row (at_ID attempt) (if jc_Index item = 0 then int i + 1 else jc_Index item) item)
             0 (jr_Cases (ca_Result input)))) (\<lambda>_.
          case at_TaskID finished of
            None \<Rightarrow> return_tx finished
          | Some tid \<Rightarrow> bind_tx (or_no_rows (q_MarkJudgeTaskDone tid)) (\<lambda>_. return_tx finished))) s)"

text \<open>The result row, the contest projection and the rejudge item that follow the finished attempt.\<close>

definition upsert_result :: "int64 \<Rightarrow> int64 \<Rightarrow> string \<Rightarrow> judge_result \<Rightarrow> submission_result_row tx" where
  "upsert_result sid attemptID status result =
     (let summary = judgeSummary result in
      q_UpsertSubmissionResult sid attemptID status (int4 (jr_TimeMS result)) (int4 (jr_MemoryKB result))
        (ss_FirstFailedCaseIndex summary) (text_param (ss_FirstFailedGroup summary))
        (text_param (ss_ErrorClass summary)) summary)"

definition finish_rejudge_item :: "judge_attempt_row \<Rightarrow> unit tx" where
  "finish_rejudge_item finished =
     (case at_RejudgeBatchID finished of
        None \<Rightarrow> return_tx ()
      | Some _ \<Rightarrow>
          bind_tx (q_FinishRejudgeBatchItem ''completed'' None (at_ID finished)) (\<lambda>item.
          bind_tx (q_RefreshRejudgeBatchProgress (it_BatchID item)) (\<lambda>_. return_tx ())))"

definition persist_submission_result ::
  "judge_attempt_row \<Rightarrow> complete_attempt_input \<Rightarrow> string \<Rightarrow> projection_lock \<Rightarrow> submission_row \<Rightarrow> bool tx" where
  "persist_submission_result attempt input status lock record =
     bind_tx (finishJudgeAttempt attempt input status) (\<lambda>finished.
     bind_tx (upsert_result (su_ID record) (at_ID attempt) status (ca_Result input)) (\<lambda>_.
     bind_tx (rebuildContestProblemResult record lock) (\<lambda>_.
     bind_tx (finish_rejudge_item finished) (\<lambda>_. return_tx True))))"

definition completeSubmissionAttempt ::
  "judge_attempt_row \<Rightarrow> int64 \<Rightarrow> complete_attempt_input \<Rightarrow> string \<Rightarrow> bool tx" where
  "completeSubmissionAttempt attempt sid input status =
     bind_tx (q_LockSubmissionByID sid) (\<lambda>record.
       if terminalStatus (su_Status record) then return_tx False
       else bind_tx (lockContestProblemProjection record) (\<lambda>lock.
         let result = ca_Result input in
         bind_tx (or_no_rows (q_UpdateSubmissionStatus sid status (int4 (jr_TimeMS result)) (int4 (jr_MemoryKB result))
                    (text_param (jr_ErrorMessage result)) (judgedAtParam (jr_JudgedAt result)))) (\<lambda>updated.
           case updated of
             Some row \<Rightarrow> persist_submission_result attempt input status lock row
           | None \<Rightarrow>
               bind_tx (q_GetSubmissionByID sid) (\<lambda>row.
                 if terminalStatus (su_Status row) then return_tx False
                 else persist_submission_result attempt input status lock row))))"

definition completeRunAttempt ::
  "judge_attempt_row \<Rightarrow> int64 \<Rightarrow> complete_attempt_input \<Rightarrow> string \<Rightarrow> bool tx" where
  "completeRunAttempt attempt rid input status =
     bind_tx (q_LockRunByID rid) (\<lambda>run.
       if terminalStatus (ru_Status run) then return_tx False
       else let result = ca_Result input in
         bind_tx (q_UpdateRunStatus rid status (text_param (jr_Stdout result)) (text_param (jr_Stderr result))
             (text_param (jr_CompileOutput result)) (int4 (jr_TimeMS result)) (int4 (jr_MemoryKB result))
             (text_param (jr_ErrorMessage result))) (\<lambda>_.
         bind_tx (finishJudgeAttempt attempt input status) (\<lambda>_. return_tx True)))"

text \<open>Which table receives the result follows from the attempt's subject.\<close>

definition complete_subject :: "judge_attempt_row \<Rightarrow> complete_attempt_input \<Rightarrow> string \<Rightarrow> bool tx" where
  "complete_subject attempt input status =
     (if terminalStatus (at_Status attempt) then return_tx False
      else case at_RunID attempt of
        Some rid \<Rightarrow> completeRunAttempt attempt rid input status
      | None \<Rightarrow>
          (case at_SubmissionID attempt of
             Some sid \<Rightarrow> completeSubmissionAttempt attempt sid input status
           | None \<Rightarrow> fail_tx (ErrText (''judge attempt '' @ FormatInt (at_ID attempt)
                        @ '' is linked to neither a submission nor a run''))))"

text \<open>The body of the transaction: whether the result was persisted.\<close>

definition complete_attempt :: "int64 \<Rightarrow> complete_attempt_input \<Rightarrow> bool tx" where
  "complete_attempt attemptID input =
     bind_tx (q_GetJudgeAttemptByID attemptID) (\<lambda>attemptRef.
     bind_tx (case at_TaskID attemptRef of
                None \<Rightarrow> return_tx ()
              | Some tid \<Rightarrow> bind_tx (q_LockJudgeTaskByID tid) (\<lambda>_. return_tx ())) (\<lambda>_.
     bind_tx (q_LockJudgeAttemptByID attemptID) (\<lambda>attempt.
       complete_subject attempt input (dbStatus (ca_Status input)))))"

definition CompleteJudgeAttemptResult :: "complete_attempt_input \<Rightarrow> store \<Rightarrow> bool res \<times> store" where
  "CompleteJudgeAttemptResult input s =
     (case ParseInt (ca_AttemptKey input) of
        None \<Rightarrow> (Inl (ErrText (''invalid attempt_id '' @ quoted (ca_AttemptKey input))), s)
      | Some attemptID \<Rightarrow> WithTx (complete_attempt attemptID input) s)"

subsection \<open>Completing a submission in process (\<^verbatim>\<open>persistJudgeResult\<close>, \<^verbatim>\<open>submission_repository.go\<close>)\<close>

definition judged_attempt :: "submission_row \<Rightarrow> judge_result \<Rightarrow> int32 \<Rightarrow> time \<Rightarrow> judge_attempt_row" where
  "judged_attempt sub result attemptNo finishedAt =
     (let m = jr_Manifest result; summary = judgeSummary result in
      \<lparr>at_ID = 0, at_SubmissionID = Some (su_ID sub), at_RunID = None, at_TaskID = None, at_RejudgeBatchID = None,
       at_AttemptNo = attemptNo, at_ProtocolVersion = RequestEventType,
       at_JudgeCoreVersion = defaultJudgeCoreVersion m, at_JudgeEngine = EngineSOJAgent,
       at_JudgeAgentID = text_param (jm_JudgeAgentID m), at_LanguageID = su_LanguageID sub,
       at_LanguageRuntime = text_param (jm_LanguageRuntime m), at_SandboxBackend = text_param (jm_SandboxBackend m),
       at_SandboxProfile = text_param (jm_SandboxProfile m),
       at_TestcaseSetID = (if su_TestcaseSetID sub > 0 then Some (su_TestcaseSetID sub) else None),
       at_TestcaseSetHash = text_param (jm_TestcaseSetHash m), at_CheckerHash = text_param (jm_CheckerHash m),
       at_ValidatorHash = text_param (jm_ValidatorHash m), at_Status = dbStatus (jr_Verdict result),
       at_Verdict = text_param (jr_Verdict result), at_Score = 0, at_TimeMs = int4 (jr_TimeMS result),
       at_MemoryKb = int4 (jr_MemoryKB result), at_FirstFailedCaseIndex = ss_FirstFailedCaseIndex summary,
       at_FirstFailedGroup = text_param (ss_FirstFailedGroup summary),
       at_CompileOutputSummary = text_param (ss_CompileOutputSummary summary),
       at_StderrSummary = text_param (ss_StderrSummary summary),
       at_CheckerMessage = text_param (ss_CheckerMessage summary), at_ErrorClass = text_param (ss_ErrorClass summary),
       at_ErrorMessage = text_param (jr_ErrorMessage result), at_Manifest = judgeManifestJSON m, at_Metrics = [],
       at_TraceID = text_param (jm_TraceID m), at_StartedAt = Some finishedAt, at_FinishedAt = Some finishedAt,
       at_CreatedAt = 0, at_UpdatedAt = 0\<rparr>)"

definition persistJudgeResult :: "submission_row \<Rightarrow> judge_result \<Rightarrow> judge_attempt_row tx" where
  "persistJudgeResult sub result = (\<lambda>s.
     let finishedAt = (if jr_JudgedAt result = 0 then go_now s else jr_JudgedAt result) in
     bind_tx (or_no_rows (q_GetLatestJudgeAttemptBySubmissionID (Some (su_ID sub)))) (\<lambda>latest.
     let attemptNo = (case latest of None \<Rightarrow> 1 | Some l \<Rightarrow> at_AttemptNo l + 1) in
     bind_tx (q_CreateJudgeAttempt (judged_attempt sub result attemptNo finishedAt)) (\<lambda>attempt.
     bind_tx (mapM_tx q_CreateJudgeCaseResult
                (map (\<lambda>item. case_row (at_ID attempt) (jc_Index item) item) (jr_Cases result))) (\<lambda>_.
     bind_tx (upsert_result (su_ID sub) (at_ID attempt) (dbStatus (jr_Verdict result)) result) (\<lambda>_.
       return_tx attempt)))) s)"

definition complete_submission :: "int64 \<Rightarrow> judge_result \<Rightarrow> submission_row tx" where
  "complete_submission sid result =
     bind_tx (q_LockSubmissionByID sid) (\<lambda>current.
       if terminalStatus (su_Status current) then return_tx current
       else bind_tx (lockContestProblemProjection current) (\<lambda>lock.
         bind_tx (or_no_rows (q_UpdateSubmissionStatus sid (dbStatus (jr_Verdict result)) (int4 (jr_TimeMS result))
                    (int4 (jr_MemoryKB result)) (text_param (jr_ErrorMessage result))
                    (judgedAtParam (jr_JudgedAt result)))) (\<lambda>updated.
           case updated of
             None \<Rightarrow> q_GetSubmissionByID sid
           | Some row \<Rightarrow>
               bind_tx (persistJudgeResult row result) (\<lambda>_.
               bind_tx (rebuildContestProblemResult row lock) (\<lambda>_. return_tx row)))))"

definition CompleteSubmissionWithResult :: "int64 \<Rightarrow> judge_result \<Rightarrow> store \<Rightarrow> submission_row res \<times> store" where
  "CompleteSubmissionWithResult sid result s = WithTx (complete_submission sid result) s"

subsection \<open>Submissions (\<^verbatim>\<open>submission_repository.go\<close>)\<close>

record submission_input =
  si_UserID :: int64
  si_ProblemID :: int64
  si_ContestID :: "int64 option"
  si_LanguageID :: int64
  si_TestcaseSetID :: int64
  si_Status :: string
  si_SourceArtifactID :: int64

definition createSubmissionRow :: "submission_input \<Rightarrow> submission_row tx" where
  "createSubmissionRow arg =
     q_CreateSubmission (si_UserID arg) (si_ProblemID arg) (si_ContestID arg) (si_LanguageID arg)
       (si_TestcaseSetID arg) (si_Status arg) (validInt8 (si_SourceArtifactID arg))"

definition CreateSubmissionWithTask ::
  "submission_input \<Rightarrow> time \<Rightarrow> store \<Rightarrow> (submission_row \<times> judge_task_row) res \<times> store" where
  "CreateSubmissionWithTask arg nextRunAt s =
     WithTx (bind_tx (createSubmissionRow arg) (\<lambda>row.
             bind_tx (q_CreateJudgeTask (validInt8 (su_ID row)) None ''pending'' nextRunAt) (\<lambda>task.
               return_tx (row, task)))) s"

text \<open>A statement outside a transaction block is its own transaction.\<close>

definition GetSubmission :: "int64 \<Rightarrow> store \<Rightarrow> submission_row res" where
  "GetSubmission sid s =
     (case WithTx (q_GetSubmissionByID sid) s of
        (Inl e, _) \<Rightarrow> Inl (mapNotFound ''submission.not_found'' ''submission not found'' e)
      | (Inr r, _) \<Rightarrow> Inr r)"

definition MarkSubmissionRunning :: "int64 \<Rightarrow> store \<Rightarrow> submission_row res \<times> store" where
  "MarkSubmissionRunning sid s = WithTx (q_MarkSubmissionRunning sid) s"

definition MarkSubmissionQueued :: "int64 \<Rightarrow> string \<Rightarrow> store \<Rightarrow> submission_row res \<times> store" where
  "MarkSubmissionQueued sid reason s =
     (case WithTx (q_MarkSubmissionQueued sid (text_param reason)) s of
        (Inl e, s') \<Rightarrow> (if e = ErrNoRows then (GetSubmission sid s', s') else (Inl e, s'))
      | (Inr r, s') \<Rightarrow> (Inr r, s'))"

definition markSubmissionSystemError :: "int64 \<Rightarrow> string \<Rightarrow> submission_row tx" where
  "markSubmissionSystemError sid reason =
     bind_tx (q_LockSubmissionByID sid) (\<lambda>record.
       if terminalStatus (su_Status record) then return_tx record
       else bind_tx (lockContestProblemProjection record) (\<lambda>lock.
         bind_tx (or_no_rows (q_MarkSubmissionSystemError sid (text_param reason))) (\<lambda>updated.
           case updated of
             None \<Rightarrow> return_tx record
           | Some row \<Rightarrow> bind_tx (rebuildContestProblemResult row lock) (\<lambda>_. return_tx row))))"

definition MarkSubmissionSystemError :: "int64 \<Rightarrow> string \<Rightarrow> store \<Rightarrow> submission_row res \<times> store" where
  "MarkSubmissionSystemError sid reason s = WithTx (markSubmissionSystemError sid reason) s"

text \<open>\<^verbatim>\<open>submission_completer.go\<close>\<close>

definition completeSubmission :: "int64 \<Rightarrow> judge_result \<Rightarrow> store \<Rightarrow> submission_row res \<times> store" where
  "completeSubmission sid result s =
     (case GetSubmission sid s of
        Inl e \<Rightarrow> (Inl e, s)
      | Inr current \<Rightarrow>
          if terminalStatus (su_Status current) then (Inr current, s)
          else CompleteSubmissionWithResult sid result s)"

end
