(* ===== verification/Judge_Persistence.thy ===== *)
theory Judge_Persistence
  imports Judge_Repository
begin

section \<open>Results are persisted exactly once\<close>

text \<open>
  What the transaction that completes an attempt changes in the tables of the judging protocol, and
  that redelivered results change nothing.
\<close>

subsection \<open>Which tables a transaction leaves alone\<close>

text \<open>
  The tables that carry the judging protocol: submissions, runs, tasks and attempts. Most parts of a
  transaction touch only the tables derived from them.
\<close>

definition protocol_tables ::
  "store \<Rightarrow> submission_row list \<times> run_row list \<times> judge_task_row list \<times> judge_attempt_row list \<times> time \<times> time \<times> int64 \<times> int64" where
  "protocol_tables s =
     (db_submissions s, db_runs s, db_tasks s, db_attempts s, db_now s, go_now s, seq_submissions s, seq_tasks s)"

named_theorems query_defs \<open>definitions of the queries\<close>

lemmas [query_defs] = q_GetSubmissionByID_def q_LockSubmissionByID_def q_UpdateSubmissionStatus_def
  q_MarkSubmissionRunning_def q_MarkSubmissionQueued_def q_MarkSubmissionSystemError_def
  q_GetJudgeTaskByID_def q_LockJudgeTaskByID_def q_MarkJudgeTaskDone_def q_MarkJudgeTaskRunning_def
  q_MarkJudgeTaskDead_def q_RetryJudgeTask_def q_MarkJudgeTaskDispatched_def q_UpdateJudgeTaskDispatching_def
  q_GetJudgeAttemptByID_def q_LockJudgeAttemptByID_def q_MarkJudgeAttemptFinished_def
  q_GetRunByID_def q_LockRunByID_def q_UpdateRunStatus_def q_MarkRunRunning_def

lemma keeps_contest_queries [keeps_intros]:
  "keeps protocol_tables (q_GetContestByID cid)"
  "keeps protocol_tables (q_ListContestProblems cid)"
  "keeps protocol_tables (q_LockContestRegistration cid u)"
  "keeps protocol_tables (q_EnsureContestProblemResultProjection cid u p)"
  "keeps protocol_tables (q_LockContestProblemResultProjection cid u p)"
  "keeps protocol_tables (q_ListContestProblemSubmissionsForProjection cid u p)"
  "keeps protocol_tables (q_UpsertContestProblemResult row)"
  "keeps protocol_tables (q_ListContestProblemResultsForUsers cid us)"
  "keeps protocol_tables (q_UpdateContestRegistrationScore a b cid u)"
  "keeps protocol_tables (q_IncrementContestScoreRevision cid)"
  unfolding keeps_def
  by (auto simp: q_GetContestByID_def q_ListContestProblems_def q_LockContestRegistration_def
      q_EnsureContestProblemResultProjection_def q_LockContestProblemResultProjection_def
      q_ListContestProblemSubmissionsForProjection_def q_UpsertContestProblemResult_def
      q_ListContestProblemResultsForUsers_def q_UpdateContestRegistrationScore_def
      q_IncrementContestScoreRevision_def tx_simps Let_def protocol_tables_def split: if_splits)

lemma keeps_result_queries [keeps_intros]:
  "keeps protocol_tables (q_CreateJudgeCaseResult row)"
  "keeps protocol_tables (q_UpsertSubmissionResult sid aid st tm mem fi fg ec sm)"
  "keeps protocol_tables (q_FinishRejudgeBatchItem st em aid)"
  "keeps protocol_tables (q_StartRejudgeBatchItem aid iid)"
  "keeps protocol_tables (q_FailActiveRejudgeBatchItemByTaskID em tid)"
  "keeps protocol_tables (q_RefreshRejudgeBatchProgress bid)"
  "keeps protocol_tables (q_GetQueuedRejudgeBatchItemByTaskID tid)"
  unfolding keeps_def
  by (auto simp: q_CreateJudgeCaseResult_def q_UpsertSubmissionResult_def q_FinishRejudgeBatchItem_def
      q_StartRejudgeBatchItem_def q_FailActiveRejudgeBatchItemByTaskID_def q_RefreshRejudgeBatchProgress_def
      q_GetQueuedRejudgeBatchItemByTaskID_def tx_simps Let_def protocol_tables_def)

lemma keeps_projection [keeps_intros]:
  "keeps protocol_tables (lockContestProblemProjection sub)"
  "keeps protocol_tables (rebuildContestProblemResult sub lock)"
  "keeps protocol_tables (upsert_result sid aid st r)"
  "keeps protocol_tables (finish_rejudge_item a)"
  unfolding lockContestProblemProjection_def rebuildContestProblemResult_def upsert_result_def
    finish_rejudge_item_def Let_def
  by (intro keeps_intros)+

lemma find_update_rows:
  assumes "\<And>r. P r \<Longrightarrow> Q (f r) = Q r" and "List.find Q rows = Some r"
  shows "List.find Q (update_rows P f rows) = Some (if P r then f r else r)"
  using assms(2) by (induction rows) (auto simp: update_rows_def assms(1) split: if_splits)

lemma update_rows_Nil [simp]: "update_rows P f [] = []"
  by (simp add: update_rows_def)

subsection \<open>What completing an attempt changes\<close>

definition close_task :: "time \<Rightarrow> int64 option \<Rightarrow> judge_task_row list \<Rightarrow> judge_task_row list" where
  "close_task now tid tasks =
     (case tid of
        None \<Rightarrow> tasks
      | Some t \<Rightarrow> update_rows (\<lambda>r. ta_ID r = t \<and> task_in_flight (ta_Status r))
                   (\<lambda>r. r\<lparr>ta_Status := ''done'', ta_UpdatedAt := now\<rparr>) tasks)"

definition finished_row :: "complete_attempt_input \<Rightarrow> string \<Rightarrow> store \<Rightarrow> judge_attempt_row \<Rightarrow> judge_attempt_row" where
  "finished_row input status s =
     finish_attempt (db_now s) (finish_params input status
       (if jr_JudgedAt (ca_Result input) = 0 then go_now s else jr_JudgedAt (ca_Result input)))"

lemma finished_row_simps [simp]:
  "at_ID (finished_row input status s r) = at_ID r"
  "at_TaskID (finished_row input status s r) = at_TaskID r"
  "at_SubmissionID (finished_row input status s r) = at_SubmissionID r"
  "at_RunID (finished_row input status s r) = at_RunID r"
  "at_RejudgeBatchID (finished_row input status s r) = at_RejudgeBatchID r"
  "at_Status (finished_row input status s r) = status"
  by (simp_all add: finished_row_def finish_attempt_def finish_params_def Let_def)

lemma close_task_step:
  assumes "(case tid of None \<Rightarrow> return_tx x | Some t \<Rightarrow> bind_tx (or_no_rows (q_MarkJudgeTaskDone t)) (\<lambda>_. return_tx x)) s
           = Inr (y, s')"
  shows "y = x \<and> s' = s\<lparr>db_tasks := close_task (db_now s) tid (db_tasks s)\<rparr>"
proof (cases tid)
  case None
  with assms show ?thesis by (simp add: return_tx_Inr close_task_def)
next
  case (Some t)
  with assms obtain o1 where o1: "or_no_rows (q_MarkJudgeTaskDone t) s = Inr (o1, s')" and y: "y = x"
    by (auto simp: bind_tx_Inr return_tx_Inr)
  show ?thesis
  proof (cases o1)
    case None
    with o1 have "List.find (\<lambda>r. ta_ID r = t \<and> task_in_flight (ta_Status r)) (db_tasks s) = None" and s': "s' = s"
      by (auto simp: or_no_rows_Inr q_MarkJudgeTaskDone_def update_row_def split: option.splits)
    then have "close_task (db_now s) tid (db_tasks s) = db_tasks s"
      using Some by (auto simp: close_task_def find_None_iff intro: update_rows_same)
    with y s' show ?thesis by simp
  next
    case (Some r)
    with o1 \<open>tid = Some t\<close> y show ?thesis
      by (auto simp: or_no_rows_Inr q_MarkJudgeTaskDone_def update_row_Inr close_task_def)
  qed
qed

lemma finishJudgeAttempt_effect:
  assumes "finishJudgeAttempt attempt input status s = Inr (finished, s')"
  shows "db_submissions s' = db_submissions s \<and> db_runs s' = db_runs s \<and> db_now s' = db_now s
    \<and> go_now s' = go_now s \<and> seq_submissions s' = seq_submissions s \<and> seq_tasks s' = seq_tasks s
    \<and> db_attempts s' = update_rows (\<lambda>r. at_ID r = at_ID attempt) (finished_row input status s) (db_attempts s)
    \<and> db_tasks s' = close_task (db_now s) (at_TaskID finished) (db_tasks s)
    \<and> (\<exists>r. List.find (\<lambda>r. at_ID r = at_ID attempt) (db_attempts s) = Some r \<and> finished = finished_row input status s r)"
proof -
  from assms obtain s1 ys s2 fin where
    mark: "q_MarkJudgeAttemptFinished (at_ID attempt) (finish_params input status
       (if jr_JudgedAt (ca_Result input) = 0 then go_now s else jr_JudgedAt (ca_Result input))) s = Inr (fin, s1)"
    and rows: "mapM_tx q_CreateJudgeCaseResult
        (map_idx (\<lambda>i item. case_row (at_ID attempt) (if jc_Index item = 0 then int i + 1 else jc_Index item) item)
             0 (jr_Cases (ca_Result input))) s1 = Inr (ys, s2)"
    and task: "(case at_TaskID fin of None \<Rightarrow> return_tx fin
        | Some tid \<Rightarrow> bind_tx (or_no_rows (q_MarkJudgeTaskDone tid)) (\<lambda>_. return_tx fin)) s2 = Inr (finished, s')"
    unfolding finishJudgeAttempt_def Let_def bind_tx_Inr by blast
  have s1: "s1 = s\<lparr>db_attempts := update_rows (\<lambda>r. at_ID r = at_ID attempt) (finished_row input status s) (db_attempts s)\<rparr>"
    and fin: "\<exists>r. List.find (\<lambda>r. at_ID r = at_ID attempt) (db_attempts s) = Some r \<and> fin = finished_row input status s r"
    using mark unfolding q_MarkJudgeAttemptFinished_def finished_row_def by (auto simp: tx_simps)
  have "keeps protocol_tables (mapM_tx q_CreateJudgeCaseResult xs)" for xs
    by (intro keeps_intros)
  from keepsD [OF this rows] have s2: "protocol_tables s2 = protocol_tables s1" .
  from close_task_step [OF task] s2 s1 fin show ?thesis
    by (simp add: protocol_tables_def)
qed

lemma finished_row_cong: "db_now s = db_now t \<Longrightarrow> go_now s = go_now t \<Longrightarrow> finished_row input status s = finished_row input status t"
  by (simp add: finished_row_def)

text \<open>The columns a verdict writes to a submission.\<close>

definition judged_row :: "judge_result \<Rightarrow> string \<Rightarrow> time \<Rightarrow> submission_row \<Rightarrow> submission_row" where
  "judged_row result status now r =
     r\<lparr>su_Status := status, su_TimeMs := int4 (jr_TimeMS result), su_MemoryKb := int4 (jr_MemoryKB result),
       su_ErrorMessage := text_param (jr_ErrorMessage result),
       su_JudgedAt := judged_now status (judgedAtParam (jr_JudgedAt result)) now (su_JudgedAt r),
       su_FirstJudgedAt := judged_now status (judgedAtParam (jr_JudgedAt result)) now (su_FirstJudgedAt r),
       su_UpdatedAt := now\<rparr>"

lemma judged_row_simps [simp]:
  "su_ID (judged_row result status now r) = su_ID r" "su_Status (judged_row result status now r) = status"
  "su_UserID (judged_row result status now r) = su_UserID r"
  "su_ProblemID (judged_row result status now r) = su_ProblemID r"
  "su_ContestID (judged_row result status now r) = su_ContestID r"
  by (simp_all add: judged_row_def)

text \<open>A guarded update by identifier hits the row that was read with that identifier.\<close>

lemma find_guarded:
  "List.find (\<lambda>r. key r = k) rows = Some r \<Longrightarrow> G r \<Longrightarrow> \<exists>r'. List.find (\<lambda>r. key r = k \<and> G r) rows = Some r'"
  by (induction rows) (auto split: if_splits)

lemma q_UpdateSubmissionStatus_judged:
  "q_UpdateSubmissionStatus sid status (int4 (jr_TimeMS result)) (int4 (jr_MemoryKB result))
     (text_param (jr_ErrorMessage result)) (judgedAtParam (jr_JudgedAt result))
   = bind_tx (check_tx (subject_status status \<and> nonneg4 (int4 (jr_TimeMS result)) \<and> nonneg4 (int4 (jr_MemoryKB result)))
       ''submissions_check'') (\<lambda>_ s.
       update_row db_submissions put_submissions (\<lambda>r. su_ID r = sid \<and> \<not> terminalStatus (su_Status r))
         (judged_row result status (db_now s)) s)"
  unfolding q_UpdateSubmissionStatus_def judged_row_def ..

lemma UpdateSubmissionStatus_effect:
  assumes "or_no_rows (q_UpdateSubmissionStatus sid status (int4 (jr_TimeMS result)) (int4 (jr_MemoryKB result))
              (text_param (jr_ErrorMessage result)) (judgedAtParam (jr_JudgedAt result))) s = Inr (updated, s')"
    and "List.find (\<lambda>r. su_ID r = sid) (db_submissions s) = Some sub" and "\<not> terminalStatus (su_Status sub)"
  shows "\<exists>r. updated = Some (judged_row result status (db_now s) r) \<and> r \<in> set (db_submissions s) \<and> su_ID r = sid
     \<and> s' = s\<lparr>db_submissions := update_rows (\<lambda>r. su_ID r = sid \<and> \<not> terminalStatus (su_Status r))
                 (judged_row result status (db_now s)) (db_submissions s)\<rparr>"
proof -
  from find_guarded [OF assms(2), of "\<lambda>r. \<not> terminalStatus (su_Status r)"] assms(3) obtain r where
    r: "List.find (\<lambda>r. su_ID r = sid \<and> \<not> terminalStatus (su_Status r)) (db_submissions s) = Some r" by blast
  from find_Some_set [OF r] have mem: "r \<in> set (db_submissions s)" "su_ID r = sid" by auto
  show ?thesis
  proof (cases updated)
    case None
    with assms(1) r show ?thesis
      by (auto simp: or_no_rows_Inr q_UpdateSubmissionStatus_judged bind_tx_def check_tx_def return_tx_def fail_tx_def
          update_row_def split: if_splits)
  next
    case (Some row)
    with assms(1) r mem show ?thesis
      by (auto simp: or_no_rows_Inr q_UpdateSubmissionStatus_judged tx_simps)
  qed
qed

lemma persist_submission_result_effect:
  assumes "persist_submission_result attempt input status lock sub s = Inr (p, s')"
  shows "p \<and> (\<exists>finished s1. finishJudgeAttempt attempt input status s = Inr (finished, s1)
                \<and> protocol_tables s' = protocol_tables s1)"
proof -
  from assms obtain finished s1 where fin: "finishJudgeAttempt attempt input status s = Inr (finished, s1)"
    and rest: "bind_tx (upsert_result (su_ID sub) (at_ID attempt) status (ca_Result input)) (\<lambda>_.
     bind_tx (rebuildContestProblemResult sub lock) (\<lambda>_.
     bind_tx (finish_rejudge_item finished) (\<lambda>_. return_tx True))) s1 = Inr (p, s')"
    unfolding persist_submission_result_def bind_tx_Inr by blast
  have "keeps protocol_tables (bind_tx (upsert_result (su_ID sub) (at_ID attempt) status (ca_Result input)) (\<lambda>_.
     bind_tx (rebuildContestProblemResult sub lock) (\<lambda>_.
     bind_tx (finish_rejudge_item finished) (\<lambda>_. return_tx True))))"
    by (intro keeps_intros)
  from keepsD [OF this rest] fin rest show ?thesis by (auto simp: bind_tx_Inr return_tx_Inr)
qed

definition submission_completed ::
  "judge_attempt_row \<Rightarrow> int64 \<Rightarrow> complete_attempt_input \<Rightarrow> string \<Rightarrow> store \<Rightarrow> store \<Rightarrow> bool" where
  "submission_completed attempt sid input status s s' \<longleftrightarrow>
     db_submissions s' = update_rows (\<lambda>r. su_ID r = sid \<and> \<not> terminalStatus (su_Status r))
       (judged_row (ca_Result input) status (db_now s)) (db_submissions s)
     \<and> db_runs s' = db_runs s
     \<and> db_attempts s' = update_rows (\<lambda>r. at_ID r = at_ID attempt) (finished_row input status s) (db_attempts s)
     \<and> (\<exists>r. List.find (\<lambda>r. at_ID r = at_ID attempt) (db_attempts s) = Some r
            \<and> db_tasks s' = close_task (db_now s) (at_TaskID r) (db_tasks s))
     \<and> seq_submissions s' = seq_submissions s \<and> seq_tasks s' = seq_tasks s"

lemma completeSubmissionAttempt_effect:
  assumes "completeSubmissionAttempt attempt sid input status s = Inr (p, s')"
  shows "\<exists>sub. List.find (\<lambda>r. su_ID r = sid) (db_submissions s) = Some sub
     \<and> (if p then \<not> terminalStatus (su_Status sub) \<and> submission_completed attempt sid input status s s'
        else terminalStatus (su_Status sub) \<and> s' = s)"
proof -
  from assms obtain sub where rec: "List.find (\<lambda>r. su_ID r = sid) (db_submissions s) = Some sub"
    by (auto simp: completeSubmissionAttempt_def bind_tx_Inr q_LockSubmissionByID_def select_row_Inr)
  show ?thesis
  proof (cases "terminalStatus (su_Status sub)")
    case True
    with assms rec show ?thesis
      by (auto simp: completeSubmissionAttempt_def bind_tx_Inr q_LockSubmissionByID_def select_row_Inr return_tx_Inr)
  next
    case False
    with assms rec obtain lock s1 updated s2 where
      lock: "lockContestProblemProjection sub s = Inr (lock, s1)"
      and upd: "or_no_rows (q_UpdateSubmissionStatus sid status (int4 (jr_TimeMS (ca_Result input)))
          (int4 (jr_MemoryKB (ca_Result input))) (text_param (jr_ErrorMessage (ca_Result input)))
          (judgedAtParam (jr_JudgedAt (ca_Result input)))) s1 = Inr (updated, s2)"
      and rest: "(case updated of Some row \<Rightarrow> persist_submission_result attempt input status lock row
           | None \<Rightarrow> bind_tx (q_GetSubmissionByID sid) (\<lambda>row.
                 if terminalStatus (su_Status row) then return_tx False
                 else persist_submission_result attempt input status lock row)) s2 = Inr (p, s')"
      by (auto simp: completeSubmissionAttempt_def bind_tx_Inr q_LockSubmissionByID_def select_row_Inr Let_def)
    have s1: "protocol_tables s1 = protocol_tables s"
      by (rule keepsD [OF keeps_projection(1) lock])
    then have rec1: "List.find (\<lambda>r. su_ID r = sid) (db_submissions s1) = Some sub"
      using rec by (simp add: protocol_tables_def)
    from UpdateSubmissionStatus_effect [OF upd rec1 False] obtain r where
      updated: "updated = Some (judged_row (ca_Result input) status (db_now s1) r)"
      and s2: "s2 = s1\<lparr>db_submissions := update_rows (\<lambda>r. su_ID r = sid \<and> \<not> terminalStatus (su_Status r))
                 (judged_row (ca_Result input) status (db_now s1)) (db_submissions s1)\<rparr>" by blast
    from rest updated have
      "persist_submission_result attempt input status lock (judged_row (ca_Result input) status (db_now s1) r) s2 = Inr (p, s')"
      by simp
    from persist_submission_result_effect [OF this] obtain finished s3 where p: p
      and fin: "finishJudgeAttempt attempt input status s2 = Inr (finished, s3)"
      and s': "protocol_tables s' = protocol_tables s3" by blast
    have row: "finished_row input status s2 = finished_row input status s"
      using s1 s2 by (intro finished_row_cong) (simp_all add: protocol_tables_def)
    from finishJudgeAttempt_effect [OF fin] s' s1 s2 row have "submission_completed attempt sid input status s s'"
      by (auto simp: submission_completed_def protocol_tables_def)
    with rec False p show ?thesis by simp
  qed
qed

text \<open>The columns a verdict writes to a run.\<close>

definition judged_run :: "judge_result \<Rightarrow> string \<Rightarrow> time \<Rightarrow> run_row \<Rightarrow> run_row" where
  "judged_run result status now r =
     r\<lparr>ru_Status := status, ru_Stdout := text_param (jr_Stdout result), ru_Stderr := text_param (jr_Stderr result),
       ru_CompileOutput := text_param (jr_CompileOutput result), ru_TimeMs := int4 (jr_TimeMS result),
       ru_MemoryKb := int4 (jr_MemoryKB result), ru_ErrorMessage := text_param (jr_ErrorMessage result),
       ru_FinishedAt := judged_now status None now (ru_FinishedAt r), ru_UpdatedAt := now\<rparr>"

lemma q_UpdateRunStatus_judged:
  "q_UpdateRunStatus rid status (text_param (jr_Stdout result)) (text_param (jr_Stderr result))
     (text_param (jr_CompileOutput result)) (int4 (jr_TimeMS result)) (int4 (jr_MemoryKB result))
     (text_param (jr_ErrorMessage result))
   = bind_tx (check_tx (subject_status status \<and> nonneg4 (int4 (jr_TimeMS result)) \<and> nonneg4 (int4 (jr_MemoryKB result)))
       ''runs_check'') (\<lambda>_ s.
       update_row db_runs put_runs (\<lambda>r. ru_ID r = rid \<and> \<not> terminalStatus (ru_Status r))
         (judged_run result status (db_now s)) s)"
  unfolding q_UpdateRunStatus_def judged_run_def ..

definition run_completed ::
  "judge_attempt_row \<Rightarrow> int64 \<Rightarrow> complete_attempt_input \<Rightarrow> string \<Rightarrow> store \<Rightarrow> store \<Rightarrow> bool" where
  "run_completed attempt rid input status s s' \<longleftrightarrow>
     db_submissions s' = db_submissions s
     \<and> db_attempts s' = update_rows (\<lambda>r. at_ID r = at_ID attempt) (finished_row input status s) (db_attempts s)
     \<and> (\<exists>r. List.find (\<lambda>r. at_ID r = at_ID attempt) (db_attempts s) = Some r
            \<and> db_tasks s' = close_task (db_now s) (at_TaskID r) (db_tasks s))
     \<and> db_runs s' = update_rows (\<lambda>r. ru_ID r = rid \<and> \<not> terminalStatus (ru_Status r))
          (judged_run (ca_Result input) status (db_now s)) (db_runs s)
     \<and> seq_submissions s' = seq_submissions s \<and> seq_tasks s' = seq_tasks s"

lemma completeRunAttempt_effect:
  assumes "completeRunAttempt attempt rid input status s = Inr (p, s')"
  shows "\<exists>run. List.find (\<lambda>r. ru_ID r = rid) (db_runs s) = Some run
     \<and> (if p then \<not> terminalStatus (ru_Status run) \<and> run_completed attempt rid input status s s'
        else terminalStatus (ru_Status run) \<and> s' = s)"
proof -
  from assms obtain run where run: "List.find (\<lambda>r. ru_ID r = rid) (db_runs s) = Some run"
    by (auto simp: completeRunAttempt_def bind_tx_Inr q_LockRunByID_def select_row_Inr)
  show ?thesis
  proof (cases "terminalStatus (ru_Status run)")
    case True
    with assms run show ?thesis
      by (auto simp: completeRunAttempt_def bind_tx_Inr q_LockRunByID_def select_row_Inr return_tx_Inr)
  next
    case False
    with assms run obtain s1 finished where
      s1: "s1 = s\<lparr>db_runs := update_rows (\<lambda>r. ru_ID r = rid \<and> \<not> terminalStatus (ru_Status r))
            (judged_run (ca_Result input) status (db_now s)) (db_runs s)\<rparr>"
      and fin: "finishJudgeAttempt attempt input status s1 = Inr (finished, s')" and p: p
      by (auto simp: completeRunAttempt_def bind_tx_Inr q_LockRunByID_def q_UpdateRunStatus_judged select_row_Inr
          update_row_Inr check_tx_Inr return_tx_Inr Let_def)
    have row: "finished_row input status s1 = finished_row input status s"
      using s1 by (intro finished_row_cong) simp_all
    from finishJudgeAttempt_effect [OF fin] s1 row have "run_completed attempt rid input status s s'"
      by (auto simp: run_completed_def)
    with run False p show ?thesis by simp
  qed
qed

text \<open>Why a result is not persisted: the attempt, or the submission or run it judges, is already closed.\<close>

definition already_closed :: "judge_attempt_row \<Rightarrow> store \<Rightarrow> bool" where
  "already_closed attempt s \<longleftrightarrow>
     terminalStatus (at_Status attempt)
     \<or> (\<exists>rid run. at_RunID attempt = Some rid \<and> List.find (\<lambda>r. ru_ID r = rid) (db_runs s) = Some run
            \<and> terminalStatus (ru_Status run))
     \<or> (\<exists>sid sub. at_RunID attempt = None \<and> at_SubmissionID attempt = Some sid
            \<and> List.find (\<lambda>r. su_ID r = sid) (db_submissions s) = Some sub \<and> terminalStatus (su_Status sub))"

definition task_present :: "judge_attempt_row \<Rightarrow> store \<Rightarrow> bool" where
  "task_present attempt s \<longleftrightarrow>
     (case at_TaskID attempt of None \<Rightarrow> True | Some tid \<Rightarrow> List.find (\<lambda>t. ta_ID t = tid) (db_tasks s) \<noteq> None)"

definition attempt_completed :: "judge_attempt_row \<Rightarrow> complete_attempt_input \<Rightarrow> string \<Rightarrow> store \<Rightarrow> store \<Rightarrow> bool" where
  "attempt_completed attempt input status s s' \<longleftrightarrow>
     \<not> terminalStatus (at_Status attempt)
     \<and> (case at_RunID attempt of
          Some rid \<Rightarrow> (\<exists>run. List.find (\<lambda>r. ru_ID r = rid) (db_runs s) = Some run \<and> \<not> terminalStatus (ru_Status run))
            \<and> run_completed attempt rid input status s s'
        | None \<Rightarrow>
            (\<exists>sid sub. at_SubmissionID attempt = Some sid
               \<and> List.find (\<lambda>r. su_ID r = sid) (db_submissions s) = Some sub \<and> \<not> terminalStatus (su_Status sub)
               \<and> submission_completed attempt sid input status s s'))"

lemma complete_attempt_effect:
  assumes "complete_attempt aid input s = Inr (p, s')"
  shows "\<exists>attempt. List.find (\<lambda>a. at_ID a = aid) (db_attempts s) = Some attempt \<and> task_present attempt s
     \<and> (if p then attempt_completed attempt input (dbStatus (ca_Status input)) s s'
        else already_closed attempt s \<and> s' = s)"
proof -
  let ?status = "dbStatus (ca_Status input)"
  from assms obtain attempt where att: "List.find (\<lambda>a. at_ID a = aid) (db_attempts s) = Some attempt"
    and present: "task_present attempt s"
    and rest: "complete_subject attempt input ?status s = Inr (p, s')"
    by (auto simp: complete_attempt_def bind_tx_Inr q_GetJudgeAttemptByID_def q_LockJudgeAttemptByID_def
        q_LockJudgeTaskByID_def select_row_Inr return_tx_Inr task_present_def split: option.splits)
  show ?thesis
  proof (cases "terminalStatus (at_Status attempt)")
    case True
    with att present rest show ?thesis by (auto simp: complete_subject_def return_tx_Inr already_closed_def)
  next
    case open_attempt: False
    show ?thesis
    proof (cases "at_RunID attempt")
      case (Some rid)
      with rest open_attempt have "completeRunAttempt attempt rid input ?status s = Inr (p, s')"
        by (simp add: complete_subject_def)
      from completeRunAttempt_effect [OF this] att present open_attempt Some show ?thesis
        by (auto simp: attempt_completed_def already_closed_def)
    next
      case None
      with rest open_attempt obtain sid where sid: "at_SubmissionID attempt = Some sid"
        and c: "completeSubmissionAttempt attempt sid input ?status s = Inr (p, s')"
        by (auto simp: complete_subject_def fail_tx_Inr split: option.splits)
      from completeSubmissionAttempt_effect [OF c] att present open_attempt None sid show ?thesis
        by (auto simp: attempt_completed_def already_closed_def)
    qed
  qed
qed

lemma closed_attempt_noop:
  assumes "List.find (\<lambda>a. at_ID a = aid) (db_attempts s) = Some attempt" and "task_present attempt s"
    and "already_closed attempt s"
  shows "complete_attempt aid input s = Inr (False, s)"
proof -
  have start: "complete_attempt aid input s = complete_subject attempt input (dbStatus (ca_Status input)) s"
    using assms(1,2)
    by (auto simp: complete_attempt_def bind_tx_def q_GetJudgeAttemptByID_def q_LockJudgeAttemptByID_def
        q_LockJudgeTaskByID_def select_row_def return_tx_def task_present_def split: option.splits)
  from assms(3) show ?thesis
    unfolding start complete_subject_def already_closed_def
    by (auto simp: return_tx_def completeRunAttempt_def completeSubmissionAttempt_def q_LockRunByID_def
        q_LockSubmissionByID_def select_row_def bind_tx_def)
qed

lemma find_close_task: "List.find (\<lambda>t. ta_ID t = k) tasks \<noteq> None \<Longrightarrow> List.find (\<lambda>t. ta_ID t = k) (close_task now tid tasks) \<noteq> None"
proof -
  have "map ta_ID (close_task now tid tasks) = map ta_ID tasks"
    by (auto simp: close_task_def map_update_rows split: option.splits)
  then have "set (map ta_ID (close_task now tid tasks)) = set (map ta_ID tasks)" by simp
  then show "List.find (\<lambda>t. ta_ID t = k) tasks \<noteq> None \<Longrightarrow> ?thesis"
    by (auto simp: find_None_iff) (metis imageE image_eqI)
qed

lemma complete_attempt_closes:
  assumes "complete_attempt aid input s = Inr (p, s')"
  shows "\<exists>attempt. List.find (\<lambda>a. at_ID a = aid) (db_attempts s') = Some attempt \<and> task_present attempt s'
           \<and> already_closed attempt s'"
proof -
  let ?st = "dbStatus (ca_Status input)"
  from complete_attempt_effect [OF assms] obtain attempt where
    att: "List.find (\<lambda>a. at_ID a = aid) (db_attempts s) = Some attempt" and present: "task_present attempt s"
    and cases: "if p then attempt_completed attempt input ?st s s' else already_closed attempt s \<and> s' = s" by blast
  show ?thesis
  proof (cases p)
    case False
    with cases att present show ?thesis by auto
  next
    case True
    have aid: "at_ID attempt = aid" using find_Some_set [OF att] by simp
    from True cases att aid have rows: "db_attempts s' = update_rows (\<lambda>r. at_ID r = aid) (finished_row input ?st s) (db_attempts s)"
      and tasks: "db_tasks s' = close_task (db_now s) (at_TaskID attempt) (db_tasks s)"
      by (auto simp: attempt_completed_def run_completed_def submission_completed_def split: option.splits)
    have "List.find (\<lambda>a. at_ID a = aid) (db_attempts s') = Some (finished_row input ?st s attempt)"
      unfolding rows using find_update_rows [OF _ att, of "\<lambda>r. at_ID r = aid" "finished_row input ?st s"] aid by simp
    moreover have "task_present (finished_row input ?st s attempt) s'"
      using present find_close_task unfolding task_present_def tasks by (auto split: option.splits)
    ultimately show ?thesis by (auto simp: already_closed_def)
  qed
qed

subsection \<open>The contract of a result store\<close>

text \<open>
  The result stream delivers at least once. What its consumer relies on of the store: a failed
  completion changes nothing, and once a result was taken for a key, further ones for it change nothing.
\<close>

fun deliver :: "('i \<Rightarrow> 's \<Rightarrow> bool res \<times> 's) \<Rightarrow> 'i list \<Rightarrow> 's \<Rightarrow> 's" where
  "deliver complete [] s = s"
| "deliver complete (i # is) s = deliver complete is (snd (complete i s))"

locale result_store =
  fixes complete :: "'i \<Rightarrow> 's \<Rightarrow> bool res \<times> 's"
    and key :: "'i \<Rightarrow> 'k"
  assumes error_atomic: "complete i s = (Inl e, s') \<Longrightarrow> s' = s"
    and skip_atomic: "complete i s = (Inr False, s') \<Longrightarrow> s' = s"
    and redelivery: "complete i s = (Inr p, s') \<Longrightarrow> key j = key i \<Longrightarrow> complete j s' = (Inr False, s')"
begin

lemma closed_deliver:
  assumes "complete i s = (Inr p, s')" and "\<forall>j \<in> set js. key j = key i"
  shows "deliver complete js s' = s'"
  using assms(2)
proof (induction js)
  case (Cons j js)
  then have "complete j s' = (Inr False, s')" using redelivery [OF assms(1)] by simp
  with Cons show ?case by simp
qed simp

lemma deliver_once:
  assumes "\<forall>j \<in> set js. key j = k"
  shows "deliver complete js s = s \<or> (\<exists>i \<in> set js. complete i s = (Inr True, deliver complete js s))"
  using assms
proof (induction js)
  case (Cons j js)
  obtain r s' where r: "complete j s = (r, s')" by (cases "complete j s")
  show ?case
  proof (cases r)
    case (Inl e)
    with error_atomic r have "s' = s" by blast
    with Cons r show ?thesis by auto
  next
    case (Inr p)
    with r Cons.prems have "deliver complete js s' = s'" by (intro closed_deliver) auto
    with r Inr skip_atomic [of j s s'] show ?thesis by (cases p) auto
  qed
qed simp

end

lemma CompleteJudgeAttemptResult_Inr:
  "CompleteJudgeAttemptResult input s = (Inr p, s') \<longleftrightarrow>
     (\<exists>aid. ParseInt (ca_AttemptKey input) = Some aid \<and> complete_attempt aid input s = Inr (p, s'))"
  by (auto simp: CompleteJudgeAttemptResult_def WithTx_Inr split: option.splits)

interpretation attempts: result_store CompleteJudgeAttemptResult ca_AttemptKey
proof
  fix i j :: complete_attempt_input and s s' e p
  show "CompleteJudgeAttemptResult i s = (Inl e, s') \<Longrightarrow> s' = s"
    by (auto simp: CompleteJudgeAttemptResult_def WithTx_Inl split: option.splits)
  show "CompleteJudgeAttemptResult i s = (Inr False, s') \<Longrightarrow> s' = s"
    by (auto simp: CompleteJudgeAttemptResult_Inr dest!: complete_attempt_effect)
  assume "CompleteJudgeAttemptResult i s = (Inr p, s')" and key: "ca_AttemptKey j = ca_AttemptKey i"
  then obtain aid where aid: "ParseInt (ca_AttemptKey i) = Some aid" "complete_attempt aid i s = Inr (p, s')"
    by (auto simp: CompleteJudgeAttemptResult_Inr)
  from complete_attempt_closes [OF aid(2)] have "complete_attempt aid j s' = Inr (False, s')"
    by (blast intro: closed_attempt_noop)
  with aid(1) key show "CompleteJudgeAttemptResult j s' = (Inr False, s')"
    by (simp add: CompleteJudgeAttemptResult_Inr)
qed

text \<open>
  C1: results are applied exactly once. However often and in whatever order results for one attempt are
  delivered, duplicates and conflicting ones included, the store ends as it was or as a single one of
  the deliveries alone left it.
\<close>

theorem results_applied_once:
  assumes "\<forall>j \<in> set inputs. ca_AttemptKey j = k"
  shows "deliver CompleteJudgeAttemptResult inputs s = s
         \<or> (\<exists>i \<in> set inputs. CompleteJudgeAttemptResult i s
                = (Inr True, deliver CompleteJudgeAttemptResult inputs s))"
  by (rule attempts.deliver_once [OF assms])

text \<open>
  C2: what completing an attempt does. A failure leaves the store alone. A result that is not
  persisted leaves it alone too, and only because the attempt or what it judges was closed before. A
  persisted result closes an attempt that was open: it writes the verdict to the submission (or run) it
  judges, which was not judged yet, marks the attempt finished with the same status, closes its task if
  that was in flight, and touches no other submission, run, task or attempt.
\<close>

theorem CompleteJudgeAttemptResult_effect:
  "case CompleteJudgeAttemptResult input s of
     (Inl e, s') \<Rightarrow> s' = s
   | (Inr p, s') \<Rightarrow>
       \<exists>aid attempt. ParseInt (ca_AttemptKey input) = Some aid
         \<and> List.find (\<lambda>a. at_ID a = aid) (db_attempts s) = Some attempt
         \<and> (if p then attempt_completed attempt input (dbStatus (ca_Status input)) s s'
            else already_closed attempt s \<and> s' = s)"
proof -
  obtain r s' where r: "CompleteJudgeAttemptResult input s = (r, s')" by (cases "CompleteJudgeAttemptResult input s")
  show ?thesis
  proof (cases r)
    case (Inl e)
    with attempts.error_atomic r show ?thesis by auto
  next
    case (Inr p)
    with r obtain aid where "ParseInt (ca_AttemptKey input) = Some aid" "complete_attempt aid input s = Inr (p, s')"
      by (auto simp: CompleteJudgeAttemptResult_Inr)
    with complete_attempt_effect [OF this(2)] r Inr show ?thesis by auto
  qed
qed

subsection \<open>A concrete store\<close>

definition empty_store :: store where
  "empty_store = \<lparr>db_submissions = [], db_tasks = [], db_attempts = [], db_case_results = [],
     db_submission_results = [], db_runs = [], db_batches = [], db_items = [], db_contests = [],
     db_contest_problems = [], db_registrations = [], db_problem_results = [], db_users = [],
     seq_submissions = 1, seq_tasks = 1, seq_attempts = 1, seq_case_results = 1, seq_runs = 1, seq_batches = 1,
     seq_items = 1, db_now = 1000, go_now = 1000\<rparr>"

definition sample_submission_input :: submission_input where
  "sample_submission_input = \<lparr>si_UserID = 1, si_ProblemID = 10, si_ContestID = None, si_LanguageID = 3,
     si_TestcaseSetID = 4, si_Status = StatusQueued, si_SourceArtifactID = 5\<rparr>"

definition sample_ensure_input :: ensure_attempt_input where
  "sample_ensure_input = \<lparr>ea_AttemptID = [], ea_SubmissionID = Some 1, ea_RunID = None, ea_TaskID = 1,
     ea_LanguageID = 3, ea_TestcaseSetID = 4, ea_TestcaseSetHash = ''h'', ea_ProtocolVersion = RequestEventType,
     ea_JudgeEngine = EngineSOJAgent, ea_TraceID = ''t'', ea_StartedAt = 0\<rparr>"

text \<open>A store with one submission, its dispatched task and an open attempt.\<close>

definition sample_store :: store where
  "sample_store =
     snd (EnsureJudgeAttempt sample_ensure_input
       (snd (WithTx (q_ClaimPendingJudgeTasks 16)
         (snd (CreateSubmissionWithTask sample_submission_input 0 empty_store)))))"

definition sample_result_input :: "string \<Rightarrow> complete_attempt_input" where
  "sample_result_input verdict = \<lparr>ca_EventID = ''e'', ca_RequestEventID = ''r'', ca_AttemptKey = ''1'',
     ca_TraceID = ''t'', ca_Status = verdict, ca_Result = empty_result\<lparr>jr_Verdict := verdict\<rparr>\<rparr>"

lemma sample_store_statuses:
  "map su_Status (db_submissions sample_store) = [''queued''] \<and> map ta_Status (db_tasks sample_store) = [''dispatching'']
   \<and> map at_Status (db_attempts sample_store) = [''created'']"
  by code_simp

theorem results_applied_once_witness:
  "(let inputs = [sample_result_input ''accepted'', sample_result_input ''wrong_answer'', sample_result_input ''accepted''];
        s' = deliver CompleteJudgeAttemptResult inputs sample_store
    in map su_Status (db_submissions s') = [''accepted'']
       \<and> (s' = sample_store \<or> (\<exists>i \<in> set inputs. CompleteJudgeAttemptResult i sample_store = (Inr True, s'))))"
proof -
  let ?inputs = "[sample_result_input ''accepted'', sample_result_input ''wrong_answer'', sample_result_input ''accepted'']"
  have "\<forall>j \<in> set ?inputs. ca_AttemptKey j = ''1''" by (simp add: sample_result_input_def)
  note results_applied_once [OF this, of sample_store]
  moreover have "map su_Status (db_submissions (deliver CompleteJudgeAttemptResult ?inputs sample_store)) = [''accepted'']"
    by code_simp
  ultimately show ?thesis by (simp add: Let_def)
qed

end
