(* ===== verification/Task_Repository.thy ===== *)
theory Task_Repository
  imports Judge_Repository
begin

section \<open>Judge tasks and runs (\<^verbatim>\<open>judge_task_repository.go\<close>, \<^verbatim>\<open>run_repository.go\<close>)\<close>

text \<open>
  The operations on the task table and on self-runs, each one transaction.
\<close>

subsection \<open>Operations\<close>

abbreviation errJudgeTaskIsNotASubmission :: go_error where
  "errJudgeTaskIsNotASubmission \<equiv> ErrText ''judge task is not linked to a submission''"

abbreviation errJudgeTaskIsNotARun :: go_error where
  "errJudgeTaskIsNotARun \<equiv> ErrText ''judge task is not linked to a run''"

definition CreateJudgeTask :: "int64 \<Rightarrow> time \<Rightarrow> store \<Rightarrow> judge_task_row res \<times> store" where
  "CreateJudgeTask sid nextRunAt s = WithTx (q_CreateJudgeTask (validInt8 sid) None ''pending'' nextRunAt) s"

definition GetJudgeTask :: "int64 \<Rightarrow> store \<Rightarrow> judge_task_row res" where
  "GetJudgeTask tid s =
     (case WithTx (q_GetJudgeTaskByID tid) s of
        (Inl e, _) \<Rightarrow> Inl (mapNotFound ''judge_task.not_found'' ''judge task not found'' e)
      | (Inr t, _) \<Rightarrow> Inr t)"

definition ClaimPendingJudgeTasks :: "int32 \<Rightarrow> store \<Rightarrow> judge_task_row list res \<times> store" where
  "ClaimPendingJudgeTasks limit_n s = WithTx (q_ClaimPendingJudgeTasks limit_n) s"

definition ClaimPendingRunTasks :: "int32 \<Rightarrow> store \<Rightarrow> judge_task_row list res \<times> store" where
  "ClaimPendingRunTasks limit_n s = WithTx (q_ClaimPendingRunTasks limit_n) s"

definition MarkJudgeTaskDispatching :: "int64 \<Rightarrow> store \<Rightarrow> judge_task_row res \<times> store" where
  "MarkJudgeTaskDispatching tid s = WithTx (q_UpdateJudgeTaskDispatching tid) s"

definition MarkJudgeTaskDispatched :: "int64 \<Rightarrow> string \<Rightarrow> store \<Rightarrow> judge_task_row res \<times> store" where
  "MarkJudgeTaskDispatched tid streamID s = WithTx (q_MarkJudgeTaskDispatched tid (text_param streamID)) s"

definition MarkJudgeTaskRunning :: "int64 \<Rightarrow> store \<Rightarrow> judge_task_row res \<times> store" where
  "MarkJudgeTaskRunning tid s = WithTx (q_MarkJudgeTaskRunning tid) s"

definition MarkJudgeTaskDone :: "int64 \<Rightarrow> store \<Rightarrow> judge_task_row res \<times> store" where
  "MarkJudgeTaskDone tid s = WithTx (q_MarkJudgeTaskDone tid) s"

definition RetryJudgeTask :: "int64 \<Rightarrow> time \<Rightarrow> string \<Rightarrow> store \<Rightarrow> judge_task_row res \<times> store" where
  "RetryJudgeTask tid nextRunAt reason s = WithTx (q_RetryJudgeTask tid nextRunAt (text_param reason)) s"

definition mark_task_dead :: "int64 \<Rightarrow> string \<Rightarrow> judge_task_row tx" where
  "mark_task_dead tid reason =
     bind_tx (q_MarkJudgeTaskDead tid (text_param reason)) (\<lambda>task.
       case ta_SubmissionID task of
         None \<Rightarrow> fail_tx errJudgeTaskIsNotASubmission
       | Some sid \<Rightarrow>
           bind_tx (markSubmissionSystemError sid reason) (\<lambda>_.
           bind_tx (or_no_rows (q_FailActiveRejudgeBatchItemByTaskID (text_param reason) tid)) (\<lambda>item.
             case item of
               None \<Rightarrow> return_tx task
             | Some it \<Rightarrow> bind_tx (q_RefreshRejudgeBatchProgress (it_BatchID it)) (\<lambda>_. return_tx task))))"

definition MarkJudgeTaskDead :: "int64 \<Rightarrow> string \<Rightarrow> store \<Rightarrow> judge_task_row res \<times> store" where
  "MarkJudgeTaskDead tid reason s = WithTx (mark_task_dead tid reason) s"

definition recover_dead_task :: "int64 \<Rightarrow> time \<Rightarrow> string \<Rightarrow> judge_task_row tx" where
  "recover_dead_task tid nextRunAt reason =
     bind_tx (q_LockJudgeTaskByID tid) (\<lambda>currentTask.
       case ta_SubmissionID currentTask of
         None \<Rightarrow> fail_tx errJudgeTaskIsNotASubmission
       | Some sid \<Rightarrow>
           bind_tx (q_LockSubmissionByID sid) (\<lambda>sub.
           bind_tx (lockContestProblemProjection sub) (\<lambda>lock.
           bind_tx (q_RecoverDeadJudgeTask tid nextRunAt (text_param reason)) (\<lambda>task.
             if \<not> lk_enabled lock then return_tx task
             else bind_tx (q_GetSubmissionByID sid) (\<lambda>updated.
                  bind_tx (rebuildContestProblemResult updated lock) (\<lambda>_. return_tx task))))))"

definition RecoverDeadJudgeTask :: "int64 \<Rightarrow> time \<Rightarrow> string \<Rightarrow> store \<Rightarrow> judge_task_row res \<times> store" where
  "RecoverDeadJudgeTask tid nextRunAt reason s = WithTx (recover_dead_task tid nextRunAt reason) s"

definition ResetStaleJudgeTasks :: "time \<Rightarrow> string \<Rightarrow> store \<Rightarrow> judge_task_row list res \<times> store" where
  "ResetStaleJudgeTasks staleBefore reason s = WithTx (q_ResetStaleJudgeTasks staleBefore (text_param reason)) s"

subsection \<open>Runs (\<^verbatim>\<open>run_repository.go\<close>)\<close>

record admit_run_input =
  ai_UserID :: int64
  ai_ProblemID :: "int64 option"
  ai_LanguageID :: int64
  ai_Status :: string
  ai_SourceArtifactID :: int64
  ai_Stdin :: string
  ai_MaxActive :: int
  ai_Enqueue :: bool
  ai_NextRunAt :: time

definition admit_run :: "admit_run_input \<Rightarrow> run_row tx" where
  "admit_run input =
     bind_tx (when_tx (ai_MaxActive input > 0)
       (bind_tx (map_err (mapNotFound ''user.not_found'' ''user not found'')
                   (q_LockUserForRunAdmission (ai_UserID input))) (\<lambda>_.
        bind_tx (q_CountActiveRunsByUser (ai_UserID input)) (\<lambda>active.
          if active \<ge> ai_MaxActive input
          then fail_tx (AppErr (TooManyRequests ''run.user_limit_exceeded'' ''too many runs in flight for this user''))
          else return_tx ())))) (\<lambda>_.
     bind_tx (q_CreateRun (ai_UserID input) (ai_ProblemID input) (ai_LanguageID input) (ai_Status input)
                (validInt8 (ai_SourceArtifactID input)) (text_param (ai_Stdin input))) (\<lambda>row.
     bind_tx (when_tx (ai_Enqueue input)
       (bind_tx (q_CreateJudgeTask None (validInt8 (ru_ID row)) ''pending'' (ai_NextRunAt input)) (\<lambda>_. return_tx ()))) (\<lambda>_.
       return_tx row)))"

definition AdmitRun :: "admit_run_input \<Rightarrow> store \<Rightarrow> run_row res \<times> store" where
  "AdmitRun input s = WithTx (admit_run input) s"

definition GetRun :: "int64 \<Rightarrow> store \<Rightarrow> run_row res" where
  "GetRun rid s =
     (case WithTx (q_GetRunByID rid) s of
        (Inl e, _) \<Rightarrow> Inl (mapNotFound ''run.not_found'' ''run not found'' e)
      | (Inr r, _) \<Rightarrow> Inr r)"

definition MarkRunRunning :: "int64 \<Rightarrow> store \<Rightarrow> run_row res \<times> store" where
  "MarkRunRunning rid s =
     (case WithTx (q_MarkRunRunning rid) s of
        (Inl e, s') \<Rightarrow> (if e = ErrNoRows then (GetRun rid s', s') else (Inl e, s'))
      | (Inr r, s') \<Rightarrow> (Inr r, s'))"

definition UpdateRunStatus :: "int64 \<Rightarrow> judge_result \<Rightarrow> store \<Rightarrow> run_row res \<times> store" where
  "UpdateRunStatus rid result s =
     (case WithTx (q_UpdateRunStatus rid (dbStatus (jr_Verdict result)) (text_param (jr_Stdout result))
             (text_param (jr_Stderr result)) (text_param (jr_CompileOutput result)) (int4 (jr_TimeMS result))
             (int4 (jr_MemoryKB result)) (text_param (jr_ErrorMessage result))) s of
        (Inl e, s') \<Rightarrow> (if e = ErrNoRows then (GetRun rid s', s') else (Inl e, s'))
      | (Inr r, s') \<Rightarrow> (Inr r, s'))"

definition MarkStaleRunsSystemError :: "time \<Rightarrow> string \<Rightarrow> store \<Rightarrow> run_row list res \<times> store" where
  "MarkStaleRunsSystemError staleBefore reason s = WithTx (q_MarkStaleRunsSystemError staleBefore (text_param reason)) s"

end
