(* ===== verification/Rejudge_Repository.thy ===== *)
theory Rejudge_Repository
  imports Task_Repository
begin

section \<open>Rejudge batches (\<^verbatim>\<open>rejudge_repository.go\<close>)\<close>

text \<open>
  Creating a batch that puts judged submissions and their tasks back into the queue, and cancelling the
  part of a batch that has not started.
\<close>

subsection \<open>Queries\<close>

definition q_ListEligibleSubmissions :: "(submission_row \<Rightarrow> bool) \<Rightarrow> submission_row list tx" where
  "q_ListEligibleSubmissions P = get_tx (\<lambda>s.
     sort_by (\<lambda>a b. su_ID a < su_ID b) (filter (\<lambda>r. P r \<and> terminalStatus (su_Status r)) (db_submissions s)))"

definition q_ListEligibleProblemSubmissionsForRejudge :: "int64 \<Rightarrow> submission_row list tx" where
  "q_ListEligibleProblemSubmissionsForRejudge problemID =
     q_ListEligibleSubmissions (\<lambda>r. su_ProblemID r = problemID \<and> su_ContestID r = None)"

definition q_ListEligibleContestSubmissionsForRejudge :: "int64 \<Rightarrow> submission_row list tx" where
  "q_ListEligibleContestSubmissionsForRejudge contestID = q_ListEligibleSubmissions (\<lambda>r. su_ContestID r = Some contestID)"

definition q_ListRejudgeBatchItems :: "int64 \<Rightarrow> rejudge_item_row list tx" where
  "q_ListRejudgeBatchItems batchID = get_tx (\<lambda>s.
     sort_by (\<lambda>a b. it_ID a < it_ID b) (filter (\<lambda>i. it_BatchID i = batchID) (db_items s)))"

definition q_CancelRejudgeBatch :: "int32 \<Rightarrow> string option \<Rightarrow> time option \<Rightarrow> int64 \<Rightarrow> rejudge_batch_row tx" where
  "q_CancelRejudgeBatch canceledCount errorMessage finishedAt bid =
     bind_tx (check_tx (sint canceledCount \<ge> 0) ''rejudge_batches_check'') (\<lambda>_ s.
       update_row db_batches put_batches (\<lambda>b. ba_ID b = bid \<and> item_active (ba_Status b))
         (\<lambda>b. b\<lparr>ba_Status := ''canceled'', ba_CanceledCount := canceledCount, ba_ErrorMessage := errorMessage,
                ba_FinishedAt := Some (coalesce finishedAt (coalesce (ba_FinishedAt b) (db_now s))),
                ba_UpdatedAt := db_now s\<rparr>) s)"

subsection \<open>\<^verbatim>\<open>CreateRejudgeBatchWithItems\<close>\<close>

record create_batch_input =
  cbi_ProblemID :: "int64 option"
  cbi_ContestID :: "int64 option"
  cbi_RequestedBy :: int64
  cbi_Reason :: string
  cbi_NextRunAt :: time

abbreviation ErrNoRejudgeSubmissions :: go_error where
  "ErrNoRejudgeSubmissions \<equiv> ErrText ''no eligible submissions for rejudge''"

abbreviation task_not_ready :: go_error where
  "task_not_ready \<equiv> AppErr (Conflict ''rejudge.task_not_ready'' ''submission judge task is not done or dead'')"

type_synonym rejudge_target = "submission_row \<times> judge_task_row"

definition eligible_submissions :: "create_batch_input \<Rightarrow> submission_row list tx" where
  "eligible_submissions input =
     (case cbi_ProblemID input of
        Some pid \<Rightarrow> q_ListEligibleProblemSubmissionsForRejudge pid
      | None \<Rightarrow>
          (case cbi_ContestID input of
             Some cid \<Rightarrow> q_ListEligibleContestSubmissionsForRejudge cid
           | None \<Rightarrow> fail_tx (ErrText ''rejudge target is required'')))"

definition by_task :: "rejudge_target \<Rightarrow> rejudge_target \<Rightarrow> bool" where
  "by_task a b = (if ta_ID (snd a) \<noteq> ta_ID (snd b) then ta_ID (snd a) < ta_ID (snd b)
                  else su_ID (fst a) < su_ID (fst b))"

definition by_submission :: "rejudge_target \<Rightarrow> rejudge_target \<Rightarrow> bool" where
  "by_submission a b = (if su_ID (fst a) \<noteq> su_ID (fst b) then su_ID (fst a) < su_ID (fst b)
                        else ta_ID (snd a) < ta_ID (snd b))"

definition lock_target :: "rejudge_target \<Rightarrow> rejudge_target tx" where
  "lock_target target =
     bind_tx (q_LockSubmissionByID (su_ID (fst target))) (\<lambda>sub.
       if \<not> terminalStatus (su_Status sub) \<or> (ta_Status (snd target) \<noteq> ''done'' \<and> ta_Status (snd target) \<noteq> ''dead'')
       then fail_tx task_not_ready else return_tx (sub, snd target))"

definition lock_targets :: "submission_row list \<Rightarrow> rejudge_target list tx" where
  "lock_targets subs =
     bind_tx (mapM_tx (\<lambda>c. bind_tx (q_GetJudgeTaskBySubmissionID (validInt8 (su_ID c))) (\<lambda>t. return_tx (c, t))) subs) (\<lambda>targets.
     bind_tx (mapM_tx (\<lambda>(c, t). bind_tx (q_LockJudgeTaskByID (ta_ID t)) (\<lambda>t'. return_tx (c, t')))
                (sort_by by_task targets)) (\<lambda>locked.
       mapM_tx lock_target (sort_by by_submission locked)))"

definition enqueue_target :: "int64 \<Rightarrow> time \<Rightarrow> rejudge_target \<Rightarrow> unit tx" where
  "enqueue_target batchID nextRunAt target =
     (let sub = fst target; task = snd target in
      bind_tx (q_CreateRejudgeBatchItem batchID (su_ID sub) (ta_ID task)) (\<lambda>_.
      bind_tx (lockContestProblemProjection sub) (\<lambda>lock.
      bind_tx (or_no_rows (q_PrepareJudgeTaskForRejudge (ta_ID task) (su_ID sub) nextRunAt)) (\<lambda>prepared.
        if prepared = None then fail_tx task_not_ready
        else bind_tx (q_PrepareSubmissionForRejudge (su_ID sub)) (\<lambda>_.
             rebuildContestProblemResult sub lock)))))"

definition create_rejudge_batch :: "create_batch_input \<Rightarrow> rejudge_batch_row tx" where
  "create_rejudge_batch input =
     bind_tx (eligible_submissions input) (\<lambda>subs.
       if subs = [] then fail_tx ErrNoRejudgeSubmissions
       else bind_tx (lock_targets subs) (\<lambda>targets.
            bind_tx (q_CreateRejudgeBatch (cbi_ProblemID input) (cbi_ContestID input) (cbi_RequestedBy input)
                       ''queued'' (cbi_Reason input) (of_nat (length targets))) (\<lambda>batch.
            bind_tx (mapM_tx (enqueue_target (ba_ID batch) (cbi_NextRunAt input)) targets) (\<lambda>_. return_tx batch))))"

definition CreateRejudgeBatchWithItems :: "create_batch_input \<Rightarrow> store \<Rightarrow> rejudge_batch_row res \<times> store" where
  "CreateRejudgeBatchWithItems input s =
     (case WithTx (create_rejudge_batch input) s of
        (Inl e, s') \<Rightarrow>
          (if unique_violation e
           then (Inl (AppErr (Conflict ''rejudge.active_conflict''
                   ''a submission already belongs to an active rejudge batch'')), s')
           else (Inl e, s'))
      | (Inr b, s') \<Rightarrow> (Inr b, s'))"

subsection \<open>\<^verbatim>\<open>CancelRejudgeBatch\<close>\<close>

definition items_by_task :: "rejudge_item_row \<Rightarrow> rejudge_item_row \<Rightarrow> bool" where
  "items_by_task a b = (if it_TaskID a \<noteq> it_TaskID b then it_TaskID a < it_TaskID b else it_ID a < it_ID b)"

definition items_by_submission :: "rejudge_item_row \<Rightarrow> rejudge_item_row \<Rightarrow> bool" where
  "items_by_submission a b =
     (if it_SubmissionID a \<noteq> it_SubmissionID b then it_SubmissionID a < it_SubmissionID b else it_ID a < it_ID b)"

text \<open>The map \<^verbatim>\<open>lockedSubmissions\<close>; a missing key yields Go's zero row, whose contest is null.\<close>

definition locked_submission :: "submission_row list \<Rightarrow> int64 \<Rightarrow> submission_row option" where
  "locked_submission locked sid = List.find (\<lambda>r. su_ID r = sid) (rev locked)"

definition cancel_item :: "string \<Rightarrow> submission_row list \<Rightarrow> rejudge_item_row \<Rightarrow> unit tx" where
  "cancel_item reason locked item =
     bind_tx (or_no_rows (q_CancelPendingJudgeTaskForRejudge (it_TaskID item) (text_param reason))) (\<lambda>canceled.
       if canceled = None
       then fail_tx (AppErr (Conflict ''rejudge.cancel_race''
              ''a queued rejudge item started while cancellation was requested''))
       else bind_tx (case locked_submission locked (it_SubmissionID item) of
                       None \<Rightarrow> return_tx no_lock
                     | Some sub \<Rightarrow> lockContestProblemProjection sub) (\<lambda>lock.
            bind_tx (q_RestoreSubmissionAfterCanceledRejudge (it_SubmissionID item)) (\<lambda>restored.
              rebuildContestProblemResult restored lock)))"

definition cancel_rejudge_batch :: "int64 \<Rightarrow> string \<Rightarrow> rejudge_batch_row tx" where
  "cancel_rejudge_batch bid reason = (\<lambda>s0.
     bind_tx (map_err (mapNotFound ''rejudge.not_found'' ''rejudge batch not found'') (q_GetRejudgeBatchByID bid)) (\<lambda>current.
     bind_tx (q_ListRejudgeBatchItems bid) (\<lambda>allItems.
     let queued = filter (\<lambda>i. it_Status i = ''queued'') allItems in
     bind_tx (mapM_tx (\<lambda>i. q_LockJudgeTaskByID (it_TaskID i)) (sort_by items_by_task queued)) (\<lambda>_.
     bind_tx (mapM_tx (\<lambda>i. q_LockSubmissionByID (it_SubmissionID i))
                (sort_by items_by_submission (sort_by items_by_task queued))) (\<lambda>locked.
     bind_tx (q_CancelQueuedRejudgeBatchItems bid (text_param reason)) (\<lambda>items.
     bind_tx (mapM_tx (cancel_item reason locked) items) (\<lambda>_.
     bind_tx (or_no_rows (q_CancelRejudgeBatch (ba_CanceledCount current + of_nat (length items)) (text_param reason)
                (Some (go_now s0)) bid)) (\<lambda>row.
       case row of
         None \<Rightarrow> fail_tx (AppErr (Conflict ''rejudge.not_cancelable'' ''rejudge batch cannot be canceled''))
       | Some b \<Rightarrow> return_tx b))))))) s0)"

definition CancelRejudgeBatch :: "int64 \<Rightarrow> string \<Rightarrow> store \<Rightarrow> rejudge_batch_row res \<times> store" where
  "CancelRejudgeBatch bid reason s = WithTx (cancel_rejudge_batch bid reason) s"

end
