(* ===== verification/Lifecycle_Invariant.thy ===== *)
theory Lifecycle_Invariant
  imports Judge_Persistence Rejudge_Repository
begin

section \<open>The invariant of the judging tables\<close>

text \<open>
  What holds of the submissions, tasks, attempts, rejudge items and stored results between any two
  transactions, and that each query keeps it. A transaction may owe something to a few submissions
  between its statements; the invariant carries the set of them, and the transaction ends with none.
\<close>

subsection \<open>Submissions that wait, tasks that serve them\<close>

definition task_open :: "judge_task_row \<Rightarrow> bool" where
  "task_open t \<longleftrightarrow> ta_Status t \<noteq> ''done'' \<and> ta_Status t \<noteq> ''dead''"

definition waiting :: "submission_row list \<Rightarrow> int64 set" where
  "waiting subs = {su_ID r | r. r \<in> set subs \<and> \<not> terminalStatus (su_Status r)}"

definition served :: "judge_task_row list \<Rightarrow> int64 set" where
  "served tasks = {k. \<exists>t \<in> set tasks. ta_SubmissionID t = Some k \<and> task_open t}"

text \<open>The references to tasks that other rows hold, each with the submission its holder is about.\<close>

definition attempt_refs :: "judge_attempt_row list \<Rightarrow> (int64 \<times> int64 option) set" where
  "attempt_refs attempts = {(tid, at_SubmissionID a) | a tid. a \<in> set attempts \<and> at_TaskID a = Some tid}"

definition item_refs :: "rejudge_item_row list \<Rightarrow> (int64 \<times> int64 option) set" where
  "item_refs items = (\<lambda>i. (it_TaskID i, Some (it_SubmissionID i))) ` set items"

text \<open>
  The invariant, up to a set \<open>K\<close> of submissions that a transaction under way still owes something:
  identifiers are unique and below their sequences; attempts, rejudge items and the task they refer to
  are about the same submission; a stored result is a verdict; every submission that is not judged yet
  has an open task.
\<close>

definition keyed :: "store \<Rightarrow> bool" where
  "keyed s \<longleftrightarrow> distinct (map su_ID (db_submissions s)) \<and> distinct (map ta_ID (db_tasks s))
     \<and> (\<forall>r \<in> set (db_submissions s). su_ID r < seq_submissions s)
     \<and> (\<forall>t \<in> set (db_tasks s). ta_ID t < seq_tasks s)
     \<and> 0 < seq_submissions s \<and> 0 < seq_tasks s"

definition refs_agree :: "judge_task_row list \<Rightarrow> int64 \<Rightarrow> (int64 \<times> int64 option) set \<Rightarrow> bool" where
  "refs_agree tasks bound refs \<longleftrightarrow>
     (\<forall>(tid, subject) \<in> refs. tid < bound \<and> (\<forall>t \<in> set tasks. ta_ID t = tid \<longrightarrow> ta_SubmissionID t = subject))"

definition linked :: "store \<Rightarrow> bool" where
  "linked s \<longleftrightarrow> refs_agree (db_tasks s) (seq_tasks s) (attempt_refs (db_attempts s))
     \<and> refs_agree (db_tasks s) (seq_tasks s) (item_refs (db_items s))
     \<and> (\<forall>a \<in> set (db_attempts s). at_RunID a = None \<or> at_SubmissionID a = None)
     \<and> (\<forall>v \<in> set (db_submission_results s). terminalStatus (sv_Status v))"

definition lifecycle_inv :: "int64 set \<Rightarrow> store \<Rightarrow> bool" where
  "lifecycle_inv K s \<longleftrightarrow> keyed s \<and> linked s \<and> waiting (db_submissions s) \<subseteq> served (db_tasks s) \<union> K"

subsection \<open>How updates move the invariant\<close>

lemma waiting_update:
  assumes "\<And>r. P r \<Longrightarrow> su_ID (f r) = su_ID r \<and> \<not> terminalStatus (su_Status r)"
  shows "waiting (update_rows P f subs) \<subseteq> waiting subs"
proof
  fix k assume "k \<in> waiting (update_rows P f subs)"
  then obtain r where r: "r \<in> set subs" "k = su_ID (if P r then f r else r)"
      "\<not> terminalStatus (su_Status (if P r then f r else r))"
    by (auto simp: waiting_def update_rows_def)
  with assms [of r] show "k \<in> waiting subs" unfolding waiting_def by (cases "P r") auto
qed

lemma waiting_judged:
  assumes "\<And>r. P r \<Longrightarrow> su_ID (f r) = su_ID r \<and> terminalStatus (su_Status (f r))"
    and "\<And>r. r \<in> set subs \<Longrightarrow> su_ID r = sid \<Longrightarrow> \<not> terminalStatus (su_Status r) \<Longrightarrow> P r"
  shows "waiting (update_rows P f subs) \<subseteq> waiting subs - {sid}"
proof
  fix k assume "k \<in> waiting (update_rows P f subs)"
  then obtain r where r: "r \<in> set subs" "k = su_ID (if P r then f r else r)"
      "\<not> terminalStatus (su_Status (if P r then f r else r))"
    by (auto simp: waiting_def update_rows_def)
  with assms(1) [of r] have "\<not> P r" by auto
  with r assms(2) [of r] show "k \<in> waiting subs - {sid}" unfolding waiting_def by auto
qed

text \<open>A task update that keeps the subject; an open task may close only where its subject is in \<open>Q\<close>.\<close>

lemma served_update:
  assumes "\<And>t. P t \<Longrightarrow> ta_SubmissionID (f t) = ta_SubmissionID t"
    and "\<And>t. t \<in> set tasks \<Longrightarrow> P t \<Longrightarrow> task_open t \<Longrightarrow> \<not> task_open (f t) \<Longrightarrow> ta_SubmissionID t \<in> Q"
  shows "served tasks - {k. Some k \<in> Q} \<subseteq> served (update_rows P f tasks)"
proof
  fix k assume "k \<in> served tasks - {k. Some k \<in> Q}"
  then obtain t where t: "t \<in> set tasks" "ta_SubmissionID t = Some k" "task_open t" "Some k \<notin> Q"
    by (auto simp: served_def)
  with assms(2) [of t] have "P t \<Longrightarrow> task_open (f t)" by auto
  with t assms(1) [of t] show "k \<in> served (update_rows P f tasks)"
    unfolding served_def set_update_rows by (cases "P t") auto
qed

text \<open>What a step may not change for keys and links to survive.\<close>

definition task_subjects :: "judge_task_row list \<Rightarrow> (int64 \<times> int64 option) list" where
  "task_subjects tasks = map (\<lambda>t. (ta_ID t, ta_SubmissionID t)) tasks"

lemma map_fst_task_subjects: "map fst (task_subjects tasks) = map ta_ID tasks"
  by (simp add: task_subjects_def comp_def)

lemma refs_agree_subjects:
  "refs_agree tasks bound refs \<longleftrightarrow>
     (\<forall>(tid, subject) \<in> refs. tid < bound \<and> (\<forall>(i, x) \<in> set (task_subjects tasks). i = tid \<longrightarrow> x = subject))"
  by (auto simp: refs_agree_def task_subjects_def)

definition same_shape :: "store \<Rightarrow> store \<Rightarrow> bool" where
  "same_shape s s' \<longleftrightarrow>
     map su_ID (db_submissions s') = map su_ID (db_submissions s)
     \<and> task_subjects (db_tasks s') = task_subjects (db_tasks s)
     \<and> attempt_refs (db_attempts s') \<subseteq> attempt_refs (db_attempts s)
     \<and> item_refs (db_items s') \<subseteq> item_refs (db_items s)
     \<and> (\<forall>a' \<in> set (db_attempts s'). at_RunID a' = None \<or> at_SubmissionID a' = None
           \<or> (\<exists>a \<in> set (db_attempts s). at_RunID a = at_RunID a' \<and> at_SubmissionID a = at_SubmissionID a'))
     \<and> (\<forall>v' \<in> set (db_submission_results s'). terminalStatus (sv_Status v') \<or> v' \<in> set (db_submission_results s))
     \<and> seq_submissions s' = seq_submissions s \<and> seq_tasks s' = seq_tasks s"

lemma keyed_shape:
  assumes "same_shape s s'" and "keyed s"
  shows "keyed s'"
proof -
  have subs: "map su_ID (db_submissions s') = map su_ID (db_submissions s)"
    and tasks: "map ta_ID (db_tasks s') = map ta_ID (db_tasks s)"
    and seqs: "seq_submissions s' = seq_submissions s" "seq_tasks s' = seq_tasks s"
    using assms(1) map_fst_task_subjects by (simp_all add: same_shape_def) metis
  have "su_ID ` set (db_submissions s') = su_ID ` set (db_submissions s)"
    and "ta_ID ` set (db_tasks s') = ta_ID ` set (db_tasks s)"
    using subs tasks by (metis set_map)+
  then have "\<forall>r' \<in> set (db_submissions s'). \<exists>r \<in> set (db_submissions s). su_ID r' = su_ID r"
    and "\<forall>t' \<in> set (db_tasks s'). \<exists>t \<in> set (db_tasks s). ta_ID t' = ta_ID t"
    by (metis imageE imageI)+
  with assms(2) subs tasks seqs show ?thesis unfolding keyed_def by metis
qed

lemma linked_shape:
  assumes "same_shape s s'" and "linked s"
  shows "linked s'"
proof -
  have tasks: "task_subjects (db_tasks s') = task_subjects (db_tasks s)" and seqs: "seq_tasks s' = seq_tasks s"
    and refs: "attempt_refs (db_attempts s') \<subseteq> attempt_refs (db_attempts s)"
      "item_refs (db_items s') \<subseteq> item_refs (db_items s)"
    using assms(1) by (simp_all add: same_shape_def)
  have "refs_agree (db_tasks s') (seq_tasks s') R'" if "refs_agree (db_tasks s) (seq_tasks s) R" "R' \<subseteq> R" for R R'
    using that unfolding refs_agree_subjects tasks seqs by blast
  moreover have "\<forall>a' \<in> set (db_attempts s'). at_RunID a' = None \<or> at_SubmissionID a' = None"
    using assms unfolding same_shape_def linked_def by metis
  moreover have "\<forall>v' \<in> set (db_submission_results s'). terminalStatus (sv_Status v')"
    using assms unfolding same_shape_def linked_def by metis
  ultimately show ?thesis using assms(2) refs unfolding linked_def by blast
qed

lemma inv_by_shape:
  assumes "lifecycle_inv K s" and "same_shape s s'"
    and "waiting (db_submissions s') \<subseteq> served (db_tasks s') \<union> K'"
  shows "lifecycle_inv K' s'"
  using assms keyed_shape linked_shape by (auto simp: lifecycle_inv_def)

lemma inv_tasks:
  assumes "lifecycle_inv K s" and "\<And>t. P t \<Longrightarrow> ta_ID (f t) = ta_ID t \<and> ta_SubmissionID (f t) = ta_SubmissionID t"
    and "\<And>t. t \<in> set (db_tasks s) \<Longrightarrow> P t \<Longrightarrow> task_open t \<Longrightarrow> \<not> task_open (f t) \<Longrightarrow> ta_SubmissionID t \<in> Q"
  shows "lifecycle_inv (K \<union> {k. Some k \<in> Q}) (s\<lparr>db_tasks := update_rows P f (db_tasks s)\<rparr>)"
proof (rule inv_by_shape [OF assms(1)])
  have "task_subjects (update_rows P f (db_tasks s)) = task_subjects (db_tasks s)"
    unfolding task_subjects_def using assms(2) by (intro map_update_rows) auto
  then show "same_shape s (s\<lparr>db_tasks := update_rows P f (db_tasks s)\<rparr>)"
    by (auto simp: same_shape_def)
  have "served (db_tasks s) - {k. Some k \<in> Q} \<subseteq> served (update_rows P f (db_tasks s))"
    by (rule served_update) (use assms(2,3) in blast)+
  with assms(1) show "waiting (db_submissions (s\<lparr>db_tasks := update_rows P f (db_tasks s)\<rparr>))
      \<subseteq> served (db_tasks (s\<lparr>db_tasks := update_rows P f (db_tasks s)\<rparr>)) \<union> (K \<union> {k. Some k \<in> Q})"
    by (auto simp: lifecycle_inv_def)
qed

lemma inv_tasks_open:
  assumes "lifecycle_inv K s"
    and "\<And>t. P t \<Longrightarrow> ta_ID (f t) = ta_ID t \<and> ta_SubmissionID (f t) = ta_SubmissionID t \<and> (task_open t \<longrightarrow> task_open (f t))"
  shows "lifecycle_inv K (s\<lparr>db_tasks := update_rows P f (db_tasks s)\<rparr>)"
  using inv_tasks [OF assms(1), of P f "{}"] assms(2) by simp

lemma inv_tasks_owed:
  assumes "lifecycle_inv K s"
    and "\<And>t. P t \<Longrightarrow> ta_ID (f t) = ta_ID t \<and> ta_SubmissionID (f t) = ta_SubmissionID t"
    and "\<And>t. t \<in> set (db_tasks s) \<Longrightarrow> P t \<Longrightarrow> ta_SubmissionID t = Some sid"
  shows "lifecycle_inv (insert sid K) (s\<lparr>db_tasks := update_rows P f (db_tasks s)\<rparr>)"
  using inv_tasks [OF assms(1), of P f "{Some sid}"] assms(2,3) by simp

lemma inv_submissions:
  assumes "lifecycle_inv K s" and "\<And>r. P r \<Longrightarrow> su_ID (f r) = su_ID r \<and> \<not> terminalStatus (su_Status r)"
  shows "lifecycle_inv K (s\<lparr>db_submissions := update_rows P f (db_submissions s)\<rparr>)"
proof (rule inv_by_shape [OF assms(1)])
  have "map su_ID (update_rows P f (db_submissions s)) = map su_ID (db_submissions s)"
    using assms(2) by (intro map_update_rows) auto
  then show "same_shape s (s\<lparr>db_submissions := update_rows P f (db_submissions s)\<rparr>)"
    by (auto simp: same_shape_def)
  have "waiting (update_rows P f (db_submissions s)) \<subseteq> waiting (db_submissions s)"
    by (rule waiting_update) (rule assms(2))
  with assms(1) show "waiting (db_submissions (s\<lparr>db_submissions := update_rows P f (db_submissions s)\<rparr>))
      \<subseteq> served (db_tasks (s\<lparr>db_submissions := update_rows P f (db_submissions s)\<rparr>)) \<union> K"
    by (auto simp: lifecycle_inv_def)
qed

lemma inv_judged:
  assumes "lifecycle_inv K s" and "\<And>r. P r \<Longrightarrow> su_ID (f r) = su_ID r \<and> terminalStatus (su_Status (f r))"
    and "\<And>r. r \<in> set (db_submissions s) \<Longrightarrow> su_ID r = sid \<Longrightarrow> \<not> terminalStatus (su_Status r) \<Longrightarrow> P r"
  shows "lifecycle_inv (K - {sid}) (s\<lparr>db_submissions := update_rows P f (db_submissions s)\<rparr>)"
proof (rule inv_by_shape [OF assms(1)])
  have "map su_ID (update_rows P f (db_submissions s)) = map su_ID (db_submissions s)"
    using assms(2) by (intro map_update_rows) auto
  then show "same_shape s (s\<lparr>db_submissions := update_rows P f (db_submissions s)\<rparr>)"
    by (auto simp: same_shape_def)
  have "waiting (update_rows P f (db_submissions s)) \<subseteq> waiting (db_submissions s) - {sid}"
    by (rule waiting_judged) (use assms(2,3) in blast)+
  with assms(1) show "waiting (db_submissions (s\<lparr>db_submissions := update_rows P f (db_submissions s)\<rparr>))
      \<subseteq> served (db_tasks (s\<lparr>db_submissions := update_rows P f (db_submissions s)\<rparr>)) \<union> (K - {sid})"
    by (auto simp: lifecycle_inv_def)
qed

lemma inv_items:
  assumes "lifecycle_inv K s" and "\<And>i. P i \<Longrightarrow> it_TaskID (f i) = it_TaskID i \<and> it_SubmissionID (f i) = it_SubmissionID i"
  shows "lifecycle_inv K (s\<lparr>db_items := update_rows P f (db_items s)\<rparr>)"
proof (rule inv_by_shape [OF assms(1)])
  have "item_refs (update_rows P f (db_items s)) \<subseteq> item_refs (db_items s)"
    using assms(2) by (auto simp: item_refs_def update_rows_def)
  then show "same_shape s (s\<lparr>db_items := update_rows P f (db_items s)\<rparr>)" by (auto simp: same_shape_def)
qed (use assms(1) in \<open>simp add: lifecycle_inv_def\<close>)

lemma inv_judged_before:
  assumes "lifecycle_inv K s" and "List.find (\<lambda>r. su_ID r = sid) (db_submissions s) = Some r"
    and "terminalStatus (su_Status r)"
  shows "lifecycle_inv (K - {sid}) s"
proof -
  have "sid \<notin> waiting (db_submissions s)"
    using find_Some_set [OF assms(2)] assms(1,3)
    by (auto simp: waiting_def lifecycle_inv_def keyed_def distinct_map inj_on_def)
  with assms(1) show ?thesis by (auto simp: lifecycle_inv_def)
qed

lemma inv_mono: "lifecycle_inv K s \<Longrightarrow> K \<subseteq> K' \<Longrightarrow> lifecycle_inv K' s"
  by (auto simp: lifecycle_inv_def)

subsection \<open>The queries keep it\<close>

text \<open>The tables the invariant is about; whatever leaves them alone preserves it.\<close>

definition judging_tables :: "store \<Rightarrow> submission_row list \<times> judge_task_row list \<times> judge_attempt_row list
    \<times> rejudge_item_row list \<times> submission_result_row list \<times> int64 \<times> int64" where
  "judging_tables s = (db_submissions s, db_tasks s, db_attempts s, db_items s, db_submission_results s,
     seq_submissions s, seq_tasks s)"

lemma inv_judging_tables: "judging_tables s' = judging_tables s \<Longrightarrow> lifecycle_inv K s' = lifecycle_inv K s"
  by (simp add: judging_tables_def lifecycle_inv_def keyed_def linked_def)

lemma preserves_judging_tables: "keeps judging_tables m \<Longrightarrow> preserves (lifecycle_inv K) m"
  unfolding preserves_def keeps_def using inv_judging_tables by blast

lemma keeps_other_tables [keeps_intros]:
  "keeps judging_tables (q_GetContestByID cid)"
  "keeps judging_tables (q_ListContestProblems cid)"
  "keeps judging_tables (q_LockContestRegistration cid u)"
  "keeps judging_tables (q_EnsureContestProblemResultProjection cid u p)"
  "keeps judging_tables (q_LockContestProblemResultProjection cid u p)"
  "keeps judging_tables (q_ListContestProblemSubmissionsForProjection cid u p)"
  "keeps judging_tables (q_UpsertContestProblemResult row)"
  "keeps judging_tables (q_ListContestProblemResultsForUsers cid us)"
  "keeps judging_tables (q_UpdateContestRegistrationScore a b cid u)"
  "keeps judging_tables (q_IncrementContestScoreRevision cid)"
  unfolding keeps_def
  by (auto simp: q_GetContestByID_def q_ListContestProblems_def q_LockContestRegistration_def
      q_EnsureContestProblemResultProjection_def q_LockContestProblemResultProjection_def
      q_ListContestProblemSubmissionsForProjection_def q_UpsertContestProblemResult_def
      q_ListContestProblemResultsForUsers_def q_UpdateContestRegistrationScore_def
      q_IncrementContestScoreRevision_def tx_simps Let_def judging_tables_def split: if_splits)

lemma keeps_batch_tables [keeps_intros]:
  "keeps judging_tables (q_CreateJudgeCaseResult row)"
  "keeps judging_tables (q_RefreshRejudgeBatchProgress bid)"
  "keeps judging_tables (q_GetQueuedRejudgeBatchItemByTaskID tid)"
  "keeps judging_tables (q_CreateRejudgeBatch p c u st why n)"
  "keeps judging_tables (q_CancelRejudgeBatch n e f bid)"
  "keeps judging_tables (q_GetRejudgeBatchByID bid)"
  "keeps judging_tables (q_ListRejudgeBatchItems bid)"
  "keeps judging_tables (q_ListEligibleSubmissions P)"
  unfolding keeps_def
  by (auto simp: q_CreateJudgeCaseResult_def q_RefreshRejudgeBatchProgress_def
      q_GetQueuedRejudgeBatchItemByTaskID_def q_CreateRejudgeBatch_def q_CancelRejudgeBatch_def
      q_GetRejudgeBatchByID_def q_ListRejudgeBatchItems_def q_ListEligibleSubmissions_def
      tx_simps Let_def judging_tables_def)

lemma keeps_projection_tables [keeps_intros]:
  "keeps judging_tables (lockContestProblemProjection sub)"
  "keeps judging_tables (rebuildContestProblemResult sub lock)"
  unfolding lockContestProblemProjection_def rebuildContestProblemResult_def Let_def
  by (intro keeps_intros)+

lemmas projection_preserves [preserves_intros] = keeps_projection_tables [THEN preserves_judging_tables]
  keeps_batch_tables [THEN preserves_judging_tables]

lemma preserves_item_queries [preserves_intros]:
  "preserves (lifecycle_inv K) (q_FinishRejudgeBatchItem st em aid)"
  "preserves (lifecycle_inv K) (q_StartRejudgeBatchItem aid iid)"
  "preserves (lifecycle_inv K) (q_FailActiveRejudgeBatchItemByTaskID em tid)"
  "preserves (lifecycle_inv K) (q_CancelQueuedRejudgeBatchItems bid em)"
  unfolding preserves_def
  by (auto simp: q_FinishRejudgeBatchItem_def q_StartRejudgeBatchItem_def q_FailActiveRejudgeBatchItemByTaskID_def
      q_CancelQueuedRejudgeBatchItems_def tx_simps Let_def intro!: inv_items)

lemma preserves_task_queries [preserves_intros]:
  "preserves (lifecycle_inv K) (claim_tasks kind n)"
  "preserves (lifecycle_inv K) (q_UpdateJudgeTaskDispatching tid)"
  "preserves (lifecycle_inv K) (q_MarkJudgeTaskDispatched tid stream)"
  "preserves (lifecycle_inv K) (q_MarkJudgeTaskRunning tid)"
  "preserves (lifecycle_inv K) (q_RetryJudgeTask tid at why)"
  "preserves (lifecycle_inv K) (q_PrepareJudgeTaskForRejudge tid sid at)"
  unfolding preserves_def
  by (auto simp: claim_tasks_def q_UpdateJudgeTaskDispatching_def q_MarkJudgeTaskDispatched_def
      q_MarkJudgeTaskRunning_def q_RetryJudgeTask_def q_PrepareJudgeTaskForRejudge_def
      update_row_Inr Let_def task_open_def intro!: inv_tasks_open)

lemma preserves_submission_queries [preserves_intros]:
  "preserves (lifecycle_inv K) (q_MarkSubmissionRunning sid)"
  "preserves (lifecycle_inv K) (q_MarkSubmissionQueued sid why)"
  unfolding preserves_def
  by (auto simp: q_MarkSubmissionRunning_def q_MarkSubmissionQueued_def update_row_Inr terminalStatus_def
      intro!: inv_submissions)

subsection \<open>Attempts and results\<close>

lemma refs_agree_Un: "refs_agree tasks b (R \<union> R') \<longleftrightarrow> refs_agree tasks b R \<and> refs_agree tasks b R'"
  by (auto simp: refs_agree_def)

lemma inv_new_attempt:
  assumes "lifecycle_inv K s" and "at_RunID row = None \<or> at_SubmissionID row = None"
    and "\<And>tid. at_TaskID row = Some tid \<Longrightarrow> refs_agree (db_tasks s) (seq_tasks s) {(tid, at_SubmissionID row)}"
  shows "lifecycle_inv K (s\<lparr>db_attempts := db_attempts s @ [row], seq_attempts := n\<rparr>)"
proof -
  have "attempt_refs (db_attempts s @ [row])
      = attempt_refs (db_attempts s) \<union> (case at_TaskID row of None \<Rightarrow> {} | Some tid \<Rightarrow> {(tid, at_SubmissionID row)})"
    by (auto simp: attempt_refs_def split: option.splits)
  moreover have "refs_agree (db_tasks s) (seq_tasks s)
      (case at_TaskID row of None \<Rightarrow> {} | Some tid \<Rightarrow> {(tid, at_SubmissionID row)})"
    using assms(3) by (auto simp: refs_agree_def split: option.splits)
  ultimately show ?thesis using assms(1,2) by (auto simp: lifecycle_inv_def keyed_def linked_def refs_agree_Un)
qed

lemma inv_CreateJudgeAttempt:
  assumes "q_CreateJudgeAttempt params s = Inr (row, s')" and "lifecycle_inv K s"
    and "\<And>tid. at_TaskID params = Some tid \<Longrightarrow> refs_agree (db_tasks s) (seq_tasks s) {(tid, at_SubmissionID params)}"
  shows "lifecycle_inv K s'"
proof -
  let ?row = "params\<lparr>at_ID := seq_attempts s, at_Score := 0, at_CreatedAt := db_now s, at_UpdatedAt := db_now s\<rparr>"
  from assms(1) have c: "attempt_constraints params (db_attempts s)"
    and s': "s' = s\<lparr>db_attempts := db_attempts s @ [?row], seq_attempts := seq_attempts s + 1\<rparr>"
    by (auto simp: q_CreateJudgeAttempt_def tx_simps Let_def)
  show ?thesis
    unfolding s' by (rule inv_new_attempt) (use assms(2,3) c in \<open>auto simp: attempt_constraints_def\<close>)
qed

lemma preserves_upsert [preserves_intros]: "preserves (lifecycle_inv K) (upsert_result sid aid st r)"
proof -
  have "lifecycle_inv K s'"
    if q: "q_UpsertSubmissionResult sid aid st t m fi fg ec sm s = Inr (x, s')" and inv: "lifecycle_inv K s"
    for s x s' t m fi fg ec sm
  proof (rule inv_by_shape [OF inv])
    from q show "same_shape s s'"
      by (auto simp: q_UpsertSubmissionResult_def upsert_submission_result_def tx_simps Let_def same_shape_def
          set_update_rows split: option.splits)
    from q inv show "waiting (db_submissions s') \<subseteq> served (db_tasks s') \<union> K"
      by (auto simp: q_UpsertSubmissionResult_def tx_simps Let_def lifecycle_inv_def)
  qed
  then show ?thesis by (auto simp: preserves_def upsert_result_def Let_def)
qed

lemma preserves_finish_item [preserves_intros]: "preserves (lifecycle_inv K) (finish_rejudge_item a)"
  unfolding finish_rejudge_item_def by (intro preserves_intros)

text \<open>Closing the task of an attempt leaves only the attempt's submission without an open task.\<close>

definition owed :: "int64 option \<Rightarrow> int64 set" where
  "owed subject = {k. subject = Some k}"

lemma inv_close_task:
  assumes "lifecycle_inv K s" and "a \<in> set (db_attempts s)"
  shows "lifecycle_inv (K \<union> owed (at_SubmissionID a)) (s\<lparr>db_tasks := close_task now (at_TaskID a) (db_tasks s)\<rparr>)"
proof (cases "at_TaskID a")
  case None
  with assms(1) show ?thesis by (auto simp: close_task_def intro: inv_mono)
next
  case (Some tid)
  with assms have agree: "\<And>t. t \<in> set (db_tasks s) \<Longrightarrow> ta_ID t = tid \<Longrightarrow> ta_SubmissionID t = at_SubmissionID a"
    by (fastforce simp: lifecycle_inv_def linked_def refs_agree_def attempt_refs_def)
  have "owed (at_SubmissionID a) = {k. Some k \<in> {at_SubmissionID a}}" by (auto simp: owed_def)
  then show ?thesis
    unfolding Some close_task_def option.case by (simp only:) (rule inv_tasks [OF assms(1)], use agree in auto)
qed

lemma keeps_finishJudgeAttempt:
  "keeps (\<lambda>s. (db_items s, db_submission_results s)) (finishJudgeAttempt attempt input status)"
proof -
  let ?V = "\<lambda>s. (db_items s, db_submission_results s)"
  have [keeps_intros]: "keeps ?V (q_MarkJudgeAttemptFinished aid p)" "keeps ?V (q_CreateJudgeCaseResult row)"
    "keeps ?V (q_MarkJudgeTaskDone tid)" for aid p row tid
    unfolding keeps_def
    by (auto simp: q_MarkJudgeAttemptFinished_def q_CreateJudgeCaseResult_def q_MarkJudgeTaskDone_def tx_simps Let_def)
  have "keeps ?V (bind_tx (q_MarkJudgeAttemptFinished (at_ID attempt) p) (\<lambda>finished.
        bind_tx (mapM_tx q_CreateJudgeCaseResult rows) (\<lambda>_.
          case at_TaskID finished of
            None \<Rightarrow> return_tx finished
          | Some tid \<Rightarrow> bind_tx (or_no_rows (q_MarkJudgeTaskDone tid)) (\<lambda>_. return_tx finished))))" for p rows
    by (intro keeps_intros)
  then show ?thesis unfolding keeps_def finishJudgeAttempt_def Let_def by blast
qed

lemma inv_finishJudgeAttempt:
  assumes "finishJudgeAttempt attempt input status s = Inr (finished, s')" and "lifecycle_inv K s"
    and "List.find (\<lambda>a. at_ID a = at_ID attempt) (db_attempts s) = Some a"
  shows "lifecycle_inv (K \<union> owed (at_SubmissionID a)) s' \<and> db_submissions s' = db_submissions s"
proof -
  let ?s1 = "s\<lparr>db_attempts := update_rows (\<lambda>r. at_ID r = at_ID attempt) (finished_row input status s) (db_attempts s)\<rparr>"
  note e = finishJudgeAttempt_effect [OF assms(1)]
  have inv1: "lifecycle_inv K ?s1"
  proof (rule inv_by_shape [OF assms(2)])
    show "same_shape s ?s1" by (auto simp: same_shape_def attempt_refs_def set_update_rows)
  qed (use assms(2) in \<open>simp add: lifecycle_inv_def\<close>)
  have fin: "finished = finished_row input status s a" "at_ID a = at_ID attempt" "a \<in> set (db_attempts s)"
    using e assms(3) find_Some_set [OF assms(3)] by auto
  then have "finished \<in> set (db_attempts ?s1)" by (auto simp: set_update_rows)
  from inv_close_task [OF inv1 this, of "db_now s"] fin(1) have
    "lifecycle_inv (K \<union> owed (at_SubmissionID a)) (?s1\<lparr>db_tasks := close_task (db_now s) (at_TaskID finished) (db_tasks ?s1)\<rparr>)"
    by simp
  moreover have "judging_tables s' = judging_tables (?s1\<lparr>db_tasks := close_task (db_now s) (at_TaskID finished) (db_tasks ?s1)\<rparr>)"
    using e keepsD [OF keeps_finishJudgeAttempt assms(1)] by (auto simp: judging_tables_def)
  ultimately show ?thesis using e inv_judging_tables by blast
qed

end
