(* ===== verification/Submission_Lifecycle.thy ===== *)
theory Submission_Lifecycle
  imports Lifecycle_Invariant
begin

section \<open>The life of a submission\<close>

text \<open>
  Every repository operation that writes the judging tables keeps the invariant, so it holds in every
  state the operations can reach: no submission is lost. And a verdict stays until it is reopened.
\<close>

subsection \<open>The operations keep it\<close>

lemma inv_discharge: "lifecycle_inv K s \<Longrightarrow> sid \<notin> waiting (db_submissions s) \<Longrightarrow> lifecycle_inv (K - {sid}) s"
  by (auto simp: lifecycle_inv_def)

lemma inv_persist_submission_result:
  assumes "persist_submission_result attempt input status lock sub s = Inr (p, s')" and "lifecycle_inv {} s"
    and "List.find (\<lambda>a. at_ID a = at_ID attempt) (db_attempts s) = Some a" and "at_SubmissionID a = Some sid"
    and "sid \<notin> waiting (db_submissions s)"
  shows "lifecycle_inv {} s'"
proof -
  from assms(1) obtain finished s1 where fin: "finishJudgeAttempt attempt input status s = Inr (finished, s1)"
    and rest: "bind_tx (upsert_result (su_ID sub) (at_ID attempt) status (ca_Result input)) (\<lambda>_.
     bind_tx (rebuildContestProblemResult sub lock) (\<lambda>_.
     bind_tx (finish_rejudge_item finished) (\<lambda>_. return_tx True))) s1 = Inr (p, s')"
    unfolding persist_submission_result_def bind_tx_Inr by blast
  from inv_finishJudgeAttempt [OF fin assms(2,3)] assms(4) have inv1: "lifecycle_inv {sid} s1"
    and subs: "db_submissions s1 = db_submissions s" by (simp_all add: owed_def)
  from inv_discharge [OF inv1, of sid] assms(5) subs have inv1: "lifecycle_inv {} s1" by simp
  have "preserves (lifecycle_inv {}) (bind_tx (upsert_result (su_ID sub) (at_ID attempt) status (ca_Result input)) (\<lambda>_.
     bind_tx (rebuildContestProblemResult sub lock) (\<lambda>_.
     bind_tx (finish_rejudge_item finished) (\<lambda>_. return_tx True))))"
    by (intro preserves_intros)
  from preservesD [OF this rest inv1] show ?thesis .
qed

text \<open>Writing a verdict takes the submission off the waiting list.\<close>

lemma inv_UpdateSubmissionStatus:
  fixes result :: judge_result
  assumes "or_no_rows (q_UpdateSubmissionStatus sid status (int4 (jr_TimeMS result)) (int4 (jr_MemoryKB result))
              (text_param (jr_ErrorMessage result)) (judgedAtParam (jr_JudgedAt result))) s = Inr (updated, s')"
    and "List.find (\<lambda>r. su_ID r = sid) (db_submissions s) = Some sub" and "\<not> terminalStatus (su_Status sub)"
    and "terminalStatus status" and "lifecycle_inv K s"
  shows "lifecycle_inv (K - {sid}) s' \<and> sid \<notin> waiting (db_submissions s') \<and> updated \<noteq> None
    \<and> db_attempts s' = db_attempts s"
proof -
  let ?P = "\<lambda>r. su_ID r = sid \<and> \<not> terminalStatus (su_Status r)"
  let ?f = "judged_row result status (db_now s)"
  from UpdateSubmissionStatus_effect [OF assms(1-3)] have
    s': "s' = s\<lparr>db_submissions := update_rows ?P ?f (db_submissions s)\<rparr>" and "updated \<noteq> None" by auto
  moreover have "lifecycle_inv (K - {sid}) (s\<lparr>db_submissions := update_rows ?P ?f (db_submissions s)\<rparr>)"
    by (rule inv_judged) (use assms(4,5) in auto)
  moreover have "waiting (update_rows ?P ?f (db_submissions s)) \<subseteq> waiting (db_submissions s) - {sid}"
    by (rule waiting_judged) (use assms(4) in auto)
  ultimately show ?thesis by auto
qed

lemma inv_completeSubmissionAttempt:
  assumes "completeSubmissionAttempt attempt sid input status s = Inr (p, s')" and "lifecycle_inv {} s"
    and "terminalStatus status"
    and "List.find (\<lambda>a. at_ID a = at_ID attempt) (db_attempts s) = Some a" and "at_SubmissionID a = Some sid"
  shows "lifecycle_inv {} s'"
proof -
  from assms(1) obtain sub where rec: "List.find (\<lambda>r. su_ID r = sid) (db_submissions s) = Some sub"
    by (auto simp: completeSubmissionAttempt_def bind_tx_Inr q_LockSubmissionByID_def select_row_Inr)
  show ?thesis
  proof (cases "terminalStatus (su_Status sub)")
    case True
    with assms(1,2) rec show ?thesis
      by (auto simp: completeSubmissionAttempt_def bind_tx_Inr q_LockSubmissionByID_def select_row_Inr return_tx_Inr)
  next
    case False
    with assms rec obtain lock s1 updated s2 where
      lock: "lockContestProblemProjection sub s = Inr (lock, s1)"
      and upd: "or_no_rows (q_UpdateSubmissionStatus sid status (int4 (jr_TimeMS (ca_Result input)))
          (int4 (jr_MemoryKB (ca_Result input))) (text_param (jr_ErrorMessage (ca_Result input)))
          (judgedAtParam (jr_JudgedAt (ca_Result input)))) s1 = Inr (updated, s2)"
      and rest: "(case updated of Some row \<Rightarrow> persist_submission_result attempt input status lock row
           | None \<Rightarrow> bind_tx (q_GetSubmissionByID sid) (\<lambda>row.
                 if terminalStatus (su_Status row) then return_tx False
                 else persist_submission_result attempt input status lock row)) s2 = Inr (p, s')"
      by (auto simp: completeSubmissionAttempt_def bind_tx_Inr q_LockSubmissionByID_def select_row_Inr Let_def)
    have s1: "judging_tables s1 = judging_tables s" by (rule keepsD [OF keeps_projection_tables(1) lock])
    then have rec1: "List.find (\<lambda>r. su_ID r = sid) (db_submissions s1) = Some sub"
      and att: "db_attempts s1 = db_attempts s" and inv1: "lifecycle_inv {} s1"
      using rec assms(2) inv_judging_tables [OF s1] by (simp_all add: judging_tables_def)
    from inv_UpdateSubmissionStatus [OF upd rec1 False assms(3) inv1] obtain row where
      inv2: "lifecycle_inv {} s2" "sid \<notin> waiting (db_submissions s2)" "updated = Some row" "db_attempts s2 = db_attempts s1"
      by auto
    from rest inv2(3) have "persist_submission_result attempt input status lock row s2 = Inr (p, s')" by simp
    then show ?thesis
      using inv_persist_submission_result [OF _ inv2(1) _ assms(5) inv2(2)] assms(4) att inv2(4) by simp
  qed
qed

lemma inv_completeRunAttempt:
  assumes "completeRunAttempt attempt rid input status s = Inr (p, s')" and "lifecycle_inv {} s"
    and "List.find (\<lambda>a. at_ID a = at_ID attempt) (db_attempts s) = Some a" and "at_RunID a = Some rid"
  shows "lifecycle_inv {} s'"
proof -
  have "at_SubmissionID a = None"
    using assms(2,4) find_Some_set [OF assms(3)] by (auto simp: lifecycle_inv_def linked_def)
  then have none: "owed (at_SubmissionID a) = {}" by (simp add: owed_def)
  from assms(1) have "s' = s \<or> (\<exists>rows finished. finishJudgeAttempt attempt input status (s\<lparr>db_runs := rows\<rparr>) = Inr (finished, s'))"
    by (auto simp: completeRunAttempt_def bind_tx_Inr q_LockRunByID_def q_UpdateRunStatus_judged select_row_Inr
          update_row_Inr check_tx_Inr return_tx_Inr Let_def split: if_splits)
  then show ?thesis
  proof (elim disjE exE)
    fix rows finished assume fin: "finishJudgeAttempt attempt input status (s\<lparr>db_runs := rows\<rparr>) = Inr (finished, s')"
    have "lifecycle_inv {} (s\<lparr>db_runs := rows\<rparr>)"
      using inv_judging_tables [of "s\<lparr>db_runs := rows\<rparr>" s] assms(2) by (simp add: judging_tables_def)
    from inv_finishJudgeAttempt [OF fin this] assms(3) none show ?thesis by simp
  qed (use assms(2) in simp)
qed

lemma inv_complete_attempt:
  assumes "complete_attempt aid input s = Inr (p, s')" and "lifecycle_inv {} s"
  shows "lifecycle_inv {} s'"
proof -
  let ?status = "dbStatus (ca_Status input)"
  from assms obtain attempt where att: "List.find (\<lambda>a. at_ID a = aid) (db_attempts s) = Some attempt"
    and rest: "complete_subject attempt input ?status s = Inr (p, s')"
    by (auto simp: complete_attempt_def bind_tx_Inr q_GetJudgeAttemptByID_def q_LockJudgeAttemptByID_def
        q_LockJudgeTaskByID_def select_row_Inr return_tx_Inr split: option.splits)
  from find_Some_set [OF att] att have self: "List.find (\<lambda>a. at_ID a = at_ID attempt) (db_attempts s) = Some attempt" by auto
  from rest assms(2) inv_completeRunAttempt [OF _ assms(2) self] inv_completeSubmissionAttempt [OF _ assms(2) _ self]
  show ?thesis
    by (auto simp: complete_subject_def return_tx_Inr fail_tx_Inr split: if_splits option.splits)
qed

lemma inv_persistJudgeResult:
  assumes "persistJudgeResult sub result s = Inr (x, s')" and "lifecycle_inv K s"
  shows "lifecycle_inv K s'"
proof -
  from assms(1) obtain latest attempt s1 s2 s3 ys v where
    "or_no_rows (q_GetLatestJudgeAttemptBySubmissionID (Some (su_ID sub))) s = Inr (latest, s1)"
    and att: "q_CreateJudgeAttempt (judged_attempt sub result (case latest of None \<Rightarrow> 1 | Some l \<Rightarrow> at_AttemptNo l + 1)
       (if jr_JudgedAt result = 0 then go_now s else jr_JudgedAt result)) s1 = Inr (attempt, s2)"
    and cases: "mapM_tx q_CreateJudgeCaseResult
                (map (\<lambda>item. case_row (at_ID attempt) (jc_Index item) item) (jr_Cases result)) s2 = Inr (ys, s3)"
    and up: "upsert_result (su_ID sub) (at_ID attempt) (dbStatus (jr_Verdict result)) result s3 = Inr (v, s')"
    unfolding persistJudgeResult_def Let_def bind_tx_Inr return_tx_Inr by blast
  then have "s1 = s"
    by (auto simp: or_no_rows_Inr q_GetLatestJudgeAttemptBySubmissionID_def latest_attempt_def split: option.splits list.splits)
  with inv_CreateJudgeAttempt [OF att, of K] assms(2) have "lifecycle_inv K s2"
    by (simp add: judged_attempt_def Let_def)
  with preservesD [OF preserves_mapM [OF projection_preserves(3)] cases] have "lifecycle_inv K s3" by blast
  with preservesD [OF preserves_upsert up] show ?thesis by blast
qed

lemma preserves_complete_submission: "preserves (lifecycle_inv {}) (complete_submission sid result)"
proof -
  have "lifecycle_inv {} s'" if c: "complete_submission sid result s = Inr (x, s')" and inv: "lifecycle_inv {} s" for s x s'
  proof -
    from c obtain sub where rec: "List.find (\<lambda>r. su_ID r = sid) (db_submissions s) = Some sub"
      by (auto simp: complete_submission_def bind_tx_Inr q_LockSubmissionByID_def select_row_Inr)
    show ?thesis
    proof (cases "terminalStatus (su_Status sub)")
      case True
      with c inv rec show ?thesis
        by (auto simp: complete_submission_def bind_tx_Inr q_LockSubmissionByID_def select_row_Inr return_tx_Inr)
    next
      case False
      with c rec obtain lock s1 updated s2 where
        lock: "lockContestProblemProjection sub s = Inr (lock, s1)"
        and upd: "or_no_rows (q_UpdateSubmissionStatus sid (dbStatus (jr_Verdict result)) (int4 (jr_TimeMS result))
                    (int4 (jr_MemoryKB result)) (text_param (jr_ErrorMessage result))
                    (judgedAtParam (jr_JudgedAt result))) s1 = Inr (updated, s2)"
        and rest: "(case updated of None \<Rightarrow> q_GetSubmissionByID sid
           | Some row \<Rightarrow> bind_tx (persistJudgeResult row result) (\<lambda>_.
               bind_tx (rebuildContestProblemResult row lock) (\<lambda>_. return_tx row))) s2 = Inr (x, s')"
        by (auto simp: complete_submission_def bind_tx_Inr q_LockSubmissionByID_def select_row_Inr Let_def)
      have s1: "judging_tables s1 = judging_tables s" by (rule keepsD [OF keeps_projection_tables(1) lock])
      then have rec1: "List.find (\<lambda>r. su_ID r = sid) (db_submissions s1) = Some sub" and inv1: "lifecycle_inv {} s1"
        using rec inv inv_judging_tables [OF s1] by (simp_all add: judging_tables_def)
      from inv_UpdateSubmissionStatus [OF upd rec1 False terminal_dbStatus inv1] obtain row where
        inv2: "lifecycle_inv {} s2" "updated = Some row" by auto
      with rest obtain y s3 u where p: "persistJudgeResult row result s2 = Inr (y, s3)"
        and r: "rebuildContestProblemResult row lock s3 = Inr (u, s')" by (auto simp: bind_tx_Inr return_tx_Inr)
      from preservesD [OF projection_preserves(2) r inv_persistJudgeResult [OF p inv2(1)]] show ?thesis .
    qed
  qed
  then show ?thesis by (auto simp: preserves_def)
qed

text \<open>Marking a submission as a system error pays what is owed to it.\<close>

lemma inv_markSubmissionSystemError:
  assumes "markSubmissionSystemError sid reason s = Inr (x, s')" and "lifecycle_inv K s"
  shows "lifecycle_inv (K - {sid}) s'"
proof -
  from assms(1) obtain sub where rec: "List.find (\<lambda>r. su_ID r = sid) (db_submissions s) = Some sub"
    by (auto simp: markSubmissionSystemError_def bind_tx_Inr q_LockSubmissionByID_def select_row_Inr)
  show ?thesis
  proof (cases "terminalStatus (su_Status sub)")
    case True
    with assms rec inv_judged_before [OF assms(2) rec] show ?thesis
      by (auto simp: markSubmissionSystemError_def bind_tx_Inr q_LockSubmissionByID_def select_row_Inr return_tx_Inr)
  next
    case False
    with assms(1) rec obtain lock s1 updated s2 where
      lock: "lockContestProblemProjection sub s = Inr (lock, s1)"
      and upd: "or_no_rows (q_MarkSubmissionSystemError sid (text_param reason)) s1 = Inr (updated, s2)"
      and rest: "(case updated of None \<Rightarrow> return_tx sub
           | Some row \<Rightarrow> bind_tx (rebuildContestProblemResult row lock) (\<lambda>_. return_tx row)) s2 = Inr (x, s')"
      by (auto simp: markSubmissionSystemError_def bind_tx_Inr q_LockSubmissionByID_def select_row_Inr Let_def)
    have s1: "judging_tables s1 = judging_tables s" by (rule keepsD [OF keeps_projection_tables(1) lock])
    then have rec1: "List.find (\<lambda>r. su_ID r = sid) (db_submissions s1) = Some sub" and inv1: "lifecycle_inv K s1"
      using rec assms(2) inv_judging_tables [OF s1] by (simp_all add: judging_tables_def)
    from find_guarded [OF rec1, of "\<lambda>r. \<not> terminalStatus (su_Status r)"] False upd obtain row where row: "updated = Some row"
      by (cases updated) (auto simp: or_no_rows_Inr q_MarkSubmissionSystemError_def update_row_def split: option.splits)
    with upd have "\<exists>f. (\<forall>r. su_ID (f r) = su_ID r \<and> terminalStatus (su_Status (f r)))
       \<and> s2 = s1\<lparr>db_submissions := update_rows (\<lambda>r. su_ID r = sid \<and> \<not> terminalStatus (su_Status r)) f (db_submissions s1)\<rparr>"
      unfolding or_no_rows_Inr q_MarkSubmissionSystemError_def update_row_Inr option.case row
      by (elim exE conjE) (rule exI, rule conjI [rotated], assumption, simp add: terminalStatus_def)
    then obtain f where "\<And>r. su_ID (f r) = su_ID r \<and> terminalStatus (su_Status (f r))"
      "s2 = s1\<lparr>db_submissions := update_rows (\<lambda>r. su_ID r = sid \<and> \<not> terminalStatus (su_Status r)) f (db_submissions s1)\<rparr>" by blast
    with inv_judged [OF inv1, of "\<lambda>r. su_ID r = sid \<and> \<not> terminalStatus (su_Status r)" f sid]
    have inv2: "lifecycle_inv (K - {sid}) s2" by simp
    from rest row obtain u where "rebuildContestProblemResult row lock s2 = Inr (u, s')" by (auto simp: bind_tx_Inr return_tx_Inr)
    from preservesD [OF projection_preserves(2) this inv2] show ?thesis .
  qed
qed

lemma preserves_mark_task_dead: "preserves (lifecycle_inv {}) (mark_task_dead tid reason)"
proof -
  have "lifecycle_inv {} s'" if c: "mark_task_dead tid reason s = Inr (x, s')" and inv: "lifecycle_inv {} s" for s x s'
  proof -
    from c obtain task s1 sid y s2 where dead: "q_MarkJudgeTaskDead tid (text_param reason) s = Inr (task, s1)"
      and sid: "ta_SubmissionID task = Some sid"
      and err: "markSubmissionSystemError sid reason s1 = Inr (y, s2)"
      and rest: "bind_tx (or_no_rows (q_FailActiveRejudgeBatchItemByTaskID (text_param reason) tid)) (\<lambda>item.
             case item of None \<Rightarrow> return_tx task
             | Some it \<Rightarrow> bind_tx (q_RefreshRejudgeBatchProgress (it_BatchID it)) (\<lambda>_. return_tx task)) s2 = Inr (x, s')"
      unfolding mark_task_dead_def bind_tx_Inr by (auto simp: fail_tx_Inr bind_tx_Inr split: option.splits)
    have "\<And>t. t \<in> set (db_tasks s) \<Longrightarrow> ta_ID t = tid \<Longrightarrow> ta_SubmissionID t = Some sid"
    proof -
      fix t assume t: "t \<in> set (db_tasks s)" "ta_ID t = tid"
      from dead sid obtain t' where "t' \<in> set (db_tasks s)" "ta_ID t' = tid" "ta_SubmissionID t' = Some sid"
        by (auto simp: q_MarkJudgeTaskDead_def update_row_Inr dest: find_Some_set)
      with t inv show "ta_SubmissionID t = Some sid" by (auto simp: lifecycle_inv_def keyed_def distinct_map inj_on_def)
    qed
    with inv dead have "lifecycle_inv {sid} s1"
      by (auto simp: q_MarkJudgeTaskDead_def update_row_Inr intro!: inv_tasks_owed)
    from inv_markSubmissionSystemError [OF err this] have inv2: "lifecycle_inv {} s2" by simp
    have "preserves (lifecycle_inv {}) (bind_tx (or_no_rows (q_FailActiveRejudgeBatchItemByTaskID (text_param reason) tid)) (\<lambda>item.
             case item of None \<Rightarrow> return_tx task
             | Some it \<Rightarrow> bind_tx (q_RefreshRejudgeBatchProgress (it_BatchID it)) (\<lambda>_. return_tx task)))"
      by (intro preserves_intros)
    from preservesD [OF this rest inv2] show ?thesis .
  qed
  then show ?thesis by (auto simp: preserves_def)
qed

text \<open>Tasks reopened together with submissions put back into the queue.\<close>

lemma waiting_reopen:
  assumes "\<And>r. G r \<Longrightarrow> su_ID (g r) = su_ID r" and "\<And>r. r \<in> set subs \<Longrightarrow> G r \<Longrightarrow> \<not> terminalStatus (su_Status r) \<or> su_ID r \<in> S"
    and "waiting subs \<subseteq> S"
  shows "waiting (update_rows G g subs) \<subseteq> S"
proof
  fix k assume "k \<in> waiting (update_rows G g subs)"
  then obtain r where r: "r \<in> set subs" "k = su_ID (if G r then g r else r)"
      "\<not> terminalStatus (su_Status (if G r then g r else r))"
    by (auto simp: waiting_def update_rows_def)
  show "k \<in> S"
  proof (cases "G r")
    case True
    with r assms(1) [OF True] assms(2) [OF r(1) True] assms(3) show ?thesis by (auto simp: waiting_def)
  next
    case False
    with r assms(3) show ?thesis by (auto simp: waiting_def)
  qed
qed

lemma inv_reopen:
  assumes "lifecycle_inv K s"
    and "\<And>t. P t \<Longrightarrow> ta_ID (f t) = ta_ID t \<and> ta_SubmissionID (f t) = ta_SubmissionID t \<and> task_open (f t)"
    and "\<And>r. G r \<Longrightarrow> su_ID (g r) = su_ID r"
    and "\<And>r. r \<in> set (db_submissions s) \<Longrightarrow> G r \<Longrightarrow>
           \<not> terminalStatus (su_Status r) \<or> su_ID r \<in> served (update_rows P f (db_tasks s))"
  shows "lifecycle_inv K (s\<lparr>db_tasks := update_rows P f (db_tasks s), db_submissions := update_rows G g (db_submissions s)\<rparr>)"
proof -
  let ?s1 = "s\<lparr>db_tasks := update_rows P f (db_tasks s)\<rparr>"
  have inv1: "lifecycle_inv K ?s1" using assms(1) by (rule inv_tasks_open) (use assms(2) in blast)
  have "lifecycle_inv K (?s1\<lparr>db_submissions := update_rows G g (db_submissions ?s1)\<rparr>)"
  proof (rule inv_by_shape [OF inv1])
    have "map su_ID (update_rows G g (db_submissions s)) = map su_ID (db_submissions s)"
      using assms(3) by (intro map_update_rows) auto
    then show "same_shape ?s1 (?s1\<lparr>db_submissions := update_rows G g (db_submissions ?s1)\<rparr>)"
      by (auto simp: same_shape_def)
    have "waiting (update_rows G g (db_submissions s)) \<subseteq> served (db_tasks ?s1) \<union> K"
      by (rule waiting_reopen) (use assms(3,4) inv1 in \<open>auto simp: lifecycle_inv_def\<close>)
    then show "waiting (db_submissions (?s1\<lparr>db_submissions := update_rows G g (db_submissions ?s1)\<rparr>))
       \<subseteq> served (db_tasks (?s1\<lparr>db_submissions := update_rows G g (db_submissions ?s1)\<rparr>)) \<union> K"
      by simp
  qed
  then show ?thesis by simp
qed

lemma served_updated:
  "t \<in> set tasks \<Longrightarrow> P t \<Longrightarrow> ta_SubmissionID (f t) = Some k \<Longrightarrow> task_open (f t) \<Longrightarrow> k \<in> served (update_rows P f tasks)"
  by (auto simp: served_def set_update_rows)

lemma preserves_recover [preserves_intros]:
  "preserves (lifecycle_inv K) (q_RecoverDeadJudgeTask tid at why)"
  unfolding preserves_def q_RecoverDeadJudgeTask_def Let_def bind_tx_Inr update_row_Inr
  by (auto intro!: inv_reopen simp: task_open_def) (erule notE, rule served_updated, assumption, auto simp: task_open_def)

lemma preserves_reset [preserves_intros]: "preserves (lifecycle_inv K) (q_ResetStaleJudgeTasks before why)"
  unfolding preserves_def q_ResetStaleJudgeTasks_def Let_def
  by (auto intro!: inv_reopen simp: task_open_def terminalStatus_def)

lemma preserves_recover_task: "preserves (lifecycle_inv K) (recover_dead_task tid at why)"
  unfolding recover_dead_task_def q_LockJudgeTaskByID_def q_LockSubmissionByID_def q_GetSubmissionByID_def
  by (intro preserves_intros)

subsection \<open>New rows\<close>

lemma inv_new_task:
  assumes "lifecycle_inv K s" and "ta_ID row = seq_tasks s"
  shows "lifecycle_inv K (s\<lparr>db_tasks := db_tasks s @ [row], seq_tasks := seq_tasks s + 1\<rparr>)"
proof -
  have "keyed (s\<lparr>db_tasks := db_tasks s @ [row], seq_tasks := seq_tasks s + 1\<rparr>)"
    using assms by (auto simp: lifecycle_inv_def keyed_def)
  moreover have "refs_agree (db_tasks s @ [row]) (seq_tasks s + 1) R" if "refs_agree (db_tasks s) (seq_tasks s) R" for R
    using that assms(2) by (fastforce simp: refs_agree_def)
  moreover have "served (db_tasks s) \<subseteq> served (db_tasks s @ [row])" by (auto simp: served_def)
  ultimately show ?thesis using assms(1) by (auto simp: lifecycle_inv_def linked_def)
qed

lemma preserves_CreateJudgeTask [preserves_intros]:
  "preserves (lifecycle_inv K) (q_CreateJudgeTask sid rid st at)"
  unfolding preserves_def by (auto simp: q_CreateJudgeTask_def tx_simps Let_def intro!: inv_new_task)

lemma CreateJudgeTask_serves:
  assumes "q_CreateJudgeTask (Some k) rid ''pending'' at s = Inr (t, s')"
  shows "k \<in> served (db_tasks s')"
  using assms by (auto simp: q_CreateJudgeTask_def tx_simps Let_def served_def task_open_def)

lemma inv_create_submission:
  assumes "lifecycle_inv {} s"
  shows "lifecycle_inv {} (snd (CreateSubmissionWithTask arg at s))"
proof (cases "CreateSubmissionWithTask arg at s")
  case (Pair r s')
  show ?thesis
  proof (cases r)
    case (Inl e)
    with Pair assms show ?thesis by (auto simp: CreateSubmissionWithTask_def WithTx_def split: sum.splits prod.splits)
  next
    case (Inr rt)
    with Pair obtain row s1 task where c: "createSubmissionRow arg s = Inr (row, s1)"
      and t: "q_CreateJudgeTask (validInt8 (su_ID row)) None ''pending'' at s1 = Inr (task, s')"
      by (auto simp: CreateSubmissionWithTask_def WithTx_def bind_tx_Inr return_tx_Inr split: sum.splits prod.splits)
    from c have row: "su_ID row = seq_submissions s"
      and s1: "s1 = s\<lparr>db_submissions := db_submissions s @ [row], seq_submissions := seq_submissions s + 1\<rparr>"
      by (auto simp: createSubmissionRow_def q_CreateSubmission_def tx_simps Let_def)
    have inv1: "lifecycle_inv {su_ID row} s1"
      using assms row unfolding s1 by (auto simp: lifecycle_inv_def keyed_def linked_def waiting_def)
    have "0 < su_ID row" using assms row by (simp add: lifecycle_inv_def keyed_def)
    with t have "su_ID row \<in> served (db_tasks s')" by (intro CreateJudgeTask_serves) (simp add: validInt8_def)
    moreover have "lifecycle_inv {su_ID row} s'" using preservesD [OF preserves_CreateJudgeTask t inv1] .
    ultimately show ?thesis using Pair by (auto simp: lifecycle_inv_def)
  qed
qed

lemma preserves_map_err [preserves_intros]: "preserves I m \<Longrightarrow> preserves I (map_err f m)"
  by (auto simp: preserves_def map_err_def split: sum.splits)

lemma preserves_admit_run: "preserves (lifecycle_inv K) (admit_run input)"
proof -
  have "keeps judging_tables (q_CreateRun u p l st a i)" for u p l st a i
    unfolding keeps_def by (auto simp: q_CreateRun_def tx_simps Let_def judging_tables_def)
  note [preserves_intros] = this [THEN preserves_judging_tables]
  show ?thesis
    unfolding admit_run_def q_LockUserForRunAdmission_def q_CountActiveRunsByUser_def
    by (intro preserves_intros)
qed

subsection \<open>Attempts made for a task\<close>

lemma keeps_reads [keeps_intros]:
  "keeps (\<lambda>s. s) (q_GetJudgeAttemptByID aid)" "keeps (\<lambda>s. s) (q_GetQueuedRejudgeBatchItemByTaskID tid)"
  "keeps (\<lambda>s. s) (latest_attempt P)" "keeps (\<lambda>s. s) (q_LockJudgeTaskByID tid)"
  "keeps (\<lambda>s. s) (q_GetJudgeTaskBySubmissionID k)" "keeps (\<lambda>s. s) (q_LockSubmissionByID sid)"
  unfolding keeps_def
  by (auto simp: q_GetJudgeAttemptByID_def q_GetQueuedRejudgeBatchItemByTaskID_def latest_attempt_def
      q_LockJudgeTaskByID_def q_GetJudgeTaskBySubmissionID_def q_LockSubmissionByID_def select_row_Inr
      split: list.splits)

lemma keeps_attempt_reads [keeps_intros]:
  "keeps (\<lambda>s. s) (attempt_by_key key)" "keeps (\<lambda>s. s) (latestAttemptForSubject input)"
  unfolding attempt_by_key_def latestAttemptForSubject_def q_GetLatestJudgeAttemptBySubmissionID_def
    q_GetLatestJudgeAttemptByRunID_def
  by (intro keeps_intros)+

definition about_task :: "ensure_attempt_input \<Rightarrow> store \<Rightarrow> bool" where
  "about_task input s \<longleftrightarrow>
     (\<exists>t \<in> set (db_tasks s). ta_ID t = ea_TaskID input \<and> ta_SubmissionID t = ea_SubmissionID input)"

lemma about_task_refs:
  assumes "about_task input s" and "lifecycle_inv K s"
  shows "refs_agree (db_tasks s) (seq_tasks s) {(ea_TaskID input, ea_SubmissionID input)}"
proof -
  from assms(1) obtain t where t: "t \<in> set (db_tasks s)" "ta_ID t = ea_TaskID input" "ta_SubmissionID t = ea_SubmissionID input"
    by (auto simp: about_task_def)
  from assms(2) have "distinct (map ta_ID (db_tasks s))" "\<forall>t \<in> set (db_tasks s). ta_ID t < seq_tasks s"
    by (simp_all add: lifecycle_inv_def keyed_def)
  with t show ?thesis by (auto simp: refs_agree_def distinct_map inj_on_def)
qed

lemma inv_create_attempt:
  assumes "create_attempt input n item s = Inr (x, s')" and "about_task input s" and "lifecycle_inv {} s"
  shows "lifecycle_inv {} s'"
proof -
  from assms(1) obtain row s1 where
    row: "q_CreateJudgeAttempt (new_attempt input n (map_option it_BatchID item)
                (if ea_StartedAt input = 0 then go_now s else ea_StartedAt input)) s = Inr (row, s1)"
    and rest: "(case item of None \<Rightarrow> return_tx row
       | Some it \<Rightarrow> bind_tx (q_StartRejudgeBatchItem (at_ID row) (it_ID it)) (\<lambda>_.
           bind_tx (q_RefreshRejudgeBatchProgress (it_BatchID it)) (\<lambda>_. return_tx row))) s1 = Inr (x, s')"
    unfolding create_attempt_def bind_tx_Inr by blast
  have inv1: "lifecycle_inv {} s1"
    by (rule inv_CreateJudgeAttempt [OF row assms(3)])
      (use about_task_refs [OF assms(2,3)] in \<open>auto simp: new_attempt_def split: if_splits\<close>)
  have "preserves (lifecycle_inv {}) (case item of None \<Rightarrow> return_tx row
       | Some it \<Rightarrow> bind_tx (q_StartRejudgeBatchItem (at_ID row) (it_ID it)) (\<lambda>_.
           bind_tx (q_RefreshRejudgeBatchProgress (it_BatchID it)) (\<lambda>_. return_tx row)))"
    by (intro preserves_intros)
  from preservesD [OF this rest inv1] show ?thesis .
qed

lemma inv_ensureJudgeAttempt:
  assumes "ensureJudgeAttempt input s = Inr (x, s')" and "about_task input s" and "lifecycle_inv {} s"
  shows "lifecycle_inv {} s'"
proof -
  from assms(1) obtain known s1 where "attempt_by_key (ea_AttemptID input) s = Inr (known, s1)"
    and rest: "(case known of Some row \<Rightarrow> return_tx row
       | None \<Rightarrow> bind_tx (or_no_rows (q_GetQueuedRejudgeBatchItemByTaskID (ea_TaskID input))) (\<lambda>item.
             if ea_LanguageID input = 0
             then fail_tx (ErrText ''language_id is required to create a judge attempt'')
             else bind_tx (or_no_rows (latestAttemptForSubject input)) (\<lambda>latest.
               case latest of
                 Some l \<Rightarrow>
                   if at_TaskID l = Some (ea_TaskID input) \<and> \<not> terminalStatus (at_Status l)
                   then (case item of None \<Rightarrow> return_tx l
                         | Some it \<Rightarrow> bind_tx (or_no_rows (q_StartRejudgeBatchItem (at_ID l) (it_ID it))) (\<lambda>_. return_tx l))
                   else create_attempt input (at_AttemptNo l + 1) item
               | None \<Rightarrow> create_attempt input 1 item))) s1 = Inr (x, s')"
    unfolding ensureJudgeAttempt_def bind_tx_Inr by blast
  then have s1: "s1 = s" using keepsD [OF keeps_attempt_reads(1)] by metis
  show ?thesis
  proof (cases known)
    case (Some row)
    with rest s1 assms(3) show ?thesis by (simp add: return_tx_Inr)
  next
    case None
    with rest s1 obtain item s2 latest s3 where
      "or_no_rows (q_GetQueuedRejudgeBatchItemByTaskID (ea_TaskID input)) s = Inr (item, s2)"
      "or_no_rows (latestAttemptForSubject input) s2 = Inr (latest, s3)"
      and rest: "(case latest of
                 Some l \<Rightarrow>
                   if at_TaskID l = Some (ea_TaskID input) \<and> \<not> terminalStatus (at_Status l)
                   then (case item of None \<Rightarrow> return_tx l
                         | Some it \<Rightarrow> bind_tx (or_no_rows (q_StartRejudgeBatchItem (at_ID l) (it_ID it))) (\<lambda>_. return_tx l))
                   else create_attempt input (at_AttemptNo l + 1) item
               | None \<Rightarrow> create_attempt input 1 item) s3 = Inr (x, s')"
      by (auto simp: bind_tx_Inr fail_tx_Inr split: if_splits)
    then have "s3 = s" using keepsD [OF keeps_or_no_rows [OF keeps_reads(2)]] keepsD [OF keeps_or_no_rows [OF keeps_attempt_reads(2)]] by metis
    moreover have "preserves (lifecycle_inv {}) (case item of None \<Rightarrow> return_tx l
         | Some it \<Rightarrow> bind_tx (or_no_rows (q_StartRejudgeBatchItem (at_ID l) (it_ID it))) (\<lambda>_. return_tx l))" for l
      by (intro preserves_intros)
    ultimately show ?thesis
      using rest inv_create_attempt [OF _ assms(2,3)] assms(3) by (auto simp: preserves_def split: option.splits if_splits)
  qed
qed

subsection \<open>Rejudging\<close>

lemma mapM_tx_reads:
  assumes "mapM_tx f xs s = Inr (ys, s')" and "\<And>x y s'. x \<in> set xs \<Longrightarrow> f x s = Inr (y, s') \<Longrightarrow> s' = s \<and> Q y"
  shows "s' = s \<and> (\<forall>y \<in> set ys. Q y)"
  using assms
proof (induction xs arbitrary: ys)
  case (Cons x xs)
  then obtain y s1 zs where "f x s = Inr (y, s1)" "mapM_tx f xs s1 = Inr (zs, s')" "ys = y # zs"
    by (auto simp: bind_tx_Inr return_tx_Inr)
  with Cons.IH [of zs] Cons.prems(2) show ?case by (metis list.set_intros(1,2) set_ConsD)
qed (simp add: return_tx_Inr)

text \<open>A rejudge target pairs a submission with the task that is about it.\<close>

definition paired :: "(int64 \<times> int64 option) list \<Rightarrow> rejudge_target \<Rightarrow> bool" where
  "paired subjects target \<longleftrightarrow> (ta_ID (snd target), Some (su_ID (fst target))) \<in> set subjects"

lemma lock_targets_paired:
  assumes "lock_targets subs s = Inr (targets, s')" and "lifecycle_inv {} s"
  shows "s' = s \<and> (\<forall>target \<in> set targets. paired (task_subjects (db_tasks s)) target)"
proof -
  let ?L = "task_subjects (db_tasks s)"
  from assms(1) obtain found s1 locked s2 where
    found: "mapM_tx (\<lambda>c. bind_tx (q_GetJudgeTaskBySubmissionID (validInt8 (su_ID c))) (\<lambda>t. return_tx (c, t))) subs s = Inr (found, s1)"
    and locked: "mapM_tx (\<lambda>(c, t). bind_tx (q_LockJudgeTaskByID (ta_ID t)) (\<lambda>t'. return_tx (c, t'))) (sort_by by_task found) s1
       = Inr (locked, s2)"
    and targets: "mapM_tx lock_target (sort_by by_submission locked) s2 = Inr (targets, s')"
    unfolding lock_targets_def bind_tx_Inr by blast
  have f: "s1 = s \<and> (\<forall>x \<in> set found. paired ?L x)"
    by (rule mapM_tx_reads [OF found])
      (auto simp: tx_simps q_GetJudgeTaskBySubmissionID_def validInt8_def paired_def task_subjects_def
        dest!: find_Some_set split: if_splits)
  have l: "s2 = s1 \<and> (\<forall>x \<in> set locked. paired ?L x)"
  proof (rule mapM_tx_reads [OF locked])
    fix x y s' assume x: "x \<in> set (sort_by by_task found)"
      and y: "(case x of (c, t) \<Rightarrow> bind_tx (q_LockJudgeTaskByID (ta_ID t)) (\<lambda>t'. return_tx (c, t'))) s1 = Inr (y, s')"
    from y obtain t where t: "s' = s1" "y = (fst x, t)" "ta_ID t = ta_ID (snd x)"
      by (cases x) (auto simp: tx_simps q_LockJudgeTaskByID_def dest!: find_Some_set)
    from x f have "paired ?L x" by simp
    with t show "s' = s1 \<and> paired ?L y" by (simp add: paired_def)
  qed
  have "s' = s2 \<and> (\<forall>x \<in> set targets. paired ?L x)"
  proof (rule mapM_tx_reads [OF targets])
    fix x y s' assume x: "x \<in> set (sort_by by_submission locked)" and y: "lock_target x s2 = Inr (y, s')"
    from y have "s' = s2 \<and> snd y = snd x \<and> su_ID (fst y) = su_ID (fst x)"
      by (auto simp: lock_target_def tx_simps q_LockSubmissionByID_def dest!: find_Some_set split: if_splits)
    moreover from x l have "paired ?L x" by simp
    ultimately show "s' = s2 \<and> paired ?L y" by (simp add: paired_def)
  qed
  with f l show ?thesis by simp
qed

text \<open>The invariant with the subjects of the tasks fixed, so that pairs found once stay pairs.\<close>

definition inv_at :: "(int64 \<times> int64 option) list \<Rightarrow> store \<Rightarrow> bool" where
  "inv_at subjects s \<longleftrightarrow> lifecycle_inv {} s \<and> task_subjects (db_tasks s) = subjects"

lemma inv_at_tables:
  assumes "judging_tables s' = judging_tables s"
  shows "inv_at L s' \<longleftrightarrow> inv_at L s"
  using inv_judging_tables [OF assms] assms by (simp add: inv_at_def judging_tables_def)

lemma refs_agree_paired:
  assumes "(tid, Some k) \<in> set (task_subjects (db_tasks s))" and "lifecycle_inv K s"
  shows "refs_agree (db_tasks s) (seq_tasks s) {(tid, Some k)}"
proof -
  from assms(1) obtain t where t: "t \<in> set (db_tasks s)" "ta_ID t = tid" "ta_SubmissionID t = Some k"
    by (auto simp: task_subjects_def)
  from assms(2) have "distinct (map ta_ID (db_tasks s))" "\<forall>t \<in> set (db_tasks s). ta_ID t < seq_tasks s"
    by (simp_all add: lifecycle_inv_def keyed_def)
  with t show ?thesis by (auto simp: refs_agree_def distinct_map inj_on_def)
qed

lemma inv_new_item:
  assumes "q_CreateRejudgeBatchItem bid k tid s = Inr (row, s')" and "lifecycle_inv {} s"
    and "(tid, Some k) \<in> set (task_subjects (db_tasks s))"
  shows "lifecycle_inv {} s' \<and> db_tasks s' = db_tasks s"
proof -
  from assms(1) have row: "it_TaskID row = tid" "it_SubmissionID row = k"
    and s': "s' = s\<lparr>db_items := db_items s @ [row], seq_items := seq_items s + 1\<rparr>"
    by (auto simp: q_CreateRejudgeBatchItem_def tx_simps Let_def)
  have refs: "item_refs (db_items s @ [row]) = item_refs (db_items s) \<union> {(tid, Some k)}"
    using row by (auto simp: item_refs_def)
  with refs_agree_paired [OF assms(3,2)] assms(2)
  have "refs_agree (db_tasks s) (seq_tasks s) (item_refs (db_items s @ [row]))"
    unfolding refs refs_agree_Un by (simp add: lifecycle_inv_def linked_def)
  with assms(2) show ?thesis unfolding s' by (simp add: lifecycle_inv_def keyed_def linked_def)
qed

lemma subjects_update:
  "(\<And>t. ta_ID (f t) = ta_ID t \<and> ta_SubmissionID (f t) = ta_SubmissionID t) \<Longrightarrow>
   task_subjects (update_rows P f tasks) = task_subjects tasks"
  unfolding task_subjects_def by (rule map_update_rows) simp

lemma PrepareJudgeTask_effect:
  assumes "q_PrepareJudgeTaskForRejudge tid k at s = Inr (t, s')"
  shows "k \<in> served (db_tasks s') \<and> task_subjects (db_tasks s') = task_subjects (db_tasks s)"
proof -
  from assms have "task_subjects (db_tasks s') = task_subjects (db_tasks s)"
    by (auto simp: q_PrepareJudgeTaskForRejudge_def update_row_Inr intro!: subjects_update)
  moreover from assms have "k \<in> served (db_tasks s')"
    by (auto simp: q_PrepareJudgeTaskForRejudge_def update_row_Inr task_open_def dest!: find_Some_set
        intro!: served_updated)
  ultimately show ?thesis by simp
qed

lemma inv_requeue:
  assumes "lifecycle_inv {} s" and "k \<in> served (db_tasks s)" and "\<And>r. su_ID (g r) = su_ID r"
  shows "lifecycle_inv {} (s\<lparr>db_submissions := update_rows (\<lambda>r. su_ID r = k \<and> G r) g (db_submissions s)\<rparr>)"
proof -
  have same: "update_rows (\<lambda>_. False) id (db_tasks s) = db_tasks s" by (simp add: update_rows_def)
  have "lifecycle_inv {} (s\<lparr>db_tasks := update_rows (\<lambda>_. False) id (db_tasks s),
      db_submissions := update_rows (\<lambda>r. su_ID r = k \<and> G r) g (db_submissions s)\<rparr>)"
    by (rule inv_reopen) (use assms same in auto)
  then show ?thesis unfolding same by simp
qed

lemma inv_PrepareSubmission:
  assumes "q_PrepareSubmissionForRejudge k s = Inr (r, s')" and "lifecycle_inv {} s" and "k \<in> served (db_tasks s)"
  shows "lifecycle_inv {} s' \<and> db_tasks s' = db_tasks s"
  using assms by (auto simp: q_PrepareSubmissionForRejudge_def update_row_Inr intro!: inv_requeue)

lemma preserves_enqueue_target:
  assumes "paired L target"
  shows "preserves (inv_at L) (enqueue_target bid at target)"
proof -
  let ?k = "su_ID (fst target)" and ?tid = "ta_ID (snd target)"
  have "inv_at L s'" if e: "enqueue_target bid at target s = Inr (x, s')" and inv: "inv_at L s" for s x s'
  proof -
    from e obtain i s1 lock s2 prepared s3 r s4 where
      item: "q_CreateRejudgeBatchItem bid ?k ?tid s = Inr (i, s1)"
      and lock: "lockContestProblemProjection (fst target) s1 = Inr (lock, s2)"
      and prep: "q_PrepareJudgeTaskForRejudge ?tid ?k at s2 = Inr (prepared, s3)"
      and sub: "q_PrepareSubmissionForRejudge ?k s3 = Inr (r, s4)"
      and rebuild: "rebuildContestProblemResult (fst target) lock s4 = Inr (x, s')"
      by (auto simp: enqueue_target_def Let_def bind_tx_Inr fail_tx_Inr or_no_rows_Inr split: if_splits option.splits)
    from inv_new_item [OF item] inv assms have inv1: "lifecycle_inv {} s1" "task_subjects (db_tasks s1) = L"
      by (auto simp: inv_at_def paired_def)
    have "judging_tables s2 = judging_tables s1" by (rule keepsD [OF keeps_projection_tables(1) lock])
    from inv_at_tables [OF this, of L] inv1 have inv2: "lifecycle_inv {} s2" "task_subjects (db_tasks s2) = L"
      by (simp_all add: inv_at_def)
    from preservesD [OF preserves_task_queries(6) prep inv2(1)] PrepareJudgeTask_effect [OF prep] inv2(2)
    have inv3: "lifecycle_inv {} s3" "task_subjects (db_tasks s3) = L" "?k \<in> served (db_tasks s3)" by auto
    from inv_PrepareSubmission [OF sub inv3(1,3)] inv3(2) have inv4: "lifecycle_inv {} s4" "task_subjects (db_tasks s4) = L" by auto
    have "judging_tables s' = judging_tables s4" by (rule keepsD [OF keeps_projection_tables(2) rebuild])
    from inv_at_tables [OF this, of L] inv4 show "inv_at L s'" by (simp add: inv_at_def)
  qed
  then show ?thesis by (auto simp: preserves_def)
qed

lemma preserves_mapM_set:
  assumes "\<And>x. x \<in> set xs \<Longrightarrow> preserves I (f x)"
  shows "preserves I (mapM_tx f xs)"
  using assms by (induction xs) (auto intro: preserves_intros)

lemma preserves_create_batch: "preserves (lifecycle_inv {}) (create_rejudge_batch input)"
proof -
  have "lifecycle_inv {} s'" if c: "create_rejudge_batch input s = Inr (x, s')" and inv: "lifecycle_inv {} s" for s x s'
  proof -
    from c obtain subs s1 targets s2 batch s3 ys where
      el: "eligible_submissions input s = Inr (subs, s1)" and lock: "lock_targets subs s1 = Inr (targets, s2)"
      and batch: "q_CreateRejudgeBatch (cbi_ProblemID input) (cbi_ContestID input) (cbi_RequestedBy input)
                       ''queued'' (cbi_Reason input) (of_nat (length targets)) s2 = Inr (batch, s3)"
      and en: "mapM_tx (enqueue_target (ba_ID batch) (cbi_NextRunAt input)) targets s3 = Inr (ys, s')"
      by (auto simp: create_rejudge_batch_def bind_tx_Inr fail_tx_Inr return_tx_Inr split: if_splits)
    from el have "s1 = s"
      by (auto simp: eligible_submissions_def q_ListEligibleProblemSubmissionsForRejudge_def
          q_ListEligibleContestSubmissionsForRejudge_def q_ListEligibleSubmissions_def get_tx_Inr fail_tx_Inr split: option.splits)
    with lock_targets_paired [OF lock] inv have s2: "s2 = s" "\<forall>t \<in> set targets. paired (task_subjects (db_tasks s)) t" by auto
    have "judging_tables s3 = judging_tables s2" by (rule keepsD [OF keeps_batch_tables(4) batch])
    from inv_at_tables [OF this, of "task_subjects (db_tasks s)"] inv s2(1) have "inv_at (task_subjects (db_tasks s)) s3"
      by (simp add: inv_at_def)
    moreover have "preserves (inv_at (task_subjects (db_tasks s)))
        (mapM_tx (enqueue_target (ba_ID batch) (cbi_NextRunAt input)) targets)"
      using s2(2) preserves_enqueue_target by (intro preserves_mapM_set) blast
    ultimately show ?thesis using en by (auto simp: inv_at_def dest: preservesD)
  qed
  then show ?thesis by (auto simp: preserves_def)
qed

text \<open>Cancelling: the task of a queued item closes and its submission gets the stored verdict back.\<close>

lemma inv_CancelPendingTask:
  assumes "q_CancelPendingJudgeTaskForRejudge tid why s = Inr (t, s')" and "lifecycle_inv {} s"
    and "\<forall>(i, x) \<in> set (task_subjects (db_tasks s)). i = tid \<longrightarrow> x = Some k"
  shows "lifecycle_inv {k} s' \<and> task_subjects (db_tasks s') = task_subjects (db_tasks s)"
proof -
  have "\<And>t. t \<in> set (db_tasks s) \<Longrightarrow> ta_ID t = tid \<Longrightarrow> ta_SubmissionID t = Some k"
    using assms(3) by (auto simp: task_subjects_def)
  with assms(1,2) show ?thesis
    by (auto simp: q_CancelPendingJudgeTaskForRejudge_def update_row_Inr intro!: inv_tasks_owed subjects_update)
qed

lemma inv_restore:
  assumes "lifecycle_inv {k} s" and "List.find (\<lambda>r. su_ID r = k \<and> su_Status r = ''queued'') (db_submissions s) = Some q"
    and "\<And>r. su_ID (g r) = su_ID r \<and> terminalStatus (su_Status (g r))"
  shows "lifecycle_inv {} (s\<lparr>db_submissions := update_rows (\<lambda>r. su_ID r = k \<and> su_Status r = ''queued'') g (db_submissions s)\<rparr>)"
proof -
  have only: "r = q" if "r \<in> set (db_submissions s)" "su_ID r = k" for r
    using that find_Some_set [OF assms(2)] assms(1) by (auto simp: lifecycle_inv_def keyed_def distinct_map inj_on_def)
  have "lifecycle_inv ({k} - {k}) (s\<lparr>db_submissions :=
      update_rows (\<lambda>r. su_ID r = k \<and> su_Status r = ''queued'') g (db_submissions s)\<rparr>)"
    using assms(1) by (rule inv_judged) (use assms(3) only find_Some_set [OF assms(2)] in auto)
  then show ?thesis by simp
qed

lemma inv_RestoreSubmission:
  assumes "q_RestoreSubmissionAfterCanceledRejudge k s = Inr (r, s')" and "lifecycle_inv {k} s"
  shows "lifecycle_inv {} s' \<and> db_tasks s' = db_tasks s"
proof -
  from assms(1) obtain v where v: "List.find (\<lambda>v. sv_SubmissionID v = k) (db_submission_results s) = Some v"
    by (auto simp: q_RestoreSubmissionAfterCanceledRejudge_def split: option.splits)
  have "terminalStatus (sv_Status v)"
    using find_Some_set [OF v] assms(2) by (auto simp: lifecycle_inv_def linked_def)
  with v assms show ?thesis
    by (auto simp: q_RestoreSubmissionAfterCanceledRejudge_def update_row_Inr intro!: inv_restore)
qed

lemma preserves_cancel_item:
  assumes "\<forall>(i, x) \<in> set L. i = it_TaskID item \<longrightarrow> x = Some (it_SubmissionID item)"
  shows "preserves (inv_at L) (cancel_item reason locked item)"
proof -
  let ?k = "it_SubmissionID item"
  have "inv_at L s'" if e: "cancel_item reason locked item s = Inr (x, s')" and inv: "inv_at L s" for s x s'
  proof -
    from e obtain t s1 lock s2 r s3 where
      task: "q_CancelPendingJudgeTaskForRejudge (it_TaskID item) (text_param reason) s = Inr (t, s1)"
      and lock: "(case locked_submission locked ?k of None \<Rightarrow> return_tx no_lock
                     | Some sub \<Rightarrow> lockContestProblemProjection sub) s1 = Inr (lock, s2)"
      and sub: "q_RestoreSubmissionAfterCanceledRejudge ?k s2 = Inr (r, s3)"
      and rebuild: "rebuildContestProblemResult r lock s3 = Inr (x, s')"
      by (auto simp: cancel_item_def bind_tx_Inr fail_tx_Inr or_no_rows_Inr split: if_splits option.splits)
    from inv_CancelPendingTask [OF task] inv assms have inv1: "lifecycle_inv {?k} s1" "task_subjects (db_tasks s1) = L"
      by (auto simp: inv_at_def)
    have "keeps judging_tables (case locked_submission locked ?k of None \<Rightarrow> return_tx no_lock
                     | Some sub \<Rightarrow> lockContestProblemProjection sub)" by (intro keeps_intros)
    from keepsD [OF this lock] have tables: "judging_tables s2 = judging_tables s1" .
    from inv_judging_tables [OF tables] tables inv1 have inv2: "lifecycle_inv {?k} s2" "task_subjects (db_tasks s2) = L"
      by (simp_all add: judging_tables_def)
    from inv_RestoreSubmission [OF sub inv2(1)] inv2(2) have inv3: "lifecycle_inv {} s3" "task_subjects (db_tasks s3) = L" by auto
    have "judging_tables s' = judging_tables s3" by (rule keepsD [OF keeps_projection_tables(2) rebuild])
    from inv_at_tables [OF this, of L] inv3 show "inv_at L s'" by (simp add: inv_at_def)
  qed
  then show ?thesis by (auto simp: preserves_def)
qed

lemma CancelQueued_items:
  assumes "q_CancelQueuedRejudgeBatchItems bid why s = Inr (items, s')" and "lifecycle_inv {} s" and "item \<in> set items"
  shows "\<forall>(i, x) \<in> set (task_subjects (db_tasks s')). i = it_TaskID item \<longrightarrow> x = Some (it_SubmissionID item)"
proof -
  from assms(1,3) obtain i where "i \<in> set (db_items s)" "it_TaskID item = it_TaskID i" "it_SubmissionID item = it_SubmissionID i"
    and "db_tasks s' = db_tasks s"
    by (auto simp: q_CancelQueuedRejudgeBatchItems_def Let_def)
  with assms(2) show ?thesis
    by (fastforce simp: lifecycle_inv_def linked_def refs_agree_def item_refs_def task_subjects_def)
qed

lemma preserves_cancel_batch: "preserves (lifecycle_inv {}) (cancel_rejudge_batch bid reason)"
proof -
  have "lifecycle_inv {} s'" if c: "cancel_rejudge_batch bid reason s = Inr (x, s')" and inv: "lifecycle_inv {} s" for s x s'
  proof -
    from c obtain current s1 allItems s2 ts s3 locked s4 items s5 us s6 where
      g: "map_err (mapNotFound ''rejudge.not_found'' ''rejudge batch not found'') (q_GetRejudgeBatchByID bid) s = Inr (current, s1)"
      and l: "q_ListRejudgeBatchItems bid s1 = Inr (allItems, s2)"
      and t: "mapM_tx (\<lambda>i. q_LockJudgeTaskByID (it_TaskID i))
          (sort_by items_by_task (filter (\<lambda>i. it_Status i = ''queued'') allItems)) s2 = Inr (ts, s3)"
      and u: "mapM_tx (\<lambda>i. q_LockSubmissionByID (it_SubmissionID i)) (sort_by items_by_submission
          (sort_by items_by_task (filter (\<lambda>i. it_Status i = ''queued'') allItems))) s3 = Inr (locked, s4)"
      and q: "q_CancelQueuedRejudgeBatchItems bid (text_param reason) s4 = Inr (items, s5)"
      and m: "mapM_tx (cancel_item reason locked) items s5 = Inr (us, s6)"
      and rest: "bind_tx (or_no_rows (q_CancelRejudgeBatch (ba_CanceledCount current + of_nat (length items)) (text_param reason)
                (Some (go_now s)) bid)) (\<lambda>row. case row of
         None \<Rightarrow> fail_tx (AppErr (Conflict ''rejudge.not_cancelable'' ''rejudge batch cannot be canceled''))
       | Some b \<Rightarrow> return_tx b) s6 = Inr (x, s')"
      unfolding cancel_rejudge_batch_def Let_def bind_tx_Inr by blast
    have "lifecycle_inv {} s1"
      by (rule preservesD [OF preserves_map_err [OF projection_preserves(8)] g inv])
    from preservesD [OF projection_preserves(9) l this] have "lifecycle_inv {} s2" .
    moreover have "s3 = s2" by (rule keepsD [OF keeps_mapM [OF keeps_reads(4)] t])
    moreover have "s4 = s3" by (rule keepsD [OF keeps_mapM [OF keeps_reads(6)] u])
    ultimately have inv4: "lifecycle_inv {} s4" by simp
    from preservesD [OF preserves_item_queries(4) q inv4] have "inv_at (task_subjects (db_tasks s5)) s5" by (simp add: inv_at_def)
    moreover have "preserves (inv_at (task_subjects (db_tasks s5))) (mapM_tx (cancel_item reason locked) items)"
      by (intro preserves_mapM_set preserves_cancel_item CancelQueued_items [OF q inv4])
    ultimately have inv6: "lifecycle_inv {} s6" using m by (auto simp: inv_at_def dest: preservesD)
    have "preserves (lifecycle_inv {}) (bind_tx (or_no_rows (q_CancelRejudgeBatch (ba_CanceledCount current + of_nat (length items))
        (text_param reason) (Some (go_now s)) bid)) (\<lambda>row. case row of
         None \<Rightarrow> fail_tx (AppErr (Conflict ''rejudge.not_cancelable'' ''rejudge batch cannot be canceled''))
       | Some b \<Rightarrow> return_tx b))"
      by (intro preserves_intros)
    from preservesD [OF this rest inv6] show ?thesis .
  qed
  then show ?thesis by (auto simp: preserves_def)
qed

subsection \<open>The operations as steps\<close>

text \<open>
  Every repository operation that writes submissions, tasks, attempts, rejudge items or stored results,
  with its arguments, and what it does to the store. An operation that fails leaves the store as it was.
\<close>

datatype operation =
    Submit submission_input time
  | ClaimTasks int32
  | ClaimRunTasks int32
  | TaskDispatching int64
  | TaskDispatched int64 string
  | TaskRunning int64
  | TaskDone int64
  | TaskRetry int64 time string
  | TaskDead int64 string
  | TaskRecover int64 time string
  | ResetStale time string
  | SubmissionRunning int64
  | SubmissionQueued int64 string
  | SubmissionSystemError int64 string
  | Ensure ensure_attempt_input
  | CompleteAttempt complete_attempt_input
  | CompleteSubmission int64 judge_result
  | Admit admit_run_input
  | Rejudge create_batch_input
  | CancelRejudge int64 string

fun perform :: "operation \<Rightarrow> store \<Rightarrow> store" where
  "perform (Submit arg nextRunAt) s = snd (CreateSubmissionWithTask arg nextRunAt s)"
| "perform (ClaimTasks n) s = snd (ClaimPendingJudgeTasks n s)"
| "perform (ClaimRunTasks n) s = snd (ClaimPendingRunTasks n s)"
| "perform (TaskDispatching tid) s = snd (MarkJudgeTaskDispatching tid s)"
| "perform (TaskDispatched tid stream) s = snd (MarkJudgeTaskDispatched tid stream s)"
| "perform (TaskRunning tid) s = snd (MarkJudgeTaskRunning tid s)"
| "perform (TaskDone tid) s = snd (MarkJudgeTaskDone tid s)"
| "perform (TaskRetry tid nextRunAt reason) s = snd (RetryJudgeTask tid nextRunAt reason s)"
| "perform (TaskDead tid reason) s = snd (MarkJudgeTaskDead tid reason s)"
| "perform (TaskRecover tid nextRunAt reason) s = snd (RecoverDeadJudgeTask tid nextRunAt reason s)"
| "perform (ResetStale staleBefore reason) s = snd (ResetStaleJudgeTasks staleBefore reason s)"
| "perform (SubmissionRunning sid) s = snd (MarkSubmissionRunning sid s)"
| "perform (SubmissionQueued sid reason) s = snd (MarkSubmissionQueued sid reason s)"
| "perform (SubmissionSystemError sid reason) s = snd (MarkSubmissionSystemError sid reason s)"
| "perform (Ensure input) s = snd (EnsureJudgeAttempt input s)"
| "perform (CompleteAttempt input) s = snd (CompleteJudgeAttemptResult input s)"
| "perform (CompleteSubmission sid result) s = snd (CompleteSubmissionWithResult sid result s)"
| "perform (Admit input) s = snd (AdmitRun input s)"
| "perform (Rejudge input) s = snd (CreateRejudgeBatchWithItems input s)"
| "perform (CancelRejudge bid reason) s = snd (CancelRejudgeBatch bid reason s)"

text \<open>
  What the callers check first: the dispatcher makes an attempt for the subject of the task it claimed
  (\<^verbatim>\<open>requestEvent\<close>, \<^verbatim>\<open>runRequestEvent\<close>), and the in-process worker marks a task done once it has seen or
  written a verdict for its submission (\<^verbatim>\<open>TaskProcessor.process\<close>). The query itself only asks that the task
  is in flight: on any other task it fails and changes nothing. That the verdict the worker saw still
  stands when it calls is a condition of the steps below, not something the code enforces;
  \<open>recovery_before_done_loses\<close> is what happens without it.
\<close>

definition judged_subject :: "int64 \<Rightarrow> store \<Rightarrow> bool" where
  "judged_subject tid s \<longleftrightarrow>
     (\<forall>t \<in> set (db_tasks s). \<forall>r \<in> set (db_submissions s).
        ta_ID t = tid \<longrightarrow> task_in_flight (ta_Status t) \<longrightarrow> ta_SubmissionID t = Some (su_ID r)
          \<longrightarrow> terminalStatus (su_Status r))"

fun permitted :: "operation \<Rightarrow> store \<Rightarrow> bool" where
  "permitted (TaskDone tid) s \<longleftrightarrow> judged_subject tid s"
| "permitted (Ensure input) s \<longleftrightarrow> about_task input s"
| "permitted _ s \<longleftrightarrow> True"

text \<open>
  The steps: any operation, with these two conditions on two of them. The other tables and the clocks may
  change at any time.
\<close>

inductive lifecycle_step :: "store \<Rightarrow> store \<Rightarrow> bool" where
  operate: "permitted op s \<Longrightarrow> lifecycle_step s (perform op s)"
| elsewhere: "judging_tables s' = judging_tables s \<Longrightarrow> lifecycle_step s s'"

definition nothing_submitted :: "store \<Rightarrow> bool" where
  "nothing_submitted s \<longleftrightarrow> db_submissions s = [] \<and> db_tasks s = [] \<and> db_attempts s = [] \<and> db_items s = []
     \<and> db_submission_results s = [] \<and> 0 < seq_submissions s \<and> 0 < seq_tasks s"

lemma inv_task_done:
  assumes "q_MarkJudgeTaskDone tid s = Inr (t, s')" and "judged_subject tid s" and "lifecycle_inv {} s"
  shows "lifecycle_inv {} s'"
proof -
  let ?Q = "{x. \<exists>t \<in> set (db_tasks s). ta_ID t = tid \<and> task_in_flight (ta_Status t) \<and> ta_SubmissionID t = x}"
  let ?P = "\<lambda>t. ta_ID t = tid \<and> task_in_flight (ta_Status t)"
  let ?f = "\<lambda>t. t\<lparr>ta_Status := ''done'', ta_UpdatedAt := db_now s\<rparr>"
  from assms(1) have s': "s' = s\<lparr>db_tasks := update_rows ?P ?f (db_tasks s)\<rparr>"
    by (auto simp: q_MarkJudgeTaskDone_def update_row_Inr)
  have "lifecycle_inv ({} \<union> {k. Some k \<in> ?Q}) s'"
    unfolding s' using assms(3) by (rule inv_tasks) auto
  moreover have "{k. Some k \<in> ?Q} \<inter> waiting (db_submissions s) = {}"
    using assms(2) by (auto simp: judged_subject_def waiting_def)
  moreover have "db_submissions s' = db_submissions s" unfolding s' by simp
  ultimately show ?thesis unfolding lifecycle_inv_def by (simp only: Un_empty_left Un_empty_right) blast
qed

lemma preserves_operation:
  assumes "permitted op s" and inv: "lifecycle_inv {} s"
  shows "lifecycle_inv {} (perform op s)"
proof -
  note keep = preserves_WithTx [where I = "lifecycle_inv {}", OF _ inv]
  show ?thesis
  proof (cases op)
    case (Submit arg nextRunAt)
    then show ?thesis using inv_create_submission [OF inv] by simp
  next
    case (TaskDone tid)
    then show ?thesis using assms inv_task_done
      by (auto simp: MarkJudgeTaskDone_def WithTx_def split: sum.splits prod.splits)
  next
    case (Ensure input)
    then show ?thesis using assms inv_ensureJudgeAttempt
      by (auto simp: EnsureJudgeAttempt_def WithTx_def split: sum.splits prod.splits)
  next
    case (CompleteAttempt input)
    then show ?thesis using inv inv_complete_attempt
      by (auto simp: CompleteJudgeAttemptResult_def WithTx_def split: option.splits sum.splits prod.splits)
  next
    case (SubmissionSystemError sid reason)
    then show ?thesis using inv inv_markSubmissionSystemError [where K = "{}"]
      by (auto simp: MarkSubmissionSystemError_def WithTx_def split: sum.splits prod.splits)
  next
    case (SubmissionQueued sid reason)
    then show ?thesis using keep [OF preserves_submission_queries(2), of sid "text_param reason"]
      by (auto simp: MarkSubmissionQueued_def split: sum.splits prod.splits)
  next
    case (Rejudge input)
    then show ?thesis using keep [OF preserves_create_batch, of input]
      by (auto simp: CreateRejudgeBatchWithItems_def split: sum.splits prod.splits)
  qed (auto simp: ClaimPendingJudgeTasks_def ClaimPendingRunTasks_def q_ClaimPendingJudgeTasks_def q_ClaimPendingRunTasks_def
      MarkJudgeTaskDispatching_def MarkJudgeTaskDispatched_def MarkJudgeTaskRunning_def RetryJudgeTask_def
      MarkJudgeTaskDead_def RecoverDeadJudgeTask_def ResetStaleJudgeTasks_def MarkSubmissionRunning_def
      CompleteSubmissionWithResult_def AdmitRun_def CancelRejudgeBatch_def
      intro!: keep preserves_task_queries preserves_mark_task_dead preserves_recover_task
      preserves_reset preserves_submission_queries preserves_complete_submission preserves_admit_run preserves_cancel_batch)
qed

lemma reachable_inv:
  assumes "lifecycle_step\<^sup>*\<^sup>* s0 s" and "nothing_submitted s0"
  shows "lifecycle_inv {} s"
  using assms(1)
proof (induction rule: rtranclp_induct)
  case base
  from assms(2) show ?case
    by (simp add: nothing_submitted_def lifecycle_inv_def keyed_def linked_def refs_agree_def attempt_refs_def
        item_refs_def waiting_def)
next
  case (step y z)
  from step.hyps(2) show ?case
  proof cases
    case (operate op)
    with preserves_operation step.IH show ?thesis by simp
  next
    case elsewhere
    from inv_judging_tables [OF this] step.IH show ?thesis by simp
  qed
qed

subsection \<open>Verdicts are final until somebody reopens them\<close>

text \<open>A row of a judged submission that an operation leaves in place.\<close>

abbreviation has_row :: "submission_row \<Rightarrow> store \<Rightarrow> bool" where
  "has_row r s \<equiv> r \<in> set (db_submissions s)"

lemma row_kept: "r \<in> set rows \<Longrightarrow> \<not> P r \<Longrightarrow> r \<in> set (update_rows P f rows)"
  by (auto simp: set_update_rows)

lemma preserves_row_keeps: "keeps db_submissions m \<Longrightarrow> preserves (has_row r) m"
  unfolding preserves_def keeps_def by metis

lemma keeps_submissions [keeps_intros]: "keeps protocol_tables m \<Longrightarrow> keeps db_submissions m"
  unfolding keeps_def protocol_tables_def by blast

lemma preserves_row_judged [preserves_intros]:
  assumes "terminalStatus (su_Status r)"
  shows "preserves (has_row r) (q_UpdateSubmissionStatus sid st t m e j)"
    and "preserves (has_row r) (q_MarkSubmissionRunning sid)"
    and "preserves (has_row r) (q_MarkSubmissionQueued sid why)"
    and "preserves (has_row r) (q_MarkSubmissionSystemError sid why)"
    and "preserves (has_row r) (q_ResetStaleJudgeTasks before why)"
    and "preserves (has_row r) (q_RestoreSubmissionAfterCanceledRejudge sid)"
  using assms unfolding preserves_def
  by (auto simp: q_UpdateSubmissionStatus_def q_MarkSubmissionRunning_def q_MarkSubmissionQueued_def
      q_MarkSubmissionSystemError_def q_ResetStaleJudgeTasks_def q_RestoreSubmissionAfterCanceledRejudge_def tx_simps Let_def
      terminalStatus_def split: option.splits intro!: row_kept)

lemma keeps_submissions_queries:
  "keeps db_submissions (claim_tasks kind n)" "keeps db_submissions (q_UpdateJudgeTaskDispatching tid)"
  "keeps db_submissions (q_MarkJudgeTaskDispatched tid stream)" "keeps db_submissions (q_MarkJudgeTaskRunning tid)"
  "keeps db_submissions (q_MarkJudgeTaskDone tid)" "keeps db_submissions (q_MarkJudgeTaskDead tid why)"
  "keeps db_submissions (q_RetryJudgeTask tid at why)" "keeps db_submissions (q_CreateJudgeTask k rid st at)"
  "keeps db_submissions (q_CreateJudgeAttempt p)" "keeps db_submissions (q_CreateRun u pr l st a i)"
  "keeps db_submissions (q_CancelQueuedRejudgeBatchItems bid why)"
  "keeps db_submissions (q_CancelPendingJudgeTaskForRejudge tid why)"
  "keeps db_submissions (q_CancelRejudgeBatch n why fin bid)" "keeps db_submissions (q_ListRejudgeBatchItems bid)"
  unfolding keeps_def
  by (auto simp: claim_tasks_def q_UpdateJudgeTaskDispatching_def q_MarkJudgeTaskDispatched_def q_MarkJudgeTaskRunning_def
      q_MarkJudgeTaskDone_def q_MarkJudgeTaskDead_def q_RetryJudgeTask_def q_CreateJudgeTask_def q_CreateJudgeAttempt_def
      q_CreateRun_def q_CancelQueuedRejudgeBatchItems_def q_CancelPendingJudgeTaskForRejudge_def q_CancelRejudgeBatch_def
      q_ListRejudgeBatchItems_def tx_simps Let_def)

lemma keeps_submissions_attempts:
  "keeps db_submissions (ensureJudgeAttempt input)" "keeps db_submissions (persistJudgeResult sub result)"
  "keeps db_submissions (finishJudgeAttempt attempt ci status)"
proof -
  note k = keeps_submissions_queries keeps_result_queries [THEN keeps_submissions]
  have create: "keeps db_submissions (create_attempt input n item)" for n item
  proof -
    have "keeps db_submissions (bind_tx (q_CreateJudgeAttempt p) (\<lambda>row. case item of None \<Rightarrow> return_tx row
       | Some it \<Rightarrow> bind_tx (q_StartRejudgeBatchItem (at_ID row) (it_ID it)) (\<lambda>_.
           bind_tx (q_RefreshRejudgeBatchProgress (it_BatchID it)) (\<lambda>_. return_tx row))))" for p
      by (intro keeps_bind keeps_option keeps_return k)
    then show ?thesis unfolding keeps_def create_attempt_def by blast
  qed
  have reads: "keeps db_submissions m" if "keeps (\<lambda>s. s) m" for m :: "'x tx"
    using that unfolding keeps_def by metis
  show "keeps db_submissions (ensureJudgeAttempt input)"
    unfolding ensureJudgeAttempt_def
    by (intro keeps_bind keeps_option keeps_if keeps_return keeps_fail keeps_or_no_rows create k
        keeps_attempt_reads [THEN reads])
  have "keeps db_submissions (bind_tx (or_no_rows (q_GetLatestJudgeAttemptBySubmissionID (Some (su_ID sub)))) (\<lambda>latest.
     bind_tx (q_CreateJudgeAttempt (judged_attempt sub result (case latest of None \<Rightarrow> 1 | Some l \<Rightarrow> at_AttemptNo l + 1) f)) (\<lambda>attempt.
     bind_tx (mapM_tx q_CreateJudgeCaseResult
                (map (\<lambda>item. case_row (at_ID attempt) (jc_Index item) item) (jr_Cases result))) (\<lambda>_.
     bind_tx (upsert_result (su_ID sub) (at_ID attempt) (dbStatus (jr_Verdict result)) result) (\<lambda>_.
       return_tx attempt)))))" for f
    unfolding q_GetLatestJudgeAttemptBySubmissionID_def
    by (intro keeps_bind keeps_or_no_rows keeps_mapM keeps_return k reads keeps_reads keeps_projection(3) [THEN keeps_submissions])
  then show "keeps db_submissions (persistJudgeResult sub result)"
    unfolding keeps_def persistJudgeResult_def Let_def by blast
  show "keeps db_submissions (finishJudgeAttempt attempt ci status)"
    using finishJudgeAttempt_effect unfolding keeps_def by blast
qed

lemma preserves_row_queries [preserves_intros]:
  "preserves (has_row r) (lockContestProblemProjection sub)" "preserves (has_row r) (rebuildContestProblemResult sub lock)"
  "preserves (has_row r) (upsert_result sid aid st res)" "preserves (has_row r) (finish_rejudge_item a)"
  "preserves (has_row r) (finishJudgeAttempt attempt ci status)" "preserves (has_row r) (persistJudgeResult sub res)"
  "preserves (has_row r) (ensureJudgeAttempt input)"
  "preserves (has_row r) (q_FailActiveRejudgeBatchItemByTaskID em tid)"
  "preserves (has_row r) (q_RefreshRejudgeBatchProgress bid)"
  "preserves (has_row r) (q_UpdateRunStatus rid st o1 o2 o3 n1 n2 em)"
proof -
  have "keeps db_submissions (q_UpdateRunStatus rid st o1 o2 o3 n1 n2 em)"
    unfolding keeps_def by (auto simp: q_UpdateRunStatus_def tx_simps)
  then show "preserves (has_row r) (q_UpdateRunStatus rid st o1 o2 o3 n1 n2 em)" by (rule preserves_row_keeps)
qed (rule preserves_row_keeps, rule keeps_submissions_attempts keeps_projection [THEN keeps_submissions]
      keeps_result_queries [THEN keeps_submissions])+

lemmas preserves_row_tables [preserves_intros] = keeps_submissions_queries [THEN preserves_row_keeps]

lemmas query_selects = q_GetSubmissionByID_def q_LockSubmissionByID_def q_LockJudgeTaskByID_def q_GetJudgeAttemptByID_def
  q_LockJudgeAttemptByID_def q_LockRunByID_def q_LockUserForRunAdmission_def q_CountActiveRunsByUser_def q_GetRejudgeBatchByID_def

lemma preserves_row_complete:
  assumes "terminalStatus (su_Status r)"
  shows "preserves (has_row r) (complete_attempt aid input)" and "preserves (has_row r) (complete_submission sid result)"
    and "preserves (has_row r) (markSubmissionSystemError sid reason)"
  unfolding complete_attempt_def complete_subject_def completeRunAttempt_def completeSubmissionAttempt_def
    persist_submission_result_def complete_submission_def markSubmissionSystemError_def query_selects Let_def
  by (intro preserves_intros assms)+

lemma preserves_row_tasks:
  assumes "terminalStatus (su_Status r)"
  shows "preserves (has_row r) (mark_task_dead tid reason)" and "preserves (has_row r) (admit_run ai)"
  unfolding mark_task_dead_def admit_run_def query_selects
  by (intro preserves_intros preserves_row_complete assms)+

lemma preserves_row_cancel:
  assumes "terminalStatus (su_Status r)"
  shows "preserves (has_row r) (cancel_rejudge_batch bid reason)"
proof -
  have item: "preserves (has_row r) (cancel_item reason locked i)" for locked i
    unfolding cancel_item_def by (intro preserves_intros assms)
  have "preserves (has_row r) (bind_tx (map_err (mapNotFound ''rejudge.not_found'' ''rejudge batch not found'') (q_GetRejudgeBatchByID bid)) (\<lambda>current.
     bind_tx (q_ListRejudgeBatchItems bid) (\<lambda>allItems.
     bind_tx (mapM_tx (\<lambda>i. q_LockJudgeTaskByID (it_TaskID i)) (sort_by items_by_task (filter (\<lambda>i. it_Status i = ''queued'') allItems))) (\<lambda>_.
     bind_tx (mapM_tx (\<lambda>i. q_LockSubmissionByID (it_SubmissionID i))
                (sort_by items_by_submission (sort_by items_by_task (filter (\<lambda>i. it_Status i = ''queued'') allItems)))) (\<lambda>locked.
     bind_tx (q_CancelQueuedRejudgeBatchItems bid (text_param reason)) (\<lambda>items.
     bind_tx (mapM_tx (cancel_item reason locked) items) (\<lambda>_.
     bind_tx (or_no_rows (q_CancelRejudgeBatch (ba_CanceledCount current + of_nat (length items)) (text_param reason)
                (Some now) bid)) (\<lambda>row.
       case row of
         None \<Rightarrow> fail_tx (AppErr (Conflict ''rejudge.not_cancelable'' ''rejudge batch cannot be canceled''))
       | Some b \<Rightarrow> return_tx b))))))))" for now
    unfolding query_selects by (intro preserves_intros item)
  then show ?thesis unfolding preserves_def cancel_rejudge_batch_def Let_def by blast
qed

fun reopens :: "operation \<Rightarrow> bool" where
  "reopens (TaskRecover tid nextRunAt reason) \<longleftrightarrow> True"
| "reopens (Rejudge input) \<longleftrightarrow> True"
| "reopens _ \<longleftrightarrow> False"

lemma row_stays:
  assumes "terminalStatus (su_Status r)" and "\<not> reopens op" and r: "has_row r s"
  shows "has_row r (perform op s)"
proof -
  note keep = preserves_WithTx [where I = "has_row r", OF _ r]
  show ?thesis
  proof (cases op)
    case (Submit arg nextRunAt)
    with r show ?thesis
      by (auto simp: CreateSubmissionWithTask_def WithTx_def createSubmissionRow_def q_CreateSubmission_def q_CreateJudgeTask_def
          bind_tx_def check_tx_def unique_tx_def return_tx_def fail_tx_def Let_def split: sum.splits prod.splits if_splits)
  next
    case (CompleteAttempt input)
    show ?thesis
    proof (cases "ParseInt (ca_AttemptKey input)")
      case None
      with CompleteAttempt r show ?thesis by (simp add: CompleteJudgeAttemptResult_def)
    next
      case (Some aid)
      with CompleteAttempt keep [OF preserves_row_complete(1) [OF assms(1)], of aid input] show ?thesis
        by (simp add: CompleteJudgeAttemptResult_def)
    qed
  next
    case (SubmissionQueued sid reason)
    then show ?thesis using keep [OF preserves_row_judged(3) [OF assms(1)], of sid "text_param reason"]
      by (auto simp: MarkSubmissionQueued_def split: sum.splits prod.splits)
  qed (use assms(2) in \<open>auto simp: ClaimPendingJudgeTasks_def ClaimPendingRunTasks_def q_ClaimPendingJudgeTasks_def
      q_ClaimPendingRunTasks_def MarkJudgeTaskDispatching_def MarkJudgeTaskDispatched_def MarkJudgeTaskRunning_def
      MarkJudgeTaskDone_def RetryJudgeTask_def MarkJudgeTaskDead_def ResetStaleJudgeTasks_def MarkSubmissionRunning_def
      MarkSubmissionSystemError_def EnsureJudgeAttempt_def CompleteSubmissionWithResult_def AdmitRun_def CancelRejudgeBatch_def
      intro!: keep preserves_row_tables preserves_row_judged preserves_row_queries preserves_row_complete preserves_row_tasks
      preserves_row_cancel assms(1)\<close>)
qed

text \<open>
  C3: no submission is lost as long as no task is closed under a submission that waits. Start from a
  store with no submissions, tasks and attempts, and perform repository operations in any order,
  including retries, failures, redelivered results, rejudges and their cancellation, where two of them
  are restricted: \<^verbatim>\<open>EnsureJudgeAttempt\<close> is called for the subject of its task, as the dispatcher does, and
  \<^verbatim>\<open>MarkJudgeTaskDone\<close> is not called for a task in flight whose submission has no verdict at that moment.
  Then a submission without a verdict always has a task that is still to be dispatched or in flight. The
  second restriction is one the worker checks before the call but does not hold on to: it fails when the
  verdict is reopened between its check and its call.
\<close>

theorem no_submission_lost:
  assumes "lifecycle_step\<^sup>*\<^sup>* s0 s" and "nothing_submitted s0"
    and "r \<in> set (db_submissions s)" and "\<not> terminalStatus (su_Status r)"
  shows "\<exists>t \<in> set (db_tasks s). ta_SubmissionID t = Some (su_ID r) \<and> task_open t"
proof -
  have "su_ID r \<in> waiting (db_submissions s)" using assms(3,4) by (auto simp: waiting_def)
  with reachable_inv [OF assms(1,2)] show ?thesis by (auto simp: lifecycle_inv_def served_def)
qed

text \<open>
  C4: verdicts are final. Once a submission has a verdict, no operation changes any column of its row,
  but the recovery of a dead task and the start of a rejudge, which reopen it on purpose. A late or
  duplicate result, a retry or a reset of stale tasks cannot.
\<close>

theorem verdicts_final:
  assumes "terminalStatus (su_Status r)" and "\<not> reopens op" and "r \<in> set (db_submissions s)"
  shows "r \<in> set (db_submissions (perform op s))"
  using assms by (rule row_stays)

subsection \<open>A concrete run\<close>

definition sample_run_ops :: "operation list" where
  "sample_run_ops = [Submit sample_submission_input 0, ClaimTasks 16, Ensure sample_ensure_input]"

lemma sample_store_performed: "sample_store = fold perform sample_run_ops empty_store"
  by (simp add: sample_store_def sample_run_ops_def ClaimPendingJudgeTasks_def)

lemma sample_store_reachable: "lifecycle_step\<^sup>*\<^sup>* empty_store sample_store"
proof -
  let ?s1 = "perform (Submit sample_submission_input 0) empty_store"
  let ?s2 = "perform (ClaimTasks 16) ?s1"
  have "about_task sample_ensure_input ?s2" by code_simp
  then have "lifecycle_step ?s2 (perform (Ensure sample_ensure_input) ?s2)" by (intro operate) simp
  moreover have "lifecycle_step empty_store ?s1" "lifecycle_step ?s1 ?s2" by (intro operate, simp)+
  ultimately have "lifecycle_step\<^sup>*\<^sup>* empty_store (perform (Ensure sample_ensure_input) ?s2)" by auto
  then show ?thesis by (simp add: sample_store_performed sample_run_ops_def)
qed

text \<open>
  Why \<^verbatim>\<open>MarkJudgeTaskDone\<close> is restricted. A worker reads that its submission has the verdict
  \<^verbatim>\<open>system_error\<close>, because another delivery of the same task has given it up; before it marks the task done, the
  dead task is recovered and dispatched again. The mark, whose query asks only that the task is in flight,
  closes it: the submission waits for ever.
\<close>

lemma recovery_before_done_loses:
  "(let s1 = perform (TaskDead 1 ''engine'') sample_store;
        s2 = fold perform [TaskRecover 1 0 ''retry'', ClaimTasks 16] s1;
        s3 = perform (TaskDone 1) s2
    in map su_Status (db_submissions s1) = [''system_error'']
       \<and> map ta_Status (db_tasks s2) = [''dispatching''] \<and> \<not> judged_subject 1 s2
       \<and> map su_Status (db_submissions s3) = [StatusQueued] \<and> map ta_Status (db_tasks s3) = [''done''])"
  by code_simp

theorem no_submission_lost_witness:
  "\<exists>t \<in> set (db_tasks sample_store). ta_SubmissionID t = Some (su_ID (hd (db_submissions sample_store))) \<and> task_open t"
proof -
  have "nothing_submitted empty_store" by (simp add: nothing_submitted_def empty_store_def)
  moreover have "hd (db_submissions sample_store) \<in> set (db_submissions sample_store)"
    "\<not> terminalStatus (su_Status (hd (db_submissions sample_store)))" by code_simp+
  ultimately show ?thesis by (intro no_submission_lost [OF sample_store_reachable])
qed

theorem verdicts_final_witness:
  "(let s = perform (CompleteAttempt (sample_result_input ''accepted'')) sample_store;
        s' = perform (CompleteAttempt (sample_result_input ''wrong_answer'')) s
    in hd (db_submissions s) \<in> set (db_submissions s') \<and> su_Status (hd (db_submissions s)) = ''accepted'')"
proof -
  let ?s = "perform (CompleteAttempt (sample_result_input ''accepted'')) sample_store"
  have st: "map su_Status (db_submissions ?s) = [''accepted'']" by code_simp
  then have hd: "hd (db_submissions ?s) \<in> set (db_submissions ?s)" "su_Status (hd (db_submissions ?s)) = ''accepted''"
    by (cases "db_submissions ?s"; simp)+
  moreover have "terminalStatus ''accepted''" by (simp add: terminalStatus_def)
  ultimately have "hd (db_submissions ?s) \<in> set (db_submissions (perform (CompleteAttempt (sample_result_input ''wrong_answer'')) ?s))"
    using verdicts_final [of "hd (db_submissions ?s)" "CompleteAttempt (sample_result_input ''wrong_answer'')" ?s]
    by (simp only: reopens.simps) simp
  with hd show ?thesis by (simp add: Let_def)
qed

end
