(* ===== verification/Keyset.thy ===== *)
theory Keyset
  imports Apperror
begin

section \<open>Keyset pagination\<close>

text \<open>
  The cursor listings (problems, submissions, users, contests, audit events) all work alike: the query
  orders the rows by a key and returns the first \<^verbatim>\<open>limit + 1\<close> of those that come after the cursor; the
  service shows \<^verbatim>\<open>limit\<close> of them and, if there was one more, returns the key of the last one shown as
  the next cursor. The locale states what such a listing needs of its key order, and proves once that
  following the cursors shows every row exactly once, in order, and ends.
\<close>

text \<open>A client that follows the cursors until there is none; \<open>fuel\<close> bounds the number of requests.\<close>

fun walk_cursor :: "nat \<Rightarrow> ('c option \<Rightarrow> ('a list \<times> 'c option) res) \<Rightarrow> 'c option \<Rightarrow> 'a list res option" where
  "walk_cursor 0 request cursor = None"
| "walk_cursor (Suc fuel) request cursor =
     (case request cursor of
        Inl e \<Rightarrow> Some (Inl e)
      | Inr (items, None) \<Rightarrow> Some (Inr items)
      | Inr (items, Some c) \<Rightarrow>
          (case walk_cursor fuel request (Some c) of
             None \<Rightarrow> None | Some (Inl e) \<Rightarrow> Some (Inl e) | Some (Inr rest) \<Rightarrow> Some (Inr (items @ rest))))"

locale keyset =
  fixes key :: "'a \<Rightarrow> 'k" and before :: "'k \<Rightarrow> 'k \<Rightarrow> bool"
  assumes irreflexive: "\<not> before k k"
    and transitive: "before a b \<Longrightarrow> before b c \<Longrightarrow> before a c"
    and total_order: "before a b \<or> a = b \<or> before b a"
begin

definition row_before :: "'a \<Rightarrow> 'a \<Rightarrow> bool" where
  "row_before x y = before (key x) (key y)"

definition rows_after :: "'k option \<Rightarrow> 'a list \<Rightarrow> 'a list" where
  "rows_after cursor rows = filter (\<lambda>r. case cursor of None \<Rightarrow> True | Some k \<Rightarrow> before k (key r)) rows"

text \<open>A page: the rows shown and the cursor of the next one.\<close>

definition page :: "nat \<Rightarrow> 'k option \<Rightarrow> 'a list \<Rightarrow> 'a list \<times> 'k option" where
  "page n cursor rows =
     (let items = take (Suc n) (sort_by row_before (rows_after cursor rows)); shown = take n items
      in (shown, if length items > n then Some (key (last shown)) else None))"

end

sublocale keyset \<subseteq> rows: strict_weak_order row_before
proof
  show "row_before x y \<Longrightarrow> \<not> row_before y x" for x y
    unfolding row_before_def using irreflexive transitive by blast
  show "row_before x z \<Longrightarrow> row_before x y \<or> row_before y z" for x y z
    unfolding row_before_def by (metis total_order transitive)
qed

context keyset
begin

text \<open>In order and without equal keys, the rows after the k-th are those from k + 1 on.\<close>

lemma rows_after_nth:
  assumes "sorted_wrt row_before xs" and "k < length xs"
  shows "rows_after (Some (key (xs ! k))) xs = drop (Suc k) xs"
  using assms
proof (induction xs arbitrary: k)
  case (Cons x xs)
  show ?case
  proof (cases k)
    case 0
    have "filter (\<lambda>r. before (key x) (key r)) xs = xs" using Cons.prems(1) by (auto simp: row_before_def filter_id_conv)
    with 0 show ?thesis by (simp add: rows_after_def irreflexive)
  next
    case (Suc j)
    then have "row_before x (xs ! j)" using Cons.prems by simp
    then have "\<not> before (key (xs ! j)) (key x)" unfolding row_before_def using irreflexive transitive by blast
    with Suc Cons show ?thesis by (simp add: rows_after_def)
  qed
qed simp

lemma strictly_sorted:
  "sorted_wrt (\<lambda>x y. \<not> row_before y x) xs \<Longrightarrow> distinct (map key xs) \<Longrightarrow> sorted_wrt row_before xs"
proof (induction xs)
  case (Cons x xs)
  have "row_before x y" if "y \<in> set xs" for y
    using Cons.prems that total_order [of "key x" "key y"] by (auto simp: row_before_def)
  with Cons show ?case by simp
qed simp

lemma sort_strict: "distinct (map key rows) \<Longrightarrow> sorted_wrt row_before (sort_by row_before rows)"
  using rows.ordered_sort_by [of rows] by (intro strictly_sorted) (simp_all add: rows.ordered_def)

text \<open>The rows a request still has to show: all of them, or those from a position on.\<close>

definition remaining :: "'a list \<Rightarrow> 'k option \<Rightarrow> nat \<Rightarrow> bool" where
  "remaining rows cursor k \<longleftrightarrow> k \<le> length rows \<and>
     (case cursor of None \<Rightarrow> k = 0 | Some c \<Rightarrow> 0 < k \<and> c = key (sort_by row_before rows ! (k - 1)))"

lemma remaining_rows:
  assumes "distinct (map key rows)" and "remaining rows cursor k"
  shows "sort_by row_before (rows_after cursor rows) = drop k (sort_by row_before rows)"
proof (cases cursor)
  case None
  with assms(2) show ?thesis by (simp add: remaining_def rows_after_def)
next
  case (Some c)
  with assms(2) have k: "0 < k" "k \<le> length rows" "c = key (sort_by row_before rows ! (k - 1))" by (auto simp: remaining_def)
  have "sort_by row_before (rows_after cursor rows) = rows_after cursor (sort_by row_before rows)"
    unfolding rows_after_def by (rule rows.sort_by_filter)
  also have "\<dots> = drop k (sort_by row_before rows)"
    using rows_after_nth [OF sort_strict [OF assms(1)], of "k - 1"] k Some by simp
  finally show ?thesis .
qed

lemma page_remaining:
  assumes "distinct (map key rows)" and "remaining rows cursor k" and "0 < n"
  shows "fst (page n cursor rows) = take n (drop k (sort_by row_before rows))"
    and "snd (page n cursor rows) = None \<Longrightarrow> length rows \<le> k + n"
    and "snd (page n cursor rows) = Some c \<Longrightarrow> remaining rows (Some c) (k + n)"
proof -
  note r = remaining_rows [OF assms(1,2)]
  show "fst (page n cursor rows) = take n (drop k (sort_by row_before rows))"
    by (simp add: page_def r Let_def min_def)
  show "snd (page n cursor rows) = None \<Longrightarrow> length rows \<le> k + n"
    by (simp add: page_def r Let_def split: if_splits)
  assume "snd (page n cursor rows) = Some c"
  then have len: "k + n < length rows" and c: "c = key (last (take n (drop k (sort_by row_before rows))))"
    by (auto simp: page_def r Let_def min_def split: if_splits)
  have "last (take n (drop k (sort_by row_before rows))) = sort_by row_before rows ! (k + n - 1)"
    using len assms(3) by (subst last_conv_nth) (auto simp: min_def)
  with len c assms(3) show "remaining rows (Some c) (k + n)" by (simp add: remaining_def)
qed

text \<open>Following the cursors shows the rows in order and ends, whatever each row is shown as.\<close>

lemma walk_complete_from:
  assumes "distinct (map key rows)" and "0 < n"
    and request: "\<And>cursor. cursor = None \<or> (\<exists>r \<in> set rows. cursor = Some (key r)) \<Longrightarrow>
      request cursor = Inr (map g (fst (page n cursor rows)), snd (page n cursor rows))"
    and "remaining rows cursor k" and "length rows < k + fuel"
  shows "walk_cursor fuel request cursor = Some (Inr (map g (drop k (sort_by row_before rows))))"
  using assms(4,5)
proof (induction fuel arbitrary: cursor k)
  case 0
  then show ?case by (simp add: remaining_def)
next
  case (Suc fuel)
  have "cursor = None \<or> (\<exists>r \<in> set rows. cursor = Some (key r))"
  proof (cases cursor)
    case (Some c)
    with Suc.prems(1) have "c = key (sort_by row_before rows ! (k - 1))" "k - 1 < length (sort_by row_before rows)"
      by (auto simp: remaining_def)
    with Some nth_mem [of "k - 1" "sort_by row_before rows"] show ?thesis by auto
  qed simp
  note req = request [OF this] and pg = page_remaining [OF assms(1) Suc.prems(1) assms(2)]
  show ?case
  proof (cases "snd (page n cursor rows)")
    case None
    with req pg(1,2) show ?thesis by simp
  next
    case (Some c)
    have "walk_cursor fuel request (Some c) = Some (Inr (map g (drop (k + n) (sort_by row_before rows))))"
      by (rule Suc.IH [OF pg(3) [OF Some]]) (use Suc.prems(2) assms(2) in simp)
    with Some req pg(1) show ?thesis
      by (simp flip: map_append) (metis add.commute append_take_drop_id drop_drop)
  qed
qed

lemma walk_complete:
  assumes "distinct (map key rows)" and "0 < n"
    and "\<And>cursor. cursor = None \<or> (\<exists>r \<in> set rows. cursor = Some (key r)) \<Longrightarrow>
      request cursor = Inr (map g (fst (page n cursor rows)), snd (page n cursor rows))"
    and "length rows < fuel"
  shows "walk_cursor fuel request None = Some (Inr (map g (sort_by row_before rows)))"
  using walk_complete_from [OF assms(1-3), of None 0 fuel] assms(4) by (simp add: remaining_def)

end

end
