(* ===== verification/Problem_Reader.thy ===== *)
theory Problem_Reader
  imports Problem_Lifecycle Keyset Database
begin

section \<open>Reading problems (\<^verbatim>\<open>problem_reader.go\<close>, \<^verbatim>\<open>authoring_flow.go\<close>)\<close>

text \<open>
  What a viewer is shown: single problems, the two listings (by page and by cursor), the authoring state
  with its progress, and what the judge reads. Reads run on a snapshot of the problem tables and of the
  submissions; a request issues several statements, which are taken on one snapshot here.
\<close>

subsection \<open>Submission counts (\<^verbatim>\<open>problems.sql.go\<close>, \<^verbatim>\<open>repository.go\<close>)\<close>

record problem_submission_counts =
  pn_ProblemID :: int64
  pn_SubmissionCount :: int64
  pn_AcceptedCount :: int64

definition submissions_of :: "store \<Rightarrow> int64 \<Rightarrow> submission_row list" where
  "submissions_of d pid = filter (\<lambda>x. su_ProblemID x = pid) (db_submissions d)"

text \<open>\<^verbatim>\<open>GROUP BY problem_id\<close>: a row for each problem that has submissions.\<close>

definition q_ListProblemSubmissionCounts :: "int64 list \<Rightarrow> store \<Rightarrow> problem_submission_counts list" where
  "q_ListProblemSubmissionCounts pids d =
     map (\<lambda>pid. \<lparr>pn_ProblemID = pid, pn_SubmissionCount = int (length (submissions_of d pid)),
                 pn_AcceptedCount = int (length (filter (\<lambda>x. su_Status x = ''accepted'') (submissions_of d pid)))\<rparr>)
       (filter (\<lambda>pid. submissions_of d pid \<noteq> []) (remdups pids))"

definition repo_ListProblemSubmissionCounts :: "int64 list \<Rightarrow> store \<Rightarrow> int64 \<Rightarrow> problem_submission_counts option" where
  "repo_ListProblemSubmissionCounts pids d =
     (if pids = [] then Map.empty
      else map_of (map (\<lambda>r. (pn_ProblemID r, r)) (q_ListProblemSubmissionCounts pids d)))"

record problem_stats_row =
  pe_ProblemID :: int64
  pe_TotalSubmissions :: int64
  pe_AcceptedSubmissions :: int64
  pe_StatusCounts :: "(string \<times> int64) list"

definition status_counts :: "submission_row list \<Rightarrow> (string \<times> int64) list" where
  "status_counts rows =
     map (\<lambda>st. (st, int (length (filter (\<lambda>x. su_Status x = st) rows)))) (remdups (map su_Status rows))"

definition q_GetProblemStats :: "int64 \<Rightarrow> problem_store \<Rightarrow> store \<Rightarrow> problem_stats_row res" where
  "q_GetProblemStats pid s d =
     (if \<exists>p \<in> set (pt_problems s). pb_ID p = pid
      then let counts = status_counts (submissions_of d pid) in
        Inr \<lparr>pe_ProblemID = pid, pe_TotalSubmissions = sum_list (map snd counts),
             pe_AcceptedSubmissions = sum_list (map snd (filter (\<lambda>c. fst c = ''accepted'') counts)),
             pe_StatusCounts = counts\<rparr>
      else Inl ErrNoRows)"

subsection \<open>Responses\<close>

record problem_response =
  pr_ID :: int64
  pr_Title :: string
  pr_Slug :: string
  pr_Difficulty :: string
  pr_Visibility :: string
  pr_Status :: string
  pr_Tags :: "string list"
  pr_TimeLimitMS :: int32
  pr_MemoryLimitKB :: int32
  pr_SubmissionCount :: int64
  pr_AcceptedCount :: int64
  pr_OwnerUserID :: int64
  pr_CreatedAt :: time
  pr_UpdatedAt :: time
  pr_PublishedAt :: time

definition problemResponseFromRecord :: "problem_record \<Rightarrow> string list \<Rightarrow> problem_response" where
  "problemResponseFromRecord p tags =
     \<lparr>pr_ID = pd_ID p, pr_Title = pd_Title p, pr_Slug = pd_Slug p, pr_Difficulty = pd_Difficulty p,
      pr_Visibility = pd_Visibility p, pr_Status = pd_Status p, pr_Tags = tags, pr_TimeLimitMS = pd_TimeLimitMS p,
      pr_MemoryLimitKB = pd_MemoryLimitKB p, pr_SubmissionCount = pd_SubmissionCount p,
      pr_AcceptedCount = pd_AcceptedCount p, pr_OwnerUserID = pd_OwnerUserID p, pr_CreatedAt = pd_CreatedAt p,
      pr_UpdatedAt = pd_UpdatedAt p, pr_PublishedAt = pd_PublishedAt p\<rparr>"

definition tagNames :: "tag_row list \<Rightarrow> string list" where
  "tagNames tags = map tg_Name tags"

definition fillSubmissionCounts :: "store \<Rightarrow> problem_record list \<Rightarrow> problem_record list" where
  "fillSubmissionCounts d items =
     (if items = [] then items
      else let counts = repo_ListProblemSubmissionCounts (map pd_ID items) d in
        map (\<lambda>p. case counts (pd_ID p) of
                   None \<Rightarrow> p
                 | Some c \<Rightarrow> p\<lparr>pd_SubmissionCount := pn_SubmissionCount c, pd_AcceptedCount := pn_AcceptedCount c\<rparr>) items)"

definition group_tags :: "(int64 \<times> tag_row) list \<Rightarrow> int64 \<Rightarrow> tag_row list" where
  "group_tags rows pid = map snd (filter (\<lambda>r. fst r = pid) rows)"

definition fillProblemTags :: "problem_record list \<Rightarrow> (int64 \<Rightarrow> string list) ptx" where
  "fillProblemTags items =
     (if items = [] then return_tx (\<lambda>_. [])
      else bind_tx (run_query id (q_ListProblemTagsByProblemIDs (map pd_ID items))) (\<lambda>rows.
             return_tx (\<lambda>pid. tagNames (group_tags rows pid))))"

definition problemResponses :: "store \<Rightarrow> problem_record list \<Rightarrow> problem_response list ptx" where
  "problemResponses d items =
     (let filled = fillSubmissionCounts d items in
      bind_tx (fillProblemTags filled) (\<lambda>tags.
        return_tx (map (\<lambda>p. problemResponseFromRecord p (tags (pd_ID p))) filled)))"

definition ProblemResponse :: "problem_record \<Rightarrow> problem_response ptx" where
  "ProblemResponse p = bind_tx (listProblemTags (pd_ID p)) (\<lambda>tags. return_tx (problemResponseFromRecord p (tagNames tags)))"

subsection \<open>The reader\<close>

definition GetProblem :: "actor \<Rightarrow> int64 \<Rightarrow> problem_store \<Rightarrow> store \<Rightarrow> problem_record res" where
  "GetProblem a pid s d =
     bind_res (fst (WithTx (repo_GetProblem pid) s)) (\<lambda>p.
     bind_res (canReadProblem a p) (\<lambda>_. Inr (hd (fillSubmissionCounts d [p]))))"

definition normalizeListFilter :: "actor \<Rightarrow> list_problems_filter \<Rightarrow> list_problems_filter" where
  "normalizeListFilter a f0 =
     (let page = (if sint (lf_Page f0) \<le> 0 then 1 else lf_Page f0);
          pageSize = (if sint (lf_PageSize f0) \<le> 0 \<or> sint (lf_PageSize f0) > 100 then 20 else lf_PageSize f0);
          f = f0\<lparr>lf_Page := page, lf_PageSize := pageSize, lf_Limit := pageSize, lf_Offset := (page - 1) * pageSize\<rparr>
      in if lf_Mine f \<and> Authenticated a
         then f\<lparr>lf_OwnerUserID := ac_UserID a, lf_ViewerUserID := ac_UserID a, lf_IncludeAll := False\<rparr>
         else if hasProblemPermission a PermissionProblemManageAll then f\<lparr>lf_IncludeAll := True\<rparr>
         else if Authenticated a then f\<lparr>lf_ViewerUserID := ac_UserID a\<rparr>
         else f)"

definition mine_allowed :: "actor \<Rightarrow> list_problems_filter \<Rightarrow> unit res" where
  "mine_allowed a f = (if lf_Mine f then CanAccessAuthoring a else Inr ())"

definition ListProblems ::
  "list_env \<Rightarrow> actor \<Rightarrow> list_problems_filter \<Rightarrow> problem_store \<Rightarrow> store \<Rightarrow> (problem_response list \<times> int64 \<times> int32 \<times> int32) res" where
  "ListProblems env a f0 s d =
     bind_res (mine_allowed a f0) (\<lambda>_.
       let f = normalizeListFilter a f0 in
       fst (WithTx (bind_tx (repo_ListProblems env f) (\<lambda>items.
                    bind_tx (repo_CountProblems env f) (\<lambda>n.
                    bind_tx (problemResponses d items) (\<lambda>responses.
                      return_tx (responses, n, lf_Page f, lf_PageSize f))))) s))"

definition ListProblemsByCursor ::
  "list_env \<Rightarrow> actor \<Rightarrow> list_problems_filter \<Rightarrow> problem_store \<Rightarrow> store
   \<Rightarrow> (problem_response list \<times> problem_cursor option) res" where
  "ListProblemsByCursor env a f0 s d =
     bind_res (mine_allowed a f0) (\<lambda>_.
       let f = normalizeListFilter a f0; limit_n = lf_PageSize f in
       bind_res (case lf_Cursor f of
           None \<Rightarrow> Inr first_cursor
         | Some c \<Rightarrow> (if pc_ID c \<le> 0 \<or> pc_CreatedAt c = 0 then fail (BadRequest ''invalid_cursor'' ''cursor is invalid'')
                     else Inr c)) (\<lambda>cursor.
       fst (WithTx
         (bind_tx (repo_ListProblemsByCursor env (f\<lparr>lf_Cursor := Some cursor, lf_Limit := limit_n + 1, lf_Offset := 0\<rparr>)) (\<lambda>items0.
          let hasMore = int (length items0) > sint limit_n;
              items = (if hasMore then take (nat (sint limit_n)) items0 else items0) in
          bind_tx (problemResponses d items) (\<lambda>responses.
            return_tx (responses,
              if hasMore then Some \<lparr>pc_CreatedAt = pd_CreatedAt (last items), pc_ID = pd_ID (last items)\<rparr> else None)))) s)))"

definition CurrentStatement :: "actor \<Rightarrow> int64 \<Rightarrow> problem_store \<Rightarrow> statement res" where
  "CurrentStatement a pid s = fst (WithTx
     (bind_tx (repo_GetProblem pid) (\<lambda>p.
      bind_tx (guard_tx (canReadProblem a p)) (\<lambda>_. repo_GetCurrentProblemStatement pid))) s)"

record judge_problem =
  jp_ID :: int64
  jp_Slug :: string
  jp_Title :: string
  jp_Visibility :: string
  jp_OwnerUserID :: int64
  jp_CurrentStatementID :: int64
  jp_CurrentTestcaseSetID :: int64

definition GetForJudge :: "int64 \<Rightarrow> problem_store \<Rightarrow> judge_problem res" where
  "GetForJudge pid s =
     bind_res (fst (WithTx (repo_GetProblem pid) s)) (\<lambda>p.
       if pd_Status p \<noteq> StatusPublished \<or> pd_CurrentStatementID p = 0 \<or> pd_CurrentTestcaseSetID p = 0
       then fail (NotFound ''problem.not_ready'' ''problem is not ready for judge'')
       else Inr \<lparr>jp_ID = pd_ID p, jp_Slug = pd_Slug p, jp_Title = pd_Title p, jp_Visibility = pd_Visibility p,
                 jp_OwnerUserID = pd_OwnerUserID p, jp_CurrentStatementID = pd_CurrentStatementID p,
                 jp_CurrentTestcaseSetID = pd_CurrentTestcaseSetID p\<rparr>)"

definition AuthorizeProblemRejudge :: "actor \<Rightarrow> int64 \<Rightarrow> problem_store \<Rightarrow> unit res" where
  "AuthorizeProblemRejudge a pid s =
     bind_res (fst (WithTx (repo_GetProblem pid) s)) (\<lambda>p.
     bind_res (CanRejudge a) (\<lambda>_.
       if pd_Status p \<noteq> StatusPublished
       then fail (Conflict ''problem.not_published'' ''only published problems can be rejudged'') else Inr ()))"

text \<open>\<open>fdiv\<close>: Go's conversion of the counts to \<^verbatim>\<open>float64\<close> and their quotient.\<close>

definition Stats ::
  "(int64 \<Rightarrow> int64 \<Rightarrow> 'f :: zero) \<Rightarrow> actor \<Rightarrow> int64 \<Rightarrow> problem_store \<Rightarrow> store \<Rightarrow> (problem_stats_row \<times> 'f) res" where
  "Stats fdiv a pid s d =
     bind_res (fst (WithTx (repo_GetProblem pid) s)) (\<lambda>p.
     bind_res (canReadProblem a p) (\<lambda>_.
     bind_res (case q_GetProblemStats pid s d of Inl e \<Rightarrow> Inl (problem_mapDBErr e) | Inr r \<Rightarrow> Inr r) (\<lambda>stats.
       Inr (stats, if pe_TotalSubmissions stats > 0 then fdiv (pe_AcceptedSubmissions stats) (pe_TotalSubmissions stats) else 0))))"

record testcase_set =
  te_ID :: int64
  te_ProblemID :: int64
  te_Version :: int32
  te_Cases :: "problem_testcase list"

definition GetCurrentTestcaseSet ::
  "archive_parser \<Rightarrow> 'o archives option \<Rightarrow> 'o \<Rightarrow> int64 \<Rightarrow> problem_store \<Rightarrow> testcase_set res" where
  "GetCurrentTestcaseSet parser archives ob pid s =
     bind_res (fst (WithTx (repo_GetCurrentTestcaseSet pid) s)) (\<lambda>tset.
     case archives of
       None \<Rightarrow> fail (ServiceUnavailable ''testcase object storage unavailable'')
     | Some ar \<Rightarrow>
         (if TrimSpace (ts_StorageKey tset) = []
          then fail (BadRequest ''testcase.archive_missing'' ''testcase archive storage key is missing'')
          else bind_res (fst (WithTx (repo_GetProblem pid) s)) (\<lambda>p.
               bind_res (ar_Get ar (ts_StorageKey tset) ob) (\<lambda>body.
               bind_res (readAllAndClose body MaxTestcaseArchiveBytes) (\<lambda>(data, n).
                 let (cases, findings) = LoadArchive (pp_lower parser) (pp_iter parser) data n
                       (zero_options\<lparr>ao_ExpectedSHA256 := ts_ChecksumSha256 tset,
                          ao_TimeLimit := sint (pd_TimeLimitMS p) * 1000000, ao_MemoryKB := sint (pd_MemoryLimitKB p)\<rparr>)
                 in bind_res (ArchiveFindingsError findings) (\<lambda>_.
                      Inr \<lparr>te_ID = ts_ID tset, te_ProblemID = ts_ProblemID tset, te_Version = ts_Version tset,
                           te_Cases = cases\<rparr>))))))"

subsection \<open>The authoring flow\<close>

record authoring_step =
  as_Key :: string
  as_Status :: string

record authoring_flow =
  fl_CurrentStep :: string
  fl_Remaining :: nat
  fl_Steps :: "authoring_step list"

record authoring_flow_input =
  fw_ProblemStatus :: string
  fw_StatementID :: int64
  fw_TestcaseSetID :: int64
  fw_HasCheck :: bool
  fw_CheckStatementID :: int64
  fw_CheckTestcaseSetID :: int64
  fw_CheckValid :: bool

definition stepStatus :: "bool \<Rightarrow> string" where
  "stepStatus d = (if d then ''done'' else ''todo'')"

definition count_step :: "authoring_step \<Rightarrow> string \<times> nat \<Rightarrow> string \<times> nat" where
  "count_step step acc =
     (if as_Status step \<noteq> ''todo'' then acc
      else (if fst acc = [] then as_Key step else fst acc, snd acc + 1))"

definition buildProblemAuthoringFlow :: "authoring_flow_input \<Rightarrow> authoring_flow" where
  "buildProblemAuthoringFlow i =
     (let statementDone = (fw_StatementID i \<noteq> 0); testcaseDone = (fw_TestcaseSetID i \<noteq> 0);
          checkDone = (fw_HasCheck i \<and> fw_CheckStatementID i = fw_StatementID i
             \<and> fw_CheckTestcaseSetID i = fw_TestcaseSetID i \<and> fw_CheckValid i);
          reviewDone = (fw_ProblemStatus i = StatusInReview \<or> fw_ProblemStatus i = StatusPublished);
          steps = [\<lparr>as_Key = ''create'', as_Status = ''done''\<rparr>,
                   \<lparr>as_Key = ''statement'', as_Status = stepStatus statementDone\<rparr>,
                   \<lparr>as_Key = ''testcase'', as_Status = stepStatus testcaseDone\<rparr>,
                   \<lparr>as_Key = ''check'', as_Status = stepStatus checkDone\<rparr>,
                   \<lparr>as_Key = ''review'', as_Status = stepStatus reviewDone\<rparr>];
          (current, remaining) = fold count_step steps ([], 0)
      in \<lparr>fl_CurrentStep = current, fl_Remaining = remaining, fl_Steps = steps\<rparr>)"

record testcase_set_response =
  tp_ID :: int64
  tp_ProblemID :: int64
  tp_Version :: int32
  tp_CaseCount :: int32
  tp_SizeBytes :: int64
  tp_ChecksumSHA256 :: string
  tp_IsCurrent :: bool
  tp_Warnings :: "finding list"
  tp_CreatedAt :: time

record authoring_state =
  at_Problem :: problem_response
  at_Statement :: "statement option"
  at_TestcaseSet :: "testcase_set_response option"
  at_LatestCheck :: "(problem_check_run \<times> problem_check_finding list) option"
  at_Flow :: authoring_flow
  at_Publishable :: bool
  at_Blockers :: "authoring_blocker list"

definition flow_input :: "problem_record \<Rightarrow> authoring_readiness \<Rightarrow> authoring_flow_input" where
  "flow_input p readiness =
     \<lparr>fw_ProblemStatus = pd_Status p,
      fw_StatementID = (case rd_statement readiness of None \<Rightarrow> 0 | Some x \<Rightarrow> sm_ID x),
      fw_TestcaseSetID = (case rd_testcaseSet readiness of None \<Rightarrow> 0 | Some x \<Rightarrow> ts_ID x),
      fw_HasCheck = (rd_latestCheck readiness \<noteq> None),
      fw_CheckStatementID = (case rd_latestCheck readiness of None \<Rightarrow> 0 | Some (c, _) \<Rightarrow> ck_StatementID c),
      fw_CheckTestcaseSetID = (case rd_latestCheck readiness of None \<Rightarrow> 0 | Some (c, _) \<Rightarrow> ck_TestcaseSetID c),
      fw_CheckValid = (case rd_latestCheck readiness of None \<Rightarrow> False | Some (c, _) \<Rightarrow> su_Valid (ck_Summary c))\<rparr>"

definition testcaseSetResponseFromRecord :: "testcase_set_row \<Rightarrow> testcase_set_response" where
  "testcaseSetResponseFromRecord r =
     \<lparr>tp_ID = ts_ID r, tp_ProblemID = ts_ProblemID r, tp_Version = ts_Version r, tp_CaseCount = ts_CaseCount r,
      tp_SizeBytes = ts_SizeBytes r, tp_ChecksumSHA256 = ts_ChecksumSha256 r, tp_IsCurrent = ts_IsCurrent r,
      tp_Warnings = [], tp_CreatedAt = ts_CreatedAt r\<rparr>"

definition GetProblemAuthoringState :: "actor \<Rightarrow> int64 \<Rightarrow> problem_store \<Rightarrow> authoring_state res" where
  "GetProblemAuthoringState a pid s = fst (WithTx
     (bind_tx (repo_GetProblem pid) (\<lambda>p.
      bind_tx (guard_tx (canWriteProblem a p)) (\<lambda>_.
      bind_tx (ProblemResponse p) (\<lambda>response.
      bind_tx (loadProblemAuthoringReadiness pid) (\<lambda>readiness.
        return_tx
          \<lparr>at_Problem = response, at_Statement = rd_statement readiness,
           at_TestcaseSet = map_option testcaseSetResponseFromRecord (rd_testcaseSet readiness),
           at_LatestCheck = rd_latestCheck readiness,
           at_Flow = buildProblemAuthoringFlow (flow_input p readiness),
           at_Publishable = (rd_blockers readiness = []), at_Blockers = rd_blockers readiness\<rparr>))))) s)"


subsection \<open>What a page shows\<close>

definition with_counts :: "store \<Rightarrow> problem_record \<Rightarrow> problem_record" where
  "with_counts d p =
     (if submissions_of d (pd_ID p) = [] then p
      else p\<lparr>pd_SubmissionCount := int (length (submissions_of d (pd_ID p))),
             pd_AcceptedCount := int (length (filter (\<lambda>x. su_Status x = ''accepted'') (submissions_of d (pd_ID p))))\<rparr>)"

definition response_of :: "problem_store \<Rightarrow> store \<Rightarrow> problem_record \<Rightarrow> problem_response" where
  "response_of s d p = problemResponseFromRecord (with_counts d p) (tagNames (problem_tags s (pd_ID p)))"

lemma map_of_keyed: "map_of (map (\<lambda>x. (k x, v x)) xs) y = map_option v (List.find (\<lambda>x. k x = y) xs)"
  by (induction xs) auto

lemma find_eq: "List.find (\<lambda>x. x = y) xs = (if y \<in> set xs then Some y else None)"
  by (induction xs) auto

lemma repo_counts:
  "pids \<noteq> [] \<Longrightarrow> repo_ListProblemSubmissionCounts pids d pid =
     (if pid \<in> set pids \<and> submissions_of d pid \<noteq> []
      then Some \<lparr>pn_ProblemID = pid, pn_SubmissionCount = int (length (submissions_of d pid)),
                 pn_AcceptedCount = int (length (filter (\<lambda>x. su_Status x = ''accepted'') (submissions_of d pid)))\<rparr>
      else None)"
  by (simp add: repo_ListProblemSubmissionCounts_def q_ListProblemSubmissionCounts_def comp_def map_of_keyed find_eq)

lemma fillSubmissionCounts_each: "fillSubmissionCounts d items = map (with_counts d) items"
  by (simp add: fillSubmissionCounts_def repo_counts with_counts_def)

lemma group_tags_each:
  assumes "pid \<in> set pids"
  shows "group_tags (concat (map (\<lambda>pid. map (Pair pid) (problem_tags s pid)) (sort_by (\<lambda>a b. a < b) (remdups pids)))) pid
     = problem_tags s pid"
proof -
  have "group_tags (concat (map (\<lambda>pid. map (Pair pid) (problem_tags s pid)) ids)) pid
      = (if pid \<in> set ids then problem_tags s pid else [])" if "distinct ids" for ids
    using that by (induction ids) (auto simp: group_tags_def comp_def filter_empty_conv)
  moreover have "distinct (sort_by (\<lambda>a b. a < b) (remdups pids))"
    using distinct_map_sort_by [of id "\<lambda>a b. a < b" "remdups pids"] by simp
  ultimately show ?thesis using assms by simp
qed

lemma problemResponses_each: "problemResponses d items s = Inr (map (response_of s d) items, s)"
proof (cases "items = []")
  case False
  have ids: "map pd_ID (map (with_counts d) items) = map pd_ID items" by (simp add: with_counts_def)
  show ?thesis using False
    by (simp add: problemResponses_def fillSubmissionCounts_each fillProblemTags_def bind_tx_def run_query_def map_err_def
        q_ListProblemTagsByProblemIDs_def get_tx_def return_tx_def Let_def ids [unfolded map_map] response_of_def)
      (auto simp: group_tags_each with_counts_def)
qed (simp add: problemResponses_def fillSubmissionCounts_def fillProblemTags_def bind_tx_def return_tx_def)

subsection \<open>Following the cursors\<close>

definition problem_key :: "problem_row \<Rightarrow> problem_cursor" where
  "problem_key p = \<lparr>pc_CreatedAt = pb_CreatedAt p, pc_ID = pb_ID p\<rparr>"

definition cursor_before :: "problem_cursor \<Rightarrow> problem_cursor \<Rightarrow> bool" where
  "cursor_before a b \<longleftrightarrow> pc_CreatedAt a > pc_CreatedAt b \<or> pc_CreatedAt a = pc_CreatedAt b \<and> pc_ID a > pc_ID b"

interpretation newest: keyset problem_key cursor_before
  by unfold_locales (auto simp: cursor_before_def intro: problem_cursor.equality)

lemma newest_row_before: "newest.row_before = newest_first"
  by (auto simp: fun_eq_iff newest.row_before_def cursor_before_def problem_key_def newest_first_def)

text \<open>The two listings show the same rows.\<close>

lemma cursor_listed_listed: "lp_OwnerUserID a \<ge> 0 \<Longrightarrow> cursor_listed env a s p = listed env a s p"
  by (auto simp: cursor_listed_def listed_def cursor_visible_def)

lemma page_size_normal:
  "1 \<le> sint (lf_PageSize (normalizeListFilter a f)) \<and> sint (lf_PageSize (normalizeListFilter a f)) \<le> 100"
  by (auto simp: normalizeListFilter_def Let_def)

lemma page_size_next: "1 \<le> sint n \<Longrightarrow> sint n \<le> 100 \<Longrightarrow> sint ((n :: int32) + 1) = sint n + 1"
  by (simp add: sint_word_ariths signed_take_bit_int_eq_self_iff)


lemma normalize_cursor: "normalizeListFilter a (f\<lparr>lf_Cursor := c\<rparr>) = (normalizeListFilter a f)\<lparr>lf_Cursor := c\<rparr>"
  by (simp add: normalizeListFilter_def Let_def)

lemma filter_params_page [simp]: "filter_params (f\<lparr>lf_Cursor := c, lf_Limit := l, lf_Offset := o1\<rparr>) = filter_params f"
  by (simp add: filter_params_def)

text \<open>The rows a filter selects, for an actor.\<close>

definition listed_rows :: "list_env \<Rightarrow> actor \<Rightarrow> list_problems_filter \<Rightarrow> problem_store \<Rightarrow> problem_row list" where
  "listed_rows env a f s = filter (listed env (filter_params (normalizeListFilter a f)) s) (pt_problems s)"

definition shown_as :: "problem_store \<Rightarrow> store \<Rightarrow> problem_row \<Rightarrow> problem_response" where
  "shown_as s d p = response_of s d (problemFromListCursorRow (joined s p))"

text \<open>Rows as the database holds them: identifiers from a sequence, creation times within a cursor's range.\<close>

definition cursor_range :: "problem_store \<Rightarrow> bool" where
  "cursor_range s \<longleftrightarrow> distinct (map pb_ID (pt_problems s))
     \<and> (\<forall>p \<in> set (pt_problems s). 0 < pb_ID p \<and> 0 < pb_CreatedAt p \<and> pb_CreatedAt p < far_future)"

definition owner_filter_ok :: "list_problems_filter \<Rightarrow> bool" where
  "owner_filter_ok f \<longleftrightarrow> lf_OwnerUserID f \<ge> 0"

lemma owner_nonneg:
  "owner_filter_ok f \<Longrightarrow> lp_OwnerUserID (filter_params (normalizeListFilter a f)) \<ge> 0"
  by (auto simp: owner_filter_ok_def filter_params_def normalizeListFilter_def Let_def Authenticated_def)

lemma cursor_query:
  assumes "cursor_range s" and "owner_filter_ok f"
    and "cursor = None \<or> (\<exists>r \<in> set (listed_rows env a f s). cursor = Some (problem_key r))"
  defines "c \<equiv> case cursor of None \<Rightarrow> first_cursor | Some k \<Rightarrow> k"
  shows "filter (\<lambda>p. cursor_listed env (filter_params (normalizeListFilter a f)) s p
            \<and> (pb_CreatedAt p < pc_CreatedAt c \<or> pb_CreatedAt p = pc_CreatedAt c \<and> pb_ID p < pc_ID c)) (pt_problems s)
       = newest.rows_after cursor (listed_rows env a f s)"
proof -
  have "(pb_CreatedAt p < pc_CreatedAt c \<or> pb_CreatedAt p = pc_CreatedAt c \<and> pb_ID p < pc_ID c)
      = (case cursor of None \<Rightarrow> True | Some k \<Rightarrow> cursor_before k (problem_key p))" if "p \<in> set (pt_problems s)" for p
    using that assms(1) by (auto simp: c_def first_cursor_def cursor_range_def cursor_before_def problem_key_def split: option.splits)
  then show ?thesis
    unfolding newest.rows_after_def listed_rows_def filter_filter cursor_listed_listed [OF owner_nonneg [OF assms(2)]]
    by (intro filter_cong) auto
qed

lemma cursor_request:
  assumes "cursor_range s" and "owner_filter_ok f" and "mine_allowed a f = Inr ()"
    and "cursor = None \<or> (\<exists>r \<in> set (listed_rows env a f s). cursor = Some (problem_key r))"
  defines "n \<equiv> nat (sint (lf_PageSize (normalizeListFilter a f)))"
  shows "ListProblemsByCursor env a (f\<lparr>lf_Cursor := cursor\<rparr>) s d =
     Inr (map (shown_as s d) (fst (newest.page n cursor (listed_rows env a f s))), snd (newest.page n cursor (listed_rows env a f s)))"
proof -
  let ?F = "normalizeListFilter a f"
  define c where "c = (case cursor of None \<Rightarrow> first_cursor | Some k \<Rightarrow> k)"
  have c: "(case cursor of None \<Rightarrow> Inr first_cursor
         | Some c \<Rightarrow> (if pc_ID c \<le> 0 \<or> pc_CreatedAt c = 0 then fail (BadRequest ''invalid_cursor'' ''cursor is invalid'')
                     else Inr c)) = Inr c"
    using assms(1,4) by (auto simp: c_def cursor_range_def listed_rows_def problem_key_def split: option.splits)
  note size = page_size_normal [of a f]
  have n: "nat (sint (lf_PageSize ?F + 1)) = Suc n" "sint (lf_PageSize ?F + 1) \<ge> 0" "sint (lf_PageSize ?F) = int n" "n \<ge> 1"
    using size page_size_next [of "lf_PageSize ?F"] by (auto simp: n_def nat_add_distrib)
  note q = cursor_query [OF assms(1,2,4), folded c_def]
  define rows where "rows = sort_by newest_first (newest.rows_after cursor (listed_rows env a f s))"
  have items: "repo_ListProblemsByCursor env (?F\<lparr>lf_Cursor := Some c, lf_Limit := lf_PageSize ?F + 1, lf_Offset := 0\<rparr>) s
      = Inr (map (\<lambda>p. problemFromListCursorRow (joined s p)) (take (Suc n) rows), s)"
    using n by (simp add: repo_ListProblemsByCursor_def run_query_def map_err_def bind_tx_def q_ListProblemsByCursor_def
        return_tx_def q rows_def comp_def)
  have page: "newest.page n cursor (listed_rows env a f s) =
      (take n rows, if length rows > n then Some (problem_key (last (take n rows))) else None)"
    by (simp add: newest.page_def Let_def newest_row_before rows_def min_def)
  have last: "pd_CreatedAt (last (map (\<lambda>p. problemFromListCursorRow (joined s p)) xs)) = pb_CreatedAt (last xs)"
    "pd_ID (last (map (\<lambda>p. problemFromListCursorRow (joined s p)) xs)) = pb_ID (last xs)" if "xs \<noteq> []" for xs
    using that by (simp_all add: last_map problemFromListCursorRow_def joined_def problemFromDB_def)
  have lastn: "n < length rows \<Longrightarrow> take n rows \<noteq> []" using n(4) by auto
  show ?thesis
    using assms(3) c n items page last [OF lastn]
    by (cases "length rows > n")
      (auto simp: ListProblemsByCursor_def normalize_cursor Let_def WithTx_def bind_tx_def return_tx_def problemResponses_each
        shown_as_def problem_key_def mine_allowed_def min_def take_map comp_def)
qed


text \<open>
  C30: following the cursors of the problem list shows exactly the problems the filter selects for the
  viewer, each once, newest first, and ends after at most one request per problem (plus one); the
  result is what the listing by pages would show if its page held everything. Each entry carries the
  problem's own tags and submission counts, although these are fetched for a whole page at once.
\<close>

theorem problem_cursor_walk_complete:
  assumes "cursor_range s" and "owner_filter_ok f" and "mine_allowed a f = Inr ()" and "length (pt_problems s) < fuel"
  shows "walk_cursor fuel (\<lambda>cursor. ListProblemsByCursor env a (f\<lparr>lf_Cursor := cursor\<rparr>) s d) None
     = Some (Inr (map (shown_as s d) (sort_by newest_first (listed_rows env a f s))))"
proof -
  let ?n = "nat (sint (lf_PageSize (normalizeListFilter a f)))"
  have "distinct (map pb_ID (listed_rows env a f s))"
    using assms(1) by (simp add: cursor_range_def listed_rows_def distinct_map_filter)
  then have "distinct (map problem_key (listed_rows env a f s))"
    by (auto simp: distinct_map inj_on_def problem_key_def)
  moreover have "0 < ?n" using page_size_normal [of a f] by simp
  moreover have "length (listed_rows env a f s) < fuel"
    using assms(4) length_filter_le [of _ "pt_problems s"] unfolding listed_rows_def by (meson le_less_trans)
  ultimately show ?thesis
    unfolding newest_row_before [symmetric]
    using newest.walk_complete [where n = ?n and g = "shown_as s d", OF _ _ cursor_request [OF assms(1-3)]] by blast
qed

text \<open>
  Nobody is listed a problem he may not open. Every row of either listing can be read by the actor
  (it is public, or his own, or he manages all problems), provided the request leaves the internal
  fields of the filter unset, as both handlers do.
\<close>

theorem listed_problems_readable:
  assumes "p \<in> set (listed_rows env a f s)" and "\<not> lf_IncludeAll f" and "lf_ViewerUserID f = 0"
  shows "canReadProblem a (problemFromListCursorRow (joined s p)) = Inr ()"
  using assms
  by (auto simp: listed_rows_def listed_def filter_params_def normalizeListFilter_def Let_def canReadProblem_def
      problemFromListCursorRow_def joined_def problemFromDB_def Authenticated_def split: if_splits)


text \<open>
  The offset of a page is exact as long as it fits the column type, and wraps beyond. A page
  of a normalised request starts at \<^verbatim>\<open>(page - 1) * page_size\<close> while that is below \<open>2\<^sup>3\<^sup>1\<close>; page 214748366 of
  20 rows each, which the handler lets through, starts at row 4 again and not beyond the end.
\<close>

theorem page_offset_wraps:
  "((sint (lf_Page (normalizeListFilter a f)) - 1) * sint (lf_PageSize (normalizeListFilter a f)) < 2 ^ 31 \<longrightarrow>
      sint (lf_Offset (normalizeListFilter a f))
        = (sint (lf_Page (normalizeListFilter a f)) - 1) * sint (lf_PageSize (normalizeListFilter a f)))
   \<and> lf_Offset (normalizeListFilter a (f\<lparr>lf_Page := 214748366, lf_PageSize := 20\<rparr>)) = 4"
proof (intro conjI impI)
  let ?F = "normalizeListFilter a f"
  have off: "lf_Offset ?F = (lf_Page ?F - 1) * lf_PageSize ?F" by (auto simp: normalizeListFilter_def Let_def)
  have pos: "1 \<le> sint (lf_Page ?F)" by (auto simp: normalizeListFilter_def Let_def)
  have size: "1 \<le> sint (lf_PageSize ?F)" using page_size_normal [of a f] by simp
  assume fits: "(sint (lf_Page ?F) - 1) * sint (lf_PageSize ?F) < 2 ^ 31"
  have nonneg: "0 \<le> (sint (lf_Page ?F) - 1) * sint (lf_PageSize ?F)" using pos size by simp
  have eq: "lf_Offset ?F = word_of_int ((sint (lf_Page ?F) - 1) * sint (lf_PageSize ?F))"
    unfolding off by simp
  have "sint (lf_Offset ?F) = signed_take_bit (LENGTH(32) - 1) ((sint (lf_Page ?F) - 1) * sint (lf_PageSize ?F))"
    unfolding eq by (rule sint_sbintrunc')
  with nonneg fits show "sint (lf_Offset ?F) = (sint (lf_Page ?F) - 1) * sint (lf_PageSize ?F)"
    by (simp add: signed_take_bit_int_eq_self)
next
  show "lf_Offset (normalizeListFilter a (f\<lparr>lf_Page := 214748366, lf_PageSize := 20\<rparr>)) = 4"
    by (simp add: normalizeListFilter_def Let_def)
qed


text \<open>What readiness reports, in its three cases.\<close>

lemma readiness_cases:
  assumes "loadProblemAuthoringReadiness pid s = Inr (rd, s')"
  obtains "rd_latestCheck rd = None" "rd_blockers rd \<noteq> []" "rd_statement rd = None \<or> rd_testcaseSet rd = None" "s' = s"
  | x y where "rd_statement rd = Some x" "rd_testcaseSet rd = Some y" "rd_latestCheck rd = None" "rd_blockers rd = [check_blocker]"
      "repo_GetCurrentProblemStatement pid s = Inr (x, s)" "repo_GetCurrentTestcaseSet pid s = Inr (y, s)" "s' = s"
  | x y r fs where "rd_statement rd = Some x" "rd_testcaseSet rd = Some y" "rd_latestCheck rd = Some (r, fs)"
      "rd_blockers rd = (if su_Valid (ck_Summary r) then [] else [check_failed_blocker])"
      "ck_StatementID r = sm_ID x" "ck_TestcaseSetID r = ts_ID y"
      "repo_GetCurrentProblemStatement pid s = Inr (x, s)" "repo_GetCurrentTestcaseSet pid s = Inr (y, s)" "s' = s"
proof -
  from assms obtain v s1 w s2 where v: "or_not_found (repo_GetCurrentProblemStatement pid) s = Inr (v, s1)"
    and w: "or_not_found (repo_GetCurrentTestcaseSet pid) s1 = Inr (w, s2)"
    by (auto simp: loadProblemAuthoringReadiness_def tx_simps Let_def)
  have s1: "s1 = s" using v find_current_statement by (auto simp: or_not_found_Inr split: option.splits)
  have s2: "s2 = s" using w s1 find_current_set by (auto simp: or_not_found_Inr split: option.splits)
  show thesis
  proof (cases "v = None \<or> w = None")
    case True
    with assms v w s1 s2 that(1) show thesis
      by (cases v; cases w) (auto simp: loadProblemAuthoringReadiness_def tx_simps Let_def)
  next
    case False
    then obtain x y where xy: "v = Some x" "w = Some y" by auto
    with v w s1 s2 have g: "repo_GetCurrentProblemStatement pid s = Inr (x, s)" "repo_GetCurrentTestcaseSet pid s = Inr (y, s)"
      by (auto simp: or_not_found_Inr)
    from assms v w xy s1 s2 obtain c s3 where c: "or_not_found (repo_GetLatestCompletedProblemCheckRun pid (sm_ID x) (ts_ID y)) s = Inr (c, s3)"
      by (auto simp: loadProblemAuthoringReadiness_def tx_simps Let_def)
    show thesis
    proof (cases c)
      case None
      with c have "s3 = s" by (simp add: or_not_found_Inr)
      with assms v w xy s1 s2 c None g that(2) show thesis
        by (auto simp: loadProblemAuthoringReadiness_def tx_simps Let_def)
    next
      case (Some r)
      with c have "repo_GetLatestCompletedProblemCheckRun pid (sm_ID x) (ts_ID y) s = Inr (r, s3)" by (simp add: or_not_found_Inr)
      from find_latest_check [OF this] have r: "s3 = s" "ck_StatementID r = sm_ID x" "ck_TestcaseSetID r = ts_ID y" by auto
      with assms v w xy s1 s2 c Some g that(3) show thesis
        by (auto simp: loadProblemAuthoringReadiness_def tx_simps Let_def listProblemCheckFindings_def run_query_Inr
            q_ListProblemCheckFindingsByRunID_def)
    qed
  qed
qed

lemma count_flow:
  "let steps = [\<lparr>as_Key = ''create'', as_Status = ''done''\<rparr>, \<lparr>as_Key = ''statement'', as_Status = stepStatus a\<rparr>,
      \<lparr>as_Key = ''testcase'', as_Status = stepStatus b\<rparr>, \<lparr>as_Key = ''check'', as_Status = stepStatus c\<rparr>,
      \<lparr>as_Key = ''review'', as_Status = stepStatus d\<rparr>] in
   (fst (fold count_step steps ([], 0)) \<in> {[], ''review''} \<longleftrightarrow> a \<and> b \<and> c)
   \<and> snd (fold count_step steps ([], 0)) = length (filter (\<lambda>x. as_Status x = ''todo'') steps)"
  by (cases a; cases b; cases c; cases d) (simp_all add: stepStatus_def count_step_def)

lemma flow_steps:
  "fl_Remaining (buildProblemAuthoringFlow i) = length (filter (\<lambda>x. as_Status x = ''todo'') (fl_Steps (buildProblemAuthoringFlow i)))"
  "fl_CurrentStep (buildProblemAuthoringFlow i) \<in> {[], ''review''} \<longleftrightarrow>
     fw_StatementID i \<noteq> 0 \<and> fw_TestcaseSetID i \<noteq> 0 \<and> fw_HasCheck i \<and> fw_CheckStatementID i = fw_StatementID i
     \<and> fw_CheckTestcaseSetID i = fw_TestcaseSetID i \<and> fw_CheckValid i"
  using count_flow [of "fw_StatementID i \<noteq> 0" "fw_TestcaseSetID i \<noteq> 0"
    "fw_HasCheck i \<and> fw_CheckStatementID i = fw_StatementID i \<and> fw_CheckTestcaseSetID i = fw_TestcaseSetID i \<and> fw_CheckValid i"
    "fw_ProblemStatus i = StatusInReview \<or> fw_ProblemStatus i = StatusPublished", unfolded Let_def]
  unfolding buildProblemAuthoringFlow_def Let_def case_prod_beta authoring_flow.simps by (blast+)

text \<open>
  C31: the progress shown to the author agrees with the gate. The flow has only the review step left
  (or nothing) exactly when the problem has no publishing blocker, and the number of remaining steps is the
  number of steps still to do; identifiers being positive.
\<close>

theorem authoring_flow_matches_gate:
  assumes "GetProblemAuthoringState a pid s = Inr st"
    and "\<forall>x \<in> set (pt_statements s). 0 < st_ID x" and "\<forall>x \<in> set (pt_sets s). 0 < ts_ID x"
  shows "(at_Publishable st \<longleftrightarrow> fl_CurrentStep (at_Flow st) \<in> {[], ''review''})
     \<and> (at_Publishable st \<longleftrightarrow> (\<exists>s'. ensurePublishable pid s = Inr ((), s')))
     \<and> fl_Remaining (at_Flow st) = length (filter (\<lambda>x. as_Status x = ''todo'') (fl_Steps (at_Flow st)))"
proof -
  from assms(1) obtain p s1 u s2 re s3 rd s4 where g: "repo_GetProblem pid s = Inr (p, s1)" "guard_tx (canWriteProblem a p) s1 = Inr (u, s2)"
    and re: "ProblemResponse p s2 = Inr (re, s3)" and rd: "loadProblemAuthoringReadiness pid s3 = Inr (rd, s4)"
    and st: "at_Flow st = buildProblemAuthoringFlow (flow_input p rd)" "at_Publishable st = (rd_blockers rd = [])"
    unfolding GetProblemAuthoringState_def fst_WithTx_Inr by (auto simp: tx_simps)
  have "s3 = s" using got_problem [OF g(1)] guard_tx_Inr [OF g(2)] re
    by (auto simp: ProblemResponse_def listProblemTags_def tx_simps run_query_Inr q_ListProblemTags_def)
  note rd = rd [unfolded this]
  have ensure: "(\<exists>s'. ensurePublishable pid s = Inr ((), s')) \<longleftrightarrow> rd_blockers rd = []"
    using rd by (cases "rd_blockers rd") (simp_all add: ensurePublishable_def bind_tx_def return_tx_def fail_tx_def)
  have "(rd_blockers rd = []) = (fw_StatementID (flow_input p rd) \<noteq> 0 \<and> fw_TestcaseSetID (flow_input p rd) \<noteq> 0
      \<and> fw_HasCheck (flow_input p rd) \<and> fw_CheckStatementID (flow_input p rd) = fw_StatementID (flow_input p rd)
      \<and> fw_CheckTestcaseSetID (flow_input p rd) = fw_TestcaseSetID (flow_input p rd) \<and> fw_CheckValid (flow_input p rd))"
    (is ?agree)
    using rd
  proof (cases rule: readiness_cases)
    case (3 x y r fs)
    have "sm_ID x \<noteq> 0" "ts_ID y \<noteq> 0"
      using find_current_statement [OF 3(7)] find_current_set [OF 3(8)] assms(2,3) by force+
    with 3 show ?agree by (simp add: flow_input_def)
  qed (auto simp: flow_input_def)
  then have "(rd_blockers rd = []) = (fl_CurrentStep (at_Flow st) \<in> {[], ''review''})" unfolding st flow_steps .
  with ensure st flow_steps(1) show ?thesis by simp
qed


subsection \<open>Examples\<close>

definition two_problems :: problem_store where
  "two_problems = (sample_problem_store StatusPublished)\<lparr>pt_problems := [sample_problem_row StatusPublished,
     (sample_problem_row StatusDraft)\<lparr>pb_ID := 8, pb_Slug := ''c'', pb_CreatedAt := 12\<rparr>], pq_problems := 9\<rparr>"

definition plain_env :: list_env where
  "plain_env = \<lparr>le_ilike = (\<lambda>text pat. text = pat), le_username = (\<lambda>_. None)\<rparr>"

definition one_per_page :: list_problems_filter where
  "one_per_page = \<lparr>lf_Difficulty = [], lf_Status = [], lf_Visibility = [], lf_Tag = [], lf_Keyword = [], lf_Owner = [],
     lf_Page = 1, lf_PageSize = 1, lf_Limit = 0, lf_Offset = 0, lf_ViewerUserID = 0, lf_OwnerUserID = 0,
     lf_IncludeAll = False, lf_Mine = False, lf_Cursor = None\<rparr>"

theorem problem_cursor_walk_complete_witness:
  "\<forall>d. \<exists>items. walk_cursor 3 (\<lambda>cursor. ListProblemsByCursor plain_env sample_author (one_per_page\<lparr>lf_Cursor := cursor\<rparr>) two_problems d) None
     = Some (Inr items) \<and> map pr_ID items = [8, 7]"
proof
  fix d
  have c: "cursor_range two_problems" "owner_filter_ok one_per_page" "mine_allowed sample_author one_per_page = Inr ()"
    by code_simp+
  have "map pb_ID (sort_by newest_first (listed_rows plain_env sample_author one_per_page two_problems)) = [8, 7]" by code_simp
  moreover have "pr_ID (shown_as two_problems d p) = pb_ID p" for p
    by (simp add: shown_as_def response_of_def problemResponseFromRecord_def with_counts_def problemFromListCursorRow_def
        joined_def problemFromDB_def)
  ultimately show "\<exists>items. walk_cursor 3 (\<lambda>cursor. ListProblemsByCursor plain_env sample_author (one_per_page\<lparr>lf_Cursor := cursor\<rparr>) two_problems d) None
     = Some (Inr items) \<and> map pr_ID items = [8, 7]"
    using problem_cursor_walk_complete [OF c, of 3 plain_env d] by (simp add: two_problems_def comp_def)
qed

theorem listed_problems_readable_witness:
  "canReadProblem sample_author (problemFromListCursorRow (joined two_problems (sample_problem_row StatusPublished))) = Inr ()"
proof -
  have "sample_problem_row StatusPublished \<in> set (listed_rows plain_env sample_author one_per_page two_problems)" by code_simp
  from listed_problems_readable [OF this] show ?thesis by (simp add: one_per_page_def)
qed

theorem page_offset_wraps_witness:
  "sint (lf_Offset (normalizeListFilter sample_author (one_per_page\<lparr>lf_Page := 3, lf_PageSize := 50\<rparr>))) = 100"
  using page_offset_wraps [of sample_author "one_per_page\<lparr>lf_Page := 3, lf_PageSize := 50\<rparr>"]
  by (simp add: normalizeListFilter_def Let_def)

theorem authoring_flow_matches_gate_witness:
  "case GetProblemAuthoringState sample_author 7 (sample_problem_store StatusDraft) of
     Inl e \<Rightarrow> False
   | Inr st \<Rightarrow> at_Publishable st \<and> (at_Publishable st \<longleftrightarrow> fl_CurrentStep (at_Flow st) \<in> {[], ''review''}) \<and> fl_Remaining (at_Flow st) = 1"
proof -
  have ok: "case GetProblemAuthoringState sample_author 7 (sample_problem_store StatusDraft) of
     Inl e \<Rightarrow> False | Inr st \<Rightarrow> at_Publishable st \<and> fl_Remaining (at_Flow st) = 1" by code_simp
  then obtain st where st: "GetProblemAuthoringState sample_author 7 (sample_problem_store StatusDraft) = Inr st"
    by (auto split: sum.splits)
  have "\<forall>x \<in> set (pt_statements (sample_problem_store StatusDraft)). 0 < st_ID x"
    "\<forall>x \<in> set (pt_sets (sample_problem_store StatusDraft)). 0 < ts_ID x" by code_simp+
  from authoring_flow_matches_gate [OF st this] ok st show ?thesis by simp
qed

end
