(* ===== verification/Checker.thy ===== *)
theory Checker
  imports Go_Strings
begin

section \<open>The output checker (\<^verbatim>\<open>internal/judgecore/checker/checker.go\<close>)\<close>

text \<open>
  The comparison policies, the built-in checker and its difference summary. The interface \<^verbatim>\<open>Checker\<close>
  that \<^verbatim>\<open>judgecore.Core\<close> calls is the locale \<open>output_checker\<close>: a checker that never errors and accepts
  exactly the outputs with the same normal form as the expected output.
\<close>

abbreviation PolicyExact :: string where "PolicyExact \<equiv> ''exact''"
abbreviation PolicyIgnoreTrailing :: string where "PolicyIgnoreTrailing \<equiv> ''ignore_trailing_whitespace''"
abbreviation PolicyIgnoreAllWhitespace :: string where
  "PolicyIgnoreAllWhitespace \<equiv> ''ignore_all_whitespace''"

record check_request =
  Expected :: string
  Actual :: string
  Policy :: string

record check_result =
  Accepted :: bool
  cr_Message :: string
  DiffSummary :: string

abbreviation newline :: char where "newline \<equiv> CHR 0x0A"
abbreviation blank :: string where "blank \<equiv> [CHR 0x20]"

text \<open>The cut set \<^verbatim>\<open>" \t\r"\<close>.\<close>

abbreviation trailing_cutset :: string where "trailing_cutset \<equiv> [CHR 0x20, CHR 0x09, CHR 0x0D]"

definition trimTrailingSpaceLines :: "string \<Rightarrow> string" where
  "trimTrailingSpaceLines value =
     Join (map (\<lambda>line. TrimRight line trailing_cutset) (Split newline value)) [newline]"

definition quoteSummary :: "string \<Rightarrow> string" where
  "quoteSummary value =
     CHR 0x22 # concat (map (\<lambda>c. if c = newline then [CHR 0x5C, CHR ''n''] else [c]) value) @ [CHR 0x22]"

definition firstDiff :: "string \<Rightarrow> string \<Rightarrow> string" where
  "firstDiff expected actual =
     ''expected '' @ quoteSummary (if length expected > 80 then take 80 expected else expected)
     @ '', got '' @ quoteSummary (if length actual > 80 then take 80 actual else actual)"

definition Check :: "check_request \<Rightarrow> check_result res" where
  "Check request =
     (let (expected, actual) =
        (if Policy request = [] \<or> Policy request = PolicyExact then (Expected request, Actual request)
         else if Policy request = PolicyIgnoreTrailing then
           (trimTrailingSpaceLines (Expected request), trimTrailingSpaceLines (Actual request))
         else if Policy request = PolicyIgnoreAllWhitespace then
           (Join (Fields (Expected request)) blank, Join (Fields (Actual request)) blank)
         else (Expected request, Actual request))
      in if expected = actual
         then Inr \<lparr>Accepted = True, cr_Message = [], DiffSummary = []\<rparr>
         else Inr \<lparr>Accepted = False, cr_Message = ''output differs from expected output'',
                   DiffSummary = firstDiff expected actual\<rparr>)"

subsection \<open>What a policy compares\<close>

text \<open>The abstract view of an output under a policy: the lines without trailing blanks, or the words.\<close>

definition normal_form :: "string \<Rightarrow> string \<Rightarrow> string list" where
  "normal_form policy s =
     (if policy = PolicyIgnoreTrailing then
        map (\<lambda>line. TrimRight line trailing_cutset) (Split newline s)
      else if policy = PolicyIgnoreAllWhitespace then Fields s
      else [s])"

lemma trimTrailing_inject:
  "trimTrailingSpaceLines s = trimTrailingSpaceLines t
   \<longleftrightarrow> map (\<lambda>l. TrimRight l trailing_cutset) (Split newline s)
     = map (\<lambda>l. TrimRight l trailing_cutset) (Split newline t)"
proof -
  have no_nl: "\<forall>w \<in> set (map (\<lambda>l. TrimRight l trailing_cutset) (Split newline u)). newline \<notin> set w" for u
    using Split_no_sep [of _ newline u] set_TrimRight [of _ trailing_cutset] by fastforce
  have "Split newline (trimTrailingSpaceLines u)
        = map (\<lambda>l. TrimRight l trailing_cutset) (Split newline u)" for u
    unfolding trimTrailingSpaceLines_def using no_nl [of u] by (intro Split_Join) auto
  then show ?thesis
    by (metis trimTrailingSpaceLines_def)
qed

lemma Check_Accepted:
  "\<exists>r. Check request = Inr r
     \<and> (Accepted r \<longleftrightarrow> normal_form (Policy request) (Expected request)
                    = normal_form (Policy request) (Actual request))"
  by (auto simp: Check_def Let_def normal_form_def trimTrailing_inject Join_Fields_inject)

text \<open>
  The summary quotes at most 80 bytes of each side, each at most doubled by the escaping of line
  breaks.
\<close>

lemma length_quoteSummary: "length (quoteSummary s) \<le> 2 * length s + 2"
  unfolding quoteSummary_def by (induction s) auto

lemma newline_notin_quoteSummary: "newline \<notin> set (quoteSummary s)"
  unfolding quoteSummary_def by (induction s) auto

subsection \<open>The interface the judge core relies on\<close>

locale output_checker =
  fixes check :: "check_request \<Rightarrow> check_result res"
    and norm :: "string \<Rightarrow> string \<Rightarrow> string list"
  assumes check_total: "\<exists>r. check request = Inr r"
    and check_accepts: "check request = Inr r \<Longrightarrow>
      Accepted r \<longleftrightarrow> norm (Policy request) (Expected request) = norm (Policy request) (Actual request)"
begin

lemma accepts_same: "check \<lparr>Expected = s, Actual = s, Policy = p\<rparr> = Inr r \<Longrightarrow> Accepted r"
  by (simp add: check_accepts)

text \<open>Acceptance is an equivalence of outputs, whatever the checker reports besides.\<close>

lemma accepts_sym:
  assumes "check \<lparr>Expected = s, Actual = t, Policy = p\<rparr> = Inr r" and "Accepted r"
    and "check \<lparr>Expected = t, Actual = s, Policy = p\<rparr> = Inr r'"
  shows "Accepted r'"
  using assms check_accepts [of "\<lparr>Expected = s, Actual = t, Policy = p\<rparr>" r]
    check_accepts [of "\<lparr>Expected = t, Actual = s, Policy = p\<rparr>" r'] by simp

lemma accepts_trans:
  assumes "check \<lparr>Expected = s, Actual = t, Policy = p\<rparr> = Inr r" and "Accepted r"
    and "check \<lparr>Expected = t, Actual = u, Policy = p\<rparr> = Inr r'" and "Accepted r'"
    and "check \<lparr>Expected = s, Actual = u, Policy = p\<rparr> = Inr r''"
  shows "Accepted r''"
  using assms check_accepts [of "\<lparr>Expected = s, Actual = t, Policy = p\<rparr>" r]
    check_accepts [of "\<lparr>Expected = t, Actual = u, Policy = p\<rparr>" r']
    check_accepts [of "\<lparr>Expected = s, Actual = u, Policy = p\<rparr>" r''] by simp

end

interpretation builtin: output_checker Check normal_form
proof
  fix request r
  show "\<exists>r. Check request = Inr r" using Check_Accepted by blast
  assume "Check request = Inr r"
  then show "Accepted r \<longleftrightarrow> normal_form (Policy request) (Expected request)
                          = normal_form (Policy request) (Actual request)"
    using Check_Accepted [of request] by auto
qed

text \<open>
  C22: the checker always answers, and accepts exactly when the two outputs have the same normal form:
  equal texts by default, equal lines up to trailing blanks, or equal words, as the policy says. The
  acceptance is symmetric, so it does not matter which output is the reference.
\<close>

theorem Check_decides_normal_form:
  "\<exists>r r'. Check \<lparr>Expected = s, Actual = t, Policy = p\<rparr> = Inr r
     \<and> Check \<lparr>Expected = t, Actual = s, Policy = p\<rparr> = Inr r'
     \<and> Accepted r = (normal_form p s = normal_form p t) \<and> Accepted r' = Accepted r"
proof -
  obtain r r' where r: "Check \<lparr>Expected = s, Actual = t, Policy = p\<rparr> = Inr r"
    and r': "Check \<lparr>Expected = t, Actual = s, Policy = p\<rparr> = Inr r'"
    using builtin.check_total by blast
  then show ?thesis
    using builtin.check_accepts [OF r] builtin.check_accepts [OF r'] by auto
qed

end
