(* ===== verification/Judgecore.thy ===== *)
theory Judgecore
  imports Judge_Events Checker
begin

section \<open>The judge core (\<^verbatim>\<open>internal/judgecore/core.go\<close>)\<close>

text \<open>
  Judging a source against test cases, and running it once. The sandbox is an interface whose
  implementations start processes and containers; it is a record of state-passing functions over an
  abstract world \<open>'w\<close>, and the core threads that world through its calls in the order of the code,
  so what is run, and when the workspace is cleaned up, is part of the model. Contexts (deadlines,
  cancellation) reach the core only as errors of sandbox calls.
\<close>

subsection \<open>The sandbox interface (\<^verbatim>\<open>sandbox/sandbox.go\<close>) and language profiles (\<^verbatim>\<open>language.go\<close>)\<close>

record lang_profile =
  lp_Slug :: string
  lp_Name :: string
  lp_Version :: string
  lp_SourceFile :: string
  lp_BinaryFile :: string
  lp_Compile :: "string list"
  lp_Run :: "string list"
  lp_Image :: string
  lp_TimeLimitMS :: int
  lp_MemoryLimitKB :: int

definition RuntimeLabel :: "lang_profile \<Rightarrow> string" where
  "RuntimeLabel p = (if lp_Version p = [] then lp_Slug p else lp_Slug p @ ''@'' @ lp_Version p)"

record sb_limits =
  TimeLimit :: duration
  LimitMemoryKB :: int64
  OutputLimitBytes :: int64

record prepare_request =
  pr_Profile :: lang_profile
  pr_Source :: string
  pr_Limits :: sb_limits

record workspace =
  ws_Dir :: string
  ws_SourcePath :: string
  ws_BinaryPath :: string
  ws_Limits :: sb_limits

record compile_result =
  cp_Verdict :: Verdict
  cp_Output :: string
  cp_ErrorMessage :: string

record sb_run_request =
  sr_Stdin :: string
  sr_Limits :: sb_limits

record run_result =
  rs_Verdict :: Verdict
  rs_Stdout :: string
  rs_Stderr :: string
  rs_TimeMS :: int
  rs_MemoryKB :: int
  rs_ExitCode :: "int32 option"
  rs_Signal :: string
  rs_ErrorMessage :: string

record 'w sandbox =
  sb_Name :: string
  sb_Profile :: string
  sb_Prepare :: "prepare_request \<Rightarrow> 'w \<Rightarrow> workspace res \<times> 'w"
  sb_Compile :: "workspace \<Rightarrow> lang_profile \<Rightarrow> 'w \<Rightarrow> compile_result res \<times> 'w"
  sb_Run :: "workspace \<Rightarrow> lang_profile \<Rightarrow> sb_run_request \<Rightarrow> 'w \<Rightarrow> run_result res \<times> 'w"
  sb_Cleanup :: "workspace \<Rightarrow> 'w \<Rightarrow> unit res \<times> 'w"

subsection \<open>Requests\<close>

record core_case =
  kc_Index :: int
  kc_Input :: string
  kc_ExpectedOutput :: string
  kc_TimeLimit :: duration
  kc_MemoryKB :: int64
  kc_Score :: int32

record core_request =
  kr_Language :: lang_profile
  kr_Source :: string
  kr_Cases :: "core_case list"
  kr_Timeout :: duration
  kr_MemoryKB :: int64
  kr_OutputLimitBytes :: int64
  kr_Policy :: string

record core_run_request =
  kq_Language :: lang_profile
  kq_Source :: string
  kq_Stdin :: string
  kq_Timeout :: duration
  kq_MemoryKB :: int64

record 'w core =
  co_sandbox :: "'w sandbox"
  co_checker :: "check_request \<Rightarrow> check_result res"
  co_now :: "'w \<Rightarrow> time"

abbreviation Version :: string where "Version \<equiv> ''soj-judgecore-mvp''"

definition validate_core_request :: "core_request \<Rightarrow> unit res" where
  "validate_core_request r =
     (if lp_Slug (kr_Language r) = [] then Inl (ErrText ''language is required'')
      else if kr_Source r = [] then Inl (ErrText ''source is required'')
      else if kr_Cases r = [] then Inl (ErrText ''cases are required'')
      else Inr ())"

definition validate_core_run_request :: "core_run_request \<Rightarrow> unit res" where
  "validate_core_run_request r =
     (if lp_Slug (kq_Language r) = [] then Inl (ErrText ''language is required'')
      else if kq_Source r = [] then Inl (ErrText ''source is required'')
      else Inr ())"

definition limits :: "duration \<Rightarrow> int64 \<Rightarrow> int64 \<Rightarrow> sb_limits" where
  "limits timeout memoryKB outputLimit =
     \<lparr>TimeLimit = timeout, LimitMemoryKB = memoryKB, OutputLimitBytes = outputLimit\<rparr>"

definition caseTimeout :: "duration \<Rightarrow> duration \<Rightarrow> duration" where
  "caseTimeout value fallback = (if value > 0 then value else if fallback > 0 then fallback else Second)"

definition caseMemory :: "int64 \<Rightarrow> int64 \<Rightarrow> int64" where
  "caseMemory value fallback = (if value > 0 then value else fallback)"

definition caseScore :: "Verdict \<Rightarrow> int32 \<Rightarrow> int32" where
  "caseScore verdict score =
     (if verdict \<noteq> VerdictAccepted then 0 else if sint score > 0 then score else 100)"

definition core_result :: "'w core \<Rightarrow> lang_profile \<Rightarrow> judge_result \<Rightarrow> judge_result" where
  "core_result c profile r =
     r\<lparr>jr_Manifest := (jr_Manifest r)\<lparr>jm_JudgeCoreVersion := Version,
        jm_LanguageRuntime := RuntimeLabel profile,
        jm_SandboxBackend := sb_Name (co_sandbox c),
        jm_SandboxProfile := sb_Profile (co_sandbox c)\<rparr>\<rparr>"

definition compileFailed :: "'w core \<Rightarrow> lang_profile \<Rightarrow> compile_result \<Rightarrow> 'w \<Rightarrow> judge_result" where
  "compileFailed c profile compiled w =
     core_result c profile (empty_result\<lparr>jr_Verdict := cp_Verdict compiled,
       jr_CompileOutput := cp_Output compiled, jr_ErrorMessage := cp_ErrorMessage compiled,
       jr_JudgedAt := co_now c w\<rparr>)"

definition prepareWorkspace ::
  "'w core \<Rightarrow> lang_profile \<Rightarrow> string \<Rightarrow> sb_limits \<Rightarrow> 'w \<Rightarrow> workspace res \<times> 'w" where
  "prepareWorkspace c profile source runLimits w =
     sb_Prepare (co_sandbox c) \<lparr>pr_Profile = profile, pr_Source = source, pr_Limits = runLimits\<rparr> w"

text \<open>
  The clean-up is deferred, and the error \<^verbatim>\<open>Cleanup\<close> may return is discarded: whether the directory
  or the container is gone afterwards is the sandbox's affair (removing a directory or a container can
  fail), and the core neither retries nor reports it.
\<close>

definition cleanupWorkspace :: "'w core \<Rightarrow> workspace \<Rightarrow> 'w \<Rightarrow> 'w" where
  "cleanupWorkspace c ws w = snd (sb_Cleanup (co_sandbox c) ws w)"

subsection \<open>\<^verbatim>\<open>Core.Judge\<close>\<close>

text \<open>The variables the loop over the cases updates.\<close>

record judge_loop =
  jl_results :: "judge_case_result list"
  jl_verdict :: Verdict
  jl_maxTime :: int
  jl_maxMemory :: int

text \<open>
  The verdict, message and difference of one case: the run's own verdict, or the checker's when the
  run succeeded.
\<close>

definition check_case ::
  "'w core \<Rightarrow> core_request \<Rightarrow> core_case \<Rightarrow> run_result \<Rightarrow> (Verdict \<times> string \<times> string) res" where
  "check_case c req item run =
     (if rs_Verdict run = VerdictAccepted then
        bind_res (co_checker c \<lparr>Expected = kc_ExpectedOutput item, Actual = rs_Stdout run, Policy = kr_Policy req\<rparr>)
          (\<lambda>checked. if \<not> Accepted checked
                     then Inr (VerdictWrongAnswer, cr_Message checked, DiffSummary checked)
                     else Inr (rs_Verdict run, rs_ErrorMessage run, []))
      else Inr (rs_Verdict run, rs_ErrorMessage run, []))"

definition record_case ::
  "core_case \<Rightarrow> nat \<Rightarrow> run_result \<Rightarrow> Verdict \<times> string \<times> string \<Rightarrow> judge_loop \<Rightarrow> judge_loop" where
  "record_case item i run outcome st =
     (case outcome of (caseVerdict, message, diff) \<Rightarrow>
        \<lparr>jl_results = jl_results st @
           [\<lparr>jc_Index = (if kc_Index item = 0 then int i + 1 else kc_Index item), jc_GroupName = [],
             jc_TestcaseKey = [], jc_Verdict = caseVerdict, jc_Score = caseScore caseVerdict (kc_Score item),
             jc_TimeMS = rs_TimeMS run, jc_MemoryKB = rs_MemoryKB run, jc_ExitCode = rs_ExitCode run,
             jc_Signal = rs_Signal run, jc_CheckerMessage = message, jc_OutputDiffSummary = diff\<rparr>],
         jl_verdict = (if jl_verdict st = VerdictAccepted \<and> caseVerdict \<noteq> VerdictAccepted
                       then caseVerdict else jl_verdict st),
         jl_maxTime = (if rs_TimeMS run > jl_maxTime st then rs_TimeMS run else jl_maxTime st),
         jl_maxMemory = (if rs_MemoryKB run > jl_maxMemory st then rs_MemoryKB run else jl_maxMemory st)\<rparr>)"

fun judge_cases ::
  "'w core \<Rightarrow> workspace \<Rightarrow> core_request \<Rightarrow> nat \<Rightarrow> core_case list \<Rightarrow> judge_loop \<Rightarrow> 'w \<Rightarrow> judge_loop res \<times> 'w" where
  "judge_cases c ws req i [] st w = (Inr st, w)"
| "judge_cases c ws req i (item # items) st w =
     (case sb_Run (co_sandbox c) ws (kr_Language req)
             \<lparr>sr_Stdin = kc_Input item,
              sr_Limits = limits (caseTimeout (kc_TimeLimit item) (kr_Timeout req))
                (caseMemory (kc_MemoryKB item) (kr_MemoryKB req)) (kr_OutputLimitBytes req)\<rparr> w of
        (Inl e, w1) \<Rightarrow> (Inl e, w1)
      | (Inr run, w1) \<Rightarrow>
          (case check_case c req item run of
             Inl e \<Rightarrow> (Inl e, w1)
           | Inr outcome \<Rightarrow>
               judge_cases c ws req (Suc i) items (record_case item i run outcome st) w1))"

definition judge_loop_start :: judge_loop where
  "judge_loop_start = \<lparr>jl_results = [], jl_verdict = VerdictAccepted, jl_maxTime = 0, jl_maxMemory = 0\<rparr>"

definition loop_result :: "'w core \<Rightarrow> lang_profile \<Rightarrow> judge_loop \<Rightarrow> 'w \<Rightarrow> judge_result" where
  "loop_result c profile st w =
     core_result c profile (empty_result\<lparr>jr_Verdict := jl_verdict st, jr_TimeMS := jl_maxTime st,
       jr_MemoryKB := jl_maxMemory st, jr_Cases := jl_results st, jr_JudgedAt := co_now c w\<rparr>)"

text \<open>What happens between \<^verbatim>\<open>Prepare\<close> and the deferred cleanup.\<close>

definition judge_in_workspace ::
  "'w core \<Rightarrow> core_request \<Rightarrow> workspace \<Rightarrow> 'w \<Rightarrow> judge_result res \<times> 'w" where
  "judge_in_workspace c req ws w =
     (case sb_Compile (co_sandbox c) ws (kr_Language req) w of
        (Inl e, w1) \<Rightarrow> (Inl e, w1)
      | (Inr compiled, w1) \<Rightarrow>
          if cp_Verdict compiled \<noteq> VerdictAccepted
          then (Inr (compileFailed c (kr_Language req) compiled w1), w1)
          else (case judge_cases c ws req 0 (kr_Cases req) judge_loop_start w1 of
                  (Inl e, w2) \<Rightarrow> (Inl e, w2)
                | (Inr st, w2) \<Rightarrow> (Inr (loop_result c (kr_Language req) st w2), w2)))"

definition Judge :: "'w core \<Rightarrow> core_request \<Rightarrow> 'w \<Rightarrow> judge_result res \<times> 'w" where
  "Judge c req w =
     (case validate_core_request req of
        Inl e \<Rightarrow> (Inl e, w)
      | Inr _ \<Rightarrow>
          (case prepareWorkspace c (kr_Language req) (kr_Source req)
                  (limits (kr_Timeout req) (kr_MemoryKB req) (kr_OutputLimitBytes req)) w of
             (Inl e, w1) \<Rightarrow> (Inl e, w1)
           | (Inr ws, w1) \<Rightarrow>
               (case judge_in_workspace c req ws w1 of
                  (r, w2) \<Rightarrow> (r, cleanupWorkspace c ws w2))))"

subsection \<open>\<^verbatim>\<open>Core.Run\<close>\<close>

definition run_in_workspace ::
  "'w core \<Rightarrow> core_run_request \<Rightarrow> workspace \<Rightarrow> 'w \<Rightarrow> judge_result res \<times> 'w" where
  "run_in_workspace c req ws w =
     (case sb_Compile (co_sandbox c) ws (kq_Language req) w of
        (Inl e, w1) \<Rightarrow> (Inl e, w1)
      | (Inr compiled, w1) \<Rightarrow>
          if cp_Verdict compiled \<noteq> VerdictAccepted
          then (Inr (compileFailed c (kq_Language req) compiled w1), w1)
          else (case sb_Run (co_sandbox c) ws (kq_Language req)
                       \<lparr>sr_Stdin = kq_Stdin req, sr_Limits = limits (kq_Timeout req) (kq_MemoryKB req) 0\<rparr> w1 of
                  (Inl e, w2) \<Rightarrow> (Inl e, w2)
                | (Inr run, w2) \<Rightarrow>
                    (Inr (core_result c (kq_Language req) (empty_result\<lparr>jr_Verdict := rs_Verdict run,
                       jr_TimeMS := rs_TimeMS run, jr_MemoryKB := rs_MemoryKB run, jr_Stdout := rs_Stdout run,
                       jr_Stderr := rs_Stderr run, jr_ErrorMessage := rs_ErrorMessage run,
                       jr_JudgedAt := co_now c w2\<rparr>)), w2)))"

definition Run :: "'w core \<Rightarrow> core_run_request \<Rightarrow> 'w \<Rightarrow> judge_result res \<times> 'w" where
  "Run c req w =
     (case validate_core_run_request req of
        Inl e \<Rightarrow> (Inl e, w)
      | Inr _ \<Rightarrow>
          (case prepareWorkspace c (kq_Language req) (kq_Source req)
                  (limits (kq_Timeout req) (kq_MemoryKB req) 0) w of
             (Inl e, w1) \<Rightarrow> (Inl e, w1)
           | (Inr ws, w1) \<Rightarrow>
               (case run_in_workspace c req ws w1 of
                  (r, w2) \<Rightarrow> (r, cleanupWorkspace c ws w2))))"

subsection \<open>The loop invariant\<close>

text \<open>The verdict of a list of case results: that of the first case that is not accepted.\<close>

fun first_failure :: "judge_case_result list \<Rightarrow> Verdict" where
  "first_failure [] = VerdictAccepted"
| "first_failure (r # rs) = (if jc_Verdict r \<noteq> VerdictAccepted then jc_Verdict r else first_failure rs)"

lemma first_failure_snoc:
  "first_failure (rs @ [r]) = (if first_failure rs = VerdictAccepted then jc_Verdict r else first_failure rs)"
  by (induction rs) auto

lemma first_failure_accepted:
  "first_failure rs = VerdictAccepted \<longleftrightarrow> (\<forall>r \<in> set rs. jc_Verdict r = VerdictAccepted)"
  by (induction rs) auto

definition loop_inv :: "judge_loop \<Rightarrow> bool" where
  "loop_inv st \<longleftrightarrow>
     jl_verdict st = first_failure (jl_results st)
     \<and> jl_maxTime st = fold max (map jc_TimeMS (jl_results st)) 0
     \<and> jl_maxMemory st = fold max (map jc_MemoryKB (jl_results st)) 0
     \<and> (\<forall>r \<in> set (jl_results st). jc_Verdict r \<noteq> VerdictAccepted \<longrightarrow> jc_Score r = 0)"

lemma loop_inv_start: "loop_inv judge_loop_start"
  by (simp add: loop_inv_def judge_loop_start_def)

lemma loop_inv_record_case: "loop_inv st \<Longrightarrow> loop_inv (record_case item i run outcome st)"
  by (cases outcome)
    (auto simp: loop_inv_def record_case_def first_failure_snoc caseScore_def max_def)

text \<open>
  The rows already recorded are kept, and one row is added per case, in order: \<open>case_rows\<close> says what
  the added rows' indices are.
\<close>

definition case_rows :: "nat \<Rightarrow> core_case list \<Rightarrow> int list" where
  "case_rows i items = map_idx (\<lambda>k item. if kc_Index item = 0 then int k + 1 else kc_Index item) i items"

lemma judge_cases_ok:
  assumes "judge_cases c ws req i items st w = (Inr st', w')" and "loop_inv st"
  shows "loop_inv st' \<and> map jc_Index (jl_results st') = map jc_Index (jl_results st) @ case_rows i items"
  using assms
proof (induction items arbitrary: i st w)
  case Nil
  then show ?case by (simp add: case_rows_def)
next
  case (Cons item items)
  from Cons.prems(1) obtain run w1 outcome where
    rec: "judge_cases c ws req (Suc i) items (record_case item i run outcome st) w1 = (Inr st', w')"
    by (auto split: prod.splits sum.splits)
  have idx: "map jc_Index (jl_results (record_case item i run outcome st))
    = map jc_Index (jl_results st) @ [if kc_Index item = 0 then int i + 1 else kc_Index item]"
    by (cases outcome) (simp add: record_case_def)
  show ?case
    using Cons.IH [OF rec loop_inv_record_case [OF Cons.prems(2)]] idx
    by (simp add: case_rows_def)
qed

lemma validate_core_request_ok:
  "validate_core_request req = Inr u \<Longrightarrow> kr_Cases req \<noteq> [] \<and> kr_Source req \<noteq> [] \<and> lp_Slug (kr_Language req) \<noteq> []"
  by (auto simp: validate_core_request_def split: if_splits)

subsection \<open>What the verdict means\<close>

text \<open>
  The runs the loop performs: one per case, each started in the world the previous one left, with the
  limits of its case.
\<close>

definition case_run_request :: "core_request \<Rightarrow> core_case \<Rightarrow> sb_run_request" where
  "case_run_request req item =
     \<lparr>sr_Stdin = kc_Input item,
      sr_Limits = limits (caseTimeout (kc_TimeLimit item) (kr_Timeout req))
        (caseMemory (kc_MemoryKB item) (kr_MemoryKB req)) (kr_OutputLimitBytes req)\<rparr>"

inductive case_runs ::
  "'w sandbox \<Rightarrow> workspace \<Rightarrow> core_request \<Rightarrow> core_case list \<Rightarrow> 'w \<Rightarrow> run_result list \<Rightarrow> 'w \<Rightarrow> bool"
  for sb ws req where
  no_case: "case_runs sb ws req [] w [] w"
| one_case: "sb_Run sb ws (kr_Language req) (case_run_request req item) w = (Inr run, w1) \<Longrightarrow>
    case_runs sb ws req items w1 runs w' \<Longrightarrow> case_runs sb ws req (item # items) w (run # runs) w'"

inductive_cases case_runs_ConsE: "case_runs sb ws req (item # items) w runs w'"

context output_checker
begin

text \<open>A case passes when its run succeeds and the checker cannot tell the output from the expected one.\<close>

definition case_passes :: "core_request \<Rightarrow> core_case \<Rightarrow> run_result \<Rightarrow> bool" where
  "case_passes req item run \<longleftrightarrow> rs_Verdict run = VerdictAccepted
     \<and> norm (kr_Policy req) (kc_ExpectedOutput item) = norm (kr_Policy req) (rs_Stdout run)"

lemma check_case_total:
  assumes "co_checker c = check"
  shows "\<exists>v m d. check_case c req item run = Inr (v, m, d) \<and> (v = VerdictAccepted \<longleftrightarrow> case_passes req item run)"
proof (cases "rs_Verdict run = VerdictAccepted")
  case True
  let ?q = "\<lparr>Expected = kc_ExpectedOutput item, Actual = rs_Stdout run, Policy = kr_Policy req\<rparr>"
  obtain r where r: "check ?q = Inr r" using check_total by blast
  from check_accepts [OF r] True assms r show ?thesis
    by (cases "Accepted r") (auto simp: check_case_def case_passes_def)
next
  case False
  then show ?thesis by (auto simp: check_case_def case_passes_def)
qed

lemma judge_cases_runs:
  assumes "co_checker c = check" and "judge_cases c ws req i items st w = (Inr st', w')"
  shows "\<exists>runs. case_runs (co_sandbox c) ws req items w runs w'
     \<and> (jl_verdict st' = VerdictAccepted \<longleftrightarrow>
          jl_verdict st = VerdictAccepted \<and> list_all2 (case_passes req) items runs)"
  using assms(2)
proof (induction items arbitrary: i st w)
  case Nil
  then show ?case by (auto intro: case_runs.no_case)
next
  case (Cons item items)
  obtain run w1 where run: "sb_Run (co_sandbox c) ws (kr_Language req) (case_run_request req item) w = (Inr run, w1)"
    using Cons.prems by (auto simp: case_run_request_def split: prod.splits sum.splits)
  obtain v m d where v: "check_case c req item run = Inr (v, m, d)"
    and passes: "v = VerdictAccepted \<longleftrightarrow> case_passes req item run"
    using check_case_total [OF assms(1), of req item run] by auto
  have verdict: "jl_verdict (record_case item i run (v, m, d) st) = VerdictAccepted
      \<longleftrightarrow> jl_verdict st = VerdictAccepted \<and> v = VerdictAccepted"
    by (auto simp: record_case_def)
  have rec: "judge_cases c ws req (Suc i) items (record_case item i run (v, m, d) st) w1 = (Inr st', w')"
    using Cons.prems run v by (simp add: case_run_request_def)
  from Cons.IH [OF rec] obtain runs where runs: "case_runs (co_sandbox c) ws req items w1 runs w'"
    and iff: "jl_verdict st' = VerdictAccepted \<longleftrightarrow>
      jl_verdict (record_case item i run (v, m, d) st) = VerdictAccepted \<and> list_all2 (case_passes req) items runs"
    by blast
  have "case_runs (co_sandbox c) ws req (item # items) w (run # runs) w'"
    by (rule case_runs.one_case [OF run runs])
  moreover have "jl_verdict st' = VerdictAccepted \<longleftrightarrow>
      jl_verdict st = VerdictAccepted \<and> list_all2 (case_passes req) (item # items) (run # runs)"
    using iff verdict passes by auto
  ultimately show ?case by blast
qed

end

lemma Judge_cases:
  assumes "Judge c req w = (Inr r, w')"
  obtains (compile_failed) ws w1 compiled w2 where
      "prepareWorkspace c (kr_Language req) (kr_Source req)
         (limits (kr_Timeout req) (kr_MemoryKB req) (kr_OutputLimitBytes req)) w = (Inr ws, w1)"
      "sb_Compile (co_sandbox c) ws (kr_Language req) w1 = (Inr compiled, w2)"
      "cp_Verdict compiled \<noteq> VerdictAccepted" "r = compileFailed c (kr_Language req) compiled w2"
      "w' = cleanupWorkspace c ws w2"
  | (judged) ws w1 compiled w2 st w3 where
      "prepareWorkspace c (kr_Language req) (kr_Source req)
         (limits (kr_Timeout req) (kr_MemoryKB req) (kr_OutputLimitBytes req)) w = (Inr ws, w1)"
      "sb_Compile (co_sandbox c) ws (kr_Language req) w1 = (Inr compiled, w2)"
      "cp_Verdict compiled = VerdictAccepted"
      "judge_cases c ws req 0 (kr_Cases req) judge_loop_start w2 = (Inr st, w3)"
      "r = loop_result c (kr_Language req) st w3" "w' = cleanupWorkspace c ws w3"
  using assms
  by (auto simp: Judge_def judge_in_workspace_def split: sum.splits prod.splits if_splits)

text \<open>
  A judge result reports one row per test case in order, or none when compilation failed (then
  the verdict is the compiler's and not accepted). The verdict is that of the first case that failed,
  time and memory are the maxima over the cases, and a case that failed scores nothing.
\<close>

theorem Judge_reports_first_failure:
  assumes "Judge c req w = (Inr r, w')"
  shows "(jr_Cases r = [] \<and> jr_Verdict r \<noteq> VerdictAccepted
            \<and> (\<exists>ws w1 compiled w2. sb_Compile (co_sandbox c) ws (kr_Language req) w1 = (Inr compiled, w2)
                 \<and> jr_Verdict r = cp_Verdict compiled \<and> jr_CompileOutput r = cp_Output compiled))
         \<or> (map jc_Index (jr_Cases r) = case_rows 0 (kr_Cases req)
            \<and> jr_Cases r \<noteq> []
            \<and> jr_Verdict r = first_failure (jr_Cases r)
            \<and> jr_TimeMS r = fold max (map jc_TimeMS (jr_Cases r)) 0
            \<and> jr_MemoryKB r = fold max (map jc_MemoryKB (jr_Cases r)) 0
            \<and> (\<forall>row \<in> set (jr_Cases r). jc_Verdict row \<noteq> VerdictAccepted \<longrightarrow> jc_Score row = 0))"
  using assms
proof (cases rule: Judge_cases)
  case (compile_failed ws w1 compiled w2)
  then have "jr_Cases r = [] \<and> jr_Verdict r = cp_Verdict compiled \<and> jr_CompileOutput r = cp_Output compiled"
    by (simp add: compileFailed_def core_result_def empty_result_def)
  with compile_failed show ?thesis by auto
next
  case (judged ws w1 compiled w2 st w3)
  have "validate_core_request req = Inr ()"
    using assms by (auto simp: Judge_def split: sum.splits)
  then have ne: "kr_Cases req \<noteq> []" using validate_core_request_ok by blast
  have st: "loop_inv st" "map jc_Index (jl_results st) = case_rows 0 (kr_Cases req)"
    using judge_cases_ok [OF judged(4) loop_inv_start] by (auto simp: judge_loop_start_def)
  have "length (case_rows 0 (kr_Cases req)) = length (kr_Cases req)" by (simp add: case_rows_def)
  with ne st(2) have "jl_results st \<noteq> []" by (metis length_0_conv list.map_disc_iff)
  moreover have "jr_Cases r = jl_results st" "jr_Verdict r = jl_verdict st" "jr_TimeMS r = jl_maxTime st"
    "jr_MemoryKB r = jl_maxMemory st"
    by (simp_all add: judged loop_result_def core_result_def empty_result_def)
  ultimately show ?thesis using st by (simp add: loop_inv_def)
qed

text \<open>
  C10: with the built-in checker, a submission is accepted exactly when it compiled and, for every
  test case in order, the run within the case's limits succeeded with an output that agrees with the
  expected one under the request's policy.
\<close>

theorem Judge_accepts_iff:
  assumes "Judge c req w = (Inr r, w')" and "co_checker c = Check"
  shows "jr_Verdict r = VerdictAccepted \<longleftrightarrow>
    (\<exists>ws w1 compiled w2 runs w3.
       prepareWorkspace c (kr_Language req) (kr_Source req)
         (limits (kr_Timeout req) (kr_MemoryKB req) (kr_OutputLimitBytes req)) w = (Inr ws, w1)
       \<and> sb_Compile (co_sandbox c) ws (kr_Language req) w1 = (Inr compiled, w2)
       \<and> cp_Verdict compiled = VerdictAccepted
       \<and> case_runs (co_sandbox c) ws req (kr_Cases req) w2 runs w3
       \<and> list_all2 (\<lambda>item run. rs_Verdict run = VerdictAccepted
            \<and> normal_form (kr_Policy req) (kc_ExpectedOutput item) = normal_form (kr_Policy req) (rs_Stdout run))
           (kr_Cases req) runs)"
  using assms(1)
proof (cases rule: Judge_cases)
  case (compile_failed ws w1 compiled w2)
  then have "jr_Verdict r \<noteq> VerdictAccepted"
    by (simp add: compileFailed_def core_result_def)
  with compile_failed show ?thesis by auto
next
  case (judged ws w1 compiled w2 st w3)
  have runs_det: "case_runs sb ws req items w rs v \<Longrightarrow> case_runs sb ws req items w rs' v' \<Longrightarrow> rs = rs'"
    for sb :: "'a sandbox" and ws req items w rs v rs' v'
    by (induction arbitrary: rs' rule: case_runs.induct) (auto elim: case_runs.cases)
  from builtin.judge_cases_runs [OF assms(2) judged(4)] obtain runs where
    runs: "case_runs (co_sandbox c) ws req (kr_Cases req) w2 runs w3"
    and iff: "jl_verdict st = VerdictAccepted \<longleftrightarrow> list_all2 (builtin.case_passes req) (kr_Cases req) runs"
    by (auto simp: judge_loop_start_def)
  have "jr_Verdict r = jl_verdict st" by (simp add: judged loop_result_def core_result_def)
  with iff runs judged show ?thesis
    unfolding builtin.case_passes_def by (auto dest: runs_det)
qed

subsection \<open>The calls a sandbox sees\<close>

text \<open>
  What the core asks of a sandbox, as a trace. \<open>traced\<close> wraps any sandbox: the same calls with the same
  results over the same world, and beside the world the list of the calls made so far. Nothing is
  assumed of the wrapped sandbox: each of its operations, \<^verbatim>\<open>Cleanup\<close> included, may fail at any time.
\<close>

datatype sandbox_call =
  Prepared "workspace res" | Compiled workspace | Ran workspace | Cleaned workspace "unit res"

definition record_call ::
  "('a \<Rightarrow> sandbox_call) \<Rightarrow> ('w \<Rightarrow> 'a \<times> 'w) \<Rightarrow> 'w \<times> sandbox_call list \<Rightarrow> 'a \<times> 'w \<times> sandbox_call list" where
  "record_call call f v = (case f (fst v) of (r, w) \<Rightarrow> (r, w, snd v @ [call r]))"

definition traced :: "'w sandbox \<Rightarrow> ('w \<times> sandbox_call list) sandbox" where
  "traced sb = \<lparr>sb_Name = sb_Name sb, sb_Profile = sb_Profile sb,
     sb_Prepare = (\<lambda>q. record_call Prepared (sb_Prepare sb q)),
     sb_Compile = (\<lambda>ws p. record_call (\<lambda>_. Compiled ws) (sb_Compile sb ws p)),
     sb_Run = (\<lambda>ws p q. record_call (\<lambda>_. Ran ws) (sb_Run sb ws p q)),
     sb_Cleanup = (\<lambda>ws. record_call (Cleaned ws) (sb_Cleanup sb ws))\<rparr>"

definition traced_core :: "'w core \<Rightarrow> ('w \<times> sandbox_call list) core" where
  "traced_core c = \<lparr>co_sandbox = traced (co_sandbox c), co_checker = co_checker c,
     co_now = (\<lambda>v. co_now c (fst v))\<rparr>"

text \<open>
  The calls of one session: none, a preparation that failed, or a preparation that gave a workspace,
  one compilation in it, at most \<open>n\<close> runs in it and one \<^verbatim>\<open>Cleanup\<close> of that workspace, the last call,
  whatever it returned.
\<close>

definition session_calls :: "nat \<Rightarrow> sandbox_call list \<Rightarrow> bool" where
  "session_calls n calls \<longleftrightarrow>
     calls = [] \<or> (\<exists>e. calls = [Prepared (Inl e)])
     \<or> (\<exists>ws k r. k \<le> n \<and> calls = Prepared (Inr ws) # Compiled ws # replicate k (Ran ws) @ [Cleaned ws r])"

lemmas traced_simps = traced_core_def traced_def record_call_def

lemma check_case_traced: "check_case (traced_core c) = check_case c"
  by (simp add: fun_eq_iff check_case_def traced_core_def)

lemma run_traced:
  "sb_Run (co_sandbox (traced_core c)) ws p q (w, l)
     = (case sb_Run (co_sandbox c) ws p q w of (r, w') \<Rightarrow> (r, w', l @ [Ran ws]))"
  by (simp add: traced_simps)

lemma compile_traced:
  "sb_Compile (co_sandbox (traced_core c)) ws p (w, l)
     = (case sb_Compile (co_sandbox c) ws p w of (r, w') \<Rightarrow> (r, w', l @ [Compiled ws]))"
  by (simp add: traced_simps)

lemma judge_cases_traced:
  "\<exists>k \<le> length items. judge_cases (traced_core c) ws req i items st (w, l)
     = (case judge_cases c ws req i items st w of (r, w') \<Rightarrow> (r, w', l @ replicate k (Ran ws)))"
proof (induction items arbitrary: i st w l)
  case (Cons item items)
  let ?run = "sb_Run (co_sandbox c) ws (kr_Language req)
      \<lparr>sr_Stdin = kc_Input item, sr_Limits = limits (caseTimeout (kc_TimeLimit item) (kr_Timeout req))
        (caseMemory (kc_MemoryKB item) (kr_MemoryKB req)) (kr_OutputLimitBytes req)\<rparr> w"
  obtain r w1 where run: "?run = (r, w1)" by (cases ?run)
  show ?case
  proof (cases "\<exists>run outcome. r = Inr run \<and> check_case c req item run = Inr outcome")
    case True
    then obtain run outcome where r: "r = Inr run" and o: "check_case c req item run = Inr outcome" by blast
    from Cons.IH [of "Suc i" "record_case item i run outcome st" w1 "l @ [Ran ws]"] obtain k where
      "k \<le> length items" and
      "judge_cases (traced_core c) ws req (Suc i) items (record_case item i run outcome st) (w1, l @ [Ran ws])
         = (case judge_cases c ws req (Suc i) items (record_case item i run outcome st) w1 of
              (r, w') \<Rightarrow> (r, w', l @ replicate (Suc k) (Ran ws)))"
      by auto
    then show ?thesis
      using run r o by (intro exI [of _ "Suc k"]) (simp add: run_traced check_case_traced)
  next
    case False
    then show ?thesis
      using run by (intro exI [of _ 1])
        (auto simp: run_traced check_case_traced split: sum.splits)
  qed
qed simp

lemma traced_core_result: "core_result (traced_core c) = core_result c"
  by (simp add: fun_eq_iff core_result_def traced_simps)

lemma compileFailed_traced: "compileFailed (traced_core c) p r (w, l) = compileFailed c p r w"
  by (simp add: compileFailed_def traced_core_result) (simp add: traced_simps)

lemma loop_result_traced: "loop_result (traced_core c) p st (w, l) = loop_result c p st w"
  by (simp add: loop_result_def traced_core_result) (simp add: traced_simps)

lemma judge_in_workspace_traced:
  "\<exists>k \<le> length (kr_Cases req). judge_in_workspace (traced_core c) req ws (w, l)
     = (case judge_in_workspace c req ws w of (r, w') \<Rightarrow> (r, w', l @ Compiled ws # replicate k (Ran ws)))"
proof -
  obtain r w1 where c: "sb_Compile (co_sandbox c) ws (kr_Language req) w = (r, w1)" by fastforce
  show ?thesis
  proof (cases "\<exists>compiled. r = Inr compiled \<and> cp_Verdict compiled = VerdictAccepted")
    case True
    obtain k where k: "k \<le> length (kr_Cases req)" and cases:
      "judge_cases (traced_core c) ws req 0 (kr_Cases req) judge_loop_start (w1, l @ [Compiled ws])
         = (case judge_cases c ws req 0 (kr_Cases req) judge_loop_start w1 of
              (r, w') \<Rightarrow> (r, w', (l @ [Compiled ws]) @ replicate k (Ran ws)))"
      using judge_cases_traced [of "kr_Cases req" c ws req 0 judge_loop_start w1 "l @ [Compiled ws]"] by blast
    show ?thesis
      using True c k cases
      by (intro exI [of _ k])
        (auto simp: judge_in_workspace_def compile_traced loop_result_traced split: prod.splits sum.splits)
  next
    case False
    then show ?thesis
      using c by (intro exI [of _ 0])
        (auto simp: judge_in_workspace_def compile_traced compileFailed_traced split: prod.splits sum.splits)
  qed
qed

lemma run_in_workspace_traced:
  "\<exists>k \<le> 1. run_in_workspace (traced_core c) req ws (w, l)
     = (case run_in_workspace c req ws w of (r, w') \<Rightarrow> (r, w', l @ Compiled ws # replicate k (Ran ws)))"
proof -
  obtain r w1 where c: "sb_Compile (co_sandbox c) ws (kq_Language req) w = (r, w1)" by fastforce
  show ?thesis
  proof (cases "\<exists>compiled. r = Inr compiled \<and> cp_Verdict compiled = VerdictAccepted")
    case True
    then show ?thesis
      using c by (intro exI [of _ 1])
        (auto simp: run_in_workspace_def compile_traced run_traced traced_core_result split: prod.splits sum.splits,
         auto simp: traced_simps)
  next
    case False
    then show ?thesis
      using c by (intro exI [of _ 0])
        (auto simp: run_in_workspace_def compile_traced compileFailed_traced split: prod.splits sum.splits)
  qed
qed

text \<open>A session in a fresh workspace: the calls made in it, between its preparation and its cleanup.\<close>

lemma workspace_session:
  assumes "\<And>ws v l. \<exists>k \<le> n. tbody ws (v, l)
     = (case body ws v of (r, w') \<Rightarrow> (r, w', l @ Compiled ws # replicate k (Ran ws)))"
  shows "\<exists>calls. session_calls n calls
     \<and> (case prepareWorkspace (traced_core c) p s lim (w, []) of
          (Inl e, w1) \<Rightarrow> (Inl e, w1)
        | (Inr ws, w1) \<Rightarrow> (case tbody ws w1 of (r, w2) \<Rightarrow> (r, cleanupWorkspace (traced_core c) ws w2)))
       = (case (case prepareWorkspace c p s lim w of
                  (Inl e, w1) \<Rightarrow> (Inl e, w1)
                | (Inr ws, w1) \<Rightarrow> (case body ws w1 of (r, w2) \<Rightarrow> (r, cleanupWorkspace c ws w2))) of
            (r, w') \<Rightarrow> (r, w', calls))"
proof -
  obtain pr w1 where prep: "prepareWorkspace c p s lim w = (pr, w1)" by fastforce
  then have tprep: "prepareWorkspace (traced_core c) p s lim (w, []) = (pr, w1, [Prepared pr])"
    by (simp add: prepareWorkspace_def traced_simps)
  show ?thesis
  proof (cases pr)
    case (Inl e)
    then show ?thesis using prep tprep by (auto simp: session_calls_def)
  next
    case (Inr ws)
    obtain r w2 where b: "body ws w1 = (r, w2)" by fastforce
    from assms [of ws w1 "[Prepared pr]"] obtain k where k: "k \<le> n"
      and tb: "tbody ws (w1, [Prepared pr]) = (r, w2, Prepared pr # Compiled ws # replicate k (Ran ws))"
      using b by auto
    obtain cr w3 where cl: "sb_Cleanup (co_sandbox c) ws w2 = (cr, w3)" by fastforce
    have "session_calls n (Prepared (Inr ws) # Compiled ws # replicate k (Ran ws) @ [Cleaned ws cr])"
      using k by (auto simp: session_calls_def)
    then show ?thesis
      using prep tprep b tb cl Inr by (auto simp: cleanupWorkspace_def traced_simps intro!: exI)
  qed
qed

lemma Judge_traced:
  "\<exists>calls. session_calls (length (kr_Cases req)) calls
     \<and> Judge (traced_core c) req (w, []) = (case Judge c req w of (r, w') \<Rightarrow> (r, w', calls))"
proof (cases "validate_core_request req")
  case (Inl e)
  then show ?thesis by (auto simp: Judge_def session_calls_def)
next
  case (Inr u)
  then show ?thesis
    using workspace_session [of "length (kr_Cases req)" "judge_in_workspace (traced_core c) req"
      "judge_in_workspace c req" c "kr_Language req" "kr_Source req"
      "limits (kr_Timeout req) (kr_MemoryKB req) (kr_OutputLimitBytes req)" w, OF judge_in_workspace_traced]
    by (simp add: Judge_def)
qed

lemma Run_traced:
  "\<exists>calls. session_calls 1 calls
     \<and> Run (traced_core c) req (w, []) = (case Run c req w of (r, w') \<Rightarrow> (r, w', calls))"
proof (cases "validate_core_run_request req")
  case (Inl e)
  then show ?thesis by (auto simp: Run_def session_calls_def)
next
  case (Inr u)
  then show ?thesis
    using workspace_session [of 1 "run_in_workspace (traced_core c) req" "run_in_workspace c req" c
      "kq_Language req" "kq_Source req" "limits (kq_Timeout req) (kq_MemoryKB req) 0" w, OF run_in_workspace_traced]
    by (simp add: Run_def)
qed

text \<open>What \<^verbatim>\<open>Cleanup\<close> does or returns is not looked at.\<close>

abbreviation with_cleanup :: "'w core \<Rightarrow> (workspace \<Rightarrow> 'w \<Rightarrow> unit res \<times> 'w) \<Rightarrow> 'w core" where
  "with_cleanup c other \<equiv> c\<lparr>co_sandbox := (co_sandbox c)\<lparr>sb_Cleanup := other\<rparr>\<rparr>"

lemma judge_cases_cleanup:
  "judge_cases (with_cleanup c other) ws req i items st w = judge_cases c ws req i items st w"
  by (induction items arbitrary: i st w) (auto simp: check_case_def split: prod.splits sum.splits)

lemma results_cleanup:
  "compileFailed (with_cleanup c other) = compileFailed c" "loop_result (with_cleanup c other) = loop_result c"
  "core_result (with_cleanup c other) = core_result c"
  "prepareWorkspace (with_cleanup c other) = prepareWorkspace c"
  by (simp_all add: fun_eq_iff compileFailed_def loop_result_def core_result_def prepareWorkspace_def)

lemma Judge_cleanup_irrelevant: "fst (Judge (with_cleanup c other) req w) = fst (Judge c req w)"
  by (auto simp: Judge_def judge_in_workspace_def judge_cases_cleanup results_cleanup split: prod.splits sum.splits)

lemma Run_cleanup_irrelevant: "fst (Run (with_cleanup c other) req w) = fst (Run c req w)"
  by (auto simp: Run_def run_in_workspace_def results_cleanup split: prod.splits sum.splits)


subsection \<open>A concrete sandbox\<close>

text \<open>A sandbox that keeps the list of its workspaces and whose programs print their input.\<close>

definition echo_workspace :: workspace where
  "echo_workspace = \<lparr>ws_Dir = ''/tmp/w'', ws_SourcePath = ''/tmp/w/a'', ws_BinaryPath = ''/tmp/w/b'',
     ws_Limits = limits 1 1 0\<rparr>"

definition echo_sandbox :: "workspace list sandbox" where
  "echo_sandbox = \<lparr>sb_Name = ''echo'', sb_Profile = ''none'',
     sb_Prepare = (\<lambda>q w. (Inr echo_workspace, echo_workspace # w)),
     sb_Compile = (\<lambda>ws p w. (Inr \<lparr>cp_Verdict = VerdictAccepted, cp_Output = [], cp_ErrorMessage = []\<rparr>, w)),
     sb_Run = (\<lambda>ws p q w. (Inr \<lparr>rs_Verdict = VerdictAccepted, rs_Stdout = sr_Stdin q, rs_Stderr = [],
        rs_TimeMS = 3, rs_MemoryKB = 4, rs_ExitCode = Some 0, rs_Signal = [], rs_ErrorMessage = []\<rparr>, w)),
     sb_Cleanup = (\<lambda>ws w. (Inr (), remove1 ws w))\<rparr>"

definition echo_core :: "workspace list core" where
  "echo_core = \<lparr>co_sandbox = echo_sandbox, co_checker = Check, co_now = (\<lambda>w. 9)\<rparr>"

definition sample_profile :: lang_profile where
  "sample_profile = \<lparr>lp_Slug = ''go'', lp_Name = ''Go'', lp_Version = [], lp_SourceFile = [], lp_BinaryFile = [],
     lp_Compile = [], lp_Run = [], lp_Image = [], lp_TimeLimitMS = 0, lp_MemoryLimitKB = 0\<rparr>"

definition sample_case :: "string \<Rightarrow> string \<Rightarrow> core_case" where
  "sample_case input expected = \<lparr>kc_Index = 0, kc_Input = input, kc_ExpectedOutput = expected, kc_TimeLimit = 0,
     kc_MemoryKB = 0, kc_Score = 0\<rparr>"

definition sample_request :: core_request where
  "sample_request = \<lparr>kr_Language = sample_profile, kr_Source = ''src'',
     kr_Cases = [sample_case ''1'' ''1'', sample_case ''2'' ''3''], kr_Timeout = 0, kr_MemoryKB = 0,
     kr_OutputLimitBytes = 0, kr_Policy = PolicyExact\<rparr>"

definition sample_run_request :: core_run_request where
  "sample_run_request = \<lparr>kq_Language = sample_profile, kq_Source = ''src'', kq_Stdin = ''1'', kq_Timeout = 0,
     kq_MemoryKB = 0\<rparr>"

lemma echo_judge_calls:
  "snd (snd (Judge (traced_core echo_core) sample_request ([], [])))
     = [Prepared (Inr echo_workspace), Compiled echo_workspace, Ran echo_workspace, Ran echo_workspace,
        Cleaned echo_workspace (Inr ())]"
  by code_simp

lemma echo_judge: "\<exists>r. Judge echo_core sample_request [] = (Inr r, []) \<and> jr_Verdict r = VerdictWrongAnswer"
proof -
  have "snd (Judge echo_core sample_request []) = []" by code_simp
  moreover have "map_sum (\<lambda>e. ()) jr_Verdict (fst (Judge echo_core sample_request [])) = Inr VerdictWrongAnswer"
    by code_simp
  ultimately show ?thesis by (cases "Judge echo_core sample_request []"; cases "fst (Judge echo_core sample_request [])") auto
qed

theorem Judge_reports_first_failure_witness:
  "\<exists>r. Judge echo_core sample_request [] = (Inr r, []) \<and> jr_Verdict r = VerdictWrongAnswer
     \<and> (jr_Cases r = [] \<or> jr_Verdict r = first_failure (jr_Cases r))"
proof -
  obtain r where r: "Judge echo_core sample_request [] = (Inr r, [])" "jr_Verdict r = VerdictWrongAnswer"
    using echo_judge by blast
  with Judge_reports_first_failure [OF r(1)] show ?thesis by blast
qed

theorem Judge_accepts_iff_witness:
  "\<exists>r. Judge echo_core sample_request [] = (Inr r, []) \<and> jr_Verdict r \<noteq> VerdictAccepted
     \<and> \<not> (\<exists>ws w1 compiled w2 runs w3.
       prepareWorkspace echo_core (kr_Language sample_request) (kr_Source sample_request)
         (limits (kr_Timeout sample_request) (kr_MemoryKB sample_request) (kr_OutputLimitBytes sample_request)) []
           = (Inr ws, w1)
       \<and> sb_Compile (co_sandbox echo_core) ws (kr_Language sample_request) w1 = (Inr compiled, w2)
       \<and> cp_Verdict compiled = VerdictAccepted
       \<and> case_runs (co_sandbox echo_core) ws sample_request (kr_Cases sample_request) w2 runs w3
       \<and> list_all2 (\<lambda>item run. rs_Verdict run = VerdictAccepted
            \<and> normal_form (kr_Policy sample_request) (kc_ExpectedOutput item)
              = normal_form (kr_Policy sample_request) (rs_Stdout run)) (kr_Cases sample_request) runs)"
proof -
  obtain r where r: "Judge echo_core sample_request [] = (Inr r, [])" "jr_Verdict r = VerdictWrongAnswer"
    using echo_judge by blast
  have "co_checker echo_core = Check" by (simp add: echo_core_def)
  from Judge_accepts_iff [OF r(1) this] r show ?thesis by auto
qed

end
