(* ===== verification/Judge_Agent.thy ===== *)
theory Judge_Agent
  imports Judge_Persistence Judgecore Testcase_Archive
begin

section \<open>Judge agents and the result consumer (\<^verbatim>\<open>internal/submission/async.go\<close>)\<close>

text \<open>
  An agent takes a request from a stream, judges it and publishes the result before it acknowledges the
  request; the consumer stores the result before it acknowledges it. The streams, object storage and
  the testcase loader are parameters; trace propagation is not modelled. A payload is the event it
  decodes to, or the error of \<^verbatim>\<open>json.Unmarshal\<close>.
\<close>

subsection \<open>Messages and parameters\<close>

record 'e message =
  msg_ID :: string
  msg_TaskID :: int64
  msg_Payload :: "'e res"
  msg_Attempts :: int

record ('w, 'q) core_async_agent =
  ag_core :: "'w core"
  ag_languages :: "string \<Rightarrow> lang_profile option"
  ag_sourceStore :: "string \<Rightarrow> string res"
  ag_testcaseLoader :: "(testcase_set_ref \<Rightarrow> problem_testcase list res) option"
  ag_resultPublisher :: "result_event \<Rightarrow> 'q \<Rightarrow> string res \<times> 'q"
  ag_now :: "'w \<Rightarrow> time"

subsection \<open>The agent\<close>

definition not_configured :: "string \<Rightarrow> go_error" where
  "not_configured slug = ErrText (''language '' @ quoted slug @ '' is not configured'')"

definition core_cases :: "problem_testcase list \<Rightarrow> core_case list" where
  "core_cases testcaseSet =
     map_idx (\<lambda>i item. \<lparr>kc_Index = int i + 1, kc_Input = tc_InputKey item, kc_ExpectedOutput = tc_OutputKey item,
                        kc_TimeLimit = tc_TimeLimit item, kc_MemoryKB = tc_MemoryKB item, kc_Score = 0\<rparr>) 0 testcaseSet"

definition judgeSubmission ::
  "('w, 'q) core_async_agent \<Rightarrow> request_event \<Rightarrow> string \<Rightarrow> 'w \<Rightarrow> judge_result res \<times> 'w" where
  "judgeSubmission a request source w =
     (case ag_testcaseLoader a of
        None \<Rightarrow> (Inl (ErrText ''testcase loader is required''), w)
      | Some load \<Rightarrow>
          (case load (re_TestcaseSet request) of
             Inl e \<Rightarrow> (Inl e, w)
           | Inr testcaseSet \<Rightarrow>
               (case ag_languages a (re_LanguageSlug request) of
                  None \<Rightarrow> (Inl (not_configured (re_LanguageSlug request)), w)
                | Some profile \<Rightarrow>
                    Judge (ag_core a)
                      \<lparr>kr_Language = profile, kr_Source = source, kr_Cases = core_cases testcaseSet,
                       kr_Timeout = re_TimeoutMS request * Millisecond, kr_MemoryKB = re_MemoryKB request,
                       kr_OutputLimitBytes = 0, kr_Policy = []\<rparr> w)))"

definition attachTestcaseKeys :: "request_event \<Rightarrow> judge_case_result list \<Rightarrow> judge_case_result list" where
  "attachTestcaseKeys request cases =
     map_idx (\<lambda>i c. if jc_TestcaseKey c \<noteq> [] then c
       else c\<lparr>jc_TestcaseKey := ''testcase-set-'' @ FormatInt (tr_ID (re_TestcaseSet request)) @ ''/case-''
                @ FormatInt (if jc_Index c = 0 then int i + 1 else jc_Index c)\<rparr>) 0 cases"

text \<open>The event that \<^verbatim>\<open>publishAsyncResult\<close> publishes.\<close>

definition async_result_event :: "request_event \<Rightarrow> judge_result \<Rightarrow> time \<Rightarrow> result_event res" where
  "async_result_event request result now =
     bind_res (NormalizeResult result) (\<lambda>result.
       let judgedAt = (if jr_JudgedAt result = 0 then now else jr_JudgedAt result) in
       Inr \<lparr>ve_ProtocolVersion = ResultEventType, ve_EventID = re_EventID request @ '':result'',
            ve_RequestEventID = re_EventID request, ve_AttemptID = re_AttemptID request,
            ve_TraceID = re_TraceID request, ve_TraceContext = re_TraceContext request,
            ve_Status = jr_Verdict result, ve_Result = result\<lparr>jr_JudgedAt := judgedAt\<rparr>, ve_ErrorClass = [],
            ve_Retryable = False, ve_SafeMessage = [], ve_InternalMessage = [], ve_JudgedAt = judgedAt\<rparr>)"

definition publishAsyncResult ::
  "(result_event \<Rightarrow> 'q \<Rightarrow> string res \<times> 'q) \<Rightarrow> request_event \<Rightarrow> judge_result \<Rightarrow> time \<Rightarrow> 'q \<Rightarrow> unit res \<times> 'q" where
  "publishAsyncResult publisher request result now q =
     (case async_result_event request result now of
        Inl e \<Rightarrow> (Inl e, q)
      | Inr event \<Rightarrow>
          (case publisher event q of (Inl e, q') \<Rightarrow> (Inl e, q') | (Inr _, q') \<Rightarrow> (Inr (), q')))"

text \<open>The part of the agent's \<^verbatim>\<open>ProcessRequestMessage\<close> before the publication.\<close>

definition agent_judge ::
  "('w, 'q) core_async_agent \<Rightarrow> request_event \<Rightarrow> 'w \<Rightarrow> judge_result res \<times> 'w" where
  "agent_judge a request w =
     (case ag_languages a (re_LanguageSlug request) of
        None \<Rightarrow> (Inl (not_configured (re_LanguageSlug request)), w)
      | Some profile \<Rightarrow>
          (case ag_sourceStore a (ar_StorageKey (re_SourceArtifact request)) of
             Inl e \<Rightarrow> (Inl e, w)
           | Inr source \<Rightarrow>
               (case (if re_RunID request \<noteq> 0
                      then Run (ag_core a)
                        \<lparr>kq_Language = profile, kq_Source = source, kq_Stdin = re_Stdin request,
                         kq_Timeout = re_TimeoutMS request * Millisecond, kq_MemoryKB = re_MemoryKB request\<rparr> w
                      else judgeSubmission a request source w) of
                  (Inl e, w') \<Rightarrow> (Inl e, w')
                | (Inr result, w') \<Rightarrow>
                    (let traced = result\<lparr>jr_Manifest := (jr_Manifest result)\<lparr>jm_TraceID := re_TraceID request\<rparr>\<rparr> in
                     (Inr (if re_SubmissionID request \<noteq> 0
                           then traced\<lparr>jr_Manifest := (jr_Manifest traced)\<lparr>jm_TestcaseSetHash :=
                                    tr_ChecksumSHA256 (re_TestcaseSet request)\<rparr>,
                                  jr_Cases := attachTestcaseKeys request (jr_Cases traced)\<rparr>
                           else traced), w')))))"

definition CoreAsyncAgent_ProcessRequestMessage ::
  "('w, 'q) core_async_agent \<Rightarrow> request_event message \<Rightarrow> (string \<Rightarrow> 'q \<Rightarrow> unit res \<times> 'q) \<Rightarrow> 'w \<times> 'q
   \<Rightarrow> unit res \<times> 'w \<times> 'q" where
  "CoreAsyncAgent_ProcessRequestMessage a message ack wq =
     (case msg_Payload message of
        Inl e \<Rightarrow> (Inl e, wq)
      | Inr request \<Rightarrow>
          (case validate_request_event request of
             Inl e \<Rightarrow> (Inl e, wq)
           | Inr _ \<Rightarrow>
               (case agent_judge a request (fst wq) of
                  (Inl e, w') \<Rightarrow> (Inl e, w', snd wq)
                | (Inr result, w') \<Rightarrow>
                    (case publishAsyncResult (ag_resultPublisher a) request result (ag_now a w') (snd wq) of
                       (Inl e, q') \<Rightarrow> (Inl e, w', q')
                     | (Inr _, q') \<Rightarrow>
                         (case ack (msg_ID message) q' of (r, q'') \<Rightarrow> (r, w', q''))))))"

subsection \<open>The consumer\<close>

definition consumer_input :: "result_event \<Rightarrow> complete_attempt_input res" where
  "consumer_input event =
     bind_res (validate_result_event event) (\<lambda>_.
     bind_res (NormalizeResult (ve_Result event)) (\<lambda>result.
     bind_res (NormalizeVerdict (ve_Status event)) (\<lambda>status.
       let result1 = (if jr_Verdict result = [] then result\<lparr>jr_Verdict := status\<rparr> else result);
           result2 = (if jr_JudgedAt result1 = 0 then result1\<lparr>jr_JudgedAt := ve_JudgedAt event\<rparr> else result1)
       in Inr \<lparr>ca_EventID = ve_EventID event, ca_RequestEventID = ve_RequestEventID event,
               ca_AttemptKey = ve_AttemptID event, ca_TraceID = ve_TraceID event, ca_Status = status,
               ca_Result = result2\<rparr>)))"

definition ProcessResultMessage ::
  "(complete_attempt_input \<Rightarrow> 's \<Rightarrow> bool res \<times> 's) \<Rightarrow> result_event message \<Rightarrow> (string \<Rightarrow> 'q \<Rightarrow> unit res \<times> 'q)
   \<Rightarrow> 's \<times> 'q \<Rightarrow> unit res \<times> 's \<times> 'q" where
  "ProcessResultMessage complete message ack sq =
     (case bind_res (msg_Payload message) consumer_input of
        Inl e \<Rightarrow> (Inl e, sq)
      | Inr input \<Rightarrow>
          (case complete input (fst sq) of
             (Inl e, s') \<Rightarrow> (Inl e, s', snd sq)
           | (Inr _, s') \<Rightarrow>
               (case ack (msg_ID message) (snd sq) of (r, q') \<Rightarrow> (r, s', q'))))"

text \<open>
  The loop over the messages of a batch (\<^verbatim>\<open>runResultConsumerLoop\<close>, \<^verbatim>\<open>internal/app/worker.go\<close>) stops at the
  first error; the process ends, and a later one consumes again, redelivered messages included.
\<close>

fun consume_batch ::
  "(complete_attempt_input \<Rightarrow> 's \<Rightarrow> bool res \<times> 's) \<Rightarrow> (string \<Rightarrow> 'q \<Rightarrow> unit res \<times> 'q) \<Rightarrow> result_event message list
   \<Rightarrow> 's \<times> 'q \<Rightarrow> unit res \<times> 's \<times> 'q" where
  "consume_batch complete ack [] sq = (Inr (), sq)"
| "consume_batch complete ack (m # ms) sq =
     (case ProcessResultMessage complete m ack sq of
        (Inl e, sq') \<Rightarrow> (Inl e, sq')
      | (Inr _, sq') \<Rightarrow> consume_batch complete ack ms sq')"

definition consume_batches ::
  "(complete_attempt_input \<Rightarrow> 's \<Rightarrow> bool res \<times> 's) \<Rightarrow> (string \<Rightarrow> 'q \<Rightarrow> unit res \<times> 'q) \<Rightarrow> result_event message list list
   \<Rightarrow> 's \<times> 'q \<Rightarrow> 's \<times> 'q" where
  "consume_batches complete ack batches sq = fold (\<lambda>ms sq. snd (consume_batch complete ack ms sq)) batches sq"

subsection \<open>What the agent publishes, the consumer accepts\<close>

lemma canonical_not_Nil: "canonical_verdict v \<Longrightarrow> v \<noteq> []"
  by (auto simp: canonical_verdict_def)

lemma normalized_cases:
  "NormalizeVerdict v = Inr w \<Longrightarrow> w = v \<or> v = VerdictTimeLimitExceeded \<and> w = VerdictTimeLimit \<or> v = VerdictMemoryLimitExceeded \<and> w = VerdictMemoryLimit"
  unfolding NormalizeVerdict_def by (auto split: if_split_asm)

lemma limit_statuses: "dbStatus VerdictTimeLimitExceeded = dbStatus VerdictTimeLimit" "dbStatus VerdictMemoryLimitExceeded = dbStatus VerdictMemoryLimit"
  by (simp_all add: dbStatus_def)

lemma dbStatus_normalized: "NormalizeVerdict v = Inr w \<Longrightarrow> dbStatus w = dbStatus v"
  by (drule normalized_cases) (elim disjE conjE, simp_all only: limit_statuses)

lemma dbStatus_accepted: "dbStatus v = ''accepted'' \<longleftrightarrow> v = VerdictAccepted"
  by (simp add: dbStatus_def)

lemma validate_request_identity:
  "validate_request_event request = Inr () \<Longrightarrow> re_EventID request \<noteq> [] \<and> re_AttemptID request \<noteq> [] \<and> re_TraceID request \<noteq> []"
  by (auto simp: validate_request_event_def split: if_splits)

lemma async_result_event_input:
  assumes "validate_request_event request = Inr ()" and "async_result_event request result now = Inr event"
  shows "\<exists>input. consumer_input event = Inr input \<and> ca_AttemptKey input = re_AttemptID request
     \<and> ca_RequestEventID input = re_EventID request \<and> ca_Result input = ve_Result event
     \<and> ca_Status input = jr_Verdict (ve_Result event) \<and> dbStatus (ca_Status input) = dbStatus (jr_Verdict result)
     \<and> (dbStatus (ca_Status input) = ''accepted'' \<longleftrightarrow> jr_Verdict result = VerdictAccepted)"
proof -
  from assms(2) obtain r where r: "NormalizeResult result = Inr r" by (auto simp: async_result_event_def)
  let ?at = "if jr_JudgedAt r = 0 then now else jr_JudgedAt r"
  let ?r = "r\<lparr>jr_JudgedAt := ?at\<rparr>"
  from NormalizeResult_canonical [OF r] have can: "canonical_result r" .
  then have can': "canonical_result ?r" by (simp add: canonical_result_def)
  from r obtain v where v: "NormalizeVerdict (jr_Verdict result) = Inr v" "jr_Verdict r = v"
    by (auto simp: NormalizeResult_def)
  from can v have cv: "canonical_verdict v" by (simp add: canonical_result_def)
  from assms(2) r have event: "ve_Result event = ?r" "ve_Status event = v" "ve_AttemptID event = re_AttemptID request"
    "ve_RequestEventID event = re_EventID request" "ve_TraceID event = re_TraceID request"
    "ve_EventID event = re_EventID request @ '':result''" "ve_ProtocolVersion event = ResultEventType" "ve_JudgedAt event = ?at"
    using v by (auto simp: async_result_event_def Let_def)
  have valid: "validate_result_event event = Inr ()"
    using event validate_request_identity [OF assms(1)] NormalizeVerdict_id [OF cv]
    by (simp add: validate_result_event_def validateResponseIdentity_def)
  show ?thesis
    unfolding consumer_input_def valid event NormalizeVerdict_id [OF cv] NormalizeResult_id [OF can']
    using v canonical_not_Nil [OF cv] dbStatus_normalized [OF v(1)] dbStatus_accepted [of "jr_Verdict result"]
    by (simp add: Let_def)
qed

text \<open>Either the message failed and nothing changed, or its result was stored first and then acknowledged.\<close>

lemma ProcessResultMessage_cases:
  assumes "ProcessResultMessage CompleteJudgeAttemptResult m ack (s, q) = (r, s', q')"
  shows "(s' = s \<and> q' = q \<and> (\<exists>e. r = Inl e))
     \<or> (\<exists>e input p. msg_Payload m = Inr e \<and> consumer_input e = Inr input
           \<and> CompleteJudgeAttemptResult input s = (Inr p, s') \<and> ack (msg_ID m) q = (r, q'))"
proof (cases "bind_res (msg_Payload m) consumer_input")
  case (Inl e)
  with assms show ?thesis by (auto simp: ProcessResultMessage_def)
next
  case (Inr input)
  then obtain e where e: "msg_Payload m = Inr e" "consumer_input e = Inr input" by (cases "msg_Payload m") auto
  obtain c s1 where c: "CompleteJudgeAttemptResult input s = (c, s1)" by (cases "CompleteJudgeAttemptResult input s")
  show ?thesis
  proof (cases c)
    case (Inl err)
    with attempts.error_atomic c have "s1 = s" by blast
    with assms Inr e c Inl show ?thesis by (auto simp: ProcessResultMessage_def)
  next
    case (Inr p)
    with assms e c show ?thesis by (auto simp: ProcessResultMessage_def split: prod.splits)
  qed
qed

subsection \<open>Redelivery\<close>

text \<open>The inputs that some messages carry.\<close>

definition inputs_of :: "result_event message list \<Rightarrow> complete_attempt_input set" where
  "inputs_of ms = {input. \<exists>m \<in> set ms. \<exists>e. msg_Payload m = Inr e \<and> consumer_input e = Inr input}"

lemma deliver_append: "deliver complete (xs @ js) s = deliver complete js (deliver complete xs s)"
  by (induction xs arbitrary: s) auto

lemma ProcessResultMessage_delivers:
  "\<exists>js. set js \<subseteq> inputs_of [m]
     \<and> fst (snd (ProcessResultMessage CompleteJudgeAttemptResult m ack (s, q))) = deliver CompleteJudgeAttemptResult js s"
proof -
  obtain r s' q' where p: "ProcessResultMessage CompleteJudgeAttemptResult m ack (s, q) = (r, s', q')"
    by (cases "ProcessResultMessage CompleteJudgeAttemptResult m ack (s, q)") auto
  from ProcessResultMessage_cases [OF p] show ?thesis
  proof (elim disjE exE conjE)
    assume "s' = s"
    with p show ?thesis by (intro exI [of _ "[]"]) simp
  next
    fix e input b assume "msg_Payload m = Inr e" "consumer_input e = Inr input"
      "CompleteJudgeAttemptResult input s = (Inr b, s')"
    with p show ?thesis by (intro exI [of _ "[input]"]) (simp add: inputs_of_def)
  qed
qed

lemma consume_batch_delivers:
  "\<exists>js. set js \<subseteq> inputs_of ms
     \<and> fst (snd (consume_batch CompleteJudgeAttemptResult ack ms (s, q))) = deliver CompleteJudgeAttemptResult js s"
proof (induction ms arbitrary: s q)
  case Nil
  show ?case by (intro exI [of _ "[]"]) simp
next
  case (Cons m ms)
  obtain r s' q' where p: "ProcessResultMessage CompleteJudgeAttemptResult m ack (s, q) = (r, s', q')"
    by (cases "ProcessResultMessage CompleteJudgeAttemptResult m ack (s, q)") auto
  from ProcessResultMessage_delivers [of m ack s q] p obtain xs where
    xs: "set xs \<subseteq> inputs_of [m]" "s' = deliver CompleteJudgeAttemptResult xs s" by auto
  from Cons.IH [of s' q'] obtain js where js: "set js \<subseteq> inputs_of ms"
    "fst (snd (consume_batch CompleteJudgeAttemptResult ack ms (s', q'))) = deliver CompleteJudgeAttemptResult js s'" by blast
  have mono: "inputs_of [m] \<subseteq> inputs_of (m # ms)" "inputs_of ms \<subseteq> inputs_of (m # ms)" by (auto simp: inputs_of_def)
  show ?case
  proof (cases r)
    case (Inl e)
    with p xs mono show ?thesis by (intro exI [of _ xs]) auto
  next
    case (Inr u)
    with p xs js mono show ?thesis by (intro exI [of _ "xs @ js"]) (auto simp: deliver_append)
  qed
qed

lemma consume_batches_delivers:
  "\<exists>js. set js \<subseteq> inputs_of (concat batches)
     \<and> fst (consume_batches CompleteJudgeAttemptResult ack batches (s, q)) = deliver CompleteJudgeAttemptResult js s"
proof (induction batches arbitrary: s q)
  case Nil
  show ?case by (intro exI [of _ "[]"]) (simp add: consume_batches_def)
next
  case (Cons ms batches)
  obtain r s' q' where p: "consume_batch CompleteJudgeAttemptResult ack ms (s, q) = (r, s', q')"
    by (cases "consume_batch CompleteJudgeAttemptResult ack ms (s, q)") auto
  from consume_batch_delivers [of ms ack s q] p obtain xs where
    xs: "set xs \<subseteq> inputs_of ms" "s' = deliver CompleteJudgeAttemptResult xs s" by auto
  from Cons.IH [of s' q'] obtain js where js: "set js \<subseteq> inputs_of (concat batches)"
    "fst (consume_batches CompleteJudgeAttemptResult ack batches (s', q')) = deliver CompleteJudgeAttemptResult js s'" by blast
  have "consume_batches CompleteJudgeAttemptResult ack (ms # batches) (s, q)
      = consume_batches CompleteJudgeAttemptResult ack batches (s', q')"
    using p by (simp add: consume_batches_def)
  moreover have "inputs_of ms \<union> inputs_of (concat batches) \<subseteq> inputs_of (concat (ms # batches))" by (auto simp: inputs_of_def)
  ultimately show ?case using xs js by (intro exI [of _ "xs @ js"]) (auto simp: deliver_append)
qed

lemma consumer_input_key: "consumer_input e = Inr input \<Longrightarrow> ca_AttemptKey input = ve_AttemptID e"
  by (cases "validate_result_event e"; cases "NormalizeResult (ve_Result e)"; cases "NormalizeVerdict (ve_Status e)")
    (auto simp: consumer_input_def Let_def)

text \<open>
  The result stream may redeliver. However the messages about one attempt are split into batches,
  repeated, interrupted by errors and consumed again, and whatever acknowledging does, the database ends
  as it was or as one of the results alone left it.
\<close>

theorem redelivered_results_applied_once:
  assumes "\<forall>m \<in> set (concat batches). \<forall>e. msg_Payload m = Inr e \<longrightarrow> ve_AttemptID e = k"
  shows "fst (consume_batches CompleteJudgeAttemptResult ack batches (s, q)) = s
     \<or> (\<exists>m \<in> set (concat batches). \<exists>e input. msg_Payload m = Inr e \<and> consumer_input e = Inr input
          \<and> CompleteJudgeAttemptResult input s
            = (Inr True, fst (consume_batches CompleteJudgeAttemptResult ack batches (s, q))))"
proof -
  obtain js where js: "set js \<subseteq> inputs_of (concat batches)"
    "fst (consume_batches CompleteJudgeAttemptResult ack batches (s, q)) = deliver CompleteJudgeAttemptResult js s"
    using consume_batches_delivers [of batches ack s q] by blast
  have "\<forall>j \<in> set js. ca_AttemptKey j = k"
    using js(1) assms consumer_input_key unfolding inputs_of_def by blast
  from attempts.deliver_once [OF this, of s] js(1) show ?thesis unfolding js(2) inputs_of_def by blast
qed

text \<open>
  An agent acknowledges a request only after it has judged it and published a result, and the result
  it publishes is one the consumer accepts: it passes validation, names the attempt of the request, and
  is stored as accepted exactly when judging ended with the verdict accepted.
\<close>

theorem agent_acks_published_result:
  assumes "CoreAsyncAgent_ProcessRequestMessage a message ack (w, q) = (Inr (), w', q')"
  shows "\<exists>request result event input streamID q1.
     msg_Payload message = Inr request \<and> agent_judge a request w = (Inr result, w')
     \<and> ag_resultPublisher a event q = (Inr streamID, q1) \<and> ack (msg_ID message) q1 = (Inr (), q')
     \<and> consumer_input event = Inr input \<and> ca_AttemptKey input = re_AttemptID request
     \<and> (dbStatus (ca_Status input) = ''accepted'' \<longleftrightarrow> jr_Verdict result = VerdictAccepted)"
proof -
  from assms obtain request result where payload: "msg_Payload message = Inr request"
    and valid: "validate_request_event request = Inr ()" and judged: "agent_judge a request w = (Inr result, w')"
    by (auto simp: CoreAsyncAgent_ProcessRequestMessage_def split: sum.splits prod.splits)
  with assms obtain event streamID q1 where
    event: "async_result_event request result (ag_now a w') = Inr event"
    and "ag_resultPublisher a event q = (Inr streamID, q1)" "ack (msg_ID message) q1 = (Inr (), q')"
    by (auto simp: CoreAsyncAgent_ProcessRequestMessage_def publishAsyncResult_def split: sum.splits prod.splits)
  with async_result_event_input [OF valid event] payload judged show ?thesis by blast
qed

text \<open>
  C23: from the judge to the database. When the consumer changes the database for a result an agent
  published, exactly the attempt named by the request is completed: its submission or run, not judged
  before, gets the verdict of the judge, and its status is accepted exactly when the judge accepted.
\<close>

theorem judged_verdict_stored:
  assumes "validate_request_event request = Inr ()"
    and "async_result_event request result now = Inr event" and "msg_Payload m = Inr event"
    and "ProcessResultMessage CompleteJudgeAttemptResult m ack (s, q) = (r, s', q')" and "s' \<noteq> s"
  shows "\<exists>aid attempt input. ParseInt (re_AttemptID request) = Some aid
     \<and> List.find (\<lambda>a. at_ID a = aid) (db_attempts s) = Some attempt
     \<and> attempt_completed attempt input (dbStatus (jr_Verdict result)) s s'
     \<and> (dbStatus (jr_Verdict result) = ''accepted'' \<longleftrightarrow> jr_Verdict result = VerdictAccepted)"
proof -
  from async_result_event_input [OF assms(1,2)] obtain input where
    input: "consumer_input event = Inr input" "ca_AttemptKey input = re_AttemptID request"
      "dbStatus (ca_Status input) = dbStatus (jr_Verdict result)"
      "dbStatus (ca_Status input) = ''accepted'' \<longleftrightarrow> jr_Verdict result = VerdictAccepted" by blast
  from ProcessResultMessage_cases [OF assms(4)] assms(3,5) input(1) obtain p where
    "CompleteJudgeAttemptResult input s = (Inr p, s')" by auto
  then obtain aid where aid: "ParseInt (ca_AttemptKey input) = Some aid" "complete_attempt aid input s = Inr (p, s')"
    by (auto simp: CompleteJudgeAttemptResult_Inr)
  from complete_attempt_effect [OF aid(2)] assms(5) input aid(1) show ?thesis by (auto split: if_splits)
qed

subsection \<open>A concrete agent\<close>

definition sample_request_event :: request_event where
  "sample_request_event = \<lparr>re_ProtocolVersion = RequestEventType, re_EventID = ''judge-request-1'', re_AttemptID = ''1'',
     re_TraceID = ''t'', re_TraceContext = \<lparr>Traceparent = [], Tracestate = []\<rparr>, re_SubmissionID = 1, re_RunID = 0,
     re_LanguageSlug = ''go'', re_SourceArtifact = \<lparr>ar_ID = 5, ar_StorageKey = ''k'', ar_ContentHash = ''h''\<rparr>,
     re_TestcaseSet = \<lparr>tr_ID = 4, tr_ChecksumSHA256 = ''c'', tr_StorageKey = ''s'', tr_CaseCount = 1,
       tr_TimeLimitMS = 1000, tr_MemoryKB = 1024\<rparr>, re_Stdin = [], re_TimeoutMS = 1000, re_MemoryKB = 1024,
     re_Priority = PriorityFormal, re_CreatedAt = 7\<rparr>"

definition echo_agent :: "(workspace list, result_event list) core_async_agent" where
  "echo_agent = \<lparr>ag_core = echo_core,
     ag_languages = (\<lambda>slug. if slug = ''go'' then Some sample_profile else None),
     ag_sourceStore = (\<lambda>key. Inr ''src''),
     ag_testcaseLoader = Some (\<lambda>r. Inr [\<lparr>tc_ID = 1, tc_InputKey = ''1'', tc_OutputKey = ''1'', tc_TimeLimit = 0, tc_MemoryKB = 0\<rparr>]),
     ag_resultPublisher = (\<lambda>event q. (Inr ''1-0'', q @ [event])), ag_now = (\<lambda>w. 9)\<rparr>"

definition sample_request_message :: "request_event message" where
  "sample_request_message = \<lparr>msg_ID = ''0-1'', msg_TaskID = 1, msg_Payload = Inr sample_request_event, msg_Attempts = 1\<rparr>"

definition ack_all :: "string \<Rightarrow> 'q \<Rightarrow> unit res \<times> 'q" where
  "ack_all i q = (Inr (), q)"

definition sample_verdict_result :: "Verdict \<Rightarrow> judge_result" where
  "sample_verdict_result verdict = empty_result\<lparr>jr_Verdict := verdict\<rparr>"

definition sample_result_message :: "Verdict \<Rightarrow> result_event message" where
  "sample_result_message verdict = \<lparr>msg_ID = ''0-2'', msg_TaskID = 1,
     msg_Payload = async_result_event sample_request_event (sample_verdict_result verdict) 9, msg_Attempts = 1\<rparr>"

theorem redelivered_results_applied_once_witness:
  "(let s' = fst (consume_batches CompleteJudgeAttemptResult ack_all
               [[sample_result_message VerdictAccepted, sample_result_message VerdictWrongAnswer],
                [sample_result_message VerdictAccepted]] (sample_store, ()))
    in map su_Status (db_submissions s') = [''accepted'']
       \<and> (s' = sample_store \<or> (\<exists>input. CompleteJudgeAttemptResult input sample_store = (Inr True, s'))))"
proof -
  let ?b = "[[sample_result_message VerdictAccepted, sample_result_message VerdictWrongAnswer],
     [sample_result_message VerdictAccepted]]"
  have key: "ve_AttemptID e = ''1''" if "async_result_event sample_request_event r n = Inr e" for r n e
    using that by (cases "NormalizeResult r") (auto simp: async_result_event_def Let_def sample_request_event_def)
  have "\<forall>m \<in> set (concat ?b). \<forall>e. msg_Payload m = Inr e \<longrightarrow> ve_AttemptID e = ''1''"
    by (auto simp: sample_result_message_def dest: key)
  from redelivered_results_applied_once [OF this, of ack_all sample_store "()"]
  have "fst (consume_batches CompleteJudgeAttemptResult ack_all ?b (sample_store, ())) = sample_store
     \<or> (\<exists>input. CompleteJudgeAttemptResult input sample_store
          = (Inr True, fst (consume_batches CompleteJudgeAttemptResult ack_all ?b (sample_store, ()))))" by blast
  moreover have "map su_Status (db_submissions (fst (consume_batches CompleteJudgeAttemptResult ack_all ?b (sample_store, ()))))
      = [''accepted'']" by code_simp
  ultimately show ?thesis by (simp add: Let_def)
qed

theorem agent_acks_published_result_witness:
  "\<exists>result event input. agent_judge echo_agent sample_request_event [] = (Inr result, [])
     \<and> consumer_input event = Inr input \<and> ca_AttemptKey input = ''1''
     \<and> (dbStatus (ca_Status input) = ''accepted'' \<longleftrightarrow> jr_Verdict result = VerdictAccepted)"
proof -
  have "fst (CoreAsyncAgent_ProcessRequestMessage echo_agent sample_request_message ack_all ([], [])) = Inr ()"
    and "fst (snd (CoreAsyncAgent_ProcessRequestMessage echo_agent sample_request_message ack_all ([], []))) = []"
    by code_simp+
  then obtain q' where "CoreAsyncAgent_ProcessRequestMessage echo_agent sample_request_message ack_all ([], []) = (Inr (), [], q')"
    by (cases "CoreAsyncAgent_ProcessRequestMessage echo_agent sample_request_message ack_all ([], [])") auto
  from agent_acks_published_result [OF this] show ?thesis
    by (auto simp: sample_request_message_def sample_request_event_def)
qed

theorem judged_verdict_stored_witness:
  "\<exists>s' aid attempt input. snd (ProcessResultMessage CompleteJudgeAttemptResult (sample_result_message VerdictWrongAnswer) ack_all
        (sample_store, ())) = (s', ())
     \<and> List.find (\<lambda>a. at_ID a = aid) (db_attempts sample_store) = Some attempt
     \<and> attempt_completed attempt input ''wrong_answer'' sample_store s'"
proof -
  let ?m = "sample_result_message VerdictWrongAnswer"
  let ?p = "ProcessResultMessage CompleteJudgeAttemptResult ?m ack_all (sample_store, ())"
  obtain r s' where p: "?p = (r, s', ())" by (cases ?p) auto
  have "map su_Status (db_submissions (fst (snd ?p))) = [''wrong_answer'']" by code_simp
  with p sample_store_statuses have "s' \<noteq> sample_store" by auto
  moreover have "validate_request_event sample_request_event = Inr ()" by code_simp
  moreover have "is_ok (msg_Payload ?m)" by code_simp
  then obtain event where "msg_Payload ?m = Inr event" by (cases "msg_Payload ?m") auto
  moreover from this have "async_result_event sample_request_event (sample_verdict_result VerdictWrongAnswer) 9 = Inr event"
    by (simp add: sample_result_message_def)
  moreover have "dbStatus (jr_Verdict (sample_verdict_result VerdictWrongAnswer)) = ''wrong_answer''" by code_simp
  ultimately have "\<exists>aid attempt input. List.find (\<lambda>a. at_ID a = aid) (db_attempts sample_store) = Some attempt
      \<and> attempt_completed attempt input ''wrong_answer'' sample_store s'"
    using judged_verdict_stored [of sample_request_event "sample_verdict_result VerdictWrongAnswer" 9 event ?m ack_all
        sample_store "()" r s' "()"] p by auto
  with p show ?thesis by auto
qed

end
