(* ===== verification/Site.thy ===== *)
theory Site
  imports Submission_Lifecycle Problem_Reader Judge_Agent
begin

section \<open>Source artifacts, languages and testcase sets (\<^verbatim>\<open>repository.go\<close>, \<^verbatim>\<open>languages.sql.go\<close>, \<^verbatim>\<open>storage.go\<close>)\<close>

text \<open>
  The tables the submission services read beside the judging tables: source artifacts, the language
  catalog, and problems with their testcase sets. Together with the judging tables they form the state of
  the services and of the worker. The columns of \<^verbatim>\<open>judge_case_results\<close> that refer to artifacts are never
  written by the code and are left out.
\<close>

subsection \<open>Rows and the state\<close>

record artifact_row =
  af_ID :: int64
  af_OwnerType :: string
  af_OwnerID :: int64
  af_Kind :: string
  af_StorageKey :: string
  af_ChecksumSha256 :: string
  af_SizeBytes :: int64
  af_ContentType :: string
  af_CreatedAt :: time

record language_row =
  la_ID :: int64
  la_Engine :: string
  la_EngineLanguageID :: string
  la_Name :: string
  la_Version :: "string option"
  la_CompileCommand :: "string option"
  la_RunCommand :: "string option"
  la_DefaultTimeLimitMs :: int32
  la_DefaultMemoryLimitKb :: int32
  la_Enabled :: bool
  la_CreatedAt :: time
  la_UpdatedAt :: time

record site =
  wd_judging :: store
  wd_artifacts :: "artifact_row list"
  wd_languages :: "language_row list"
  wd_problems :: problem_store
  wq_artifacts :: int64
  wq_languages :: int64

abbreviation put_artifacts where "put_artifacts rows w \<equiv> w\<lparr>wd_artifacts := rows\<rparr>"
abbreviation put_languages where "put_languages rows w \<equiv> w\<lparr>wd_languages := rows\<rparr>"
abbreviation put_judging where "put_judging s w \<equiv> w\<lparr>wd_judging := s\<rparr>"
abbreviation site_now :: "site \<Rightarrow> time" where "site_now w \<equiv> db_now (wd_judging w)"

text \<open>The rendering of an error (\<^verbatim>\<open>err.Error()\<close>).\<close>

fun error_text :: "go_error \<Rightarrow> string" where
  "error_text (AppErr e) = Error (Some e)"
| "error_text ErrNoRows = ''no rows in result set''"
| "error_text ErrForbidden = ''permission denied''"
| "error_text (ErrText t) = t"

text \<open>\<^verbatim>\<open>LIMIT ... OFFSET ...\<close>: PostgreSQL refuses negative values.\<close>

definition paged :: "int32 \<Rightarrow> int32 \<Rightarrow> 'a list \<Rightarrow> 'a list res" where
  "paged offset limit_n rows =
     (if sint offset < 0 then Inl (ErrText ''OFFSET must not be negative'')
      else if sint limit_n < 0 then Inl (ErrText ''LIMIT must not be negative'')
      else Inr (take (nat (sint limit_n)) (drop (nat (sint offset)) rows)))"

subsection \<open>Artifacts\<close>

definition q_CreateArtifact ::
  "string \<Rightarrow> int64 \<Rightarrow> string \<Rightarrow> string \<Rightarrow> string \<Rightarrow> int64 \<Rightarrow> string \<Rightarrow> (site, artifact_row) transaction" where
  "q_CreateArtifact ownerType ownerID kind storageKey checksum sizeBytes contentType = (\<lambda>w.
     bind_tx (check_tx (ownerType \<in> {''submission'', ''run'', ''problem'', ''testcase'', ''judge_attempt'', ''judge_case''}
         \<and> kind \<in> {''source'', ''stdout'', ''stderr'', ''compile_output'', ''judge_log'', ''attachment'',
                   ''testcase_archive'', ''manifest'', ''case_stdout'', ''case_stderr'', ''output_diff''}
         \<and> sizeBytes \<ge> 0) ''artifacts_check'') (\<lambda>_.
     bind_tx (unique_tx (\<forall>a \<in> set (wd_artifacts w). af_StorageKey a \<noteq> storageKey) ''artifacts_storage_key_uidx'') (\<lambda>_ w.
       let row = \<lparr>af_ID = wq_artifacts w, af_OwnerType = ownerType, af_OwnerID = ownerID, af_Kind = kind,
                  af_StorageKey = storageKey, af_ChecksumSha256 = checksum, af_SizeBytes = sizeBytes,
                  af_ContentType = contentType, af_CreatedAt = site_now w\<rparr>
       in Inr (row, w\<lparr>wd_artifacts := wd_artifacts w @ [row], wq_artifacts := wq_artifacts w + 1\<rparr>))) w)"

definition q_GetArtifactByID :: "int64 \<Rightarrow> (site, artifact_row) transaction" where
  "q_GetArtifactByID aid = select_row wd_artifacts (\<lambda>a. af_ID a = aid)"

text \<open>\<^verbatim>\<open>submissions.source_artifact_id\<close> and \<^verbatim>\<open>runs.source_artifact_id\<close> refer to artifacts and restrict the delete.\<close>

definition artifact_referenced :: "store \<Rightarrow> int64 \<Rightarrow> bool" where
  "artifact_referenced s aid \<longleftrightarrow>
     (\<exists>r \<in> set (db_submissions s). su_SourceArtifactID r = Some aid) \<or> (\<exists>r \<in> set (db_runs s). ru_SourceArtifactID r = Some aid)"

definition q_DeleteArtifactByID :: "int64 \<Rightarrow> (site, unit) transaction" where
  "q_DeleteArtifactByID aid = (\<lambda>w.
     bind_tx (check_tx (\<not> ((\<exists>a \<in> set (wd_artifacts w). af_ID a = aid) \<and> artifact_referenced (wd_judging w) aid))
         ''source_artifact_id_fkey'') (\<lambda>_ w.
       Inr ((), put_artifacts (filter (\<lambda>a. af_ID a \<noteq> aid) (wd_artifacts w)) w)) w)"

text \<open>
  Deleting a run takes its task and its attempts with it, and the case rows of those
  (\<^verbatim>\<open>ON DELETE CASCADE\<close> of \<^verbatim>\<open>judge_tasks.run_id\<close>, \<^verbatim>\<open>judge_attempts.run_id\<close> and \<^verbatim>\<open>judge_case_results.attempt_id\<close>).
\<close>

definition delete_run :: "int64 \<Rightarrow> store \<Rightarrow> store" where
  "delete_run rid s =
     (let gone = map at_ID (filter (\<lambda>a. at_RunID a = Some rid) (db_attempts s)) in
      s\<lparr>db_runs := filter (\<lambda>r. ru_ID r \<noteq> rid) (db_runs s),
        db_tasks := filter (\<lambda>t. ta_RunID t \<noteq> Some rid) (db_tasks s),
        db_attempts := filter (\<lambda>a. at_RunID a \<noteq> Some rid) (db_attempts s),
        db_case_results := filter (\<lambda>c. cx_AttemptID c \<notin> set gone) (db_case_results s)\<rparr>)"

definition q_DeleteRunByID :: "int64 \<Rightarrow> (site, unit) transaction" where
  "q_DeleteRunByID rid = (\<lambda>w.
     Inr ((), if \<exists>r \<in> set (db_runs (wd_judging w)). ru_ID r = rid
              then put_judging (delete_run rid (wd_judging w)) w else w))"

record expired_run =
  xr_ID :: int64
  xr_SourceArtifactID :: "int64 option"
  xr_StorageKey :: string

definition oldest_run_first :: "run_row \<Rightarrow> run_row \<Rightarrow> bool" where
  "oldest_run_first a b \<longleftrightarrow> ru_CreatedAt a < ru_CreatedAt b \<or> ru_CreatedAt a = ru_CreatedAt b \<and> ru_ID a < ru_ID b"

definition artifact_key :: "site \<Rightarrow> int64 option \<Rightarrow> string" where
  "artifact_key w aid =
     (case List.find (\<lambda>a. Some (af_ID a) = aid) (wd_artifacts w) of None \<Rightarrow> [] | Some a \<Rightarrow> af_StorageKey a)"

definition q_ListExpiredRuns :: "time \<Rightarrow> int32 \<Rightarrow> (site, expired_run list) transaction" where
  "q_ListExpiredRuns createdBefore limit_n = (\<lambda>w.
     case paged 0 limit_n (sort_by oldest_run_first
         (filter (\<lambda>r. ru_Status r \<notin> {''queued'', ''running''} \<and> ru_CreatedAt r < createdBefore) (db_runs (wd_judging w)))) of
       Inl e \<Rightarrow> Inl e
     | Inr rows \<Rightarrow> Inr (map (\<lambda>r. \<lparr>xr_ID = ru_ID r, xr_SourceArtifactID = ru_SourceArtifactID r,
                               xr_StorageKey = artifact_key w (ru_SourceArtifactID r)\<rparr>) rows, w))"

definition oldest_artifact_first :: "artifact_row \<Rightarrow> artifact_row \<Rightarrow> bool" where
  "oldest_artifact_first a b \<longleftrightarrow>
     af_CreatedAt a < af_CreatedAt b \<or> af_CreatedAt a = af_CreatedAt b \<and> af_ID a < af_ID b"

definition orphaned :: "site \<Rightarrow> time \<Rightarrow> artifact_row \<Rightarrow> bool" where
  "orphaned w createdBefore a \<longleftrightarrow>
     af_OwnerType a = ''run'' \<and> af_Kind a = ''source'' \<and> af_CreatedAt a < createdBefore
     \<and> (\<forall>r \<in> set (db_runs (wd_judging w)). ru_SourceArtifactID r \<noteq> Some (af_ID a))"

definition q_ListOrphanedRunArtifacts :: "time \<Rightarrow> int32 \<Rightarrow> (site, (int64 \<times> string) list) transaction" where
  "q_ListOrphanedRunArtifacts createdBefore limit_n = (\<lambda>w.
     case paged 0 limit_n (sort_by oldest_artifact_first (filter (orphaned w createdBefore) (wd_artifacts w))) of
       Inl e \<Rightarrow> Inl e
     | Inr rows \<Rightarrow> Inr (map (\<lambda>a. (af_ID a, af_StorageKey a)) rows, w))"

definition CreateArtifact :: "string \<Rightarrow> int64 \<Rightarrow> string \<Rightarrow> string \<Rightarrow> string \<Rightarrow> int64 \<Rightarrow> string \<Rightarrow> site
    \<Rightarrow> artifact_row res \<times> site" where
  "CreateArtifact ownerType ownerID kind storageKey checksum sizeBytes contentType w =
     WithTx (q_CreateArtifact ownerType ownerID kind storageKey checksum sizeBytes contentType) w"

definition GetArtifact :: "int64 \<Rightarrow> site \<Rightarrow> artifact_row res" where
  "GetArtifact aid w =
     fst (WithTx (map_err (mapNotFound ''artifact.not_found'' ''artifact not found'') (q_GetArtifactByID aid)) w)"

definition DeleteArtifact :: "int64 \<Rightarrow> site \<Rightarrow> unit res \<times> site" where
  "DeleteArtifact aid w = WithTx (q_DeleteArtifactByID aid) w"

definition ListExpiredRuns :: "time \<Rightarrow> int32 \<Rightarrow> site \<Rightarrow> expired_run list res" where
  "ListExpiredRuns createdBefore limit_n w = fst (WithTx (q_ListExpiredRuns createdBefore limit_n) w)"

definition ListOrphanedRunArtifacts :: "time \<Rightarrow> int32 \<Rightarrow> site \<Rightarrow> (int64 \<times> string) list res" where
  "ListOrphanedRunArtifacts createdBefore limit_n w = fst (WithTx (q_ListOrphanedRunArtifacts createdBefore limit_n) w)"

definition delete_expired_run :: "int64 \<Rightarrow> int64 option \<Rightarrow> (site, unit) transaction" where
  "delete_expired_run rid artifactID =
     bind_tx (q_DeleteRunByID rid) (\<lambda>_.
       case artifactID of None \<Rightarrow> return_tx () | Some aid \<Rightarrow> q_DeleteArtifactByID aid)"

definition DeleteExpiredRun :: "int64 \<Rightarrow> int64 option \<Rightarrow> site \<Rightarrow> unit res \<times> site" where
  "DeleteExpiredRun rid artifactID w = WithTx (delete_expired_run rid artifactID) w"

subsection \<open>The language catalog\<close>

record language_record =
  lr_ID :: int64
  lr_Engine :: string
  lr_EngineLanguageID :: string
  lr_Name :: string
  lr_DefaultTimeLimit :: duration
  lr_DefaultMemoryKB :: int64
  lr_Enabled :: bool

definition languageRecord :: "language_row \<Rightarrow> language_record" where
  "languageRecord row =
     \<lparr>lr_ID = la_ID row, lr_Engine = la_Engine row, lr_EngineLanguageID = la_EngineLanguageID row, lr_Name = la_Name row,
      lr_DefaultTimeLimit = sint (la_DefaultTimeLimitMs row) * Millisecond,
      lr_DefaultMemoryKB = sint (la_DefaultMemoryLimitKb row), lr_Enabled = la_Enabled row\<rparr>"

definition q_GetLanguageByID :: "int64 \<Rightarrow> (site, language_row) transaction" where
  "q_GetLanguageByID lid = select_row wd_languages (\<lambda>l. la_ID l = lid)"

definition language_selected :: "bool option \<Rightarrow> string option \<Rightarrow> language_row \<Rightarrow> bool" where
  "language_selected enabled engine l \<longleftrightarrow>
     (enabled = None \<or> enabled = Some (la_Enabled l)) \<and> (engine = None \<or> engine = Some (la_Engine l))"

text \<open>\<open>collate\<close> is the collation of the database.\<close>

definition language_order :: "(string \<Rightarrow> string \<Rightarrow> bool) \<Rightarrow> language_row \<Rightarrow> language_row \<Rightarrow> bool" where
  "language_order collate a b \<longleftrightarrow>
     (if la_Enabled a \<noteq> la_Enabled b then la_Enabled a
      else if la_Name a \<noteq> la_Name b then collate (la_Name a) (la_Name b) else la_ID a < la_ID b)"

definition q_ListLanguages ::
  "(string \<Rightarrow> string \<Rightarrow> bool) \<Rightarrow> bool option \<Rightarrow> string option \<Rightarrow> int32 \<Rightarrow> int32 \<Rightarrow> (site, language_row list) transaction" where
  "q_ListLanguages collate enabled engine offset limit_n = (\<lambda>w.
     case paged offset limit_n (sort_by (language_order collate) (filter (language_selected enabled engine) (wd_languages w))) of
       Inl e \<Rightarrow> Inl e | Inr rows \<Rightarrow> Inr (rows, w))"

definition q_CountLanguages :: "bool option \<Rightarrow> string option \<Rightarrow> (site, int64) transaction" where
  "q_CountLanguages enabled engine = get_tx (\<lambda>w. int (length (filter (language_selected enabled engine) (wd_languages w))))"

definition language_constraints :: "language_row \<Rightarrow> bool" where
  "language_constraints l \<longleftrightarrow> sint (la_DefaultTimeLimitMs l) > 0 \<and> sint (la_DefaultMemoryLimitKb l) > 0"

definition with_admin_fields :: "bool option \<Rightarrow> int32 option \<Rightarrow> int32 option \<Rightarrow> time \<Rightarrow> language_row \<Rightarrow> language_row" where
  "with_admin_fields enabled timeLimit memoryLimit now l =
     l\<lparr>la_Enabled := coalesce enabled (la_Enabled l), la_DefaultTimeLimitMs := coalesce timeLimit (la_DefaultTimeLimitMs l),
       la_DefaultMemoryLimitKb := coalesce memoryLimit (la_DefaultMemoryLimitKb l), la_UpdatedAt := now\<rparr>"

definition q_UpdateLanguageAdminFields ::
  "int64 \<Rightarrow> bool option \<Rightarrow> int32 option \<Rightarrow> int32 option \<Rightarrow> (site, language_row) transaction" where
  "q_UpdateLanguageAdminFields lid enabled timeLimit memoryLimit = (\<lambda>w.
     bind_tx (update_row wd_languages put_languages (\<lambda>l. la_ID l = lid)
                (with_admin_fields enabled timeLimit memoryLimit (site_now w))) (\<lambda>row.
     bind_tx (check_tx (language_constraints row) ''languages_check'') (\<lambda>_. return_tx row)) w)"

definition q_UpsertCatalogLanguage ::
  "string \<Rightarrow> string \<Rightarrow> string \<Rightarrow> string option \<Rightarrow> string option \<Rightarrow> string option \<Rightarrow> int32 \<Rightarrow> int32
   \<Rightarrow> (site, language_row) transaction" where
  "q_UpsertCatalogLanguage engine slug name version compile run timeLimit memoryLimit = (\<lambda>w.
     let row = \<lparr>la_ID = wq_languages w, la_Engine = engine, la_EngineLanguageID = slug, la_Name = name, la_Version = version,
                la_CompileCommand = compile, la_RunCommand = run, la_DefaultTimeLimitMs = timeLimit,
                la_DefaultMemoryLimitKb = memoryLimit, la_Enabled = True, la_CreatedAt = site_now w, la_UpdatedAt = site_now w\<rparr>;
         same = (\<lambda>l. la_Engine l = engine \<and> la_EngineLanguageID l = slug)
     in bind_tx (check_tx (language_constraints row) ''languages_check'') (\<lambda>_.
          if \<exists>l \<in> set (wd_languages w). same l
          then update_row wd_languages put_languages same
                 (\<lambda>l. l\<lparr>la_Name := name, la_Version := version, la_CompileCommand := compile, la_RunCommand := run,
                        la_UpdatedAt := site_now w\<rparr>)
          else (\<lambda>w. Inr (row, w\<lparr>wd_languages := wd_languages w @ [row], wq_languages := wq_languages w + 1\<rparr>))) w)"

definition q_DisableLanguagesNotListed :: "string \<Rightarrow> string list \<Rightarrow> (site, unit) transaction" where
  "q_DisableLanguagesNotListed engine slugs = (\<lambda>w.
     Inr ((), put_languages (update_rows
       (\<lambda>l. la_Engine l = engine \<and> la_Enabled l \<and> la_EngineLanguageID l \<notin> set slugs)
       (\<lambda>l. l\<lparr>la_Enabled := False, la_UpdatedAt := site_now w\<rparr>) (wd_languages w)) w))"

definition GetLanguage :: "int64 \<Rightarrow> site \<Rightarrow> language_record res" where
  "GetLanguage lid w =
     (case fst (WithTx (map_err (mapNotFound ''submission.language_not_found'' ''language not found'') (q_GetLanguageByID lid)) w) of
        Inl e \<Rightarrow> Inl e | Inr row \<Rightarrow> Inr (languageRecord row))"

record list_languages_input =
  ll_Enabled :: "bool option"
  ll_Engine :: "string option"
  ll_Offset :: int32
  ll_Limit :: int32

definition repo_ListLanguages ::
  "(string \<Rightarrow> string \<Rightarrow> bool) \<Rightarrow> list_languages_input \<Rightarrow> site \<Rightarrow> (language_record list \<times> int64) res" where
  "repo_ListLanguages collate i w =
     bind_res (fst (WithTx (q_ListLanguages collate (ll_Enabled i) (ll_Engine i) (ll_Offset i) (ll_Limit i)) w)) (\<lambda>rows.
     bind_res (fst (WithTx (q_CountLanguages (ll_Enabled i) (ll_Engine i)) w)) (\<lambda>total.
       Inr (map languageRecord rows, total)))"

text \<open>
  The rows of the configured languages are created or updated one statement at a time, then the others
  are disabled: a failure keeps what was written before it.
\<close>

fun upsert_languages :: "lang_profile list \<Rightarrow> site \<Rightarrow> unit res \<times> site" where
  "upsert_languages [] w = (Inr (), w)"
| "upsert_languages (p # ps) w =
     (case WithTx (q_UpsertCatalogLanguage EngineSOJAgent (lp_Slug p) (lp_Name p) (text_param (lp_Version p))
              (text_param (Join (lp_Compile p) '' '')) (text_param (Join (lp_Run p) '' ''))
              (word_of_int (lp_TimeLimitMS p)) (word_of_int (lp_MemoryLimitKB p))) w of
        (Inl e, w') \<Rightarrow> (Inl (wrap_err (''upsert language '' @ lp_Slug p @ '': '') e), w')
      | (Inr _, w') \<Rightarrow> upsert_languages ps w')"

definition ReconcileLanguages :: "lang_profile list \<Rightarrow> site \<Rightarrow> unit res \<times> site" where
  "ReconcileLanguages profiles w =
     (case upsert_languages profiles w of
        (Inl e, w') \<Rightarrow> (Inl e, w')
      | (Inr _, w') \<Rightarrow> WithTx (q_DisableLanguagesNotListed EngineSOJAgent (map lp_Slug profiles)) w')"

definition on_problems :: "'a ptx \<Rightarrow> (site, 'a) transaction" where
  "on_problems m = (\<lambda>w. case m (wd_problems w) of Inl e \<Rightarrow> Inl e | Inr (x, p) \<Rightarrow> Inr (x, w\<lparr>wd_problems := p\<rparr>))"

record update_language_input =
  ul_Enabled :: "bool option"
  ul_DefaultTimeLimitMS :: "int32 option"
  ul_DefaultMemoryLimitKB :: "int32 option"

definition update_language :: "int64 \<Rightarrow> update_language_input \<Rightarrow> int64 \<Rightarrow> (site, language_record) transaction" where
  "update_language lid i actorID =
     bind_tx (map_err (mapNotFound ''language.not_found'' ''language not found'')
       (q_UpdateLanguageAdminFields lid (ul_Enabled i) (ul_DefaultTimeLimitMS i) (ul_DefaultMemoryLimitKB i))) (\<lambda>row.
     case ul_Enabled i of
       None \<Rightarrow> return_tx (languageRecord row)
     | Some on \<Rightarrow>
         bind_tx (on_problems (audit_Insert pt_audit put_audit
           \<lparr>au_ActorUserID = actorID, au_Action = (if on then ''language.enabled'' else ''language.disabled''),
            au_ObjectType = ''language'', au_ObjectID = lid, au_Reason = [], au_Metadata = []\<rparr>)) (\<lambda>_.
           return_tx (languageRecord row)))"

definition repo_UpdateLanguage :: "int64 \<Rightarrow> update_language_input \<Rightarrow> int64 \<Rightarrow> site \<Rightarrow> language_record res \<times> site" where
  "repo_UpdateLanguage lid i actorID w = WithTx (update_language lid i actorID) w"

subsection \<open>Testcase sets (\<^verbatim>\<open>storage.go\<close>)\<close>

record testcase_metadata =
  tm_ID :: int64
  tm_StorageKey :: string
  tm_ChecksumSHA256 :: string
  tm_CaseCount :: int32
  tm_TimeLimit :: duration
  tm_MemoryKB :: int64

definition ReadyTestcaseMetadata :: "int64 \<Rightarrow> int64 \<Rightarrow> site \<Rightarrow> testcase_metadata res" where
  "ReadyTestcaseMetadata pid tsid w =
     bind_res (fst (WithTx (q_GetReadyTestcaseSetByID tsid pid) (wd_problems w))) (\<lambda>row.
     bind_res (fst (WithTx (q_GetProblemByID pid) (wd_problems w))) (\<lambda>(p, _).
       if TrimSpace (ts_StorageKey row) = []
       then fail (BadRequest ''testcase.archive_missing'' ''testcase archive storage key is missing'')
       else if TrimSpace (ts_ChecksumSha256 row) = []
       then fail (BadRequest ''testcase.checksum_missing'' ''testcase archive checksum is missing'')
       else if sint (ts_CaseCount row) \<le> 0
       then fail (BadRequest ''testcase.case_count_mismatch'' ''testcase archive case count is invalid'')
       else Inr \<lparr>tm_ID = ts_ID row, tm_StorageKey = ts_StorageKey row, tm_ChecksumSHA256 = ts_ChecksumSha256 row,
                 tm_CaseCount = ts_CaseCount row, tm_TimeLimit = sint (pb_TimeLimitMs p) * Millisecond,
                 tm_MemoryKB = sint (pb_MemoryLimitKb p)\<rparr>))"

text \<open>Object storage as the resolver reads it; the whole body is read, with no limit here.\<close>

definition ReadyTestcaseSet ::
  "archive_parser \<Rightarrow> (string \<Rightarrow> object_body res) option \<Rightarrow> int64 \<Rightarrow> int64 \<Rightarrow> site \<Rightarrow> testcase_set res" where
  "ReadyTestcaseSet parser objects pid tsid w =
     bind_res (fst (WithTx (q_GetReadyTestcaseSetByID tsid pid) (wd_problems w))) (\<lambda>row.
     case objects of
       None \<Rightarrow> fail (ServiceUnavailable ''testcase object storage unavailable'')
     | Some get \<Rightarrow>
         (if TrimSpace (ts_StorageKey row) = []
          then fail (BadRequest ''testcase.archive_missing'' ''testcase archive storage key is missing'')
          else bind_res (fst (WithTx (q_GetProblemByID pid) (wd_problems w))) (\<lambda>(p, _).
               bind_res (get (ts_StorageKey row)) (\<lambda>body.
               bind_res (readAllAndClose body 0) (\<lambda>(data, n).
                 let (cases, findings) = LoadArchive (pp_lower parser) (pp_iter parser) data n
                       (zero_options\<lparr>ao_ExpectedSHA256 := ts_ChecksumSha256 row,
                          ao_TimeLimit := sint (pb_TimeLimitMs p) * Millisecond, ao_MemoryKB := sint (pb_MemoryLimitKb p)\<rparr>)
                 in bind_res (ArchiveFindingsError findings) (\<lambda>_.
                      Inr \<lparr>te_ID = ts_ID row, te_ProblemID = ts_ProblemID row, te_Version = ts_Version row,
                           te_Cases = cases\<rparr>))))))"

end
