(* ===== verification/Actions.thy ===== *)
theory Actions
  imports Transactions
begin

section \<open>Processes that make several calls\<close>

text \<open>
  A worker or a request handler makes one call after the other: each call is atomic, and other processes
  run between two of them. An action takes the state to an error or a value and a new state; unlike a
  transaction it keeps what it has done when it fails. The last section is a rely-guarantee logic for
  actions: what a process may assume of the others is what it promises them.
\<close>

type_synonym ('w, 'a) action = "'w \<Rightarrow> 'a res \<times> 'w"

definition return_act :: "'a \<Rightarrow> ('w, 'a) action" where
  "return_act x = (\<lambda>w. (Inr x, w))"

definition fail_act :: "go_error \<Rightarrow> ('w, 'a) action" where
  "fail_act e = (\<lambda>w. (Inl e, w))"

text \<open>\<^verbatim>\<open>x, err := m(); if err != nil { return h(err) }; k(x)\<close>, and the case where the error is returned as it is.\<close>

definition try_act :: "('w, 'a) action \<Rightarrow> (go_error \<Rightarrow> ('w, 'b) action) \<Rightarrow> ('a \<Rightarrow> ('w, 'b) action) \<Rightarrow> ('w, 'b) action" where
  "try_act m h k = (\<lambda>w. case m w of (Inl e, w') \<Rightarrow> h e w' | (Inr x, w') \<Rightarrow> k x w')"

definition bind_act :: "('w, 'a) action \<Rightarrow> ('a \<Rightarrow> ('w, 'b) action) \<Rightarrow> ('w, 'b) action" where
  "bind_act m k = try_act m fail_act k"

text \<open>\<^verbatim>\<open>_, _ = m()\<close>\<close>

definition ignore_act :: "('w, 'a) action \<Rightarrow> ('w, unit) action" where
  "ignore_act m = (\<lambda>w. (Inr (), snd (m w)))"

definition when_act :: "bool \<Rightarrow> ('w, unit) action \<Rightarrow> ('w, unit) action" where
  "when_act b m = (if b then m else return_act ())"

text \<open>A call, and then whatever the other processes do before the next one.\<close>

definition call :: "('w \<Rightarrow> 'w) \<Rightarrow> ('w, 'a) action \<Rightarrow> ('w, 'a) action" where
  "call others op = (\<lambda>w. case op w of (r, w') \<Rightarrow> (r, others w'))"

text \<open>A loop over a list that returns at the first error, with the number of rounds done.\<close>

fun loop_act :: "('b \<Rightarrow> ('w, unit) action) \<Rightarrow> nat \<Rightarrow> 'b list \<Rightarrow> 'w \<Rightarrow> (nat \<times> unit res) \<times> 'w" where
  "loop_act body n [] w = ((n, Inr ()), w)"
| "loop_act body n (x # xs) w =
     (case body x w of (Inl e, w') \<Rightarrow> ((n, Inl e), w') | (Inr _, w') \<Rightarrow> loop_act body (Suc n) xs w')"

lemma bind_act_simps:
  "bind_act m k w = (case m w of (Inl e, w') \<Rightarrow> (Inl e, w') | (Inr x, w') \<Rightarrow> k x w')"
  by (simp add: bind_act_def try_act_def fail_act_def split: prod.split sum.split)

subsection \<open>Rely and guarantee\<close>

named_theorems sat_intros \<open>actions and what they guarantee\<close>

text \<open>
  \<open>evolves\<close> relates two states if the processes may take the first to the second. A property is stable if
  they keep it. An action meets its specification if from a state with the precondition it makes only
  steps that \<open>evolves\<close> allows and establishes the postcondition when it succeeds.
\<close>

locale rely_guarantee =
  fixes evolves :: "'w \<Rightarrow> 'w \<Rightarrow> bool"
  assumes evolves_refl: "evolves w w"
    and evolves_trans: "evolves w w' \<Longrightarrow> evolves w' w'' \<Longrightarrow> evolves w w''"
begin

definition stable :: "('w \<Rightarrow> bool) \<Rightarrow> bool" where
  "stable P \<longleftrightarrow> (\<forall>w w'. P w \<longrightarrow> evolves w w' \<longrightarrow> P w')"

definition sat :: "('w \<Rightarrow> bool) \<Rightarrow> ('w, 'a) action \<Rightarrow> ('a \<Rightarrow> 'w \<Rightarrow> bool) \<Rightarrow> bool" where
  "sat P m Q \<longleftrightarrow> (\<forall>w. P w \<longrightarrow> evolves w (snd (m w)) \<and> (\<forall>x. fst (m w) = Inr x \<longrightarrow> Q x (snd (m w))))"

lemma satD: "sat P m Q \<Longrightarrow> P w \<Longrightarrow> evolves w (snd (m w))"
  by (simp add: sat_def)

lemma sat_run: "sat P m Q \<Longrightarrow> P w \<Longrightarrow> m w = (r, w') \<Longrightarrow> evolves w w' \<and> (\<forall>x. r = Inr x \<longrightarrow> Q x w')"
  unfolding sat_def by (metis fst_conv snd_conv)

lemma stableD: "stable P \<Longrightarrow> P w \<Longrightarrow> evolves w w' \<Longrightarrow> P w'"
  by (auto simp: stable_def)

lemma stable_conj: "stable P \<Longrightarrow> stable Q \<Longrightarrow> stable (\<lambda>w. P w \<and> Q w)"
  by (auto simp: stable_def)

lemma stable_const [simp]: "stable (\<lambda>w. b)"
  by (simp add: stable_def)

lemma sat_weaken: "sat P m Q \<Longrightarrow> (\<And>w. P' w \<Longrightarrow> P w) \<Longrightarrow> (\<And>x w. Q x w \<Longrightarrow> Q' x w) \<Longrightarrow> sat P' m Q'"
  by (auto simp: sat_def)

lemma sat_post: "sat P m Q \<Longrightarrow> (\<And>x w. Q x w \<Longrightarrow> Q' x w) \<Longrightarrow> sat P m Q'"
  by (auto simp: sat_def)

lemma sat_return [sat_intros]: "(\<And>w. P w \<Longrightarrow> Q x w) \<Longrightarrow> sat P (return_act x) Q"
  by (auto simp: sat_def return_act_def evolves_refl)

lemma sat_fail [sat_intros]: "sat P (fail_act e) Q"
  by (auto simp: sat_def fail_act_def evolves_refl)

text \<open>A stable precondition is still there for the rest, and for the handling of the error.\<close>

lemma sat_try:
  assumes "stable P" and "sat P m Q" and "\<And>e. sat P (h e) R" and "\<And>x. sat (\<lambda>w. P w \<and> Q x w) (k x) R"
  shows "sat P (try_act m h k) R"
  unfolding sat_def
proof (intro allI impI)
  fix w assume P: "P w"
  obtain r w' where m: "m w = (r, w')" by (cases "m w")
  with assms(2) P have ev: "evolves w w'" and Q: "\<And>x. r = Inr x \<Longrightarrow> Q x w'" by (auto simp: sat_def)
  with assms(1) P have P': "P w'" by (auto simp: stable_def)
  show "evolves w (snd (try_act m h k w)) \<and> (\<forall>x. fst (try_act m h k w) = Inr x \<longrightarrow> R x (snd (try_act m h k w)))"
  proof (cases r)
    case (Inl e)
    with m assms(3) [of e] P' ev show ?thesis by (auto simp: try_act_def sat_def intro: evolves_trans)
  next
    case (Inr x)
    with m assms(4) [of x] P' Q ev show ?thesis by (auto simp: try_act_def sat_def intro: evolves_trans)
  qed
qed

lemma sat_bind:
  "stable P \<Longrightarrow> sat P m Q \<Longrightarrow> (\<And>x. sat (\<lambda>w. P w \<and> Q x w) (k x) R) \<Longrightarrow> sat P (bind_act m k) R"
  unfolding bind_act_def by (rule sat_try) (auto intro: sat_fail)

text \<open>Where the first part establishes a fact that is not about the state, or nothing at all.\<close>

lemma sat_bind_pure:
  assumes "stable P" and "sat P m (\<lambda>x _. B x)" and "\<And>x. B x \<Longrightarrow> sat P (k x) R"
  shows "sat P (bind_act m k) R"
  by (rule sat_bind [OF assms(1,2)]) (use assms(3) in \<open>auto simp: sat_def\<close>)

lemma sat_then: "stable P \<Longrightarrow> sat P m (\<lambda>_ _. True) \<Longrightarrow> (\<And>x. sat P (k x) R) \<Longrightarrow> sat P (bind_act m k) R"
  by (rule sat_bind_pure) auto

lemma sat_if [sat_intros]: "(b \<Longrightarrow> sat P m R) \<Longrightarrow> (\<not> b \<Longrightarrow> sat P n R) \<Longrightarrow> sat P (if b then m else n) R"
  by simp

lemma sat_option [sat_intros]:
  "(v = None \<Longrightarrow> sat P m R) \<Longrightarrow> (\<And>x. v = Some x \<Longrightarrow> sat P (f x) R) \<Longrightarrow> sat P (case v of None \<Rightarrow> m | Some x \<Rightarrow> f x) R"
  by (cases v) auto

lemma sat_sum [sat_intros]:
  "(\<And>e. v = Inl e \<Longrightarrow> sat P (m e) R) \<Longrightarrow> (\<And>x. v = Inr x \<Longrightarrow> sat P (f x) R) \<Longrightarrow>
   sat P (case v of Inl e \<Rightarrow> m e | Inr x \<Rightarrow> f x) R"
  by (cases v) auto

lemma sat_prod [sat_intros]: "(\<And>a b. p = (a, b) \<Longrightarrow> sat P (f a b) R) \<Longrightarrow> sat P (case p of (a, b) \<Rightarrow> f a b) R"
  by (cases p) auto

lemma sat_try_then:
  assumes "stable P" and "sat P m (\<lambda>_ _. True)" and "\<And>e. sat P (h e) R" and "\<And>x. sat P (k x) R"
  shows "sat P (try_act m h k) R"
  by (rule sat_try [OF assms(1,2,3)]) (use assms(4) in \<open>auto simp: sat_def\<close>)

lemma sat_ignore [sat_intros]: "sat P m (\<lambda>_ _. True) \<Longrightarrow> sat P (ignore_act m) (\<lambda>_ _. True)"
  by (auto simp: sat_def ignore_act_def)

lemma sat_when [sat_intros]: "(b \<Longrightarrow> sat P m (\<lambda>_ _. True)) \<Longrightarrow> sat P (when_act b m) (\<lambda>_ _. True)"
  by (auto simp: when_act_def intro: sat_return)

text \<open>A call: its own step, and then the others'; what it establishes has to be stable.\<close>

lemma sat_call:
  assumes "\<And>w. evolves w (others w)" and "\<And>x. stable (Q x)"
    and "\<And>w r w'. P w \<Longrightarrow> op w = (r, w') \<Longrightarrow> evolves w w' \<and> (\<forall>x. r = Inr x \<longrightarrow> Q x w')"
  shows "sat P (call others op) Q"
  unfolding sat_def
proof (intro allI impI)
  fix w assume P: "P w"
  obtain r w' where op: "op w = (r, w')" by (cases "op w")
  from assms(3) [OF P op] have "evolves w w'" and Q: "\<forall>x. r = Inr x \<longrightarrow> Q x w'" by auto
  with assms(1) [of w'] have "evolves w (others w')" by (blast intro: evolves_trans)
  moreover have "\<forall>x. r = Inr x \<longrightarrow> Q x (others w')" using Q assms(1,2) unfolding stable_def by blast
  ultimately show "evolves w (snd (call others op w))
      \<and> (\<forall>x. fst (call others op w) = Inr x \<longrightarrow> Q x (snd (call others op w)))"
    by (simp add: call_def op)
qed

lemma loop_evolves:
  assumes "stable P" and "\<And>x. x \<in> set xs \<Longrightarrow> sat P (body x) (\<lambda>_ _. True)" and "P w"
  shows "evolves w (snd (loop_act body n xs w))"
  using assms(2,3)
proof (induction xs arbitrary: n w)
  case (Cons x xs)
  obtain r w' where b: "body x w = (r, w')" by (cases "body x w")
  from Cons.prems(1) [of x] Cons.prems(2) b have ev: "evolves w w'" by (auto simp: sat_def)
  with assms(1) Cons.prems(2) have "P w'" by (auto simp: stable_def)
  with Cons.IH [of w' "Suc n"] Cons.prems(1) b ev show ?case
    by (cases r) (auto intro: evolves_trans)
qed (simp add: evolves_refl)

end

end
