(* ===== verification/Task_Subjects.thy ===== *)
theory Task_Subjects
  imports Submission_Lifecycle
begin

section \<open>The subject of a task never changes\<close>

text \<open>
  A task is about one submission or one run, which the check constraint of \<^verbatim>\<open>judge_tasks\<close> keeps apart, and
  stays about it: no operation removes a task or gives it another subject. The dispatcher and the
  processor rely on it between two of their calls, when other processes may run.
\<close>

definition task_keys :: "store \<Rightarrow> (int64 \<times> int64 option \<times> int64 option) list" where
  "task_keys s = map (\<lambda>t. (ta_ID t, ta_SubmissionID t, ta_RunID t)) (db_tasks s)"

definition one_subject :: "int64 \<times> int64 option \<times> int64 option \<Rightarrow> bool" where
  "one_subject k \<longleftrightarrow> (fst (snd k) = None) \<noteq> (snd (snd k) = None)"

text \<open>The tasks of one state are tasks of the other, and the new ones have one subject.\<close>

definition grows :: "store \<Rightarrow> store \<Rightarrow> bool" where
  "grows s s' \<longleftrightarrow> set (task_keys s) \<subseteq> set (task_keys s')
     \<and> (\<forall>k \<in> set (task_keys s') - set (task_keys s). one_subject k)"

lemma grows_refl [simp]: "grows s s"
  by (simp add: grows_def)

lemma grows_trans: "grows s s' \<Longrightarrow> grows s' s'' \<Longrightarrow> grows s s''"
  by (auto simp: grows_def)

lemma grows_same: "task_keys s' = task_keys s \<Longrightarrow> grows s s'"
  by (simp add: grows_def)

lemma preserves_grows: "keeps task_keys m \<Longrightarrow> preserves (grows s0) m"
  unfolding preserves_def keeps_def by (metis grows_same grows_trans)

subsection \<open>Statements that keep the keys\<close>

lemma keeps_keys_tables: "keeps db_tasks m \<Longrightarrow> keeps task_keys m"
  by (simp add: keeps_def task_keys_def)

lemma keeps_keys_judging: "keeps judging_tables m \<Longrightarrow> keeps task_keys m"
  by (rule keeps_keys_tables) (unfold keeps_def judging_tables_def, blast)

lemma keeps_keys_protocol: "keeps protocol_tables m \<Longrightarrow> keeps task_keys m"
  by (rule keeps_keys_tables) (unfold keeps_def protocol_tables_def, blast)

lemma keeps_keys_reads: "keeps (\<lambda>s. s) m \<Longrightarrow> keeps task_keys m"
  unfolding keeps_def by metis

lemma keys_update:
  "(\<And>t. P t \<Longrightarrow> ta_ID (f t) = ta_ID t \<and> ta_SubmissionID (f t) = ta_SubmissionID t \<and> ta_RunID (f t) = ta_RunID t) \<Longrightarrow>
   task_keys (s\<lparr>db_tasks := update_rows P f (db_tasks s)\<rparr>) = task_keys s"
  unfolding task_keys_def by (simp add: map_update_rows)

lemma keeps_keys_tasks [keeps_intros]:
  "keeps task_keys (claim_tasks kind n)" "keeps task_keys (q_UpdateJudgeTaskDispatching tid)"
  "keeps task_keys (q_MarkJudgeTaskDispatched tid stream)" "keeps task_keys (q_MarkJudgeTaskRunning tid)"
  "keeps task_keys (q_MarkJudgeTaskDone tid)" "keeps task_keys (q_MarkJudgeTaskDead tid why)"
  "keeps task_keys (q_RetryJudgeTask tid at why)" "keeps task_keys (q_PrepareJudgeTaskForRejudge tid sid at)"
  "keeps task_keys (q_CancelPendingJudgeTaskForRejudge tid why)"
  unfolding keeps_def
  by (auto simp: claim_tasks_def q_UpdateJudgeTaskDispatching_def q_MarkJudgeTaskDispatched_def q_MarkJudgeTaskRunning_def
      q_MarkJudgeTaskDone_def q_MarkJudgeTaskDead_def q_RetryJudgeTask_def q_PrepareJudgeTaskForRejudge_def
      q_CancelPendingJudgeTaskForRejudge_def update_row_Inr Let_def intro!: keys_update)

lemma keeps_keys_resets [keeps_intros]:
  "keeps task_keys (q_RecoverDeadJudgeTask tid at why)" "keeps task_keys (q_ResetStaleJudgeTasks before why)"
  unfolding keeps_def
  by (auto simp: q_RecoverDeadJudgeTask_def q_ResetStaleJudgeTasks_def tx_simps Let_def task_keys_def map_update_rows)

lemma keeps_tasks_rows:
  "keeps db_tasks (q_CreateJudgeAttempt p)" "keeps db_tasks (q_CreateRun u pr l st a i)"
  "keeps db_tasks (q_CreateSubmission u k c l ts st a)" "keeps db_tasks (q_MarkJudgeAttemptFinished aid fp)"
  "keeps db_tasks (q_UpdateSubmissionStatus sid st t m e j)" "keeps db_tasks (q_MarkSubmissionRunning sid)"
  "keeps db_tasks (q_MarkSubmissionQueued sid why)" "keeps db_tasks (q_MarkSubmissionSystemError sid why)"
  "keeps db_tasks (q_UpdateRunStatus rid st o1 o2 o3 n1 n2 em)" "keeps db_tasks (q_PrepareSubmissionForRejudge sid)"
  "keeps db_tasks (q_RestoreSubmissionAfterCanceledRejudge sid)" "keeps db_tasks (q_CreateRejudgeBatchItem b sid tid)"
  "keeps db_tasks (q_CancelQueuedRejudgeBatchItems bid why)" "keeps db_tasks (q_UpsertSubmissionResult x1 x2 x3 x4 x5 x6 x7 x8 x9)"
  "keeps db_tasks (q_FinishRejudgeBatchItem y1 y2 y3)"
  unfolding keeps_def
  by (auto simp: q_CreateJudgeAttempt_def q_CreateRun_def q_CreateSubmission_def q_MarkJudgeAttemptFinished_def
      q_UpdateSubmissionStatus_def q_MarkSubmissionRunning_def q_MarkSubmissionQueued_def q_MarkSubmissionSystemError_def
      q_UpdateRunStatus_def q_PrepareSubmissionForRejudge_def q_RestoreSubmissionAfterCanceledRejudge_def
      q_CreateRejudgeBatchItem_def q_CancelQueuedRejudgeBatchItems_def q_UpsertSubmissionResult_def
      q_FinishRejudgeBatchItem_def tx_simps Let_def split: option.splits)

lemmas keeps_keys_rows [keeps_intros] = keeps_tasks_rows [THEN keeps_keys_tables]
  keeps_batch_tables [THEN keeps_keys_judging] keeps_projection_tables [THEN keeps_keys_judging]
  keeps_result_queries [THEN keeps_keys_protocol] keeps_projection [THEN keeps_keys_protocol]
  keeps_reads [THEN keeps_keys_reads] keeps_attempt_reads [THEN keeps_keys_reads]

text \<open>A body that looks at the state it starts in.\<close>

lemma keeps_at: "(\<And>s. m s = f s s) \<Longrightarrow> (\<And>s. keeps view (f s)) \<Longrightarrow> keeps view m"
  by (simp add: keeps_def)

subsection \<open>The transactions\<close>

lemma keeps_keys_finish [keeps_intros]: "keeps task_keys (finishJudgeAttempt attempt ci status)"
  by (rule keeps_at, unfold finishJudgeAttempt_def, rule refl, unfold Let_def) (intro keeps_intros)

lemma keeps_keys_create_attempt [keeps_intros]: "keeps task_keys (create_attempt input n item)"
  by (rule keeps_at, unfold create_attempt_def, rule refl) (intro keeps_intros)

lemma keeps_keys_persist [keeps_intros]: "keeps task_keys (persistJudgeResult sub result)"
  by (rule keeps_at, unfold persistJudgeResult_def, rule refl, unfold Let_def q_GetLatestJudgeAttemptBySubmissionID_def)
    (intro keeps_intros)

lemma keeps_keys_attempts [keeps_intros]:
  "keeps task_keys (ensureJudgeAttempt input)" "keeps task_keys (complete_attempt aid ci)"
  "keeps task_keys (complete_submission sid result)" "keeps task_keys (markSubmissionSystemError sid why)"
  unfolding ensureJudgeAttempt_def complete_attempt_def complete_subject_def completeRunAttempt_def
    completeSubmissionAttempt_def persist_submission_result_def complete_submission_def markSubmissionSystemError_def
    query_selects Let_def
  by (intro keeps_intros)+

lemma keeps_keys_dead [keeps_intros]:
  "keeps task_keys (mark_task_dead tid why)" "keeps task_keys (recover_dead_task tid at why)"
  unfolding mark_task_dead_def recover_dead_task_def query_selects by (intro keeps_intros)+

lemma keeps_keys_targets [keeps_intros]:
  "keeps task_keys (lock_target x)" "keeps task_keys (eligible_submissions input)"
  "keeps task_keys (enqueue_target b at x)" "keeps task_keys (cancel_item why locked item)"
  unfolding lock_target_def eligible_submissions_def q_ListEligibleProblemSubmissionsForRejudge_def
    q_ListEligibleContestSubmissionsForRejudge_def enqueue_target_def cancel_item_def Let_def
  by (intro keeps_intros)+

lemma keeps_keys_lock_targets [keeps_intros]: "keeps task_keys (lock_targets subs)"
  unfolding lock_targets_def case_prod_beta by (intro keeps_intros)

lemma keeps_keys_rejudge [keeps_intros]: "keeps task_keys (create_rejudge_batch input)"
  unfolding create_rejudge_batch_def by (intro keeps_intros)

lemma keeps_keys_cancel [keeps_intros]: "keeps task_keys (cancel_rejudge_batch bid why)"
  by (rule keeps_at, unfold cancel_rejudge_batch_def, rule refl, unfold Let_def query_selects) (intro keeps_intros)

subsection \<open>Every step\<close>

lemma grows_CreateJudgeTask: "preserves (grows s0) (q_CreateJudgeTask sid rid st at)"
proof -
  have "grows s s'" if new: "q_CreateJudgeTask sid rid st at s = Inr (t, s')" for s t s'
  proof -
    from new have one: "one_subject (seq_tasks s, sid, rid)"
      by (cases sid; cases rid) (simp_all add: q_CreateJudgeTask_def bind_tx_Inr check_tx_Inr one_subject_def)
    from new have "task_keys s' = task_keys s @ [(seq_tasks s, sid, rid)]"
      by (cases sid; cases rid) (auto simp: q_CreateJudgeTask_def tx_simps Let_def task_keys_def)
    with one show ?thesis unfolding grows_def by auto
  qed
  then show ?thesis unfolding preserves_def using grows_trans by blast
qed

lemma grows_creations:
  "preserves (grows s0) (bind_tx (createSubmissionRow arg) (\<lambda>row.
     bind_tx (q_CreateJudgeTask (validInt8 (su_ID row)) None ''pending'' at) (\<lambda>task. return_tx (row, task))))"
  "preserves (grows s0) (admit_run input)"
proof -
  have row: "preserves (grows s0) (createSubmissionRow arg)"
    unfolding createSubmissionRow_def by (intro preserves_grows keeps_intros)
  then show "preserves (grows s0) (bind_tx (createSubmissionRow arg) (\<lambda>row.
     bind_tx (q_CreateJudgeTask (validInt8 (su_ID row)) None ''pending'' at) (\<lambda>task. return_tx (row, task))))"
    by (intro preserves_bind preserves_return grows_CreateJudgeTask)
  have "preserves (grows s0) (q_CreateRun u pr l st a i)" for u pr l st a i by (intro preserves_grows keeps_intros)
  then show "preserves (grows s0) (admit_run input)"
    unfolding admit_run_def query_selects by (intro preserves_intros grows_CreateJudgeTask)
qed

lemma grows_perform: "grows s (perform op s)"
proof -
  note keep = preserves_WithTx [where I = "grows s" and s = s, OF _ grows_refl]
  show ?thesis
  proof (cases op)
    case (Submit arg nextRunAt)
    then show ?thesis using keep [OF grows_creations(1), of arg nextRunAt] by (simp add: CreateSubmissionWithTask_def)
  next
    case (CompleteAttempt input)
    then show ?thesis
      by (auto simp: CompleteJudgeAttemptResult_def split: option.splits intro!: keep preserves_grows keeps_intros)
  next
    case (SubmissionQueued sid reason)
    then show ?thesis using keep [OF preserves_grows [OF keeps_keys_rows(7)], of sid "text_param reason"]
      by (auto simp: MarkSubmissionQueued_def split: sum.splits prod.splits)
  next
    case (Rejudge input)
    then show ?thesis using keep [OF preserves_grows [OF keeps_keys_rejudge], of input]
      by (auto simp: CreateRejudgeBatchWithItems_def split: sum.splits prod.splits)
  next
    case (Admit input)
    then show ?thesis using keep [OF grows_creations(2)] by (simp add: AdmitRun_def)
  qed (simp_all add: ClaimPendingJudgeTasks_def ClaimPendingRunTasks_def q_ClaimPendingJudgeTasks_def q_ClaimPendingRunTasks_def
      MarkJudgeTaskDispatching_def MarkJudgeTaskDispatched_def MarkJudgeTaskRunning_def MarkJudgeTaskDone_def RetryJudgeTask_def
      MarkJudgeTaskDead_def RecoverDeadJudgeTask_def ResetStaleJudgeTasks_def MarkSubmissionRunning_def
      MarkSubmissionSystemError_def EnsureJudgeAttempt_def CompleteSubmissionWithResult_def CancelRejudgeBatch_def
      keep preserves_grows keeps_keys_tasks keeps_keys_resets keeps_keys_rows keeps_keys_attempts keeps_keys_dead
      keeps_keys_cancel)
qed

lemma grows_step: "lifecycle_step s s' \<Longrightarrow> grows s s'"
  by (induction rule: lifecycle_step.induct) (auto simp: grows_perform judging_tables_def task_keys_def intro: grows_same)

lemma grows_steps: "lifecycle_step\<^sup>*\<^sup>* s s' \<Longrightarrow> grows s s'"
  by (induction rule: rtranclp_induct) (auto dest: grows_step intro: grows_trans)

text \<open>What a handler keeps of a task it has seen, whatever happens meanwhile.\<close>

definition known_task :: "judge_task_row \<Rightarrow> store \<Rightarrow> bool" where
  "known_task t s \<longleftrightarrow> (ta_ID t, ta_SubmissionID t, ta_RunID t) \<in> set (task_keys s)"

lemma known_task_steps: "known_task t s \<Longrightarrow> lifecycle_step\<^sup>*\<^sup>* s s' \<Longrightarrow> known_task t s'"
  using grows_steps unfolding known_task_def grows_def by blast

definition single_subjects :: "store \<Rightarrow> bool" where
  "single_subjects s \<longleftrightarrow> (\<forall>k \<in> set (task_keys s). one_subject k)"

lemma single_subjects_steps: "single_subjects s \<Longrightarrow> lifecycle_step\<^sup>*\<^sup>* s s' \<Longrightarrow> single_subjects s'"
  using grows_steps unfolding single_subjects_def grows_def by blast

lemma known_task_about:
  assumes "known_task t s" and "ea_TaskID input = ta_ID t" and "ea_SubmissionID input = ta_SubmissionID t"
  shows "about_task input s"
  using assms by (auto simp: known_task_def task_keys_def about_task_def)

end
