(* ===== verification/Worker.thy ===== *)
theory Worker
  imports Site Actions Task_Subjects
begin

section \<open>The worker (\<^verbatim>\<open>internal/submission/worker.go\<close>, \<^verbatim>\<open>reconciler.go\<close>)\<close>

text \<open>
  The dispatcher turns pending tasks into queue messages, the processor judges one message in the
  process, the failure handler retries or gives up, the reconciler recovers what got stuck. Each makes
  several repository and queue calls; the parameter \<open>others\<close> is what all other processes do between two of
  them, so that the theorems hold for every interleaving. The state of the queues, of object storage
  and of the judge engine is a parameter; metrics and logs are not modelled. A message payload is the
  event it encodes.
\<close>

subsection \<open>Calls\<close>

type_synonym 'q world = "site \<times> 'q"

definition store_call :: "('q world \<Rightarrow> 'q world) \<Rightarrow> (store \<Rightarrow> 'a res \<times> store) \<Rightarrow> ('q world, 'a) action" where
  "store_call others op = call others (\<lambda>(w, q). case op (wd_judging w) of (r, s) \<Rightarrow> (r, (put_judging s w, q)))"

definition read_call :: "('q world \<Rightarrow> 'q world) \<Rightarrow> (site \<Rightarrow> 'q \<Rightarrow> 'a res) \<Rightarrow> ('q world, 'a) action" where
  "read_call others f = call others (\<lambda>(w, q). (f w q, (w, q)))"

definition queue_call :: "('q world \<Rightarrow> 'q world) \<Rightarrow> ('q \<Rightarrow> 'a res \<times> 'q) \<Rightarrow> ('q world, 'a) action" where
  "queue_call others f = call others (\<lambda>(w, q). case f q of (r, q') \<Rightarrow> (r, (w, q')))"

definition now_act :: "('q world, time) action" where
  "now_act = (\<lambda>w. (Inr (go_now (wd_judging (fst w))), w))"

definition valueOr :: "string option \<Rightarrow> string \<Rightarrow> string" where
  "valueOr value fallback = (case value of None \<Rightarrow> fallback | Some v \<Rightarrow> if v = [] then fallback else v)"

definition defaultJudgeTaskBackoff :: "int32 \<Rightarrow> duration" where
  "defaultJudgeTaskBackoff attempts =
     (let schedule = [5 * Second, 30 * Second, 2 * Minute, 10 * Minute, 30 * Minute];
          n = (if sint attempts < 0 then 0 else sint attempts)
      in if n \<ge> int (length schedule) then last schedule else schedule ! nat n)"

definition requireLanguageEnabled :: "language_record \<Rightarrow> unit res" where
  "requireLanguageEnabled l =
     (if lr_Enabled l then Inr () else fail (Conflict ''submission.language_disabled'' ''language is disabled''))"

subsection \<open>The dispatcher\<close>

text \<open>\<open>td_span\<close> is what OpenTelemetry knows of the current trace, if anything.\<close>

record 'q task_dispatcher =
  td_others :: "'q world \<Rightarrow> 'q world"
  td_queue :: "int64 \<Rightarrow> request_event \<Rightarrow> 'q \<Rightarrow> string res \<times> 'q"
  td_runQueue :: "(int64 \<Rightarrow> request_event \<Rightarrow> 'q \<Rightarrow> string res \<times> 'q) option"
  td_backoff :: "int32 \<Rightarrow> duration"
  td_span :: "(string \<times> trace_context) option"

definition traceIdentityFromContext :: "(string \<times> trace_context) option \<Rightarrow> string \<Rightarrow> string \<times> trace_context" where
  "traceIdentityFromContext span fallback =
     (case span of None \<Rightarrow> (fallback, \<lparr>Traceparent = [], Tracestate = []\<rparr>) | Some x \<Rightarrow> x)"

text \<open>What both builders look up: the artifact, the language and that it is enabled.\<close>

definition source_and_language ::
  "'q task_dispatcher \<Rightarrow> int64 option \<Rightarrow> int64 \<Rightarrow> ('q world, artifact_row \<times> language_record) action" where
  "source_and_language d artifactID languageID =
     bind_act (read_call (td_others d) (\<lambda>w q. GetArtifact (coalesce artifactID 0) w)) (\<lambda>artifact.
     bind_act (read_call (td_others d) (\<lambda>w q. GetLanguage languageID w)) (\<lambda>language.
       case requireLanguageEnabled language of Inl e \<Rightarrow> fail_act e | Inr _ \<Rightarrow> return_act (artifact, language)))"

definition artifact_reference :: "artifact_row \<Rightarrow> artifact_ref" where
  "artifact_reference a = \<lparr>ar_ID = af_ID a, ar_StorageKey = af_StorageKey a, ar_ContentHash = af_ChecksumSha256 a\<rparr>"

definition testcase_reference :: "testcase_metadata \<Rightarrow> testcase_set_ref" where
  "testcase_reference m =
     \<lparr>tr_ID = tm_ID m, tr_ChecksumSHA256 = tm_ChecksumSHA256 m, tr_StorageKey = tm_StorageKey m, tr_CaseCount = tm_CaseCount m,
      tr_TimeLimitMS = go_quot (tm_TimeLimit m) Millisecond, tr_MemoryKB = tm_MemoryKB m\<rparr>"

definition valid_event :: "request_event \<Rightarrow> ('q world, request_event) action" where
  "valid_event event = (case validate_request_event event of Inl e \<Rightarrow> fail_act e | Inr _ \<Rightarrow> return_act event)"

definition submission_event ::
  "submission_row \<Rightarrow> artifact_row \<Rightarrow> language_record \<Rightarrow> testcase_metadata \<Rightarrow> time \<Rightarrow> string \<Rightarrow> trace_context
   \<Rightarrow> judge_attempt_row \<Rightarrow> request_event" where
  "submission_event submission artifact language testcaseSet now traceID traceContext attempt =
     \<lparr>re_ProtocolVersion = RequestEventType, re_EventID = ''judge-request-'' @ FormatInt (at_ID attempt),
      re_AttemptID = FormatInt (at_ID attempt), re_TraceID = valueOr (at_TraceID attempt) traceID,
      re_TraceContext = traceContext, re_SubmissionID = su_ID submission, re_RunID = 0,
      re_LanguageSlug = lr_EngineLanguageID language, re_SourceArtifact = artifact_reference artifact,
      re_TestcaseSet = testcase_reference testcaseSet, re_Stdin = [],
      re_TimeoutMS = go_quot (lr_DefaultTimeLimit language) Millisecond, re_MemoryKB = lr_DefaultMemoryKB language,
      re_Priority = PriorityFormal, re_CreatedAt = now\<rparr>"

definition submissionRequestEvent :: "'q task_dispatcher \<Rightarrow> judge_task_row \<Rightarrow> ('q world, request_event) action" where
  "submissionRequestEvent d task =
     (case ta_SubmissionID task of
        None \<Rightarrow> fail_act errJudgeTaskIsNotASubmission
      | Some sid \<Rightarrow>
          bind_act (read_call (td_others d) (\<lambda>w q. GetSubmission sid (wd_judging w))) (\<lambda>submission.
          bind_act (source_and_language d (su_SourceArtifactID submission) (su_LanguageID submission)) (\<lambda>(artifact, language).
          bind_act (read_call (td_others d)
                      (\<lambda>w q. ReadyTestcaseMetadata (su_ProblemID submission) (su_TestcaseSetID submission) w)) (\<lambda>testcaseSet.
          bind_act now_act (\<lambda>now.
          bind_act (when_act (su_Status submission = StatusQueued)
                      (bind_act (store_call (td_others d) (MarkSubmissionRunning (su_ID submission))) (\<lambda>_. return_act ()))) (\<lambda>_.
            let (traceID, traceContext) = traceIdentityFromContext (td_span d)
                  (''trace-submission-'' @ FormatInt (su_ID submission) @ ''-task-'' @ FormatInt (ta_ID task))
            in bind_act (store_call (td_others d) (EnsureJudgeAttempt
                 \<lparr>ea_AttemptID = [], ea_SubmissionID = Some (su_ID submission), ea_RunID = None, ea_TaskID = ta_ID task,
                  ea_LanguageID = lr_ID language, ea_TestcaseSetID = tm_ID testcaseSet,
                  ea_TestcaseSetHash = tm_ChecksumSHA256 testcaseSet, ea_ProtocolVersion = RequestEventType,
                  ea_JudgeEngine = EngineSOJAgent, ea_TraceID = traceID, ea_StartedAt = now\<rparr>)) (\<lambda>attempt.
               valid_event (submission_event submission artifact language testcaseSet now traceID traceContext attempt))))))))"

definition run_event ::
  "run_row \<Rightarrow> artifact_row \<Rightarrow> language_record \<Rightarrow> time \<Rightarrow> string \<Rightarrow> trace_context \<Rightarrow> judge_attempt_row \<Rightarrow> request_event" where
  "run_event run artifact language now traceID traceContext attempt =
     \<lparr>re_ProtocolVersion = RequestEventType, re_EventID = ''judge-request-'' @ FormatInt (at_ID attempt),
      re_AttemptID = FormatInt (at_ID attempt), re_TraceID = valueOr (at_TraceID attempt) traceID,
      re_TraceContext = traceContext, re_SubmissionID = 0, re_RunID = ru_ID run,
      re_LanguageSlug = lr_EngineLanguageID language, re_SourceArtifact = artifact_reference artifact,
      re_TestcaseSet = empty_testcase_set_ref, re_Stdin = coalesce (ru_Stdin run) [],
      re_TimeoutMS = go_quot (lr_DefaultTimeLimit language) Millisecond, re_MemoryKB = lr_DefaultMemoryKB language,
      re_Priority = PriorityScratch, re_CreatedAt = now\<rparr>"

definition runRequestEvent :: "'q task_dispatcher \<Rightarrow> judge_task_row \<Rightarrow> ('q world, request_event) action" where
  "runRequestEvent d task =
     (case ta_RunID task of
        None \<Rightarrow> fail_act errJudgeTaskIsNotARun
      | Some rid \<Rightarrow>
          bind_act (read_call (td_others d) (\<lambda>w q. GetRun rid (wd_judging w))) (\<lambda>run.
          bind_act (source_and_language d (ru_SourceArtifactID run) (ru_LanguageID run)) (\<lambda>(artifact, language).
          bind_act now_act (\<lambda>now.
          bind_act (when_act (ru_Status run = StatusQueued)
                      (bind_act (store_call (td_others d) (MarkRunRunning (ru_ID run))) (\<lambda>_. return_act ()))) (\<lambda>_.
            let (traceID, traceContext) = traceIdentityFromContext (td_span d)
                  (''trace-run-'' @ FormatInt (ru_ID run) @ ''-task-'' @ FormatInt (ta_ID task))
            in bind_act (store_call (td_others d) (EnsureJudgeAttempt
                 \<lparr>ea_AttemptID = [], ea_SubmissionID = None, ea_RunID = Some (ru_ID run), ea_TaskID = ta_ID task,
                  ea_LanguageID = lr_ID language, ea_TestcaseSetID = 0, ea_TestcaseSetHash = [],
                  ea_ProtocolVersion = RequestEventType, ea_JudgeEngine = EngineSOJAgent, ea_TraceID = traceID,
                  ea_StartedAt = now\<rparr>)) (\<lambda>attempt.
               valid_event (run_event run artifact language now traceID traceContext attempt)))))))"

text \<open>One round of the loop of \<^verbatim>\<open>publish\<close>: a failed publication schedules a retry, a failed build does not.\<close>

definition publish_task ::
  "'q task_dispatcher \<Rightarrow> (int64 \<Rightarrow> request_event \<Rightarrow> 'q \<Rightarrow> string res \<times> 'q)
   \<Rightarrow> (judge_task_row \<Rightarrow> ('q world, request_event) action) \<Rightarrow> judge_task_row \<Rightarrow> ('q world, unit) action" where
  "publish_task d target build task =
     bind_act (build task) (\<lambda>event.
     try_act (queue_call (td_others d) (target (ta_ID task) event))
       (\<lambda>e. bind_act now_act (\<lambda>now.
            bind_act (ignore_act (store_call (td_others d)
              (RetryJudgeTask (ta_ID task) (now + td_backoff d (ta_Attempts task)) (error_text e)))) (\<lambda>_. fail_act e)))
       (\<lambda>streamID. bind_act (store_call (td_others d) (MarkJudgeTaskDispatched (ta_ID task) streamID)) (\<lambda>_. return_act ())))"

definition publish ::
  "'q task_dispatcher \<Rightarrow> judge_task_row list \<Rightarrow> (int64 \<Rightarrow> request_event \<Rightarrow> 'q \<Rightarrow> string res \<times> 'q)
   \<Rightarrow> (judge_task_row \<Rightarrow> ('q world, request_event) action) \<Rightarrow> 'q world \<Rightarrow> (nat \<times> unit res) \<times> 'q world" where
  "publish d tasks target build w = loop_act (publish_task d target build) 0 tasks w"

definition dispatchSubmissions :: "'q task_dispatcher \<Rightarrow> int32 \<Rightarrow> 'q world \<Rightarrow> (nat \<times> unit res) \<times> 'q world" where
  "dispatchSubmissions d limit_n w =
     (case store_call (td_others d) (ClaimPendingJudgeTasks limit_n) w of
        (Inl e, w') \<Rightarrow> ((0, Inl e), w')
      | (Inr tasks, w') \<Rightarrow> publish d tasks (td_queue d) (submissionRequestEvent d) w')"

definition dispatchRuns :: "'q task_dispatcher \<Rightarrow> int32 \<Rightarrow> 'q world \<Rightarrow> (nat \<times> unit res) \<times> 'q world" where
  "dispatchRuns d limit_n w =
     (case td_runQueue d of
        None \<Rightarrow> ((0, Inr ()), w)
      | Some runQueue \<Rightarrow>
          (case store_call (td_others d) (ClaimPendingRunTasks limit_n) w of
             (Inl e, w') \<Rightarrow> ((0, Inl e), w')
           | (Inr tasks, w') \<Rightarrow> publish d tasks runQueue (runRequestEvent d) w'))"

definition DispatchPending :: "'q task_dispatcher \<Rightarrow> int32 \<Rightarrow> 'q world \<Rightarrow> (nat \<times> unit res) \<times> 'q world" where
  "DispatchPending d limit_n w =
     (let n = (if sint limit_n \<le> 0 then 16 else limit_n) in
      case dispatchSubmissions d n w of
        ((k, Inl e), w') \<Rightarrow> ((k, Inl e), w')
      | ((k, Inr _), w') \<Rightarrow> (case dispatchRuns d n w' of ((m, r), w'') \<Rightarrow> ((k + m, r), w'')))"

subsection \<open>The failure handler\<close>

record 'q failure_handler =
  fh_others :: "'q world \<Rightarrow> 'q world"
  fh_DeadLetter :: "request_event message \<Rightarrow> string \<Rightarrow> 'q \<Rightarrow> unit res \<times> 'q"
  fh_Ack :: "string \<Rightarrow> 'q \<Rightarrow> unit res \<times> 'q"
  fh_maxAttempts :: int32
  fh_backoff :: "int32 \<Rightarrow> duration"

definition NewTaskFailureHandler ::
  "('q world \<Rightarrow> 'q world) \<Rightarrow> (request_event message \<Rightarrow> string \<Rightarrow> 'q \<Rightarrow> unit res \<times> 'q) \<Rightarrow> (string \<Rightarrow> 'q \<Rightarrow> unit res \<times> 'q)
   \<Rightarrow> int32 \<Rightarrow> (int32 \<Rightarrow> duration) option \<Rightarrow> 'q failure_handler" where
  "NewTaskFailureHandler others deadLetter ack maxAttempts backoff =
     \<lparr>fh_others = others, fh_DeadLetter = deadLetter, fh_Ack = ack,
      fh_maxAttempts = (if sint maxAttempts \<le> 0 then 5 else maxAttempts),
      fh_backoff = coalesce backoff defaultJudgeTaskBackoff\<rparr>"

text \<open>Dereferencing a nil pointer ends the process.\<close>

abbreviation nil_dereference :: go_error where
  "nil_dereference \<equiv> ErrText ''invalid memory address or nil pointer dereference''"

definition retryOrDead ::
  "'q failure_handler \<Rightarrow> request_event message \<Rightarrow> judge_task_row \<Rightarrow> go_error \<Rightarrow> ('q world, string) action" where
  "retryOrDead h message task cause =
     (let reason = error_text cause in
      if sint (ta_Attempts task) \<ge> sint (fh_maxAttempts h)
      then bind_act (store_call (fh_others h) (MarkJudgeTaskDead (ta_ID task) reason)) (\<lambda>_.
           bind_act (ignore_act (queue_call (fh_others h) (fh_DeadLetter h message reason))) (\<lambda>_.
           bind_act (queue_call (fh_others h) (fh_Ack h (msg_ID message))) (\<lambda>_. return_act ''dead'')))
      else bind_act now_act (\<lambda>now.
           bind_act (store_call (fh_others h)
             (RetryJudgeTask (ta_ID task) (now + fh_backoff h (ta_Attempts task)) reason)) (\<lambda>_.
           case ta_SubmissionID task of
             None \<Rightarrow> fail_act nil_dereference
           | Some sid \<Rightarrow>
               bind_act (store_call (fh_others h) (MarkSubmissionQueued sid reason)) (\<lambda>_.
               bind_act (queue_call (fh_others h) (fh_Ack h (msg_ID message))) (\<lambda>_. return_act ''retry'')))))"

subsection \<open>The processor\<close>

record judge_testcase =
  jt_InputKey :: string
  jt_ExpectedOutputKey :: string
  jt_TimeLimit :: duration
  jt_MemoryKB :: int64

record judge_request =
  jq_LanguageSlug :: string
  jq_Source :: string
  jq_Testcases :: "judge_testcase list"
  jq_Timeout :: duration

record 'q task_processor =
  tp_others :: "'q world \<Rightarrow> 'q world"
  tp_failures :: "'q failure_handler"
  tp_Ack :: "string \<Rightarrow> 'q \<Rightarrow> unit res \<times> 'q"
  tp_Judge :: "judge_request \<Rightarrow> 'q \<Rightarrow> judge_result res \<times> 'q"
  tp_parser :: archive_parser
  tp_objects :: "(string \<Rightarrow> 'q \<Rightarrow> object_body res) option"
  tp_sources :: "string \<Rightarrow> 'q \<Rightarrow> string res"

definition completeSubmission ::
  "('q world \<Rightarrow> 'q world) \<Rightarrow> int64 \<Rightarrow> judge_result \<Rightarrow> ('q world, submission_row) action" where
  "completeSubmission others sid result =
     bind_act (read_call others (\<lambda>w q. GetSubmission sid (wd_judging w))) (\<lambda>current.
       if terminalStatus (su_Status current) then return_act current
       else store_call others (CompleteSubmissionWithResult sid result))"

definition judge_testcases :: "testcase_set \<Rightarrow> judge_testcase list" where
  "judge_testcases tset =
     map (\<lambda>c. \<lparr>jt_InputKey = tc_InputKey c, jt_ExpectedOutputKey = tc_OutputKey c, jt_TimeLimit = tc_TimeLimit c,
              jt_MemoryKB = tc_MemoryKB c\<rparr>) (te_Cases tset)"

text \<open>
  The part of \<^verbatim>\<open>processMessage\<close> whose errors all lead to \<^verbatim>\<open>retryOrDead\<close>: from marking the submission running
  to storing the result.
\<close>

definition judge_task_body :: "'q task_processor \<Rightarrow> submission_row \<Rightarrow> ('q world, submission_row) action" where
  "judge_task_body p submission =
     bind_act (when_act (su_Status submission = StatusQueued)
       (bind_act (store_call (tp_others p) (MarkSubmissionRunning (su_ID submission))) (\<lambda>_. return_act ()))) (\<lambda>_.
     bind_act (read_call (tp_others p) (\<lambda>w q. GetArtifact (coalesce (su_SourceArtifactID submission) 0) w)) (\<lambda>artifact.
     bind_act (read_call (tp_others p) (\<lambda>w q. tp_sources p (af_StorageKey artifact) q)) (\<lambda>source.
     bind_act (read_call (tp_others p) (\<lambda>w q. GetLanguage (su_LanguageID submission) w)) (\<lambda>language.
     bind_act (case requireLanguageEnabled language of Inl e \<Rightarrow> fail_act e | Inr _ \<Rightarrow> return_act ()) (\<lambda>_.
     bind_act (read_call (tp_others p) (\<lambda>w q. GetForJudge (su_ProblemID submission) (wd_problems w))) (\<lambda>_.
     bind_act (read_call (tp_others p) (\<lambda>w q. ReadyTestcaseSet (tp_parser p) (map_option (\<lambda>get key. get key q) (tp_objects p))
                 (su_ProblemID submission) (su_TestcaseSetID submission) w)) (\<lambda>tset.
     bind_act (queue_call (tp_others p) (tp_Judge p
                 \<lparr>jq_LanguageSlug = lr_EngineLanguageID language, jq_Source = source, jq_Testcases = judge_testcases tset,
                  jq_Timeout = lr_DefaultTimeLimit language\<rparr>)) (\<lambda>result.
       completeSubmission (tp_others p) (su_ID submission) result))))))))"

definition ack_as :: "'q task_processor \<Rightarrow> request_event message \<Rightarrow> string \<Rightarrow> ('q world, string) action" where
  "ack_as p message outcome =
     bind_act (queue_call (tp_others p) (tp_Ack p (msg_ID message))) (\<lambda>_. return_act outcome)"

text \<open>\<^verbatim>\<open>processMessage\<close>, in three parts: with the submission read, with the task read, and from the message.\<close>

definition process_submission ::
  "'q task_processor \<Rightarrow> request_event message \<Rightarrow> judge_task_row \<Rightarrow> submission_row \<Rightarrow> ('q world, string) action" where
  "process_submission p message task submission =
     (if terminalStatus (su_Status submission)
      then bind_act (store_call (tp_others p) (MarkJudgeTaskDone (ta_ID task))) (\<lambda>_. ack_as p message ''skipped'')
      else bind_act (store_call (tp_others p) (MarkJudgeTaskRunning (ta_ID task))) (\<lambda>_.
           try_act (judge_task_body p submission) (retryOrDead (tp_failures p) message task) (\<lambda>_.
           bind_act (store_call (tp_others p) (MarkJudgeTaskDone (ta_ID task))) (\<lambda>_. ack_as p message ''success''))))"

definition process_task ::
  "'q task_processor \<Rightarrow> request_event message \<Rightarrow> judge_task_row \<Rightarrow> ('q world, string) action" where
  "process_task p message task =
     (if ta_Status task = ''done'' \<or> ta_Status task = ''dead'' then ack_as p message ''skipped''
      else if ta_RunID task \<noteq> None then ack_as p message ''skipped''
      else case ta_SubmissionID task of
             None \<Rightarrow> fail_act nil_dereference
           | Some sid \<Rightarrow>
               try_act (read_call (tp_others p) (\<lambda>w q. GetSubmission sid (wd_judging w)))
                 (retryOrDead (tp_failures p) message task) (process_submission p message task))"

definition processMessage :: "'q task_processor \<Rightarrow> request_event message \<Rightarrow> ('q world, string) action" where
  "processMessage p message =
     bind_act (read_call (tp_others p) (\<lambda>w q. GetJudgeTask (msg_TaskID message) (wd_judging w))) (process_task p message)"

definition ProcessMessage :: "'q task_processor \<Rightarrow> request_event message \<Rightarrow> ('q world, unit) action" where
  "ProcessMessage p message = bind_act (processMessage p message) (\<lambda>_. return_act ())"

subsection \<open>The loop and the reconciler\<close>

definition ConsumeOnce ::
  "'q task_processor \<Rightarrow> ('q \<Rightarrow> request_event message list res \<times> 'q) \<Rightarrow> 'q world \<Rightarrow> (nat \<times> unit res) \<times> 'q world" where
  "ConsumeOnce p consume w =
     (case queue_call (tp_others p) consume w of
        (Inl e, w') \<Rightarrow> ((0, Inl e), w')
      | (Inr messages, w') \<Rightarrow> loop_act (ProcessMessage p) 0 messages w')"

definition ClaimStaleTasks ::
  "'q task_processor \<Rightarrow> ('q \<Rightarrow> request_event message list res \<times> 'q) \<Rightarrow> 'q world \<Rightarrow> (nat \<times> unit res) \<times> 'q world" where
  "ClaimStaleTasks p claimStale w =
     (case queue_call (tp_others p) claimStale w of
        (Inl e, w') \<Rightarrow> ((0, Inl e), w')
      | (Inr messages, w') \<Rightarrow> loop_act (ProcessMessage p) 0 messages w')"

definition MarkStaleRuns :: "('q world \<Rightarrow> 'q world) \<Rightarrow> duration \<Rightarrow> ('q world, nat) action" where
  "MarkStaleRuns others maxAge =
     bind_act now_act (\<lambda>now.
     bind_act (store_call others (MarkStaleRunsSystemError (now - maxAge)
       ''run reconciliation marked stale run as system_error'')) (\<lambda>runs. return_act (length runs)))"

definition ResetStaleTasks :: "('q world \<Rightarrow> 'q world) \<Rightarrow> duration \<Rightarrow> ('q world, nat) action" where
  "ResetStaleTasks others maxAge =
     bind_act now_act (\<lambda>now.
     bind_act (store_call others (ResetStaleJudgeTasks (now - maxAge)
       ''judge task reconciliation reset stale task to pending'')) (\<lambda>tasks. return_act (length tasks)))"

text \<open>One round of \<^verbatim>\<open>runReconcilerLoop\<close>; score snapshots are a parameter, and the first error ends the process.\<close>

definition reconcile_round ::
  "'q task_processor \<Rightarrow> ('q \<Rightarrow> request_event message list res \<times> 'q) \<Rightarrow> ('q world, unit) action \<Rightarrow> ('q world, unit) action" where
  "reconcile_round p claimStale snapshots = (\<lambda>w.
     case ClaimStaleTasks p claimStale w of
       ((_, Inl e), w') \<Rightarrow> (Inl e, w')
     | ((_, Inr _), w') \<Rightarrow>
         bind_act (ResetStaleTasks (tp_others p) (30 * Minute)) (\<lambda>_.
         bind_act (MarkStaleRuns (tp_others p) (30 * Minute)) (\<lambda>_. snapshots)) w')"

end
