(* ===== verification/Worker_Refinement.thy ===== *)
theory Worker_Refinement
  imports Worker
begin

section \<open>The worker only takes lifecycle steps\<close>

text \<open>
  Every call of the dispatcher, the processor and the reconciler is one of the operations of the
  submission lifecycle, performed when the lifecycle permits it, whatever other processes do between the
  calls. So what the lifecycle guarantees holds of the whole system: no submission is lost. The dispatcher
  tolerates every lifecycle step of the others. The processor marks a task done because it has seen or
  stored a verdict, so it needs that nobody reopens the submission before that call: otherwise the
  mark would close the task of a submission that waits again.
\<close>

subsection \<open>Rely and guarantee\<close>

abbreviation judging :: "'q world \<Rightarrow> store" where
  "judging w \<equiv> wd_judging (fst w)"

definition evolves :: "'q world \<Rightarrow> 'q world \<Rightarrow> bool" where
  "evolves w w' \<longleftrightarrow> lifecycle_step\<^sup>*\<^sup>* (judging w) (judging w')"

interpretation steps: rely_guarantee evolves
  by unfold_locales (auto simp: evolves_def)

text \<open>No verdict is reopened.\<close>

definition verdicts_kept :: "store \<Rightarrow> store \<Rightarrow> bool" where
  "verdicts_kept s s' \<longleftrightarrow> (\<forall>r \<in> set (db_submissions s). terminalStatus (su_Status r) \<longrightarrow> r \<in> set (db_submissions s'))"

definition calmly :: "'q world \<Rightarrow> 'q world \<Rightarrow> bool" where
  "calmly w w' \<longleftrightarrow> evolves w w' \<and> verdicts_kept (judging w) (judging w')"

interpretation calm: rely_guarantee calmly
  by unfold_locales (auto simp: calmly_def verdicts_kept_def intro: steps.evolves_refl steps.evolves_trans)

lemma evolves_elsewhere:
  "judging_tables (judging w') = judging_tables (judging w) \<Longrightarrow> evolves w w'"
  by (auto simp: evolves_def intro: elsewhere)

subsection \<open>The calls\<close>

lemma steps_store:
  fixes others :: "'q world \<Rightarrow> 'q world"
  assumes "\<And>w. evolves w (others w)" and "\<And>x. steps.stable (\<lambda>w :: 'q world. Q x (judging w))"
    and "\<And>s. snd (f s) = perform op s" and "\<And>w. P w \<Longrightarrow> permitted op (judging w)"
    and "\<And>w x s. P w \<Longrightarrow> f (judging w) = (Inr x, s) \<Longrightarrow> Q x s"
  shows "steps.sat P (store_call others f) (\<lambda>x w. Q x (judging w))"
  unfolding store_call_def
proof (rule steps.sat_call [OF assms(1,2)])
  fix v r v' assume P: "P v" and c: "(case v of (w, q) \<Rightarrow> case f (wd_judging w) of (r, s) \<Rightarrow> (r, put_judging s w, q)) = (r, v')"
  from c have f: "f (judging v) = (r, judging v')" by (cases v) (auto split: prod.splits)
  with assms(3) [of "judging v"] have "judging v' = perform op (judging v)" by simp
  with assms(4) [OF P] have "evolves v v'" by (auto simp: evolves_def intro: operate)
  with f assms(5) [OF P] show "evolves v v' \<and> (\<forall>x. r = Inr x \<longrightarrow> Q x (judging v'))" by auto
qed

lemma calm_store:
  fixes others :: "'q world \<Rightarrow> 'q world"
  assumes "\<And>w. calmly w (others w)" and "\<And>x. calm.stable (\<lambda>w :: 'q world. Q x (judging w))"
    and "\<And>s. snd (f s) = perform op s" and "\<not> reopens op" and "\<And>w. P w \<Longrightarrow> permitted op (judging w)"
    and "\<And>w x s. P w \<Longrightarrow> f (judging w) = (Inr x, s) \<Longrightarrow> Q x s"
  shows "calm.sat P (store_call others f) (\<lambda>x w. Q x (judging w))"
  unfolding store_call_def
proof (rule calm.sat_call [OF assms(1,2)])
  fix v r v' assume P: "P v" and c: "(case v of (w, q) \<Rightarrow> case f (wd_judging w) of (r, s) \<Rightarrow> (r, put_judging s w, q)) = (r, v')"
  from c have f: "f (judging v) = (r, judging v')" by (cases v) (auto split: prod.splits)
  with assms(3) [of "judging v"] have v': "judging v' = perform op (judging v)" by simp
  with assms(5) [OF P] have "evolves v v'" by (auto simp: evolves_def intro: operate)
  moreover have "verdicts_kept (judging v) (judging v')" unfolding v' verdicts_kept_def using row_stays assms(4) by blast
  ultimately show "calmly v v' \<and> (\<forall>x. r = Inr x \<longrightarrow> Q x (judging v'))"
    using f assms(6) [OF P] by (auto simp: calmly_def)
qed

text \<open>The operations that are always permitted.\<close>

lemma steps_store_free:
  fixes others :: "'q world \<Rightarrow> 'q world"
  assumes "\<And>w. evolves w (others w)" and "\<And>s. snd (f s) = perform op s" and "\<And>s. permitted op s"
  shows "steps.sat P (store_call others f) (\<lambda>_ _. True)"
  by (rule steps_store [where Q = "\<lambda>_ _. True"]) (use assms in auto)

lemma calm_store_free:
  fixes others :: "'q world \<Rightarrow> 'q world"
  assumes "\<And>w. calmly w (others w)" and "\<And>s. snd (f s) = perform op s" and "\<not> reopens op" and "\<And>s. permitted op s"
  shows "calm.sat P (store_call others f) (\<lambda>_ _. True)"
  by (rule calm_store [where Q = "\<lambda>_ _. True"]) (use assms in auto)

lemma steps_calls:
  fixes others :: "'q world \<Rightarrow> 'q world"
  assumes ev: "\<And>w. evolves w (others w)"
  shows "steps.sat P (store_call others (RetryJudgeTask tid at why)) (\<lambda>_ _. True)"
    and "steps.sat P (store_call others (MarkJudgeTaskDispatched tid stream)) (\<lambda>_ _. True)"
    and "steps.sat P (store_call others (MarkSubmissionRunning sid)) (\<lambda>_ _. True)"
    and "steps.sat P (store_call others (ResetStaleJudgeTasks before why)) (\<lambda>_ _. True)"
  using steps_store_free [OF ev, of "RetryJudgeTask tid at why" "TaskRetry tid at why" P]
    steps_store_free [OF ev, of "MarkJudgeTaskDispatched tid stream" "TaskDispatched tid stream" P]
    steps_store_free [OF ev, of "MarkSubmissionRunning sid" "SubmissionRunning sid" P]
    steps_store_free [OF ev, of "ResetStaleJudgeTasks before why" "ResetStale before why" P]
  by simp_all

lemma calm_calls:
  fixes others :: "'q world \<Rightarrow> 'q world"
  assumes ev: "\<And>w. calmly w (others w)"
  shows "calm.sat P (store_call others (RetryJudgeTask tid at why)) (\<lambda>_ _. True)"
    and "calm.sat P (store_call others (MarkJudgeTaskDead tid why)) (\<lambda>_ _. True)"
    and "calm.sat P (store_call others (MarkJudgeTaskRunning tid)) (\<lambda>_ _. True)"
    and "calm.sat P (store_call others (MarkSubmissionRunning sid)) (\<lambda>_ _. True)"
    and "calm.sat P (store_call others (MarkSubmissionQueued sid why)) (\<lambda>_ _. True)"
  using calm_store_free [OF ev, of "RetryJudgeTask tid at why" "TaskRetry tid at why" P]
    calm_store_free [OF ev, of "MarkJudgeTaskDead tid why" "TaskDead tid why" P]
    calm_store_free [OF ev, of "MarkJudgeTaskRunning tid" "TaskRunning tid" P]
    calm_store_free [OF ev, of "MarkSubmissionRunning sid" "SubmissionRunning sid" P]
    calm_store_free [OF ev, of "MarkSubmissionQueued sid why" "SubmissionQueued sid why" P]
  by simp_all

text \<open>Reads and queue calls do not touch the judging tables.\<close>

lemma steps_read:
  assumes "\<And>w. evolves w (others w)" and "\<And>x. steps.stable (Q x)" and "\<And>w q x. P (w, q) \<Longrightarrow> f w q = Inr x \<Longrightarrow> Q x (w, q)"
  shows "steps.sat P (read_call others f) Q"
  unfolding read_call_def by (rule steps.sat_call [OF assms(1,2)]) (use assms(3) in \<open>auto simp: steps.evolves_refl\<close>)

lemma calm_read:
  assumes "\<And>w. calmly w (others w)" and "\<And>x. calm.stable (Q x)" and "\<And>w q x. P (w, q) \<Longrightarrow> f w q = Inr x \<Longrightarrow> Q x (w, q)"
  shows "calm.sat P (read_call others f) Q"
  unfolding read_call_def by (rule calm.sat_call [OF assms(1,2)]) (use assms(3) in \<open>auto simp: calm.evolves_refl\<close>)

lemma steps_queue: "(\<And>w. evolves w (others w)) \<Longrightarrow> steps.sat P (queue_call others f) (\<lambda>_ _. True)"
  unfolding queue_call_def
  by (rule steps.sat_call) (auto simp: evolves_def split: prod.splits)

lemma calm_queue: "(\<And>w. calmly w (others w)) \<Longrightarrow> calm.sat P (queue_call others f) (\<lambda>_ _. True)"
  unfolding queue_call_def
  by (rule calm.sat_call) (auto simp: calmly_def evolves_def verdicts_kept_def split: prod.splits)

lemma steps_now: "steps.sat P now_act (\<lambda>_ _. True)"
  by (auto simp: steps.sat_def now_act_def steps.evolves_refl)

lemma calm_now: "calm.sat P now_act (\<lambda>_ _. True)"
  by (auto simp: calm.sat_def now_act_def calm.evolves_refl)

subsection \<open>What is stable\<close>

lemma stable_known: "steps.stable (\<lambda>w. known_task t (judging w))"
  by (auto simp: steps.stable_def evolves_def intro: known_task_steps)

lemma stable_single: "steps.stable (\<lambda>w. single_subjects (judging w))"
  by (auto simp: steps.stable_def evolves_def intro: single_subjects_steps)

lemma inv_steps: "lifecycle_step\<^sup>*\<^sup>* s s' \<Longrightarrow> lifecycle_inv {} s \<Longrightarrow> lifecycle_inv {} s'"
proof (induction rule: rtranclp_induct)
  case (step y z)
  from step.hyps(2) show ?case
  proof cases
    case (operate op)
    with preserves_operation step show ?thesis by simp
  next
    case elsewhere
    from inv_judging_tables [OF this] step show ?thesis by simp
  qed
qed simp

lemma stable_inv: "steps.stable (\<lambda>w. lifecycle_inv {} (judging w))"
  by (auto simp: steps.stable_def evolves_def intro: inv_steps)

lemma calm_stable: "steps.stable P \<Longrightarrow> calm.stable P"
  by (auto simp: steps.stable_def calm.stable_def calmly_def)

text \<open>The submission has a verdict.\<close>

definition judged :: "int64 \<Rightarrow> store \<Rightarrow> bool" where
  "judged sid s \<longleftrightarrow> (\<exists>r \<in> set (db_submissions s). su_ID r = sid \<and> terminalStatus (su_Status r))"

lemma stable_judged: "calm.stable (\<lambda>w. judged sid (judging w))"
  by (auto simp: calm.stable_def calmly_def verdicts_kept_def judged_def)

lemma judged_permits_done:
  assumes "judged sid s" and "known_task t s" and "ta_SubmissionID t = Some sid" and "lifecycle_inv {} s"
  shows "judged_subject (ta_ID t) s"
proof -
  have keys: "distinct (map ta_ID (db_tasks s))" "distinct (map su_ID (db_submissions s))"
    using assms(4) by (simp_all add: lifecycle_inv_def keyed_def)
  from assms(2,3) obtain t' where "t' \<in> set (db_tasks s)" "ta_ID t' = ta_ID t" "ta_SubmissionID t' = Some sid"
    by (auto simp: known_task_def task_keys_def)
  with keys assms(1) show ?thesis
    unfolding judged_subject_def judged_def distinct_map inj_on_def by (metis option.inject)
qed

subsection \<open>The dispatcher\<close>

lemma steps_read_pure:
  assumes "\<And>w. evolves w (others w)" and "\<And>w q x. f w q = Inr x \<Longrightarrow> B x"
  shows "steps.sat P (read_call others f) (\<lambda>x _. B x)"
  by (rule steps_read) (use assms in auto)

lemma GetSubmission_id: "GetSubmission sid s = Inr r \<Longrightarrow> su_ID r = sid \<and> r \<in> set (db_submissions s)"
  by (auto simp: GetSubmission_def WithTx_def q_GetSubmissionByID_def select_row_def dest: find_Some_set split: option.splits)

lemma steps_valid_event: "steps.sat P (valid_event event) (\<lambda>_ _. True)"
  unfolding valid_event_def by (intro sat_intros) simp

lemma steps_source_and_language:
  assumes "\<And>w. evolves w (td_others d w)" and "steps.stable P"
  shows "steps.sat P (source_and_language d a l) (\<lambda>_ _. True)"
  unfolding source_and_language_def
  by (intro steps.sat_then [OF assms(2)] steps_read_pure [OF assms(1)] sat_intros) auto

lemma steps_MarkRunRunning:
  fixes others :: "'q world \<Rightarrow> 'q world"
  assumes "\<And>w. evolves w (others w)"
  shows "steps.sat P (store_call others (MarkRunRunning rid)) (\<lambda>_ _. True)"
  unfolding store_call_def
  by (rule steps.sat_call [OF assms])
    (auto simp: MarkRunRunning_def WithTx_def q_MarkRunRunning_def update_row_def judging_tables_def
      intro!: evolves_elsewhere split: prod.splits sum.splits option.splits if_splits)

lemma steps_ensure:
  fixes others :: "'q world \<Rightarrow> 'q world"
  assumes "\<And>w. evolves w (others w)" and "ea_TaskID input = ta_ID task" and "ea_SubmissionID input = ta_SubmissionID task"
  shows "steps.sat (\<lambda>w. known_task task (judging w)) (store_call others (EnsureJudgeAttempt input)) (\<lambda>_ _. True)"
  by (rule steps_store [where Q = "\<lambda>_ _. True" and op = "Ensure input"])
    (use assms in \<open>auto intro: known_task_about\<close>)

lemma steps_mark_running:
  fixes others :: "'q world \<Rightarrow> 'q world"
  assumes "\<And>w. evolves w (others w)" and "steps.stable P"
  shows "steps.sat P (when_act b (bind_act (store_call others (MarkSubmissionRunning sid)) (\<lambda>_. return_act ()))) (\<lambda>_ _. True)"
    and "steps.sat P (when_act b (bind_act (store_call others (MarkRunRunning rid)) (\<lambda>_. return_act ()))) (\<lambda>_ _. True)"
  by (intro sat_intros steps.sat_then [OF assms(2)] steps_calls [OF assms(1)] steps_MarkRunRunning [OF assms(1)]; simp)+

lemma steps_submission_event:
  assumes "\<And>w. evolves w (td_others d w)"
  shows "steps.sat (\<lambda>w. known_task task (judging w)) (submissionRequestEvent d task) (\<lambda>_ _. True)"
  unfolding submissionRequestEvent_def Let_def
  by (rule steps.sat_option, rule steps.sat_fail, rule steps.sat_bind_pure [OF stable_known],
      rule steps_read_pure [OF assms, where B = "\<lambda>r. Some (su_ID r) = ta_SubmissionID task"], simp add: GetSubmission_id)
    (intro steps.sat_then [OF stable_known] steps_source_and_language steps_read_pure steps_now steps_mark_running
      steps_valid_event steps_ensure assms stable_known steps.sat_prod; simp)

lemma steps_run_event:
  assumes "\<And>w. evolves w (td_others d w)" and "ta_RunID task \<noteq> None \<Longrightarrow> ta_SubmissionID task = None"
  shows "steps.sat (\<lambda>w. known_task task (judging w)) (runRequestEvent d task) (\<lambda>_ _. True)"
  unfolding runRequestEvent_def Let_def
  by (rule steps.sat_option, rule steps.sat_fail)
    (intro steps.sat_then [OF stable_known] steps_source_and_language steps_read_pure steps_now steps_mark_running
      steps_valid_event steps_ensure assms(1) stable_known steps.sat_prod; use assms(2) in simp)

lemma steps_publish_task:
  assumes "\<And>w. evolves w (td_others d w)" and "steps.stable P" and "steps.sat P (build task) (\<lambda>_ _. True)"
  shows "steps.sat P (publish_task d target build task) (\<lambda>_ _. True)"
  unfolding publish_task_def
  by (intro steps.sat_then [OF assms(2)] assms(3) steps.sat_try_then [OF assms(2)] steps_queue [OF assms(1)] steps_now
      steps_calls [OF assms(1)] sat_intros; simp)

lemma claimed_known:
  assumes "claim_tasks kind n s = Inr (tasks, s')" and "t \<in> set tasks"
  shows "known_task t s'"
proof -
  from assms obtain x where "x \<in> set (db_tasks s)" "t = x\<lparr>ta_Status := ''dispatching'', ta_UpdatedAt := db_now s\<rparr>"
    by (auto simp: claim_tasks_def Let_def)
  then have "(ta_ID t, ta_SubmissionID t, ta_RunID t) \<in> set (task_keys s)" by (force simp: task_keys_def)
  with keepsD [OF keeps_keys_tasks(1) assms(1)] show ?thesis by (simp add: known_task_def)
qed

lemma steps_loop:
  fixes d :: "'q task_dispatcher"
  assumes "\<And>w. evolves w (td_others d w)" and "\<And>t. t \<in> set tasks \<Longrightarrow> known_task t (judging w)"
    and "\<And>t. t \<in> set tasks \<Longrightarrow> steps.sat (\<lambda>w. known_task t (judging w)) (build t) (\<lambda>_ _. True)"
  shows "evolves w (snd (publish d tasks target build w))"
  unfolding publish_def
proof (rule steps.loop_evolves [where P = "\<lambda>w. \<forall>t \<in> set tasks. known_task t (judging w)"])
  show "steps.stable (\<lambda>w :: 'q world. \<forall>t \<in> set tasks. known_task t (judging w))"
    using stable_known unfolding steps.stable_def by blast
  fix t assume t: "t \<in> set tasks"
  show "steps.sat (\<lambda>w. \<forall>t \<in> set tasks. known_task t (judging w)) (publish_task d target build t) (\<lambda>_ _. True)"
    by (rule steps.sat_weaken [OF steps_publish_task [where task = t and build = build, OF assms(1) stable_known assms(3) [OF t]]]) (use t in auto)
qed (use assms(2) in blast)

text \<open>A claim is a lifecycle step after which every claimed task is known, also once the others had their turn.\<close>

lemma store_call_claim:
  fixes others :: "'q world \<Rightarrow> 'q world"
  assumes "\<And>w. evolves w (others w)" and "store_call others claim w = (r, w')"
    and "\<And>s. claim s = WithTx (claim_tasks kind n) s" and "\<And>s. snd (claim s) = perform op s" and "\<And>s. permitted op s"
  shows "evolves w w' \<and> (\<forall>tasks. r = Inr tasks \<longrightarrow> (\<forall>t \<in> set tasks. known_task t (judging w')))"
proof -
  have "steps.sat (\<lambda>_. True) (store_call others claim) (\<lambda>tasks w. \<forall>t \<in> set tasks. known_task t (judging w))"
  proof (rule steps_store [OF assms(1) _ assms(4,5)])
    show "steps.stable (\<lambda>w :: 'q world. \<forall>t \<in> set tasks. known_task t (judging w))" for tasks
      using stable_known unfolding steps.stable_def by blast
    fix w :: "'q world" and tasks s assume "claim (judging w) = (Inr tasks, s)"
    then show "\<forall>t \<in> set tasks. known_task t s" using claimed_known unfolding assms(3) WithTx_Inr by blast
  qed
  from steps.sat_run [OF this _ assms(2)] show ?thesis by simp
qed

lemma dispatch_evolves:
  fixes d :: "'q task_dispatcher"
  assumes "\<And>w. evolves w (td_others d w)"
  shows "evolves w (snd (dispatchSubmissions d n w))"
    and "single_subjects (judging w) \<Longrightarrow> evolves w (snd (dispatchRuns d n w))"
proof -
  obtain r w' where c: "store_call (td_others d) (ClaimPendingJudgeTasks n) w = (r, w')" by (rule prod.exhaust)
  from store_call_claim [OF assms c, where op = "ClaimTasks n"]
  have ev: "evolves w w'" and known: "\<And>tasks t. r = Inr tasks \<Longrightarrow> t \<in> set tasks \<Longrightarrow> known_task t (judging w')"
    by (auto simp: ClaimPendingJudgeTasks_def q_ClaimPendingJudgeTasks_def)
  have "evolves w' (snd (publish d tasks q (submissionRequestEvent d) w'))" if "r = Inr tasks" for tasks q
    by (rule steps_loop [OF assms known [OF that] steps_submission_event [OF assms]])
  with c ev show "evolves w (snd (dispatchSubmissions d n w))"
    by (cases r) (auto simp: dispatchSubmissions_def intro: steps.evolves_trans)
next
  assume single: "single_subjects (judging w)"
  obtain r w' where c: "store_call (td_others d) (ClaimPendingRunTasks n) w = (r, w')" by (rule prod.exhaust)
  from store_call_claim [OF assms c, where op = "ClaimRunTasks n"]
  have ev: "evolves w w'" and known: "\<And>tasks t. r = Inr tasks \<Longrightarrow> t \<in> set tasks \<Longrightarrow> known_task t (judging w')"
    by (auto simp: ClaimPendingRunTasks_def q_ClaimPendingRunTasks_def)
  have "single_subjects (judging w')" by (rule steps.stableD [OF stable_single single ev])
  then have "ta_SubmissionID t = None" if "r = Inr tasks" "t \<in> set tasks" "ta_RunID t \<noteq> None" for tasks t
    using known [OF that(1,2)] that(3) by (auto simp: single_subjects_def known_task_def one_subject_def)
  then have "evolves w' (snd (publish d tasks q (runRequestEvent d) w'))" if "r = Inr tasks" for tasks q
    using that by (intro steps_loop [OF assms known [OF that]] steps_run_event [OF assms]) auto
  with c ev show "evolves w (snd (dispatchRuns d n w))"
    by (cases r) (auto simp: dispatchRuns_def steps.evolves_refl intro: steps.evolves_trans split: option.splits)
qed

lemma DispatchPending_evolves:
  fixes d :: "'q task_dispatcher"
  assumes "\<And>w. evolves w (td_others d w)" and "single_subjects (judging w)"
  shows "evolves w (snd (DispatchPending d n w))"
proof -
  let ?n = "if sint n \<le> 0 then 16 else n"
  obtain k r w' where s: "dispatchSubmissions d ?n w = ((k, r), w')" by (metis surj_pair)
  obtain m r' w'' where t: "dispatchRuns d ?n w' = ((m, r'), w'')" by (metis surj_pair)
  from dispatch_evolves(1) [OF assms(1), where w = w and n = ?n] s have ev: "evolves w w'" by simp
  have "single_subjects (judging w')" by (rule steps.stableD [OF stable_single assms(2) ev])
  from dispatch_evolves(2) [OF assms(1) this, where n = ?n] t have "evolves w' w''" by simp
  with ev s t show ?thesis
    by (cases r) (simp_all add: DispatchPending_def Let_def, blast intro: steps.evolves_trans)
qed

subsection \<open>The processor\<close>

lemma complete_submission_judged:
  assumes "complete_submission sid result s = Inr (row, s')"
  shows "judged sid s'"
proof -
  from assms obtain sub where rec: "List.find (\<lambda>r. su_ID r = sid) (db_submissions s) = Some sub"
    by (auto simp: complete_submission_def bind_tx_Inr q_LockSubmissionByID_def select_row_Inr)
  from find_Some_set [OF this] have sub: "sub \<in> set (db_submissions s)" "su_ID sub = sid" by auto
  show ?thesis
  proof (cases "terminalStatus (su_Status sub)")
    case True
    with assms rec sub show ?thesis
      by (auto simp: complete_submission_def bind_tx_Inr q_LockSubmissionByID_def select_row_Inr return_tx_Inr judged_def)
  next
    case False
    with assms rec obtain lock s1 updated s2 where
      lock: "lockContestProblemProjection sub s = Inr (lock, s1)"
      and upd: "or_no_rows (q_UpdateSubmissionStatus sid (dbStatus (jr_Verdict result)) (int4 (jr_TimeMS result))
                  (int4 (jr_MemoryKB result)) (text_param (jr_ErrorMessage result))
                  (judgedAtParam (jr_JudgedAt result))) s1 = Inr (updated, s2)"
      and rest: "(case updated of None \<Rightarrow> q_GetSubmissionByID sid
         | Some row \<Rightarrow> bind_tx (persistJudgeResult row result) (\<lambda>_.
             bind_tx (rebuildContestProblemResult row lock) (\<lambda>_. return_tx row))) s2 = Inr (row, s')"
      by (auto simp: complete_submission_def bind_tx_Inr q_LockSubmissionByID_def select_row_Inr Let_def)
    have "judging_tables s1 = judging_tables s" by (rule keepsD [OF keeps_projection_tables(1) lock])
    then have s1: "db_submissions s1 = db_submissions s" by (simp add: judging_tables_def)
    from UpdateSubmissionStatus_effect [OF upd] rec False s1 obtain r where
      r: "updated = Some (judged_row result (dbStatus (jr_Verdict result)) (db_now s1) r)" "r \<in> set (db_submissions s)" "su_ID r = sid"
      and s2: "db_submissions s2 = update_rows (\<lambda>r. su_ID r = sid \<and> \<not> terminalStatus (su_Status r))
                 (judged_row result (dbStatus (jr_Verdict result)) (db_now s1)) (db_submissions s)" by auto
    have "keeps db_submissions (case updated of None \<Rightarrow> q_GetSubmissionByID sid
         | Some row \<Rightarrow> bind_tx (persistJudgeResult row result) (\<lambda>_.
             bind_tx (rebuildContestProblemResult row lock) (\<lambda>_. return_tx row)))"
      unfolding q_GetSubmissionByID_def
      by (intro keeps_option keeps_bind keeps_return keeps_select keeps_submissions_attempts(2) keeps_projection(2) [THEN keeps_submissions])
    from keepsD [OF this rest] s2 sub False
    have "judged_row result (dbStatus (jr_Verdict result)) (db_now s1) sub \<in> set (db_submissions s')"
      by (auto simp: set_update_rows)
    then show ?thesis unfolding judged_def by (rule bexI [rotated]) (simp add: sub(2) terminal_dbStatus)
  qed
qed

abbreviation handling :: "judge_task_row \<Rightarrow> 'q world \<Rightarrow> bool" where
  "handling t w \<equiv> known_task t (judging w) \<and> lifecycle_inv {} (judging w)"

lemma stable_handling: "calm.stable (handling t)"
  by (intro calm.stable_conj calm_stable stable_known stable_inv)

lemma calm_retryOrDead:
  assumes "\<And>w. calmly w (fh_others h w)" and "calm.stable P"
  shows "calm.sat P (retryOrDead h message task cause) (\<lambda>_ _. True)"
  unfolding retryOrDead_def Let_def
  by (intro sat_intros calm.sat_then [OF assms(2)] calm_calls [OF assms(1)] calm_queue [OF assms(1)] calm_now; simp)

lemma calm_read_any:
  assumes "\<And>w. calmly w (others w)"
  shows "calm.sat P (read_call others f) (\<lambda>_ _. True)"
  by (rule calm_read) (use assms in auto)

lemma calm_completeSubmission:
  fixes others :: "'q world \<Rightarrow> 'q world"
  assumes "\<And>w. calmly w (others w)" and "calm.stable P"
  shows "calm.sat P (completeSubmission others sid result) (\<lambda>_ w. judged sid (judging w))"
  unfolding completeSubmission_def
proof (rule calm.sat_bind [OF assms(2), where Q = "\<lambda>r w. terminalStatus (su_Status r) \<longrightarrow> judged sid (judging w)"])
  show "calm.sat P (read_call others (\<lambda>w q. GetSubmission sid (wd_judging w)))
     (\<lambda>r w. terminalStatus (su_Status r) \<longrightarrow> judged sid (judging w))"
  proof (rule calm_read [OF assms(1)])
    show "calm.stable (\<lambda>w :: 'q world. terminalStatus (su_Status r) \<longrightarrow> judged sid (judging w))" for r
      using stable_judged unfolding calm.stable_def by blast
  qed (auto simp: judged_def dest: GetSubmission_id)
  have c: "calm.sat P' (store_call others (CompleteSubmissionWithResult sid result)) (\<lambda>_ w. judged sid (judging w))" for P'
    by (rule calm_store [OF assms(1) stable_judged, where op = "CompleteSubmission sid result"])
      (auto simp: CompleteSubmissionWithResult_def WithTx_Inr intro: complete_submission_judged)
  show "calm.sat (\<lambda>w. P w \<and> (terminalStatus (su_Status r) \<longrightarrow> judged sid (judging w)))
      (if terminalStatus (su_Status r) then return_act r else store_call others (CompleteSubmissionWithResult sid result))
      (\<lambda>_ w. judged sid (judging w))" for r
    by (intro sat_intros c) simp
qed

lemma calm_judge_task_body:
  assumes "\<And>w. calmly w (tp_others p w)" and "calm.stable P"
  shows "calm.sat P (judge_task_body p submission) (\<lambda>_ w. judged (su_ID submission) (judging w))"
  unfolding judge_task_body_def
  by (intro calm.sat_then [OF assms(2)] calm_read_any [OF assms(1)] calm_queue [OF assms(1)] calm_completeSubmission assms
      calm_calls [OF assms(1)] sat_intros; simp)

lemma calm_ack: "(\<And>w. calmly w (tp_others p w)) \<Longrightarrow> calm.stable P \<Longrightarrow> calm.sat P (ack_as p message o1) (\<lambda>_ _. True)"
  unfolding ack_as_def by (rule calm.sat_then) (auto intro: calm_queue sat_intros)

lemma calm_task_done:
  assumes "\<And>w. calmly w (tp_others p w)" and "ta_SubmissionID task = Some sid"
  shows "calm.sat (\<lambda>w. handling task w \<and> judged sid (judging w))
     (bind_act (store_call (tp_others p) (MarkJudgeTaskDone (ta_ID task))) (\<lambda>_. ack_as p message o1)) (\<lambda>_ _. True)"
proof -
  have stable: "calm.stable (\<lambda>w :: 'q world. handling task w \<and> judged sid (judging w))"
    by (intro calm.stable_conj stable_handling stable_judged)
  show ?thesis
    by (rule calm.sat_then [OF stable _ calm_ack [OF assms(1) stable]],
        rule calm_store [OF assms(1), where op = "TaskDone (ta_ID task)" and Q = "\<lambda>_ _. True"])
      (use assms(2) in \<open>auto intro: judged_permits_done\<close>)
qed

lemma calm_process_submission:
  fixes p :: "'q task_processor"
  assumes ev: "\<And>w. calmly w (tp_others p w)" and ev': "\<And>w. calmly w (fh_others (tp_failures p) w)"
    and sid: "ta_SubmissionID task = Some (su_ID r)"
  shows "calm.sat (\<lambda>w. handling task w \<and> (terminalStatus (su_Status r) \<longrightarrow> judged (su_ID r) (judging w)))
     (process_submission p message task r) (\<lambda>_ _. True)"
proof (cases "terminalStatus (su_Status r)")
  case True
  with calm_task_done [OF ev sid] show ?thesis by (simp add: process_submission_def)
next
  case False
  have "calm.sat (handling task) (process_submission p message task r) (\<lambda>_ _. True)"
    using calm_judge_task_body [OF ev stable_handling, of task r] calm_task_done [OF ev sid] False
    by (auto simp: process_submission_def intro!: calm.sat_then [OF stable_handling] calm_calls [OF ev]
        calm.sat_try [OF stable_handling _ calm_retryOrDead [OF ev' stable_handling]])
  with False show ?thesis by simp
qed

lemma calm_process_task:
  fixes p :: "'q task_processor"
  assumes ev: "\<And>w. calmly w (tp_others p w)" and ev': "\<And>w. calmly w (fh_others (tp_failures p) w)"
  shows "calm.sat (handling task) (process_task p message task) (\<lambda>_ _. True)"
proof -
  have "calm.sat (handling task) (try_act (read_call (tp_others p) (\<lambda>w q. GetSubmission sid (wd_judging w)))
      (retryOrDead (tp_failures p) message task) (process_submission p message task)) (\<lambda>_ _. True)"
    if sid: "ta_SubmissionID task = Some sid" for sid
  proof (rule calm.sat_try [OF stable_handling _ calm_retryOrDead [OF ev' stable_handling],
        where Q = "\<lambda>r w. su_ID r = sid \<and> (terminalStatus (su_Status r) \<longrightarrow> judged sid (judging w))"])
    show "calm.sat (handling task) (read_call (tp_others p) (\<lambda>w q. GetSubmission sid (wd_judging w)))
       (\<lambda>r w. su_ID r = sid \<and> (terminalStatus (su_Status r) \<longrightarrow> judged sid (judging w)))"
    proof (rule calm_read [OF ev])
      show "calm.stable (\<lambda>w :: 'q world. su_ID r = sid \<and> (terminalStatus (su_Status r) \<longrightarrow> judged sid (judging w)))" for r
        using stable_judged unfolding calm.stable_def by blast
    qed (auto simp: judged_def dest: GetSubmission_id)
    show "calm.sat (\<lambda>w. handling task w \<and> su_ID r = sid \<and> (terminalStatus (su_Status r) \<longrightarrow> judged sid (judging w)))
       (process_submission p message task r) (\<lambda>_ _. True)" for r
      using calm_process_submission [OF ev ev', of task r message] sid by (cases "su_ID r = sid") (auto simp: calm.sat_def)
  qed
  then show ?thesis
    unfolding process_task_def by (intro sat_intros calm_ack [OF ev] stable_handling) auto
qed

lemma calm_ProcessMessage:
  fixes p :: "'q task_processor"
  assumes ev: "\<And>w. calmly w (tp_others p w)" and ev': "\<And>w. calmly w (fh_others (tp_failures p) w)"
  shows "calm.sat (\<lambda>w. lifecycle_inv {} (judging w)) (ProcessMessage p message) (\<lambda>_ _. True)"
proof -
  have stable: "calm.stable (\<lambda>w :: 'q world. lifecycle_inv {} (judging w))" by (intro calm_stable stable_inv)
  have known: "known_task t s" if "GetJudgeTask tid s = Inr t" for tid s t
  proof -
    from that have "t \<in> set (db_tasks s)"
      by (auto simp: GetJudgeTask_def WithTx_def q_GetJudgeTaskByID_def select_row_def dest: find_Some_set split: option.splits)
    then show ?thesis by (force simp: known_task_def task_keys_def)
  qed
  have "calm.sat (\<lambda>w. lifecycle_inv {} (judging w)) (processMessage p message) (\<lambda>_ _. True)"
    unfolding processMessage_def
    by (rule calm.sat_bind [OF stable, where Q = "\<lambda>t w. known_task t (judging w)"],
        rule calm_read [OF ev calm_stable [OF stable_known]], simp add: known)
      (rule calm.sat_weaken [OF calm_process_task [OF ev ev']], auto)
  then show ?thesis unfolding ProcessMessage_def by (intro calm.sat_then [OF stable] sat_intros) auto
qed

subsection \<open>The whole worker\<close>

record 'q soj_worker =
  sw_dispatcher :: "'q task_dispatcher"
  sw_processor :: "'q task_processor"
  sw_Consume :: "'q \<Rightarrow> request_event message list res \<times> 'q"
  sw_ClaimStale :: "'q \<Rightarrow> request_event message list res \<times> 'q"

text \<open>
  The calls of the loops of the worker process. Between two of them the others take any lifecycle steps,
  rejudges and recoveries included; inside them they run before each call to the store or the queue.
\<close>

inductive worker_step :: "'q soj_worker \<Rightarrow> 'q world \<Rightarrow> 'q world \<Rightarrow> bool" for sw where
  dispatch: "worker_step sw w (snd (DispatchPending (sw_dispatcher sw) n w))"
| consume: "worker_step sw w (snd (ConsumeOnce (sw_processor sw) (sw_Consume sw) w))"
| reconcile: "worker_step sw w (snd (reconcile_round (sw_processor sw) (sw_ClaimStale sw) (return_act ()) w))"
| others: "evolves w w' \<Longrightarrow> worker_step sw w w'"

text \<open>
  What is asked of the others inside a call: lifecycle steps only, and while the processor or the reconciler
  handles messages none that reopens a verdict.
\<close>

definition calm_others :: "'q soj_worker \<Rightarrow> bool" where
  "calm_others sw \<longleftrightarrow> (\<forall>w. evolves w (td_others (sw_dispatcher sw) w) \<and> calmly w (tp_others (sw_processor sw) w)
     \<and> calmly w (fh_others (tp_failures (sw_processor sw)) w))"

lemma calm_othersD:
  assumes "calm_others sw"
  shows "evolves w (td_others (sw_dispatcher sw) w)" and "calmly w (tp_others (sw_processor sw) w)"
    and "calmly w (fh_others (tp_failures (sw_processor sw)) w)"
  using assms unfolding calm_others_def by blast+

lemma calm_messages:
  fixes p :: "'q task_processor"
  assumes "\<And>w. calmly w (tp_others p w)" and "\<And>w. calmly w (fh_others (tp_failures p) w)" and inv: "lifecycle_inv {} (judging w)"
  shows "calmly w (snd (case queue_call (tp_others p) f w of
        (Inl e, w') \<Rightarrow> ((0, Inl e), w')
      | (Inr messages, w') \<Rightarrow> loop_act (ProcessMessage p) 0 messages w'))"
proof -
  obtain r w' where q: "queue_call (tp_others p) f w = (r, w')" by (rule prod.exhaust)
  from calm.sat_run [OF calm_queue [OF assms(1)] _ q, of "\<lambda>_. True"] have ev: "calmly w w'" by simp
  have inv': "lifecycle_inv {} (judging w')" by (rule calm.stableD [OF calm_stable [OF stable_inv] inv ev])
  have "calmly w' (snd (loop_act (ProcessMessage p) 0 messages w'))" for messages
    by (rule calm.loop_evolves [OF calm_stable [OF stable_inv] calm_ProcessMessage [OF assms(1,2)] inv'])
  with q ev show ?thesis by (cases r) (auto intro: calm.evolves_trans)
qed

lemma calm_stale_runs:
  fixes others :: "'q world \<Rightarrow> 'q world"
  assumes "\<And>w. calmly w (others w)" and "calm.stable P"
  shows "calm.sat P (MarkStaleRuns others maxAge) (\<lambda>_ _. True)"
proof -
  have "calm.sat P (store_call others (MarkStaleRunsSystemError before why)) (\<lambda>_ _. True)" for before why
    unfolding store_call_def
    by (rule calm.sat_call [OF assms(1)])
      (auto simp: MarkStaleRunsSystemError_def WithTx_def q_MarkStaleRunsSystemError_def calmly_def verdicts_kept_def
        judging_tables_def Let_def intro!: evolves_elsewhere split: prod.splits sum.splits)
  then show ?thesis unfolding MarkStaleRuns_def by (intro calm.sat_then [OF assms(2)] calm_now sat_intros) auto
qed

lemma calm_stale_tasks:
  fixes others :: "'q world \<Rightarrow> 'q world"
  assumes "\<And>w. calmly w (others w)" and "calm.stable P"
  shows "calm.sat P (ResetStaleTasks others maxAge) (\<lambda>_ _. True)"
proof -
  have "calm.sat P (store_call others (ResetStaleJudgeTasks before why)) (\<lambda>_ _. True)" for before why
    by (rule calm_store_free [OF assms(1), where op = "ResetStale before why"]) auto
  then show ?thesis unfolding ResetStaleTasks_def by (intro calm.sat_then [OF assms(2)] calm_now sat_intros) auto
qed

lemma calm_reconcile:
  fixes p :: "'q task_processor"
  assumes ev: "\<And>w. calmly w (tp_others p w)" "\<And>w. calmly w (fh_others (tp_failures p) w)" and inv: "lifecycle_inv {} (judging w)"
  shows "calmly w (snd (reconcile_round p claimStale (return_act ()) w))"
proof -
  obtain k r v where c: "ClaimStaleTasks p claimStale w = ((k, r), v)" by (metis surj_pair)
  from calm_messages [OF ev inv, of claimStale] c have wv: "calmly w v" by (simp add: ClaimStaleTasks_def)
  have "calm.sat (\<lambda>_. True) (bind_act (ResetStaleTasks (tp_others p) (30 * Minute)) (\<lambda>_.
         bind_act (MarkStaleRuns (tp_others p) (30 * Minute)) (\<lambda>_. return_act ()))) (\<lambda>_ _. True)"
    by (intro calm.sat_then calm_stale_tasks calm_stale_runs ev sat_intros) auto
  from calm.satD [OF this, of v] wv c show ?thesis
    by (cases r) (auto simp: reconcile_round_def intro: calm.evolves_trans)
qed

lemma worker_step_evolves:
  assumes "worker_step sw w w'" and "calm_others sw" and "lifecycle_inv {} (judging w)" and "single_subjects (judging w)"
  shows "evolves w w'"
  using assms(1)
proof cases
  case (dispatch n)
  with DispatchPending_evolves [OF calm_othersD(1) [OF assms(2)] assms(4)] show ?thesis by simp
next
  case consume
  with calm_messages [OF calm_othersD(2) [OF assms(2)] calm_othersD(3) [OF assms(2)] assms(3), of "sw_Consume sw"] show ?thesis
    by (simp add: ConsumeOnce_def calmly_def)
next
  case reconcile
  with calm_reconcile [OF calm_othersD(2) [OF assms(2)] calm_othersD(3) [OF assms(2)] assms(3), of "sw_ClaimStale sw"] show ?thesis
    by (simp add: calmly_def)
next
qed

lemma worker_run_evolves:
  assumes "(worker_step sw)\<^sup>*\<^sup>* w w'" and "calm_others sw" and "lifecycle_inv {} (judging w)" and "single_subjects (judging w)"
  shows "evolves w w'"
  using assms(1)
proof (induction rule: rtranclp_induct)
  case (step y z)
  from steps.stableD [OF stable_inv assms(3) step.IH] steps.stableD [OF stable_single assms(4) step.IH]
  have "evolves y z" by (rule worker_step_evolves [OF step.hyps(2) assms(2)])
  with step.IH show ?case by (rule steps.evolves_trans)
qed (rule steps.evolves_refl)

text \<open>
  C5: The worker implements the submission lifecycle, provided nobody reopens a verdict while it handles
  messages. Its dispatches, message batches and reconciliation rounds follow each other in any order; between
  them other processes take any lifecycle steps, rejudges and recoveries included; inside a dispatch
  others take any lifecycle steps before each call; inside a message batch or a reconciliation round they
  take lifecycle steps that start no rejudge and recover no dead task, so that a verdict the processor has
  seen still stands when it marks the task done (\<open>calm_others\<close>). Then, from a store with nothing submitted,
  the judging tables only move along the lifecycle: every state the worker reaches is a lifecycle state,
  and in it each submission without a verdict has a task that is still open.
\<close>

theorem worker_refines_lifecycle:
  assumes "lifecycle_step\<^sup>*\<^sup>* s0 (judging w)" and "nothing_submitted s0"
    and "calm_others sw" and "(worker_step sw)\<^sup>*\<^sup>* w w'"
  shows "lifecycle_step\<^sup>*\<^sup>* s0 (judging w')
     \<and> (\<forall>r \<in> set (db_submissions (judging w')). \<not> terminalStatus (su_Status r) \<longrightarrow>
          (\<exists>t \<in> set (db_tasks (judging w')). ta_SubmissionID t = Some (su_ID r) \<and> task_open t))"
proof -
  have "single_subjects s0" using assms(2) by (simp add: single_subjects_def task_keys_def nothing_submitted_def)
  from single_subjects_steps [OF this assms(1)] have "single_subjects (judging w)" .
  from worker_run_evolves [OF assms(4,3) reachable_inv [OF assms(1,2)] this]
  have run: "lifecycle_step\<^sup>*\<^sup>* s0 (judging w')" using assms(1) by (auto simp: evolves_def)
  from reachable_inv [OF this assms(2)] run show ?thesis
    by (auto simp: lifecycle_inv_def waiting_def served_def subset_iff)
qed

subsection \<open>A worker that runs alone\<close>

text \<open>The queue is the list of what was published.\<close>

type_synonym outbox = "(int64 \<times> request_event) list"

definition sample_dispatcher :: "outbox task_dispatcher" where
  "sample_dispatcher = \<lparr>td_others = id, td_queue = (\<lambda>tid e q. (Inr ''1-0'', q @ [(tid, e)])), td_runQueue = None,
     td_backoff = defaultJudgeTaskBackoff, td_span = None\<rparr>"

definition sample_failures :: "outbox failure_handler" where
  "sample_failures = NewTaskFailureHandler id (\<lambda>m why q. (Inr (), q)) (\<lambda>mid q. (Inr (), q)) 0 None"

definition sample_processor :: "outbox task_processor" where
  "sample_processor = \<lparr>tp_others = id, tp_failures = sample_failures, tp_Ack = (\<lambda>mid q. (Inr (), q)),
     tp_Judge = (\<lambda>rq q. (Inl (ErrText ''judge engine unavailable''), q)), tp_parser = \<lparr>pp_lower = id, pp_iter = id\<rparr>,
     tp_objects = None, tp_sources = (\<lambda>key q. Inr ''int main() {}'')\<rparr>"

definition sample_worker :: "outbox soj_worker" where
  "sample_worker = \<lparr>sw_dispatcher = sample_dispatcher, sw_processor = sample_processor,
     sw_Consume = (\<lambda>q. (Inr [], q)), sw_ClaimStale = (\<lambda>q. (Inr [], q))\<rparr>"

definition sample_artifact :: artifact_row where
  "sample_artifact = \<lparr>af_ID = 5, af_OwnerType = ''submission'', af_OwnerID = 1, af_Kind = ''source'', af_StorageKey = ''submission/1/c'',
     af_ChecksumSha256 = ''c'', af_SizeBytes = 13, af_ContentType = ''text/plain'', af_CreatedAt = 900\<rparr>"

definition sample_language :: "bool \<Rightarrow> language_row" where
  "sample_language on = \<lparr>la_ID = 3, la_Engine = EngineSOJAgent, la_EngineLanguageID = ''cpp17'', la_Name = ''C++17'', la_Version = None,
     la_CompileCommand = None, la_RunCommand = None, la_DefaultTimeLimitMs = 1000, la_DefaultMemoryLimitKb = 262144,
     la_Enabled = on, la_CreatedAt = 1, la_UpdatedAt = 1\<rparr>"

definition sample_site :: "bool \<Rightarrow> store \<Rightarrow> site" where
  "sample_site on s = \<lparr>wd_judging = s, wd_artifacts = [sample_artifact], wd_languages = [sample_language on],
     wd_problems = sample_problem_store StatusPublished, wq_artifacts = 6, wq_languages = 4\<rparr>"

text \<open>One submission to problem 7, waiting to be dispatched.\<close>

definition submitted :: store where
  "submitted = perform (operation.Submit (sample_submission_input\<lparr>si_ProblemID := 7\<rparr>) 0) empty_store"

lemma submitted_reachable: "lifecycle_step\<^sup>*\<^sup>* empty_store submitted" "nothing_submitted empty_store"
proof -
  have "lifecycle_step empty_store submitted"
    using operate [of "operation.Submit (sample_submission_input\<lparr>si_ProblemID := 7\<rparr>) 0" empty_store] by (simp add: submitted_def)
  then show "lifecycle_step\<^sup>*\<^sup>* empty_store submitted" by blast
  show "nothing_submitted empty_store" by (simp add: nothing_submitted_def empty_store_def)
qed

theorem worker_refines_lifecycle_witness:
  "(let w' = snd (DispatchPending sample_dispatcher 16 (sample_site True submitted, [])) in
    lifecycle_step\<^sup>*\<^sup>* empty_store (judging w') \<and> map fst (snd w') = [1]
    \<and> map su_Status (db_submissions (judging w')) = [''running''] \<and> map ta_Status (db_tasks (judging w')) = [''dispatched''])"
proof -
  let ?w = "(sample_site True submitted, []) :: outbox world"
  have "calm_others sample_worker"
    by (simp add: calm_others_def sample_worker_def sample_dispatcher_def sample_processor_def sample_failures_def
        NewTaskFailureHandler_def calm.evolves_refl steps.evolves_refl)
  moreover have "worker_step sample_worker ?w (snd (DispatchPending sample_dispatcher 16 ?w))"
    using worker_step.dispatch [of sample_worker ?w 16] by (simp add: sample_worker_def)
  moreover have "judging ?w = submitted" by (simp add: sample_site_def)
  ultimately have "lifecycle_step\<^sup>*\<^sup>* empty_store (judging (snd (DispatchPending sample_dispatcher 16 ?w)))"
    using worker_refines_lifecycle [of empty_store ?w sample_worker] submitted_reachable by (metis r_into_rtranclp)
  moreover have "map fst (snd (snd (DispatchPending sample_dispatcher 16 ?w))) = [1]" by code_simp
  moreover have "map su_Status (db_submissions (judging (snd (DispatchPending sample_dispatcher 16 ?w)))) = [''running'']" by code_simp
  moreover have "map ta_Status (db_tasks (judging (snd (DispatchPending sample_dispatcher 16 ?w)))) = [''dispatched'']" by code_simp
  ultimately show ?thesis by (simp add: Let_def)
qed

end
