(* ===== verification/Worker_Outcomes.thy ===== *)
theory Worker_Outcomes
  imports Worker_Refinement
begin

section \<open>What becomes of a task that fails\<close>

text \<open>
  Two outcomes of the worker when no other process interferes. A task of a submission outside a contest, whose
  judging fails each time, is retried and finally given up: its submission gets a verdict. A task whose request cannot even be built stops the whole
  batch: the error is returned before the task is retried, and every task the batch has claimed stays in
  \<^verbatim>\<open>dispatching\<close> until the reconciler resets it.
\<close>

subsection \<open>Calls that leave the tasks alone\<close>

definition unfinished :: "int64 \<Rightarrow> store \<Rightarrow> bool" where
  "unfinished sid s \<longleftrightarrow> (\<exists>r. List.find (\<lambda>r. su_ID r = sid) (db_submissions s) = Some r
     \<and> \<not> terminalStatus (su_Status r) \<and> su_ContestID r = None)"

text \<open>
  What the calls of a dispatcher that is building a request, and those of a processor that is judging,
  leave alone: the tasks, that a submission is unfinished, and the queue or the rejudge items.
\<close>

definition quietly :: "bool \<Rightarrow> 'q world \<Rightarrow> 'q world \<Rightarrow> bool" where
  "quietly building w w' \<longleftrightarrow> db_tasks (judging w') = db_tasks (judging w)
     \<and> (\<forall>sid. unfinished sid (judging w) \<longrightarrow> unfinished sid (judging w'))
     \<and> (if building then snd w' = snd w else db_items (judging w') = db_items (judging w))"

interpretation quiet: rely_guarantee "quietly building" for building
  by unfold_locales (auto simp: quietly_def)

lemma quiet_store:
  fixes P :: "'q world \<Rightarrow> bool"
  assumes "\<And>s r s'. f s = (r, s') \<Longrightarrow> db_tasks s' = db_tasks s \<and> (\<forall>sid. unfinished sid s \<longrightarrow> unfinished sid s')
     \<and> (building \<or> db_items s' = db_items s)"
  shows "quiet.sat building P (store_call id f) (\<lambda>_ _. True)"
  unfolding store_call_def
proof (rule quiet.sat_call)
  fix v v' :: "'q world" and r assume c: "(case v of (w, q) \<Rightarrow> case f (wd_judging w) of (r, s) \<Rightarrow> (r, put_judging s w, q)) = (r, v')"
  then have "f (judging v) = (r, judging v')" "snd v' = snd v" by (cases v; auto split: prod.splits)+
  with assms show "quietly building v v' \<and> (\<forall>x. r = Inr x \<longrightarrow> True)" by (auto simp: quietly_def)
qed (simp_all add: quiet.evolves_refl)

lemma quiet_read: "quiet.sat building P (read_call id f) (\<lambda>_ _. True)"
  unfolding read_call_def by (rule quiet.sat_call) (auto simp: quiet.evolves_refl)

lemma quiet_queue: "quiet.sat False P (queue_call id f) (\<lambda>_ _. True)"
  unfolding queue_call_def by (rule quiet.sat_call) (auto simp: quietly_def split: prod.splits)

lemma quiet_now: "quiet.sat building P now_act (\<lambda>_ _. True)"
  by (auto simp: quiet.sat_def now_act_def quiet.evolves_refl)

lemma find_updated_row:
  assumes "\<And>r. P r \<Longrightarrow> key (f r) = key r"
  shows "List.find (\<lambda>r. key r = k) (update_rows P f rows)
       = map_option (\<lambda>r. if P r then f r else r) (List.find (\<lambda>r. key r = k) rows)"
  unfolding update_rows_def using assms by (induction rows) auto

lemma find_refined: "List.find P xs = Some x \<Longrightarrow> Q x \<Longrightarrow> List.find (\<lambda>y. P y \<and> Q y) xs = Some x"
  by (induction xs) (auto split: if_splits)

lemma unfinished_update:
  assumes "unfinished sid s" and "\<And>r. P r \<Longrightarrow> su_ID (f r) = su_ID r \<and> su_ContestID (f r) = su_ContestID r \<and> \<not> terminalStatus (su_Status (f r))"
  shows "unfinished sid (s\<lparr>db_submissions := update_rows P f (db_submissions s)\<rparr>)"
proof -
  from assms(1) obtain r where r: "List.find (\<lambda>r. su_ID r = sid) (db_submissions s) = Some r" "\<not> terminalStatus (su_Status r)" "su_ContestID r = None"
    by (auto simp: unfinished_def)
  then have "List.find (\<lambda>r. su_ID r = sid) (update_rows P f (db_submissions s)) = Some (if P r then f r else r)"
    using assms(2) by (simp add: find_updated_row [where key = su_ID])
  with r assms(2) [of r] show ?thesis by (simp add: unfinished_def)
qed

lemma quiet_MarkSubmissionRunning: "quiet.sat building P (store_call id (MarkSubmissionRunning sid)) (\<lambda>_ _. True)"
proof (rule quiet_store)
  fix s r s' assume "MarkSubmissionRunning sid s = (r, s')"
  then show "db_tasks s' = db_tasks s \<and> (\<forall>k. unfinished k s \<longrightarrow> unfinished k s') \<and> (building \<or> db_items s' = db_items s)"
    by (auto simp: MarkSubmissionRunning_def WithTx_def q_MarkSubmissionRunning_def update_row_def split: option.splits
        intro!: unfinished_update) (simp add: terminalStatus_def)
qed

lemma keeps_tasks_attempt: "keeps db_tasks (ensureJudgeAttempt input)"
proof -
  have tables: "keeps db_tasks m" if "keeps protocol_tables m" for m :: "'x tx"
    using that by (auto simp: keeps_def protocol_tables_def)
  have reads: "keeps db_tasks m" if "keeps (\<lambda>s. s) m" for m :: "'x tx"
    using that unfolding keeps_def by metis
  note k = keeps_tasks_rows keeps_result_queries [THEN tables]
  have create: "keeps db_tasks (create_attempt input n item)" for n item
    by (rule keeps_at, unfold create_attempt_def, rule refl) (intro keeps_bind keeps_option keeps_return k)
  show ?thesis unfolding ensureJudgeAttempt_def
    by (intro keeps_bind keeps_option keeps_if keeps_return keeps_fail keeps_or_no_rows create k
        keeps_attempt_reads [THEN reads])
qed

lemma quiet_EnsureJudgeAttempt: "quiet.sat True P (store_call id (EnsureJudgeAttempt input)) (\<lambda>_ _. True)"
proof (rule quiet_store)
  fix s r s' assume "EnsureJudgeAttempt input s = (r, s')"
  then have "db_tasks s' = db_tasks s \<and> db_submissions s' = db_submissions s"
    using keepsD [OF keeps_tasks_attempt] keepsD [OF keeps_submissions_attempts(1)]
    by (auto simp: EnsureJudgeAttempt_def WithTx_def split: sum.splits prod.splits)
  then show "db_tasks s' = db_tasks s \<and> (\<forall>sid. unfinished sid s \<longrightarrow> unfinished sid s') \<and> (True \<or> db_items s' = db_items s)"
    by (simp add: unfinished_def)
qed

subsection \<open>A request that cannot be built\<close>

lemmas quiet_then = quiet.sat_then [OF quiet.stable_const]

lemma quiet_mark_running:
  "quiet.sat building (\<lambda>_. True) (when_act b (bind_act (store_call id (MarkSubmissionRunning sid)) (\<lambda>_. return_act ()))) (\<lambda>_ _. True)"
  by (rule quiet.sat_when, rule quiet_then, rule quiet_MarkSubmissionRunning, rule quiet.sat_return, rule TrueI)

lemma quiet_language:
  "quiet.sat building P (case requireLanguageEnabled l of Inl e \<Rightarrow> fail_act e | Inr _ \<Rightarrow> return_act x) (\<lambda>_ _. True)"
  by (rule quiet.sat_sum, rule quiet.sat_fail, rule quiet.sat_return, rule TrueI)

lemma quiet_source_and_language:
  assumes "td_others d = id"
  shows "quiet.sat building (\<lambda>_. True) (source_and_language d a l) (\<lambda>_ _. True)"
  unfolding source_and_language_def assms by (intro quiet_then quiet_read quiet_language)

lemma quiet_valid_event: "quiet.sat building P (valid_event event) (\<lambda>_ _. True)"
  unfolding valid_event_def by (rule quiet.sat_sum, rule quiet.sat_fail, rule quiet.sat_return, rule TrueI)

lemma quiet_submission_event:
  assumes "td_others d = id"
  shows "quiet.sat True (\<lambda>_. True) (submissionRequestEvent d task) (\<lambda>_ _. True)"
  unfolding submissionRequestEvent_def Let_def assms
  by (rule quiet.sat_option, rule quiet.sat_fail)
    (intro quiet_then quiet_read quiet_now quiet_source_and_language [OF assms] quiet_mark_running
      quiet_EnsureJudgeAttempt quiet_valid_event quiet.sat_prod)

lemma claimed_dispatching:
  assumes "ClaimPendingJudgeTasks n s = (Inr tasks, s')" and "t \<in> set tasks"
  shows "t \<in> set (db_tasks s') \<and> ta_Status t = ''dispatching''"
proof -
  from assms(1) obtain P f where f: "tasks = map f (filter P (db_tasks s))" "db_tasks s' = update_rows P f (db_tasks s)"
    and st: "\<And>t. ta_Status (f t) = ''dispatching''"
    unfolding ClaimPendingJudgeTasks_def q_ClaimPendingJudgeTasks_def claim_tasks_def WithTx_Inr Let_def by fastforce
  with assms(2) show ?thesis by (auto simp: set_update_rows)
qed

text \<open>
  A request that cannot be built blocks its batch. When the dispatcher has claimed a batch and the
  request of its first task fails to build (say because the language was disabled after the submission was
  made), it publishes nothing, reports the error and retries nothing: every task of the batch is left in
  \<^verbatim>\<open>dispatching\<close>, where no later claim finds it.
\<close>

theorem unbuildable_task_blocks_batch:
  assumes "td_others d = id" and "sint n > 0"
    and "ClaimPendingJudgeTasks n (wd_judging w) = (Inr (t # ts), s)"
    and "fst (submissionRequestEvent d t (put_judging s w, q)) = Inl e"
  shows "\<exists>w'. DispatchPending d n (w, q) = ((0, Inl e), (w', q))
     \<and> (\<forall>u \<in> set (t # ts). u \<in> set (db_tasks (wd_judging w')) \<and> ta_Status u = ''dispatching'')"
proof -
  obtain v where b: "submissionRequestEvent d t (put_judging s w, q) = (Inl e, v)"
    using assms(4) by (cases "submissionRequestEvent d t (put_judging s w, q)") auto
  from quiet.satD [OF quiet_submission_event [OF assms(1), of t], of "(put_judging s w, q)"] b
  have v: "db_tasks (judging v) = db_tasks s" "snd v = q" by (auto simp: quietly_def)
  have "DispatchPending d n (w, q) = ((0, Inl e), v)"
    using assms(1,2,3) b
    by (simp add: DispatchPending_def dispatchSubmissions_def store_call_def call_def publish_def publish_task_def bind_act_simps)
  with v claimed_dispatching [OF assms(3)] show ?thesis by (intro exI [of _ "fst v"]) (auto simp: prod_eq_iff)
qed

theorem unbuildable_task_blocks_batch_witness:
  "\<exists>e w'. DispatchPending sample_dispatcher 16 (sample_site False submitted, []) = ((0, Inl e), (w', []))
     \<and> ''dispatching'' \<in> ta_Status ` set (db_tasks (wd_judging w'))"
proof -
  let ?c = "ClaimPendingJudgeTasks 16 submitted"
  have "\<not> isl (fst ?c)" "length (projr (fst ?c)) = 1" by code_simp+
  then obtain t where t: "fst ?c = Inr [t]" by (cases "fst ?c") (auto simp: length_Suc_conv)
  then have c: "ClaimPendingJudgeTasks 16 (wd_judging (sample_site False submitted)) = (Inr (t # []), snd ?c)"
    by (simp add: sample_site_def prod_eq_iff)
  have "isl (fst (submissionRequestEvent sample_dispatcher (hd (projr (fst ?c))) (sample_site False (snd ?c), [])))" by code_simp
  moreover have "put_judging s (sample_site False submitted) = sample_site False s" for s by (simp add: sample_site_def)
  ultimately obtain e where e: "fst (submissionRequestEvent sample_dispatcher t (put_judging (snd ?c) (sample_site False submitted), [])) = Inl e"
    by (simp add: t isl_def) blast
  have "td_others sample_dispatcher = id" "sint (16 :: int32) > 0" by (simp_all add: sample_dispatcher_def)
  from unbuildable_task_blocks_batch [OF this c e] obtain w' where
    "DispatchPending sample_dispatcher 16 (sample_site False submitted, []) = ((0, Inl e), (w', []))"
    "t \<in> set (db_tasks (wd_judging w'))" "ta_Status t = ''dispatching''" by auto
  then show ?thesis by force
qed

subsection \<open>A task that keeps failing\<close>

definition task_at :: "(string \<Rightarrow> bool) \<Rightarrow> int64 \<Rightarrow> int64 \<Rightarrow> int32 \<Rightarrow> store \<Rightarrow> bool" where
  "task_at status tid sid attempts s \<longleftrightarrow>
     (\<exists>t. List.find (\<lambda>t. ta_ID t = tid) (db_tasks s) = Some t \<and> status (ta_Status t) \<and> ta_SubmissionID t = Some sid
        \<and> ta_RunID t = None \<and> ta_Attempts t = attempts)
     \<and> unfinished sid s \<and> (\<forall>i \<in> set (db_items s). it_TaskID i = tid \<longrightarrow> \<not> item_active (it_Status i))"

text \<open>
  The rounds of one task: \<open>dispatch\<close> is what takes the pending task to the queue again, \<^verbatim>\<open>processMessage\<close> is what
  the processor does with the message.
\<close>

fun deliveries :: "('q world \<Rightarrow> 'q world) \<Rightarrow> 'q task_processor \<Rightarrow> request_event message \<Rightarrow> nat \<Rightarrow> 'q world
   \<Rightarrow> string res list \<times> 'q world" where
  "deliveries dispatch p message 0 w = ([], w)"
| "deliveries dispatch p message (Suc n) w =
     (case processMessage p message (dispatch w) of (r, w') \<Rightarrow>
        case deliveries dispatch p message n w' of (rs, w'') \<Rightarrow> (r # rs, w''))"

lemma fails_last: "(\<And>x w. isl (fst (k x w))) \<Longrightarrow> isl (fst (bind_act m k w))"
  by (auto simp: bind_act_simps split: prod.splits sum.splits)

lemma fails_first: "(\<And>w. isl (fst (m w))) \<Longrightarrow> isl (fst (bind_act m k w))"
  by (simp add: bind_act_simps split: prod.splits sum.splits) (metis fst_conv isl_def sum.disc(2))

lemma judging_fails:
  assumes "\<And>rq q. isl (fst (tp_Judge p rq q))"
  shows "isl (fst (judge_task_body p r w))"
proof -
  have "isl (fst (queue_call others (tp_Judge p rq) w))" for others rq w
    using assms [of rq "snd w"] by (auto simp: queue_call_def call_def split: prod.splits)
  then show ?thesis unfolding judge_task_body_def by (intro fails_last fails_first)
qed

lemma quiet_judging:
  assumes "tp_others p = id" and "\<And>rq q. isl (fst (tp_Judge p rq q))"
  shows "quiet.sat False (\<lambda>_. True) (judge_task_body p r) (\<lambda>_ _. True)"
proof -
  have "quiet.sat False (\<lambda>_. True) (queue_call id (tp_Judge p rq)) (\<lambda>_ _. False)" for rq
    unfolding queue_call_def
  proof (rule quiet.sat_call)
    fix v v' :: "'a world" and res assume "(case v of (w, q) \<Rightarrow> case tp_Judge p rq q of (r, q') \<Rightarrow> (r, w, q')) = (res, v')"
    with assms(2) [of rq "snd v"] show "quietly False v v' \<and> (\<forall>x. res = Inr x \<longrightarrow> False)"
      by (cases v) (auto simp: quietly_def split: prod.splits)
  qed (simp_all add: quiet.evolves_refl quiet.stable_const)
  then have judge: "quiet.sat False (\<lambda>_. True) (bind_act (queue_call id (tp_Judge p rq)) k) (\<lambda>_ _. True)"
    for rq and k :: "_ \<Rightarrow> ('a world, submission_row) action" by (rule quiet.sat_bind_pure [OF quiet.stable_const]) simp
  show ?thesis unfolding judge_task_body_def assms(1)
    by (intro judge quiet_then quiet_mark_running quiet_read quiet_language)
qed

lemma task_at_tasks:
  assumes "task_at status tid sid a s" and "List.find (\<lambda>t. ta_ID t = tid) tasks = Some t" and "status' (ta_Status t)"
    and "ta_SubmissionID t = Some sid" and "ta_RunID t = None" and "ta_Attempts t = b"
  shows "task_at status' tid sid b (s\<lparr>db_tasks := tasks\<rparr>)"
  using assms by (auto simp: task_at_def unfinished_def)

text \<open>An update of the task by its identity and a condition it meets.\<close>

lemma task_updated:
  assumes "task_at status tid sid a s" and "\<And>t. status (ta_Status t) \<Longrightarrow> ok t" and "\<And>t. ta_ID (f t) = ta_ID t"
    and "\<And>t. ta_Attempts t = a \<Longrightarrow> status' (ta_Status (f t)) \<and> ta_Attempts (f t) = b"
    and "\<And>t. ta_SubmissionID (f t) = ta_SubmissionID t \<and> ta_RunID (f t) = ta_RunID t"
  shows "\<exists>t. update_row db_tasks put_tasks (\<lambda>t. ta_ID t = tid \<and> ok t) f s
       = Inr (f t, s\<lparr>db_tasks := update_rows (\<lambda>t. ta_ID t = tid \<and> ok t) f (db_tasks s)\<rparr>)
     \<and> ta_SubmissionID (f t) = Some sid
     \<and> task_at status' tid sid b (s\<lparr>db_tasks := update_rows (\<lambda>t. ta_ID t = tid \<and> ok t) f (db_tasks s)\<rparr>)"
proof -
  let ?P = "\<lambda>t. ta_ID t = tid \<and> ok t"
  from assms(1) obtain t where t: "List.find (\<lambda>t. ta_ID t = tid) (db_tasks s) = Some t" "status (ta_Status t)"
    "ta_SubmissionID t = Some sid" "ta_RunID t = None" "ta_Attempts t = a" by (auto simp: task_at_def)
  from t(1) have id: "ta_ID t = tid" by (auto simp: find_Some_iff)
  from find_refined [OF t(1), of ok] assms(2) t(2) have "List.find ?P (db_tasks s) = Some t" by simp
  moreover from t id assms(2,3) have "List.find (\<lambda>t. ta_ID t = tid) (update_rows ?P f (db_tasks s)) = Some (f t)"
    by (simp add: find_updated_row [where key = ta_ID])
  from task_at_tasks [OF assms(1) this, of status' b] assms(4,5) t
  have "task_at status' tid sid b (s\<lparr>db_tasks := update_rows ?P f (db_tasks s)\<rparr>)" by simp
  ultimately show ?thesis using t(3) assms(5) by (auto simp: update_row_def)
qed

lemma quiet_task_at: "quietly False w w' \<Longrightarrow> task_at status tid sid a (judging w) \<Longrightarrow> task_at status tid sid a (judging w')"
  by (auto simp: quietly_def task_at_def)

lemma MarkJudgeTaskRunning_at:
  assumes "task_at task_in_flight tid sid a s"
  shows "\<exists>t s'. MarkJudgeTaskRunning tid s = (Inr t, s') \<and> task_at task_in_flight tid sid a s'"
proof -
  let ?f = "\<lambda>t. t\<lparr>ta_Status := ''running'', ta_UpdatedAt := db_now s\<rparr>"
  from task_updated [OF assms, of "\<lambda>t. task_in_flight (ta_Status t)" ?f task_in_flight a] show ?thesis
    by (auto simp: MarkJudgeTaskRunning_def WithTx_def q_MarkJudgeTaskRunning_def)
qed

lemma RetryJudgeTask_at:
  assumes "task_at task_in_flight tid sid a s"
  shows "\<exists>t s'. RetryJudgeTask tid at why s = (Inr t, s') \<and> task_at (\<lambda>st. st = ''pending'') tid sid (a + 1) s'"
proof -
  let ?f = "\<lambda>t. t\<lparr>ta_Status := ''pending'', ta_Attempts := ta_Attempts t + 1, ta_NextRunAt := at,
              ta_LastError := text_param why, ta_UpdatedAt := db_now s\<rparr>"
  from task_updated [OF assms, of "\<lambda>t. task_in_flight (ta_Status t)" ?f "\<lambda>st. st = ''pending''" "a + 1"] show ?thesis
    by (auto simp: RetryJudgeTask_def WithTx_def q_RetryJudgeTask_def)
qed

lemma MarkSubmissionQueued_at:
  assumes "task_at status tid sid a s"
  shows "\<exists>r s'. MarkSubmissionQueued sid why s = (Inr r, s') \<and> task_at status tid sid a s'"
proof -
  let ?P = "\<lambda>r. su_ID r = sid \<and> \<not> terminalStatus (su_Status r)"
  let ?f = "\<lambda>r. r\<lparr>su_Status := ''queued'', su_ErrorMessage := text_param why, su_UpdatedAt := db_now s\<rparr>"
  from assms obtain r where r: "List.find (\<lambda>r. su_ID r = sid) (db_submissions s) = Some r" "\<not> terminalStatus (su_Status r)"
    by (auto simp: task_at_def unfinished_def)
  from r(2) find_refined [OF r(1), of "\<lambda>r. \<not> terminalStatus (su_Status r)"] have "MarkSubmissionQueued sid why s
      = (Inr (?f r), s\<lparr>db_submissions := update_rows ?P ?f (db_submissions s)\<rparr>)"
    by (simp add: MarkSubmissionQueued_def WithTx_def q_MarkSubmissionQueued_def update_row_def)
  moreover have "unfinished sid (s\<lparr>db_submissions := update_rows ?P ?f (db_submissions s)\<rparr>)"
    by (rule unfinished_update) (use assms in \<open>auto simp: task_at_def terminalStatus_def\<close>)
  with assms have "task_at status tid sid a (s\<lparr>db_submissions := update_rows ?P ?f (db_submissions s)\<rparr>)"
    by (simp add: task_at_def)
  ultimately show ?thesis by blast
qed

text \<open>What is left when a task is given up.\<close>

definition given_up :: "int64 \<Rightarrow> int64 \<Rightarrow> store \<Rightarrow> bool" where
  "given_up tid sid s \<longleftrightarrow>
     (\<exists>t. List.find (\<lambda>t. ta_ID t = tid) (db_tasks s) = Some t \<and> ta_Status t = ''dead'')
     \<and> (\<exists>r. List.find (\<lambda>r. su_ID r = sid) (db_submissions s) = Some r \<and> su_Status r = ''system_error'')"

lemma MarkJudgeTaskDead_at:
  assumes "task_at task_in_flight tid sid a s"
  shows "\<exists>t s'. MarkJudgeTaskDead tid why s = (Inr t, s') \<and> given_up tid sid s'"
proof -
  let ?f = "\<lambda>t. t\<lparr>ta_Status := ''dead'', ta_LastError := text_param why, ta_UpdatedAt := db_now s\<rparr>"
  let ?P = "\<lambda>t. ta_ID t = tid \<and> task_in_flight (ta_Status t)"
  let ?s = "s\<lparr>db_tasks := update_rows ?P ?f (db_tasks s)\<rparr>"
  from task_updated [OF assms, of "\<lambda>t. task_in_flight (ta_Status t)" ?f "\<lambda>st. st = ''dead''" a]
  obtain t where dead: "q_MarkJudgeTaskDead tid (text_param why) s = Inr (?f t, ?s)"
    and at: "task_at (\<lambda>st. st = ''dead'') tid sid a ?s" and sub: "ta_SubmissionID t = Some sid"
    by (auto simp: q_MarkJudgeTaskDead_def)
  from at obtain r where r: "List.find (\<lambda>r. su_ID r = sid) (db_submissions ?s) = Some r" "\<not> terminalStatus (su_Status r)"
    "su_ContestID r = None" by (auto simp: task_at_def unfinished_def)
  let ?Q = "\<lambda>r. su_ID r = sid \<and> \<not> terminalStatus (su_Status r)"
  let ?g = "\<lambda>r. r\<lparr>su_Status := ''system_error'', su_ErrorMessage := text_param why,
     su_JudgedAt := Some (coalesce (su_JudgedAt r) (db_now s)), su_FirstJudgedAt := Some (coalesce (su_FirstJudgedAt r) (db_now s)),
     su_UpdatedAt := db_now s\<rparr>"
  let ?s' = "?s\<lparr>db_submissions := update_rows ?Q ?g (db_submissions s)\<rparr>"
  from r find_refined [OF r(1), of "\<lambda>r. \<not> terminalStatus (su_Status r)"]
  have err: "markSubmissionSystemError sid why ?s = Inr (?g r, ?s')"
    by (simp add: markSubmissionSystemError_def q_LockSubmissionByID_def bind_tx_def select_row_def lockContestProblemProjection_def
        return_tx_def q_MarkSubmissionSystemError_def or_no_rows_def update_row_def rebuildContestProblemResult_def no_lock_def)
  from at have "q_FailActiveRejudgeBatchItemByTaskID (text_param why) tid ?s' = Inl ErrNoRows"
    by (auto simp: q_FailActiveRejudgeBatchItemByTaskID_def update_row_def task_at_def find_Some_iff split: option.split)
  with dead err sub have "MarkJudgeTaskDead tid why s = (Inr (?f t), ?s')"
    by (simp add: MarkJudgeTaskDead_def WithTx_def mark_task_dead_def bind_tx_def or_no_rows_def return_tx_def)
  moreover from r have "su_ID r = sid" by (auto simp: find_Some_iff)
  with r have "List.find (\<lambda>r. su_ID r = sid) (update_rows ?Q ?g (db_submissions s)) = Some (?g r)"
    by (simp add: find_updated_row [where key = su_ID])
  with at have "given_up tid sid ?s'" by (auto simp: given_up_def task_at_def)
  ultimately show ?thesis by blast
qed

text \<open>A processor that runs undisturbed, whose engine always fails and whose acknowledgements succeed.\<close>

definition always_fails :: "'q task_processor \<Rightarrow> bool" where
  "always_fails p \<longleftrightarrow> tp_others p = id \<and> fh_others (tp_failures p) = id \<and> (\<forall>rq q. isl (fst (tp_Judge p rq q)))
     \<and> (\<forall>mid q. \<not> isl (fst (fh_Ack (tp_failures p) mid q)))"

lemma store_call_run: "f (judging v) = (r, s) \<Longrightarrow> store_call id f v = (r, (put_judging s (fst v), snd v))"
  by (cases v) (simp add: store_call_def call_def)

lemma processMessage_fails:
  assumes "always_fails p" and "msg_TaskID message = tid" and "task_at task_in_flight tid sid a (judging v)"
  shows "\<exists>t e v'. processMessage p message v = retryOrDead (tp_failures p) message t e v'
     \<and> task_at task_in_flight tid sid a (judging v') \<and> ta_ID t = tid \<and> ta_SubmissionID t = Some sid \<and> ta_Attempts t = a"
proof -
  from assms(1) have id: "tp_others p = id" and isl: "\<And>rq q. isl (fst (tp_Judge p rq q))" by (auto simp: always_fails_def)
  from assms(3) obtain t r where t: "List.find (\<lambda>t. ta_ID t = tid) (db_tasks (judging v)) = Some t" "task_in_flight (ta_Status t)"
      "ta_SubmissionID t = Some sid" "ta_RunID t = None" "ta_Attempts t = a"
    and r: "List.find (\<lambda>r. su_ID r = sid) (db_submissions (judging v)) = Some r" "\<not> terminalStatus (su_Status r)"
    by (auto simp: task_at_def unfinished_def)
  from t(1) have tid: "ta_ID t = tid" by (auto simp: find_Some_iff)
  from MarkJudgeTaskRunning_at [OF assms(3)] obtain x s where run: "MarkJudgeTaskRunning tid (judging v) = (Inr x, s)"
    and at: "task_at task_in_flight tid sid a s" by blast
  let ?v = "(put_judging s (fst v), snd v)"
  from judging_fails [OF isl, of r ?v] obtain e v' where body: "judge_task_body p r ?v = (Inl e, v')"
    by (cases "judge_task_body p r ?v") (auto simp: isl_def)
  from quiet.satD [OF quiet_judging [OF id isl, of r], of ?v] have "quietly False ?v v'" by (simp only: body snd_conv)
  moreover have "task_at task_in_flight tid sid a (judging ?v)" using at by simp
  ultimately have "task_at task_in_flight tid sid a (judging v')" by (rule quiet_task_at)
  moreover have "processMessage p message v = retryOrDead (tp_failures p) message t e v'"
  proof -
    have "GetJudgeTask tid (judging v) = Inr t" "GetSubmission sid (judging v) = Inr r"
      using t(1) r(1) by (simp_all add: GetJudgeTask_def GetSubmission_def WithTx_def q_GetJudgeTaskByID_def
          q_GetSubmissionByID_def select_row_def)
    then have reads: "read_call id (\<lambda>w q. GetJudgeTask tid (wd_judging w)) v = (Inr t, v)"
      "read_call id (\<lambda>w q. GetSubmission sid (wd_judging w)) v = (Inr r, v)"
      by (cases v; simp add: read_call_def call_def)+
    have "processMessage p message v = process_task p message t v"
      using reads id assms(2) by (simp add: processMessage_def bind_act_simps)
    also have "\<dots> = process_submission p message t r v"
      using reads id t(2,3,4) by (auto simp: process_task_def try_act_def)
    also have "\<dots> = retryOrDead (tp_failures p) message t e v'"
      using r(2) id tid body store_call_run [of "MarkJudgeTaskRunning tid", OF run] by (simp add: process_submission_def bind_act_simps try_act_def)
    finally show ?thesis .
  qed
  ultimately show ?thesis using t tid by blast
qed

lemma queue_call_ok: "\<not> isl (fst (f (snd v))) \<Longrightarrow> \<exists>x v'. queue_call id f v = (Inr x, v') \<and> fst v' = fst v"
  by (cases v; cases "fst (f (snd v))") (auto simp: queue_call_def call_def split: prod.splits)

lemma deadletter_kept: "\<exists>v'. ignore_act (queue_call id f) v = (Inr (), v') \<and> fst v' = fst v"
  by (cases v) (auto simp: ignore_act_def queue_call_def call_def split: prod.splits)

lemma round_retries:
  assumes "always_fails p" and "msg_TaskID message = tid" and "task_at task_in_flight tid sid a (judging v)"
    and "sint a < sint (fh_maxAttempts (tp_failures p))"
  shows "\<exists>v'. processMessage p message v = (Inr ''retry'', v') \<and> task_at (\<lambda>st. st = ''pending'') tid sid (a + 1) (judging v')"
proof -
  let ?h = "tp_failures p"
  from processMessage_fails [OF assms(1-3)] obtain t e v1 where m: "processMessage p message v = retryOrDead ?h message t e v1"
    and at: "task_at task_in_flight tid sid a (judging v1)" and t: "ta_ID t = tid" "ta_SubmissionID t = Some sid" "ta_Attempts t = a"
    by blast
  let ?next = "go_now (judging v1) + fh_backoff ?h a"
  from RetryJudgeTask_at [OF at, of ?next "error_text e"] obtain x s where
    retry: "RetryJudgeTask tid ?next (error_text e) (judging v1) = (Inr x, s)"
    and s: "task_at (\<lambda>st. st = ''pending'') tid sid (a + 1) s" by blast
  from MarkSubmissionQueued_at [OF s, of "error_text e"] obtain y s' where
    queued: "MarkSubmissionQueued sid (error_text e) s = (Inr y, s')" and s': "task_at (\<lambda>st. st = ''pending'') tid sid (a + 1) s'" by blast
  let ?v3 = "(put_judging s' (fst v1), snd v1)"
  from assms(1) have id: "fh_others ?h = id" and "\<not> isl (fst (fh_Ack ?h (msg_ID message) (snd ?v3)))"
    by (auto simp: always_fails_def)
  from queue_call_ok [of "fh_Ack ?h (msg_ID message)", OF this(2)] obtain u v' where ack: "queue_call id (fh_Ack ?h (msg_ID message)) ?v3 = (Inr u, v')" "fst v' = fst ?v3"
    by blast
  have "retryOrDead ?h message t e v1 = (Inr ''retry'', v')"
    using assms(4) t id store_call_run [of "RetryJudgeTask tid ?next (error_text e)", OF retry] ack(1)
    by (simp add: retryOrDead_def Let_def bind_act_simps now_act_def return_act_def store_call_run queued)
  with m s' ack(2) show ?thesis by simp
qed

lemma round_gives_up:
  assumes "always_fails p" and "msg_TaskID message = tid" and "task_at task_in_flight tid sid a (judging v)"
    and "sint a \<ge> sint (fh_maxAttempts (tp_failures p))"
  shows "\<exists>v'. processMessage p message v = (Inr ''dead'', v') \<and> given_up tid sid (judging v')"
proof -
  let ?h = "tp_failures p"
  from processMessage_fails [OF assms(1-3)] obtain t e v1 where m: "processMessage p message v = retryOrDead ?h message t e v1"
    and at: "task_at task_in_flight tid sid a (judging v1)" and t: "ta_ID t = tid" "ta_Attempts t = a"
    by blast
  from MarkJudgeTaskDead_at [OF at, of "error_text e"] obtain x s where
    dead: "MarkJudgeTaskDead tid (error_text e) (judging v1) = (Inr x, s)" and s: "given_up tid sid s" by blast
  let ?v2 = "(put_judging s (fst v1), snd v1)"
  from deadletter_kept [of "fh_DeadLetter ?h message (error_text e)" ?v2] obtain v3 where
    letter: "ignore_act (queue_call id (fh_DeadLetter ?h message (error_text e))) ?v2 = (Inr (), v3)" "fst v3 = fst ?v2" by blast
  from assms(1) have id: "fh_others ?h = id" and "\<not> isl (fst (fh_Ack ?h (msg_ID message) (snd v3)))"
    by (auto simp: always_fails_def)
  from queue_call_ok [of "fh_Ack ?h (msg_ID message)", OF this(2)] obtain u v' where ack: "queue_call id (fh_Ack ?h (msg_ID message)) v3 = (Inr u, v')" "fst v' = fst v3"
    by blast
  have "retryOrDead ?h message t e v1 = (Inr ''dead'', v')"
    using assms(4) t id store_call_run [of "MarkJudgeTaskDead tid (error_text e)", OF dead] letter(1) ack(1)
    by (simp add: retryOrDead_def Let_def bind_act_simps return_act_def)
  with m s ack(2) letter(2) show ?thesis by simp
qed

lemma sint_Suc:
  fixes a b :: int32
  assumes "sint a < sint b"
  shows "sint (a + 1) = sint a + 1"
proof -
  have "sint b < 2 ^ 31" "- (2 ^ 31) \<le> sint a" using sint_lt [of b] sint_ge [of a] by simp_all
  with assms have "signed_take_bit 31 (sint a + 1) = sint a + 1" by (intro signed_take_bit_int_eq_self) simp_all
  moreover have "sint (a + 1) = signed_take_bit 31 (sint a + 1)" using sint_word_ariths(1) [of a 1] by simp
  ultimately show ?thesis by simp
qed

text \<open>
  C6: A task whose judging keeps failing is given up. Take a pending task of an unjudged submission
  outside a contest, with no rejudge item of the task that is still active, and a processor that runs alone, whose
  engine fails on every request and whose acknowledgements of failed messages succeed; suppose that each time
  the task is pending, something takes it to the queue again without touching its attempts or its submission
  (\<open>dispatch\<close>). Then it is retried exactly as often as its remaining attempts allow, and the next failure
  moves the task to \<^verbatim>\<open>dead\<close> and gives the submission the verdict \<^verbatim>\<open>system_error\<close>: under these
  conditions it is not retried for ever.
\<close>

theorem failing_task_given_up:
  assumes "always_fails p" and "msg_TaskID message = tid"
    and "\<And>n v. task_at (\<lambda>st. st = ''pending'') tid sid n (judging v) \<Longrightarrow> task_at task_in_flight tid sid n (judging (dispatch v))"
    and "task_at (\<lambda>st. st = ''pending'') tid sid a (judging w)"
    and "sint (fh_maxAttempts (tp_failures p)) = sint a + int k"
  shows "\<exists>w'. deliveries dispatch p message (Suc k) w = (replicate k (Inr ''retry'') @ [Inr ''dead''], w')
     \<and> given_up tid sid (judging w')"
  using assms(4,5)
proof (induction k arbitrary: a w)
  case 0
  from round_gives_up [OF assms(1,2) assms(3) [OF 0(1)]] 0(2) obtain v' where
    "processMessage p message (dispatch w) = (Inr ''dead'', v')" "given_up tid sid (judging v')" by auto
  then show ?case by simp
next
  case (Suc k)
  then have less: "sint a < sint (fh_maxAttempts (tp_failures p))" by simp
  from round_retries [OF assms(1,2) assms(3) [OF Suc.prems(1)] less] obtain v' where
    v': "processMessage p message (dispatch w) = (Inr ''retry'', v')" "task_at (\<lambda>st. st = ''pending'') tid sid (a + 1) (judging v')"
    by blast
  from Suc.prems(2) sint_Suc [OF less] have "sint (fh_maxAttempts (tp_failures p)) = sint (a + 1) + int k" by simp
  from Suc.IH [OF v'(2) this] v'(1) show ?case by (auto simp: split_def simp del: deliveries.simps(2)) (simp add: split_def)
qed

subsection \<open>An example\<close>

text \<open>The waiting submission, taken to the queue by hand, with the default of five attempts.\<close>

definition redispatch :: "outbox world \<Rightarrow> outbox world" where
  "redispatch v = snd (store_call id (MarkJudgeTaskDispatching 1) v)"

lemma redispatch_at:
  assumes "task_at (\<lambda>st. st = ''pending'') 1 sid n (judging v)"
  shows "task_at task_in_flight 1 sid n (judging (redispatch v))"
proof -
  let ?f = "\<lambda>t. t\<lparr>ta_Status := ''dispatching'', ta_UpdatedAt := db_now (judging v)\<rparr>"
  from task_updated [OF assms, of "\<lambda>t. ta_Status t = ''pending''" ?f task_in_flight n]
  obtain t s where "MarkJudgeTaskDispatching 1 (judging v) = (Inr t, s)" "task_at task_in_flight 1 sid n s"
    by (auto simp: MarkJudgeTaskDispatching_def WithTx_def q_UpdateJudgeTaskDispatching_def)
  then show ?thesis by (simp add: redispatch_def store_call_run)
qed

lemma submitted_at: "task_at (\<lambda>st. st = ''pending'') 1 1 0 submitted"
proof -
  have "case List.find (\<lambda>t. ta_ID t = 1) (db_tasks submitted) of None \<Rightarrow> False
     | Some t \<Rightarrow> ta_Status t = ''pending'' \<and> ta_SubmissionID t = Some 1 \<and> ta_RunID t = None \<and> ta_Attempts t = 0" by code_simp
  moreover have "case List.find (\<lambda>r. su_ID r = 1) (db_submissions submitted) of None \<Rightarrow> False
     | Some r \<Rightarrow> \<not> terminalStatus (su_Status r) \<and> su_ContestID r = None" by code_simp
  moreover have "db_items submitted = []" by code_simp
  ultimately show ?thesis by (auto simp: task_at_def unfinished_def split: option.splits)
qed

theorem failing_task_given_up_witness:
  "\<exists>w'. deliveries redispatch sample_processor sample_request_message 6 (sample_site True submitted, [])
       = ([Inr ''retry'', Inr ''retry'', Inr ''retry'', Inr ''retry'', Inr ''retry'', Inr ''dead''], w') \<and> given_up 1 1 (judging w')"
proof -
  have "always_fails sample_processor" "sint (fh_maxAttempts (tp_failures sample_processor)) = sint (0 :: int32) + int 5"
    by (simp_all add: always_fails_def sample_processor_def sample_failures_def NewTaskFailureHandler_def)
  moreover have "msg_TaskID sample_request_message = 1" by (simp add: sample_request_message_def)
  moreover have "task_at (\<lambda>st. st = ''pending'') 1 1 0 (judging (sample_site True submitted, []))"
    using submitted_at by (simp add: sample_site_def)
  ultimately have "\<exists>w'. deliveries redispatch sample_processor sample_request_message (Suc 5) (sample_site True submitted, [])
       = (replicate 5 (Inr ''retry'') @ [Inr ''dead''], w') \<and> given_up 1 1 (judging w')"
    using redispatch_at by (intro failing_task_given_up) auto
  then show ?thesis by (simp add: numeral_eq_Suc)
qed

end
