(* ===== verification/Submission_Reader.thy ===== *)
theory Submission_Reader
  imports Site Contest
begin

section \<open>Reading submissions (\<^verbatim>\<open>internal/submission/submission_reader.go\<close>)\<close>

text \<open>
  Who may see which submission and how much of its result: single views, the two listings, the source, and
  the response the handler makes of a view. The contest policy decides what a contest shows; it and the
  source storage are fields of the reader. A submission record is the row, the \<^verbatim>\<open>Score\<close> of which the reader
  does not use.
\<close>

subsection \<open>Queries\<close>

record submission_cursor =
  sc_SubmittedAt :: time
  sc_ID :: int64

record list_submissions_input =
  li_UserID :: "int64 option"
  li_ProblemID :: "int64 option"
  li_ContestID :: "int64 option"
  li_Status :: "string option"
  li_Cursor :: "submission_cursor option"
  li_Offset :: int32
  li_Limit :: int32

definition submission_selected :: "list_submissions_input \<Rightarrow> submission_row \<Rightarrow> bool" where
  "submission_selected i r \<longleftrightarrow>
     (li_UserID i = None \<or> li_UserID i = Some (su_UserID r)) \<and> (li_ProblemID i = None \<or> li_ProblemID i = Some (su_ProblemID r))
     \<and> (li_ContestID i = None \<or> li_ContestID i = su_ContestID r) \<and> (li_Status i = None \<or> li_Status i = Some (su_Status r))"

definition newest_submission_first :: "submission_row \<Rightarrow> submission_row \<Rightarrow> bool" where
  "newest_submission_first a b \<longleftrightarrow>
     su_SubmittedAt a > su_SubmittedAt b \<or> su_SubmittedAt a = su_SubmittedAt b \<and> su_ID a > su_ID b"

definition before_cursor :: "submission_cursor \<Rightarrow> submission_row \<Rightarrow> bool" where
  "before_cursor c r \<longleftrightarrow>
     su_SubmittedAt r < sc_SubmittedAt c \<or> su_SubmittedAt r = sc_SubmittedAt c \<and> su_ID r < sc_ID c"

definition q_ListSubmissions :: "list_submissions_input \<Rightarrow> store \<Rightarrow> submission_row list res" where
  "q_ListSubmissions i s = paged (li_Offset i) (li_Limit i)
     (sort_by newest_submission_first (filter (submission_selected i) (db_submissions s)))"

definition q_CountSubmissions :: "list_submissions_input \<Rightarrow> store \<Rightarrow> int64" where
  "q_CountSubmissions i s = int (length (filter (submission_selected i) (db_submissions s)))"

text \<open>The cursor query selects no \<^verbatim>\<open>first_judged_at\<close>: the field keeps its zero value.\<close>

definition q_ListSubmissionsByCursor :: "list_submissions_input \<Rightarrow> submission_cursor \<Rightarrow> store \<Rightarrow> submission_row list res" where
  "q_ListSubmissionsByCursor i c s =
     bind_res (paged 0 (li_Limit i)
       (sort_by newest_submission_first (filter (\<lambda>r. submission_selected i r \<and> before_cursor c r) (db_submissions s))))
     (\<lambda>rows. Inr (map (\<lambda>r. r\<lparr>su_FirstJudgedAt := None\<rparr>) rows))"

definition q_ListSubmissionsByUserBefore :: "int64 \<Rightarrow> submission_cursor \<Rightarrow> int32 \<Rightarrow> store \<Rightarrow> submission_row list res" where
  "q_ListSubmissionsByUserBefore uid c limit_n s = paged 0 limit_n
     (sort_by newest_submission_first (filter (\<lambda>r. su_UserID r = uid \<and> before_cursor c r) (db_submissions s)))"

definition q_ListSubmissionResultsBySubmissionIDs :: "int64 list \<Rightarrow> store \<Rightarrow> submission_result_row list" where
  "q_ListSubmissionResultsBySubmissionIDs ids s = filter (\<lambda>r. sv_SubmissionID r \<in> set ids) (db_submission_results s)"

text \<open>\<^verbatim>\<open>DISTINCT ON (submission_id) ... ORDER BY submission_id, attempt_no DESC, id DESC\<close>: the first of each group.\<close>

definition q_ListLatestJudgeAttemptsBySubmissionIDs :: "int64 list \<Rightarrow> store \<Rightarrow> judge_attempt_row list" where
  "q_ListLatestJudgeAttemptsBySubmissionIDs ids s =
     concat (map (\<lambda>sid. take 1 (sort_by attempt_order (filter (\<lambda>a. at_SubmissionID a = Some sid) (db_attempts s))))
       (sort (remdups ids)))"

definition q_ListJudgeCaseResultsByAttemptID :: "int64 \<Rightarrow> store \<Rightarrow> case_result_row list" where
  "q_ListJudgeCaseResultsByAttemptID aid s =
     sort_by (\<lambda>a b. sint (cx_CaseIndex a) < sint (cx_CaseIndex b)) (filter (\<lambda>c. cx_AttemptID c = aid) (db_case_results s))"

subsection \<open>The repository\<close>

definition first_submission_cursor :: submission_cursor where
  "first_submission_cursor = \<lparr>sc_SubmittedAt = far_future, sc_ID = 2 ^ 63 - 1\<rparr>"

definition repo_ListSubmissions :: "list_submissions_input \<Rightarrow> store \<Rightarrow> (submission_row list \<times> int64) res" where
  "repo_ListSubmissions i s = bind_res (q_ListSubmissions i s) (\<lambda>rows. Inr (rows, q_CountSubmissions i s))"

definition repo_ListSubmissionsByCursor :: "list_submissions_input \<Rightarrow> store \<Rightarrow> submission_row list res" where
  "repo_ListSubmissionsByCursor i s = q_ListSubmissionsByCursor i (coalesce (li_Cursor i) first_submission_cursor) s"

definition GetSubmissionResult :: "int64 \<Rightarrow> store \<Rightarrow> submission_result_row res" where
  "GetSubmissionResult sid s =
     fst (WithTx (map_err (mapNotFound ''submission_result.not_found'' ''submission result not found'')
       (q_GetSubmissionResultBySubmissionID sid)) s)"

definition GetLatestJudgeAttemptBySubmissionID :: "int64 \<Rightarrow> store \<Rightarrow> judge_attempt_row res" where
  "GetLatestJudgeAttemptBySubmissionID sid s =
     fst (WithTx (map_err (mapNotFound ''judge_attempt.not_found'' ''judge attempt not found'')
       (q_GetLatestJudgeAttemptBySubmissionID (Some sid))) s)"

record submission_list_summary =
  sl_Result :: "submission_result_row option"
  sl_LatestAttempt :: "judge_attempt_row option"

definition empty_summary :: submission_list_summary where
  "empty_summary = \<lparr>sl_Result = None, sl_LatestAttempt = None\<rparr>"

fun add_results :: "submission_result_row list \<Rightarrow> (int64 \<Rightarrow> submission_list_summary option)
    \<Rightarrow> (int64 \<Rightarrow> submission_list_summary option)" where
  "add_results [] m = m"
| "add_results (r # rs) m =
     add_results rs (m(sv_SubmissionID r \<mapsto> (coalesce (m (sv_SubmissionID r)) empty_summary)\<lparr>sl_Result := Some r\<rparr>))"

fun add_attempts :: "judge_attempt_row list \<Rightarrow> (int64 \<Rightarrow> submission_list_summary option)
    \<Rightarrow> (int64 \<Rightarrow> submission_list_summary option)" where
  "add_attempts [] m = m"
| "add_attempts (a # as) m =
     (case at_SubmissionID a of
        None \<Rightarrow> add_attempts as m
      | Some sid \<Rightarrow> add_attempts as (m(sid \<mapsto> (coalesce (m sid) empty_summary)\<lparr>sl_LatestAttempt := Some a\<rparr>)))"

definition ListSubmissionSummaries :: "int64 list \<Rightarrow> bool \<Rightarrow> store \<Rightarrow> (int64 \<Rightarrow> submission_list_summary option)" where
  "ListSubmissionSummaries ids includeAttempts s =
     (if ids = [] then Map.empty
      else let summaries = add_results (q_ListSubmissionResultsBySubmissionIDs ids s) Map.empty
           in if \<not> includeAttempts then summaries
              else add_attempts (q_ListLatestJudgeAttemptsBySubmissionIDs ids s) summaries)"

subsection \<open>Visibility\<close>

text \<open>
  The interfaces a contest policy may implement: the visibility of one submission, and optionally of many, and
  whether contest staff may read a source.
\<close>

record visibility_policy =
  vp_Visibility :: "actor \<Rightarrow> contest_submission_visibility \<Rightarrow> submission_result_visibility res"
  vp_Visibilities :: "(actor \<Rightarrow> contest_submission_visibility list \<Rightarrow> (int64 \<Rightarrow> submission_result_visibility option) res) option"
  vp_CanReadSource :: "(actor \<Rightarrow> contest_submission_visibility \<Rightarrow> bool res) option"

record submission_reader =
  sr_policy :: "visibility_policy option"
  sr_sources :: "(string \<Rightarrow> string res) option"

text \<open>The policy the application installs (\<^verbatim>\<open>contest.ContestPolicy\<close>).\<close>

definition ContestPolicy :: "contest_reader \<Rightarrow> visibility_policy" where
  "ContestPolicy rd = \<lparr>vp_Visibility = SubmissionResultVisibility rd, vp_Visibilities = Some (SubmissionResultVisibilities rd),
     vp_CanReadSource = Some (CanReadSubmissionSource rd)\<rparr>"

definition canInspectSubmissions :: "actor \<Rightarrow> bool" where
  "canInspectSubmissions a \<longleftrightarrow> Authorize (NewSubject a) PermissionJudgeInspect = Inr ()"

definition contestSubmissionVisibility :: "submission_row \<Rightarrow> int64 \<Rightarrow> contest_submission_visibility" where
  "contestSubmissionVisibility r cid =
     \<lparr>cv_ID = su_ID r, cv_UserID = su_UserID r, cv_ProblemID = su_ProblemID r, cv_ContestID = cid,
      cv_SubmittedAt = su_SubmittedAt r, cv_JudgedAt = su_JudgedAt r\<rparr>"

definition default_visibility :: "actor \<Rightarrow> submission_result_visibility" where
  "default_visibility a =
     \<lparr>ShowResult = True, ShowCases = True, ShowAdminDiagnostics = canInspectSubmissions a, Visibility = ''visible''\<rparr>"

definition for_inspector :: "actor \<Rightarrow> submission_result_visibility \<Rightarrow> submission_result_visibility" where
  "for_inspector a v = (if canInspectSubmissions a then v\<lparr>ShowAdminDiagnostics := True\<rparr> else v)"

definition submissionVisibility :: "submission_reader \<Rightarrow> actor \<Rightarrow> submission_row \<Rightarrow> submission_result_visibility res" where
  "submissionVisibility rd a r =
     (case su_ContestID r of
        None \<Rightarrow> Inr (default_visibility a)
      | Some cid \<Rightarrow>
          (case sr_policy rd of
             Some policy \<Rightarrow> bind_res (vp_Visibility policy a (contestSubmissionVisibility r cid)) (\<lambda>v. Inr (for_inspector a v))
           | None \<Rightarrow>
               Inr (if canInspectSubmissions a then default_visibility a
                    else (default_visibility a)\<lparr>ShowCases := False\<rparr>)))"

fun merge_visibilities ::
  "actor \<Rightarrow> (int64 \<Rightarrow> submission_result_visibility option) \<Rightarrow> contest_submission_visibility list
   \<Rightarrow> (int64 \<Rightarrow> submission_result_visibility option) \<Rightarrow> (int64 \<Rightarrow> submission_result_visibility option) res" where
  "merge_visibilities a batch [] m = Inr m"
| "merge_visibilities a batch (c # cs) m =
     (case batch (cv_ID c) of
        None \<Rightarrow> Inl (ErrText (''contest visibility policy did not return submission '' @ FormatInt (cv_ID c)))
      | Some v \<Rightarrow> merge_visibilities a batch cs (m(cv_ID c \<mapsto> for_inspector a v)))"

fun each_visibility ::
  "submission_reader \<Rightarrow> actor \<Rightarrow> submission_row list
   \<Rightarrow> (int64 \<Rightarrow> submission_result_visibility option) \<Rightarrow> (int64 \<Rightarrow> submission_result_visibility option) res" where
  "each_visibility rd a [] m = Inr m"
| "each_visibility rd a (r # rs) m =
     (if su_ContestID r = None then each_visibility rd a rs m
      else bind_res (submissionVisibility rd a r) (\<lambda>v. each_visibility rd a rs (m(su_ID r \<mapsto> v))))"

definition contest_submissions :: "submission_row list \<Rightarrow> contest_submission_visibility list" where
  "contest_submissions rs =
     concat (map (\<lambda>r. case su_ContestID r of None \<Rightarrow> [] | Some cid \<Rightarrow> [contestSubmissionVisibility r cid]) rs)"

definition submissionListVisibilities ::
  "submission_reader \<Rightarrow> actor \<Rightarrow> submission_row list \<Rightarrow> (int64 \<Rightarrow> submission_result_visibility option) res" where
  "submissionListVisibilities rd a rs =
     (let visibilities = fold (\<lambda>r m. m(su_ID r \<mapsto> default_visibility a)) rs Map.empty;
          contestSubmissions = contest_submissions rs
      in if contestSubmissions = [] then Inr visibilities
         else case Option.bind (sr_policy rd) vp_Visibilities of
                Some policies \<Rightarrow> bind_res (policies a contestSubmissions) (\<lambda>batch.
                  merge_visibilities a batch contestSubmissions visibilities)
              | None \<Rightarrow> each_visibility rd a rs visibilities)"

subsection \<open>Views\<close>

record submission_view =
  vw_Submission :: submission_row
  vw_Result :: "submission_result_row option"
  vw_Cases :: "case_result_row list"
  vw_AdminDiagnostics :: "judge_attempt_row option"
  vw_Visibility :: string

definition plain_view :: "submission_row \<Rightarrow> string \<Rightarrow> submission_view" where
  "plain_view r v = \<lparr>vw_Submission = r, vw_Result = None, vw_Cases = [], vw_AdminDiagnostics = None, vw_Visibility = v\<rparr>"

fun status_404 :: "go_error \<Rightarrow> bool" where
  "status_404 (AppErr e) \<longleftrightarrow> HTTPStatus e = 404"
| "status_404 e \<longleftrightarrow> False"

definition view_details :: "submission_row \<Rightarrow> submission_result_visibility \<Rightarrow> store \<Rightarrow> submission_view res" where
  "view_details r v s =
     (let view = plain_view r (Visibility v) in
      if \<not> ShowResult v \<or> \<not> terminalStatus (su_Status r) then Inr view
      else case GetSubmissionResult (su_ID r) s of
             Inl e \<Rightarrow> (if status_404 e then Inr view else Inl e)
           | Inr result \<Rightarrow>
               (case GetLatestJudgeAttemptBySubmissionID (su_ID r) s of
                  Inl e \<Rightarrow> (if status_404 e then Inr (view\<lparr>vw_Result := Some result\<rparr>) else Inl e)
                | Inr attempt \<Rightarrow>
                    Inr (view\<lparr>vw_Result := Some result,
                      vw_AdminDiagnostics := (if ShowAdminDiagnostics v then Some attempt else None),
                      vw_Cases := (if ShowCases v then q_ListJudgeCaseResultsByAttemptID (at_ID attempt) s else [])\<rparr>)))"

definition submissionView :: "submission_reader \<Rightarrow> actor \<Rightarrow> submission_row \<Rightarrow> store \<Rightarrow> submission_view res" where
  "submissionView rd a r s = bind_res (submissionVisibility rd a r) (\<lambda>v. view_details r v s)"

text \<open>A read of a Go map that has no entry gives the zero value.\<close>

definition zero_visibility :: submission_result_visibility where
  "zero_visibility = \<lparr>ShowResult = False, ShowCases = False, ShowAdminDiagnostics = False, Visibility = []\<rparr>"

definition shows_result :: "(int64 \<Rightarrow> submission_result_visibility option) \<Rightarrow> submission_row \<Rightarrow> bool" where
  "shows_result m r \<longleftrightarrow> ShowResult (coalesce (m (su_ID r)) zero_visibility) \<and> terminalStatus (su_Status r)"

definition list_view ::
  "(int64 \<Rightarrow> submission_result_visibility option) \<Rightarrow> (int64 \<Rightarrow> submission_list_summary option) \<Rightarrow> submission_row \<Rightarrow> submission_view" where
  "list_view m summaries r =
     (let v = coalesce (m (su_ID r)) zero_visibility; view = plain_view r (Visibility v) in
      if \<not> shows_result m r then view
      else case summaries (su_ID r) of
             None \<Rightarrow> view
           | Some summary \<Rightarrow>
               (case sl_Result summary of
                  None \<Rightarrow> view
                | Some result \<Rightarrow>
                    view\<lparr>vw_Result := Some result,
                      vw_AdminDiagnostics := (if ShowAdminDiagnostics v then sl_LatestAttempt summary else None)\<rparr>))"

definition submissionListViews :: "submission_reader \<Rightarrow> actor \<Rightarrow> submission_row list \<Rightarrow> store \<Rightarrow> submission_view list res" where
  "submissionListViews rd a rs s =
     bind_res (submissionListVisibilities rd a rs) (\<lambda>m.
       let ids = map su_ID (filter (shows_result m) rs);
           includeAttempts = (\<exists>r \<in> set rs. shows_result m r \<and> ShowAdminDiagnostics (coalesce (m (su_ID r)) zero_visibility))
       in Inr (map (list_view m (ListSubmissionSummaries ids includeAttempts s)) rs))"

subsection \<open>The operations\<close>

definition own_or_inspected :: "actor \<Rightarrow> submission_row \<Rightarrow> bool" where
  "own_or_inspected a r \<longleftrightarrow> canInspectSubmissions a \<or> Authenticated a \<and> ac_UserID a = su_UserID r"

definition reader_GetSubmission :: "submission_reader \<Rightarrow> actor \<Rightarrow> int64 \<Rightarrow> store \<Rightarrow> submission_view res" where
  "reader_GetSubmission rd a sid s =
     bind_res (GetSubmission sid s) (\<lambda>r.
       if \<not> own_or_inspected a r then fail (Forbidden ''submission.not_allowed'' ''submission access denied'')
       else submissionView rd a r s)"

definition sourceDenied :: go_error where
  "sourceDenied = AppErr (Forbidden ''submission.source_not_allowed'' ''submission source access denied'')"

definition authorizeSourceRead :: "submission_reader \<Rightarrow> actor \<Rightarrow> submission_row \<Rightarrow> unit res" where
  "authorizeSourceRead rd a r =
     (if own_or_inspected a r then Inr ()
      else case su_ContestID r of
             None \<Rightarrow> Inl sourceDenied
           | Some cid \<Rightarrow>
               (case Option.bind (sr_policy rd) vp_CanReadSource of
                  None \<Rightarrow> Inl sourceDenied
                | Some policy \<Rightarrow>
                    bind_res (policy a (contestSubmissionVisibility r cid)) (\<lambda>allowed.
                      if allowed then Inr () else Inl sourceDenied)))"

definition GetSubmissionSource :: "submission_reader \<Rightarrow> actor \<Rightarrow> int64 \<Rightarrow> site \<Rightarrow> (string \<times> int64) res" where
  "GetSubmissionSource rd a sid w =
     bind_res (GetSubmission sid (wd_judging w)) (\<lambda>r.
     bind_res (authorizeSourceRead rd a r) (\<lambda>_.
       case sr_sources rd of
         None \<Rightarrow> fail (ServiceUnavailable ''submission source storage unavailable'')
       | Some get \<Rightarrow>
           bind_res (GetArtifact (coalesce (su_SourceArtifactID r) 0) w) (\<lambda>artifact.
           bind_res (get (af_StorageKey artifact)) (\<lambda>source. Inr (source, su_LanguageID r)))))"

definition limit_or :: "int32 \<Rightarrow> int32 \<Rightarrow> int32" where
  "limit_or n fallback = (if sint n \<le> 0 \<or> sint n > 100 then fallback else n)"

definition auth_required :: "actor \<Rightarrow> unit res" where
  "auth_required a = (if Authenticated a then Inr () else fail (Unauthorized ''auth_required'' ''authentication required''))"

definition own_unless_inspector :: "actor \<Rightarrow> list_submissions_input \<Rightarrow> list_submissions_input" where
  "own_unless_inspector a i = (if canInspectSubmissions a then i else i\<lparr>li_UserID := Some (ac_UserID a)\<rparr>)"

definition reader_ListSubmissions ::
  "submission_reader \<Rightarrow> actor \<Rightarrow> list_submissions_input \<Rightarrow> store \<Rightarrow> (submission_view list \<times> int64) res" where
  "reader_ListSubmissions rd a i s =
     bind_res (auth_required a) (\<lambda>_.
       let input = (own_unless_inspector a i)\<lparr>li_Limit := limit_or (li_Limit i) 50,
             li_Offset := (if sint (li_Offset i) < 0 then 0 else li_Offset i)\<rparr>
       in bind_res (repo_ListSubmissions input s) (\<lambda>(rows, total).
          bind_res (submissionListViews rd a rows s) (\<lambda>views. Inr (views, total))))"

text \<open>The cursor of a request; both listings refuse a cursor that is not a position.\<close>

definition request_cursor :: "string \<Rightarrow> submission_cursor option \<Rightarrow> submission_cursor res" where
  "request_cursor msg cursor =
     (case cursor of
        None \<Rightarrow> Inr first_submission_cursor
      | Some c \<Rightarrow> if sc_ID c \<le> 0 \<or> sc_SubmittedAt c = 0 then fail (BadRequest ''invalid_cursor'' msg) else Inr c)"

definition cursor_page ::
  "submission_reader \<Rightarrow> actor \<Rightarrow> int32 \<Rightarrow> submission_row list \<Rightarrow> store \<Rightarrow> (submission_view list \<times> submission_cursor option) res" where
  "cursor_page rd a limit_n rows s =
     (let hasMore = int (length rows) > sint limit_n; shown = (if hasMore then take (nat (sint limit_n)) rows else rows)
      in bind_res (submissionListViews rd a shown s) (\<lambda>views.
           Inr (views, if hasMore then Some \<lparr>sc_SubmittedAt = su_SubmittedAt (last shown), sc_ID = su_ID (last shown)\<rparr> else None)))"

definition reader_ListSubmissionsByCursor ::
  "submission_reader \<Rightarrow> actor \<Rightarrow> list_submissions_input \<Rightarrow> store \<Rightarrow> (submission_view list \<times> submission_cursor option) res" where
  "reader_ListSubmissionsByCursor rd a i s =
     bind_res (auth_required a) (\<lambda>_.
       let limit_n = limit_or (li_Limit i) 20 in
       bind_res (request_cursor ''cursor is invalid'' (li_Cursor i)) (\<lambda>c.
       bind_res (repo_ListSubmissionsByCursor ((own_unless_inspector a i)\<lparr>li_Cursor := Some c, li_Limit := limit_n + 1\<rparr>) s) (\<lambda>rows.
         cursor_page rd a limit_n rows s)))"

definition ListOwnSubmissionsByCursor ::
  "submission_reader \<Rightarrow> actor \<Rightarrow> submission_cursor option \<Rightarrow> int32 \<Rightarrow> store
   \<Rightarrow> (submission_view list \<times> submission_cursor option) res" where
  "ListOwnSubmissionsByCursor rd a cursor n s =
     bind_res (auth_required a) (\<lambda>_.
       let limit_n = limit_or n 20 in
       bind_res (request_cursor ''invalid submission cursor'' cursor) (\<lambda>c.
       bind_res (q_ListSubmissionsByUserBefore (ac_UserID a) c (limit_n + 1) s) (\<lambda>rows.
         cursor_page rd a limit_n rows s)))"

subsection \<open>The response (\<^verbatim>\<open>handler.go\<close>)\<close>

record submission_json =
  js_ID :: int64
  js_UserID :: int64
  js_ProblemID :: int64
  js_ContestID :: "int64 option"
  js_LanguageID :: int64
  js_Status :: string
  js_TimeMS :: "int32 option"
  js_MemoryKB :: "int32 option"
  js_ErrorMessage :: "string option"
  js_SubmittedAt :: time
  js_JudgedAt :: "time option"
  js_UpdatedAt :: time
  js_Visibility :: string
  js_Result :: "submission_result_row option"
  js_Cases :: "case_result_row list"
  js_AdminDiagnostics :: "judge_attempt_row option"

text \<open>The nested objects are selections of the rows' fields and are kept as the rows.\<close>

definition submissionResponse :: "submission_view \<Rightarrow> submission_json" where
  "submissionResponse view =
     (let r = vw_Submission view in
      \<lparr>js_ID = su_ID r, js_UserID = su_UserID r, js_ProblemID = su_ProblemID r, js_ContestID = su_ContestID r,
       js_LanguageID = su_LanguageID r, js_Status = su_Status r, js_TimeMS = su_TimeMs r, js_MemoryKB = su_MemoryKb r,
       js_ErrorMessage = su_ErrorMessage r, js_SubmittedAt = su_SubmittedAt r, js_JudgedAt = su_JudgedAt r,
       js_UpdatedAt = su_UpdatedAt r, js_Visibility = vw_Visibility view, js_Result = vw_Result view,
       js_Cases = vw_Cases view, js_AdminDiagnostics = vw_AdminDiagnostics view\<rparr>)"

definition submissionResponses :: "submission_view list \<Rightarrow> submission_json list" where
  "submissionResponses views = map submissionResponse views"

subsection \<open>The list shows what the single view shows\<close>

lemma visibilities_from_single:
  assumes "visibilities_from cr a cache out subs = Inr m" and "distinct (map cv_ID subs)"
    and "\<And>cid c sc. cache cid = Some (c, sc) \<Longrightarrow>
      rd_GetContest cr cid = Inr c \<and> actorWithContestRoles cr a cid = Inr sc \<and> canReadContestAs cr sc c = Inr ()"
  shows "(\<forall>sub \<in> set subs. \<exists>v. SubmissionResultVisibility cr a sub = Inr v \<and> m (cv_ID sub) = Some v)
     \<and> (\<forall>k. k \<notin> cv_ID ` set subs \<longrightarrow> m k = out k)"
  using assms
proof (induction subs arbitrary: cache out)
  case (Cons sub subs)
  let ?k = "cv_ContestID sub"
  obtain c sc where got: "rd_GetContest cr ?k = Inr c" "actorWithContestRoles cr a ?k = Inr sc" "canReadContestAs cr sc c = Inr ()"
    and rest: "visibilities_from cr a (cache(?k \<mapsto> (c, sc))) (out(cv_ID sub \<mapsto> submissionResultVisibility c sc sub (rd_now cr))) subs = Inr m"
  proof (cases "cache ?k")
    case None
    with Cons.prems(1) that show thesis by (auto simp: bind_res_Inr)
  next
    case (Some p)
    then obtain c sc where p: "cache ?k = Some (c, sc)" by (cases p) auto
    then have "cache(?k \<mapsto> (c, sc)) = cache" by (simp add: fun_upd_idem_iff)
    with Cons.prems(1) Cons.prems(3) [OF p] p that show thesis by simp
  qed
  have one: "SubmissionResultVisibility cr a sub = Inr (submissionResultVisibility c sc sub (rd_now cr))"
    using got by (simp add: SubmissionResultVisibility_def)
  have inv: "rd_GetContest cr cid = Inr c' \<and> actorWithContestRoles cr a cid = Inr sc' \<and> canReadContestAs cr sc' c' = Inr ()"
    if "(cache(?k \<mapsto> (c, sc))) cid = Some (c', sc')" for cid c' sc'
    using that got Cons.prems(3) by (auto split: if_splits)
  from Cons.IH [OF rest _ inv] Cons.prems(2) one show ?case by auto
qed auto

lemma merge_visibilities_each:
  assumes "merge_visibilities a batch cs m = Inr m'" and "distinct (map cv_ID cs)"
  shows "(\<forall>c \<in> set cs. \<exists>v. batch (cv_ID c) = Some v \<and> m' (cv_ID c) = Some (for_inspector a v))
     \<and> (\<forall>k. k \<notin> cv_ID ` set cs \<longrightarrow> m' k = m k)"
  using assms by (induction cs arbitrary: m) (auto split: option.splits)

lemma contest_submissions_simps [simp]:
  "contest_submissions [] = []"
  "contest_submissions (r # rs) =
     (case su_ContestID r of None \<Rightarrow> [] | Some cid \<Rightarrow> [contestSubmissionVisibility r cid]) @ contest_submissions rs"
  by (simp_all add: contest_submissions_def)

lemma contest_submissions_ids:
  "map cv_ID (contest_submissions rs) = map su_ID (filter (\<lambda>r. su_ContestID r \<noteq> None) rs)"
  by (induction rs) (auto simp: contestSubmissionVisibility_def split: option.splits)

lemma set_contest_submissions:
  "set (contest_submissions rs) = {contestSubmissionVisibility r cid | r cid. r \<in> set rs \<and> su_ContestID r = Some cid}"
  unfolding contest_submissions_def by (force split: option.splits)

lemma default_visibilities:
  "fold (\<lambda>r m. m(su_ID r \<mapsto> v)) rs m k = (if k \<in> su_ID ` set rs then Some v else m k)"
  by (induction rs arbitrary: m) auto

text \<open>Under the contest policy, the visibilities fetched for a page are those of its submissions one by one.\<close>

lemma list_visibilities_each:
  assumes "sr_policy rd = Some (ContestPolicy cr)" and "submissionListVisibilities rd a rs = Inr m"
    and "distinct (map su_ID rs)" and "r \<in> set rs"
  shows "\<exists>v. submissionVisibility rd a r = Inr v \<and> m (su_ID r) = Some v"
proof -
  let ?d = "fold (\<lambda>r m. m(su_ID r \<mapsto> default_visibility a)) rs Map.empty"
  have d: "?d (su_ID r) = Some (default_visibility a)" using assms(4) by (simp add: default_visibilities)
  have distinct: "distinct (map cv_ID (contest_submissions rs))"
    unfolding contest_submissions_ids using assms(3) by (simp add: distinct_map_filter)
  show ?thesis
  proof (cases "contest_submissions rs = []")
    case True
    then have "su_ContestID r = None" using assms(4) contest_submissions_ids [of rs] by (auto simp: filter_empty_conv)
    with True assms(2) d show ?thesis by (simp add: submissionListVisibilities_def submissionVisibility_def)
  next
    case False
    with assms(1,2) obtain batch where batch: "SubmissionResultVisibilities cr a (contest_submissions rs) = Inr batch"
      and merged: "merge_visibilities a batch (contest_submissions rs) ?d = Inr m"
      by (auto simp: submissionListVisibilities_def ContestPolicy_def Let_def)
    note single = visibilities_from_single [OF batch [unfolded SubmissionResultVisibilities_def] distinct]
    note each = merge_visibilities_each [OF merged distinct]
    show ?thesis
    proof (cases "su_ContestID r")
      case None
      have "su_ID r \<notin> su_ID ` set (filter (\<lambda>r. su_ContestID r \<noteq> None) rs)"
      proof
        assume "su_ID r \<in> su_ID ` set (filter (\<lambda>r. su_ContestID r \<noteq> None) rs)"
        then obtain r' where "r' \<in> set rs" "su_ContestID r' \<noteq> None" "su_ID r = su_ID r'" by auto
        with inj_onD [of su_ID "set rs" r r'] assms(3,4) None show False by (simp add: distinct_map)
      qed
      then have "su_ID r \<notin> cv_ID ` set (contest_submissions rs)" using contest_submissions_ids [of rs] by (metis list.set_map)
      with each d None show ?thesis by (simp add: submissionVisibility_def)
    next
      case (Some cid)
      let ?c = "contestSubmissionVisibility r cid"
      have "?c \<in> set (contest_submissions rs)" using assms(4) Some by (auto simp: set_contest_submissions)
      with single each obtain v where "SubmissionResultVisibility cr a ?c = Inr v" "m (cv_ID ?c) = Some (for_inspector a v)" by fastforce
      with Some assms(1) show ?thesis
        by (simp add: submissionVisibility_def ContestPolicy_def contestSubmissionVisibility_def)
    qed
  qed
qed

text \<open>The summaries of a page, one submission at a time.\<close>

lemma add_results_at:
  assumes "distinct (map sv_SubmissionID rows)"
  shows "add_results rows m k =
     (case List.find (\<lambda>r. sv_SubmissionID r = k) rows of
        None \<Rightarrow> m k | Some r \<Rightarrow> Some ((coalesce (m k) empty_summary)\<lparr>sl_Result := Some r\<rparr>))"
  using assms
proof (induction rows arbitrary: m)
  case (Cons r rows)
  have "List.find (\<lambda>x. sv_SubmissionID x = sv_SubmissionID r) rows = None"
    using Cons.prems by (auto simp: find_None_iff image_iff)
  with Cons show ?case by (auto split: option.splits)
qed simp

lemma add_attempts_at:
  assumes "distinct (map at_SubmissionID rows)" and "\<forall>a \<in> set rows. at_SubmissionID a \<noteq> None"
  shows "add_attempts rows m k =
     (case List.find (\<lambda>a. at_SubmissionID a = Some k) rows of
        None \<Rightarrow> m k | Some a \<Rightarrow> Some ((coalesce (m k) empty_summary)\<lparr>sl_LatestAttempt := Some a\<rparr>))"
  using assms
proof (induction rows arbitrary: m)
  case (Cons a rows)
  from Cons.prems obtain sid where sid: "at_SubmissionID a = Some sid" by auto
  then have "List.find (\<lambda>x. at_SubmissionID x = Some sid) rows = None"
    using Cons.prems(1) by (auto simp: find_None_iff image_iff)
  with sid Cons show ?case by (auto split: option.splits)
qed simp

lemma find_selected: "(\<And>x. P x \<Longrightarrow> Q x) \<Longrightarrow> List.find P (filter Q xs) = List.find P xs"
  by (induction xs) auto

lemma find_concat_groups:
  assumes "distinct ks" and "\<And>k x. x \<in> set (F k) \<Longrightarrow> key x = Some k"
  shows "List.find (\<lambda>x. key x = Some k) (concat (map (\<lambda>j. take 1 (F j)) ks))
      = (if k \<in> set ks \<and> F k \<noteq> [] then Some (hd (F k)) else None)"
  using assms(1)
proof (induction ks)
  case (Cons j ks)
  show ?case
  proof (cases "F j")
    case Nil
    with Cons show ?thesis by auto
  next
    case (Cons x xs)
    then have "key x = Some j" using assms(2) [of x j] by simp
    with Cons Cons.IH Cons.prems show ?thesis by auto
  qed
qed simp

lemma distinct_groups:
  assumes "distinct ks" and "\<And>k x. x \<in> set (F k) \<Longrightarrow> key x = Some k"
  shows "distinct (map key (concat (map (\<lambda>j. take 1 (F j)) ks)))"
  using assms(1)
proof (induction ks)
  case (Cons j ks)
  have "key x \<noteq> Some j" if "k \<in> set ks" "x \<in> set (take 1 (F k))" for k x
    using that assms(2) [of x k] Cons.prems by (auto dest: in_set_takeD)
  moreover have "map key (take 1 (F j)) = [] \<or> map key (take 1 (F j)) = [Some j]"
    using assms(2) [of "hd (F j)" j] by (cases "F j") auto
  ultimately show ?case using Cons by (auto simp: image_iff) (metis (no_types))
qed simp

lemma summary_at:
  assumes "distinct (map sv_SubmissionID (db_submission_results s))" and "k \<in> set ids"
  shows "case ListSubmissionSummaries ids b s k of
       None \<Rightarrow> List.find (\<lambda>r. sv_SubmissionID r = k) (db_submission_results s) = None
     | Some x \<Rightarrow> sl_Result x = List.find (\<lambda>r. sv_SubmissionID r = k) (db_submission_results s)
         \<and> (b \<longrightarrow> sl_LatestAttempt x
              = (case sort_by attempt_order (filter (\<lambda>a. at_SubmissionID a = Some k) (db_attempts s)) of [] \<Rightarrow> None | a # _ \<Rightarrow> Some a))"
proof -
  let ?F = "\<lambda>sid. sort_by attempt_order (filter (\<lambda>a. at_SubmissionID a = Some sid) (db_attempts s))"
  let ?rows = "q_ListSubmissionResultsBySubmissionIDs ids s" and ?as = "q_ListLatestJudgeAttemptsBySubmissionIDs ids s"
  have F: "x \<in> set (?F j) \<Longrightarrow> at_SubmissionID x = Some j" for x j by simp
  have ids: "distinct (sort (remdups ids))" "k \<in> set (sort (remdups ids))" using assms(2) by simp_all
  have res: "add_results ?rows Map.empty k = map_option (\<lambda>r. empty_summary\<lparr>sl_Result := Some r\<rparr>)
      (List.find (\<lambda>r. sv_SubmissionID r = k) (db_submission_results s))"
  proof -
    have "distinct (map sv_SubmissionID ?rows)"
      using assms(1) by (simp add: q_ListSubmissionResultsBySubmissionIDs_def distinct_map_filter)
    moreover have "List.find (\<lambda>r. sv_SubmissionID r = k) ?rows = List.find (\<lambda>r. sv_SubmissionID r = k) (db_submission_results s)"
      unfolding q_ListSubmissionResultsBySubmissionIDs_def using assms(2) by (intro find_selected) auto
    ultimately show ?thesis by (auto simp: add_results_at coalesce_def split: option.splits)
  qed
  have att: "add_attempts ?as m k = (case ?F k of [] \<Rightarrow> m k
      | a # _ \<Rightarrow> Some ((coalesce (m k) empty_summary)\<lparr>sl_LatestAttempt := Some a\<rparr>))" for m
  proof -
    have "distinct (map at_SubmissionID ?as)"
      unfolding q_ListLatestJudgeAttemptsBySubmissionIDs_def by (rule distinct_groups [OF ids(1) F])
    moreover have "\<forall>a \<in> set ?as. at_SubmissionID a \<noteq> None"
      unfolding q_ListLatestJudgeAttemptsBySubmissionIDs_def by (auto dest!: in_set_takeD)
    moreover have "List.find (\<lambda>x. at_SubmissionID x = Some k) ?as = (case ?F k of [] \<Rightarrow> None | a # _ \<Rightarrow> Some a)"
      using find_concat_groups [where key = at_SubmissionID and F = ?F and k = k, OF ids(1) F] ids(2)
      unfolding q_ListLatestJudgeAttemptsBySubmissionIDs_def by (simp split: list.split)
    ultimately show ?thesis by (simp add: add_attempts_at split: list.split)
  qed
  show ?thesis using assms(2) res att
    by (auto simp: ListSubmissionSummaries_def Let_def coalesce_def empty_summary_def split: option.splits list.splits)
qed

lemma GetSubmissionResult_find:
  "GetSubmissionResult sid s =
     (case List.find (\<lambda>r. sv_SubmissionID r = sid) (db_submission_results s) of
        None \<Rightarrow> fail (NotFound ''submission_result.not_found'' ''submission result not found'') | Some r \<Rightarrow> Inr r)"
  by (simp add: GetSubmissionResult_def WithTx_def map_err_def q_GetSubmissionResultBySubmissionID_def select_row_def split: option.split)

lemma GetLatestJudgeAttempt_find:
  "GetLatestJudgeAttemptBySubmissionID sid s =
     (case sort_by attempt_order (filter (\<lambda>a. at_SubmissionID a = Some sid) (db_attempts s)) of
        [] \<Rightarrow> fail (NotFound ''judge_attempt.not_found'' ''judge attempt not found'') | a # _ \<Rightarrow> Inr a)"
  by (simp add: GetLatestJudgeAttemptBySubmissionID_def WithTx_def map_err_def q_GetLatestJudgeAttemptBySubmissionID_def
      latest_attempt_def split: list.split)

lemma list_view_details:
  assumes "distinct (map sv_SubmissionID (db_submission_results s))" and "m (su_ID r) = Some v"
    and "shows_result m r \<Longrightarrow> su_ID r \<in> set ids" and "shows_result m r \<Longrightarrow> ShowAdminDiagnostics v \<Longrightarrow> b"
  shows "\<exists>x. view_details r v s = Inr x \<and> list_view m (ListSubmissionSummaries ids b s) r = x\<lparr>vw_Cases := []\<rparr>"
proof (cases "shows_result m r")
  case False
  with assms(2) show ?thesis
    by (auto simp: list_view_def view_details_def shows_result_def plain_view_def coalesce_def Let_def)
next
  case True
  then have shown: "ShowResult v" "terminalStatus (su_Status r)" using assms(2) by (auto simp: shows_result_def coalesce_def)
  note at = summary_at [OF assms(1) assms(3) [OF True], of b]
  show ?thesis
  proof (cases "List.find (\<lambda>x. sv_SubmissionID x = su_ID r) (db_submission_results s)")
    case None
    with at True shown assms(2) show ?thesis
      by (auto simp: list_view_def view_details_def GetSubmissionResult_find plain_view_def coalesce_def Let_def split: option.splits)
  next
    case (Some res)
    with at obtain x where x: "ListSubmissionSummaries ids b s (su_ID r) = Some x" "sl_Result x = Some res"
      and att: "b \<Longrightarrow> sl_LatestAttempt x
        = (case sort_by attempt_order (filter (\<lambda>a. at_SubmissionID a = Some (su_ID r)) (db_attempts s)) of [] \<Rightarrow> None | a # _ \<Rightarrow> Some a)"
      by (auto split: option.splits)
    with Some True shown assms(2) assms(4) [OF True] show ?thesis
      by (auto simp: list_view_def view_details_def GetSubmissionResult_find GetLatestJudgeAttempt_find plain_view_def
          coalesce_def Let_def split: list.splits)
  qed
qed

text \<open>
  C8: A listing shows of each submission what its own page shows, the test cases apart. The listing asks the contest
  policy once for a whole page, caches contests and roles, and fetches results and attempts in two queries;
  under the contest policy every view of the page is the single view with its cases left out, so the freeze
  and the diagnostics rules cannot be got around by listing.
\<close>

theorem listed_views_agree:
  assumes "sr_policy rd = Some (ContestPolicy cr)" and "submissionListViews rd a rs s = Inr views"
    and "distinct (map su_ID rs)" and "distinct (map sv_SubmissionID (db_submission_results s))"
  shows "list_all2 (\<lambda>r view. \<exists>v. submissionView rd a r s = Inr v \<and> view = v\<lparr>vw_Cases := []\<rparr>) rs views"
proof -
  from assms(2) obtain m where m: "submissionListVisibilities rd a rs = Inr m"
    and views: "views = map (list_view m (ListSubmissionSummaries (map su_ID (filter (shows_result m) rs))
        (\<exists>r \<in> set rs. shows_result m r \<and> ShowAdminDiagnostics (coalesce (m (su_ID r)) zero_visibility)) s)) rs"
    by (auto simp: submissionListViews_def Let_def)
  have "\<exists>x. submissionView rd a r s = Inr x \<and> list_view m (ListSubmissionSummaries (map su_ID (filter (shows_result m) rs))
        (\<exists>r \<in> set rs. shows_result m r \<and> ShowAdminDiagnostics (coalesce (m (su_ID r)) zero_visibility)) s) r = x\<lparr>vw_Cases := []\<rparr>"
    if "r \<in> set rs" for r
  proof -
    from list_visibilities_each [OF assms(1) m assms(3) that] obtain v where
      v: "submissionVisibility rd a r = Inr v" "m (su_ID r) = Some v" by blast
    have "shows_result m r \<Longrightarrow> su_ID r \<in> set (map su_ID (filter (shows_result m) rs))" using that by auto
    moreover have "shows_result m r \<Longrightarrow> ShowAdminDiagnostics v \<Longrightarrow>
        \<exists>r \<in> set rs. shows_result m r \<and> ShowAdminDiagnostics (coalesce (m (su_ID r)) zero_visibility)"
      using that v(2) by (force simp: coalesce_def)
    ultimately show ?thesis using list_view_details [of s m r v, OF assms(4) v(2)] v(1) by (simp add: submissionView_def)
  qed
  then show ?thesis unfolding views by (simp add: list_all2_map2 list_all2_same)
qed

text \<open>
  What the freeze hides. While a contest is frozen, a contestant who opens a submission made or judged since
  gets the marker \<^verbatim>\<open>frozen\<close> and neither result nor cases nor diagnostics; but the status field of the response
  is the status of the row, which is the verdict once the submission is judged.
\<close>

theorem frozen_submission_view:
  assumes "sr_policy rd = Some (ContestPolicy cr)" and "GetSubmission sid s = Inr r" and "su_ContestID r = Some cid"
    and "SubmissionResultVisibility cr a (contestSubmissionVisibility r cid) = Inr v" and "Visibility v = ''frozen''"
    and "reader_GetSubmission rd a sid s = Inr view"
  shows "vw_Result view = None \<and> vw_Cases view = [] \<and> vw_AdminDiagnostics view = None
     \<and> js_Visibility (submissionResponse view) = ''frozen'' \<and> js_Status (submissionResponse view) = su_Status r"
proof -
  from assms(4,5) have "\<not> ShowResult v" by (auto simp: SubmissionResultVisibility_def submissionResultVisibility_def split: if_splits)
  with assms(1,2,3,4,6) have "view = plain_view r (Visibility v)"
    by (auto simp: reader_GetSubmission_def submissionView_def submissionVisibility_def ContestPolicy_def view_details_def
        for_inspector_def Let_def split: if_splits)
  with assms(5) show ?thesis by (simp add: plain_view_def submissionResponse_def)
qed

lemma CanReadSubmissionSource_True:
  "CanReadSubmissionSource cr a sub = Inr True \<Longrightarrow> \<exists>contest scoped. rd_GetContest cr (cv_ContestID sub) = Inr contest
     \<and> actorWithContestRoles cr a (cv_ContestID sub) = Inr scoped \<and> canViewContestResults scoped contest"
  by (cases "rd_GetContest cr (cv_ContestID sub)"; cases "actorWithContestRoles cr a (cv_ContestID sub)")
    (auto simp: CanReadSubmissionSource_def split: sum.splits)

text \<open>
  C33: Who reads a source. A source is returned only to its author, to holders of \<^verbatim>\<open>judge.inspect\<close>, and to the staff of
  the contest it was submitted to; and what is returned is the object of the submission's own artifact.
\<close>

theorem source_readers:
  assumes "sr_policy rd = Some (ContestPolicy cr)" and "GetSubmissionSource rd a sid w = Inr (source, lang)"
  shows "\<exists>r artifact get. GetSubmission sid (wd_judging w) = Inr r \<and> sr_sources rd = Some get
     \<and> GetArtifact (coalesce (su_SourceArtifactID r) 0) w = Inr artifact \<and> get (af_StorageKey artifact) = Inr source
     \<and> (canInspectSubmissions a \<or> Authenticated a \<and> ac_UserID a = su_UserID r
        \<or> (\<exists>cid contest scoped. su_ContestID r = Some cid \<and> rd_GetContest cr cid = Inr contest
             \<and> actorWithContestRoles cr a cid = Inr scoped \<and> canViewContestResults scoped contest))"
proof -
  from assms(2) obtain r get artifact where g: "GetSubmission sid (wd_judging w) = Inr r" "authorizeSourceRead rd a r = Inr ()"
    "sr_sources rd = Some get" "GetArtifact (coalesce (su_SourceArtifactID r) 0) w = Inr artifact" "get (af_StorageKey artifact) = Inr source"
    by (auto simp: GetSubmissionSource_def split: option.splits)
  from g(2) assms(1) have "own_or_inspected a r \<or> (\<exists>cid contest scoped. su_ContestID r = Some cid \<and> rd_GetContest cr cid = Inr contest
      \<and> actorWithContestRoles cr a cid = Inr scoped \<and> canViewContestResults scoped contest)"
    by (auto simp: authorizeSourceRead_def ContestPolicy_def contestSubmissionVisibility_def
        split: if_splits option.splits dest!: CanReadSubmissionSource_True)
  with g show ?thesis by (auto simp: own_or_inspected_def)
qed

subsection \<open>Examples\<close>

text \<open>A contestant's submission in the frozen hour of the sample contest, judged since.\<close>

definition contestant :: actor where
  "contestant = \<lparr>ac_UserID = 4, ac_Roles = [], ac_Permissions = [], ac_Role = [], ac_DeviceID = [], ac_RequestID = []\<rparr>"

definition frozen_hour :: contest_reader where
  "frozen_hour = \<lparr>rd_GetContest = (\<lambda>cid. Inr sample_contest), rd_ListContestProblems = (\<lambda>_. Inr [sample_problem]),
     rd_ListRegistrations = (\<lambda>_. Inr []), rd_GetRegistration = (\<lambda>_ _. Inl ErrNoRows), rd_roles = None, rd_now = 280 * Minute\<rparr>"

definition contest_views :: submission_reader where
  "contest_views = \<lparr>sr_policy = Some (ContestPolicy frozen_hour), sr_sources = Some (\<lambda>key. Inr key)\<rparr>"

definition frozen_submission :: submission_row where
  "frozen_submission = \<lparr>su_ID = 1, su_UserID = 4, su_ProblemID = 10, su_ContestID = Some 7, su_LanguageID = 3, su_TestcaseSetID = 4,
     su_Status = ''accepted'', su_SourceArtifactID = Some 5, su_TimeMs = Some 10, su_MemoryKb = Some 64, su_Score = 0,
     su_ErrorMessage = None, su_SubmittedAt = 250 * Minute, su_JudgedAt = Some (251 * Minute), su_FirstJudgedAt = None,
     su_UpdatedAt = 251 * Minute\<rparr>"

definition frozen_store :: store where
  "frozen_store = empty_store\<lparr>db_submissions := [frozen_submission, frozen_submission\<lparr>su_ID := 2, su_ContestID := None\<rparr>]\<rparr>"

theorem listed_views_agree_witness:
  "case submissionListViews contest_views contestant (db_submissions frozen_store) frozen_store of Inl e \<Rightarrow> False
   | Inr views \<Rightarrow> map vw_Visibility views = [''frozen'', ''visible'']
       \<and> list_all2 (\<lambda>r view. \<exists>v. submissionView contest_views contestant r frozen_store = Inr v \<and> view = v\<lparr>vw_Cases := []\<rparr>)
           (db_submissions frozen_store) views"
proof -
  let ?l = "submissionListViews contest_views contestant (db_submissions frozen_store) frozen_store"
  have l: "case ?l of Inl e \<Rightarrow> False | Inr views \<Rightarrow> map vw_Visibility views = [''frozen'', ''visible'']" by code_simp
  then obtain views where views: "?l = Inr views" by (auto split: sum.splits)
  have "sr_policy contest_views = Some (ContestPolicy frozen_hour)" "distinct (map su_ID (db_submissions frozen_store))"
    "distinct (map sv_SubmissionID (db_submission_results frozen_store))"
    by (simp_all add: contest_views_def frozen_store_def frozen_submission_def empty_store_def)
  from listed_views_agree [OF this(1) views this(2,3)] views l show ?thesis by simp
qed

theorem frozen_submission_view_witness:
  "case reader_GetSubmission contest_views contestant 1 frozen_store of Inl e \<Rightarrow> False
   | Inr view \<Rightarrow> vw_Result view = None \<and> js_Visibility (submissionResponse view) = ''frozen''
       \<and> js_Status (submissionResponse view) = ''accepted''"
proof -
  let ?g = "reader_GetSubmission contest_views contestant 1 frozen_store"
    and ?v = "SubmissionResultVisibility frozen_hour contestant (contestSubmissionVisibility frozen_submission 7)"
  have "case ?g of Inl e \<Rightarrow> False | Inr view \<Rightarrow> True" by code_simp
  then obtain view where g: "?g = Inr view" by (auto split: sum.splits)
  have "case ?v of Inl e \<Rightarrow> False | Inr v \<Rightarrow> Visibility v = ''frozen''" by code_simp
  then obtain v where v: "?v = Inr v" "Visibility v = ''frozen''" by (auto split: sum.splits)
  have r: "GetSubmission 1 frozen_store = Inr frozen_submission"
    by (simp add: GetSubmission_def WithTx_def q_GetSubmissionByID_def select_row_def frozen_store_def frozen_submission_def)
  have "sr_policy contest_views = Some (ContestPolicy frozen_hour)" "su_ContestID frozen_submission = Some 7"
    by (simp_all add: contest_views_def frozen_submission_def)
  from frozen_submission_view [OF this(1) r this(2) v g] g show ?thesis by (simp add: frozen_submission_def)
qed

theorem source_readers_witness:
  "\<exists>source. GetSubmissionSource contest_views contestant 1
       \<lparr>wd_judging = frozen_store, wd_artifacts = [\<lparr>af_ID = 5, af_OwnerType = ''submission'', af_OwnerID = 4, af_Kind = ''source'',
          af_StorageKey = ''k'', af_ChecksumSha256 = ''c'', af_SizeBytes = 13, af_ContentType = ''text/plain'', af_CreatedAt = 900\<rparr>],
        wd_languages = [], wd_problems = sample_problem_store StatusPublished, wq_artifacts = 6, wq_languages = 4\<rparr>
      = Inr (source, 3) \<and> ac_UserID contestant = 4"
proof -
  let ?w = "\<lparr>wd_judging = frozen_store, wd_artifacts = [\<lparr>af_ID = 5, af_OwnerType = ''submission'', af_OwnerID = 4, af_Kind = ''source'',
          af_StorageKey = ''k'', af_ChecksumSha256 = ''c'', af_SizeBytes = 13, af_ContentType = ''text/plain'', af_CreatedAt = 900\<rparr>],
        wd_languages = [], wd_problems = sample_problem_store StatusPublished, wq_artifacts = 6, wq_languages = 4\<rparr>"
  have "case GetSubmissionSource contest_views contestant 1 ?w of Inl e \<Rightarrow> False | Inr (source, l) \<Rightarrow> source = ''k'' \<and> l = 3" by code_simp
  then have g: "GetSubmissionSource contest_views contestant 1 ?w = Inr (''k'', 3)" by (auto split: sum.splits)
  have "sr_policy contest_views = Some (ContestPolicy frozen_hour)" by (simp add: contest_views_def)
  from source_readers [OF this g] g show ?thesis by (auto simp: contestant_def)
qed

end
