(* ===== verification/Submission_Services.thy ===== *)
theory Submission_Services
  imports Submission_Reader Worker
begin

section \<open>Creating submissions and runs (\<^verbatim>\<open>submission_creator.go\<close>, \<^verbatim>\<open>run_service.go\<close>, \<^verbatim>\<open>storage.go\<close>)\<close>

text \<open>
  The services that write: submissions, self-runs, the language catalog and rejudge batches. They make several
  calls, to object storage and to the repository, and other processes run in between. Object storage, the
  hash and the random nonce of a key are parameters; request deadlines and the refresh of the statistics cache
  are not modelled.
\<close>

subsection \<open>Calls on the whole state\<close>

definition site_call :: "('q world \<Rightarrow> 'q world) \<Rightarrow> (site \<Rightarrow> 'a res \<times> site) \<Rightarrow> ('q world, 'a) action" where
  "site_call others op = call others (\<lambda>(w, q). case op w of (r, w') \<Rightarrow> (r, (w', q)))"

definition check_act :: "unit res \<Rightarrow> ('w, unit) action" where
  "check_act r = (case r of Inl e \<Rightarrow> fail_act e | Inr _ \<Rightarrow> return_act ())"

subsection \<open>Source storage (\<^verbatim>\<open>ObjectSourceStore\<close>)\<close>

text \<open>Object storage: what to put under a key, the key it reports, what to delete, what is there.\<close>

record 'q object_storage =
  ob_Put :: "string \<Rightarrow> string \<Rightarrow> string \<Rightarrow> 'q \<Rightarrow> string res \<times> 'q"
  ob_Delete :: "string \<Rightarrow> 'q \<Rightarrow> unit res \<times> 'q"
  ob_Get :: "string \<Rightarrow> 'q \<Rightarrow> string res"

record 'q source_store =
  st_storage :: "'q object_storage option"
  st_sha256hex :: "string \<Rightarrow> string"
  st_nonce :: "'q \<Rightarrow> string res"

record source_object =
  so_StorageKey :: string
  so_ChecksumSHA256 :: string
  so_SizeBytes :: int64
  so_ContentType :: string

abbreviation source_content_type :: string where
  "source_content_type \<equiv> ''text/plain; charset=utf-8''"

definition source_key :: "string \<Rightarrow> int64 \<Rightarrow> string \<Rightarrow> string \<Rightarrow> string" where
  "source_key ownerType ownerID checksum nonce = ownerType @ ''/'' @ FormatInt ownerID @ ''/'' @ checksum @ ''-'' @ nonce"

definition source_Put :: "'q source_store \<Rightarrow> string \<Rightarrow> int64 \<Rightarrow> string \<Rightarrow> 'q \<Rightarrow> source_object res \<times> 'q" where
  "source_Put st ownerType ownerID source q =
     (case st_storage st of
        None \<Rightarrow> (fail (ServiceUnavailable ''object storage unavailable''), q)
      | Some storage \<Rightarrow>
          let checksum = st_sha256hex st source in
          (case st_nonce st q of
             Inl e \<Rightarrow> (Inl e, q)
           | Inr nonce \<Rightarrow>
               (case ob_Put storage (source_key ownerType ownerID checksum nonce) source_content_type source q of
                  (Inl e, q') \<Rightarrow> (Inl e, q')
                | (Inr key, q') \<Rightarrow>
                    (Inr \<lparr>so_StorageKey = key, so_ChecksumSHA256 = checksum, so_SizeBytes = int (length source),
                          so_ContentType = source_content_type\<rparr>, q'))))"

definition source_Delete :: "'q source_store \<Rightarrow> string \<Rightarrow> 'q \<Rightarrow> unit res \<times> 'q" where
  "source_Delete st key q =
     (case st_storage st of
        None \<Rightarrow> (fail (ServiceUnavailable ''object storage unavailable''), q)
      | Some storage \<Rightarrow> ob_Delete storage key q)"

definition source_Get :: "'q source_store \<Rightarrow> string \<Rightarrow> 'q \<Rightarrow> string res" where
  "source_Get st key q =
     (case st_storage st of
        None \<Rightarrow> fail (ServiceUnavailable ''object storage unavailable'')
      | Some storage \<Rightarrow> ob_Get storage key q)"

text \<open>The store of the tests keeps the objects in a map; its keys have no nonce.\<close>

definition memory_Put ::
  "(string \<Rightarrow> string) \<Rightarrow> string \<Rightarrow> int64 \<Rightarrow> string \<Rightarrow> (string \<Rightarrow> string option) \<Rightarrow> source_object res \<times> (string \<Rightarrow> string option)" where
  "memory_Put sha256hex ownerType ownerID source objects =
     (let checksum = sha256hex source; key = ownerType @ ''/'' @ FormatInt ownerID @ ''/'' @ checksum in
      (Inr \<lparr>so_StorageKey = key, so_ChecksumSHA256 = checksum, so_SizeBytes = int (length source),
            so_ContentType = source_content_type\<rparr>, objects(key \<mapsto> source)))"

definition memory_Delete :: "string \<Rightarrow> (string \<Rightarrow> string option) \<Rightarrow> unit res \<times> (string \<Rightarrow> string option)" where
  "memory_Delete key objects = (Inr (), objects(key := None))"

definition memory_Get :: "string \<Rightarrow> (string \<Rightarrow> string option) \<Rightarrow> string res" where
  "memory_Get key objects =
     (case objects key of None \<Rightarrow> fail (NotFound ''source_not_found'' ''source artifact not found'') | Some s \<Rightarrow> Inr s)"

subsection \<open>Creating a submission\<close>

record create_submission_input =
  cs_ProblemID :: int64
  cs_ContestID :: "int64 option"
  cs_LanguageID :: int64
  cs_Source :: string

record 'q submission_creator =
  sb_others :: "'q world \<Rightarrow> 'q world"
  sb_sources :: "'q source_store"
  sb_contests :: "(site \<Rightarrow> contest_reader) option"

text \<open>What both services do once the request is valid: upload the source, then record it.\<close>

definition create_source ::
  "('q world \<Rightarrow> 'q world) \<Rightarrow> 'q source_store \<Rightarrow> string \<Rightarrow> int64 \<Rightarrow> string \<Rightarrow> ('q world, artifact_row) action" where
  "create_source others st owner uid source =
     bind_act (queue_call others (source_Put st owner uid source)) (\<lambda>object.
       site_call others (CreateArtifact owner uid ''source'' (so_StorageKey object) (so_ChecksumSHA256 object)
         (so_SizeBytes object) (so_ContentType object)))"

definition CreateSubmission ::
  "'q submission_creator \<Rightarrow> actor \<Rightarrow> create_submission_input \<Rightarrow> ('q world, submission_row \<times> judge_task_row) action" where
  "CreateSubmission c a input =
     (if \<not> Authenticated a then fail_act (AppErr (Unauthorized ''auth_required'' ''authentication required''))
      else if cs_Source input = [] then fail_act (AppErr (BadRequest ''source_required'' ''source is required''))
      else bind_act (read_call (sb_others c) (\<lambda>w q. GetForJudge (cs_ProblemID input) (wd_problems w))) (\<lambda>problemForJudge.
           bind_act (case (cs_ContestID input, sb_contests c) of
               (Some cid, Some contests) \<Rightarrow> read_call (sb_others c) (\<lambda>w q. ValidateSubmission (contests w) a (cs_ProblemID input) cid)
             | _ \<Rightarrow> return_act ()) (\<lambda>_.
           bind_act (read_call (sb_others c) (\<lambda>w q. GetLanguage (cs_LanguageID input) w)) (\<lambda>language.
           bind_act (check_act (requireLanguageEnabled language)) (\<lambda>_.
           bind_act (create_source (sb_others c) (sb_sources c) ''submission'' (ac_UserID a) (cs_Source input)) (\<lambda>artifact.
           bind_act now_act (\<lambda>now.
             store_call (sb_others c) (CreateSubmissionWithTask
               \<lparr>si_UserID = ac_UserID a, si_ProblemID = cs_ProblemID input, si_ContestID = cs_ContestID input,
                si_LanguageID = cs_LanguageID input, si_TestcaseSetID = jp_CurrentTestcaseSetID problemForJudge,
                si_Status = StatusQueued, si_SourceArtifactID = af_ID artifact\<rparr> now))))))))"

subsection \<open>The slots of the inline executor\<close>

record run_pool =
  po_parallelism :: nat
  po_slots :: nat
  po_closing :: bool
  po_canceled :: bool

definition reserveExecution :: "run_pool \<Rightarrow> unit res \<times> run_pool" where
  "reserveExecution pool =
     (if po_closing pool \<or> po_canceled pool
      then (fail (ServiceUnavailable ''run execution is shutting down''), pool)
      else if po_slots pool < po_parallelism pool then (Inr (), pool\<lparr>po_slots := po_slots pool + 1\<rparr>)
      else (fail (ServiceUnavailable ''run execution capacity exhausted''), pool))"

definition releaseExecution :: "run_pool \<Rightarrow> run_pool" where
  "releaseExecution pool = pool\<lparr>po_slots := po_slots pool - 1\<rparr>"

definition beginShutdown :: "run_pool \<Rightarrow> run_pool" where
  "beginShutdown pool = pool\<lparr>po_closing := True, po_canceled := True\<rparr>"

subsection \<open>Self-runs\<close>

record create_run_input =
  cr_ProblemID :: "int64 option"
  cr_LanguageID :: int64
  cr_Source :: string
  cr_Stdin :: string

record judge_run_request =
  jn_LanguageSlug :: string
  jn_Source :: string
  jn_Stdin :: string
  jn_Timeout :: duration
  jn_MemoryKB :: int64

text \<open>
  \<open>rs_runner\<close> is absent in queued mode. The pool is process state, a part of the environment; \<open>rs_polls\<close> is how often
  \<^verbatim>\<open>awaitRun\<close> reads the row before its deadline has passed.
\<close>

record 'q run_service =
  rs_others :: "'q world \<Rightarrow> 'q world"
  rs_sources :: "'q source_store"
  rs_runner :: "(judge_run_request \<Rightarrow> 'q \<Rightarrow> judge_result res \<times> 'q) option"
  rs_pool :: "'q \<Rightarrow> run_pool"
  rs_put_pool :: "run_pool \<Rightarrow> 'q \<Rightarrow> 'q"
  rs_maxStdin :: int
  rs_maxPerUser :: int
  rs_polls :: nat

definition NewRunService ::
  "('q world \<Rightarrow> 'q world) \<Rightarrow> 'q source_store \<Rightarrow> (judge_run_request \<Rightarrow> 'q \<Rightarrow> judge_result res \<times> 'q) option \<Rightarrow> ('q \<Rightarrow> run_pool)
   \<Rightarrow> (run_pool \<Rightarrow> 'q \<Rightarrow> 'q) \<Rightarrow> int \<Rightarrow> int \<Rightarrow> nat \<Rightarrow> 'q run_service" where
  "NewRunService others sources runner pool put_pool maxStdin maxPerUser polls =
     \<lparr>rs_others = others, rs_sources = sources, rs_runner = runner, rs_pool = pool, rs_put_pool = put_pool,
      rs_maxStdin = (if maxStdin \<le> 0 then 65536 else maxStdin), rs_maxPerUser = (if maxPerUser \<le> 0 then 2 else maxPerUser),
      rs_polls = polls\<rparr>"

definition pool_call :: "'q run_service \<Rightarrow> (run_pool \<Rightarrow> 'a res \<times> run_pool) \<Rightarrow> ('q world, 'a) action" where
  "pool_call rs f = queue_call (rs_others rs) (\<lambda>q. case f (rs_pool rs q) of (r, pool) \<Rightarrow> (r, rs_put_pool rs pool q))"

text \<open>Both results are dropped.\<close>

definition discardSource :: "'q run_service \<Rightarrow> artifact_row \<Rightarrow> ('q world, unit) action" where
  "discardSource rs artifact =
     bind_act (ignore_act (queue_call (rs_others rs) (source_Delete (rs_sources rs) (af_StorageKey artifact)))) (\<lambda>_.
       ignore_act (site_call (rs_others rs) (DeleteArtifact (af_ID artifact))))"

definition admit_source :: "'q run_service \<Rightarrow> actor \<Rightarrow> create_run_input \<Rightarrow> bool \<Rightarrow> ('q world, run_row) action" where
  "admit_source rs a input inline =
     bind_act (create_source (rs_others rs) (rs_sources rs) ''run'' (ac_UserID a) (cr_Source input)) (\<lambda>artifact.
     bind_act now_act (\<lambda>now.
     try_act (store_call (rs_others rs) (AdmitRun
         \<lparr>ai_UserID = ac_UserID a, ai_ProblemID = cr_ProblemID input, ai_LanguageID = cr_LanguageID input,
          ai_Status = (if inline then StatusRunning else StatusQueued), ai_SourceArtifactID = af_ID artifact,
          ai_Stdin = cr_Stdin input, ai_MaxActive = rs_maxPerUser rs, ai_Enqueue = \<not> inline, ai_NextRunAt = now\<rparr>))
       (\<lambda>e. bind_act (discardSource rs artifact) (\<lambda>_. fail_act e))
       return_act))"

fun poll_run :: "('q world \<Rightarrow> 'q world) \<Rightarrow> int64 \<Rightarrow> nat \<Rightarrow> ('q world, run_row) action" where
  "poll_run others rid 0 = read_call others (\<lambda>w q. GetRun rid (wd_judging w))"
| "poll_run others rid (Suc n) =
     bind_act (read_call others (\<lambda>w q. GetRun rid (wd_judging w))) (\<lambda>current.
       if terminalStatus (ru_Status current) then return_act current else poll_run others rid n)"

definition awaitRun :: "'q run_service \<Rightarrow> run_row \<Rightarrow> ('q world, run_row) action" where
  "awaitRun rs run =
     (if terminalStatus (ru_Status run) then return_act run else poll_run (rs_others rs) (ru_ID run) (rs_polls rs))"

text \<open>
  The execution that an inline run starts (\<open>completeRunAsync\<close>, below) goes on beside the request: it is one of the
  others from then on, and the slot is its own.
\<close>

definition CreateRun :: "'q run_service \<Rightarrow> actor \<Rightarrow> create_run_input \<Rightarrow> ('q world, run_row) action" where
  "CreateRun rs a input =
     (if \<not> Authenticated a then fail_act (AppErr (Unauthorized ''auth_required'' ''authentication required''))
      else if cr_Source input = [] then fail_act (AppErr (BadRequest ''source_required'' ''source is required''))
      else if int (length (cr_Stdin input)) > rs_maxStdin rs
      then fail_act (AppErr (Unprocessable ''run.stdin_too_large'' ''stdin exceeds the maximum allowed size''))
      else bind_act (case cr_ProblemID input of
               None \<Rightarrow> return_act ()
             | Some pid \<Rightarrow> bind_act (read_call (rs_others rs) (\<lambda>w q. GetForJudge pid (wd_problems w))) (\<lambda>_. return_act ())) (\<lambda>_.
           bind_act (read_call (rs_others rs) (\<lambda>w q. GetLanguage (cr_LanguageID input) w)) (\<lambda>language.
           bind_act (check_act (requireLanguageEnabled language)) (\<lambda>_.
             case rs_runner rs of
               None \<Rightarrow> bind_act (admit_source rs a input False) (awaitRun rs)
             | Some _ \<Rightarrow>
                 bind_act (pool_call rs reserveExecution) (\<lambda>_.
                 try_act (admit_source rs a input True)
                   (\<lambda>e. bind_act (pool_call rs (\<lambda>pool. (Inr (), releaseExecution pool))) (\<lambda>_. fail_act e))
                   (awaitRun rs))))))"

definition completeRunAsync ::
  "'q run_service \<Rightarrow> (judge_run_request \<Rightarrow> 'q \<Rightarrow> judge_result res \<times> 'q) \<Rightarrow> int64 \<Rightarrow> language_record \<Rightarrow> string \<Rightarrow> string
   \<Rightarrow> ('q world, unit) action" where
  "completeRunAsync rs runner runID language source stdin =
     bind_act (try_act (queue_call (rs_others rs) (runner
         \<lparr>jn_LanguageSlug = lr_EngineLanguageID language, jn_Source = source, jn_Stdin = stdin,
          jn_Timeout = lr_DefaultTimeLimit language, jn_MemoryKB = lr_DefaultMemoryKB language\<rparr>))
       (\<lambda>e. bind_act now_act (\<lambda>now. return_act (empty_result\<lparr>jr_Verdict := VerdictSystemError, jr_ErrorMessage := error_text e,
              jr_JudgedAt := now\<rparr>)))
       return_act) (\<lambda>result.
     bind_act (ignore_act (store_call (rs_others rs) (UpdateRunStatus runID result))) (\<lambda>_.
       pool_call rs (\<lambda>pool. (Inr (), releaseExecution pool))))"

definition service_GetRun :: "('q world \<Rightarrow> 'q world) \<Rightarrow> actor \<Rightarrow> int64 \<Rightarrow> ('q world, run_row) action" where
  "service_GetRun others a rid =
     bind_act (read_call others (\<lambda>w q. GetRun rid (wd_judging w))) (\<lambda>r.
       if \<not> canInspectSubmissions a \<and> (\<not> Authenticated a \<or> ac_UserID a \<noteq> ru_UserID r)
       then fail_act (AppErr (Forbidden ''run.not_allowed'' ''run access denied'')) else return_act r)"

definition CompleteRun :: "('q world \<Rightarrow> 'q world) \<Rightarrow> int64 \<Rightarrow> judge_result \<Rightarrow> ('q world, run_row) action" where
  "CompleteRun others runID result =
     bind_act (read_call others (\<lambda>w q. GetRun runID (wd_judging w))) (\<lambda>current.
       if terminalStatus (ru_Status current) then return_act current
       else store_call others (UpdateRunStatus runID result))"

subsection \<open>The language catalog (\<^verbatim>\<open>language_service.go\<close>)\<close>

definition authorizeLanguageAdmin :: "actor \<Rightarrow> unit res" where
  "authorizeLanguageAdmin a =
     (case Authorize (NewSubject a) PermissionSystemManage of
        Inl _ \<Rightarrow> fail (Forbidden ''forbidden'' ''required permission is missing'') | Inr _ \<Rightarrow> Inr ())"

definition service_ListLanguages ::
  "(string \<Rightarrow> string \<Rightarrow> bool) \<Rightarrow> actor \<Rightarrow> list_languages_input \<Rightarrow> site \<Rightarrow> (language_record list \<times> int64) res" where
  "service_ListLanguages collate a i w =
     bind_res (authorizeLanguageAdmin a) (\<lambda>_. repo_ListLanguages collate (i\<lparr>ll_Limit := limit_or (ll_Limit i) 50\<rparr>) w)"

definition ListPublicLanguages ::
  "(string \<Rightarrow> string \<Rightarrow> bool) \<Rightarrow> list_languages_input \<Rightarrow> site \<Rightarrow> (language_record list \<times> int64) res" where
  "ListPublicLanguages collate i w =
     repo_ListLanguages collate (i\<lparr>ll_Enabled := Some True, ll_Limit := limit_or (ll_Limit i) 50\<rparr>) w"

definition UpdateLanguage :: "actor \<Rightarrow> int64 \<Rightarrow> update_language_input \<Rightarrow> site \<Rightarrow> language_record res \<times> site" where
  "UpdateLanguage a lid i w =
     (case authorizeLanguageAdmin a of Inl e \<Rightarrow> (Inl e, w) | Inr _ \<Rightarrow> repo_UpdateLanguage lid i (ac_UserID a) w)"

subsection \<open>Rejudge batches (\<^verbatim>\<open>rejudge.go\<close>)\<close>

record list_batches_input =
  lb_ProblemID :: "int64 option"
  lb_ContestID :: "int64 option"
  lb_RequestedBy :: "int64 option"
  lb_Status :: "string option"
  lb_Offset :: int32
  lb_Limit :: int32

definition batch_selected :: "list_batches_input \<Rightarrow> rejudge_batch_row \<Rightarrow> bool" where
  "batch_selected i b \<longleftrightarrow>
     (lb_ProblemID i = None \<or> lb_ProblemID i = ba_ProblemID b) \<and> (lb_ContestID i = None \<or> lb_ContestID i = ba_ContestID b)
     \<and> (lb_RequestedBy i = None \<or> lb_RequestedBy i = Some (ba_RequestedBy b)) \<and> (lb_Status i = None \<or> lb_Status i = Some (ba_Status b))"

definition newest_batch_first :: "rejudge_batch_row \<Rightarrow> rejudge_batch_row \<Rightarrow> bool" where
  "newest_batch_first a b \<longleftrightarrow> ba_CreatedAt a > ba_CreatedAt b \<or> ba_CreatedAt a = ba_CreatedAt b \<and> ba_ID a > ba_ID b"

definition q_ListRejudgeBatches :: "list_batches_input \<Rightarrow> store \<Rightarrow> rejudge_batch_row list res" where
  "q_ListRejudgeBatches i s =
     paged (lb_Offset i) (lb_Limit i) (sort_by newest_batch_first (filter (batch_selected i) (db_batches s)))"

definition q_CountRejudgeBatches :: "list_batches_input \<Rightarrow> store \<Rightarrow> int64" where
  "q_CountRejudgeBatches i s = int (length (filter (batch_selected i) (db_batches s)))"

definition GetRejudgeBatch :: "int64 \<Rightarrow> store \<Rightarrow> rejudge_batch_row res" where
  "GetRejudgeBatch bid s =
     fst (WithTx (map_err (mapNotFound ''rejudge.not_found'' ''rejudge batch not found'') (q_GetRejudgeBatchByID bid)) s)"

definition ListRejudgeBatches :: "list_batches_input \<Rightarrow> store \<Rightarrow> (rejudge_batch_row list \<times> int64) res" where
  "ListRejudgeBatches i s = bind_res (q_ListRejudgeBatches i s) (\<lambda>rows. Inr (rows, q_CountRejudgeBatches i s))"

definition repo_ListRejudgeBatchItems :: "int64 \<Rightarrow> store \<Rightarrow> rejudge_item_row list res" where
  "repo_ListRejudgeBatchItems bid s = fst (WithTx (q_ListRejudgeBatchItems bid) s)"

record 'q rejudge_service =
  rj_others :: "'q world \<Rightarrow> 'q world"
  rj_contests :: "site \<Rightarrow> contest_reader"

record create_rejudge_input =
  ri_ProblemID :: "int64 option"
  ri_ContestID :: "int64 option"
  ri_Reason :: string

definition canRejudge :: "actor \<Rightarrow> bool" where
  "canRejudge a \<longleftrightarrow> Authorize (NewSubject a) PermissionSubmissionRejudge = Inr ()"

definition authorize_rejudge :: "'q rejudge_service \<Rightarrow> actor \<Rightarrow> int64 option \<Rightarrow> int64 option \<Rightarrow> ('q world, unit) action" where
  "authorize_rejudge rj a problemID contestID =
     (case problemID of
        Some pid \<Rightarrow> read_call (rj_others rj) (\<lambda>w q. AuthorizeProblemRejudge a pid (wd_problems w))
      | None \<Rightarrow>
          (case contestID of
             Some cid \<Rightarrow> read_call (rj_others rj) (\<lambda>w q. AuthorizeContestRejudge (rj_contests rj w) a cid)
           | None \<Rightarrow> fail_act (AppErr (BadRequest ''rejudge.target_invalid'' ''exactly one rejudge target is required''))))"

definition CreateBatch :: "'q rejudge_service \<Rightarrow> actor \<Rightarrow> create_rejudge_input \<Rightarrow> ('q world, rejudge_batch_row) action" where
  "CreateBatch rj a input =
     (let reason = TrimSpace (ri_Reason input) in
      if \<not> Authenticated a then fail_act (AppErr (Unauthorized ''auth_required'' ''authentication required''))
      else if (ri_ProblemID input = None) = (ri_ContestID input = None)
      then fail_act (AppErr (BadRequest ''rejudge.target_invalid'' ''exactly one rejudge target is required''))
      else if reason = [] then fail_act (AppErr (BadRequest ''rejudge.reason_required'' ''rejudge reason is required''))
      else if length reason > 500
      then fail_act (AppErr (BadRequest ''rejudge.reason_invalid'' ''rejudge reason must not exceed 500 bytes''))
      else bind_act (authorize_rejudge rj a (ri_ProblemID input) (ri_ContestID input)) (\<lambda>_.
           bind_act (case ri_ContestID input of
               None \<Rightarrow> return_act ()
             | Some cid \<Rightarrow> read_call (rj_others rj) (\<lambda>w q. ValidateContestRejudgeTarget (rj_contests rj w) cid)) (\<lambda>_.
           bind_act now_act (\<lambda>now.
           try_act (store_call (rj_others rj) (CreateRejudgeBatchWithItems
               \<lparr>cbi_ProblemID = ri_ProblemID input, cbi_ContestID = ri_ContestID input, cbi_RequestedBy = ac_UserID a,
                cbi_Reason = reason, cbi_NextRunAt = now\<rparr>))
             (\<lambda>e. fail_act (if e = ErrNoRejudgeSubmissions
                  then AppErr (Unprocessable ''rejudge.no_submissions'' ''no eligible terminal submissions found'') else e))
             return_act))))"

definition GetBatch :: "'q rejudge_service \<Rightarrow> actor \<Rightarrow> int64 \<Rightarrow> ('q world, rejudge_batch_row \<times> rejudge_item_row list) action" where
  "GetBatch rj a bid =
     (if \<not> Authenticated a then fail_act (AppErr (Unauthorized ''auth_required'' ''authentication required''))
      else bind_act (read_call (rj_others rj) (\<lambda>w q. GetRejudgeBatch bid (wd_judging w))) (\<lambda>batch.
           bind_act (authorize_rejudge rj a (ba_ProblemID batch) (ba_ContestID batch)) (\<lambda>_.
           bind_act (read_call (rj_others rj) (\<lambda>w q. repo_ListRejudgeBatchItems bid (wd_judging w))) (\<lambda>items.
             return_act (batch, items)))))"

definition ListBatches :: "actor \<Rightarrow> list_batches_input \<Rightarrow> store \<Rightarrow> (rejudge_batch_row list \<times> int64) res" where
  "ListBatches a i s =
     bind_res (auth_required a) (\<lambda>_.
       ListRejudgeBatches (i\<lparr>lb_Limit := limit_or (lb_Limit i) 50,
         lb_Offset := (if sint (lb_Offset i) < 0 then 0 else lb_Offset i),
         lb_RequestedBy := (if canRejudge a then lb_RequestedBy i else Some (ac_UserID a))\<rparr>) s)"

definition CancelBatch :: "'q rejudge_service \<Rightarrow> actor \<Rightarrow> int64 \<Rightarrow> string \<Rightarrow> ('q world, rejudge_batch_row) action" where
  "CancelBatch rj a bid given =
     (let reason = TrimSpace given in
      if \<not> Authenticated a then fail_act (AppErr (Unauthorized ''auth_required'' ''authentication required''))
      else if reason = []
      then fail_act (AppErr (BadRequest ''rejudge.cancel_reason_required'' ''cancellation reason is required''))
      else if length reason > 500
      then fail_act (AppErr (BadRequest ''rejudge.reason_invalid'' ''cancellation reason must not exceed 500 bytes''))
      else bind_act (read_call (rj_others rj) (\<lambda>w q. GetRejudgeBatch bid (wd_judging w))) (\<lambda>batch.
           bind_act (authorize_rejudge rj a (ba_ProblemID batch) (ba_ContestID batch)) (\<lambda>_.
             store_call (rj_others rj) (CancelRejudgeBatch bid reason))))"

end
