(* ===== verification/Run_Retention.thy ===== *)
theory Run_Retention
  imports Submission_Services Worker_Refinement
begin

section \<open>Retention of self-runs (\<^verbatim>\<open>internal/submission/run_retention.go\<close>)\<close>

text \<open>
  The sweep that removes finished runs and their source objects, and run sources that no run points at.
  Storage is a parameter; cancellation of the sweep is not modelled.
\<close>

subsection \<open>The sweep\<close>

record 'q run_retention =
  rt_others :: "'q world \<Rightarrow> 'q world"
  rt_Delete :: "string \<Rightarrow> 'q \<Rightarrow> unit res \<times> 'q"
  rt_age :: duration
  rt_interval :: duration
  rt_batch :: int

record run_retention_result =
  rr_Scanned :: nat
  rr_Deleted :: nat
  rr_Failed :: nat
  rr_OrphanedArtifacts :: nat

definition NewRunRetention ::
  "('q world \<Rightarrow> 'q world) \<Rightarrow> (string \<Rightarrow> 'q \<Rightarrow> unit res \<times> 'q) \<Rightarrow> duration \<Rightarrow> duration \<Rightarrow> int \<Rightarrow> 'q run_retention" where
  "NewRunRetention others objects age interval batch =
     \<lparr>rt_others = others, rt_Delete = objects, rt_age = age, rt_interval = (if interval \<le> 0 then 10 * Minute else interval),
      rt_batch = (if batch \<le> 0 then 200 else batch)\<rparr>"

definition Enabled :: "'q run_retention \<Rightarrow> bool" where
  "Enabled r \<longleftrightarrow> rt_age r > 0"

definition delete_object :: "'q run_retention \<Rightarrow> string \<Rightarrow> ('q world, unit) action" where
  "delete_object r key = when_act (key \<noteq> []) (queue_call (rt_others r) (rt_Delete r key))"

definition deleteRun :: "'q run_retention \<Rightarrow> expired_run \<Rightarrow> ('q world, unit) action" where
  "deleteRun r run =
     bind_act (delete_object r (xr_StorageKey run)) (\<lambda>_.
       site_call (rt_others r) (DeleteExpiredRun (xr_ID run) (xr_SourceArtifactID run)))"

definition delete_orphan :: "'q run_retention \<Rightarrow> int64 \<times> string \<Rightarrow> ('q world, unit) action" where
  "delete_orphan r orphan =
     bind_act (delete_object r (snd orphan)) (\<lambda>_. site_call (rt_others r) (DeleteArtifact (fst orphan)))"

text \<open>A loop that counts the items it could not remove and goes on: how many were removed, how many were not.\<close>

fun count_each :: "('b \<Rightarrow> ('w, unit) action) \<Rightarrow> 'b list \<Rightarrow> nat \<times> nat \<Rightarrow> 'w \<Rightarrow> (nat \<times> nat) \<times> 'w" where
  "count_each body [] n w = (n, w)"
| "count_each body (x # xs) (done1, failed) w =
     (case body x w of
        (Inl _, w') \<Rightarrow> count_each body xs (done1, failed + 1) w'
      | (Inr _, w') \<Rightarrow> count_each body xs (done1 + 1, failed) w')"

context rely_guarantee
begin

lemma count_each_evolves:
  assumes "stable P" and "\<And>x. x \<in> set xs \<Longrightarrow> sat P (body x) (\<lambda>_ _. True)" and "P w"
  shows "evolves w (snd (count_each body xs n w))"
  using assms(2,3)
proof (induction xs arbitrary: n w)
  case (Cons x xs)
  obtain r w' where b: "body x w = (r, w')" by (cases "body x w")
  from satD [OF Cons.prems(1) [of x], of w] Cons.prems(2) b have ev: "evolves w w'" by simp
  with Cons.IH [of w'] stableD [OF assms(1) Cons.prems(2) ev] Cons.prems(1) have "evolves w' (snd (count_each body xs m w'))" for m by simp
  with b ev show ?case by (cases n; cases r) (auto intro: evolves_trans)
qed (simp add: evolves_refl)

end

definition sweepOrphanedArtifacts :: "'q run_retention \<Rightarrow> ('q world, nat) action" where
  "sweepOrphanedArtifacts r =
     bind_act now_act (\<lambda>now.
     bind_act (read_call (rt_others r) (\<lambda>w q. ListOrphanedRunArtifacts (now - rt_age r) (word_of_int (rt_batch r)) w)) (\<lambda>orphans w.
       case count_each (delete_orphan r) orphans (0, 0) w of ((removed, failed), w') \<Rightarrow> (Inr removed, w')))"

definition Sweep :: "'q run_retention \<Rightarrow> ('q world, run_retention_result) action" where
  "Sweep r =
     (if \<not> Enabled r then return_act \<lparr>rr_Scanned = 0, rr_Deleted = 0, rr_Failed = 0, rr_OrphanedArtifacts = 0\<rparr>
      else bind_act now_act (\<lambda>now.
           bind_act (read_call (rt_others r) (\<lambda>w q. ListExpiredRuns (now - rt_age r) (word_of_int (rt_batch r)) w)) (\<lambda>expired w.
             case count_each (deleteRun r) expired (0, 0) w of
               ((deleted, failed), w') \<Rightarrow>
                 bind_act (sweepOrphanedArtifacts r) (\<lambda>orphans.
                   return_act \<lparr>rr_Scanned = length expired, rr_Deleted = deleted, rr_Failed = failed, rr_OrphanedArtifacts = orphans\<rparr>) w')))"

subsection \<open>What a sweep may remove\<close>

text \<open>
  Documented behaviour of object storage: a delete that succeeds removes the object and no other, and deleting an
  absent object succeeds; one that fails removes at most that object. \<open>keys\<close> are the objects there are.
\<close>

definition storage_deletes :: "('q \<Rightarrow> string set) \<Rightarrow> (string \<Rightarrow> 'q \<Rightarrow> unit res \<times> 'q) \<Rightarrow> bool" where
  "storage_deletes keys delete \<longleftrightarrow>
     (\<forall>key q r q'. delete key q = (r, q') \<longrightarrow>
        keys q - {key} \<subseteq> keys q' \<and> keys q' \<subseteq> keys q \<and> (r = Inr () \<longrightarrow> key \<notin> keys q'))"

definition expired :: "time \<Rightarrow> run_row \<Rightarrow> bool" where
  "expired cutoff r \<longleftrightarrow> ru_Status r \<notin> {''queued'', ''running''} \<and> ru_CreatedAt r < cutoff"

text \<open>An artifact the sweep is for: the source of an expired run, or an old run source that no run points at.\<close>

definition sweepable :: "time \<Rightarrow> site \<Rightarrow> artifact_row \<Rightarrow> bool" where
  "sweepable cutoff w a \<longleftrightarrow>
     orphaned w cutoff a \<or> (\<exists>r \<in> set (db_runs (wd_judging w)). expired cutoff r \<and> ru_SourceArtifactID r = Some (af_ID a))"

text \<open>
  The source tables as the services keep them: identifiers come from sequences, storage keys are unique, and a
  submission refers to an artifact of a submission, a run to one of a run.
\<close>

definition refers_to :: "site \<Rightarrow> string \<Rightarrow> int64 option \<Rightarrow> bool" where
  "refers_to w owner ref \<longleftrightarrow>
     (\<forall>aid. ref = Some aid \<longrightarrow> aid < wq_artifacts w \<and> (\<forall>a \<in> set (wd_artifacts w). af_ID a = aid \<longrightarrow> af_OwnerType a = owner))"

definition sources_inv :: "site \<Rightarrow> bool" where
  "sources_inv w \<longleftrightarrow>
     distinct (map af_ID (wd_artifacts w)) \<and> distinct (map af_StorageKey (wd_artifacts w))
     \<and> (\<forall>a \<in> set (wd_artifacts w). af_ID a < wq_artifacts w)
     \<and> distinct (map ru_ID (db_runs (wd_judging w))) \<and> (\<forall>r \<in> set (db_runs (wd_judging w)). ru_ID r < seq_runs (wd_judging w))
     \<and> (\<forall>r \<in> set (db_submissions (wd_judging w)). refers_to w ''submission'' (su_SourceArtifactID r))
     \<and> (\<forall>r \<in> set (db_runs (wd_judging w)). refers_to w ''run'' (ru_SourceArtifactID r))"

text \<open>How far a sweep that began in the state \<open>w0\<close> has got.\<close>

definition swept :: "time \<Rightarrow> ('q \<Rightarrow> string set) \<Rightarrow> site \<Rightarrow> 'q world \<Rightarrow> 'q world \<Rightarrow> bool" where
  "swept cutoff keys w0 v v' \<longleftrightarrow>
     db_submissions (judging v') = db_submissions (judging v) \<and> go_now (judging v') = go_now (judging v)
     \<and> set (wd_artifacts (fst v')) \<subseteq> set (wd_artifacts (fst v))
     \<and> (\<forall>a \<in> set (wd_artifacts (fst v)) - set (wd_artifacts (fst v')).
          sweepable cutoff w0 a \<and> (af_StorageKey a = [] \<or> af_StorageKey a \<notin> keys (snd v')))
     \<and> set (db_runs (judging v')) \<subseteq> set (db_runs (judging v))
     \<and> (\<forall>r \<in> set (db_runs (judging v)) - set (db_runs (judging v')). expired cutoff r)
     \<and> keys (snd v') \<subseteq> keys (snd v)
     \<and> (\<forall>k \<in> keys (snd v) - keys (snd v'). \<exists>a \<in> set (wd_artifacts w0). sweepable cutoff w0 a \<and> af_StorageKey a = k)"

interpretation sweeping: rely_guarantee "swept cutoff keys w0" for cutoff and keys :: "'q \<Rightarrow> string set" and w0
proof
  fix u v w :: "'q world"
  show "swept cutoff keys w0 u u" by (simp add: swept_def)
  assume "swept cutoff keys w0 u v" "swept cutoff keys w0 v w"
  then show "swept cutoff keys w0 u w" unfolding swept_def by (elim conjE, intro conjI) (simp, simp, blast+)
qed

lemma swept_objects:
  assumes "storage_deletes keys (rt_Delete r)" and "rt_others r = id"
    and "key \<noteq> [] \<Longrightarrow> \<exists>a \<in> set (wd_artifacts w0). sweepable cutoff w0 a \<and> af_StorageKey a = key"
  shows "sweeping.sat cutoff keys w0 P (delete_object r key) (\<lambda>_ v. key = [] \<or> key \<notin> keys (snd v))"
proof -
  have "sweeping.sat cutoff keys w0 P (queue_call id (rt_Delete r key)) (\<lambda>_ v. key \<notin> keys (snd v))"
    if key: "\<exists>a \<in> set (wd_artifacts w0). sweepable cutoff w0 a \<and> af_StorageKey a = key"
    unfolding queue_call_def
  proof (rule sweeping.sat_call)
    fix v v' :: "'a world" and res assume "(case v of (w, q) \<Rightarrow> case rt_Delete r key q of (r, q') \<Rightarrow> (r, w, q')) = (res, v')"
    then have d: "rt_Delete r key (snd v) = (res, snd v')" "fst v' = fst v" by (cases v; auto split: prod.splits)+
    with assms(1) have "keys (snd v) - {key} \<subseteq> keys (snd v')" "keys (snd v') \<subseteq> keys (snd v)" "res = Inr () \<Longrightarrow> key \<notin> keys (snd v')"
      unfolding storage_deletes_def by blast+
    with d(2) key show "swept cutoff keys w0 v v' \<and> (\<forall>x. res = Inr x \<longrightarrow> key \<notin> keys (snd v'))" by (auto simp: swept_def)
  next
    show "sweeping.stable cutoff keys w0 (\<lambda>v. key \<notin> keys (snd v))" for x :: unit
      by (auto simp: sweeping.stable_def swept_def)
  qed (simp add: sweeping.evolves_refl)
  from this [OF assms(3)] show ?thesis
    by (cases "key = []") (auto simp: delete_object_def when_act_def assms(2) sweeping.sat_def return_act_def sweeping.evolves_refl)
qed

lemma find_SomeD: "List.find P xs = Some x \<Longrightarrow> x \<in> set xs \<and> P x"
  by (auto simp: find_Some_iff)

lemma find_key:
  assumes "distinct (map key xs)" and "x \<in> set xs"
  shows "List.find (\<lambda>y. key y = key x) xs = Some x"
  using assms by (induction xs) (auto simp: image_iff)

lemma artifact_key_of:
  assumes "sources_inv w" and "a \<in> set (wd_artifacts w)"
  shows "artifact_key w (Some (af_ID a)) = af_StorageKey a"
proof -
  have "distinct (map af_ID (wd_artifacts w))" using assms(1) by (simp add: sources_inv_def)
  from find_key [OF this assms(2)] show ?thesis by (simp add: artifact_key_def)
qed

lemma artifact_key_found: "artifact_key w ref \<noteq> [] \<Longrightarrow> \<exists>a \<in> set (wd_artifacts w). ref = Some (af_ID a) \<and> af_StorageKey a = artifact_key w ref"
  by (cases "List.find (\<lambda>a. Some (af_ID a) = ref) (wd_artifacts w)") (auto simp: artifact_key_def dest!: find_SomeD)

lemma DeleteArtifact_effect:
  assumes "DeleteArtifact aid w = (res, w')"
  shows "wd_judging w' = wd_judging w" and "set (wd_artifacts w') \<subseteq> set (wd_artifacts w)"
    and "\<And>a. a \<in> set (wd_artifacts w) - set (wd_artifacts w') \<Longrightarrow> af_ID a = aid"
  using assms by (auto simp: DeleteArtifact_def WithTx_def q_DeleteArtifactByID_def bind_tx_def check_tx_def return_tx_def fail_tx_def
      split: if_splits)

lemma DeleteExpiredRun_effect:
  assumes "DeleteExpiredRun rid ref w = (res, w')"
  shows "db_submissions (wd_judging w') = db_submissions (wd_judging w)" and "go_now (wd_judging w') = go_now (wd_judging w)"
    and "set (wd_artifacts w') \<subseteq> set (wd_artifacts w)" and "set (db_runs (wd_judging w')) \<subseteq> set (db_runs (wd_judging w))"
    and "\<And>a. a \<in> set (wd_artifacts w) - set (wd_artifacts w') \<Longrightarrow> ref = Some (af_ID a)"
    and "\<And>r. r \<in> set (db_runs (wd_judging w)) - set (db_runs (wd_judging w')) \<Longrightarrow> ru_ID r = rid"
  using assms by (auto simp: DeleteExpiredRun_def WithTx_def delete_expired_run_def q_DeleteRunByID_def delete_run_def Let_def
      q_DeleteArtifactByID_def bind_tx_def check_tx_def return_tx_def fail_tx_def split: if_splits option.splits)

text \<open>A call that changes tables, and what has been swept before it.\<close>

lemma swept_site:
  fixes keys :: "'q \<Rightarrow> string set"
  assumes "\<And>v res w'. P v \<Longrightarrow> op (fst v) = (res, w') \<Longrightarrow> swept cutoff keys w0 v (w', snd v)"
  shows "sweeping.sat cutoff keys w0 P (site_call id op) (\<lambda>_ _. True)"
  unfolding site_call_def
proof (rule sweeping.sat_call)
  fix v v' :: "'q world" and res assume "P v" "(case v of (w, q) \<Rightarrow> case op w of (r, w') \<Rightarrow> (r, (w', q))) = (res, v')"
  with assms [of v res "fst v'"] show "swept cutoff keys w0 v v' \<and> (\<forall>x. res = Inr x \<longrightarrow> True)"
    by (cases v; cases v') (auto split: prod.splits)
qed (simp_all add: sweeping.evolves_refl)

lemma stable_swept: "sweeping.stable cutoff keys w0 (swept cutoff keys w0 v0)"
  unfolding sweeping.stable_def by (blast intro: sweeping.evolves_trans)

lemma swept_deleteRun:
  assumes "storage_deletes keys (rt_Delete r)" and "rt_others r = id" and inv: "sources_inv w0"
    and x: "x \<in> set (db_runs (wd_judging w0))" "expired cutoff x"
  shows "sweeping.sat cutoff keys w0 (swept cutoff keys w0 (w0, q0))
     (deleteRun r \<lparr>xr_ID = ru_ID x, xr_SourceArtifactID = ru_SourceArtifactID x, xr_StorageKey = artifact_key w0 (ru_SourceArtifactID x)\<rparr>)
     (\<lambda>_ _. True)"
proof -
  let ?key = "artifact_key w0 (ru_SourceArtifactID x)"
  have "sweeping.sat cutoff keys w0 (\<lambda>v. swept cutoff keys w0 (w0, q0) v \<and> (?key = [] \<or> ?key \<notin> keys (snd v)))
     (site_call id (DeleteExpiredRun (ru_ID x) (ru_SourceArtifactID x))) (\<lambda>_ _. True)"
  proof (rule swept_site)
    fix v res w' assume P: "swept cutoff keys w0 (w0, q0) v \<and> (?key = [] \<or> ?key \<notin> keys (snd v))"
      and op: "DeleteExpiredRun (ru_ID x) (ru_SourceArtifactID x) (fst v) = (res, w')"
    note e = DeleteExpiredRun_effect [OF op]
    have "sweepable cutoff w0 a \<and> (af_StorageKey a = [] \<or> af_StorageKey a \<notin> keys (snd v))"
      if "a \<in> set (wd_artifacts (fst v)) - set (wd_artifacts w')" for a
    proof -
      from that P e(5) have "a \<in> set (wd_artifacts w0)" "ru_SourceArtifactID x = Some (af_ID a)" by (auto simp: swept_def)
      with artifact_key_of [OF inv] x P show ?thesis by (auto simp: sweepable_def)
    qed
    moreover have "expired cutoff y" if "y \<in> set (db_runs (wd_judging (fst v))) - set (db_runs (wd_judging w'))" for y
    proof -
      from that P e(6) have "y \<in> set (db_runs (wd_judging w0))" "ru_ID y = ru_ID x" by (auto simp: swept_def)
      with inv x show ?thesis using inj_onD [of ru_ID "set (db_runs (wd_judging w0))" y x] by (simp add: sources_inv_def distinct_map)
    qed
    ultimately show "swept cutoff keys w0 v (w', snd v)" using e(1-4) by (auto simp: swept_def)
  qed
  then show ?thesis unfolding deleteRun_def assms(2) expired_run.simps
    using artifact_key_found [of w0 "ru_SourceArtifactID x"] x
    by (intro sweeping.sat_bind [OF stable_swept swept_objects [OF assms(1,2)]]) (auto simp: sweepable_def)
qed

lemma swept_orphan:
  assumes "storage_deletes keys (rt_Delete r)" and "rt_others r = id" and inv: "sources_inv w0"
    and v1: "swept cutoff keys w0 (w0, q0) v1" and a: "a \<in> set (wd_artifacts (fst v1))" "orphaned (fst v1) cutoff a"
  shows "sweeping.sat cutoff keys w0 (swept cutoff keys w0 (w0, q0)) (delete_orphan r (af_ID a, af_StorageKey a)) (\<lambda>_ _. True)"
proof -
  have a0: "a \<in> set (wd_artifacts w0)" using v1 a(1) by (auto simp: swept_def)
  have "sweepable cutoff w0 a"
  proof (cases "\<exists>x \<in> set (db_runs (wd_judging w0)). ru_SourceArtifactID x = Some (af_ID a)")
    case True
    then obtain x where x: "x \<in> set (db_runs (wd_judging w0))" "ru_SourceArtifactID x = Some (af_ID a)" by blast
    with a(2) have "x \<notin> set (db_runs (wd_judging (fst v1)))" by (auto simp: orphaned_def)
    with v1 x have "expired cutoff x" by (auto simp: swept_def)
    with x show ?thesis by (auto simp: sweepable_def)
  next
    case False
    with a(2) show ?thesis by (auto simp: sweepable_def orphaned_def)
  qed
  note s = this
  have "sweeping.sat cutoff keys w0 (\<lambda>v. swept cutoff keys w0 (w0, q0) v \<and> (af_StorageKey a = [] \<or> af_StorageKey a \<notin> keys (snd v)))
     (site_call id (DeleteArtifact (af_ID a))) (\<lambda>_ _. True)"
  proof (rule swept_site)
    fix v res w' assume P: "swept cutoff keys w0 (w0, q0) v \<and> (af_StorageKey a = [] \<or> af_StorageKey a \<notin> keys (snd v))"
      and op: "DeleteArtifact (af_ID a) (fst v) = (res, w')"
    note e = DeleteArtifact_effect [OF op]
    have "b = a" if "b \<in> set (wd_artifacts (fst v)) - set (wd_artifacts w')" for b
    proof -
      from that P e(3) have "b \<in> set (wd_artifacts w0)" "af_ID b = af_ID a" by (auto simp: swept_def)
      with inv a0 show ?thesis using inj_onD [of af_ID "set (wd_artifacts w0)" b a] by (simp add: sources_inv_def distinct_map)
    qed
    with s P e(1,2) show "swept cutoff keys w0 v (w', snd v)" by (auto simp: swept_def)
  qed
  then show ?thesis unfolding delete_orphan_def assms(2) fst_conv snd_conv using a0 s
    by (intro sweeping.sat_bind [OF stable_swept swept_objects [OF assms(1,2)]]) auto
qed

lemma listed_expired:
  assumes "ListExpiredRuns cutoff n w = Inr xs" and "x \<in> set xs"
  shows "\<exists>r \<in> set (db_runs (wd_judging w)). expired cutoff r \<and>
     x = \<lparr>xr_ID = ru_ID r, xr_SourceArtifactID = ru_SourceArtifactID r, xr_StorageKey = artifact_key w (ru_SourceArtifactID r)\<rparr>"
  using assms by (auto simp: ListExpiredRuns_def WithTx_def q_ListExpiredRuns_def paged_def expired_def
      split: if_splits dest!: in_set_takeD) blast

lemma listed_orphans:
  assumes "ListOrphanedRunArtifacts cutoff n w = Inr xs" and "x \<in> set xs"
  shows "\<exists>a \<in> set (wd_artifacts w). orphaned w cutoff a \<and> x = (af_ID a, af_StorageKey a)"
  using assms by (auto simp: ListOrphanedRunArtifacts_def WithTx_def q_ListOrphanedRunArtifacts_def paged_def
      split: if_splits dest!: in_set_takeD) blast

lemma swept_orphans:
  assumes "storage_deletes keys (rt_Delete r)" and "rt_others r = id" and "sources_inv w0"
    and "cutoff = go_now (wd_judging w0) - rt_age r" and v: "swept cutoff keys w0 (w0, q0) v"
  shows "swept cutoff keys w0 v (snd (sweepOrphanedArtifacts r v))"
proof -
  have now: "go_now (judging v) - rt_age r = cutoff" using v assms(4) by (simp add: swept_def)
  obtain w q where vq: "v = (w, q)" by (cases v)
  have "swept cutoff keys w0 v (snd (count_each (delete_orphan r) xs (0, 0) v))"
    if "ListOrphanedRunArtifacts cutoff n w = Inr xs" for n xs
  proof (rule sweeping.count_each_evolves [OF stable_swept _ v])
    fix x assume "x \<in> set xs"
    from listed_orphans [OF that this] obtain a where "a \<in> set (wd_artifacts (fst v))" "orphaned (fst v) cutoff a" "x = (af_ID a, af_StorageKey a)"
      by (auto simp: vq)
    with swept_orphan [OF assms(1-3) v] show "sweeping.sat cutoff keys w0 (swept cutoff keys w0 (w0, q0)) (delete_orphan r x) (\<lambda>_ _. True)"
      by simp
  qed
  with now assms(2) show ?thesis
    by (auto simp: sweepOrphanedArtifacts_def bind_act_simps now_act_def read_call_def call_def vq sweeping.evolves_refl
        split: sum.splits prod.splits) (metis snd_conv)
qed

lemma Sweep_swept:
  assumes "storage_deletes keys (rt_Delete r)" and "rt_others r = id" and "sources_inv w0"
    and "cutoff = go_now (wd_judging w0) - rt_age r"
  shows "swept cutoff keys w0 (w0, q0) (snd (Sweep r (w0, q0)))"
proof -
  let ?v = "(w0, q0)"
  have each: "swept cutoff keys w0 ?v (snd (count_each (deleteRun r) xs (0, 0) ?v))"
    if "ListExpiredRuns cutoff n w0 = Inr xs" for n xs
  proof (rule sweeping.count_each_evolves [OF stable_swept _ sweeping.evolves_refl])
    fix x assume "x \<in> set xs"
    from listed_expired [OF that this] swept_deleteRun [OF assms(1-3)]
    show "sweeping.sat cutoff keys w0 (swept cutoff keys w0 ?v) (deleteRun r x) (\<lambda>_ _. True)" by auto
  qed
  show ?thesis
  proof (cases "ListExpiredRuns cutoff (word_of_int (rt_batch r)) w0")
    case (Inl e)
    with assms(2,4) show ?thesis
      by (simp add: Sweep_def return_act_def bind_act_simps now_act_def read_call_def call_def sweeping.evolves_refl)
  next
    case (Inr xs)
    obtain n v1 where c: "count_each (deleteRun r) xs (0, 0) ?v = (n, v1)" by (metis surj_pair)
    with each [OF Inr] have v1: "swept cutoff keys w0 ?v v1" by simp
    from swept_orphans [OF assms v1] have "swept cutoff keys w0 ?v (snd (sweepOrphanedArtifacts r v1))"
      by (rule sweeping.evolves_trans [OF v1])
    with Inr c assms(2,4) show ?thesis
      by (auto simp: Sweep_def return_act_def bind_act_simps now_act_def read_call_def call_def sweeping.evolves_refl
          split: prod.splits sum.splits)
  qed
qed

text \<open>
  C7: A retention sweep removes only what has expired, and leaks nothing. Whatever storage does, even if deletes fail half
  way, every run it removes had finished and is older than the window; every artifact row it removes was the source
  of such a run or an old run source no run points at, and its object is gone from storage; every object it
  removes is one of those; and no submission loses its source.
\<close>

theorem retention_sweep_safe:
  assumes "storage_deletes keys (rt_Delete r)" and "rt_others r = id" and "sources_inv w" and "Sweep r (w, q) = (res, (w', q'))"
  defines "cutoff \<equiv> go_now (wd_judging w) - rt_age r"
  shows "(\<forall>x \<in> set (db_runs (wd_judging w)). x \<in> set (db_runs (wd_judging w')) \<or> expired cutoff x)
     \<and> (\<forall>a \<in> set (wd_artifacts w). a \<in> set (wd_artifacts w')
          \<or> sweepable cutoff w a \<and> (af_StorageKey a = [] \<or> af_StorageKey a \<notin> keys q'))
     \<and> (\<forall>k \<in> keys q. k \<in> keys q' \<or> (\<exists>a \<in> set (wd_artifacts w). sweepable cutoff w a \<and> af_StorageKey a = k))
     \<and> (\<forall>x \<in> set (db_submissions (wd_judging w)). \<forall>a \<in> set (wd_artifacts w). su_SourceArtifactID x = Some (af_ID a) \<longrightarrow>
          a \<in> set (wd_artifacts w') \<and> (af_StorageKey a \<in> keys q \<longrightarrow> af_StorageKey a \<in> keys q'))"
proof -
  have s: "swept cutoff keys w (w, q) (w', q')"
    using Sweep_swept [OF assms(1-3), of cutoff q] assms(4) by (simp add: cutoff_def)
  have owned: "\<not> sweepable cutoff w a"
    if "x \<in> set (db_submissions (wd_judging w))" "a \<in> set (wd_artifacts w)" "su_SourceArtifactID x = Some (af_ID a)" for x a
  proof -
    from that assms(3) have "af_OwnerType a = ''submission''" by (auto simp: sources_inv_def refers_to_def)
    with that(2) assms(3) show ?thesis by (auto simp: sweepable_def orphaned_def sources_inv_def refers_to_def)
  qed
  have inj: "a = b" if "a \<in> set (wd_artifacts w)" "b \<in> set (wd_artifacts w)" "af_StorageKey a = af_StorageKey b" for a b
    using that assms(3) by (auto simp: sources_inv_def distinct_map dest: inj_onD)
  from s have "\<forall>x \<in> set (db_runs (wd_judging w)). x \<in> set (db_runs (wd_judging w')) \<or> expired cutoff x" by (auto simp: swept_def)
  moreover from s have arts: "\<forall>a \<in> set (wd_artifacts w). a \<in> set (wd_artifacts w')
     \<or> sweepable cutoff w a \<and> (af_StorageKey a = [] \<or> af_StorageKey a \<notin> keys q')" by (auto simp: swept_def)
  moreover from s have objs: "\<forall>k \<in> keys q. k \<in> keys q' \<or> (\<exists>a \<in> set (wd_artifacts w). sweepable cutoff w a \<and> af_StorageKey a = k)"
    by (auto simp: swept_def)
  moreover have "a \<in> set (wd_artifacts w') \<and> (af_StorageKey a \<in> keys q \<longrightarrow> af_StorageKey a \<in> keys q')"
    if "x \<in> set (db_submissions (wd_judging w))" "a \<in> set (wd_artifacts w)" "su_SourceArtifactID x = Some (af_ID a)" for x a
    using owned [OF that] arts objs that(2) inj [OF that(2)] by metis
  ultimately show ?thesis by blast
qed

subsection \<open>An example\<close>

text \<open>Storage is the list of its keys. There are a submission, an old finished run, a queued one and an orphaned source.\<close>

definition sample_run :: "int64 \<Rightarrow> string \<Rightarrow> run_row" where
  "sample_run k st = \<lparr>ru_ID = k, ru_UserID = 1, ru_ProblemID = None, ru_LanguageID = 3, ru_Status = st, ru_SourceArtifactID = Some (10 + k),
     ru_Stdin = None, ru_Stdout = None, ru_Stderr = None, ru_CompileOutput = None, ru_TimeMs = None, ru_MemoryKb = None,
     ru_ErrorMessage = None, ru_CreatedAt = 1, ru_FinishedAt = None, ru_UpdatedAt = 1\<rparr>"

definition sample_source :: "int64 \<Rightarrow> string \<Rightarrow> string \<Rightarrow> artifact_row" where
  "sample_source k owner key = \<lparr>af_ID = k, af_OwnerType = owner, af_OwnerID = 1, af_Kind = ''source'', af_StorageKey = key,
     af_ChecksumSha256 = ''c'', af_SizeBytes = 13, af_ContentType = ''text/plain'', af_CreatedAt = 1\<rparr>"

definition cluttered_site :: site where
  "cluttered_site = \<lparr>wd_judging = empty_store\<lparr>db_submissions := [frozen_submission], db_runs := [sample_run 1 ''accepted'', sample_run 2 ''queued''],
       seq_runs := 3, go_now := 2000\<rparr>,
     wd_artifacts = [sample_source 5 ''submission'' ''s'', sample_source 11 ''run'' ''r1'', sample_source 12 ''run'' ''r2'', sample_source 13 ''run'' ''r3''],
     wd_languages = [], wd_problems = sample_problem_store StatusPublished, wq_artifacts = 14, wq_languages = 1\<rparr>"

definition list_storage :: "string list run_retention" where
  "list_storage = NewRunRetention id (\<lambda>key q. (Inr (), filter (\<lambda>k. k \<noteq> key) q)) 1000 0 0"

theorem retention_sweep_safe_witness:
  "let (res, (w', q')) = Sweep list_storage (cluttered_site, [''s'', ''r1'', ''r2'', ''r3'']) in
   map_sum (\<lambda>_. ()) rr_Deleted res = Inr 1 \<and> q' = [''s'', ''r2''] \<and> map af_StorageKey (wd_artifacts w') = [''s'', ''r2'']
   \<and> (\<forall>k \<in> {''s'', ''r1'', ''r2'', ''r3''}. k \<in> set q' \<or> (\<exists>a \<in> set (wd_artifacts cluttered_site). sweepable 1000 cluttered_site a \<and> af_StorageKey a = k))"
proof -
  let ?S = "Sweep list_storage (cluttered_site, [''s'', ''r1'', ''r2'', ''r3''])"
  have "storage_deletes set (rt_Delete list_storage)" "rt_others list_storage = id" "rt_age list_storage = 1000"
    by (auto simp: storage_deletes_def list_storage_def NewRunRetention_def)
  moreover have "sources_inv cluttered_site"
    by (simp add: sources_inv_def refers_to_def cluttered_site_def sample_source_def sample_run_def frozen_submission_def empty_store_def)
  moreover have "?S = (fst ?S, fst (snd ?S), snd (snd ?S))" by simp
  ultimately have "\<forall>k \<in> set [''s'', ''r1'', ''r2'', ''r3'']. k \<in> set (snd (snd ?S))
      \<or> (\<exists>a \<in> set (wd_artifacts cluttered_site). sweepable (go_now (wd_judging cluttered_site) - 1000) cluttered_site a \<and> af_StorageKey a = k)"
    using retention_sweep_safe [of set list_storage cluttered_site] by metis
  moreover have "go_now (wd_judging cluttered_site) = 2000" by (simp add: cluttered_site_def)
  moreover have "map_sum (\<lambda>_. ()) rr_Deleted (fst ?S) = Inr 1" by code_simp
  moreover have "snd (snd ?S) = [''s'', ''r2'']" by code_simp
  moreover have "map af_StorageKey (wd_artifacts (fst (snd ?S))) = [''s'', ''r2'']" by code_simp
  ultimately show ?thesis by (simp add: Let_def case_prod_beta)
qed

end
