(* ===== verification/Source_Objects.thy ===== *)
theory Source_Objects
  imports Run_Retention
begin

section \<open>Source objects and their rows\<close>

text \<open>
  Submissions, runs and the retention sweep share the artifact table and object storage. Whatever way they
  interleave, the references of the tables stay in order. What does not hold is that every object has a row that
  finds it: a refused run whose upload cannot be deleted loses the row all the same.
\<close>

subsection \<open>The tables stay in order\<close>

definition owned_step :: "'q world \<Rightarrow> 'q world \<Rightarrow> bool" where
  "owned_step v v' \<longleftrightarrow> (sources_inv (fst v) \<longrightarrow>
     sources_inv (fst v') \<and> wq_artifacts (fst v) \<le> wq_artifacts (fst v')
     \<and> (\<forall>a \<in> set (wd_artifacts (fst v')). af_ID a < wq_artifacts (fst v) \<longrightarrow> a \<in> set (wd_artifacts (fst v))))"

interpretation owned: rely_guarantee owned_step
  by unfold_locales (auto simp: owned_step_def)

abbreviation in_order :: "'q world \<Rightarrow> bool" where
  "in_order v \<equiv> sources_inv (fst v)"

definition source_of :: "string \<Rightarrow> int64 \<Rightarrow> 'q world \<Rightarrow> bool" where
  "source_of owner aid v \<longleftrightarrow> in_order v \<and> refers_to (fst v) owner (Some aid)"

lemma stable_in_order: "owned.stable in_order"
  by (auto simp: owned.stable_def owned_step_def)

lemma stable_source_of: "owned.stable (source_of owner aid)"
  unfolding owned.stable_def source_of_def owned_step_def refers_to_def by fastforce

lemma owned_same: "fst v' = fst v \<Longrightarrow> owned_step v v'"
  by (simp add: owned_step_def)

lemma owned_read: "(\<And>v. owned_step v (others v)) \<Longrightarrow> owned.sat P (read_call others f) (\<lambda>_ _. True)"
  unfolding read_call_def by (rule owned.sat_call) (auto intro: owned_same)

lemma owned_queue: "(\<And>v. owned_step v (others v)) \<Longrightarrow> owned.sat P (queue_call others f) (\<lambda>_ _. True)"
  unfolding queue_call_def by (rule owned.sat_call) (auto intro: owned_same split: prod.splits)

lemma owned_now: "owned.sat P now_act (\<lambda>_ _. True)"
  by (simp add: owned.sat_def now_act_def owned.evolves_refl)

lemma owned_check: "owned.sat P (check_act r) (\<lambda>_ _. True)"
  by (cases r) (simp_all add: check_act_def owned.sat_fail owned.sat_return)

lemma owned_site:
  fixes others :: "'q world \<Rightarrow> 'q world"
  assumes "\<And>v. owned_step v (others v)" and "\<And>x. owned.stable (Q x)"
    and "\<And>v r w'. P v \<Longrightarrow> op (fst v) = (r, w') \<Longrightarrow> owned_step v (w', snd v) \<and> (\<forall>x. r = Inr x \<longrightarrow> Q x (w', snd v))"
  shows "owned.sat P (site_call others op) Q"
  unfolding site_call_def
proof (rule owned.sat_call [OF assms(1,2)])
  fix v v' :: "'q world" and r assume "P v" "(case v of (w, q) \<Rightarrow> case op w of (r, w') \<Rightarrow> (r, (w', q))) = (r, v')"
  with assms(3) [of v r "fst v'"] show "owned_step v v' \<and> (\<forall>x. r = Inr x \<longrightarrow> Q x v')"
    by (cases v; cases v') (auto split: prod.splits)
qed

lemma owned_store:
  fixes others :: "'q world \<Rightarrow> 'q world"
  assumes "\<And>v. owned_step v (others v)"
    and "\<And>v r s. P v \<Longrightarrow> in_order v \<Longrightarrow> f (judging v) = (r, s) \<Longrightarrow> sources_inv (put_judging s (fst v))"
  shows "owned.sat P (store_call others f) (\<lambda>_ _. True)"
  unfolding store_call_def
proof (rule owned.sat_call [OF assms(1)])
  fix v v' :: "'q world" and r assume P: "P v" and c: "(case v of (w, q) \<Rightarrow> case f (wd_judging w) of (r, s) \<Rightarrow> (r, put_judging s w, q)) = (r, v')"
  then obtain s where "f (judging v) = (r, s)" "fst v' = put_judging s (fst v)" by (cases v) (auto split: prod.splits)
  with assms(2) [OF P] show "owned_step v v' \<and> (\<forall>x. r = Inr x \<longrightarrow> True)" by (auto simp: owned_step_def)
qed simp

lemma owned_CreateArtifact:
  fixes others :: "'q world \<Rightarrow> 'q world"
  assumes "\<And>v. owned_step v (others v)"
  shows "owned.sat in_order (site_call others (CreateArtifact owner uid kind key checksum n ct)) (\<lambda>row. source_of owner (af_ID row))"
proof (rule owned_site [OF assms stable_source_of])
  fix v :: "'q world" and r w' assume inv: "in_order v" and c: "CreateArtifact owner uid kind key checksum n ct (fst v) = (r, w')"
  show "owned_step v (w', snd v) \<and> (\<forall>x. r = Inr x \<longrightarrow> source_of owner (af_ID x) (w', snd v))"
  proof (cases r)
    case (Inl e)
    with c have "w' = fst v" by (auto simp: CreateArtifact_def WithTx_Inl)
    with Inl show ?thesis by (simp add: owned_same)
  next
    case (Inr row)
    with c have new: "\<forall>a \<in> set (wd_artifacts (fst v)). af_StorageKey a \<noteq> key" "af_ID row = wq_artifacts (fst v)" "af_OwnerType row = owner"
      "af_StorageKey row = key" "w' = (fst v)\<lparr>wd_artifacts := wd_artifacts (fst v) @ [row], wq_artifacts := wq_artifacts (fst v) + 1\<rparr>"
      by (auto simp: CreateArtifact_def WithTx_Inr q_CreateArtifact_def tx_simps Let_def)
    have old: "refers_to w' o1 ref" if "refers_to (fst v) o1 ref" for o1 ref
      using that new(2) unfolding new(5) refers_to_def by fastforce
    have "sources_inv w'" using inv new old unfolding sources_inv_def by (auto simp: image_iff)
    moreover have "refers_to w' owner (Some (af_ID row))"
      using inv new unfolding new(5) refers_to_def sources_inv_def by fastforce
    ultimately show ?thesis using Inr new(2,5) by (auto simp: owned_step_def source_of_def)
  qed
qed

lemma refers_put [simp]: "refers_to (put_judging s w) o1 ref = refers_to w o1 ref"
  by (simp add: refers_to_def)

lemma refers_validInt8: "refers_to w o1 (Some aid) \<Longrightarrow> refers_to w o1 (validInt8 aid)"
  by (simp add: refers_to_def validInt8_def)

lemma owned_CreateSubmissionWithTask:
  fixes others :: "'q world \<Rightarrow> 'q world"
  assumes "\<And>v. owned_step v (others v)"
  shows "owned.sat (source_of ''submission'' (si_SourceArtifactID arg)) (store_call others (CreateSubmissionWithTask arg at)) (\<lambda>_ _. True)"
proof (rule owned_store [OF assms])
  fix v :: "'q world" and r s
  assume src: "source_of ''submission'' (si_SourceArtifactID arg) v" and inv: "in_order v" and c: "CreateSubmissionWithTask arg at (judging v) = (r, s)"
  have "(r = Inl e \<longrightarrow> s = judging v)" for e using c by (auto simp: CreateSubmissionWithTask_def WithTx_Inl)
  moreover have "\<exists>row. db_submissions s = db_submissions (judging v) @ [row] \<and> su_SourceArtifactID row = validInt8 (si_SourceArtifactID arg)
      \<and> db_runs s = db_runs (judging v) \<and> seq_runs s = seq_runs (judging v)" if "r = Inr x" for x
    using c that by (auto simp: CreateSubmissionWithTask_def WithTx_Inr createSubmissionRow_def q_CreateSubmission_def
        q_CreateJudgeTask_def tx_simps Let_def)
  ultimately show "sources_inv (put_judging s (fst v))"
    using inv src refers_validInt8 by (cases r) (auto simp: sources_inv_def source_of_def)
qed

lemma AdmitRun_effect:
  assumes "AdmitRun input s = (r, s')"
  shows "s' = s \<or> (\<exists>row. db_runs s' = db_runs s @ [row] \<and> ru_SourceArtifactID row = validInt8 (ai_SourceArtifactID input)
      \<and> ru_ID row = seq_runs s \<and> seq_runs s' = seq_runs s + 1 \<and> db_submissions s' = db_submissions s)"
proof (cases r)
  case (Inl e)
  with assms show ?thesis by (simp add: AdmitRun_def WithTx_Inl)
next
  case (Inr row)
  with assms show ?thesis
    by (auto simp: AdmitRun_def WithTx_Inr admit_run_def tx_simps q_CreateRun_def q_CreateJudgeTask_def Let_def map_err_def
        q_LockUserForRunAdmission_def q_CountActiveRunsByUser_def split: if_splits sum.splits)
qed

lemma owned_AdmitRun:
  fixes others :: "'q world \<Rightarrow> 'q world"
  assumes "\<And>v. owned_step v (others v)"
  shows "owned.sat (source_of ''run'' (ai_SourceArtifactID input)) (store_call others (AdmitRun input)) (\<lambda>_ _. True)"
proof (rule owned_store [OF assms])
  fix v :: "'q world" and r s
  assume src: "source_of ''run'' (ai_SourceArtifactID input) v" and inv: "in_order v" and c: "AdmitRun input (judging v) = (r, s)"
  from AdmitRun_effect [OF c] show "sources_inv (put_judging s (fst v))"
    using inv src refers_validInt8 by (auto simp: sources_inv_def source_of_def) (fastforce simp: less_imp_le)+
qed

text \<open>Deleting rows keeps the rest in order.\<close>

lemma sources_inv_fewer:
  assumes "sources_inv w" and "wd_artifacts w' = filter P (wd_artifacts w)" and "db_runs (wd_judging w') = filter R (db_runs (wd_judging w))"
    and "wq_artifacts w' = wq_artifacts w" and "seq_runs (wd_judging w') = seq_runs (wd_judging w)"
    and "db_submissions (wd_judging w') = db_submissions (wd_judging w)"
  shows "sources_inv w'"
proof -
  have "refers_to w' o1 ref" if "refers_to w o1 ref" for o1 ref using that assms(2,4) by (auto simp: refers_to_def)
  with assms show ?thesis by (auto simp: sources_inv_def distinct_map_filter)
qed

lemma owned_DeleteArtifact:
  fixes others :: "'q world \<Rightarrow> 'q world"
  assumes "\<And>v. owned_step v (others v)"
  shows "owned.sat P (site_call others (DeleteArtifact aid)) (\<lambda>_ _. True)"
proof (rule owned_site [OF assms])
  fix v :: "'q world" and r w' assume "DeleteArtifact aid (fst v) = (r, w')"
  then have "\<exists>P. w' = (fst v)\<lparr>wd_artifacts := filter P (wd_artifacts (fst v))\<rparr>"
    by (auto simp: DeleteArtifact_def WithTx_def q_DeleteArtifactByID_def bind_tx_def check_tx_def return_tx_def fail_tx_def
        intro: exI [of _ "\<lambda>_. True"] split: if_splits)
  then obtain P where w': "w' = (fst v)\<lparr>wd_artifacts := filter P (wd_artifacts (fst v))\<rparr>" by blast
  have "in_order v \<Longrightarrow> sources_inv w'"
    by (rule sources_inv_fewer [where w = "fst v" and P = P and R = "\<lambda>_. True"]) (simp_all add: w')
  with w' show "owned_step v (w', snd v) \<and> (\<forall>x. r = Inr x \<longrightarrow> True)" by (auto simp: owned_step_def)
qed simp

lemma owned_DeleteExpiredRun:
  fixes others :: "'q world \<Rightarrow> 'q world"
  assumes "\<And>v. owned_step v (others v)"
  shows "owned.sat P (site_call others (DeleteExpiredRun rid ref)) (\<lambda>_ _. True)"
proof (rule owned_site [OF assms])
  fix v :: "'q world" and r w' assume c: "DeleteExpiredRun rid ref (fst v) = (r, w')"
  have "\<exists>P R s. w' = (fst v)\<lparr>wd_judging := s, wd_artifacts := filter P (wd_artifacts (fst v))\<rparr>
      \<and> db_runs s = filter R (db_runs (judging v)) \<and> seq_runs s = seq_runs (judging v) \<and> db_submissions s = db_submissions (judging v)"
  proof (cases r)
    case (Inl e)
    with c have "w' = fst v" by (simp add: DeleteExpiredRun_def WithTx_Inl)
    then show ?thesis by (intro exI [of _ "\<lambda>_. True"] exI [of _ "judging v"]) simp
  next
    case (Inr x)
    define s where "s = (if \<exists>r \<in> set (db_runs (judging v)). ru_ID r = rid then delete_run rid (judging v) else judging v)"
    have s: "db_runs s = filter (\<lambda>r. ru_ID r \<noteq> rid) (db_runs (judging v))" "seq_runs s = seq_runs (judging v)"
      "db_submissions s = db_submissions (judging v)"
      by (auto simp: s_def delete_run_def Let_def filter_id_conv)
    have "\<exists>P. w' = (fst v)\<lparr>wd_judging := s, wd_artifacts := filter P (wd_artifacts (fst v))\<rparr>"
    proof (cases ref)
      case None
      with c Inr show ?thesis
        by (intro exI [of _ "\<lambda>_. True"]) (auto simp: DeleteExpiredRun_def WithTx_Inr delete_expired_run_def tx_simps q_DeleteRunByID_def s_def)
    next
      case (Some aid)
      with c Inr show ?thesis
        by (intro exI [of _ "\<lambda>a. af_ID a \<noteq> aid"]) (auto simp: DeleteExpiredRun_def WithTx_Inr delete_expired_run_def tx_simps
            q_DeleteRunByID_def q_DeleteArtifactByID_def s_def)
    qed
    with s show ?thesis by blast
  qed
  then obtain P R s where w': "w' = (fst v)\<lparr>wd_judging := s, wd_artifacts := filter P (wd_artifacts (fst v))\<rparr>"
    "db_runs s = filter R (db_runs (judging v))" "seq_runs s = seq_runs (judging v)" "db_submissions s = db_submissions (judging v)" by blast
  have "in_order v \<Longrightarrow> sources_inv w'"
    by (rule sources_inv_fewer [where w = "fst v" and P = P and R = R]) (simp_all add: w')
  with w'(1) show "owned_step v (w', snd v) \<and> (\<forall>x. r = Inr x \<longrightarrow> True)" by (auto simp: owned_step_def)
qed simp

text \<open>The processes.\<close>

lemmas owned_then = owned.sat_then [OF stable_in_order]

lemma owned_create_source:
  fixes others :: "'q world \<Rightarrow> 'q world"
  assumes "\<And>v. owned_step v (others v)"
  shows "owned.sat in_order (create_source others st owner uid source) (\<lambda>row. source_of owner (af_ID row))"
  unfolding create_source_def by (intro owned_then owned_queue owned_CreateArtifact assms)

lemma owned_CreateSubmission:
  assumes ev: "\<And>v. owned_step v (sb_others c v)"
  shows "owned.sat in_order (CreateSubmission c a input) (\<lambda>_ _. True)"
proof -
  have store: "owned.sat (\<lambda>w. in_order w \<and> source_of ''submission'' (af_ID artifact) w)
     (bind_act now_act (\<lambda>now. store_call (sb_others c) (CreateSubmissionWithTask
       \<lparr>si_UserID = ac_UserID a, si_ProblemID = cs_ProblemID input, si_ContestID = cs_ContestID input,
        si_LanguageID = cs_LanguageID input, si_TestcaseSetID = tsid, si_Status = StatusQueued, si_SourceArtifactID = af_ID artifact\<rparr> now)))
     (\<lambda>_ _. True)" for artifact tsid
    by (rule owned.sat_weaken [OF owned.sat_then [OF stable_source_of owned_now owned_CreateSubmissionWithTask [OF ev]]]) simp_all
  show ?thesis unfolding CreateSubmission_def
    by (intro owned.sat_if owned.sat_fail owned_then owned_read owned_check ev
        owned.sat_bind [OF stable_in_order owned_create_source [OF ev] store])
      (auto split: option.split intro!: owned_read ev owned.sat_return)
qed

lemma owned_discardSource:
  assumes "\<And>v. owned_step v (rs_others rs v)"
  shows "owned.sat in_order (discardSource rs artifact) (\<lambda>_ _. True)"
  unfolding discardSource_def by (intro owned_then owned.sat_ignore owned_queue owned_DeleteArtifact assms)

lemma owned_admit_source:
  assumes ev: "\<And>v. owned_step v (rs_others rs v)"
  shows "owned.sat in_order (admit_source rs a input inline) (\<lambda>_ _. True)"
proof -
  let ?in = "\<lambda>artifact now. \<lparr>ai_UserID = ac_UserID a, ai_ProblemID = cr_ProblemID input, ai_LanguageID = cr_LanguageID input,
      ai_Status = (if inline then StatusRunning else StatusQueued), ai_SourceArtifactID = af_ID artifact,
      ai_Stdin = cr_Stdin input, ai_MaxActive = rs_maxPerUser rs, ai_Enqueue = \<not> inline, ai_NextRunAt = now\<rparr>"
  have run: "owned.sat (source_of ''run'' (af_ID artifact)) (store_call (rs_others rs) (AdmitRun (?in artifact now))) (\<lambda>_ _. True)" for artifact now
    using owned_AdmitRun [OF ev, of "?in artifact now"] by simp
  have undo: "owned.sat (source_of ''run'' (af_ID artifact)) (bind_act (discardSource rs artifact) (\<lambda>_. fail_act e)) (\<lambda>_ _. True)" for artifact e
    by (rule owned.sat_weaken [OF owned_then [OF owned_discardSource [OF ev] owned.sat_fail]]) (auto simp: source_of_def)
  have "owned.sat (\<lambda>w. in_order w \<and> source_of ''run'' (af_ID artifact) w)
     (bind_act now_act (\<lambda>now. try_act (store_call (rs_others rs) (AdmitRun (?in artifact now)))
       (\<lambda>e. bind_act (discardSource rs artifact) (\<lambda>_. fail_act e)) return_act)) (\<lambda>_ _. True)" for artifact
    by (rule owned.sat_weaken [where P = "source_of ''run'' (af_ID artifact)" and Q = "\<lambda>_ _. True"],
        intro owned.sat_then [OF stable_source_of] owned_now owned.sat_try_then [OF stable_source_of] run undo owned.sat_return) auto
  then show ?thesis unfolding admit_source_def by (intro owned.sat_bind [OF stable_in_order owned_create_source [OF ev]])
qed

lemma owned_awaitRun:
  assumes ev: "\<And>v. owned_step v (rs_others rs v)"
  shows "owned.sat in_order (awaitRun rs run) (\<lambda>_ _. True)"
proof -
  have "owned.sat in_order (poll_run (rs_others rs) rid n) (\<lambda>_ _. True)" for rid n
    by (induction n) (simp_all add: owned_read [OF ev] owned_then owned.sat_if owned.sat_return)
  then show ?thesis unfolding awaitRun_def by (intro owned.sat_if owned.sat_return) auto
qed

lemma owned_CreateRun:
  assumes ev: "\<And>v. owned_step v (rs_others rs v)"
  shows "owned.sat in_order (CreateRun rs a input) (\<lambda>_ _. True)"
proof -
  have pool: "owned.sat in_order (pool_call rs f) (\<lambda>_ _. True)" for f :: "run_pool \<Rightarrow> unit res \<times> run_pool"
    unfolding pool_call_def by (rule owned_queue [OF ev])
  show ?thesis unfolding CreateRun_def
    by (intro owned.sat_if owned.sat_fail owned_then owned_read owned_check owned.sat_option owned.sat_try_then [OF stable_in_order]
        owned_admit_source owned_awaitRun pool owned.sat_return TrueI ev)
qed

lemma owned_Sweep:
  fixes r :: "'q run_retention"
  assumes ev: "\<And>v. owned_step v (rt_others r v)" and "in_order v"
  shows "owned_step v (snd (Sweep r v))"
proof -
  have obj: "owned.sat in_order (delete_object r key) (\<lambda>_ _. True)" for key
    unfolding delete_object_def by (intro owned.sat_when owned_queue ev)
  have run: "owned.sat in_order (deleteRun r x) (\<lambda>_ _. True)" and orphan: "owned.sat in_order (delete_orphan r y) (\<lambda>_ _. True)" for x y
    unfolding deleteRun_def delete_orphan_def by (intro owned_then obj owned_DeleteExpiredRun owned_DeleteArtifact ev)+
  have runs: "owned.sat in_order (\<lambda>w. case count_each (delete_orphan r) xs (0, 0) w of ((removed, failed), w') \<Rightarrow> (Inr removed, w')) (\<lambda>_ _. True)" for xs
    unfolding owned.sat_def
  proof (intro allI impI conjI)
    fix w :: "'q world" assume w: "in_order w"
    from owned.count_each_evolves [where body = "delete_orphan r", OF stable_in_order orphan w]
    show "owned_step w (snd (case count_each (delete_orphan r) xs (0, 0) w of ((removed, failed), w') \<Rightarrow> (Inr removed, w')))"
      by (simp add: case_prod_beta)
  qed simp
  have orphans: "owned.sat in_order (sweepOrphanedArtifacts r) (\<lambda>_ _. True)"
    unfolding sweepOrphanedArtifacts_def by (intro owned_then owned_now owned_read runs ev)
  have "owned.sat in_order (\<lambda>w. case count_each (deleteRun r) xs (0, 0) w of ((deleted, failed), w') \<Rightarrow>
      bind_act (sweepOrphanedArtifacts r) (\<lambda>orphans. return_act (k deleted failed orphans)) w') (\<lambda>_ _. True)"
    for xs and k :: "nat \<Rightarrow> nat \<Rightarrow> nat \<Rightarrow> run_retention_result"
    unfolding owned.sat_def
  proof (intro allI impI conjI)
    fix w :: "'q world" assume w: "in_order w"
    obtain d f w' where c: "count_each (deleteRun r) xs (0, 0) w = ((d, f), w')" by (metis surj_pair)
    with owned.count_each_evolves [where body = "deleteRun r", OF stable_in_order run w, where xs = xs and n = "(0, 0)"] have ev1: "owned_step w w'" by simp
    have "owned.sat in_order (bind_act (sweepOrphanedArtifacts r) (\<lambda>orphans. return_act (k d f orphans))) (\<lambda>_ _. True)"
      by (intro owned_then orphans owned.sat_return TrueI)
    from owned.satD [OF this owned.stableD [OF stable_in_order w ev1]]
    have "owned_step w' (snd (bind_act (sweepOrphanedArtifacts r) (\<lambda>orphans. return_act (k d f orphans)) w'))" .
    with ev1 c show "owned_step w (snd (case count_each (deleteRun r) xs (0, 0) w of ((deleted, failed), w') \<Rightarrow>
      bind_act (sweepOrphanedArtifacts r) (\<lambda>orphans. return_act (k deleted failed orphans)) w'))"
      by (auto intro: owned.evolves_trans)
  qed simp
  then have "owned.sat in_order (Sweep r) (\<lambda>_ _. True)" unfolding Sweep_def
    by (intro owned.sat_if owned_then owned_now owned_read owned.sat_return TrueI ev)
  from owned.satD [OF this assms(2)] show ?thesis .
qed

text \<open>
  C9: Submissions, self-runs and the sweep share the artifact tables and keep them in order, however their calls interleave with
  each other's: identifiers and storage keys stay unique, and a submission only ever refers to a submission's artifact
  and a run to a run's, which is what the safety of the sweep rests on.
\<close>

theorem source_tables_kept:
  assumes "sources_inv (fst v)" and "\<And>u. owned_step u (sb_others c u)" and "\<And>u. owned_step u (rs_others rs u)"
    and "\<And>u. owned_step u (rt_others r u)"
  shows "sources_inv (fst (snd (CreateSubmission c a input v))) \<and> sources_inv (fst (snd (CreateRun rs a runInput v)))
     \<and> sources_inv (fst (snd (Sweep r v)))"
  using owned.satD [OF owned_CreateSubmission [OF assms(2)], of v a input] owned.satD [OF owned_CreateRun [OF assms(3)], of v a runInput]
    owned_Sweep [OF assms(4,1)] assms(1)
  by (simp add: owned_step_def)

subsection \<open>The leak\<close>

text \<open>
  A refused run can leave an object nothing finds. When a user has too many runs in flight and storage fails to delete
  the upload, \<^verbatim>\<open>discardSource\<close> goes on and deletes the artifact row: the request reports the refusal, the object
  is still in storage, and no artifact row names it, so neither the sweep of expired runs nor the sweep of orphans ever
  removes it.
\<close>

theorem refused_run_leaks_source:
  assumes quiet: "rs_others rs = id" and queued: "rs_runner rs = None" and inv: "sources_inv w"
    and request: "Authenticated a" "cr_Source input \<noteq> []" "int (length (cr_Stdin input)) \<le> rs_maxStdin rs" "cr_ProblemID input = None"
    and language: "GetLanguage (cr_LanguageID input) w = Inr l" "lr_Enabled l"
    and upload: "source_Put (rs_sources rs) ''run'' (ac_UserID a) (cr_Source input) q = (Inr object, q1)"
      "\<forall>x \<in> set (wd_artifacts w). af_StorageKey x \<noteq> so_StorageKey object" "so_SizeBytes object \<ge> 0"
    and full: "ac_UserID a \<in> set (db_users (wd_judging w))" "0 < rs_maxPerUser rs"
      "rs_maxPerUser rs \<le> int (length (filter (\<lambda>r. ru_UserID r = ac_UserID a \<and> active_run r) (db_runs (wd_judging w))))"
    and stuck: "source_Delete (rs_sources rs) (so_StorageKey object) q1 = (Inl e, q2)" "so_StorageKey object \<in> keys q2"
  shows "\<exists>w'. CreateRun rs a input (w, q)
       = (fail (TooManyRequests ''run.user_limit_exceeded'' ''too many runs in flight for this user''), (w', q2))
     \<and> so_StorageKey object \<in> keys q2 \<and> (\<forall>x \<in> set (wd_artifacts w'). af_StorageKey x \<noteq> so_StorageKey object)"
proof -
  let ?row = "\<lparr>af_ID = wq_artifacts w, af_OwnerType = ''run'', af_OwnerID = ac_UserID a, af_Kind = ''source'', af_StorageKey = so_StorageKey object,
      af_ChecksumSha256 = so_ChecksumSHA256 object, af_SizeBytes = so_SizeBytes object, af_ContentType = so_ContentType object,
      af_CreatedAt = site_now w\<rparr>"
  let ?w1 = "w\<lparr>wd_artifacts := wd_artifacts w @ [?row], wq_artifacts := wq_artifacts w + 1\<rparr>"
  have created: "CreateArtifact ''run'' (ac_UserID a) ''source'' (so_StorageKey object) (so_ChecksumSHA256 object) (so_SizeBytes object)
      (so_ContentType object) w = (Inr ?row, ?w1)"
    using upload(2,3) by (simp add: CreateArtifact_def WithTx_def q_CreateArtifact_def bind_tx_def check_tx_def unique_tx_def return_tx_def Let_def)
  have refused: "AdmitRun ai (wd_judging w) = (fail (TooManyRequests ''run.user_limit_exceeded'' ''too many runs in flight for this user''), wd_judging w)"
    if "ai_UserID ai = ac_UserID a" "ai_MaxActive ai = rs_maxPerUser rs" for ai
    using that full by (auto simp: AdmitRun_def WithTx_def admit_run_def bind_tx_def when_tx_def map_err_def q_LockUserForRunAdmission_def
        q_CountActiveRunsByUser_def select_row_def get_tx_def fail_tx_def find_None_iff split: option.splits)
  have fresh: "\<not> artifact_referenced (wd_judging w) (wq_artifacts w)" "\<forall>x \<in> set (wd_artifacts w). af_ID x \<noteq> wq_artifacts w"
    using inv by (auto simp: artifact_referenced_def sources_inv_def refers_to_def)
  then have deleted: "DeleteArtifact (wq_artifacts w) ?w1 = (Inr (), w\<lparr>wq_artifacts := wq_artifacts w + 1\<rparr>)"
    by (simp add: DeleteArtifact_def WithTx_def q_DeleteArtifactByID_def bind_tx_def check_tx_def return_tx_def filter_id_conv)
  have "CreateRun rs a input (w, q) = (fail (TooManyRequests ''run.user_limit_exceeded'' ''too many runs in flight for this user''),
      (w\<lparr>wq_artifacts := wq_artifacts w + 1\<rparr>, q2))"
    using quiet queued request language upload(1) stuck(1)
    by (simp add: CreateRun_def admit_source_def create_source_def discardSource_def bind_act_simps try_act_def return_act_def
        read_call_def queue_call_def site_call_def store_call_def call_def now_act_def check_act_def requireLanguageEnabled_def
        ignore_act_def fail_act_def created refused deleted)
  with stuck(2) upload(2) show ?thesis by auto
qed

subsection \<open>Examples\<close>

text \<open>A bucket is a list of keys. It stores, and it deletes if \<open>works\<close> says so.\<close>

definition bucket :: "bool \<Rightarrow> string list object_storage" where
  "bucket works = \<lparr>ob_Put = (\<lambda>key ct body q. (Inr key, q @ [key])),
     ob_Delete = (\<lambda>key q. if works then (Inr (), filter (\<lambda>k. k \<noteq> key) q) else (Inl (ErrText ''storage unavailable''), q)),
     ob_Get = (\<lambda>key q. Inr key)\<rparr>"

definition bucket_sources :: "bool \<Rightarrow> string list source_store" where
  "bucket_sources works = \<lparr>st_storage = Some (bucket works), st_sha256hex = (\<lambda>_. ''00ff''), st_nonce = (\<lambda>q. Inr ''ab'')\<rparr>"

definition queued_runs :: "bool \<Rightarrow> string list run_service" where
  "queued_runs works = NewRunService id (bucket_sources works) None (\<lambda>_. \<lparr>po_parallelism = 1, po_slots = 0, po_closing = False, po_canceled = False\<rparr>)
     (\<lambda>_ q. q) 0 1 0"

definition scratch_input :: create_run_input where
  "scratch_input = \<lparr>cr_ProblemID = None, cr_LanguageID = 3, cr_Source = ''x'', cr_Stdin = []\<rparr>"

text \<open>User 1 has a queued run already.\<close>

definition busy_site :: site where
  "busy_site = cluttered_site\<lparr>wd_languages := [sample_language True], wd_judging := (wd_judging cluttered_site)\<lparr>db_users := [1]\<rparr>\<rparr>"

lemma busy_in_order: "sources_inv busy_site"
  by (simp add: busy_site_def sources_inv_def refers_to_def cluttered_site_def sample_source_def sample_run_def frozen_submission_def empty_store_def)

theorem source_tables_kept_witness:
  "let v = (busy_site, [''s'', ''r1'', ''r2'', ''r3'']) in
   sources_inv (fst (snd (CreateRun (queued_runs True) sample_author scratch_input v))) \<and> sources_inv (fst (snd (Sweep list_storage v)))"
proof -
  let ?v = "(busy_site, [''s'', ''r1'', ''r2'', ''r3''])"
    and ?c = "\<lparr>sb_others = id, sb_sources = bucket_sources True, sb_contests = None\<rparr>"
  have "owned_step u (sb_others ?c u)" "owned_step u (rs_others (queued_runs True) u)" "owned_step u (rt_others list_storage u)" for u
    by (simp_all add: queued_runs_def NewRunService_def list_storage_def NewRunRetention_def owned.evolves_refl)
  from source_tables_kept [of ?v ?c "queued_runs True" list_storage, OF _ this] busy_in_order show ?thesis by (simp add: Let_def)
qed

theorem refused_run_leaks_source_witness:
  "\<exists>w'. CreateRun (queued_runs False) sample_author scratch_input (busy_site, [])
       = (fail (TooManyRequests ''run.user_limit_exceeded'' ''too many runs in flight for this user''), (w', [''run/1/00ff-ab'']))
     \<and> (\<forall>x \<in> set (wd_artifacts w'). af_StorageKey x \<noteq> ''run/1/00ff-ab'')"
proof -
  let ?o = "\<lparr>so_StorageKey = ''run/1/00ff-ab'', so_ChecksumSHA256 = ''00ff'', so_SizeBytes = 1, so_ContentType = source_content_type\<rparr>"
    and ?rs = "queued_runs False"
  have "source_key ''run'' 1 ''00ff'' ''ab'' = ''run/1/00ff-ab''" by code_simp
  then have put: "source_Put (rs_sources ?rs) ''run'' (ac_UserID sample_author) (cr_Source scratch_input) [] = (Inr ?o, [''run/1/00ff-ab''])"
    and del: "source_Delete (rs_sources ?rs) (so_StorageKey ?o) [''run/1/00ff-ab''] = (Inl (ErrText ''storage unavailable''), [''run/1/00ff-ab''])"
    by (simp_all add: source_Put_def source_Delete_def queued_runs_def NewRunService_def bucket_sources_def bucket_def scratch_input_def sample_author_def)
  have "rs_others ?rs = id" "rs_runner ?rs = None" "Authenticated sample_author" "cr_Source scratch_input \<noteq> []"
    "int (length (cr_Stdin scratch_input)) \<le> rs_maxStdin ?rs" "cr_ProblemID scratch_input = None" "0 < rs_maxPerUser ?rs"
    by (simp_all add: queued_runs_def NewRunService_def sample_author_def scratch_input_def Authenticated_def)
  moreover have "GetLanguage (cr_LanguageID scratch_input) busy_site = Inr (languageRecord (sample_language True))" "lr_Enabled (languageRecord (sample_language True))"
    by (simp_all add: GetLanguage_def WithTx_def map_err_def q_GetLanguageByID_def select_row_def scratch_input_def busy_site_def
        sample_language_def languageRecord_def)
  moreover have "\<forall>x \<in> set (wd_artifacts busy_site). af_StorageKey x \<noteq> so_StorageKey ?o"
    by (simp add: busy_site_def cluttered_site_def sample_source_def)
  moreover have "ac_UserID sample_author \<in> set (db_users (wd_judging busy_site))"
    by (simp add: busy_site_def sample_author_def)
  moreover have "rs_maxPerUser ?rs \<le> int (length (filter (\<lambda>r. ru_UserID r = ac_UserID sample_author \<and> active_run r) (db_runs (wd_judging busy_site))))"
    by code_simp
  ultimately show ?thesis
    using refused_run_leaks_source [of ?rs busy_site sample_author scratch_input _ "[]" ?o "[''run/1/00ff-ab'']" _ _ set] busy_in_order put del by fastforce
qed

end
