(* ===== verification/Accounts.thy ===== *)
theory Accounts
  imports Site Actions
begin

section \<open>Users and roles: tables and repositories (\<^verbatim>\<open>internal/user/repository.go\<close>, \<^verbatim>\<open>roles.go\<close>, \<^verbatim>\<open>users.sql.go\<close>)\<close>

text \<open>
  The account tables, their queries and the three repositories over them: users and refresh tokens,
  role assignments, and the role-permission matrix. A disabled account keeps its rows; a revoked
  assignment or token keeps its row with the time it was revoked. The collation of the database, its
  \<^verbatim>\<open>lower\<close> and its \<^verbatim>\<open>ILIKE\<close> are parameters; the row locks some transactions take first are what lets them be atomic here.
\<close>

subsection \<open>Rows and the state\<close>

record user_row =
  uw_ID :: int64
  uw_Email :: string
  uw_PasswordHash :: string
  uw_Username :: string
  uw_AvatarUrl :: "string option"
  uw_Bio :: "string option"
  uw_Status :: string
  uw_CreatedAt :: time
  uw_UpdatedAt :: time

record assignment_row =
  ra_ID :: int64
  ra_UserID :: int64
  ra_Role :: Role
  ra_GrantedBy :: "int64 option"
  ra_GrantedAt :: time
  ra_RevokedAt :: "time option"

record refresh_token_row =
  rf_ID :: int64
  rf_UserID :: int64
  rf_TokenHash :: string
  rf_DeviceID :: string
  rf_UserAgent :: "string option"
  rf_Ip :: "string option"
  rf_ExpiresAt :: time
  rf_RevokedAt :: "time option"
  rf_CreatedAt :: time

record account_store =
  us_users :: "user_row list"
  us_assignments :: "assignment_row list"
  us_roles :: "Role list"
  us_matrix :: "(Role \<times> Permission) list"
  us_tokens :: "refresh_token_row list"
  us_audit :: "audit_row list"
  us_next_user :: int64
  us_next_assignment :: int64
  us_next_token :: int64
  us_now :: time
  us_clock :: time

type_synonym 'a atx = "(account_store, 'a) transaction"

abbreviation put_users where "put_users rows s \<equiv> s\<lparr>us_users := rows\<rparr>"
abbreviation put_assignments where "put_assignments rows s \<equiv> s\<lparr>us_assignments := rows\<rparr>"
abbreviation put_tokens where "put_tokens rows s \<equiv> s\<lparr>us_tokens := rows\<rparr>"
abbreviation put_account_audit where "put_account_audit rows s \<equiv> s\<lparr>us_audit := rows\<rparr>"

abbreviation StatusActive :: string where "StatusActive \<equiv> ''active''"
abbreviation StatusDisabled :: string where "StatusDisabled \<equiv> ''disabled''"
abbreviation StatusDeleted :: string where "StatusDeleted \<equiv> ''deleted''"

abbreviation ErrNotFound :: go_error where "ErrNotFound \<equiv> ErrText ''not found''"
abbreviation ErrConflict :: go_error where "ErrConflict \<equiv> ErrText ''conflict''"
abbreviation ErrLastRoot :: go_error where "ErrLastRoot \<equiv> ErrText ''cannot remove the last root role''"
abbreviation ErrProtectedRole :: go_error where "ErrProtectedRole \<equiv> ErrText ''role is protected''"

definition user_mapDBError :: "go_error \<Rightarrow> go_error" where
  "user_mapDBError e = (if e = ErrNoRows then ErrNotFound else if unique_violation e then ErrConflict else e)"

definition nullableText :: "string \<Rightarrow> string option" where
  "nullableText value = (let v = TrimSpace value in if v = [] then None else Some v)"

subsection \<open>Queries (\<^verbatim>\<open>users.sql.go\<close>)\<close>

definition user_constraints :: "user_row \<Rightarrow> bool" where
  "user_constraints u \<longleftrightarrow> uw_Status u \<in> {StatusActive, StatusDisabled, StatusDeleted}"

text \<open>\<open>lower\<close> is the database's \<^verbatim>\<open>lower(text)\<close>, which depends on its locale.\<close>

definition q_CreateUser ::
  "(string \<Rightarrow> string) \<Rightarrow> string \<Rightarrow> string \<Rightarrow> string \<Rightarrow> string \<Rightarrow> user_row atx" where
  "q_CreateUser lower email passwordHash username status = (\<lambda>s.
     let row = \<lparr>uw_ID = us_next_user s, uw_Email = email, uw_PasswordHash = passwordHash, uw_Username = username,
                uw_AvatarUrl = None, uw_Bio = None, uw_Status = status, uw_CreatedAt = us_now s, uw_UpdatedAt = us_now s\<rparr>
     in bind_tx (check_tx (user_constraints row) ''users_status_check'') (\<lambda>_.
        bind_tx (unique_tx (\<forall>u \<in> set (us_users s). lower (uw_Email u) \<noteq> lower email) ''users_email_lower_uidx'') (\<lambda>_ s.
          Inr (row, s\<lparr>us_users := us_users s @ [row], us_next_user := us_next_user s + 1\<rparr>))) s)"

definition q_GetUserByEmail :: "(string \<Rightarrow> string) \<Rightarrow> string \<Rightarrow> user_row atx" where
  "q_GetUserByEmail lower email = select_row us_users (\<lambda>u. lower (uw_Email u) = lower email)"

definition q_GetUserByID :: "int64 \<Rightarrow> user_row atx" where
  "q_GetUserByID uid = select_row us_users (\<lambda>u. uw_ID u = uid)"

record list_users_input =
  lu_Status :: string
  lu_Keyword :: string
  lu_Page :: int32
  lu_PageSize :: int32
  lu_Cursor :: "(time \<times> int64) option"

definition user_selected :: "(string \<Rightarrow> string \<Rightarrow> bool) \<Rightarrow> list_users_input \<Rightarrow> user_row \<Rightarrow> bool" where
  "user_selected ilike i u \<longleftrightarrow>
     absent_or (nullableText (lu_Status i)) (\<lambda>st. uw_Status u = st)
     \<and> absent_or (nullableText (lu_Keyword i)) (\<lambda>k. ilike (uw_Email u) k \<or> ilike (uw_Username u) k)"

definition user_key :: "user_row \<Rightarrow> time \<times> int64" where
  "user_key u = (uw_CreatedAt u, uw_ID u)"

definition later_key :: "time \<times> int64 \<Rightarrow> time \<times> int64 \<Rightarrow> bool" where
  "later_key a b \<longleftrightarrow> fst b < fst a \<or> fst a = fst b \<and> snd b < snd a"

definition newest_user_first :: "user_row \<Rightarrow> user_row \<Rightarrow> bool" where
  "newest_user_first a b = later_key (user_key a) (user_key b)"

definition q_ListUsers :: "(string \<Rightarrow> string \<Rightarrow> bool) \<Rightarrow> list_users_input \<Rightarrow> int32 \<Rightarrow> int32 \<Rightarrow> account_store \<Rightarrow> user_row list res" where
  "q_ListUsers ilike i limit_n offset s =
     paged offset limit_n (sort_by newest_user_first (filter (user_selected ilike i) (us_users s)))"

definition q_CountUsers :: "(string \<Rightarrow> string \<Rightarrow> bool) \<Rightarrow> list_users_input \<Rightarrow> account_store \<Rightarrow> int64" where
  "q_CountUsers ilike i s = int (length (filter (user_selected ilike i) (us_users s)))"

definition q_ListUsersByCursor ::
  "(string \<Rightarrow> string \<Rightarrow> bool) \<Rightarrow> list_users_input \<Rightarrow> time \<times> int64 \<Rightarrow> account_store \<Rightarrow> user_row list res" where
  "q_ListUsersByCursor ilike i before s =
     paged 0 (lu_PageSize i) (sort_by newest_user_first
       (filter (\<lambda>u. user_selected ilike i u \<and> later_key before (user_key u)) (us_users s)))"

record update_user_input =
  up_Username :: "string option"
  up_Bio :: "string option"
  up_Status :: "string option"

definition with_user_fields :: "update_user_input \<Rightarrow> time \<Rightarrow> user_row \<Rightarrow> user_row" where
  "with_user_fields i now u =
     u\<lparr>uw_Username := coalesce (up_Username i) (uw_Username u),
       uw_Bio := (case up_Bio i of None \<Rightarrow> uw_Bio u | Some b \<Rightarrow> Some b),
       uw_Status := coalesce (up_Status i) (uw_Status u), uw_UpdatedAt := now\<rparr>"

definition q_UpdateUserAdminFields :: "int64 \<Rightarrow> update_user_input \<Rightarrow> user_row atx" where
  "q_UpdateUserAdminFields uid i = (\<lambda>s.
     bind_tx (update_row us_users put_users (\<lambda>u. uw_ID u = uid) (with_user_fields i (us_now s))) (\<lambda>row.
     bind_tx (check_tx (user_constraints row) ''users_status_check'') (\<lambda>_. return_tx row)) s)"

record token_metadata =
  tk_DeviceID :: string
  tk_UserAgent :: string
  tk_IP :: string
  tk_ExpiresAt :: time

text \<open>\<open>ip\<close> is the address the repository could parse.\<close>

definition q_CreateRefreshToken :: "int64 \<Rightarrow> string \<Rightarrow> token_metadata \<Rightarrow> string option \<Rightarrow> refresh_token_row atx" where
  "q_CreateRefreshToken uid tokenHash meta ip = (\<lambda>s.
     bind_tx (check_tx (\<exists>u \<in> set (us_users s). uw_ID u = uid) ''refresh_tokens_user_id_fkey'') (\<lambda>_.
     bind_tx (unique_tx (\<forall>t \<in> set (us_tokens s). rf_TokenHash t \<noteq> tokenHash) ''refresh_tokens_token_hash_uidx'') (\<lambda>_ s.
       let row = \<lparr>rf_ID = us_next_token s, rf_UserID = uid, rf_TokenHash = tokenHash, rf_DeviceID = tk_DeviceID meta,
                  rf_UserAgent = nullableText (tk_UserAgent meta), rf_Ip = ip, rf_ExpiresAt = tk_ExpiresAt meta,
                  rf_RevokedAt = None, rf_CreatedAt = us_now s\<rparr>
       in Inr (row, s\<lparr>us_tokens := us_tokens s @ [row], us_next_token := us_next_token s + 1\<rparr>))) s)"

definition q_GetRefreshTokenByHash :: "string \<Rightarrow> refresh_token_row atx" where
  "q_GetRefreshTokenByHash tokenHash = select_row us_tokens (\<lambda>t. rf_TokenHash t = tokenHash)"

definition revoke_tokens :: "(refresh_token_row \<Rightarrow> bool) \<Rightarrow> unit atx" where
  "revoke_tokens P = (\<lambda>s. Inr ((), put_tokens (update_rows (\<lambda>t. P t \<and> rf_RevokedAt t = None)
     (\<lambda>t. t\<lparr>rf_RevokedAt := Some (us_now s)\<rparr>) (us_tokens s)) s))"

definition q_RevokeRefreshToken :: "string \<Rightarrow> unit atx" where
  "q_RevokeRefreshToken tokenHash = revoke_tokens (\<lambda>t. rf_TokenHash t = tokenHash)"

definition q_RevokeUserDeviceRefreshTokens :: "int64 \<Rightarrow> string \<Rightarrow> unit atx" where
  "q_RevokeUserDeviceRefreshTokens uid device = revoke_tokens (\<lambda>t. rf_UserID t = uid \<and> rf_DeviceID t = device)"

subsection \<open>The user repository (\<^verbatim>\<open>repository.go\<close>)\<close>

record user_account =
  ua_ID :: int64
  ua_Email :: string
  ua_Username :: string
  ua_AvatarURL :: string
  ua_Bio :: string
  ua_Roles :: "Role list"
  ua_Permissions :: "Permission list"
  ua_Status :: string
  ua_CreatedAt :: time
  ua_UpdatedAt :: time

definition mapUser :: "user_row \<Rightarrow> user_account" where
  "mapUser u =
     \<lparr>ua_ID = uw_ID u, ua_Email = uw_Email u, ua_Username = uw_Username u, ua_AvatarURL = coalesce (uw_AvatarUrl u) [],
      ua_Bio = coalesce (uw_Bio u) [], ua_Roles = [], ua_Permissions = [], ua_Status = uw_Status u,
      ua_CreatedAt = uw_CreatedAt u, ua_UpdatedAt = uw_UpdatedAt u\<rparr>"

definition map_res :: "('a \<Rightarrow> 'b) \<Rightarrow> 'a res \<Rightarrow> 'b res" where
  "map_res f r = bind_res r (\<lambda>x. Inr (f x))"

definition repo_CreateUser ::
  "(string \<Rightarrow> string) \<Rightarrow> string \<Rightarrow> string \<Rightarrow> string \<Rightarrow> account_store \<Rightarrow> user_account res \<times> account_store" where
  "repo_CreateUser lower email passwordHash username s =
     (case WithTx (map_err user_mapDBError (q_CreateUser lower email passwordHash username StatusActive)) s of
        (r, s') \<Rightarrow> (map_res mapUser r, s'))"

definition repo_GetUserByEmail ::
  "(string \<Rightarrow> string) \<Rightarrow> string \<Rightarrow> account_store \<Rightarrow> (user_account \<times> string) res" where
  "repo_GetUserByEmail lower email s =
     map_res (\<lambda>u. (mapUser u, uw_PasswordHash u)) (fst (WithTx (map_err user_mapDBError (q_GetUserByEmail lower email)) s))"

definition repo_GetUserByID :: "int64 \<Rightarrow> account_store \<Rightarrow> user_account res" where
  "repo_GetUserByID uid s = map_res mapUser (fst (WithTx (map_err user_mapDBError (q_GetUserByID uid)) s))"

definition repo_ListUsers ::
  "(string \<Rightarrow> string \<Rightarrow> bool) \<Rightarrow> list_users_input \<Rightarrow> account_store \<Rightarrow> (user_account list \<times> int64) res" where
  "repo_ListUsers ilike i s =
     bind_res (q_ListUsers ilike i (lu_PageSize i) ((lu_Page i - 1) * lu_PageSize i) s) (\<lambda>rows.
       Inr (map mapUser rows, q_CountUsers ilike i s))"

definition first_user_cursor :: "time \<times> int64" where
  "first_user_cursor = (far_future, 2 ^ 63 - 1)"

definition repo_ListUsersByCursor :: "(string \<Rightarrow> string \<Rightarrow> bool) \<Rightarrow> list_users_input \<Rightarrow> account_store \<Rightarrow> user_account list res" where
  "repo_ListUsersByCursor ilike i s =
     map_res (map mapUser) (q_ListUsersByCursor ilike i (coalesce (lu_Cursor i) first_user_cursor) s)"

definition active_assignment :: "assignment_row \<Rightarrow> bool" where
  "active_assignment a \<longleftrightarrow> ra_RevokedAt a = None"

definition root_holders :: "account_store \<Rightarrow> int64 list" where
  "root_holders s = map ra_UserID (filter (\<lambda>a. ra_Role a = RoleRoot \<and> active_assignment a) (us_assignments s))"

definition ensureActiveRootRemains :: "int64 \<Rightarrow> unit atx" where
  "ensureActiveRootRemains uid = (\<lambda>s. if root_holders s = [uid] then Inl ErrLastRoot else Inr ((), s))"

definition account_audit :: "audit_event \<Rightarrow> unit atx" where
  "account_audit e = audit_Insert us_audit put_account_audit e"

definition update_user_tx :: "int64 \<Rightarrow> update_user_input \<Rightarrow> audit_event \<Rightarrow> user_account atx" where
  "update_user_tx uid i event =
     bind_tx (when_tx (\<not> absent_or (up_Status i) (\<lambda>st. st = StatusActive)) (ensureActiveRootRemains uid)) (\<lambda>_.
     bind_tx (map_err user_mapDBError (q_UpdateUserAdminFields uid i)) (\<lambda>row.
     bind_tx (account_audit event) (\<lambda>_. return_tx (mapUser row))))"

definition repo_UpdateUser ::
  "int64 \<Rightarrow> update_user_input \<Rightarrow> audit_event option \<Rightarrow> account_store \<Rightarrow> user_account res \<times> account_store" where
  "repo_UpdateUser uid i event s =
     (case event of
        None \<Rightarrow> (case WithTx (map_err user_mapDBError (q_UpdateUserAdminFields uid i)) s of (r, s') \<Rightarrow> (map_res mapUser r, s'))
      | Some e \<Rightarrow> WithTx (update_user_tx uid i e) s)"

text \<open>\<open>parseAddr\<close> is \<^verbatim>\<open>netip.ParseAddr\<close>: the address of a text that denotes one.\<close>

definition repo_CreateRefreshToken ::
  "(string \<Rightarrow> string option) \<Rightarrow> int64 \<Rightarrow> string \<Rightarrow> token_metadata \<Rightarrow> account_store \<Rightarrow> unit res \<times> account_store" where
  "repo_CreateRefreshToken parseAddr uid tokenHash meta s =
     (case WithTx (map_err user_mapDBError (q_CreateRefreshToken uid tokenHash meta
              (if tk_IP meta = [] then None else parseAddr (tk_IP meta)))) s of
        (r, s') \<Rightarrow> (map_res (\<lambda>_. ()) r, s'))"

definition repo_GetRefreshToken :: "string \<Rightarrow> account_store \<Rightarrow> refresh_token_row res" where
  "repo_GetRefreshToken tokenHash s = fst (WithTx (map_err user_mapDBError (q_GetRefreshTokenByHash tokenHash)) s)"

definition repo_RevokeRefreshToken :: "string \<Rightarrow> account_store \<Rightarrow> unit res \<times> account_store" where
  "repo_RevokeRefreshToken tokenHash s = WithTx (q_RevokeRefreshToken tokenHash) s"

definition repo_RevokeUserDeviceRefreshTokens :: "int64 \<Rightarrow> string \<Rightarrow> account_store \<Rightarrow> unit res \<times> account_store" where
  "repo_RevokeUserDeviceRefreshTokens uid device s = WithTx (q_RevokeUserDeviceRefreshTokens uid device) s"

subsection \<open>Role assignments (\<^verbatim>\<open>roles.go\<close>, \<^verbatim>\<open>actor.go\<close>)\<close>

record access =
  xs_Roles :: "Role list"
  xs_Permissions :: "Permission list"

text \<open>One account's rows of the join: its active assignments with the permissions of their roles, each side optional.\<close>

type_synonym access_row = "Role option \<times> Permission option"

definition role_rows :: "account_store \<Rightarrow> Role \<Rightarrow> access_row list" where
  "role_rows s role =
     (case filter (\<lambda>(r, p). r = role) (us_matrix s) of
        [] \<Rightarrow> [(Some role, None)] | ps \<Rightarrow> map (\<lambda>(r, p). (Some role, Some p)) ps)"

definition access_rows :: "account_store \<Rightarrow> int64 \<Rightarrow> access_row list" where
  "access_rows s uid =
     (case filter (\<lambda>a. ra_UserID a = uid \<and> active_assignment a) (us_assignments s) of
        [] \<Rightarrow> [(None, None)] | as \<Rightarrow> concat (map (\<lambda>a. role_rows s (ra_Role a)) as))"

text \<open>Ascending order puts \<^verbatim>\<open>NULL\<close> last.\<close>

fun null_last :: "(string \<Rightarrow> string \<Rightarrow> bool) \<Rightarrow> string option \<Rightarrow> string option \<Rightarrow> bool" where
  "null_last collate (Some a) (Some b) = collate a b"
| "null_last collate (Some a) None = True"
| "null_last collate None b = False"

definition access_order :: "(string \<Rightarrow> string \<Rightarrow> bool) \<Rightarrow> access_row \<Rightarrow> access_row \<Rightarrow> bool" where
  "access_order collate x y \<longleftrightarrow>
     null_last collate (fst x) (fst y) \<or> \<not> null_last collate (fst y) (fst x) \<and> null_last collate (snd x) (snd y)"

definition add_role :: "Role option \<Rightarrow> Role list \<Rightarrow> Role list res" where
  "add_role roleCode roles =
     (case roleCode of
        None \<Rightarrow> Inr roles
      | Some code \<Rightarrow>
          (case ParseRole code of
             Inl e \<Rightarrow> Inl (ErrText (''invalid role assignment: '' @ error_text e))
           | Inr role \<Rightarrow>
               if \<not> IsGlobalRole role then Inl (ErrText (''invalid global role assignment '' @ code))
               else if roles = [] \<or> last roles \<noteq> role then Inr (roles @ [role]) else Inr roles))"

definition add_permission :: "Permission option \<Rightarrow> Permission list \<Rightarrow> Permission list res" where
  "add_permission permissionCode permissions =
     (case permissionCode of
        None \<Rightarrow> Inr permissions
      | Some code \<Rightarrow>
          if code \<notin> set allPermissions then Inl (ErrText (''invalid permission assignment '' @ code))
          else Inr (permissions @ [code]))"

definition accumulate :: "access_row \<Rightarrow> access \<Rightarrow> access res" where
  "accumulate row acc =
     bind_res (add_role (fst row) (xs_Roles acc)) (\<lambda>roles.
     bind_res (add_permission (snd row) (xs_Permissions acc)) (\<lambda>permissions.
       Inr \<lparr>xs_Roles = roles, xs_Permissions = permissions\<rparr>))"

fun accumulate_all :: "access_row list \<Rightarrow> access \<Rightarrow> access res" where
  "accumulate_all [] acc = Inr acc"
| "accumulate_all (row # rows) acc = bind_res (accumulate row acc) (accumulate_all rows)"

abbreviation no_access :: access where "no_access \<equiv> \<lparr>xs_Roles = [], xs_Permissions = []\<rparr>"

fun dedupe :: "'a list \<Rightarrow> 'a list \<Rightarrow> 'a list" where
  "dedupe seen [] = []"
| "dedupe seen (x # xs) = (if x \<in> set seen then dedupe seen xs else x # dedupe (x # seen) xs)"

definition expandFullAccess :: "Role list \<Rightarrow> Permission list \<Rightarrow> Permission list" where
  "expandFullAccess roles permissions =
     (if \<exists>role \<in> set roles. IsFullAccessRole role then allPermissions
      else sort_by (<) (dedupe [] permissions))"

definition access_of :: "access \<Rightarrow> access" where
  "access_of acc = acc\<lparr>xs_Permissions := expandFullAccess (xs_Roles acc) (xs_Permissions acc)\<rparr>"

definition page_rows :: "account_store \<Rightarrow> int64 list \<Rightarrow> (int64 \<times> access_row) list" where
  "page_rows s ids =
     concat (map (\<lambda>u. map (Pair (uw_ID u)) (access_rows s (uw_ID u))) (filter (\<lambda>u. uw_ID u \<in> set ids) (us_users s)))"

definition page_order :: "(string \<Rightarrow> string \<Rightarrow> bool) \<Rightarrow> int64 \<times> access_row \<Rightarrow> int64 \<times> access_row \<Rightarrow> bool" where
  "page_order collate x y \<longleftrightarrow> fst x < fst y \<or> fst x = fst y \<and> access_order collate (snd x) (snd y)"

text \<open>The loop over the rows of a page: what is found, the user the rows are at (0 before the first), and what it has so far.\<close>

fun fold_access :: "(int64 \<times> access_row) list \<Rightarrow> int64 \<Rightarrow> access \<Rightarrow> (int64 \<Rightarrow> access option) \<Rightarrow> (int64 \<Rightarrow> access option) res" where
  "fold_access [] current acc found = Inr (if current \<noteq> 0 then found(current \<mapsto> access_of acc) else found)"
| "fold_access ((uid, row) # rows) current acc found =
     (if uid \<noteq> current \<and> current \<noteq> 0
      then bind_res (accumulate row no_access) (\<lambda>acc'. fold_access rows uid acc' (found(current \<mapsto> access_of acc)))
      else bind_res (accumulate row acc) (\<lambda>acc'. fold_access rows uid acc' found))"

definition ListAccessForUsers ::
  "(string \<Rightarrow> string \<Rightarrow> bool) \<Rightarrow> int64 list \<Rightarrow> account_store \<Rightarrow> (int64 \<Rightarrow> access option) res" where
  "ListAccessForUsers collate ids s =
     (if ids = [] then Inr (\<lambda>_. None)
      else fold_access (sort_by (page_order collate) (page_rows s ids)) 0 no_access (\<lambda>_. None))"

definition ListAccess :: "(string \<Rightarrow> string \<Rightarrow> bool) \<Rightarrow> int64 \<Rightarrow> account_store \<Rightarrow> access res" where
  "ListAccess collate uid s =
     (if uid \<le> 0 then Inl ErrNotFound
      else bind_res (ListAccessForUsers collate [uid] s) (\<lambda>found. Inr (coalesce (found uid) no_access)))"

record actor_state =
  as_Status :: string
  as_Roles :: "Role list"
  as_Permissions :: "Permission list"

definition ResolveActor :: "(string \<Rightarrow> string \<Rightarrow> bool) \<Rightarrow> int64 \<Rightarrow> account_store \<Rightarrow> actor_state res" where
  "ResolveActor collate uid s =
     (if uid \<le> 0 then Inl ErrNotFound
      else case List.find (\<lambda>u. uw_ID u = uid) (us_users s) of
             None \<Rightarrow> Inl ErrNotFound
           | Some u \<Rightarrow>
               bind_res (accumulate_all (sort_by (access_order collate) (access_rows s uid)) no_access) (\<lambda>acc.
                 Inr \<lparr>as_Status = uw_Status u, as_Roles = xs_Roles (access_of acc), as_Permissions = xs_Permissions (access_of acc)\<rparr>))"

definition insert_assignment :: "int64 \<Rightarrow> Role \<Rightarrow> int64 option \<Rightarrow> assignment_row atx" where
  "insert_assignment uid role grantedBy = (\<lambda>s.
     if \<forall>u \<in> set (us_users s). uw_ID u \<noteq> uid then Inl ErrNoRows
     else bind_tx (check_tx (grantedBy \<noteq> Some uid \<and> IsGlobalRole role) ''user_role_assignments_check'') (\<lambda>_.
          bind_tx (check_tx (role \<in> set (us_roles s) \<and> absent_or grantedBy (\<lambda>g. \<exists>u \<in> set (us_users s). uw_ID u = g))
            ''user_role_assignments_fkey'') (\<lambda>_.
          bind_tx (unique_tx (\<forall>a \<in> set (us_assignments s). \<not> (ra_UserID a = uid \<and> ra_Role a = role \<and> active_assignment a))
            ''user_role_assignments_active_uidx'') (\<lambda>_ s.
            let row = \<lparr>ra_ID = us_next_assignment s, ra_UserID = uid, ra_Role = role, ra_GrantedBy = grantedBy,
                       ra_GrantedAt = us_now s, ra_RevokedAt = None\<rparr>
            in Inr (row, s\<lparr>us_assignments := us_assignments s @ [row], us_next_assignment := us_next_assignment s + 1\<rparr>)))) s)"

definition actorUserID :: "int64 option \<Rightarrow> int64" where
  "actorUserID value = coalesce value 0"

definition grant_role_tx :: "int64 \<Rightarrow> Role \<Rightarrow> int64 option \<Rightarrow> string \<Rightarrow> assignment_row atx" where
  "grant_role_tx uid role grantedBy reason =
     bind_tx (map_err user_mapDBError (insert_assignment uid role grantedBy)) (\<lambda>row.
     bind_tx (account_audit \<lparr>au_ActorUserID = actorUserID grantedBy, au_Action = ''user.role.granted'', au_ObjectType = ''user'',
        au_ObjectID = uid, au_Reason = reason, au_Metadata = [(''role'', role)]\<rparr>) (\<lambda>_. return_tx row))"

definition repo_GrantRole ::
  "int64 \<Rightarrow> Role \<Rightarrow> int64 option \<Rightarrow> string \<Rightarrow> account_store \<Rightarrow> assignment_row res \<times> account_store" where
  "repo_GrantRole uid role grantedBy reason s =
     (if uid \<le> 0 \<or> \<not> IsGlobalRole role then (Inl ErrNotFound, s)
      else if TrimSpace reason = [] then (Inl (ErrText ''role grant reason is required''), s)
      else WithTx (grant_role_tx uid role grantedBy (TrimSpace reason)) s)"

text \<open>The \<^verbatim>\<open>UPDATE\<close> and the number of rows it changed.\<close>

definition revoke_assignments :: "int64 \<Rightarrow> Role \<Rightarrow> nat atx" where
  "revoke_assignments uid role = (\<lambda>s.
     let P = (\<lambda>a. ra_UserID a = uid \<and> ra_Role a = role \<and> active_assignment a)
     in Inr (length (filter P (us_assignments s)),
             put_assignments (update_rows P (\<lambda>a. a\<lparr>ra_RevokedAt := Some (us_now s)\<rparr>) (us_assignments s)) s))"

definition revoke_role_tx :: "int64 \<Rightarrow> Role \<Rightarrow> int64 \<Rightarrow> string \<Rightarrow> unit atx" where
  "revoke_role_tx uid role revokedBy reason =
     bind_tx (revoke_assignments uid role) (\<lambda>n.
     if n \<noteq> 1 then fail_tx ErrNotFound
     else bind_tx (when_tx (role = RoleRoot) (\<lambda>s. if root_holders s = [] then Inl ErrLastRoot else Inr ((), s))) (\<lambda>_.
          account_audit \<lparr>au_ActorUserID = revokedBy, au_Action = ''user.role.revoked'', au_ObjectType = ''user'',
            au_ObjectID = uid, au_Reason = reason, au_Metadata = [(''role'', role)]\<rparr>))"

definition repo_RevokeRole :: "int64 \<Rightarrow> Role \<Rightarrow> int64 \<Rightarrow> string \<Rightarrow> account_store \<Rightarrow> unit res \<times> account_store" where
  "repo_RevokeRole uid role revokedBy reason s =
     (if uid \<le> 0 \<or> revokedBy \<le> 0 \<or> \<not> IsGlobalRole role then (Inl ErrNotFound, s)
      else if role = RoleUser then (Inl ErrProtectedRole, s)
      else if TrimSpace reason = [] then (Inl (ErrText ''role revoke reason is required''), s)
      else WithTx (revoke_role_tx uid role revokedBy (TrimSpace reason)) s)"

subsection \<open>The role-permission matrix (\<^verbatim>\<open>role_permission.go\<close>)\<close>

fun parse_roles :: "string list \<Rightarrow> Role list res" where
  "parse_roles [] = Inr []"
| "parse_roles (code # codes) = bind_res (ParseRole code) (\<lambda>role. bind_res (parse_roles codes) (\<lambda>roles. Inr (role # roles)))"

definition ListRoles :: "(string \<Rightarrow> string \<Rightarrow> bool) \<Rightarrow> account_store \<Rightarrow> Role list res" where
  "ListRoles collate s = parse_roles (sort_by collate (us_roles s))"

definition matrix_order :: "(string \<Rightarrow> string \<Rightarrow> bool) \<Rightarrow> Role \<times> Permission \<Rightarrow> Role \<times> Permission \<Rightarrow> bool" where
  "matrix_order collate x y \<longleftrightarrow> collate (fst x) (fst y) \<or> \<not> collate (fst y) (fst x) \<and> collate (snd x) (snd y)"

fun group_permissions :: "(Role \<times> Permission) list \<Rightarrow> (Role \<Rightarrow> Permission list) \<Rightarrow> (Role \<Rightarrow> Permission list) res" where
  "group_permissions [] byRole = Inr byRole"
| "group_permissions ((roleCode, code) # rows) byRole =
     bind_res (ParseRole roleCode) (\<lambda>role.
       if Lookup code = None then (case WithDetails (Some Internal) code of None \<Rightarrow> Inr byRole | Some e \<Rightarrow> fail e)
       else group_permissions rows (byRole(role := byRole role @ [code])))"

definition ListPermissions :: "(string \<Rightarrow> string \<Rightarrow> bool) \<Rightarrow> account_store \<Rightarrow> (Role \<Rightarrow> Permission list) res" where
  "ListPermissions collate s = group_permissions (sort_by (matrix_order collate) (us_matrix s)) (\<lambda>_. [])"

definition rolePermissionsTx :: "(string \<Rightarrow> string \<Rightarrow> bool) \<Rightarrow> Role \<Rightarrow> Permission list atx" where
  "rolePermissionsTx collate role =
     get_tx (\<lambda>s. sort_by collate (map snd (filter (\<lambda>(r, p). r = role) (us_matrix s))))"

definition permissionCodes :: "Permission list \<Rightarrow> string list" where
  "permissionCodes permissions = sort_by (<) permissions"

text \<open>\<^verbatim>\<open>json.Marshal\<close> of a list of ASCII texts.\<close>

definition hex_digit :: "nat \<Rightarrow> char" where
  "hex_digit n = ''0123456789abcdef'' ! n"

definition json_char :: "char \<Rightarrow> string" where
  "json_char c =
     (let n = of_char c :: nat in
      if n = 34 then [CHR 92, CHR 34] else if n = 92 then [CHR 92, CHR 92]
      else if n = 8 then [CHR 92, CHR ''b''] else if n = 12 then [CHR 92, CHR ''f'']
      else if n = 10 then [CHR 92, CHR ''n''] else if n = 13 then [CHR 92, CHR ''r''] else if n = 9 then [CHR 92, CHR ''t'']
      else if n < 32 \<or> n = 38 \<or> n = 60 \<or> n = 62 then CHR 92 # ''u00'' @ [hex_digit (n div 16), hex_digit (n mod 16)]
      else [c])"

definition json_strings :: "string list \<Rightarrow> string" where
  "json_strings xs = ''['' @ Join (map (\<lambda>x. [CHR 34] @ concat (map json_char x) @ [CHR 34]) xs) '','' @ '']''"

definition insert_permissions :: "Role \<Rightarrow> Permission list \<Rightarrow> unit atx" where
  "insert_permissions role permissions = (\<lambda>s.
     bind_tx (check_tx (role \<in> set (us_roles s) \<and> [] \<notin> set permissions) ''role_permissions_check'') (\<lambda>_.
     bind_tx (unique_tx (distinct permissions \<and> (\<forall>p \<in> set permissions. (role, p) \<notin> set (us_matrix s))) ''role_permissions_pkey'') (\<lambda>_ s.
       Inr ((), s\<lparr>us_matrix := us_matrix s @ map (Pair role) permissions\<rparr>))) s)"

definition replace_permissions_tx ::
  "(string \<Rightarrow> string \<Rightarrow> bool) \<Rightarrow> Role \<Rightarrow> Permission list \<Rightarrow> int64 \<Rightarrow> string \<Rightarrow> bool atx" where
  "replace_permissions_tx collate role permissions actorID reason =
     bind_tx (rolePermissionsTx collate role) (\<lambda>before.
     if before = permissions then return_tx False
     else bind_tx (\<lambda>s. Inr ((), s\<lparr>us_matrix := filter (\<lambda>(r, p). r \<noteq> role) (us_matrix s)\<rparr>)) (\<lambda>_.
          bind_tx (when_tx (permissions \<noteq> []) (insert_permissions role (permissionCodes permissions))) (\<lambda>_.
          bind_tx (account_audit \<lparr>au_ActorUserID = actorID, au_Action = ''role.permissions.updated'', au_ObjectType = ''role'',
            au_ObjectID = 0, au_Reason = reason, au_Metadata = [(''role'', role),
              (''before'', json_strings (permissionCodes before)), (''after'', json_strings (permissionCodes permissions))]\<rparr>) (\<lambda>_.
            return_tx True))))"

definition Replace ::
  "(string \<Rightarrow> string \<Rightarrow> bool) \<Rightarrow> Role \<Rightarrow> Permission list \<Rightarrow> int64 \<Rightarrow> string \<Rightarrow> account_store \<Rightarrow> bool res \<times> account_store" where
  "Replace collate role permissions actorID reason s = WithTx (replace_permissions_tx collate role permissions actorID reason) s"

end
