(* ===== verification/Account_Service.thy ===== *)
theory Account_Service
  imports Accounts
begin

section \<open>Accounts, sessions and administration (\<^verbatim>\<open>internal/user/service.go\<close>, \<^verbatim>\<open>role_permission.go\<close>, \<^verbatim>\<open>internal/auth\<close>)\<close>

text \<open>
  The user service: registering, logging in and out, refreshing a session, administering users, roles and
  the permission matrix; and the middleware that turns a token into the actor of a request. The
  operations make several calls and other processes run between them. The hash functions, the random
  source and the token library are parameters.
\<close>

subsection \<open>Tokens and passwords (\<^verbatim>\<open>internal/auth\<close>)\<close>

type_synonym 'q accounts = "account_store \<times> 'q"

record access_claims =
  cl_UserID :: int64
  cl_DeviceID :: string
  cl_ExpiresAt :: time
  cl_IssuedAt :: time

text \<open>
  \<open>ae_bcrypt\<close>, \<open>ae_compare\<close>: \<^verbatim>\<open>bcrypt\<close>; \<open>ae_rand\<close>: 32 random bytes as base64 text; \<open>ae_sign\<close> and \<open>ae_parse\<close>: the JWT library
  with method HS256, which checks signature and expiry; \<open>ae_parseAddr\<close>: \<^verbatim>\<open>netip.ParseAddr\<close>; \<open>ae_lower\<close>:
  \<^verbatim>\<open>strings.ToLower\<close>, which also lowers letters outside ASCII; \<open>ae_dbLower\<close>: the database's \<^verbatim>\<open>lower\<close>.
\<close>

record 'q account_service =
  ae_others :: "'q accounts \<Rightarrow> 'q accounts"
  ae_lower :: "string \<Rightarrow> string"
  ae_dbLower :: "string \<Rightarrow> string"
  ae_ilike :: "string \<Rightarrow> string \<Rightarrow> bool"
  ae_collate :: "string \<Rightarrow> string \<Rightarrow> bool"
  ae_hasRoles :: bool
  ae_hasMatrix :: bool
  ae_bcrypt :: "string \<Rightarrow> 'q \<Rightarrow> string res \<times> 'q"
  ae_compare :: "string \<Rightarrow> string \<Rightarrow> bool"
  ae_rand :: "'q \<Rightarrow> string res \<times> 'q"
  ae_sha256hex :: "string \<Rightarrow> string"
  ae_sign :: "string \<Rightarrow> access_claims \<Rightarrow> string res"
  ae_parse :: "string \<Rightarrow> time \<Rightarrow> string \<Rightarrow> access_claims res"
  ae_parseAddr :: "string \<Rightarrow> string option"
  ae_secret :: string
  ae_jwtTTL :: duration
  ae_accessTTL :: duration
  ae_refreshTTL :: duration

definition acct_call :: "'q account_service \<Rightarrow> (account_store \<Rightarrow> 'a res \<times> account_store) \<Rightarrow> ('q accounts, 'a) action" where
  "acct_call sv op = call (ae_others sv) (\<lambda>(s, q). case op s of (r, s') \<Rightarrow> (r, (s', q)))"

definition acct_read :: "'q account_service \<Rightarrow> (account_store \<Rightarrow> 'a res) \<Rightarrow> ('q accounts, 'a) action" where
  "acct_read sv f = call (ae_others sv) (\<lambda>(s, q). (f s, (s, q)))"

definition local_act :: "('q \<Rightarrow> 'a res \<times> 'q) \<Rightarrow> ('q accounts, 'a) action" where
  "local_act f = (\<lambda>(s, q). case f q of (r, q') \<Rightarrow> (r, (s, q')))"

text \<open>A reading of the clock; time passes, and other processes run, before the next call.\<close>

definition clock_act :: "'q account_service \<Rightarrow> ('q accounts, time) action" where
  "clock_act sv = acct_read sv (\<lambda>s. Inr (us_clock s))"

definition HashPassword :: "'q account_service \<Rightarrow> string \<Rightarrow> 'q \<Rightarrow> string res \<times> 'q" where
  "HashPassword sv password q =
     (if password = [] then (Inl (ErrText ''password is required''), q) else ae_bcrypt sv password q)"

definition VerifyPassword :: "'q account_service \<Rightarrow> string \<Rightarrow> string \<Rightarrow> bool" where
  "VerifyPassword sv hash password \<longleftrightarrow> hash \<noteq> [] \<and> password \<noteq> [] \<and> ae_compare sv hash password"

definition HashRefreshToken :: "'q account_service \<Rightarrow> string \<Rightarrow> string" where
  "HashRefreshToken sv token = ae_sha256hex sv token"

definition NewRefreshToken :: "'q account_service \<Rightarrow> 'q \<Rightarrow> (string \<times> string) res \<times> 'q" where
  "NewRefreshToken sv q = (case ae_rand sv q of (r, q') \<Rightarrow> (map_res (\<lambda>token. (token, HashRefreshToken sv token)) r, q'))"

definition IssueAccessToken :: "'q account_service \<Rightarrow> actor \<Rightarrow> time \<Rightarrow> string res" where
  "IssueAccessToken sv a now =
     (if ae_secret sv = [] then Inl (ErrText ''jwt secret is required'')
      else if \<not> Authenticated a then Inl (ErrText ''actor is not authenticated'')
      else ae_sign sv (ae_secret sv) \<lparr>cl_UserID = ac_UserID a, cl_DeviceID = ac_DeviceID a,
             cl_ExpiresAt = now + ae_jwtTTL sv, cl_IssuedAt = now\<rparr>)"

definition ParseAccessToken :: "'q account_service \<Rightarrow> time \<Rightarrow> string \<Rightarrow> actor res" where
  "ParseAccessToken sv now token =
     (if ae_secret sv = [] then Inl (ErrText ''jwt secret is required'')
      else bind_res (ae_parse sv (ae_secret sv) now token) (\<lambda>claims.
             if cl_UserID claims \<le> 0 then Inl (ErrText ''invalid user_id claim'')
             else Inr ((Anonymous [])\<lparr>ac_UserID := cl_UserID claims, ac_DeviceID := cl_DeviceID claims\<rparr>)))"

subsection \<open>The actor of a request (\<^verbatim>\<open>actorMiddleware\<close> of \<^verbatim>\<open>app/api.go\<close>)\<close>

definition bearerToken :: "string \<Rightarrow> string option" where
  "bearerToken header =
     (let h = TrimSpace header; prefix = ''bearer '' in
      if length h \<le> length prefix \<or> ToLower (take (length prefix) h) \<noteq> prefix then None
      else let token = TrimSpace (drop (length prefix) h) in if token = [] then None else Some token)"

definition actorMiddleware :: "'q account_service \<Rightarrow> string \<Rightarrow> string \<Rightarrow> account_store \<Rightarrow> actor" where
  "actorMiddleware sv requestID header s =
     (case bearerToken header of
        None \<Rightarrow> Anonymous requestID
      | Some token \<Rightarrow>
          (case ParseAccessToken sv (us_clock s) token of
             Inl _ \<Rightarrow> Anonymous requestID
           | Inr parsed \<Rightarrow>
               (case ResolveActor (ae_collate sv) (ac_UserID parsed) s of
                  Inl _ \<Rightarrow> Anonymous requestID
                | Inr st \<Rightarrow>
                    if as_Status st \<noteq> StatusActive then Anonymous requestID
                    else parsed\<lparr>ac_Roles := as_Roles st, ac_Permissions := as_Permissions st, ac_RequestID := requestID\<rparr>)))"

subsection \<open>Sessions\<close>

record auth_session =
  se_User :: user_account
  se_AccessToken :: string
  se_RefreshToken :: string
  se_ExpiresIn :: int64

definition mapRoleError :: "go_error \<Rightarrow> go_error" where
  "mapRoleError e =
     (if e = ErrLastRoot then AppErr (Conflict ''role.last_root'' ''at least one root role must remain'')
      else if e = ErrProtectedRole then AppErr (Conflict ''role.protected'' ''the user role cannot be revoked'')
      else if e = ErrConflict then AppErr (Conflict ''role.already_assigned'' ''role is already assigned'')
      else if e = ErrNotFound then AppErr (NotFound ''role.not_found'' ''role assignment not found'')
      else e)"

definition map_fail :: "(go_error \<Rightarrow> go_error) \<Rightarrow> ('w, 'a) action \<Rightarrow> ('w, 'a) action" where
  "map_fail f m = try_act m (\<lambda>e. fail_act (f e)) return_act"

abbreviation app_act :: "app_error \<Rightarrow> ('w, 'a) action" where "app_act e \<equiv> fail_act (AppErr e)"

definition requireRoleStore :: "'q account_service \<Rightarrow> ('q accounts, unit) action" where
  "requireRoleStore sv = (if ae_hasRoles sv then return_act () else app_act Internal)"

definition normalizeEmail :: "'q account_service \<Rightarrow> string \<Rightarrow> string" where
  "normalizeEmail sv email = ae_lower sv (TrimSpace email)"

definition deviceID :: "string \<Rightarrow> string" where
  "deviceID value = (let v = TrimSpace value in if v = [] then ''default'' else v)"

definition invalidCredentials :: app_error where
  "invalidCredentials = Unauthorized ''auth.invalid_credentials'' ''invalid credentials''"

abbreviation invalid_refresh_token :: app_error where
  "invalid_refresh_token \<equiv> Unauthorized ''auth.invalid_refresh_token'' ''invalid refresh token''"

definition withRoles :: "'q account_service \<Rightarrow> user_account \<Rightarrow> ('q accounts, user_account) action" where
  "withRoles sv u =
     bind_act (requireRoleStore sv) (\<lambda>_.
     bind_act (map_fail mapRoleError (acct_read sv (ListAccess (ae_collate sv) (ua_ID u)))) (\<lambda>access.
       return_act (u\<lparr>ua_Roles := xs_Roles access, ua_Permissions := xs_Permissions access\<rparr>)))"

definition issueSession ::
  "'q account_service \<Rightarrow> user_account \<Rightarrow> string \<Rightarrow> string \<Rightarrow> string \<Rightarrow> ('q accounts, auth_session) action" where
  "issueSession sv u0 device userAgent ip =
     bind_act (withRoles sv u0) (\<lambda>u.
     bind_act (local_act (NewRefreshToken sv)) (\<lambda>(token, refreshHash).
     bind_act (clock_act sv) (\<lambda>issuedAt.
     bind_act (\<lambda>w. (IssueAccessToken sv ((Anonymous [])\<lparr>ac_UserID := ua_ID u, ac_Roles := ua_Roles u, ac_DeviceID := device\<rparr>) issuedAt, w))
       (\<lambda>access.
     bind_act (clock_act sv) (\<lambda>now.
     bind_act (acct_call sv (repo_CreateRefreshToken (ae_parseAddr sv) (ua_ID u) refreshHash
         \<lparr>tk_DeviceID = device, tk_UserAgent = userAgent, tk_IP = ip, tk_ExpiresAt = now + ae_refreshTTL sv\<rparr>)) (\<lambda>_.
       return_act \<lparr>se_User = u, se_AccessToken = access, se_RefreshToken = token,
                   se_ExpiresIn = go_quot (ae_accessTTL sv) Second\<rparr>))))))"

record register_input =
  ri_Email :: string
  ri_Username :: string
  ri_Password :: string
  ri_DeviceID :: string

definition user_Register :: "'q account_service \<Rightarrow> register_input \<Rightarrow> ('q accounts, auth_session) action" where
  "user_Register sv input =
     bind_act (requireRoleStore sv) (\<lambda>_.
     let email = normalizeEmail sv (ri_Email input); username = TrimSpace (ri_Username input) in
     if email = [] \<or> username = [] \<or> ri_Password input = []
     then app_act (BadRequest ''auth.invalid_register'' ''email, username and password are required'')
     else bind_act (local_act (HashPassword sv (ri_Password input))) (\<lambda>passwordHash.
          bind_act (map_fail (\<lambda>e. if e = ErrConflict then AppErr (Conflict ''user.email_conflict'' ''email already exists'') else e)
            (acct_call sv (repo_CreateUser (ae_dbLower sv) email passwordHash username))) (\<lambda>created.
          bind_act (map_fail mapRoleError
            (acct_call sv (repo_GrantRole (ua_ID created) RoleUser None ''system registration''))) (\<lambda>_.
            issueSession sv created (deviceID (ri_DeviceID input)) [] []))))"

record login_input =
  lg_Email :: string
  lg_Password :: string
  lg_DeviceID :: string

definition Login :: "'q account_service \<Rightarrow> login_input \<Rightarrow> ('q accounts, auth_session) action" where
  "Login sv input =
     (let email = normalizeEmail sv (lg_Email input) in
      if email = [] \<or> lg_Password input = []
      then app_act (BadRequest ''auth.invalid_login'' ''email and password are required'')
      else bind_act (map_fail (\<lambda>e. if e = ErrNotFound then AppErr invalidCredentials else e)
             (acct_read sv (repo_GetUserByEmail (ae_dbLower sv) email))) (\<lambda>(u, passwordHash).
           if ua_Status u \<noteq> StatusActive \<or> \<not> VerifyPassword sv passwordHash (lg_Password input)
           then app_act invalidCredentials
           else issueSession sv u (deviceID (lg_DeviceID input)) [] []))"

text \<open>\<^verbatim>\<open>Refresh\<close> takes the refresh token and the device of the request.\<close>

definition Refresh :: "'q account_service \<Rightarrow> string \<Rightarrow> string \<Rightarrow> ('q accounts, auth_session) action" where
  "Refresh sv refreshToken device =
     (if TrimSpace refreshToken = []
      then app_act (BadRequest ''auth.refresh_token_required'' ''refresh token is required'')
      else let hash = HashRefreshToken sv refreshToken in
           bind_act (map_fail (\<lambda>e. if e = ErrNotFound then AppErr invalid_refresh_token else e)
             (acct_read sv (repo_GetRefreshToken hash))) (\<lambda>token.
           bind_act (clock_act sv) (\<lambda>now.
           if rf_RevokedAt token \<noteq> None \<or> \<not> now < rf_ExpiresAt token then app_act invalid_refresh_token
           else bind_act (map_fail (\<lambda>e. if e = ErrNotFound then AppErr invalid_refresh_token else e)
                  (acct_read sv (repo_GetUserByID (rf_UserID token)))) (\<lambda>currentUser.
                if ua_Status currentUser \<noteq> StatusActive then app_act invalid_refresh_token
                else bind_act (acct_call sv (repo_RevokeRefreshToken hash)) (\<lambda>_.
                     issueSession sv currentUser (if device \<noteq> [] then device else rf_DeviceID token) [] [])))))"

definition Logout :: "'q account_service \<Rightarrow> actor \<Rightarrow> string \<Rightarrow> ('q accounts, unit) action" where
  "Logout sv a refreshToken =
     (if refreshToken \<noteq> [] then acct_call sv (repo_RevokeRefreshToken (HashRefreshToken sv refreshToken))
      else if Authenticated a \<and> ac_DeviceID a \<noteq> []
      then acct_call sv (repo_RevokeUserDeviceRefreshTokens (ac_UserID a) (ac_DeviceID a))
      else app_act (Unauthorized ''unauthorized'' ''unauthorized''))"

definition Me :: "'q account_service \<Rightarrow> actor \<Rightarrow> ('q accounts, user_account) action" where
  "Me sv a =
     (if \<not> Authenticated a then app_act (Unauthorized ''unauthorized'' ''unauthorized'')
      else bind_act (map_fail (\<lambda>e. if e = ErrNotFound then AppErr (Unauthorized ''unauthorized'' ''unauthorized'') else e)
             (acct_read sv (repo_GetUserByID (ac_UserID a)))) (withRoles sv))"

subsection \<open>Administration of users\<close>

definition authorize_admin :: "actor \<Rightarrow> Permission \<Rightarrow> ('w, unit) action" where
  "authorize_admin a permission =
     (case Authorize (NewSubject a) permission of
        Inl _ \<Rightarrow> app_act (Forbidden ''forbidden'' ''required permission is missing'')
      | Inr _ \<Rightarrow> return_act ())"

definition withRolesForUsers :: "'q account_service \<Rightarrow> user_account list \<Rightarrow> ('q accounts, user_account list) action" where
  "withRolesForUsers sv users =
     (if users = [] \<or> \<not> ae_hasRoles sv then return_act users
      else bind_act (map_fail mapRoleError (acct_read sv (ListAccessForUsers (ae_collate sv) (map ua_ID users)))) (\<lambda>found.
             return_act (map (\<lambda>u. let access = coalesce (found (ua_ID u)) no_access
                                  in u\<lparr>ua_Roles := xs_Roles access, ua_Permissions := xs_Permissions access\<rparr>) users)))"

definition user_page_size :: "int32 \<Rightarrow> int32" where
  "user_page_size n = (if sint n \<le> 0 \<or> sint n > 100 then 20 else n)"

record user_list =
  ul_Items :: "user_account list"
  ul_Total :: int64
  ul_Page :: int32
  ul_PageSize :: int32

definition service_ListUsers :: "'q account_service \<Rightarrow> actor \<Rightarrow> list_users_input \<Rightarrow> ('q accounts, user_list) action" where
  "service_ListUsers sv a input =
     bind_act (authorize_admin a PermissionUserManage) (\<lambda>_.
     let i = input\<lparr>lu_Page := (if sint (lu_Page input) \<le> 0 then 1 else lu_Page input),
                   lu_PageSize := user_page_size (lu_PageSize input)\<rparr>
     in bind_act (acct_read sv (repo_ListUsers (ae_ilike sv) i)) (\<lambda>(users, total).
        bind_act (withRolesForUsers sv users) (\<lambda>items.
          return_act \<lparr>ul_Items = items, ul_Total = total, ul_Page = lu_Page i, ul_PageSize = lu_PageSize i\<rparr>)))"

definition service_ListUsersByCursor ::
  "'q account_service \<Rightarrow> actor \<Rightarrow> list_users_input \<Rightarrow> ('q accounts, user_account list \<times> (time \<times> int64) option) action" where
  "service_ListUsersByCursor sv a input =
     bind_act (authorize_admin a PermissionUserManage) (\<lambda>_.
     let limit_n = user_page_size (lu_PageSize input) in
     if \<not> absent_or (lu_Cursor input) (\<lambda>(createdAt, cid). 0 < cid \<and> createdAt \<noteq> 0)
     then app_act (BadRequest ''invalid_cursor'' ''cursor is invalid'')
     else bind_act (acct_read sv (repo_ListUsersByCursor (ae_ilike sv)
            (input\<lparr>lu_Cursor := Some (coalesce (lu_Cursor input) first_user_cursor), lu_PageSize := limit_n + 1\<rparr>))) (\<lambda>users.
          bind_act (withRolesForUsers sv users) (\<lambda>items.
            let hasMore = int (length items) > sint limit_n;
                shown = (if hasMore then take (nat (sint limit_n)) items else items)
            in return_act (shown, if hasMore then Some (ua_CreatedAt (last shown), ua_ID (last shown)) else None))))"

definition user_validStatus :: "string \<Rightarrow> bool" where
  "user_validStatus status \<longleftrightarrow> status \<in> {StatusActive, StatusDisabled, StatusDeleted}"

definition statusChangeEvent :: "int64 \<Rightarrow> int64 \<Rightarrow> string \<Rightarrow> string \<Rightarrow> audit_event option" where
  "statusChangeEvent actorID uid old new =
     (if old = new then None
      else Some \<lparr>au_ActorUserID = actorID,
             au_Action = (if new = StatusActive then ''user.enabled'' else if new = StatusDeleted then ''user.deleted'' else ''user.disabled''),
             au_ObjectType = ''user'', au_ObjectID = uid, au_Reason = [], au_Metadata = []\<rparr>)"

text \<open>The three decisions \<^verbatim>\<open>UpdateUser\<close> takes on the status: it is valid, it is not one's own account, and what to record.\<close>

definition status_change :: "actor \<Rightarrow> int64 \<Rightarrow> update_user_input \<Rightarrow> user_account \<Rightarrow> audit_event option res" where
  "status_change a uid i current =
     (case up_Status i of
        None \<Rightarrow> Inr None
      | Some st \<Rightarrow>
          if \<not> user_validStatus st then fail (BadRequest ''user.invalid_status'' ''invalid status'')
          else if ac_UserID a = uid \<and> st \<noteq> StatusActive
          then fail (BadRequest ''user.self_disable_forbidden'' ''cannot disable your own account'')
          else Inr (statusChangeEvent (ac_UserID a) uid (ua_Status current) st))"

definition update_user_error :: "go_error \<Rightarrow> go_error" where
  "update_user_error e =
     (if e = ErrNotFound then AppErr (NotFound ''user.not_found'' ''user not found'')
      else if e = ErrLastRoot then AppErr (Conflict ''user.last_root'' ''at least one active root must remain'')
      else e)"

definition service_UpdateUser :: "'q account_service \<Rightarrow> actor \<Rightarrow> int64 \<Rightarrow> update_user_input \<Rightarrow> ('q accounts, user_account) action" where
  "service_UpdateUser sv a uid i =
     bind_act (authorize_admin a PermissionUserManage) (\<lambda>_.
     bind_act (map_fail (\<lambda>e. if e = ErrNotFound then AppErr (NotFound ''user.not_found'' ''user not found'') else e)
       (acct_read sv (repo_GetUserByID uid))) (\<lambda>current.
     case status_change a uid i current of
       Inl e \<Rightarrow> fail_act e
     | Inr event \<Rightarrow> map_fail update_user_error (acct_call sv (repo_UpdateUser uid i event))))"

subsection \<open>Roles and the matrix\<close>

text \<open>What granting and revoking check before they touch the store: the target, the role and the reason.\<close>

definition role_request :: "actor \<Rightarrow> int64 \<Rightarrow> string \<Rightarrow> string \<Rightarrow> Role res" where
  "role_request a uid roleValue reason =
     (if uid \<le> 0 \<or> ac_UserID a = uid then fail (BadRequest ''role.invalid_target'' ''role target is invalid'')
      else case ParseRole roleValue of
             Inl _ \<Rightarrow> fail (BadRequest ''role.invalid_role'' ''invalid role'')
           | Inr role \<Rightarrow>
               if \<not> IsGlobalRole role then fail (BadRequest ''role.invalid_role'' ''invalid role'')
               else if TrimSpace reason = [] then fail (BadRequest ''role.reason_required'' ''role change reason is required'')
               else Inr role)"

definition service_GrantRole ::
  "'q account_service \<Rightarrow> actor \<Rightarrow> int64 \<Rightarrow> string \<Rightarrow> string \<Rightarrow> ('q accounts, assignment_row) action" where
  "service_GrantRole sv a uid roleValue reason =
     bind_act (authorize_admin a PermissionRoleGrant) (\<lambda>_.
     case role_request a uid roleValue reason of
       Inl e \<Rightarrow> fail_act e
     | Inr role \<Rightarrow>
         bind_act (requireRoleStore sv) (\<lambda>_.
           map_fail mapRoleError (acct_call sv (repo_GrantRole uid role (Some (ac_UserID a)) (TrimSpace reason)))))"

definition service_RevokeRole ::
  "'q account_service \<Rightarrow> actor \<Rightarrow> int64 \<Rightarrow> string \<Rightarrow> string \<Rightarrow> ('q accounts, unit) action" where
  "service_RevokeRole sv a uid roleValue reason =
     bind_act (authorize_admin a PermissionRoleRevoke) (\<lambda>_.
     case role_request a uid roleValue reason of
       Inl e \<Rightarrow> fail_act e
     | Inr role \<Rightarrow>
         bind_act (requireRoleStore sv) (\<lambda>_.
           map_fail mapRoleError (acct_call sv (repo_RevokeRole uid role (ac_UserID a) (TrimSpace reason)))))"

definition roleScope :: "Role \<Rightarrow> permission_scope" where
  "roleScope role = (if IsContestRole role then ScopeContest else ScopeGlobal)"

fun normalize_codes :: "permission_scope \<Rightarrow> string list \<Rightarrow> Permission list \<Rightarrow> Permission list res" where
  "normalize_codes wantScope [] permissions = Inr permissions"
| "normalize_codes wantScope (code # codes) permissions =
     (case Lookup code of
        None \<Rightarrow> fail (BadRequest ''role.permission_invalid'' (''unknown permission '' @ code))
      | Some spec \<Rightarrow>
          if \<not> ps_Delegable spec
          then fail (BadRequest ''role.permission_not_delegable'' (''permission cannot be delegated: '' @ code))
          else if ps_Scope spec \<noteq> wantScope
          then fail (BadRequest ''role.permission_scope_mismatch'' (''permission scope does not match the role: '' @ code))
          else normalize_codes wantScope codes (if code \<in> set permissions then permissions else permissions @ [code]))"

definition normalizeRolePermissions :: "Role \<Rightarrow> string list \<Rightarrow> Permission list res" where
  "normalizeRolePermissions role codes = map_res (sort_by (<)) (normalize_codes (roleScope role) codes [])"

record role_permission_view =
  rp_Code :: string
  rp_Scope :: permission_scope
  rp_Locked :: bool
  rp_Permissions :: "string list"

definition newRolePermissionView :: "Role \<Rightarrow> Permission list \<Rightarrow> role_permission_view" where
  "newRolePermissionView role permissions =
     \<lparr>rp_Code = role, rp_Scope = roleScope role, rp_Locked = IsFullAccessRole role,
      rp_Permissions = permissionCodes (if IsFullAccessRole role then allPermissions else permissions)\<rparr>"

record permission_matrix =
  pm_Permissions :: "permission_spec list"
  pm_Roles :: "role_permission_view list"

definition requireRolePermissionStore :: "'q account_service \<Rightarrow> ('q accounts, unit) action" where
  "requireRolePermissionStore sv = (if ae_hasMatrix sv then return_act () else app_act Internal)"

definition RolePermissionMatrix :: "'q account_service \<Rightarrow> actor \<Rightarrow> ('q accounts, permission_matrix) action" where
  "RolePermissionMatrix sv a =
     bind_act (authorize_admin a PermissionRolePermissionManage) (\<lambda>_.
     bind_act (requireRolePermissionStore sv) (\<lambda>_.
     bind_act (acct_read sv (ListRoles (ae_collate sv))) (\<lambda>roles.
     bind_act (acct_read sv (ListPermissions (ae_collate sv))) (\<lambda>byRole.
       return_act \<lparr>pm_Permissions = Catalog, pm_Roles = map (\<lambda>role. newRolePermissionView role (byRole role)) roles\<rparr>))))"

text \<open>A missing list of permissions is \<open>None\<close>, an empty one clears the role.\<close>

definition ReplaceRolePermissions ::
  "'q account_service \<Rightarrow> actor \<Rightarrow> string \<Rightarrow> string list option \<Rightarrow> string \<Rightarrow> ('q accounts, role_permission_view) action" where
  "ReplaceRolePermissions sv a roleValue codes reason =
     bind_act (authorize_admin a PermissionRolePermissionManage) (\<lambda>_.
     case codes of
       None \<Rightarrow> app_act (BadRequest ''role.permissions_required'' ''permissions is required'')
     | Some cs \<Rightarrow>
         (case ParseRole roleValue of
            Inl _ \<Rightarrow> app_act (NotFound ''role.not_found'' ''role not found'')
          | Inr role \<Rightarrow>
              if IsFullAccessRole role then app_act (Conflict ''role.locked'' ''this role's permissions are locked'')
              else bind_act (requireRolePermissionStore sv) (\<lambda>_.
                   case normalizeRolePermissions role cs of
                     Inl e \<Rightarrow> fail_act e
                   | Inr permissions \<Rightarrow>
                       if TrimSpace reason = [] \<or> length (TrimSpace reason) > 500
                       then app_act (BadRequest ''role.permission_reason_required'' ''reason is required and must be at most 500 bytes'')
                       else bind_act (acct_call sv (Replace (ae_collate sv) role permissions (ac_UserID a) (TrimSpace reason))) (\<lambda>_.
                              return_act (newRolePermissionView role permissions)))))"

end
