(* ===== verification/Account_Access.thy ===== *)
theory Account_Access
  imports Account_Service
begin

section \<open>What an account may do\<close>

text \<open>
  The permissions a request is decided with, computed on every request from the assignments and the
  matrix: what they are exactly, that the listing of users computes the same, and that a permission
  reserved to full-access roles cannot be reached through the matrix, whatever requests are made.
\<close>

subsection \<open>Roles and permissions of the joined rows\<close>

lemma ParseRole_global: "IsGlobalRole r \<Longrightarrow> ParseRole r = Inr r"
proof -
  have "ParseRole RoleUser = Inr RoleUser" "ParseRole RoleAuthor = Inr RoleAuthor" "ParseRole RoleReviewer = Inr RoleReviewer"
    "ParseRole RoleOperator = Inr RoleOperator" "ParseRole RoleAdmin = Inr RoleAdmin" "ParseRole RoleRoot = Inr RoleRoot"
    by code_simp+
  then show "IsGlobalRole r \<Longrightarrow> ParseRole r = Inr r" by (auto simp: IsGlobalRole_def)
qed

lemma set_dedupe: "set (dedupe seen xs) = set xs - set seen"
  by (induction xs arbitrary: seen) auto

lemma set_expandFullAccess:
  "set (expandFullAccess roles permissions)
     = (if \<exists>r \<in> set roles. IsFullAccessRole r then set allPermissions else set permissions)"
  by (simp add: expandFullAccess_def set_dedupe)

definition canonical_rows :: "access_row list \<Rightarrow> bool" where
  "canonical_rows rows \<longleftrightarrow> (\<forall>r p. (Some r, p) \<in> set rows \<longrightarrow> IsGlobalRole r)"

lemma accumulate_sets:
  assumes "accumulate row acc = Inr acc'" and "canonical_rows [row]"
  shows "set (xs_Roles acc') = set (xs_Roles acc) \<union> set_option (fst row)
     \<and> set (xs_Permissions acc') = set (xs_Permissions acc) \<union> set_option (snd row)"
  using assms
  by (cases row)
    (auto simp: accumulate_def add_role_def add_permission_def canonical_rows_def ParseRole_global
      split: option.splits if_splits intro: last_in_set)

lemma accumulate_all_sets:
  "accumulate_all rows acc = Inr acc' \<Longrightarrow> canonical_rows rows \<Longrightarrow>
     set (xs_Roles acc') = set (xs_Roles acc) \<union> {r. \<exists>p. (Some r, p) \<in> set rows}
     \<and> set (xs_Permissions acc') = set (xs_Permissions acc) \<union> {p. \<exists>r. (r, Some p) \<in> set rows}"
proof (induction rows arbitrary: acc)
  case (Cons row rows)
  then obtain acc1 where a: "accumulate row acc = Inr acc1" "accumulate_all rows acc1 = Inr acc'" by auto
  have c: "canonical_rows [row]" "canonical_rows rows" using Cons.prems(2) by (auto simp: canonical_rows_def)
  show ?case using accumulate_sets [OF a(1) c(1)] Cons.IH [OF a(2) c(2)] by (cases row) auto
qed simp

lemma role_rows_mem:
  "(r, p) \<in> set (role_rows s role) \<Longrightarrow> r = Some role"
  "(\<exists>p. (Some role, p) \<in> set (role_rows s role))"
  "(\<exists>r. (r, Some p') \<in> set (role_rows s role)) \<longleftrightarrow> (role, p') \<in> set (us_matrix s)"
proof -
  have m: "(role, q) \<in> set (us_matrix s) \<longleftrightarrow> (role, q) \<in> set (filter (\<lambda>(r, p). r = role) (us_matrix s))" for q by auto
  show "(r, p) \<in> set (role_rows s role) \<Longrightarrow> r = Some role" by (auto simp: role_rows_def split: list.splits)
  show "\<exists>p. (Some role, p) \<in> set (role_rows s role)"
    by (cases "filter (\<lambda>(r, p). r = role) (us_matrix s)") (auto simp: role_rows_def)
  show "(\<exists>r. (r, Some p') \<in> set (role_rows s role)) \<longleftrightarrow> (role, p') \<in> set (us_matrix s)"
  proof (cases "filter (\<lambda>(r, p). r = role) (us_matrix s)")
    case Nil
    with m show ?thesis by (simp add: role_rows_def)
  next
    case (Cons x xs)
    have "set (x # xs) \<subseteq> {(r, p). r = role}" unfolding Cons [symmetric] by auto
    with m [of p'] Cons show ?thesis by (force simp: role_rows_def)
  qed
qed

text \<open>The active assignments of an account.\<close>

definition holds_role :: "account_store \<Rightarrow> int64 \<Rightarrow> Role \<Rightarrow> bool" where
  "holds_role s uid role \<longleftrightarrow> (\<exists>a \<in> set (us_assignments s). ra_UserID a = uid \<and> active_assignment a \<and> ra_Role a = role)"

lemma access_rows_mem:
  "(\<exists>p. (Some r, p) \<in> set (access_rows s uid)) \<longleftrightarrow> holds_role s uid r"
  "(\<exists>r. (r, Some p) \<in> set (access_rows s uid)) \<longleftrightarrow> (\<exists>r. holds_role s uid r \<and> (r, p) \<in> set (us_matrix s))"
proof -
  let ?as = "filter (\<lambda>a. ra_UserID a = uid \<and> active_assignment a) (us_assignments s)"
  have rows: "set (access_rows s uid) = (if ?as = [] then {(None, None)} else (\<Union>a \<in> set ?as. set (role_rows s (ra_Role a))))"
    by (cases ?as) (auto simp: access_rows_def)
  have h: "holds_role s uid r \<longleftrightarrow> (\<exists>a \<in> set ?as. ra_Role a = r)" for r by (auto simp: holds_role_def)
  show "(\<exists>p. (Some r, p) \<in> set (access_rows s uid)) \<longleftrightarrow> holds_role s uid r"
  proof
    assume "\<exists>p. (Some r, p) \<in> set (access_rows s uid)"
    then obtain p a where "a \<in> set ?as" "(Some r, p) \<in> set (role_rows s (ra_Role a))" unfolding rows by (auto split: if_splits)
    with role_rows_mem(1) [of "Some r" p s "ra_Role a"] h show "holds_role s uid r" by auto
  next
    assume "holds_role s uid r"
    then obtain a where a: "a \<in> set ?as" "ra_Role a = r" unfolding h by blast
    obtain p where "(Some r, p) \<in> set (role_rows s r)" using role_rows_mem(2) [of r s] by blast
    with a have "(Some r, p) \<in> (\<Union>a \<in> set ?as. set (role_rows s (ra_Role a)))" by blast
    moreover have "?as \<noteq> []" using a(1) by (metis empty_iff list.set(1))
    ultimately show "\<exists>p. (Some r, p) \<in> set (access_rows s uid)" unfolding rows by auto
  qed
  show "(\<exists>r. (r, Some p) \<in> set (access_rows s uid)) \<longleftrightarrow> (\<exists>r. holds_role s uid r \<and> (r, p) \<in> set (us_matrix s))"
  proof
    assume "\<exists>r. (r, Some p) \<in> set (access_rows s uid)"
    then obtain r a where "a \<in> set ?as" "(r, Some p) \<in> set (role_rows s (ra_Role a))" unfolding rows by (auto split: if_splits)
    with role_rows_mem(3) [of p s "ra_Role a"] h show "\<exists>r. holds_role s uid r \<and> (r, p) \<in> set (us_matrix s)" by blast
  next
    assume "\<exists>r. holds_role s uid r \<and> (r, p) \<in> set (us_matrix s)"
    then obtain a where a: "a \<in> set ?as" "(ra_Role a, p) \<in> set (us_matrix s)" unfolding h by blast
    with role_rows_mem(3) [of p s "ra_Role a"] obtain r where "(r, Some p) \<in> set (role_rows s (ra_Role a))" by blast
    with a have "(r, Some p) \<in> (\<Union>a \<in> set ?as. set (role_rows s (ra_Role a)))" by blast
    moreover have "?as \<noteq> []" using a(1) by (metis empty_iff list.set(1))
    ultimately show "\<exists>r. (r, Some p) \<in> set (access_rows s uid)" unfolding rows by auto
  qed
qed

text \<open>Assignments name global roles (a constraint of the table).\<close>

definition global_assignments :: "account_store \<Rightarrow> bool" where
  "global_assignments s \<longleftrightarrow> (\<forall>a \<in> set (us_assignments s). IsGlobalRole (ra_Role a))"

lemma canonical_access_rows: "global_assignments s \<Longrightarrow> set rows = set (access_rows s uid) \<Longrightarrow> canonical_rows rows"
  using access_rows_mem(1) [of _ s uid] by (auto simp: canonical_rows_def global_assignments_def holds_role_def)

definition granted :: "account_store \<Rightarrow> int64 \<Rightarrow> Permission \<Rightarrow> bool" where
  "granted s uid p \<longleftrightarrow> (if \<exists>r. holds_role s uid r \<and> IsFullAccessRole r then p \<in> set allPermissions
     else \<exists>r. holds_role s uid r \<and> (r, p) \<in> set (us_matrix s))"

lemma resolved_access:
  assumes "accumulate_all rows no_access = Inr acc" and "set rows = set (access_rows s uid)" and "global_assignments s"
  shows "set (xs_Roles (access_of acc)) = {r. holds_role s uid r}"
    and "set (xs_Permissions (access_of acc)) = {p. granted s uid p}"
  using accumulate_all_sets [OF assms(1) canonical_access_rows [OF assms(3,2)]] access_rows_mem [of _ s uid] assms(2)
  by (auto simp: access_of_def set_expandFullAccess granted_def)

lemma ResolveActor_Inr:
  assumes "ResolveActor collate uid s = Inr st" and "global_assignments s"
  shows "0 < uid \<and> (\<exists>u \<in> set (us_users s). uw_ID u = uid \<and> as_Status st = uw_Status u)
     \<and> set (as_Roles st) = {r. holds_role s uid r} \<and> set (as_Permissions st) = {p. granted s uid p}"
proof -
  from assms(1) obtain u acc where u: "0 < uid" "List.find (\<lambda>u. uw_ID u = uid) (us_users s) = Some u"
    and acc: "accumulate_all (sort_by (access_order collate) (access_rows s uid)) no_access = Inr acc"
    and st: "st = \<lparr>as_Status = uw_Status u, as_Roles = xs_Roles (access_of acc), as_Permissions = xs_Permissions (access_of acc)\<rparr>"
    by (auto simp: ResolveActor_def split: if_splits option.splits)
  from resolved_access [OF acc _ assms(2)] u st show ?thesis by (auto dest: find_Some_set)
qed

subsection \<open>The actor of a request\<close>

lemma actorMiddleware_cases:
  assumes "actorMiddleware sv requestID header s = a"
  shows "a = Anonymous requestID \<or> (\<exists>st. ResolveActor (ae_collate sv) (ac_UserID a) s = Inr st \<and> as_Status st = StatusActive
     \<and> ac_Roles a = as_Roles st \<and> ac_Permissions a = as_Permissions st)"
proof (cases "bearerToken header")
  case None
  with assms show ?thesis by (simp add: actorMiddleware_def)
next
  case (Some token)
  show ?thesis
  proof (cases "ParseAccessToken sv (us_clock s) token")
    case (Inl e)
    with assms Some show ?thesis by (simp add: actorMiddleware_def)
  next
    case (Inr parsed)
    with assms Some show ?thesis
      by (cases "ResolveActor (ae_collate sv) (ac_UserID parsed) s") (auto simp: actorMiddleware_def split: if_splits)
  qed
qed

lemma actor_can:
  assumes "global_assignments s" and "actorMiddleware sv requestID header s = a" and "Authenticated a"
  shows "(\<exists>u \<in> set (us_users s). uw_ID u = ac_UserID a \<and> uw_Status u = StatusActive)
     \<and> (\<forall>p. can a p \<longleftrightarrow> granted s (ac_UserID a) p)"
proof -
  from actorMiddleware_cases [OF assms(2)] assms(3) obtain st where
    st: "ResolveActor (ae_collate sv) (ac_UserID a) s = Inr st" "as_Status st = StatusActive" "ac_Permissions a = as_Permissions st"
    by (auto simp: Anonymous_def Authenticated_def)
  from ResolveActor_Inr [OF st(1) assms(1)] st(2,3) assms(3) show ?thesis by (auto simp: can_iff)
qed

subsection \<open>What every request keeps\<close>

definition matrix_safe :: "account_store \<Rightarrow> bool" where
  "matrix_safe s \<longleftrightarrow> (\<forall>(role, p) \<in> set (us_matrix s).
     p \<in> set allPermissions \<and> p \<notin> set nonDelegablePermissions \<and> permissionScope p = roleScope role)"

definition access_safe :: "account_store \<Rightarrow> bool" where
  "access_safe s \<longleftrightarrow> global_assignments s \<and> matrix_safe s"

text \<open>Refresh tokens are added and revoked, never removed or revived.\<close>

definition later_token :: "refresh_token_row \<Rightarrow> refresh_token_row \<Rightarrow> bool" where
  "later_token t t' \<longleftrightarrow> rf_TokenHash t' = rf_TokenHash t \<and> (rf_RevokedAt t \<noteq> None \<longrightarrow> rf_RevokedAt t' \<noteq> None)"

definition later_tokens :: "refresh_token_row list \<Rightarrow> refresh_token_row list \<Rightarrow> bool" where
  "later_tokens ts ts' \<longleftrightarrow> (\<exists>olds news. ts' = olds @ news \<and> list_all2 later_token ts olds)"

lemma later_tokens_refl [simp]: "later_tokens ts ts"
  unfolding later_tokens_def by (rule exI [of _ ts], rule exI [of _ "[]"]) (simp add: list_all2_same later_token_def)

lemma later_tokens_append [simp]: "later_tokens ts (ts @ news)"
  unfolding later_tokens_def by (intro exI conjI) (auto simp: list_all2_same later_token_def)

lemma later_tokens_revoked: "later_tokens ts (update_rows P (\<lambda>t. t\<lparr>rf_RevokedAt := Some now\<rparr>) ts)"
  unfolding later_tokens_def
  by (intro exI [of _ "update_rows P (\<lambda>t. t\<lparr>rf_RevokedAt := Some now\<rparr>) ts"] exI [of _ "[]"])
    (simp add: update_rows_def list_all2_map2 list_all2_same later_token_def)

lemma later_tokens_trans: "later_tokens ts ts' \<Longrightarrow> later_tokens ts' ts'' \<Longrightarrow> later_tokens ts ts''"
proof -
  assume "later_tokens ts ts'" and "later_tokens ts' ts''"
  then obtain olds news olds' news' where l: "ts' = olds @ news" "list_all2 later_token ts olds" "ts'' = olds' @ news'"
    "list_all2 later_token (olds @ news) olds'" by (auto simp: later_tokens_def)
  from l(4) obtain o1 o2 where o: "olds' = o1 @ o2" "list_all2 later_token olds o1" by (auto simp: list_all2_append1)
  have "list_all2 later_token ts o1"
    by (rule list_all2_trans [OF _ l(2) o(2)]) (auto simp: later_token_def)
  with l(3) o(1) show "later_tokens ts ts''" by (auto simp: later_tokens_def)
qed

definition access_kept :: "account_store \<Rightarrow> account_store \<Rightarrow> bool" where
  "access_kept s s' \<longleftrightarrow> (access_safe s \<longrightarrow> access_safe s') \<and> (root_holders s \<noteq> [] \<longrightarrow> root_holders s' \<noteq> [])
     \<and> later_tokens (us_tokens s) (us_tokens s')"

interpretation guarded: rely_guarantee "\<lambda>w w' :: 'q accounts. access_kept (fst w) (fst w')"
  by unfold_locales (auto simp: access_kept_def intro: later_tokens_trans)

text \<open>Whatever leaves assignments and matrix alone.\<close>

definition acl :: "account_store \<Rightarrow> assignment_row list \<times> (Role \<times> Permission) list" where
  "acl s = (us_assignments s, us_matrix s)"

lemma acl_simps [simp]:
  "acl (s\<lparr>us_users := x\<rparr>) = acl s" "acl (s\<lparr>us_tokens := y\<rparr>) = acl s" "acl (s\<lparr>us_audit := z\<rparr>) = acl s"
  "acl (s\<lparr>us_next_user := n\<rparr>) = acl s" "acl (s\<lparr>us_next_token := n\<rparr>) = acl s"
  by (simp_all add: acl_def)

definition quiet_tables :: "account_store \<Rightarrow> (assignment_row list \<times> (Role \<times> Permission) list) \<times> refresh_token_row list" where
  "quiet_tables s = (acl s, us_tokens s)"

lemma access_kept_tokens: "acl s' = acl s \<Longrightarrow> later_tokens (us_tokens s) (us_tokens s') \<Longrightarrow> access_kept s s'"
  by (auto simp: acl_def access_kept_def access_safe_def global_assignments_def matrix_safe_def root_holders_def)

lemma access_kept_acl: "quiet_tables s' = quiet_tables s \<Longrightarrow> access_kept s s'"
  by (auto simp: quiet_tables_def intro: access_kept_tokens)

lemma keeps_quiet_queries [keeps_intros]:
  "keeps quiet_tables (q_CreateUser lower email hash username status)" "keeps quiet_tables (q_UpdateUserAdminFields uid i)"
  "keeps quiet_tables (account_audit e)" "keeps quiet_tables (ensureActiveRootRemains uid)"
  by (auto simp: keeps_def quiet_tables_def q_CreateUser_def q_UpdateUserAdminFields_def account_audit_def
      audit_Insert_Inr ensureActiveRootRemains_def Let_def tx_simps split: if_splits)

lemma kept_WithTx: "keeps quiet_tables m \<Longrightarrow> access_kept s (snd (WithTx m s))"
  by (auto simp: WithTx_def keeps_def split: sum.splits prod.splits intro: access_kept_acl)

lemma kept_tx: "(\<And>x s'. m s = Inr (x, s') \<Longrightarrow> access_kept s s') \<Longrightarrow> access_kept s (snd (WithTx m s))"
  by (auto simp: WithTx_def access_kept_def split: sum.splits prod.splits)

lemma kept_map_err: "(\<And>x s'. m s = Inr (x, s') \<Longrightarrow> access_kept s s') \<Longrightarrow> access_kept s (snd (WithTx (map_err f m) s))"
  by (rule kept_tx) (auto simp: map_err_def split: sum.splits)

lemma kept_new_token: "q_CreateRefreshToken uid h meta ip s = Inr (x, s') \<Longrightarrow> access_kept s s'"
  by (rule access_kept_tokens) (auto simp: q_CreateRefreshToken_def Let_def tx_simps)

lemma kept_revoke_tokens: "revoke_tokens P s = Inr (x, s') \<Longrightarrow> access_kept s s'"
  by (rule access_kept_tokens) (auto simp: revoke_tokens_def intro: later_tokens_revoked)

lemma kept_users:
  "access_kept s (snd (repo_CreateUser lower email hash username s))" "access_kept s (snd (repo_UpdateUser uid i event s))"
  unfolding repo_CreateUser_def repo_UpdateUser_def update_user_tx_def
  by (auto simp: split_def split: option.splits intro!: kept_WithTx keeps_intros)

lemma kept_tokens:
  "access_kept s (snd (repo_CreateRefreshToken pa uid h meta s))" "access_kept s (snd (repo_RevokeRefreshToken h s))"
  "access_kept s (snd (repo_RevokeUserDeviceRefreshTokens uid d s))"
  unfolding repo_CreateRefreshToken_def repo_RevokeRefreshToken_def repo_RevokeUserDeviceRefreshTokens_def
    q_RevokeRefreshToken_def q_RevokeUserDeviceRefreshTokens_def
  by (auto simp: split_def intro!: kept_tx kept_map_err intro: kept_new_token kept_revoke_tokens)

lemma audit_acl: "account_audit e s = Inr (u, s') \<Longrightarrow> quiet_tables s' = quiet_tables s"
  by (auto simp: account_audit_def audit_Insert_Inr quiet_tables_def)

lemmas quiet_defs = quiet_tables_def acl_def

lemma kept_GrantRole: "access_kept s (snd (repo_GrantRole uid role grantedBy reason s))"
proof -
  have "access_kept s s'" if "grant_role_tx uid role grantedBy r s = Inr (x, s')" for r x s'
  proof -
    from that obtain row s1 where i: "insert_assignment uid role grantedBy s = Inr (row, s1)" "quiet_tables s' = quiet_tables s1"
      by (auto simp: grant_role_tx_def tx_simps map_err_def split: sum.splits dest!: audit_acl)
    then have "us_assignments s' = us_assignments s @ [row]" "us_matrix s' = us_matrix s" "us_tokens s' = us_tokens s"
      "ra_Role row = role" "IsGlobalRole role"
      by (auto simp: insert_assignment_def quiet_defs tx_simps Let_def split: if_splits)
    then show ?thesis by (auto simp: access_kept_def access_safe_def global_assignments_def matrix_safe_def root_holders_def)
  qed
  moreover have "access_kept s s" by (rule access_kept_acl) simp
  ultimately show ?thesis by (auto simp: repo_GrantRole_def intro: kept_tx)
qed

lemma kept_RevokeRole: "access_kept s (snd (repo_RevokeRole uid role revokedBy reason s))"
proof -
  have "access_kept s s'" if t: "revoke_role_tx uid role revokedBy r s = Inr (x, s')" for r x s'
  proof -
    from t obtain s1 n where r: "revoke_assignments uid role s = Inr (n, s1)" "quiet_tables s' = quiet_tables s1"
      and root: "role = RoleRoot \<Longrightarrow> root_holders s1 \<noteq> []"
      by (auto simp: revoke_role_tx_def tx_simps split: if_splits dest!: audit_acl)
    then have s1: "us_assignments s1 = update_rows (\<lambda>a. ra_UserID a = uid \<and> ra_Role a = role \<and> active_assignment a)
        (\<lambda>a. a\<lparr>ra_RevokedAt := Some (us_now s)\<rparr>) (us_assignments s)" "us_matrix s1 = us_matrix s"
      "us_tokens s1 = us_tokens s"
      by (auto simp: revoke_assignments_def Let_def)
    have "root_holders s1 = root_holders s" if "role \<noteq> RoleRoot"
    proof -
      have "map ra_UserID (filter (\<lambda>a. ra_Role a = RoleRoot \<and> active_assignment a)
          (update_rows (\<lambda>a. ra_UserID a = uid \<and> ra_Role a = role \<and> active_assignment a) (\<lambda>a. a\<lparr>ra_RevokedAt := Some (us_now s)\<rparr>) xs))
        = map ra_UserID (filter (\<lambda>a. ra_Role a = RoleRoot \<and> active_assignment a) xs)" for xs
        using that by (induction xs) (auto simp: update_rows_def)
      then show ?thesis by (simp add: root_holders_def s1)
    qed
    with root have "root_holders s \<noteq> [] \<longrightarrow> root_holders s1 \<noteq> []" by (cases "role = RoleRoot") simp_all
    moreover from r(2) have "root_holders s' = root_holders s1" "us_assignments s' = us_assignments s1" "us_matrix s' = us_matrix s1"
      "us_tokens s' = us_tokens s1"
      by (simp_all add: quiet_defs root_holders_def)
    ultimately show ?thesis using s1
      by (auto simp: access_kept_def access_safe_def global_assignments_def matrix_safe_def set_update_rows)
  qed
  moreover have "access_kept s s" by (rule access_kept_acl) simp
  ultimately show ?thesis by (auto simp: repo_RevokeRole_def intro: kept_tx)
qed

text \<open>What the matrix is replaced with passed the checks of the service.\<close>

definition delegable :: "Role \<Rightarrow> Permission list \<Rightarrow> bool" where
  "delegable role permissions \<longleftrightarrow> (\<forall>p \<in> set permissions.
     p \<in> set allPermissions \<and> p \<notin> set nonDelegablePermissions \<and> permissionScope p = roleScope role)"

lemma normalize_codes_delegable:
  "normalize_codes (roleScope role) codes ps = Inr permissions \<Longrightarrow> delegable role ps \<Longrightarrow> delegable role permissions"
proof (induction codes arbitrary: ps)
  case (Cons code codes)
  let ?ps = "if code \<in> set ps then ps else ps @ [code]"
  from Cons.prems(1) obtain spec where spec: "Lookup code = Some spec" "ps_Delegable spec" "ps_Scope spec = roleScope role"
    and rest: "normalize_codes (roleScope role) codes ?ps = Inr permissions"
    by (cases "Lookup code") (auto split: if_splits)
  have "code \<in> set allPermissions" "spec = \<lparr>ps_Code = code, ps_Scope = permissionScope code,
      ps_Delegable = (code \<notin> set nonDelegablePermissions), ps_Consumer = consumer_of code\<rparr>"
    using spec(1) unfolding Lookup_iff by (simp_all split: if_splits)
  with spec(2,3) Cons.prems(2) have "delegable role ?ps" by (simp add: delegable_def)
  with rest show ?case by (rule Cons.IH)
qed simp

lemma normalized_delegable:
  assumes "normalizeRolePermissions role codes = Inr permissions"
  shows "delegable role permissions"
proof -
  from assms obtain ps where ps: "normalize_codes (roleScope role) codes [] = Inr ps" "permissions = sort_by (<) ps"
    by (auto simp: normalizeRolePermissions_def map_res_def)
  have "delegable role ps" by (rule normalize_codes_delegable [OF ps(1)]) (simp add: delegable_def)
  with ps(2) show ?thesis by (simp add: delegable_def)
qed

lemma kept_Replace:
  assumes "delegable role permissions"
  shows "access_kept s (snd (Replace collate role permissions actorID reason s))"
proof -
  have "access_kept s s'" if t: "replace_permissions_tx collate role permissions actorID reason s = Inr (x, s')" for x s'
  proof (cases "sort_by collate (map snd (filter (\<lambda>(r, p). r = role) (us_matrix s))) = permissions")
    case True
    with t have "s' = s" by (auto simp: replace_permissions_tx_def rolePermissionsTx_def tx_simps)
    then show ?thesis by (auto intro: access_kept_acl)
  next
    case False
    let ?s0 = "s\<lparr>us_matrix := filter (\<lambda>(r, p). r \<noteq> role) (us_matrix s)\<rparr>"
    from False t obtain s1 where w: "when_tx (permissions \<noteq> []) (insert_permissions role (permissionCodes permissions)) ?s0 = Inr ((), s1)"
      and a: "quiet_tables s' = quiet_tables s1"
      unfolding replace_permissions_tx_def rolePermissionsTx_def bind_tx_Inr get_tx_Inr by (auto simp: bind_tx_Inr return_tx_Inr dest!: audit_acl)
    have "us_assignments s1 = us_assignments s \<and> us_tokens s1 = us_tokens s \<and> set (us_matrix s1) \<subseteq> set (us_matrix s) \<union> Pair role ` set permissions"
      using w by (cases "permissions = []") (auto simp: when_tx_Inr insert_permissions_def permissionCodes_def bind_tx_Inr check_tx_Inr unique_tx_Inr)
    with a have acls: "us_assignments s' = us_assignments s" "set (us_matrix s') \<subseteq> set (us_matrix s) \<union> Pair role ` set permissions"
      "us_tokens s' = us_tokens s"
      by (auto simp: quiet_defs)
    have "matrix_safe s'" if "matrix_safe s"
      unfolding matrix_safe_def using acls(2) that assms by (fastforce simp: matrix_safe_def delegable_def)
    with acls(1,3) show ?thesis by (auto simp: access_kept_def access_safe_def global_assignments_def root_holders_def)
  qed
  then show ?thesis unfolding Replace_def by (rule kept_tx)
qed

lemma guarded_call:
  assumes "\<And>w. access_kept (fst w) (fst (ae_others sv w))" and "\<And>s. access_kept s (snd (op s))"
  shows "guarded.sat P (acct_call sv op) (\<lambda>_ _. True)"
  unfolding acct_call_def
proof (rule guarded.sat_call [OF assms(1)])
  fix w r w' assume "(\<lambda>(s, q). case op s of (r, s') \<Rightarrow> (r, (s', q))) w = (r, w')"
  with assms(2) [of "fst w"] show "access_kept (fst w) (fst w') \<and> (\<forall>x. r = Inr x \<longrightarrow> True)"
    by (auto split: prod.splits)
qed simp

lemma guarded_read:
  assumes "\<And>w. access_kept (fst w) (fst (ae_others sv w))"
  shows "guarded.sat P (acct_read sv f) (\<lambda>_ _. True)"
  unfolding acct_read_def
  by (rule guarded.sat_call [OF assms]) (auto simp: split_def guarded.evolves_refl)

lemma guarded_same: "(\<And>w. fst (snd (m w)) = fst w) \<Longrightarrow> guarded.sat P m (\<lambda>_ _. True)"
  by (auto simp: guarded.sat_def intro: access_kept_acl)

lemma guarded_clock:
  "(\<And>w. access_kept (fst w) (fst (ae_others sv w))) \<Longrightarrow> guarded.sat P (clock_act sv) (\<lambda>_ _. True)"
  unfolding clock_act_def by (rule guarded_read)

lemma guarded_local: "guarded.sat P (local_act f) (\<lambda>_ _. True)"
  by (auto intro!: guarded_same simp: local_act_def split_def)

lemma guarded_map_fail:
  "guarded.sat (\<lambda>_. True) m (\<lambda>_ _. True) \<Longrightarrow> guarded.sat (\<lambda>_. True) (map_fail f m) (\<lambda>_ _. True)"
  unfolding map_fail_def by (intro guarded.sat_try_then guarded.sat_fail guarded.sat_return) auto

lemma guarded_then:
  "guarded.sat (\<lambda>_. True) m (\<lambda>_ _. True) \<Longrightarrow> (\<And>x. guarded.sat (\<lambda>_. True) (k x) (\<lambda>_ _. True)) \<Longrightarrow>
   guarded.sat (\<lambda>_. True) (bind_act m k) (\<lambda>_ _. True)"
  by (rule guarded.sat_then) auto

lemma guarded_return: "guarded.sat P (return_act x) (\<lambda>_ _. True)"
  by (rule guarded.sat_return) simp

lemma guarded_authorize: "guarded.sat P (authorize_admin a p) (\<lambda>_ _. True)"
  unfolding authorize_admin_def by (intro guarded.sat_sum guarded.sat_fail guarded_return)

lemma guarded_require:
  "guarded.sat P (requireRoleStore sv) (\<lambda>_ _. True)" "guarded.sat P (requireRolePermissionStore sv) (\<lambda>_ _. True)"
  unfolding requireRoleStore_def requireRolePermissionStore_def by (intro guarded.sat_if guarded.sat_fail guarded_return)+

lemmas guarded_rules = guarded_then guarded_map_fail guarded_authorize guarded_require guarded_local guarded.sat_if guarded.sat_option
  guarded.sat_sum guarded.sat_prod guarded.sat_fail guarded_return

subsection \<open>Requests\<close>

datatype account_request = Registering register_input | Logging_in login_input | Refreshing string string
  | Logging_out actor string | Updating actor int64 update_user_input | Granting actor int64 string string
  | Revoking actor int64 string string | Replacing actor string "string list option" string

fun serve :: "'q account_service \<Rightarrow> account_request \<Rightarrow> 'q accounts \<Rightarrow> 'q accounts" where
  "serve sv (Registering i) w = snd (user_Register sv i w)"
| "serve sv (Logging_in i) w = snd (Login sv i w)"
| "serve sv (Refreshing token device) w = snd (Refresh sv token device w)"
| "serve sv (Logging_out a token) w = snd (Logout sv a token w)"
| "serve sv (Updating a uid i) w = snd (service_UpdateUser sv a uid i w)"
| "serve sv (Granting a uid role reason) w = snd (service_GrantRole sv a uid role reason w)"
| "serve sv (Revoking a uid role reason) w = snd (service_RevokeRole sv a uid role reason w)"
| "serve sv (Replacing a role codes reason) w = snd (ReplaceRolePermissions sv a role codes reason w)"

lemma guarded_withRoles:
  "(\<And>w. access_kept (fst w) (fst (ae_others sv w))) \<Longrightarrow> guarded.sat (\<lambda>_. True) (withRoles sv u) (\<lambda>_ _. True)"
  unfolding withRoles_def by (intro guarded_rules guarded_read)

lemma guarded_issueSession:
  "(\<And>w. access_kept (fst w) (fst (ae_others sv w))) \<Longrightarrow> guarded.sat (\<lambda>_. True) (issueSession sv u d ua ip) (\<lambda>_ _. True)"
  unfolding issueSession_def by (intro guarded_rules guarded_withRoles guarded_clock guarded_call kept_tokens) (auto intro: guarded_same)

lemma serve_kept:
  assumes o: "\<And>w. access_kept (fst w) (fst (ae_others sv w))"
  shows "access_kept (fst w) (fst (serve sv req w))"
proof -
  note rules = guarded_rules guarded_clock [OF o] guarded_issueSession [OF o] guarded_call [OF o] guarded_read [OF o] kept_users kept_tokens kept_GrantRole kept_RevokeRole
  have "guarded.sat (\<lambda>_. True) (user_Register sv i) (\<lambda>_ _. True)" for i
    unfolding user_Register_def Let_def by (intro rules)
  moreover have "guarded.sat (\<lambda>_. True) (Login sv i) (\<lambda>_ _. True)" for i
    unfolding Login_def Let_def by (intro rules)
  moreover have "guarded.sat (\<lambda>_. True) (Refresh sv token d) (\<lambda>_ _. True)" for token d
    unfolding Refresh_def Let_def by (intro rules)
  moreover have "guarded.sat (\<lambda>_. True) (Logout sv a token) (\<lambda>_ _. True)" for a token
    unfolding Logout_def by (intro rules)
  moreover have "guarded.sat (\<lambda>_. True) (service_UpdateUser sv a uid i) (\<lambda>_ _. True)" for a uid i
    unfolding service_UpdateUser_def by (intro rules)
  moreover have "guarded.sat (\<lambda>_. True) (service_GrantRole sv a uid role reason) (\<lambda>_ _. True)" for a uid role reason
    unfolding service_GrantRole_def by (intro rules)
  moreover have "guarded.sat (\<lambda>_. True) (service_RevokeRole sv a uid role reason) (\<lambda>_ _. True)" for a uid role reason
    unfolding service_RevokeRole_def by (intro rules)
  moreover have "guarded.sat (\<lambda>_. True) (ReplaceRolePermissions sv a role codes reason) (\<lambda>_ _. True)" for a role codes reason
    unfolding ReplaceRolePermissions_def by (intro rules kept_Replace) (auto intro: normalized_delegable)
  ultimately show ?thesis by (cases req) (auto intro!: guarded.satD [where P = "\<lambda>_. True", OF _ TrueI])
qed

lemma serve_all_kept:
  assumes "\<And>w. access_kept (fst w) (fst (ae_others sv w))"
  shows "access_kept (fst w) (fst (fold (serve sv) reqs w))"
proof (induction reqs arbitrary: w)
  case (Cons req reqs)
  from guarded.evolves_trans [OF serve_kept [of sv w req, OF assms] Cons.IH] show ?case by simp
qed (simp add: guarded.evolves_refl)

text \<open>
  C34: The permissions of an actor are exact, and reserved ones need a full-access role. After any sequence of
  requests, each interleaved with what other processes do, a request with a valid token acts only for an account
  that is active; it may do exactly what the roles the account holds at that moment grant (everything for
  \<^verbatim>\<open>admin\<close> and \<^verbatim>\<open>root\<close>, the rows of the matrix otherwise); and a permission reserved to full-access roles is only
  ever held through one of them, whatever was written to the matrix.
\<close>

theorem actor_permissions_exact:
  assumes "access_safe (fst w)" and "\<And>v. access_kept (fst v) (fst (ae_others sv v))"
    and "s = fst (fold (serve sv) reqs w)" and "a = actorMiddleware sv requestID header s" and "Authenticated a"
  shows "(\<exists>u \<in> set (us_users s). uw_ID u = ac_UserID a \<and> uw_Status u = StatusActive)
     \<and> (\<forall>p. can a p \<longleftrightarrow> granted s (ac_UserID a) p)
     \<and> (\<forall>p \<in> set nonDelegablePermissions. can a p \<longrightarrow> holds_role s (ac_UserID a) RoleAdmin \<or> holds_role s (ac_UserID a) RoleRoot)"
proof -
  have safe: "global_assignments s" "matrix_safe s"
    using serve_all_kept [of sv w reqs, OF assms(2)] assms(1,3) by (auto simp: access_kept_def access_safe_def)
  note act = actor_can [OF safe(1) assms(4) [symmetric] assms(5)]
  have "holds_role s (ac_UserID a) RoleAdmin \<or> holds_role s (ac_UserID a) RoleRoot"
    if "p \<in> set nonDelegablePermissions" "can a p" for p
  proof (cases "\<exists>r. holds_role s (ac_UserID a) r \<and> IsFullAccessRole r")
    case True
    then show ?thesis by (auto simp: IsFullAccessRole_def fullAccessRoles_def)
  next
    case False
    with act that(2) obtain r where "(r, p) \<in> set (us_matrix s)" by (auto simp: granted_def)
    with safe(2) that(1) show ?thesis by (auto simp: matrix_safe_def)
  qed
  with act show ?thesis by blast
qed

text \<open>
  C35: The last root role is never revoked: once some account holds \<^verbatim>\<open>root\<close>, some account holds it after any sequence of
  requests, interleaved with any other processes that keep to this.
\<close>

theorem root_role_kept:
  assumes "\<And>v. access_kept (fst v) (fst (ae_others sv v))" and "holds_role (fst w) uid RoleRoot"
  shows "\<exists>uid'. holds_role (fst (fold (serve sv) reqs w)) uid' RoleRoot"
proof -
  have holders: "root_holders s \<noteq> [] \<longleftrightarrow> (\<exists>u. holds_role s u RoleRoot)" for s
    by (auto simp: root_holders_def holds_role_def filter_empty_conv)
  from serve_all_kept [of sv w reqs, OF assms(1)] assms(2) show ?thesis unfolding access_kept_def holders by blast
qed

subsection \<open>An example\<close>

text \<open>
  Texts are hashed by themselves and tokens are numbered; account 1 is an administrator, accounts 2 and 3 hold
  \<^verbatim>\<open>root\<close>. A token names its account.
\<close>

definition sample_accounts :: account_store where
  "sample_accounts =
     \<lparr>us_users = map (\<lambda>(k, name). \<lparr>uw_ID = k, uw_Email = name, uw_PasswordHash = name, uw_Username = name, uw_AvatarUrl = None,
        uw_Bio = None, uw_Status = StatusActive, uw_CreatedAt = k, uw_UpdatedAt = k\<rparr>) [(1, ''ada''), (2, ''ben''), (3, ''cid'')],
      us_assignments = map (\<lambda>(k, uid, role). \<lparr>ra_ID = k, ra_UserID = uid, ra_Role = role, ra_GrantedBy = None, ra_GrantedAt = 0,
        ra_RevokedAt = None\<rparr>) [(1, 1, RoleAdmin), (2, 2, RoleRoot), (3, 3, RoleRoot), (4, 3, RoleAuthor)],
      us_roles = known_roles, us_matrix = [(RoleAuthor, PermissionProblemCreate)], us_tokens = [], us_audit = [],
      us_next_user = 4, us_next_assignment = 5, us_next_token = 1, us_now = 100, us_clock = 100\<rparr>"

definition sample_service :: "nat account_service" where
  "sample_service =
     \<lparr>ae_others = id, ae_lower = ToLower, ae_dbLower = ToLower, ae_ilike = (=), ae_collate = (<), ae_hasRoles = True, ae_hasMatrix = True, ae_bcrypt = (\<lambda>p q. (Inr (''$'' @ p), q)),
      ae_compare = (\<lambda>h p. h = ''$'' @ p), ae_rand = (\<lambda>q. (Inr (FormatInt (int q)), Suc q)), ae_sha256hex = id,
      ae_sign = (\<lambda>_ c. Inr (FormatInt (cl_UserID c))),
      ae_parse = (\<lambda>_ now t. case ParseInt t of None \<Rightarrow> Inl (ErrText ''token is malformed'')
         | Some n \<Rightarrow> Inr \<lparr>cl_UserID = n, cl_DeviceID = ''default'', cl_ExpiresAt = now + 1, cl_IssuedAt = now\<rparr>),
      ae_parseAddr = (\<lambda>_. None), ae_secret = ''secret'', ae_jwtTTL = Minute, ae_accessTTL = Minute, ae_refreshTTL = 60 * Minute\<rparr>"

definition first_admin :: actor where
  "first_admin = actorMiddleware sample_service ''r1'' ''Bearer 1'' sample_accounts"

lemma sample_safe: "access_safe sample_accounts"
  by code_simp

lemma sample_alone: "access_kept (fst v) (fst (ae_others sample_service v))"
  by (simp add: sample_service_def access_kept_acl)

definition sample_requests :: "account_request list" where
  "sample_requests = [Replacing first_admin ''author'' (Some [PermissionProblemCreate, PermissionProblemEditOwn]) ''edit too'',
     Granting first_admin 3 ''reviewer'' ''helps out'', Revoking first_admin 2 ''root'' ''leaves'']"

theorem actor_permissions_exact_witness:
  "let s = fst (fold (serve sample_service) sample_requests (sample_accounts, 0));
       a = actorMiddleware sample_service ''r2'' ''bearer 3'' s
   in Authenticated a \<and> can a PermissionRoleGrant \<and> holds_role s 3 RoleRoot"
proof -
  define s where "s = fst (fold (serve sample_service) sample_requests (sample_accounts, 0))"
  define a where "a = actorMiddleware sample_service ''r2'' ''bearer 3'' s"
  have a: "Authenticated a" "can a PermissionRoleGrant" "ac_UserID a = 3" "holds_role s 3 RoleRoot"
    unfolding a_def s_def by code_simp+
  have "access_safe (fst (sample_accounts, 0 :: nat))" by (simp add: sample_safe)
  from actor_permissions_exact [OF this sample_alone s_def a_def a(1)] have "granted s (ac_UserID a) PermissionRoleGrant"
    using a(2) by blast
  then show ?thesis unfolding Let_def s_def [symmetric] a_def [symmetric] using a by blast
qed

theorem root_role_kept_witness:
  "\<exists>uid. holds_role (fst (fold (serve sample_service) sample_requests (sample_accounts, 0))) uid RoleRoot"
proof -
  have "holds_role (fst (sample_accounts, 0 :: nat)) 2 RoleRoot" by code_simp
  from root_role_kept [OF sample_alone this, of sample_requests] show ?thesis by blast
qed

subsection \<open>The last active root\<close>

definition disable :: update_user_input where
  "disable = \<lparr>up_Username = None, up_Bio = None, up_Status = Some StatusDisabled\<rparr>"

text \<open>One request after the other to disable an account.\<close>

fun disable_each ::
  "'q account_service \<Rightarrow> actor \<Rightarrow> int64 list \<Rightarrow> 'q accounts \<Rightarrow> user_account res list \<times> 'q accounts" where
  "disable_each sv a [] w = ([], w)"
| "disable_each sv a (uid # uids) w =
     (case service_UpdateUser sv a uid disable w of (r, w') \<Rightarrow>
        case disable_each sv a uids w' of (rs, w'') \<Rightarrow> (r # rs, w''))"

definition disabled_rows :: "int64 \<Rightarrow> time \<Rightarrow> user_row list \<Rightarrow> user_row list" where
  "disabled_rows uid now = update_rows (\<lambda>u. uw_ID u = uid) (with_user_fields disable now)"

text \<open>The repository's update: it succeeds unless exactly this account holds \<^verbatim>\<open>root\<close>.\<close>

lemma UpdateUserAdminFields_disables:
  assumes "\<exists>u \<in> set (us_users s). uw_ID u = uid"
  shows "\<exists>row. q_UpdateUserAdminFields uid disable s = Inr (row, s\<lparr>us_users := disabled_rows uid (us_now s) (us_users s)\<rparr>)"
proof -
  obtain u where "List.find (\<lambda>u. uw_ID u = uid) (us_users s) = Some u"
    using assms by (metis (mono_tags, lifting) find_None_filter filter_empty_conv option.exhaust)
  moreover have "user_constraints (with_user_fields disable now v)" for now v
    by (simp add: user_constraints_def with_user_fields_def disable_def coalesce_def)
  ultimately show ?thesis
    by (simp add: q_UpdateUserAdminFields_def update_row_def bind_tx_def check_tx_def return_tx_def disabled_rows_def)
qed

lemma repo_UpdateUser_disables:
  assumes "\<exists>u \<in> set (us_users s). uw_ID u = uid" and "root_holders s \<noteq> [uid]"
    and "\<And>e. event = Some e \<Longrightarrow> validate_audit_event e = Inr ()"
  shows "\<exists>u s'. repo_UpdateUser uid disable event s = (Inr u, s') \<and> us_assignments s' = us_assignments s
     \<and> us_users s' = disabled_rows uid (us_now s) (us_users s)"
proof -
  from UpdateUserAdminFields_disables [OF assms(1)] obtain row where
    row: "q_UpdateUserAdminFields uid disable s = Inr (row, s\<lparr>us_users := disabled_rows uid (us_now s) (us_users s)\<rparr>)" by blast
  show ?thesis
  proof (cases event)
    case None
    with row show ?thesis by (simp add: repo_UpdateUser_def WithTx_def map_err_def map_res_def)
  next
    case (Some e)
    with row assms(2,3) show ?thesis
      by (simp add: repo_UpdateUser_def WithTx_def update_user_tx_def bind_tx_def when_tx_def ensureActiveRootRemains_def map_err_def
          account_audit_def audit_Insert_def return_tx_def disable_def)
  qed
qed

lemma UpdateUser_disables:
  assumes "ae_others sv = id" and "can a PermissionUserManage" and "ac_UserID a \<noteq> uid" "0 < uid"
    and "\<exists>u \<in> set (us_users s). uw_ID u = uid" and "root_holders s \<noteq> [uid]"
  shows "\<exists>u s'. service_UpdateUser sv a uid disable (s, q) = (Inr u, (s', q)) \<and> us_assignments s' = us_assignments s
     \<and> us_users s' = disabled_rows uid (us_now s) (us_users s)"
proof -
  obtain row where "List.find (\<lambda>u. uw_ID u = uid) (us_users s) = Some row"
    using assms(5) by (metis (mono_tags, lifting) find_None_filter filter_empty_conv option.exhaust)
  then have get: "repo_GetUserByID uid s = Inr (mapUser row)"
    by (simp add: repo_GetUserByID_def WithTx_def map_err_def q_GetUserByID_def select_row_def map_res_def)
  let ?event = "statusChangeEvent (ac_UserID a) uid (uw_Status row) StatusDisabled"
  have change: "status_change a uid disable (mapUser row) = Inr ?event"
    using assms(3) by (simp add: status_change_def disable_def user_validStatus_def mapUser_def)
  have may: "Authorize (NewSubject a) PermissionUserManage = Inr ()" and "0 < ac_UserID a"
    using assms(2) by (auto simp: can_def Authorize_def NewSubject_def subject_Authenticated_def split: if_splits)
  then have "validate_audit_event e = Inr ()" if "?event = Some e" for e
    using that assms(4) by (auto simp: statusChangeEvent_def validate_audit_event_def validActions_def validObjectTypes_def split: if_splits)
  from repo_UpdateUser_disables [OF assms(5,6) this] obtain u s' where
    "repo_UpdateUser uid disable ?event s = (Inr u, s')" "us_assignments s' = us_assignments s"
    "us_users s' = disabled_rows uid (us_now s) (us_users s)" by blast
  with get change assms(1) may show ?thesis
    by (simp add: service_UpdateUser_def authorize_admin_def bind_act_simps return_act_def map_fail_def try_act_def acct_read_def
        acct_call_def call_def)
qed

lemma disabled_rows_mem:
  assumes "u \<in> set (disabled_rows uid now rows)"
  shows "(uw_ID u = uid \<and> uw_Status u = StatusDisabled) \<or> (u \<in> set rows \<and> uw_ID u \<noteq> uid)"
  using assms by (auto simp: disabled_rows_def set_update_rows with_user_fields_def disable_def coalesce_def)

lemma disabled_rows_ids: "(\<exists>u \<in> set (disabled_rows uid now rows). uw_ID u = k) \<longleftrightarrow> (\<exists>u \<in> set rows. uw_ID u = k)"
proof -
  have "map uw_ID (disabled_rows uid now rows) = map uw_ID rows"
    by (simp add: disabled_rows_def update_rows_def with_user_fields_def comp_def cong: if_cong)
  then have "uw_ID ` set (disabled_rows uid now rows) = uw_ID ` set rows" by (metis list.set_map)
  then show ?thesis by (metis imageE imageI)
qed

lemma disable_each_effect:
  assumes "ae_others sv = id" and "can a PermissionUserManage"
    and "length (root_holders s) \<noteq> 1" and "\<forall>uid \<in> set uids. uid \<noteq> ac_UserID a \<and> 0 < uid \<and> (\<exists>u \<in> set (us_users s). uw_ID u = uid)"
    and "disable_each sv a uids (s, q) = (rs, (s', q'))" and "\<forall>u \<in> set (us_users s). uw_ID u \<in> done \<longrightarrow> uw_Status u = StatusDisabled"
  shows "list_all is_ok rs \<and> us_assignments s' = us_assignments s
     \<and> (\<forall>u \<in> set (us_users s'). uw_ID u \<in> done \<union> set uids \<longrightarrow> uw_Status u = StatusDisabled)"
  using assms(3-6)
proof (induction uids arbitrary: s q rs "done")
  case (Cons uid uids)
  have "root_holders s \<noteq> [uid]" using Cons.prems(1) by auto
  from UpdateUser_disables [OF assms(1,2) _ _ _ this] Cons.prems(2) obtain u s1 where
    u: "service_UpdateUser sv a uid disable (s, q) = (Inr u, (s1, q))" "us_assignments s1 = us_assignments s"
    "us_users s1 = disabled_rows uid (us_now s) (us_users s)" by (metis list.set_intros(1))
  from Cons.prems(3) u(1) obtain rs' where rs: "rs = Inr u # rs'" "disable_each sv a uids (s1, q) = (rs', (s', q'))"
    by (auto split: prod.splits)
  have holders: "length (root_holders s1) \<noteq> 1" using Cons.prems(1) u(2) by (simp add: root_holders_def)
  have ids: "\<forall>uid \<in> set uids. uid \<noteq> ac_UserID a \<and> 0 < uid \<and> (\<exists>u \<in> set (us_users s1). uw_ID u = uid)"
    using Cons.prems(2) unfolding u(3) disabled_rows_ids by simp
  have "\<forall>u \<in> set (us_users s1). uw_ID u \<in> insert uid done \<longrightarrow> uw_Status u = StatusDisabled"
    using Cons.prems(4) disabled_rows_mem unfolding u(3) by blast
  from Cons.IH [OF holders ids rs(2) this] u(2) show ?case by (auto simp: rs(1))
qed simp

text \<open>
  C39: Every root account can be disabled. The guard against disabling the last active root counts role assignments,
  not active accounts. Take any accounts among which \<^verbatim>\<open>root\<close> is held by two or more active assignments
  (anything but exactly one), each of an account that exists, and an administrator who may manage users and holds
  no \<^verbatim>\<open>root\<close> himself, on a service that no other process interferes with. Asking to disable the holders one after
  the other, all requests succeed; the assignments are as they were, and no active account holds \<^verbatim>\<open>root\<close> any more.
\<close>

theorem all_roots_disabled:
  assumes "ae_others sv = id" and "can a PermissionUserManage"
    and "length (root_holders s) \<noteq> 1"
    and "\<forall>uid \<in> set (root_holders s). uid \<noteq> ac_UserID a \<and> 0 < uid \<and> (\<exists>u \<in> set (us_users s). uw_ID u = uid)"
    and "disable_each sv a (root_holders s) (s, q) = (rs, (s', q'))"
  shows "list_all is_ok rs \<and> root_holders s' = root_holders s
     \<and> (\<forall>u \<in> set (us_users s'). holds_role s' (uw_ID u) RoleRoot \<longrightarrow> uw_Status u = StatusDisabled)"
proof -
  have same: "us_assignments s' = us_assignments s" and ok: "list_all is_ok rs"
    and off: "\<forall>u \<in> set (us_users s'). uw_ID u \<in> set (root_holders s) \<longrightarrow> uw_Status u = StatusDisabled"
    using disable_each_effect [OF assms(1-5), of "{}"] by simp_all
  from same have "root_holders s' = root_holders s" by (simp add: root_holders_def)
  moreover have "uid \<in> set (root_holders s')" if "holds_role s' uid RoleRoot" for uid
    using that by (auto simp: holds_role_def root_holders_def)
  ultimately show ?thesis using ok off by auto
qed

theorem all_roots_disabled_witness:
  "let (rs, (s', q')) = disable_each sample_service first_admin [2, 3] (sample_accounts, 0)
   in list_all is_ok rs \<and> root_holders s' = [2, 3]
      \<and> (\<forall>u \<in> set (us_users s'). holds_role s' (uw_ID u) RoleRoot \<longrightarrow> uw_Status u = StatusDisabled)"
proof -
  obtain rs s' q' where e: "disable_each sample_service first_admin [2, 3] (sample_accounts, 0) = (rs, (s', q'))"
    by (metis surj_pair)
  have roots: "root_holders sample_accounts = [2, 3]" by code_simp
  have alone: "ae_others sample_service = id" by (simp add: sample_service_def)
  have may: "can first_admin PermissionUserManage" by code_simp
  have "\<forall>uid \<in> set (root_holders sample_accounts). uid \<noteq> ac_UserID first_admin \<and> 0 < uid
     \<and> (\<exists>u \<in> set (us_users sample_accounts). uw_ID u = uid)" by code_simp
  from all_roots_disabled [OF alone may _ this, unfolded roots, OF _ e] show ?thesis by (simp del: disable_each.simps add: e)
qed

end
