(* ===== verification/Account_Sessions.thy ===== *)
theory Account_Sessions
  imports Account_Access
begin

section \<open>Sessions and listings\<close>

text \<open>
  What a refresh token is good for, that a registered account can log in, and that the listing of users
  shows the roles and permissions that requests are decided with.
\<close>

subsection \<open>Sessions\<close>

lemma acct_call_alone: "ae_others sv = id \<Longrightarrow> acct_call sv op (s, q) = (case op s of (r, s') \<Rightarrow> (r, (s', q)))"
  by (simp add: acct_call_def call_def split: prod.split)

lemma acct_read_alone: "ae_others sv = id \<Longrightarrow> acct_read sv f (s, q) = (f s, (s, q))"
  by (simp add: acct_read_def call_def)

text \<open>States at which the other processes do nothing: all of them when there are none.\<close>

definition quiet_at :: "'q account_service \<Rightarrow> account_store \<Rightarrow> bool" where
  "quiet_at sv s \<longleftrightarrow> (\<forall>q. ae_others sv (s, q) = (s, q))"

lemma quiet_alone: "ae_others sv = id \<Longrightarrow> quiet_at sv s"
  by (simp add: quiet_at_def)

lemma acct_read_quiet: "quiet_at sv s \<Longrightarrow> acct_read sv f (s, q) = (f s, (s, q))"
  by (simp add: acct_read_def call_def quiet_at_def)

lemma acct_call_quiet: "op s = (r, s') \<Longrightarrow> quiet_at sv s' \<Longrightarrow> acct_call sv op (s, q) = (r, (s', q))"
  by (simp add: acct_call_def call_def quiet_at_def)

lemma map_fail_simps: "map_fail f m w = (case m w of (Inl e, w') \<Rightarrow> (Inl (f e), w') | (Inr x, w') \<Rightarrow> (Inr x, w'))"
  by (simp add: map_fail_def try_act_def fail_act_def return_act_def split: prod.split sum.split)

text \<open>A refresh token the store knows, and one that it knows as revoked: both stay so.\<close>

definition known_token :: "string \<Rightarrow> account_store \<Rightarrow> bool" where
  "known_token h s \<longleftrightarrow> (\<exists>t \<in> set (us_tokens s). rf_TokenHash t = h)"

definition spent_token :: "string \<Rightarrow> account_store \<Rightarrow> bool" where
  "spent_token h s \<longleftrightarrow> (\<exists>t. List.find (\<lambda>t. rf_TokenHash t = h) (us_tokens s) = Some t \<and> rf_RevokedAt t \<noteq> None)"

lemma find_later:
  "list_all2 later_token ts olds \<Longrightarrow> List.find (\<lambda>t. rf_TokenHash t = h) ts = Some t \<Longrightarrow>
   \<exists>t'. List.find (\<lambda>t. rf_TokenHash t = h) (olds @ news) = Some t' \<and> later_token t t'"
  by (induction ts olds rule: list_all2_induct) (auto simp: later_token_def split: if_splits)

lemma stable_spent: "guarded.stable (\<lambda>w. spent_token h (fst w))"
proof -
  have "spent_token h s'" if "access_kept s s'" "spent_token h s" for s s'
  proof -
    from that obtain olds news t where "us_tokens s' = olds @ news" "list_all2 later_token (us_tokens s) olds"
      "List.find (\<lambda>t. rf_TokenHash t = h) (us_tokens s) = Some t" "rf_RevokedAt t \<noteq> None"
      by (auto simp: access_kept_def later_tokens_def spent_token_def)
    with find_later [of "us_tokens s" olds h t news] show ?thesis by (auto simp: spent_token_def later_token_def)
  qed
  then show ?thesis by (auto simp: guarded.stable_def)
qed

lemma stable_known_token: "guarded.stable (\<lambda>w. known_token h (fst w))"
proof -
  have "known_token h s'" if "access_kept s s'" "known_token h s" for s s'
  proof -
    from that(2) obtain t where "List.find (\<lambda>t. rf_TokenHash t = h) (us_tokens s) = Some t"
      unfolding known_token_def by (metis (mono_tags, lifting) find_None_filter option.exhaust)
    moreover from that(1) obtain olds news where tokens: "us_tokens s' = olds @ news" "list_all2 later_token (us_tokens s) olds"
      by (auto simp: access_kept_def later_tokens_def)
    ultimately obtain t' where "List.find (\<lambda>t. rf_TokenHash t = h) (us_tokens s') = Some t'"
      using find_later [of "us_tokens s" olds h t news] by auto
    then show ?thesis unfolding known_token_def by (metis (mono_tags, lifting) find_Some_set)
  qed
  then show ?thesis by (auto simp: guarded.stable_def)
qed

lemma sat_stable: "guarded.stable P \<Longrightarrow> guarded.sat (\<lambda>_. True) m (\<lambda>_ _. True) \<Longrightarrow> guarded.sat P m (\<lambda>_. P)"
  unfolding guarded.sat_def guarded.stable_def by blast

lemma revoke_spends: "known_token h s \<Longrightarrow> spent_token h (snd (repo_RevokeRefreshToken h s))"
proof -
  have "(\<exists>t \<in> set ts. rf_TokenHash t = h) \<Longrightarrow> \<exists>t. List.find (\<lambda>t. rf_TokenHash t = h)
      (update_rows (\<lambda>t. rf_TokenHash t = h \<and> rf_RevokedAt t = None) (\<lambda>t. t\<lparr>rf_RevokedAt := Some now\<rparr>) ts) = Some t \<and> rf_RevokedAt t \<noteq> None"
    for ts now by (induction ts) (auto simp: update_rows_def)
  then show "known_token h s \<Longrightarrow> spent_token h (snd (repo_RevokeRefreshToken h s))"
    by (simp add: known_token_def spent_token_def repo_RevokeRefreshToken_def q_RevokeRefreshToken_def revoke_tokens_def WithTx_def)
qed

lemma found_known: "repo_GetRefreshToken h s = Inr t \<Longrightarrow> known_token h s"
  by (auto simp: repo_GetRefreshToken_def WithTx_def map_err_def q_GetRefreshTokenByHash_def select_row_def known_token_def
      split: option.splits dest: find_Some_set)

lemma Refresh_spends:
  assumes o: "\<And>w. access_kept (fst w) (fst (ae_others sv w))"
  shows "guarded.sat (\<lambda>_. True) (Refresh sv token device) (\<lambda>_ w. spent_token (HashRefreshToken sv token) (fst w))"
proof -
  let ?h = "HashRefreshToken sv token" and ?K = "\<lambda>w. known_token (HashRefreshToken sv token) (fst w)"
  have revoke: "guarded.sat ?K (acct_call sv (repo_RevokeRefreshToken ?h)) (\<lambda>_ w. spent_token ?h (fst w))"
    unfolding acct_call_def
    by (rule guarded.sat_call [OF o stable_spent]) (auto simp: split_def revoke_spends kept_tokens)
  have get: "guarded.sat (\<lambda>_. True) (map_fail f (acct_read sv (repo_GetRefreshToken ?h))) (\<lambda>_. ?K)" for f
    unfolding map_fail_def
    by (rule guarded.sat_try [where Q = "\<lambda>_. ?K"], simp, unfold acct_read_def, rule guarded.sat_call [OF o stable_known_token])
      (auto simp: split_def guarded.evolves_refl found_known intro: guarded.sat_fail guarded.sat_return)
  have rest: "guarded.sat ?K m (\<lambda>_ _. True)" if "guarded.sat (\<lambda>_. True) m (\<lambda>_ _. True)" for m :: "('a accounts, 'b) action"
    using that by (auto simp: guarded.sat_def)
  have issue: "guarded.sat (\<lambda>w. ?K w \<and> spent_token ?h (fst w)) (issueSession sv u d [] []) (\<lambda>_ w. spent_token ?h (fst w))" for u d
    by (rule guarded.sat_weaken [OF sat_stable [OF stable_spent guarded_issueSession [OF o]]]) auto
  have close: "guarded.sat ?K (bind_act (acct_call sv (repo_RevokeRefreshToken ?h)) (\<lambda>_. issueSession sv u d [] []))
      (\<lambda>_ w. spent_token ?h (fst w))" for u d
    by (rule guarded.sat_bind [OF stable_known_token revoke issue])
  have tail: "guarded.sat ?K (bind_act (clock_act sv) (\<lambda>now. if rf_RevokedAt t \<noteq> None \<or> \<not> now < rf_ExpiresAt t then app_act e
      else bind_act (map_fail f (acct_read sv (repo_GetUserByID (rf_UserID t)))) (\<lambda>u. if ua_Status u \<noteq> StatusActive then app_act e
      else bind_act (acct_call sv (repo_RevokeRefreshToken ?h)) (\<lambda>_. issueSession sv u (if device \<noteq> [] then device else rf_DeviceID t) [] []))))
      (\<lambda>_ w. spent_token ?h (fst w))" for t e f
    by (intro guarded.sat_if guarded.sat_fail close guarded.sat_then [OF stable_known_token guarded_clock [OF o]]
        guarded.sat_then [OF stable_known_token rest [OF guarded_map_fail [OF guarded_read [OF o]]]])
  show ?thesis unfolding Refresh_def Let_def
    by (intro guarded.sat_if guarded.sat_fail guarded.sat_bind [OF guarded.stable_const get] guarded.sat_weaken [OF tail]) simp_all
qed

lemma spent_refused:
  assumes "spent_token (HashRefreshToken sv token) (fst w)"
  shows "\<not> is_ok (fst (Refresh sv token device w))"
proof -
  obtain s q where w: "w = (s, q)" by (cases w)
  from assms w obtain t where "repo_GetRefreshToken (HashRefreshToken sv token) s = Inr t" "rf_RevokedAt t \<noteq> None"
    by (auto simp: spent_token_def repo_GetRefreshToken_def WithTx_def map_err_def q_GetRefreshTokenByHash_def select_row_def)
  with w show ?thesis
    by (auto simp: Refresh_def Let_def bind_act_simps map_fail_simps acct_read_def call_def clock_act_def fail_act_def
        split: prod.splits)
qed

text \<open>
  C36: A refresh token is used up. Once a refresh with a token has succeeded, however its calls interleaved with other
  processes, that token is refused in every later state, whatever requests are made in between.
\<close>

theorem refresh_token_used_up:
  assumes "\<And>v. access_kept (fst v) (fst (ae_others sv v))" and "Refresh sv token device w = (Inr session, w')"
  shows "\<not> is_ok (fst (Refresh sv token device' (fold (serve sv) reqs w')))"
proof -
  from guarded.sat_run [OF Refresh_spends [of sv token device, OF assms(1)] TrueI assms(2)]
  have "spent_token (HashRefreshToken sv token) (fst w')" by simp
  from guarded.stableD [OF stable_spent this serve_all_kept [of sv w' reqs, OF assms(1)]] show ?thesis
    by (rule spent_refused)
qed

text \<open>A session of account 2 with the refresh token \<^verbatim>\<open>t0\<close>.\<close>

definition sample_session :: account_store where
  "sample_session = sample_accounts\<lparr>us_tokens := [\<lparr>rf_ID = 9, rf_UserID = 2, rf_TokenHash = ''t0'', rf_DeviceID = ''phone'',
     rf_UserAgent = None, rf_Ip = None, rf_ExpiresAt = 1000, rf_RevokedAt = None, rf_CreatedAt = 0\<rparr>]\<rparr>"

theorem refresh_token_used_up_witness:
  "\<not> is_ok (fst (Refresh sample_service ''t0'' [] (fold (serve sample_service) sample_requests
      (snd (Refresh sample_service ''t0'' [] (sample_session, 0))))))"
proof -
  let ?r = "Refresh sample_service ''t0'' [] (sample_session, 0)"
  have "is_ok (fst ?r)" by code_simp
  then obtain session where "?r = (Inr session, snd ?r)" by (cases ?r; cases "fst ?r") auto
  from refresh_token_used_up [OF sample_alone this] show ?thesis .
qed

subsection \<open>What opening a session does\<close>

text \<open>What the roles and permissions of an account are read from.\<close>

lemma ListAccess_cong:
  assumes "us_users s' = us_users s" and "us_assignments s' = us_assignments s" and "us_matrix s' = us_matrix s"
  shows "ListAccess collate uid s' = ListAccess collate uid s"
proof -
  have "role_rows s' = role_rows s" by (simp add: fun_eq_iff role_rows_def assms)
  then have "access_rows s' uid = access_rows s uid" for uid
    unfolding access_rows_def assms by (simp only:)
  then show ?thesis by (simp add: ListAccess_def ListAccessForUsers_def page_rows_def assms)
qed

definition session_token :: "'q account_service \<Rightarrow> int64 \<Rightarrow> string \<Rightarrow> string \<Rightarrow> account_store \<Rightarrow> refresh_token_row" where
  "session_token sv uid h device s =
     \<lparr>rf_ID = us_next_token s, rf_UserID = uid, rf_TokenHash = h, rf_DeviceID = device, rf_UserAgent = None, rf_Ip = None,
      rf_ExpiresAt = us_clock s + ae_refreshTTL sv, rf_RevokedAt = None, rf_CreatedAt = us_now s\<rparr>"

definition with_token :: "refresh_token_row \<Rightarrow> account_store \<Rightarrow> account_store" where
  "with_token t s = s\<lparr>us_tokens := us_tokens s @ [t], us_next_token := us_next_token s + 1\<rparr>"

lemma with_token_simps [simp]:
  "us_users (with_token t s) = us_users s" "us_tokens (with_token t s) = us_tokens s @ [t]"
  "us_assignments (with_token t s) = us_assignments s" "us_matrix (with_token t s) = us_matrix s"
  "us_clock (with_token t s) = us_clock s"
  by (simp_all add: with_token_def)

lemma session_token_simps [simp]:
  "rf_UserID (session_token sv uid h d s) = uid" "rf_TokenHash (session_token sv uid h d s) = h"
  "rf_RevokedAt (session_token sv uid h d s) = None"
  by (simp_all add: session_token_def)

lemma nullableText_empty: "nullableText [] = None"
  by code_simp

lemma CreateRefreshToken_iff:
  "repo_CreateRefreshToken pa uid h \<lparr>tk_DeviceID = d, tk_UserAgent = [], tk_IP = [],
       tk_ExpiresAt = us_clock s + ae_refreshTTL sv\<rparr> s = (Inr x, s')
   \<longleftrightarrow> (\<exists>u \<in> set (us_users s). uw_ID u = uid) \<and> (\<forall>t \<in> set (us_tokens s). rf_TokenHash t \<noteq> h)
       \<and> s' = with_token (session_token sv uid h d s) s"
  by (auto simp: repo_CreateRefreshToken_def WithTx_def map_err_def q_CreateRefreshToken_def bind_tx_def check_tx_def unique_tx_def
      return_tx_def fail_tx_def map_res_def Let_def with_token_def session_token_def nullableText_empty
      split: sum.splits prod.splits if_splits)

text \<open>The actor an access token is made for, and the account with its roles, as a session returns it.\<close>

abbreviation session_actor :: "user_account \<Rightarrow> access \<Rightarrow> string \<Rightarrow> actor" where
  "session_actor u xs d \<equiv> (Anonymous [])\<lparr>ac_UserID := ua_ID u, ac_Roles := xs_Roles xs, ac_DeviceID := d\<rparr>"

abbreviation session_user :: "user_account \<Rightarrow> access \<Rightarrow> user_account" where
  "session_user u xs \<equiv> u\<lparr>ua_Roles := xs_Roles xs, ua_Permissions := xs_Permissions xs\<rparr>"

text \<open>
  When a session is opened: the store resolves the roles, there is a random token whose hash is new, the
  access token is signed and the account exists.
\<close>

lemma issueSession_opens:
  assumes "ae_hasRoles sv" and "ListAccess (ae_collate sv) (ua_ID u) s = Inr xs" and "ae_rand sv q = (Inr token, q')"
    and "IssueAccessToken sv (session_actor u xs d) (us_clock s) = Inr access"
    and "\<exists>v \<in> set (us_users s). uw_ID v = ua_ID u" and "\<forall>t \<in> set (us_tokens s). rf_TokenHash t \<noteq> HashRefreshToken sv token"
    and "quiet_at sv s" and "quiet_at sv (with_token (session_token sv (ua_ID u) (HashRefreshToken sv token) d s) s)"
  shows "issueSession sv u d [] [] (s, q) =
     (Inr \<lparr>se_User = session_user u xs, se_AccessToken = access, se_RefreshToken = token,
           se_ExpiresIn = go_quot (ae_accessTTL sv) Second\<rparr>,
      (with_token (session_token sv (ua_ID u) (HashRefreshToken sv token) d s) s, q'))"
proof -
  let ?h = "HashRefreshToken sv token"
  have "repo_CreateRefreshToken (ae_parseAddr sv) (ua_ID u) ?h \<lparr>tk_DeviceID = d, tk_UserAgent = [], tk_IP = [],
       tk_ExpiresAt = us_clock s + ae_refreshTTL sv\<rparr> s = (Inr (), with_token (session_token sv (ua_ID u) ?h d s) s)"
    unfolding CreateRefreshToken_iff using assms(5,6) by simp
  from acct_call_quiet [of "repo_CreateRefreshToken _ _ _ _", OF this assms(8)] assms(1-4) show ?thesis
    by (simp add: issueSession_def withRoles_def requireRoleStore_def bind_act_simps map_fail_simps return_act_def
        acct_read_quiet [OF assms(7)] clock_act_def local_act_def NewRefreshToken_def map_res_def)
qed

text \<open>And what has happened when one was opened with no one interfering.\<close>

lemma issueSession_opened:
  assumes alone: "ae_others sv = id" and i: "issueSession sv u d [] [] (s, q) = (Inr session, (s', q'))"
  obtains xs token where "ae_hasRoles sv" "ListAccess (ae_collate sv) (ua_ID u) s = Inr xs" "ae_rand sv q = (Inr token, q')"
    "IssueAccessToken sv (session_actor u xs d) (us_clock s) = Inr (se_AccessToken session)"
    "\<exists>v \<in> set (us_users s). uw_ID v = ua_ID u" "\<forall>t \<in> set (us_tokens s). rf_TokenHash t \<noteq> HashRefreshToken sv token"
    "s' = with_token (session_token sv (ua_ID u) (HashRefreshToken sv token) d s) s"
    "se_User session = session_user u xs" "se_RefreshToken session = token"
proof -
  note run = issueSession_def withRoles_def requireRoleStore_def bind_act_simps map_fail_simps return_act_def fail_act_def
    acct_read_alone [OF alone] acct_call_alone [OF alone] clock_act_def local_act_def NewRefreshToken_def
  from i have roles: "ae_hasRoles sv" by (auto simp: run split: if_splits)
  obtain l where l: "ListAccess (ae_collate sv) (ua_ID u) s = l" by blast
  with i roles obtain xs where xs: "l = Inr xs" by (cases l) (auto simp: run)
  obtain n q1 where n: "ae_rand sv q = (n, q1)" by (cases "ae_rand sv q")
  with i roles l xs obtain token where token: "n = Inr token" by (cases n) (auto simp: run map_res_def)
  let ?h = "HashRefreshToken sv token"
  obtain at where a: "IssueAccessToken sv (session_actor u xs d) (us_clock s) = at" by blast
  with i roles l xs n token obtain access where access: "at = Inr access" by (cases at) (auto simp: run map_res_def)
  obtain x s2 where c: "repo_CreateRefreshToken (ae_parseAddr sv) (ua_ID u) ?h \<lparr>tk_DeviceID = d, tk_UserAgent = [], tk_IP = [],
       tk_ExpiresAt = us_clock s + ae_refreshTTL sv\<rparr> s = (x, s2)" by fastforce
  with i roles l xs n token a access obtain v where x: "x = Inr v" by (cases x) (auto simp: run map_res_def)
  with i roles l xs n token a access c have "s' = s2" "q' = q1"
    "session = \<lparr>se_User = session_user u xs, se_AccessToken = access, se_RefreshToken = token,
                se_ExpiresIn = go_quot (ae_accessTTL sv) Second\<rparr>" by (auto simp: run map_res_def)
  with roles l xs n token a access c [unfolded x CreateRefreshToken_iff] that show thesis by simp
qed

subsection \<open>Two refreshes at the same time\<close>

definition without_token :: "string \<Rightarrow> account_store \<Rightarrow> account_store" where
  "without_token h s = snd (repo_RevokeRefreshToken h s)"

lemma without_token_simps [simp]:
  "repo_RevokeRefreshToken h s = (Inr (), without_token h s)" "us_users (without_token h s) = us_users s"
  "us_assignments (without_token h s) = us_assignments s" "us_matrix (without_token h s) = us_matrix s"
  "us_clock (without_token h s) = us_clock s"
  "us_tokens (without_token h s) = update_rows (\<lambda>t. rf_TokenHash t = h \<and> rf_RevokedAt t = None)
     (\<lambda>t. t\<lparr>rf_RevokedAt := Some (us_now s)\<rparr>) (us_tokens s)"
  by (simp_all add: without_token_def repo_RevokeRefreshToken_def q_RevokeRefreshToken_def revoke_tokens_def WithTx_def)

lemma hashes_revoked:
  "rf_TokenHash ` set (us_tokens (without_token h s)) = rf_TokenHash ` set (us_tokens s)"
proof -
  have "map rf_TokenHash (us_tokens (without_token h s)) = map rf_TokenHash (us_tokens s)"
    by (simp add: update_rows_def comp_def cong: if_cong)
  then show ?thesis by (metis list.set_map)
qed

text \<open>A token that is live: its row as the store finds it, and the active account it belongs to.\<close>

definition live_token :: "string \<Rightarrow> account_store \<Rightarrow> refresh_token_row \<Rightarrow> user_row \<Rightarrow> bool" where
  "live_token h s t u \<longleftrightarrow> List.find (\<lambda>t. rf_TokenHash t = h) (us_tokens s) = Some t \<and> rf_RevokedAt t = None
     \<and> us_clock s < rf_ExpiresAt t \<and> List.find (\<lambda>u. uw_ID u = rf_UserID t) (us_users s) = Some u \<and> uw_Status u = StatusActive"

lemma repo_finds:
  "repo_GetRefreshToken h s = (case List.find (\<lambda>t. rf_TokenHash t = h) (us_tokens s) of None \<Rightarrow> Inl ErrNotFound | Some t \<Rightarrow> Inr t)"
  "repo_GetUserByID uid s = (case List.find (\<lambda>u. uw_ID u = uid) (us_users s) of None \<Rightarrow> Inl ErrNotFound | Some u \<Rightarrow> Inr (mapUser u))"
  by (simp_all add: repo_GetRefreshToken_def repo_GetUserByID_def WithTx_def map_err_def q_GetRefreshTokenByHash_def q_GetUserByID_def
      select_row_def map_res_def user_mapDBError_def split: option.split)

text \<open>A refresh with a spent token changes nothing.\<close>

lemma spent_changes_nothing:
  assumes "ae_others sv = id" and "spent_token (HashRefreshToken sv token) s"
  shows "snd (Refresh sv token device (s, q)) = (s, q)"
  using assms(2) by (auto simp: Refresh_def Let_def bind_act_simps map_fail_simps acct_read_alone [OF assms(1)] clock_act_def
      fail_act_def spent_token_def repo_finds)

lemma Refresh_opened:
  assumes alone: "ae_others sv = id" and i: "Refresh sv token device (s, q) = (Inr session, (s', q'))"
  obtains t u where "TrimSpace token \<noteq> []" "live_token (HashRefreshToken sv token) s t u"
    "issueSession sv (mapUser u) (if device \<noteq> [] then device else rf_DeviceID t) [] []
       (without_token (HashRefreshToken sv token) s, q) = (Inr session, (s', q'))"
proof -
  let ?h = "HashRefreshToken sv token"
  note run = Refresh_def Let_def bind_act_simps map_fail_simps acct_read_alone [OF alone] acct_call_alone [OF alone] clock_act_def
    fail_act_def repo_finds
  from i have t0: "TrimSpace token \<noteq> []" by (auto simp: run split: if_splits)
  with i obtain t where t: "List.find (\<lambda>t. rf_TokenHash t = ?h) (us_tokens s) = Some t"
    by (cases "List.find (\<lambda>t. rf_TokenHash t = ?h) (us_tokens s)") (auto simp: run)
  with i t0 have live: "rf_RevokedAt t = None" "us_clock s < rf_ExpiresAt t" by (auto simp: run split: if_splits)
  with i t0 t obtain u where u: "List.find (\<lambda>u. uw_ID u = rf_UserID t) (us_users s) = Some u"
    by (cases "List.find (\<lambda>u. uw_ID u = rf_UserID t) (us_users s)") (auto simp: run)
  with i t0 t live have active: "uw_Status u = StatusActive" by (auto simp: run mapUser_def split: if_splits)
  with i t0 t live u have "issueSession sv (mapUser u) (if device \<noteq> [] then device else rf_DeviceID t) [] []
       (without_token ?h s, q) = (Inr session, (s', q'))" by (simp add: run mapUser_def)
  with t0 t live u active that show thesis by (simp add: live_token_def)
qed

lemma revoked_spent:
  assumes "List.find (\<lambda>t. rf_TokenHash t = h) (us_tokens s) = Some t"
  shows "spent_token h (without_token h s)"
proof -
  from assms have "known_token h s" unfolding known_token_def by (metis (mono_tags, lifting) find_Some_set)
  then show ?thesis unfolding without_token_def by (rule revoke_spends)
qed

lemma spent_with_token: "spent_token h s \<Longrightarrow> spent_token h (with_token t s)"
proof -
  have "List.find P xs = Some x \<Longrightarrow> List.find P (xs @ ys) = Some x" for P :: "refresh_token_row \<Rightarrow> bool" and xs ys x
    by (induction xs) (auto split: if_splits)
  then show "spent_token h s \<Longrightarrow> spent_token h (with_token t s)" by (fastforce simp: spent_token_def)
qed

lemma spent_without_token: "spent_token h s \<Longrightarrow> spent_token h (without_token h s)"
  using revoked_spent unfolding spent_token_def by blast

text \<open>Another client that uses the same token whenever it gets to run.\<close>

definition racing_service :: "'q account_service \<Rightarrow> string \<Rightarrow> string \<Rightarrow> 'q account_service" where
  "racing_service sv token device = sv\<lparr>ae_others := (\<lambda>w. snd (Refresh sv token device w))\<rparr>"

lemma racing_simps [simp]:
  "ae_hasRoles (racing_service sv token d) = ae_hasRoles sv" "ae_collate (racing_service sv token d) = ae_collate sv"
  "ae_rand (racing_service sv token d) = ae_rand sv" "HashRefreshToken (racing_service sv token d) = HashRefreshToken sv"
  "IssueAccessToken (racing_service sv token d) = IssueAccessToken sv"
  by (simp_all add: fun_eq_iff racing_service_def HashRefreshToken_def IssueAccessToken_def)

lemma racing_quiet:
  "ae_others sv = id \<Longrightarrow> spent_token (HashRefreshToken sv token) s \<Longrightarrow> quiet_at (racing_service sv token device) s"
  by (simp add: quiet_at_def racing_service_def spent_changes_nothing)

text \<open>A refresh whose token is taken by another client between the read and the revocation still opens its session.\<close>

lemma Refresh_overtaken:
  fixes sv :: "'q account_service"
  defines "h \<equiv> \<lambda>token. HashRefreshToken sv token"
  assumes alone: "ae_others sv = id" and t: "TrimSpace token \<noteq> []" "live_token (h token) s t u"
    and theirs: "Refresh sv token d1 (s, q) = (r, (s1, q1))" and spent: "spent_token (h token) s1"
    and same: "us_users s1 = us_users s" "us_clock s1 = us_clock s"
    and mine: "issueSession (racing_service sv token d1) (mapUser u) (if d2 \<noteq> [] then d2 else rf_DeviceID t) [] []
       (without_token (h token) s1, q1) = w"
  shows "Refresh (racing_service sv token d1) token d2 (s, q) = w"
proof -
  let ?sv = "racing_service sv token d1"
  have hash: "HashRefreshToken sv token = h token" by (simp add: h_def)
  have read: "acct_read ?sv f (s, q) = (f s, (s1, q1))" for f :: "account_store \<Rightarrow> 'b res"
    using theirs by (simp add: acct_read_def call_def racing_service_def)
  have quiet: "quiet_at ?sv s1" "quiet_at ?sv (without_token (h token) s1)"
    using racing_quiet [OF alone] spent spent_without_token [OF spent] by (simp_all add: h_def)
  note now = acct_read_quiet [OF quiet(1)] acct_call_quiet [of "repo_RevokeRefreshToken (h token)" s1, OF _ quiet(2)]
  from t same have "repo_GetRefreshToken (h token) s = Inr t" "repo_GetUserByID (rf_UserID t) s1 = Inr (mapUser u)"
    "rf_RevokedAt t = None" "us_clock s1 < rf_ExpiresAt t" "ua_Status (mapUser u) = StatusActive"
    by (simp_all add: live_token_def repo_finds mapUser_def)
  with t(1) mine show ?thesis
    by (simp add: Refresh_def Let_def bind_act_simps map_fail_simps hash read now clock_act_def)
qed

text \<open>
  C40: Two refreshes with one token at the same time both succeed. The token is read in one call and revoked in a
  later one that does not look at what it changed. Take any service and any store on which a refresh
  with the token, run alone, opens a session: the token is live and its owner active. Let another client run that
  refresh between the read and the revocation of mine, and go on trying with the same token after each of my
  calls. If signing access tokens does not fail and my random token is not one whose hash the store has,
  my refresh opens a session too: the account gets two refresh tokens from one, with different hashes
  and both live.
\<close>

theorem refresh_race:
  assumes alone: "ae_others sv = id" and theirs: "Refresh sv token d1 (s, q) = (Inr their, (s1, q1))"
    and rand: "ae_rand sv q1 = (Inr text, q2)" and fresh: "\<forall>t \<in> set (us_tokens s1). rf_TokenHash t \<noteq> HashRefreshToken sv text"
    and signs: "\<forall>c. is_ok (ae_sign sv (ae_secret sv) c)"
  shows "\<exists>mine s2. Refresh (racing_service sv token d1) token d2 (s, q) = (Inr mine, (s2, q2))
     \<and> se_RefreshToken mine = text \<and> ua_ID (se_User mine) = ua_ID (se_User their)
     \<and> (\<exists>a \<in> set (us_tokens s2). \<exists>b \<in> set (us_tokens s2). rf_TokenHash a \<noteq> rf_TokenHash b
          \<and> rf_TokenHash a = HashRefreshToken sv (se_RefreshToken their) \<and> rf_TokenHash b = HashRefreshToken sv text
          \<and> rf_UserID a = ua_ID (se_User mine) \<and> rf_UserID b = ua_ID (se_User mine)
          \<and> rf_RevokedAt a = None \<and> rf_RevokedAt b = None)"
proof -
  let ?h = "HashRefreshToken sv token" and ?sv = "racing_service sv token d1"
  from Refresh_opened [OF alone theirs] obtain t u where t: "TrimSpace token \<noteq> []" "live_token ?h s t u"
    and issue: "issueSession sv (mapUser u) (if d1 \<noteq> [] then d1 else rf_DeviceID t) [] [] (without_token ?h s, q) = (Inr their, (s1, q1))" .
  have uid: "ua_ID (mapUser u) = uw_ID u" by (simp add: mapUser_def)
  from issueSession_opened [OF alone issue, unfolded uid] obtain xs theirToken where
    roles: "ae_hasRoles sv" and xs: "ListAccess (ae_collate sv) (uw_ID u) (without_token ?h s) = Inr xs"
    and access: "IssueAccessToken sv ((Anonymous [])\<lparr>ac_UserID := uw_ID u, ac_Roles := xs_Roles xs,
        ac_DeviceID := if d1 \<noteq> [] then d1 else rf_DeviceID t\<rparr>) (us_clock (without_token ?h s)) = Inr (se_AccessToken their)"
    and new: "\<forall>x \<in> set (us_tokens (without_token ?h s)). rf_TokenHash x \<noteq> HashRefreshToken sv theirToken"
    and s1: "s1 = with_token (session_token sv (uw_ID u) (HashRefreshToken sv theirToken) (if d1 \<noteq> [] then d1 else rf_DeviceID t)
        (without_token ?h s)) (without_token ?h s)"
    and their: "se_User their = session_user (mapUser u) xs" "se_RefreshToken their = theirToken" .
  let ?a = "session_token sv (uw_ID u) (HashRefreshToken sv theirToken) (if d1 \<noteq> [] then d1 else rf_DeviceID t) (without_token ?h s)"
  have found: "List.find (\<lambda>t. rf_TokenHash t = ?h) (us_tokens s) = Some t" using t(2) by (simp add: live_token_def)
  have spent: "spent_token ?h s1" unfolding s1 by (intro spent_with_token revoked_spent [OF found])
  have "?h \<in> rf_TokenHash ` set (us_tokens (without_token ?h s))"
    unfolding hashes_revoked using find_Some_set [OF found] by force
  then have differ: "HashRefreshToken sv theirToken \<noteq> ?h" using new by auto
  let ?s = "without_token ?h s1" and ?d = "if d2 \<noteq> [] then d2 else rf_DeviceID t"
  let ?b = "session_token ?sv (uw_ID u) (HashRefreshToken sv text) ?d ?s"
  have same: "us_users s1 = us_users s" "us_clock s1 = us_clock s" "us_users ?s = us_users s" "us_clock ?s = us_clock s"
    by (simp_all add: s1)
  have keep: "ListAccess (ae_collate sv) (uw_ID u) ?s = Inr xs"
    using xs ListAccess_cong [of ?s "without_token ?h s"] by (simp add: s1)
  obtain access2 where signed: "IssueAccessToken sv (session_actor (mapUser u) xs ?d) (us_clock s) = Inr access2"
  proof -
    from access have "ae_secret sv \<noteq> []" "Authenticated (session_actor (mapUser u) xs ?d)"
      by (auto simp: IssueAccessToken_def Authenticated_def uid split: if_splits)
    moreover obtain k where "ae_sign sv (ae_secret sv) \<lparr>cl_UserID = uw_ID u, cl_DeviceID = ?d,
        cl_ExpiresAt = us_clock s + ae_jwtTTL sv, cl_IssuedAt = us_clock s\<rparr> = Inr k"
      using signs by (metis is_ok.elims(2))
    ultimately show thesis using that by (simp add: IssueAccessToken_def mapUser_def)
  qed
  have "u \<in> set (us_users s)" using t(2) by (auto simp: live_token_def dest: find_Some_set)
  then have here: "\<exists>v \<in> set (us_users ?s). uw_ID v = uw_ID u" unfolding same(3) by blast
  have unused: "\<forall>x \<in> set (us_tokens ?s). rf_TokenHash x \<noteq> HashRefreshToken sv text"
    using fresh hashes_revoked [of ?h s1] by (metis imageE imageI)
  have quiet: "quiet_at ?sv ?s" "quiet_at ?sv (with_token ?b ?s)"
    by (intro racing_quiet [OF alone] spent_with_token spent_without_token spent)+
  have "issueSession ?sv (mapUser u) ?d [] [] (?s, q1) = (Inr \<lparr>se_User = session_user (mapUser u) xs, se_AccessToken = access2,
      se_RefreshToken = text, se_ExpiresIn = go_quot (ae_accessTTL ?sv) Second\<rparr>, (with_token ?b ?s, q2))"
    by (rule issueSession_opens [of ?sv "mapUser u" ?s xs q1 "text" q2 ?d access2, unfolded uid racing_simps,
          OF roles keep rand signed [unfolded uid, folded same(4)] here unused quiet])
  from Refresh_overtaken [OF alone t theirs spent same(1,2) this]
  have mine: "Refresh ?sv token d2 (s, q) = (Inr \<lparr>se_User = session_user (mapUser u) xs, se_AccessToken = access2,
      se_RefreshToken = text, se_ExpiresIn = go_quot (ae_accessTTL ?sv) Second\<rparr>, (with_token ?b ?s, q2))" .
  have a: "?a \<in> set (us_tokens (with_token ?b ?s))" using differ by (simp add: s1 update_rows_def)
  have b: "?b \<in> set (us_tokens (with_token ?b ?s))" by simp
  have "HashRefreshToken sv theirToken \<noteq> HashRefreshToken sv text" using fresh by (simp add: s1)
  then have tokens: "\<exists>a \<in> set (us_tokens (with_token ?b ?s)). \<exists>b \<in> set (us_tokens (with_token ?b ?s)).
      rf_TokenHash a \<noteq> rf_TokenHash b \<and> rf_TokenHash a = HashRefreshToken sv (se_RefreshToken their)
      \<and> rf_TokenHash b = HashRefreshToken sv text \<and> rf_UserID a = uw_ID u \<and> rf_UserID b = uw_ID u
      \<and> rf_RevokedAt a = None \<and> rf_RevokedAt b = None"
    by (intro bexI [OF _ a] bexI [OF _ b]) (simp add: their)
  show ?thesis
    by (rule exI, rule exI [of _ "with_token ?b ?s"], rule conjI, rule mine) (use tokens in \<open>simp add: uid their\<close>)
qed

theorem refresh_race_witness:
  "\<exists>mine s2. Refresh (racing_service sample_service ''t0'' []) ''t0'' [] (sample_session, 0) = (Inr mine, (s2, 2))
     \<and> (\<exists>a \<in> set (us_tokens s2). \<exists>b \<in> set (us_tokens s2). rf_TokenHash a = ''0'' \<and> rf_TokenHash b = ''1''
          \<and> rf_RevokedAt a = None \<and> rf_RevokedAt b = None)"
proof -
  let ?r = "Refresh sample_service ''t0'' [] (sample_session, 0)"
  have "is_ok (fst ?r)" "snd (snd ?r) = 1" by code_simp+
  then obtain their s1 where r: "?r = (Inr their, (s1, 1))" by (cases ?r; cases "fst ?r") auto
  have alone: "ae_others sample_service = id" and rand: "ae_rand sample_service 1 = (Inr ''1'', 2)"
    and signs: "\<forall>c. is_ok (ae_sign sample_service (ae_secret sample_service) c)"
    by (simp_all add: sample_service_def) code_simp
  have "\<forall>t \<in> set (us_tokens (fst (snd ?r))). rf_TokenHash t \<noteq> HashRefreshToken sample_service ''1''" by code_simp
  then have fresh: "\<forall>t \<in> set (us_tokens s1). rf_TokenHash t \<noteq> HashRefreshToken sample_service ''1''" by (simp add: r)
  have "map_res se_RefreshToken (fst ?r) = Inr ''0''" by code_simp
  then have "se_RefreshToken their = ''0''" by (simp add: r map_res_def)
  moreover have "HashRefreshToken sample_service x = x" for x by (simp add: HashRefreshToken_def sample_service_def)
  ultimately show ?thesis using refresh_race [OF alone r rand fresh signs, of "[]"] by metis
qed

subsection \<open>Registering and logging in\<close>

lemma GrantRole_users:
  "us_users (snd (repo_GrantRole uid role grantedBy reason s)) = us_users s"
  "us_tokens (snd (repo_GrantRole uid role grantedBy reason s)) = us_tokens s"
proof -
  have "us_users s' = us_users s \<and> us_tokens s' = us_tokens s" if "grant_role_tx uid role grantedBy r s = Inr (x, s')" for r x s'
    using that by (auto simp: grant_role_tx_def insert_assignment_def map_err_def account_audit_def audit_Insert_Inr tx_simps Let_def
        split: if_splits sum.splits)
  then show "us_users (snd (repo_GrantRole uid role grantedBy reason s)) = us_users s"
    and "us_tokens (snd (repo_GrantRole uid role grantedBy reason s)) = us_tokens s"
    by (auto simp: repo_GrantRole_def WithTx_def split: sum.splits prod.splits)
qed

lemma CreateUser_row:
  assumes "repo_CreateUser lower email hash username s = (Inr u, s')"
  obtains row where "us_users s' = us_users s @ [row]" "u = mapUser row" "uw_Email row = email" "uw_PasswordHash row = hash"
    "uw_Status row = StatusActive" "\<And>v. v \<in> set (us_users s) \<Longrightarrow> lower (uw_Email v) \<noteq> lower email"
  using assms
  by (auto simp: repo_CreateUser_def WithTx_def map_err_def q_CreateUser_def bind_tx_def check_tx_def unique_tx_def return_tx_def fail_tx_def
      map_res_def Let_def split: sum.splits prod.splits if_splits)

lemma find_past: "List.find P xs = None \<Longrightarrow> List.find P (xs @ ys) = List.find P ys"
  by (induction xs) (auto split: if_splits)

lemma Register_alone:
  assumes "ae_others sv = id" and "user_Register sv i (s, q) = (Inr session, (s', q'))"
  obtains hash q1 row s2 where "ri_Password i \<noteq> []" "ae_bcrypt sv (ri_Password i) q = (Inr hash, q1)"
    "normalizeEmail sv (ri_Email i) \<noteq> []" "us_users s2 = us_users s @ [row]"
    "uw_Email row = normalizeEmail sv (ri_Email i)" "uw_PasswordHash row = hash" "uw_Status row = StatusActive"
    "\<And>v. v \<in> set (us_users s) \<Longrightarrow> ae_dbLower sv (uw_Email v) \<noteq> ae_dbLower sv (normalizeEmail sv (ri_Email i))"
    "issueSession sv (mapUser row) (deviceID (ri_DeviceID i)) [] [] (s2, q1) = (Inr session, (s', q'))"
proof -
  let ?email = "normalizeEmail sv (ri_Email i)"
  note run = user_Register_def bind_act_simps requireRoleStore_def return_act_def local_act_def HashPassword_def Let_def
    map_fail_simps acct_call_alone [OF assms(1)]
  from assms(2) have given: "ae_hasRoles sv" "?email \<noteq> []" "TrimSpace (ri_Username i) \<noteq> []" "ri_Password i \<noteq> []"
    by (auto simp: user_Register_def bind_act_simps requireRoleStore_def return_act_def fail_act_def Let_def split: if_splits)
  obtain h q1 where h: "ae_bcrypt sv (ri_Password i) q = (h, q1)" by (cases "ae_bcrypt sv (ri_Password i) q")
  with assms(2) given obtain hash where hash: "h = Inr hash" by (cases h) (auto simp: run)
  obtain c s1 where c: "repo_CreateUser (ae_dbLower sv) ?email hash (TrimSpace (ri_Username i)) s = (c, s1)"
    by (cases "repo_CreateUser (ae_dbLower sv) ?email hash (TrimSpace (ri_Username i)) s")
  with assms(2) given h hash obtain u where u: "c = Inr u" by (cases c) (auto simp: run)
  obtain g s2 where g: "repo_GrantRole (ua_ID u) RoleUser None ''system registration'' s1 = (g, s2)"
    by (cases "repo_GrantRole (ua_ID u) RoleUser None ''system registration'' s1")
  with assms(2) given h hash c u obtain a where "g = Inr a" by (cases g) (auto simp: run)
  with assms(2) given h hash c u g have issue: "issueSession sv u (deviceID (ri_DeviceID i)) [] [] (s2, q1) = (Inr session, (s', q'))"
    by (simp add: run)
  have users: "us_users s2 = us_users s1"
    using GrantRole_users(1) [of "ua_ID u" RoleUser None "''system registration''" s1] g by simp
  from c u have "repo_CreateUser (ae_dbLower sv) ?email hash (TrimSpace (ri_Username i)) s = (Inr u, s1)" by simp
  then show thesis
    by (rule CreateUser_row) (use that [of hash q1 s2] given h hash users issue in auto)
qed

text \<open>
  C37: A registered account can log in. Take a registration that succeeded and with which no one
  interfered, and a later login whose address has the same normal form (spaces around it trimmed,
  then lower-cased by \<^verbatim>\<open>strings.ToLower\<close>, whatever that does to letters outside ASCII). Suppose that
  \<^verbatim>\<open>bcrypt\<close> matches every hash it made to its password, that signing access tokens does not fail and that the random
  token of the login is not one whose hash the store has. Then the password of the registration opens a session:
  for the same account with the same roles and permissions, with the new refresh token, whose hash is
  stored for the account and is live. A password that \<^verbatim>\<open>bcrypt\<close> does not match to the stored hash is
  refused with the error for invalid credentials and changes nothing.
\<close>

theorem register_then_login:
  assumes "ae_others sv = id"
    and bcrypt: "\<forall>p q h q'. ae_bcrypt sv p q = (Inr h, q') \<longrightarrow> h \<noteq> [] \<and> ae_compare sv h p"
    and signs: "\<forall>c. is_ok (ae_sign sv (ae_secret sv) c)"
    and "user_Register sv i (s, q) = (Inr session, (s', q'))"
    and same: "normalizeEmail sv (lg_Email l) = normalizeEmail sv (ri_Email i)"
    and rand: "ae_rand sv q1 = (Inr text, q2)" and fresh: "\<forall>t \<in> set (us_tokens s'). rf_TokenHash t \<noteq> HashRefreshToken sv text"
  shows "\<exists>u \<in> set (us_users s'). uw_ID u = ua_ID (se_User session)
     \<and> (lg_Password l = ri_Password i \<longrightarrow> (\<exists>again s2 t. Login sv l (s', q1) = (Inr again, (s2, q2))
          \<and> se_User again = se_User session \<and> se_RefreshToken again = text
          \<and> us_tokens s2 = us_tokens s' @ [t] \<and> rf_TokenHash t = HashRefreshToken sv text
          \<and> rf_UserID t = uw_ID u \<and> rf_RevokedAt t = None))
     \<and> (lg_Password l \<noteq> [] \<and> \<not> ae_compare sv (uw_PasswordHash u) (lg_Password l) \<longrightarrow>
          Login sv l (s', q1) = (fail invalidCredentials, (s', q1)))"
proof -
  let ?email = "normalizeEmail sv (ri_Email i)" and ?h = "HashRefreshToken sv text" and ?d = "deviceID (lg_DeviceID l)"
  from Register_alone [OF assms(1,4)] obtain hash q0 row s0 where r: "ri_Password i \<noteq> []"
    "ae_bcrypt sv (ri_Password i) q = (Inr hash, q0)" "?email \<noteq> []" "us_users s0 = us_users s @ [row]"
    "uw_Email row = ?email" "uw_PasswordHash row = hash" "uw_Status row = StatusActive"
    and unique: "\<And>v. v \<in> set (us_users s) \<Longrightarrow> ae_dbLower sv (uw_Email v) \<noteq> ae_dbLower sv ?email"
    and issue: "issueSession sv (mapUser row) (deviceID (ri_DeviceID i)) [] [] (s0, q0) = (Inr session, (s', q'))" by metis
  have uid: "ua_ID (mapUser row) = uw_ID row" by (simp add: mapUser_def)
  from issueSession_opened [OF assms(1) issue, unfolded uid] obtain xs token where roles: "ae_hasRoles sv"
    and xs: "ListAccess (ae_collate sv) (uw_ID row) s0 = Inr xs"
    and access: "IssueAccessToken sv ((Anonymous [])\<lparr>ac_UserID := uw_ID row, ac_Roles := xs_Roles xs,
        ac_DeviceID := deviceID (ri_DeviceID i)\<rparr>) (us_clock s0) = Inr (se_AccessToken session)"
    and s': "s' = with_token (session_token sv (uw_ID row) (HashRefreshToken sv token) (deviceID (ri_DeviceID i)) s0) s0"
    and session: "se_User session = session_user (mapUser row) xs" .
  have users: "us_users s' = us_users s @ [row]" using r(4) by (simp add: s')
  from unique have "List.find (\<lambda>u. ae_dbLower sv (uw_Email u) = ae_dbLower sv ?email) (us_users s) = None"
    by (auto simp: find_None_filter)
  then have "List.find (\<lambda>u. ae_dbLower sv (uw_Email u) = ae_dbLower sv ?email) (us_users s') = Some row"
    using users r(5) by (simp add: find_past)
  then have get: "repo_GetUserByEmail (ae_dbLower sv) ?email s' = Inr (mapUser row, hash)"
    using r(6) by (simp add: repo_GetUserByEmail_def WithTx_def map_err_def q_GetUserByEmail_def select_row_def map_res_def)
  have keep: "ListAccess (ae_collate sv) (ua_ID (mapUser row)) s' = Inr xs"
    using xs ListAccess_cong [of s' s0] uid by (simp add: s')
  obtain access2 where signed: "IssueAccessToken sv (session_actor (mapUser row) xs ?d) (us_clock s') = Inr access2"
  proof -
    from access have "ae_secret sv \<noteq> []" "Authenticated (session_actor (mapUser row) xs ?d)"
      by (auto simp: IssueAccessToken_def Authenticated_def uid split: if_splits)
    moreover obtain k where "ae_sign sv (ae_secret sv) \<lparr>cl_UserID = uw_ID row, cl_DeviceID = ?d,
        cl_ExpiresAt = us_clock s' + ae_jwtTTL sv, cl_IssuedAt = us_clock s'\<rparr> = Inr k"
      using signs by (metis is_ok.elims(2))
    ultimately show thesis using that by (simp add: IssueAccessToken_def uid)
  qed
  have "issueSession sv (mapUser row) ?d [] [] (s', q1) = (Inr \<lparr>se_User = session_user (mapUser row) xs, se_AccessToken = access2,
      se_RefreshToken = text, se_ExpiresIn = go_quot (ae_accessTTL sv) Second\<rparr>,
      (with_token (session_token sv (ua_ID (mapUser row)) ?h ?d s') s', q2))"
    by (rule issueSession_opens [OF roles keep rand signed]) (use users fresh quiet_alone [OF assms(1)] in \<open>auto simp: uid\<close>)
  then have opens: "Login sv l (s', q1) = (Inr \<lparr>se_User = session_user (mapUser row) xs, se_AccessToken = access2,
      se_RefreshToken = text, se_ExpiresIn = go_quot (ae_accessTTL sv) Second\<rparr>,
      (with_token (session_token sv (uw_ID row) ?h ?d s') s', q2))" if "lg_Password l = ri_Password i"
    using that r(1,3,7) get same bcrypt [rule_format, OF r(2)]
    by (simp add: Login_def Let_def bind_act_simps map_fail_simps acct_read_alone [OF assms(1)] VerifyPassword_def mapUser_def)
  moreover have "Login sv l (s', q1) = (fail invalidCredentials, (s', q1))"
    if "lg_Password l \<noteq> []" "\<not> ae_compare sv (uw_PasswordHash row) (lg_Password l)"
    using that r(3,6) get same
    by (simp add: Login_def Let_def bind_act_simps map_fail_simps acct_read_alone [OF assms(1)] VerifyPassword_def fail_act_def)
  ultimately show ?thesis using users session by (intro bexI [of _ row]) (auto simp: uid)
qed

definition sample_signup :: register_input where
  "sample_signup = \<lparr>ri_Email = '' Dot@Example.org'', ri_Username = ''dot'', ri_Password = ''open sesame'', ri_DeviceID = []\<rparr>"

theorem register_then_login_witness:
  "let w = snd (user_Register sample_service sample_signup (sample_accounts, 0))
   in is_ok (fst (Login sample_service \<lparr>lg_Email = ''dot@example.ORG'', lg_Password = ''open sesame'', lg_DeviceID = []\<rparr> (fst w, 7)))"
proof -
  let ?r = "user_Register sample_service sample_signup (sample_accounts, 0)"
  let ?l = "\<lparr>lg_Email = ''dot@example.ORG'', lg_Password = ''open sesame'', lg_DeviceID = []\<rparr>"
  have "is_ok (fst ?r)" by code_simp
  then obtain session s' q' where r: "?r = (Inr session, (s', q'))" by (cases ?r; cases "fst ?r") auto
  have alone: "ae_others sample_service = id" and bcrypt: "\<forall>p q h q'. ae_bcrypt sample_service p q = (Inr h, q') \<longrightarrow> h \<noteq> [] \<and> ae_compare sample_service h p"
    and signs: "\<forall>c. is_ok (ae_sign sample_service (ae_secret sample_service) c)"
    and rand: "ae_rand sample_service 7 = (Inr (FormatInt 7), 8)"
    by (auto simp: sample_service_def)
  have same: "normalizeEmail sample_service (lg_Email ?l) = normalizeEmail sample_service (ri_Email sample_signup)" by code_simp
  have "\<forall>t \<in> set (us_tokens (fst (snd ?r))). rf_TokenHash t \<noteq> HashRefreshToken sample_service (FormatInt 7)" by code_simp
  then have "\<forall>t \<in> set (us_tokens s'). rf_TokenHash t \<noteq> HashRefreshToken sample_service (FormatInt 7)" by (simp add: r)
  from register_then_login [OF alone bcrypt signs r same rand this] have
    "lg_Password ?l = ri_Password sample_signup \<longrightarrow> (\<exists>again s2. Login sample_service ?l (s', 7) = (Inr again, (s2, 8)))" by blast
  moreover have "lg_Password ?l = ri_Password sample_signup" by code_simp
  ultimately show ?thesis using r by auto
qed

subsection \<open>The listing of users\<close>

text \<open>A comparison by one key and then by another.\<close>

lemma lexicographic_swo:
  assumes "strict_weak_order lt1" and "strict_weak_order lt2"
  shows "strict_weak_order (\<lambda>x y. lt1 (f x) (f y) \<or> \<not> lt1 (f y) (f x) \<and> lt2 (g x) (g y))"
  using assms unfolding strict_weak_order_def by metis

lemma swo_null_last: "strict_weak_order collate \<Longrightarrow> strict_weak_order (null_last collate)"
proof -
  assume c: "strict_weak_order collate"
  have "\<not> null_last collate y x" if "null_last collate x y" for x y
    using that strict_weak_order.lt_asym [OF c] by (cases x; cases y) auto
  moreover have "null_last collate x y \<or> null_last collate y z" if "null_last collate x z" for x y z
    using that strict_weak_order.lt_cotrans [OF c] by (cases x; cases y; cases z) auto
  ultimately show "strict_weak_order (null_last collate)" unfolding strict_weak_order_def by blast
qed

lemma swo_access_order: "strict_weak_order collate \<Longrightarrow> strict_weak_order (access_order collate)"
  using lexicographic_swo [OF swo_null_last swo_null_last, of collate collate fst snd] by (simp add: access_order_def [abs_def])

lemma swo_page_order:
  assumes "strict_weak_order collate"
  shows "strict_weak_order (page_order collate)"
proof -
  have "page_order collate = (\<lambda>x y. fst x < fst y \<or> \<not> fst y < fst x \<and> access_order collate (snd x) (snd y))"
    by (auto simp: page_order_def fun_eq_iff)
  with lexicographic_swo [OF key_strict_weak_order [of "\<lambda>x. x"] swo_access_order [OF assms], of fst snd] show ?thesis by simp
qed

lemma sort_page: "sort_by (page_order collate) (map (Pair uid) xs) = map (Pair uid) (sort_by (access_order collate) xs)"
proof -
  have "insert_by (page_order collate) (uid, x) (map (Pair uid) ys) = map (Pair uid) (insert_by (access_order collate) x ys)" for x ys
    by (induction ys) (auto simp: page_order_def)
  then show ?thesis by (induction xs) auto
qed

lemma page_rows_of:
  assumes "distinct (map uw_ID users)" and "u \<in> set users" and "uw_ID u \<in> set ids"
  shows "filter (\<lambda>x. fst x = uw_ID u)
      (concat (map (\<lambda>u. map (Pair (uw_ID u)) (f (uw_ID u))) (filter (\<lambda>u. uw_ID u \<in> set ids) users))) = map (Pair (uw_ID u)) (f (uw_ID u))"
  using assms
proof (induction users)
  case (Cons v users)
  have none: "filter (\<lambda>x. fst x = uw_ID u)
      (concat (map (\<lambda>u. map (Pair (uw_ID u)) (f (uw_ID u))) (filter (\<lambda>u. uw_ID u \<in> set ids) users))) = []" if "uw_ID u \<notin> uw_ID ` set users"
    using that by (auto simp: filter_empty_conv) (metis imageI)
  show ?case
  proof (cases "v = u")
    case True
    with Cons.prems none show ?thesis by (auto simp: filter_map comp_def)
  next
    case False
    with Cons.prems have "uw_ID v \<noteq> uw_ID u" "u \<in> set users" by (auto dest: image_eqI)
    with Cons show ?thesis by (auto simp: filter_map comp_def)
  qed
qed simp

text \<open>The loop over rows that come user by user.\<close>

abbreviation rows_of :: "int64 \<Rightarrow> (int64 \<times> access_row) list \<Rightarrow> access_row list" where
  "rows_of uid rows \<equiv> map snd (filter (\<lambda>x. fst x = uid) rows)"

lemma fold_access_groups:
  assumes "sorted (map fst rows)" and "\<forall>x \<in> set rows. 0 < fst x \<and> current \<le> fst x" and "current = 0 \<longrightarrow> acc = no_access"
    and "fold_access rows current acc found = Inr m"
  shows "(current \<noteq> 0 \<longrightarrow> (\<exists>acc'. accumulate_all (rows_of current rows) acc = Inr acc' \<and> m current = Some (access_of acc')))
     \<and> (\<forall>uid. uid \<noteq> current \<longrightarrow> (if uid \<in> fst ` set rows
          then \<exists>acc'. accumulate_all (rows_of uid rows) no_access = Inr acc' \<and> m uid = Some (access_of acc') else m uid = found uid))"
  using assms
proof (induction rows arbitrary: current acc found)
  case (Cons x rows)
  obtain uid row where x: "x = (uid, row)" by (cases x)
  have rest: "sorted (map fst rows)" "\<forall>y \<in> set rows. 0 < fst y \<and> uid \<le> fst y" "uid \<noteq> 0" "uid = 0 \<longrightarrow> a = no_access" for a
    using Cons.prems(1,2) x by auto
  show ?case
  proof (cases "uid = current")
    case True
    with Cons.prems(4) x obtain acc1 where a: "accumulate row acc = Inr acc1" "fold_access rows uid acc1 found = Inr m" by auto
    from Cons.IH [OF rest(1,2) _ a(2)] rest(3) a(1) True x show ?thesis by auto
  next
    case False
    let ?found = "if current \<noteq> 0 then found(current \<mapsto> access_of acc) else found"
    from False Cons.prems(3,4) x obtain acc1 where a: "accumulate row no_access = Inr acc1" "fold_access rows uid acc1 ?found = Inr m"
      by (auto split: if_splits)
    have gone: "current \<notin> fst ` set rows" "rows_of current rows = []" using Cons.prems(1,2) x False by (force simp: filter_empty_conv)+
    from Cons.IH [OF rest(1,2) _ a(2)] rest(3) have
      one: "\<exists>acc'. accumulate_all (rows_of uid rows) acc1 = Inr acc' \<and> m uid = Some (access_of acc')"
      and others: "\<And>v. v \<noteq> uid \<Longrightarrow> if v \<in> fst ` set rows
          then \<exists>acc'. accumulate_all (rows_of v rows) no_access = Inr acc' \<and> m v = Some (access_of acc') else m v = ?found v" by auto
    from others [of current] False gone have "current \<noteq> 0 \<longrightarrow> m current = Some (access_of acc)" by auto
    moreover have "if v \<in> fst ` set (x # rows) then \<exists>acc'. accumulate_all (rows_of v (x # rows)) no_access = Inr acc' \<and> m v = Some (access_of acc')
        else m v = found v" if "v \<noteq> current" for v
      using others [of v] one a(1) x that by (cases "v = uid") (auto split: if_splits)
    moreover have "rows_of current (x # rows) = []" using gone x False by simp
    ultimately show ?thesis by (metis accumulate_all.simps(1))
  qed
qed auto

lemma access_rows_nonempty: "access_rows s uid \<noteq> []"
  by (auto simp: access_rows_def role_rows_def split: list.split)

text \<open>
  C38: The listing of users shows what requests are decided with: on a page of accounts, the roles and permissions
  that the one query for the whole page yields for an account are those that resolving the account as an actor yields.
\<close>

theorem page_access_agrees:
  assumes "strict_weak_order collate" and "distinct (map uw_ID (us_users s))" and "\<forall>u \<in> set (us_users s). 0 < uw_ID u"
    and "ListAccessForUsers collate ids s = Inr found" and "u \<in> set (us_users s)" and "uw_ID u \<in> set ids"
  shows "\<exists>st. ResolveActor collate (uw_ID u) s = Inr st \<and> as_Status st = uw_Status u
    \<and> found (uw_ID u) = Some \<lparr>xs_Roles = as_Roles st, xs_Permissions = as_Permissions st\<rparr>"
proof -
  let ?uid = "uw_ID u" and ?rows = "sort_by (page_order collate) (page_rows s ids)"
  have mem: "set ?rows = set (page_rows s ids)" by (metis mset_sort_by set_mset_mset)
  have own: "rows_of ?uid ?rows = sort_by (access_order collate) (access_rows s ?uid)"
    using page_rows_of [OF assms(2,5,6), of "access_rows s"]
    by (simp add: strict_weak_order.sort_by_filter [OF swo_page_order [OF assms(1)], symmetric] page_rows_def sort_page comp_def)
  then have "rows_of ?uid ?rows \<noteq> []" using access_rows_nonempty [of s ?uid] by (metis mset_sort_by mset_zero_iff_right mset_zero_iff)
  then have here: "?uid \<in> fst ` set ?rows" by (force simp: filter_empty_conv)
  have "sorted_wrt (\<lambda>x y. \<not> page_order collate y x) ?rows"
    using strict_weak_order.ordered_sort_by [OF swo_page_order [OF assms(1)]]
    by (simp add: strict_weak_order.ordered_def [OF swo_page_order [OF assms(1)]])
  then have sorted: "sorted (map fst ?rows)" by (auto simp: sorted_map page_order_def elim: sorted_wrt_mono_rel [rotated])
  have pos: "\<forall>x \<in> set ?rows. 0 < fst x \<and> 0 \<le> fst x" using assms(3) mem by (auto simp: page_rows_def)
  have "fold_access ?rows 0 no_access (\<lambda>_. None) = Inr found"
    using assms(4,6) by (auto simp: ListAccessForUsers_def split: if_splits)
  from fold_access_groups [OF sorted pos _ this] have "\<forall>uid. uid \<noteq> 0 \<longrightarrow> (if uid \<in> fst ` set ?rows
      then \<exists>acc. accumulate_all (rows_of uid ?rows) no_access = Inr acc \<and> found uid = Some (access_of acc) else found uid = None)"
    by blast
  moreover have positive: "0 < ?uid" using assms(3,5) by blast
  then have "?uid \<noteq> 0" by simp
  ultimately obtain acc where
    acc: "accumulate_all (rows_of ?uid ?rows) no_access = Inr acc" "found ?uid = Some (access_of acc)" using here by meson
  have "List.find (\<lambda>v. uw_ID v = ?uid) (us_users s) = Some u" by (rule find_by_key [OF assms(2,5)])
  with acc own positive show ?thesis by (simp add: ResolveActor_def)
qed

theorem page_access_agrees_witness:
  "\<exists>found st. ListAccessForUsers (<) [1, 3] sample_accounts = Inr found \<and> ResolveActor (<) 3 sample_accounts = Inr st
    \<and> found 3 = Some \<lparr>xs_Roles = as_Roles st, xs_Permissions = as_Permissions st\<rparr>"
proof -
  have lt: "strict_weak_order ((<) :: string \<Rightarrow> string \<Rightarrow> bool)" using key_strict_weak_order [of "\<lambda>x :: string. x"] by simp
  have "is_ok (ListAccessForUsers (<) [1, 3] sample_accounts)" by code_simp
  then obtain found where found: "ListAccessForUsers (<) [1, 3] sample_accounts = Inr found"
    by (cases "ListAccessForUsers (<) [1, 3] sample_accounts") auto
  have u: "us_users sample_accounts ! 2 \<in> set (us_users sample_accounts)" "uw_ID (us_users sample_accounts ! 2) = 3"
    "distinct (map uw_ID (us_users sample_accounts))" "\<forall>u \<in> set (us_users sample_accounts). 0 < uw_ID u"
    by (simp_all add: sample_accounts_def)
  from page_access_agrees [OF lt u(3,4) found u(1)] u(2) found show ?thesis by auto
qed

end
