(* ===== verification/Contest_Store.thy ===== *)
theory Contest_Store
  imports Accounts
begin

section \<open>Contest tables and repository (\<^verbatim>\<open>contests.sql.go\<close>, \<^verbatim>\<open>contest/repository.go\<close>, \<^verbatim>\<open>contest/roles.go\<close>)\<close>

text \<open>
  Contests, their problems, registrations, roles and stored scoreboards: the tables, the queries and the two
  repositories over them. Contests, contest problems and registrations are the rows the judging tables refer
  to; they are read and written there. A row of \<^verbatim>\<open>contests\<close> is a \<open>contest_record\<close> whose display fields are
  empty and whose absent invite code is the empty text; the JSON columns of a stored scoreboard are kept as
  the structures they are marshalled from.
\<close>

subsection \<open>Rows and the state\<close>

record contest_assignment_row =
  cz_ID :: int64
  cz_ContestID :: int64
  cz_UserID :: int64
  cz_Role :: Role
  cz_GrantedBy :: "int64 option"
  cz_GrantedAt :: time
  cz_RevokedAt :: "time option"

record contest_role_event =
  cw_ContestID :: int64
  cw_UserID :: int64
  cw_Role :: Role
  cw_ActorUserID :: int64
  cw_Action :: string
  cw_Reason :: string

record snapshot_row =
  hs_ID :: int64
  hs_ContestID :: int64
  hs_Kind :: string
  hs_Problems :: "contest_problem list"
  hs_SourceRevision :: int64
  hs_GeneratedAt :: time

record snapshot_line =
  hl_SnapshotID :: int64
  hl_Ordinal :: int32
  hl_Rank :: int32
  hl_UserID :: int64
  hl_DisplayName :: string
  hl_AcceptedCount :: int32
  hl_PenaltyMinutes :: int32
  hl_Cells :: "scoreboard_cell list"

text \<open>\<open>ch_problems\<close>: titles of problems; \<open>ch_usernames\<close>: names of users; \<open>ch_matrix\<close>: \<^verbatim>\<open>role_permissions\<close>.\<close>

record contest_store =
  ch_judging :: store
  ch_problems :: "(int64 \<times> string) list"
  ch_usernames :: "(int64 \<times> string) list"
  ch_matrix :: "(Role \<times> Permission) list"
  ch_assignments :: "contest_assignment_row list"
  ch_role_events :: "contest_role_event list"
  ch_audit :: "audit_row list"
  ch_snapshots :: "snapshot_row list"
  ch_lines :: "snapshot_line list"
  chq_contests :: int64
  chq_registrations :: int64
  chq_assignments :: int64
  chq_snapshots :: int64

type_synonym 'a ctx = "(contest_store, 'a) transaction"

abbreviation contests_of :: "contest_store \<Rightarrow> contest_record list" where "contests_of s \<equiv> db_contests (ch_judging s)"
abbreviation problems_of :: "contest_store \<Rightarrow> contest_problem list" where "problems_of s \<equiv> db_contest_problems (ch_judging s)"
abbreviation registrations_of :: "contest_store \<Rightarrow> contest_registration list" where "registrations_of s \<equiv> db_registrations (ch_judging s)"
abbreviation set_contests where "set_contests rows s \<equiv> s\<lparr>ch_judging := (ch_judging s)\<lparr>db_contests := rows\<rparr>\<rparr>"
abbreviation set_problems where "set_problems rows s \<equiv> s\<lparr>ch_judging := (ch_judging s)\<lparr>db_contest_problems := rows\<rparr>\<rparr>"
abbreviation set_registrations where "set_registrations rows s \<equiv> s\<lparr>ch_judging := (ch_judging s)\<lparr>db_registrations := rows\<rparr>\<rparr>"
abbreviation set_contest_audit where "set_contest_audit rows s \<equiv> s\<lparr>ch_audit := rows\<rparr>"
abbreviation contest_now :: "contest_store \<Rightarrow> time" where "contest_now s \<equiv> db_now (ch_judging s)"

text \<open>PostgreSQL's code for a violated foreign key is 23503.\<close>

definition foreign_tx :: "bool \<Rightarrow> string \<Rightarrow> ('s, unit) transaction" where
  "foreign_tx ok nm = (if ok then return_tx () else fail_tx (ErrText (''23503 '' @ nm)))"

fun foreign_violation :: "go_error \<Rightarrow> bool" where
  "foreign_violation (ErrText t) \<longleftrightarrow> take 5 t = ''23503''"
| "foreign_violation e \<longleftrightarrow> False"

lemma foreign_tx_Inr: "foreign_tx ok nm s = Inr (u, s') \<longleftrightarrow> ok \<and> s' = s"
  by (auto simp: foreign_tx_def return_tx_def fail_tx_def)

lemma keeps_foreign [keeps_intros]: "keeps view (foreign_tx ok nm)"
  by (simp add: keeps_def foreign_tx_Inr)

definition textValuePtr :: "string \<Rightarrow> string option" where
  "textValuePtr value = (if value = [] then None else Some value)"

definition int8ValuePtr :: "int64 \<Rightarrow> int64 option" where
  "int8ValuePtr value = (if value \<le> 0 then None else Some value)"

definition mapDBErr :: "go_error \<Rightarrow> go_error" where
  "mapDBErr e =
     (if e = ErrNoRows then AppErr (NotFound ''contest.not_found'' ''contest not found'')
      else if unique_violation e
      then (if e = ErrText ''23505 contest_registrations_contest_user_uidx''
            then AppErr (Conflict ''contest.registration_exists'' ''contest registration already exists'')
            else if e = ErrText ''23505 contest_problems_alias_uidx''
            then AppErr (Conflict ''contest.problem_alias_conflict'' ''contest problem alias must be unique'')
            else AppErr (Conflict ''contest.conflict'' ''contest conflict''))
      else if foreign_violation e then AppErr (NotFound ''contest.reference_not_found'' ''contest reference not found'')
      else e)"

subsection \<open>Contests\<close>

definition contest_constraints :: "contest_record \<Rightarrow> bool" where
  "contest_constraints c \<longleftrightarrow>
     ct_Visibility c \<in> {VisibilityPublic, VisibilityPrivate} \<and> validStatus (ct_Status c)
     \<and> ct_StartAt c < ct_EndAt c \<and> ct_StartAt c \<le> ct_FreezeAt c \<and> ct_FreezeAt c \<le> ct_EndAt c"

definition q_CreateContest :: "contest_record \<Rightarrow> contest_record ctx" where
  "q_CreateContest c = (\<lambda>s.
     let row = \<lparr>ct_ID = chq_contests s, ct_OwnerUserID = ct_OwnerUserID c, ct_Title = ct_Title c, ct_Description = ct_Description c,
                ct_Visibility = ct_Visibility c, ct_Status = ct_Status c, ct_StartAt = ct_StartAt c, ct_EndAt = ct_EndAt c,
                ct_FreezeAt = ct_FreezeAt c, ct_InviteCodeHash = ct_InviteCodeHash c, ct_ScoreRevision = 0, ct_Registered = False,
                ct_CurrentUserRoles = [], ct_Problems = [], ct_CreatedAt = contest_now s, ct_UpdatedAt = contest_now s\<rparr>
     in bind_tx (check_tx (contest_constraints row) ''contests_check'') (\<lambda>_.
        bind_tx (foreign_tx (ct_OwnerUserID row \<in> set (db_users (ch_judging s))) ''contests_owner_user_id_fkey'') (\<lambda>_ s.
          Inr (row, (set_contests (contests_of s @ [row]) s)\<lparr>chq_contests := chq_contests s + 1\<rparr>))) s)"

definition contest_by_id :: "int64 \<Rightarrow> contest_record ctx" where
  "contest_by_id cid = select_row contests_of (\<lambda>c. ct_ID c = cid)"

text \<open>\<^verbatim>\<open>UpdateContest\<close>: every column is kept unless the input has a value for it; an empty invite code is no value.\<close>

definition with_contest_fields :: "(string \<Rightarrow> string) \<Rightarrow> contest_update_input \<Rightarrow> time \<Rightarrow> contest_record \<Rightarrow> contest_record" where
  "with_contest_fields sha256hex i now c =
     c\<lparr>ct_Title := coalesce (contest_update_input.ui_Title i) (ct_Title c),
       ct_Description := (case contest_update_input.ui_Description i of None \<Rightarrow> ct_Description c | Some d \<Rightarrow> Some d),
       ct_Visibility := coalesce (contest_update_input.ui_Visibility i) (ct_Visibility c),
       ct_Status := coalesce (contest_update_input.ui_Status i) (ct_Status c),
       ct_StartAt := coalesce (contest_update_input.ui_StartAt i) (ct_StartAt c),
       ct_EndAt := coalesce (contest_update_input.ui_EndAt i) (ct_EndAt c),
       ct_FreezeAt := coalesce (contest_update_input.ui_FreezeAt i) (ct_FreezeAt c),
       ct_InviteCodeHash := coalesce (case contest_update_input.ui_InviteCode i of None \<Rightarrow> None | Some code \<Rightarrow> textValuePtr (hashInviteCode sha256hex code))
         (ct_InviteCodeHash c),
       ct_UpdatedAt := now\<rparr>"

definition q_UpdateContest :: "(string \<Rightarrow> string) \<Rightarrow> int64 \<Rightarrow> contest_update_input \<Rightarrow> contest_record ctx" where
  "q_UpdateContest sha256hex cid i = (\<lambda>s.
     bind_tx (update_row contests_of set_contests (\<lambda>c. ct_ID c = cid) (with_contest_fields sha256hex i (contest_now s))) (\<lambda>c.
     bind_tx (check_tx (contest_constraints c) ''contests_check'') (\<lambda>_. return_tx c)) s)"

definition q_ArchiveContest :: "int64 \<Rightarrow> contest_record ctx" where
  "q_ArchiveContest cid = (\<lambda>s.
     update_row contests_of set_contests (\<lambda>c. ct_ID c = cid)
       (\<lambda>c. c\<lparr>ct_Status := ContestArchived, ct_UpdatedAt := contest_now s\<rparr>) s)"

record list_contest_filter =
  cq_Status :: string
  cq_Visibility :: string
  cq_Keyword :: string
  cq_VisibleToUserID :: int64
  cq_VisibleToContestIDs :: "int64 list"
  cq_IncludePrivate :: bool
  cq_Page :: int32
  cq_PageSize :: int32
  cq_Limit :: int32
  cq_Offset :: int32
  cq_Cursor :: "(time \<times> int64) option"

definition active_registration :: "contest_store \<Rightarrow> int64 \<Rightarrow> int64 \<Rightarrow> bool" where
  "active_registration s cid uid \<longleftrightarrow>
     (\<exists>r \<in> set (registrations_of s). rg_ContestID r = cid \<and> rg_UserID r = uid \<and> rg_Status r = RegistrationActive)"

definition contest_visible :: "list_contest_filter \<Rightarrow> contest_store \<Rightarrow> contest_record \<Rightarrow> bool" where
  "contest_visible f s c \<longleftrightarrow>
     cq_IncludePrivate f \<or> ct_Visibility c = VisibilityPublic
     \<or> (case int8ValuePtr (cq_VisibleToUserID f) of
          None \<Rightarrow> False | Some uid \<Rightarrow> ct_OwnerUserID c = uid \<or> active_registration s (ct_ID c) uid)
     \<or> ct_ID c \<in> set (cq_VisibleToContestIDs f)"

definition contest_selected :: "(string \<Rightarrow> string \<Rightarrow> bool) \<Rightarrow> list_contest_filter \<Rightarrow> contest_store \<Rightarrow> contest_record \<Rightarrow> bool" where
  "contest_selected ilike f s c \<longleftrightarrow>
     absent_or (textValuePtr (cq_Status f)) (\<lambda>st. ct_Status c = st)
     \<and> absent_or (textValuePtr (cq_Visibility f)) (\<lambda>v. ct_Visibility c = v)
     \<and> absent_or (textValuePtr (cq_Keyword f)) (\<lambda>k. ilike (ct_Title c) k)
     \<and> contest_visible f s c"

definition contest_key :: "contest_record \<Rightarrow> time \<times> int64" where
  "contest_key c = (ct_StartAt c, ct_ID c)"

definition latest_contest_first :: "contest_record \<Rightarrow> contest_record \<Rightarrow> bool" where
  "latest_contest_first a b \<longleftrightarrow> later_key (contest_key a) (contest_key b)"

definition q_ListContests :: "(string \<Rightarrow> string \<Rightarrow> bool) \<Rightarrow> list_contest_filter \<Rightarrow> contest_store \<Rightarrow> contest_record list res" where
  "q_ListContests ilike f s =
     paged (cq_Offset f) (cq_Limit f) (sort_by latest_contest_first (filter (contest_selected ilike f s) (contests_of s)))"

definition q_CountContests :: "(string \<Rightarrow> string \<Rightarrow> bool) \<Rightarrow> list_contest_filter \<Rightarrow> contest_store \<Rightarrow> int64" where
  "q_CountContests ilike f s = int (length (filter (contest_selected ilike f s) (contests_of s)))"

text \<open>The cursor query does not select \<^verbatim>\<open>score_revision\<close>.\<close>

definition q_ListContestsByCursor ::
  "(string \<Rightarrow> string \<Rightarrow> bool) \<Rightarrow> list_contest_filter \<Rightarrow> time \<times> int64 \<Rightarrow> contest_store \<Rightarrow> contest_record list res" where
  "q_ListContestsByCursor ilike f before s =
     map_res (map (\<lambda>c. c\<lparr>ct_ScoreRevision := 0\<rparr>))
       (paged 0 (cq_Limit f) (sort_by latest_contest_first
         (filter (\<lambda>c. contest_selected ilike f s c \<and> later_key before (contest_key c)) (contests_of s))))"

subsection \<open>Problems and registrations of a contest\<close>

definition q_DeleteContestProblems :: "int64 \<Rightarrow> unit ctx" where
  "q_DeleteContestProblems cid = (\<lambda>s. Inr ((), set_problems (filter (\<lambda>p. cb_ContestID p \<noteq> cid) (problems_of s)) s))"

definition q_AddContestProblem :: "int64 \<Rightarrow> contest_problem \<Rightarrow> unit ctx" where
  "q_AddContestProblem cid p = (\<lambda>s.
     let here = filter (\<lambda>q. cb_ContestID q = cid) (problems_of s) in
     bind_tx (check_tx (sint (cb_SortOrder p) > 0) ''contest_problems_sort_order_check'') (\<lambda>_.
     bind_tx (unique_tx (\<forall>q \<in> set here. cb_ProblemID q \<noteq> cb_ProblemID p) ''contest_problems_pkey'') (\<lambda>_.
     bind_tx (unique_tx (\<forall>q \<in> set here. cb_Alias q \<noteq> cb_Alias p) ''contest_problems_alias_uidx'') (\<lambda>_.
     bind_tx (unique_tx (\<forall>q \<in> set here. cb_SortOrder q \<noteq> cb_SortOrder p) ''contest_problems_sort_uidx'') (\<lambda>_.
     bind_tx (foreign_tx ((\<exists>c \<in> set (contests_of s). ct_ID c = cid) \<and> cb_ProblemID p \<in> fst ` set (ch_problems s))
       ''contest_problems_fkey'') (\<lambda>_ s.
       Inr ((), set_problems (problems_of s @ [p\<lparr>cb_ContestID := cid, cb_Title := []\<rparr>]) s)))))) s)"

text \<open>\<^verbatim>\<open>ListContestProblems\<close> joins the title of the problem.\<close>

definition problem_title :: "contest_store \<Rightarrow> int64 \<Rightarrow> string" where
  "problem_title s pid = coalesce (map_of (ch_problems s) pid) []"

definition contest_problem_rows :: "int64 \<Rightarrow> contest_store \<Rightarrow> contest_problem list" where
  "contest_problem_rows cid s =
     map (\<lambda>p. p\<lparr>cb_Title := problem_title s (cb_ProblemID p)\<rparr>)
       (sort_by (\<lambda>a b. sint (cb_SortOrder a) < sint (cb_SortOrder b))
         (filter (\<lambda>p. cb_ContestID p = cid \<and> cb_ProblemID p \<in> fst ` set (ch_problems s)) (problems_of s)))"

definition q_CreateContestRegistration :: "int64 \<Rightarrow> int64 \<Rightarrow> string \<Rightarrow> string \<Rightarrow> contest_registration ctx" where
  "q_CreateContestRegistration cid uid displayName email = (\<lambda>s.
     let row = \<lparr>rg_ID = chq_registrations s, rg_ContestID = cid, rg_UserID = uid, rg_DisplayName = displayName, rg_Email = email,
                rg_Status = RegistrationActive, rg_RegisteredAt = contest_now s, rg_AcceptedCount = 0, rg_PenaltyMinutes = 0\<rparr>
     in bind_tx (unique_tx (\<forall>r \<in> set (registrations_of s). \<not> (rg_ContestID r = cid \<and> rg_UserID r = uid))
          ''contest_registrations_contest_user_uidx'') (\<lambda>_.
        bind_tx (foreign_tx ((\<exists>c \<in> set (contests_of s). ct_ID c = cid) \<and> uid \<in> set (db_users (ch_judging s)))
          ''contest_registrations_fkey'') (\<lambda>_ s.
          Inr (row, (set_registrations (registrations_of s @ [row]) s)\<lparr>chq_registrations := chq_registrations s + 1\<rparr>))) s)"

definition registration_row :: "int64 \<Rightarrow> int64 \<Rightarrow> contest_registration ctx" where
  "registration_row cid uid = select_row registrations_of (\<lambda>r. rg_ContestID r = cid \<and> rg_UserID r = uid)"

definition latest_registration_first :: "contest_registration \<Rightarrow> contest_registration \<Rightarrow> bool" where
  "latest_registration_first a b \<longleftrightarrow> later_key (rg_RegisteredAt a, rg_ID a) (rg_RegisteredAt b, rg_ID b)"

definition q_ListContestRegistrations :: "int64 \<Rightarrow> int32 \<Rightarrow> int32 \<Rightarrow> contest_store \<Rightarrow> contest_registration list res" where
  "q_ListContestRegistrations cid limit_n offset s =
     paged offset limit_n (sort_by latest_registration_first (filter (\<lambda>r. rg_ContestID r = cid) (registrations_of s)))"

definition result_order :: "contest_problem_result \<Rightarrow> contest_problem_result \<Rightarrow> bool" where
  "result_order a b \<longleftrightarrow> cpr_UserID a < cpr_UserID b \<or> cpr_UserID a = cpr_UserID b \<and> cpr_ProblemID a < cpr_ProblemID b"

definition q_ListContestProblemResults :: "int64 \<Rightarrow> contest_store \<Rightarrow> contest_problem_result list" where
  "q_ListContestProblemResults cid s =
     sort_by result_order (filter (\<lambda>r. cpr_ContestID r = cid) (map pr_Result (db_problem_results (ch_judging s))))"

definition submission_of_row :: "submission_row \<Rightarrow> contest_submission_result" where
  "submission_of_row r =
     \<lparr>cs_ID = su_ID r, cs_ContestID = coalesce (su_ContestID r) 0, cs_UserID = su_UserID r, cs_ProblemID = su_ProblemID r,
      cs_Status = su_Status r, cs_SubmittedAt = su_SubmittedAt r, cs_JudgedAt = coalesce (su_JudgedAt r) 0,
      cs_FirstJudgedAt = su_FirstJudgedAt r\<rparr>"

definition q_ListContestTerminalSubmissions :: "int64 \<Rightarrow> contest_store \<Rightarrow> submission_row list" where
  "q_ListContestTerminalSubmissions cid s =
     sort_by (\<lambda>a b. su_SubmittedAt a < su_SubmittedAt b \<or> su_SubmittedAt a = su_SubmittedAt b \<and> su_ID a < su_ID b)
       (filter (\<lambda>r. su_ContestID r = Some cid \<and> su_JudgedAt r \<noteq> None \<and> terminalStatus (su_Status r)) (db_submissions (ch_judging s)))"

subsection \<open>Stored scoreboards\<close>

definition q_CreateContestScoreSnapshot :: "int64 \<Rightarrow> string \<Rightarrow> contest_problem list \<Rightarrow> int64 \<Rightarrow> snapshot_row ctx" where
  "q_CreateContestScoreSnapshot cid kind problems revision = (\<lambda>s.
     let row = \<lparr>hs_ID = chq_snapshots s, hs_ContestID = cid, hs_Kind = kind, hs_Problems = problems, hs_SourceRevision = revision,
                hs_GeneratedAt = contest_now s\<rparr>
     in bind_tx (check_tx (kind \<in> {ScoreboardViewLive, ScoreboardViewFrozen, ScoreboardViewFinal}) ''contest_score_snapshots_kind_check'') (\<lambda>_.
        bind_tx (\<lambda>s. if \<exists>h \<in> set (ch_snapshots s). hs_ContestID h = cid \<and> hs_Kind h = kind \<and> hs_SourceRevision h = revision
                      then Inl ErrNoRows else Inr ((), s)) (\<lambda>_.
        bind_tx (foreign_tx (\<exists>c \<in> set (contests_of s). ct_ID c = cid) ''contest_score_snapshots_contest_id_fkey'') (\<lambda>_ s.
          Inr (row, s\<lparr>ch_snapshots := ch_snapshots s @ [row], chq_snapshots := chq_snapshots s + 1\<rparr>)))) s)"

definition q_GetContestScoreSnapshotByKey :: "int64 \<Rightarrow> string \<Rightarrow> int64 \<Rightarrow> snapshot_row ctx" where
  "q_GetContestScoreSnapshotByKey cid kind revision =
     select_row ch_snapshots (\<lambda>h. hs_ContestID h = cid \<and> hs_Kind h = kind \<and> hs_SourceRevision h = revision)"

definition newest_snapshot_first :: "snapshot_row \<Rightarrow> snapshot_row \<Rightarrow> bool" where
  "newest_snapshot_first a b \<longleftrightarrow> later_key (hs_GeneratedAt a, hs_ID a) (hs_GeneratedAt b, hs_ID b)"

definition q_GetLatestContestScoreSnapshot :: "int64 \<Rightarrow> string \<Rightarrow> snapshot_row ctx" where
  "q_GetLatestContestScoreSnapshot cid kind = (\<lambda>s.
     case sort_by newest_snapshot_first (filter (\<lambda>h. hs_ContestID h = cid \<and> hs_Kind h = kind) (ch_snapshots s)) of
       [] \<Rightarrow> Inl ErrNoRows | h # _ \<Rightarrow> Inr (h, s))"

definition q_CreateContestScoreSnapshotRow :: "int64 \<Rightarrow> int32 \<Rightarrow> scoreboard_row \<Rightarrow> unit ctx" where
  "q_CreateContestScoreSnapshotRow sid ordinal r = (\<lambda>s.
     let here = filter (\<lambda>l. hl_SnapshotID l = sid) (ch_lines s) in
     bind_tx (check_tx (sint ordinal > 0 \<and> sint (row_Rank r) > 0 \<and> sint (row_AcceptedCount r) \<ge> 0 \<and> sint (row_PenaltyMinutes r) \<ge> 0)
       ''contest_score_snapshot_rows_check'') (\<lambda>_.
     bind_tx (unique_tx (\<forall>l \<in> set here. hl_Ordinal l \<noteq> ordinal) ''contest_score_snapshot_rows_pkey'') (\<lambda>_.
     bind_tx (unique_tx (\<forall>l \<in> set here. hl_UserID l \<noteq> row_UserID r) ''contest_score_snapshot_rows_snapshot_id_user_id_key'') (\<lambda>_.
     bind_tx (foreign_tx ((\<exists>h \<in> set (ch_snapshots s). hs_ID h = sid) \<and> row_UserID r \<in> set (db_users (ch_judging s)))
       ''contest_score_snapshot_rows_fkey'') (\<lambda>_ s.
       Inr ((), s\<lparr>ch_lines := ch_lines s @ [\<lparr>hl_SnapshotID = sid, hl_Ordinal = ordinal, hl_Rank = row_Rank r, hl_UserID = row_UserID r,
         hl_DisplayName = row_DisplayName r, hl_AcceptedCount = row_AcceptedCount r, hl_PenaltyMinutes = row_PenaltyMinutes r,
         hl_Cells = row_Cells r\<rparr>]\<rparr>))))) s)"

definition q_ListContestScoreSnapshotRows :: "int64 \<Rightarrow> int32 \<Rightarrow> int32 \<Rightarrow> contest_store \<Rightarrow> snapshot_line list res" where
  "q_ListContestScoreSnapshotRows sid afterOrdinal limit_n s =
     paged 0 limit_n (sort_by (\<lambda>a b. sint (hl_Ordinal a) < sint (hl_Ordinal b))
       (filter (\<lambda>l. hl_SnapshotID l = sid \<and> sint (hl_Ordinal l) > sint afterOrdinal) (ch_lines s)))"

text \<open>
  The scoreboards that are due: the frozen one once, from the freeze on; the final one when the contest is over
  and no judging of it is open, and again when the scores changed since.
\<close>

definition scored_status :: "string \<Rightarrow> bool" where
  "scored_status st \<longleftrightarrow> st \<in> {ContestPublished, ContestRunning, ContestEnded}"

definition judging_open :: "store \<Rightarrow> int64 \<Rightarrow> bool" where
  "judging_open d cid \<longleftrightarrow>
     (\<exists>r \<in> set (db_submissions d). su_ContestID r = Some cid
        \<and> (su_Status r \<in> {StatusQueued, StatusRunning}
           \<or> (\<exists>t \<in> set (db_tasks d). ta_SubmissionID t = Some (su_ID r)
                \<and> ta_Status t \<in> {''pending'', ''dispatching'', ''dispatched'', ''running''})))
     \<or> (\<exists>b \<in> set (db_batches d). ba_ContestID b = Some cid \<and> ba_Status b \<in> {''queued'', ''running''})"

definition snapshots_for :: "contest_store \<Rightarrow> int64 \<Rightarrow> string \<Rightarrow> snapshot_row list" where
  "snapshots_for s cid kind = filter (\<lambda>h. hs_ContestID h = cid \<and> hs_Kind h = kind) (ch_snapshots s)"

definition frozen_due :: "contest_store \<Rightarrow> time \<Rightarrow> contest_record \<Rightarrow> bool" where
  "frozen_due s now c \<longleftrightarrow>
     scored_status (ct_Status c) \<and> ct_FreezeAt c \<le> now \<and> snapshots_for s (ct_ID c) ScoreboardViewFrozen = []"

definition final_due :: "contest_store \<Rightarrow> time \<Rightarrow> contest_record \<Rightarrow> bool" where
  "final_due s now c \<longleftrightarrow>
     scored_status (ct_Status c) \<and> ct_EndAt c \<le> now \<and> \<not> judging_open (ch_judging s) (ct_ID c)
     \<and> (let finals = snapshots_for s (ct_ID c) ScoreboardViewFinal in
        finals = [] \<or> (\<exists>r \<in> set (registrations_of s). rg_ContestID r = ct_ID c)
          \<and> ct_ScoreRevision c > foldr max (map hs_SourceRevision finals) (hs_SourceRevision (hd finals)))"

definition due_before :: "contest_record \<times> ScoreboardView \<Rightarrow> contest_record \<times> ScoreboardView \<Rightarrow> bool" where
  "due_before x y \<longleftrightarrow>
     (let due = (\<lambda>(c, view). if view = ScoreboardViewFrozen then ct_FreezeAt c else ct_EndAt c);
          a = (due x, ct_ID (fst x)); b = (due y, ct_ID (fst y))
      in later_key b a \<or> a = b \<and> snd x < snd y)"

definition q_ListContestScoreSnapshotCandidates ::
  "time \<Rightarrow> int32 \<Rightarrow> contest_store \<Rightarrow> (contest_record \<times> ScoreboardView) list res" where
  "q_ListContestScoreSnapshotCandidates now limit_n s =
     paged 0 limit_n (sort_by due_before
       (map (\<lambda>c. (c, ScoreboardViewFrozen)) (filter (frozen_due s now) (contests_of s))
        @ map (\<lambda>c. (c, ScoreboardViewFinal)) (filter (final_due s now) (contests_of s))))"

subsection \<open>The repository (\<^verbatim>\<open>contest/repository.go\<close>)\<close>

definition read_tx :: "('s, 'a) transaction \<Rightarrow> 's \<Rightarrow> 'a res" where
  "read_tx m s = (case m s of Inl e \<Rightarrow> Inl e | Inr (x, _) \<Rightarrow> Inr x)"

definition map_res_err :: "(go_error \<Rightarrow> go_error) \<Rightarrow> 'a res \<Rightarrow> 'a res" where
  "map_res_err f r = (case r of Inl e \<Rightarrow> Inl (f e) | Inr x \<Rightarrow> Inr x)"

definition createContest :: "contest_record \<Rightarrow> contest_record ctx" where
  "createContest c = map_err mapDBErr (q_CreateContest c)"

definition repo_GetContest :: "int64 \<Rightarrow> contest_store \<Rightarrow> contest_record res" where
  "repo_GetContest cid = read_tx (map_err mapDBErr (contest_by_id cid))"

definition listContests :: "(string \<Rightarrow> string \<Rightarrow> bool) \<Rightarrow> list_contest_filter \<Rightarrow> contest_store \<Rightarrow> (contest_record list \<times> int64) res" where
  "listContests ilike f s = map_res (\<lambda>rows. (rows, q_CountContests ilike f s)) (map_res_err mapDBErr (q_ListContests ilike f s))"

abbreviation first_contest_cursor :: "time \<times> int64" where "first_contest_cursor \<equiv> (far_future, 2 ^ 63 - 1)"

definition listContestsByCursor :: "(string \<Rightarrow> string \<Rightarrow> bool) \<Rightarrow> list_contest_filter \<Rightarrow> contest_store \<Rightarrow> contest_record list res" where
  "listContestsByCursor ilike f s =
     map_res_err mapDBErr (q_ListContestsByCursor ilike f (coalesce (cq_Cursor f) first_contest_cursor) s)"

definition updateContest :: "(string \<Rightarrow> string) \<Rightarrow> int64 \<Rightarrow> contest_update_input \<Rightarrow> contest_record ctx" where
  "updateContest sha256hex cid input = map_err mapDBErr (q_UpdateContest sha256hex cid input)"

definition repo_ArchiveContest :: "int64 \<Rightarrow> contest_record ctx" where
  "repo_ArchiveContest cid = map_err mapDBErr (q_ArchiveContest cid)"

definition replaceContestProblems :: "int64 \<Rightarrow> contest_problem list \<Rightarrow> unit ctx" where
  "replaceContestProblems cid problems =
     bind_tx (map_err mapDBErr (q_DeleteContestProblems cid)) (\<lambda>_.
     bind_tx (mapM_tx (\<lambda>p. map_err mapDBErr (q_AddContestProblem cid p)) problems) (\<lambda>_. return_tx ()))"

definition createRegistration :: "contest_registration \<Rightarrow> contest_registration ctx" where
  "createRegistration r =
     map_err mapDBErr (q_CreateContestRegistration (rg_ContestID r) (rg_UserID r) (rg_DisplayName r) (rg_Email r))"

definition repo_GetRegistration :: "int64 \<Rightarrow> int64 \<Rightarrow> contest_store \<Rightarrow> contest_registration res" where
  "repo_GetRegistration cid uid = read_tx (map_err mapDBErr (registration_row cid uid))"

lemma offset_grows:
  assumes "0 \<le> sint (offset :: int32)" and "0 \<le> sint (offset + 1000)"
  shows "sint (offset + 1000) = sint offset + 1000"
proof -
  let ?k = "sint offset + 1000 + 2147483648"
  have b: "sint offset < 2147483648" using sint_lt [of offset] by simp
  have eq: "sint (offset + 1000) = ?k mod 4294967296 - 2147483648"
    by (simp add: sint_word_ariths(1) signed_take_bit_eq_take_bit_shift take_bit_eq_mod)
  show ?thesis
  proof (cases "?k < 4294967296")
    case True
    with assms have "?k mod 4294967296 = ?k" by (intro mod_pos_pos_trivial) simp_all
    with eq show ?thesis by simp
  next
    case False
    have "?k mod 4294967296 = (?k - 4294967296) mod 4294967296" by (rule minus_mod_self2 [symmetric])
    also have "\<dots> = ?k - 4294967296" using False b by (intro mod_pos_pos_trivial) simp_all
    finally show ?thesis using eq assms b by simp
  qed
qed

text \<open>
  \<^verbatim>\<open>listRegistrations\<close> reads pages of 1000 until one is not full, each in a call of its own. The offset is 32 bits wide:
  past its end it is negative, which the database refuses.
\<close>

function list_registrations_from :: "(contest_store \<Rightarrow> contest_store) \<Rightarrow> int64 \<Rightarrow> int32 \<Rightarrow> (contest_store, contest_registration list) action" where
  "list_registrations_from others cid offset s =
     (case q_ListContestRegistrations cid 1000 offset s of
        Inl e \<Rightarrow> (Inl (mapDBErr e), others s)
      | Inr rows \<Rightarrow>
          if length rows < 1000 then (Inr rows, others s)
          else (case list_registrations_from others cid (offset + 1000) (others s) of (r, s') \<Rightarrow> (map_res (append rows) r, s')))"
  by pat_completeness auto

termination
proof (relation "measure (\<lambda>(others, cid, offset, s). if sint offset < 0 then 0 else Suc (nat (2 ^ 31 - sint offset)))", goal_cases)
  case (2 others cid offset s rows)
  then have "0 \<le> sint offset" by (auto simp: q_ListContestRegistrations_def paged_def split: if_splits)
  moreover have "sint offset < 2 ^ 31" using sint_lt [of offset] by simp
  ultimately show ?case using offset_grows [of offset] by (cases "sint (offset + 1000) < 0") auto
qed simp

definition listRegistrations :: "(contest_store \<Rightarrow> contest_store) \<Rightarrow> int64 \<Rightarrow> (contest_store, contest_registration list) action" where
  "listRegistrations others cid = list_registrations_from others cid 0"

definition listProblemResults :: "int64 \<Rightarrow> contest_store \<Rightarrow> contest_problem_result list res" where
  "listProblemResults cid s = Inr (q_ListContestProblemResults cid s)"

definition listTerminalSubmissions :: "int64 \<Rightarrow> contest_store \<Rightarrow> contest_submission_result list res" where
  "listTerminalSubmissions cid s = Inr (map submission_of_row (q_ListContestTerminalSubmissions cid s))"

definition listScoreSnapshotCandidates :: "time \<Rightarrow> int32 \<Rightarrow> contest_store \<Rightarrow> (contest_record \<times> ScoreboardView) list res" where
  "listScoreSnapshotCandidates now limit_n s =
     map_res_err mapDBErr (q_ListContestScoreSnapshotCandidates now (if sint limit_n \<le> 0 then 100 else limit_n) s)"

record scoreboard_snapshot =
  sh_ID :: int64
  sh_ContestID :: int64
  sh_View :: ScoreboardView
  sh_Board :: scoreboard_response
  sh_Problems :: "contest_problem list"
  sh_Rows :: "scoreboard_row list"
  sh_SourceRevision :: int64
  sh_GeneratedAt :: time
  sh_Created :: bool

abbreviation no_board :: scoreboard_response where
  "no_board \<equiv> \<lparr>sr_ContestID = 0, sr_View = [], sr_GeneratedAt = 0, sr_Problems = [], sr_Rows = [], sr_NextCursor = None\<rparr>"

definition snapshotRowsFromDB :: "snapshot_line list \<Rightarrow> scoreboard_row list" where
  "snapshotRowsFromDB rows =
     map (\<lambda>l. \<lparr>row_Rank = hl_Rank l, row_UserID = hl_UserID l, row_DisplayName = hl_DisplayName l,
               row_AcceptedCount = hl_AcceptedCount l, row_PenaltyMinutes = hl_PenaltyMinutes l, row_Cells = hl_Cells l\<rparr>) rows"

definition loadScoreSnapshot :: "snapshot_row \<Rightarrow> contest_store \<Rightarrow> scoreboard_snapshot res" where
  "loadScoreSnapshot h s =
     map_res (\<lambda>lines. let rows = snapshotRowsFromDB lines in
       \<lparr>sh_ID = hs_ID h, sh_ContestID = hs_ContestID h, sh_View = hs_Kind h,
        sh_Board = \<lparr>sr_ContestID = hs_ContestID h, sr_View = hs_Kind h, sr_GeneratedAt = hs_GeneratedAt h, sr_Problems = hs_Problems h,
                    sr_Rows = rows, sr_NextCursor = None\<rparr>,
        sh_Problems = hs_Problems h, sh_Rows = rows, sh_SourceRevision = hs_SourceRevision h, sh_GeneratedAt = hs_GeneratedAt h,
        sh_Created = False\<rparr>) (q_ListContestScoreSnapshotRows (hs_ID h) 0 (2 ^ 30) s)"

definition createScoreSnapshot :: "scoreboard_snapshot \<Rightarrow> scoreboard_snapshot ctx" where
  "createScoreSnapshot snapshot =
     bind_tx (or_no_rows (map_err (\<lambda>e. if e = ErrNoRows then e else mapDBErr e)
       (q_CreateContestScoreSnapshot (sh_ContestID snapshot) (sh_View snapshot) (sh_Problems snapshot) (sh_SourceRevision snapshot)))) (\<lambda>created.
     case created of
       None \<Rightarrow>
         bind_tx (map_err mapDBErr (q_GetContestScoreSnapshotByKey (sh_ContestID snapshot) (sh_View snapshot) (sh_SourceRevision snapshot))) (\<lambda>existing s.
           case loadScoreSnapshot existing s of Inl e \<Rightarrow> Inl e | Inr result \<Rightarrow> Inr (result\<lparr>sh_Created := False\<rparr>, s))
     | Some row \<Rightarrow>
         bind_tx (mapM_tx (\<lambda>(i, r). q_CreateContestScoreSnapshotRow (hs_ID row) (of_nat (i + 1)) r) (enumerate 0 (sh_Rows snapshot))) (\<lambda>_.
           return_tx (snapshot\<lparr>sh_ID := hs_ID row, sh_ContestID := hs_ContestID row, sh_View := hs_Kind row,
             sh_SourceRevision := hs_SourceRevision row, sh_GeneratedAt := hs_GeneratedAt row, sh_Created := True\<rparr>)))"

definition latestScoreSnapshot :: "int64 \<Rightarrow> ScoreboardView \<Rightarrow> contest_store \<Rightarrow> scoreboard_snapshot res" where
  "latestScoreSnapshot cid view s =
     bind_res (read_tx (map_err mapDBErr (q_GetLatestContestScoreSnapshot cid view)) s) (\<lambda>row. loadScoreSnapshot row s)"

text \<open>A page of the latest snapshot: the snapshot with the rows of the page, and whether the page is full.\<close>

definition loadScoreSnapshotPage ::
  "int64 \<Rightarrow> ScoreboardView \<Rightarrow> int32 \<Rightarrow> int32 \<Rightarrow> contest_store \<Rightarrow> (scoreboard_snapshot \<times> bool) res" where
  "loadScoreSnapshotPage cid view afterOrdinal limit_n s =
     bind_res (read_tx (map_err mapDBErr (q_GetLatestContestScoreSnapshot cid view)) s) (\<lambda>header.
     bind_res (map_res_err mapDBErr (q_ListContestScoreSnapshotRows (hs_ID header) afterOrdinal limit_n s)) (\<lambda>lines.
       let rows = snapshotRowsFromDB lines in
       Inr (\<lparr>sh_ID = hs_ID header, sh_ContestID = hs_ContestID header, sh_View = hs_Kind header, sh_Board = no_board,
             sh_Problems = hs_Problems header, sh_Rows = rows, sh_SourceRevision = hs_SourceRevision header,
             sh_GeneratedAt = hs_GeneratedAt header, sh_Created = False\<rparr>, int (length rows) = sint limit_n)))"

end
