(* ===== verification/Contest_Service.thy ===== *)
theory Contest_Service
  imports Contest_Store Account_Service
begin

section \<open>Contest roles, authoring, listings and stored scoreboards (\<^verbatim>\<open>internal/contest\<close>)\<close>

text \<open>
  The contest service: authoring, registration, roles inside a contest, listings, and the scoreboard with its
  stored snapshots. The operations make several calls, with other processes in between; the reads that one
  helper of the reader makes in a row are one call. The reader of an open transaction runs outside it and sees
  what was committed before.
\<close>

subsection \<open>Roles inside a contest (\<^verbatim>\<open>contest/roles.go\<close>)\<close>

definition mapContestRoleDBError :: "go_error \<Rightarrow> go_error" where
  "mapContestRoleDBError e =
     (if unique_violation e then AppErr (Conflict ''contest.role_exists'' ''contest role is already assigned'')
      else if foreign_violation e then AppErr (NotFound ''contest.role_target_not_found'' ''contest or user not found'')
      else e)"

abbreviation held :: "contest_assignment_row \<Rightarrow> bool" where "held a \<equiv> cz_RevokedAt a = None"

definition ListContestIDs :: "int64 \<Rightarrow> contest_store \<Rightarrow> int64 list" where
  "ListContestIDs uid s =
     (if uid \<le> 0 then [] else sort_by (<) (remdups (map cz_ContestID (filter (\<lambda>a. cz_UserID a = uid \<and> held a) (ch_assignments s)))))"

text \<open>The join of the assignments with the permissions of their roles, where a role without permissions has one row.\<close>

definition contest_access_rows :: "contest_store \<Rightarrow> int64 \<Rightarrow> int64 \<Rightarrow> access_row list" where
  "contest_access_rows s cid uid =
     concat (map (\<lambda>a. case filter (\<lambda>(r, p). r = cz_Role a) (ch_matrix s) of
         [] \<Rightarrow> [(Some (cz_Role a), None)] | ps \<Rightarrow> map (\<lambda>(r, p). (Some (cz_Role a), Some p)) ps)
       (filter (\<lambda>a. cz_ContestID a = cid \<and> cz_UserID a = uid \<and> held a) (ch_assignments s)))"

definition add_contest_row :: "access_row \<Rightarrow> contest_access \<Rightarrow> contest_access res" where
  "add_contest_row row acc =
     (let roleCode = coalesce (fst row) [] in
      case ParseRole roleCode of
        Inl _ \<Rightarrow> Inl (ErrText (''invalid contest role assignment '' @ roleCode))
      | Inr role \<Rightarrow>
          if \<not> IsContestRole role then Inl (ErrText (''invalid contest role assignment '' @ roleCode))
          else let acc1 = (if acc_Roles acc = [] \<or> last (acc_Roles acc) \<noteq> role
                           then acc\<lparr>acc_Roles := acc_Roles acc @ [role]\<rparr> else acc)
               in case snd row of
                    None \<Rightarrow> Inr acc1
                  | Some code \<Rightarrow>
                      if Lookup code = None then Inl (ErrText (''invalid permission assignment '' @ code))
                      else Inr (acc1\<lparr>acc_Permissions := acc_Permissions acc1 @ [code]\<rparr>))"

fun add_contest_rows :: "access_row list \<Rightarrow> contest_access \<Rightarrow> contest_access res" where
  "add_contest_rows [] acc = Inr acc"
| "add_contest_rows (row # rows) acc = bind_res (add_contest_row row acc) (add_contest_rows rows)"

definition ListContestAccess :: "(string \<Rightarrow> string \<Rightarrow> bool) \<Rightarrow> int64 \<Rightarrow> int64 \<Rightarrow> contest_store \<Rightarrow> contest_access res" where
  "ListContestAccess collate cid uid s =
     (if cid \<le> 0 \<or> uid \<le> 0 then fail (NotFound ''contest.role_not_found'' ''contest role assignment not found'')
      else map_res (\<lambda>acc. acc\<lparr>acc_Permissions := sort_by (<) (acc_Permissions acc)\<rparr>)
             (add_contest_rows (sort_by (access_order collate) (contest_access_rows s cid uid)) \<lparr>acc_Roles = [], acc_Permissions = []\<rparr>))"

record contest_role_assignment =
  cy_Row :: contest_assignment_row
  cy_Username :: string

definition checked_role :: "contest_assignment_row \<Rightarrow> contest_assignment_row res" where
  "checked_role a =
     (case ParseRole (cz_Role a) of
        Inl _ \<Rightarrow> Inl (ErrText (''invalid contest role assignment '' @ cz_Role a))
      | Inr role \<Rightarrow> if \<not> IsContestRole role then Inl (ErrText (''invalid contest role assignment '' @ cz_Role a))
                    else Inr (a\<lparr>cz_Role := role\<rparr>))"

fun map_all_res :: "('a \<Rightarrow> 'b res) \<Rightarrow> 'a list \<Rightarrow> 'b list res" where
  "map_all_res f [] = Inr []"
| "map_all_res f (x # xs) = bind_res (f x) (\<lambda>y. bind_res (map_all_res f xs) (\<lambda>ys. Inr (y # ys)))"

definition ListContestRoleAssignments ::
  "(string \<Rightarrow> string \<Rightarrow> bool) \<Rightarrow> int64 \<Rightarrow> contest_store \<Rightarrow> contest_role_assignment list res" where
  "ListContestRoleAssignments collate cid s =
     (if cid \<le> 0 then fail (NotFound ''contest.role_not_found'' ''contest role assignment not found'')
      else map_all_res (\<lambda>a. map_res (\<lambda>row. \<lparr>cy_Row = row, cy_Username = coalesce (map_of (ch_usernames s) (cz_UserID a)) []\<rparr>) (checked_role a))
             (sort_by (\<lambda>a b. cz_UserID a < cz_UserID b \<or> cz_UserID a = cz_UserID b \<and> collate (cz_Role a) (cz_Role b))
               (filter (\<lambda>a. cz_ContestID a = cid \<and> held a \<and> cz_UserID a \<in> fst ` set (ch_usernames s)) (ch_assignments s))))"

definition insert_contest_assignment :: "int64 \<Rightarrow> int64 \<Rightarrow> Role \<Rightarrow> int64 \<Rightarrow> contest_assignment_row ctx" where
  "insert_contest_assignment cid uid role grantedBy = (\<lambda>s.
     if (\<forall>c \<in> set (contests_of s). ct_ID c \<noteq> cid) \<or> uid \<notin> set (db_users (ch_judging s)) then Inl ErrNoRows
     else bind_tx (check_tx (IsContestRole role \<and> grantedBy \<noteq> uid) ''contest_role_assignments_check'') (\<lambda>_.
          bind_tx (unique_tx (\<forall>a \<in> set (ch_assignments s). \<not> (cz_ContestID a = cid \<and> cz_UserID a = uid \<and> cz_Role a = role \<and> held a))
            ''contest_role_assignments_active_uidx'') (\<lambda>_.
          bind_tx (foreign_tx (grantedBy \<in> set (db_users (ch_judging s))) ''contest_role_assignments_granted_by_fkey'') (\<lambda>_ s.
            let row = \<lparr>cz_ID = chq_assignments s, cz_ContestID = cid, cz_UserID = uid, cz_Role = role, cz_GrantedBy = Some grantedBy,
                       cz_GrantedAt = contest_now s, cz_RevokedAt = None\<rparr>
            in Inr (row, s\<lparr>ch_assignments := ch_assignments s @ [row], chq_assignments := chq_assignments s + 1\<rparr>)))) s)"

definition record_role_event :: "int64 \<Rightarrow> int64 \<Rightarrow> Role \<Rightarrow> int64 \<Rightarrow> string \<Rightarrow> string \<Rightarrow> unit ctx" where
  "record_role_event cid uid role actorID action reason = (\<lambda>s.
     Inr ((), s\<lparr>ch_role_events := ch_role_events s @ [\<lparr>cw_ContestID = cid, cw_UserID = uid, cw_Role = role, cw_ActorUserID = actorID,
       cw_Action = action, cw_Reason = reason\<rparr>]\<rparr>))"

definition grant_contest_role_tx :: "int64 \<Rightarrow> int64 \<Rightarrow> Role \<Rightarrow> int64 \<Rightarrow> string \<Rightarrow> contest_assignment_row ctx" where
  "grant_contest_role_tx cid uid role grantedBy reason =
     bind_tx (map_err (\<lambda>e. if e = ErrNoRows then AppErr (NotFound ''contest.role_target_not_found'' ''contest or user not found'')
         else mapContestRoleDBError e) (insert_contest_assignment cid uid role grantedBy)) (\<lambda>a.
     bind_tx (record_role_event cid uid role grantedBy ''granted'' reason) (\<lambda>_. return_tx a))"

definition repo_GrantContestRole ::
  "int64 \<Rightarrow> int64 \<Rightarrow> Role \<Rightarrow> int64 \<Rightarrow> string \<Rightarrow> contest_store \<Rightarrow> contest_assignment_row res \<times> contest_store" where
  "repo_GrantContestRole cid uid role grantedBy reason s =
     (if cid \<le> 0 \<or> uid \<le> 0 \<or> grantedBy \<le> 0 \<or> \<not> IsContestRole role
      then (fail (NotFound ''contest.role_not_found'' ''contest role assignment target not found''), s)
      else if TrimSpace reason = [] then (fail (BadRequest ''contest.role_reason_required'' ''contest role change reason is required''), s)
      else WithTx (grant_contest_role_tx cid uid role grantedBy (TrimSpace reason)) s)"

definition revoke_contest_assignments :: "int64 \<Rightarrow> int64 \<Rightarrow> Role \<Rightarrow> nat ctx" where
  "revoke_contest_assignments cid uid role = (\<lambda>s.
     let P = (\<lambda>a. cz_ContestID a = cid \<and> cz_UserID a = uid \<and> cz_Role a = role \<and> held a) in
     Inr (length (filter P (ch_assignments s)),
          s\<lparr>ch_assignments := update_rows P (\<lambda>a. a\<lparr>cz_RevokedAt := Some (contest_now s)\<rparr>) (ch_assignments s)\<rparr>))"

definition revoke_contest_role_tx :: "int64 \<Rightarrow> int64 \<Rightarrow> Role \<Rightarrow> int64 \<Rightarrow> string \<Rightarrow> unit ctx" where
  "revoke_contest_role_tx cid uid role revokedBy reason =
     bind_tx (revoke_contest_assignments cid uid role) (\<lambda>n.
     if n \<noteq> 1 then fail_tx (AppErr (NotFound ''contest.role_not_found'' ''contest role assignment not found''))
     else record_role_event cid uid role revokedBy ''revoked'' reason)"

definition repo_RevokeContestRole ::
  "int64 \<Rightarrow> int64 \<Rightarrow> Role \<Rightarrow> int64 \<Rightarrow> string \<Rightarrow> contest_store \<Rightarrow> unit res \<times> contest_store" where
  "repo_RevokeContestRole cid uid role revokedBy reason s =
     (if cid \<le> 0 \<or> uid \<le> 0 \<or> revokedBy \<le> 0 \<or> \<not> IsContestRole role
      then (fail (NotFound ''contest.role_not_found'' ''contest role assignment not found''), s)
      else if TrimSpace reason = [] then (fail (BadRequest ''contest.role_reason_required'' ''contest role change reason is required''), s)
      else WithTx (revoke_contest_role_tx cid uid role revokedBy (TrimSpace reason)) s)"

subsection \<open>The service and its calls\<close>

record contest_env =
  cn_others :: "contest_store \<Rightarrow> contest_store"
  cn_ilike :: "string \<Rightarrow> string \<Rightarrow> bool"
  cn_collate :: "string \<Rightarrow> string \<Rightarrow> bool"
  cn_sha256hex :: "string \<Rightarrow> string"
  cn_hasRoles :: bool

definition contest_call :: "contest_env \<Rightarrow> (contest_store \<Rightarrow> 'a res \<times> contest_store) \<Rightarrow> (contest_store, 'a) action" where
  "contest_call env op = call (cn_others env) op"

definition contest_read :: "contest_env \<Rightarrow> (contest_store \<Rightarrow> 'a res) \<Rightarrow> (contest_store, 'a) action" where
  "contest_read env f = call (cn_others env) (\<lambda>s. (f s, s))"

definition of_res :: "'a res \<Rightarrow> ('w, 'a) action" where
  "of_res r = (\<lambda>w. (r, w))"

text \<open>The reader over the store as it is committed (\<^verbatim>\<open>reader.go\<close>).\<close>

definition reader_at :: "contest_env \<Rightarrow> contest_store \<Rightarrow> contest_reader" where
  "reader_at env s =
     \<lparr>rd_GetContest = (\<lambda>cid. repo_GetContest cid s), rd_ListContestProblems = (\<lambda>cid. Inr (contest_problem_rows cid s)),
      rd_ListRegistrations = (\<lambda>cid. fst (listRegistrations id cid s)),
      rd_GetRegistration = (\<lambda>cid uid. repo_GetRegistration cid uid s),
      rd_roles = (if cn_hasRoles env then Some (\<lambda>cid uid. ListContestAccess (cn_collate env) cid uid s) else None),
      rd_now = go_now (ch_judging s)\<rparr>"

subsection \<open>Authoring (\<^verbatim>\<open>authoring.go\<close>)\<close>

definition create_contest_tx :: "contest_record \<Rightarrow> contest_problem list \<Rightarrow> contest_record ctx" where
  "create_contest_tx c problems =
     bind_tx (createContest c) (\<lambda>created.
       let here = map (\<lambda>p. p\<lparr>cb_ContestID := ct_ID created\<rparr>) problems in
       bind_tx (replaceContestProblems (ct_ID created) here) (\<lambda>_. return_tx (created\<lparr>ct_Problems := here\<rparr>)))"

definition CreateContest :: "contest_env \<Rightarrow> actor \<Rightarrow> contest_input \<Rightarrow> (contest_store, contest_record) action" where
  "CreateContest env a input0 =
     bind_act (of_res (requireContestCreator a)) (\<lambda>_.
       let input = (if contest_input.ci_Status input0 = [] then input0\<lparr>contest_input.ci_Status := ContestDraft\<rparr> else input0) in
       bind_act (of_res (validateContestInput input)) (\<lambda>_.
       bind_act (of_res (contestProblems 0 (contest_input.ci_Problems input))) (\<lambda>problems.
         contest_call env (WithTx (create_contest_tx
           \<lparr>ct_ID = 0, ct_OwnerUserID = ac_UserID a, ct_Title = TrimSpace (contest_input.ci_Title input), ct_Description = contest_input.ci_Description input,
            ct_Visibility = contest_input.ci_Visibility input, ct_Status = contest_input.ci_Status input, ct_StartAt = contest_input.ci_StartAt input, ct_EndAt = contest_input.ci_EndAt input,
            ct_FreezeAt = contest_input.ci_FreezeAt input, ct_InviteCodeHash = hashInviteCode (cn_sha256hex env) (contest_input.ci_InviteCode input),
            ct_ScoreRevision = 0, ct_Registered = False, ct_CurrentUserRoles = [], ct_Problems = [], ct_CreatedAt = 0,
            ct_UpdatedAt = 0\<rparr> problems)))))"

definition update_contest_tx :: "contest_env \<Rightarrow> actor \<Rightarrow> int64 \<Rightarrow> contest_update_input \<Rightarrow> contest_record ctx" where
  "update_contest_tx env a cid input = (\<lambda>s0.
     bind_tx (updateContest (cn_sha256hex env) cid input) (\<lambda>updated.
       case contest_update_input.ui_Problems input of
         Some inputs \<Rightarrow>
           bind_tx (\<lambda>s. case contestProblems cid inputs of Inl e \<Rightarrow> Inl e | Inr problems \<Rightarrow> Inr (problems, s)) (\<lambda>problems.
           bind_tx (replaceContestProblems cid problems) (\<lambda>_.
             return_tx (updated\<lparr>ct_Problems := problems, ct_Registered := actorRegisteredForContest (reader_at env s0) a (ct_ID updated),
               ct_CurrentUserRoles := currentUserRoles (reader_at env s0) a (ct_ID updated)\<rparr>)))
       | None \<Rightarrow> (\<lambda>s. case withFrontendContract (reader_at env s0) a updated of Inl e \<Rightarrow> Inl e | Inr c \<Rightarrow> Inr (c, s))) s0)"

text \<open>The actor with its roles in the contest, and the contest, read one after the other.\<close>

definition scoped_actor :: "contest_env \<Rightarrow> actor \<Rightarrow> int64 \<Rightarrow> (contest_store, actor) action" where
  "scoped_actor env a cid = contest_read env (\<lambda>s. actorWithContestRoles (reader_at env s) a cid)"

definition authoring_UpdateContest ::
  "contest_env \<Rightarrow> actor \<Rightarrow> int64 \<Rightarrow> contest_update_input \<Rightarrow> (contest_store, contest_record) action" where
  "authoring_UpdateContest env a cid input =
     bind_act (contest_read env (repo_GetContest cid)) (\<lambda>current.
     bind_act (of_res (requireContestManager a current)) (\<lambda>_.
     bind_act (of_res (validateContestUpdate current input)) (\<lambda>_.
       contest_call env (WithTx (update_contest_tx env a cid input)))))"

definition service_UpdateContest ::
  "contest_env \<Rightarrow> actor \<Rightarrow> int64 \<Rightarrow> contest_update_input \<Rightarrow> (contest_store, contest_record) action" where
  "service_UpdateContest env a cid input = bind_act (scoped_actor env a cid) (\<lambda>b. authoring_UpdateContest env b cid input)"

definition archive_contest_tx :: "actor \<Rightarrow> int64 \<Rightarrow> contest_record ctx" where
  "archive_contest_tx a cid =
     bind_tx (repo_ArchiveContest cid) (\<lambda>archived.
     bind_tx (audit_Insert ch_audit set_contest_audit \<lparr>au_ActorUserID = ac_UserID a, au_Action = ''contest.archived'',
       au_ObjectType = ''contest'', au_ObjectID = cid, au_Reason = [], au_Metadata = []\<rparr>) (\<lambda>_. return_tx archived))"

definition authoring_DeleteContest :: "contest_env \<Rightarrow> actor \<Rightarrow> int64 \<Rightarrow> (contest_store, contest_record) action" where
  "authoring_DeleteContest env a cid =
     bind_act (contest_read env (repo_GetContest cid)) (\<lambda>current.
     bind_act (of_res (requireContestManager a current)) (\<lambda>_.
       contest_call env (WithTx (archive_contest_tx a cid))))"

definition service_DeleteContest :: "contest_env \<Rightarrow> actor \<Rightarrow> int64 \<Rightarrow> (contest_store, contest_record) action" where
  "service_DeleteContest env a cid = bind_act (scoped_actor env a cid) (\<lambda>b. authoring_DeleteContest env b cid)"

subsection \<open>Registration and roles (\<^verbatim>\<open>policy.go\<close>, \<^verbatim>\<open>service.go\<close>)\<close>

definition registration_allowed ::
  "(string \<Rightarrow> string) \<Rightarrow> contest_record \<Rightarrow> actor \<Rightarrow> int64 \<Rightarrow> registration_input \<Rightarrow> contest_registration res" where
  "registration_allowed sha256hex contest a cid input =
     (if ct_Visibility contest = VisibilityPrivate \<and> ct_InviteCodeHash contest = []
      then fail (Forbidden ''contest.invite_code_required'' ''invite code is required'')
      else if ct_Visibility contest = VisibilityPrivate
              \<and> ct_InviteCodeHash contest \<noteq> hashInviteCode sha256hex (registration_input.ri_InviteCode input)
      then fail (Forbidden ''contest.invite_code_invalid'' ''invite code is invalid'')
      else let displayName = TrimSpace (registration_input.ri_DisplayName input); email = TrimSpace (registration_input.ri_Email input) in
           if displayName = [] \<or> email = []
           then fail (BadRequest ''request.invalid'' ''display_name and email are required'')
           else Inr \<lparr>rg_ID = 0, rg_ContestID = cid, rg_UserID = ac_UserID a, rg_DisplayName = displayName, rg_Email = email,
                     rg_Status = RegistrationActive, rg_RegisteredAt = 0, rg_AcceptedCount = 0, rg_PenaltyMinutes = 0\<rparr>)"

definition policy_Register ::
  "contest_env \<Rightarrow> actor \<Rightarrow> int64 \<Rightarrow> registration_input \<Rightarrow> (contest_store, contest_registration) action" where
  "policy_Register env a cid input =
     (if \<not> Authenticated a then app_act (Unauthorized ''auth_required'' ''authentication required'')
      else bind_act (contest_read env (repo_GetContest cid)) (\<lambda>contest.
           bind_act (scoped_actor env a (ct_ID contest)) (\<lambda>b.
           bind_act (of_res (registration_allowed (cn_sha256hex env) contest b cid input)) (\<lambda>r.
             contest_call env (WithTx (createRegistration r))))))"

text \<open>The common start of the role operations: the contest, the actor's roles there, and the check that it manages the contest.\<close>

definition contest_manager :: "contest_env \<Rightarrow> actor \<Rightarrow> int64 \<Rightarrow> (contest_store, actor) action" where
  "contest_manager env a cid =
     (if \<not> cn_hasRoles env then app_act (ServiceUnavailable ''contest role store unavailable'')
      else bind_act (contest_read env (repo_GetContest cid)) (\<lambda>contest.
           bind_act (scoped_actor env a cid) (\<lambda>b.
           bind_act (of_res (requireContestManager b contest)) (\<lambda>_. return_act b))))"

definition service_ListContestRoles :: "contest_env \<Rightarrow> actor \<Rightarrow> int64 \<Rightarrow> (contest_store, contest_role_assignment list) action" where
  "service_ListContestRoles env a cid =
     bind_act (contest_manager env a cid) (\<lambda>_. contest_read env (ListContestRoleAssignments (cn_collate env) cid))"

record contest_role_grant_input =
  gi_UserID :: int64
  gi_Role :: string
  gi_Reason :: string

definition contest_role :: "string \<Rightarrow> Role res" where
  "contest_role value =
     (case ParseRole value of
        Inl _ \<Rightarrow> fail (BadRequest ''contest.role_invalid'' ''invalid contest role'')
      | Inr role \<Rightarrow> if IsContestRole role then Inr role else fail (BadRequest ''contest.role_invalid'' ''invalid contest role''))"

definition service_GrantContestRole ::
  "contest_env \<Rightarrow> actor \<Rightarrow> int64 \<Rightarrow> contest_role_grant_input \<Rightarrow> (contest_store, contest_assignment_row) action" where
  "service_GrantContestRole env a cid input =
     bind_act (contest_manager env a cid) (\<lambda>b.
       if gi_UserID input \<le> 0 then app_act (BadRequest ''contest.role_target_invalid'' ''contest role target is invalid'')
       else bind_act (of_res (contest_role (gi_Role input))) (\<lambda>role.
              contest_call env (repo_GrantContestRole cid (gi_UserID input) role (ac_UserID b) (gi_Reason input))))"

definition service_RevokeContestRole :: "contest_env \<Rightarrow> actor \<Rightarrow> int64 \<Rightarrow> int64 \<Rightarrow> string \<Rightarrow> string \<Rightarrow> (contest_store, unit) action" where
  "service_RevokeContestRole env a cid uid roleValue reason =
     bind_act (contest_manager env a cid) (\<lambda>b.
     bind_act (of_res (contest_role roleValue)) (\<lambda>role.
       if uid \<le> 0 then app_act (BadRequest ''contest.role_target_invalid'' ''contest role target is invalid'')
       else contest_call env (repo_RevokeContestRole cid uid role (ac_UserID b) reason)))"

subsection \<open>Reading and listing contests (\<^verbatim>\<open>reader.go\<close>)\<close>

definition service_GetContest :: "contest_env \<Rightarrow> actor \<Rightarrow> int64 \<Rightarrow> (contest_store, contest_record) action" where
  "service_GetContest env a cid = contest_read env (\<lambda>s. GetContest (reader_at env s) a cid)"

definition listing_scope :: "contest_env \<Rightarrow> actor \<Rightarrow> list_contest_filter \<Rightarrow> (contest_store, list_contest_filter) action" where
  "listing_scope env a f =
     (if canManageAllContests a then return_act (f\<lparr>cq_IncludePrivate := True\<rparr>)
      else let g = f\<lparr>cq_VisibleToUserID := ac_UserID a\<rparr> in
           if cn_hasRoles env
           then bind_act (contest_read env (\<lambda>s. Inr (ListContestIDs (ac_UserID a) s))) (\<lambda>ids. return_act (g\<lparr>cq_VisibleToContestIDs := ids\<rparr>))
           else return_act g)"

definition contest_page_size :: "int32 \<Rightarrow> int32" where
  "contest_page_size n = (if sint n \<le> 0 \<or> sint n > 100 then 20 else n)"

fun with_contracts :: "contest_env \<Rightarrow> actor \<Rightarrow> contest_record list \<Rightarrow> (contest_store, contest_record list) action" where
  "with_contracts env a [] = return_act []"
| "with_contracts env a (c # cs) =
     bind_act (contest_read env (\<lambda>s. withFrontendContract (reader_at env s) a c)) (\<lambda>shown.
     bind_act (with_contracts env a cs) (\<lambda>rest. return_act (shown # rest)))"

record contest_list =
  xl_Items :: "contest_record list"
  xl_Total :: int64
  xl_Page :: int32
  xl_PageSize :: int32

definition ListContests :: "contest_env \<Rightarrow> actor \<Rightarrow> list_contest_filter \<Rightarrow> (contest_store, contest_list) action" where
  "ListContests env a f0 =
     (if \<not> Authenticated a then app_act (Unauthorized ''auth.required'' ''authentication required'')
      else let f1 = f0\<lparr>cq_Page := (if sint (cq_Page f0) \<le> 0 then 1 else cq_Page f0), cq_PageSize := contest_page_size (cq_PageSize f0)\<rparr> in
           bind_act (listing_scope env a f1) (\<lambda>f2.
             let f = f2\<lparr>cq_Limit := cq_PageSize f2, cq_Offset := (cq_Page f2 - 1) * cq_PageSize f2\<rparr> in
             bind_act (contest_read env (listContests (cn_ilike env) f)) (\<lambda>(items, total).
             bind_act (with_contracts env a items) (\<lambda>shown.
               return_act \<lparr>xl_Items = shown, xl_Total = total, xl_Page = cq_Page f, xl_PageSize = cq_PageSize f\<rparr>))))"

definition ListContestsByCursor ::
  "contest_env \<Rightarrow> actor \<Rightarrow> list_contest_filter \<Rightarrow> (contest_store, contest_record list \<times> (time \<times> int64) option) action" where
  "ListContestsByCursor env a f0 =
     (if \<not> Authenticated a then app_act (Unauthorized ''auth.required'' ''authentication required'')
      else let limit_n = contest_page_size (cq_PageSize f0) in
           bind_act (listing_scope env a (f0\<lparr>cq_PageSize := limit_n\<rparr>)) (\<lambda>f1.
           bind_act (case cq_Cursor f1 of
               None \<Rightarrow> return_act first_contest_cursor
             | Some (startAt, cid) \<Rightarrow>
                 if cid \<le> 0 \<or> startAt = 0 then app_act (BadRequest ''invalid_cursor'' ''cursor is invalid'')
                 else return_act (startAt, cid)) (\<lambda>cursor.
             let f = f1\<lparr>cq_Cursor := Some cursor, cq_Limit := limit_n + 1, cq_Offset := 0\<rparr> in
             bind_act (contest_read env (listContestsByCursor (cn_ilike env) f)) (\<lambda>items0.
               let hasMore = int (length items0) > sint limit_n;
                   items = (if hasMore then take (nat (sint limit_n)) items0 else items0) in
               bind_act (with_contracts env a items) (\<lambda>shown.
                 return_act (shown, if hasMore then Some (ct_StartAt (last shown), ct_ID (last shown)) else None))))))"

subsection \<open>The scoreboard and its snapshots (\<^verbatim>\<open>scoreboard.go\<close>)\<close>

definition reader_clock :: "(contest_store, time) action" where
  "reader_clock = (\<lambda>s. (Inr (go_now (ch_judging s)), s))"

definition buildScoreboard ::
  "contest_env \<Rightarrow> contest_record \<Rightarrow> ScoreboardView \<Rightarrow> time \<Rightarrow> (contest_store, scoreboard_response \<times> int64) action" where
  "buildScoreboard env contest view generatedAt =
     bind_act (contest_read env (\<lambda>s. Inr (contest_problem_rows (ct_ID contest) s))) (\<lambda>problems.
     bind_act (listRegistrations (cn_others env) (ct_ID contest)) (\<lambda>registrations.
       let fromResults = bind_act (contest_read env (listProblemResults (ct_ID contest))) (\<lambda>results.
             return_act (buildBoardFromResults contest view problems registrations results generatedAt, ct_ScoreRevision contest))
       in if view = ScoreboardViewFrozen
          then bind_act (contest_read env (listTerminalSubmissions (ct_ID contest))) (\<lambda>submissions.
                 if submissions \<noteq> []
                 then return_act (buildBoardFromSubmissions contest view problems registrations submissions generatedAt, ct_ScoreRevision contest)
                 else fromResults)
          else fromResults))"

definition generate_snapshot :: "contest_env \<Rightarrow> contest_record \<Rightarrow> ScoreboardView \<Rightarrow> (contest_store, bool) action" where
  "generate_snapshot env contest view =
     bind_act reader_clock (\<lambda>generatedAt.
     bind_act (buildScoreboard env contest view generatedAt) (\<lambda>(built, sourceRevision).
     bind_act (contest_call env (WithTx (createScoreSnapshot
       \<lparr>sh_ID = 0, sh_ContestID = ct_ID contest, sh_View = view, sh_Board = built, sh_Problems = sr_Problems built, sh_Rows = sr_Rows built,
        sh_SourceRevision = sourceRevision, sh_GeneratedAt = generatedAt, sh_Created = False\<rparr>))) (\<lambda>created.
       return_act (sh_Created created))))"

text \<open>The loop over the candidates: what was created so far, as (frozen, final), is returned with the first error.\<close>

fun generate_each ::
  "contest_env \<Rightarrow> (contest_record \<times> ScoreboardView) list \<Rightarrow> nat \<times> nat \<Rightarrow> contest_store \<Rightarrow> ((nat \<times> nat) \<times> unit res) \<times> contest_store" where
  "generate_each env [] counts s = ((counts, Inr ()), s)"
| "generate_each env ((contest, view) # candidates) counts s =
     (if view \<noteq> ScoreboardViewFrozen \<and> view \<noteq> ScoreboardViewFinal then generate_each env candidates counts s
      else (case generate_snapshot env contest view s of
              (Inl e, s') \<Rightarrow> ((counts, Inl e), s')
            | (Inr created, s') \<Rightarrow>
                generate_each env candidates
                  (if \<not> created then counts
                   else if view = ScoreboardViewFrozen then (Suc (fst counts), snd counts) else (fst counts, Suc (snd counts))) s'))"

definition GenerateDueScoreSnapshots :: "contest_env \<Rightarrow> int32 \<Rightarrow> contest_store \<Rightarrow> ((nat \<times> nat) \<times> unit res) \<times> contest_store" where
  "GenerateDueScoreSnapshots env limit0 s =
     (let limit_n = (if sint limit0 \<le> 0 then 100 else limit0) in
      case bind_act reader_clock (\<lambda>now. contest_read env (listScoreSnapshotCandidates now limit_n)) s of
        (Inl e, s') \<Rightarrow> (((0, 0), Inl e), s')
      | (Inr candidates, s') \<Rightarrow> generate_each env candidates (0, 0) s')"

definition snapshot_page_error :: "go_error \<Rightarrow> go_error" where
  "snapshot_page_error e =
     (case e of AppErr app \<Rightarrow>
        if HTTPStatus app = 404 then AppErr (New ''contest.scoreboard_not_ready'' ''scoreboard snapshot is not ready'' 503) else e
      | _ \<Rightarrow> e)"

definition scoreSnapshotPage ::
  "contest_record \<Rightarrow> ScoreboardView \<Rightarrow> int32 \<Rightarrow> scoreboard_cursor \<Rightarrow> contest_store \<Rightarrow> scoreboard_response res" where
  "scoreSnapshotPage contest view pageSize cursor s =
     (let afterOrdinal = (if cu_SnapshotID cursor \<noteq> 0 then cu_AfterOrdinal cursor else 0) in
      bind_res (map_res_err snapshot_page_error (loadScoreSnapshotPage (ct_ID contest) view afterOrdinal (pageSize + 1) s)) (\<lambda>(snapshot, _).
        if cu_SnapshotID cursor \<noteq> 0 \<and> cu_SnapshotID cursor \<noteq> sh_ID snapshot
        then fail (BadRequest ''invalid_cursor'' ''scoreboard snapshot cursor is stale'')
        else let hasMore = int (length (sh_Rows snapshot)) > sint pageSize;
                 rows = (if hasMore then take (nat (sint pageSize)) (sh_Rows snapshot) else sh_Rows snapshot);
                 response = \<lparr>sr_ContestID = ct_ID contest, sr_View = view, sr_GeneratedAt = sh_GeneratedAt snapshot,
                   sr_Problems = sh_Problems snapshot, sr_Rows = rows, sr_NextCursor = None\<rparr>
             in Inr (if hasMore \<and> rows \<noteq> []
                     then response\<lparr>sr_NextCursor := Some (empty_cursor\<lparr>cu_ContestID := ct_ID contest, cu_View := view,
                            cu_SnapshotID := sh_ID snapshot, cu_AfterOrdinal := of_nat (length rows) + afterOrdinal\<rparr>)\<rparr>
                     else response)))"

text \<open>The cursor of a request is kept decoded: \<open>None\<close> is the empty text. Only text that is no cursor at all is left out.\<close>

definition decodeScoreboardCursor :: "scoreboard_cursor option \<Rightarrow> scoreboard_cursor res" where
  "decodeScoreboardCursor raw =
     (case raw of
        None \<Rightarrow> Inr empty_cursor
      | Some c \<Rightarrow> if cu_ContestID c \<le> 0 \<or> cu_View c = [] then fail (BadRequest ''invalid_cursor'' ''scoreboard cursor is invalid'') else Inr c)"

definition service_Scoreboard ::
  "contest_env \<Rightarrow> actor \<Rightarrow> int64 \<Rightarrow> ScoreboardView \<Rightarrow> int32 \<Rightarrow> scoreboard_cursor option \<Rightarrow> (contest_store, scoreboard_response) action" where
  "service_Scoreboard env a cid requested pageSize0 raw =
     bind_act (contest_read env (repo_GetContest cid)) (\<lambda>contest.
     bind_act (scoped_actor env a cid) (\<lambda>b.
     bind_act (contest_read env (\<lambda>s. canReadContestAs (reader_at env s) b contest)) (\<lambda>_.
     bind_act reader_clock (\<lambda>now.
       let view = defaultScoreboardView now contest requested in
       bind_act (of_res (canViewScoreboard now b contest view)) (\<lambda>_.
       bind_act (of_res (normalizeScoreboardPageSize pageSize0)) (\<lambda>pageSize.
       bind_act (of_res (decodeScoreboardCursor raw)) (\<lambda>cursor.
       bind_act (of_res (validateScoreboardCursor cursor cid view)) (\<lambda>_.
         if view = ScoreboardViewFinal \<or> view = ScoreboardViewFrozen
         then contest_read env (scoreSnapshotPage contest view pageSize cursor)
         else contest_read env (\<lambda>s. Inr (liveScoreboardPage (go_now (ch_judging s)) (contest_problem_rows cid s) (registrations_of s)
                (map pr_Result (db_problem_results (ch_judging s))) contest view pageSize cursor))))))))))"

end
