(* ===== verification/Contest_Snapshots.thy ===== *)
theory Contest_Snapshots
  imports Contest_Service
begin

section \<open>Stored scoreboards\<close>

text \<open>
  What the stored scoreboards are good for: a snapshot is served, page by page, exactly as it was built; and a
  round of generation leaves no scoreboard due.
\<close>

subsection \<open>Registrations, page by page\<close>

text \<open>A page that holds everything is evaluated without counting up to its limit.\<close>

lemma paged_code [code]:
  "paged offset limit_n rows =
     (if sint offset < 0 then Inl (ErrText ''OFFSET must not be negative'')
      else if sint limit_n < 0 then Inl (ErrText ''LIMIT must not be negative'')
      else let rest = drop (nat (sint offset)) rows in Inr (if int (length rest) \<le> sint limit_n then rest else take (nat (sint limit_n)) rest))"
  by (auto simp: paged_def Let_def)

declare list_registrations_from.simps [simp del]

lemma paged_rows:
  "0 \<le> sint offset \<Longrightarrow> 0 \<le> sint limit_n \<Longrightarrow> paged offset limit_n rows = Inr (take (nat (sint limit_n)) (drop (nat (sint offset)) rows))"
  by (simp add: paged_def)

lemma sint_of_nat32: "n < 2147483648 \<Longrightarrow> sint (of_nat n :: int32) = int n"
  by (simp add: signed_of_nat signed_take_bit_int_eq_self)

definition contest_registrations :: "int64 \<Rightarrow> contest_store \<Rightarrow> contest_registration list" where
  "contest_registrations cid s = sort_by latest_registration_first (filter (\<lambda>r. rg_ContestID r = cid) (registrations_of s))"

lemma list_registrations_alone:
  assumes "k \<le> length (contest_registrations cid s)" and "length (contest_registrations cid s) < 2147482648"
  shows "list_registrations_from id cid (of_nat k) s = (Inr (drop k (contest_registrations cid s)), s)"
  using assms(1)
proof (induction "length (contest_registrations cid s) - k" arbitrary: k rule: less_induct)
  case less
  let ?all = "contest_registrations cid s"
  have page: "q_ListContestRegistrations cid 1000 (of_nat k) s = Inr (take 1000 (drop k ?all))"
    using less.prems assms(2) by (simp add: q_ListContestRegistrations_def contest_registrations_def [symmetric] paged_rows sint_of_nat32)
  show ?case
  proof (cases "length ?all < k + 1000")
    case True
    with less.prems have "length ?all - k < 1000" by arith
    with page less.prems True show ?thesis by (simp add: list_registrations_from.simps [of id cid "of_nat k"])
  next
    case False
    then have "list_registrations_from id cid (of_nat (k + 1000)) s = (Inr (drop (k + 1000) ?all), s)"
      by (intro less.hyps) auto
    moreover have "take 1000 (drop k ?all) @ drop (k + 1000) ?all = drop k ?all"
      by (metis add.commute append_take_drop_id drop_drop)
    ultimately show ?thesis using False page by (simp add: list_registrations_from.simps [of id cid "of_nat k"] map_res_def)
  qed
qed

text \<open>The board of a contest as the tables stand.\<close>

definition board_now :: "contest_store \<Rightarrow> contest_record \<Rightarrow> ScoreboardView \<Rightarrow> scoreboard_response" where
  "board_now s c view =
     (let problems = contest_problem_rows (ct_ID c) s; registrations = contest_registrations (ct_ID c) s;
          submissions = map submission_of_row (q_ListContestTerminalSubmissions (ct_ID c) s); now = go_now (ch_judging s)
      in if view = ScoreboardViewFrozen \<and> submissions \<noteq> []
         then buildBoardFromSubmissions c view problems registrations submissions now
         else buildBoardFromResults c view problems registrations (q_ListContestProblemResults (ct_ID c) s) now)"

lemma contest_read_alone: "cn_others env = id \<Longrightarrow> contest_read env f s = (f s, s)"
  by (simp add: contest_read_def call_def)

lemma contest_call_alone: "cn_others env = id \<Longrightarrow> contest_call env op s = op s"
  by (simp add: contest_call_def call_def split: prod.split)

lemmas alone_simps = contest_read_alone contest_call_alone bind_act_simps return_act_def fail_act_def of_res_def

lemma buildScoreboard_alone:
  assumes "cn_others env = id" and "length (contest_registrations (ct_ID c) s) < 2147482648"
  shows "buildScoreboard env c view (go_now (ch_judging s)) s = (Inr (board_now s c view, ct_ScoreRevision c), s)"
  using list_registrations_alone [of 0 "ct_ID c" s] assms
  by (simp add: buildScoreboard_def alone_simps listRegistrations_def listTerminalSubmissions_def listProblemResults_def board_now_def Let_def)

subsection \<open>Creating a snapshot\<close>

definition line_of :: "int64 \<Rightarrow> nat \<times> scoreboard_row \<Rightarrow> snapshot_line" where
  "line_of sid = (\<lambda>(i, r). \<lparr>hl_SnapshotID = sid, hl_Ordinal = of_nat (i + 1), hl_Rank = row_Rank r, hl_UserID = row_UserID r,
     hl_DisplayName = row_DisplayName r, hl_AcceptedCount = row_AcceptedCount r, hl_PenaltyMinutes = row_PenaltyMinutes r,
     hl_Cells = row_Cells r\<rparr>)"

lemma insert_lines:
  "mapM_tx (\<lambda>(i, r). q_CreateContestScoreSnapshotRow sid (of_nat (i + 1)) r) rows s = Inr (us, s') \<Longrightarrow>
   s' = s\<lparr>ch_lines := ch_lines s @ map (line_of sid) rows\<rparr>"
proof (induction rows arbitrary: us s s')
  case (Cons x rows)
  from Cons.prems obtain s1 us1 where "(case x of (i, r) \<Rightarrow> q_CreateContestScoreSnapshotRow sid (of_nat (i + 1)) r) s = Inr ((), s1)"
    and rest: "mapM_tx (\<lambda>(i, r). q_CreateContestScoreSnapshotRow sid (of_nat (i + 1)) r) rows s1 = Inr (us1, s')"
    by (auto simp: tx_simps)
  then have "s1 = s\<lparr>ch_lines := ch_lines s @ [line_of sid x]\<rparr>"
    by (auto simp: q_CreateContestScoreSnapshotRow_def Let_def tx_simps foreign_tx_Inr line_of_def split: prod.splits)
  with Cons.IH [OF rest] show ?case by simp
qed (simp add: tx_simps)

definition new_snapshot :: "scoreboard_snapshot \<Rightarrow> contest_store \<Rightarrow> snapshot_row" where
  "new_snapshot h s = \<lparr>hs_ID = chq_snapshots s, hs_ContestID = sh_ContestID h, hs_Kind = sh_View h, hs_Problems = sh_Problems h,
     hs_SourceRevision = sh_SourceRevision h, hs_GeneratedAt = contest_now s\<rparr>"

lemma createScoreSnapshot_cases:
  assumes "createScoreSnapshot h s = Inr (created, s')"
  obtains (new) "sh_Created created"
      "s' = s\<lparr>ch_snapshots := ch_snapshots s @ [new_snapshot h s], chq_snapshots := chq_snapshots s + 1,
             ch_lines := ch_lines s @ map (line_of (chq_snapshots s)) (enumerate 0 (sh_Rows h))\<rparr>"
    | (old) "\<not> sh_Created created" "s' = s"
      "\<exists>x \<in> set (ch_snapshots s). hs_ContestID x = sh_ContestID h \<and> hs_Kind x = sh_View h \<and> hs_SourceRevision x = sh_SourceRevision h"
proof -
  let ?make = "map_err (\<lambda>e. if e = ErrNoRows then e else mapDBErr e)
       (q_CreateContestScoreSnapshot (sh_ContestID h) (sh_View h) (sh_Problems h) (sh_SourceRevision h))"
  from assms obtain r s1 where make: "or_no_rows ?make s = Inr (r, s1)"
    and rest: "(case r of None \<Rightarrow> bind_tx (map_err mapDBErr (q_GetContestScoreSnapshotByKey (sh_ContestID h) (sh_View h) (sh_SourceRevision h)))
          (\<lambda>existing s. case loadScoreSnapshot existing s of Inl e \<Rightarrow> Inl e | Inr result \<Rightarrow> Inr (result\<lparr>sh_Created := False\<rparr>, s))
        | Some row \<Rightarrow> bind_tx (mapM_tx (\<lambda>(i, r). q_CreateContestScoreSnapshotRow (hs_ID row) (of_nat (i + 1)) r) (enumerate 0 (sh_Rows h))) (\<lambda>_.
           return_tx (h\<lparr>sh_ID := hs_ID row, sh_ContestID := hs_ContestID row, sh_View := hs_Kind row,
             sh_SourceRevision := hs_SourceRevision row, sh_GeneratedAt := hs_GeneratedAt row, sh_Created := True\<rparr>))) s1 = Inr (created, s')"
    unfolding createScoreSnapshot_def bind_tx_Inr by blast
  show ?thesis
  proof (cases r)
    case None
    with make have "s1 = s" by (auto simp: or_no_rows_Inr)
    with rest None obtain x s2 where x: "q_GetContestScoreSnapshotByKey (sh_ContestID h) (sh_View h) (sh_SourceRevision h) s = Inr (x, s2)"
      and load: "(case loadScoreSnapshot x s2 of Inl e \<Rightarrow> Inl e | Inr result \<Rightarrow> Inr (result\<lparr>sh_Created := False\<rparr>, s2)) = Inr (created, s')"
      by (auto simp: bind_tx_Inr map_err_Inr)
    from x have "s2 = s" by (simp add: q_GetContestScoreSnapshotByKey_def tx_simps)
    with load x have "q_GetContestScoreSnapshotByKey (sh_ContestID h) (sh_View h) (sh_SourceRevision h) s = Inr (x, s)"
      "\<not> sh_Created created" "s' = s" by (auto split: sum.splits)
    then show ?thesis by (intro old) (auto simp: q_GetContestScoreSnapshotByKey_def tx_simps find_Some_iff)
  next
    case (Some row)
    with make have "q_CreateContestScoreSnapshot (sh_ContestID h) (sh_View h) (sh_Problems h) (sh_SourceRevision h) s = Inr (row, s1)"
      by (auto simp: or_no_rows_Inr map_err_def split: sum.splits)
    then have row: "row = new_snapshot h s"
      "s1 = s\<lparr>ch_snapshots := ch_snapshots s @ [new_snapshot h s], chq_snapshots := chq_snapshots s + 1\<rparr>"
      by (auto simp: q_CreateContestScoreSnapshot_def Let_def tx_simps foreign_tx_Inr new_snapshot_def split: if_splits)
    from rest Some obtain us s2 where
      "mapM_tx (\<lambda>(i, r). q_CreateContestScoreSnapshotRow (hs_ID row) (of_nat (i + 1)) r) (enumerate 0 (sh_Rows h)) s1 = Inr (us, s2)"
      "s' = s2" "sh_Created created" by (auto simp: tx_simps)
    with insert_lines [OF this(1)] row show ?thesis by (intro new) (simp_all add: new_snapshot_def)
  qed
qed

subsection \<open>Reading a snapshot page by page\<close>

definition snapshots_in_order :: "contest_store \<Rightarrow> bool" where
  "snapshots_in_order s \<longleftrightarrow>
     0 < chq_snapshots s \<and> (\<forall>h \<in> set (ch_snapshots s). hs_ID h < chq_snapshots s \<and> hs_GeneratedAt h \<le> contest_now s)
     \<and> (\<forall>l \<in> set (ch_lines s). hl_SnapshotID l < chq_snapshots s)"

definition with_snapshot :: "scoreboard_snapshot \<Rightarrow> contest_store \<Rightarrow> contest_store" where
  "with_snapshot h s = s\<lparr>ch_snapshots := ch_snapshots s @ [new_snapshot h s], chq_snapshots := chq_snapshots s + 1,
     ch_lines := ch_lines s @ map (line_of (chq_snapshots s)) (enumerate 0 (sh_Rows h))\<rparr>"

text \<open>The first element of a sorted list is one that comes before all the others.\<close>

lemma sort_by_first:
  assumes "strict_weak_order lt" and "\<forall>x \<in> set xs. lt new x"
  shows "\<exists>rest. sort_by lt (xs @ [new]) = new # rest"
proof -
  obtain h rest where sorted: "sort_by lt (xs @ [new]) = h # rest" by (cases "sort_by lt (xs @ [new])") (metis append_is_Nil_conv length_0_conv length_sort_by not_Cons_self2)
  have mem: "set (h # rest) = insert new (set xs)" using sorted by (metis mset_sort_by mset_append mset_eq_setD list.set(2) set_append list.simps(15) Un_insert_right sup_bot_right empty_set)
  have "sorted_wrt (\<lambda>x y. \<not> lt y x) (h # rest)"
    using strict_weak_order.ordered_sort_by [OF assms(1), of "xs @ [new]"] sorted strict_weak_order.ordered_def [OF assms(1)] by metis
  then have "h = new \<or> \<not> lt new h" using mem by auto
  with mem assms(2) have "h = new" by auto
  with sorted show ?thesis by blast
qed

lemma latest_is_new:
  assumes "snapshots_in_order s"
  shows "q_GetLatestContestScoreSnapshot (sh_ContestID h) (sh_View h) (with_snapshot h s) = Inr (new_snapshot h s, with_snapshot h s)"
proof -
  have lt: "strict_weak_order newest_snapshot_first"
    unfolding newest_snapshot_first_def later_key_def strict_weak_order_def by auto
  let ?olds = "filter (\<lambda>x. hs_ContestID x = sh_ContestID h \<and> hs_Kind x = sh_View h) (ch_snapshots s)"
  have "\<forall>x \<in> set ?olds. newest_snapshot_first (new_snapshot h s) x"
    using assms by (auto simp: snapshots_in_order_def newest_snapshot_first_def later_key_def new_snapshot_def)
  from sort_by_first [OF lt this] obtain rest where "sort_by newest_snapshot_first (?olds @ [new_snapshot h s]) = new_snapshot h s # rest" by blast
  then show ?thesis by (simp add: q_GetLatestContestScoreSnapshot_def with_snapshot_def new_snapshot_def)
qed

lemma ordinals_after:
  assumes "length rows < 2147483647" and "k \<le> length rows"
  shows "filter (\<lambda>l. int k < sint (hl_Ordinal l)) (map (line_of sid) (enumerate 0 rows)) = map (line_of sid) (drop k (enumerate 0 rows))"
    and "sorted_wrt (\<lambda>x y. \<not> sint (hl_Ordinal y) < sint (hl_Ordinal x)) (map (line_of sid) (drop k (enumerate 0 rows)))"
proof -
  have ordinal: "sint (hl_Ordinal (line_of sid (enumerate 0 rows ! i))) = int i + 1" if "i < length rows" for i
    using that assms(1) sint_of_nat32 [of "i + 1"] by (simp add: nth_enumerate_eq line_of_def)
  have before: "\<not> int k < sint (hl_Ordinal (line_of sid x))" if "x \<in> set (take k (enumerate 0 rows))" for x
  proof -
    from that obtain i where "i < k" "x = enumerate 0 rows ! i" using assms(2) by (auto simp: in_set_conv_nth)
    with ordinal [of i] assms(2) show ?thesis by simp
  qed
  have after: "int k < sint (hl_Ordinal (line_of sid x))" if "x \<in> set (drop k (enumerate 0 rows))" for x
  proof -
    from that obtain i where "k + i < length rows" "x = enumerate 0 rows ! (k + i)"
      using assms(2) by (auto simp: in_set_conv_nth) (metis add.commute less_diff_conv)
    with ordinal [of "k + i"] show ?thesis by simp
  qed
  have "filter P xs = drop k xs" if "\<forall>x \<in> set (take k xs). \<not> P x" "\<forall>x \<in> set (drop k xs). P x" for P and xs :: "(nat \<times> scoreboard_row) list"
  proof -
    have "filter P xs = filter P (take k xs) @ filter P (drop k xs)" by (metis append_take_drop_id filter_append)
    with that show ?thesis by (simp add: filter_empty_conv filter_id_conv)
  qed
  from this [of "enumerate 0 rows" "\<lambda>x. int k < sint (hl_Ordinal (line_of sid x))"] before after
  show "filter (\<lambda>l. int k < sint (hl_Ordinal l)) (map (line_of sid) (enumerate 0 rows)) = map (line_of sid) (drop k (enumerate 0 rows))"
    by (simp add: filter_map comp_def)
  show "sorted_wrt (\<lambda>x y. \<not> sint (hl_Ordinal y) < sint (hl_Ordinal x)) (map (line_of sid) (drop k (enumerate 0 rows)))"
    by (auto simp: sorted_wrt_iff_nth_less ordinal)
qed

lemma snapshot_rows_page:
  assumes "snapshots_in_order s" and "length (sh_Rows h) < 2147483647" and "k \<le> length (sh_Rows h)" and "0 \<le> sint limit_n"
  shows "\<exists>lines. q_ListContestScoreSnapshotRows (chq_snapshots s) (of_nat k) limit_n (with_snapshot h s) = Inr lines
    \<and> snapshotRowsFromDB lines = take (nat (sint limit_n)) (drop k (sh_Rows h))"
proof -
  let ?sid = "chq_snapshots s" and ?lt = "\<lambda>a b. sint (hl_Ordinal a) < sint (hl_Ordinal b)"
  let ?xs = "map (line_of ?sid) (drop k (enumerate 0 (sh_Rows h)))"
  note rows = ordinals_after [OF assms(2,3), of ?sid]
  have "hl_SnapshotID l < ?sid" if "l \<in> set (ch_lines s)" for l using that assms(1) by (simp add: snapshots_in_order_def)
  then have "filter (\<lambda>l. hl_SnapshotID l = ?sid \<and> sint (hl_Ordinal l) > int k) (ch_lines s) = []"
    by (auto simp: filter_empty_conv) (metis less_irrefl)
  moreover have "filter (\<lambda>l. hl_SnapshotID l = ?sid \<and> sint (hl_Ordinal l) > int k) (map (line_of ?sid) (enumerate 0 (sh_Rows h)))
      = filter (\<lambda>l. int k < sint (hl_Ordinal l)) (map (line_of ?sid) (enumerate 0 (sh_Rows h)))"
    by (intro filter_cong) (auto simp: line_of_def)
  ultimately have "filter (\<lambda>l. hl_SnapshotID l = ?sid \<and> sint (hl_Ordinal l) > int k) (ch_lines (with_snapshot h s)) = ?xs"
    using rows(1) by (simp add: with_snapshot_def)
  moreover have "sort_by ?lt ?xs = ?xs"
    using strict_weak_order.sort_by_ordered_id [OF key_strict_weak_order [of "\<lambda>l. sint (hl_Ordinal l)"]]
      strict_weak_order.ordered_def [OF key_strict_weak_order [of "\<lambda>l. sint (hl_Ordinal l)"]] rows(2) by blast
  moreover have "sint (of_nat k :: int32) = int k" using assms(2,3) by (simp add: sint_of_nat32)
  ultimately have "q_ListContestScoreSnapshotRows ?sid (of_nat k) limit_n (with_snapshot h s) = Inr (take (nat (sint limit_n)) ?xs)"
    using assms(4) by (simp add: q_ListContestScoreSnapshotRows_def paged_rows)
  moreover have "snapshotRowsFromDB (map (line_of ?sid) ys) = map snd ys" for ys
    by (auto simp: snapshotRowsFromDB_def line_of_def comp_def split: prod.splits)
  then have "snapshotRowsFromDB (take n ?xs) = map snd (take n (drop k (enumerate 0 (sh_Rows h))))" for n
    by (simp only: take_map)
  then have "snapshotRowsFromDB (take n ?xs) = take n (drop k (sh_Rows h))" for n
    by (metis take_map drop_map map_snd_enumerate)
  ultimately show ?thesis by blast
qed

text \<open>The cursor of a page that starts after \<open>k\<close> rows; the first page has none.\<close>

definition snapshot_cursor :: "int64 \<Rightarrow> ScoreboardView \<Rightarrow> int64 \<Rightarrow> nat \<Rightarrow> scoreboard_cursor option" where
  "snapshot_cursor cid view sid k = (if k = 0 then None else Some (empty_cursor\<lparr>cu_ContestID := cid, cu_View := view,
     cu_SnapshotID := sid, cu_AfterOrdinal := of_nat k\<rparr>))"

lemma snapshot_page:
  assumes order: "snapshots_in_order s" and small: "length (sh_Rows h) < 2147483647" and k: "k \<le> length (sh_Rows h)"
    and n: "sint n = int m" "0 < m" "m \<le> 100" and h: "sh_ContestID h = ct_ID c" "sh_View h = view"
  shows "\<exists>page. scoreSnapshotPage c view n (coalesce (snapshot_cursor (ct_ID c) view (chq_snapshots s) k) empty_cursor) (with_snapshot h s) = Inr page
    \<and> sr_Rows page = take m (drop k (sh_Rows h))
    \<and> sr_NextCursor page = (if k + m < length (sh_Rows h) then snapshot_cursor (ct_ID c) view (chq_snapshots s) (k + m) else None)"
proof -
  let ?sid = "chq_snapshots s"
  have "sint (n + 1) = int m + 1" using n by (simp add: sint_word_ariths(1) signed_take_bit_int_eq_self)
  with snapshot_rows_page [OF order small k, of "n + 1"] obtain lines where lines:
    "q_ListContestScoreSnapshotRows ?sid (of_nat k) (n + 1) (with_snapshot h s) = Inr lines"
    "snapshotRowsFromDB lines = take (m + 1) (drop k (sh_Rows h))" by (auto simp: nat_add_distrib)
  have latest: "read_tx (map_err mapDBErr (q_GetLatestContestScoreSnapshot (ct_ID c) view)) (with_snapshot h s) = Inr (new_snapshot h s)"
    using latest_is_new [OF order, of h] h by (simp add: read_tx_def map_err_def)
  have sid: "hs_ID (new_snapshot h s) = ?sid" "?sid \<noteq> 0" using order by (auto simp: new_snapshot_def snapshots_in_order_def)
  let ?cur = "coalesce (snapshot_cursor (ct_ID c) view ?sid k) empty_cursor"
  have cur: "(if cu_SnapshotID ?cur \<noteq> 0 then cu_AfterOrdinal ?cur else 0) = of_nat k" "cu_SnapshotID ?cur \<in> {0, ?sid}"
    using sid by (auto simp: snapshot_cursor_def coalesce_def empty_cursor_def)
  have more: "sint n < int (length (take (m + 1) (drop k (sh_Rows h)))) \<longleftrightarrow> k + m < length (sh_Rows h)" using n by auto
  have rows: "take m (take (m + 1) (drop k (sh_Rows h))) = take m (drop k (sh_Rows h))" by (simp add: min_def)
  have len: "k + m < length (sh_Rows h) \<Longrightarrow> length (take m (drop k (sh_Rows h))) = m \<and> take m (drop k (sh_Rows h)) \<noteq> []"
    using n(2) by (auto simp: min_def)
  have all: "\<not> k + m < length (sh_Rows h) \<Longrightarrow> take (m + 1) (drop k (sh_Rows h)) = take m (drop k (sh_Rows h))" by auto
  note page = scoreSnapshotPage_def [of c view n ?cur "with_snapshot h s", unfolded Let_def cur(1) loadScoreSnapshotPage_def latest,
      simplified sid lines map_res_err_def bind_res.simps]
  show ?thesis
  proof (cases "k + m < length (sh_Rows h)")
    case True
    with cur(2) sid lines(1) len n(1) show ?thesis unfolding page
      by (auto simp: map_res_err_def lines(2) more rows snapshot_cursor_def n(1) add.commute)
  next
    case False
    with cur(2) sid lines(1) show ?thesis unfolding page by (auto simp: map_res_err_def lines(2) more all n(1))
  qed
qed

lemma walk_snapshot:
  assumes "snapshots_in_order s" and "length (sh_Rows h) < 2147483647" and "sint n = int m" "0 < m" "m \<le> 100"
    and "sh_ContestID h = ct_ID c" "sh_View h = view"
    and request: "\<And>k. k \<le> length (sh_Rows h) \<Longrightarrow> request (snapshot_cursor (ct_ID c) view (chq_snapshots s) k) =
      scoreSnapshotPage c view n (coalesce (snapshot_cursor (ct_ID c) view (chq_snapshots s) k) empty_cursor) (with_snapshot h s)"
    and "k \<le> length (sh_Rows h)" and "length (sh_Rows h) < k + fuel"
  shows "walk_cursor fuel (\<lambda>cursor. map_res (\<lambda>r. (sr_Rows r, sr_NextCursor r)) (request cursor)) (snapshot_cursor (ct_ID c) view (chq_snapshots s) k)
    = Some (Inr (drop k (sh_Rows h)))"
  using assms(9,10)
proof (induction fuel arbitrary: k)
  case (Suc fuel)
  from snapshot_page [OF assms(1,2) Suc.prems(1) assms(3-7)] request [OF Suc.prems(1)] obtain page where page:
    "request (snapshot_cursor (ct_ID c) view (chq_snapshots s) k) = Inr page" "sr_Rows page = take m (drop k (sh_Rows h))"
    "sr_NextCursor page = (if k + m < length (sh_Rows h) then snapshot_cursor (ct_ID c) view (chq_snapshots s) (k + m) else None)" by auto
  show ?case
  proof (cases "k + m < length (sh_Rows h)")
    case True
    then have "walk_cursor fuel (\<lambda>cursor. map_res (\<lambda>r. (sr_Rows r, sr_NextCursor r)) (request cursor))
        (snapshot_cursor (ct_ID c) view (chq_snapshots s) (k + m)) = Some (Inr (drop (k + m) (sh_Rows h)))"
      using Suc.prems assms(4) by (intro Suc.IH) auto
    moreover have "take m (drop k (sh_Rows h)) @ drop (k + m) (sh_Rows h) = drop k (sh_Rows h)"
      by (metis add.commute append_take_drop_id drop_drop)
    moreover have "\<exists>x. snapshot_cursor (ct_ID c) view (chq_snapshots s) (k + m) = Some x" using assms(4) by (simp add: snapshot_cursor_def)
    ultimately show ?thesis using page True by (auto simp: map_res_def)
  next
    case False
    with page show ?thesis by (simp add: map_res_def)
  qed
qed simp

subsection \<open>From generation to the reader\<close>

definition snapshot_of :: "contest_store \<Rightarrow> contest_record \<Rightarrow> ScoreboardView \<Rightarrow> scoreboard_snapshot" where
  "snapshot_of s c view =
     \<lparr>sh_ID = 0, sh_ContestID = ct_ID c, sh_View = view, sh_Board = board_now s c view, sh_Problems = sr_Problems (board_now s c view),
      sh_Rows = sr_Rows (board_now s c view), sh_SourceRevision = ct_ScoreRevision c, sh_GeneratedAt = go_now (ch_judging s), sh_Created = False\<rparr>"

lemma generate_snapshot_alone:
  assumes "cn_others env = id" and "length (contest_registrations (ct_ID c) s) < 2147482648"
  shows "generate_snapshot env c view s = (case WithTx (createScoreSnapshot (snapshot_of s c view)) s of
     (Inl e, s') \<Rightarrow> (Inl e, s') | (Inr created, s') \<Rightarrow> (Inr (sh_Created created), s'))"
  using buildScoreboard_alone [OF assms, of view] assms(1)
  by (simp add: generate_snapshot_def alone_simps reader_clock_def snapshot_of_def)

lemma length_assign_ranks [simp]: "length (assign_ranks i prev rows) = length rows"
  by (induction rows arbitrary: i prev) (simp_all add: Let_def)

lemma board_rows_bound: "length (sr_Rows (board_now s c view)) \<le> length (contest_registrations (ct_ID c) s)"
  by (simp add: board_now_def Let_def buildBoardFromSubmissions_def buildBoardFromResults_def board_def rankRows_def rowsForRegistrations_def)

lemma reader_with_snapshot:
  "repo_GetContest cid (with_snapshot h s) = repo_GetContest cid s"
  "actorWithContestRoles (reader_at env (with_snapshot h s)) a cid = actorWithContestRoles (reader_at env s) a cid"
  "canReadContestAs (reader_at env (with_snapshot h s)) a c = canReadContestAs (reader_at env s) a c"
  "ch_judging (with_snapshot h s) = ch_judging s"
proof -
  have same: "contest_access_rows (with_snapshot h s) cid uid = contest_access_rows s cid uid" for cid uid
    by (simp add: contest_access_rows_def with_snapshot_def)
  show "repo_GetContest cid (with_snapshot h s) = repo_GetContest cid s"
    by (simp add: repo_GetContest_def read_tx_def map_err_def contest_by_id_def select_row_def with_snapshot_def split: option.split)
  show "actorWithContestRoles (reader_at env (with_snapshot h s)) a cid = actorWithContestRoles (reader_at env s) a cid"
    by (simp add: actorWithContestRoles_def reader_at_def ListContestAccess_def same)
  have "repo_GetRegistration cid uid (with_snapshot h s) = repo_GetRegistration cid uid s" for cid uid
    by (simp add: repo_GetRegistration_def read_tx_def map_err_def registration_row_def select_row_def with_snapshot_def split: option.split)
  then show "canReadContestAs (reader_at env (with_snapshot h s)) a c = canReadContestAs (reader_at env s) a c"
    by (simp add: canReadContestAs_def reader_at_def)
  show "ch_judging (with_snapshot h s) = ch_judging s" by (simp add: with_snapshot_def)
qed

lemma service_snapshot_request:
  assumes "cn_others env = id" and "view = ScoreboardViewFrozen \<or> view = ScoreboardViewFinal"
    and "repo_GetContest (ct_ID c) s = Inr c" and "0 < ct_ID c" and "actorWithContestRoles (reader_at env s) a (ct_ID c) = Inr b"
    and "canReadContestAs (reader_at env s) b c = Inr ()" and "canViewScoreboard (go_now (ch_judging s)) b c view = Inr ()"
    and "1 \<le> sint n" "sint n \<le> 100" and k: "k < 2147483648"
    and cur_def: "cur = snapshot_cursor (ct_ID c) view sid k"
  shows "fst (service_Scoreboard env a (ct_ID c) view n cur s) = scoreSnapshotPage c view n (coalesce cur empty_cursor) s"
proof -
  have "defaultScoreboardView (go_now (ch_judging s)) c view = view" "view \<noteq> []" using assms(2) by (auto simp: defaultScoreboardView_def)
  moreover have "decodeScoreboardCursor cur = Inr (coalesce cur empty_cursor)"
    using assms(2,4) by (auto simp: cur_def decodeScoreboardCursor_def snapshot_cursor_def coalesce_def empty_cursor_def)
  moreover have "validateScoreboardCursor (coalesce cur empty_cursor) (ct_ID c) view = Inr ()"
    using k by (auto simp: cur_def validateScoreboardCursor_def snapshot_cursor_def coalesce_def empty_cursor_def sint_of_nat32)
  moreover have "normalizeScoreboardPageSize n = Inr n" using assms(8,9) by (simp add: normalizeScoreboardPageSize_def)
  ultimately show ?thesis using assms(1-7)
    by (auto simp: service_Scoreboard_def alone_simps scoped_actor_def reader_clock_def Let_def)
qed

text \<open>
  C19: A stored scoreboard is served as it was built. When a frozen or final scoreboard has been generated, a reader
  who may see it and follows the cursors of the scoreboard, whatever the page size, gets exactly the rows of the
  board that the problems, registrations and results of that moment make up, in order, and comes to an end.
\<close>

theorem snapshot_served_whole:
  assumes "cn_others env = id" and "snapshots_in_order s" and "length (contest_registrations (ct_ID c) s) < 2147482648"
    and "generate_snapshot env c view s = (Inr True, s')" and "view = ScoreboardViewFrozen \<or> view = ScoreboardViewFinal"
    and "repo_GetContest (ct_ID c) s = Inr c" and "0 < ct_ID c" and "actorWithContestRoles (reader_at env s) a (ct_ID c) = Inr b"
    and "canReadContestAs (reader_at env s) b c = Inr ()" and "canViewScoreboard (go_now (ch_judging s)) b c view = Inr ()"
    and "1 \<le> sint n" "sint n \<le> 100" and "length (contest_registrations (ct_ID c) s) < fuel"
  shows "walk_cursor fuel (\<lambda>cursor. map_res (\<lambda>r. (sr_Rows r, sr_NextCursor r)) (fst (service_Scoreboard env a (ct_ID c) view n cursor s'))) None
    = Some (Inr (sr_Rows (board_now s c view)))"
proof -
  let ?h = "snapshot_of s c view"
  from assms(4) obtain created where "createScoreSnapshot ?h s = Inr (created, s')" "sh_Created created"
    unfolding generate_snapshot_alone [OF assms(1,3)] by (auto simp: WithTx_def split: sum.splits prod.splits)
  then have s': "s' = with_snapshot ?h s" by (cases rule: createScoreSnapshot_cases) (auto simp: with_snapshot_def)
  have h: "sh_Rows ?h = sr_Rows (board_now s c view)" "sh_ContestID ?h = ct_ID c" "sh_View ?h = view" by (simp_all add: snapshot_of_def)
  have len: "length (sh_Rows ?h) < 2147482648" "length (sh_Rows ?h) < fuel"
    using board_rows_bound [of s c view] assms(3,13) by (simp_all add: snapshot_of_def)
  have n: "sint n = int (nat (sint n))" "0 < nat (sint n)" "nat (sint n) \<le> 100" using assms(11,12) by auto
  have request: "fst (service_Scoreboard env a (ct_ID c) view n (snapshot_cursor (ct_ID c) view (chq_snapshots s) k) s')
      = scoreSnapshotPage c view n (coalesce (snapshot_cursor (ct_ID c) view (chq_snapshots s) k) empty_cursor) (with_snapshot ?h s)"
    if "k \<le> length (sh_Rows ?h)" for k
    unfolding s' using that len(1) by (intro service_snapshot_request [where k = k and sid = "chq_snapshots s" and b = b]) (use assms in \<open>simp_all add: reader_with_snapshot\<close>)
  have small: "length (sh_Rows ?h) < 2147483647" using len(1) by simp
  from walk_snapshot [OF assms(2) small n h(2,3), of "\<lambda>cursor. fst (service_Scoreboard env a (ct_ID c) view n cursor s')" 0 fuel, OF request]
    len(2) show ?thesis by (simp add: snapshot_cursor_def h(1))
qed

subsection \<open>A round of generation\<close>

definition covered :: "contest_store \<Rightarrow> contest_record \<times> ScoreboardView \<Rightarrow> bool" where
  "covered s x \<longleftrightarrow> (\<exists>h \<in> set (ch_snapshots s). hs_ContestID h = ct_ID (fst x) \<and> hs_Kind h = snd x \<and> hs_SourceRevision h = ct_ScoreRevision (fst x))"

definition grown :: "contest_store \<Rightarrow> contest_store \<Rightarrow> bool" where
  "grown s s' \<longleftrightarrow> ch_judging s' = ch_judging s \<and> set (ch_snapshots s) \<subseteq> set (ch_snapshots s')"

lemma foldr_max_less: "foldr max xs z < (v :: int) \<longleftrightarrow> z < v \<and> (\<forall>x \<in> set xs. x < v)"
  by (induction xs) auto

lemma final_due_iff:
  "final_due s now c \<longleftrightarrow> scored_status (ct_Status c) \<and> ct_EndAt c \<le> now \<and> \<not> judging_open (ch_judging s) (ct_ID c)
     \<and> (snapshots_for s (ct_ID c) ScoreboardViewFinal = [] \<or> (\<exists>r \<in> set (registrations_of s). rg_ContestID r = ct_ID c)
          \<and> (\<forall>h \<in> set (snapshots_for s (ct_ID c) ScoreboardViewFinal). hs_SourceRevision h < ct_ScoreRevision c))"
proof -
  let ?xs = "snapshots_for s (ct_ID c) ScoreboardViewFinal"
  have "?xs \<noteq> [] \<Longrightarrow> hd ?xs \<in> set ?xs" by simp
  then show ?thesis unfolding final_due_def Let_def foldr_max_less by auto
qed

lemma covered_not_due: "covered s (c, ScoreboardViewFrozen) \<Longrightarrow> \<not> frozen_due s now c" "covered s (c, ScoreboardViewFinal) \<Longrightarrow> \<not> final_due s now c"
  unfolding frozen_due_def final_due_iff covered_def snapshots_for_def by (auto simp: filter_empty_conv)

lemma due_before_growth:
  assumes "grown s s'"
  shows "frozen_due s' now c \<Longrightarrow> frozen_due s now c" and "final_due s' now c \<Longrightarrow> final_due s now c"
  using assms unfolding frozen_due_def final_due_iff grown_def snapshots_for_def by (auto simp: filter_empty_conv)

lemma grown_covered: "grown s s' \<Longrightarrow> covered s x \<Longrightarrow> covered s' x"
  by (auto simp: grown_def covered_def)

lemma generate_snapshot_effect:
  assumes "cn_others env = id" and "length (contest_registrations (ct_ID c) s) < 2147482648"
    and "generate_snapshot env c view s = (Inr created, s')"
  shows "covered s' (c, view) \<and> grown s s' \<and> length (ch_snapshots s') = length (ch_snapshots s) + (if created then 1 else 0)"
proof -
  from assms(3) obtain made where made: "createScoreSnapshot (snapshot_of s c view) s = Inr (made, s')" "created = sh_Created made"
    unfolding generate_snapshot_alone [OF assms(1,2)] by (auto simp: WithTx_def split: sum.splits prod.splits)
  from made(1) show ?thesis
    by (cases rule: createScoreSnapshot_cases) (auto simp: made(2) covered_def grown_def snapshot_of_def new_snapshot_def)
qed

lemma generate_each_effect:
  assumes "cn_others env = id" and "length (registrations_of s) < 2147482648"
    and "generate_each env xs counts s = ((counts', Inr ()), s')"
  shows "(\<forall>x \<in> set xs. snd x = ScoreboardViewFrozen \<or> snd x = ScoreboardViewFinal \<longrightarrow> covered s' x) \<and> grown s s'
    \<and> length (ch_snapshots s') + fst counts + snd counts = length (ch_snapshots s) + fst counts' + snd counts'"
  using assms(2,3)
proof (induction xs arbitrary: s counts)
  case (Cons x xs)
  obtain c view where x: "x = (c, view)" by (cases x)
  show ?case
  proof (cases "view = ScoreboardViewFrozen \<or> view = ScoreboardViewFinal")
    case True
    with Cons.prems(2) x obtain created s1 where one: "generate_snapshot env c view s = (Inr created, s1)"
      and rest: "generate_each env xs (if \<not> created then counts else if view = ScoreboardViewFrozen then (Suc (fst counts), snd counts)
        else (fst counts, Suc (snd counts))) s1 = ((counts', Inr ()), s')" by (auto split: prod.splits sum.splits)
    have "length (contest_registrations (ct_ID c) s) < 2147482648"
      using le_less_trans [OF length_filter_le Cons.prems(1)] by (simp add: contest_registrations_def)
    note eff = generate_snapshot_effect [OF assms(1) this one]
    with Cons.prems(1) have "length (registrations_of s1) < 2147482648" by (simp add: grown_def)
    note IH = Cons.IH [OF this rest]
    have "grown s s'" using eff IH by (auto simp: grown_def)
    moreover have "covered s' x" using eff IH grown_covered x by blast
    ultimately show ?thesis using IH eff by (auto split: if_splits)
  next
    case False
    with Cons.prems x have "generate_each env xs counts s = ((counts', Inr ()), s')" by auto
    from Cons.IH [OF Cons.prems(1) this] False x show ?thesis by auto
  qed
qed (auto simp: grown_def)

text \<open>
  C20: A round of generation leaves nothing due. When it runs alone, has room for all the scoreboards that are due and
  succeeds, then afterwards no contest has a frozen or final scoreboard due, the contests are as they were, and the
  counts returned are the numbers of snapshots stored.
\<close>

theorem generated_snapshots_current:
  assumes "cn_others env = id" and "length (registrations_of s) < 2147482648" and "now = go_now (ch_judging s)"
    and "GenerateDueScoreSnapshots env limit_n s = ((counts, Inr ()), s')" and "0 < sint limit_n"
    and "int (length (filter (frozen_due s now) (contests_of s)) + length (filter (final_due s now) (contests_of s))) \<le> sint limit_n"
  shows "(\<forall>c \<in> set (contests_of s'). \<not> frozen_due s' now c \<and> \<not> final_due s' now c) \<and> ch_judging s' = ch_judging s
    \<and> length (ch_snapshots s') = length (ch_snapshots s) + fst counts + snd counts"
proof -
  define xs where "xs = map (\<lambda>c. (c, ScoreboardViewFrozen)) (filter (frozen_due s now) (contests_of s))
        @ map (\<lambda>c. (c, ScoreboardViewFinal)) (filter (final_due s now) (contests_of s))"
  have "length (sort_by due_before xs) \<le> nat (sint limit_n)" using assms(6) by (simp add: xs_def nat_le_iff)
  then have "listScoreSnapshotCandidates now limit_n s = Inr (sort_by due_before xs)"
    using assms(5) by (simp add: listScoreSnapshotCandidates_def q_ListContestScoreSnapshotCandidates_def map_res_err_def paged_rows xs_def)
  with assms(1,3,4,5) have "generate_each env (sort_by due_before xs) (0, 0) s = ((counts, Inr ()), s')"
    by (auto simp: GenerateDueScoreSnapshots_def alone_simps reader_clock_def Let_def split: if_splits)
  from generate_each_effect [OF assms(1,2) this] have
    each: "\<And>x. x \<in> set xs \<Longrightarrow> snd x = ScoreboardViewFrozen \<or> snd x = ScoreboardViewFinal \<Longrightarrow> covered s' x" and grown: "grown s s'"
    and count: "length (ch_snapshots s') = length (ch_snapshots s) + fst counts + snd counts" by auto
  have "\<not> frozen_due s' now c \<and> \<not> final_due s' now c" if "c \<in> set (contests_of s')" for c
  proof -
    from that grown have c: "c \<in> set (contests_of s)" by (simp add: grown_def)
    have "\<not> frozen_due s' now c"
      using covered_not_due(1) [of s' c now] each [of "(c, ScoreboardViewFrozen)"] due_before_growth(1) [OF grown, of now c] c by (auto simp: xs_def)
    moreover have "\<not> final_due s' now c"
      using covered_not_due(2) [of s' c now] each [of "(c, ScoreboardViewFinal)"] due_before_growth(2) [OF grown, of now c] c by (auto simp: xs_def)
    ultimately show ?thesis by blast
  qed
  with grown count show ?thesis by (simp add: grown_def)
qed

subsection \<open>An example\<close>

text \<open>A contest that is over, with three participants, one of whom solved its only problem; user 5 judges it.\<close>

definition over_contest :: contest_record where
  "over_contest = sample_contest\<lparr>ct_Status := ContestEnded, ct_ScoreRevision := 4, ct_Problems := []\<rparr>"

definition sample_contest_store :: contest_store where
  "sample_contest_store =
     \<lparr>ch_judging = empty_store\<lparr>db_contests := [over_contest], db_contest_problems := [sample_problem\<lparr>cb_Title := []\<rparr>],
        db_registrations := [sample_registration 2 ''ada'' 1 30, sample_registration 3 ''ben'' 0 0, sample_registration 4 ''cid'' 0 0],
        db_problem_results := [\<lparr>pr_Result = \<lparr>cpr_ContestID = 7, cpr_UserID = 2, cpr_ProblemID = 10, cpr_Status = CellAccepted,
          cpr_Attempts = 1, cpr_AcceptedAt = Some (30 * Minute), cpr_PenaltyMinutes = 30, cpr_LastSubmissionID = Some 1, cpr_UpdatedAt = 0\<rparr>,
          pr_BestSubmissionID = None, pr_BestAttemptID = None, pr_LastAttemptID = None\<rparr>],
        db_users := [1, 2, 3, 4, 5], db_now := 400 * Minute, go_now := 400 * Minute\<rparr>,
      ch_problems = [(10, ''Sum'')], ch_usernames = [(1, ''own''), (5, ''eve'')],
      ch_matrix = [(RoleContestStaff, PermissionContestRead), (RoleContestJudge, PermissionContestRead),
                   (RoleContestJudge, PermissionContestJudge), (RoleContestManager, PermissionContestRead),
                   (RoleContestManager, PermissionContestManage)],
      ch_assignments = [\<lparr>cz_ID = 1, cz_ContestID = 7, cz_UserID = 5, cz_Role = RoleContestJudge, cz_GrantedBy = Some 1, cz_GrantedAt = 0,
                         cz_RevokedAt = None\<rparr>],
      ch_role_events = [], ch_audit = [], ch_snapshots = [], ch_lines = [],
      chq_contests = 8, chq_registrations = 5, chq_assignments = 2, chq_snapshots = 1\<rparr>"

definition sample_contest_env :: contest_env where
  "sample_contest_env = \<lparr>cn_others = id, cn_ilike = (=), cn_collate = (<), cn_sha256hex = (\<lambda>code. ''#'' @ code), cn_hasRoles = True\<rparr>"

definition contest_actor :: "int64 \<Rightarrow> actor" where
  "contest_actor uid = (Anonymous [])\<lparr>ac_UserID := uid\<rparr>"

lemma sample_env_alone: "cn_others sample_contest_env = id"
  by (simp add: sample_contest_env_def)

theorem snapshot_served_whole_witness:
  "walk_cursor 4 (\<lambda>cursor. map_res (\<lambda>r. (sr_Rows r, sr_NextCursor r)) (fst (service_Scoreboard sample_contest_env (contest_actor 3) 7
      ScoreboardViewFinal 2 cursor (snd (generate_snapshot sample_contest_env over_contest ScoreboardViewFinal sample_contest_store))))) None
   = Some (Inr (sr_Rows (board_now sample_contest_store over_contest ScoreboardViewFinal)))"
proof -
  let ?g = "generate_snapshot sample_contest_env over_contest ScoreboardViewFinal sample_contest_store"
  have id7: "ct_ID over_contest = 7" by (simp add: over_contest_def sample_contest_def)
  have order: "snapshots_in_order sample_contest_store" by code_simp
  have few: "length (contest_registrations (ct_ID over_contest) sample_contest_store) < 2147482648"
    "length (contest_registrations (ct_ID over_contest) sample_contest_store) < 4"
    by (simp_all add: contest_registrations_def sample_contest_store_def sample_registration_def id7)
  have "fst ?g = Inr True" by code_simp
  then have g: "?g = (Inr True, snd ?g)" by (simp add: prod_eq_iff)
  have c: "repo_GetContest (ct_ID over_contest) sample_contest_store = Inr over_contest" "0 < ct_ID over_contest"
    by (simp_all add: repo_GetContest_def read_tx_def map_err_def contest_by_id_def select_row_def sample_contest_store_def id7)
  have b: "actorWithContestRoles (reader_at sample_contest_env sample_contest_store) (contest_actor 3) (ct_ID over_contest) = Inr (contest_actor 3)"
    by (simp add: actorWithContestRoles_def reader_at_def sample_contest_env_def ListContestAccess_def contest_access_rows_def
        sample_contest_store_def contest_actor_def Authenticated_def id7 Anonymous_def map_res_def)
  have r: "canReadContestAs (reader_at sample_contest_env sample_contest_store) (contest_actor 3) over_contest = Inr ()"
    by (simp add: canReadContestAs_def over_contest_def sample_contest_def)
  have v: "canViewScoreboard (go_now (ch_judging sample_contest_store)) (contest_actor 3) over_contest ScoreboardViewFinal = Inr ()" by code_simp
  have n: "1 \<le> sint (2 :: int32)" "sint (2 :: int32) \<le> 100" by simp_all
  from snapshot_served_whole [OF sample_env_alone order few(1) g _ c b r v n few(2)] show ?thesis unfolding id7 by blast
qed

theorem generated_snapshots_current_witness:
  "let s' = snd (GenerateDueScoreSnapshots sample_contest_env 10 sample_contest_store)
   in length (ch_snapshots s') = 2 \<and> filter (final_due s' (400 * Minute)) (contests_of s') = []"
proof -
  let ?s = sample_contest_store
  have ran: "fst (GenerateDueScoreSnapshots sample_contest_env 10 ?s) = ((1, 1), Inr ())" by code_simp
  obtain s' where s': "GenerateDueScoreSnapshots sample_contest_env 10 ?s = (((1, 1), Inr ()), s')"
    using ran by (cases "GenerateDueScoreSnapshots sample_contest_env 10 ?s") simp
  have now: "400 * Minute = go_now (ch_judging ?s)" and few: "length (registrations_of ?s) < 2147482648" and none: "ch_snapshots ?s = []"
    by (simp_all add: sample_contest_store_def)
  have room: "int (length (filter (frozen_due ?s (400 * Minute)) (contests_of ?s)) + length (filter (final_due ?s (400 * Minute)) (contests_of ?s)))
      \<le> sint (10 :: int32)" by code_simp
  have "0 < sint (10 :: int32)" by simp
  from generated_snapshots_current [OF sample_env_alone few now s' this room] none s' show ?thesis
    by (auto simp: Let_def filter_empty_conv)
qed

end
