(* ===== verification/Contest_Access.thy ===== *)
theory Contest_Access
  imports Contest_Snapshots
begin

section \<open>Who may do what in a contest\<close>

text \<open>
  Requests to the contest service in any order, with other processes in between: private contests always have
  an invite code, and nobody registers for one without it.
\<close>

subsection \<open>Requests\<close>

datatype contest_request =
    Creating_contest actor contest_input | Editing_contest actor int64 contest_update_input | Archiving_contest actor int64
  | Entering actor int64 registration_input | Appointing actor int64 contest_role_grant_input
  | Dismissing actor int64 int64 string string | Storing_boards int32

fun serve_contest :: "contest_env \<Rightarrow> contest_request \<Rightarrow> contest_store \<Rightarrow> contest_store" where
  "serve_contest env (Creating_contest a i) s = snd (CreateContest env a i s)"
| "serve_contest env (Editing_contest a cid i) s = snd (service_UpdateContest env a cid i s)"
| "serve_contest env (Archiving_contest a cid) s = snd (service_DeleteContest env a cid s)"
| "serve_contest env (Entering a cid i) s = snd (policy_Register env a cid i s)"
| "serve_contest env (Appointing a cid i) s = snd (service_GrantContestRole env a cid i s)"
| "serve_contest env (Dismissing a cid uid role reason) s = snd (service_RevokeContestRole env a cid uid role reason s)"
| "serve_contest env (Storing_boards limit_n) s = snd (GenerateDueScoreSnapshots env limit_n s)"

subsection \<open>What each transaction keeps\<close>

definition contest_table :: "contest_store \<Rightarrow> contest_record list \<times> int64" where
  "contest_table s = (contests_of s, chq_contests s)"

lemma keeps_res: "keeps view (\<lambda>s. case r of Inl e \<Rightarrow> Inl e | Inr x \<Rightarrow> Inr (x, s))"
  by (auto simp: keeps_def split: sum.splits)

lemma keeps_replace_problems:
  assumes "\<And>rows s. view (set_problems rows s) = view s"
  shows "keeps view (replaceContestProblems cid problems)"
proof -
  have "keeps view (q_AddContestProblem cid p)" for p
    using assms unfolding keeps_def q_AddContestProblem_def Let_def by (auto simp: tx_simps foreign_tx_Inr)
  moreover have "keeps view (q_DeleteContestProblems cid)" using assms by (auto simp: keeps_def q_DeleteContestProblems_def)
  ultimately show ?thesis unfolding replaceContestProblems_def by (intro keeps_intros)
qed

lemma create_contest_row:
  assumes "create_contest_tx c problems s = Inr (x, s')"
  shows "\<exists>row. contests_of s' = contests_of s @ [row] \<and> chq_contests s' = chq_contests s + 1 \<and> ct_ID row = chq_contests s \<and> contest_constraints row
    \<and> ct_Visibility row = ct_Visibility c \<and> ct_InviteCodeHash row = ct_InviteCodeHash c"
proof -
  from assms obtain row s1 where made: "q_CreateContest c s = Inr (row, s1)"
    and rest: "replaceContestProblems (ct_ID row) (map (\<lambda>p. p\<lparr>cb_ContestID := ct_ID row\<rparr>) problems) s1 = Inr ((), s')"
    by (auto simp: create_contest_tx_def createContest_def tx_simps map_err_Inr Let_def)
  have "contest_table s' = contest_table s1"
    by (rule keepsD [OF keeps_replace_problems rest]) (simp add: contest_table_def)
  moreover from made have "contests_of s1 = contests_of s @ [row]" "chq_contests s1 = chq_contests s + 1" "ct_ID row = chq_contests s"
    "contest_constraints row" "ct_Visibility row = ct_Visibility c" "ct_InviteCodeHash row = ct_InviteCodeHash c"
    by (auto simp: q_CreateContest_def Let_def tx_simps foreign_tx_Inr)
  ultimately show ?thesis by (auto simp: contest_table_def)
qed

lemma update_contest_row:
  assumes "update_contest_tx env a cid i s = Inr (x, s')"
  shows "\<exists>c f. List.find (\<lambda>c. ct_ID c = cid) (contests_of s) = Some c \<and> f = with_contest_fields (cn_sha256hex env) i (contest_now s)
    \<and> contests_of s' = update_rows (\<lambda>c. ct_ID c = cid) f (contests_of s) \<and> contest_constraints (f c) \<and> chq_contests s' = chq_contests s"
proof -
  let ?rest = "\<lambda>updated. case contest_update_input.ui_Problems i of
         Some inputs \<Rightarrow>
           bind_tx (\<lambda>s. case contestProblems cid inputs of Inl e \<Rightarrow> Inl e | Inr problems \<Rightarrow> Inr (problems, s)) (\<lambda>problems.
           bind_tx (replaceContestProblems cid problems) (\<lambda>_.
             return_tx (updated\<lparr>ct_Problems := problems, ct_Registered := actorRegisteredForContest (reader_at env s) a (ct_ID updated),
               ct_CurrentUserRoles := currentUserRoles (reader_at env s) a (ct_ID updated)\<rparr>)))
       | None \<Rightarrow> (\<lambda>s'. case withFrontendContract (reader_at env s) a updated of Inl e \<Rightarrow> Inl e | Inr c \<Rightarrow> Inr (c, s'))"
  have keeps: "keeps contest_table (?rest u)" for u
    by (intro keeps_intros keeps_res keeps_replace_problems) (simp add: contest_table_def)
  from assms obtain u s1 where up: "q_UpdateContest (cn_sha256hex env) cid i s = Inr (u, s1)" and "?rest u s1 = Inr (x, s')"
    unfolding update_contest_tx_def updateContest_def bind_tx_Inr map_err_Inr by blast
  from keepsD [OF keeps this(2)] have rest: "contest_table s' = contest_table s1" .
  from up obtain c where "List.find (\<lambda>c. ct_ID c = cid) (contests_of s) = Some c"
    "contests_of s1 = update_rows (\<lambda>c. ct_ID c = cid) (with_contest_fields (cn_sha256hex env) i (contest_now s)) (contests_of s)"
    "contest_constraints (with_contest_fields (cn_sha256hex env) i (contest_now s) c)" "chq_contests s1 = chq_contests s"
    by (auto simp: q_UpdateContest_def tx_simps)
  with rest show ?thesis by (auto simp: contest_table_def)
qed

lemma other_tables:
  "archive_contest_tx a cid s = Inr (x, s1) \<Longrightarrow> \<exists>t. contests_of s1 = update_rows (\<lambda>c. ct_ID c = cid) (\<lambda>c. c\<lparr>ct_Status := ContestArchived, ct_UpdatedAt := t\<rparr>) (contests_of s)
     \<and> chq_contests s1 = chq_contests s"
  "createRegistration r s = Inr (y, s2) \<Longrightarrow> contest_table s2 = contest_table s"
  "contest_table (snd (repo_GrantContestRole cid uid role g reason s)) = contest_table s"
  "contest_table (snd (repo_RevokeContestRole cid uid role g reason s)) = contest_table s"
  "createScoreSnapshot h s = Inr (z, s3) \<Longrightarrow> contest_table s3 = contest_table s"
proof -
  show "archive_contest_tx a cid s = Inr (x, s1) \<Longrightarrow> \<exists>t. contests_of s1 = update_rows (\<lambda>c. ct_ID c = cid) (\<lambda>c. c\<lparr>ct_Status := ContestArchived, ct_UpdatedAt := t\<rparr>) (contests_of s)
     \<and> chq_contests s1 = chq_contests s"
    by (auto simp: archive_contest_tx_def repo_ArchiveContest_def q_ArchiveContest_def tx_simps map_err_Inr audit_Insert_Inr)
  show "createRegistration r s = Inr (y, s2) \<Longrightarrow> contest_table s2 = contest_table s"
    by (auto simp: createRegistration_def q_CreateContestRegistration_def Let_def tx_simps foreign_tx_Inr map_err_Inr contest_table_def)
  show "contest_table (snd (repo_GrantContestRole cid uid role g reason s)) = contest_table s"
    by (auto simp: repo_GrantContestRole_def WithTx_def grant_contest_role_tx_def insert_contest_assignment_def record_role_event_def Let_def
        tx_simps foreign_tx_Inr map_err_Inr contest_table_def split: sum.splits if_splits)
  show "contest_table (snd (repo_RevokeContestRole cid uid role g reason s)) = contest_table s"
    by (auto simp: repo_RevokeContestRole_def WithTx_def revoke_contest_role_tx_def revoke_contest_assignments_def record_role_event_def Let_def
        tx_simps contest_table_def split: sum.splits if_splits)
  show "createScoreSnapshot h s = Inr (z, s3) \<Longrightarrow> contest_table s3 = contest_table s"
    by (erule createScoreSnapshot_cases) (simp_all add: contest_table_def)
qed

subsection \<open>Contests stay well formed\<close>

definition contests_sound :: "contest_store \<Rightarrow> bool" where
  "contests_sound s \<longleftrightarrow> distinct (map ct_ID (contests_of s))
     \<and> (\<forall>c \<in> set (contests_of s). ct_ID c < chq_contests s \<and> contest_constraints c
          \<and> (ct_Visibility c = VisibilityPrivate \<longrightarrow> ct_InviteCodeHash c \<noteq> []))"

definition coded :: "contest_store \<Rightarrow> int64 \<Rightarrow> bool" where
  "coded s cid \<longleftrightarrow> (\<exists>c \<in> set (contests_of s). ct_ID c = cid \<and> ct_InviteCodeHash c \<noteq> [])"

text \<open>What the processes keep: well-formed contests, and once a contest has an invite code it has one for good.\<close>

definition contests_kept :: "contest_store \<Rightarrow> contest_store \<Rightarrow> bool" where
  "contests_kept s s' \<longleftrightarrow> (contests_sound s \<longrightarrow> contests_sound s' \<and> (\<forall>cid. coded s cid \<longrightarrow> coded s' cid))"

interpretation codes: rely_guarantee contests_kept
  by unfold_locales (auto simp: contests_kept_def)

lemma same_table_kept: "contest_table s' = contest_table s \<Longrightarrow> contests_kept s s'"
  by (simp add: contests_kept_def contests_sound_def coded_def contest_table_def)

text \<open>A rewrite of the rows of one contest that keeps identity, validity and code.\<close>

lemma update_kept:
  assumes "contests_of s' = update_rows (\<lambda>c. ct_ID c = cid) f (contests_of s)" and "chq_contests s' = chq_contests s"
    and "\<And>c. ct_ID (f c) = ct_ID c" and "\<And>c. ct_InviteCodeHash c \<noteq> [] \<Longrightarrow> ct_InviteCodeHash (f c) \<noteq> []"
    and "\<And>c. contests_sound s \<Longrightarrow> c \<in> set (contests_of s) \<Longrightarrow> ct_ID c = cid \<Longrightarrow>
      contest_constraints (f c) \<and> (ct_Visibility (f c) = VisibilityPrivate \<longrightarrow> ct_InviteCodeHash (f c) \<noteq> [])"
  shows "contests_kept s s'"
  unfolding contests_kept_def
proof (intro impI conjI allI)
  assume sound: "contests_sound s"
  have "map ct_ID (contests_of s') = map ct_ID (contests_of s)" unfolding assms(1) by (rule map_update_rows) (simp add: assms(3))
  with sound show "contests_sound s'" using assms(5) [OF sound]
    unfolding contests_sound_def assms(1,2) set_update_rows by (auto simp: assms(3))
  show "coded s' k" if "coded s k" for k
  proof -
    from that obtain c where c: "c \<in> set (contests_of s)" "ct_ID c = k" "ct_InviteCodeHash c \<noteq> []" by (auto simp: coded_def)
    let ?d = "if ct_ID c = cid then f c else c"
    have "?d \<in> set (contests_of s')" using c(1) unfolding assms(1) update_rows_def by (auto simp: image_iff)
    moreover have "ct_ID ?d = k" "ct_InviteCodeHash ?d \<noteq> []" using c(2,3) assms(3,4) by auto
    ultimately show ?thesis unfolding coded_def by blast
  qed
qed

lemma hashed: "\<forall>x. sha256hex x \<noteq> [] \<Longrightarrow> hashInviteCode sha256hex code = [] \<longleftrightarrow> TrimSpace code = []"
  by (simp add: hashInviteCode_def Let_def)

lemma validated_code:
  assumes "validateContestUpdate current i = Inr ()" and "coalesce (contest_update_input.ui_Visibility i) (ct_Visibility current) = VisibilityPrivate"
  shows "case contest_update_input.ui_InviteCode i of None \<Rightarrow> ct_InviteCodeHash current \<noteq> [] | Some code \<Rightarrow> TrimSpace code \<noteq> []"
proof -
  have idem: "TrimSpace [] = []" by code_simp
  let ?code = "case contest_update_input.ui_InviteCode i of None \<Rightarrow> ct_InviteCodeHash current | Some c \<Rightarrow> TrimSpace c"
  from assms have "TrimSpace ?code \<noteq> []"
    unfolding validateContestUpdate_def Let_def coalesce_def by (cases "TrimSpace ?code = []") simp_all
  with idem show ?thesis by (auto split: option.splits)
qed

lemma update_contest_kept:
  assumes sha: "\<forall>x. cn_sha256hex env x \<noteq> []" and valid: "validateContestUpdate current i = Inr ()"
    and code: "ct_InviteCodeHash current \<noteq> [] \<Longrightarrow> coded s cid" and up: "update_contest_tx env a cid i s = Inr (x, s')"
  shows "contests_kept s s'"
proof -
  let ?f = "with_contest_fields (cn_sha256hex env) i (contest_now s)"
  from update_contest_row [OF up] obtain c0 where row: "List.find (\<lambda>c. ct_ID c = cid) (contests_of s) = Some c0"
    "contests_of s' = update_rows (\<lambda>c. ct_ID c = cid) ?f (contests_of s)" "contest_constraints (?f c0)" "chq_contests s' = chq_contests s" by blast
  show ?thesis
  proof (rule update_kept [OF row(2,4)])
    show "ct_ID (?f c) = ct_ID c" for c by (simp add: with_contest_fields_def)
    show "ct_InviteCodeHash c \<noteq> [] \<Longrightarrow> ct_InviteCodeHash (?f c) \<noteq> []" for c
      by (auto simp: with_contest_fields_def coalesce_def textValuePtr_def split: option.splits)
    fix c assume sound: "contests_sound s" and c: "c \<in> set (contests_of s)" "ct_ID c = cid"
    have only: "d = c" if "d \<in> set (contests_of s)" "ct_ID d = cid" for d
      using sound c that by (auto simp: contests_sound_def distinct_map dest: inj_onD)
    have "c0 = c" using row(1) only by (auto simp: find_Some_iff)
    moreover have "ct_InviteCodeHash (?f c) \<noteq> []" if "ct_Visibility (?f c) = VisibilityPrivate"
    proof (cases "contest_update_input.ui_Visibility i")
      case None
      with that sound c have "ct_InviteCodeHash c \<noteq> []" by (auto simp: contests_sound_def with_contest_fields_def coalesce_def)
      then show ?thesis by (auto simp: with_contest_fields_def coalesce_def textValuePtr_def split: option.splits)
    next
      case (Some v)
      with that have "coalesce (contest_update_input.ui_Visibility i) (ct_Visibility current) = VisibilityPrivate"
        by (simp add: with_contest_fields_def coalesce_def)
      from validated_code [OF valid this] show ?thesis
        using code only sha by (auto simp: with_contest_fields_def coalesce_def textValuePtr_def hashed coded_def split: option.splits)
    qed
    ultimately show "contest_constraints (?f c) \<and> (ct_Visibility (?f c) = VisibilityPrivate \<longrightarrow> ct_InviteCodeHash (?f c) \<noteq> [])"
      using row(3) by blast
  qed
qed

lemma create_contest_kept:
  assumes "create_contest_tx c problems s = Inr (x, s')" and "ct_Visibility c = VisibilityPrivate \<Longrightarrow> ct_InviteCodeHash c \<noteq> []"
  shows "contests_kept s s'"
proof -
  from create_contest_row [OF assms(1)] obtain row where row: "contests_of s' = contests_of s @ [row]" "chq_contests s' = chq_contests s + 1"
    "ct_ID row = chq_contests s" "contest_constraints row" "ct_Visibility row = ct_Visibility c" "ct_InviteCodeHash row = ct_InviteCodeHash c" by blast
  then show ?thesis using assms(2) by (force simp: contests_kept_def contests_sound_def coded_def)
qed

lemma archive_contest_kept: "archive_contest_tx a cid s = Inr (x, s') \<Longrightarrow> contests_kept s s'"
proof -
  assume "archive_contest_tx a cid s = Inr (x, s')"
  from other_tables(1) [OF this] obtain t where t: "contests_of s' = update_rows (\<lambda>c. ct_ID c = cid) (\<lambda>c. c\<lparr>ct_Status := ContestArchived, ct_UpdatedAt := t\<rparr>) (contests_of s)"
    "chq_contests s' = chq_contests s" by blast
  show ?thesis by (rule update_kept [OF t]) (auto simp: contests_sound_def contest_constraints_def validStatus_def)
qed

subsection \<open>Every request keeps them so\<close>

abbreviation keeps_codes :: "contest_env \<Rightarrow> bool" where
  "keeps_codes env \<equiv> \<forall>s. contests_kept s (cn_others env s)"

lemma codes_read: "keeps_codes env \<Longrightarrow> codes.sat P (contest_read env f) (\<lambda>_ _. True)"
  unfolding contest_read_def by (rule codes.sat_call) (auto simp: codes.evolves_refl)

lemma codes_call:
  assumes "keeps_codes env" and "\<And>s. P s \<Longrightarrow> contests_kept s (snd (op s))"
  shows "codes.sat P (contest_call env op) (\<lambda>_ _. True)"
  unfolding contest_call_def by (rule codes.sat_call) (use assms in \<open>auto dest: assms(2)\<close>)

lemma codes_res: "codes.sat P (of_res r) (\<lambda>x _. r = Inr x)"
  by (auto simp: codes.sat_def of_res_def codes.evolves_refl)

lemma codes_clock: "codes.sat P reader_clock (\<lambda>_ _. True)"
  by (auto simp: codes.sat_def reader_clock_def codes.evolves_refl)

lemma codes_return: "codes.sat P (return_act x) (\<lambda>_ _. True)"
  by (rule codes.sat_return) simp

lemma stable_sound: "codes.stable contests_sound"
  by (auto simp: codes.stable_def contests_kept_def)

lemma stable_coded: "codes.stable (\<lambda>s. contests_sound s \<and> (b \<longrightarrow> coded s cid))"
  by (auto simp: codes.stable_def contests_kept_def)

lemma WithTx_kept: "(\<And>x s'. m s = Inr (x, s') \<Longrightarrow> contests_kept s s') \<Longrightarrow> contests_kept s (snd (WithTx m s))"
  by (auto simp: WithTx_def codes.evolves_refl split: sum.split prod.split)

lemma codes_get: "keeps_codes env \<Longrightarrow>
  codes.sat contests_sound (contest_read env (repo_GetContest cid)) (\<lambda>c s. contests_sound s \<and> (ct_InviteCodeHash c \<noteq> [] \<longrightarrow> coded s cid))"
  unfolding contest_read_def
  by (rule codes.sat_call [OF _ stable_coded])
    (auto simp: codes.evolves_refl repo_GetContest_def read_tx_def map_err_def contest_by_id_def select_row_def coded_def find_Some_iff
      split: option.splits)

lemma codes_pure: "codes.sat P (of_res r) (\<lambda>_ _. True)"
  by (rule codes.sat_post [OF codes_res]) simp

lemma codes_then: "codes.sat contests_sound m (\<lambda>_ _. True) \<Longrightarrow> (\<And>x. codes.sat contests_sound (k x) R) \<Longrightarrow> codes.sat contests_sound (bind_act m k) R"
  by (rule codes.sat_then [OF stable_sound])

lemma codes_scoped: "keeps_codes env \<Longrightarrow> codes.sat P (scoped_actor env a cid) (\<lambda>_ _. True)"
  unfolding scoped_actor_def by (rule codes_read)

lemmas codes_rules = codes_then codes_pure codes_return codes.sat_fail codes.sat_if codes.sat_sum codes.sat_option codes.sat_prod codes_clock

lemma codes_manager: "keeps_codes env \<Longrightarrow> codes.sat contests_sound (contest_manager env a cid) (\<lambda>_ _. True)"
  unfolding contest_manager_def by (intro codes_rules codes_read codes_scoped)

lemma codes_create:
  assumes sha: "\<forall>x. cn_sha256hex env x \<noteq> []" and o: "keeps_codes env"
  shows "codes.sat contests_sound (CreateContest env a i) (\<lambda>_ _. True)"
proof -
  have valid: "hashInviteCode (cn_sha256hex env) (contest_input.ci_InviteCode j) \<noteq> []"
    if "validateContestInput j = Inr u" "contest_input.ci_Visibility j = VisibilityPrivate" for j u
    using that sha by (auto simp: validateContestInput_def hashed split: if_splits)
  show ?thesis unfolding CreateContest_def Let_def
    by (rule codes_then [OF codes_pure], rule codes.sat_bind_pure [OF stable_sound codes_res],
        intro codes_then codes_pure codes_call [OF o] WithTx_kept, erule create_contest_kept,
        simp only: contest_record.select_convs, erule (1) valid)
qed

lemma codes_update:
  assumes sha: "\<forall>x. cn_sha256hex env x \<noteq> []" and o: "keeps_codes env"
  shows "codes.sat contests_sound (authoring_UpdateContest env a cid i) (\<lambda>_ _. True)"
  unfolding authoring_UpdateContest_def
proof (rule codes.sat_bind [OF stable_sound codes_get [OF o]])
  fix current :: contest_record
  let ?P = "\<lambda>s. contests_sound s \<and> (contests_sound s \<and> (ct_InviteCodeHash current \<noteq> [] \<longrightarrow> coded s cid))"
  have stable: "codes.stable ?P" by (auto simp: codes.stable_def contests_kept_def)
  show "codes.sat ?P (bind_act (of_res (requireContestManager a current)) (\<lambda>_.
     bind_act (of_res (validateContestUpdate current i)) (\<lambda>_. contest_call env (WithTx (update_contest_tx env a cid i))))) (\<lambda>_ _. True)"
    by (intro codes.sat_then [OF stable codes_pure] codes.sat_bind_pure [OF stable codes_res] codes_call [OF o] WithTx_kept)
      (auto intro: update_contest_kept [OF sha])
qed

lemma registrations_kept: "\<forall>s. contests_kept s (others s) \<Longrightarrow> contests_kept s (snd (list_registrations_from others cid offset s))"
proof (induction others cid offset s rule: list_registrations_from.induct)
  case (1 others cid offset s)
  show ?case
  proof (cases "\<exists>rows. q_ListContestRegistrations cid 1000 offset s = Inr rows \<and> \<not> length rows < 1000")
    case True
    then obtain rows where rows: "q_ListContestRegistrations cid 1000 offset s = Inr rows" "\<not> length rows < 1000" by blast
    from "1.IH" [OF rows "1.prems"] codes.evolves_trans "1.prems" have
      "contests_kept s (snd (list_registrations_from others cid (offset + 1000) (others s)))" by blast
    then show ?thesis using rows by (subst list_registrations_from.simps) (simp add: split_def)
  next
    case False
    with "1.prems" show ?thesis by (subst list_registrations_from.simps) (auto split: sum.splits)
  qed
qed

lemma codes_registrations: "keeps_codes env \<Longrightarrow> codes.sat P (listRegistrations (cn_others env) cid) (\<lambda>_ _. True)"
  by (auto simp: codes.sat_def listRegistrations_def intro: registrations_kept)

lemma codes_snapshot: "keeps_codes env \<Longrightarrow> codes.sat contests_sound (generate_snapshot env c view) (\<lambda>_ _. True)"
  unfolding generate_snapshot_def buildScoreboard_def Let_def
  by (intro codes_rules codes_read codes_registrations codes_call WithTx_kept same_table_kept other_tables(5))

lemma kept_when_sound: "(contests_sound s \<Longrightarrow> contests_kept s s') \<Longrightarrow> contests_kept s s'"
  by (auto simp: contests_kept_def)

lemma generate_each_kept: "keeps_codes env \<Longrightarrow> contests_kept s (snd (generate_each env xs counts s))"
proof (induction xs arbitrary: counts s)
  case (Cons x xs)
  obtain c view where x: "x = (c, view)" by (cases x)
  have "contests_kept s (snd (generate_snapshot env c view s))"
    by (rule kept_when_sound) (rule codes.satD [OF codes_snapshot [OF Cons.prems]])
  then have one: "contests_kept s s1" if "generate_snapshot env c view s = (r, s1)" for r s1 using that by simp
  note rest = Cons.IH [OF Cons.prems]
  show ?case
  proof (cases "generate_snapshot env c view s")
    case (Pair r s1)
    show ?thesis
    proof (cases r)
      case (Inl e)
      with Pair x one [OF Pair] rest show ?thesis by simp
    next
      case (Inr made)
      with Pair x codes.evolves_trans [OF one [OF Pair] rest] rest show ?thesis by simp
    qed
  qed
qed (simp add: codes.evolves_refl)

lemma sat_kept: "codes.sat contests_sound m Q \<Longrightarrow> contests_kept s (snd (m s))"
  by (rule kept_when_sound) (rule codes.satD)

lemma GenerateDue_kept:
  assumes "keeps_codes env"
  shows "contests_kept s (snd (GenerateDueScoreSnapshots env limit_n s))"
proof -
  let ?list = "bind_act reader_clock (\<lambda>now. contest_read env (listScoreSnapshotCandidates now (if sint limit_n \<le> 0 then 100 else limit_n)))"
  have "codes.sat contests_sound ?list (\<lambda>_ _. True)" by (intro codes_rules codes_read assms)
  then have first: "contests_kept s s1" if "?list s = (r, s1)" for r s1 using that sat_kept [of ?list _ s] by simp
  show ?thesis
  proof (cases "?list s")
    case (Pair r s1)
    with first [OF Pair] codes.evolves_trans [OF first [OF Pair] generate_each_kept [OF assms]] show ?thesis
      by (cases r) (simp_all add: GenerateDueScoreSnapshots_def Let_def)
  qed
qed

lemma serve_contest_kept:
  assumes sha: "\<forall>x. cn_sha256hex env x \<noteq> []" and o: "keeps_codes env"
  shows "contests_kept s (serve_contest env req s)"
proof (cases req)
  case (Creating_contest a i)
  then show ?thesis using sat_kept [OF codes_create [OF assms], of s a i] by simp
next
  case (Editing_contest a cid i)
  have "codes.sat contests_sound (service_UpdateContest env a cid i) (\<lambda>_ _. True)"
    unfolding service_UpdateContest_def by (intro codes_then codes_scoped codes_update assms)
  from sat_kept [OF this, of s] Editing_contest show ?thesis by simp
next
  case (Archiving_contest a cid)
  have "codes.sat contests_sound (service_DeleteContest env a cid) (\<lambda>_ _. True)"
    unfolding service_DeleteContest_def authoring_DeleteContest_def
    by (intro codes_rules codes_scoped codes_read codes_call WithTx_kept o) (rule archive_contest_kept)
  from sat_kept [OF this, of s] Archiving_contest show ?thesis by simp
next
  case (Entering a cid i)
  have "codes.sat contests_sound (policy_Register env a cid i) (\<lambda>_ _. True)"
    unfolding policy_Register_def by (intro codes_rules codes_scoped codes_read codes_call WithTx_kept o same_table_kept other_tables(2))
  from sat_kept [OF this, of s] Entering show ?thesis by simp
next
  case (Appointing a cid i)
  have "codes.sat contests_sound (service_GrantContestRole env a cid i) (\<lambda>_ _. True)"
    unfolding service_GrantContestRole_def by (intro codes_rules codes_manager codes_call o same_table_kept other_tables(3))
  from sat_kept [OF this, of s] Appointing show ?thesis by simp
next
  case (Dismissing a cid uid r reason)
  have "codes.sat contests_sound (service_RevokeContestRole env a cid uid r reason) (\<lambda>_ _. True)"
    unfolding service_RevokeContestRole_def by (intro codes_rules codes_manager codes_call o same_table_kept other_tables(4))
  from sat_kept [OF this, of s] Dismissing show ?thesis by simp
next
  case (Storing_boards limit_n)
  then show ?thesis using GenerateDue_kept [OF o] by simp
qed

text \<open>
  C18: A private contest always has an invite code. After any sequence of requests, interleaved with other processes,
  every contest has a valid window, and a private one has the hash of an invite code, which nobody can enter
  without: a registration that succeeds carried a code with that hash.
\<close>

theorem private_contests_need_code:
  assumes "\<forall>x. cn_sha256hex env x \<noteq> []" and "\<forall>s. contests_kept s (cn_others env s)" and "contests_sound s"
    and "s' = fold (serve_contest env) reqs s" and "c \<in> set (contests_of s')"
  shows "contest_constraints c \<and> (ct_Visibility c = VisibilityPrivate \<longrightarrow> ct_InviteCodeHash c \<noteq> []
    \<and> (\<forall>a input r t. policy_Register env a (ct_ID c) input s' = (Inr r, t) \<longrightarrow>
         cn_sha256hex env (TrimSpace (registration_input.ri_InviteCode input)) = ct_InviteCodeHash c))"
proof -
  have "contests_kept s (fold (serve_contest env) reqs s)"
  proof (induction reqs arbitrary: s)
    case (Cons req reqs)
    from codes.evolves_trans [OF serve_contest_kept [OF assms(1,2)] Cons.IH] show ?case by simp
  qed (simp add: codes.evolves_refl)
  with assms(3,4) have sound: "contests_sound s'" by (simp add: contests_kept_def)
  have "cn_sha256hex env (TrimSpace (registration_input.ri_InviteCode input)) = ct_InviteCodeHash c"
    if ok: "policy_Register env a (ct_ID c) input s' = (Inr r, t)" and priv: "ct_Visibility c = VisibilityPrivate" for a input r t
  proof -
    have "repo_GetContest (ct_ID c) s' = Inr c"
      using find_by_key [of ct_ID "contests_of s'" c] sound assms(5)
      by (simp add: repo_GetContest_def read_tx_def map_err_def contest_by_id_def select_row_def contests_sound_def)
    with ok priv show ?thesis
      by (auto simp: policy_Register_def contest_read_def call_def bind_act_simps of_res_def fail_act_def registration_allowed_def
          hashInviteCode_def Let_def split: if_splits prod.splits sum.splits)
  qed
  with sound assms(5) show ?thesis by (auto simp: contests_sound_def)
qed

definition closing :: contest_update_input where
  "closing = \<lparr>contest_update_input.ui_Title = None, contest_update_input.ui_Description = None, contest_update_input.ui_Visibility = Some VisibilityPrivate, contest_update_input.ui_Status = None, contest_update_input.ui_StartAt = None,
     contest_update_input.ui_EndAt = None, contest_update_input.ui_FreezeAt = None, contest_update_input.ui_InviteCode = Some ''code'', contest_update_input.ui_Problems = None\<rparr>"

theorem private_contests_need_code_witness:
  "let s' = fold (serve_contest sample_contest_env) [Editing_contest (contest_actor 1) 7 closing] sample_contest_store
   in ct_Visibility (hd (contests_of s')) = VisibilityPrivate \<and> contest_constraints (hd (contests_of s')) \<and> ct_InviteCodeHash (hd (contests_of s')) \<noteq> []"
proof -
  let ?s = "fold (serve_contest sample_contest_env) [Editing_contest (contest_actor 1) 7 closing] sample_contest_store"
  have sha: "\<forall>x. cn_sha256hex sample_contest_env x \<noteq> []" by (simp add: sample_contest_env_def)
  have alone: "\<forall>s. contests_kept s (cn_others sample_contest_env s)" by (simp add: sample_env_alone codes.evolves_refl)
  have sound: "contests_sound sample_contest_store" by code_simp
  have priv: "ct_Visibility (hd (contests_of ?s)) = VisibilityPrivate" by code_simp
  have "contests_of ?s \<noteq> []" by code_simp
  then have "hd (contests_of ?s) \<in> set (contests_of ?s)" by (rule hd_in_set)
  from private_contests_need_code [OF sha alone sound refl this] priv show ?thesis by (simp add: Let_def)
qed

end
