(* ===== verification/Contest_Authority.thy ===== *)
theory Contest_Authority
  imports Contest_Access
begin

section \<open>Authority over contests\<close>

text \<open>
  What a role inside a contest is worth: the permissions an actor has there are its own and those its roles
  grant through the matrix. Only those who manage a contest change it, nobody gives a role to itself, and the
  listing of contests shows what its reader may open.
\<close>

subsection \<open>The permissions of an actor in a contest\<close>

definition contest_granted :: "contest_store \<Rightarrow> int64 \<Rightarrow> int64 \<Rightarrow> Permission \<Rightarrow> bool" where
  "contest_granted s cid uid p \<longleftrightarrow>
     (\<exists>a \<in> set (ch_assignments s). cz_ContestID a = cid \<and> cz_UserID a = uid \<and> held a \<and> (cz_Role a, p) \<in> set (ch_matrix s))"

definition row_permissions :: "access_row list \<Rightarrow> Permission set" where
  "row_permissions rows = {p. \<exists>row \<in> set rows. snd row = Some p}"

lemma contest_row_permissions: "row_permissions (contest_access_rows s cid uid) = {p. contest_granted s cid uid p}"
proof -
  have "row_permissions (case filter (\<lambda>(r, p). r = role) m of [] \<Rightarrow> [(Some role, None)] | ps \<Rightarrow> map (\<lambda>(r, p). (Some role, Some p)) ps)
      = {p. (role, p) \<in> set m}" for role and m :: "(Role \<times> Permission) list"
  proof (cases "filter (\<lambda>(r, p). r = role) m")
    case Nil
    then show ?thesis by (auto simp: row_permissions_def filter_empty_conv)
  next
    case (Cons y ys)
    then have "set (y # ys) = {x \<in> set m. fst x = role}" by (metis (mono_tags, lifting) Collect_cong case_prod_beta set_filter)
    with Cons show ?thesis by (force simp: row_permissions_def split_def)
  qed
  then show ?thesis
    unfolding row_permissions_def contest_access_rows_def contest_granted_def by (auto simp: set_eq_iff)
qed

lemma add_contest_row_permissions:
  assumes "add_contest_row row acc = Inr acc'"
  shows "set (acc_Permissions acc') = set (acc_Permissions acc) \<union> {p. snd row = Some p}"
  using assms by (auto simp: add_contest_row_def Let_def split: sum.splits if_splits option.splits)

lemma add_contest_rows_permissions:
  "add_contest_rows rows acc = Inr acc' \<Longrightarrow> set (acc_Permissions acc') = set (acc_Permissions acc) \<union> row_permissions rows"
proof (induction rows arbitrary: acc)
  case (Cons row rows)
  then obtain acc1 where one: "add_contest_row row acc = Inr acc1" and rest: "add_contest_rows rows acc1 = Inr acc'"
    by (cases "add_contest_row row acc") auto
  from Cons.IH [OF rest] add_contest_row_permissions [OF one] show ?case by (auto simp: row_permissions_def)
qed (simp add: row_permissions_def)

lemma contest_access_permissions:
  assumes "ListContestAccess collate cid uid s = Inr access"
  shows "set (acc_Permissions access) = {p. contest_granted s cid uid p}"
proof -
  from assms obtain acc where acc: "add_contest_rows (sort_by (access_order collate) (contest_access_rows s cid uid)) \<lparr>acc_Roles = [], acc_Permissions = []\<rparr> = Inr acc"
    "access = acc\<lparr>acc_Permissions := sort_by (<) (acc_Permissions acc)\<rparr>"
    by (auto simp: ListContestAccess_def map_res_def split: if_splits sum.splits)
  have "row_permissions (sort_by (access_order collate) (contest_access_rows s cid uid)) = {p. contest_granted s cid uid p}"
    unfolding contest_row_permissions [symmetric] by (simp add: row_permissions_def)
  with add_contest_rows_permissions [OF acc(1)] acc(2) show ?thesis by simp
qed

lemma add_roles_same: "ac_UserID (add_roles a rs) = ac_UserID a" "ac_Permissions (add_roles a rs) = ac_Permissions a"
  by (induction rs arbitrary: a) auto

lemma add_permissions_set:
  "ac_UserID (add_permissions a ps) = ac_UserID a \<and> set (ac_Permissions (add_permissions a ps)) = set (ac_Permissions a) \<union> set ps"
  by (induction ps arbitrary: a) (auto simp: actorHasPermission_def)

lemma scoped_permissions:
  assumes "actorWithContestRoles (reader_at env s) a cid = Inr b"
  shows "ac_UserID b = ac_UserID a
    \<and> (can b p \<longleftrightarrow> can a p \<or> Authenticated a \<and> cn_hasRoles env \<and> 0 < cid \<and> contest_granted s cid (ac_UserID a) p)"
proof (cases "cn_hasRoles env \<and> Authenticated a \<and> 0 < cid")
  case True
  with assms obtain access where "ListContestAccess (cn_collate env) cid (ac_UserID a) s = Inr access"
    "b = add_permissions (add_roles a (acc_Roles access)) (acc_Permissions access)"
    by (cases "ListContestAccess (cn_collate env) cid (ac_UserID a) s") (auto simp: actorWithContestRoles_def reader_at_def)
  with contest_access_permissions [OF this(1)] True show ?thesis
    using add_permissions_set [of "add_roles a (acc_Roles access)" "acc_Permissions access"] add_roles_same [of a "acc_Roles access"]
    by (auto simp: can_iff Authenticated_def)
next
  case False
  with assms show ?thesis by (auto simp: actorWithContestRoles_def reader_at_def split: if_splits)
qed

subsection \<open>Who changes a contest\<close>

definition contest_state :: "contest_store \<Rightarrow> int64 \<Rightarrow> contest_record list \<times> contest_problem list \<times> contest_assignment_row list" where
  "contest_state s k =
     (filter (\<lambda>c. ct_ID c = k) (contests_of s), filter (\<lambda>p. cb_ContestID p = k) (problems_of s), filter (\<lambda>a. cz_ContestID a = k) (ch_assignments s))"

definition manages :: "contest_env \<Rightarrow> contest_store \<Rightarrow> actor \<Rightarrow> contest_record \<Rightarrow> bool" where
  "manages env s a c \<longleftrightarrow> Authenticated a \<and> (ac_UserID a = ct_OwnerUserID c \<or> can a PermissionContestManage
     \<or> cn_hasRoles env \<and> contest_granted s (ct_ID c) (ac_UserID a) PermissionContestManage)"

text \<open>The check that precedes every change of a contest, on the store as it is.\<close>

definition passes_check :: "contest_env \<Rightarrow> contest_store \<Rightarrow> actor \<Rightarrow> int64 \<Rightarrow> actor \<Rightarrow> bool" where
  "passes_check env s a cid b \<longleftrightarrow> (\<exists>c. repo_GetContest cid s = Inr c \<and> actorWithContestRoles (reader_at env s) a cid = Inr b
     \<and> requireContestManager b c = Inr ())"

lemma passes_check_manages:
  assumes "contests_sound s" and "c \<in> set (contests_of s)" and "passes_check env s a (ct_ID c) b"
  shows "manages env s a c"
proof -
  have "repo_GetContest (ct_ID c) s = Inr c"
    using find_by_key [of ct_ID "contests_of s" c] assms(1,2)
    by (simp add: repo_GetContest_def read_tx_def map_err_def contest_by_id_def select_row_def contests_sound_def)
  with assms(3) have b: "actorWithContestRoles (reader_at env s) a (ct_ID c) = Inr b" "requireContestManager b c = Inr ()"
    by (auto simp: passes_check_def)
  from b(2) scoped_permissions [OF b(1), of PermissionContestManage] show ?thesis
    by (auto simp: manages_def requireContestManager_def canManageContest_def Authenticated_def can_iff split: if_splits)
qed

lemma changes_checked:
  assumes "cn_others env = id"
  shows "snd (service_UpdateContest env a cid i s) \<noteq> s \<Longrightarrow>
      \<exists>b. passes_check env s a cid b \<and> snd (service_UpdateContest env a cid i s) = snd (WithTx (update_contest_tx env b cid i) s)"
    and "snd (service_DeleteContest env a cid s) \<noteq> s \<Longrightarrow>
      \<exists>b. passes_check env s a cid b \<and> snd (service_DeleteContest env a cid s) = snd (WithTx (archive_contest_tx b cid) s)"
    and "snd (service_GrantContestRole env a cid g s) \<noteq> s \<Longrightarrow> \<exists>b role. passes_check env s a cid b
      \<and> snd (service_GrantContestRole env a cid g s) = snd (repo_GrantContestRole cid (gi_UserID g) role (ac_UserID b) (gi_Reason g) s)"
    and "snd (service_RevokeContestRole env a cid uid r reason s) \<noteq> s \<Longrightarrow> \<exists>b role. passes_check env s a cid b
      \<and> snd (service_RevokeContestRole env a cid uid r reason s) = snd (repo_RevokeContestRole cid uid role (ac_UserID b) reason s)"
  using assms
  by (auto simp: service_UpdateContest_def authoring_UpdateContest_def service_DeleteContest_def authoring_DeleteContest_def
      service_GrantContestRole_def service_RevokeContestRole_def contest_manager_def scoped_actor_def alone_simps passes_check_def
      split: sum.splits if_splits)

text \<open>Every change stays with the contest it is about.\<close>

abbreviation keeps_contest :: "int64 \<Rightarrow> 'a ctx \<Rightarrow> bool" where
  "keeps_contest k m \<equiv> keeps (\<lambda>s. contest_state s k) m"

lemma filter_update_rows: "(\<And>r. P r \<Longrightarrow> \<not> Q r \<and> \<not> Q (f r)) \<Longrightarrow> filter Q (update_rows P f rows) = filter Q rows"
  by (induction rows) (auto simp: update_rows_def)

lemma replace_problems_elsewhere: "cid \<noteq> k \<Longrightarrow> keeps_contest k (replaceContestProblems cid problems)"
proof -
  assume k: "cid \<noteq> k"
  then have "keeps_contest k (q_AddContestProblem cid p)" for p
    unfolding keeps_def q_AddContestProblem_def Let_def by (auto simp: tx_simps foreign_tx_Inr contest_state_def)
  moreover have "filter (\<lambda>p. cb_ContestID p = k \<and> cb_ContestID p \<noteq> cid) xs = filter (\<lambda>p. cb_ContestID p = k) xs" for xs :: "contest_problem list"
    using k by (intro filter_cong) auto
  then have "keeps_contest k (q_DeleteContestProblems cid)"
    by (auto simp: keeps_def q_DeleteContestProblems_def contest_state_def conj_commute)
  ultimately show ?thesis unfolding replaceContestProblems_def by (intro keeps_intros)
qed

lemma keeps_update_contest:
  assumes "\<And>sha. keeps view (q_UpdateContest sha cid i)" and "\<And>problems. keeps view (replaceContestProblems cid problems)"
  shows "keeps view (update_contest_tx env a cid i)"
proof -
  have "keeps view (\<lambda>s. bind_tx (updateContest (cn_sha256hex env) cid i) (\<lambda>updated.
       case contest_update_input.ui_Problems i of
         Some inputs \<Rightarrow>
           bind_tx (\<lambda>s. case contestProblems cid inputs of Inl e \<Rightarrow> Inl e | Inr problems \<Rightarrow> Inr (problems, s)) (\<lambda>problems.
           bind_tx (replaceContestProblems cid problems) (\<lambda>_.
             return_tx (updated\<lparr>ct_Problems := problems, ct_Registered := actorRegisteredForContest (reader_at env s0) a (ct_ID updated),
               ct_CurrentUserRoles := currentUserRoles (reader_at env s0) a (ct_ID updated)\<rparr>)))
       | None \<Rightarrow> (\<lambda>s. case withFrontendContract (reader_at env s0) a updated of Inl e \<Rightarrow> Inl e | Inr c \<Rightarrow> Inr (c, s))) s)" for s0
    unfolding updateContest_def by (intro keeps_intros keeps_res assms)
  then show ?thesis unfolding keeps_def update_contest_tx_def by blast
qed

lemma update_elsewhere: "cid \<noteq> k \<Longrightarrow> keeps_contest k (update_contest_tx env a cid i)"
  by (rule keeps_update_contest [OF _ replace_problems_elsewhere])
    (auto simp: keeps_def q_UpdateContest_def tx_simps contest_state_def with_contest_fields_def intro!: filter_update_rows)

lemma update_assignments: "keeps ch_assignments (update_contest_tx env a cid i)"
  by (rule keeps_update_contest [OF _ keeps_replace_problems]) (auto simp: keeps_def q_UpdateContest_def tx_simps)

lemma archive_assignments: "keeps ch_assignments (archive_contest_tx a cid)"
  by (auto simp: keeps_def archive_contest_tx_def repo_ArchiveContest_def q_ArchiveContest_def tx_simps map_err_Inr audit_Insert_Inr)

lemma archive_elsewhere: "cid \<noteq> k \<Longrightarrow> keeps_contest k (archive_contest_tx a cid)"
  by (auto simp: keeps_def archive_contest_tx_def repo_ArchiveContest_def q_ArchiveContest_def tx_simps map_err_Inr audit_Insert_Inr contest_state_def
      intro!: filter_update_rows)

lemma create_elsewhere:
  assumes "create_contest_tx c problems s = Inr (x, s')" and "chq_contests s \<noteq> k"
  shows "contest_state s' k = contest_state s k"
proof -
  from assms(1) obtain row s1 where made: "q_CreateContest c s = Inr (row, s1)"
    and rest: "replaceContestProblems (ct_ID row) (map (\<lambda>p. p\<lparr>cb_ContestID := ct_ID row\<rparr>) problems) s1 = Inr ((), s')"
    by (auto simp: create_contest_tx_def createContest_def tx_simps map_err_Inr Let_def)
  from made have row: "ct_ID row = chq_contests s" "contest_state s1 k = contest_state s k"
    using assms(2) by (auto simp: q_CreateContest_def Let_def tx_simps foreign_tx_Inr contest_state_def)
  with keepsD [OF replace_problems_elsewhere rest] assms(2) show ?thesis by simp
qed

lemma roles_elsewhere:
  assumes "cid \<noteq> k"
  shows "contest_state (snd (repo_GrantContestRole cid uid role g reason s)) k = contest_state s k"
    and "contest_state (snd (repo_RevokeContestRole cid uid role g reason s)) k = contest_state s k"
  using assms
  by (auto simp: repo_GrantContestRole_def WithTx_def grant_contest_role_tx_def insert_contest_assignment_def record_role_event_def Let_def
      repo_RevokeContestRole_def revoke_contest_role_tx_def revoke_contest_assignments_def
      tx_simps foreign_tx_Inr map_err_Inr contest_state_def split: sum.splits if_splits intro!: filter_update_rows)

text \<open>Registering and storing scoreboards leave every contest as it is.\<close>

lemma registrations_state: "snd (list_registrations_from id cid offset s) = s"
proof (induction "id :: contest_store \<Rightarrow> contest_store" cid offset s rule: list_registrations_from.induct)
  case (1 cid offset s)
  then show ?case by (subst list_registrations_from.simps) (auto split: sum.splits prod.splits)
qed

lemma build_state: "cn_others env = id \<Longrightarrow> snd (buildScoreboard env c view t s) = s"
  using registrations_state [of "ct_ID c" 0 s]
  by (cases "list_registrations_from id (ct_ID c) 0 s")
    (auto simp: buildScoreboard_def listRegistrations_def alone_simps Let_def split: sum.splits)

lemma snapshot_state:
  assumes "cn_others env = id" and "generate_snapshot env c view s = (r, s')"
  shows "contest_state s' k = contest_state s k"
proof -
  have "contest_state t k = contest_state s k" if "WithTx (createScoreSnapshot h) s = (q, t)" for h q t
    using that by (auto simp: WithTx_def split: sum.splits elim!: createScoreSnapshot_cases) (simp_all add: contest_state_def)
  with assms build_state [OF assms(1), of c view "go_now (ch_judging s)" s] show ?thesis
    by (cases "buildScoreboard env c view (go_now (ch_judging s)) s")
      (auto simp: generate_snapshot_def reader_clock_def alone_simps split: sum.splits prod.splits)
qed

lemma generate_each_state: "cn_others env = id \<Longrightarrow> contest_state (snd (generate_each env xs counts s)) k = contest_state s k"
proof (induction xs arbitrary: counts s)
  case (Cons x xs)
  obtain c view where x: "x = (c, view)" by (cases x)
  obtain r s1 where g: "generate_snapshot env c view s = (r, s1)" by (cases "generate_snapshot env c view s")
  from snapshot_state [OF Cons.prems g] Cons.IH [OF Cons.prems] x g show ?case by (cases r) simp_all
qed simp

fun requester :: "contest_request \<Rightarrow> actor" where
  "requester (Creating_contest a i) = a"
| "requester (Editing_contest a cid i) = a"
| "requester (Archiving_contest a cid) = a"
| "requester (Entering a cid i) = a"
| "requester (Appointing a cid i) = a"
| "requester (Dismissing a cid uid role reason) = a"
| "requester (Storing_boards limit_n) = Anonymous []"

lemma WithTx_state: "(\<And>x s'. m s = Inr (x, s') \<Longrightarrow> contest_state s' k = contest_state s k) \<Longrightarrow> contest_state (snd (WithTx m s)) k = contest_state s k"
  by (auto simp: WithTx_def split: sum.split)

lemma other_requests_state:
  assumes "cn_others env = id"
  shows "k < chq_contests s \<Longrightarrow> contest_state (snd (CreateContest env a i s)) k = contest_state s k"
    and "contest_state (snd (policy_Register env a cid r s)) k = contest_state s k"
    and "contest_state (snd (GenerateDueScoreSnapshots env limit_n s)) k = contest_state s k"
proof -
  show "contest_state (snd (CreateContest env a i s)) k = contest_state s k" if "k < chq_contests s"
    using that by (auto simp: CreateContest_def alone_simps assms Let_def split: sum.splits intro!: WithTx_state dest!: create_elsewhere)
  have "keeps_contest k (createRegistration x)" for x
    by (auto simp: keeps_def createRegistration_def q_CreateContestRegistration_def Let_def tx_simps foreign_tx_Inr map_err_Inr contest_state_def)
  then show "contest_state (snd (policy_Register env a cid r s)) k = contest_state s k"
    by (auto simp: policy_Register_def scoped_actor_def alone_simps assms keeps_def split: sum.splits intro!: WithTx_state)
  show "contest_state (snd (GenerateDueScoreSnapshots env limit_n s)) k = contest_state s k"
    by (auto simp: GenerateDueScoreSnapshots_def reader_clock_def alone_simps assms Let_def generate_each_state [OF assms] split: sum.splits)
qed

text \<open>An appointment: the new row is granted by the one who asked, and to somebody else.\<close>

definition appointed_by :: "int64 \<Rightarrow> contest_assignment_row list \<Rightarrow> contest_assignment_row list \<Rightarrow> bool" where
  "appointed_by uid before after \<longleftrightarrow>
     (\<forall>row \<in> set after. held row \<longrightarrow> row \<in> set before \<or> cz_GrantedBy row = Some uid \<and> cz_UserID row \<noteq> uid \<and> IsContestRole (cz_Role row))"

lemma keeps_assignments: "keeps ch_assignments m \<Longrightarrow> appointed_by uid (ch_assignments s) (ch_assignments (snd (WithTx m s)))"
  by (auto simp: appointed_by_def WithTx_def keeps_def split: sum.split)

lemma appointed_by_roles:
  "appointed_by g (ch_assignments s) (ch_assignments (snd (repo_GrantContestRole cid uid role g reason s)))"
  "appointed_by g (ch_assignments s) (ch_assignments (snd (repo_RevokeContestRole cid uid role r reason s)))"
  by (auto simp: repo_GrantContestRole_def WithTx_def grant_contest_role_tx_def insert_contest_assignment_def record_role_event_def Let_def
      repo_RevokeContestRole_def revoke_contest_role_tx_def revoke_contest_assignments_def appointed_by_def set_update_rows
      tx_simps foreign_tx_Inr map_err_Inr split: sum.splits if_splits)

text \<open>A request that changes a contest was checked for that contest, and appoints in the name of the one who asked.\<close>

lemma checked_here:
  assumes "t \<noteq> s \<Longrightarrow> \<exists>b u. passes_check env s a cid b \<and> t = snd (op b u s)"
    and "\<And>b u. cid \<noteq> k \<Longrightarrow> contest_state (snd (op b u s)) k = contest_state s k" and "contest_state t k \<noteq> contest_state s k"
    and "\<And>b u. ac_UserID b = ac_UserID a \<Longrightarrow> appointed_by (ac_UserID a) (ch_assignments s) (ch_assignments (snd (op b u s)))"
  shows "(\<exists>b. passes_check env s a k b) \<and> appointed_by (ac_UserID a) (ch_assignments s) (ch_assignments t)"
proof -
  from assms(1,3) obtain b u where b: "passes_check env s a cid b" "t = snd (op b u s)" by fastforce
  from assms(2) [of b u] assms(3) b(2) have "cid = k" by auto
  moreover from b(1) have "ac_UserID b = ac_UserID a" by (auto simp: passes_check_def dest: scoped_permissions)
  ultimately show ?thesis using b assms(4) by blast
qed

lemma change_checked:
  assumes alone: "cn_others env = id" and old: "k < chq_contests s"
    and changed: "contest_state (serve_contest env req s) k \<noteq> contest_state s k"
  shows "(\<exists>b. passes_check env s (requester req) k b)
    \<and> appointed_by (ac_UserID (requester req)) (ch_assignments s) (ch_assignments (serve_contest env req s))"
proof (cases req)
  case (Editing_contest a cid i)
  from changed show ?thesis unfolding Editing_contest requester.simps serve_contest.simps
    by (intro checked_here [where cid = cid and op = "\<lambda>b u. WithTx (update_contest_tx env b cid i)"])
      (auto dest: changes_checked(1) [OF alone] intro: WithTx_state keepsD [OF update_elsewhere] keeps_assignments update_assignments)
next
  case (Archiving_contest a cid)
  from changed show ?thesis unfolding Archiving_contest requester.simps serve_contest.simps
    by (intro checked_here [where cid = cid and op = "\<lambda>b u. WithTx (archive_contest_tx b cid)"])
      (auto dest: changes_checked(2) [OF alone] intro: WithTx_state keepsD [OF archive_elsewhere] keeps_assignments archive_assignments)
next
  case (Appointing a cid i)
  from changed show ?thesis unfolding Appointing requester.simps serve_contest.simps
    by (intro checked_here [where cid = cid and op = "\<lambda>b role. repo_GrantContestRole cid (gi_UserID i) role (ac_UserID b) (gi_Reason i)"])
      (use changes_checked(3) [OF alone, of a cid i s] in blast, auto simp: roles_elsewhere intro: appointed_by_roles)
next
  case (Dismissing a cid uid r reason)
  from changed show ?thesis unfolding Dismissing requester.simps serve_contest.simps
    by (intro checked_here [where cid = cid and op = "\<lambda>b role. repo_RevokeContestRole cid uid role (ac_UserID b) reason"])
      (use changes_checked(4) [OF alone, of a cid uid r reason s] in blast, auto simp: roles_elsewhere intro: appointed_by_roles)
qed (use changed old in \<open>simp_all add: other_requests_state [OF alone]\<close>)

text \<open>
  C17: Who may change a contest. A request that changes an existing contest, its problems or its roles was made by its
  owner, by a manager of contests, or by a holder of a role in this contest that grants the permission to
  manage it, as the matrix stands. No such request gives a role to the one who makes it: a new appointment is
  signed by the requester and names somebody else. Registrations and stored scoreboards change no contest.
\<close>

theorem contest_changes_authorized:
  assumes "cn_others env = id" and "contests_sound s" and "c \<in> set (contests_of s)"
    and "contest_state (serve_contest env req s) (ct_ID c) \<noteq> contest_state s (ct_ID c)"
  shows "manages env s (requester req) c
    \<and> appointed_by (ac_UserID (requester req)) (ch_assignments s) (ch_assignments (serve_contest env req s))"
proof -
  from assms(2,3) have "ct_ID c < chq_contests s" by (simp add: contests_sound_def)
  from change_checked [OF assms(1) this assms(4)] passes_check_manages [OF assms(2,3)] show ?thesis by blast
qed

subsection \<open>Listings and reading\<close>

definition roles_in_order :: "contest_store \<Rightarrow> bool" where
  "roles_in_order s \<longleftrightarrow> (\<forall>a \<in> set (ch_assignments s). IsContestRole (cz_Role a) \<and> (cz_Role a, PermissionContestRead) \<in> set (ch_matrix s))
     \<and> (\<forall>(r, p) \<in> set (ch_matrix s). p \<in> set allPermissions)"

lemma parse_contest_role: "IsContestRole role \<Longrightarrow> ParseRole role = Inr role"
proof -
  have "list_all (\<lambda>role. ParseRole role = Inr role) [RoleContestStaff, RoleContestManager, RoleContestJudge]" by code_simp
  then show "IsContestRole role \<Longrightarrow> ParseRole role = Inr role" by (auto simp: IsContestRole_def)
qed

lemma contest_access_row:
  assumes "roles_in_order s" and "row \<in> set (contest_access_rows s cid uid)"
  shows "\<exists>role. fst row = Some role \<and> IsContestRole role \<and> (\<forall>p. snd row = Some p \<longrightarrow> p \<in> set allPermissions)"
proof -
  from assms(2) obtain x where x: "x \<in> set (ch_assignments s)"
    and row: "row \<in> set (case filter (\<lambda>(r, p). r = cz_Role x) (ch_matrix s) of [] \<Rightarrow> [(Some (cz_Role x), None)]
      | ps \<Rightarrow> map (\<lambda>(r, p). (Some (cz_Role x), Some p)) ps)"
    by (auto simp: contest_access_rows_def)
  from assms(1) x have role: "IsContestRole (cz_Role x)" by (simp add: roles_in_order_def)
  show ?thesis
  proof (cases "filter (\<lambda>(r, p). r = cz_Role x) (ch_matrix s)")
    case Nil
    with row role show ?thesis by simp
  next
    case (Cons y ys)
    then have "set (y # ys) \<subseteq> set (ch_matrix s)" by (metis filter_is_subset)
    with assms(1) have "\<forall>(r, p) \<in> set (y # ys). p \<in> set allPermissions" unfolding roles_in_order_def by blast
    with row role Cons show ?thesis by auto
  qed
qed

lemma contest_access_exists:
  assumes "roles_in_order s" and "0 < cid" and "0 < uid"
  shows "\<exists>access. ListContestAccess collate cid uid s = Inr access"
proof -
  have one: "\<exists>acc'. add_contest_row r acc = Inr acc'" if "r \<in> set (contest_access_rows s cid uid)" for r acc
    using contest_access_row [OF assms(1) that]
    by (auto simp: add_contest_row_def coalesce_def parse_contest_role Lookup_iff Let_def split: option.splits)
  have "\<exists>acc'. add_contest_rows rows acc = Inr acc'" if "set rows \<subseteq> set (contest_access_rows s cid uid)" for rows acc
    using that
  proof (induction rows arbitrary: acc)
    case (Cons r rows)
    with one [of r acc] show ?case by auto
  qed simp
  from this [of "sort_by (access_order collate) (contest_access_rows s cid uid)" "\<lparr>acc_Roles = [], acc_Permissions = []\<rparr>"] show ?thesis
    using assms(2,3) by (auto simp: ListContestAccess_def map_res_def)
qed

lemma active_registration_read:
  assumes "distinct (map (\<lambda>r. (rg_ContestID r, rg_UserID r)) (registrations_of s))"
  shows "(\<exists>r. repo_GetRegistration cid uid s = Inr r \<and> rg_Status r = RegistrationActive) \<longleftrightarrow> active_registration s cid uid"
proof
  assume "\<exists>r. repo_GetRegistration cid uid s = Inr r \<and> rg_Status r = RegistrationActive"
  then show "active_registration s cid uid"
    by (auto simp: repo_GetRegistration_def read_tx_def map_err_def registration_row_def select_row_def active_registration_def find_Some_iff
        split: option.splits)
next
  assume "active_registration s cid uid"
  then obtain r where r: "r \<in> set (registrations_of s)" "rg_ContestID r = cid" "rg_UserID r = uid" "rg_Status r = RegistrationActive"
    by (auto simp: active_registration_def)
  from find_by_key [OF assms r(1)] r show "\<exists>r. repo_GetRegistration cid uid s = Inr r \<and> rg_Status r = RegistrationActive"
    by (simp add: repo_GetRegistration_def read_tx_def map_err_def registration_row_def select_row_def)
qed

lemma can_read_contest:
  assumes roles: "roles_in_order s" "cn_hasRoles env" and regs: "distinct (map (\<lambda>r. (rg_ContestID r, rg_UserID r)) (registrations_of s))"
    and a: "Authenticated a" and c: "0 < ct_ID c"
  shows "canReadContest (reader_at env s) a c = Inr () \<longleftrightarrow>
    ct_Visibility c = VisibilityPublic \<or> can a PermissionContestManageAll \<or> ac_UserID a = ct_OwnerUserID c
    \<or> can a PermissionContestRead \<or> contest_granted s (ct_ID c) (ac_UserID a) PermissionContestRead
    \<or> contest_granted s (ct_ID c) (ac_UserID a) PermissionContestManageAll \<or> active_registration s (ct_ID c) (ac_UserID a)"
proof -
  obtain access where "ListContestAccess (cn_collate env) (ct_ID c) (ac_UserID a) s = Inr access"
    using contest_access_exists [OF roles(1) c] a by (auto simp: Authenticated_def)
  then obtain b where b: "actorWithContestRoles (reader_at env s) a (ct_ID c) = Inr b"
    using roles(2) that by (cases "Authenticated a \<longrightarrow> ct_ID c \<le> 0") (simp_all add: actorWithContestRoles_def reader_at_def)
  note same = scoped_permissions [OF b]
  have reg: "rd_GetRegistration (reader_at env s) = (\<lambda>cid uid. repo_GetRegistration cid uid s)" by (simp add: reader_at_def)
  have "canReadContestAs (reader_at env s) b c = Inr () \<longleftrightarrow> ct_Visibility c = VisibilityPublic \<or> can b PermissionContestManageAll
    \<or> ac_UserID a = ct_OwnerUserID c \<or> can b PermissionContestRead \<or> active_registration s (ct_ID c) (ac_UserID a)"
    using same [of PermissionContestRead] a active_registration_read [OF regs, of "ct_ID c" "ac_UserID a"]
    by (auto simp: canReadContestAs_def canManageAllContests_def Authenticated_def reg split: sum.splits)
  with b same [of PermissionContestRead] same [of PermissionContestManageAll] a roles(2) c show ?thesis
    by (auto simp: canReadContest_def canManageAllContests_def)
qed

text \<open>
  C21: The listing and the page of a contest agree. When every role in a contest grants the permission to read it, as the
  matrix is shipped, and the permission to read contests everywhere is only given together with the one to manage all,
  a contest is listed for a reader exactly when the reader may open it: it is public, the reader's own, one
  it is registered for or has a role in, or the reader manages all contests.
\<close>

theorem listed_contests_readable:
  assumes "cn_others env = id" and "cn_hasRoles env" and "Authenticated a" and "roles_in_order s"
    and "distinct (map (\<lambda>r. (rg_ContestID r, rg_UserID r)) (registrations_of s))"
    and "can a PermissionContestRead \<Longrightarrow> can a PermissionContestManageAll"
    and "(PermissionContestManageAll \<notin> snd ` set (ch_matrix s))"
    and "\<not> cq_IncludePrivate f" and "fst (listing_scope env a f s) = Inr g" and "0 < ct_ID c"
  shows "contest_visible g s c \<longleftrightarrow> canReadContest (reader_at env s) a c = Inr ()"
proof (cases "can a PermissionContestManageAll")
  case True
  with assms(9) have "cq_IncludePrivate g" by (auto simp: listing_scope_def canManageAllContests_def return_act_def)
  then show ?thesis using True by (simp add: contest_visible_def canReadContest_def canManageAllContests_def)
next
  case False
  with assms(1,2,9) have g: "g = f\<lparr>cq_VisibleToUserID := ac_UserID a, cq_VisibleToContestIDs := ListContestIDs (ac_UserID a) s\<rparr>"
    by (auto simp: listing_scope_def canManageAllContests_def alone_simps Let_def)
  have "contest_granted s (ct_ID c) (ac_UserID a) PermissionContestRead \<longleftrightarrow> ct_ID c \<in> set (ListContestIDs (ac_UserID a) s)"
    using assms(3,4) by (force simp: contest_granted_def ListContestIDs_def roles_in_order_def Authenticated_def)
  moreover have "\<not> contest_granted s (ct_ID c) (ac_UserID a) PermissionContestManageAll"
    using assms(7) by (force simp: contest_granted_def)
  ultimately show ?thesis
    using can_read_contest [OF assms(4,2,5,3,10)] assms(3,6,8) False
    by (auto simp: g contest_visible_def int8ValuePtr_def Authenticated_def)
qed

subsection \<open>A role without the permission to read\<close>

definition listing_all :: list_contest_filter where
  "listing_all = \<lparr>cq_Status = [], cq_Visibility = [], cq_Keyword = [], cq_VisibleToUserID = 0, cq_VisibleToContestIDs = [],
     cq_IncludePrivate = False, cq_Page = 1, cq_PageSize = 20, cq_Limit = 0, cq_Offset = 0, cq_Cursor = None\<rparr>"

definition secret_contest :: contest_record where
  "secret_contest = over_contest\<lparr>ct_Visibility := VisibilityPrivate, ct_InviteCodeHash := ''#code''\<rparr>"

definition secret_store :: contest_store where
  "secret_store = set_contests [secret_contest] sample_contest_store"

text \<open>
  The listing does not read the matrix. Once the permission to read contests is taken from a contest role, its holder is
  refused the private contest, and still gets it from the listing, problems included.
\<close>

theorem listing_ignores_matrix:
  "let s = secret_store\<lparr>ch_matrix := filter (\<lambda>x. x \<noteq> (RoleContestJudge, PermissionContestRead)) (ch_matrix secret_store)\<rparr>
   in fst (service_GetContest sample_contest_env (contest_actor 5) 7 s) = fail (Forbidden ''contest.not_allowed'' ''contest access denied'')
    \<and> map_res (\<lambda>page. map (\<lambda>c. (ct_ID c, ct_Visibility c, map cb_Title (ct_Problems c))) (xl_Items page))
        (fst (ListContests sample_contest_env (contest_actor 5) listing_all s)) = Inr [(7, VisibilityPrivate, [''Sum''])]"
  by code_simp

subsection \<open>Examples\<close>

definition appointment :: contest_role_grant_input where
  "appointment = \<lparr>gi_UserID = 2, gi_Role = RoleContestManager, gi_Reason = ''helps''\<rparr>"

theorem contest_changes_authorized_witness:
  "manages sample_contest_env sample_contest_store (contest_actor 1) over_contest
   \<and> appointed_by 1 (ch_assignments sample_contest_store)
       (ch_assignments (serve_contest sample_contest_env (Appointing (contest_actor 1) 7 appointment) sample_contest_store))
   \<and> length (ch_assignments (serve_contest sample_contest_env (Appointing (contest_actor 1) 7 appointment) sample_contest_store)) = 2"
proof -
  have sound: "contests_sound sample_contest_store" by code_simp
  have c: "over_contest \<in> set (contests_of sample_contest_store)" by (simp add: sample_contest_store_def)
  have two: "length (ch_assignments (serve_contest sample_contest_env (Appointing (contest_actor 1) 7 appointment) sample_contest_store)) = 2" by code_simp
  have changed: "contest_state (serve_contest sample_contest_env (Appointing (contest_actor 1) 7 appointment) sample_contest_store) (ct_ID over_contest)
      \<noteq> contest_state sample_contest_store (ct_ID over_contest)" by code_simp
  have "ac_UserID (contest_actor 1) = 1" by (simp add: contest_actor_def)
  with contest_changes_authorized [OF sample_env_alone sound c changed] two show ?thesis by simp
qed

theorem listed_contests_readable_witness:
  "contest_visible (listing_all\<lparr>cq_VisibleToUserID := 5, cq_VisibleToContestIDs := [7]\<rparr>) secret_store secret_contest
     = (canReadContest (reader_at sample_contest_env secret_store) (contest_actor 5) secret_contest = Inr ())
   \<and> contest_visible (listing_all\<lparr>cq_VisibleToUserID := 5, cq_VisibleToContestIDs := [7]\<rparr>) secret_store secret_contest"
proof -
  have a: "Authenticated (contest_actor 5)" by code_simp
  have roles: "roles_in_order secret_store" by code_simp
  have regs: "distinct (map (\<lambda>r. (rg_ContestID r, rg_UserID r)) (registrations_of secret_store))" by code_simp
  have has: "cn_hasRoles sample_contest_env" by (simp add: sample_contest_env_def)
  have read: "can (contest_actor 5) PermissionContestRead \<Longrightarrow> can (contest_actor 5) PermissionContestManageAll" by (simp add: can_iff contest_actor_def Anonymous_def)
  have scoped: "PermissionContestManageAll \<notin> snd ` set (ch_matrix secret_store)" by code_simp
  have f: "\<not> cq_IncludePrivate listing_all" by (simp add: listing_all_def)
  have g: "fst (listing_scope sample_contest_env (contest_actor 5) listing_all secret_store)
      = Inr (listing_all\<lparr>cq_VisibleToUserID := 5, cq_VisibleToContestIDs := [7]\<rparr>)" by code_simp
  have "0 < ct_ID secret_contest" by code_simp
  from listed_contests_readable [OF sample_env_alone has a roles regs read scoped f g this]
  show ?thesis by (auto simp: contest_visible_def secret_contest_def over_contest_def sample_contest_def)
qed

end
