(* ===== verification/Spec2Isabelle.thy ===== *)
theory Spec2Isabelle
imports Scoreboard_Pages Problem_Checks Worker_Outcomes Source_Objects Account_Sessions Contest_Authority
begin

text \<open>
  A model of the SOJ online judge (Go, \<^verbatim>\<open>src/internal\<close>) and proofs about it.

  \<^bold>\<open>The program.\<close> Users submit source code for problems, inside contests or outside. The API process
  stores a submission and a judge task in one transaction; a worker claims due tasks, makes a judge
  attempt for each and publishes a request on a Redis stream; judge agents take requests, compile and
  run the code in a sandbox, compare outputs, and publish a result; the worker consumes results and
  writes them to PostgreSQL, where they also update the contest standing. Streams deliver at least
  once, workers crash and retry, tasks die and are recovered, staff rejudge submissions; the database
  transactions are what keeps all of this consistent. Authors write problems, upload testcase archives,
  have them checked and reviewed; reviewers publish them.

  \<^bold>\<open>Foundations.\<close>
  \<^item> \<open>Prelude\<close>: result types, a stable sort for \<^verbatim>\<open>sort.Slice\<close> with the locale \<open>strict_weak_order\<close> (what a
    comparison must satisfy for a unique sorted result), list lemmas.
  \<^item> \<open>Go_Strings\<close>: \<^verbatim>\<open>strings.TrimSpace\<close>, \<^verbatim>\<open>Fields\<close>, \<^verbatim>\<open>strconv.ParseInt\<close>, \<^verbatim>\<open>FormatInt\<close> and formatting.
  \<^item> \<open>Apperror\<close>: \<^verbatim>\<open>apperror/error.go\<close>, the errors every service returns.
  \<^item> \<open>Transactions\<close> (\<^verbatim>\<open>postgres/tx.go\<close>): transaction bodies over any store, statements on a table, and the rules
    for views a transaction keeps and properties it preserves.
  \<^item> \<open>Keyset\<close>: cursor pagination once and for all; the locale \<open>keyset\<close> is what a listing needs of its key
    order, and following the cursors of such a listing ends and shows every row once.

  \<^bold>\<open>Authorization.\<close> \<open>Authz\<close>: actors, roles, the permission directory and the authorizer
  (\<^verbatim>\<open>auth/actor.go\<close>, \<^verbatim>\<open>authz/*.go\<close>); the directory is consistent with the lists beside it.

  \<^bold>\<open>Judging.\<close>
  \<^item> \<open>Checker\<close> (\<^verbatim>\<open>judgecore/checker\<close>): the comparison policies; locale \<open>output_checker\<close> is what the judge core
    relies on, interpreted by the built-in checker.
  \<^item> \<open>Judge_Events\<close> (\<^verbatim>\<open>judge/judge.go\<close>, \<^verbatim>\<open>judge/events\<close>): results, stream events, validation, normalisation.
  \<^item> \<open>Judgecore\<close> (\<^verbatim>\<open>judgecore/core.go\<close>): \<^verbatim>\<open>Judge\<close> and \<^verbatim>\<open>Run\<close> over an abstract sandbox, whose operations are
    parameters (docker and local processes are outside the model): acceptance, the first failure, clean-up
    of workspaces on every path.

  \<^bold>\<open>Contests.\<close>
  \<^item> \<open>Contest\<close> (\<^verbatim>\<open>contest/service.go\<close>, \<^verbatim>\<open>policy.go\<close>, \<^verbatim>\<open>reader.go\<close>): contests, access rules, validation, admission of
    submissions, visibility of results.
  \<^item> \<open>Scoreboard\<close>, \<open>Scoreboard_Rules\<close> (\<^verbatim>\<open>scoreboard.go\<close>): boards and ranking; the ICPC rule, the freeze.
  \<^item> \<open>Scoreboard_Pages\<close> (\<^verbatim>\<open>scoreboard_pagination.go\<close>): pages and cursors; a walk over the pages ends after
    at most one request more than there are participants (its fuel) and shows the whole standing.
  \<^item> \<open>Contest_Projection\<close> (\<^verbatim>\<open>submission/contest_projection_repository.go\<close>): the stored standing, equal to the
    one computed from the submissions.
  \<^item> \<open>Contest_Store\<close> (\<^verbatim>\<open>contest/repository.go\<close>, \<^verbatim>\<open>contests.sql.go\<close>): the contest tables over the judging tables, their
    queries and the repository. The loop over the pages of registrations ends because its 32-bit offset wraps to
    a negative number, which the database refuses.
  \<^item> \<open>Contest_Service\<close> (\<^verbatim>\<open>authoring.go\<close>, \<^verbatim>\<open>roles.go\<close>, \<^verbatim>\<open>reader.go\<close>, \<^verbatim>\<open>scoreboard.go\<close>, \<^verbatim>\<open>policy.go\<close>, \<^verbatim>\<open>service.go\<close>): authoring,
    registration, roles inside a contest, listings, the scoreboard and its stored snapshots.
  \<^item> \<open>Contest_Snapshots\<close>: a stored scoreboard is served whole, as it was computed, and after a run of the generator
    none is due. \<open>Contest_Access\<close>: a relation every request keeps (an instance of \<open>rely_guarantee\<close>); private
    contests have an invite code. \<open>Contest_Authority\<close>: only those who manage a contest change it; the listing
    agrees with the check for reading as the matrix is shipped, and how it differs when the matrix is edited.

  \<^bold>\<open>Submissions.\<close>
  \<^item> \<open>Database\<close>: the judging tables as lists of rows, and the SQL queries with their guards and constraints
    (\<^verbatim>\<open>postgres/db\<close>).
  \<^item> \<open>Judge_Repository\<close>, \<open>Task_Repository\<close>, \<open>Rejudge_Repository\<close>: the repositories of \<^verbatim>\<open>internal/submission\<close>,
    one definition per operation.
  \<^item> \<open>Judge_Persistence\<close>: what completing an attempt changes; the locale \<open>result_store\<close> is what the consumer
    of an at-least-once stream relies on, interpreted by the repository: results are applied once.
  \<^item> \<open>Lifecycle_Invariant\<close>, \<open>Submission_Lifecycle\<close>: an invariant of the judging tables kept by every
    operation, as a step relation over the store: no submission is lost, verdicts are final.
  \<^item> \<open>Judge_Agent\<close> (\<^verbatim>\<open>submission/async.go\<close>): the agent that judges a request and publishes the result, the
    consumer that stores it, and the two together over an at-least-once stream.

  \<^bold>\<open>Services and workers.\<close> Handlers that make several calls, with other processes in between.
  \<^item> \<open>Site\<close> (\<^verbatim>\<open>submission/repository.go\<close>, \<^verbatim>\<open>run_repository.go\<close>, \<^verbatim>\<open>languages.sql.go\<close>, \<^verbatim>\<open>storage.go\<close>): artifacts,
    languages and testcase sets; the record \<open>site\<close> is the whole database the services work on.
  \<^item> \<open>Actions\<close>: sequences of calls that may fail, over any state, with what other processes do before each call as
    a parameter; the locale \<open>rely_guarantee\<close> is a rely-guarantee logic for them, interpreted for each relation
    that the worker, the failure handling and the services keep.
  \<^item> \<open>Worker\<close> (\<^verbatim>\<open>worker.go\<close>, \<^verbatim>\<open>reconciler.go\<close>, the loop of \<^verbatim>\<open>app/worker.go\<close>): dispatcher, failure handler,
    processor and reconciler. \<open>Task_Subjects\<close> and \<open>Worker_Refinement\<close>: whatever the worker does is a sequence of
    lifecycle steps. \<open>Worker_Outcomes\<close>: a failing task is given up after its attempts (as many deliveries as the
    theorem counts); a request that cannot be built blocks its batch.
  \<^item> \<open>Submission_Reader\<close> (\<^verbatim>\<open>submission_reader.go\<close>, \<^verbatim>\<open>submission_repository.go\<close>, the responses of \<^verbatim>\<open>handler.go\<close>): what a
    reader sees of submissions and sources; listings agree with single views.
  \<^item> \<open>Submission_Services\<close> (\<^verbatim>\<open>submission_creator.go\<close>, \<^verbatim>\<open>run_service.go\<close>, \<^verbatim>\<open>language_service.go\<close>, \<^verbatim>\<open>rejudge.go\<close>): the
    services that write. The loop of \<open>awaitRun\<close> takes the number of polls before the deadline as an argument.
  \<^item> \<open>Run_Retention\<close> (\<^verbatim>\<open>run_retention.go\<close>): the sweep of expired runs removes only what it may and leaks nothing.
    \<open>Source_Objects\<close>: submissions, runs and the sweep keep the artifact tables in order under any interleaving;
    how a refused run can leave an object behind.

  \<^bold>\<open>Problems.\<close>
  \<^item> \<open>Testcase_Archive\<close> (\<^verbatim>\<open>problem/testcase_archive.go\<close>): the archive parser over an abstract zip reader: what is
    accepted is complete, within its budgets, numbered in a total order, and loads again for judging.
  \<^item> \<open>Audit_Log\<close> (\<^verbatim>\<open>audit/audit.go\<close>), \<open>Problem_Store\<close> (\<^verbatim>\<open>postgres/db/problems.sql.go\<close>, \<^verbatim>\<open>problem_reviews.sql.go\<close>,
    \<^verbatim>\<open>cursor_query_builder.go\<close>), \<open>Problem_Repository\<close> (\<^verbatim>\<open>problem/repository.go\<close>): the tables, queries and
    repository operations of problems.
  \<^item> \<open>Problem_Service\<close> (\<^verbatim>\<open>service.go\<close>, \<^verbatim>\<open>problem_authoring.go\<close>, \<^verbatim>\<open>problem_check_service.go\<close>,
    \<^verbatim>\<open>problem_readiness.go\<close>, \<^verbatim>\<open>review.go\<close>, \<^verbatim>\<open>rbac_policy.go\<close>): every operation that changes a problem.
  \<^item> \<open>Problem_Lifecycle\<close>: the operations as steps; published problems are checked as they stand, statuses move
    along the review workflow, publishing takes a second person; and two ways around the check.
  \<^item> \<open>Problem_Checks\<close>: an accepted upload passes its check, generated slugs are valid.
  \<^item> \<open>Problem_Reader\<close> (\<^verbatim>\<open>problem_reader.go\<close>, \<^verbatim>\<open>authoring_flow.go\<close>): listings by page and by cursor (an instance
    of \<open>keyset\<close>), what a viewer may see, the authoring progress, what the judge reads.

  \<^bold>\<open>Accounts.\<close>
  \<^item> \<open>Accounts\<close> (\<^verbatim>\<open>user/repository.go\<close>, \<^verbatim>\<open>roles.go\<close>, \<^verbatim>\<open>role_permission.go\<close>, \<^verbatim>\<open>actor.go\<close>, \<^verbatim>\<open>users.sql.go\<close>): users, refresh
    tokens, role assignments and the permission matrix, their queries and repositories.
  \<^item> \<open>Account_Service\<close> (\<^verbatim>\<open>user/service.go\<close>, \<^verbatim>\<open>auth/*.go\<close>, the middleware of \<^verbatim>\<open>app/api.go\<close>): sessions, administration,
    and the actor of a request.
  \<^item> \<open>Account_Access\<close>: a relation that every request keeps (an instance of \<open>rely_guarantee\<close>); an actor can do exactly
    what the roles it holds grant, a root remains, and how every root account can still be disabled.
  \<^item> \<open>Account_Sessions\<close>: a refresh token is good for one session unless two requests race, a registration can log
    in, and the listing of users shows what requests are decided with.

  \<^bold>\<open>Conventions.\<close> An \<^verbatim>\<open>int64\<close> is an \<open>int\<close> (identifiers and counters far from the bound), an \<^verbatim>\<open>int32\<close> is a
  32-bit word, a time is an integer number of nanoseconds with 0 for Go's zero time, a nullable column an
  \<open>option\<close>. Transactions are atomic: the code takes row locks first, in a fixed order, which is what makes
  PostgreSQL run conflicting ones one after the other. Error texts are kept without the quotes of \<^verbatim>\<open>%q\<close>.

  \<^bold>\<open>Not modelled.\<close> HTTP handlers and routes, configuration, metrics and logs (glue and output); Redis, S3,
  docker and PostgreSQL themselves (clients of other systems); the sandboxes, which only call docker or start
  processes; the queue, the cache of testcases and the judge agent's slots; the text encoding of the scoreboard
  cursor, whose cursors are kept decoded.
\<close>

end
